(* ===== verification/Prelude.thy ===== *)
theory Prelude
  imports Main "HOL-Library.Word"
begin

text \<open>
  Shared vocabulary of the development: machine-integer types, errors as values, the
  result combinators in which fallible Go functions are written, the pieces of Go's string
  library the sources use, and the generic lemmas the component theories rely on.

  Go strings are byte sequences, so they are modelled by HOL's \<^typ>\<open>string\<close> (a list of
  8-bit characters). Case conversion is modelled on the ASCII letters.
\<close>

unbundle bit_operations_syntax

named_theorems go_defs \<open>unfolding of the small modelling combinators\<close>

type_synonym u8 = "8 word"
type_synonym u16 = "16 word"
type_synonym u32 = "32 word"
type_synonym u64 = "64 word"
type_synonym bytes = "8 word list"

section \<open>Errors as values\<close>

text \<open>
  \<open>ENew\<close> is \<^verbatim>\<open>E.New(message)\<close>, \<open>ECause e m\<close> is \<^verbatim>\<open>E.Cause(e, m)\<close> and
  \<open>EExtend e m\<close> is \<^verbatim>\<open>E.Extend(e, m)\<close>; \<open>EOf\<close> joins two errors, \<open>ERcode\<close> is the
  \<^verbatim>\<open>RcodeError\<close> of the DNS packages and \<open>EPanic\<close> is a Go panic that ends the call.
\<close>

datatype error =
    ENew string
  | ECause error string
  | EExtend error string
  | EOf error error
  | ERcode int
  | EPanic string

type_synonym 'a result = "error + 'a"

fun is_panic :: "error \<Rightarrow> bool" where
  "is_panic (EPanic m) = True"
| "is_panic _ = False"

text \<open>\<^verbatim>\<open>os.ErrInvalid\<close>\<close>

definition ErrInvalid :: error where "ErrInvalid = ENew ''invalid argument''"

definition bind_r :: "'a result \<Rightarrow> ('a \<Rightarrow> 'b result) \<Rightarrow> 'b result" where
  "bind_r m f = (case m of Inl e \<Rightarrow> Inl e | Inr x \<Rightarrow> f x)"

definition map_err :: "(error \<Rightarrow> error) \<Rightarrow> 'a result \<Rightarrow> 'a result" where
  "map_err g m = (case m of Inl e \<Rightarrow> Inl (g e) | Inr x \<Rightarrow> Inr x)"

text \<open>A straight-line Go function that stops at the first error: its steps in order.\<close>

fun run_steps :: "('s \<Rightarrow> 's result) list \<Rightarrow> 's \<Rightarrow> 's result" where
  "run_steps [] s = Inr s"
| "run_steps (f # fs) s = bind_r (f s) (run_steps fs)"

text \<open>A loop \<^verbatim>\<open>for i, x := range xs\<close> that collects results and stops at the first error.\<close>

fun traverse_from :: "nat \<Rightarrow> (nat \<Rightarrow> 'a \<Rightarrow> 'b result) \<Rightarrow> 'a list \<Rightarrow> 'b list result" where
  "traverse_from i f [] = Inr []"
| "traverse_from i f (x # xs) =
     bind_r (f i x) (\<lambda>y. bind_r (traverse_from (Suc i) f xs) (\<lambda>ys. Inr (y # ys)))"

abbreviation traverse :: "(nat \<Rightarrow> 'a \<Rightarrow> 'b result) \<Rightarrow> 'a list \<Rightarrow> 'b list result" where
  "traverse f xs \<equiv> traverse_from 0 f xs"

lemma bind_r_simps [simp]:
  "bind_r (Inl e) f = Inl e"
  "bind_r (Inr x) f = f x"
  by (simp_all add: bind_r_def)

lemma map_err_simps [simp]:
  "map_err g (Inl e) = Inl (g e)"
  "map_err g (Inr x) = Inr x"
  by (simp_all add: map_err_def)

lemma bind_r_eq_Inr [simp]: "bind_r m f = Inr y \<longleftrightarrow> (\<exists>x. m = Inr x \<and> f x = Inr y)"
  by (cases m) auto

lemma bind_r_eq_Inl: "bind_r m f = Inl e \<longleftrightarrow> m = Inl e \<or> (\<exists>x. m = Inr x \<and> f x = Inl e)"
  by (cases m) auto

lemma map_err_eq_Inr [simp]: "map_err g m = Inr y \<longleftrightarrow> m = Inr y"
  by (cases m) auto

lemma bind_r_assoc: "bind_r (bind_r m f) g = bind_r m (\<lambda>x. bind_r (f x) g)"
  by (cases m) auto

lemma run_steps_append:
  "run_steps (fs @ gs) s = bind_r (run_steps fs s) (run_steps gs)"
proof (induction fs arbitrary: s)
  case (Cons f fs)
  then show ?case by (cases "f s") simp_all
qed simp

lemma run_steps_invariant:
  assumes "run_steps fs s = Inr t" and "P s"
    and "\<And>f s t. f \<in> set fs \<Longrightarrow> P s \<Longrightarrow> f s = Inr t \<Longrightarrow> P t"
  shows "P t"
  using assms
proof (induction fs arbitrary: s)
  case (Cons f fs)
  from Cons.prems(1) obtain s' where s': "f s = Inr s'" "run_steps fs s' = Inr t"
    by auto
  from Cons.prems(2,3) s'(1) have "P s'" by (meson list.set_intros(1))
  with Cons.IH [OF s'(2)] Cons.prems(3) show ?case by (meson list.set_intros(2))
qed simp

lemma traverse_from_length:
  "traverse_from i f xs = Inr ys \<Longrightarrow> length ys = length xs"
  by (induction xs arbitrary: i ys) auto

lemma traverse_from_nth:
  assumes "traverse_from i f xs = Inr ys" and "k < length xs"
  shows "f (i + k) (xs ! k) = Inr (ys ! k)"
  using assms
proof (induction xs arbitrary: i ys k)
  case (Cons x xs)
  then obtain y zs where y: "f i x = Inr y" "traverse_from (Suc i) f xs = Inr zs" "ys = y # zs"
    by auto
  show ?case
  proof (cases k)
    case 0
    with y show ?thesis by simp
  next
    case (Suc j)
    with Cons.IH [OF y(2), of j] Cons.prems y(3) show ?thesis by simp
  qed
qed simp

section \<open>Maps built from lists\<close>

text \<open>
  The loop \<^verbatim>\<open>m := make(map[T]bool); for _, x := range xs { m[x] = true }\<close>. Reading an
  absent key of a Go \<^verbatim>\<open>map[T]bool\<close> gives \<^verbatim>\<open>false\<close>.
\<close>

fun mk_map_loop :: "('a \<Rightarrow> bool) \<Rightarrow> 'a list \<Rightarrow> ('a \<Rightarrow> bool)" where
  "mk_map_loop m [] = m"
| "mk_map_loop m (x # xs) = mk_map_loop (m(x := True)) xs"

definition mk_map :: "'a list \<Rightarrow> ('a \<Rightarrow> bool)" where
  "mk_map xs = mk_map_loop (\<lambda>_. False) xs"

lemma mk_map_loop_iff: "mk_map_loop m xs y \<longleftrightarrow> m y \<or> y \<in> set xs"
  by (induction xs arbitrary: m) auto

lemma mk_map_iff [simp]: "mk_map xs y \<longleftrightarrow> y \<in> set xs"
  by (simp add: mk_map_def mk_map_loop_iff)

section \<open>Strings\<close>

definition lower_char :: "char \<Rightarrow> char" where
  "lower_char c = (if 65 \<le> (of_char c :: nat) \<and> (of_char c :: nat) \<le> 90
                   then char_of ((of_char c :: nat) + 32) else c)"

text \<open>\<^verbatim>\<open>strings.ToLower\<close> and \<^verbatim>\<open>strings.EqualFold\<close> on ASCII text.\<close>

definition ToLower :: "string \<Rightarrow> string" where
  "ToLower s = map lower_char s"

definition EqualFold :: "string \<Rightarrow> string \<Rightarrow> bool" where
  "EqualFold s t \<longleftrightarrow> ToLower s = ToLower t"

fun HasPrefix :: "'a list \<Rightarrow> 'a list \<Rightarrow> bool" where
  "HasPrefix s [] = True"
| "HasPrefix [] (p # ps) = False"
| "HasPrefix (c # s) (p # ps) = (c = p \<and> HasPrefix s ps)"

definition HasSuffix :: "'a list \<Rightarrow> 'a list \<Rightarrow> bool" where
  "HasSuffix s p = HasPrefix (rev s) (rev p)"

text \<open>\<^verbatim>\<open>strings.Index\<close>: the first position of the substring, \<open>None\<close> for \<^verbatim>\<open>-1\<close>.\<close>

fun Index :: "string \<Rightarrow> string \<Rightarrow> nat option" where
  "Index [] p = (if p = [] then Some 0 else None)"
| "Index (c # s) p = (if HasPrefix (c # s) p then Some 0 else map_option Suc (Index s p))"

definition Contains :: "string \<Rightarrow> string \<Rightarrow> bool" where
  "Contains s p \<longleftrightarrow> Index s p \<noteq> None"

fun Join :: "string list \<Rightarrow> string \<Rightarrow> string" where
  "Join [] sep = []"
| "Join [x] sep = x"
| "Join (x # y # xs) sep = x @ sep @ Join (y # xs) sep"

text \<open>Decimal printing of integers, as \<^verbatim>\<open>F.ToString\<close> prints them.\<close>

definition digit_char :: "nat \<Rightarrow> char" where
  "digit_char d = char_of (48 + d)"

fun itoa :: "nat \<Rightarrow> string" where
  "itoa n = (if n < 10 then [digit_char n] else itoa (n div 10) @ [digit_char (n mod 10)])"

declare itoa.simps [simp del]

definition itoa_int :: "int \<Rightarrow> string" where
  "itoa_int i = (if i < 0 then ''-'' @ itoa (nat (- i)) else itoa (nat i))"

datatype num_error = ErrSyntax | ErrRange

text \<open>
  \<^verbatim>\<open>strconv.ParseUint(s, 10, bits)\<close>: the digits are read left to right; a character that
  is no digit is a syntax error, a value over the maximum of the width a range error.
\<close>

fun parseUint_loop :: "nat \<Rightarrow> nat \<Rightarrow> string \<Rightarrow> num_error + nat" where
  "parseUint_loop maxVal n [] = Inr n"
| "parseUint_loop maxVal n (c # cs) =
     (let d = (of_char c :: nat) in
      if d < 48 \<or> 57 < d then Inl ErrSyntax
      else let n1 = n * 10 + (d - 48) in
        if maxVal < n1 then Inl ErrRange else parseUint_loop maxVal n1 cs)"

definition ParseUint :: "string \<Rightarrow> nat \<Rightarrow> num_error + nat" where
  "ParseUint s bits = (if s = [] then Inl ErrSyntax else parseUint_loop (2 ^ bits - 1) 0 s)"

lemma HasPrefix_iff: "HasPrefix s p \<longleftrightarrow> (\<exists>r. s = p @ r)"
  by (induction s p rule: HasPrefix.induct) auto

lemma HasSuffix_iff: "HasSuffix s p \<longleftrightarrow> (\<exists>r. s = r @ p)"
proof -
  have "HasSuffix s p \<longleftrightarrow> (\<exists>r. rev s = rev p @ r)"
    by (simp add: HasSuffix_def HasPrefix_iff)
  also have "\<dots> \<longleftrightarrow> (\<exists>r. s = r @ p)"
    by (metis rev_append rev_rev_ident)
  finally show ?thesis .
qed

lemma Index_Some: "Index s p = Some i \<Longrightarrow> \<exists>a r. s = a @ p @ r \<and> length a = i"
proof (induction s arbitrary: i)
  case (Cons c s)
  show ?case
  proof (cases "HasPrefix (c # s) p")
    case True
    with Cons.prems show ?thesis by (auto simp: HasPrefix_iff)
  next
    case False
    with Cons.prems obtain j where j: "Index s p = Some j" "i = Suc j" by auto
    from Cons.IH [OF j(1)] obtain a r where "s = a @ p @ r" "length a = j" by blast
    with j(2) have "c # s = (c # a) @ p @ r" "length (c # a) = i" by auto
    then show ?thesis by blast
  qed
qed (auto split: if_splits)

lemma Index_append_Some: "Index (a @ p @ r) p \<noteq> None"
proof (induction a)
  case Nil
  have "HasPrefix (p @ r) p" by (auto simp: HasPrefix_iff)
  then show ?case by (cases "p @ r") auto
next
  case (Cons c a)
  then show ?case by auto
qed

lemma Contains_iff: "Contains s p \<longleftrightarrow> (\<exists>a r. s = a @ p @ r)"
proof
  assume "Contains s p"
  then obtain i where "Index s p = Some i" by (auto simp: Contains_def)
  then show "\<exists>a r. s = a @ p @ r" using Index_Some by blast
next
  assume "\<exists>a r. s = a @ p @ r"
  then show "Contains s p" using Index_append_Some by (auto simp: Contains_def)
qed

lemma parseUint_loop_bound:
  "parseUint_loop m n cs = Inr v \<Longrightarrow> n \<le> m \<Longrightarrow> v \<le> m"
  by (induction m n cs rule: parseUint_loop.induct) (auto simp: Let_def split: if_splits)

lemma ParseUint_bound: "ParseUint s bits = Inr v \<Longrightarrow> v < 2 ^ bits"
proof -
  assume "ParseUint s bits = Inr v"
  then have "v \<le> 2 ^ bits - 1"
    by (auto simp: ParseUint_def split: if_splits dest: parseUint_loop_bound)
  moreover have "(0::nat) < 2 ^ bits" by simp
  ultimately show "v < 2 ^ bits" by linarith
qed

end
