(* ===== verification/Rule_Context.thy ===== *)
theory Rule_Context
  imports Prelude
begin

text \<open>
  The data the routing rules look at: network addresses, the connection metadata
  (\<^verbatim>\<open>adapter.InboundContext\<close>), the process information, and the parameters that stand for
  code outside the repository: the \<^verbatim>\<open>sagernet/sing\<close> and \<^verbatim>\<open>netipx\<close> packages
  (\<open>lib\<close>) and the running services a rule item asks (\<open>runtime\<close>).
\<close>

section \<open>Addresses\<close>

text \<open>\<^verbatim>\<open>netip.Addr\<close>: the zero value, an IPv4 address, or an IPv6 address with its zone.\<close>

datatype addr = NoAddr | IPv4 u32 | IPv6 "128 word" string

definition Addr_IsValid :: "addr \<Rightarrow> bool" where
  "Addr_IsValid a \<longleftrightarrow> a \<noteq> NoAddr"

text \<open>\<^verbatim>\<open>netip.Prefix\<close>: an address and its number of bits.\<close>

datatype prefix = NoPrefix | Prefix addr nat

text \<open>\<^verbatim>\<open>M.Socksaddr\<close>: its three fields; its methods are parameters of the model.\<close>

record socksaddr =
  sa_Addr :: addr
  sa_Port :: u16
  sa_Fqdn :: string

definition no_socksaddr :: socksaddr where
  "no_socksaddr = \<lparr>sa_Addr = NoAddr, sa_Port = 0, sa_Fqdn = ''''\<rparr>"

section \<open>Objects of packages outside the repository\<close>

text \<open>
  A matcher or address set made by another package is represented by the results of the
  methods the sources call on it.
\<close>

datatype domain_matcher =
  DomainMatcher (dm_Match: "string \<Rightarrow> bool") (dm_Dump: "string list \<times> string list")

datatype adguard_matcher =
  AdGuardMatcher (am_Match: "string \<Rightarrow> bool") (am_Dump: "string list")

text \<open>
  \<^verbatim>\<open>netipx.IPSet\<close>: the membership test, its prefixes in text form, and the list of
  address ranges that \<^verbatim>\<open>common/srs/ip_set.go\<close> reads through \<^verbatim>\<open>myIPSet\<close>.
\<close>

datatype ipset =
  IPSet (ips_Contains: "addr \<Rightarrow> bool") (ips_Prefixes: "string list")
        (ips_ranges: "(addr \<times> addr) list")

datatype ipset_entry = AddPrefix prefix | AddAddr addr

record lib =
  lib_IsIP :: "socksaddr \<Rightarrow> bool"
  lib_IsIPv4 :: "socksaddr \<Rightarrow> bool"
  lib_IsIPv6 :: "socksaddr \<Rightarrow> bool"
  lib_IsFqdn :: "socksaddr \<Rightarrow> bool"
  lib_IsValid :: "socksaddr \<Rightarrow> bool"
  lib_AddrString :: "socksaddr \<Rightarrow> string"
  lib_ParseSocksaddrHostPort :: "string \<Rightarrow> u16 \<Rightarrow> socksaddr"
  lib_IsDomainName :: "string \<Rightarrow> bool"
  lib_IsPublicAddr :: "addr \<Rightarrow> bool"
  lib_NewMatcher :: "string list \<Rightarrow> string list \<Rightarrow> bool \<Rightarrow> domain_matcher"
  lib_NewAdGuardMatcher :: "string list \<Rightarrow> adguard_matcher"
  lib_regexp_Compile :: "string \<Rightarrow> (string \<Rightarrow> bool) result"
  lib_ParsePrefix :: "string \<Rightarrow> prefix result"
  lib_ParseAddr :: "string \<Rightarrow> addr result"
  lib_IPSet :: "ipset_entry list \<Rightarrow> ipset result"
  lib_filepath_Base :: "string \<Rightarrow> string"
  lib_DNSQueryTypeToString :: "u16 \<Rightarrow> string"

section \<open>Connection metadata\<close>

text \<open>\<^verbatim>\<open>process.Info\<close>\<close>

record process_info =
  pi_ProcessID :: u32
  pi_ProcessPath :: string
  pi_PackageName :: string
  pi_User :: string
  pi_UserId :: int

text \<open>\<^verbatim>\<open>C.InterfaceType\<close>, \<^verbatim>\<open>C.NetworkStrategy\<close> and \<^verbatim>\<open>C.DomainStrategy\<close> are 8-bit numbers.\<close>

type_synonym interface_type = u8
type_synonym network_strategy = u8
type_synonym domain_strategy = u8

text \<open>Durations and times are counted in nanoseconds, as \<^verbatim>\<open>time.Duration\<close> does.\<close>

type_synonym duration = int

record inbound_options =
  io_SniffEnabled :: bool
  io_SniffOverrideDestination :: bool
  io_SniffTimeout :: duration
  io_DomainStrategy :: domain_strategy
  io_UDPDisableDomainUnmapping :: bool
  io_Detour :: string

definition default_inbound_options :: inbound_options where
  "default_inbound_options =
     \<lparr>io_SniffEnabled = False, io_SniffOverrideDestination = False, io_SniffTimeout = 0,
      io_DomainStrategy = 0, io_UDPDisableDomainUnmapping = False, io_Detour = ''''\<rparr>"

text \<open>What \<^verbatim>\<open>SniffContext\<close> holds: the fragments of a QUIC handshake (\<^verbatim>\<open>qCryptoFragment\<close>).\<close>

record qCryptoFragment =
  qf_offset :: u64
  qf_length :: u64
  qf_payload :: bytes

record inbound_context =
  mc_Inbound :: string
  mc_InboundType :: string
  mc_IPVersion :: u8
  mc_Network :: string
  mc_Source :: socksaddr
  mc_Destination :: socksaddr
  mc_User :: string
  mc_Outbound :: string
  mc_Protocol :: string
  mc_Domain :: string
  mc_Client :: string
  mc_SniffContext :: "qCryptoFragment list option"
  mc_SnifferNames :: "string list"
  mc_SniffError :: "error option"
  mc_InboundDetour :: string
  mc_LastInbound :: string
  mc_OriginDestination :: socksaddr
  mc_RouteOriginalDestination :: socksaddr
  mc_InboundOptions :: inbound_options
  mc_UDPDisableDomainUnmapping :: bool
  mc_UDPConnect :: bool
  mc_UDPTimeout :: duration
  mc_TLSFragment :: bool
  mc_TLSFragmentFallbackDelay :: duration
  mc_TLSRecordFragment :: bool
  mc_NetworkStrategy :: "network_strategy option"
  mc_NetworkType :: "interface_type list"
  mc_FallbackNetworkType :: "interface_type list"
  mc_FallbackDelay :: duration
  mc_DestinationAddresses :: "addr list"
  mc_ResolveRouteOnly :: bool
  mc_SourceGeoIPCode :: string
  mc_GeoIPCode :: string
  mc_ProcessInfo :: "process_info option"
  mc_QueryType :: u16
  mc_FakeIP :: bool
  mc_IPCIDRMatchSource :: bool
  mc_IPCIDRAcceptEmpty :: bool
  mc_SourceAddressMatch :: bool
  mc_SourcePortMatch :: bool
  mc_DestinationAddressMatch :: bool
  mc_DestinationPortMatch :: bool
  mc_DidMatch :: bool
  mc_IgnoreDestinationIPCIDRMatch :: bool

text \<open>The zero value of the struct, from which every context of an inbound starts.\<close>

definition new_context :: inbound_context where
  "new_context =
    \<lparr>mc_Inbound = '''', mc_InboundType = '''', mc_IPVersion = 0, mc_Network = '''',
     mc_Source = no_socksaddr, mc_Destination = no_socksaddr, mc_User = '''', mc_Outbound = '''',
     mc_Protocol = '''', mc_Domain = '''', mc_Client = '''', mc_SniffContext = None, mc_SnifferNames = [],
     mc_SniffError = None, mc_InboundDetour = '''', mc_LastInbound = '''',
     mc_OriginDestination = no_socksaddr, mc_RouteOriginalDestination = no_socksaddr,
     mc_InboundOptions = default_inbound_options, mc_UDPDisableDomainUnmapping = False,
     mc_UDPConnect = False, mc_UDPTimeout = 0, mc_TLSFragment = False,
     mc_TLSFragmentFallbackDelay = 0, mc_TLSRecordFragment = False, mc_NetworkStrategy = None,
     mc_NetworkType = [], mc_FallbackNetworkType = [], mc_FallbackDelay = 0,
     mc_DestinationAddresses = [], mc_ResolveRouteOnly = False, mc_SourceGeoIPCode = '''',
     mc_GeoIPCode = '''', mc_ProcessInfo = None, mc_QueryType = 0, mc_FakeIP = False,
     mc_IPCIDRMatchSource = False, mc_IPCIDRAcceptEmpty = False, mc_SourceAddressMatch = False,
     mc_SourcePortMatch = False, mc_DestinationAddressMatch = False,
     mc_DestinationPortMatch = False, mc_DidMatch = False,
     mc_IgnoreDestinationIPCIDRMatch = False\<rparr>"

definition ResetRuleCache :: "inbound_context \<Rightarrow> inbound_context" where
  "ResetRuleCache c = c\<lparr>
     mc_IPCIDRMatchSource := False,
     mc_IPCIDRAcceptEmpty := False,
     mc_SourceAddressMatch := False,
     mc_SourcePortMatch := False,
     mc_DestinationAddressMatch := False,
     mc_DestinationPortMatch := False,
     mc_DidMatch := False\<rparr>"

text \<open>
  The running services a rule item reads: the Clash API server (present or not, and its
  mode), the default network interface and the Wi-Fi state.
\<close>

record network_interface =
  ni_Type :: interface_type
  ni_Expensive :: bool
  ni_Constrained :: bool

record runtime =
  rt_clashServer :: bool
  rt_clashMode :: string
  rt_DefaultNetworkInterface :: "network_interface option"
  rt_SSID :: string
  rt_BSSID :: string

section \<open>A concrete instance of the parameters\<close>

text \<open>
  A sample instance of the parameters of other packages, on which the model is evaluated:
  the address classes read off the fields, exact and suffix domain matching, and the empty
  implementations of the parsers that the examples do not need.
\<close>

definition sample_lib :: lib where
  "sample_lib = \<lparr>
     lib_IsIP = (\<lambda>s. Addr_IsValid (sa_Addr s)),
     lib_IsIPv4 = (\<lambda>s. case sa_Addr s of IPv4 _ \<Rightarrow> True | _ \<Rightarrow> False),
     lib_IsIPv6 = (\<lambda>s. case sa_Addr s of IPv6 _ _ \<Rightarrow> True | _ \<Rightarrow> False),
     lib_IsFqdn = (\<lambda>s. sa_Fqdn s \<noteq> ''''),
     lib_IsValid = (\<lambda>s. Addr_IsValid (sa_Addr s) \<or> sa_Fqdn s \<noteq> ''''),
     lib_AddrString = sa_Fqdn,
     lib_ParseSocksaddrHostPort = (\<lambda>h p. \<lparr>sa_Addr = NoAddr, sa_Port = p, sa_Fqdn = h\<rparr>),
     lib_IsDomainName = (\<lambda>s. s \<noteq> ''''),
     lib_IsPublicAddr = (\<lambda>a. case a of IPv4 w \<Rightarrow> w \<noteq> 0 | _ \<Rightarrow> True),
     lib_NewMatcher = (\<lambda>ds ss _. DomainMatcher
        (\<lambda>s. s \<in> set ds \<or> list_ex (HasSuffix s) ss) (ds, ss)),
     lib_NewAdGuardMatcher = (\<lambda>ls. AdGuardMatcher (\<lambda>s. s \<in> set ls) ls),
     lib_regexp_Compile = (\<lambda>e. if e = ''('' then Inl (ENew ''missing closing )'')
                                else Inr (\<lambda>s. Contains s e)),
     lib_ParsePrefix = (\<lambda>s. if s = ''10.0.0.0/8'' then Inr (Prefix (IPv4 167772160) 8)
                             else Inl (ENew ''no prefix'')),
     lib_ParseAddr = (\<lambda>s. if s = ''10.0.0.1'' then Inr (IPv4 167772161)
                           else Inl (ENew ''no address'')),
     lib_IPSet = (\<lambda>es. Inr (IPSet
        (\<lambda>a. case a of IPv4 w \<Rightarrow> 167772160 \<le> w \<and> w \<le> 184549375 | _ \<Rightarrow> False) []
        [(IPv4 167772160, IPv4 184549375)])),
     lib_filepath_Base = (\<lambda>s. s),
     lib_DNSQueryTypeToString = (\<lambda>t. itoa (unat t))\<rparr>"

definition sample_runtime :: runtime where
  "sample_runtime = \<lparr>rt_clashServer = False, rt_clashMode = '''',
     rt_DefaultNetworkInterface = None, rt_SSID = '''', rt_BSSID = ''''\<rparr>"

section \<open>Lemmas\<close>

text \<open>
  Two contexts that differ in the rule cache only: what a rule match may change. The cache
  is reset by \<^const>\<open>ResetRuleCache\<close>; \<^const>\<open>mc_IgnoreDestinationIPCIDRMatch\<close> is set and
  unset by the DNS rules themselves.
\<close>

definition same_facts :: "inbound_context \<Rightarrow> inbound_context \<Rightarrow> bool" where
  "same_facts c d \<longleftrightarrow> ResetRuleCache c = ResetRuleCache d"

lemma ResetRuleCache_idem [simp]: "ResetRuleCache (ResetRuleCache c) = ResetRuleCache c"
  by (simp add: ResetRuleCache_def)

lemma same_facts_refl [simp, intro]: "same_facts c c"
  by (simp add: same_facts_def)

lemma same_facts_sym: "same_facts c d \<Longrightarrow> same_facts d c"
  by (simp add: same_facts_def)

lemma same_facts_trans [trans]: "same_facts c d \<Longrightarrow> same_facts d e \<Longrightarrow> same_facts c e"
  by (simp add: same_facts_def)

lemma same_facts_reset [simp]:
  "same_facts (ResetRuleCache c) d = same_facts c d"
  "same_facts c (ResetRuleCache d) = same_facts c d"
  by (simp_all add: same_facts_def)

lemma same_facts_cache [simp]:
  "same_facts c (d\<lparr>mc_IPCIDRMatchSource := a\<rparr>) = same_facts c d"
  "same_facts c (d\<lparr>mc_IPCIDRAcceptEmpty := a\<rparr>) = same_facts c d"
  "same_facts c (d\<lparr>mc_SourceAddressMatch := a\<rparr>) = same_facts c d"
  "same_facts c (d\<lparr>mc_SourcePortMatch := a\<rparr>) = same_facts c d"
  "same_facts c (d\<lparr>mc_DestinationAddressMatch := a\<rparr>) = same_facts c d"
  "same_facts c (d\<lparr>mc_DestinationPortMatch := a\<rparr>) = same_facts c d"
  "same_facts c (d\<lparr>mc_DidMatch := a\<rparr>) = same_facts c d"
  "same_facts (c\<lparr>mc_IPCIDRMatchSource := a\<rparr>) d = same_facts c d"
  "same_facts (c\<lparr>mc_IPCIDRAcceptEmpty := a\<rparr>) d = same_facts c d"
  "same_facts (c\<lparr>mc_SourceAddressMatch := a\<rparr>) d = same_facts c d"
  "same_facts (c\<lparr>mc_SourcePortMatch := a\<rparr>) d = same_facts c d"
  "same_facts (c\<lparr>mc_DestinationAddressMatch := a\<rparr>) d = same_facts c d"
  "same_facts (c\<lparr>mc_DestinationPortMatch := a\<rparr>) d = same_facts c d"
  "same_facts (c\<lparr>mc_DidMatch := a\<rparr>) d = same_facts c d"
  by (simp_all add: same_facts_def ResetRuleCache_def)

end
