(* ===== verification/Rule_Items.thy ===== *)
theory Rule_Items
  imports Rule_Context
begin

text \<open>
  The rule items of \<^verbatim>\<open>route/rule/rule_item_*.go\<close>: for every item its constructor
  (\<open>New\<dots>\<close>), its \<^verbatim>\<open>Match\<close> method and its \<^verbatim>\<open>String\<close> method. The item that consults
  rule-sets is in theory \<open>Rule_Engine\<close>, since it changes the context; the items here only
  read it.
\<close>

section \<open>Shared shapes\<close>

text \<open>Many items keep the option list and the Go map built from it.\<close>

record 'a set_item =
  si_list :: "'a list"
  si_map :: "'a \<Rightarrow> bool"

definition new_set_item :: "'a list \<Rightarrow> 'a set_item" where
  "new_set_item xs = \<lparr>si_list = xs, si_map = mk_map xs\<rparr>"

definition desc_list :: "string \<Rightarrow> string list \<Rightarrow> string" where
  "desc_list name xs =
     (if length xs = 1 then name @ hd xs else name @ ''['' @ Join xs '' '' @ '']'')"

definition desc_list3 :: "string \<Rightarrow> string list \<Rightarrow> string" where
  "desc_list3 name xs =
     (if length xs = 1 then name @ hd xs
      else if 3 < length xs then name @ ''['' @ Join (take 3 xs) '' '' @ ''...]''
      else name @ ''['' @ Join xs '' '' @ '']'')"

text \<open>The host a domain item looks at: the sniffed or mapped domain, else the destination's.\<close>

definition domain_host :: "inbound_context \<Rightarrow> string" where
  "domain_host c = (if mc_Domain c \<noteq> '''' then mc_Domain c else sa_Fqdn (mc_Destination c))"

section \<open>Items over inbound, user, protocol, client and network\<close>

definition NewInboundRule :: "string list \<Rightarrow> string set_item" where
  "NewInboundRule inbounds = new_set_item inbounds"

definition InboundItem_Match :: "string set_item \<Rightarrow> inbound_context \<Rightarrow> bool" where
  "InboundItem_Match r c = si_map r (mc_Inbound c)"

definition InboundItem_String :: "string set_item \<Rightarrow> string" where
  "InboundItem_String r = desc_list ''inbound='' (si_list r)"

definition NewIPVersionItem :: "bool \<Rightarrow> bool" where
  "NewIPVersionItem isIPv6 = isIPv6"

definition IPVersionItem_Match :: "lib \<Rightarrow> bool \<Rightarrow> inbound_context \<Rightarrow> bool" where
  "IPVersionItem_Match L isIPv6 c \<longleftrightarrow>
     (mc_IPVersion c \<noteq> 0 \<and> (mc_IPVersion c = 6) = isIPv6) \<or>
     (lib_IsIP L (mc_Destination c) \<and> lib_IsIPv6 L (mc_Destination c) = isIPv6)"

definition IPVersionItem_String :: "bool \<Rightarrow> string" where
  "IPVersionItem_String isIPv6 = ''ip_version='' @ (if isIPv6 then ''6'' else ''4'')"

definition NewNetworkItem :: "string list \<Rightarrow> string set_item" where
  "NewNetworkItem networks = new_set_item networks"

definition NetworkItem_Match :: "string set_item \<Rightarrow> inbound_context \<Rightarrow> bool" where
  "NetworkItem_Match r c = si_map r (mc_Network c)"

definition NetworkItem_String :: "string set_item \<Rightarrow> string" where
  "NetworkItem_String r = desc_list ''network='' (si_list r)"

definition NewAuthUserItem :: "string list \<Rightarrow> string set_item" where
  "NewAuthUserItem users = new_set_item users"

definition AuthUserItem_Match :: "string set_item \<Rightarrow> inbound_context \<Rightarrow> bool" where
  "AuthUserItem_Match r c = si_map r (mc_User c)"

definition AuthUserItem_String :: "string set_item \<Rightarrow> string" where
  "AuthUserItem_String r = desc_list ''auth_user='' (si_list r)"

definition NewProtocolItem :: "string list \<Rightarrow> string set_item" where
  "NewProtocolItem protocols = new_set_item protocols"

definition ProtocolItem_Match :: "string set_item \<Rightarrow> inbound_context \<Rightarrow> bool" where
  "ProtocolItem_Match r c = si_map r (mc_Protocol c)"

definition ProtocolItem_String :: "string set_item \<Rightarrow> string" where
  "ProtocolItem_String r = desc_list ''protocol='' (si_list r)"

definition NewClientItem :: "string list \<Rightarrow> string set_item" where
  "NewClientItem clients = new_set_item clients"

definition ClientItem_Match :: "string set_item \<Rightarrow> inbound_context \<Rightarrow> bool" where
  "ClientItem_Match r c = si_map r (mc_Client c)"

definition ClientItem_String :: "string set_item \<Rightarrow> string" where
  "ClientItem_String r = desc_list ''client='' (si_list r)"

text \<open>\<^verbatim>\<open>OutboundItem\<close>: the tag \<^verbatim>\<open>any\<close> sets a flag instead of an entry of the map.\<close>

record outbound_item =
  ob_outbounds :: "string list"
  ob_outboundMap :: "string \<Rightarrow> bool"
  ob_matchAny :: bool

fun NewOutboundRule_loop :: "outbound_item \<Rightarrow> string list \<Rightarrow> outbound_item" where
  "NewOutboundRule_loop r [] = r"
| "NewOutboundRule_loop r (outbound # rest) =
     NewOutboundRule_loop
       (if outbound = ''any'' then r\<lparr>ob_matchAny := True\<rparr>
        else r\<lparr>ob_outboundMap := (ob_outboundMap r)(outbound := True)\<rparr>) rest"

definition NewOutboundRule :: "string list \<Rightarrow> outbound_item" where
  "NewOutboundRule outbounds =
     NewOutboundRule_loop
       \<lparr>ob_outbounds = outbounds, ob_outboundMap = (\<lambda>_. False), ob_matchAny = False\<rparr> outbounds"

definition OutboundItem_Match :: "outbound_item \<Rightarrow> inbound_context \<Rightarrow> bool" where
  "OutboundItem_Match r c =
     (if ob_matchAny r then mc_Outbound c \<noteq> '''' else ob_outboundMap r (mc_Outbound c))"

definition OutboundItem_String :: "outbound_item \<Rightarrow> string" where
  "OutboundItem_String r = desc_list ''outbound='' (ob_outbounds r)"

definition NewQueryTypeItem :: "u16 list \<Rightarrow> u16 set_item" where
  "NewQueryTypeItem typeList = new_set_item typeList"

definition QueryTypeItem_Match :: "u16 set_item \<Rightarrow> inbound_context \<Rightarrow> bool" where
  "QueryTypeItem_Match r c =
     (if mc_QueryType c = 0 then False else si_map r (mc_QueryType c))"

definition QueryTypeItem_String :: "lib \<Rightarrow> u16 set_item \<Rightarrow> string" where
  "QueryTypeItem_String L r =
     desc_list ''query_type='' (map (lib_DNSQueryTypeToString L) (si_list r))"

section \<open>Domain items\<close>

record domain_item =
  di_matcher :: domain_matcher
  di_description :: string

definition NewDomainItem :: "lib \<Rightarrow> string list \<Rightarrow> string list \<Rightarrow> domain_item result" where
  "NewDomainItem L domains domainSuffixes =
     (if '''' \<in> set domains then Inl (ENew ''domain: empty item is not allowed'')
      else if '''' \<in> set domainSuffixes
        then Inl (ENew ''domain_suffix: empty item is not allowed'')
      else
        let description = (if 0 < length domains then desc_list3 ''domain='' domains else '''');
            description2 =
              (if 0 < length domainSuffixes
               then description @ (if 0 < length description then '' '' else '''') @
                    desc_list3 ''domain_suffix='' domainSuffixes
               else description)
        in Inr \<lparr>di_matcher = lib_NewMatcher L domains domainSuffixes False,
                di_description = description2\<rparr>)"

definition NewRawDomainItem :: "domain_matcher \<Rightarrow> domain_item" where
  "NewRawDomainItem matcher =
     \<lparr>di_matcher = matcher, di_description = ''domain/domain_suffix=<binary>''\<rparr>"

definition DomainItem_Match :: "domain_item \<Rightarrow> inbound_context \<Rightarrow> bool" where
  "DomainItem_Match r c =
     (let domainHost = domain_host c in
      if domainHost = '''' then False else dm_Match (di_matcher r) (ToLower domainHost))"

definition DomainItem_String :: "domain_item \<Rightarrow> string" where
  "DomainItem_String r = di_description r"

definition NewDomainKeywordItem :: "string list \<Rightarrow> string list" where
  "NewDomainKeywordItem keywords = keywords"

definition DomainKeywordItem_Match :: "string list \<Rightarrow> inbound_context \<Rightarrow> bool" where
  "DomainKeywordItem_Match keywords c =
     (let domainHost = domain_host c in
      if domainHost = '''' then False
      else list_ex (\<lambda>keyword. Contains (ToLower domainHost) keyword) keywords)"

definition DomainKeywordItem_String :: "string list \<Rightarrow> string" where
  "DomainKeywordItem_String keywords = desc_list3 ''domain_keyword='' keywords"

record regex_item =
  re_matchers :: "(string \<Rightarrow> bool) list"
  re_description :: string

text \<open>The regular-expression items drop the dots of a long description.\<close>

definition desc_regex :: "string \<Rightarrow> string list \<Rightarrow> string" where
  "desc_regex name xs =
     (if length xs = 1 then name @ hd xs
      else if 3 < length xs then name @ ''['' @ Join (take 3 xs) '' '' @ '']''
      else name @ ''['' @ Join xs '' '' @ '']'')"

definition compile_all :: "lib \<Rightarrow> string list \<Rightarrow> (string \<Rightarrow> bool) list result" where
  "compile_all L expressions =
     traverse (\<lambda>i regex. map_err (\<lambda>e. ECause e (''parse expression '' @ itoa i))
                                  (lib_regexp_Compile L regex)) expressions"

definition NewDomainRegexItem :: "lib \<Rightarrow> string list \<Rightarrow> regex_item result" where
  "NewDomainRegexItem L expressions =
     bind_r (compile_all L expressions)
       (\<lambda>ms. Inr \<lparr>re_matchers = ms, re_description = desc_regex ''domain_regex='' expressions\<rparr>)"

definition DomainRegexItem_Match :: "regex_item \<Rightarrow> inbound_context \<Rightarrow> bool" where
  "DomainRegexItem_Match r c =
     (let domainHost = domain_host c in
      if domainHost = '''' then False
      else list_ex (\<lambda>matcher. matcher (ToLower domainHost)) (re_matchers r))"

definition DomainRegexItem_String :: "regex_item \<Rightarrow> string" where
  "DomainRegexItem_String r = re_description r"

definition NewAdGuardDomainItem :: "lib \<Rightarrow> string list \<Rightarrow> adguard_matcher" where
  "NewAdGuardDomainItem L ruleLines = lib_NewAdGuardMatcher L ruleLines"

definition NewRawAdGuardDomainItem :: "adguard_matcher \<Rightarrow> adguard_matcher" where
  "NewRawAdGuardDomainItem matcher = matcher"

definition AdGuardDomainItem_Match :: "adguard_matcher \<Rightarrow> inbound_context \<Rightarrow> bool" where
  "AdGuardDomainItem_Match m c =
     (let domainHost = domain_host c in
      if domainHost = '''' then False else am_Match m (ToLower domainHost))"

definition AdGuardDomainItem_String :: "adguard_matcher \<Rightarrow> string" where
  "AdGuardDomainItem_String m = ''!adguard_domain_rules=<binary>''"

section \<open>Address items\<close>

record ipcidr_item =
  ci_ipSet :: ipset
  ci_isSource :: bool
  ci_description :: string

text \<open>The loop that parses each text as a prefix, then as an address.\<close>

definition parse_cidr_entry :: "lib \<Rightarrow> nat \<Rightarrow> string \<Rightarrow> ipset_entry result" where
  "parse_cidr_entry L i prefixString =
     (case lib_ParsePrefix L prefixString of
        Inr prefix \<Rightarrow> Inr (AddPrefix prefix)
      | Inl err \<Rightarrow>
          (case lib_ParseAddr L prefixString of
             Inr addr \<Rightarrow> Inr (AddAddr addr)
           | Inl addrErr \<Rightarrow> Inl (ECause err (''parse ['' @ itoa i @ '']''))))"

definition NewIPCIDRItem :: "lib \<Rightarrow> bool \<Rightarrow> string list \<Rightarrow> ipcidr_item result" where
  "NewIPCIDRItem L isSource prefixStrings =
     bind_r (traverse (parse_cidr_entry L) prefixStrings)
       (\<lambda>entries.
         let description =
               desc_list3 (if isSource then ''source_ip_cidr='' else ''ip_cidr='') prefixStrings
         in bind_r (lib_IPSet L entries)
              (\<lambda>ipSet. Inr \<lparr>ci_ipSet = ipSet, ci_isSource = isSource,
                            ci_description = description\<rparr>))"

definition NewRawIPCIDRItem :: "bool \<Rightarrow> ipset \<Rightarrow> ipcidr_item" where
  "NewRawIPCIDRItem isSource ipSet =
     \<lparr>ci_ipSet = ipSet, ci_isSource = isSource,
      ci_description = (if isSource then ''source_ip_cidr='' else ''ip_cidr='') @ ''<binary>''\<rparr>"

definition IPCIDRItem_Match :: "lib \<Rightarrow> ipcidr_item \<Rightarrow> inbound_context \<Rightarrow> bool" where
  "IPCIDRItem_Match L r c =
     (if ci_isSource r \<or> mc_IPCIDRMatchSource c
      then ips_Contains (ci_ipSet r) (sa_Addr (mc_Source c))
      else if lib_IsIP L (mc_Destination c)
        then ips_Contains (ci_ipSet r) (sa_Addr (mc_Destination c))
      else if 0 < length (mc_DestinationAddresses c)
        then list_ex (ips_Contains (ci_ipSet r)) (mc_DestinationAddresses c)
      else mc_IPCIDRAcceptEmpty c)"

definition IPCIDRItem_String :: "ipcidr_item \<Rightarrow> string" where
  "IPCIDRItem_String r = ci_description r"

definition NewIPIsPrivateItem :: "bool \<Rightarrow> bool" where
  "NewIPIsPrivateItem isSource = isSource"

definition IPIsPrivateItem_Match :: "lib \<Rightarrow> bool \<Rightarrow> inbound_context \<Rightarrow> bool" where
  "IPIsPrivateItem_Match L isSource c =
     (let destination = (if isSource then sa_Addr (mc_Source c) else sa_Addr (mc_Destination c)) in
      if Addr_IsValid destination then \<not> lib_IsPublicAddr L destination
      else if \<not> isSource
        then list_ex (\<lambda>a. \<not> lib_IsPublicAddr L a) (mc_DestinationAddresses c)
      else False)"

definition IPIsPrivateItem_String :: "bool \<Rightarrow> string" where
  "IPIsPrivateItem_String isSource =
     (if isSource then ''source_ip_is_private=true'' else ''ip_is_private=true'')"

definition IPAcceptAnyItem_Match :: "inbound_context \<Rightarrow> bool" where
  "IPAcceptAnyItem_Match c \<longleftrightarrow> 0 < length (mc_DestinationAddresses c)"

definition IPAcceptAnyItem_String :: string where
  "IPAcceptAnyItem_String = ''ip_accept_any=true''"

section \<open>Port items\<close>

record port_item =
  po_ports :: "u16 list"
  po_portMap :: "u16 \<Rightarrow> bool"
  po_isSource :: bool

definition NewPortItem :: "bool \<Rightarrow> u16 list \<Rightarrow> port_item" where
  "NewPortItem isSource ports =
     \<lparr>po_ports = ports, po_portMap = mk_map ports, po_isSource = isSource\<rparr>"

definition PortItem_Match :: "port_item \<Rightarrow> inbound_context \<Rightarrow> bool" where
  "PortItem_Match r c =
     (if po_isSource r then po_portMap r (sa_Port (mc_Source c))
      else po_portMap r (sa_Port (mc_Destination c)))"

definition PortItem_String :: "port_item \<Rightarrow> string" where
  "PortItem_String r =
     desc_list (if po_isSource r then ''source_port='' else ''port='')
               (map (\<lambda>p. itoa (unat p)) (po_ports r))"

record port_range_item =
  pr_isSource :: bool
  pr_portRanges :: "string list"
  pr_portRangeList :: "(u16 \<times> u16) list"

definition ErrBadPortRange :: error where
  "ErrBadPortRange = ENew ''bad port range''"

definition num_error_err :: "num_error \<Rightarrow> error" where
  "num_error_err e =
     (case e of ErrSyntax \<Rightarrow> ENew ''invalid syntax'' | ErrRange \<Rightarrow> ENew ''value out of range'')"

definition parse_port :: "string \<Rightarrow> string \<Rightarrow> nat result" where
  "parse_port portRange s =
     (case ParseUint s 16 of
        Inl e \<Rightarrow> Inl (EOf (num_error_err e) (EExtend ErrBadPortRange portRange))
      | Inr n \<Rightarrow> Inr n)"

definition parse_port_range :: "string \<Rightarrow> (u16 \<times> u16) result" where
  "parse_port_range portRange =
     (case Index portRange '':'' of
        None \<Rightarrow> Inl (EExtend ErrBadPortRange portRange)
      | Some subIndex \<Rightarrow>
          bind_r (if 0 < subIndex then parse_port portRange (take subIndex portRange) else Inr 0)
            (\<lambda>start.
              bind_r (if subIndex = length portRange - 1 then Inr 65535
                      else parse_port portRange (drop (subIndex + 1) portRange))
                (\<lambda>stop. Inr (of_nat start, of_nat stop))))"

definition NewPortRangeItem :: "bool \<Rightarrow> string list \<Rightarrow> port_range_item result" where
  "NewPortRangeItem isSource rangeList =
     bind_r (traverse (\<lambda>_. parse_port_range) rangeList)
       (\<lambda>l. Inr \<lparr>pr_isSource = isSource, pr_portRanges = rangeList, pr_portRangeList = l\<rparr>)"

definition PortRangeItem_Match :: "port_range_item \<Rightarrow> inbound_context \<Rightarrow> bool" where
  "PortRangeItem_Match r c =
     (let port = (if pr_isSource r then sa_Port (mc_Source c) else sa_Port (mc_Destination c)) in
      list_ex (\<lambda>(start, stop). start \<le> port \<and> port \<le> stop) (pr_portRangeList r))"

definition PortRangeItem_String :: "port_range_item \<Rightarrow> string" where
  "PortRangeItem_String r =
     desc_list (if pr_isSource r then ''source_port_range='' else ''port_range='') (pr_portRanges r)"

section \<open>Process items\<close>

definition NewProcessItem :: "string list \<Rightarrow> string set_item" where
  "NewProcessItem processNameList = new_set_item processNameList"

definition ProcessItem_Match :: "lib \<Rightarrow> string set_item \<Rightarrow> inbound_context \<Rightarrow> bool" where
  "ProcessItem_Match L r c =
     (case mc_ProcessInfo c of None \<Rightarrow> False
      | Some p \<Rightarrow> if pi_ProcessPath p = '''' then False
                   else si_map r (lib_filepath_Base L (pi_ProcessPath p)))"

definition ProcessItem_String :: "string set_item \<Rightarrow> string" where
  "ProcessItem_String r = desc_list ''process_name='' (si_list r)"

definition NewProcessPathItem :: "string list \<Rightarrow> string set_item" where
  "NewProcessPathItem processNameList = new_set_item processNameList"

definition ProcessPathItem_Match :: "string set_item \<Rightarrow> inbound_context \<Rightarrow> bool" where
  "ProcessPathItem_Match r c =
     (case mc_ProcessInfo c of None \<Rightarrow> False
      | Some p \<Rightarrow> if pi_ProcessPath p = '''' then False else si_map r (pi_ProcessPath p))"

definition ProcessPathItem_String :: "string set_item \<Rightarrow> string" where
  "ProcessPathItem_String r = desc_list ''process_path='' (si_list r)"

definition NewProcessPathRegexItem :: "lib \<Rightarrow> string list \<Rightarrow> regex_item result" where
  "NewProcessPathRegexItem L expressions =
     bind_r (compile_all L expressions)
       (\<lambda>ms. Inr \<lparr>re_matchers = ms,
                   re_description = desc_regex ''process_path_regex='' expressions\<rparr>)"

definition ProcessPathRegexItem_Match :: "regex_item \<Rightarrow> inbound_context \<Rightarrow> bool" where
  "ProcessPathRegexItem_Match r c =
     (case mc_ProcessInfo c of None \<Rightarrow> False
      | Some p \<Rightarrow> if pi_ProcessPath p = '''' then False
                   else list_ex (\<lambda>matcher. matcher (pi_ProcessPath p)) (re_matchers r))"

definition ProcessPathRegexItem_String :: "regex_item \<Rightarrow> string" where
  "ProcessPathRegexItem_String r = re_description r"

definition NewPackageNameItem :: "string list \<Rightarrow> string set_item" where
  "NewPackageNameItem packageNameList = new_set_item packageNameList"

definition PackageNameItem_Match :: "string set_item \<Rightarrow> inbound_context \<Rightarrow> bool" where
  "PackageNameItem_Match r c =
     (case mc_ProcessInfo c of None \<Rightarrow> False
      | Some p \<Rightarrow> if pi_PackageName p = '''' then False else si_map r (pi_PackageName p))"

definition PackageNameItem_String :: "string set_item \<Rightarrow> string" where
  "PackageNameItem_String r = desc_list ''package_name='' (si_list r)"

definition NewUserItem :: "string list \<Rightarrow> string set_item" where
  "NewUserItem users = new_set_item users"

definition UserItem_Match :: "string set_item \<Rightarrow> inbound_context \<Rightarrow> bool" where
  "UserItem_Match r c =
     (case mc_ProcessInfo c of None \<Rightarrow> False
      | Some p \<Rightarrow> if pi_User p = '''' then False else si_map r (pi_User p))"

definition UserItem_String :: "string set_item \<Rightarrow> string" where
  "UserItem_String r = desc_list ''user='' (si_list r)"

definition NewUserIDItem :: "int list \<Rightarrow> int set_item" where
  "NewUserIDItem userIdList = new_set_item userIdList"

definition UserIdItem_Match :: "int set_item \<Rightarrow> inbound_context \<Rightarrow> bool" where
  "UserIdItem_Match r c =
     (case mc_ProcessInfo c of None \<Rightarrow> False
      | Some p \<Rightarrow> if pi_UserId p = -1 then False else si_map r (pi_UserId p))"

definition UserIdItem_String :: "int set_item \<Rightarrow> string" where
  "UserIdItem_String r = desc_list ''user_id='' (map itoa_int (si_list r))"

section \<open>Items over the running services\<close>

record clash_mode_item =
  cm_bound :: bool
  cm_mode :: string

definition NewClashModeItem :: "string \<Rightarrow> clash_mode_item" where
  "NewClashModeItem mode = \<lparr>cm_bound = False, cm_mode = mode\<rparr>"

text \<open>\<^verbatim>\<open>Start\<close> takes the Clash server from the context; it may be absent.\<close>

definition ClashModeItem_Start :: "runtime \<Rightarrow> clash_mode_item \<Rightarrow> clash_mode_item" where
  "ClashModeItem_Start R r = r\<lparr>cm_bound := rt_clashServer R\<rparr>"

definition ClashModeItem_Match :: "runtime \<Rightarrow> clash_mode_item \<Rightarrow> inbound_context \<Rightarrow> bool" where
  "ClashModeItem_Match R r c =
     (if \<not> cm_bound r then False else EqualFold (rt_clashMode R) (cm_mode r))"

definition ClashModeItem_String :: "clash_mode_item \<Rightarrow> string" where
  "ClashModeItem_String r = ''clash_mode='' @ cm_mode r"

definition InterfaceType_String :: "interface_type \<Rightarrow> string" where
  "InterfaceType_String t =
     (if t = 0 then ''wifi'' else if t = 1 then ''cellular'' else if t = 2 then ''ethernet''
      else if t = 3 then ''other'' else itoa (unat t))"

definition NewNetworkTypeItem :: "interface_type list \<Rightarrow> interface_type list" where
  "NewNetworkTypeItem networkType = networkType"

definition NetworkTypeItem_Match ::
  "runtime \<Rightarrow> interface_type list \<Rightarrow> inbound_context \<Rightarrow> bool" where
  "NetworkTypeItem_Match R networkType c =
     (case rt_DefaultNetworkInterface R of None \<Rightarrow> False
      | Some i \<Rightarrow> ni_Type i \<in> set networkType)"

definition NetworkTypeItem_String :: "interface_type list \<Rightarrow> string" where
  "NetworkTypeItem_String networkType =
     desc_list ''network_type='' (map InterfaceType_String networkType)"

definition NetworkIsExpensiveItem_Match :: "runtime \<Rightarrow> inbound_context \<Rightarrow> bool" where
  "NetworkIsExpensiveItem_Match R c =
     (case rt_DefaultNetworkInterface R of None \<Rightarrow> False | Some i \<Rightarrow> ni_Expensive i)"

definition NetworkIsExpensiveItem_String :: string where
  "NetworkIsExpensiveItem_String = ''network_is_expensive=true''"

definition NetworkIsConstrainedItem_Match :: "runtime \<Rightarrow> inbound_context \<Rightarrow> bool" where
  "NetworkIsConstrainedItem_Match R c =
     (case rt_DefaultNetworkInterface R of None \<Rightarrow> False | Some i \<Rightarrow> ni_Constrained i)"

definition NetworkIsConstrainedItem_String :: string where
  "NetworkIsConstrainedItem_String = ''network_is_expensive=true''"

definition NewWIFISSIDItem :: "string list \<Rightarrow> string set_item" where
  "NewWIFISSIDItem ssidList = new_set_item ssidList"

definition WIFISSIDItem_Match :: "runtime \<Rightarrow> string set_item \<Rightarrow> inbound_context \<Rightarrow> bool" where
  "WIFISSIDItem_Match R r c = si_map r (rt_SSID R)"

definition WIFISSIDItem_String :: "string set_item \<Rightarrow> string" where
  "WIFISSIDItem_String r = desc_list ''wifi_ssid='' (si_list r)"

definition NewWIFIBSSIDItem :: "string list \<Rightarrow> string set_item" where
  "NewWIFIBSSIDItem bssidList = new_set_item bssidList"

definition WIFIBSSIDItem_Match :: "runtime \<Rightarrow> string set_item \<Rightarrow> inbound_context \<Rightarrow> bool" where
  "WIFIBSSIDItem_Match R r c = si_map r (rt_BSSID R)"

definition WIFIBSSIDItem_String :: "string set_item \<Rightarrow> string" where
  "WIFIBSSIDItem_String r = desc_list ''wifi_bssid='' (si_list r)"

section \<open>The item interface\<close>

text \<open>
  \<^verbatim>\<open>RuleItem\<close> is a Go interface; \<open>leaf_item\<close> is the sum of the types that implement it
  without consulting rule-sets, and \<open>leaf_match\<close>, \<open>leaf_String\<close> are the dynamic
  dispatch.
\<close>

datatype leaf_item =
    InboundItem "string set_item"
  | IPVersionItem bool
  | QueryTypeItem "u16 set_item"
  | NetworkItem "string set_item"
  | AuthUserItem "string set_item"
  | ProtocolItem "string set_item"
  | ClientItem "string set_item"
  | DomainItem domain_item
  | DomainKeywordItem "string list"
  | DomainRegexItem regex_item
  | AdGuardDomainItem adguard_matcher
  | IPCIDRItem ipcidr_item
  | IPIsPrivateItem bool
  | IPAcceptAnyItem
  | PortItem port_item
  | PortRangeItem port_range_item
  | ProcessItem "string set_item"
  | ProcessPathItem "string set_item"
  | ProcessPathRegexItem regex_item
  | PackageNameItem "string set_item"
  | UserItem "string set_item"
  | UserIdItem "int set_item"
  | OutboundItem outbound_item
  | ClashModeItem clash_mode_item
  | NetworkTypeItem "interface_type list"
  | NetworkIsExpensiveItem
  | NetworkIsConstrainedItem
  | WIFISSIDItem "string set_item"
  | WIFIBSSIDItem "string set_item"

fun leaf_match :: "lib \<Rightarrow> runtime \<Rightarrow> leaf_item \<Rightarrow> inbound_context \<Rightarrow> bool" where
  "leaf_match L R (InboundItem r) c = InboundItem_Match r c"
| "leaf_match L R (IPVersionItem r) c = IPVersionItem_Match L r c"
| "leaf_match L R (QueryTypeItem r) c = QueryTypeItem_Match r c"
| "leaf_match L R (NetworkItem r) c = NetworkItem_Match r c"
| "leaf_match L R (AuthUserItem r) c = AuthUserItem_Match r c"
| "leaf_match L R (ProtocolItem r) c = ProtocolItem_Match r c"
| "leaf_match L R (ClientItem r) c = ClientItem_Match r c"
| "leaf_match L R (DomainItem r) c = DomainItem_Match r c"
| "leaf_match L R (DomainKeywordItem r) c = DomainKeywordItem_Match r c"
| "leaf_match L R (DomainRegexItem r) c = DomainRegexItem_Match r c"
| "leaf_match L R (AdGuardDomainItem r) c = AdGuardDomainItem_Match r c"
| "leaf_match L R (IPCIDRItem r) c = IPCIDRItem_Match L r c"
| "leaf_match L R (IPIsPrivateItem r) c = IPIsPrivateItem_Match L r c"
| "leaf_match L R IPAcceptAnyItem c = IPAcceptAnyItem_Match c"
| "leaf_match L R (PortItem r) c = PortItem_Match r c"
| "leaf_match L R (PortRangeItem r) c = PortRangeItem_Match r c"
| "leaf_match L R (ProcessItem r) c = ProcessItem_Match L r c"
| "leaf_match L R (ProcessPathItem r) c = ProcessPathItem_Match r c"
| "leaf_match L R (ProcessPathRegexItem r) c = ProcessPathRegexItem_Match r c"
| "leaf_match L R (PackageNameItem r) c = PackageNameItem_Match r c"
| "leaf_match L R (UserItem r) c = UserItem_Match r c"
| "leaf_match L R (UserIdItem r) c = UserIdItem_Match r c"
| "leaf_match L R (OutboundItem r) c = OutboundItem_Match r c"
| "leaf_match L R (ClashModeItem r) c = ClashModeItem_Match R r c"
| "leaf_match L R (NetworkTypeItem r) c = NetworkTypeItem_Match R r c"
| "leaf_match L R NetworkIsExpensiveItem c = NetworkIsExpensiveItem_Match R c"
| "leaf_match L R NetworkIsConstrainedItem c = NetworkIsConstrainedItem_Match R c"
| "leaf_match L R (WIFISSIDItem r) c = WIFISSIDItem_Match R r c"
| "leaf_match L R (WIFIBSSIDItem r) c = WIFIBSSIDItem_Match R r c"

fun leaf_String :: "lib \<Rightarrow> leaf_item \<Rightarrow> string" where
  "leaf_String L (InboundItem r) = InboundItem_String r"
| "leaf_String L (IPVersionItem r) = IPVersionItem_String r"
| "leaf_String L (QueryTypeItem r) = QueryTypeItem_String L r"
| "leaf_String L (NetworkItem r) = NetworkItem_String r"
| "leaf_String L (AuthUserItem r) = AuthUserItem_String r"
| "leaf_String L (ProtocolItem r) = ProtocolItem_String r"
| "leaf_String L (ClientItem r) = ClientItem_String r"
| "leaf_String L (DomainItem r) = DomainItem_String r"
| "leaf_String L (DomainKeywordItem r) = DomainKeywordItem_String r"
| "leaf_String L (DomainRegexItem r) = DomainRegexItem_String r"
| "leaf_String L (AdGuardDomainItem r) = AdGuardDomainItem_String r"
| "leaf_String L (IPCIDRItem r) = IPCIDRItem_String r"
| "leaf_String L (IPIsPrivateItem r) = IPIsPrivateItem_String r"
| "leaf_String L IPAcceptAnyItem = IPAcceptAnyItem_String"
| "leaf_String L (PortItem r) = PortItem_String r"
| "leaf_String L (PortRangeItem r) = PortRangeItem_String r"
| "leaf_String L (ProcessItem r) = ProcessItem_String r"
| "leaf_String L (ProcessPathItem r) = ProcessPathItem_String r"
| "leaf_String L (ProcessPathRegexItem r) = ProcessPathRegexItem_String r"
| "leaf_String L (PackageNameItem r) = PackageNameItem_String r"
| "leaf_String L (UserItem r) = UserItem_String r"
| "leaf_String L (UserIdItem r) = UserIdItem_String r"
| "leaf_String L (OutboundItem r) = OutboundItem_String r"
| "leaf_String L (ClashModeItem r) = ClashModeItem_String r"
| "leaf_String L (NetworkTypeItem r) = NetworkTypeItem_String r"
| "leaf_String L NetworkIsExpensiveItem = NetworkIsExpensiveItem_String"
| "leaf_String L NetworkIsConstrainedItem = NetworkIsConstrainedItem_String"
| "leaf_String L (WIFISSIDItem r) = WIFISSIDItem_String r"
| "leaf_String L (WIFIBSSIDItem r) = WIFIBSSIDItem_String r"

end
