(* ===== verification/Rule_Action.thy ===== *)
theory Rule_Action
  imports Rule_Items
begin

text \<open>
  Rule actions: the options they are built from (\<^verbatim>\<open>option/rule_action.go\<close>), the action
  values and their constructors (\<^verbatim>\<open>route/rule/rule_action.go\<close>), the text form of an
  action, the flood control of the reject action and the answer of a predefined action.

  The text forms of addresses and of DNS records belong to \<^verbatim>\<open>net/netip\<close> and
  \<^verbatim>\<open>miekg/dns\<close>; they are parameters (\<open>text_lib\<close>). The dialer of a direct action is
  represented by the options it was made from; whether \<^verbatim>\<open>dialer.New\<close> accepts them is a
  parameter.
\<close>

section \<open>DNS messages\<close>

text \<open>
  The types of \<^verbatim>\<open>miekg/dns\<close> the sources use: a resource record is its header and its
  data. The record types whose data the sources look at are listed; the data of the others
  stays opaque. A parameter of a service binding record is its key and its text, an option
  of an OPT record is a client subnet or another one.
\<close>

datatype edns0_option =
    EDNS0_SUBNET (eo_Code: u16) (eo_Family: u16) (eo_SourceNetmask: u8) (eo_SourceScope: u8) (eo_Address: bytes)
  | EDNS0_Other u16 bytes

datatype dns_rdata =
    RD_A bytes
  | RD_AAAA bytes
  | RD_CNAME string
  | RD_TXT "string list"
  | RD_MX u16 string
  | RD_SOA u32
  | RD_HTTPS "(u16 \<times> string) list"
  | RD_OPT "edns0_option list"
  | RD_Other string

record dns_question =
  q_Name :: string
  q_Qtype :: u16
  q_Qclass :: u16

record dns_rr =
  rr_Name :: string
  rr_Rrtype :: u16
  rr_Class :: u16
  rr_Ttl :: u32
  rr_Data :: dns_rdata

record dns_msg =
  dm_Id :: u16
  dm_Response :: bool
  dm_Opcode :: int
  dm_Authoritative :: bool
  dm_Truncated :: bool
  dm_RecursionDesired :: bool
  dm_RecursionAvailable :: bool
  dm_Zero :: bool
  dm_AuthenticatedData :: bool
  dm_CheckingDisabled :: bool
  dm_Rcode :: int
  dm_Question :: "dns_question list"
  dm_Answer :: "dns_rr list"
  dm_Ns :: "dns_rr list"
  dm_Extra :: "dns_rr list"

definition zero_dns_msg :: dns_msg where
  "zero_dns_msg = \<lparr>dm_Id = 0, dm_Response = False, dm_Opcode = 0, dm_Authoritative = False,
     dm_Truncated = False, dm_RecursionDesired = False, dm_RecursionAvailable = False,
     dm_Zero = False, dm_AuthenticatedData = False, dm_CheckingDisabled = False, dm_Rcode = 0,
     dm_Question = [], dm_Answer = [], dm_Ns = [], dm_Extra = []\<rparr>"

record text_lib =
  tl_Addr_String :: "addr \<Rightarrow> string"
  tl_Prefix_String :: "prefix \<Rightarrow> string"
  tl_RcodeToString :: "int \<Rightarrow> string"
  tl_RR_String :: "dns_rr \<Rightarrow> string"

section \<open>Durations as text\<close>

text \<open>\<^verbatim>\<open>time.Duration.String\<close>: the unit is chosen by size and a fraction loses its trailing
  zeros.\<close>

fun pad_digits :: "nat \<Rightarrow> nat \<Rightarrow> string" where
  "pad_digits 0 n = []"
| "pad_digits (Suc k) n = pad_digits k (n div 10) @ [digit_char (n mod 10)]"

definition fmt_frac :: "nat \<Rightarrow> nat \<Rightarrow> string" where
  "fmt_frac v prec =
     (if v mod 10 ^ prec = 0 then ''''
      else ''.'' @ rev (dropWhile (\<lambda>ch. ch = CHR ''0'') (rev (pad_digits prec (v mod 10 ^ prec)))))"

definition Duration_String :: "duration \<Rightarrow> string" where
  "Duration_String d =
     (let u = nat \<bar>d\<bar>; secs = u div 1000000000; mins = secs div 60; hours = mins div 60 in
      (if d < 0 then ''-'' else '''') @
      (if u = 0 then ''0s''
       else if u < 1000 then itoa u @ ''ns''
       else if u < 1000000 then itoa (u div 1000) @ fmt_frac u 3 @ [CHR 0xC2, CHR 0xB5, CHR ''s'']
       else if u < 1000000000 then itoa (u div 1000000) @ fmt_frac u 6 @ ''ms''
       else (if hours > 0 then itoa hours @ ''h'' else '''') @
            (if mins > 0 then itoa (mins mod 60) @ ''m'' else '''') @
            itoa (secs mod 60) @ fmt_frac u 9 @ ''s''))"

definition Second :: duration where "Second = 1000000000"
definition Millisecond :: duration where "Millisecond = 1000000"

section \<open>Options of the actions\<close>

definition RuleActionTypeRoute :: string where "RuleActionTypeRoute = ''route''"
definition RuleActionTypeRouteOptions :: string where "RuleActionTypeRouteOptions = ''route-options''"
definition RuleActionTypeDirect :: string where "RuleActionTypeDirect = ''direct''"
definition RuleActionTypeReject :: string where "RuleActionTypeReject = ''reject''"
definition RuleActionTypeHijackDNS :: string where "RuleActionTypeHijackDNS = ''hijack-dns''"
definition RuleActionTypeSniff :: string where "RuleActionTypeSniff = ''sniff''"
definition RuleActionTypeResolve :: string where "RuleActionTypeResolve = ''resolve''"
definition RuleActionTypePredefined :: string where "RuleActionTypePredefined = ''predefined''"
definition RuleActionRejectMethodDefault :: string where "RuleActionRejectMethodDefault = ''default''"
definition RuleActionRejectMethodDrop :: string where "RuleActionRejectMethodDrop = ''drop''"

lemmas action_type_defs = RuleActionTypeRoute_def RuleActionTypeRouteOptions_def
  RuleActionTypeDirect_def RuleActionTypeReject_def RuleActionTypeHijackDNS_def
  RuleActionTypeSniff_def RuleActionTypeResolve_def RuleActionTypePredefined_def
  RuleActionRejectMethodDefault_def RuleActionRejectMethodDrop_def

record raw_route_options =
  rro_OverrideAddress :: string
  rro_OverridePort :: u16
  rro_NetworkStrategy :: "network_strategy option"
  rro_FallbackDelay :: u32
  rro_UDPDisableDomainUnmapping :: bool
  rro_UDPConnect :: bool
  rro_UDPTimeout :: duration
  rro_TLSFragment :: bool
  rro_TLSFragmentFallbackDelay :: duration
  rro_TLSRecordFragment :: bool

definition zero_raw_route_options :: raw_route_options where
  "zero_raw_route_options = \<lparr>rro_OverrideAddress = '''', rro_OverridePort = 0,
     rro_NetworkStrategy = None, rro_FallbackDelay = 0, rro_UDPDisableDomainUnmapping = False,
     rro_UDPConnect = False, rro_UDPTimeout = 0, rro_TLSFragment = False,
     rro_TLSFragmentFallbackDelay = 0, rro_TLSRecordFragment = False\<rparr>"

record route_action_options =
  rao_Outbound :: string
  rao_Raw :: raw_route_options

text \<open>The checks of \<^verbatim>\<open>RouteOptionsActionOptions.UnmarshalJSON\<close> after decoding.\<close>

definition RouteOptionsActionOptions_UnmarshalJSON :: "raw_route_options \<Rightarrow> raw_route_options result" where
  "RouteOptionsActionOptions_UnmarshalJSON r =
     (if r = zero_raw_route_options then Inl (ENew ''empty route option action'')
      else if rro_TLSFragment r \<and> rro_TLSRecordFragment r
      then Inl (ENew ''`tls_fragment` and `tls_record_fragment` are mutually exclusive'')
      else Inr r)"

record client_subnet_from_inbound =
  csi_IPv4 :: u8
  csi_IPv6 :: u8

record domain_resolve_options =
  dro_Server :: string
  dro_Strategy :: domain_strategy
  dro_DisableCache :: bool
  dro_RewriteTTL :: "u32 option"
  dro_ClientSubnet :: "prefix option"

record dialer_options =
  do_Detour :: string
  do_BindInterface :: string
  do_Inet4BindAddress :: "addr option"
  do_Inet6BindAddress :: "addr option"
  do_ProtectPath :: string
  do_RoutingMark :: u32
  do_ReuseAddr :: bool
  do_NetNs :: string
  do_ConnectTimeout :: duration
  do_TCPFastOpen :: bool
  do_TCPMultiPath :: bool
  do_UDPFragment :: "bool option"
  do_UDPFragmentDefault :: bool
  do_DomainResolver :: "domain_resolve_options option"
  do_NetworkStrategy :: "network_strategy option"
  do_NetworkType :: "interface_type list"
  do_FallbackNetworkType :: "interface_type list"
  do_FallbackDelay :: duration
  do_DomainStrategy :: domain_strategy

definition zero_dialer_options :: dialer_options where
  "zero_dialer_options = \<lparr>do_Detour = '''', do_BindInterface = '''', do_Inet4BindAddress = None,
     do_Inet6BindAddress = None, do_ProtectPath = '''', do_RoutingMark = 0, do_ReuseAddr = False,
     do_NetNs = '''', do_ConnectTimeout = 0, do_TCPFastOpen = False, do_TCPMultiPath = False,
     do_UDPFragment = None, do_UDPFragmentDefault = False, do_DomainResolver = None,
     do_NetworkStrategy = None, do_NetworkType = [], do_FallbackNetworkType = [],
     do_FallbackDelay = 0, do_DomainStrategy = 0\<rparr>"

definition DomainStrategy_String :: "domain_strategy \<Rightarrow> string result" where
  "DomainStrategy_String s =
     (if s = 0 then Inr '''' else if s = 1 then Inr ''prefer_ipv4''
      else if s = 2 then Inr ''prefer_ipv6'' else if s = 3 then Inr ''ipv4_only''
      else if s = 4 then Inr ''ipv6_only'' else Inl (EPanic ''unknown domain strategy''))"

definition NetworkStrategy_String :: "network_strategy \<Rightarrow> string" where
  "NetworkStrategy_String s =
     (if s = 0 then ''default'' else if s = 1 then ''fallback'' else if s = 2 then ''hybrid''
      else itoa (unat s))"

definition hex_char :: "nat \<Rightarrow> char" where
  "hex_char n = (if n < 10 then digit_char n else char_of (87 + n))"

fun hex :: "nat \<Rightarrow> string" where
  "hex n = (if n < 16 then [hex_char n] else hex (n div 16) @ [hex_char (n mod 16)])"

declare hex.simps [simp del]

definition DirectActionOptions_Descriptions :: "text_lib \<Rightarrow> dialer_options \<Rightarrow> string list result" where
  "DirectActionOptions_Descriptions T d =
     bind_r (DomainStrategy_String (do_DomainStrategy d)) (\<lambda>strategy. Inr (
       (if do_BindInterface d \<noteq> '''' then [''bind_interface='' @ do_BindInterface d] else []) @
       (case do_Inet4BindAddress d of None \<Rightarrow> [] | Some a \<Rightarrow> [''inet4_bind_address='' @ tl_Addr_String T a]) @
       (case do_Inet6BindAddress d of None \<Rightarrow> [] | Some a \<Rightarrow> [''inet6_bind_address='' @ tl_Addr_String T a]) @
       (if do_RoutingMark d \<noteq> 0 then [''routing_mark=0x'' @ hex (unat (do_RoutingMark d))] else []) @
       (if do_ReuseAddr d then [''reuse_addr''] else []) @
       (if do_ConnectTimeout d \<noteq> 0 then [''connect_timeout='' @ Duration_String (do_ConnectTimeout d)] else []) @
       (if do_TCPFastOpen d then [''tcp_fast_open''] else []) @
       (if do_TCPMultiPath d then [''tcp_multi_path''] else []) @
       (case do_UDPFragment d of None \<Rightarrow> []
        | Some b \<Rightarrow> [''udp_fragment='' @ (if b then ''true'' else ''false'')]) @
       (if do_DomainStrategy d \<noteq> 0 then [''domain_strategy='' @ strategy] else []) @
       (if do_FallbackDelay d \<noteq> 0 then [''fallback_delay='' @ Duration_String (do_FallbackDelay d)] else [])))"

text \<open>The check of \<^verbatim>\<open>DirectActionOptions.UnmarshalJSON\<close> after decoding.\<close>

definition DirectActionOptions_UnmarshalJSON :: "dialer_options \<Rightarrow> dialer_options result" where
  "DirectActionOptions_UnmarshalJSON d =
     (if do_Detour d \<noteq> '''' then Inl (ENew ''detour is not available in the current context'') else Inr d)"

record reject_action_options =
  rjo_Method :: string
  rjo_NoDrop :: bool

text \<open>The checks of \<^verbatim>\<open>RejectActionOptions.UnmarshalJSON\<close> after decoding.\<close>

definition RejectActionOptions_UnmarshalJSON :: "reject_action_options \<Rightarrow> reject_action_options result" where
  "RejectActionOptions_UnmarshalJSON r =
     bind_r
       (if rjo_Method r = '''' \<or> rjo_Method r = RuleActionRejectMethodDefault
        then Inr (r\<lparr>rjo_Method := RuleActionRejectMethodDefault\<rparr>)
        else if rjo_Method r = RuleActionRejectMethodDrop then Inr r
        else Inl (ENew (''unknown reject method: '' @ rjo_Method r)))
       (\<lambda>r'. if rjo_Method r' = RuleActionRejectMethodDrop \<and> rjo_NoDrop r'
             then Inl (ENew ''no_drop is not available in current context'') else Inr r')"

record sniff_action_options =
  sno_Sniffer :: "string list"
  sno_Timeout :: duration

record resolve_action_options =
  rso_Server :: string
  rso_Strategy :: domain_strategy
  rso_DisableCache :: bool
  rso_RewriteTTL :: "u32 option"
  rso_ClientSubnet :: "prefix option"
  rso_RouteOnly :: bool
  rso_FallbackToFinal :: bool

record rule_action_options =
  rac_Action :: string
  rac_RouteOptions :: route_action_options
  rac_RouteOptionsOptions :: raw_route_options
  rac_DirectOptions :: dialer_options
  rac_RejectOptions :: reject_action_options
  rac_SniffOptions :: sniff_action_options
  rac_ResolveOptions :: resolve_action_options

definition zero_rule_action_options :: rule_action_options where
  "zero_rule_action_options = \<lparr>rac_Action = '''',
     rac_RouteOptions = \<lparr>rao_Outbound = '''', rao_Raw = zero_raw_route_options\<rparr>,
     rac_RouteOptionsOptions = zero_raw_route_options, rac_DirectOptions = zero_dialer_options,
     rac_RejectOptions = \<lparr>rjo_Method = '''', rjo_NoDrop = False\<rparr>,
     rac_SniffOptions = \<lparr>sno_Sniffer = [], sno_Timeout = 0\<rparr>,
     rac_ResolveOptions = \<lparr>rso_Server = '''', rso_Strategy = 0, rso_DisableCache = False,
       rso_RewriteTTL = None, rso_ClientSubnet = None, rso_RouteOnly = False,
       rso_FallbackToFinal = False\<rparr>\<rparr>"

record dns_route_action_options =
  dra_Server :: "string list"
  dra_FallbackDNS :: "string list"
  dra_UpstreamTimeoutMS :: u32
  dra_FallbackTimeoutMS :: u32
  dra_FallbackGraceMS :: u32
  dra_Strategy :: domain_strategy
  dra_DisableCache :: bool
  dra_RewriteTTL :: "u32 option"
  dra_ClientSubnet :: "prefix option"
  dra_ClientSubnetFromInbound :: "client_subnet_from_inbound option"

record dns_route_options_action_options =
  drp_Strategy :: domain_strategy
  drp_DisableCache :: bool
  drp_RewriteTTL :: "u32 option"
  drp_ClientSubnet :: "prefix option"
  drp_ClientSubnetFromInbound :: "client_subnet_from_inbound option"

definition zero_dns_route_options :: dns_route_options_action_options where
  "zero_dns_route_options = \<lparr>drp_Strategy = 0, drp_DisableCache = False, drp_RewriteTTL = None,
     drp_ClientSubnet = None, drp_ClientSubnetFromInbound = None\<rparr>"

definition DNSRouteOptionsActionOptions_UnmarshalJSON ::
  "dns_route_options_action_options \<Rightarrow> dns_route_options_action_options result" where
  "DNSRouteOptionsActionOptions_UnmarshalJSON r =
     (if r = zero_dns_route_options then Inl (ENew ''empty DNS route option action'') else Inr r)"

text \<open>\<^verbatim>\<open>DNSRCode.Build\<close> and the predefined answer; a decoded record is its \<^verbatim>\<open>dns.RR\<close>.\<close>

record dns_predefined_options =
  dpo_Rcode :: "int option"
  dpo_Answer :: "dns_rr list"
  dpo_Ns :: "dns_rr list"
  dpo_Extra :: "dns_rr list"

definition DNSRCode_Build :: "int option \<Rightarrow> int" where
  "DNSRCode_Build r = (case r of None \<Rightarrow> 0 | Some i \<Rightarrow> i)"

record dns_rule_action_options =
  dac_Action :: string
  dac_RouteOptions :: dns_route_action_options
  dac_RouteOptionsOptions :: dns_route_options_action_options
  dac_RejectOptions :: reject_action_options
  dac_PredefinedOptions :: dns_predefined_options

definition zero_dns_rule_action_options :: dns_rule_action_options where
  "zero_dns_rule_action_options = \<lparr>dac_Action = '''',
     dac_RouteOptions = \<lparr>dra_Server = [], dra_FallbackDNS = [], dra_UpstreamTimeoutMS = 0,
       dra_FallbackTimeoutMS = 0, dra_FallbackGraceMS = 0, dra_Strategy = 0,
       dra_DisableCache = False, dra_RewriteTTL = None, dra_ClientSubnet = None,
       dra_ClientSubnetFromInbound = None\<rparr>,
     dac_RouteOptionsOptions = zero_dns_route_options,
     dac_RejectOptions = \<lparr>rjo_Method = '''', rjo_NoDrop = False\<rparr>,
     dac_PredefinedOptions = \<lparr>dpo_Rcode = None, dpo_Answer = [], dpo_Ns = [], dpo_Extra = []\<rparr>\<rparr>"

section \<open>Actions\<close>

record route_options =
  ro_OverrideAddress :: socksaddr
  ro_OverridePort :: u16
  ro_NetworkStrategy :: "network_strategy option"
  ro_NetworkType :: "interface_type list option"
  ro_FallbackNetworkType :: "interface_type list option"
  ro_FallbackDelay :: duration
  ro_UDPDisableDomainUnmapping :: bool
  ro_UDPConnect :: bool
  ro_UDPTimeout :: duration
  ro_TLSFragment :: bool
  ro_TLSFragmentFallbackDelay :: duration
  ro_TLSRecordFragment :: bool

record dns_route_options =
  dr_Strategy :: domain_strategy
  dr_DisableCache :: bool
  dr_RewriteTTL :: "u32 option"
  dr_ClientSubnet :: prefix
  dr_ClientSubnetFromInbound :: "client_subnet_from_inbound option"

record dns_route =
  dr_Servers :: "string list"
  dr_FallbackServers :: "string list"
  dr_UpstreamTimeout :: duration
  dr_FallbackTimeout :: duration
  dr_FallbackGrace :: duration
  dr_Options :: dns_route_options

record reject_action =
  rj_Method :: string
  rj_NoDrop :: bool
  rj_dropCounter :: "int list"

datatype stream_sniffer = TLSClientHello | HTTPHost | StreamDomainNameQuery | BitTorrent | SSH | RDP
datatype packet_sniffer = QUICClientHello | DomainNameQuery | STUNMessage | UTP | UDPTracker
  | DTLSRecord | NTP

record sniff_action =
  sn_SnifferNames :: "string list"
  sn_StreamSniffers :: "stream_sniffer list"
  sn_PacketSniffers :: "packet_sniffer list"
  sn_Timeout :: duration
  sn_OverrideDestination :: bool

record resolve_action =
  rs_Server :: string
  rs_Strategy :: domain_strategy
  rs_DisableCache :: bool
  rs_RewriteTTL :: "u32 option"
  rs_ClientSubnet :: prefix
  rs_RouteOnly :: bool
  rs_FallbackToFinal :: bool

record predefined_action =
  pd_Rcode :: int
  pd_Answer :: "dns_rr list"
  pd_Ns :: "dns_rr list"
  pd_Extra :: "dns_rr list"

datatype rule_action =
    RuleActionRoute string route_options
  | RuleActionRouteOptions route_options
  | RuleActionDNSRoute dns_route
  | RuleActionDNSRouteOptions dns_route_options
  | RuleActionDirect dialer_options string
  | RuleActionReject reject_action
  | RuleActionHijackDNS
  | RuleActionSniff sniff_action
  | RuleActionResolve resolve_action
  | RuleActionPredefined predefined_action

subsection \<open>Constructors\<close>

fun sniff_build :: "string list \<Rightarrow> sniff_action \<Rightarrow> sniff_action result" where
  "sniff_build [] r = Inr r"
| "sniff_build (name # names) r =
     (let addS = (\<lambda>xs a. a\<lparr>sn_StreamSniffers := sn_StreamSniffers a @ xs\<rparr>);
          addP = (\<lambda>xs a. a\<lparr>sn_PacketSniffers := sn_PacketSniffers a @ xs\<rparr>) in
      if name = ''tls'' then sniff_build names (addS [TLSClientHello] r)
      else if name = ''http'' then sniff_build names (addS [HTTPHost] r)
      else if name = ''quic'' then sniff_build names (addP [QUICClientHello] r)
      else if name = ''dns'' then sniff_build names (addP [DomainNameQuery] (addS [StreamDomainNameQuery] r))
      else if name = ''stun'' then sniff_build names (addP [STUNMessage] r)
      else if name = ''bittorrent''
      then sniff_build names (addP [UDPTracker] (addP [UTP] (addS [BitTorrent] r)))
      else if name = ''dtls'' then sniff_build names (addP [DTLSRecord] r)
      else if name = ''ssh'' then sniff_build names (addS [SSH] r)
      else if name = ''rdp'' then sniff_build names (addS [RDP] r)
      else if name = ''ntp'' then sniff_build names (addP [NTP] r)
      else Inl (ENew (''unknown sniffer: '' @ name)))"

text \<open>\<^verbatim>\<open>Prefixable.Build(netip.Prefix{})\<close> and \<^verbatim>\<open>PtrValueOrDefault\<close> of a prefix pointer.\<close>

definition prefix_or_zero :: "prefix option \<Rightarrow> prefix" where
  "prefix_or_zero p = (case p of None \<Rightarrow> NoPrefix | Some q \<Rightarrow> q)"

definition direct_description :: "string list \<Rightarrow> string" where
  "direct_description ds =
     (case ds of [] \<Rightarrow> ''''
      | [a] \<Rightarrow> ''('' @ a @ '')''
      | [a, b] \<Rightarrow> ''('' @ a @ '','' @ b @ '')''
      | a # b # _ \<Rightarrow> ''('' @ a @ '','' @ b @ '',...)'')"

definition NewRuleAction ::
  "lib \<Rightarrow> text_lib \<Rightarrow> (dialer_options \<Rightarrow> dialer_options result) \<Rightarrow> rule_action_options \<Rightarrow>
   rule_action option result" where
  "NewRuleAction L T dialer_New action =
     (if rac_Action action = '''' then Inr None
      else if rac_Action action = RuleActionTypeRoute then
        (let o1 = rac_RouteOptions action; o2 = rao_Raw o1 in
         Inr (Some (RuleActionRoute (rao_Outbound o1)
           \<lparr>ro_OverrideAddress = lib_ParseSocksaddrHostPort L (rro_OverrideAddress o2) 0,
            ro_OverridePort = rro_OverridePort o2,
            ro_NetworkStrategy = rro_NetworkStrategy o2,
            ro_NetworkType = None,
            ro_FallbackNetworkType = None,
            ro_FallbackDelay = uint (rro_FallbackDelay o2),
            ro_UDPDisableDomainUnmapping = rro_UDPDisableDomainUnmapping o2,
            ro_UDPConnect = rro_UDPConnect o2,
            ro_UDPTimeout = 0,
            ro_TLSFragment = rro_TLSFragment o2,
            ro_TLSFragmentFallbackDelay = rro_TLSFragmentFallbackDelay o2,
            ro_TLSRecordFragment = rro_TLSRecordFragment o2\<rparr>)))
      else if rac_Action action = RuleActionTypeRouteOptions then
        (let o2 = rac_RouteOptionsOptions action in
         Inr (Some (RuleActionRouteOptions
           \<lparr>ro_OverrideAddress = lib_ParseSocksaddrHostPort L (rro_OverrideAddress o2) 0,
            ro_OverridePort = rro_OverridePort o2,
            ro_NetworkStrategy = rro_NetworkStrategy o2,
            ro_NetworkType = None,
            ro_FallbackNetworkType = None,
            ro_FallbackDelay = uint (rro_FallbackDelay o2),
            ro_UDPDisableDomainUnmapping = rro_UDPDisableDomainUnmapping o2,
            ro_UDPConnect = rro_UDPConnect o2,
            ro_UDPTimeout = rro_UDPTimeout o2,
            ro_TLSFragment = rro_TLSFragment o2,
            ro_TLSFragmentFallbackDelay = rro_TLSFragmentFallbackDelay o2,
            ro_TLSRecordFragment = rro_TLSRecordFragment o2\<rparr>)))
      else if rac_Action action = RuleActionTypeDirect then
        bind_r (dialer_New (rac_DirectOptions action)) (\<lambda>directDialer.
        bind_r (DirectActionOptions_Descriptions T (rac_DirectOptions action)) (\<lambda>ds.
          Inr (Some (RuleActionDirect directDialer (direct_description ds)))))
      else if rac_Action action = RuleActionTypeReject then
        Inr (Some (RuleActionReject
          \<lparr>rj_Method = rjo_Method (rac_RejectOptions action),
           rj_NoDrop = rjo_NoDrop (rac_RejectOptions action), rj_dropCounter = []\<rparr>))
      else if rac_Action action = RuleActionTypeHijackDNS then Inr (Some RuleActionHijackDNS)
      else if rac_Action action = RuleActionTypeSniff then
        bind_r (sniff_build (sno_Sniffer (rac_SniffOptions action))
          \<lparr>sn_SnifferNames = sno_Sniffer (rac_SniffOptions action), sn_StreamSniffers = [],
           sn_PacketSniffers = [], sn_Timeout = sno_Timeout (rac_SniffOptions action),
           sn_OverrideDestination = False\<rparr>) (\<lambda>a. Inr (Some (RuleActionSniff a)))
      else if rac_Action action = RuleActionTypeResolve then
        (let o3 = rac_ResolveOptions action in
         Inr (Some (RuleActionResolve
           \<lparr>rs_Server = rso_Server o3, rs_Strategy = rso_Strategy o3,
            rs_DisableCache = rso_DisableCache o3, rs_RewriteTTL = rso_RewriteTTL o3,
            rs_ClientSubnet = prefix_or_zero (rso_ClientSubnet o3),
            rs_RouteOnly = rso_RouteOnly o3, rs_FallbackToFinal = rso_FallbackToFinal o3\<rparr>)))
      else Inl (EPanic (''unknown rule action: '' @ rac_Action action)))"

definition NewDNSRuleAction :: "dns_rule_action_options \<Rightarrow> rule_action option result" where
  "NewDNSRuleAction action =
     (if dac_Action action = '''' then Inr None
      else if dac_Action action = RuleActionTypeRoute then
        (let o1 = dac_RouteOptions action in
         Inr (Some (RuleActionDNSRoute
           \<lparr>dr_Servers = dra_Server o1, dr_FallbackServers = dra_FallbackDNS o1,
            dr_UpstreamTimeout = uint (dra_UpstreamTimeoutMS o1) * Millisecond,
            dr_FallbackTimeout = uint (dra_FallbackTimeoutMS o1) * Millisecond,
            dr_FallbackGrace = uint (dra_FallbackGraceMS o1) * Millisecond,
            dr_Options = \<lparr>dr_Strategy = dra_Strategy o1, dr_DisableCache = dra_DisableCache o1,
              dr_RewriteTTL = dra_RewriteTTL o1,
              dr_ClientSubnet = prefix_or_zero (dra_ClientSubnet o1),
              dr_ClientSubnetFromInbound = dra_ClientSubnetFromInbound o1\<rparr>\<rparr>)))
      else if dac_Action action = RuleActionTypeRouteOptions then
        (let o2 = dac_RouteOptionsOptions action in
         Inr (Some (RuleActionDNSRouteOptions
           \<lparr>dr_Strategy = drp_Strategy o2, dr_DisableCache = drp_DisableCache o2,
            dr_RewriteTTL = drp_RewriteTTL o2,
            dr_ClientSubnet = prefix_or_zero (drp_ClientSubnet o2),
            dr_ClientSubnetFromInbound = drp_ClientSubnetFromInbound o2\<rparr>)))
      else if dac_Action action = RuleActionTypeReject then
        Inr (Some (RuleActionReject
          \<lparr>rj_Method = rjo_Method (dac_RejectOptions action),
           rj_NoDrop = rjo_NoDrop (dac_RejectOptions action), rj_dropCounter = []\<rparr>))
      else if dac_Action action = RuleActionTypePredefined then
        (let o3 = dac_PredefinedOptions action in
         Inr (Some (RuleActionPredefined
           \<lparr>pd_Rcode = DNSRCode_Build (dpo_Rcode o3), pd_Answer = dpo_Answer o3,
            pd_Ns = dpo_Ns o3, pd_Extra = dpo_Extra o3\<rparr>)))
      else Inl (EPanic (''unknown rule action: '' @ dac_Action action)))"

subsection \<open>Type and text form\<close>

fun RuleAction_Type :: "rule_action \<Rightarrow> string" where
  "RuleAction_Type (RuleActionRoute ob r) = RuleActionTypeRoute"
| "RuleAction_Type (RuleActionRouteOptions r) = RuleActionTypeRouteOptions"
| "RuleAction_Type (RuleActionDNSRoute r) = RuleActionTypeRoute"
| "RuleAction_Type (RuleActionDNSRouteOptions r) = RuleActionTypeRouteOptions"
| "RuleAction_Type (RuleActionDirect d s) = RuleActionTypeDirect"
| "RuleAction_Type (RuleActionReject r) = RuleActionTypeReject"
| "RuleAction_Type RuleActionHijackDNS = RuleActionTypeHijackDNS"
| "RuleAction_Type (RuleActionSniff r) = RuleActionTypeSniff"
| "RuleAction_Type (RuleActionResolve r) = RuleActionTypeResolve"
| "RuleAction_Type (RuleActionPredefined r) = RuleActionTypePredefined"

definition RouteOptions_Descriptions :: "lib \<Rightarrow> route_options \<Rightarrow> string list" where
  "RouteOptions_Descriptions L r =
     (if lib_IsValid L (ro_OverrideAddress r)
      then [''override-address='' @ lib_AddrString L (ro_OverrideAddress r)] else []) @
     (if ro_OverridePort r > 0 then [''override-port='' @ itoa (unat (ro_OverridePort r))] else []) @
     (case ro_NetworkStrategy r of None \<Rightarrow> []
      | Some s \<Rightarrow> [''network-strategy='' @ NetworkStrategy_String s]) @
     (case ro_NetworkType r of None \<Rightarrow> []
      | Some ts \<Rightarrow> [''network-type='' @ Join (map InterfaceType_String ts) '','']) @
     (case ro_FallbackNetworkType r of None \<Rightarrow> []
      | Some _ \<Rightarrow> [''fallback-network-type='' @
          Join (map InterfaceType_String (case ro_NetworkType r of None \<Rightarrow> [] | Some ts \<Rightarrow> ts)) '','']) @
     (if ro_FallbackDelay r > 0 then [''fallback-delay='' @ Duration_String (ro_FallbackDelay r)] else []) @
     (if ro_UDPDisableDomainUnmapping r then [''udp-disable-domain-unmapping''] else []) @
     (if ro_UDPConnect r then [''udp-connect''] else []) @
     (if ro_UDPTimeout r > 0 then [''udp-timeout''] else []) @
     (if ro_TLSFragment r then [''tls-fragment''] else []) @
     (if ro_TLSFragmentFallbackDelay r > 0
      then [''tls-fragment-fallback-delay='' @ Duration_String (ro_TLSFragmentFallbackDelay r)] else []) @
     (if ro_TLSRecordFragment r then [''tls-record-fragment''] else [])"

fun Prefix_IsValid :: "prefix \<Rightarrow> bool" where
  "Prefix_IsValid (Prefix (IPv4 x) n) \<longleftrightarrow> n \<le> 32"
| "Prefix_IsValid (Prefix (IPv6 x z) n) \<longleftrightarrow> n \<le> 128"
| "Prefix_IsValid _ \<longleftrightarrow> False"

definition DNSRouteOptions_descriptions :: "text_lib \<Rightarrow> dns_route_options \<Rightarrow> string list" where
  "DNSRouteOptions_descriptions T r =
     (if dr_DisableCache r then [''disable-cache''] else []) @
     (case dr_RewriteTTL r of None \<Rightarrow> [] | Some t \<Rightarrow> [''rewrite-ttl='' @ itoa (unat t)]) @
     (if Prefix_IsValid (dr_ClientSubnet r)
      then [''client-subnet='' @ tl_Prefix_String T (dr_ClientSubnet r)]
      else if dr_ClientSubnetFromInbound r \<noteq> None then [''client-subnet-from-inbound''] else [])"

definition server_list :: "string \<Rightarrow> string list \<Rightarrow> string list" where
  "server_list label servers =
     (if length servers = 1 then [label @ servers ! 0]
      else if length servers > 1 then [label @ ''{'' @ Join servers ''|'' @ ''}''] else [])"

definition DNSRoute_String :: "text_lib \<Rightarrow> dns_route \<Rightarrow> string" where
  "DNSRoute_String T r =
     ''route('' @ Join
       (server_list '''' (dr_Servers r) @
        server_list ''fallback='' (dr_FallbackServers r) @
        (if dr_UpstreamTimeout r > 0 then [''upstream-timeout='' @ Duration_String (dr_UpstreamTimeout r)] else []) @
        (if dr_FallbackTimeout r > 0 then [''fallback-timeout='' @ Duration_String (dr_FallbackTimeout r)] else []) @
        (if dr_FallbackGrace r > 0 then [''fallback-grace='' @ Duration_String (dr_FallbackGrace r)] else []) @
        DNSRouteOptions_descriptions T (dr_Options r)) '','' @ '')''"

definition Reject_String :: "reject_action \<Rightarrow> string" where
  "Reject_String r =
     (if rj_Method r = RuleActionRejectMethodDefault then ''reject''
      else ''reject('' @ rj_Method r @ '')'')"

definition Sniff_String :: "sniff_action \<Rightarrow> string" where
  "Sniff_String r =
     (if length (sn_SnifferNames r) = 0 \<and> sn_Timeout r = 0 then ''sniff''
      else if length (sn_SnifferNames r) > 0 \<and> sn_Timeout r = 0
      then ''sniff('' @ Join (sn_SnifferNames r) '','' @ '')''
      else if length (sn_SnifferNames r) = 0 \<and> sn_Timeout r > 0
      then ''sniff('' @ Duration_String (sn_Timeout r) @ '')''
      else ''sniff('' @ Join (sn_SnifferNames r) '','' @ '','' @ Duration_String (sn_Timeout r) @ '')'')"

definition Resolve_String :: "text_lib \<Rightarrow> resolve_action \<Rightarrow> string result" where
  "Resolve_String T r =
     bind_r (DomainStrategy_String (rs_Strategy r)) (\<lambda>strategy.
       (let options =
          (if rs_Server r \<noteq> '''' then [rs_Server r] else []) @
          (if rs_Strategy r \<noteq> 0 then [strategy] else []) @
          (if rs_DisableCache r then [''disable_cache''] else []) @
          (case rs_RewriteTTL r of None \<Rightarrow> [] | Some t \<Rightarrow> [''rewrite_ttl='' @ itoa (unat t)]) @
          (if Prefix_IsValid (rs_ClientSubnet r)
           then [''client_subnet='' @ tl_Prefix_String T (rs_ClientSubnet r)] else []) @
          (if rs_RouteOnly r then [''route_only''] else []) @
          (if rs_FallbackToFinal r then [''fallback_to_final''] else [])
        in Inr (if length options = 0 then ''resolve'' else ''resolve('' @ Join options '','' @ '')'')))"

definition Predefined_String :: "text_lib \<Rightarrow> predefined_action \<Rightarrow> string" where
  "Predefined_String T r =
     ''predefined('' @ Join
       ([tl_RcodeToString T (pd_Rcode r)] @ map (tl_RR_String T) (pd_Answer r) @
        map (tl_RR_String T) (pd_Ns r) @ map (tl_RR_String T) (pd_Extra r)) '','' @ '')''"

fun RuleAction_String :: "lib \<Rightarrow> text_lib \<Rightarrow> rule_action \<Rightarrow> string result" where
  "RuleAction_String L T (RuleActionRoute ob r) =
     Inr (''route('' @ Join (ob # RouteOptions_Descriptions L r) '','' @ '')'')"
| "RuleAction_String L T (RuleActionRouteOptions r) =
     Inr (''route-options('' @ Join (RouteOptions_Descriptions L r) '','' @ '')'')"
| "RuleAction_String L T (RuleActionDNSRoute r) = Inr (DNSRoute_String T r)"
| "RuleAction_String L T (RuleActionDNSRouteOptions r) =
     Inr (''route-options('' @ Join (DNSRouteOptions_descriptions T r) '','' @ '')'')"
| "RuleAction_String L T (RuleActionDirect d s) = Inr (''direct'' @ s)"
| "RuleAction_String L T (RuleActionReject r) = Inr (Reject_String r)"
| "RuleAction_String L T RuleActionHijackDNS = Inr ''hijack-dns''"
| "RuleAction_String L T (RuleActionSniff r) = Inr (Sniff_String r)"
| "RuleAction_String L T (RuleActionResolve r) = Resolve_String T r"
| "RuleAction_String L T (RuleActionPredefined r) = Inr (Predefined_String T r)"

subsection \<open>Reject\<close>

text \<open>
  \<^verbatim>\<open>RuleActionReject.Error\<close>: the cause of the rejection and the action with its drop
  counter; \<open>now\<close> is what \<^verbatim>\<open>time.Now\<close> returns.
\<close>

datatype reject_cause = ECONNREFUSED | ErrDrop

definition drop_window :: duration where "drop_window = 30 * Second"

definition drop_limit :: nat where "drop_limit = 50"

definition Reject_Error :: "int \<Rightarrow> reject_action \<Rightarrow> reject_cause result \<times> reject_action" where
  "Reject_Error now r =
     (if rj_Method r = RuleActionRejectMethodDefault then
        (if rj_NoDrop r then (Inr ECONNREFUSED, r)
         else
           let counter = filter (\<lambda>t. now - t \<le> drop_window) (rj_dropCounter r) @ [now];
               r' = r\<lparr>rj_dropCounter := counter\<rparr>
           in if length counter > drop_limit then (Inr ErrDrop, r') else (Inr ECONNREFUSED, r'))
      else if rj_Method r = RuleActionRejectMethodDrop then (Inr ErrDrop, r)
      else (Inl (EPanic (''unknown reject method: '' @ rj_Method r)), r))"

text \<open>The calls of one action, in the order the mutex admits them.\<close>

fun Reject_run :: "int list \<Rightarrow> reject_action \<Rightarrow> reject_cause result list \<times> reject_action" where
  "Reject_run [] r = ([], r)"
| "Reject_run (t # ts) r =
     (case Reject_Error t r of (e, r') \<Rightarrow> case Reject_run ts r' of (es, r'') \<Rightarrow> (e # es, r''))"

subsection \<open>Predefined answers\<close>

definition rewriteRecord :: "dns_question \<Rightarrow> dns_rr \<Rightarrow> dns_rr" where
  "rewriteRecord q it =
     (if HasPrefix (rr_Name it) ''*'' then
        (if HasSuffix (q_Name q) (drop 1 (rr_Name it)) then it\<lparr>rr_Name := q_Name q\<rparr> else it)
      else it)"

definition rewriteRecords :: "dns_rr list \<Rightarrow> dns_question \<Rightarrow> dns_rr list" where
  "rewriteRecords records question = map (rewriteRecord question) records"

definition Predefined_Response :: "predefined_action \<Rightarrow> dns_msg \<Rightarrow> dns_msg result" where
  "Predefined_Response r request =
     (case dm_Question request of
        [] \<Rightarrow> Inl (EPanic ''index out of range [0] with length 0'')
      | q # _ \<Rightarrow> Inr (zero_dns_msg\<lparr>
           dm_Id := dm_Id request, dm_Response := True, dm_Authoritative := True,
           dm_RecursionDesired := True, dm_RecursionAvailable := True, dm_Rcode := pd_Rcode r,
           dm_Question := dm_Question request,
           dm_Answer := rewriteRecords (pd_Answer r) q,
           dm_Ns := rewriteRecords (pd_Ns r) q,
           dm_Extra := rewriteRecords (pd_Extra r) q\<rparr>))"

section \<open>Lemmas\<close>

subsection \<open>The sniffers of a sniff action\<close>

text \<open>What each name adds, as a table.\<close>

definition sniffers_of :: "string \<Rightarrow> (stream_sniffer list \<times> packet_sniffer list) option" where
  "sniffers_of = map_of [(''tls'', [TLSClientHello], []), (''http'', [HTTPHost], []),
     (''quic'', [], [QUICClientHello]), (''dns'', [StreamDomainNameQuery], [DomainNameQuery]),
     (''stun'', [], [STUNMessage]), (''bittorrent'', [BitTorrent], [UTP, UDPTracker]),
     (''dtls'', [], [DTLSRecord]), (''ssh'', [SSH], []), (''rdp'', [RDP], []), (''ntp'', [], [NTP])]"

lemma sniff_build_step:
  "sniff_build (name # names) r =
     (case sniffers_of name of
        None \<Rightarrow> Inl (ENew (''unknown sniffer: '' @ name))
      | Some (ss, ps) \<Rightarrow> sniff_build names
          (r\<lparr>sn_StreamSniffers := sn_StreamSniffers r @ ss,
             sn_PacketSniffers := sn_PacketSniffers r @ ps\<rparr>))"
  unfolding sniff_build.simps Let_def
  by (auto simp: sniffers_of_def)

lemma sniff_build_result:
  "sniff_build names r =
     (case find (\<lambda>n. sniffers_of n = None) names of
        Some n \<Rightarrow> Inl (ENew (''unknown sniffer: '' @ n))
      | None \<Rightarrow> Inr (r\<lparr>
          sn_StreamSniffers := sn_StreamSniffers r @ concat (map (fst \<circ> the \<circ> sniffers_of) names),
          sn_PacketSniffers := sn_PacketSniffers r @ concat (map (snd \<circ> the \<circ> sniffers_of) names)\<rparr>))"
proof (induction names arbitrary: r)
  case (Cons name names)
  show ?case
    unfolding sniff_build_step
    by (auto simp: Cons.IH split: option.splits)
qed simp

subsection \<open>The sliding window of the reject action\<close>

definition in_window :: "int \<Rightarrow> int list \<Rightarrow> int list" where
  "in_window now ts = filter (\<lambda>t. now - t \<le> drop_window) ts"

lemma in_window_narrow:
  "t \<le> now \<Longrightarrow> in_window now (in_window t ts) = in_window now ts"
  by (auto simp: in_window_def intro!: filter_cong)

lemma Reject_run_append:
  "Reject_run (ts @ us) r =
     (case Reject_run ts r of (es, r') \<Rightarrow> case Reject_run us r' of (fs, r'') \<Rightarrow> (es @ fs, r''))"
  by (induction ts arbitrary: r) (auto split: prod.splits)

lemma Reject_run_length [simp]: "length (fst (Reject_run ts r)) = length ts"
  by (induction ts arbitrary: r) (simp_all add: case_prod_beta)

definition flood_verdict :: "int list \<Rightarrow> int \<Rightarrow> reject_cause" where
  "flood_verdict earlier now =
     (if length (in_window now (earlier @ [now])) > drop_limit then ErrDrop else ECONNREFUSED)"

text \<open>After the calls at times \<open>ts\<close> the counter holds the calls of the last window.\<close>

lemma Reject_Error_counts:
  assumes "rj_Method r = RuleActionRejectMethodDefault" and "\<not> rj_NoDrop r"
    and "rj_dropCounter r = in_window t0 ts" and "t0 \<le> now"
  shows "Reject_Error now r = (Inr (flood_verdict ts now),
           r\<lparr>rj_dropCounter := in_window now (ts @ [now])\<rparr>)"
proof -
  have "filter (\<lambda>t. now - t \<le> drop_window) (rj_dropCounter r) @ [now] = in_window now (ts @ [now])"
    using in_window_narrow [OF assms(4), of ts] assms(3)
    by (simp add: in_window_def drop_window_def Second_def)
  with assms(1,2) show ?thesis by (simp add: Reject_Error_def flood_verdict_def Let_def)
qed

lemma Reject_run_window:
  assumes m: "rj_Method r = RuleActionRejectMethodDefault" "\<not> rj_NoDrop r"
  shows "rj_dropCounter r = in_window t0 us \<Longrightarrow> sorted (t0 # ts) \<Longrightarrow>
    fst (Reject_run ts r) =
      map (\<lambda>k. Inr (flood_verdict (us @ take k ts) (ts ! k))) [0..<length ts]"
  using m
proof (induction ts arbitrary: r us t0)
  case (Cons t ts)
  define r' where "r' = r\<lparr>rj_dropCounter := in_window t (us @ [t])\<rparr>"
  have e: "Reject_Error t r = (Inr (flood_verdict us t), r')"
    unfolding r'_def using Cons.prems by (intro Reject_Error_counts [of r t0]) simp_all
  have ih: "fst (Reject_run ts r') =
      map (\<lambda>k. Inr (flood_verdict ((us @ [t]) @ take k ts) (ts ! k))) [0..<length ts]"
    using Cons.prems by (intro Cons.IH [of r' t]) (simp_all add: r'_def)
  have "fst (Reject_run (t # ts) r) = Inr (flood_verdict us t) # fst (Reject_run ts r')"
    by (simp add: e split: prod.splits)
  also have "\<dots> = map (\<lambda>k. Inr (flood_verdict (us @ take k (t # ts)) ((t # ts) ! k)))
      [0..<length (t # ts)]"
    by (simp add: ih map_upt_Suc del: upt_Suc)
  finally show ?case .
qed simp

section \<open>Properties\<close>

text \<open>C32 (reject_flood_window): the default reject action answers a sequence of calls made in
  time order exactly as a sliding window would: the k-th call is dropped when it and the
  calls of the 30 seconds before it are more than 50, and refused otherwise. Calls that were
  themselves dropped count.\<close>

theorem reject_flood_window:
  assumes "rj_Method r = RuleActionRejectMethodDefault" and "\<not> rj_NoDrop r"
    and "rj_dropCounter r = []" and "sorted ts" and "k < length ts"
  shows "fst (Reject_run ts r) ! k =
    Inr (if length (filter (\<lambda>t. ts ! k - t \<le> 30 * Second) (take (Suc k) ts)) > 50
         then ErrDrop else ECONNREFUSED)"
proof -
  have "fst (Reject_run ts r) = map (\<lambda>k. Inr (flood_verdict ([] @ take k ts) (ts ! k))) [0..<length ts]"
  proof (rule Reject_run_window [OF assms(1,2), of "hd ts"])
    show "rj_dropCounter r = in_window (hd ts) []" using assms(3) by (simp add: in_window_def)
    show "sorted (hd ts # ts)" using assms(4) by (cases ts) auto
  qed
  with assms(5) show ?thesis
    by (simp add: flood_verdict_def in_window_def drop_window_def drop_limit_def
        take_Suc_conv_app_nth)
qed

definition sample_text :: text_lib where
  "sample_text = \<lparr>tl_Addr_String = (\<lambda>_. ''address''), tl_Prefix_String = (\<lambda>_. ''prefix''),
     tl_RcodeToString = itoa_int, tl_RR_String = rr_Name\<rparr>"

definition sample_reject :: reject_action where
  "sample_reject = \<lparr>rj_Method = ''default'', rj_NoDrop = False, rj_dropCounter = []\<rparr>"

theorem reject_flood_window_witness:
  "fst (Reject_run (replicate 51 7) sample_reject) ! 50 = Inr ErrDrop \<and>
   fst (Reject_run (replicate 51 7) sample_reject) ! 49 = Inr ECONNREFUSED"
proof -
  have r: "rj_Method sample_reject = RuleActionRejectMethodDefault" "\<not> rj_NoDrop sample_reject"
      "rj_dropCounter sample_reject = []" "sorted (replicate 51 (7::int))"
    by (simp_all add: sample_reject_def action_type_defs)
  show ?thesis
    using reject_flood_window [OF r, of 50] reject_flood_window [OF r, of 49]
    by (simp add: filter_replicate Second_def)
qed

text \<open>Remark (reject_options_no_panic): the reject options that pass their decoder build an action
  whose \<^verbatim>\<open>Error\<close> always returns, whatever the time and the history: an unknown method
  cannot reach it.\<close>

theorem reject_options_no_panic:
  assumes "RejectActionOptions_UnmarshalJSON o0 = Inr o1"
    and "rac_Action a = RuleActionTypeReject" and "rac_RejectOptions a = o1"
  shows "\<exists>r. NewRuleAction L T D a = Inr (Some (RuleActionReject r)) \<and>
    (\<forall>now counter. \<exists>c. fst (Reject_Error now (r\<lparr>rj_dropCounter := counter\<rparr>)) = Inr c)"
proof -
  have "rjo_Method o1 = RuleActionRejectMethodDefault \<or> rjo_Method o1 = RuleActionRejectMethodDrop"
    using assms(1) by (auto simp: RejectActionOptions_UnmarshalJSON_def split: if_splits)
  with assms(2,3) show ?thesis
    by (auto simp: NewRuleAction_def Reject_Error_def Let_def action_type_defs)
qed

theorem reject_options_no_panic_witness:
  "\<exists>r. NewRuleAction sample_lib sample_text Inr (zero_rule_action_options\<lparr>rac_Action := ''reject'',
       rac_RejectOptions := \<lparr>rjo_Method = ''drop'', rjo_NoDrop = False\<rparr>\<rparr>) =
     Inr (Some (RuleActionReject r)) \<and>
    (\<forall>now counter. \<exists>c. fst (Reject_Error now (r\<lparr>rj_dropCounter := counter\<rparr>)) = Inr c)"
  by (rule reject_options_no_panic [of "\<lparr>rjo_Method = ''drop'', rjo_NoDrop = False\<rparr>"])
    (simp_all add: RejectActionOptions_UnmarshalJSON_def action_type_defs)

text \<open>Remark (route_action_ignores_udp_timeout): a \<^verbatim>\<open>route\<close> action is the same whatever
  \<^verbatim>\<open>udp_timeout\<close> its options give, while a \<^verbatim>\<open>route-options\<close> action carries it.\<close>

theorem route_action_ignores_udp_timeout:
  "NewRuleAction L T D (a\<lparr>rac_Action := RuleActionTypeRoute,
       rac_RouteOptions := \<lparr>rao_Outbound = ob, rao_Raw = raw\<lparr>rro_UDPTimeout := d\<rparr>\<rparr>\<rparr>) =
   NewRuleAction L T D (a\<lparr>rac_Action := RuleActionTypeRoute,
       rac_RouteOptions := \<lparr>rao_Outbound = ob, rao_Raw = raw\<rparr>\<rparr>) \<and>
   (\<exists>r. NewRuleAction L T D (a\<lparr>rac_Action := RuleActionTypeRouteOptions,
       rac_RouteOptionsOptions := raw\<lparr>rro_UDPTimeout := d\<rparr>\<rparr>) =
     Inr (Some (RuleActionRouteOptions r)) \<and> ro_UDPTimeout r = d)"
  by (simp add: NewRuleAction_def action_type_defs Let_def)

text \<open>Remark (predefined_response_answers): the answer of a predefined action echoes the query's
  identifier and questions, keeps the number of records of every section, and renames a
  record only if its name is a wildcard whose rest is a suffix of the queried name, to that
  name.\<close>

theorem predefined_response_answers:
  assumes "dm_Question request = q # qs"
  shows "\<exists>m. Predefined_Response r request = Inr m \<and> dm_Id m = dm_Id request \<and>
    dm_Question m = dm_Question request \<and> dm_Rcode m = pd_Rcode r \<and> dm_Response m \<and>
    length (dm_Answer m) = length (pd_Answer r) \<and>
    (\<forall>i < length (pd_Answer r).
       let old = pd_Answer r ! i; new = dm_Answer m ! i in
       if \<exists>suf pre. rr_Name old = CHR ''*'' # suf \<and> q_Name q = pre @ suf
       then new = old\<lparr>rr_Name := q_Name q\<rparr> else new = old)"
proof -
  have "rewriteRecord q old =
      (if \<exists>suf pre. rr_Name old = CHR ''*'' # suf \<and> q_Name q = pre @ suf
       then old\<lparr>rr_Name := q_Name q\<rparr> else old)" for old
    by (cases "rr_Name old") (auto simp: rewriteRecord_def HasSuffix_iff)
  with assms show ?thesis
    by (auto simp: Predefined_Response_def rewriteRecords_def zero_dns_msg_def Let_def)
qed

definition sample_question :: "string \<Rightarrow> dns_question" where
  "sample_question n = \<lparr>q_Name = n, q_Qtype = 1, q_Qclass = 1\<rparr>"

definition sample_record :: "string \<Rightarrow> dns_rr" where
  "sample_record n = \<lparr>rr_Name = n, rr_Rrtype = 1, rr_Class = 1, rr_Ttl = 60, rr_Data = RD_A [1, 2, 3, 4]\<rparr>"

theorem predefined_response_answers_witness:
  "\<exists>m. Predefined_Response \<lparr>pd_Rcode = 0, pd_Answer = [sample_record ''*.a.''], pd_Ns = [], pd_Extra = []\<rparr>
       (zero_dns_msg\<lparr>dm_Question := [sample_question ''x.a.'']\<rparr>) = Inr m \<and>
     map rr_Name (dm_Answer m) = [''x.a.'']"
proof -
  let ?q = "sample_question ''x.a.''"
  have "\<exists>suf pre. rr_Name (sample_record ''*.a.'') = CHR ''*'' # suf \<and> q_Name ?q = pre @ suf"
    by (rule exI [of _ "''.a.''"], rule exI [of _ "''x''"]) (simp add: sample_record_def sample_question_def)
  with predefined_response_answers [of "zero_dns_msg\<lparr>dm_Question := [?q]\<rparr>" ?q "[]"
      "\<lparr>pd_Rcode = 0, pd_Answer = [sample_record ''*.a.''], pd_Ns = [], pd_Extra = []\<rparr>"]
  show ?thesis
    by (auto simp: Let_def sample_question_def length_Suc_conv)
qed

end
