(* ===== verification/Sniff.thy ===== *)
theory Sniff
  imports Rule_Action
begin

text \<open>
  Protocol sniffing of \<^verbatim>\<open>common/sniff/sniff.go\<close>: the skip list, and the two drivers that
  run a list of sniffers over the bytes of a stream or over one packet. The sniffers
  themselves are a parameter: a function from the metadata and the bytes to the metadata
  and an error. A stream is the list of its reads; when the list is exhausted the deadline
  has passed.
\<close>

definition ErrNeedMoreData :: error where
  "ErrNeedMoreData = ENew ''need more data''"

text \<open>\<^verbatim>\<open>errors.Is(err, ErrNeedMoreData)\<close>: the error itself, a wrapped one or one of several.\<close>

fun is_NeedMoreData :: "error \<Rightarrow> bool" where
  "is_NeedMoreData (ENew m) = (ENew m = ErrNeedMoreData)"
| "is_NeedMoreData (ECause e m) = is_NeedMoreData e"
| "is_NeedMoreData (EExtend e m) = is_NeedMoreData e"
| "is_NeedMoreData (EOf e f) = (is_NeedMoreData e \<or> is_NeedMoreData f)"
| "is_NeedMoreData (ERcode n) = False"
| "is_NeedMoreData (EPanic m) = False"

text \<open>\<^verbatim>\<open>E.Errors(a, b)\<close>, with a nil first error.\<close>

definition join_error :: "error option \<Rightarrow> error \<Rightarrow> error" where
  "join_error a b = (case a of None \<Rightarrow> b | Some e \<Rightarrow> EOf e b)"

definition Skip :: "inbound_context \<Rightarrow> bool" where
  "Skip c \<longleftrightarrow> sa_Port (mc_Destination c) \<in> set [25, 465, 587, 143, 993, 110, 995]"

type_synonym 's sniffers = "'s \<Rightarrow> inbound_context \<Rightarrow> bytes \<Rightarrow> inbound_context \<times> error option"

text \<open>The loop over the sniffers: the first that accepts ends it.\<close>

fun run_sniffers ::
  "'s sniffers \<Rightarrow> 's list \<Rightarrow> inbound_context \<Rightarrow> bytes \<Rightarrow> error option \<Rightarrow> inbound_context \<times> error option \<times> bool" where
  "run_sniffers f [] c data err = (c, err, False)"
| "run_sniffers f (s # ss) c data err =
     (case f s c data of
        (c', None) \<Rightarrow> (c', None, True)
      | (c', Some e) \<Rightarrow> run_sniffers f ss c' data (Some (join_error err e)))"

definition PeekPacket ::
  "packet_sniffer sniffers \<Rightarrow> inbound_context \<Rightarrow> bytes \<Rightarrow> packet_sniffer list \<Rightarrow> inbound_context \<times> error option" where
  "PeekPacket f c packet ss = (case run_sniffers f ss c packet None of (c', e, done) \<Rightarrow> (c', e))"

datatype stream_read = DeadlineFailed error | ReadFailed error | ReadData bytes

text \<open>
  \<^verbatim>\<open>PeekStream\<close>: reads go to \<open>buffer\<close>; after every read all sniffers see all bytes so far.
  The result is the metadata, the error, the buffer and the reads that are left.
\<close>

fun PeekStream_loop ::
  "stream_sniffer sniffers \<Rightarrow> stream_sniffer list \<Rightarrow> bytes \<Rightarrow> stream_read list \<Rightarrow> bool \<Rightarrow> bytes \<Rightarrow> error option \<Rightarrow>
   inbound_context \<Rightarrow> inbound_context \<times> error option \<times> bytes \<times> stream_read list" where
  "PeekStream_loop f ss cached [] first buffer sniffError c =
     (c, if first then Some (ECause (ENew ''i/o timeout'') ''read payload'') else sniffError, buffer, [])"
| "PeekStream_loop f ss cached (DeadlineFailed e # reads) first buffer sniffError c =
     (c, Some (ECause e ''set read deadline''), buffer, reads)"
| "PeekStream_loop f ss cached (ReadFailed e # reads) first buffer sniffError c =
     (c, if first then Some (ECause e ''read payload'') else sniffError, buffer, reads)"
| "PeekStream_loop f ss cached (ReadData d # reads) first buffer sniffError c =
     (case run_sniffers f ss c (cached @ buffer @ d) None of
        (c', err, True) \<Rightarrow> (c', None, buffer @ d, reads)
      | (c', err, False) \<Rightarrow>
          if (case err of None \<Rightarrow> False | Some e \<Rightarrow> is_NeedMoreData e)
          then PeekStream_loop f ss cached reads False (buffer @ d) err c'
          else (c', err, buffer @ d, reads))"

definition PeekStream ::
  "stream_sniffer sniffers \<Rightarrow> inbound_context \<Rightarrow> stream_read list \<Rightarrow> bytes list \<Rightarrow> stream_sniffer list \<Rightarrow>
   inbound_context \<times> error option \<times> bytes \<times> stream_read list" where
  "PeekStream f c reads buffers ss = PeekStream_loop f ss (concat buffers) reads True [] None c"

section \<open>Lemmas\<close>

lemma run_sniffers_accept:
  "run_sniffers f ss c data err = (c', e, True) \<Longrightarrow> e = None"
  by (induction ss arbitrary: c err) (auto split: prod.splits option.splits)

text \<open>The data bytes of the reads that were taken.\<close>

fun read_bytes :: "stream_read list \<Rightarrow> bytes" where
  "read_bytes [] = []"
| "read_bytes (ReadData d # rs) = d @ read_bytes rs"
| "read_bytes (_ # rs) = read_bytes rs"

lemma PeekStream_loop_bytes:
  "PeekStream_loop f ss cached reads first buffer err c = (c', e, buffer', reads') \<Longrightarrow>
   buffer' @ read_bytes reads' = buffer @ read_bytes reads"
  by (induction f ss cached reads first buffer err c arbitrary: c' e buffer' reads'
      rule: PeekStream_loop.induct) (auto split: prod.splits bool.splits if_splits)

text \<open>Remark (peek_stream_keeps_bytes): sniffing a stream loses and invents no byte: what was read into the
  sniff buffer followed by what is left to read is the stream, whatever the sniffers say.\<close>

theorem peek_stream_keeps_bytes:
  "case PeekStream f c reads buffers ss of
     (c', err, buffer, reads') \<Rightarrow> buffer @ read_bytes reads' = read_bytes reads"
  using PeekStream_loop_bytes [of f ss "concat buffers" reads True "[]" None c]
  by (auto simp: PeekStream_def split: prod.splits)

end
