(* ===== verification/Rule_Engine.thy ===== *)
theory Rule_Engine
  imports Rule_Items
begin

text \<open>
  The matching core of \<^verbatim>\<open>route/rule\<close>: \<^verbatim>\<open>abstractDefaultRule\<close> and
  \<^verbatim>\<open>abstractLogicalRule\<close> (\<^verbatim>\<open>rule_abstract.go\<close>), the rule-set item
  (\<^verbatim>\<open>rule_item_rule_set.go\<close>), and the headless, route and DNS rules built on them.

  A match reads and writes the shared connection metadata, so every \<^verbatim>\<open>Match\<close> takes the
  context and returns the verdict with the new context. The item type of an abstract rule
  is a parameter: headless rules hold leaf items only, route and DNS rules hold leaf items
  and rule-set items.
\<close>

section \<open>Abstract default rule\<close>

record 'i abstract_rule =
  ar_items :: "'i list"
  ar_sourceAddressItems :: "'i list"
  ar_sourcePortItems :: "'i list"
  ar_destinationAddressItems :: "'i list"
  ar_destinationIPCIDRItems :: "'i list"
  ar_destinationPortItems :: "'i list"
  ar_allItems :: "'i list"
  ar_invert :: bool

type_synonym 'i item_match = "'i \<Rightarrow> inbound_context \<Rightarrow> bool \<times> inbound_context"

text \<open>The loop of a group: the first item that matches ends it.\<close>

fun any_item :: "'i item_match \<Rightarrow> 'i list \<Rightarrow> inbound_context \<Rightarrow> bool \<times> inbound_context" where
  "any_item im [] c = (False, c)"
| "any_item im (i # is) c =
     (case im i c of (True, c') \<Rightarrow> (True, c') | (False, c') \<Rightarrow> any_item im is c')"

text \<open>The loop over the conjunctive items: the first item that does not match ends it.\<close>

fun all_items ::
  "('i \<Rightarrow> bool) \<Rightarrow> 'i item_match \<Rightarrow> 'i list \<Rightarrow> inbound_context \<Rightarrow> bool \<times> inbound_context" where
  "all_items isRuleSet im [] c = (True, c)"
| "all_items isRuleSet im (i # is) c =
     (let c0 = (if \<not> isRuleSet i then c\<lparr>mc_DidMatch := True\<rparr> else c) in
      case im i c0 of (False, c') \<Rightarrow> (False, c') | (True, c') \<Rightarrow> all_items isRuleSet im is c')"

definition match_sourceAddress ::
  "'i item_match \<Rightarrow> 'i abstract_rule \<Rightarrow> inbound_context \<Rightarrow> inbound_context" where
  "match_sourceAddress im r c =
     (if 0 < length (ar_sourceAddressItems r) \<and> \<not> mc_SourceAddressMatch c
      then (case any_item im (ar_sourceAddressItems r) (c\<lparr>mc_DidMatch := True\<rparr>) of
              (b, c') \<Rightarrow> if b then c'\<lparr>mc_SourceAddressMatch := True\<rparr> else c')
      else c)"

definition match_sourcePort ::
  "'i item_match \<Rightarrow> 'i abstract_rule \<Rightarrow> inbound_context \<Rightarrow> inbound_context" where
  "match_sourcePort im r c =
     (if 0 < length (ar_sourcePortItems r) \<and> \<not> mc_SourcePortMatch c
      then (case any_item im (ar_sourcePortItems r) (c\<lparr>mc_DidMatch := True\<rparr>) of
              (b, c') \<Rightarrow> if b then c'\<lparr>mc_SourcePortMatch := True\<rparr> else c')
      else c)"

definition match_destinationAddress ::
  "'i item_match \<Rightarrow> 'i abstract_rule \<Rightarrow> inbound_context \<Rightarrow> inbound_context" where
  "match_destinationAddress im r c =
     (if 0 < length (ar_destinationAddressItems r) \<and> \<not> mc_DestinationAddressMatch c
      then (case any_item im (ar_destinationAddressItems r) (c\<lparr>mc_DidMatch := True\<rparr>) of
              (b, c') \<Rightarrow> if b then c'\<lparr>mc_DestinationAddressMatch := True\<rparr> else c')
      else c)"

definition match_destinationIPCIDR ::
  "'i item_match \<Rightarrow> 'i abstract_rule \<Rightarrow> inbound_context \<Rightarrow> inbound_context" where
  "match_destinationIPCIDR im r c =
     (if \<not> mc_IgnoreDestinationIPCIDRMatch c \<and> 0 < length (ar_destinationIPCIDRItems r)
         \<and> \<not> mc_DestinationAddressMatch c
      then (case any_item im (ar_destinationIPCIDRItems r) (c\<lparr>mc_DidMatch := True\<rparr>) of
              (b, c') \<Rightarrow> if b then c'\<lparr>mc_DestinationAddressMatch := True\<rparr> else c')
      else c)"

definition match_destinationPort ::
  "'i item_match \<Rightarrow> 'i abstract_rule \<Rightarrow> inbound_context \<Rightarrow> inbound_context" where
  "match_destinationPort im r c =
     (if 0 < length (ar_destinationPortItems r) \<and> \<not> mc_DestinationPortMatch c
      then (case any_item im (ar_destinationPortItems r) (c\<lparr>mc_DidMatch := True\<rparr>) of
              (b, c') \<Rightarrow> if b then c'\<lparr>mc_DestinationPortMatch := True\<rparr> else c')
      else c)"

definition abstractDefaultRule_Match ::
  "('i \<Rightarrow> bool) \<Rightarrow> 'i item_match \<Rightarrow> 'i abstract_rule \<Rightarrow> inbound_context \<Rightarrow>
   bool \<times> inbound_context" where
  "abstractDefaultRule_Match isRuleSet im r c =
     (if length (ar_allItems r) = 0 then (True, c)
      else
        let c1 = match_sourceAddress im r c;
            c2 = match_sourcePort im r c1;
            c3 = match_destinationAddress im r c2;
            c4 = match_destinationIPCIDR im r c3;
            c5 = match_destinationPort im r c4
        in (case all_items isRuleSet im (ar_items r) c5 of
              (False, c6) \<Rightarrow> (ar_invert r, c6)
            | (True, c6) \<Rightarrow>
                (if 0 < length (ar_sourceAddressItems r) \<and> \<not> mc_SourceAddressMatch c6
                 then ar_invert r
                 else if 0 < length (ar_sourcePortItems r) \<and> \<not> mc_SourcePortMatch c6
                 then ar_invert r
                 else if ((\<not> mc_IgnoreDestinationIPCIDRMatch c6 \<and>
                           0 < length (ar_destinationIPCIDRItems r)) \<or>
                          0 < length (ar_destinationAddressItems r)) \<and>
                         \<not> mc_DestinationAddressMatch c6
                 then ar_invert r
                 else if 0 < length (ar_destinationPortItems r) \<and> \<not> mc_DestinationPortMatch c6
                 then ar_invert r
                 else if \<not> mc_DidMatch c6 then True
                 else \<not> ar_invert r, c6)))"

definition abstractDefaultRule_String :: "('i \<Rightarrow> string) \<Rightarrow> 'i abstract_rule \<Rightarrow> string" where
  "abstractDefaultRule_String sh r =
     (if \<not> ar_invert r then Join (map sh (ar_allItems r)) '' ''
      else ''!('' @ Join (map sh (ar_allItems r)) '' '' @ '')'')"

section \<open>Abstract logical rule\<close>

text \<open>
  \<^verbatim>\<open>common.All\<close> and \<^verbatim>\<open>common.Any\<close> over the sub-rules, with the cache reset before each;
  both stop at the first sub-rule that decides.
\<close>

fun rules_all ::
  "('r \<Rightarrow> inbound_context \<Rightarrow> bool \<times> inbound_context) \<Rightarrow> 'r list \<Rightarrow> inbound_context \<Rightarrow>
   bool \<times> inbound_context" where
  "rules_all rm [] c = (True, c)"
| "rules_all rm (r # rs) c =
     (case rm r (ResetRuleCache c) of (False, c') \<Rightarrow> (False, c') | (True, c') \<Rightarrow> rules_all rm rs c')"

fun rules_any ::
  "('r \<Rightarrow> inbound_context \<Rightarrow> bool \<times> inbound_context) \<Rightarrow> 'r list \<Rightarrow> inbound_context \<Rightarrow>
   bool \<times> inbound_context" where
  "rules_any rm [] c = (False, c)"
| "rules_any rm (r # rs) c =
     (case rm r (ResetRuleCache c) of (True, c') \<Rightarrow> (True, c') | (False, c') \<Rightarrow> rules_any rm rs c')"

definition LogicalTypeAnd :: string where "LogicalTypeAnd = ''and''"
definition LogicalTypeOr :: string where "LogicalTypeOr = ''or''"

definition abstractLogicalRule_Match ::
  "('r \<Rightarrow> inbound_context \<Rightarrow> bool \<times> inbound_context) \<Rightarrow> 'r list \<Rightarrow> string \<Rightarrow> bool \<Rightarrow>
   inbound_context \<Rightarrow> bool \<times> inbound_context" where
  "abstractLogicalRule_Match rm rules mode invert c =
     (if mode = LogicalTypeAnd
      then (case rules_all rm rules c of (b, c') \<Rightarrow> (b \<noteq> invert, c'))
      else (case rules_any rm rules c of (b, c') \<Rightarrow> (b \<noteq> invert, c')))"

definition abstractLogicalRule_String ::
  "('r \<Rightarrow> string) \<Rightarrow> 'r list \<Rightarrow> string \<Rightarrow> bool \<Rightarrow> string" where
  "abstractLogicalRule_String sh rules mode invert =
     (let op = (if mode = LogicalTypeAnd then ''&&'' else if mode = LogicalTypeOr then ''||'' else '''') in
      if \<not> invert then Join (map sh rules) ('' '' @ op @ '' '')
      else ''!('' @ Join (map sh rules) ('' '' @ op @ '' '') @ '')'')"

lemma rules_all_cong [fundef_cong]:
  "(\<And>r c. r \<in> set rs \<Longrightarrow> f r c = g r c) \<Longrightarrow> rs = rs' \<Longrightarrow> c = c' \<Longrightarrow>
   rules_all f rs c = rules_all g rs' c'"
  by (induction rs arbitrary: c c' rs') (auto split: prod.splits bool.splits)

lemma rules_any_cong [fundef_cong]:
  "(\<And>r c. r \<in> set rs \<Longrightarrow> f r c = g r c) \<Longrightarrow> rs = rs' \<Longrightarrow> c = c' \<Longrightarrow>
   rules_any f rs c = rules_any g rs' c'"
  by (induction rs arbitrary: c c' rs') (auto split: prod.splits bool.splits)

lemma abstractLogicalRule_Match_cong [fundef_cong]:
  "(\<And>r c. r \<in> set rs \<Longrightarrow> f r c = g r c) \<Longrightarrow> rs = rs' \<Longrightarrow> m = m' \<Longrightarrow> v = v' \<Longrightarrow> c = c' \<Longrightarrow>
   abstractLogicalRule_Match f rs m v c = abstractLogicalRule_Match g rs' m' v' c'"
  by (auto simp: abstractLogicalRule_Match_def cong: rules_all_cong rules_any_cong)

section \<open>Headless rules and rule-sets\<close>

datatype headless_rule =
    DefaultHeadlessRule "leaf_item abstract_rule"
  | LogicalHeadlessRule (hr_rules: "headless_rule list") (hr_mode: string) (hr_invert: bool)

definition leaf_item_match :: "lib \<Rightarrow> runtime \<Rightarrow> leaf_item item_match" where
  "leaf_item_match L R i c = (leaf_match L R i c, c)"

fun HeadlessRule_Match ::
  "lib \<Rightarrow> runtime \<Rightarrow> headless_rule \<Rightarrow> inbound_context \<Rightarrow> bool \<times> inbound_context" where
  "HeadlessRule_Match L R (DefaultHeadlessRule r) c =
     abstractDefaultRule_Match (\<lambda>_. False) (leaf_item_match L R) r c"
| "HeadlessRule_Match L R (LogicalHeadlessRule rules mode invert) c =
     abstractLogicalRule_Match (HeadlessRule_Match L R) rules mode invert c"

fun HeadlessRule_String :: "lib \<Rightarrow> headless_rule \<Rightarrow> string" where
  "HeadlessRule_String L (DefaultHeadlessRule r) = abstractDefaultRule_String (leaf_String L) r"
| "HeadlessRule_String L (LogicalHeadlessRule rules mode invert) =
     abstractLogicalRule_String (\<lambda>x. x) (map (HeadlessRule_String L) rules) mode invert"

text \<open>\<^verbatim>\<open>LocalRuleSet.Match\<close> (and \<^verbatim>\<open>RemoteRuleSet.Match\<close>): the first rule that matches wins;
  the context is passed on as the rules leave it.\<close>

fun RuleSet_Match ::
  "lib \<Rightarrow> runtime \<Rightarrow> headless_rule list \<Rightarrow> inbound_context \<Rightarrow> bool \<times> inbound_context" where
  "RuleSet_Match L R [] c = (False, c)"
| "RuleSet_Match L R (rule # rules) c =
     (case HeadlessRule_Match L R rule c of
        (True, c') \<Rightarrow> (True, c') | (False, c') \<Rightarrow> RuleSet_Match L R rules c')"

text \<open>
  A rule-set item holds pointers to the rule-sets of the router; the heap maps a pointer to
  the rules the set has now, so that a reload is seen by the next match.
\<close>

type_synonym rule_set_ref = nat

record rule_set_item =
  rsi_tagList :: "string list"
  rsi_setList :: "rule_set_ref list"
  rsi_ipCidrMatchSource :: bool
  rsi_ipCidrAcceptEmpty :: bool

definition NewRuleSetItem :: "string list \<Rightarrow> bool \<Rightarrow> bool \<Rightarrow> rule_set_item" where
  "NewRuleSetItem tagList ipCIDRMatchSource ipCidrAcceptEmpty =
     \<lparr>rsi_tagList = tagList, rsi_setList = [], rsi_ipCidrMatchSource = ipCIDRMatchSource,
      rsi_ipCidrAcceptEmpty = ipCidrAcceptEmpty\<rparr>"

type_synonym rule_heap = "rule_set_ref \<Rightarrow> headless_rule list"

fun sets_match ::
  "lib \<Rightarrow> runtime \<Rightarrow> rule_heap \<Rightarrow> rule_set_ref list \<Rightarrow> inbound_context \<Rightarrow>
   bool \<times> inbound_context" where
  "sets_match L R H [] c = (False, c)"
| "sets_match L R H (s # ss) c =
     (case RuleSet_Match L R (H s) c of
        (True, c') \<Rightarrow> (True, c') | (False, c') \<Rightarrow> sets_match L R H ss c')"

definition RuleSetItem_Match ::
  "lib \<Rightarrow> runtime \<Rightarrow> rule_heap \<Rightarrow> rule_set_item \<Rightarrow> inbound_context \<Rightarrow> bool \<times> inbound_context" where
  "RuleSetItem_Match L R H r c =
     sets_match L R H (rsi_setList r)
       (c\<lparr>mc_IPCIDRMatchSource := rsi_ipCidrMatchSource r,
          mc_IPCIDRAcceptEmpty := rsi_ipCidrAcceptEmpty r\<rparr>)"

definition RuleSetItem_String :: "rule_set_item \<Rightarrow> string" where
  "RuleSetItem_String r = desc_list ''rule_set='' (rsi_tagList r)"

section \<open>Route and DNS rules\<close>

datatype rule_item = Leaf leaf_item | RuleSetItem rule_set_item

fun is_RuleSetItem :: "rule_item \<Rightarrow> bool" where
  "is_RuleSetItem (RuleSetItem r) = True"
| "is_RuleSetItem (Leaf i) = False"

fun rule_item_match :: "lib \<Rightarrow> runtime \<Rightarrow> rule_heap \<Rightarrow> rule_item item_match" where
  "rule_item_match L R H (Leaf i) c = (leaf_match L R i c, c)"
| "rule_item_match L R H (RuleSetItem r) c = RuleSetItem_Match L R H r c"

fun rule_item_String :: "lib \<Rightarrow> rule_item \<Rightarrow> string" where
  "rule_item_String L (Leaf i) = leaf_String L i"
| "rule_item_String L (RuleSetItem r) = RuleSetItem_String r"

text \<open>Route rules carry an action; the action type is a parameter here.\<close>

datatype 'a route_rule =
    DefaultRule "rule_item abstract_rule" (rr_action: 'a)
  | LogicalRule "'a route_rule list" string bool (rr_action: 'a)

fun Rule_Match ::
  "lib \<Rightarrow> runtime \<Rightarrow> rule_heap \<Rightarrow> 'a route_rule \<Rightarrow> inbound_context \<Rightarrow> bool \<times> inbound_context" where
  "Rule_Match L R H (DefaultRule r a) c =
     abstractDefaultRule_Match is_RuleSetItem (rule_item_match L R H) r c"
| "Rule_Match L R H (LogicalRule rules mode invert a) c =
     abstractLogicalRule_Match (Rule_Match L R H) rules mode invert c"

fun Rule_String :: "lib \<Rightarrow> 'a route_rule \<Rightarrow> string" where
  "Rule_String L (DefaultRule r a) = abstractDefaultRule_String (rule_item_String L) r"
| "Rule_String L (LogicalRule rules mode invert a) =
     abstractLogicalRule_String (\<lambda>x. x) (map (Rule_String L) rules) mode invert"

text \<open>
  DNS rules: \<^verbatim>\<open>Match\<close> ignores the destination IP conditions (the addresses are not known
  yet), \<^verbatim>\<open>MatchAddressLimit\<close> looks at them after the lookup.
\<close>

datatype 'a dns_rule =
    DefaultDNSRule "rule_item abstract_rule" (dr_action: 'a)
  | LogicalDNSRule "'a dns_rule list" string bool (dr_action: 'a)

definition DefaultDNSRule_Match ::
  "lib \<Rightarrow> runtime \<Rightarrow> rule_heap \<Rightarrow> rule_item abstract_rule \<Rightarrow> inbound_context \<Rightarrow>
   bool \<times> inbound_context" where
  "DefaultDNSRule_Match L R H r c =
     (case abstractDefaultRule_Match is_RuleSetItem (rule_item_match L R H) r
             (c\<lparr>mc_IgnoreDestinationIPCIDRMatch := True\<rparr>) of
        (b, c') \<Rightarrow> (b, c'\<lparr>mc_IgnoreDestinationIPCIDRMatch := False\<rparr>))"

fun DNSRule_Match ::
  "lib \<Rightarrow> runtime \<Rightarrow> rule_heap \<Rightarrow> 'a dns_rule \<Rightarrow> inbound_context \<Rightarrow> bool \<times> inbound_context" where
  "DNSRule_Match L R H (DefaultDNSRule r a) c = DefaultDNSRule_Match L R H r c"
| "DNSRule_Match L R H (LogicalDNSRule rules mode invert a) c =
     abstractLogicalRule_Match (DNSRule_Match L R H) rules mode invert c"

fun DNSRule_MatchAddressLimit ::
  "lib \<Rightarrow> runtime \<Rightarrow> rule_heap \<Rightarrow> 'a dns_rule \<Rightarrow> inbound_context \<Rightarrow> bool \<times> inbound_context" where
  "DNSRule_MatchAddressLimit L R H (DefaultDNSRule r a) c =
     abstractDefaultRule_Match is_RuleSetItem (rule_item_match L R H) r c"
| "DNSRule_MatchAddressLimit L R H (LogicalDNSRule rules mode invert a) c =
     abstractLogicalRule_Match (DNSRule_MatchAddressLimit L R H) rules mode invert c"

text \<open>\<^verbatim>\<open>WithAddressLimit\<close>; \<open>hasCIDR\<close> is the \<^verbatim>\<open>ContainsIPCIDRRule\<close> flag of a rule-set.\<close>

definition ContainsDestinationIPCIDRRule :: "(rule_set_ref \<Rightarrow> bool) \<Rightarrow> rule_set_item \<Rightarrow> bool" where
  "ContainsDestinationIPCIDRRule hasCIDR r =
     (if rsi_ipCidrMatchSource r then False else list_ex hasCIDR (rsi_setList r))"

fun item_address_limit :: "(rule_set_ref \<Rightarrow> bool) \<Rightarrow> rule_item \<Rightarrow> bool" where
  "item_address_limit hasCIDR (RuleSetItem r) = ContainsDestinationIPCIDRRule hasCIDR r"
| "item_address_limit hasCIDR (Leaf i) = False"

fun WithAddressLimit :: "(rule_set_ref \<Rightarrow> bool) \<Rightarrow> 'a dns_rule \<Rightarrow> bool" where
  "WithAddressLimit hasCIDR (DefaultDNSRule r a) =
     (if 0 < length (ar_destinationIPCIDRItems r) then True
      else list_ex (item_address_limit hasCIDR) (ar_items r))"
| "WithAddressLimit hasCIDR (LogicalDNSRule rules mode invert a) =
     list_ex (WithAddressLimit hasCIDR) rules"

end
