(* ===== verification/Rule_Semantics.thy ===== *)
theory Rule_Semantics
  imports Rule_Engine
begin

text \<open>
  What the matching engine of theory \<open>Rule_Engine\<close> computes. Two interfaces carry the
  proofs: \<open>item_semantics\<close> is what an abstract default rule needs of its items, and
  \<open>rule_semantics\<close> is what a logical rule needs of its sub-rules. Both are interpreted on
  the leaf items, the full rule items, and the headless, route and DNS rules.
\<close>

section \<open>Declarative semantics of a default rule\<close>

text \<open>The part of a context an item other than a rule-set item can see.\<close>

definition item_view :: "inbound_context \<Rightarrow> inbound_context" where
  "item_view c = c\<lparr>mc_SourceAddressMatch := False, mc_SourcePortMatch := False,
     mc_DestinationAddressMatch := False, mc_DestinationPortMatch := False,
     mc_DidMatch := False, mc_IgnoreDestinationIPCIDRMatch := False\<rparr>"

definition cache_clean :: "inbound_context \<Rightarrow> bool" where
  "cache_clean c \<longleftrightarrow> \<not> mc_SourceAddressMatch c \<and> \<not> mc_SourcePortMatch c \<and>
     \<not> mc_DestinationAddressMatch c \<and> \<not> mc_DestinationPortMatch c \<and> \<not> mc_DidMatch c"

text \<open>
  A group of alternatives holds when it is empty or one of its items does; the destination
  address and destination IP groups are alternatives of one another; \<open>ignore\<close> is the flag
  that hides the destination IP group.
\<close>

definition group_holds :: "('i \<Rightarrow> bool) \<Rightarrow> 'i list \<Rightarrow> bool" where
  "group_holds p is \<longleftrightarrow> is = [] \<or> list_ex p is"

definition default_verdict :: "bool \<Rightarrow> ('i \<Rightarrow> bool) \<Rightarrow> 'i abstract_rule \<Rightarrow> bool" where
  "default_verdict ignore p r \<longleftrightarrow>
     list_all p (ar_items r) \<and>
     group_holds p (ar_sourceAddressItems r) \<and>
     group_holds p (ar_sourcePortItems r) \<and>
     group_holds p (ar_destinationAddressItems r @
                    (if ignore then [] else ar_destinationIPCIDRItems r)) \<and>
     group_holds p (ar_destinationPortItems r)"

definition has_conditions :: "bool \<Rightarrow> 'i abstract_rule \<Rightarrow> bool" where
  "has_conditions ignore r \<longleftrightarrow>
     ar_items r \<noteq> [] \<or> ar_sourceAddressItems r \<noteq> [] \<or> ar_sourcePortItems r \<noteq> [] \<or>
     ar_destinationAddressItems r \<noteq> [] \<or> (\<not> ignore \<and> ar_destinationIPCIDRItems r \<noteq> []) \<or>
     ar_destinationPortItems r \<noteq> []"

definition rule_groups :: "'i abstract_rule \<Rightarrow> 'i list" where
  "rule_groups r = ar_items r @ ar_sourceAddressItems r @ ar_sourcePortItems r @
     ar_destinationAddressItems r @ ar_destinationIPCIDRItems r @ ar_destinationPortItems r"

text \<open>Well-formedness: the list of all items is empty just when every group is.\<close>

definition rule_wf :: "'i abstract_rule \<Rightarrow> bool" where
  "rule_wf r \<longleftrightarrow> (ar_allItems r = [] \<longleftrightarrow> rule_groups r = [])"

definition cache_flags :: "inbound_context \<Rightarrow> bool \<times> bool \<times> bool \<times> bool \<times> bool \<times> bool" where
  "cache_flags c = (mc_SourceAddressMatch c, mc_SourcePortMatch c, mc_DestinationAddressMatch c,
     mc_DestinationPortMatch c, mc_DidMatch c, mc_IgnoreDestinationIPCIDRMatch c)"

lemma rule_groups_empty:
  "rule_groups r = [] \<longleftrightarrow> \<not> has_conditions False r"
  by (auto simp: rule_groups_def has_conditions_def)

lemma item_view_flags [simp]:
  "item_view (c\<lparr>mc_SourceAddressMatch := b\<rparr>) = item_view c"
  "item_view (c\<lparr>mc_SourcePortMatch := b\<rparr>) = item_view c"
  "item_view (c\<lparr>mc_DestinationAddressMatch := b\<rparr>) = item_view c"
  "item_view (c\<lparr>mc_DestinationPortMatch := b\<rparr>) = item_view c"
  "item_view (c\<lparr>mc_DidMatch := b\<rparr>) = item_view c"
  "item_view (c\<lparr>mc_IgnoreDestinationIPCIDRMatch := b\<rparr>) = item_view c"
  by (simp_all add: item_view_def)

lemma cache_clean_reset [simp]: "cache_clean (ResetRuleCache c)"
  by (simp add: cache_clean_def ResetRuleCache_def)

section \<open>Interface: rule items\<close>

locale item_semantics =
  fixes isRuleSet :: "'i \<Rightarrow> bool" and im :: "'i item_match"
  assumes item_frame: "same_facts (snd (im i c)) c"
    and leaf_frame: "\<not> isRuleSet i \<Longrightarrow> snd (im i c) = c"
    and leaf_view: "\<not> isRuleSet i \<Longrightarrow> item_view c = item_view d \<Longrightarrow> fst (im i c) = fst (im i d)"
begin

definition holds :: "inbound_context \<Rightarrow> 'i \<Rightarrow> bool" where
  "holds c i = fst (im i c)"

abbreviation leaves :: "'i list \<Rightarrow> bool" where
  "leaves is \<equiv> list_all (\<lambda>i. \<not> isRuleSet i) is"

lemma im_leaf: "\<not> isRuleSet i \<Longrightarrow> item_view c = item_view d \<Longrightarrow> im i c = (holds d i, c)"
  using leaf_frame [of i c] leaf_view [of i c d] by (simp add: holds_def prod_eq_iff)

lemma any_item_leaves:
  "leaves is \<Longrightarrow> item_view c = item_view d \<Longrightarrow> any_item im is c = (list_ex (holds d) is, c)"
proof (induction "is")
  case (Cons i "is")
  then have "im i c = (holds d i, c)" by (intro im_leaf) simp_all
  moreover have "any_item im is c = (list_ex (holds d) is, c)" using Cons by simp
  ultimately show ?case by (cases "holds d i") simp_all
qed simp

lemma all_items_leaves:
  "leaves is \<Longrightarrow> item_view c = item_view d \<Longrightarrow>
   \<exists>c'. all_items isRuleSet im is c = (list_all (holds d) is, c') \<and>
        (list_all (holds d) is \<longrightarrow> c' = (if is = [] then c else c\<lparr>mc_DidMatch := True\<rparr>))"
proof (induction "is" arbitrary: c)
  case (Cons i "is")
  let ?c = "c\<lparr>mc_DidMatch := True\<rparr>"
  have i: "\<not> isRuleSet i" "leaves is" using Cons.prems by simp_all
  have im: "im i ?c = (holds d i, ?c)" using i Cons.prems by (intro im_leaf) simp_all
  show ?case
  proof (cases "holds d i")
    case True
    from Cons.IH [OF i(2), of ?c] Cons.prems obtain c' where
      "all_items isRuleSet im is ?c = (list_all (holds d) is, c')"
      "list_all (holds d) is \<longrightarrow> c' = (if is = [] then ?c else ?c\<lparr>mc_DidMatch := True\<rparr>)"
      by auto
    with i im True show ?thesis by (simp add: Let_def)
  next
    case False
    with i im show ?thesis by (simp add: Let_def)
  qed
qed simp

lemma any_item_frame: "same_facts (snd (any_item im is c)) c"
proof (induction "is" arbitrary: c)
  case (Cons i "is")
  obtain b c' where e: "im i c = (b, c')" by force
  with item_frame [of i c] have f: "same_facts c' c" by simp
  show ?case
  proof (cases b)
    case True
    with e f show ?thesis by simp
  next
    case False
    with e show ?thesis using same_facts_trans [OF Cons.IH f] by simp
  qed
qed simp

lemma all_items_frame: "same_facts (snd (all_items isRuleSet im is c)) c"
proof (induction "is" arbitrary: c)
  case (Cons i "is")
  define c0 where "c0 = (if \<not> isRuleSet i then c\<lparr>mc_DidMatch := True\<rparr> else c)"
  obtain b c' where e: "im i c0 = (b, c')" by force
  with item_frame [of i c0] have f: "same_facts c' c" by (simp add: c0_def split: if_splits)
  show ?case
  proof (cases b)
    case True
    with e show ?thesis
      using same_facts_trans [OF Cons.IH f] by (simp add: Let_def c0_def [symmetric])
  next
    case False
    with e f show ?thesis by (simp add: Let_def c0_def [symmetric])
  qed
qed simp

lemma group_step_frame:
  assumes "\<And>c'. same_facts (f c') c'"
  shows "same_facts (case any_item im is (c\<lparr>mc_DidMatch := True\<rparr>) of
                       (b, c') \<Rightarrow> if b then f c' else c') c"
proof -
  obtain b c' where e: "any_item im is (c\<lparr>mc_DidMatch := True\<rparr>) = (b, c')" by force
  have c': "same_facts c' c"
    using any_item_frame [of "is" "c\<lparr>mc_DidMatch := True\<rparr>"] e by simp
  from same_facts_trans [OF assms c'] c' e show ?thesis by simp
qed

lemma groups_frame:
  "same_facts (match_sourceAddress im r c) c"
  "same_facts (match_sourcePort im r c) c"
  "same_facts (match_destinationAddress im r c) c"
  "same_facts (match_destinationIPCIDR im r c) c"
  "same_facts (match_destinationPort im r c) c"
  by (simp_all add: match_sourceAddress_def match_sourcePort_def match_destinationAddress_def
      match_destinationIPCIDR_def match_destinationPort_def group_step_frame)

text \<open>A match writes the rule cache and nothing else.\<close>

lemma Match_frame: "same_facts (snd (abstractDefaultRule_Match isRuleSet im r c)) c"
proof (cases "ar_allItems r = []")
  case True
  then show ?thesis by (simp add: abstractDefaultRule_Match_def)
next
  case False
  define c5 where "c5 = match_destinationPort im r (match_destinationIPCIDR im r
    (match_destinationAddress im r (match_sourcePort im r (match_sourceAddress im r c))))"
  have "same_facts c5 c"
    unfolding c5_def
    by (rule same_facts_trans [OF groups_frame(5) same_facts_trans [OF groups_frame(4)
          same_facts_trans [OF groups_frame(3) same_facts_trans [OF groups_frame(2)
          groups_frame(1)]]]])
  moreover have "same_facts (snd (all_items isRuleSet im (ar_items r) c5)) c5"
    by (rule all_items_frame)
  ultimately have f: "same_facts (snd (all_items isRuleSet im (ar_items r) c5)) c"
    by (rule same_facts_trans [rotated])
  obtain b c6 where e: "all_items isRuleSet im (ar_items r) c5 = (b, c6)" by force
  have "snd (abstractDefaultRule_Match isRuleSet im r c) = c6"
    using False e unfolding abstractDefaultRule_Match_def Let_def c5_def [symmetric]
    by (cases b) simp_all
  with e f show ?thesis by simp
qed

text \<open>
  On a clean cache, a rule without rule-set items computes the declarative verdict. A rule
  all of whose conditions are hidden by the ignore flag matches, inverted or not.
\<close>

lemma group_leaves:
  assumes "leaves is" and "item_view c = item_view d"
  shows "any_item im is (c\<lparr>mc_DidMatch := True\<rparr>) = (list_ex (holds d) is, c\<lparr>mc_DidMatch := True\<rparr>)"
  using assms by (intro any_item_leaves) simp_all

lemma groups_leaves:
  assumes "leaves (rule_groups r)" and "item_view c = item_view d"
    and "cache_flags c = (sa, sp, da, dp, did, ig)"
  shows
   "item_view (match_sourceAddress im r c) = item_view d \<and>
    cache_flags (match_sourceAddress im r c) =
      (sa \<or> list_ex (holds d) (ar_sourceAddressItems r), sp, da, dp,
       did \<or> (ar_sourceAddressItems r \<noteq> [] \<and> \<not> sa), ig)"
   "item_view (match_sourcePort im r c) = item_view d \<and>
    cache_flags (match_sourcePort im r c) =
      (sa, sp \<or> list_ex (holds d) (ar_sourcePortItems r), da, dp,
       did \<or> (ar_sourcePortItems r \<noteq> [] \<and> \<not> sp), ig)"
   "item_view (match_destinationAddress im r c) = item_view d \<and>
    cache_flags (match_destinationAddress im r c) =
      (sa, sp, da \<or> list_ex (holds d) (ar_destinationAddressItems r), dp,
       did \<or> (ar_destinationAddressItems r \<noteq> [] \<and> \<not> da), ig)"
   "item_view (match_destinationIPCIDR im r c) = item_view d \<and>
    cache_flags (match_destinationIPCIDR im r c) =
      (sa, sp, da \<or> (\<not> ig \<and> list_ex (holds d) (ar_destinationIPCIDRItems r)), dp,
       did \<or> (\<not> ig \<and> ar_destinationIPCIDRItems r \<noteq> [] \<and> \<not> da), ig)"
   "item_view (match_destinationPort im r c) = item_view d \<and>
    cache_flags (match_destinationPort im r c) =
      (sa, sp, da, dp \<or> list_ex (holds d) (ar_destinationPortItems r),
       did \<or> (ar_destinationPortItems r \<noteq> [] \<and> \<not> dp), ig)"
proof -
  have lv: "leaves (ar_sourceAddressItems r)" "leaves (ar_sourcePortItems r)"
      "leaves (ar_destinationAddressItems r)" "leaves (ar_destinationIPCIDRItems r)"
      "leaves (ar_destinationPortItems r)"
    using assms(1) by (simp_all add: rule_groups_def)
  note g = lv [THEN group_leaves, OF assms(2)]
  note s = assms(2,3)
  show "item_view (match_sourceAddress im r c) = item_view d \<and>
    cache_flags (match_sourceAddress im r c) =
      (sa \<or> list_ex (holds d) (ar_sourceAddressItems r), sp, da, dp,
       did \<or> (ar_sourceAddressItems r \<noteq> [] \<and> \<not> sa), ig)"
    using s by (auto simp: match_sourceAddress_def g(1) cache_flags_def)
  show "item_view (match_sourcePort im r c) = item_view d \<and>
    cache_flags (match_sourcePort im r c) =
      (sa, sp \<or> list_ex (holds d) (ar_sourcePortItems r), da, dp,
       did \<or> (ar_sourcePortItems r \<noteq> [] \<and> \<not> sp), ig)"
    using s by (auto simp: match_sourcePort_def g(2) cache_flags_def)
  show "item_view (match_destinationAddress im r c) = item_view d \<and>
    cache_flags (match_destinationAddress im r c) =
      (sa, sp, da \<or> list_ex (holds d) (ar_destinationAddressItems r), dp,
       did \<or> (ar_destinationAddressItems r \<noteq> [] \<and> \<not> da), ig)"
    using s by (auto simp: match_destinationAddress_def g(3) cache_flags_def)
  show "item_view (match_destinationIPCIDR im r c) = item_view d \<and>
    cache_flags (match_destinationIPCIDR im r c) =
      (sa, sp, da \<or> (\<not> ig \<and> list_ex (holds d) (ar_destinationIPCIDRItems r)), dp,
       did \<or> (\<not> ig \<and> ar_destinationIPCIDRItems r \<noteq> [] \<and> \<not> da), ig)"
    using s by (auto simp: match_destinationIPCIDR_def g(4) cache_flags_def)
  show "item_view (match_destinationPort im r c) = item_view d \<and>
    cache_flags (match_destinationPort im r c) =
      (sa, sp, da, dp \<or> list_ex (holds d) (ar_destinationPortItems r),
       did \<or> (ar_destinationPortItems r \<noteq> [] \<and> \<not> dp), ig)"
    using s by (auto simp: match_destinationPort_def g(5) cache_flags_def)
qed

text \<open>The cache a rule leaves behind, and its verdict, from any cache.\<close>

definition after_groups :: "'i abstract_rule \<Rightarrow> inbound_context \<Rightarrow> inbound_context" where
  "after_groups r c = match_destinationPort im r (match_destinationIPCIDR im r
     (match_destinationAddress im r (match_sourcePort im r (match_sourceAddress im r c))))"

lemma after_groups_leaves:
  assumes lv: "leaves (rule_groups r)" and fl: "cache_flags c = (sa, sp, da, dp, did, ig)"
  defines "da1 \<equiv> da \<or> list_ex (holds c) (ar_destinationAddressItems r)"
  shows "item_view (after_groups r c) = item_view c"
    and "cache_flags (after_groups r c) =
      (sa \<or> list_ex (holds c) (ar_sourceAddressItems r),
       sp \<or> list_ex (holds c) (ar_sourcePortItems r),
       da1 \<or> (\<not> ig \<and> list_ex (holds c) (ar_destinationIPCIDRItems r)),
       dp \<or> list_ex (holds c) (ar_destinationPortItems r),
       did \<or> (ar_sourceAddressItems r \<noteq> [] \<and> \<not> sa) \<or> (ar_sourcePortItems r \<noteq> [] \<and> \<not> sp) \<or>
       (ar_destinationAddressItems r \<noteq> [] \<and> \<not> da) \<or>
       (\<not> ig \<and> ar_destinationIPCIDRItems r \<noteq> [] \<and> \<not> da1) \<or>
       (ar_destinationPortItems r \<noteq> [] \<and> \<not> dp), ig)"
proof -
  note 1 = groups_leaves(1) [OF lv refl fl]
  note 2 = groups_leaves(2) [OF lv 1 [THEN conjunct1] 1 [THEN conjunct2]]
  note 3 = groups_leaves(3) [OF lv 2 [THEN conjunct1] 2 [THEN conjunct2]]
  note 4 = groups_leaves(4) [OF lv 3 [THEN conjunct1] 3 [THEN conjunct2]]
  note 5 = groups_leaves(5) [OF lv 4 [THEN conjunct1] 4 [THEN conjunct2]]
  show "item_view (after_groups r c) = item_view c"
    using 5 by (simp add: after_groups_def)
  show "cache_flags (after_groups r c) = (sa \<or> list_ex (holds c) (ar_sourceAddressItems r),
       sp \<or> list_ex (holds c) (ar_sourcePortItems r),
       da1 \<or> (\<not> ig \<and> list_ex (holds c) (ar_destinationIPCIDRItems r)),
       dp \<or> list_ex (holds c) (ar_destinationPortItems r),
       did \<or> (ar_sourceAddressItems r \<noteq> [] \<and> \<not> sa) \<or> (ar_sourcePortItems r \<noteq> [] \<and> \<not> sp) \<or>
       (ar_destinationAddressItems r \<noteq> [] \<and> \<not> da) \<or>
       (\<not> ig \<and> ar_destinationIPCIDRItems r \<noteq> [] \<and> \<not> da1) \<or>
       (ar_destinationPortItems r \<noteq> [] \<and> \<not> dp), ig)"
    using 5 by (auto simp: after_groups_def da1_def)
qed

lemma Match_unfold:
  assumes "ar_allItems r \<noteq> []" and "leaves (ar_items r)"
    and "cache_flags (after_groups r c) = (sa, sp, da, dp, did, ig)"
    and "item_view (after_groups r c) = item_view c"
  shows "fst (abstractDefaultRule_Match isRuleSet im r c) =
    (if list_all (holds c) (ar_items r) \<and> (ar_sourceAddressItems r = [] \<or> sa) \<and>
        (ar_sourcePortItems r = [] \<or> sp) \<and>
        (((ig \<or> ar_destinationIPCIDRItems r = []) \<and> ar_destinationAddressItems r = []) \<or> da) \<and>
        (ar_destinationPortItems r = [] \<or> dp)
     then \<not> (did \<or> ar_items r \<noteq> []) \<or> \<not> ar_invert r else ar_invert r)"
proof -
  obtain c6 where c6: "all_items isRuleSet im (ar_items r) (after_groups r c) =
      (list_all (holds c) (ar_items r), c6)"
    "list_all (holds c) (ar_items r) \<Longrightarrow> c6 = (if ar_items r = [] then after_groups r c
       else (after_groups r c)\<lparr>mc_DidMatch := True\<rparr>)"
    using all_items_leaves [OF assms(2,4)] by blast
  show ?thesis
  proof (cases "list_all (holds c) (ar_items r)")
    case True
    with c6(2) assms(3) have "cache_flags c6 = (sa, sp, da, dp, did \<or> ar_items r \<noteq> [], ig)"
      by (auto simp: cache_flags_def)
    then show ?thesis using c6(1) True assms(1)
      by (auto simp: abstractDefaultRule_Match_def Let_def after_groups_def [symmetric] cache_flags_def)
  next
    case False
    with c6(1) assms(1) show ?thesis
      by (auto simp: abstractDefaultRule_Match_def Let_def after_groups_def [symmetric])
  qed
qed

lemma Match_leaves:
  assumes wf: "rule_wf r" and lv: "leaves (rule_groups r)" and clean: "cache_clean c"
  shows "fst (abstractDefaultRule_Match isRuleSet im r c) =
    (\<not> has_conditions (mc_IgnoreDestinationIPCIDRMatch c) r \<or>
     default_verdict (mc_IgnoreDestinationIPCIDRMatch c) (holds c) r \<noteq> ar_invert r)"
proof (cases "ar_allItems r = []")
  case True
  with wf have "\<not> has_conditions (mc_IgnoreDestinationIPCIDRMatch c) r"
    by (auto simp: rule_wf_def rule_groups_def has_conditions_def)
  with True show ?thesis by (simp add: abstractDefaultRule_Match_def)
next
  case False
  let ?ig = "mc_IgnoreDestinationIPCIDRMatch c"
  have fl: "cache_flags c = (False, False, False, False, False, ?ig)"
    using clean by (simp add: cache_flags_def cache_clean_def)
  have items: "leaves (ar_items r)" using lv by (simp add: rule_groups_def)
  note after = after_groups_leaves [OF lv fl]
  show ?thesis
    unfolding Match_unfold [OF False items after(2) after(1)]
    by (auto simp: default_verdict_def group_holds_def has_conditions_def)
qed

end

section \<open>Interface: rules under a logical rule\<close>

text \<open>
  \<open>ok\<close> is the condition under which a rule leaves all but the cache alone; it may not
  depend on the cache.
\<close>

lemma rules_all_spec:
  assumes "\<And>r c. r \<in> set rs \<Longrightarrow> ok c \<Longrightarrow> same_facts (snd (rm r c)) c"
    and "\<And>c d. same_facts c d \<Longrightarrow> ok c = ok d" and "ok c"
  shows "fst (rules_all rm rs c) = (\<forall>r\<in>set rs. fst (rm r (ResetRuleCache c))) \<and>
    same_facts (snd (rules_all rm rs c)) c"
  using assms
proof (induction rs arbitrary: c)
  case (Cons r rs)
  have okr: "ok (ResetRuleCache c)" using Cons.prems(2) [of "ResetRuleCache c" c] Cons.prems(3) by simp
  obtain b c' where e: "rm r (ResetRuleCache c) = (b, c')" by force
  have f: "same_facts c' c" using Cons.prems(1) [of r, OF _ okr] e by simp
  then have ok': "ok c'" using Cons.prems(2,3) by blast
  have reset: "ResetRuleCache c' = ResetRuleCache c" using f by (simp add: same_facts_def)
  have IH: "fst (rules_all rm rs c') = (\<forall>r\<in>set rs. fst (rm r (ResetRuleCache c'))) \<and>
      same_facts (snd (rules_all rm rs c')) c'"
    using Cons.prems(1,2) ok' by (intro Cons.IH) simp_all
  then show ?case using e f reset same_facts_trans [of "snd (rules_all rm rs c')" c' c]
    by (cases b) simp_all
qed simp

lemma rules_any_spec:
  assumes "\<And>r c. r \<in> set rs \<Longrightarrow> ok c \<Longrightarrow> same_facts (snd (rm r c)) c"
    and "\<And>c d. same_facts c d \<Longrightarrow> ok c = ok d" and "ok c"
  shows "fst (rules_any rm rs c) = (\<exists>r\<in>set rs. fst (rm r (ResetRuleCache c))) \<and>
    same_facts (snd (rules_any rm rs c)) c"
  using assms
proof (induction rs arbitrary: c)
  case (Cons r rs)
  have okr: "ok (ResetRuleCache c)" using Cons.prems(2) [of "ResetRuleCache c" c] Cons.prems(3) by simp
  obtain b c' where e: "rm r (ResetRuleCache c) = (b, c')" by force
  have f: "same_facts c' c" using Cons.prems(1) [of r, OF _ okr] e by simp
  then have ok': "ok c'" using Cons.prems(2,3) by blast
  have reset: "ResetRuleCache c' = ResetRuleCache c" using f by (simp add: same_facts_def)
  have IH: "fst (rules_any rm rs c') = (\<exists>r\<in>set rs. fst (rm r (ResetRuleCache c'))) \<and>
      same_facts (snd (rules_any rm rs c')) c'"
    using Cons.prems(1,2) ok' by (intro Cons.IH) simp_all
  then show ?case using e f reset same_facts_trans [of "snd (rules_any rm rs c')" c' c]
    by (cases b) simp_all
qed simp

definition logical_verdict :: "('r \<Rightarrow> bool) \<Rightarrow> 'r list \<Rightarrow> string \<Rightarrow> bool \<Rightarrow> bool" where
  "logical_verdict p rules mode invert \<longleftrightarrow>
     (if mode = LogicalTypeAnd then list_all p rules else list_ex p rules) \<noteq> invert"

lemma logical_spec:
  assumes "\<And>r c. r \<in> set rs \<Longrightarrow> ok c \<Longrightarrow> same_facts (snd (rm r c)) c"
    and "\<And>c d. same_facts c d \<Longrightarrow> ok c = ok d" and "ok c"
  shows "fst (abstractLogicalRule_Match rm rs mode invert c) =
      logical_verdict (\<lambda>r. fst (rm r (ResetRuleCache c))) rs mode invert"
    and "same_facts (snd (abstractLogicalRule_Match rm rs mode invert c)) c"
  using rules_all_spec [of rs ok rm, OF assms] rules_any_spec [of rs ok rm, OF assms]
  by (auto simp: abstractLogicalRule_Match_def logical_verdict_def list_all_iff list_ex_iff
      split: prod.split)

locale rule_semantics =
  fixes ok :: "inbound_context \<Rightarrow> bool"
    and rm :: "'r \<Rightarrow> inbound_context \<Rightarrow> bool \<times> inbound_context"
  assumes ok_facts: "same_facts c d \<Longrightarrow> ok c = ok d"
    and rm_frame: "ok c \<Longrightarrow> same_facts (snd (rm r c)) c"
begin

text \<open>The verdict of a rule on a connection: its match on a clean cache.\<close>

definition verdict :: "'r \<Rightarrow> inbound_context \<Rightarrow> bool" where
  "verdict r c = fst (rm r (ResetRuleCache c))"

lemma verdict_facts: "same_facts c d \<Longrightarrow> verdict r c = verdict r d"
  by (simp add: verdict_def same_facts_def)

lemma logical: "ok c \<Longrightarrow> fst (abstractLogicalRule_Match rm rs mode invert c) =
    logical_verdict (\<lambda>r. verdict r c) rs mode invert"
  unfolding verdict_def by (rule logical_spec(1) [OF rm_frame ok_facts])

lemma verdict_after: "ok c \<Longrightarrow> verdict r (snd (rm s c)) = verdict r c"
  by (rule verdict_facts [OF rm_frame])

end

section \<open>Interpretations\<close>

lemma leaf_match_view: "leaf_match L R i c = leaf_match L R i (item_view c)"
  by (cases i) (simp_all add: item_view_def domain_host_def Let_def
      InboundItem_Match_def IPVersionItem_Match_def QueryTypeItem_Match_def NetworkItem_Match_def
      AuthUserItem_Match_def ProtocolItem_Match_def ClientItem_Match_def DomainItem_Match_def
      DomainKeywordItem_Match_def DomainRegexItem_Match_def AdGuardDomainItem_Match_def
      IPCIDRItem_Match_def IPIsPrivateItem_Match_def IPAcceptAnyItem_Match_def PortItem_Match_def
      PortRangeItem_Match_def ProcessItem_Match_def ProcessPathItem_Match_def
      ProcessPathRegexItem_Match_def PackageNameItem_Match_def UserItem_Match_def
      UserIdItem_Match_def OutboundItem_Match_def ClashModeItem_Match_def NetworkTypeItem_Match_def
      NetworkIsExpensiveItem_Match_def NetworkIsConstrainedItem_Match_def WIFISSIDItem_Match_def
      WIFIBSSIDItem_Match_def)

interpretation leaf: item_semantics "\<lambda>_. False" "leaf_item_match L R" for L R
proof unfold_locales
  show "item_view c = item_view d \<Longrightarrow> fst (leaf_item_match L R i c) = fst (leaf_item_match L R i d)"
    for i c d
    using leaf_match_view [of L R i c] leaf_match_view [of L R i d] by (simp add: leaf_item_match_def)
qed (simp_all add: leaf_item_match_def)

lemma HeadlessRule_Match_frame: "same_facts (snd (HeadlessRule_Match L R r c)) c"
proof (induction r arbitrary: c)
  case (DefaultHeadlessRule r)
  show ?case by (simp add: leaf.Match_frame)
next
  case (LogicalHeadlessRule rules mode invert)
  show ?case
    using logical_spec(2) [of rules "\<lambda>_. True" "HeadlessRule_Match L R"] LogicalHeadlessRule.IH by simp
qed

lemma RuleSet_Match_frame: "same_facts (snd (RuleSet_Match L R rules c)) c"
proof (induction rules arbitrary: c)
  case (Cons r rules)
  obtain b c' where e: "HeadlessRule_Match L R r c = (b, c')" by force
  then have f: "same_facts c' c" using HeadlessRule_Match_frame [of L R r c] by simp
  from e f same_facts_trans [OF Cons.IH f] show ?case by (cases b) simp_all
qed simp

lemma sets_match_frame: "same_facts (snd (sets_match L R H ss c)) c"
proof (induction ss arbitrary: c)
  case (Cons s ss)
  obtain b c' where e: "RuleSet_Match L R (H s) c = (b, c')" by force
  then have f: "same_facts c' c" using RuleSet_Match_frame [of L R "H s" c] by simp
  from e f same_facts_trans [OF Cons.IH f] show ?case by (cases b) simp_all
qed simp

interpretation item: item_semantics is_RuleSetItem "rule_item_match L R H" for L R H
proof unfold_locales
  show "same_facts (snd (rule_item_match L R H i c)) c" for i c
  proof (cases i)
    case (RuleSetItem r)
    then show ?thesis
      using sets_match_frame [of L R H "rsi_setList r" "c\<lparr>mc_IPCIDRMatchSource :=
        rsi_ipCidrMatchSource r, mc_IPCIDRAcceptEmpty := rsi_ipCidrAcceptEmpty r\<rparr>"]
      by (simp add: RuleSetItem_Match_def)
  qed simp
  show "\<not> is_RuleSetItem i \<Longrightarrow> snd (rule_item_match L R H i c) = c" for i c
    by (cases i) simp_all
  show "\<not> is_RuleSetItem i \<Longrightarrow> item_view c = item_view d \<Longrightarrow>
      fst (rule_item_match L R H i c) = fst (rule_item_match L R H i d)" for i c d
    using leaf_match_view [of L R _ c] leaf_match_view [of L R _ d] by (cases i) simp_all
qed

interpretation headless: rule_semantics "\<lambda>_. True" "HeadlessRule_Match L R" for L R
  by unfold_locales (simp_all add: HeadlessRule_Match_frame)

lemma Rule_Match_frame: "same_facts (snd (Rule_Match L R H r c)) c"
proof (induction r arbitrary: c)
  case (DefaultRule r a)
  show ?case by (simp add: item.Match_frame)
next
  case (LogicalRule rules mode invert a)
  show ?case
    using logical_spec(2) [of rules "\<lambda>_. True" "Rule_Match L R H"] LogicalRule.IH by simp
qed

interpretation route: rule_semantics "\<lambda>_. True" "Rule_Match L R H" for L R H
  by unfold_locales (simp_all add: Rule_Match_frame)

lemma same_facts_ignore:
  "same_facts c d \<Longrightarrow> mc_IgnoreDestinationIPCIDRMatch c = mc_IgnoreDestinationIPCIDRMatch d"
  unfolding same_facts_def ResetRuleCache_def
  by (drule arg_cong [where f = mc_IgnoreDestinationIPCIDRMatch]) simp

lemma ResetRuleCache_ignore:
  "ResetRuleCache (c\<lparr>mc_IgnoreDestinationIPCIDRMatch := b\<rparr>) =
   (ResetRuleCache c)\<lparr>mc_IgnoreDestinationIPCIDRMatch := b\<rparr>"
  by (cases c) (simp add: ResetRuleCache_def)

lemma ignore_unset:
  "\<not> mc_IgnoreDestinationIPCIDRMatch c \<Longrightarrow> c\<lparr>mc_IgnoreDestinationIPCIDRMatch := False\<rparr> = c"
  by (cases c) simp

lemma same_facts_set_ignore:
  "same_facts c d \<Longrightarrow> same_facts (c\<lparr>mc_IgnoreDestinationIPCIDRMatch := b\<rparr>)
                                (d\<lparr>mc_IgnoreDestinationIPCIDRMatch := b\<rparr>)"
  unfolding same_facts_def ResetRuleCache_ignore by simp

lemma DefaultDNSRule_Match_frame:
  "\<not> mc_IgnoreDestinationIPCIDRMatch c \<Longrightarrow> same_facts (snd (DefaultDNSRule_Match L R H r c)) c"
  using same_facts_set_ignore [OF item.Match_frame [of L R H r
      "c\<lparr>mc_IgnoreDestinationIPCIDRMatch := True\<rparr>"], of False]
  by (auto simp: DefaultDNSRule_Match_def ignore_unset split: prod.split)

lemma DNSRule_Match_frame:
  "\<not> mc_IgnoreDestinationIPCIDRMatch c \<Longrightarrow> same_facts (snd (DNSRule_Match L R H r c)) c"
proof (induction r arbitrary: c)
  case (DefaultDNSRule r a)
  then show ?case by (simp add: DefaultDNSRule_Match_frame)
next
  case (LogicalDNSRule rules mode invert a)
  then show ?case
    using logical_spec(2) [of rules "\<lambda>c. \<not> mc_IgnoreDestinationIPCIDRMatch c" "DNSRule_Match L R H"]
      same_facts_ignore by simp
qed

lemma DNSRule_MatchAddressLimit_frame: "same_facts (snd (DNSRule_MatchAddressLimit L R H r c)) c"
proof (induction r arbitrary: c)
  case (DefaultDNSRule r a)
  show ?case by (simp add: item.Match_frame)
next
  case (LogicalDNSRule rules mode invert a)
  show ?case
    using logical_spec(2) [of rules "\<lambda>_. True" "DNSRule_MatchAddressLimit L R H"]
      LogicalDNSRule.IH by simp
qed

interpretation dns: rule_semantics "\<lambda>c. \<not> mc_IgnoreDestinationIPCIDRMatch c" "DNSRule_Match L R H"
  for L R H
  by unfold_locales (simp_all add: DNSRule_Match_frame same_facts_ignore)

interpretation dns_limit: rule_semantics "\<lambda>_. True" "DNSRule_MatchAddressLimit L R H" for L R H
  by unfold_locales (simp_all add: DNSRule_MatchAddressLimit_frame)

section \<open>The two phases of a DNS rule\<close>

lemma default_verdict_cong:
  assumes "\<And>i. i \<in> set (rule_groups r) \<Longrightarrow> p i = q i"
  shows "default_verdict ig p r = default_verdict ig q r"
proof -
  have ex: "list_ex p xs = list_ex q xs" if "set xs \<subseteq> set (rule_groups r)" for xs
    using that assms by (auto simp: list_ex_iff)
  have al: "list_all p (ar_items r) = list_all q (ar_items r)"
    using assms by (auto simp: list_all_iff rule_groups_def)
  have gr: "group_holds p xs = group_holds q xs" if "set xs \<subseteq> set (rule_groups r)" for xs
    using ex [OF that] by (simp add: group_holds_def)
  have sub: "set (ar_sourceAddressItems r) \<subseteq> set (rule_groups r)"
      "set (ar_sourcePortItems r) \<subseteq> set (rule_groups r)"
      "set (ar_destinationAddressItems r @ (if ig then [] else ar_destinationIPCIDRItems r))
         \<subseteq> set (rule_groups r)"
      "set (ar_destinationPortItems r) \<subseteq> set (rule_groups r)"
    by (auto simp: rule_groups_def)
  show ?thesis unfolding default_verdict_def al gr [OF sub(1)] gr [OF sub(2)] gr [OF sub(3)]
    gr [OF sub(4)] ..
qed

text \<open>
  Both phases of a default DNS rule of plain conditions, as declarative verdicts over the
  same reading of the items.
\<close>

lemma dns_phases:
  assumes "rule_wf r" and "list_all (\<lambda>i. \<not> is_RuleSetItem i) (rule_groups r)"
    and "\<not> mc_IgnoreDestinationIPCIDRMatch c"
  shows "fst (DNSRule_MatchAddressLimit L R H (DefaultDNSRule r a) (ResetRuleCache c)) =
      (\<not> has_conditions False r \<or>
       default_verdict False (item.holds L R H (ResetRuleCache c)) r \<noteq> ar_invert r)"
    and "fst (DNSRule_Match L R H (DefaultDNSRule r a) (ResetRuleCache c)) =
      (\<not> has_conditions True r \<or>
       default_verdict True (item.holds L R H (ResetRuleCache c)) r \<noteq> ar_invert r)"
proof -
  let ?c = "ResetRuleCache c"
  let ?d = "?c\<lparr>mc_IgnoreDestinationIPCIDRMatch := True\<rparr>"
  have ig: "\<not> mc_IgnoreDestinationIPCIDRMatch ?c" using assms(3) by (simp add: ResetRuleCache_def)
  show "fst (DNSRule_MatchAddressLimit L R H (DefaultDNSRule r a) ?c) =
      (\<not> has_conditions False r \<or> default_verdict False (item.holds L R H ?c) r \<noteq> ar_invert r)"
    using item.Match_leaves [OF assms(1,2) cache_clean_reset, of L R H c] ig by simp
  have "cache_clean ?d" by (simp add: cache_clean_def ResetRuleCache_def)
  note before = item.Match_leaves [OF assms(1,2) this, of L R H]
  have "default_verdict True (item.holds L R H ?d) r = default_verdict True (item.holds L R H ?c) r"
  proof (rule default_verdict_cong)
    fix i assume "i \<in> set (rule_groups r)"
    then have "\<not> is_RuleSetItem i" using assms(2) by (simp add: list_all_iff)
    then show "item.holds L R H ?d i = item.holds L R H ?c i"
      unfolding item.holds_def by (rule item.leaf_view) simp
  qed
  with before show "fst (DNSRule_Match L R H (DefaultDNSRule r a) ?c) =
      (\<not> has_conditions True r \<or> default_verdict True (item.holds L R H ?c) r \<noteq> ar_invert r)"
    by (simp add: DefaultDNSRule_Match_def case_prod_beta)
qed

section \<open>Properties of route, headless and DNS rules\<close>

text \<open>C9 (route_default_verdict): a default route rule whose items are plain conditions matches a
  connection exactly when it has no condition or its conditions, combined group by group as
  a conjunction of alternatives (destination domains and destination addresses forming one
  group), hold or, for an inverted rule, do not hold. The engine's cached flags, early exits
  and write order do not change that.\<close>

theorem route_default_verdict:
  assumes "rule_wf r" and "list_all (\<lambda>i. \<not> is_RuleSetItem i) (rule_groups r)"
    and "\<not> mc_IgnoreDestinationIPCIDRMatch c"
  shows "fst (Rule_Match L R H (DefaultRule r a) (ResetRuleCache c)) =
    (\<not> has_conditions False r \<or>
     default_verdict False (\<lambda>i. fst (rule_item_match L R H i (ResetRuleCache c))) r \<noteq> ar_invert r)"
proof -
  have "\<not> mc_IgnoreDestinationIPCIDRMatch (ResetRuleCache c)"
    using assms(3) by (simp add: ResetRuleCache_def)
  then show ?thesis
    using item.Match_leaves [OF assms(1,2), of "ResetRuleCache c" L R H]
    by (simp add: item.holds_def [abs_def])
qed

definition sample_rule :: "rule_item abstract_rule" where
  "sample_rule = \<lparr>ar_items = [], ar_sourceAddressItems = [], ar_sourcePortItems = [],
     ar_destinationAddressItems = [Leaf (DomainKeywordItem [''ads''])],
     ar_destinationIPCIDRItems = [], ar_destinationPortItems = [Leaf (PortItem (NewPortItem False [443]))],
     ar_allItems = [Leaf (DomainKeywordItem [''ads'']), Leaf (PortItem (NewPortItem False [443]))],
     ar_invert = False\<rparr>"

definition sample_context :: "string \<Rightarrow> u16 \<Rightarrow> inbound_context" where
  "sample_context host port =
     new_context\<lparr>mc_Destination := \<lparr>sa_Addr = NoAddr, sa_Port = port, sa_Fqdn = host\<rparr>\<rparr>"

lemmas sample_defs = sample_rule_def sample_context_def new_context_def no_socksaddr_def
  default_inbound_options_def ResetRuleCache_def

theorem route_default_verdict_witness:
  "fst (Rule_Match sample_lib sample_runtime (\<lambda>_. []) (DefaultRule sample_rule ())
     (ResetRuleCache (sample_context ''ads.example'' 443)))"
proof -
  have wf: "rule_wf sample_rule" "list_all (\<lambda>i. \<not> is_RuleSetItem i) (rule_groups sample_rule)"
    "\<not> mc_IgnoreDestinationIPCIDRMatch (sample_context ''ads.example'' 443)"
    by (simp_all add: rule_wf_def rule_groups_def sample_defs)
  have "Contains (ToLower ''ads.example'') ''ads''" by code_simp
  then show ?thesis
    unfolding route_default_verdict [OF wf]
    by (simp add: sample_defs default_verdict_def group_holds_def has_conditions_def
        DomainKeywordItem_Match_def domain_host_def PortItem_Match_def NewPortItem_def)
qed

text \<open>Remark (headless_default_verdict): a default rule of a rule-set computes the same declarative
  verdict on a clean cache; when the destination IP conditions are hidden (the first phase
  of DNS matching) they are left out of the conjunction.\<close>

theorem headless_default_verdict:
  assumes "rule_wf r"
  shows "fst (HeadlessRule_Match L R (DefaultHeadlessRule r) (ResetRuleCache c)) =
    (\<not> has_conditions (mc_IgnoreDestinationIPCIDRMatch c) r \<or>
     default_verdict (mc_IgnoreDestinationIPCIDRMatch c)
       (\<lambda>i. leaf_match L R i (ResetRuleCache c)) r \<noteq> ar_invert r)"
proof -
  have "mc_IgnoreDestinationIPCIDRMatch (ResetRuleCache c) = mc_IgnoreDestinationIPCIDRMatch c"
    by (simp add: ResetRuleCache_def)
  then show ?thesis
    using leaf.Match_leaves [OF assms, of "ResetRuleCache c" L R]
    by (simp add: leaf.holds_def [abs_def] leaf_item_match_def list.pred_True)
qed

definition sample_headless :: "string \<Rightarrow> u16 \<Rightarrow> leaf_item abstract_rule" where
  "sample_headless keyword port = \<lparr>ar_items = [], ar_sourceAddressItems = [], ar_sourcePortItems = [],
     ar_destinationAddressItems = [DomainKeywordItem [keyword]],
     ar_destinationIPCIDRItems = [], ar_destinationPortItems = [PortItem (NewPortItem False [port])],
     ar_allItems = [DomainKeywordItem [keyword], PortItem (NewPortItem False [port])],
     ar_invert = False\<rparr>"

theorem headless_default_verdict_witness:
  "\<not> fst (HeadlessRule_Match sample_lib sample_runtime (DefaultHeadlessRule (sample_headless ''ads'' 443))
     (ResetRuleCache (sample_context ''ads.example'' 80)))"
proof -
  have wf: "rule_wf (sample_headless ''ads'' 443)"
    by (simp add: rule_wf_def rule_groups_def sample_headless_def)
  show ?thesis
    unfolding headless_default_verdict [OF wf]
    by (simp add: sample_headless_def sample_defs default_verdict_def group_holds_def
        has_conditions_def PortItem_Match_def NewPortItem_def)
qed

text \<open>Remark (route_logical_verdict): a logical route rule is the conjunction (mode and) or the
  disjunction (any other mode) of the verdicts of its sub-rules, each taken on a clean
  cache, inverted when asked; the order of the sub-rules and the short-circuit do not
  matter.\<close>

theorem route_logical_verdict:
  "fst (Rule_Match L R H (LogicalRule rules mode invert a) c) =
     ((if mode = ''and''
       then list_all (\<lambda>r. fst (Rule_Match L R H r (ResetRuleCache c))) rules
       else list_ex (\<lambda>r. fst (Rule_Match L R H r (ResetRuleCache c))) rules) \<noteq> invert)"
  using route.logical [where c = c and L = L and R = R and H = H and rs = rules and mode = mode and
      invert = invert]
  by (simp add: logical_verdict_def route.verdict_def LogicalTypeAnd_def)

text \<open>Remark (route_match_frame): matching a route rule, whatever its nesting and rule-sets, changes
  the rule cache of the connection and nothing else, so after a reset the next rule is
  matched as if this one had not been tried.\<close>

theorem route_match_frame:
  "ResetRuleCache (snd (Rule_Match L R H r c)) = ResetRuleCache c \<and>
   Rule_Match L R H r' (ResetRuleCache (snd (Rule_Match L R H r c))) =
     Rule_Match L R H r' (ResetRuleCache c)"
  using Rule_Match_frame [of L R H r c] by (simp add: same_facts_def)

text \<open>The same for DNS rules: matching one from a context in which the destination IP
  conditions are not hidden leaves them not hidden, and changes the rule cache only.\<close>

lemma dns_match_frame:
  assumes "\<not> mc_IgnoreDestinationIPCIDRMatch c"
  shows "ResetRuleCache (snd (DNSRule_Match L R H r c)) = ResetRuleCache c \<and>
    \<not> mc_IgnoreDestinationIPCIDRMatch (snd (DNSRule_Match L R H r c))"
  using DNSRule_Match_frame [OF assms, of L R H r] assms
  by (auto simp: same_facts_def dest: same_facts_ignore [unfolded same_facts_def])

text \<open>Remark (dns_prefilter_sound): for a default DNS rule of plain conditions that is not inverted
  and does not combine domain with destination IP conditions, the match before the lookup
  never rejects a rule that the match after the lookup would accept.\<close>

theorem dns_prefilter_sound:
  assumes "rule_wf r" and "list_all (\<lambda>i. \<not> is_RuleSetItem i) (rule_groups r)"
    and "\<not> mc_IgnoreDestinationIPCIDRMatch c" and "\<not> ar_invert r"
    and "ar_destinationAddressItems r = [] \<or> ar_destinationIPCIDRItems r = []"
    and "fst (DNSRule_MatchAddressLimit L R H (DefaultDNSRule r a) (ResetRuleCache c))"
  shows "fst (DNSRule_Match L R H (DefaultDNSRule r a) (ResetRuleCache c))"
  using assms(4-6) unfolding dns_phases [OF assms(1-3)]
  by (auto simp: default_verdict_def has_conditions_def group_holds_def)

definition sample_cidr_rule :: "leaf_item list \<Rightarrow> bool \<Rightarrow> rule_item abstract_rule" where
  "sample_cidr_rule domains invert = \<lparr>ar_items = [], ar_sourceAddressItems = [],
     ar_sourcePortItems = [], ar_destinationAddressItems = map Leaf domains,
     ar_destinationIPCIDRItems = [Leaf (IPIsPrivateItem False)],
     ar_destinationPortItems = [Leaf (PortItem (NewPortItem False [53]))],
     ar_allItems = map Leaf domains @ [Leaf (IPIsPrivateItem False),
                                       Leaf (PortItem (NewPortItem False [53]))],
     ar_invert = invert\<rparr>"

definition sample_response :: "string \<Rightarrow> addr \<Rightarrow> inbound_context" where
  "sample_response host a = (sample_context host 53)\<lparr>mc_DestinationAddresses := [a]\<rparr>"

lemma sample_cidr_rule_ok:
  "rule_wf (sample_cidr_rule ds ivt)"
  "list_all (\<lambda>i. \<not> is_RuleSetItem i) (rule_groups (sample_cidr_rule ds ivt))"
  "\<not> mc_IgnoreDestinationIPCIDRMatch (sample_response host a)"
  by (simp_all add: rule_wf_def rule_groups_def sample_cidr_rule_def sample_response_def
      sample_defs list_all_iff)

lemmas sample_cidr_eval = sample_cidr_rule_def sample_response_def sample_defs
  default_verdict_def group_holds_def has_conditions_def PortItem_Match_def NewPortItem_def
  IPIsPrivateItem_Match_def Addr_IsValid_def sample_lib_def item.holds_def

theorem dns_prefilter_sound_witness:
  "fst (DNSRule_Match sample_lib sample_runtime (\<lambda>_. []) (DefaultDNSRule (sample_cidr_rule [] False) ())
     (ResetRuleCache (sample_response ''a.example'' (IPv4 0))))"
proof (rule dns_prefilter_sound [OF sample_cidr_rule_ok])
  show "fst (DNSRule_MatchAddressLimit sample_lib sample_runtime (\<lambda>_. [])
     (DefaultDNSRule (sample_cidr_rule [] False) ()) (ResetRuleCache (sample_response ''a.example'' (IPv4 0))))"
    unfolding dns_phases(1) [OF sample_cidr_rule_ok] by (simp add: sample_cidr_eval)
qed (simp_all add: sample_cidr_rule_def)

text \<open>Remark (dns_domain_waives_limit): once one of its domain conditions holds, a default DNS rule of
  plain conditions accepts a response exactly when it accepted the query: the addresses of
  the response are not looked at, because domains and destination addresses are
  alternatives of one group.\<close>

theorem dns_domain_waives_limit:
  assumes "rule_wf r" and "list_all (\<lambda>i. \<not> is_RuleSetItem i) (rule_groups r)"
    and "\<not> mc_IgnoreDestinationIPCIDRMatch c"
    and "list_ex (\<lambda>i. fst (rule_item_match L R H i (ResetRuleCache c))) (ar_destinationAddressItems r)"
  shows "fst (DNSRule_MatchAddressLimit L R H (DefaultDNSRule r a) (ResetRuleCache c)) =
    fst (DNSRule_Match L R H (DefaultDNSRule r a) (ResetRuleCache c))"
  using assms(4) unfolding dns_phases [OF assms(1-3)]
  by (auto simp: default_verdict_def has_conditions_def group_holds_def item.holds_def [abs_def])

theorem dns_domain_waives_limit_witness:
  "fst (DNSRule_MatchAddressLimit sample_lib sample_runtime (\<lambda>_. [])
     (DefaultDNSRule (sample_cidr_rule [DomainKeywordItem [''ads'']] False) ())
     (ResetRuleCache (sample_response ''ads.example'' (IPv4 1))))"
proof -
  let ?r = "sample_cidr_rule [DomainKeywordItem [''ads'']] False"
  let ?c = "ResetRuleCache (sample_response ''ads.example'' (IPv4 1))"
  have k: "Contains (ToLower ''ads.example'') ''ads''" by code_simp
  have d: "list_ex (\<lambda>i. fst (rule_item_match sample_lib sample_runtime (\<lambda>_. []) i ?c))
      (ar_destinationAddressItems ?r)"
    using k by (simp add: sample_cidr_rule_def sample_response_def sample_defs
        DomainKeywordItem_Match_def domain_host_def)
  show ?thesis
    unfolding dns_domain_waives_limit [OF sample_cidr_rule_ok d]
      dns_phases(2) [OF sample_cidr_rule_ok]
    using k by (simp add: sample_cidr_eval DomainKeywordItem_Match_def domain_host_def)
qed

text \<open>Remark (dns_prefilter_rejects_inverted): the match before the lookup can reject an inverted rule
  that the match after the lookup would accept: a rule for not (port 53 and private address)
  is dropped for every query to port 53, although a response with a public address satisfies
  it.\<close>

theorem dns_prefilter_rejects_inverted:
  "\<not> fst (DNSRule_Match sample_lib sample_runtime (\<lambda>_. [])
      (DefaultDNSRule (sample_cidr_rule [] True) ()) (ResetRuleCache (sample_response ''a.example'' (IPv4 1)))) \<and>
   fst (DNSRule_MatchAddressLimit sample_lib sample_runtime (\<lambda>_. [])
      (DefaultDNSRule (sample_cidr_rule [] True) ()) (ResetRuleCache (sample_response ''a.example'' (IPv4 1))))"
  unfolding dns_phases [OF sample_cidr_rule_ok] by (simp add: sample_cidr_eval)

end
