(* ===== verification/Rule_Options.thy ===== *)
theory Rule_Options
  imports Rule_Semantics Rule_Action
begin

text \<open>
  From the options of the configuration to rules: the option records of
  \<^verbatim>\<open>option/rule.go\<close>, \<^verbatim>\<open>option/rule_dns.go\<close> and \<^verbatim>\<open>option/rule_set.go\<close>, their
  \<^verbatim>\<open>IsValid\<close>, and the constructors of \<^verbatim>\<open>rule_default.go\<close>, \<^verbatim>\<open>rule_dns.go\<close> and
  \<^verbatim>\<open>rule_headless.go\<close>. A constructor is the sequence of its steps; every step that adds
  an item appends it to its group and to the list of all items, and the first error ends
  the construction.

  A slice is a list: the absent field and the empty list are one value.
\<close>

section \<open>Building an abstract rule\<close>

datatype item_group = Items | SourceAddress | SourcePort | DestinationAddress
  | DestinationIPCIDR | DestinationPort

fun append_item :: "'i abstract_rule \<Rightarrow> item_group \<times> 'i \<Rightarrow> 'i abstract_rule" where
  "append_item r (Items, i) = r\<lparr>ar_items := ar_items r @ [i], ar_allItems := ar_allItems r @ [i]\<rparr>"
| "append_item r (SourceAddress, i) =
     r\<lparr>ar_sourceAddressItems := ar_sourceAddressItems r @ [i], ar_allItems := ar_allItems r @ [i]\<rparr>"
| "append_item r (SourcePort, i) =
     r\<lparr>ar_sourcePortItems := ar_sourcePortItems r @ [i], ar_allItems := ar_allItems r @ [i]\<rparr>"
| "append_item r (DestinationAddress, i) =
     r\<lparr>ar_destinationAddressItems := ar_destinationAddressItems r @ [i], ar_allItems := ar_allItems r @ [i]\<rparr>"
| "append_item r (DestinationIPCIDR, i) =
     r\<lparr>ar_destinationIPCIDRItems := ar_destinationIPCIDRItems r @ [i], ar_allItems := ar_allItems r @ [i]\<rparr>"
| "append_item r (DestinationPort, i) =
     r\<lparr>ar_destinationPortItems := ar_destinationPortItems r @ [i], ar_allItems := ar_allItems r @ [i]\<rparr>"

type_synonym 'i rule_step = "'i abstract_rule \<Rightarrow> 'i abstract_rule result"

text \<open>\<^verbatim>\<open>if present { item := ...; append }\<close>, the same with a constructor that may fail, and
  \<^verbatim>\<open>if present { return nil, err }\<close>.\<close>

definition item_if :: "bool \<Rightarrow> item_group \<Rightarrow> 'i \<Rightarrow> 'i rule_step" where
  "item_if present g item r = (if present then Inr (append_item r (g, item)) else Inr r)"

definition item_try :: "bool \<Rightarrow> item_group \<Rightarrow> ('a \<Rightarrow> 'i) \<Rightarrow> 'a result \<Rightarrow> 'i rule_step" where
  "item_try present g mk item r =
     (if present then bind_r item (\<lambda>i. Inr (append_item r (g, mk i))) else Inr r)"

definition fail_if :: "bool \<Rightarrow> error \<Rightarrow> 'i rule_step" where
  "fail_if present e r = (if present then Inl e else Inr r)"

definition empty_rule :: "bool \<Rightarrow> 'i abstract_rule" where
  "empty_rule iv = \<lparr>ar_items = [], ar_sourceAddressItems = [], ar_sourcePortItems = [],
     ar_destinationAddressItems = [], ar_destinationIPCIDRItems = [],
     ar_destinationPortItems = [], ar_allItems = [], ar_invert = iv\<rparr>"

definition RuleTypeDefault :: string where "RuleTypeDefault = ''default''"
definition RuleTypeLogical :: string where "RuleTypeLogical = ''logical''"

abbreviation "cause m \<equiv> map_err (\<lambda>e. ECause e m)"

text \<open>\<^verbatim>\<open>common.All\<close> with a predicate that may panic.\<close>

fun all_r :: "('a \<Rightarrow> bool result) \<Rightarrow> 'a list \<Rightarrow> bool result" where
  "all_r f [] = Inr True"
| "all_r f (x # xs) = bind_r (f x) (\<lambda>b. if b then all_r f xs else Inr False)"

lemma all_r_cong [fundef_cong]:
  "(\<And>x. x \<in> set xs \<Longrightarrow> f x = g x) \<Longrightarrow> xs = ys \<Longrightarrow> all_r f xs = all_r g ys"
  by (induction xs arbitrary: ys) (auto cong: if_cong)

lemma traverse_from_cong [fundef_cong]:
  "(\<And>i x. x \<in> set xs \<Longrightarrow> f i x = g i x) \<Longrightarrow> xs = ys \<Longrightarrow> i = j \<Longrightarrow>
   traverse_from i f xs = traverse_from j g ys"
proof (induction xs arbitrary: ys i j)
  case (Cons x xs)
  have "traverse_from (Suc i) f xs = traverse_from (Suc i) g xs"
    using Cons.prems(1) by (intro Cons.IH) auto
  moreover have "f i x = g i x" using Cons.prems(1) by simp
  ultimately show ?case using Cons.prems(2,3) by auto
qed auto

text \<open>The logical constructors share their mode check and their loop over the sub-rules.\<close>

definition logical_mode :: "string \<Rightarrow> string result" where
  "logical_mode mode =
     (if mode = LogicalTypeAnd then Inr LogicalTypeAnd
      else if mode = LogicalTypeOr then Inr LogicalTypeOr
      else Inl (ENew (''unknown logical mode: '' @ mode)))"

definition sub_rules :: "('o \<Rightarrow> 'r result) \<Rightarrow> 'o list \<Rightarrow> 'r list result" where
  "sub_rules new os = traverse (\<lambda>i sub. cause (''sub rule['' @ itoa i @ '']'') (new sub)) os"

lemma sub_rules_cong [fundef_cong]:
  "(\<And>x. x \<in> set xs \<Longrightarrow> f x = g x) \<Longrightarrow> xs = ys \<Longrightarrow> sub_rules f xs = sub_rules g ys"
  unfolding sub_rules_def by (rule traverse_from_cong) simp_all

section \<open>Options of route rules\<close>

record raw_default_rule =
  or_Inbound :: "string list"
  or_IPVersion :: int
  or_Network :: "string list"
  or_AuthUser :: "string list"
  or_Protocol :: "string list"
  or_Client :: "string list"
  or_Domain :: "string list"
  or_DomainSuffix :: "string list"
  or_DomainKeyword :: "string list"
  or_DomainRegex :: "string list"
  or_Geosite :: "string list"
  or_SourceGeoIP :: "string list"
  or_GeoIP :: "string list"
  or_SourceIPCIDR :: "string list"
  or_SourceIPIsPrivate :: bool
  or_IPCIDR :: "string list"
  or_IPIsPrivate :: bool
  or_SourcePort :: "u16 list"
  or_SourcePortRange :: "string list"
  or_Port :: "u16 list"
  or_PortRange :: "string list"
  or_ProcessName :: "string list"
  or_ProcessPath :: "string list"
  or_ProcessPathRegex :: "string list"
  or_PackageName :: "string list"
  or_User :: "string list"
  or_UserID :: "int list"
  or_ClashMode :: string
  or_NetworkType :: "interface_type list"
  or_NetworkIsExpensive :: bool
  or_NetworkIsConstrained :: bool
  or_WIFISSID :: "string list"
  or_WIFIBSSID :: "string list"
  or_RuleSet :: "string list"
  or_RuleSetIPCIDRMatchSource :: bool
  or_Invert :: bool
  or_Deprecated_RulesetIPCIDRMatchSource :: bool

definition zero_raw_default_rule :: raw_default_rule where
  "zero_raw_default_rule = \<lparr>
     or_Inbound = [], or_IPVersion = 0, or_Network = [], or_AuthUser = [], or_Protocol = [],
     or_Client = [], or_Domain = [], or_DomainSuffix = [], or_DomainKeyword = [],
     or_DomainRegex = [], or_Geosite = [], or_SourceGeoIP = [], or_GeoIP = [],
     or_SourceIPCIDR = [], or_SourceIPIsPrivate = False, or_IPCIDR = [],
     or_IPIsPrivate = False, or_SourcePort = [], or_SourcePortRange = [], or_Port = [],
     or_PortRange = [], or_ProcessName = [], or_ProcessPath = [], or_ProcessPathRegex = [],
     or_PackageName = [], or_User = [], or_UserID = [], or_ClashMode = '''',
     or_NetworkType = [], or_NetworkIsExpensive = False, or_NetworkIsConstrained = False,
     or_WIFISSID = [], or_WIFIBSSID = [], or_RuleSet = [], or_RuleSetIPCIDRMatchSource = False,
     or_Invert = False, or_Deprecated_RulesetIPCIDRMatchSource = False\<rparr>"

record default_rule_options =
  dro_Raw :: raw_default_rule
  dro_Action :: rule_action_options

datatype rule_options = RuleOptions
  (ruo_Type: string) (ruo_Default: default_rule_options)
  (ruo_Mode: string) (ruo_Rules: "rule_options list") (ruo_Invert: bool)
  (ruo_Action: rule_action_options)

text \<open>\<^verbatim>\<open>DefaultRule.IsValid\<close>: the options differ from the zero value with the same
  inversion.\<close>

definition DefaultRule_IsValid :: "default_rule_options \<Rightarrow> bool" where
  "DefaultRule_IsValid r \<longleftrightarrow>
     r \<noteq> \<lparr>dro_Raw = zero_raw_default_rule\<lparr>or_Invert := or_Invert (dro_Raw r)\<rparr>,
          dro_Action = zero_rule_action_options\<rparr>"

fun RuleOptions_IsValid :: "rule_options \<Rightarrow> bool result" where
  "RuleOptions_IsValid (RuleOptions ty d mode rules iv act) =
     (if ty = RuleTypeDefault then Inr (DefaultRule_IsValid d)
      else if ty = RuleTypeLogical
      then (if length rules > 0 then all_r RuleOptions_IsValid rules else Inr False)
      else Inl (EPanic (''unknown rule type: '' @ ty)))"

definition LogicalRule_IsValid :: "rule_options list \<Rightarrow> bool result" where
  "LogicalRule_IsValid rules =
     (if length rules > 0 then all_r RuleOptions_IsValid rules else Inr False)"

section \<open>Constructors of route rules\<close>

definition ip_version_step :: "int \<Rightarrow> rule_item rule_step" where
  "ip_version_step v r =
     (if v > 0 then
        (if v = 4 \<or> v = 6
         then Inr (append_item r (Items, Leaf (IPVersionItem (NewIPVersionItem (v = 6)))))
         else Inl (ENew (''invalid ip version: '' @ itoa_int v)))
      else Inr r)"

definition NewDefaultRule_steps :: "lib \<Rightarrow> raw_default_rule \<Rightarrow> rule_item rule_step list" where
  "NewDefaultRule_steps L o1 =
    [item_if (length (or_Inbound o1) > 0) Items (Leaf (InboundItem (NewInboundRule (or_Inbound o1)))),
     ip_version_step (or_IPVersion o1),
     item_if (length (or_Network o1) > 0) Items (Leaf (NetworkItem (NewNetworkItem (or_Network o1)))),
     item_if (length (or_AuthUser o1) > 0) Items (Leaf (AuthUserItem (NewAuthUserItem (or_AuthUser o1)))),
     item_if (length (or_Protocol o1) > 0) Items (Leaf (ProtocolItem (NewProtocolItem (or_Protocol o1)))),
     item_if (length (or_Client o1) > 0) Items (Leaf (ClientItem (NewClientItem (or_Client o1)))),
     item_try (length (or_Domain o1) > 0 \<or> length (or_DomainSuffix o1) > 0) DestinationAddress
       (\<lambda>i. Leaf (DomainItem i)) (NewDomainItem L (or_Domain o1) (or_DomainSuffix o1)),
     item_if (length (or_DomainKeyword o1) > 0) DestinationAddress (Leaf (DomainKeywordItem (NewDomainKeywordItem (or_DomainKeyword o1)))),
     item_try (length (or_DomainRegex o1) > 0) DestinationAddress (\<lambda>i. Leaf (DomainRegexItem i))
       (cause ''domain_regex'' (NewDomainRegexItem L (or_DomainRegex o1))),
     fail_if (length (or_Geosite o1) > 0)
       (ENew ''geosite database is deprecated in sing-box 1.8.0 and removed in sing-box 1.12.0''),
     fail_if (length (or_SourceGeoIP o1) > 0)
       (ENew ''geoip database is deprecated in sing-box 1.8.0 and removed in sing-box 1.12.0''),
     fail_if (length (or_GeoIP o1) > 0)
       (ENew ''geoip database is deprecated in sing-box 1.8.0 and removed in sing-box 1.12.0''),
     item_try (length (or_SourceIPCIDR o1) > 0) SourceAddress (\<lambda>i. Leaf (IPCIDRItem i))
       (cause ''source_ip_cidr'' (NewIPCIDRItem L True (or_SourceIPCIDR o1))),
     item_if (or_SourceIPIsPrivate o1) SourceAddress (Leaf (IPIsPrivateItem (NewIPIsPrivateItem True))),
     item_try (length (or_IPCIDR o1) > 0) DestinationIPCIDR (\<lambda>i. Leaf (IPCIDRItem i))
       (cause ''ipcidr'' (NewIPCIDRItem L False (or_IPCIDR o1))),
     item_if (or_IPIsPrivate o1) DestinationIPCIDR (Leaf (IPIsPrivateItem (NewIPIsPrivateItem False))),
     item_if (length (or_SourcePort o1) > 0) SourcePort (Leaf (PortItem (NewPortItem True (or_SourcePort o1)))),
     item_try (length (or_SourcePortRange o1) > 0) SourcePort (\<lambda>i. Leaf (PortRangeItem i))
       (cause ''source_port_range'' (NewPortRangeItem True (or_SourcePortRange o1))),
     item_if (length (or_Port o1) > 0) DestinationPort (Leaf (PortItem (NewPortItem False (or_Port o1)))),
     item_try (length (or_PortRange o1) > 0) DestinationPort (\<lambda>i. Leaf (PortRangeItem i))
       (cause ''port_range'' (NewPortRangeItem False (or_PortRange o1))),
     item_if (length (or_ProcessName o1) > 0) Items (Leaf (ProcessItem (NewProcessItem (or_ProcessName o1)))),
     item_if (length (or_ProcessPath o1) > 0) Items (Leaf (ProcessPathItem (NewProcessPathItem (or_ProcessPath o1)))),
     item_try (length (or_ProcessPathRegex o1) > 0) Items (\<lambda>i. Leaf (ProcessPathRegexItem i))
       (cause ''process_path_regex'' (NewProcessPathRegexItem L (or_ProcessPathRegex o1))),
     item_if (length (or_PackageName o1) > 0) Items (Leaf (PackageNameItem (NewPackageNameItem (or_PackageName o1)))),
     item_if (length (or_User o1) > 0) Items (Leaf (UserItem (NewUserItem (or_User o1)))),
     item_if (length (or_UserID o1) > 0) Items (Leaf (UserIdItem (NewUserIDItem (or_UserID o1)))),
     item_if (or_ClashMode o1 \<noteq> '''') Items (Leaf (ClashModeItem (NewClashModeItem (or_ClashMode o1)))),
     item_if (length (or_NetworkType o1) > 0) Items (Leaf (NetworkTypeItem (NewNetworkTypeItem (or_NetworkType o1)))),
     item_if (or_NetworkIsExpensive o1) Items (Leaf (NetworkIsExpensiveItem)),
     item_if (or_NetworkIsConstrained o1) Items (Leaf (NetworkIsConstrainedItem)),
     item_if (length (or_WIFISSID o1) > 0) Items (Leaf (WIFISSIDItem (NewWIFISSIDItem (or_WIFISSID o1)))),
     item_if (length (or_WIFIBSSID o1) > 0) Items (Leaf (WIFIBSSIDItem (NewWIFIBSSIDItem (or_WIFIBSSID o1)))),
     item_if (length (or_RuleSet o1) > 0) Items (RuleSetItem (NewRuleSetItem (or_RuleSet o1)
       (or_RuleSetIPCIDRMatchSource o1 \<or> or_Deprecated_RulesetIPCIDRMatchSource o1) False))]"

type_synonym rule_act = "rule_action option"

definition NewDefaultRule ::
  "lib \<Rightarrow> text_lib \<Rightarrow> (dialer_options \<Rightarrow> dialer_options result) \<Rightarrow> default_rule_options \<Rightarrow>
   rule_act route_rule result" where
  "NewDefaultRule L T D options =
     bind_r (cause ''action'' (NewRuleAction L T D (dro_Action options))) (\<lambda>action.
     bind_r (run_steps (NewDefaultRule_steps L (dro_Raw options)) (empty_rule (or_Invert (dro_Raw options))))
       (\<lambda>rule. Inr (DefaultRule rule action)))"

definition NewLogicalRule ::
  "lib \<Rightarrow> text_lib \<Rightarrow> (dialer_options \<Rightarrow> dialer_options result) \<Rightarrow> (rule_options \<Rightarrow> rule_act route_rule result) \<Rightarrow>
   string \<Rightarrow> rule_options list \<Rightarrow> bool \<Rightarrow> rule_action_options \<Rightarrow> rule_act route_rule result" where
  "NewLogicalRule L T D new mode rules iv act =
     bind_r (cause ''action'' (NewRuleAction L T D act)) (\<lambda>action.
     bind_r (logical_mode mode) (\<lambda>m.
     bind_r (sub_rules new rules) (\<lambda>rs. Inr (LogicalRule rs m iv action))))"

lemma NewLogicalRule_cong [fundef_cong]:
  "(\<And>x. x \<in> set rs \<Longrightarrow> f x = g x) \<Longrightarrow> rs = rs' \<Longrightarrow> m = m' \<Longrightarrow> v = v' \<Longrightarrow> a = a' \<Longrightarrow>
   NewLogicalRule L T D f m rs v a = NewLogicalRule L T D g m' rs' v' a'"
  by (simp add: NewLogicalRule_def cong: sub_rules_cong)

fun NewRule ::
  "lib \<Rightarrow> text_lib \<Rightarrow> (dialer_options \<Rightarrow> dialer_options result) \<Rightarrow> bool \<Rightarrow> rule_options \<Rightarrow>
   rule_act route_rule result" where
  "NewRule L T D checkOutbound (RuleOptions ty d mode rules iv act) =
     (if ty = '''' \<or> ty = RuleTypeDefault then
        (if \<not> DefaultRule_IsValid d then Inl (ENew ''missing conditions'')
         else if (rac_Action (dro_Action d) = '''' \<or> rac_Action (dro_Action d) = RuleActionTypeRoute) \<and>
                 rao_Outbound (rac_RouteOptions (dro_Action d)) = '''' \<and> checkOutbound
         then Inl (ENew ''missing outbound field'')
         else NewDefaultRule L T D d)
      else if ty = RuleTypeLogical then
        bind_r (LogicalRule_IsValid rules) (\<lambda>valid.
          if \<not> valid then Inl (ENew ''missing conditions'')
          else if (rac_Action act = '''' \<or> rac_Action act = RuleActionTypeRoute) \<and>
                  rao_Outbound (rac_RouteOptions act) = '''' \<and> checkOutbound
          then Inl (ENew ''missing outbound field'')
          else NewLogicalRule L T D (NewRule L T D False) mode rules iv act)
      else Inl (ENew (''unknown rule type: '' @ ty)))"

section \<open>DNS rules\<close>

record raw_default_dns_rule =
  od_Inbound :: "string list"
  od_IPVersion :: int
  od_QueryType :: "u16 list"
  od_Network :: "string list"
  od_AuthUser :: "string list"
  od_Protocol :: "string list"
  od_Domain :: "string list"
  od_DomainSuffix :: "string list"
  od_DomainKeyword :: "string list"
  od_DomainRegex :: "string list"
  od_Geosite :: "string list"
  od_SourceGeoIP :: "string list"
  od_GeoIP :: "string list"
  od_IPCIDR :: "string list"
  od_IPIsPrivate :: bool
  od_IPAcceptAny :: bool
  od_SourceIPCIDR :: "string list"
  od_SourceIPIsPrivate :: bool
  od_SourcePort :: "u16 list"
  od_SourcePortRange :: "string list"
  od_Port :: "u16 list"
  od_PortRange :: "string list"
  od_ProcessName :: "string list"
  od_ProcessPath :: "string list"
  od_ProcessPathRegex :: "string list"
  od_PackageName :: "string list"
  od_User :: "string list"
  od_UserID :: "int list"
  od_Outbound :: "string list"
  od_ClashMode :: string
  od_NetworkType :: "interface_type list"
  od_NetworkIsExpensive :: bool
  od_NetworkIsConstrained :: bool
  od_WIFISSID :: "string list"
  od_WIFIBSSID :: "string list"
  od_RuleSet :: "string list"
  od_RuleSetIPCIDRMatchSource :: bool
  od_RuleSetIPCIDRAcceptEmpty :: bool
  od_Invert :: bool
  od_Deprecated_RulesetIPCIDRMatchSource :: bool

definition zero_raw_default_dns_rule :: raw_default_dns_rule where
  "zero_raw_default_dns_rule = \<lparr>
     od_Inbound = [], od_IPVersion = 0, od_QueryType = [], od_Network = [], od_AuthUser = [],
     od_Protocol = [], od_Domain = [], od_DomainSuffix = [], od_DomainKeyword = [],
     od_DomainRegex = [], od_Geosite = [], od_SourceGeoIP = [], od_GeoIP = [], od_IPCIDR = [],
     od_IPIsPrivate = False, od_IPAcceptAny = False, od_SourceIPCIDR = [],
     od_SourceIPIsPrivate = False, od_SourcePort = [], od_SourcePortRange = [], od_Port = [],
     od_PortRange = [], od_ProcessName = [], od_ProcessPath = [], od_ProcessPathRegex = [],
     od_PackageName = [], od_User = [], od_UserID = [], od_Outbound = [], od_ClashMode = '''',
     od_NetworkType = [], od_NetworkIsExpensive = False, od_NetworkIsConstrained = False,
     od_WIFISSID = [], od_WIFIBSSID = [], od_RuleSet = [], od_RuleSetIPCIDRMatchSource = False,
     od_RuleSetIPCIDRAcceptEmpty = False, od_Invert = False,
     od_Deprecated_RulesetIPCIDRMatchSource = False\<rparr>"

record default_dns_rule_options =
  ddo_Raw :: raw_default_dns_rule
  ddo_Action :: dns_rule_action_options

datatype dns_rule_options = DNSRuleOptions
  (duo_Type: string) (duo_Default: default_dns_rule_options)
  (duo_Mode: string) (duo_Rules: "dns_rule_options list") (duo_Invert: bool)
  (duo_Action: dns_rule_action_options)

definition DefaultDNSRule_IsValid :: "default_dns_rule_options \<Rightarrow> bool" where
  "DefaultDNSRule_IsValid r \<longleftrightarrow>
     r \<noteq> \<lparr>ddo_Raw = zero_raw_default_dns_rule\<lparr>od_Invert := od_Invert (ddo_Raw r)\<rparr>,
          ddo_Action = zero_dns_rule_action_options\<rparr>"

fun DNSRuleOptions_IsValid :: "dns_rule_options \<Rightarrow> bool result" where
  "DNSRuleOptions_IsValid (DNSRuleOptions ty d mode rules iv act) =
     (if ty = RuleTypeDefault then Inr (DefaultDNSRule_IsValid d)
      else if ty = RuleTypeLogical
      then (if length rules > 0 then all_r DNSRuleOptions_IsValid rules else Inr False)
      else Inl (EPanic (''unknown DNS rule type: '' @ ty)))"

definition LogicalDNSRule_IsValid :: "dns_rule_options list \<Rightarrow> bool result" where
  "LogicalDNSRule_IsValid rules =
     (if length rules > 0 then all_r DNSRuleOptions_IsValid rules else Inr False)"

definition NewDefaultDNSRule_steps :: "lib \<Rightarrow> raw_default_dns_rule \<Rightarrow> rule_item rule_step list" where
  "NewDefaultDNSRule_steps L o1 =
    [item_if (length (od_Inbound o1) > 0) Items (Leaf (InboundItem (NewInboundRule (od_Inbound o1)))),
     ip_version_step (od_IPVersion o1),
     item_if (length (od_QueryType o1) > 0) Items (Leaf (QueryTypeItem (NewQueryTypeItem (od_QueryType o1)))),
     item_if (length (od_Network o1) > 0) Items (Leaf (NetworkItem (NewNetworkItem (od_Network o1)))),
     item_if (length (od_AuthUser o1) > 0) Items (Leaf (AuthUserItem (NewAuthUserItem (od_AuthUser o1)))),
     item_if (length (od_Protocol o1) > 0) Items (Leaf (ProtocolItem (NewProtocolItem (od_Protocol o1)))),
     item_try (length (od_Domain o1) > 0 \<or> length (od_DomainSuffix o1) > 0) DestinationAddress
       (\<lambda>i. Leaf (DomainItem i)) (NewDomainItem L (od_Domain o1) (od_DomainSuffix o1)),
     item_if (length (od_DomainKeyword o1) > 0) DestinationAddress (Leaf (DomainKeywordItem (NewDomainKeywordItem (od_DomainKeyword o1)))),
     item_try (length (od_DomainRegex o1) > 0) DestinationAddress (\<lambda>i. Leaf (DomainRegexItem i))
       (cause ''domain_regex'' (NewDomainRegexItem L (od_DomainRegex o1))),
     fail_if (length (od_Geosite o1) > 0)
       (ENew ''geosite database is deprecated in sing-box 1.8.0 and removed in sing-box 1.12.0''),
     fail_if (length (od_SourceGeoIP o1) > 0)
       (ENew ''geoip database is deprecated in sing-box 1.8.0 and removed in sing-box 1.12.0''),
     fail_if (length (od_GeoIP o1) > 0)
       (ENew ''geoip database is deprecated in sing-box 1.8.0 and removed in sing-box 1.12.0''),
     item_try (length (od_SourceIPCIDR o1) > 0) SourceAddress (\<lambda>i. Leaf (IPCIDRItem i))
       (cause ''source_ip_cidr'' (NewIPCIDRItem L True (od_SourceIPCIDR o1))),
     item_try (length (od_IPCIDR o1) > 0) DestinationIPCIDR (\<lambda>i. Leaf (IPCIDRItem i))
       (cause ''ip_cidr'' (NewIPCIDRItem L False (od_IPCIDR o1))),
     item_if (od_SourceIPIsPrivate o1) SourceAddress (Leaf (IPIsPrivateItem (NewIPIsPrivateItem True))),
     item_if (od_IPIsPrivate o1) DestinationIPCIDR (Leaf (IPIsPrivateItem (NewIPIsPrivateItem False))),
     item_if (od_IPAcceptAny o1) DestinationIPCIDR (Leaf (IPAcceptAnyItem)),
     item_if (length (od_SourcePort o1) > 0) SourcePort (Leaf (PortItem (NewPortItem True (od_SourcePort o1)))),
     item_try (length (od_SourcePortRange o1) > 0) SourcePort (\<lambda>i. Leaf (PortRangeItem i))
       (cause ''source_port_range'' (NewPortRangeItem True (od_SourcePortRange o1))),
     item_if (length (od_Port o1) > 0) DestinationPort (Leaf (PortItem (NewPortItem False (od_Port o1)))),
     item_try (length (od_PortRange o1) > 0) DestinationPort (\<lambda>i. Leaf (PortRangeItem i))
       (cause ''port_range'' (NewPortRangeItem False (od_PortRange o1))),
     item_if (length (od_ProcessName o1) > 0) Items (Leaf (ProcessItem (NewProcessItem (od_ProcessName o1)))),
     item_if (length (od_ProcessPath o1) > 0) Items (Leaf (ProcessPathItem (NewProcessPathItem (od_ProcessPath o1)))),
     item_try (length (od_ProcessPathRegex o1) > 0) Items (\<lambda>i. Leaf (ProcessPathRegexItem i))
       (cause ''process_path_regex'' (NewProcessPathRegexItem L (od_ProcessPathRegex o1))),
     item_if (length (od_PackageName o1) > 0) Items (Leaf (PackageNameItem (NewPackageNameItem (od_PackageName o1)))),
     item_if (length (od_User o1) > 0) Items (Leaf (UserItem (NewUserItem (od_User o1)))),
     item_if (length (od_UserID o1) > 0) Items (Leaf (UserIdItem (NewUserIDItem (od_UserID o1)))),
     item_if (length (od_Outbound o1) > 0) Items (Leaf (OutboundItem (NewOutboundRule (od_Outbound o1)))),
     item_if (od_ClashMode o1 \<noteq> '''') Items (Leaf (ClashModeItem (NewClashModeItem (od_ClashMode o1)))),
     item_if (length (od_NetworkType o1) > 0) Items (Leaf (NetworkTypeItem (NewNetworkTypeItem (od_NetworkType o1)))),
     item_if (od_NetworkIsExpensive o1) Items (Leaf (NetworkIsExpensiveItem)),
     item_if (od_NetworkIsConstrained o1) Items (Leaf (NetworkIsConstrainedItem)),
     item_if (length (od_WIFISSID o1) > 0) Items (Leaf (WIFISSIDItem (NewWIFISSIDItem (od_WIFISSID o1)))),
     item_if (length (od_WIFIBSSID o1) > 0) Items (Leaf (WIFIBSSIDItem (NewWIFIBSSIDItem (od_WIFIBSSID o1)))),
     item_if (length (od_RuleSet o1) > 0) Items (RuleSetItem (NewRuleSetItem (od_RuleSet o1)
       (od_RuleSetIPCIDRMatchSource o1 \<or> od_Deprecated_RulesetIPCIDRMatchSource o1) (od_RuleSetIPCIDRAcceptEmpty o1)))]"

definition NewDefaultDNSRule :: "lib \<Rightarrow> default_dns_rule_options \<Rightarrow> rule_act dns_rule result" where
  "NewDefaultDNSRule L options =
     bind_r (NewDNSRuleAction (ddo_Action options)) (\<lambda>action.
     bind_r (run_steps (NewDefaultDNSRule_steps L (ddo_Raw options)) (empty_rule (od_Invert (ddo_Raw options))))
       (\<lambda>rule. Inr (DefaultDNSRule rule action)))"

definition NewLogicalDNSRule ::
  "(dns_rule_options \<Rightarrow> rule_act dns_rule result) \<Rightarrow> string \<Rightarrow> dns_rule_options list \<Rightarrow> bool \<Rightarrow>
   dns_rule_action_options \<Rightarrow> rule_act dns_rule result" where
  "NewLogicalDNSRule new mode rules iv act =
     bind_r (NewDNSRuleAction act) (\<lambda>action.
     bind_r (logical_mode mode) (\<lambda>m.
     bind_r (sub_rules new rules) (\<lambda>rs. Inr (LogicalDNSRule rs m iv action))))"

lemma NewLogicalDNSRule_cong [fundef_cong]:
  "(\<And>x. x \<in> set rs \<Longrightarrow> f x = g x) \<Longrightarrow> rs = rs' \<Longrightarrow> m = m' \<Longrightarrow> v = v' \<Longrightarrow> a = a' \<Longrightarrow>
   NewLogicalDNSRule f m rs v a = NewLogicalDNSRule g m' rs' v' a'"
  by (simp add: NewLogicalDNSRule_def cong: sub_rules_cong)

fun NewDNSRule :: "lib \<Rightarrow> bool \<Rightarrow> dns_rule_options \<Rightarrow> rule_act dns_rule result" where
  "NewDNSRule L checkServer (DNSRuleOptions ty d mode rules iv act) =
     (if ty = '''' \<or> ty = RuleTypeDefault then
        (if \<not> DefaultDNSRule_IsValid d then Inl (ENew ''missing conditions'')
         else if (dac_Action (ddo_Action d) = '''' \<or> dac_Action (ddo_Action d) = RuleActionTypeRoute) \<and>
                 length (dra_Server (dac_RouteOptions (ddo_Action d))) = 0 \<and> checkServer
         then Inl (ENew ''missing server field'')
         else NewDefaultDNSRule L d)
      else if ty = RuleTypeLogical then
        bind_r (LogicalDNSRule_IsValid rules) (\<lambda>valid.
          if \<not> valid then Inl (ENew ''missing conditions'')
          else if (dac_Action act = '''' \<or> dac_Action act = RuleActionTypeRoute) \<and>
                  length (dra_Server (dac_RouteOptions act)) = 0 \<and> checkServer
          then Inl (ENew ''missing server field'')
          else NewLogicalDNSRule (NewDNSRule L False) mode rules iv act)
      else Inl (ENew (''unknown rule type: '' @ ty)))"

section \<open>Headless rules\<close>

record default_headless_rule =
  oh_QueryType :: "u16 list"
  oh_Network :: "string list"
  oh_Domain :: "string list"
  oh_DomainSuffix :: "string list"
  oh_DomainKeyword :: "string list"
  oh_DomainRegex :: "string list"
  oh_SourceIPCIDR :: "string list"
  oh_IPCIDR :: "string list"
  oh_SourcePort :: "u16 list"
  oh_SourcePortRange :: "string list"
  oh_Port :: "u16 list"
  oh_PortRange :: "string list"
  oh_ProcessName :: "string list"
  oh_ProcessPath :: "string list"
  oh_ProcessPathRegex :: "string list"
  oh_PackageName :: "string list"
  oh_NetworkType :: "interface_type list"
  oh_NetworkIsExpensive :: bool
  oh_NetworkIsConstrained :: bool
  oh_WIFISSID :: "string list"
  oh_WIFIBSSID :: "string list"
  oh_Invert :: bool
  oh_DomainMatcher :: "domain_matcher option"
  oh_SourceIPSet :: "ipset option"
  oh_IPSet :: "ipset option"
  oh_AdGuardDomain :: "string list"
  oh_AdGuardDomainMatcher :: "adguard_matcher option"

definition zero_default_headless_rule :: default_headless_rule where
  "zero_default_headless_rule = \<lparr>
     oh_QueryType = [], oh_Network = [], oh_Domain = [], oh_DomainSuffix = [],
     oh_DomainKeyword = [], oh_DomainRegex = [], oh_SourceIPCIDR = [], oh_IPCIDR = [],
     oh_SourcePort = [], oh_SourcePortRange = [], oh_Port = [], oh_PortRange = [],
     oh_ProcessName = [], oh_ProcessPath = [], oh_ProcessPathRegex = [], oh_PackageName = [],
     oh_NetworkType = [], oh_NetworkIsExpensive = False, oh_NetworkIsConstrained = False,
     oh_WIFISSID = [], oh_WIFIBSSID = [], oh_Invert = False, oh_DomainMatcher = None,
     oh_SourceIPSet = None, oh_IPSet = None, oh_AdGuardDomain = [],
     oh_AdGuardDomainMatcher = None\<rparr>"

datatype headless_rule_options = HeadlessRuleOptions
  (huo_Type: string) (huo_Default: default_headless_rule)
  (huo_Mode: string) (huo_Rules: "headless_rule_options list") (huo_Invert: bool)

text \<open>\<^verbatim>\<open>DefaultHeadlessRule.IsValid\<close>: comparison with the zero value, field by field.\<close>

definition DefaultHeadlessRule_IsValid :: "default_headless_rule \<Rightarrow> bool" where
  "DefaultHeadlessRule_IsValid r \<longleftrightarrow>
     oh_QueryType r \<noteq> [] \<or> oh_Network r \<noteq> [] \<or>
     oh_Domain r \<noteq> [] \<or> oh_DomainSuffix r \<noteq> [] \<or>
     oh_DomainKeyword r \<noteq> [] \<or> oh_DomainRegex r \<noteq> [] \<or>
     oh_SourceIPCIDR r \<noteq> [] \<or> oh_IPCIDR r \<noteq> [] \<or>
     oh_SourcePort r \<noteq> [] \<or> oh_SourcePortRange r \<noteq> [] \<or>
     oh_Port r \<noteq> [] \<or> oh_PortRange r \<noteq> [] \<or>
     oh_ProcessName r \<noteq> [] \<or> oh_ProcessPath r \<noteq> [] \<or>
     oh_ProcessPathRegex r \<noteq> [] \<or> oh_PackageName r \<noteq> [] \<or>
     oh_NetworkType r \<noteq> [] \<or> oh_NetworkIsExpensive r \<or>
     oh_NetworkIsConstrained r \<or> oh_WIFISSID r \<noteq> [] \<or>
     oh_WIFIBSSID r \<noteq> [] \<or> \<not> Option.is_none (oh_DomainMatcher r) \<or>
     \<not> Option.is_none (oh_SourceIPSet r) \<or> \<not> Option.is_none (oh_IPSet r) \<or>
     oh_AdGuardDomain r \<noteq> [] \<or> \<not> Option.is_none (oh_AdGuardDomainMatcher r)"

fun HeadlessRuleOptions_IsValid :: "headless_rule_options \<Rightarrow> bool result" where
  "HeadlessRuleOptions_IsValid (HeadlessRuleOptions ty d mode rules iv) =
     (if ty = RuleTypeDefault \<or> ty = '''' then Inr (DefaultHeadlessRule_IsValid d)
      else if ty = RuleTypeLogical
      then (if length rules > 0 then all_r HeadlessRuleOptions_IsValid rules else Inr False)
      else Inl (EPanic (''unknown rule type: '' @ ty)))"

definition LogicalHeadlessRule_IsValid :: "headless_rule_options list \<Rightarrow> bool result" where
  "LogicalHeadlessRule_IsValid rules =
     (if length rules > 0 then all_r HeadlessRuleOptions_IsValid rules else Inr False)"

text \<open>\<^verbatim>\<open>else if options.X != nil { item := NewRaw...(options.X); append }\<close>\<close>

definition item_opt :: "bool \<Rightarrow> item_group \<Rightarrow> ('a \<Rightarrow> 'i) \<Rightarrow> 'a option \<Rightarrow> 'i rule_step" where
  "item_opt otherwise g mk x r =
     (case x of None \<Rightarrow> Inr r | Some a \<Rightarrow> if otherwise then Inr (append_item r (g, mk a)) else Inr r)"

text \<open>\<open>hasNM\<close>: the context holds a network manager.\<close>

definition NewDefaultHeadlessRule_steps ::
  "lib \<Rightarrow> bool \<Rightarrow> default_headless_rule \<Rightarrow> leaf_item rule_step list" where
  "NewDefaultHeadlessRule_steps L hasNM o1 =
    [item_if (length (oh_Network o1) > 0) Items (NetworkItem (NewNetworkItem (oh_Network o1))),
     item_try (length (oh_Domain o1) > 0 \<or> length (oh_DomainSuffix o1) > 0) DestinationAddress
       DomainItem (NewDomainItem L (oh_Domain o1) (oh_DomainSuffix o1)),
     item_opt (\<not> (length (oh_Domain o1) > 0 \<or> length (oh_DomainSuffix o1) > 0)) DestinationAddress
       (\<lambda>m. DomainItem (NewRawDomainItem m)) (oh_DomainMatcher o1),
     item_if (length (oh_DomainKeyword o1) > 0) DestinationAddress (DomainKeywordItem (NewDomainKeywordItem (oh_DomainKeyword o1))),
     item_try (length (oh_DomainRegex o1) > 0) DestinationAddress DomainRegexItem
       (cause ''domain_regex'' (NewDomainRegexItem L (oh_DomainRegex o1))),
     item_try (length (oh_SourceIPCIDR o1) > 0) SourceAddress IPCIDRItem
       (cause ''source_ip_cidr'' (NewIPCIDRItem L True (oh_SourceIPCIDR o1))),
     item_opt (\<not> length (oh_SourceIPCIDR o1) > 0) SourceAddress
       (\<lambda>s. IPCIDRItem (NewRawIPCIDRItem True s)) (oh_SourceIPSet o1),
     item_try (length (oh_IPCIDR o1) > 0) DestinationIPCIDR IPCIDRItem
       (cause ''ipcidr'' (NewIPCIDRItem L False (oh_IPCIDR o1))),
     item_opt (\<not> length (oh_IPCIDR o1) > 0) DestinationIPCIDR
       (\<lambda>s. IPCIDRItem (NewRawIPCIDRItem False s)) (oh_IPSet o1),
     item_if (length (oh_SourcePort o1) > 0) SourcePort (PortItem (NewPortItem True (oh_SourcePort o1))),
     item_try (length (oh_SourcePortRange o1) > 0) SourcePort PortRangeItem
       (cause ''source_port_range'' (NewPortRangeItem True (oh_SourcePortRange o1))),
     item_if (length (oh_Port o1) > 0) DestinationPort (PortItem (NewPortItem False (oh_Port o1))),
     item_try (length (oh_PortRange o1) > 0) DestinationPort PortRangeItem
       (cause ''port_range'' (NewPortRangeItem False (oh_PortRange o1))),
     item_if (length (oh_ProcessName o1) > 0) Items (ProcessItem (NewProcessItem (oh_ProcessName o1))),
     item_if (length (oh_ProcessPath o1) > 0) Items (ProcessPathItem (NewProcessPathItem (oh_ProcessPath o1))),
     item_try (length (oh_ProcessPathRegex o1) > 0) Items ProcessPathRegexItem
       (cause ''process_path_regex'' (NewProcessPathRegexItem L (oh_ProcessPathRegex o1))),
     item_if (length (oh_PackageName o1) > 0) Items (PackageNameItem (NewPackageNameItem (oh_PackageName o1))),
     item_if (hasNM \<and> length (oh_NetworkType o1) > 0) Items (NetworkTypeItem (NewNetworkTypeItem (oh_NetworkType o1))),
     item_if (hasNM \<and> oh_NetworkIsExpensive o1) Items NetworkIsExpensiveItem,
     item_if (hasNM \<and> oh_NetworkIsConstrained o1) Items NetworkIsConstrainedItem,
     item_if (hasNM \<and> length (oh_WIFISSID o1) > 0) Items (WIFISSIDItem (NewWIFISSIDItem (oh_WIFISSID o1))),
     item_if (hasNM \<and> length (oh_WIFIBSSID o1) > 0) Items (WIFIBSSIDItem (NewWIFIBSSIDItem (oh_WIFIBSSID o1))),
     item_if (length (oh_AdGuardDomain o1) > 0) DestinationAddress (AdGuardDomainItem (NewAdGuardDomainItem L (oh_AdGuardDomain o1))),
     item_opt (\<not> length (oh_AdGuardDomain o1) > 0) DestinationAddress
       (\<lambda>m. AdGuardDomainItem (NewRawAdGuardDomainItem m)) (oh_AdGuardDomainMatcher o1)]"

definition NewDefaultHeadlessRule :: "lib \<Rightarrow> bool \<Rightarrow> default_headless_rule \<Rightarrow> headless_rule result" where
  "NewDefaultHeadlessRule L hasNM options =
     bind_r (run_steps (NewDefaultHeadlessRule_steps L hasNM options) (empty_rule (oh_Invert options)))
       (\<lambda>rule. Inr (DefaultHeadlessRule rule))"

definition NewLogicalHeadlessRule ::
  "(headless_rule_options \<Rightarrow> headless_rule result) \<Rightarrow> string \<Rightarrow> headless_rule_options list \<Rightarrow> bool \<Rightarrow>
   headless_rule result" where
  "NewLogicalHeadlessRule new mode rules iv =
     bind_r (logical_mode mode) (\<lambda>m.
     bind_r (sub_rules new rules) (\<lambda>rs. Inr (LogicalHeadlessRule rs m iv)))"

lemma NewLogicalHeadlessRule_cong [fundef_cong]:
  "(\<And>x. x \<in> set rs \<Longrightarrow> f x = g x) \<Longrightarrow> rs = rs' \<Longrightarrow> m = m' \<Longrightarrow> v = v' \<Longrightarrow>
   NewLogicalHeadlessRule f m rs v = NewLogicalHeadlessRule g m' rs' v'"
  by (simp add: NewLogicalHeadlessRule_def cong: sub_rules_cong)

fun NewHeadlessRule :: "lib \<Rightarrow> bool \<Rightarrow> headless_rule_options \<Rightarrow> headless_rule result" where
  "NewHeadlessRule L hasNM (HeadlessRuleOptions ty d mode rules iv) =
     (if ty = '''' \<or> ty = RuleTypeDefault then
        (if \<not> DefaultHeadlessRule_IsValid d then Inl (ENew ''missing conditions'')
         else NewDefaultHeadlessRule L hasNM d)
      else if ty = RuleTypeLogical then
        bind_r (LogicalHeadlessRule_IsValid rules) (\<lambda>valid.
          if \<not> valid then Inl (ENew ''missing conditions'')
          else NewLogicalHeadlessRule (NewHeadlessRule L hasNM) mode rules iv)
      else Inl (ENew (''unknown rule type: '' @ ty)))"

end
