(* ===== verification/Rule_Set.thy ===== *)
theory Rule_Set
  imports Rule_Options
begin

text \<open>
  Rule-sets and the start of rules: the local and the remote rule-set
  (\<^verbatim>\<open>rule_set.go\<close>, \<^verbatim>\<open>rule_set_local.go\<close>, \<^verbatim>\<open>rule_set_remote.go\<close>), their reload, reference
  counts and cache file, and \<^verbatim>\<open>Start\<close> of the rules that use them.

  The decoders of rule-set files, the HTTP client and the cache file are parameters or
  inputs: a fetch takes the response it got, a reload of a file the bytes it read. A lock
  that spans an update makes the update one step.
\<close>

section \<open>What a list of headless rules contains\<close>

fun hasHeadlessRule :: "(default_headless_rule \<Rightarrow> bool) \<Rightarrow> headless_rule_options list \<Rightarrow> bool" where
  "hasHeadlessRule cond [] = False"
| "hasHeadlessRule cond (HeadlessRuleOptions ty d mode rules iv # rest) =
     (if ty = RuleTypeDefault \<and> cond d then True
      else if ty = RuleTypeLogical \<and> hasHeadlessRule cond rules then True
      else hasHeadlessRule cond rest)"

definition isProcessHeadlessRule :: "default_headless_rule \<Rightarrow> bool" where
  "isProcessHeadlessRule r \<longleftrightarrow> length (oh_ProcessName r) > 0 \<or> length (oh_ProcessPath r) > 0 \<or>
     length (oh_ProcessPathRegex r) > 0 \<or> length (oh_PackageName r) > 0"

definition isWIFIHeadlessRule :: "default_headless_rule \<Rightarrow> bool" where
  "isWIFIHeadlessRule r \<longleftrightarrow> length (oh_WIFISSID r) > 0 \<or> length (oh_WIFIBSSID r) > 0"

definition isIPCIDRHeadlessRule :: "default_headless_rule \<Rightarrow> bool" where
  "isIPCIDRHeadlessRule r \<longleftrightarrow> length (oh_IPCIDR r) > 0 \<or> \<not> Option.is_none (oh_IPSet r)"

fun item_ipsets :: "leaf_item \<Rightarrow> ipset list" where
  "item_ipsets (IPCIDRItem i) = [ci_ipSet i]"
| "item_ipsets _ = []"

fun extractIPSetFromRule :: "headless_rule \<Rightarrow> ipset list" where
  "extractIPSetFromRule (DefaultHeadlessRule r) = concat (map item_ipsets (ar_destinationIPCIDRItems r))"
| "extractIPSetFromRule (LogicalHeadlessRule rules mode iv) = concat (map extractIPSetFromRule rules)"

section \<open>State of a rule-set\<close>

record rule_set_metadata =
  rm_ContainsProcessRule :: bool
  rm_ContainsWIFIRule :: bool
  rm_ContainsIPCIDRRule :: bool

text \<open>The fields the two kinds share, and those of each. A callback is the number it was
  registered under.\<close>

record rule_set =
  rst_tag :: string
  rst_rules :: "headless_rule list"
  rst_metadata :: rule_set_metadata
  rst_callbacks :: "nat list"
  rst_refs :: int

record local_rule_set = rule_set +
  lrs_fileFormat :: string

record remote_rule_set = rule_set +
  rrs_Format :: string
  rrs_DownloadDetour :: string
  rrs_updateInterval :: duration
  rrs_lastUpdated :: "int option"
  rrs_lastEtag :: string

record plain_rule_set_compat =
  psc_Version :: u8
  psc_Rules :: "headless_rule_options list"

record rule_set_options =
  rso_Type :: string
  rso_Tag :: string
  rso_Format :: string
  rso_InlineRules :: "headless_rule_options list"
  rso_Path :: string
  rso_URL :: string
  rso_DownloadDetour :: string
  rso_UpdateInterval :: duration

record decoders =
  dec_json :: "bytes \<Rightarrow> plain_rule_set_compat result"
  dec_srs :: "bytes \<Rightarrow> plain_rule_set_compat result"

definition RuleSetTypeInline :: string where "RuleSetTypeInline = ''inline''"
definition RuleSetTypeLocal :: string where "RuleSetTypeLocal = ''local''"
definition RuleSetTypeRemote :: string where "RuleSetTypeRemote = ''remote''"
definition RuleSetFormatSource :: string where "RuleSetFormatSource = ''source''"
definition RuleSetFormatBinary :: string where "RuleSetFormatBinary = ''binary''"

definition PlainRuleSetCompat_Upgrade :: "plain_rule_set_compat \<Rightarrow> headless_rule_options list result" where
  "PlainRuleSetCompat_Upgrade r =
     (if psc_Version r = 1 \<or> psc_Version r = 2 \<or> psc_Version r = 3 then Inr (psc_Rules r)
      else Inl (ENew (''unknown rule-set version: '' @ itoa (unat (psc_Version r)))))"

section \<open>Operations both kinds share\<close>

definition rules_metadata :: "headless_rule_options list \<Rightarrow> rule_set_metadata" where
  "rules_metadata hs =
     \<lparr>rm_ContainsProcessRule = hasHeadlessRule isProcessHeadlessRule hs,
      rm_ContainsWIFIRule = hasHeadlessRule isWIFIHeadlessRule hs,
      rm_ContainsIPCIDRRule = hasHeadlessRule isIPCIDRHeadlessRule hs\<rparr>"

text \<open>
  \<^verbatim>\<open>reloadRules\<close>, and the second half of \<^verbatim>\<open>loadBytes\<close>: all rules are built before any
  field is written. The result carries the callbacks that are called, in order.
\<close>

definition reloadRules ::
  "lib \<Rightarrow> bool \<Rightarrow> headless_rule_options list \<Rightarrow> 'a rule_set_scheme \<Rightarrow>
   (nat list \<times> 'a rule_set_scheme) result" where
  "reloadRules L hasNM headlessRules s =
     bind_r (traverse (\<lambda>i o1. cause (''parse rule_set.rules.['' @ itoa i @ '']'') (NewHeadlessRule L hasNM o1))
               headlessRules)
       (\<lambda>rules. Inr (rst_callbacks s, s\<lparr>rst_rules := rules, rst_metadata := rules_metadata headlessRules\<rparr>))"

definition IncRef :: "'a rule_set_scheme \<Rightarrow> 'a rule_set_scheme" where
  "IncRef s = s\<lparr>rst_refs := rst_refs s + 1\<rparr>"

definition DecRef :: "'a rule_set_scheme \<Rightarrow> unit result \<times> 'a rule_set_scheme" where
  "DecRef s =
     (let s' = s\<lparr>rst_refs := rst_refs s - 1\<rparr> in
      if rst_refs s' < 0 then (Inl (EPanic ''rule-set: negative refs''), s') else (Inr (), s'))"

definition Cleanup :: "'a rule_set_scheme \<Rightarrow> 'a rule_set_scheme" where
  "Cleanup s = (if rst_refs s = 0 then s\<lparr>rst_rules := []\<rparr> else s)"

definition ExtractIPSet :: "'a rule_set_scheme \<Rightarrow> ipset list" where
  "ExtractIPSet s = concat (map extractIPSetFromRule (rst_rules s))"

definition RegisterCallback :: "nat \<Rightarrow> 'a rule_set_scheme \<Rightarrow> 'a rule_set_scheme" where
  "RegisterCallback cb s = s\<lparr>rst_callbacks := rst_callbacks s @ [cb]\<rparr>"

definition UnregisterCallback :: "nat \<Rightarrow> 'a rule_set_scheme \<Rightarrow> 'a rule_set_scheme" where
  "UnregisterCallback cb s = s\<lparr>rst_callbacks := filter (\<lambda>x. x \<noteq> cb) (rst_callbacks s)\<rparr>"

definition RuleSet_Close :: "'a rule_set_scheme \<Rightarrow> 'a rule_set_scheme" where
  "RuleSet_Close s = s\<lparr>rst_rules := []\<rparr>"

definition RuleSet_String :: "lib \<Rightarrow> 'a rule_set_scheme \<Rightarrow> string" where
  "RuleSet_String L s = Join (map (HeadlessRule_String L) (rst_rules s)) '' ''"

section \<open>Local rule-sets\<close>

definition reloadFile ::
  "lib \<Rightarrow> decoders \<Rightarrow> bool \<Rightarrow> bytes result \<Rightarrow> local_rule_set \<Rightarrow> (nat list \<times> local_rule_set) result" where
  "reloadFile L X hasNM file s =
     bind_r
       (if lrs_fileFormat s = RuleSetFormatSource \<or> lrs_fileFormat s = '''' then bind_r file (dec_json X)
        else if lrs_fileFormat s = RuleSetFormatBinary then bind_r file (dec_srs X)
        else Inl (ENew (''unknown rule-set format: '' @ lrs_fileFormat s)))
       (\<lambda>ruleSet. bind_r (PlainRuleSetCompat_Upgrade ruleSet) (\<lambda>rules. reloadRules L hasNM rules s))"

definition NewLocalRuleSet ::
  "lib \<Rightarrow> decoders \<Rightarrow> bool \<Rightarrow> (string \<Rightarrow> bytes result) \<Rightarrow> rule_set_options \<Rightarrow> local_rule_set result" where
  "NewLocalRuleSet L X hasNM readFile options =
     (let s = \<lparr>rst_tag = rso_Tag options, rst_rules = [],
               rst_metadata = \<lparr>rm_ContainsProcessRule = False, rm_ContainsWIFIRule = False,
                               rm_ContainsIPCIDRRule = False\<rparr>,
               rst_callbacks = [], rst_refs = 0, lrs_fileFormat = rso_Format options\<rparr> in
      if rso_Type options = RuleSetTypeInline then
        (if length (rso_InlineRules options) = 0 then Inl (ENew ''empty inline rule-set'')
         else bind_r (reloadRules L hasNM (rso_InlineRules options) s) (\<lambda>(_, s'). Inr s'))
      else bind_r (reloadFile L X hasNM (readFile (rso_Path options)) s) (\<lambda>(_, s'). Inr s'))"

text \<open>The watcher's callback: an error is logged and the old rules stay.\<close>

definition watch_reload ::
  "lib \<Rightarrow> decoders \<Rightarrow> bool \<Rightarrow> bytes result \<Rightarrow> local_rule_set \<Rightarrow> local_rule_set" where
  "watch_reload L X hasNM file s =
     (case reloadFile L X hasNM file s of Inl _ \<Rightarrow> s | Inr (_, s') \<Rightarrow> s')"

section \<open>Remote rule-sets\<close>

definition NewRemoteRuleSet :: "rule_set_options \<Rightarrow> remote_rule_set" where
  "NewRemoteRuleSet options =
     \<lparr>rst_tag = rso_Tag options, rst_rules = [],
      rst_metadata = \<lparr>rm_ContainsProcessRule = False, rm_ContainsWIFIRule = False,
                      rm_ContainsIPCIDRRule = False\<rparr>,
      rst_callbacks = [], rst_refs = 0, rrs_Format = rso_Format options,
      rrs_DownloadDetour = rso_DownloadDetour options,
      rrs_updateInterval = (if rso_UpdateInterval options > 0 then rso_UpdateInterval options
                            else 24 * 3600 * Second),
      rrs_lastUpdated = None, rrs_lastEtag = ''''\<rparr>"

definition loadBytes ::
  "lib \<Rightarrow> decoders \<Rightarrow> bool \<Rightarrow> bytes \<Rightarrow> remote_rule_set \<Rightarrow> (nat list \<times> remote_rule_set) result" where
  "loadBytes L X hasNM content s =
     bind_r
       (if rrs_Format s = RuleSetFormatSource then dec_json X content
        else if rrs_Format s = RuleSetFormatBinary then dec_srs X content
        else Inl (ENew (''unknown rule-set format: '' @ rrs_Format s)))
       (\<lambda>ruleSet. bind_r (PlainRuleSetCompat_Upgrade ruleSet) (\<lambda>rules. reloadRules L hasNM rules s))"

record saved_binary =
  sb_Content :: bytes
  sb_LastUpdated :: "int option"
  sb_LastEtag :: string

text \<open>The cache file: its saved rule-sets, and whether a write to it fails.\<close>

record cache_file =
  cf_RuleSets :: "string \<rightharpoonup> saved_binary"
  cf_writeError :: "error option"

text \<open>A saved time is a number of seconds (\<^verbatim>\<open>MarshalBinary\<close> writes \<^verbatim>\<open>Unix()\<close>); the zero time stays the zero time.\<close>

definition whole_seconds :: "int \<Rightarrow> int" where
  "whole_seconds t = (t div Second) * Second"

definition marshalled :: "saved_binary \<Rightarrow> saved_binary" where
  "marshalled b = b\<lparr>sb_LastUpdated := map_option whole_seconds (sb_LastUpdated b)\<rparr>"

definition SaveRuleSet :: "string \<Rightarrow> saved_binary \<Rightarrow> cache_file \<Rightarrow> unit result \<times> cache_file" where
  "SaveRuleSet tag b cf =
     (case cf_writeError cf of
        Some e \<Rightarrow> (Inl e, cf)
      | None \<Rightarrow> (Inr (), cf\<lparr>cf_RuleSets := (cf_RuleSets cf)(tag \<mapsto> marshalled b)\<rparr>))"

text \<open>What the HTTP client returns: an error, or a status, the entity tag and the body.\<close>

record http_response =
  hr_StatusCode :: nat
  hr_Status :: string
  hr_Etag :: string
  hr_Body :: "bytes result"

definition fetch ::
  "lib \<Rightarrow> decoders \<Rightarrow> bool \<Rightarrow> (string \<Rightarrow> http_response result) \<Rightarrow> int \<Rightarrow> cache_file option \<Rightarrow> remote_rule_set \<Rightarrow>
   unit result \<times> cache_file option \<times> remote_rule_set" where
  "fetch L X hasNM request now cache s =
     (case request (rrs_lastEtag s) of
        Inl e \<Rightarrow> (Inl e, cache, s)
      | Inr response \<Rightarrow>
          if hr_StatusCode response = 304 then
            (let s' = s\<lparr>rrs_lastUpdated := Some now\<rparr> in
             case cache of
               None \<Rightarrow> (Inr (), None, s')
             | Some cf \<Rightarrow>
                 (case cf_RuleSets cf (rst_tag s) of
                    None \<Rightarrow> (Inr (), Some cf, s')
                  | Some saved \<Rightarrow>
                      (Inr (), Some (snd (SaveRuleSet (rst_tag s) (saved\<lparr>sb_LastUpdated := Some now\<rparr>) cf)), s')))
          else if hr_StatusCode response \<noteq> 200
          then (Inl (ENew (''unexpected status: '' @ hr_Status response)), cache, s)
          else
            (case bind_r (hr_Body response) (\<lambda>content.
                    bind_r (loadBytes L X hasNM content s) (\<lambda>(_, s1). Inr (content, s1))) of
               Inl e \<Rightarrow> (Inl e, cache, s)
             | Inr (content, s1) \<Rightarrow>
                 (let s2 = s1\<lparr>rrs_lastEtag := (if hr_Etag response \<noteq> '''' then hr_Etag response
                                                else rrs_lastEtag s1),
                              rrs_lastUpdated := Some now\<rparr> in
                  (Inr (),
                   map_option (\<lambda>cf. snd (SaveRuleSet (rst_tag s)
                     \<lparr>sb_Content = content, sb_LastUpdated = Some now, sb_LastEtag = rrs_lastEtag s2\<rparr> cf)) cache,
                   s2))))"

text \<open>The first half of \<^verbatim>\<open>StartContext\<close>: the cached rule-set, when there is one.\<close>

definition restore_cached ::
  "lib \<Rightarrow> decoders \<Rightarrow> bool \<Rightarrow> cache_file option \<Rightarrow> remote_rule_set \<Rightarrow> remote_rule_set result" where
  "restore_cached L X hasNM cache s =
     (case (case cache of None \<Rightarrow> None | Some cf \<Rightarrow> cf_RuleSets cf (rst_tag s)) of
        None \<Rightarrow> Inr s
      | Some saved \<Rightarrow>
          bind_r (cause ''restore cached rule-set'' (loadBytes L X hasNM (sb_Content saved) s)) (\<lambda>(_, s1).
            Inr (s1\<lparr>rrs_lastUpdated := sb_LastUpdated saved, rrs_lastEtag := sb_LastEtag saved\<rparr>)))"

definition StartContext ::
  "lib \<Rightarrow> decoders \<Rightarrow> bool \<Rightarrow> (string \<Rightarrow> bool) \<Rightarrow> (string \<Rightarrow> http_response result) \<Rightarrow> int \<Rightarrow> cache_file option \<Rightarrow>
   remote_rule_set \<Rightarrow> unit result \<times> cache_file option \<times> remote_rule_set" where
  "StartContext L X hasNM hasOutbound request now cache s =
     (if rrs_DownloadDetour s \<noteq> [] \<and> \<not> hasOutbound (rrs_DownloadDetour s)
      then (Inl (ENew (''download detour not found: '' @ rrs_DownloadDetour s)), cache, s)
      else
        (case restore_cached L X hasNM cache s of
           Inl e \<Rightarrow> (Inl e, cache, s)
         | Inr s1 \<Rightarrow>
             if rrs_lastUpdated s1 = None then
               (case fetch L X hasNM request now cache s1 of
                  (r, cache', s2) \<Rightarrow> (cause (''initial rule-set: '' @ rst_tag s) r, cache', s2))
             else (Inr (), cache, s1)))"

definition updateOnce ::
  "lib \<Rightarrow> decoders \<Rightarrow> bool \<Rightarrow> (string \<Rightarrow> http_response result) \<Rightarrow> int \<Rightarrow> cache_file option \<Rightarrow> remote_rule_set \<Rightarrow>
   cache_file option \<times> remote_rule_set" where
  "updateOnce L X hasNM request now cache s =
     (case fetch L X hasNM request now cache s of
        (Inl _, cache', s') \<Rightarrow> (cache', s')
      | (Inr _, cache', s') \<Rightarrow> (cache', if rst_refs s' = 0 then s'\<lparr>rst_rules := []\<rparr> else s'))"


text \<open>The check before the loop of \<^verbatim>\<open>loopUpdate\<close>; each tick of the loop is an \<^const>\<open>updateOnce\<close>.\<close>

definition loopUpdate_first ::
  "lib \<Rightarrow> decoders \<Rightarrow> bool \<Rightarrow> (string \<Rightarrow> http_response result) \<Rightarrow> int \<Rightarrow> cache_file option \<Rightarrow> remote_rule_set \<Rightarrow>
   cache_file option \<times> remote_rule_set" where
  "loopUpdate_first L X hasNM request now cache s =
     (if (case rrs_lastUpdated s of None \<Rightarrow> True | Some t \<Rightarrow> now - t > rrs_updateInterval s)
      then updateOnce L X hasNM request now cache s else (cache, s))"

section \<open>Starting rules\<close>

text \<open>
  The router's rule-sets: the tags and the reference counts. A rule-set item resolves its
  tags, counts a reference to each and keeps the pointers; a Clash mode item binds to the
  server. The groups of a rule hold the same pointers as its list of all items, so a
  started rule has every copy of an item started.
\<close>

type_synonym tag_map = "string \<rightharpoonup> rule_set_ref"
type_synonym ref_counts = "rule_set_ref \<Rightarrow> int"

fun RuleSetItem_Start :: "tag_map \<Rightarrow> string list \<Rightarrow> rule_set_ref list \<Rightarrow> ref_counts \<Rightarrow>
   rule_set_ref list result \<times> ref_counts" where
  "RuleSetItem_Start tm [] setList refs = (Inr setList, refs)"
| "RuleSetItem_Start tm (tag # tags) setList refs =
     (case tm tag of
        None \<Rightarrow> (Inl (ENew (''rule-set not found: '' @ tag)), refs)
      | Some s \<Rightarrow> RuleSetItem_Start tm tags (setList @ [s]) (refs(s := refs s + 1)))"

fun item_Start :: "tag_map \<Rightarrow> runtime \<Rightarrow> rule_item \<Rightarrow> ref_counts \<Rightarrow> rule_item result \<times> ref_counts" where
  "item_Start tm R (RuleSetItem r) refs =
     (case RuleSetItem_Start tm (rsi_tagList r) (rsi_setList r) refs of
        (Inl e, refs') \<Rightarrow> (Inl e, refs')
      | (Inr l, refs') \<Rightarrow> (Inr (RuleSetItem (r\<lparr>rsi_setList := l\<rparr>)), refs'))"
| "item_Start tm R (Leaf (ClashModeItem m)) refs = (Inr (Leaf (ClashModeItem (ClashModeItem_Start R m))), refs)"
| "item_Start tm R (Leaf i) refs = (Inr (Leaf i), refs)"

fun items_Start :: "tag_map \<Rightarrow> runtime \<Rightarrow> rule_item list \<Rightarrow> ref_counts \<Rightarrow> unit result \<times> ref_counts" where
  "items_Start tm R [] refs = (Inr (), refs)"
| "items_Start tm R (i # is) refs =
     (case item_Start tm R i refs of
        (Inl e, refs') \<Rightarrow> (Inl e, refs') | (Inr _, refs') \<Rightarrow> items_Start tm R is refs')"

definition map_items :: "('i \<Rightarrow> 'i) \<Rightarrow> 'i abstract_rule \<Rightarrow> 'i abstract_rule" where
  "map_items f r = \<lparr>ar_items = map f (ar_items r),
     ar_sourceAddressItems = map f (ar_sourceAddressItems r),
     ar_sourcePortItems = map f (ar_sourcePortItems r),
     ar_destinationAddressItems = map f (ar_destinationAddressItems r),
     ar_destinationIPCIDRItems = map f (ar_destinationIPCIDRItems r),
     ar_destinationPortItems = map f (ar_destinationPortItems r),
     ar_allItems = map f (ar_allItems r), ar_invert = ar_invert r\<rparr>"

definition started_item :: "tag_map \<Rightarrow> runtime \<Rightarrow> rule_item \<Rightarrow> rule_item" where
  "started_item tm R i = (case fst (item_Start tm R i (\<lambda>_. 0)) of Inl _ \<Rightarrow> i | Inr j \<Rightarrow> j)"

definition abstractDefaultRule_Start ::
  "tag_map \<Rightarrow> runtime \<Rightarrow> rule_item abstract_rule \<Rightarrow> ref_counts \<Rightarrow> rule_item abstract_rule result \<times> ref_counts" where
  "abstractDefaultRule_Start tm R r refs =
     (case items_Start tm R (ar_allItems r) refs of
        (Inl e, refs') \<Rightarrow> (Inl e, refs')
      | (Inr _, refs') \<Rightarrow> (Inr (map_items (started_item tm R) r), refs'))"

fun rules_Start :: "('r \<Rightarrow> ref_counts \<Rightarrow> 'r result \<times> ref_counts) \<Rightarrow> 'r list \<Rightarrow> ref_counts \<Rightarrow> 'r list result \<times> ref_counts" where
  "rules_Start st [] refs = (Inr [], refs)"
| "rules_Start st (r # rs) refs =
     (case st r refs of
        (Inl e, refs') \<Rightarrow> (Inl e, refs')
      | (Inr r', refs') \<Rightarrow>
          (case rules_Start st rs refs' of (rs', refs'') \<Rightarrow> (bind_r rs' (\<lambda>l. Inr (r' # l)), refs'')))"

lemma rules_Start_cong [fundef_cong]:
  "(\<And>r c. r \<in> set rs \<Longrightarrow> f r c = g r c) \<Longrightarrow> rs = rs' \<Longrightarrow> c = c' \<Longrightarrow>
   rules_Start f rs c = rules_Start g rs' c'"
  by (induction rs arbitrary: c c' rs') (auto split: prod.splits sum.splits)

fun Rule_Start :: "tag_map \<Rightarrow> runtime \<Rightarrow> 'a route_rule \<Rightarrow> ref_counts \<Rightarrow> 'a route_rule result \<times> ref_counts" where
  "Rule_Start tm R (DefaultRule r a) refs =
     (case abstractDefaultRule_Start tm R r refs of (x, refs') \<Rightarrow> (bind_r x (\<lambda>r'. Inr (DefaultRule r' a)), refs'))"
| "Rule_Start tm R (LogicalRule rules mode iv a) refs =
     (case rules_Start (Rule_Start tm R) rules refs of
        (x, refs') \<Rightarrow> (bind_r x (\<lambda>rs. Inr (LogicalRule rs mode iv a)), refs'))"

end
