(* ===== verification/Rule_Build.thy ===== *)
theory Rule_Build
  imports Rule_Set
begin

text \<open>
  What the rule constructors build: the items of every group in closed form, the
  well-formedness the matching theorems need, and the documented meaning of a configured
  rule, from its options to its verdict.
\<close>

section \<open>What a step adds\<close>

text \<open>
  When a step succeeds it has added the given entries, and the given condition holds.
\<close>

definition adds :: "'i rule_step \<Rightarrow> (item_group \<times> 'i) list \<times> bool \<Rightarrow> bool" where
  "adds f ep \<longleftrightarrow> (\<forall>r r'. f r = Inr r' \<longrightarrow> r' = foldl append_item r (fst ep) \<and> snd ep)"

definition if_entry :: "bool \<Rightarrow> item_group \<Rightarrow> 'i \<Rightarrow> (item_group \<times> 'i) list" where
  "if_entry b g i = (if b then [(g, i)] else [])"

definition try_entry :: "bool \<Rightarrow> item_group \<Rightarrow> ('a \<Rightarrow> 'i) \<Rightarrow> 'a result \<Rightarrow> (item_group \<times> 'i) list" where
  "try_entry b g mk res = (case res of Inl _ \<Rightarrow> [] | Inr a \<Rightarrow> if_entry b g (mk a))"

definition opt_entry :: "bool \<Rightarrow> item_group \<Rightarrow> ('a \<Rightarrow> 'i) \<Rightarrow> 'a option \<Rightarrow> (item_group \<times> 'i) list" where
  "opt_entry b g mk x = (case x of None \<Rightarrow> [] | Some a \<Rightarrow> if_entry b g (mk a))"

lemma adds_steps [simp, intro]:
  "adds (item_if b g i) (if_entry b g i, True)"
  "adds (item_try b g mk res) (try_entry b g mk res, b \<longrightarrow> \<not> isl res)"
  "adds (fail_if b e) ([], \<not> b)"
  "adds (ip_version_step v)
     (if_entry (v = 4 \<or> v = 6) Items (Leaf (IPVersionItem (v = 6))), v \<le> 0 \<or> v = 4 \<or> v = 6)"
  "adds (item_opt b g mk x) (opt_entry b g mk x, True)"
  by (auto simp: adds_def item_if_def item_try_def fail_if_def ip_version_step_def item_opt_def
      if_entry_def try_entry_def opt_entry_def NewIPVersionItem_def
      split: if_splits sum.splits option.splits)

lemma run_steps_adds:
  assumes "list_all2 adds fs eps" and "run_steps fs r = Inr r'"
  shows "r' = foldl append_item r (concat (map fst eps)) \<and> list_all snd eps"
  using assms by (induction arbitrary: r rule: list_all2_induct) (auto simp: adds_def)

definition in_group :: "item_group \<Rightarrow> (item_group \<times> 'i) list \<Rightarrow> 'i list" where
  "in_group g es = map snd (filter (\<lambda>e. fst e = g) es)"

lemma in_group_simps [simp]:
  "in_group g [] = []"
  "in_group g (e # es) = (if fst e = g then snd e # in_group g es else in_group g es)"
  "in_group g (es @ fs) = in_group g es @ in_group g fs"
  by (simp_all add: in_group_def)

lemma foldl_append_item:
  "ar_items (foldl append_item r es) = ar_items r @ in_group Items es"
  "ar_sourceAddressItems (foldl append_item r es) = ar_sourceAddressItems r @ in_group SourceAddress es"
  "ar_sourcePortItems (foldl append_item r es) = ar_sourcePortItems r @ in_group SourcePort es"
  "ar_destinationAddressItems (foldl append_item r es) =
     ar_destinationAddressItems r @ in_group DestinationAddress es"
  "ar_destinationIPCIDRItems (foldl append_item r es) =
     ar_destinationIPCIDRItems r @ in_group DestinationIPCIDR es"
  "ar_destinationPortItems (foldl append_item r es) =
     ar_destinationPortItems r @ in_group DestinationPort es"
  "ar_allItems (foldl append_item r es) = ar_allItems r @ map snd es"
  "ar_invert (foldl append_item r es) = ar_invert r"
proof -
  have step: "ar_items (append_item r e) = ar_items r @ in_group Items [e]"
    "ar_sourceAddressItems (append_item r e) = ar_sourceAddressItems r @ in_group SourceAddress [e]"
    "ar_sourcePortItems (append_item r e) = ar_sourcePortItems r @ in_group SourcePort [e]"
    "ar_destinationAddressItems (append_item r e) =
       ar_destinationAddressItems r @ in_group DestinationAddress [e]"
    "ar_destinationIPCIDRItems (append_item r e) =
       ar_destinationIPCIDRItems r @ in_group DestinationIPCIDR [e]"
    "ar_destinationPortItems (append_item r e) = ar_destinationPortItems r @ in_group DestinationPort [e]"
    "ar_allItems (append_item r e) = ar_allItems r @ [snd e]"
    "ar_invert (append_item r e) = ar_invert r" for r and e :: "item_group \<times> 'a"
    by (cases "(r, e)" rule: append_item.cases; simp)+
  show "ar_items (foldl append_item r es) = ar_items r @ in_group Items es"
    "ar_sourceAddressItems (foldl append_item r es) = ar_sourceAddressItems r @ in_group SourceAddress es"
    "ar_sourcePortItems (foldl append_item r es) = ar_sourcePortItems r @ in_group SourcePort es"
    "ar_destinationAddressItems (foldl append_item r es) =
       ar_destinationAddressItems r @ in_group DestinationAddress es"
    "ar_destinationIPCIDRItems (foldl append_item r es) =
       ar_destinationIPCIDRItems r @ in_group DestinationIPCIDR es"
    "ar_destinationPortItems (foldl append_item r es) =
       ar_destinationPortItems r @ in_group DestinationPort es"
    "ar_allItems (foldl append_item r es) = ar_allItems r @ map snd es"
    "ar_invert (foldl append_item r es) = ar_invert r"
    by (induction es arbitrary: r) (simp_all add: step)
qed

text \<open>The rule built from entries, its groups and its well-formedness.\<close>

definition built :: "bool \<Rightarrow> (item_group \<times> 'i) list \<Rightarrow> 'i abstract_rule" where
  "built iv es = foldl append_item (empty_rule iv) es"

lemma built_fields [simp]:
  "ar_items (built iv es) = in_group Items es"
  "ar_sourceAddressItems (built iv es) = in_group SourceAddress es"
  "ar_sourcePortItems (built iv es) = in_group SourcePort es"
  "ar_destinationAddressItems (built iv es) = in_group DestinationAddress es"
  "ar_destinationIPCIDRItems (built iv es) = in_group DestinationIPCIDR es"
  "ar_destinationPortItems (built iv es) = in_group DestinationPort es"
  "ar_allItems (built iv es) = map snd es"
  "ar_invert (built iv es) = iv"
  by (simp_all add: built_def foldl_append_item empty_rule_def)

lemma in_group_empty: "in_group g es = [] \<longleftrightarrow> g \<notin> fst ` set es"
  by (force simp: in_group_def filter_empty_conv)

lemma set_in_group: "set (in_group g es) \<subseteq> snd ` set es"
  by (auto simp: in_group_def)

lemma built_wf: "rule_wf (built iv es)"
proof (cases es)
  case (Cons e es')
  have "in_group (fst e) es \<noteq> []" using Cons by simp
  then have "rule_groups (built iv es) \<noteq> []"
    unfolding rule_groups_def built_fields by (cases "fst e") auto
  with Cons show ?thesis by (simp add: rule_wf_def)
qed (simp add: rule_wf_def rule_groups_def)

lemma built_groups: "set (rule_groups (built iv es)) \<subseteq> snd ` set es"
  unfolding rule_groups_def built_fields using set_in_group [of _ es] by auto

lemma steps_built:
  assumes "list_all2 adds fs eps" and "run_steps fs (empty_rule iv) = Inr r"
  shows "r = built iv (concat (map fst eps))" and "list_all snd eps"
  using run_steps_adds [OF assms] by (simp_all add: built_def)

section \<open>Reading entries\<close>

lemma if_entry_read [simp]:
  "list_all p (in_group g (if_entry b h i)) \<longleftrightarrow> (b \<and> h = g \<longrightarrow> p i)"
  "list_ex p (in_group g (if_entry b h i)) \<longleftrightarrow> b \<and> h = g \<and> p i"
  "in_group g (if_entry b h i) = [] \<longleftrightarrow> \<not> (b \<and> h = g)"
  by (simp_all add: if_entry_def)

definition ok :: "'a result \<Rightarrow> ('a \<Rightarrow> bool) \<Rightarrow> bool" where
  "ok res p = (case res of Inl _ \<Rightarrow> False | Inr a \<Rightarrow> p a)"

lemma try_entry_read [simp]:
  "list_ex p (in_group g (try_entry b h mk res)) \<longleftrightarrow> b \<and> h = g \<and> ok res (\<lambda>a. p (mk a))"
  "list_all p (in_group g (try_entry b h mk res)) \<longleftrightarrow> (b \<and> h = g \<and> \<not> isl res \<longrightarrow> ok res (\<lambda>a. p (mk a)))"
  "in_group g (try_entry b h mk res) = [] \<longleftrightarrow> \<not> (b \<and> h = g \<and> \<not> isl res)"
  by (auto simp: try_entry_def ok_def split: sum.split)

lemma if_entry_set [simp]: "e \<in> set (if_entry b g i) \<longleftrightarrow> b \<and> e = (g, i)"
  by (auto simp: if_entry_def)

lemma try_entry_set [simp]: "e \<in> set (try_entry b g mk res) \<longleftrightarrow> b \<and> (\<exists>a. res = Inr a \<and> e = (g, mk a))"
  by (auto simp: try_entry_def split: sum.split)

lemma opt_entry_read [simp]:
  "list_ex p (in_group g (opt_entry b h mk x)) \<longleftrightarrow> b \<and> h = g \<and> (\<exists>a. x = Some a \<and> p (mk a))"
  "list_all p (in_group g (opt_entry b h mk x)) \<longleftrightarrow> (b \<and> h = g \<longrightarrow> (\<forall>a. x = Some a \<longrightarrow> p (mk a)))"
  "in_group g (opt_entry b h mk x) = [] \<longleftrightarrow> \<not> (b \<and> h = g \<and> x \<noteq> None)"
  by (auto simp: opt_entry_def split: option.split)

section \<open>Route rules\<close>

text \<open>The entries of a route rule without rule-sets, by group.\<close>

definition route_entries :: "lib \<Rightarrow> raw_default_rule \<Rightarrow> ((item_group \<times> rule_item) list \<times> bool) list" where
  "route_entries L o1 =
    [(if_entry (length (or_Inbound o1) > 0) Items (Leaf (InboundItem (NewInboundRule (or_Inbound o1)))), True),
     (if_entry (or_IPVersion o1 = 4 \<or> or_IPVersion o1 = 6) Items (Leaf (IPVersionItem (or_IPVersion o1 = 6))),
      or_IPVersion o1 \<le> 0 \<or> or_IPVersion o1 = 4 \<or> or_IPVersion o1 = 6),
     (if_entry (length (or_Network o1) > 0) Items (Leaf (NetworkItem (NewNetworkItem (or_Network o1)))), True),
     (if_entry (length (or_AuthUser o1) > 0) Items (Leaf (AuthUserItem (NewAuthUserItem (or_AuthUser o1)))), True),
     (if_entry (length (or_Protocol o1) > 0) Items (Leaf (ProtocolItem (NewProtocolItem (or_Protocol o1)))), True),
     (if_entry (length (or_Client o1) > 0) Items (Leaf (ClientItem (NewClientItem (or_Client o1)))), True),
     (try_entry (length (or_Domain o1) > 0 \<or> length (or_DomainSuffix o1) > 0) DestinationAddress
        (\<lambda>i. Leaf (DomainItem i)) (NewDomainItem L (or_Domain o1) (or_DomainSuffix o1)),
      length (or_Domain o1) > 0 \<or> length (or_DomainSuffix o1) > 0 \<longrightarrow>
        \<not> isl (NewDomainItem L (or_Domain o1) (or_DomainSuffix o1))),
     (if_entry (length (or_DomainKeyword o1) > 0) DestinationAddress
        (Leaf (DomainKeywordItem (NewDomainKeywordItem (or_DomainKeyword o1)))), True),
     (try_entry (length (or_DomainRegex o1) > 0) DestinationAddress (\<lambda>i. Leaf (DomainRegexItem i))
        (cause ''domain_regex'' (NewDomainRegexItem L (or_DomainRegex o1))),
      length (or_DomainRegex o1) > 0 \<longrightarrow> \<not> isl (cause ''domain_regex'' (NewDomainRegexItem L (or_DomainRegex o1)))),
     ([], \<not> length (or_Geosite o1) > 0), ([], \<not> length (or_SourceGeoIP o1) > 0),
     ([], \<not> length (or_GeoIP o1) > 0),
     (try_entry (length (or_SourceIPCIDR o1) > 0) SourceAddress (\<lambda>i. Leaf (IPCIDRItem i))
        (cause ''source_ip_cidr'' (NewIPCIDRItem L True (or_SourceIPCIDR o1))),
      length (or_SourceIPCIDR o1) > 0 \<longrightarrow> \<not> isl (cause ''source_ip_cidr'' (NewIPCIDRItem L True (or_SourceIPCIDR o1)))),
     (if_entry (or_SourceIPIsPrivate o1) SourceAddress (Leaf (IPIsPrivateItem (NewIPIsPrivateItem True))), True),
     (try_entry (length (or_IPCIDR o1) > 0) DestinationIPCIDR (\<lambda>i. Leaf (IPCIDRItem i))
        (cause ''ipcidr'' (NewIPCIDRItem L False (or_IPCIDR o1))),
      length (or_IPCIDR o1) > 0 \<longrightarrow> \<not> isl (cause ''ipcidr'' (NewIPCIDRItem L False (or_IPCIDR o1)))),
     (if_entry (or_IPIsPrivate o1) DestinationIPCIDR (Leaf (IPIsPrivateItem (NewIPIsPrivateItem False))), True),
     (if_entry (length (or_SourcePort o1) > 0) SourcePort (Leaf (PortItem (NewPortItem True (or_SourcePort o1)))), True),
     (try_entry (length (or_SourcePortRange o1) > 0) SourcePort (\<lambda>i. Leaf (PortRangeItem i))
        (cause ''source_port_range'' (NewPortRangeItem True (or_SourcePortRange o1))),
      length (or_SourcePortRange o1) > 0 \<longrightarrow>
        \<not> isl (cause ''source_port_range'' (NewPortRangeItem True (or_SourcePortRange o1)))),
     (if_entry (length (or_Port o1) > 0) DestinationPort (Leaf (PortItem (NewPortItem False (or_Port o1)))), True),
     (try_entry (length (or_PortRange o1) > 0) DestinationPort (\<lambda>i. Leaf (PortRangeItem i))
        (cause ''port_range'' (NewPortRangeItem False (or_PortRange o1))),
      length (or_PortRange o1) > 0 \<longrightarrow> \<not> isl (cause ''port_range'' (NewPortRangeItem False (or_PortRange o1)))),
     (if_entry (length (or_ProcessName o1) > 0) Items (Leaf (ProcessItem (NewProcessItem (or_ProcessName o1)))), True),
     (if_entry (length (or_ProcessPath o1) > 0) Items (Leaf (ProcessPathItem (NewProcessPathItem (or_ProcessPath o1)))), True),
     (try_entry (length (or_ProcessPathRegex o1) > 0) Items (\<lambda>i. Leaf (ProcessPathRegexItem i))
        (cause ''process_path_regex'' (NewProcessPathRegexItem L (or_ProcessPathRegex o1))),
      length (or_ProcessPathRegex o1) > 0 \<longrightarrow>
        \<not> isl (cause ''process_path_regex'' (NewProcessPathRegexItem L (or_ProcessPathRegex o1)))),
     (if_entry (length (or_PackageName o1) > 0) Items (Leaf (PackageNameItem (NewPackageNameItem (or_PackageName o1)))), True),
     (if_entry (length (or_User o1) > 0) Items (Leaf (UserItem (NewUserItem (or_User o1)))), True),
     (if_entry (length (or_UserID o1) > 0) Items (Leaf (UserIdItem (NewUserIDItem (or_UserID o1)))), True),
     (if_entry (or_ClashMode o1 \<noteq> '''') Items (Leaf (ClashModeItem (NewClashModeItem (or_ClashMode o1)))), True),
     (if_entry (length (or_NetworkType o1) > 0) Items (Leaf (NetworkTypeItem (NewNetworkTypeItem (or_NetworkType o1)))), True),
     (if_entry (or_NetworkIsExpensive o1) Items (Leaf NetworkIsExpensiveItem), True),
     (if_entry (or_NetworkIsConstrained o1) Items (Leaf NetworkIsConstrainedItem), True),
     (if_entry (length (or_WIFISSID o1) > 0) Items (Leaf (WIFISSIDItem (NewWIFISSIDItem (or_WIFISSID o1)))), True),
     (if_entry (length (or_WIFIBSSID o1) > 0) Items (Leaf (WIFIBSSIDItem (NewWIFIBSSIDItem (or_WIFIBSSID o1)))), True),
     (if_entry (length (or_RuleSet o1) > 0) Items (RuleSetItem (NewRuleSetItem (or_RuleSet o1)
        (or_RuleSetIPCIDRMatchSource o1 \<or> or_Deprecated_RulesetIPCIDRMatchSource o1) False)), True)]"

lemma route_steps_add: "list_all2 adds (NewDefaultRule_steps L o1) (route_entries L o1)"
  unfolding NewDefaultRule_steps_def route_entries_def by (intro list.rel_intros adds_steps)

lemma route_rule_built:
  assumes "run_steps (NewDefaultRule_steps L o1) (empty_rule iv) = Inr r"
  shows "r = built iv (concat (map fst (route_entries L o1)))" and "list_all snd (route_entries L o1)"
  by (rule steps_built [OF route_steps_add assms])+

subsection \<open>The documented meaning of the options\<close>

text \<open>
  Groups of alternatives (source address, source port, destination, destination port), and
  conjunctions of everything else; a field that is not given does not restrict.
\<close>

definition source_conditions :: "lib \<Rightarrow> raw_default_rule \<Rightarrow> inbound_context \<Rightarrow> bool" where
  "source_conditions L o1 c \<longleftrightarrow>
     (or_SourceIPCIDR o1 \<noteq> [] \<or> or_SourceIPIsPrivate o1 \<longrightarrow>
        (or_SourceIPCIDR o1 \<noteq> [] \<and> ok (NewIPCIDRItem L True (or_SourceIPCIDR o1)) (\<lambda>i. IPCIDRItem_Match L i c)) \<or>
        (or_SourceIPIsPrivate o1 \<and> IPIsPrivateItem_Match L True c)) \<and>
     (or_SourcePort o1 \<noteq> [] \<or> or_SourcePortRange o1 \<noteq> [] \<longrightarrow>
        sa_Port (mc_Source c) \<in> set (or_SourcePort o1) \<or>
        (or_SourcePortRange o1 \<noteq> [] \<and> ok (NewPortRangeItem True (or_SourcePortRange o1)) (\<lambda>i. PortRangeItem_Match i c)))"

definition destination_conditions :: "lib \<Rightarrow> raw_default_rule \<Rightarrow> inbound_context \<Rightarrow> bool" where
  "destination_conditions L o1 c \<longleftrightarrow>
     (or_Domain o1 \<noteq> [] \<or> or_DomainSuffix o1 \<noteq> [] \<or> or_DomainKeyword o1 \<noteq> [] \<or> or_DomainRegex o1 \<noteq> [] \<or>
      or_IPCIDR o1 \<noteq> [] \<or> or_IPIsPrivate o1 \<longrightarrow>
        ((or_Domain o1 \<noteq> [] \<or> or_DomainSuffix o1 \<noteq> []) \<and>
         ok (NewDomainItem L (or_Domain o1) (or_DomainSuffix o1)) (\<lambda>i. DomainItem_Match i c)) \<or>
        (or_DomainKeyword o1 \<noteq> [] \<and> DomainKeywordItem_Match (or_DomainKeyword o1) c) \<or>
        (or_DomainRegex o1 \<noteq> [] \<and> ok (NewDomainRegexItem L (or_DomainRegex o1)) (\<lambda>i. DomainRegexItem_Match i c)) \<or>
        (or_IPCIDR o1 \<noteq> [] \<and> ok (NewIPCIDRItem L False (or_IPCIDR o1)) (\<lambda>i. IPCIDRItem_Match L i c)) \<or>
        (or_IPIsPrivate o1 \<and> IPIsPrivateItem_Match L False c)) \<and>
     (or_Port o1 \<noteq> [] \<or> or_PortRange o1 \<noteq> [] \<longrightarrow>
        sa_Port (mc_Destination c) \<in> set (or_Port o1) \<or>
        (or_PortRange o1 \<noteq> [] \<and> ok (NewPortRangeItem False (or_PortRange o1)) (\<lambda>i. PortRangeItem_Match i c)))"

definition other_conditions :: "lib \<Rightarrow> runtime \<Rightarrow> raw_default_rule \<Rightarrow> inbound_context \<Rightarrow> bool" where
  "other_conditions L R o1 c \<longleftrightarrow>
     (or_Inbound o1 \<noteq> [] \<longrightarrow> mc_Inbound c \<in> set (or_Inbound o1)) \<and>
     (or_IPVersion o1 = 4 \<or> or_IPVersion o1 = 6 \<longrightarrow> IPVersionItem_Match L (or_IPVersion o1 = 6) c) \<and>
     (or_Network o1 \<noteq> [] \<longrightarrow> mc_Network c \<in> set (or_Network o1)) \<and>
     (or_AuthUser o1 \<noteq> [] \<longrightarrow> mc_User c \<in> set (or_AuthUser o1)) \<and>
     (or_Protocol o1 \<noteq> [] \<longrightarrow> mc_Protocol c \<in> set (or_Protocol o1)) \<and>
     (or_Client o1 \<noteq> [] \<longrightarrow> mc_Client c \<in> set (or_Client o1)) \<and>
     (or_ProcessName o1 \<noteq> [] \<longrightarrow> ProcessItem_Match L (NewProcessItem (or_ProcessName o1)) c) \<and>
     (or_ProcessPath o1 \<noteq> [] \<longrightarrow> ProcessPathItem_Match (NewProcessPathItem (or_ProcessPath o1)) c) \<and>
     (or_ProcessPathRegex o1 \<noteq> [] \<longrightarrow>
        ok (NewProcessPathRegexItem L (or_ProcessPathRegex o1)) (\<lambda>i. ProcessPathRegexItem_Match i c)) \<and>
     (or_PackageName o1 \<noteq> [] \<longrightarrow> PackageNameItem_Match (NewPackageNameItem (or_PackageName o1)) c) \<and>
     (or_User o1 \<noteq> [] \<longrightarrow> UserItem_Match (NewUserItem (or_User o1)) c) \<and>
     (or_UserID o1 \<noteq> [] \<longrightarrow> UserIdItem_Match (NewUserIDItem (or_UserID o1)) c) \<and>
     (or_ClashMode o1 \<noteq> '''' \<longrightarrow> rt_clashServer R \<and> EqualFold (rt_clashMode R) (or_ClashMode o1)) \<and>
     (or_NetworkType o1 \<noteq> [] \<longrightarrow> NetworkTypeItem_Match R (or_NetworkType o1) c) \<and>
     (or_NetworkIsExpensive o1 \<longrightarrow> NetworkIsExpensiveItem_Match R c) \<and>
     (or_NetworkIsConstrained o1 \<longrightarrow> NetworkIsConstrainedItem_Match R c) \<and>
     (or_WIFISSID o1 \<noteq> [] \<longrightarrow> rt_SSID R \<in> set (or_WIFISSID o1)) \<and>
     (or_WIFIBSSID o1 \<noteq> [] \<longrightarrow> rt_BSSID R \<in> set (or_WIFIBSSID o1))"

text \<open>No field that restricts is given.\<close>

definition no_condition :: "raw_default_rule \<Rightarrow> bool" where
  "no_condition o1 \<longleftrightarrow>
     or_Inbound o1 = [] \<and> or_Network o1 = [] \<and> or_AuthUser o1 = [] \<and>
     or_Protocol o1 = [] \<and> or_Client o1 = [] \<and> or_Domain o1 = [] \<and>
     or_DomainSuffix o1 = [] \<and> or_DomainKeyword o1 = [] \<and> or_DomainRegex o1 = [] \<and>
     or_SourceIPCIDR o1 = [] \<and> or_IPCIDR o1 = [] \<and> or_SourcePort o1 = [] \<and>
     or_SourcePortRange o1 = [] \<and> or_Port o1 = [] \<and> or_PortRange o1 = [] \<and>
     or_ProcessName o1 = [] \<and> or_ProcessPath o1 = [] \<and> or_ProcessPathRegex o1 = [] \<and>
     or_PackageName o1 = [] \<and> or_User o1 = [] \<and> or_UserID o1 = [] \<and>
     or_ClashMode o1 = [] \<and> or_NetworkType o1 = [] \<and> or_WIFISSID o1 = [] \<and>
     or_WIFIBSSID o1 = [] \<and> or_RuleSet o1 = [] \<and> \<not> or_SourceIPIsPrivate o1 \<and>
     \<not> or_IPIsPrivate o1 \<and> \<not> or_NetworkIsExpensive o1 \<and> \<not> or_NetworkIsConstrained o1 \<and>
     or_IPVersion o1 \<le> 0"

subsection \<open>Starting a rule without rule-sets\<close>

lemma map_items_built: "map_items f (built iv es) = built iv (map (map_prod id f) es)"
  by (simp add: map_items_def in_group_def filter_map comp_def)

lemma map_entries [simp]:
  "map (map_prod id f) (if_entry b g i) = if_entry b g (f i)"
  "map (map_prod id f) (try_entry b g mk res) = try_entry b g (\<lambda>a. f (mk a)) res"
  by (simp_all add: if_entry_def try_entry_def split: sum.split)

lemma started_leaf [simp]:
  "started_item tm R (Leaf i) =
     Leaf (case i of ClashModeItem m \<Rightarrow> ClashModeItem (ClashModeItem_Start R m) | _ \<Rightarrow> i)"
  by (cases i) (simp_all add: started_item_def)

lemma leaves_Start:
  "list_all (\<lambda>i. \<not> is_RuleSetItem i) is \<Longrightarrow> items_Start tm R is refs = (Inr (), refs)"
proof (induction "is")
  case (Cons i "is")
  have "item_Start tm R i refs = (Inr (started_item tm R i), refs)"
  proof (cases i)
    case (Leaf x)
    then show ?thesis by (cases x) simp_all
  qed (use Cons.prems in simp)
  with Cons show ?case by simp
qed simp

abbreviation started_entries :: "tag_map \<Rightarrow> lib \<Rightarrow> runtime \<Rightarrow> raw_default_rule \<Rightarrow> (item_group \<times> rule_item) list" where
  "started_entries tm L R o1 \<equiv>
     map (map_prod id (started_item tm R)) (concat (map fst (route_entries L o1)))"

lemma ok_cause [simp]: "ok (cause m res) p = ok res p" "isl (cause m res) = isl res"
  by (cases res; simp add: ok_def)+

lemma new_items_member [simp]:
  "InboundItem_Match (NewInboundRule xs) c \<longleftrightarrow> mc_Inbound c \<in> set xs"
  "NetworkItem_Match (NewNetworkItem xs) c \<longleftrightarrow> mc_Network c \<in> set xs"
  "AuthUserItem_Match (NewAuthUserItem xs) c \<longleftrightarrow> mc_User c \<in> set xs"
  "ProtocolItem_Match (NewProtocolItem xs) c \<longleftrightarrow> mc_Protocol c \<in> set xs"
  "ClientItem_Match (NewClientItem xs) c \<longleftrightarrow> mc_Client c \<in> set xs"
  "WIFISSIDItem_Match R (NewWIFISSIDItem xs) c \<longleftrightarrow> rt_SSID R \<in> set xs"
  "WIFIBSSIDItem_Match R (NewWIFIBSSIDItem xs) c \<longleftrightarrow> rt_BSSID R \<in> set xs"
  "PortItem_Match (NewPortItem True ps) c \<longleftrightarrow> sa_Port (mc_Source c) \<in> set ps"
  "PortItem_Match (NewPortItem False ps) c \<longleftrightarrow> sa_Port (mc_Destination c) \<in> set ps"
  "ClashModeItem_Match R (ClashModeItem_Start R (NewClashModeItem m)) c \<longleftrightarrow>
     rt_clashServer R \<and> EqualFold (rt_clashMode R) m"
  by (simp_all add: InboundItem_Match_def NewInboundRule_def NetworkItem_Match_def
      NewNetworkItem_def AuthUserItem_Match_def NewAuthUserItem_def ProtocolItem_Match_def
      NewProtocolItem_def ClientItem_Match_def NewClientItem_def WIFISSIDItem_Match_def
      NewWIFISSIDItem_def WIFIBSSIDItem_Match_def NewWIFIBSSIDItem_def PortItem_Match_def
      NewPortItem_def ClashModeItem_Match_def ClashModeItem_Start_def NewClashModeItem_def
      new_set_item_def mk_map_iff)

lemma tries_ok:
  assumes "list_all snd (route_entries L o1)"
  shows
  "or_Domain o1 \<noteq> [] \<or> or_DomainSuffix o1 \<noteq> [] \<Longrightarrow> \<not> isl (NewDomainItem L (or_Domain o1) (or_DomainSuffix o1))"
  "or_DomainRegex o1 \<noteq> [] \<Longrightarrow> \<not> isl (NewDomainRegexItem L (or_DomainRegex o1))"
  "or_SourceIPCIDR o1 \<noteq> [] \<Longrightarrow> \<not> isl (NewIPCIDRItem L True (or_SourceIPCIDR o1))"
  "or_IPCIDR o1 \<noteq> [] \<Longrightarrow> \<not> isl (NewIPCIDRItem L False (or_IPCIDR o1))"
  "or_SourcePortRange o1 \<noteq> [] \<Longrightarrow> \<not> isl (NewPortRangeItem True (or_SourcePortRange o1))"
  "or_PortRange o1 \<noteq> [] \<Longrightarrow> \<not> isl (NewPortRangeItem False (or_PortRange o1))"
  "or_ProcessPathRegex o1 \<noteq> [] \<Longrightarrow> \<not> isl (NewProcessPathRegexItem L (or_ProcessPathRegex o1))"
  "or_Geosite o1 = [] \<and> or_SourceGeoIP o1 = [] \<and> or_GeoIP o1 = []"
  "or_IPVersion o1 \<le> 0 \<or> or_IPVersion o1 = 4 \<or> or_IPVersion o1 = 6"
  using assms by (simp_all add: route_entries_def)

lemma started_other:
  assumes "list_all snd (route_entries L o1)" and "or_RuleSet o1 = []"
  shows "list_all (\<lambda>i. fst (rule_item_match L R H i c)) (in_group Items (started_entries tm L R o1)) =
    other_conditions L R o1 c"
proof -
  have "(or_ProcessPathRegex o1 \<noteq> [] \<and> \<not> isl (NewProcessPathRegexItem L (or_ProcessPathRegex o1))) =
      (or_ProcessPathRegex o1 \<noteq> [])"
    using tries_ok(7) [OF assms(1)] by blast
  then show ?thesis
    using assms(2) by (simp add: route_entries_def other_conditions_def NewNetworkTypeItem_def)
qed

lemma started_source:
  assumes "list_all snd (route_entries L o1)"
  shows "(group_holds (\<lambda>i. fst (rule_item_match L R H i c)) (in_group SourceAddress (started_entries tm L R o1)) \<and>
     group_holds (\<lambda>i. fst (rule_item_match L R H i c)) (in_group SourcePort (started_entries tm L R o1))) =
    source_conditions L o1 c"
  using tries_ok(3,5) [OF assms(1)]
  by (auto simp: route_entries_def source_conditions_def group_holds_def NewIPIsPrivateItem_def)

lemma started_destination_given:
  assumes "list_all snd (route_entries L o1)"
  shows "in_group DestinationAddress (started_entries tm L R o1) = [] \<longleftrightarrow>
      or_Domain o1 = [] \<and> or_DomainSuffix o1 = [] \<and> or_DomainKeyword o1 = [] \<and> or_DomainRegex o1 = []"
    and "in_group DestinationIPCIDR (started_entries tm L R o1) = [] \<longleftrightarrow> or_IPCIDR o1 = [] \<and> \<not> or_IPIsPrivate o1"
    and "in_group DestinationPort (started_entries tm L R o1) = [] \<longleftrightarrow> or_Port o1 = [] \<and> or_PortRange o1 = []"
  using tries_ok(1,2,4,6) [OF assms(1)] by (auto simp: route_entries_def)

lemma started_destination:
  assumes "list_all snd (route_entries L o1)"
  shows "(group_holds (\<lambda>i. fst (rule_item_match L R H i c))
       (in_group DestinationAddress (started_entries tm L R o1) @
        in_group DestinationIPCIDR (started_entries tm L R o1)) \<and>
     group_holds (\<lambda>i. fst (rule_item_match L R H i c)) (in_group DestinationPort (started_entries tm L R o1))) =
    destination_conditions L o1 c"
proof -
  let ?p = "\<lambda>i. fst (rule_item_match L R H i c)"
  have "list_ex ?p (in_group DestinationAddress (started_entries tm L R o1)) \<longleftrightarrow>
      ((or_Domain o1 \<noteq> [] \<or> or_DomainSuffix o1 \<noteq> []) \<and>
         ok (NewDomainItem L (or_Domain o1) (or_DomainSuffix o1)) (\<lambda>i. DomainItem_Match i c)) \<or>
      (or_DomainKeyword o1 \<noteq> [] \<and> DomainKeywordItem_Match (or_DomainKeyword o1) c) \<or>
      (or_DomainRegex o1 \<noteq> [] \<and> ok (NewDomainRegexItem L (or_DomainRegex o1)) (\<lambda>i. DomainRegexItem_Match i c))"
    by (simp add: route_entries_def NewDomainKeywordItem_def)
  moreover have "list_ex ?p (in_group DestinationIPCIDR (started_entries tm L R o1)) \<longleftrightarrow>
      (or_IPCIDR o1 \<noteq> [] \<and> ok (NewIPCIDRItem L False (or_IPCIDR o1)) (\<lambda>i. IPCIDRItem_Match L i c)) \<or>
      (or_IPIsPrivate o1 \<and> IPIsPrivateItem_Match L False c)"
    by (simp add: route_entries_def NewIPIsPrivateItem_def)
  moreover have "list_ex ?p (in_group DestinationPort (started_entries tm L R o1)) \<longleftrightarrow>
      sa_Port (mc_Destination c) \<in> set (or_Port o1) \<or>
      (or_PortRange o1 \<noteq> [] \<and> ok (NewPortRangeItem False (or_PortRange o1)) (\<lambda>i. PortRangeItem_Match i c))"
    by (auto simp: route_entries_def)
  ultimately show ?thesis
    unfolding group_holds_def destination_conditions_def append_is_Nil_conv list_ex_append
      started_destination_given [OF assms]
    by blast
qed

lemma has_conditions_built: "has_conditions False (built iv es) \<longleftrightarrow> es \<noteq> []"
  using rule_groups_empty [of "built iv es"] built_wf [of iv es] by (auto simp: rule_wf_def)

lemma entry_empty [simp]:
  "if_entry b g i = [] \<longleftrightarrow> \<not> b"
  "try_entry b g mk res = [] \<longleftrightarrow> \<not> (b \<and> \<not> isl res)"
  by (auto simp: if_entry_def try_entry_def split: sum.split)

lemma started_none:
  assumes "list_all snd (route_entries L o1)" and "or_RuleSet o1 = []"
  shows "started_entries tm L R o1 = [] \<longleftrightarrow> no_condition o1"
proof -
  note t = tries_ok [OF assms(1)]
  have p: "(or_Domain o1 \<noteq> [] \<or> or_DomainSuffix o1 \<noteq> []) \<and> \<not> isl (NewDomainItem L (or_Domain o1) (or_DomainSuffix o1))
      \<longleftrightarrow> or_Domain o1 \<noteq> [] \<or> or_DomainSuffix o1 \<noteq> []"
    "or_DomainRegex o1 \<noteq> [] \<and> \<not> isl (NewDomainRegexItem L (or_DomainRegex o1)) \<longleftrightarrow> or_DomainRegex o1 \<noteq> []"
    "or_SourceIPCIDR o1 \<noteq> [] \<and> \<not> isl (NewIPCIDRItem L True (or_SourceIPCIDR o1)) \<longleftrightarrow> or_SourceIPCIDR o1 \<noteq> []"
    "or_IPCIDR o1 \<noteq> [] \<and> \<not> isl (NewIPCIDRItem L False (or_IPCIDR o1)) \<longleftrightarrow> or_IPCIDR o1 \<noteq> []"
    "or_SourcePortRange o1 \<noteq> [] \<and> \<not> isl (NewPortRangeItem True (or_SourcePortRange o1)) \<longleftrightarrow> or_SourcePortRange o1 \<noteq> []"
    "or_PortRange o1 \<noteq> [] \<and> \<not> isl (NewPortRangeItem False (or_PortRange o1)) \<longleftrightarrow> or_PortRange o1 \<noteq> []"
    "or_ProcessPathRegex o1 \<noteq> [] \<and> \<not> isl (NewProcessPathRegexItem L (or_ProcessPathRegex o1)) \<longleftrightarrow>
       or_ProcessPathRegex o1 \<noteq> []"
    using t(1-7) by blast+
  have "started_entries tm L R o1 = [] \<longleftrightarrow> list_all (\<lambda>e. fst e = []) (route_entries L o1)"
    by (auto simp: list_all_iff)
  also have "\<dots> \<longleftrightarrow> no_condition o1"
    using t(8,9) assms(2)
    unfolding route_entries_def no_condition_def list.pred_inject fst_conv entry_empty
      ok_cause length_greater_0_conv p
    by auto
  finally show ?thesis .
qed

lemma list_all_entry:
  "list_all P (if_entry b g i) \<longleftrightarrow> (b \<longrightarrow> P (g, i))"
  "list_all P (try_entry b g mk res) \<longleftrightarrow> (b \<longrightarrow> (\<forall>a. res = Inr a \<longrightarrow> P (g, mk a)))"
  by (auto simp: list_all_iff)

lemma leaf_entries:
  assumes "or_RuleSet o1 = []" and "e \<in> set (concat (map fst (route_entries L o1)))"
  shows "\<not> is_RuleSetItem (snd e)"
proof -
  have "list_all (\<lambda>ep. list_all (\<lambda>e. \<not> is_RuleSetItem (snd e)) (fst ep)) (route_entries L o1)"
    using assms(1)
    by (simp add: route_entries_def list_all_entry)
  with assms(2) show ?thesis by (fastforce simp: list_all_iff)
qed

lemma started_leaves:
  assumes "or_RuleSet o1 = []"
  shows "list_all (\<lambda>i. \<not> is_RuleSetItem i) (rule_groups (built iv (started_entries tm L R o1)))"
proof -
  have "\<not> is_RuleSetItem (snd e)" if "e \<in> set (started_entries tm L R o1)" for e
  proof -
    from that [unfolded set_map] obtain e0 where e0: "e0 \<in> set (concat (map fst (route_entries L o1)))"
      "e = map_prod id (started_item tm R) e0" by (elim imageE)
    from leaf_entries [OF assms e0(1)] show ?thesis
      by (cases "snd e0") (simp_all add: e0(2))
  qed
  with built_groups [of iv "started_entries tm L R o1"] show ?thesis
    by (force simp: list_all_iff)
qed

lemma NewDefaultRule_started:
  assumes "NewDefaultRule L T D d = Inr rule" and "or_RuleSet (dro_Raw d) = []"
  shows "\<exists>a. Rule_Start tm R rule refs =
      (Inr (DefaultRule (built (or_Invert (dro_Raw d)) (started_entries tm L R (dro_Raw d))) a), refs)"
    and "list_all snd (route_entries L (dro_Raw d))"
proof -
  obtain r a where r: "run_steps (NewDefaultRule_steps L (dro_Raw d)) (empty_rule (or_Invert (dro_Raw d))) = Inr r"
      "rule = DefaultRule r a"
    using assms(1) by (auto simp: NewDefaultRule_def)
  note b = route_rule_built [OF r(1)]
  show "list_all snd (route_entries L (dro_Raw d))" by (rule b(2))
  have "list_all (\<lambda>i. \<not> is_RuleSetItem i) (ar_allItems r)"
    using leaf_entries [OF assms(2)] by (auto simp: b(1) list_all_iff)
  from leaves_Start [OF this, of tm R refs]
  have "abstractDefaultRule_Start tm R r refs = (Inr (map_items (started_item tm R) r), refs)"
    by (simp add: abstractDefaultRule_Start_def)
  then show "\<exists>a. Rule_Start tm R rule refs =
      (Inr (DefaultRule (built (or_Invert (dro_Raw d)) (started_entries tm L R (dro_Raw d))) a), refs)"
    by (simp add: r(2) b(1) map_items_built)
qed

section \<open>Properties\<close>

text \<open>C1 (route_rule_documented): a default route rule without rule-sets that the constructor accepts
  can be started, and then decides a connection exactly as documented: it matches when no
  restricting field is given, and otherwise when (one of the given source address fields)
  and (one of the given source port fields) and (one of the given domain or destination
  address fields) and (one of the given port fields) and every other given field hold, or,
  for an inverted rule, when they do not.\<close>

theorem route_rule_documented:
  assumes "NewRule L T D chk (RuleOptions ty d mode rules iv act) = Inr rule"
    and "ty = '''' \<or> ty = RuleTypeDefault" and "or_RuleSet (dro_Raw d) = []"
    and "\<not> mc_IgnoreDestinationIPCIDRMatch c"
  shows "\<exists>started. Rule_Start tm R rule refs = (Inr started, refs) \<and>
    fst (Rule_Match L R H started (ResetRuleCache c)) =
      (no_condition (dro_Raw d) \<or>
       (other_conditions L R (dro_Raw d) (ResetRuleCache c) \<and>
        source_conditions L (dro_Raw d) (ResetRuleCache c) \<and>
        destination_conditions L (dro_Raw d) (ResetRuleCache c)) \<noteq> or_Invert (dro_Raw d))"
proof -
  let ?o = "dro_Raw d" let ?c = "ResetRuleCache c"
  let ?r = "built (or_Invert ?o) (started_entries tm L R ?o)"
  have "NewDefaultRule L T D d = Inr rule"
    using assms(1,2) by (auto split: if_splits)
  note n = NewDefaultRule_started(1) [OF this assms(3), of tm R refs]
    NewDefaultRule_started(2) [OF this assms(3)]
  have "\<not> mc_IgnoreDestinationIPCIDRMatch ?c" using assms(4) by (simp add: ResetRuleCache_def)
  then have m: "fst (Rule_Match L R H (DefaultRule ?r a) ?c) =
      (\<not> has_conditions False ?r \<or>
       default_verdict False (\<lambda>i. fst (rule_item_match L R H i ?c)) ?r \<noteq> or_Invert ?o)" for a
    using item.Match_leaves [OF built_wf started_leaves [OF assms(3)], of ?c]
    by (simp add: item.holds_def [abs_def])
  have v: "default_verdict False (\<lambda>i. fst (rule_item_match L R H i ?c)) ?r =
      (other_conditions L R ?o ?c \<and> source_conditions L ?o ?c \<and> destination_conditions L ?o ?c)"
    using started_source [OF n(2), of R H ?c tm] started_destination [OF n(2), of R H ?c tm]
    unfolding default_verdict_def built_fields started_other [OF n(2) assms(3)] if_False by blast
  have h: "has_conditions False ?r = (\<not> no_condition ?o)"
    using started_none [OF n(2) assms(3), of tm R] has_conditions_built by blast
  have e: "fst (Rule_Match L R H (DefaultRule ?r a) ?c) =
      (no_condition ?o \<or> (other_conditions L R ?o ?c \<and> source_conditions L ?o ?c \<and>
         destination_conditions L ?o ?c) \<noteq> or_Invert ?o)" for a
    by (simp only: m v h not_not)
  from n(1) obtain a where "Rule_Start tm R rule refs = (Inr (DefaultRule ?r a), refs)" ..
  with e [of a] show ?thesis by (intro exI [of _ "DefaultRule ?r a"] conjI)
qed

definition sample_route_action :: "string \<Rightarrow> rule_action_options" where
  "sample_route_action ob = zero_rule_action_options\<lparr>rac_Action := RuleActionTypeRoute,
     rac_RouteOptions := \<lparr>rao_Outbound = ob, rao_Raw = zero_raw_route_options\<rparr>\<rparr>"

definition sample_options :: default_rule_options where
  "sample_options = \<lparr>dro_Raw = zero_raw_default_rule\<lparr>or_DomainKeyword := [''ads''], or_Port := [443]\<rparr>,
     dro_Action = sample_route_action ''block''\<rparr>"

lemma sample_options_built:
  "\<exists>rule. NewRule sample_lib sample_text Inr True
     (RuleOptions '''' sample_options '''' [] False zero_rule_action_options) = Inr rule"
  by (simp add: sample_options_def sample_route_action_def DefaultRule_IsValid_def NewDefaultRule_def
      NewDefaultRule_steps_def item_if_def item_try_def fail_if_def ip_version_step_def
      zero_raw_default_rule_def zero_rule_action_options_def NewRuleAction_def action_type_defs)

theorem route_rule_documented_witness:
  "\<exists>rule started. NewRule sample_lib sample_text Inr True
       (RuleOptions '''' sample_options '''' [] False zero_rule_action_options) = Inr rule \<and>
     Rule_Start (\<lambda>_. None) sample_runtime rule (\<lambda>_. 0) = (Inr started, (\<lambda>_. 0)) \<and>
     fst (Rule_Match sample_lib sample_runtime (\<lambda>_. []) started
       (ResetRuleCache (sample_context ''ads.example'' 443)))"
proof -
  obtain rule where r: "NewRule sample_lib sample_text Inr True
     (RuleOptions '''' sample_options '''' [] False zero_rule_action_options) = Inr rule"
    using sample_options_built by blast
  have k: "Contains (ToLower ''ads.example'') ''ads''" by code_simp
  have s: "or_RuleSet (dro_Raw sample_options) = []"
    "\<not> mc_IgnoreDestinationIPCIDRMatch (sample_context ''ads.example'' 443)"
    by (simp_all add: sample_options_def zero_raw_default_rule_def sample_defs)
  have "other_conditions sample_lib sample_runtime (dro_Raw sample_options) c"
    "source_conditions sample_lib (dro_Raw sample_options) c" for c
    by (simp_all add: other_conditions_def source_conditions_def sample_options_def zero_raw_default_rule_def)
  moreover have "destination_conditions sample_lib (dro_Raw sample_options)
      (ResetRuleCache (sample_context ''ads.example'' 443))" "\<not> or_Invert (dro_Raw sample_options)"
    using k by (simp_all add: destination_conditions_def sample_options_def zero_raw_default_rule_def
        sample_defs DomainKeywordItem_Match_def domain_host_def)
  ultimately show ?thesis
    using r route_rule_documented [OF r _ s, of "\<lambda>_. None" sample_runtime "\<lambda>_. 0" "\<lambda>_. []"]
    by auto
qed

lemma named_action_valid: "rac_Action (dro_Action d) \<noteq> [] \<Longrightarrow> DefaultRule_IsValid d"
  by (cases d) (auto simp: DefaultRule_IsValid_def zero_rule_action_options_def)

text \<open>Remark (missing_conditions_unreachable): options whose action is named, as the decoder leaves every
  action, always pass the check for missing conditions; a rule that gives nothing but an
  outbound is built and matches every connection, and so does its inversion.\<close>

theorem missing_conditions_unreachable:
  "(rac_Action (dro_Action d) \<noteq> '''' \<longrightarrow> DefaultRule_IsValid d) \<and>
   (\<exists>rule. NewRule L T D False (RuleOptions '''' \<lparr>dro_Raw = zero_raw_default_rule\<lparr>or_Invert := iv\<rparr>,
        dro_Action = sample_route_action ob\<rparr> '''' [] False act) = Inr rule \<and>
      (\<forall>R H c. fst (Rule_Match L R H rule c)))"
  by (simp add: named_action_valid sample_route_action_def NewDefaultRule_def
      NewDefaultRule_steps_def item_if_def item_try_def fail_if_def ip_version_step_def
      zero_raw_default_rule_def NewRuleAction_def action_type_defs empty_rule_def
      abstractDefaultRule_Match_def)

theorem missing_conditions_unreachable_witness:
  "DefaultRule_IsValid sample_options"
  using missing_conditions_unreachable [of sample_options sample_lib sample_text Inr False "''block''"
      zero_rule_action_options]
  by (simp add: sample_options_def sample_route_action_def action_type_defs)

text \<open>Remark (headless_query_type_dropped): a default headless rule that gives only query types is accepted
  and matches every connection, of whatever query type: the constructor reads the field
  nowhere.\<close>

theorem headless_query_type_dropped:
  assumes "ts \<noteq> []"
  shows "\<exists>rule. NewHeadlessRule L hasNM (HeadlessRuleOptions RuleTypeDefault
      (zero_default_headless_rule\<lparr>oh_QueryType := ts\<rparr>) '''' [] False) = Inr rule \<and>
    (\<forall>R c. fst (HeadlessRule_Match L R rule c))"
  using assms
  by (simp add: DefaultHeadlessRule_IsValid_def NewDefaultHeadlessRule_def
      NewDefaultHeadlessRule_steps_def item_if_def item_try_def item_opt_def
      zero_default_headless_rule_def empty_rule_def abstractDefaultRule_Match_def)

theorem headless_query_type_dropped_witness:
  "\<exists>rule. NewHeadlessRule sample_lib True (HeadlessRuleOptions RuleTypeDefault
      (zero_default_headless_rule\<lparr>oh_QueryType := [28]\<rparr>) '''' [] False) = Inr rule \<and>
    fst (HeadlessRule_Match sample_lib sample_runtime rule (new_context\<lparr>mc_QueryType := 1\<rparr>))"
  using headless_query_type_dropped [of "[28]" sample_lib True] by blast

end
