(* ===== verification/Rule_Set_Props.thy ===== *)
theory Rule_Set_Props
  imports Rule_Build
begin

text \<open>
  Properties of rule-sets: what hiding the destination IP conditions changes, why the
  metadata flags of a rule-set may be trusted by the DNS rules, that a failed update keeps
  the old rules, that the cache file restores a rule-set, and that a started rule keeps its
  rule-sets alive.
\<close>

section \<open>Hiding the destination IP conditions\<close>

abbreviation hide :: "bool \<Rightarrow> inbound_context \<Rightarrow> inbound_context" where
  "hide b c \<equiv> c\<lparr>mc_IgnoreDestinationIPCIDRMatch := b\<rparr>"

text \<open>A match that does not depend on the flag and hands it on.\<close>

definition commutes :: "(inbound_context \<Rightarrow> bool \<times> inbound_context) \<Rightarrow> bool" where
  "commutes f \<longleftrightarrow> (\<forall>b c. f (hide b c) = map_prod id (hide b) (f c))"

lemma commutesD: "commutes f \<Longrightarrow> f c = (v, c') \<Longrightarrow> f (hide b c) = (v, hide b c')"
  by (simp add: commutes_def)

lemma hide_swap [simp]:
  "(hide b c)\<lparr>mc_SourceAddressMatch := x\<rparr> = hide b (c\<lparr>mc_SourceAddressMatch := x\<rparr>)"
  "(hide b c)\<lparr>mc_SourcePortMatch := x\<rparr> = hide b (c\<lparr>mc_SourcePortMatch := x\<rparr>)"
  "(hide b c)\<lparr>mc_DestinationAddressMatch := x\<rparr> = hide b (c\<lparr>mc_DestinationAddressMatch := x\<rparr>)"
  "(hide b c)\<lparr>mc_DestinationPortMatch := x\<rparr> = hide b (c\<lparr>mc_DestinationPortMatch := x\<rparr>)"
  "(hide b c)\<lparr>mc_DidMatch := x\<rparr> = hide b (c\<lparr>mc_DidMatch := x\<rparr>)"
  "(hide b c)\<lparr>mc_IPCIDRMatchSource := x\<rparr> = hide b (c\<lparr>mc_IPCIDRMatchSource := x\<rparr>)"
  "(hide b c)\<lparr>mc_IPCIDRAcceptEmpty := x\<rparr> = hide b (c\<lparr>mc_IPCIDRAcceptEmpty := x\<rparr>)"
  "ResetRuleCache (hide b c) = hide b (ResetRuleCache c)"
  by (simp_all add: ResetRuleCache_def)

lemma any_item_commutes:
  "(\<And>i. i \<in> set is \<Longrightarrow> commutes (im i)) \<Longrightarrow> commutes (any_item im is)"
proof (induction "is")
  case (Cons i "is")
  have i: "commutes (im i)" "commutes (any_item im is)" using Cons by auto
  show ?case
    unfolding commutes_def
  proof (intro allI)
    fix b and c :: inbound_context
    obtain v c' where e: "im i c = (v, c')" by force
    show "any_item im (i # is) (hide b c) = map_prod id (hide b) (any_item im (i # is) c)"
      using commutesD [OF i(1) e, of b] i(2) [unfolded commutes_def] e by (cases v) simp_all
  qed
qed (simp add: commutes_def)

lemma all_items_commutes:
  "(\<And>i. i \<in> set is \<Longrightarrow> commutes (im i)) \<Longrightarrow> commutes (all_items isRS im is)"
proof (induction "is")
  case (Cons i "is")
  have i: "commutes (im i)" "commutes (all_items isRS im is)" using Cons by auto
  show ?case
    unfolding commutes_def
  proof (intro allI)
    fix b and c :: inbound_context
    define c0 where "c0 = (if \<not> isRS i then c\<lparr>mc_DidMatch := True\<rparr> else c)"
    have h: "(if \<not> isRS i then (hide b c)\<lparr>mc_DidMatch := True\<rparr> else hide b c) = hide b c0"
      by (simp add: c0_def)
    obtain v c' where e: "im i c0 = (v, c')" by force
    show "all_items isRS im (i # is) (hide b c) = map_prod id (hide b) (all_items isRS im (i # is) c)"
      unfolding all_items.simps Let_def h c0_def [symmetric]
      using commutesD [OF i(1) e, of b] i(2) [unfolded commutes_def] e by (cases v) simp_all
  qed
qed (simp add: commutes_def)

lemma group_step_commutes:
  assumes "\<And>i. i \<in> set is \<Longrightarrow> commutes (im i)" and "\<And>c. f (hide b c) = hide b (f c)"
  shows "(case any_item im is (hide b c) of (v, c') \<Rightarrow> if v then f c' else c') =
    hide b (case any_item im is c of (v, c') \<Rightarrow> if v then f c' else c')"
  using commutesD [OF any_item_commutes [of "is" im, OF assms(1)]] assms(2)
  by (auto split: prod.splits)

lemma Match_commutes:
  assumes "\<And>i. i \<in> set (rule_groups r) \<Longrightarrow> commutes (im i)" and "ar_destinationIPCIDRItems r = []"
  shows "commutes (abstractDefaultRule_Match isRS im r)"
proof -
  have g: "\<And>i. i \<in> set (ar_sourceAddressItems r) \<Longrightarrow> commutes (im i)"
    "\<And>i. i \<in> set (ar_sourcePortItems r) \<Longrightarrow> commutes (im i)"
    "\<And>i. i \<in> set (ar_destinationAddressItems r) \<Longrightarrow> commutes (im i)"
    "\<And>i. i \<in> set (ar_destinationPortItems r) \<Longrightarrow> commutes (im i)"
    "\<And>i. i \<in> set (ar_items r) \<Longrightarrow> commutes (im i)"
    using assms(1) by (simp_all add: rule_groups_def)
  have m: "match_sourceAddress im r (hide b c) = hide b (match_sourceAddress im r c)"
    "match_sourcePort im r (hide b c) = hide b (match_sourcePort im r c)"
    "match_destinationAddress im r (hide b c) = hide b (match_destinationAddress im r c)"
    "match_destinationIPCIDR im r (hide b c) = hide b (match_destinationIPCIDR im r c)"
    "match_destinationPort im r (hide b c) = hide b (match_destinationPort im r c)" for b c
    using assms(2)
    by (simp_all add: match_sourceAddress_def match_sourcePort_def match_destinationAddress_def
        match_destinationIPCIDR_def match_destinationPort_def group_step_commutes g)
  show ?thesis
    unfolding commutes_def
  proof (intro allI)
    fix b and c :: inbound_context
    define c5 where "c5 = match_destinationPort im r (match_destinationIPCIDR im r
      (match_destinationAddress im r (match_sourcePort im r (match_sourceAddress im r c))))"
    obtain v c6 where e: "all_items isRS im (ar_items r) c5 = (v, c6)" by force
    have e': "all_items isRS im (ar_items r) (hide b c5) = (v, hide b c6)"
      by (rule commutesD [OF all_items_commutes [OF g(5)] e]) simp
    show "abstractDefaultRule_Match isRS im r (hide b c) =
        map_prod id (hide b) (abstractDefaultRule_Match isRS im r c)"
      unfolding abstractDefaultRule_Match_def Let_def m c5_def [symmetric] e e'
      using assms(2) by (cases v) simp_all
  qed
qed

lemma rules_commute:
  assumes "\<And>r. r \<in> set rs \<Longrightarrow> commutes (rm r)"
  shows "commutes (rules_all rm rs) \<and> commutes (rules_any rm rs)"
  using assms
proof (induction rs)
  case (Cons r rs)
  have c: "rm r (hide b x) = (v, hide b x')" if "rm r x = (v, x')" for b x v x'
    using Cons.prems [of r] commutesD that by simp
  have ih: "commutes (rules_all rm rs)" "commutes (rules_any rm rs)" using Cons by auto
  have "commutes (rules_all rm (r # rs))"
    using ih(1) c by (auto simp: commutes_def split: prod.splits bool.splits)
  moreover have "commutes (rules_any rm (r # rs))"
    using ih(2) c by (auto simp: commutes_def split: prod.splits bool.splits)
  ultimately show ?case ..
qed (simp add: commutes_def)

lemma logical_commutes:
  assumes "\<And>r. r \<in> set rs \<Longrightarrow> commutes (rm r)"
  shows "commutes (abstractLogicalRule_Match rm rs mode iv)"
  using rules_commute [of rs rm, OF assms]
  by (auto simp: commutes_def abstractLogicalRule_Match_def split: prod.splits)

section \<open>Rules without destination IP conditions\<close>

fun hr_no_cidr :: "headless_rule \<Rightarrow> bool" where
  "hr_no_cidr (DefaultHeadlessRule r) \<longleftrightarrow> ar_destinationIPCIDRItems r = []"
| "hr_no_cidr (LogicalHeadlessRule rules mode iv) \<longleftrightarrow> list_all hr_no_cidr rules"

lemma leaf_commutes: "commutes (leaf_item_match L R i)"
proof -
  have "leaf_match L R i (hide b c) = leaf_match L R i c" for b c
    using leaf.leaf_view [where i=i and c="hide b c" and d=c and L=L and R=R] by (simp add: leaf_item_match_def)
  then show ?thesis by (simp add: commutes_def leaf_item_match_def)
qed

lemma HeadlessRule_commutes: "hr_no_cidr r \<Longrightarrow> commutes (HeadlessRule_Match L R r)"
proof (induction r)
  case (DefaultHeadlessRule r)
  then show ?case using Match_commutes [of r "leaf_item_match L R"] leaf_commutes
    by (simp add: commutes_def)
next
  case (LogicalHeadlessRule rules mode iv)
  then have "commutes (HeadlessRule_Match L R x)" if "x \<in> set rules" for x
    using that by (simp add: list_all_iff)
  from logical_commutes [of rules, OF this] show ?case by (simp add: commutes_def)
qed

lemma RuleSet_commutes: "list_all hr_no_cidr rs \<Longrightarrow> commutes (RuleSet_Match L R rs)"
proof (induction rs)
  case (Cons r rs)
  have c: "HeadlessRule_Match L R r (hide b x) = (v, hide b x')"
    if "HeadlessRule_Match L R r x = (v, x')" for b x v x'
    using HeadlessRule_commutes [of r L R] Cons.prems commutesD that by simp
  show ?case using Cons c by (auto simp: commutes_def split: prod.splits bool.splits)
qed (simp add: commutes_def)

section \<open>The metadata flags\<close>

text \<open>Options whose rule types are spelt out, as both decoders leave them.\<close>

fun explicit_types :: "headless_rule_options \<Rightarrow> bool" where
  "explicit_types (HeadlessRuleOptions ty d mode rules iv) \<longleftrightarrow>
     ty = RuleTypeDefault \<or> (ty = RuleTypeLogical \<and> list_all explicit_types rules)"

lemma step_keeps_cidr:
  "g \<noteq> DestinationIPCIDR \<Longrightarrow> item_if b g i r = Inr r' \<Longrightarrow>
     ar_destinationIPCIDRItems r' = ar_destinationIPCIDRItems r"
  "g \<noteq> DestinationIPCIDR \<Longrightarrow> item_try b g mk res r = Inr r' \<Longrightarrow>
     ar_destinationIPCIDRItems r' = ar_destinationIPCIDRItems r"
  "g \<noteq> DestinationIPCIDR \<Longrightarrow> item_opt b g mk x r = Inr r' \<Longrightarrow>
     ar_destinationIPCIDRItems r' = ar_destinationIPCIDRItems r"
  by (cases g; auto simp: item_if_def item_try_def item_opt_def split: if_splits option.splits)+

lemma NewDefaultHeadlessRule_no_cidr:
  assumes "NewDefaultHeadlessRule L hasNM o1 = Inr r" and "\<not> isIPCIDRHeadlessRule o1"
  shows "hr_no_cidr r"
proof -
  from assms(1) obtain r0 where r0:
    "run_steps (NewDefaultHeadlessRule_steps L hasNM o1) (empty_rule (oh_Invert o1)) = Inr r0"
    "r = DefaultHeadlessRule r0"
    by (auto simp: NewDefaultHeadlessRule_def)
  have none: "oh_IPCIDR o1 = []" "oh_IPSet o1 = None"
    using assms(2) by (auto simp: isIPCIDRHeadlessRule_def Option.is_none_def)
  have "ar_destinationIPCIDRItems r0 = []"
  proof (rule run_steps_invariant [where P = "\<lambda>r. ar_destinationIPCIDRItems r = []", OF r0(1)])
    show "ar_destinationIPCIDRItems (empty_rule (oh_Invert o1)) = []" by (simp add: empty_rule_def)
    have "list_all (\<lambda>f. \<forall>s t. f s = Inr t \<longrightarrow> ar_destinationIPCIDRItems s = [] \<longrightarrow>
        ar_destinationIPCIDRItems t = []) (NewDefaultHeadlessRule_steps L hasNM o1)"
      unfolding NewDefaultHeadlessRule_steps_def list.pred_inject
      using none by (auto dest: step_keeps_cidr [rotated] simp: item_try_def item_opt_def
          split: option.splits if_splits)
    then show "ar_destinationIPCIDRItems t = []"
      if "f \<in> set (NewDefaultHeadlessRule_steps L hasNM o1)" "f s = Inr t"
        "ar_destinationIPCIDRItems s = []" for f s t
      using that by (auto simp: list_all_iff)
  qed
  then show ?thesis by (simp add: r0(2))
qed

lemma hasHeadlessRule_member:
  "HeadlessRuleOptions ty d mode rules iv \<in> set hs \<Longrightarrow> \<not> hasHeadlessRule cond hs \<Longrightarrow>
   (ty = RuleTypeDefault \<longrightarrow> \<not> cond d) \<and> (ty = RuleTypeLogical \<longrightarrow> \<not> hasHeadlessRule cond rules)"
  by (induction cond hs rule: hasHeadlessRule.induct) (auto split: if_splits)

lemma NewHeadlessRule_no_cidr:
  assumes "NewHeadlessRule L hasNM o1 = Inr r" and "explicit_types o1"
    and "\<not> hasHeadlessRule isIPCIDRHeadlessRule hs" and "o1 \<in> set hs"
  shows "hr_no_cidr r"
  using assms
proof (induction o1 arbitrary: r hs)
  case (HeadlessRuleOptions ty d mode rules iv)
  note m = hasHeadlessRule_member [OF HeadlessRuleOptions.prems(4,3)]
  show ?case
  proof (cases "ty = RuleTypeDefault")
    case True
    then have "NewDefaultHeadlessRule L hasNM d = Inr r"
      using HeadlessRuleOptions.prems(1) by (auto split: if_splits)
    with True m show ?thesis using NewDefaultHeadlessRule_no_cidr by blast
  next
    case False
    then have ty: "ty = RuleTypeLogical" "list_all explicit_types rules" "ty \<noteq> ''''"
      using HeadlessRuleOptions.prems(2) by (auto simp: RuleTypeLogical_def)
    then obtain rs m' where rs: "sub_rules (NewHeadlessRule L hasNM) rules = Inr rs"
      "r = LogicalHeadlessRule rs m' iv"
      using HeadlessRuleOptions.prems(1) False
      by (auto simp: NewLogicalHeadlessRule_def split: if_splits)
    have len: "length rs = length rules"
      using rs(1) traverse_from_length by (fastforce simp: sub_rules_def)
    have "hr_no_cidr (rs ! k)" if "k < length rs" for k
    proof (rule HeadlessRuleOptions.IH)
      show "rules ! k \<in> set rules" "rules ! k \<in> set rules" using that len by simp_all
      show "NewHeadlessRule L hasNM (rules ! k) = Inr (rs ! k)"
        using traverse_from_nth [OF rs(1) [unfolded sub_rules_def], of k] that len by auto
      show "explicit_types (rules ! k)" using ty(2) that len by (simp add: list_all_length)
      show "\<not> hasHeadlessRule isIPCIDRHeadlessRule rules" using m ty(1) by blast
    qed
    then show ?thesis by (simp add: rs(2) list_all_length)
  qed
qed

text \<open>What a reload guarantees of the flag that the DNS rules read.\<close>

lemma reloadRules_no_cidr:
  assumes "reloadRules L hasNM hs s = Inr (cbs, s')" and "list_all explicit_types hs"
    and "\<not> rm_ContainsIPCIDRRule (rst_metadata s')"
  shows "list_all hr_no_cidr (rst_rules s')"
proof -
  from assms(1) obtain rs where rs:
    "traverse (\<lambda>i o1. cause (''parse rule_set.rules.['' @ itoa i @ '']'') (NewHeadlessRule L hasNM o1)) hs = Inr rs"
    "rst_rules s' = rs" "rst_metadata s' = rules_metadata hs"
    by (auto simp: reloadRules_def)
  have len: "length rs = length hs" using traverse_from_length [OF rs(1)] .
  have no: "\<not> hasHeadlessRule isIPCIDRHeadlessRule hs" using assms(3) rs(3) by (simp add: rules_metadata_def)
  have "hr_no_cidr (rs ! k)" if "k < length rs" for k
  proof (rule NewHeadlessRule_no_cidr [OF _ _ no])
    show "NewHeadlessRule L hasNM (hs ! k) = Inr (rs ! k)"
      using traverse_from_nth [OF rs(1), of k] that len by auto
    show "explicit_types (hs ! k)" using assms(2) that len by (simp add: list_all_length)
    show "hs ! k \<in> set hs" using that len by simp
  qed
  then show ?thesis by (simp add: rs(2) list_all_length)
qed

section \<open>DNS rules without address limit\<close>

fun source_matching :: "rule_item \<Rightarrow> bool" where
  "source_matching (RuleSetItem x) = rsi_ipCidrMatchSource x"
| "source_matching (Leaf i) = False"

text \<open>The shape the constructor gives a DNS rule (rule-set items only among the conjunctive
  items), with no rule-set turned to the source address.\<close>

fun sets_plain :: "'a dns_rule \<Rightarrow> bool" where
  "sets_plain (DefaultDNSRule r a) \<longleftrightarrow>
     list_all (\<lambda>i. \<not> is_RuleSetItem i) (ar_sourceAddressItems r @ ar_sourcePortItems r @
       ar_destinationAddressItems r @ ar_destinationIPCIDRItems r @ ar_destinationPortItems r) \<and>
     list_all (\<lambda>i. \<not> source_matching i) (ar_items r)"
| "sets_plain (LogicalDNSRule rules mode iv a) \<longleftrightarrow> list_all sets_plain rules"

lemma sets_match_commutes:
  assumes "\<And>s. s \<in> set ss \<Longrightarrow> list_all hr_no_cidr (H s)"
  shows "commutes (sets_match L R H ss)"
  using assms
proof (induction ss)
  case (Cons s ss)
  have c: "RuleSet_Match L R (H s) (hide b x) = (v, hide b x')"
    if "RuleSet_Match L R (H s) x = (v, x')" for b x v x'
    using RuleSet_commutes [of "H s" L R] Cons.prems [of s] commutesD that by simp
  show ?case using Cons c by (auto simp: commutes_def split: prod.splits bool.splits)
qed (simp add: commutes_def)

lemma item_commutes:
  assumes "\<not> item_address_limit hasCIDR i" and "\<not> source_matching i"
    and "\<forall>s. \<not> hasCIDR s \<longrightarrow> list_all hr_no_cidr (H s)"
  shows "commutes (rule_item_match L R H i)"
proof (cases i)
  case (Leaf x)
  then show ?thesis using leaf_commutes [of L R x] by (simp add: commutes_def leaf_item_match_def)
next
  case (RuleSetItem x)
  with assms(1,2) have "\<And>s. s \<in> set (rsi_setList x) \<Longrightarrow> list_all hr_no_cidr (H s)"
    by (intro assms(3) [rule_format]) (auto simp: ContainsDestinationIPCIDRRule_def list_ex_iff)
  from sets_match_commutes [of "rsi_setList x" H, OF this] RuleSetItem show ?thesis
    by (simp add: commutes_def RuleSetItem_Match_def)
qed

lemma dns_limit_commutes:
  assumes "\<forall>s. \<not> hasCIDR s \<longrightarrow> list_all hr_no_cidr (H s)"
  shows "\<not> WithAddressLimit hasCIDR rule \<Longrightarrow> sets_plain rule \<Longrightarrow>
    commutes (DNSRule_MatchAddressLimit L R H rule)"
proof (induction rule)
  case (DefaultDNSRule r a)
  have "commutes (rule_item_match L R H i)" if "i \<in> set (rule_groups r)" for i
  proof -
    have "\<not> item_address_limit hasCIDR i \<and> \<not> source_matching i"
    proof (cases "i \<in> set (ar_items r)")
      case True
      with DefaultDNSRule.prems show ?thesis by (simp add: list_all_iff list_ex_iff split: if_splits)
    next
      case False
      with that DefaultDNSRule.prems(2) have "\<not> is_RuleSetItem i"
        by (auto simp: rule_groups_def list_all_iff)
      then show ?thesis by (cases i) simp_all
    qed
    with item_commutes assms show ?thesis by blast
  qed
  from Match_commutes [of r, OF this] show ?case
    using DefaultDNSRule.prems(1) by (simp add: commutes_def split: if_splits)
next
  case (LogicalDNSRule rules mode iv a)
  have "commutes (DNSRule_MatchAddressLimit L R H x)" if "x \<in> set rules" for x
    using LogicalDNSRule that by (auto simp: list_all_iff list_ex_iff)
  from logical_commutes [of rules, OF this] show ?case by (simp add: commutes_def)
qed

text \<open>From a context that hides nothing, both phases are one and the same.\<close>

lemma rules_phase_eq:
  assumes "\<And>r c. r \<in> set rs \<Longrightarrow> \<not> mc_IgnoreDestinationIPCIDRMatch c \<Longrightarrow> f r c = g r c"
    and "\<And>r. r \<in> set rs \<Longrightarrow> commutes (g r)"
  shows "\<not> mc_IgnoreDestinationIPCIDRMatch c \<Longrightarrow>
    rules_all f rs c = rules_all g rs c \<and> rules_any f rs c = rules_any g rs c"
  using assms
proof (induction rs arbitrary: c)
  case (Cons r rs)
  let ?c = "ResetRuleCache c"
  have i: "\<not> mc_IgnoreDestinationIPCIDRMatch ?c" using Cons.prems(1) by (simp add: ResetRuleCache_def)
  obtain v c' where e: "g r ?c = (v, c')" by force
  have "g r (hide False ?c) = (v, hide False c')" using commutesD Cons.prems(3) [of r] e by simp
  moreover have "hide False ?c = ?c" using i by simp
  ultimately have "c' = hide False c'" using e by simp
  from arg_cong [OF this, of mc_IgnoreDestinationIPCIDRMatch]
  have i': "\<not> mc_IgnoreDestinationIPCIDRMatch c'" by simp
  have "f r ?c = (v, c')" using Cons.prems(2) [of r ?c] i e by simp
  with e Cons.IH [OF i'] Cons.prems(2,3) show ?case by (cases v) auto
qed simp

lemma dns_phases_agree:
  assumes "\<forall>s. \<not> hasCIDR s \<longrightarrow> list_all hr_no_cidr (H s)"
  shows "\<not> WithAddressLimit hasCIDR rule \<Longrightarrow> sets_plain rule \<Longrightarrow> \<not> mc_IgnoreDestinationIPCIDRMatch c \<Longrightarrow>
    DNSRule_Match L R H rule c = DNSRule_MatchAddressLimit L R H rule c"
proof (induction rule arbitrary: c)
  case (DefaultDNSRule r a)
  let ?m = "abstractDefaultRule_Match is_RuleSetItem (rule_item_match L R H) r"
  obtain v c' where e: "?m c = (v, c')" by force
  have "commutes (\<lambda>c. DNSRule_MatchAddressLimit L R H (DefaultDNSRule r a) c)"
    using dns_limit_commutes [OF assms DefaultDNSRule.prems(1,2)] by blast
  then have k: "commutes ?m" by simp
  have c: "hide False c = c" using DefaultDNSRule.prems(3) by simp
  have "hide False c' = c'" using commutesD [OF k e, of False] unfolding c e by simp
  then show ?case using commutesD [OF k e, of True] e by (simp add: DefaultDNSRule_Match_def)
next
  case (LogicalDNSRule rules mode iv a)
  have p: "\<not> WithAddressLimit hasCIDR x \<and> sets_plain x" if "x \<in> set rules" for x
    using LogicalDNSRule.prems that by (auto simp: list_all_iff list_ex_iff)
  have q: "commutes (DNSRule_MatchAddressLimit L R H x)" if "x \<in> set rules" for x
    using p [OF that] by (intro dns_limit_commutes [OF assms]) simp_all
  have "rules_all (DNSRule_Match L R H) rules c = rules_all (DNSRule_MatchAddressLimit L R H) rules c \<and>
      rules_any (DNSRule_Match L R H) rules c = rules_any (DNSRule_MatchAddressLimit L R H) rules c"
    using LogicalDNSRule.IH p q LogicalDNSRule.prems(3) by (intro rules_phase_eq) auto
  then show ?case by (simp add: abstractLogicalRule_Match_def)
qed

section \<open>Properties\<close>

text \<open>Remark (dns_phases_agree_without_limit): for a DNS rule that reports no address limit, built as the
  constructor does and with no rule-set turned to the source address, matching before and
  after the lookup is one and the same function, verdict and context, as soon as the
  rule-sets whose flag is off contain no destination IP condition. This is why the DNS
  router may skip the second match.\<close>

theorem dns_phases_agree_without_limit:
  assumes "\<not> WithAddressLimit hasCIDR rule" and "sets_plain rule"
    and "\<forall>s. \<not> hasCIDR s \<longrightarrow> list_all hr_no_cidr (H s)"
    and "\<not> mc_IgnoreDestinationIPCIDRMatch c"
  shows "DNSRule_Match L R H rule c = DNSRule_MatchAddressLimit L R H rule c"
  by (rule dns_phases_agree [OF assms(3,1,2,4)])

definition sample_set_item :: "bool \<Rightarrow> rule_item" where
  "sample_set_item src = RuleSetItem \<lparr>rsi_tagList = [''s''], rsi_setList = [0],
     rsi_ipCidrMatchSource = src, rsi_ipCidrAcceptEmpty = False\<rparr>"

definition sample_set_rule :: "bool \<Rightarrow> rule_item abstract_rule" where
  "sample_set_rule src = (empty_rule False)\<lparr>ar_items := [sample_set_item src], ar_allItems := [sample_set_item src]\<rparr>"

definition sample_port_set :: rule_heap where
  "sample_port_set = (\<lambda>_. [DefaultHeadlessRule ((empty_rule False)\<lparr>
     ar_destinationPortItems := [PortItem (NewPortItem False [53])],
     ar_allItems := [PortItem (NewPortItem False [53])]\<rparr>)])"

theorem dns_phases_agree_without_limit_witness:
  "DNSRule_Match sample_lib sample_runtime sample_port_set (DefaultDNSRule (sample_set_rule False) ()) new_context =
   DNSRule_MatchAddressLimit sample_lib sample_runtime sample_port_set
     (DefaultDNSRule (sample_set_rule False) ()) new_context"
  by (rule dns_phases_agree_without_limit [where hasCIDR = "\<lambda>_. False"])
    (simp_all add: sample_set_rule_def sample_set_item_def ContainsDestinationIPCIDRRule_def
      empty_rule_def sample_port_set_def new_context_def)

text \<open>Remark (reload_flag_sound): after a reload from options with explicit rule types, a rule-set whose
  \<^verbatim>\<open>ContainsIPCIDRRule\<close> flag is off holds no rule with destination IP conditions, at any
  depth, so hiding those conditions does not change what it matches.\<close>

theorem reload_flag_sound:
  assumes "reloadRules L hasNM hs s = Inr (cbs, s')" and "list_all explicit_types hs"
    and "\<not> rm_ContainsIPCIDRRule (rst_metadata s')"
  shows "list_all hr_no_cidr (rst_rules s') \<and>
    fst (RuleSet_Match L R (rst_rules s') (c\<lparr>mc_IgnoreDestinationIPCIDRMatch := b\<rparr>)) =
    fst (RuleSet_Match L R (rst_rules s') c)"
  using reloadRules_no_cidr [OF assms] RuleSet_commutes [of "rst_rules s'" L R]
  by (simp add: commutes_def)

definition sample_set :: rule_set where
  "sample_set = \<lparr>rst_tag = ''s'', rst_rules = [],
     rst_metadata = \<lparr>rm_ContainsProcessRule = False, rm_ContainsWIFIRule = False,
                     rm_ContainsIPCIDRRule = False\<rparr>, rst_callbacks = [7], rst_refs = 0\<rparr>"

definition sample_headless_options :: headless_rule_options where
  "sample_headless_options = HeadlessRuleOptions RuleTypeDefault
     (zero_default_headless_rule\<lparr>oh_DomainKeyword := [''ads'']\<rparr>) '''' [] False"

theorem reload_flag_sound_witness:
  "\<exists>cbs s'. reloadRules sample_lib True [sample_headless_options] sample_set = Inr (cbs, s') \<and>
     list_all hr_no_cidr (rst_rules s')"
proof -
  obtain cbs s' where s': "reloadRules sample_lib True [sample_headless_options] sample_set = Inr (cbs, s')"
      "\<not> rm_ContainsIPCIDRRule (rst_metadata s')"
    by (simp add: reloadRules_def sample_headless_options_def sample_set_def rules_metadata_def
        DefaultHeadlessRule_IsValid_def NewDefaultHeadlessRule_def NewDefaultHeadlessRule_steps_def
        item_if_def item_try_def item_opt_def zero_default_headless_rule_def isIPCIDRHeadlessRule_def)
  have "list_all explicit_types [sample_headless_options]" by (simp add: sample_headless_options_def)
  from reload_flag_sound [OF s'(1) this s'(2), THEN conjunct1] s'(1) show ?thesis by blast
qed

definition sample_cidr_set :: rule_heap where
  "sample_cidr_set = (\<lambda>_. [DefaultHeadlessRule ((empty_rule False)\<lparr>
     ar_destinationIPCIDRItems := [IPCIDRItem (NewRawIPCIDRItem False
        (IPSet (\<lambda>a. a = IPv4 167772161) [] []))],
     ar_allItems := [IPCIDRItem (NewRawIPCIDRItem False (IPSet (\<lambda>a. a = IPv4 167772161) [] []))]\<rparr>)])"

text \<open>Remark (dns_source_set_unfiltered): a DNS rule whose only condition is a rule-set of IP ranges turned
  to the source address matches a client outside the ranges before the lookup, while it
  reports no address limit, so the match that would reject the client is never asked for.\<close>

theorem dns_source_set_unfiltered:
  "let c = new_context\<lparr>mc_Source := \<lparr>sa_Addr = IPv4 1, sa_Port = 1000, sa_Fqdn = ''''\<rparr>\<rparr>;
       rule = DefaultDNSRule (sample_set_rule True) () in
   fst (DNSRule_Match sample_lib sample_runtime sample_cidr_set rule c) \<and>
   \<not> WithAddressLimit (\<lambda>_. True) rule \<and>
   \<not> fst (DNSRule_MatchAddressLimit sample_lib sample_runtime sample_cidr_set rule c)"
  by (simp add: sample_set_rule_def sample_set_item_def sample_cidr_set_def empty_rule_def
      DefaultDNSRule_Match_def abstractDefaultRule_Match_def match_sourceAddress_def
      match_sourcePort_def match_destinationAddress_def match_destinationIPCIDR_def
      match_destinationPort_def RuleSetItem_Match_def ContainsDestinationIPCIDRRule_def
      leaf_item_match_def IPCIDRItem_Match_def NewRawIPCIDRItem_def new_context_def Let_def)

subsection \<open>Updates and the cache file\<close>

lemma loadBytes_frame:
  assumes "loadBytes L X hasNM content s = Inr (cbs, s')"
  shows "rst_tag s' = rst_tag s \<and> rrs_Format s' = rrs_Format s \<and> rrs_DownloadDetour s' = rrs_DownloadDetour s \<and>
    rrs_lastEtag s' = rrs_lastEtag s \<and> rst_refs s' = rst_refs s"
  using assms by (auto simp: loadBytes_def reloadRules_def)

text \<open>The rules a content gives depend on the format alone.\<close>

lemma loadBytes_same:
  assumes "loadBytes L X hasNM content s = Inr (cbs, s')" and "rrs_Format t = rrs_Format s"
  shows "loadBytes L X hasNM content t =
    Inr (rst_callbacks t, t\<lparr>rst_rules := rst_rules s', rst_metadata := rst_metadata s'\<rparr>)"
  using assms by (auto simp: loadBytes_def reloadRules_def split: if_splits)

text \<open>C40 (fetch_failure_keeps_rules): a fetch that fails, for whatever reason, leaves the rule-set and
  the cache file as they were. One that succeeds has recorded the time and got either the
  answer that nothing was modified, and then the rules are the same, or a content, and then rules and
  metadata are those of this content.\<close>

theorem fetch_failure_keeps_rules:
  "case fetch L X hasNM request now cache s of
     (Inl e, cache', s') \<Rightarrow> cache' = cache \<and> s' = s
   | (Inr _, cache', s') \<Rightarrow> rrs_lastUpdated s' = Some now \<and> rst_refs s' = rst_refs s \<and> rst_tag s' = rst_tag s \<and>
       (\<exists>resp. request (rrs_lastEtag s) = Inr resp \<and>
         (hr_StatusCode resp = 304 \<and> rst_rules s' = rst_rules s \<and> rst_metadata s' = rst_metadata s \<and>
            rrs_lastEtag s' = rrs_lastEtag s \<or>
          hr_StatusCode resp = 200 \<and> (\<exists>content cbs s1. hr_Body resp = Inr content \<and>
            loadBytes L X hasNM content s = Inr (cbs, s1) \<and> rst_rules s' = rst_rules s1 \<and> rst_metadata s' = rst_metadata s1)))"
proof (cases "request (rrs_lastEtag s)")
  case (Inl e)
  then show ?thesis by (simp add: fetch_def)
next
  case (Inr resp)
  note r = this
  show ?thesis
  proof (cases "hr_StatusCode resp = 200")
    case False
    with r show ?thesis by (simp add: fetch_def Let_def split: option.split)
  next
    case True
    show ?thesis
    proof (cases "bind_r (hr_Body resp) (\<lambda>content.
        bind_r (loadBytes L X hasNM content s) (\<lambda>(_, s1). Inr (content, s1)))")
      case (Inl e)
      with r True show ?thesis by (simp add: fetch_def Let_def)
    next
      case (Inr p)
      then obtain content cbs s1 where l: "hr_Body resp = Inr content"
        "loadBytes L X hasNM content s = Inr (cbs, s1)" "p = (content, s1)" by auto
      with r True loadBytes_frame [OF l(2)] show ?thesis by (simp add: fetch_def Let_def)
    qed
  qed
qed

text \<open>C33 (remote_cache_restores): after a fetch that got new content and a cache file that could be
  written, a fresh start of the same rule-set from that cache file loads the same rules,
  metadata and entity tag, and the update time in whole seconds, and asks the network nothing.\<close>

theorem remote_cache_restores:
  assumes "fetch L X hasNM request now (Some cf) s = (Inr (), cache', s')"
    and "request (rrs_lastEtag s) = Inr resp" and "hr_StatusCode resp = 200"
    and "cf_writeError cf = None" and "rst_tag s = rso_Tag o1" and "rrs_Format s = rso_Format o1"
    and "rso_DownloadDetour o1 = '''' \<or> hasOutbound (rso_DownloadDetour o1)"
  shows "\<exists>t. StartContext L X hasNM hasOutbound request' now' cache' (NewRemoteRuleSet o1) = (Inr (), cache', t) \<and>
    rst_rules t = rst_rules s' \<and> rst_metadata t = rst_metadata s' \<and>
    rrs_lastEtag t = rrs_lastEtag s' \<and> rrs_lastUpdated t = map_option whole_seconds (rrs_lastUpdated s')"
proof -
  obtain content cbs s1 where l: "hr_Body resp = Inr content" "loadBytes L X hasNM content s = Inr (cbs, s1)"
    using assms(1-3) by (auto simp: fetch_def Let_def split: sum.splits)
  define tag where "tag = (if hr_Etag resp \<noteq> '''' then hr_Etag resp else rrs_lastEtag s1)"
  have s': "s' = s1\<lparr>rrs_lastEtag := tag, rrs_lastUpdated := Some now\<rparr>"
    "cache' = Some (cf\<lparr>cf_RuleSets := (cf_RuleSets cf)(rst_tag s \<mapsto>
       \<lparr>sb_Content = content, sb_LastUpdated = Some (whole_seconds now), sb_LastEtag = tag\<rparr>)\<rparr>)"
    using assms(1-4) l by (auto simp: fetch_def Let_def SaveRuleSet_def marshalled_def tag_def)
  have f: "rrs_Format (NewRemoteRuleSet o1) = rrs_Format s" "rst_tag (NewRemoteRuleSet o1) = rst_tag s"
    "rrs_DownloadDetour (NewRemoteRuleSet o1) = rso_DownloadDetour o1"
    using assms(5,6) by (simp_all add: NewRemoteRuleSet_def)
  have "\<not> (rso_DownloadDetour o1 \<noteq> [] \<and> \<not> hasOutbound (rso_DownloadDetour o1))" using assms(7) by auto
  then show ?thesis
    using loadBytes_same [OF l(2) f(1)]
    by (auto simp: StartContext_def restore_cached_def f s')
qed

definition sample_decoders :: decoders where
  "sample_decoders = \<lparr>dec_json = (\<lambda>_. Inr \<lparr>psc_Version = 3, psc_Rules = [sample_headless_options]\<rparr>),
     dec_srs = (\<lambda>_. Inl (ENew ''not a rule-set file''))\<rparr>"

definition sample_remote :: rule_set_options where
  "sample_remote = \<lparr>rso_Type = ''remote'', rso_Tag = ''s'', rso_Format = ''source'', rso_InlineRules = [],
     rso_Path = '''', rso_URL = ''https://r.example/s.json'', rso_DownloadDetour = '''', rso_UpdateInterval = 0\<rparr>"

definition sample_http :: "string \<Rightarrow> http_response result" where
  "sample_http etag = Inr \<lparr>hr_StatusCode = 200, hr_Status = ''200 OK'', hr_Etag = ''v1'', hr_Body = Inr [123]\<rparr>"

theorem remote_cache_restores_witness:
  "\<exists>cache' s' t. fetch sample_lib sample_decoders True sample_http 5
       (Some \<lparr>cf_RuleSets = Map.empty, cf_writeError = None\<rparr>) (NewRemoteRuleSet sample_remote) = (Inr (), cache', s') \<and>
     StartContext sample_lib sample_decoders True (\<lambda>_. False) (\<lambda>_. Inl (ENew ''offline'')) 9 cache'
       (NewRemoteRuleSet sample_remote) = (Inr (), cache', t) \<and> rst_rules t = rst_rules s'"
proof -
  let ?cf = "\<lparr>cf_RuleSets = Map.empty, cf_writeError = None\<rparr>"
  obtain cache' s' where f: "fetch sample_lib sample_decoders True sample_http 5 (Some ?cf)
      (NewRemoteRuleSet sample_remote) = (Inr (), cache', s')"
    by (simp add: fetch_def sample_http_def sample_decoders_def sample_remote_def NewRemoteRuleSet_def
        loadBytes_def RuleSetFormatSource_def PlainRuleSetCompat_Upgrade_def reloadRules_def
        sample_headless_options_def DefaultHeadlessRule_IsValid_def NewDefaultHeadlessRule_def
        NewDefaultHeadlessRule_steps_def item_if_def item_try_def item_opt_def
        zero_default_headless_rule_def Let_def)
  have "\<exists>t. StartContext sample_lib sample_decoders True (\<lambda>_. False) (\<lambda>_. Inl (ENew ''offline'')) 9 cache'
      (NewRemoteRuleSet sample_remote) = (Inr (), cache', t) \<and> rst_rules t = rst_rules s' \<and>
      rst_metadata t = rst_metadata s' \<and> rrs_lastEtag t = rrs_lastEtag s' \<and>
      rrs_lastUpdated t = map_option whole_seconds (rrs_lastUpdated s')"
    by (rule remote_cache_restores [OF f, where resp = "projr (sample_http [])"])
      (simp_all add: sample_http_def sample_remote_def NewRemoteRuleSet_def)
  with f show ?thesis by blast
qed

subsection \<open>Starting rules and reference counts\<close>

fun item_refs :: "rule_item \<Rightarrow> rule_set_ref list" where
  "item_refs (RuleSetItem r) = rsi_setList r"
| "item_refs (Leaf i) = []"

fun rule_refs :: "'a route_rule \<Rightarrow> rule_set_ref list" where
  "rule_refs (DefaultRule r a) = concat (map item_refs (ar_allItems r))"
| "rule_refs (LogicalRule rules mode iv a) = concat (map rule_refs rules)"

lemma RuleSetItem_Start_refs:
  "RuleSetItem_Start tm tags l refs = (Inr l', refs') \<Longrightarrow>
   (\<forall>s. refs s \<le> refs' s) \<and> (\<exists>new. l' = l @ new \<and> new = map (the \<circ> tm) tags \<and> (\<forall>s\<in>set new. refs s < refs' s))"
proof (induction tags arbitrary: l refs)
  case (Cons tag tags)
  then obtain s where s: "tm tag = Some s"
    "RuleSetItem_Start tm tags (l @ [s]) (refs(s := refs s + 1)) = (Inr l', refs')"
    by (auto split: option.splits)
  from Cons.IH [OF s(2)] obtain new where new: "\<And>x. (refs(s := refs s + 1)) x \<le> refs' x"
    "l' = (l @ [s]) @ new" "new = map (the \<circ> tm) tags" "\<And>x. x \<in> set new \<Longrightarrow> (refs(s := refs s + 1)) x < refs' x"
    by blast
  have "refs x \<le> refs' x" for x using new(1) [of x] by (auto split: if_splits)
  moreover have "refs s < refs' s" using new(1) [of s] by simp
  moreover have "refs x < refs' x" if "x \<in> set new" for x
    using new(4) [OF that] by (auto split: if_splits)
  ultimately show ?case using s(1) new(2,3) by auto
qed simp

lemma item_Start_refs:
  assumes "item_Start tm R i refs = (Inr j, refs')" and "item_refs i = []"
  shows "(\<forall>s. refs s \<le> refs' s) \<and> (\<forall>s \<in> set (item_refs (started_item tm R i)). refs s < refs' s)"
proof (cases i)
  case (Leaf x)
  with assms show ?thesis by (cases x) auto
next
  case (RuleSetItem r)
  obtain l where l: "RuleSetItem_Start tm (rsi_tagList r) (rsi_setList r) refs = (Inr l, refs')"
    using assms(1) RuleSetItem by (auto split: prod.splits sum.splits)
  have ok: "\<exists>zs zr. RuleSetItem_Start tm tags l0 refs0 = (Inr zs, zr)"
    if "RuleSetItem_Start tm tags l1 refs1 = (Inr ys, yr)" for tags l0 l1 refs0 refs1 ys yr
    using that by (induction tags arbitrary: l0 l1 refs0 refs1) (auto split: option.splits)
  obtain l2 rf where l2: "RuleSetItem_Start tm (rsi_tagList r) (rsi_setList r) (\<lambda>_. 0) = (Inr l2, rf)"
    using ok [OF l] by blast
  have "l2 = l" using RuleSetItem_Start_refs [OF l] RuleSetItem_Start_refs [OF l2] by auto
  with RuleSetItem_Start_refs [OF l] assms(2) RuleSetItem l2 show ?thesis
    by (auto simp: started_item_def)
qed

lemma items_Start_refs:
  "items_Start tm R is refs = (Inr u, refs') \<Longrightarrow> list_all (\<lambda>i. item_refs i = []) is \<Longrightarrow>
   (\<forall>s. refs s \<le> refs' s) \<and>
   (\<forall>s \<in> set (concat (map item_refs (map (started_item tm R) is))). refs s < refs' s)"
proof (induction "is" arbitrary: refs)
  case (Cons i "is")
  then obtain j r1 where i: "item_Start tm R i refs = (Inr j, r1)" "items_Start tm R is r1 = (Inr u, refs')"
    by (auto split: prod.splits sum.splits)
  note a = item_Start_refs [OF i(1)] and b = Cons.IH [OF i(2)]
  have "refs s \<le> r1 s" "r1 s \<le> refs' s" for s using a b Cons.prems(2) by auto
  moreover have "refs s < refs' s" if "s \<in> set (item_refs (started_item tm R i))" for s
    using a that Cons.prems(2) calculation(2) [of s] by fastforce
  moreover have "refs s < refs' s" if "s \<in> set (concat (map item_refs (map (started_item tm R) is)))" for s
    using b that Cons.prems(2) calculation(1) [of s] by fastforce
  ultimately show ?case by (simp, blast intro: order_trans)
qed simp

lemma Rule_Start_refs:
  "Rule_Start tm R rule refs = (Inr started, refs') \<Longrightarrow> rule_refs rule = [] \<Longrightarrow>
   (\<forall>s. refs s \<le> refs' s) \<and> (\<forall>s \<in> set (rule_refs started). refs s < refs' s)"
proof (induction rule arbitrary: refs started refs')
  case (DefaultRule r a)
  then obtain u where u: "items_Start tm R (ar_allItems r) refs = (Inr u, refs')"
    "started = DefaultRule (map_items (started_item tm R) r) a"
    by (auto simp: abstractDefaultRule_Start_def split: prod.splits sum.splits)
  have "list_all (\<lambda>i. item_refs i = []) (ar_allItems r)"
    using DefaultRule.prems(2) by (auto simp: list_all_iff)
  from items_Start_refs [OF u(1) this] u(2) show ?case by (simp add: map_items_def)
next
  case (LogicalRule rules mode iv a)
  have "(\<forall>s. refs s \<le> refs' s) \<and> (\<forall>s \<in> set (concat (map rule_refs rs)). refs s < refs' s)"
    if "rules_Start (Rule_Start tm R) xs refs = (Inr rs, refs')" "set xs \<subseteq> set rules" for xs rs refs refs'
    using that
  proof (induction xs arbitrary: rs refs)
    case (Cons x xs)
    then obtain y r1 ys where x: "Rule_Start tm R x refs = (Inr y, r1)"
      "rules_Start (Rule_Start tm R) xs r1 = (Inr ys, refs')" "rs = y # ys"
      by (auto split: prod.splits sum.splits)
    have "rule_refs x = []" using LogicalRule.prems(2) Cons.prems(2) by auto
    note a = LogicalRule.IH [OF _ x(1) this] and b = Cons.IH [OF x(2)]
    have "refs s \<le> r1 s" "r1 s \<le> refs' s" for s using a b Cons.prems(2) by auto
    moreover have "refs s < refs' s" if "s \<in> set (rule_refs y)" for s
      using a that Cons.prems(2) calculation(2) [of s] by fastforce
    moreover have "refs s < refs' s" if "s \<in> set (concat (map rule_refs ys))" for s
      using b that Cons.prems(2) calculation(1) [of s] by fastforce
    ultimately show ?case unfolding x(3) by (simp, blast intro: order_trans)
  qed simp
  with LogicalRule.prems(1) show ?case by (fastforce split: prod.splits)
qed

text \<open>Remark (started_rule_keeps_sets): starting a route rule of any nesting counts a reference to every
  rule-set the started rule points to and takes none away, so the cleanup after start
  leaves those rule-sets their rules.\<close>

theorem started_rule_keeps_sets:
  assumes "Rule_Start tm R rule refs = (Inr started, refs')" and "rule_refs rule = []"
    and "\<forall>s. 0 \<le> refs s" and "s \<in> set (rule_refs started)"
  shows "0 < refs' s \<and> (\<forall>t. refs t \<le> refs' t) \<and>
    Cleanup (rs\<lparr>rst_refs := refs' s\<rparr>) = rs\<lparr>rst_refs := refs' s\<rparr>"
proof -
  have "0 \<le> refs s" "refs s < refs' s" "\<forall>t. refs t \<le> refs' t"
    using Rule_Start_refs [OF assms(1,2)] assms(3,4) by auto
  then show ?thesis by (simp add: Cleanup_def)
qed

definition sample_unstarted :: "unit route_rule" where
  "sample_unstarted = DefaultRule ((empty_rule False)\<lparr>
     ar_items := [RuleSetItem (NewRuleSetItem [''s''] False False)],
     ar_allItems := [RuleSetItem (NewRuleSetItem [''s''] False False)]\<rparr>) ()"

theorem started_rule_keeps_sets_witness:
  "\<exists>started refs'. Rule_Start (\<lambda>t. if t = ''s'' then Some 4 else None) sample_runtime sample_unstarted (\<lambda>_. 0) =
     (Inr started, refs') \<and> 0 < refs' 4"
proof -
  let ?tm = "\<lambda>t. if t = ''s'' then Some (4::nat) else None"
  obtain started refs' where s: "Rule_Start ?tm sample_runtime sample_unstarted (\<lambda>_. 0) = (Inr started, refs')"
      "rule_refs started = [4]" "rule_refs sample_unstarted = []"
    by (simp add: sample_unstarted_def empty_rule_def NewRuleSetItem_def abstractDefaultRule_Start_def
        map_items_def started_item_def)
  from started_rule_keeps_sets [OF s(1,3), of 4] s(1,2) show ?thesis by auto
qed

subsection \<open>Matching a rule-set\<close>

text \<open>A context that has at least the cached matches of another and looks the same.\<close>

definition cache_above :: "inbound_context \<Rightarrow> inbound_context \<Rightarrow> bool" where
  "cache_above d c \<longleftrightarrow> item_view d = item_view c \<and>
     mc_IgnoreDestinationIPCIDRMatch d = mc_IgnoreDestinationIPCIDRMatch c \<and>
     (mc_SourceAddressMatch c \<longrightarrow> mc_SourceAddressMatch d) \<and> (mc_SourcePortMatch c \<longrightarrow> mc_SourcePortMatch d) \<and>
     (mc_DestinationAddressMatch c \<longrightarrow> mc_DestinationAddressMatch d) \<and>
     (mc_DestinationPortMatch c \<longrightarrow> mc_DestinationPortMatch d)"

lemma leaf_holds_view: "item_view d = item_view c \<Longrightarrow> leaf.holds L R d = leaf.holds L R c"
  by (rule ext) (simp add: leaf.holds_def leaf.leaf_view [where c = d and d = c])

lemma leaf_after_above: "cache_above (leaf.after_groups L R r c) c"
proof -
  obtain sa sp da dp did ig where fl: "cache_flags c = (sa, sp, da, dp, did, ig)"
    by (cases "cache_flags c") auto
  have lv: "list_all (\<lambda>i. \<not> False) (rule_groups r)" by (simp add: list_all_iff)
  show ?thesis
    using leaf.after_groups_leaves [OF lv fl, of L R] fl by (auto simp: cache_above_def cache_flags_def)
qed

lemma leaf_match_monotone:
  assumes "\<not> ar_invert r" and "cache_above d c" and "fst (HeadlessRule_Match L R (DefaultHeadlessRule r) c)"
  shows "fst (HeadlessRule_Match L R (DefaultHeadlessRule r) d)"
proof (cases "ar_allItems r = []")
  case True
  then show ?thesis by (simp add: abstractDefaultRule_Match_def)
next
  case False
  have lv: "list_all (\<lambda>i. \<not> False) (rule_groups r)" "list_all (\<lambda>i. \<not> False) (ar_items r)"
    by (simp_all add: list_all_iff)
  obtain sa sp da dp did ig sa' sp' da' dp' did' ig' where
    fl: "cache_flags c = (sa, sp, da, dp, did, ig)" and fl': "cache_flags d = (sa', sp', da', dp', did', ig')"
    by (metis prod_cases6)
  have ab: "ig' = ig" "sa \<longrightarrow> sa'" "sp \<longrightarrow> sp'" "da \<longrightarrow> da'" "dp \<longrightarrow> dp'"
    using assms(2) fl fl' by (auto simp: cache_above_def cache_flags_def)
  have h: "leaf.holds L R d = leaf.holds L R c"
    using assms(2) by (intro leaf_holds_view) (simp add: cache_above_def)
  note g = leaf.after_groups_leaves [OF lv(1) fl, of L R] and g' = leaf.after_groups_leaves [OF lv(1) fl', of L R]
  note u = leaf.Match_unfold [OF False lv(2) g(2) g(1)] and u' = leaf.Match_unfold [OF False lv(2) g'(2) g'(1)]
  show ?thesis
    using assms(3) assms(1) ab unfolding HeadlessRule_Match.simps u u' h by (auto split: if_splits)
qed

lemma leaf_match_above:
  "cache_above (snd (HeadlessRule_Match L R (DefaultHeadlessRule r) c)) c"
proof (cases "ar_allItems r = []")
  case True
  then show ?thesis by (simp add: abstractDefaultRule_Match_def cache_above_def)
next
  case False
  let ?g = "leaf.after_groups L R r c"
  have lv: "list_all (\<lambda>i. \<not> False) (ar_items r)" by (simp add: list_all_iff)
  have all: "snd (all_items (\<lambda>_. False) (leaf_item_match L R) is x) = x \<or>
      snd (all_items (\<lambda>_. False) (leaf_item_match L R) is x) = x\<lparr>mc_DidMatch := True\<rparr>" for "is" x
  proof (induction "is" arbitrary: x)
    case (Cons i "is")
    show ?case using Cons [of "x\<lparr>mc_DidMatch := True\<rparr>"]
      by (cases "leaf_match L R i (x\<lparr>mc_DidMatch := True\<rparr>)") (auto simp: leaf_item_match_def Let_def)
  qed simp
  obtain b c6 where e: "all_items (\<lambda>_. False) (leaf_item_match L R) (ar_items r) ?g = (b, c6)" by force
  have "snd (HeadlessRule_Match L R (DefaultHeadlessRule r) c) = c6"
    using False e
    by (cases b) (simp_all add: abstractDefaultRule_Match_def Let_def leaf.after_groups_def)
  moreover have "c6 = ?g \<or> c6 = ?g\<lparr>mc_DidMatch := True\<rparr>" using all [of "ar_items r" ?g] e by simp
  ultimately show ?thesis using leaf_after_above [of L R r c] by (auto simp: cache_above_def)
qed

lemma RuleSet_Match_complete:
  assumes "list_all (\<lambda>h. \<exists>r. h = DefaultHeadlessRule r \<and> \<not> ar_invert r) hs" and "h \<in> set hs"
    and "fst (HeadlessRule_Match L R h c)" and "cache_above d c"
  shows "fst (RuleSet_Match L R hs d)"
  using assms
proof (induction hs arbitrary: d)
  case (Cons x hs)
  obtain r where r: "x = DefaultHeadlessRule r" "\<not> ar_invert r" using Cons.prems(1) by auto
  obtain b d' where e: "HeadlessRule_Match L R x d = (b, d')" by force
  show ?case
  proof (cases b)
    case True
    with e show ?thesis by simp
  next
    case False
    have "h \<noteq> x"
      using leaf_match_monotone [OF r(2) Cons.prems(4), of L R] Cons.prems(3) e False r(1) by auto
    moreover have "cache_above d' c"
      using leaf_match_above [of L R r d] Cons.prems(4) e r(1) by (auto simp: cache_above_def)
    ultimately have "fst (RuleSet_Match L R hs d')"
      using Cons.IH [of d'] Cons.prems by auto
    with e False show ?thesis by simp
  qed
qed simp

text \<open>Remark (rule_set_complete): a rule-set of default rules that are not inverted matches whenever one of
  its rules, taken alone on a clean cache, matches: the matches that earlier rules leave in
  the cache can only help.\<close>

theorem rule_set_complete:
  assumes "list_all (\<lambda>h. \<exists>r. h = DefaultHeadlessRule r \<and> \<not> ar_invert r) hs" and "h \<in> set hs"
    and "fst (HeadlessRule_Match L R h (ResetRuleCache c))"
  shows "fst (RuleSet_Match L R hs (ResetRuleCache c))"
  by (rule RuleSet_Match_complete [OF assms]) (simp add: cache_above_def)

definition sample_pair :: "string \<Rightarrow> u16 \<Rightarrow> headless_rule" where
  "sample_pair kw port = DefaultHeadlessRule ((empty_rule False)\<lparr>
     ar_destinationAddressItems := [DomainKeywordItem [kw]],
     ar_destinationPortItems := [PortItem (NewPortItem False [port])],
     ar_allItems := [DomainKeywordItem [kw], PortItem (NewPortItem False [port])]\<rparr>)"

lemmas sample_pair_eval = sample_pair_def empty_rule_def abstractDefaultRule_Match_def
  match_sourceAddress_def match_sourcePort_def match_destinationAddress_def
  match_destinationIPCIDR_def match_destinationPort_def leaf_item_match_def Let_def
  DomainKeywordItem_Match_def domain_host_def PortItem_Match_def NewPortItem_def sample_defs

lemma sample_keywords:
  "Contains (ToLower ''a.com'') ''a.com''" "\<not> Contains (ToLower ''a.com'') ''b.com''"
  by code_simp+

theorem rule_set_complete_witness:
  "fst (RuleSet_Match sample_lib sample_runtime [sample_pair ''b.com'' 443, sample_pair ''a.com'' 80]
     (ResetRuleCache (sample_context ''a.com'' 80)))"
proof (rule rule_set_complete)
  show "list_all (\<lambda>h. \<exists>r. h = DefaultHeadlessRule r \<and> \<not> ar_invert r)
      [sample_pair ''b.com'' 443, sample_pair ''a.com'' 80]"
    by (simp add: sample_pair_def empty_rule_def)
  show "fst (HeadlessRule_Match sample_lib sample_runtime (sample_pair ''a.com'' 80)
      (ResetRuleCache (sample_context ''a.com'' 80)))"
    using sample_keywords by (simp add: sample_pair_eval)
qed simp

text \<open>Remark (rule_set_mixes_rules): the converse fails: a rule-set of (a.com, port 80) and (b.com, port 443)
  matches a connection to a.com on port 443, which neither rule matches, because the first
  rule leaves its matched domain in the cache for the second.\<close>

theorem rule_set_mixes_rules:
  "let c = ResetRuleCache (sample_context ''a.com'' 443) in
   fst (RuleSet_Match sample_lib sample_runtime [sample_pair ''a.com'' 80, sample_pair ''b.com'' 443] c) \<and>
   \<not> fst (HeadlessRule_Match sample_lib sample_runtime (sample_pair ''a.com'' 80) c) \<and>
   \<not> fst (HeadlessRule_Match sample_lib sample_runtime (sample_pair ''b.com'' 443) c)"
  using sample_keywords by (simp add: sample_pair_eval)

text \<open>Remark (logical_set_rule_ignores_match_source): a rule-set item turned to the source address loses that
  setting inside a logical rule of the rule-set: with the client's address in the ranges, the
  plain rule matches and the same rule inside a logical one does not.\<close>

theorem logical_set_rule_ignores_match_source:
  "let c = new_context\<lparr>mc_Source := \<lparr>sa_Addr = IPv4 167772161, sa_Port = 1000, sa_Fqdn = ''''\<rparr>,
                       mc_Destination := \<lparr>sa_Addr = IPv4 1, sa_Port = 443, sa_Fqdn = ''''\<rparr>\<rparr> in
   fst (rule_item_match sample_lib sample_runtime sample_cidr_set (sample_set_item True) c) \<and>
   \<not> fst (rule_item_match sample_lib sample_runtime
        (\<lambda>s. [LogicalHeadlessRule (sample_cidr_set s) LogicalTypeOr False]) (sample_set_item True) c)"
  by (simp add: sample_set_item_def sample_cidr_set_def empty_rule_def abstractDefaultRule_Match_def
      match_sourceAddress_def match_sourcePort_def match_destinationAddress_def
      match_destinationIPCIDR_def match_destinationPort_def RuleSetItem_Match_def
      leaf_item_match_def IPCIDRItem_Match_def NewRawIPCIDRItem_def new_context_def Let_def
      abstractLogicalRule_Match_def LogicalTypeAnd_def LogicalTypeOr_def ResetRuleCache_def
      sample_lib_def Addr_IsValid_def)

end
