(* ===== verification/Route.thy ===== *)
theory Route
  imports Sniff Rule_Set_Props
begin

text \<open>
  The router of \<^verbatim>\<open>route/route.go\<close>: \<^verbatim>\<open>matchRule\<close> with the actions that change the
  metadata on the way (\<^verbatim>\<open>route-options\<close>, \<^verbatim>\<open>sniff\<close>, \<^verbatim>\<open>resolve\<close>), and the connection
  handlers that turn the selected rule into an outbound, a rejection, a DNS hijack or a
  detour.

  The services the router asks (process search, FakeIP store, reverse mapping, DNS lookup,
  outbound and inbound managers) are the fields of \<open>route_env\<close>. The reads of the connection
  are lists; a read past the end of the packet list finds the context done.
\<close>

section \<open>Environment and state\<close>

record route_env =
  re_lib :: lib
  re_runtime :: runtime
  re_heap :: rule_heap
  re_process :: "(inbound_context \<Rightarrow> process_info result) option"
  re_fakeip :: "((addr \<Rightarrow> bool) \<times> (addr \<Rightarrow> string option)) option"
  re_reverse :: "addr \<Rightarrow> string option"
  re_transport :: "string \<Rightarrow> bool"
  re_lookup :: "inbound_context \<Rightarrow> string \<Rightarrow> resolve_action \<Rightarrow> addr list result"
  re_errorText :: "error \<Rightarrow> string"
  re_ctxErr :: "error option"
  re_stream :: "stream_sniffer sniffers"
  re_packet :: "packet_sniffer sniffers"

datatype input = NoConn | StreamConn | PacketConn

datatype packet_read = Packet bytes socksaddr | ReadTimeout error | PacketFailed error | ContextDone error

record match_state =
  ms_metadata :: inbound_context
  ms_buffers :: "bytes list"
  ms_packetBuffers :: "(bytes \<times> socksaddr) list"
  ms_streamReads :: "stream_read list"
  ms_packetReads :: "packet_read list"

section \<open>Resolve\<close>

definition actionResolve :: "route_env \<Rightarrow> inbound_context \<Rightarrow> resolve_action \<Rightarrow> error option \<times> inbound_context" where
  "actionResolve E c action =
     (if lib_IsFqdn (re_lib E) (mc_Destination c) then
        (if rs_Server action \<noteq> '''' \<and> \<not> re_transport E (rs_Server action)
         then (Some (ENew (''DNS server not found: '' @ rs_Server action)), c)
         else (case re_lookup E c (sa_Fqdn (mc_Destination c)) action of
                 Inl e \<Rightarrow> (Some e, c)
               | Inr addresses \<Rightarrow>
                   (None, c\<lparr>mc_DestinationAddresses := addresses, mc_ResolveRouteOnly := rs_RouteOnly action\<rparr>)))
      else (None, c))"

section \<open>Sniff\<close>

definition override_destination :: "lib \<Rightarrow> sniff_action \<Rightarrow> inbound_context \<Rightarrow> inbound_context" where
  "override_destination L action c =
     (if sn_OverrideDestination action \<and> lib_IsDomainName L (mc_Domain c)
      then c\<lparr>mc_Destination := \<lparr>sa_Addr = NoAddr, sa_Port = sa_Port (mc_Destination c), sa_Fqdn = mc_Domain c\<rparr>\<rparr>
      else c)"

definition default_stream_sniffers :: "stream_sniffer list" where
  "default_stream_sniffers = [TLSClientHello, HTTPHost, StreamDomainNameQuery, BitTorrent, SSH, RDP]"

definition default_packet_sniffers :: "packet_sniffer list" where
  "default_packet_sniffers =
     [DomainNameQuery, QUICClientHello, STUNMessage, UTP, UDPTracker, DTLSRecord, NTP]"

definition sniff_repeated :: "inbound_context \<Rightarrow> sniff_action \<Rightarrow> bool" where
  "sniff_repeated c action \<longleftrightarrow> mc_SnifferNames c = sn_SnifferNames action \<and>
     (case mc_SniffError c of None \<Rightarrow> False | Some e \<Rightarrow> \<not> is_NeedMoreData e)"

definition quicMoreData :: "inbound_context \<Rightarrow> sniff_action \<Rightarrow> bool" where
  "quicMoreData c action \<longleftrightarrow> mc_SnifferNames c = sn_SnifferNames action \<and>
     (case mc_SniffError c of None \<Rightarrow> False | Some e \<Rightarrow> is_NeedMoreData e)"

definition needs_more :: "error option \<Rightarrow> bool" where
  "needs_more err = (case err of None \<Rightarrow> False | Some e \<Rightarrow> is_NeedMoreData e)"

text \<open>One packet through the sniffers, with what it leaves in the metadata.\<close>

definition sniff_packet ::
  "route_env \<Rightarrow> sniff_action \<Rightarrow> packet_sniffer list \<Rightarrow> bytes \<Rightarrow> inbound_context \<Rightarrow> error option \<times> inbound_context" where
  "sniff_packet E action ss packet c =
     (case PeekPacket (re_packet E) c packet (if quicMoreData c action then [QUICClientHello] else ss) of
        (c', err) \<Rightarrow> (err, c'\<lparr>mc_SnifferNames := sn_SnifferNames action, mc_SniffError := err\<rparr>))"

text \<open>The loop over the packets an earlier sniff has read: it ends at the first packet that
  does not ask for more data, or runs out (second component).\<close>

fun sniff_cached ::
  "route_env \<Rightarrow> sniff_action \<Rightarrow> packet_sniffer list \<Rightarrow> (bytes \<times> socksaddr) list \<Rightarrow> error option \<Rightarrow> inbound_context \<Rightarrow>
   error option \<times> bool \<times> inbound_context" where
  "sniff_cached E action ss [] err c = (err, False, c)"
| "sniff_cached E action ss ((p, d) # ps) err c =
     (case sniff_packet E action ss p c of
        (err', c') \<Rightarrow> if needs_more err' then sniff_cached E action ss ps err' c' else (err', True, c'))"

text \<open>The reading loop. Its result is a fatal error, the sniff error, the packet buffers, the
  metadata and the reads left.\<close>

fun sniff_read ::
  "route_env \<Rightarrow> sniff_action \<Rightarrow> packet_sniffer list \<Rightarrow> packet_read list \<Rightarrow> (bytes \<times> socksaddr) list \<Rightarrow> inbound_context \<Rightarrow>
   error option \<times> error option \<times> (bytes \<times> socksaddr) list \<times> inbound_context \<times> packet_read list" where
  "sniff_read E action ss [] bufs c = (Some (ENew ''context canceled''), None, bufs, c, [])"
| "sniff_read E action ss (ContextDone e # rs) bufs c = (Some e, None, bufs, c, rs)"
| "sniff_read E action ss (PacketFailed e # rs) bufs c = (Some e, None, bufs, c, rs)"
| "sniff_read E action ss (ReadTimeout e # rs) bufs c = (None, Some e, bufs, c, rs)"
| "sniff_read E action ss (Packet p d # rs) bufs c =
     (case sniff_packet E action ss p c of
        (err, c') \<Rightarrow>
          if needs_more err then sniff_read E action ss rs (bufs @ [(p, d)]) c'
          else (None, err, bufs @ [(p, d)], c', rs))"

text \<open>
  \<^verbatim>\<open>actionSniff\<close> returns a new stream buffer, packet buffers and a fatal error; it changes
  the metadata and consumes reads.
\<close>

definition actionSniff ::
  "route_env \<Rightarrow> input \<Rightarrow> sniff_action \<Rightarrow> bytes list \<Rightarrow> (bytes \<times> socksaddr) list \<Rightarrow> match_state \<Rightarrow>
   bytes option \<times> (bytes \<times> socksaddr) list \<times> error option \<times> match_state" where
  "actionSniff E inp action inputBuffers inputPacketBuffers s =
     (let c = ms_metadata s in
      if Skip c then (None, [], None, s)
      else if mc_Protocol c \<noteq> '''' then (None, [], None, s)
      else (case inp of
        NoConn \<Rightarrow> (None, [], None, s)
      | StreamConn \<Rightarrow>
          (if length (sn_StreamSniffers action) = 0 \<and> length (sn_PacketSniffers action) > 0 then (None, [], None, s)
           else if sniff_repeated c action then (None, [], None, s)
           else
             (case PeekStream (re_stream E) c (ms_streamReads s) inputBuffers
                    (if length (sn_StreamSniffers action) > 0 then sn_StreamSniffers action
                     else default_stream_sniffers) of
                (c1, err, buffer, reads) \<Rightarrow>
                  (let c2 = c1\<lparr>mc_SnifferNames := sn_SnifferNames action, mc_SniffError := err\<rparr>;
                       c3 = (if err = None then override_destination (re_lib E) action c2 else c2)
                   in (if buffer \<noteq> [] then Some buffer else None, [], None,
                       s\<lparr>ms_metadata := c3, ms_streamReads := reads\<rparr>))))
      | PacketConn \<Rightarrow>
          (if length (sn_PacketSniffers action) = 0 \<and> length (sn_StreamSniffers action) > 0 then (None, [], None, s)
           else if sniff_repeated c action then (None, [], None, s)
           else
             (let ss = (if length (sn_PacketSniffers action) > 0 then sn_PacketSniffers action
                        else default_packet_sniffers) in
              case sniff_cached E action ss inputPacketBuffers None c of
                (err, True, c1) \<Rightarrow>
                  (None, [], None, s\<lparr>ms_metadata :=
                     (if err = None then override_destination (re_lib E) action c1 else c1)\<rparr>)
              | (err, False, c1) \<Rightarrow>
                  (case sniff_read E action ss (ms_packetReads s) inputPacketBuffers c1 of
                     (Some fatal, _, bufs, c2, reads) \<Rightarrow>
                       (None, bufs, Some fatal, s\<lparr>ms_metadata := c2, ms_packetReads := reads\<rparr>)
                   | (None, err', bufs, c2, reads) \<Rightarrow>
                       (None, bufs, None, s\<lparr>ms_metadata :=
                          (if err' = None then override_destination (re_lib E) action c2 else c2),
                          ms_packetReads := reads\<rparr>))))))"

section \<open>Matching\<close>

text \<open>The metadata a connection is matched with: process information, FakeIP and reverse
  mapping, and the IP version.\<close>

definition find_process :: "route_env \<Rightarrow> inbound_context \<Rightarrow> inbound_context" where
  "find_process E c =
     (case re_process E of
        None \<Rightarrow> c
      | Some search \<Rightarrow>
          if mc_ProcessInfo c \<noteq> None then c
          else (case search c of Inl _ \<Rightarrow> c | Inr info \<Rightarrow> c\<lparr>mc_ProcessInfo := Some info\<rparr>))"

definition map_reverse :: "route_env \<Rightarrow> inbound_context \<Rightarrow> inbound_context" where
  "map_reverse E c =
     (if mc_Domain c = '''' then
        (case re_reverse E (sa_Addr (mc_Destination c)) of
           None \<Rightarrow> c | Some domain \<Rightarrow> c\<lparr>mc_Domain := domain\<rparr>)
      else c)"

definition map_fakeip :: "route_env \<Rightarrow> inbound_context \<Rightarrow> error option \<times> inbound_context" where
  "map_fakeip E c =
     (case re_fakeip E of
        None \<Rightarrow> (None, map_reverse E c)
      | Some (contains, lookup) \<Rightarrow>
          if Addr_IsValid (sa_Addr (mc_Destination c)) \<and> contains (sa_Addr (mc_Destination c)) then
            (case lookup (sa_Addr (mc_Destination c)) of
               None \<Rightarrow> (Some (ENew ''missing fakeip record, try enable `experimental.cache_file`''), c)
             | Some domain \<Rightarrow>
                 (None, if domain \<noteq> ''''
                        then c\<lparr>mc_OriginDestination := mc_Destination c,
                               mc_Destination := \<lparr>sa_Addr = NoAddr, sa_Port = sa_Port (mc_Destination c), sa_Fqdn = domain\<rparr>,
                               mc_FakeIP := True\<rparr>
                        else c))
          else (None, map_reverse E c))"

definition set_ip_version :: "lib \<Rightarrow> inbound_context \<Rightarrow> inbound_context" where
  "set_ip_version L c =
     (if lib_IsIPv4 L (mc_Destination c) then c\<lparr>mc_IPVersion := 4\<rparr>
      else if lib_IsIPv6 L (mc_Destination c) then c\<lparr>mc_IPVersion := 6\<rparr> else c)"

text \<open>The options an inbound gives directly (sniffing, domain strategy), applied once.\<close>

definition inbound_options_step ::
  "route_env \<Rightarrow> bool \<Rightarrow> input \<Rightarrow> match_state \<Rightarrow> error option \<times> match_state" where
  "inbound_options_step E preMatch inp s =
     (let o1 = mc_InboundOptions (ms_metadata s) in
      if o1 = default_inbound_options then (None, s)
      else
        (case (if \<not> preMatch \<and> io_SniffEnabled o1 then
                 (case actionSniff E inp
                        \<lparr>sn_SnifferNames = [], sn_StreamSniffers = [], sn_PacketSniffers = [],
                         sn_Timeout = io_SniffTimeout o1,
                         sn_OverrideDestination = io_SniffOverrideDestination o1\<rparr> [] [] s of
                    (newBuffer, newPackets, err, s1) \<Rightarrow>
                      (err, case newBuffer of
                              Some b \<Rightarrow> s1\<lparr>ms_buffers := [b]\<rparr>
                            | None \<Rightarrow> if length newPackets > 0 then s1\<lparr>ms_packetBuffers := newPackets\<rparr> else s1))
               else (None, s)) of
           (Some e, s1) \<Rightarrow> (Some e, s1)
         | (None, s1) \<Rightarrow>
             (case (if io_DomainStrategy o1 \<noteq> 0
                    then actionResolve E (ms_metadata s1)
                           \<lparr>rs_Server = '''', rs_Strategy = io_DomainStrategy o1, rs_DisableCache = False,
                            rs_RewriteTTL = None, rs_ClientSubnet = NoPrefix, rs_RouteOnly = False,
                            rs_FallbackToFinal = False\<rparr>
                    else (None, ms_metadata s1)) of
                (Some e, c2) \<Rightarrow> (Some e, s1\<lparr>ms_metadata := c2\<rparr>)
              | (None, c2) \<Rightarrow>
                  (None, s1\<lparr>ms_metadata :=
                     (if io_UDPDisableDomainUnmapping o1 then c2\<lparr>mc_UDPDisableDomainUnmapping := True\<rparr> else c2)
                       \<lparr>mc_InboundOptions := default_inbound_options\<rparr>\<rparr>))))"

text \<open>What the options of a \<^verbatim>\<open>route\<close> or \<^verbatim>\<open>route-options\<close> action write into the metadata.\<close>

definition apply_override :: "lib \<Rightarrow> route_options \<Rightarrow> inbound_context \<Rightarrow> inbound_context" where
  "apply_override L ro c =
     (let c1 = (if (lib_IsValid L (ro_OverrideAddress ro) \<or> ro_OverridePort ro > 0) \<and>
                   \<not> lib_IsValid L (mc_RouteOriginalDestination c)
                then c\<lparr>mc_RouteOriginalDestination := mc_Destination c\<rparr> else c);
          c2 = (if lib_IsValid L (ro_OverrideAddress ro)
                then c1\<lparr>mc_Destination := \<lparr>sa_Addr = sa_Addr (ro_OverrideAddress ro),
                                           sa_Port = sa_Port (mc_Destination c1),
                                           sa_Fqdn = sa_Fqdn (ro_OverrideAddress ro)\<rparr>,
                        mc_DestinationAddresses := []\<rparr> else c1)
      in if ro_OverridePort ro > 0
         then c2\<lparr>mc_Destination := (mc_Destination c2)\<lparr>sa_Port := ro_OverridePort ro\<rparr>\<rparr> else c2)"

text \<open>\<^verbatim>\<open>if b { f }\<close> on the metadata.\<close>

definition do_if :: "bool \<Rightarrow> (inbound_context \<Rightarrow> inbound_context) \<Rightarrow> inbound_context \<Rightarrow> inbound_context" where
  "do_if b f c = (if b then f c else c)"

definition list_or_nil :: "'a list option \<Rightarrow> 'a list" where
  "list_or_nil l = (case l of None \<Rightarrow> [] | Some xs \<Rightarrow> xs)"

definition apply_route_options :: "lib \<Rightarrow> route_options \<Rightarrow> inbound_context \<Rightarrow> inbound_context" where
  "apply_route_options L ro c = fold (\<lambda>f. f)
     [do_if (ro_NetworkStrategy ro \<noteq> None) (\<lambda>c. c\<lparr>mc_NetworkStrategy := ro_NetworkStrategy ro\<rparr>),
      do_if (length (list_or_nil (ro_NetworkType ro)) > 0) (\<lambda>c. c\<lparr>mc_NetworkType := list_or_nil (ro_NetworkType ro)\<rparr>),
      do_if (length (list_or_nil (ro_FallbackNetworkType ro)) > 0)
        (\<lambda>c. c\<lparr>mc_FallbackNetworkType := list_or_nil (ro_FallbackNetworkType ro)\<rparr>),
      do_if (ro_FallbackDelay ro \<noteq> 0) (\<lambda>c. c\<lparr>mc_FallbackDelay := ro_FallbackDelay ro\<rparr>),
      do_if (ro_UDPDisableDomainUnmapping ro) (\<lambda>c. c\<lparr>mc_UDPDisableDomainUnmapping := True\<rparr>),
      do_if (ro_UDPConnect ro) (\<lambda>c. c\<lparr>mc_UDPConnect := True\<rparr>),
      do_if (ro_UDPTimeout ro > 0) (\<lambda>c. c\<lparr>mc_UDPTimeout := ro_UDPTimeout ro\<rparr>),
      do_if (ro_TLSFragment ro)
        (\<lambda>c. c\<lparr>mc_TLSFragment := True, mc_TLSFragmentFallbackDelay := ro_TLSFragmentFallbackDelay ro\<rparr>),
      do_if (ro_TLSRecordFragment ro) (\<lambda>c. c\<lparr>mc_TLSRecordFragment := True\<rparr>)] (apply_override L ro c)"

datatype match_result = NoRule | Selected nat "rule_act route_rule" | Fatal error

definition is_final :: "bool \<Rightarrow> rule_action \<Rightarrow> bool" where
  "is_final preMatch a \<longleftrightarrow> RuleAction_Type a = RuleActionTypeRoute \<or> RuleAction_Type a = RuleActionTypeReject \<or>
     RuleAction_Type a = RuleActionTypeHijackDNS \<or> (RuleAction_Type a = RuleActionTypeSniff \<and> preMatch)"

definition route_options_of :: "rule_action \<Rightarrow> route_options option" where
  "route_options_of a =
     (case a of RuleActionRoute ob ro \<Rightarrow> Some ro | RuleActionRouteOptions ro \<Rightarrow> Some ro | _ \<Rightarrow> None)"

text \<open>What a matched rule does before the loop decides whether to go on: \<open>Inl\<close> ends the
  matching, \<open>Inr\<close> goes on with the new state.\<close>

definition run_action ::
  "route_env \<Rightarrow> bool \<Rightarrow> input \<Rightarrow> rule_action \<Rightarrow> match_state \<Rightarrow> (match_result \<times> match_state) + match_state" where
  "run_action E preMatch inp a s0 =
     (let s = (case route_options_of a of
                 None \<Rightarrow> s0
               | Some ro \<Rightarrow> s0\<lparr>ms_metadata := apply_route_options (re_lib E) ro (ms_metadata s0)\<rparr>) in
      case a of
        RuleActionSniff action \<Rightarrow>
          (if preMatch then Inr s
           else (case actionSniff E inp action (ms_buffers s) (ms_packetBuffers s) s of
                   (newBuffer, newPackets, err, s1) \<Rightarrow>
                     (let s2 = (case newBuffer of
                                  Some b \<Rightarrow> s1\<lparr>ms_buffers := ms_buffers s1 @ [b]\<rparr>
                                | None \<Rightarrow> if length newPackets > 0
                                          then s1\<lparr>ms_packetBuffers := ms_packetBuffers s1 @ newPackets\<rparr> else s1)
                      in case err of Some e \<Rightarrow> Inl (Fatal e, s2) | None \<Rightarrow> Inr s2)))
      | RuleActionResolve action \<Rightarrow>
          (case actionResolve E (ms_metadata s) action of
             (None, c) \<Rightarrow> Inr (s\<lparr>ms_metadata := c\<rparr>)
           | (Some err, c) \<Rightarrow>
               if rs_FallbackToFinal action \<and> re_ctxErr E = None \<and>
                  \<not> Contains (re_errorText E err) ''DNS server not found:''
               then Inl (NoRule, s\<lparr>ms_metadata := c\<lparr>mc_DestinationAddresses := [], mc_ResolveRouteOnly := False\<rparr>\<rparr>)
               else Inl (Fatal err, s\<lparr>ms_metadata := c\<rparr>))
      | _ \<Rightarrow> Inr s)"

fun match_loop ::
  "route_env \<Rightarrow> bool \<Rightarrow> input \<Rightarrow> nat \<Rightarrow> rule_act route_rule list \<Rightarrow> match_state \<Rightarrow> match_result \<times> match_state" where
  "match_loop E preMatch inp i [] s = (NoRule, s)"
| "match_loop E preMatch inp i (rule # rules) s =
     (case Rule_Match (re_lib E) (re_runtime E) (re_heap E) rule (ResetRuleCache (ms_metadata s)) of
        (False, c) \<Rightarrow> match_loop E preMatch inp (Suc i) rules (s\<lparr>ms_metadata := c\<rparr>)
      | (True, c) \<Rightarrow>
          (case rr_action rule of
             None \<Rightarrow> (Fatal (EPanic ''nil pointer dereference''), s\<lparr>ms_metadata := c\<rparr>)
           | Some a \<Rightarrow>
               (case run_action E preMatch inp a (s\<lparr>ms_metadata := c\<rparr>) of
                  Inl r \<Rightarrow> r
                | Inr s1 \<Rightarrow>
                    if is_final preMatch a then (Selected i rule, s1)
                    else match_loop E preMatch inp (Suc i) rules s1)))"

definition matchRule ::
  "route_env \<Rightarrow> rule_act route_rule list \<Rightarrow> bool \<Rightarrow> input \<Rightarrow> match_state \<Rightarrow> match_result \<times> match_state" where
  "matchRule E rules preMatch inp s =
     (let c1 = find_process E (ms_metadata s) in
      case map_fakeip E c1 of
        (Some e, c2) \<Rightarrow> (Fatal e, s\<lparr>ms_metadata := c2\<rparr>)
      | (None, c2) \<Rightarrow>
          (case inbound_options_step E preMatch inp (s\<lparr>ms_metadata := set_ip_version (re_lib E) c2\<rparr>) of
             (Some e, s1) \<Rightarrow> (Fatal e, s1)
           | (None, s1) \<Rightarrow> match_loop E preMatch inp 0 rules s1))"

text \<open>
  A reject action counts its uses, so the handlers return the rules with the counter of the
  selected one updated.
\<close>

fun set_action :: "'a \<Rightarrow> 'a route_rule \<Rightarrow> 'a route_rule" where
  "set_action a (DefaultRule r _) = DefaultRule r a"
| "set_action a (LogicalRule rules mode iv _) = LogicalRule rules mode iv a"

definition reject_with ::
  "int \<Rightarrow> nat \<Rightarrow> rule_act route_rule \<Rightarrow> reject_action \<Rightarrow> rule_act route_rule list \<Rightarrow>
   reject_cause result \<times> rule_act route_rule list" where
  "reject_with now i rule r rules =
     (case Reject_Error now r of
        (e, r') \<Rightarrow> (e, rules[i := set_action (Some (RuleActionReject r')) rule]))"

definition new_match_state :: "inbound_context \<Rightarrow> stream_read list \<Rightarrow> packet_read list \<Rightarrow> match_state" where
  "new_match_state c streamReads packetReads =
     \<lparr>ms_metadata = c, ms_buffers = [], ms_packetBuffers = [], ms_streamReads = streamReads,
      ms_packetReads = packetReads\<rparr>"

definition PreMatch ::
  "route_env \<Rightarrow> int \<Rightarrow> inbound_context \<Rightarrow> rule_act route_rule list \<Rightarrow>
   reject_cause result option \<times> rule_act route_rule list" where
  "PreMatch E now c rules =
     (case matchRule E rules True NoConn (new_match_state c [] []) of
        (Fatal e, _) \<Rightarrow> (Some (Inl e), rules)
      | (NoRule, _) \<Rightarrow> (None, rules)
      | (Selected i rule, _) \<Rightarrow>
          (case rr_action rule of
             Some (RuleActionReject r) \<Rightarrow> map_prod Some id (reject_with now i rule r rules)
           | _ \<Rightarrow> (None, rules)))"

section \<open>Connections\<close>

record outbound_info =
  oi_Tag :: string
  oi_Network :: "string list"

text \<open>The managers: outbounds by tag and the default one, inbounds that accept injected TCP and
  UDP, and the error for the destinations reserved by multiplexing protocols.\<close>

record managers =
  mg_outbound :: "string \<Rightarrow> outbound_info option"
  mg_default :: outbound_info
  mg_inbound :: "string \<Rightarrow> (bool \<times> bool) option"
  mg_reserved :: "string \<Rightarrow> error option"

datatype route_outcome =
    Injected string inbound_context
  | HijackDNS inbound_context "bytes list" "(bytes \<times> socksaddr) list"
  | Routed outbound_info inbound_context "rule_act route_rule option" "bytes list" "(bytes \<times> socksaddr) list"
  | RejectedBy reject_cause
  | Failed error

definition NetworkTCP :: string where "NetworkTCP = ''tcp''"
definition NetworkUDP :: string where "NetworkUDP = ''udp''"

text \<open>The detour of a legacy inbound; \<open>injectable\<close> reads the capability asked for.\<close>

definition inject_detour ::
  "managers \<Rightarrow> (bool \<times> bool \<Rightarrow> bool) \<Rightarrow> string \<Rightarrow> inbound_context \<Rightarrow> route_outcome" where
  "inject_detour M injectable proto c =
     (if mc_LastInbound c = mc_InboundDetour c
      then Failed (ENew (''routing loop on detour: '' @ mc_InboundDetour c))
      else (case mg_inbound M (mc_InboundDetour c) of
              None \<Rightarrow> Failed (ENew (''inbound detour not found: '' @ mc_InboundDetour c))
            | Some caps \<Rightarrow>
                if \<not> injectable caps
                then Failed (ENew (''inbound detour is not '' @ proto @ '' injectable: '' @ mc_InboundDetour c))
                else Injected (mc_InboundDetour c)
                       (c\<lparr>mc_LastInbound := mc_Inbound c, mc_Inbound := mc_InboundDetour c, mc_InboundDetour := []\<rparr>)))"

definition check_outbound :: "string \<Rightarrow> string \<Rightarrow> outbound_info \<Rightarrow> outbound_info result" where
  "check_outbound network msg ob =
     (if network \<in> set (oi_Network ob) then Inr ob else Inl (ENew (msg @ oi_Tag ob)))"

definition find_outbound :: "managers \<Rightarrow> string \<Rightarrow> string \<Rightarrow> string \<Rightarrow> outbound_info result" where
  "find_outbound M network msg tag =
     (case mg_outbound M tag of
        None \<Rightarrow> Inl (ENew (''outbound not found: '' @ tag))
      | Some ob \<Rightarrow> check_outbound network msg ob)"

text \<open>The part the two handlers share: from the result of \<^verbatim>\<open>matchRule\<close> to the outcome. A
  selected rule of any other action leaves the outbound nil.\<close>

definition conclude ::
  "managers \<Rightarrow> string \<Rightarrow> string \<Rightarrow> string \<Rightarrow> int \<Rightarrow> rule_act route_rule list \<Rightarrow> match_result \<times> match_state \<Rightarrow>
   route_outcome \<times> rule_act route_rule list" where
  "conclude M network msg defaultMsg now rules rs =
     (case rs of
        (Fatal e, s) \<Rightarrow> (Failed e, rules)
      | (NoRule, s) \<Rightarrow>
          ((case check_outbound network defaultMsg (mg_default M) of
              Inl e \<Rightarrow> Failed e
            | Inr ob \<Rightarrow> Routed ob (ms_metadata s) None (ms_buffers s) (ms_packetBuffers s)), rules)
      | (Selected i rule, s) \<Rightarrow>
          (case rr_action rule of
             Some (RuleActionRoute tag ro) \<Rightarrow>
               ((case find_outbound M network msg tag of
                   Inl e \<Rightarrow> Failed e
                 | Inr ob \<Rightarrow> Routed ob (ms_metadata s) (Some rule) (ms_buffers s) (ms_packetBuffers s)), rules)
           | Some (RuleActionReject r) \<Rightarrow>
               (case reject_with now i rule r rules of
                  (Inl e, rules') \<Rightarrow> (Failed e, rules') | (Inr cz, rules') \<Rightarrow> (RejectedBy cz, rules'))
           | Some RuleActionHijackDNS \<Rightarrow> (HijackDNS (ms_metadata s) (ms_buffers s) (ms_packetBuffers s), rules)
           | _ \<Rightarrow> (Failed (EPanic ''nil pointer dereference''), rules)))"

definition routeConnection ::
  "route_env \<Rightarrow> managers \<Rightarrow> int \<Rightarrow> stream_read list \<Rightarrow> inbound_context \<Rightarrow> rule_act route_rule list \<Rightarrow>
   route_outcome \<times> rule_act route_rule list" where
  "routeConnection E M now reads c rules =
     (if mc_InboundDetour c \<noteq> [] then (inject_detour M fst ''TCP'' c, rules)
      else (case mg_reserved M (sa_Fqdn (mc_Destination c)) of
              Some e \<Rightarrow> (Failed e, rules)
            | None \<Rightarrow>
                conclude M NetworkTCP ''TCP is not supported by outbound: ''
                  ''TCP is not supported by default outbound: '' now rules
                  (matchRule E rules False StreamConn
                     (new_match_state (c\<lparr>mc_Network := NetworkTCP\<rparr>) reads []))))"

definition routePacketConnection ::
  "route_env \<Rightarrow> managers \<Rightarrow> int \<Rightarrow> packet_read list \<Rightarrow> inbound_context \<Rightarrow> rule_act route_rule list \<Rightarrow>
   route_outcome \<times> rule_act route_rule list" where
  "routePacketConnection E M now reads c rules =
     (if mc_InboundDetour c \<noteq> [] then (inject_detour M snd ''UDP'' c, rules)
      else conclude M NetworkUDP ''UDP is not supported by outbound: ''
             ''UDP is not supported by outbound: '' now rules
             (matchRule E rules False PacketConn
                (new_match_state (c\<lparr>mc_Network := NetworkUDP\<rparr>) [] reads)))"

end
