(* ===== verification/Route_Props.thy ===== *)
theory Route_Props
  imports Route
begin

text \<open>
  Properties of the router: the first matching rule with a final action is selected, the
  decision of a pre-match stands when the connection is routed, an outbound is used only
  for a network it supports, and what the sniffed bytes go through on the way to the
  outbound.
\<close>

section \<open>Lemmas\<close>

abbreviation rule_hits :: "route_env \<Rightarrow> inbound_context \<Rightarrow> rule_act route_rule \<Rightarrow> bool" where
  "rule_hits E c r \<equiv> fst (Rule_Match (re_lib E) (re_runtime E) (re_heap E) r (ResetRuleCache c))"

lemma miss_keeps_facts:
  assumes "Rule_Match L R H r (ResetRuleCache c) = (b, c')"
  shows "ResetRuleCache c' = ResetRuleCache c"
  using Rule_Match_frame [of L R H r "ResetRuleCache c"] assms by (simp add: same_facts_def)

text \<open>Actions that neither change the metadata for later rules nor end the matching by an
  error: the final ones and \<^verbatim>\<open>direct\<close>.\<close>

definition plain_action :: "rule_act route_rule \<Rightarrow> bool" where
  "plain_action r \<longleftrightarrow> (\<exists>a. rr_action r = Some a \<and> (is_final False a \<or> (\<exists>d t. a = RuleActionDirect d t)))"

lemma is_final_simps [simp]:
  "is_final pm (RuleActionRoute t ro)" "is_final pm (RuleActionReject r)" "is_final pm RuleActionHijackDNS"
  "is_final pm (RuleActionDNSRoute d)" "\<not> is_final pm (RuleActionRouteOptions ro)"
  "\<not> is_final pm (RuleActionDirect dl t)" "\<not> is_final pm (RuleActionResolve rs)"
  "\<not> is_final pm (RuleActionDNSRouteOptions x)" "\<not> is_final pm (RuleActionPredefined p)"
  "is_final pm (RuleActionSniff sn) = pm"
  by (simp_all add: is_final_def action_type_defs)

lemma is_final_cases:
  assumes "is_final False a"
  obtains t ro where "a = RuleActionRoute t ro" | r where "a = RuleActionReject r" | "a = RuleActionHijackDNS"
    | d where "a = RuleActionDNSRoute d"
  using assms by (cases a) simp_all

lemma run_action_final:
  assumes "is_final False a"
  shows "\<exists>s'. run_action E False inp a s = Inr s'"
  by (rule is_final_cases [OF assms]) (simp_all add: run_action_def Let_def)

lemma match_loop_first:
  fixes E :: route_env
  assumes "list_all plain_action rules" and "ResetRuleCache c0 = ResetRuleCache (ms_metadata s)"
  defines "hit \<equiv> \<lambda>r. rule_hits E c0 r \<and> is_final False (the (rr_action r))"
  shows "fst (match_loop E False inp i rules s) =
    (let k = length (takeWhile (\<lambda>r. \<not> hit r) rules) in
     if k < length rules then Selected (i + k) (rules ! k) else NoRule)"
  using assms(1,2)
proof (induction rules arbitrary: i s)
  case (Cons r rules)
  from Cons.prems(1) obtain a where a: "rr_action r = Some a"
    "is_final False a \<or> (\<exists>d t. a = RuleActionDirect d t)" by (auto simp: plain_action_def)
  obtain b c' where m: "Rule_Match (re_lib E) (re_runtime E) (re_heap E) r
      (ResetRuleCache (ms_metadata s)) = (b, c')" by force
  have hr: "rule_hits E c0 r = b" using m Cons.prems(2) by simp
  have next_s: "fst (match_loop E False inp (Suc i) rules (s\<lparr>ms_metadata := c'\<rparr>)) =
      (let k = length (takeWhile (\<lambda>r. \<not> hit r) rules) in
       if k < length rules then Selected (Suc i + k) (rules ! k) else NoRule)"
    using Cons.IH [of "s\<lparr>ms_metadata := c'\<rparr>" "Suc i"] Cons.prems miss_keeps_facts [OF m] by simp
  show ?case
  proof (cases "b \<and> is_final False a")
    case True
    then obtain s' where "run_action E False inp a (s\<lparr>ms_metadata := c'\<rparr>) = Inr s'"
      using run_action_final by blast
    with True m a(1) hr show ?thesis by (simp add: hit_def)
  next
    case False
    then have nh: "\<not> hit r" using hr a(1) by (auto simp: hit_def)
    have "match_loop E False inp i (r # rules) s = match_loop E False inp (Suc i) rules (s\<lparr>ms_metadata := c'\<rparr>)"
    proof (cases b)
      case True
      then obtain d t where "a = RuleActionDirect d t" using False a(2) by blast
      with m True a(1) show ?thesis
        by (simp add: run_action_def Let_def route_options_of_def)
    qed (use m in simp)
    with next_s nh show ?thesis by (simp add: Let_def)
  qed
qed simp

text \<open>A rule that is selected stands in the list and has a final action.\<close>

lemma match_loop_selected:
  "match_loop E pm inp i rules s = (Selected k r, s') \<Longrightarrow>
   i \<le> k \<and> k < i + length rules \<and> rules ! (k - i) = r \<and> (\<exists>a. rr_action r = Some a \<and> is_final pm a)"
proof (induction rules arbitrary: i s)
  case (Cons x rules)
  have step: "?case" if "match_loop E pm inp (Suc i) rules s1 = (Selected k r, s')" for s1
    using Cons.IH [OF that] by (auto simp: nth_Cons' Suc_diff_Suc)
  have act: "run_action E pm inp a s0 \<noteq> Inl (Selected k r, t)" for a s0 t
    by (auto simp: run_action_def Let_def split: rule_action.splits if_splits prod.splits option.splits)
  show ?case
    using Cons.prems act step
    by (auto split: prod.splits bool.splits option.splits sum.splits if_splits)
qed simp

lemma pre_match_same:
  "match_loop E True NoConn i rules s = (Selected k r, s') \<Longrightarrow>
   (\<And>sn. rr_action r \<noteq> Some (RuleActionSniff sn)) \<Longrightarrow>
   match_loop E False inp i rules s = (Selected k r, s')"
proof (induction rules arbitrary: i s)
  case (Cons x rules)
  obtain b c where m: "Rule_Match (re_lib E) (re_runtime E) (re_heap E) x (ResetRuleCache (ms_metadata s)) = (b, c)"
    by force
  show ?case
  proof (cases b)
    case False
    with m Cons show ?thesis by simp
  next
    case True
    from Cons.prems m True obtain a where a: "rr_action x = Some a" by (auto split: option.splits)
    have ns: "\<not> (\<exists>sn. a = RuleActionSniff sn)"
      using Cons.prems m True a by (auto simp: run_action_def Let_def route_options_of_def)
    then have same: "run_action E True NoConn a s0 = run_action E False inp a s0" for s0
      by (cases a) (simp_all add: run_action_def)
    have fin: "is_final True a = is_final False a" using ns by (cases a) simp_all
    show ?thesis
      using Cons.prems Cons.IH m True a same fin by (auto split: sum.splits if_splits)
  qed
qed simp

lemma conclude_routed:
  assumes "fst (conclude M net msg dmsg now rules rs) = Routed ob c rule bufs pkts"
  shows "net \<in> set (oi_Network ob) \<and>
    (case rule of
       None \<Rightarrow> fst rs = NoRule \<and> ob = mg_default M
     | Some r \<Rightarrow> \<exists>i tag ro. fst rs = Selected i r \<and> rr_action r = Some (RuleActionRoute tag ro) \<and>
                  mg_outbound M tag = Some ob)"
  using assms
  by (auto simp: conclude_def find_outbound_def check_outbound_def reject_with_def
      split: prod.splits match_result.splits option.splits rule_action.splits sum.splits if_splits)

lemma matchRule_selected:
  assumes "fst (matchRule E rules pm inp s) = Selected i r"
  shows "i < length rules \<and> rules ! i = r \<and> (\<exists>a. rr_action r = Some a \<and> is_final pm a)"
proof -
  obtain s1 where "fst (match_loop E pm inp 0 rules s1) = Selected i r"
    using assms by (auto simp: matchRule_def Let_def split: prod.splits option.splits)
  then have "match_loop E pm inp 0 rules s1 = (Selected i r, snd (match_loop E pm inp 0 rules s1))"
    by (metis prod.collapse)
  from match_loop_selected [OF this] show ?thesis by simp
qed

section \<open>Properties\<close>

text \<open>C2 (first_final_rule_selected): among rules whose actions do not rewrite the metadata on the way,
  the matching selects the first rule that matches the connection's own metadata and whose
  action is final, and none when there is no such rule. The cache that earlier rules leave
  behind plays no part.\<close>

theorem first_final_rule_selected:
  assumes "list_all plain_action rules"
  shows "fst (match_loop E False inp 0 rules s) =
    (let hit = (\<lambda>r. rule_hits E (ms_metadata s) r \<and> is_final False (the (rr_action r)));
         k = length (takeWhile (\<lambda>r. \<not> hit r) rules) in
     if k < length rules then Selected k (rules ! k) else NoRule)"
  using match_loop_first [OF assms refl, where E = E and inp = inp and i = 0 and s = s] by (simp add: Let_def)

definition sample_env :: route_env where
  "sample_env = \<lparr>re_lib = sample_lib, re_runtime = sample_runtime, re_heap = (\<lambda>_. []), re_process = None,
     re_fakeip = None, re_reverse = (\<lambda>_. None), re_transport = (\<lambda>_. True),
     re_lookup = (\<lambda>_ _ _. Inr []), re_errorText = (\<lambda>_. ''''), re_ctxErr = None,
     re_stream = (\<lambda>_ c _. (c, Some (ENew ''not matched''))),
     re_packet = (\<lambda>sn c p. (c, if sn = QUICClientHello then (if p = [2] then None else Some ErrNeedMoreData)
                                else Some (ENew ''not matched'')))\<rparr>"

definition sample_port_rule :: "u16 \<Rightarrow> rule_action \<Rightarrow> rule_act route_rule" where
  "sample_port_rule p a = DefaultRule ((empty_rule False)\<lparr>
     ar_destinationPortItems := [Leaf (PortItem (NewPortItem False [p]))],
     ar_allItems := [Leaf (PortItem (NewPortItem False [p]))]\<rparr>) (Some a)"

definition sample_route_options :: route_options where
  "sample_route_options = \<lparr>ro_OverrideAddress = no_socksaddr, ro_OverridePort = 0, ro_NetworkStrategy = None,
     ro_NetworkType = None, ro_FallbackNetworkType = None, ro_FallbackDelay = 0,
     ro_UDPDisableDomainUnmapping = False, ro_UDPConnect = False, ro_UDPTimeout = 0,
     ro_TLSFragment = False, ro_TLSFragmentFallbackDelay = 0, ro_TLSRecordFragment = False\<rparr>"

lemmas sample_port_eval = sample_port_rule_def empty_rule_def abstractDefaultRule_Match_def
  match_sourceAddress_def match_sourcePort_def match_destinationAddress_def
  match_destinationIPCIDR_def match_destinationPort_def Let_def PortItem_Match_def NewPortItem_def
  sample_defs sample_env_def new_match_state_def mk_map_def

theorem first_final_rule_selected_witness:
  "fst (match_loop sample_env False StreamConn 0
     [sample_port_rule 80 RuleActionHijackDNS, sample_port_rule 443 (RuleActionRoute ''out'' sample_route_options),
      sample_port_rule 443 RuleActionHijackDNS]
     (new_match_state (sample_context ''a.example'' 443) [] [])) =
   Selected 1 (sample_port_rule 443 (RuleActionRoute ''out'' sample_route_options))"
proof -
  let ?rules = "[sample_port_rule 80 RuleActionHijackDNS,
    sample_port_rule 443 (RuleActionRoute ''out'' sample_route_options), sample_port_rule 443 RuleActionHijackDNS]"
  have "list_all plain_action ?rules" by (simp add: plain_action_def sample_port_rule_def)
  from first_final_rule_selected [OF this, of sample_env StreamConn
      "new_match_state (sample_context ''a.example'' 443) [] []"]
  show ?thesis by (simp add: sample_port_eval)
qed

text \<open>Remark (direct_action_never_selected): a rule with a \<^verbatim>\<open>direct\<close> action is never selected: a connection
  whose only matching rule is such a rule goes to the default outbound.\<close>

theorem direct_action_never_selected:
  "(fst (matchRule E rules pm inp s) = Selected i r \<longrightarrow> (\<forall>d t. rr_action r \<noteq> Some (RuleActionDirect d t))) \<and>
   fst (match_loop E False inp 0 [DefaultRule r0 (Some (RuleActionDirect dl txt))] s0) = NoRule"
proof -
  have "fst (match_loop E False inp 0 [DefaultRule r0 (Some (RuleActionDirect dl txt))] s0) = NoRule"
    using match_loop_first [of "[DefaultRule r0 (Some (RuleActionDirect dl txt))]", OF _ refl, where E = E and inp = inp and i = 0 and s = s0]
    by (simp add: plain_action_def Let_def)
  then show ?thesis using matchRule_selected [of E rules pm inp s i r] by auto
qed

theorem direct_action_never_selected_witness:
  "fst (match_loop sample_env False StreamConn 0 [sample_port_rule 443 (RuleActionDirect zero_dialer_options '''')]
     (new_match_state (sample_context ''a.example'' 443) [] [])) = NoRule"
  using direct_action_never_selected [of sample_env "[]" False StreamConn
      "new_match_state (sample_context ''a.example'' 443) [] []" 0 "sample_port_rule 443 RuleActionHijackDNS"]
  by (simp add: sample_port_rule_def)

text \<open>C37 (pre_match_stands): a rule other than a sniff rule that the pre-match of a connection selects is
  the rule that routing the connection selects too, with the same metadata, when the inbound
  asks for no sniffing of its own: what a pre-match rejects would have been rejected.\<close>

theorem pre_match_stands:
  assumes "matchRule E rules True NoConn s = (Selected i r, s')"
    and "\<forall>sn. rr_action r \<noteq> Some (RuleActionSniff sn)"
    and "\<not> io_SniffEnabled (mc_InboundOptions (ms_metadata s))"
  shows "matchRule E rules False inp s = (Selected i r, s')"
proof -
  have step: "inbound_options_step E True NoConn t = inbound_options_step E False inp t"
    if "\<not> io_SniffEnabled (mc_InboundOptions (ms_metadata t))" for t
    using that by (simp add: inbound_options_step_def Let_def)
  have opts: "mc_InboundOptions (set_ip_version L c2) = mc_InboundOptions (ms_metadata s)"
    if "map_fakeip E (find_process E (ms_metadata s)) = (None, c2)" for L c2
    using that by (auto simp: map_fakeip_def find_process_def map_reverse_def set_ip_version_def
        split: option.splits if_splits prod.splits sum.splits)
  obtain c2 where c2: "map_fakeip E (find_process E (ms_metadata s)) = (None, c2)"
    using assms(1) by (auto simp: matchRule_def Let_def split: prod.splits option.splits)
  let ?s = "s\<lparr>ms_metadata := set_ip_version (re_lib E) c2\<rparr>"
  have same: "inbound_options_step E True NoConn ?s = inbound_options_step E False inp ?s"
    using opts [OF c2] assms(3) by (intro step) simp
  obtain s1 where s1: "inbound_options_step E True NoConn ?s = (None, s1)"
      "match_loop E True NoConn 0 rules s1 = (Selected i r, s')"
    using assms(1) c2 by (auto simp: matchRule_def Let_def split: prod.splits option.splits)
  have "match_loop E False inp 0 rules s1 = (Selected i r, s')"
    using pre_match_same [OF s1(2)] assms(2) by blast
  with c2 s1(1) same show ?thesis by (simp add: matchRule_def Let_def)
qed

theorem pre_match_stands_witness:
  "\<exists>s'. matchRule sample_env [sample_port_rule 443 (RuleActionReject sample_reject)] False StreamConn
     (new_match_state (sample_context ''a.example'' 443) [] []) =
     (Selected 0 (sample_port_rule 443 (RuleActionReject sample_reject)), s')"
proof -
  let ?r = "sample_port_rule 443 (RuleActionReject sample_reject)"
  let ?s = "new_match_state (sample_context ''a.example'' 443) [] []"
  obtain s' where s': "matchRule sample_env [?r] True NoConn ?s = (Selected 0 ?r, s')"
    by (simp add: matchRule_def find_process_def map_fakeip_def map_reverse_def set_ip_version_def
        inbound_options_step_def run_action_def route_options_of_def sample_port_eval sample_lib_def)
  have "matchRule sample_env [?r] False StreamConn ?s = (Selected 0 ?r, s')"
    by (rule pre_match_stands [OF s']) (simp_all add: sample_port_rule_def sample_port_eval)
  then show ?thesis by blast
qed

text \<open>C24 (routed_outbound_serves_network): when a TCP connection is handed to an outbound, that outbound
  serves TCP, and it is the one the selected rule of the list names, or the default outbound
  when no rule was selected; the same holds for packets and UDP.\<close>

theorem routed_outbound_serves_network:
  assumes "fst (routeConnection E M now reads c rules) = Routed ob c' rule bufs pkts \<and> net = NetworkTCP \<or>
    fst (routePacketConnection E M now preads c rules) = Routed ob c' rule bufs pkts \<and> net = NetworkUDP"
  shows "net \<in> set (oi_Network ob) \<and>
    (case rule of None \<Rightarrow> ob = mg_default M
     | Some r \<Rightarrow> r \<in> set rules \<and> (\<exists>tag ro. rr_action r = Some (RuleActionRoute tag ro) \<and> mg_outbound M tag = Some ob))"
proof -
  obtain inp s msg dmsg where e: "fst (conclude M net msg dmsg now rules (matchRule E rules False inp s)) =
      Routed ob c' rule bufs pkts"
    using assms by (auto simp: routeConnection_def routePacketConnection_def inject_detour_def
        split: if_splits option.splits)
  show ?thesis
  proof (cases rule)
    case None
    with conclude_routed [OF e] show ?thesis by auto
  next
    case (Some r)
    with conclude_routed [OF e] obtain i tag ro where r:
      "net \<in> set (oi_Network ob)" "fst (matchRule E rules False inp s) = Selected i r"
      "rr_action r = Some (RuleActionRoute tag ro)" "mg_outbound M tag = Some ob" by auto
    have "r \<in> set rules" using matchRule_selected [OF r(2)] by auto
    with r Some show ?thesis by auto
  qed
qed

definition sample_managers :: managers where
  "sample_managers = \<lparr>mg_outbound = (\<lambda>t. if t = ''out'' then Some \<lparr>oi_Tag = t, oi_Network = [''tcp'']\<rparr> else None),
     mg_default = \<lparr>oi_Tag = ''direct'', oi_Network = [''tcp'', ''udp'']\<rparr>, mg_inbound = (\<lambda>_. None),
     mg_reserved = (\<lambda>_. None)\<rparr>"

theorem routed_outbound_serves_network_witness:
  "\<exists>ob c' rule bufs pkts. fst (routeConnection sample_env sample_managers 0 [] (sample_context ''a.example'' 443)
       [sample_port_rule 443 (RuleActionRoute ''out'' sample_route_options)]) = Routed ob c' rule bufs pkts \<and>
     NetworkTCP \<in> set (oi_Network ob)"
proof -
  let ?rules = "[sample_port_rule 443 (RuleActionRoute ''out'' sample_route_options)]"
  obtain ob c' rule bufs pkts where r: "fst (routeConnection sample_env sample_managers 0 []
      (sample_context ''a.example'' 443) ?rules) = Routed ob c' rule bufs pkts"
    by (simp add: routeConnection_def conclude_def matchRule_def find_process_def map_fakeip_def map_reverse_def
        set_ip_version_def inbound_options_step_def run_action_def route_options_of_def find_outbound_def
        check_outbound_def sample_managers_def NetworkTCP_def sample_port_eval sample_lib_def)
  then have "NetworkTCP \<in> set (oi_Network ob)"
    using routed_outbound_serves_network [of sample_env sample_managers 0 "[]" "sample_context ''a.example'' 443"
        ?rules ob c' rule bufs pkts NetworkTCP "[]"] by blast
  with r show ?thesis by blast
qed

subsection \<open>Overrides\<close>

definition overrides :: "lib \<Rightarrow> route_options \<Rightarrow> bool" where
  "overrides L ro \<longleftrightarrow> lib_IsValid L (ro_OverrideAddress ro) \<or> ro_OverridePort ro > 0"

lemma do_if_frame:
  "(\<And>c. mc_Destination (f c) = mc_Destination c) \<Longrightarrow> mc_Destination (do_if b f c) = mc_Destination c"
  "(\<And>c. mc_RouteOriginalDestination (f c) = mc_RouteOriginalDestination c) \<Longrightarrow>
     mc_RouteOriginalDestination (do_if b f c) = mc_RouteOriginalDestination c"
  by (simp_all add: do_if_def)

lemma apply_route_options_original:
  "mc_RouteOriginalDestination (apply_route_options L ro c) =
     (if overrides L ro \<and> \<not> lib_IsValid L (mc_RouteOriginalDestination c) then mc_Destination c
      else mc_RouteOriginalDestination c)"
  "\<not> overrides L ro \<Longrightarrow> mc_Destination (apply_route_options L ro c) = mc_Destination c"
  by (simp_all add: apply_route_options_def do_if_frame apply_override_def overrides_def)

text \<open>Remark (original_destination_kept): whatever sequence of route options a connection passes, the recorded
  original destination is the destination before the first option that overrides address or
  port; later overrides do not change it.\<close>

theorem original_destination_kept:
  assumes "lib_IsValid L (mc_Destination c)" and "\<not> lib_IsValid L (mc_RouteOriginalDestination c)"
  shows "mc_RouteOriginalDestination (fold (apply_route_options L) ros c) =
    (if list_ex (overrides L) ros then mc_Destination c else mc_RouteOriginalDestination c)"
proof -
  have kept: "mc_RouteOriginalDestination (fold (apply_route_options L) ros d) = mc_RouteOriginalDestination d"
    if "lib_IsValid L (mc_RouteOriginalDestination d)" for ros d
    using that by (induction ros arbitrary: d) (simp_all add: apply_route_options_original)
  show ?thesis
    using assms
  proof (induction ros arbitrary: c)
    case (Cons ro ros)
    show ?case
    proof (cases "overrides L ro")
      case True
      with Cons.prems show ?thesis by (simp add: kept apply_route_options_original(1))
    next
      case False
      with Cons.IH [of "apply_route_options L ro c"] Cons.prems show ?thesis
        by (simp add: apply_route_options_original)
    qed
  qed simp
qed

theorem original_destination_kept_witness:
  "mc_RouteOriginalDestination (fold (apply_route_options sample_lib)
     [sample_route_options, sample_route_options\<lparr>ro_OverridePort := 8443\<rparr>,
      sample_route_options\<lparr>ro_OverrideAddress := \<lparr>sa_Addr = NoAddr, sa_Port = 0, sa_Fqdn = ''b.example''\<rparr>\<rparr>]
     (sample_context ''a.example'' 443)) = \<lparr>sa_Addr = NoAddr, sa_Port = 443, sa_Fqdn = ''a.example''\<rparr>"
proof -
  let ?c = "sample_context ''a.example'' 443"
  let ?ros = "[sample_route_options, sample_route_options\<lparr>ro_OverridePort := 8443\<rparr>,
      sample_route_options\<lparr>ro_OverrideAddress := \<lparr>sa_Addr = NoAddr, sa_Port = 0, sa_Fqdn = ''b.example''\<rparr>\<rparr>]"
  have v: "lib_IsValid sample_lib (mc_Destination ?c)" "\<not> lib_IsValid sample_lib (mc_RouteOriginalDestination ?c)"
    by (simp_all add: sample_lib_def sample_defs Addr_IsValid_def)
  have o: "list_ex (overrides sample_lib) ?ros"
    by (simp add: overrides_def sample_route_options_def)
  have d: "mc_Destination ?c = \<lparr>sa_Addr = NoAddr, sa_Port = 443, sa_Fqdn = ''a.example''\<rparr>"
    by (simp add: sample_defs)
  from original_destination_kept [OF v, of ?ros] show ?thesis unfolding if_P [OF o] d .
qed

subsection \<open>Sniffed bytes on the way to the outbound\<close>

text \<open>
  The handlers wrap the connection once per buffer. \<open>cached\<close> stands for
  \<^verbatim>\<open>bufio.NewCachedConn\<close>, whose documented behaviour is to hand out its buffer before it
  reads the connection below; \<open>content\<close> is what a reader gets.
\<close>

definition replay :: "('conn \<Rightarrow> bytes \<Rightarrow> 'conn) \<Rightarrow> 'conn \<Rightarrow> bytes list \<Rightarrow> 'conn" where
  "replay cached conn buffers = foldl cached conn buffers"

lemma replay_content:
  assumes "\<forall>conn b. content (cached conn b) = b @ content conn"
  shows "content (replay cached conn bufs) = concat (rev bufs) @ content conn"
  using assms by (induction bufs arbitrary: conn) (simp_all add: replay_def)

text \<open>Remark (replay_reverses_buffers): the outbound reads one sniff buffer before the rest of the stream, as
  the client sent it; with buffers of two sniff actions it reads the second buffer first, so
  the stream reaches the outbound in the client's order only if the two commute.\<close>

theorem replay_reverses_buffers:
  assumes "\<forall>conn b. content (cached conn b) = b @ content conn"
  shows "content (replay cached conn [b1]) = b1 @ content conn \<and>
    (content (replay cached conn [b1, b2]) = b1 @ b2 @ content conn \<longleftrightarrow> b1 @ b2 = b2 @ b1)"
  using replay_content [OF assms] by auto

theorem replay_reverses_buffers_witness:
  "replay (\<lambda>conn b. b @ conn) [3] [[1], [2]] = ([2, 1, 3] :: bytes) \<and>
   replay (\<lambda>conn b. b @ conn) [3] [[1], [2]] \<noteq> ([1, 2, 3] :: bytes)"
proof -
  have "id (replay (\<lambda>conn b. b @ conn) [3] [[1], [2]]) = [1] @ [2] @ id [3] \<longleftrightarrow>
      ([1] @ [2] :: bytes) = [2] @ [1]"
    using replay_reverses_buffers [of id "\<lambda>conn b. b @ conn" "[3]" "[1]" "[2]"] by simp
  then show ?thesis by (simp add: replay_def)
qed

lemma sniff_read_prefix:
  "sniff_read E action ss reads bufs c = (fatal, err, bufs', c', reads') \<Longrightarrow> \<exists>new. bufs' = bufs @ new"
  by (induction E action ss reads bufs c arbitrary: fatal err bufs' c' reads' rule: sniff_read.induct)
    (auto split: prod.splits if_splits)

text \<open>Remark (packets_duplicated_by_second_sniff): when a sniff action that is given the packets of an earlier
  sniff returns packets, they start with the given ones, and the caller appends them all: the
  earlier packets are kept twice.\<close>

theorem packets_duplicated_by_second_sniff:
  assumes "actionSniff E inp action (ms_buffers s) (ms_packetBuffers s) s = (None, pkts, err, s1)"
    and "pkts \<noteq> []"
  shows "\<exists>new s2. pkts = ms_packetBuffers s @ new \<and>
    ms_packetBuffers s2 = ms_packetBuffers s @ ms_packetBuffers s @ new \<and>
    run_action E False inp (RuleActionSniff action) s =
      (case err of None \<Rightarrow> Inr s2 | Some e \<Rightarrow> Inl (Fatal e, s2))"
proof -
  obtain new where n: "pkts = ms_packetBuffers s @ new"
    using assms sniff_read_prefix
    by (auto simp: actionSniff_def Let_def split: if_splits input.splits prod.splits bool.splits option.splits;
        blast)
  have "ms_packetBuffers s1 = ms_packetBuffers s"
    using assms(1) by (auto simp: actionSniff_def Let_def
        split: if_splits input.splits prod.splits bool.splits option.splits)
  with assms n show ?thesis
    by (intro exI [of _ new] exI [of _ "s1\<lparr>ms_packetBuffers := ms_packetBuffers s1 @ pkts\<rparr>"])
      (simp add: run_action_def route_options_of_def split: option.split)
qed

definition sample_sniff :: sniff_action where
  "sample_sniff = \<lparr>sn_SnifferNames = [''quic''], sn_StreamSniffers = [], sn_PacketSniffers = [QUICClientHello],
     sn_Timeout = 0, sn_OverrideDestination = False\<rparr>"

definition sample_sniffed :: match_state where
  "sample_sniffed = \<lparr>ms_metadata = sample_context ''a.example'' 443, ms_buffers = [],
     ms_packetBuffers = [([1], no_socksaddr)], ms_streamReads = [], ms_packetReads = [Packet [2] no_socksaddr]\<rparr>"

lemmas sample_sniff_eval = sample_sniff_def sample_sniffed_def sample_env_def actionSniff_def Let_def Skip_def
  sample_defs sniff_repeated_def quicMoreData_def needs_more_def sniff_packet_def PeekPacket_def
  override_destination_def ErrNeedMoreData_def join_error_def

theorem packets_duplicated_by_second_sniff_witness:
  "\<exists>s2. run_action sample_env False PacketConn (RuleActionSniff sample_sniff) sample_sniffed = Inr s2 \<and>
    map fst (ms_packetBuffers s2) = [[1], [1], [2]]"
proof -
  obtain s1 where a: "actionSniff sample_env PacketConn sample_sniff (ms_buffers sample_sniffed)
      (ms_packetBuffers sample_sniffed) sample_sniffed = (None, [([1], no_socksaddr), ([2], no_socksaddr)], None, s1)"
    by (simp add: sample_sniff_eval)
  from packets_duplicated_by_second_sniff [OF a] obtain new s2 where
    "[([1], no_socksaddr), ([2], no_socksaddr)] = ms_packetBuffers sample_sniffed @ new"
    "ms_packetBuffers s2 = ms_packetBuffers sample_sniffed @ ms_packetBuffers sample_sniffed @ new"
    "run_action sample_env False PacketConn (RuleActionSniff sample_sniff) sample_sniffed = Inr s2"
    by auto
  then show ?thesis by (intro exI [of _ s2]) (auto simp: sample_sniffed_def)
qed

end
