(* ===== verification/DNS_Message.thy ===== *)
theory DNS_Message
  imports Rule_Action
begin

text \<open>
  What the DNS packages do with messages and addresses: the fixed responses and the
  addresses of a response (\<^verbatim>\<open>dns/client.go\<close>), its time to live, and the EDNS0 client subnet
  (\<^verbatim>\<open>dns/extension_edns0_subnet.go\<close>). The record \<open>dns_lib\<close> holds what the sources call in
  \<^verbatim>\<open>miekg/dns\<close> and \<^verbatim>\<open>sagernet/sing\<close>. A message is a value, so \<^verbatim>\<open>Copy\<close> is the identity and
  a function that changes a message returns it.
\<close>

section \<open>Addresses and prefixes\<close>

definition Addr_Is4 :: "addr \<Rightarrow> bool" where
  "Addr_Is4 a = (case a of IPv4 _ \<Rightarrow> True | _ \<Rightarrow> False)"

definition Addr_Is6 :: "addr \<Rightarrow> bool" where
  "Addr_Is6 a = (case a of IPv6 _ _ \<Rightarrow> True | _ \<Rightarrow> False)"

text \<open>\<^verbatim>\<open>netip.Addr.Next\<close>: the zero address after the last one.\<close>

fun Addr_Next :: "addr \<Rightarrow> addr" where
  "Addr_Next NoAddr = NoAddr"
| "Addr_Next (IPv4 x) = (if x + 1 = 0 then NoAddr else IPv4 (x + 1))"
| "Addr_Next (IPv6 x z) = (if x + 1 = 0 then NoAddr else IPv6 (x + 1) z)"

text \<open>\<^verbatim>\<open>netip.Prefix.Contains\<close>: same family, no zone, equal leading bits.\<close>

fun Prefix_Contains :: "prefix \<Rightarrow> addr \<Rightarrow> bool" where
  "Prefix_Contains (Prefix (IPv4 b) n) (IPv4 x) \<longleftrightarrow> n \<le> 32 \<and> drop_bit (32 - n) x = drop_bit (32 - n) b"
| "Prefix_Contains (Prefix (IPv6 b z) n) (IPv6 x zx) \<longleftrightarrow>
     n \<le> 128 \<and> zx = [] \<and> drop_bit (128 - n) x = drop_bit (128 - n) b"
| "Prefix_Contains _ _ \<longleftrightarrow> False"

fun Prefix_Addr :: "prefix \<Rightarrow> addr" where
  "Prefix_Addr NoPrefix = NoAddr"
| "Prefix_Addr (Prefix a n) = a"


text \<open>\<^verbatim>\<open>AsSlice\<close>, \<^verbatim>\<open>AddrFrom4\<close> and \<^verbatim>\<open>AddrFrom16\<close>: addresses as bytes, most significant first.\<close>

definition word_bytes :: "nat \<Rightarrow> 'a::len word \<Rightarrow> bytes" where
  "word_bytes n w = map (\<lambda>i. ucast (drop_bit (8 * (n - 1 - i)) w)) [0..<n]"

definition bytes_word :: "bytes \<Rightarrow> 'a::len word" where
  "bytes_word bs = foldl (\<lambda>w b. push_bit 8 w OR ucast b) 0 bs"

fun Addr_AsSlice :: "addr \<Rightarrow> bytes" where
  "Addr_AsSlice NoAddr = []"
| "Addr_AsSlice (IPv4 x) = word_bytes 4 x"
| "Addr_AsSlice (IPv6 x z) = word_bytes 16 x"

definition copy_bytes :: "nat \<Rightarrow> bytes \<Rightarrow> bytes" where
  "copy_bytes n bs = take n bs @ replicate (n - length bs) 0"

definition AddrFrom4 :: "bytes \<Rightarrow> addr" where
  "AddrFrom4 bs = IPv4 (bytes_word bs)"

definition AddrFrom16 :: "bytes \<Rightarrow> addr" where
  "AddrFrom16 bs = IPv6 (bytes_word bs) []"

text \<open>\<^verbatim>\<open>netip.PrefixFrom\<close> drops the zone; the number of bits is in range where it is used.\<close>

fun PrefixFrom :: "addr \<Rightarrow> nat \<Rightarrow> prefix" where
  "PrefixFrom (IPv6 x z) n = Prefix (IPv6 x []) n"
| "PrefixFrom a n = Prefix a n"

fun Prefix_Bits :: "prefix \<Rightarrow> nat" where
  "Prefix_Bits NoPrefix = 0"
| "Prefix_Bits (Prefix a n) = n"

fun Prefix_Masked :: "prefix \<Rightarrow> prefix" where
  "Prefix_Masked (Prefix (IPv4 x) n) =
     (if n \<le> 32 then Prefix (IPv4 (push_bit (32 - n) (drop_bit (32 - n) x))) n else NoPrefix)"
| "Prefix_Masked (Prefix (IPv6 x z) n) =
     (if n \<le> 128 then Prefix (IPv6 (push_bit (128 - n) (drop_bit (128 - n) x)) []) n else NoPrefix)"
| "Prefix_Masked _ = NoPrefix"

section \<open>Constants and outside code\<close>

definition TypeA :: u16 where "TypeA = 1"
definition TypeCNAME :: u16 where "TypeCNAME = 5"
definition TypeMX :: u16 where "TypeMX = 15"
definition TypeTXT :: u16 where "TypeTXT = 16"
definition TypeAAAA :: u16 where "TypeAAAA = 28"
definition TypeOPT :: u16 where "TypeOPT = 41"
definition TypeHTTPS :: u16 where "TypeHTTPS = 65"
definition ClassINET :: u16 where "ClassINET = 1"
definition DefaultDNSTTL :: u32 where "DefaultDNSTTL = 600"

definition RcodeSuccess :: int where "RcodeSuccess = 0"
definition RcodeFormatError :: int where "RcodeFormatError = 1"
definition RcodeNameError :: int where "RcodeNameError = 3"
definition RcodeRefused :: int where "RcodeRefused = 5"

definition SVCB_IPV4HINT :: u16 where "SVCB_IPV4HINT = 4"
definition SVCB_IPV6HINT :: u16 where "SVCB_IPV6HINT = 6"
definition EDNS0SUBNET :: u16 where "EDNS0SUBNET = 8"

definition DomainStrategyAsIS :: domain_strategy where "DomainStrategyAsIS = 0"
definition DomainStrategyPreferIPv4 :: domain_strategy where "DomainStrategyPreferIPv4 = 1"
definition DomainStrategyPreferIPv6 :: domain_strategy where "DomainStrategyPreferIPv6 = 2"
definition DomainStrategyIPv4Only :: domain_strategy where "DomainStrategyIPv4Only = 3"
definition DomainStrategyIPv6Only :: domain_strategy where "DomainStrategyIPv6Only = 4"

lemmas dns_type_defs = TypeA_def TypeCNAME_def TypeMX_def TypeTXT_def TypeAAAA_def TypeOPT_def
  TypeHTTPS_def ClassINET_def
lemmas rcode_defs = RcodeSuccess_def RcodeFormatError_def RcodeNameError_def RcodeRefused_def
lemmas strategy_defs = DomainStrategyAsIS_def DomainStrategyPreferIPv4_def DomainStrategyPreferIPv6_def
  DomainStrategyIPv4Only_def DomainStrategyIPv6Only_def

record dns_lib =
  dl_IsFqdn :: "string \<Rightarrow> bool"
  dl_Fqdn :: "string \<Rightarrow> string"
  dl_AddrFromIP :: "bytes \<Rightarrow> addr"
  dl_ParseAddr :: "string \<Rightarrow> addr"
  dl_IsEdns0 :: "dns_msg \<Rightarrow> dns_rr option"
  dl_UDPSize :: "dns_rr \<Rightarrow> u16"
  dl_Version :: "dns_rr \<Rightarrow> u8"
  dl_Do :: "dns_rr \<Rightarrow> bool"
  dl_SetEdns0 :: "u16 \<Rightarrow> bool \<Rightarrow> dns_msg \<Rightarrow> dns_msg"

text \<open>\<open>isFqdn\<close> is \<^verbatim>\<open>dns.IsFqdn\<close> of \<^verbatim>\<open>miekg/dns\<close>.\<close>

definition FqdnToDomain :: "(string \<Rightarrow> bool) \<Rightarrow> string \<Rightarrow> string" where
  "FqdnToDomain isFqdn fqdn = (if isFqdn fqdn then butlast fqdn else fqdn)"

section \<open>Fixed responses\<close>

definition fixed_header :: "u16 \<Rightarrow> int \<Rightarrow> dns_question list \<Rightarrow> dns_msg" where
  "fixed_header i rcode question =
     zero_dns_msg\<lparr>dm_Id := i, dm_Response := True, dm_Authoritative := True, dm_RecursionDesired := True,
       dm_RecursionAvailable := True, dm_Rcode := rcode, dm_Question := question\<rparr>"

definition FixedResponseStatus :: "dns_msg \<Rightarrow> int \<Rightarrow> dns_msg" where
  "FixedResponseStatus message rcode = fixed_header (dm_Id message) rcode (dm_Question message)"

definition address_record :: "dns_question \<Rightarrow> u32 \<Rightarrow> addr \<Rightarrow> dns_rr list" where
  "address_record question ttl address =
     (if Addr_Is4 address \<and> q_Qtype question = TypeA
      then [\<lparr>rr_Name = q_Name question, rr_Rrtype = TypeA, rr_Class = ClassINET, rr_Ttl = ttl,
             rr_Data = RD_A (Addr_AsSlice address)\<rparr>]
      else if Addr_Is6 address \<and> q_Qtype question = TypeAAAA
      then [\<lparr>rr_Name = q_Name question, rr_Rrtype = TypeAAAA, rr_Class = ClassINET, rr_Ttl = ttl,
             rr_Data = RD_AAAA (Addr_AsSlice address)\<rparr>]
      else [])"

definition FixedResponse :: "u16 \<Rightarrow> dns_question \<Rightarrow> addr list \<Rightarrow> u32 \<Rightarrow> dns_msg" where
  "FixedResponse i question addresses ttl =
     (fixed_header i RcodeSuccess [question])\<lparr>
       dm_Answer := concat (map (address_record question ttl) addresses)\<rparr>"

definition FixedResponseCNAME :: "u16 \<Rightarrow> dns_question \<Rightarrow> string \<Rightarrow> u32 \<Rightarrow> dns_msg" where
  "FixedResponseCNAME i question target ttl =
     (fixed_header i RcodeSuccess [question])\<lparr>dm_Answer :=
       [\<lparr>rr_Name = q_Name question, rr_Rrtype = TypeCNAME, rr_Class = ClassINET, rr_Ttl = ttl,
         rr_Data = RD_CNAME target\<rparr>]\<rparr>"

definition FixedResponseTXT :: "u16 \<Rightarrow> dns_question \<Rightarrow> string list \<Rightarrow> u32 \<Rightarrow> dns_msg" where
  "FixedResponseTXT i question records ttl =
     (fixed_header i RcodeSuccess [question])\<lparr>dm_Answer :=
       [\<lparr>rr_Name = q_Name question, rr_Rrtype = TypeA, rr_Class = ClassINET, rr_Ttl = ttl,
         rr_Data = RD_TXT records\<rparr>]\<rparr>"

definition FixedResponseMX :: "u16 \<Rightarrow> dns_question \<Rightarrow> (string \<times> u16) list \<Rightarrow> u32 \<Rightarrow> dns_msg" where
  "FixedResponseMX i question records ttl =
     (fixed_header i RcodeSuccess [question])\<lparr>dm_Answer :=
       map (\<lambda>(host, pref). \<lparr>rr_Name = q_Name question, rr_Rrtype = TypeA, rr_Class = ClassINET,
              rr_Ttl = ttl, rr_Data = RD_MX pref host\<rparr>) records\<rparr>"

section \<open>Addresses of a response\<close>

text \<open>\<^verbatim>\<open>strings.Split\<close> with a separator of one character.\<close>

fun split_char :: "char \<Rightarrow> string \<Rightarrow> string list" where
  "split_char c [] = [[]]"
| "split_char c (x # xs) =
     (if x = c then [] # split_char c xs
      else (case split_char c xs of [] \<Rightarrow> [[x]] | y # ys \<Rightarrow> (x # y) # ys))"

definition svcb_addresses :: "dns_lib \<Rightarrow> u16 \<times> string \<Rightarrow> addr list" where
  "svcb_addresses D v =
     (if fst v = SVCB_IPV4HINT \<or> fst v = SVCB_IPV6HINT
      then map (dl_ParseAddr D) (split_char (CHR '','') (snd v)) else [])"

definition answer_addresses :: "dns_lib \<Rightarrow> dns_rr \<Rightarrow> addr list" where
  "answer_addresses D rr =
     (case rr_Data rr of
        RD_A ip \<Rightarrow> [dl_AddrFromIP D ip]
      | RD_AAAA ip \<Rightarrow> [dl_AddrFromIP D ip]
      | RD_HTTPS values \<Rightarrow> concat (map (svcb_addresses D) values)
      | _ \<Rightarrow> [])"

definition MessageToAddresses :: "dns_lib \<Rightarrow> dns_msg \<Rightarrow> addr list" where
  "MessageToAddresses D response =
     (if dm_Rcode response \<noteq> RcodeSuccess then []
      else concat (map (answer_addresses D) (dm_Answer response)))"

section \<open>Time to live\<close>

fun extractNegativeTTL_in :: "dns_rr list \<Rightarrow> u32 option" where
  "extractNegativeTTL_in [] = None"
| "extractNegativeTTL_in (rr # rrs) =
     (case rr_Data rr of
        RD_SOA soaMinimum \<Rightarrow> Some (if rr_Ttl rr < soaMinimum then rr_Ttl rr else soaMinimum)
      | _ \<Rightarrow> extractNegativeTTL_in rrs)"

definition extractNegativeTTL :: "dns_msg \<Rightarrow> u32 option" where
  "extractNegativeTTL response = extractNegativeTTL_in (dm_Ns response)"

definition message_records :: "dns_msg \<Rightarrow> dns_rr list" where
  "message_records m = dm_Answer m @ dm_Ns m @ dm_Extra m"

text \<open>The loop over the three record lists that looks for the smallest non-zero value.\<close>

definition lower_ttl :: "dns_rr \<Rightarrow> u32 \<Rightarrow> u32" where
  "lower_ttl record ttl =
     (if ttl = 0 \<or> rr_Ttl record > 0 \<and> rr_Ttl record < ttl then rr_Ttl record else ttl)"

definition records_ttl :: "dns_rr list \<Rightarrow> u32" where
  "records_ttl rrs = fold lower_ttl rrs 0"

definition map_records :: "(dns_rr \<Rightarrow> dns_rr) \<Rightarrow> dns_msg \<Rightarrow> dns_msg" where
  "map_records f m = m\<lparr>dm_Answer := map f (dm_Answer m), dm_Ns := map f (dm_Ns m), dm_Extra := map f (dm_Extra m)\<rparr>"

definition set_ttls :: "u32 \<Rightarrow> dns_msg \<Rightarrow> dns_msg" where
  "set_ttls ttl m = map_records (\<lambda>rr. rr\<lparr>rr_Ttl := ttl\<rparr>) m"

definition response_ttl :: "dns_msg \<Rightarrow> u32" where
  "response_ttl response =
     (let negative = (if length (dm_Answer response) = 0
                      then (case extractNegativeTTL response of Some t \<Rightarrow> t | None \<Rightarrow> 0) else 0)
      in if negative = 0 then records_ttl (message_records response) else negative)"

section \<open>Client subnet\<close>

fun subnet_index :: "edns0_option list \<Rightarrow> nat option" where
  "subnet_index [] = None"
| "subnet_index (EDNS0_SUBNET c f n s a # os) = Some 0"
| "subnet_index (EDNS0_Other c d # os) = map_option Suc (subnet_index os)"

text \<open>
  The search: the position of the OPT record and of its subnet option. It stops at a subnet
  option; a record that is no OPT record sets the result back to nil.
\<close>

fun find_exists :: "nat \<Rightarrow> nat option \<Rightarrow> dns_rr list \<Rightarrow> nat option \<times> nat option" where
  "find_exists i optRecord [] = (optRecord, None)"
| "find_exists i optRecord (record # records) =
     (case rr_Data record of
        RD_OPT options \<Rightarrow>
          (case subnet_index options of
             Some j \<Rightarrow> (Some i, Some j)
           | None \<Rightarrow> find_exists (Suc i) (Some i) records)
      | _ \<Rightarrow> find_exists (Suc i) None records)"

definition new_subnet_option :: edns0_option where
  "new_subnet_option = EDNS0_SUBNET EDNS0SUBNET 0 0 0 []"

fun fill_subnet :: "prefix \<Rightarrow> edns0_option \<Rightarrow> edns0_option" where
  "fill_subnet clientSubnet (EDNS0_SUBNET c f n s a) =
     EDNS0_SUBNET c (if Addr_Is4 (Prefix_Addr clientSubnet) then 1 else 2)
       (of_nat (Prefix_Bits clientSubnet)) s (Addr_AsSlice (Prefix_Addr clientSubnet))"
| "fill_subnet clientSubnet (EDNS0_Other c d) = EDNS0_Other c d"

definition fill_options :: "prefix \<Rightarrow> nat option \<Rightarrow> edns0_option list \<Rightarrow> edns0_option list" where
  "fill_options clientSubnet subnetOption options =
     (case subnetOption of
        None \<Rightarrow> options @ [fill_subnet clientSubnet new_subnet_option]
      | Some j \<Rightarrow> options[j := fill_subnet clientSubnet (options ! j)])"

definition fill_record :: "prefix \<Rightarrow> nat option \<Rightarrow> dns_rr \<Rightarrow> dns_rr" where
  "fill_record clientSubnet subnetOption record =
     (case rr_Data record of
        RD_OPT options \<Rightarrow> record\<lparr>rr_Data := RD_OPT (fill_options clientSubnet subnetOption options)\<rparr>
      | _ \<Rightarrow> record)"

definition new_opt_record :: dns_rr where
  "new_opt_record = \<lparr>rr_Name = ''.'', rr_Rrtype = TypeOPT, rr_Class = 0, rr_Ttl = 0, rr_Data = RD_OPT []\<rparr>"

definition SetClientSubnet :: "dns_msg \<Rightarrow> prefix \<Rightarrow> dns_msg" where
  "SetClientSubnet message clientSubnet =
     (case find_exists 0 None (dm_Extra message) of
        (None, subnetOption) \<Rightarrow>
          message\<lparr>dm_Extra := dm_Extra message @ [fill_record clientSubnet subnetOption new_opt_record]\<rparr>
      | (Some i, subnetOption) \<Rightarrow>
          message\<lparr>dm_Extra := (dm_Extra message)[i := fill_record clientSubnet subnetOption (dm_Extra message ! i)]\<rparr>)"

fun extract_option :: "edns0_option list \<Rightarrow> prefix option" where
  "extract_option [] = None"
| "extract_option (EDNS0_Other c d # os) = extract_option os"
| "extract_option (EDNS0_SUBNET c family netmask s address # os) =
     (if family = 1 then
        (if unat netmask > 32 then None
         else Some (Prefix_Masked (PrefixFrom (AddrFrom4 (copy_bytes 4 address)) (unat netmask))))
      else if family = 2 then
        (if unat netmask > 128 then None
         else Some (Prefix_Masked (PrefixFrom (AddrFrom16 (copy_bytes 16 address)) (unat netmask))))
      else None)"

definition ExtractClientSubnet :: "dns_lib \<Rightarrow> dns_msg \<Rightarrow> prefix option" where
  "ExtractClientSubnet D message =
     (case dl_IsEdns0 D message of
        None \<Rightarrow> None
      | Some opt \<Rightarrow> (case rr_Data opt of RD_OPT options \<Rightarrow> extract_option options | _ \<Rightarrow> None))"

end
