(* ===== verification/FakeIP.thy ===== *)
theory FakeIP
  imports DNS_Message
begin

text \<open>
  The FakeIP store of \<^verbatim>\<open>dns/transport/fakeip\<close>: addresses of a range are handed out to
  domain names in turn, and an address is translated back when a connection uses it. The
  storage behind the store is an interface (\<^verbatim>\<open>adapter.FakeIPStorage\<close>): the record
  \<open>fakeip_storage_ops\<close>. The locale \<open>fakeip_storage\<close> states what the store relies on, and
  the in-memory storage is shown to provide it.
\<close>

section \<open>Storage interface\<close>

record fakeip_metadata =
  fm_Inet4Range :: prefix
  fm_Inet6Range :: prefix
  fm_Inet4Current :: addr
  fm_Inet6Current :: addr

record 's fakeip_storage_ops =
  so_FakeIPMetadata :: "'s \<Rightarrow> fakeip_metadata option \<times> 's"
  so_FakeIPSaveMetadata :: "fakeip_metadata \<Rightarrow> 's \<Rightarrow> unit result \<times> 's"
  so_FakeIPSaveMetadataAsync :: "fakeip_metadata \<Rightarrow> 's \<Rightarrow> 's"
  so_FakeIPStoreAsync :: "addr \<Rightarrow> string \<Rightarrow> 's \<Rightarrow> 's"
  so_FakeIPLoad :: "'s \<Rightarrow> addr \<Rightarrow> string option"
  so_FakeIPLoadDomain :: "'s \<Rightarrow> string \<Rightarrow> bool \<Rightarrow> addr option"
  so_FakeIPReset :: "'s \<Rightarrow> unit result \<times> 's"

subsection \<open>In memory\<close>

record memory_storage =
  ms_addressCache :: "addr \<rightharpoonup> string"
  ms_domainCache4 :: "string \<rightharpoonup> addr"
  ms_domainCache6 :: "string \<rightharpoonup> addr"

definition NewMemoryStorage :: memory_storage where
  "NewMemoryStorage = \<lparr>ms_addressCache = Map.empty, ms_domainCache4 = Map.empty, ms_domainCache6 = Map.empty\<rparr>"

definition Memory_FakeIPStore :: "addr \<Rightarrow> string \<Rightarrow> memory_storage \<Rightarrow> memory_storage" where
  "Memory_FakeIPStore address domain s =
     (let s1 = (case ms_addressCache s address of
                  None \<Rightarrow> s
                | Some oldDomain \<Rightarrow>
                    if Addr_Is4 address
                    then s\<lparr>ms_domainCache4 := (ms_domainCache4 s)(oldDomain := None)\<rparr>
                    else s\<lparr>ms_domainCache6 := (ms_domainCache6 s)(oldDomain := None)\<rparr>);
          s2 = s1\<lparr>ms_addressCache := (ms_addressCache s1)(address \<mapsto> domain)\<rparr>
      in if Addr_Is4 address
         then s2\<lparr>ms_domainCache4 := (ms_domainCache4 s2)(domain \<mapsto> address)\<rparr>
         else s2\<lparr>ms_domainCache6 := (ms_domainCache6 s2)(domain \<mapsto> address)\<rparr>)"

definition Memory_FakeIPLoad :: "memory_storage \<Rightarrow> addr \<Rightarrow> string option" where
  "Memory_FakeIPLoad s address = ms_addressCache s address"

definition Memory_FakeIPLoadDomain :: "memory_storage \<Rightarrow> string \<Rightarrow> bool \<Rightarrow> addr option" where
  "Memory_FakeIPLoadDomain s domain isIPv6 =
     (if \<not> isIPv6 then ms_domainCache4 s domain else ms_domainCache6 s domain)"

definition Memory_FakeIPReset :: "memory_storage \<Rightarrow> unit result \<times> memory_storage" where
  "Memory_FakeIPReset s =
     (Inr (), s\<lparr>ms_addressCache := Map.empty, ms_domainCache4 := Map.empty, ms_domainCache6 := Map.empty\<rparr>)"

definition memory_ops :: "memory_storage fakeip_storage_ops" where
  "memory_ops = \<lparr>so_FakeIPMetadata = (\<lambda>s. (None, s)), so_FakeIPSaveMetadata = (\<lambda>m s. (Inr (), s)),
     so_FakeIPSaveMetadataAsync = (\<lambda>m s. s), so_FakeIPStoreAsync = Memory_FakeIPStore,
     so_FakeIPLoad = Memory_FakeIPLoad, so_FakeIPLoadDomain = Memory_FakeIPLoadDomain,
     so_FakeIPReset = Memory_FakeIPReset\<rparr>"

text \<open>The dynamic type of a storage: the cache file (a parameter) or the memory storage.\<close>

definition either_ops ::
  "'c fakeip_storage_ops \<Rightarrow> 'm fakeip_storage_ops \<Rightarrow> ('c + 'm) fakeip_storage_ops" where
  "either_ops C M = \<lparr>
     so_FakeIPMetadata = (\<lambda>s. case s of Inl c \<Rightarrow> map_prod id Inl (so_FakeIPMetadata C c)
                                       | Inr m \<Rightarrow> map_prod id Inr (so_FakeIPMetadata M m)),
     so_FakeIPSaveMetadata = (\<lambda>d s. case s of Inl c \<Rightarrow> map_prod id Inl (so_FakeIPSaveMetadata C d c)
                                       | Inr m \<Rightarrow> map_prod id Inr (so_FakeIPSaveMetadata M d m)),
     so_FakeIPSaveMetadataAsync = (\<lambda>d s. map_sum (so_FakeIPSaveMetadataAsync C d) (so_FakeIPSaveMetadataAsync M d) s),
     so_FakeIPStoreAsync = (\<lambda>a d s. map_sum (so_FakeIPStoreAsync C a d) (so_FakeIPStoreAsync M a d) s),
     so_FakeIPLoad = (\<lambda>s a. case s of Inl c \<Rightarrow> so_FakeIPLoad C c a | Inr m \<Rightarrow> so_FakeIPLoad M m a),
     so_FakeIPLoadDomain = (\<lambda>s d v6. case s of Inl c \<Rightarrow> so_FakeIPLoadDomain C c d v6
                                             | Inr m \<Rightarrow> so_FakeIPLoadDomain M m d v6),
     so_FakeIPReset = (\<lambda>s. case s of Inl c \<Rightarrow> map_prod id Inl (so_FakeIPReset C c)
                                    | Inr m \<Rightarrow> map_prod id Inr (so_FakeIPReset M m))\<rparr>"

section \<open>The store\<close>

record 's fakeip_store =
  fs_inet4Range :: prefix
  fs_inet6Range :: prefix
  fs_storage :: "'s option"
  fs_inet4Current :: addr
  fs_inet6Current :: addr

definition NewStore :: "prefix \<Rightarrow> prefix \<Rightarrow> 's fakeip_store" where
  "NewStore inet4Range inet6Range = \<lparr>fs_inet4Range = inet4Range, fs_inet6Range = inet6Range,
     fs_storage = None, fs_inet4Current = NoAddr, fs_inet6Current = NoAddr\<rparr>"

text \<open>\<open>cacheFile\<close> is the cache file of the process with its \<^verbatim>\<open>StoreFakeIP\<close> setting.\<close>

definition Store_Start ::
  "('c + memory_storage) fakeip_storage_ops \<Rightarrow> ('c \<times> bool) option \<Rightarrow> ('c + memory_storage) fakeip_store \<Rightarrow>
   ('c + memory_storage) fakeip_store" where
  "Store_Start O1 cacheFile s =
     (let storage = (case cacheFile of Some (c, True) \<Rightarrow> Inl c | _ \<Rightarrow> Inr NewMemoryStorage) in
      case so_FakeIPMetadata O1 storage of
        (metadata, storage1) \<Rightarrow>
          if (case metadata of None \<Rightarrow> False
              | Some m \<Rightarrow> fm_Inet4Range m = fs_inet4Range s \<and> fm_Inet6Range m = fs_inet6Range s)
          then s\<lparr>fs_inet4Current := fm_Inet4Current (the metadata), fs_inet6Current := fm_Inet6Current (the metadata),
                 fs_storage := Some storage1\<rparr>
          else
            (let s1 = (if Prefix_IsValid (fs_inet4Range s)
                       then s\<lparr>fs_inet4Current := Addr_Next (Addr_Next (Prefix_Addr (fs_inet4Range s)))\<rparr> else s);
                 s2 = (if Prefix_IsValid (fs_inet6Range s1)
                       then s1\<lparr>fs_inet6Current := Addr_Next (Addr_Next (Prefix_Addr (fs_inet6Range s1)))\<rparr> else s1)
             in s2\<lparr>fs_storage := Some (snd (so_FakeIPReset O1 storage1))\<rparr>))"

definition Store_Contains :: "'s fakeip_store \<Rightarrow> addr \<Rightarrow> bool" where
  "Store_Contains s address \<longleftrightarrow>
     Prefix_Contains (fs_inet4Range s) address \<or> Prefix_Contains (fs_inet6Range s) address"

definition store_metadata :: "'s fakeip_store \<Rightarrow> fakeip_metadata" where
  "store_metadata s = \<lparr>fm_Inet4Range = fs_inet4Range s, fm_Inet6Range = fs_inet6Range s,
     fm_Inet4Current = fs_inet4Current s, fm_Inet6Current = fs_inet6Current s\<rparr>"

definition Store_Close :: "'s fakeip_storage_ops \<Rightarrow> 's fakeip_store \<Rightarrow> unit result \<times> 's fakeip_store" where
  "Store_Close O1 s =
     (case fs_storage s of
        None \<Rightarrow> (Inr (), s)
      | Some st \<Rightarrow> (case so_FakeIPSaveMetadata O1 (store_metadata s) st of
                     (e, st') \<Rightarrow> (e, s\<lparr>fs_storage := Some st'\<rparr>)))"

definition next_address :: "prefix \<Rightarrow> addr \<Rightarrow> addr" where
  "next_address rng current =
     (let n = Addr_Next current in
      if \<not> Prefix_Contains rng n then Addr_Next (Addr_Next (Prefix_Addr rng)) else n)"

definition Store_Create ::
  "'s fakeip_storage_ops \<Rightarrow> string \<Rightarrow> bool \<Rightarrow> 's fakeip_store \<Rightarrow> addr result \<times> 's fakeip_store" where
  "Store_Create O1 domain isIPv6 s =
     (case fs_storage s of
        None \<Rightarrow> (Inl (EPanic ''nil pointer dereference''), s)
      | Some st \<Rightarrow>
          (case so_FakeIPLoadDomain O1 st domain isIPv6 of
             Some address \<Rightarrow> (Inr address, s)
           | None \<Rightarrow>
               if \<not> isIPv6 \<and> \<not> Addr_IsValid (fs_inet4Current s)
               then (Inl (ENew ''missing IPv4 fakeip address range''), s)
               else if isIPv6 \<and> \<not> Addr_IsValid (fs_inet6Current s)
               then (Inl (ENew ''missing IPv6 fakeip address range''), s)
               else
                 (let s1 = (if \<not> isIPv6
                            then s\<lparr>fs_inet4Current := next_address (fs_inet4Range s) (fs_inet4Current s)\<rparr>
                            else s\<lparr>fs_inet6Current := next_address (fs_inet6Range s) (fs_inet6Current s)\<rparr>);
                      address = (if \<not> isIPv6 then fs_inet4Current s1 else fs_inet6Current s1);
                      st1 = so_FakeIPStoreAsync O1 address domain st
                  in (Inr address,
                      s1\<lparr>fs_storage := Some (so_FakeIPSaveMetadataAsync O1 (store_metadata s1) st1)\<rparr>))))"

definition Store_Lookup :: "'s fakeip_storage_ops \<Rightarrow> addr \<Rightarrow> 's fakeip_store \<Rightarrow> string option result" where
  "Store_Lookup O1 address s =
     (case fs_storage s of
        None \<Rightarrow> Inl (EPanic ''nil pointer dereference'')
      | Some st \<Rightarrow> Inr (so_FakeIPLoad O1 st address))"

definition Store_Reset :: "'s fakeip_storage_ops \<Rightarrow> 's fakeip_store \<Rightarrow> unit result \<times> 's fakeip_store" where
  "Store_Reset O1 s =
     (case fs_storage s of
        None \<Rightarrow> (Inl (EPanic ''nil pointer dereference''), s)
      | Some st \<Rightarrow> (case so_FakeIPReset O1 st of (e, st') \<Rightarrow> (e, s\<lparr>fs_storage := Some st'\<rparr>)))"

text \<open>A sequence of queries of one family.\<close>

fun Store_Creates ::
  "'s fakeip_storage_ops \<Rightarrow> bool \<Rightarrow> string list \<Rightarrow> 's fakeip_store \<Rightarrow> addr result list \<times> 's fakeip_store" where
  "Store_Creates O1 isIPv6 [] s = ([], s)"
| "Store_Creates O1 isIPv6 (d # ds) s =
     (case Store_Create O1 d isIPv6 s of
        (r, s1) \<Rightarrow> (case Store_Creates O1 isIPv6 ds s1 of (rs, s2) \<Rightarrow> (r # rs, s2)))"

section \<open>The transport\<close>

definition FakeIP_Exchange ::
  "'s fakeip_storage_ops \<Rightarrow> (string \<Rightarrow> bool) \<Rightarrow> dns_msg \<Rightarrow> 's fakeip_store \<Rightarrow>
   dns_msg result \<times> 's fakeip_store" where
  "FakeIP_Exchange O1 isFqdn message s =
     (case dm_Question message of
        [] \<Rightarrow> (Inl (EPanic ''index out of range''), s)
      | question # _ \<Rightarrow>
          if q_Qtype question \<noteq> TypeA \<and> q_Qtype question \<noteq> TypeAAAA
          then (Inl (ENew ''only IP queries are supported by fakeip''), s)
          else (case Store_Create O1 (FqdnToDomain isFqdn (q_Name question)) (q_Qtype question = TypeAAAA) s of
                  (Inl e, s') \<Rightarrow> (Inl e, s')
                | (Inr address, s') \<Rightarrow>
                    (Inr (FixedResponse (dm_Id message) question [address] DefaultDNSTTL), s')))"

section \<open>The pool of a range\<close>

text \<open>
  The addresses of one family are numbered; a range of \<open>2 ^ host_bits\<close> addresses is used from
  two after its base address to its last one.
\<close>

fun addr_nat :: "addr \<Rightarrow> nat" where
  "addr_nat NoAddr = 0"
| "addr_nat (IPv4 x) = unat x"
| "addr_nat (IPv6 x z) = unat x"

fun host_bits :: "prefix \<Rightarrow> nat" where
  "host_bits (Prefix (IPv4 b) n) = 32 - n"
| "host_bits (Prefix (IPv6 b z) n) = 128 - n"
| "host_bits _ = 0"

definition pool_size :: "prefix \<Rightarrow> nat" where
  "pool_size p = 2 ^ host_bits p - (addr_nat (Prefix_Addr p) mod 2 ^ host_bits p + 2)"

fun pool_addr :: "prefix \<Rightarrow> nat \<Rightarrow> addr" where
  "pool_addr (Prefix (IPv4 b) n) i = IPv4 (word_of_nat (unat b + 2 + i))"
| "pool_addr (Prefix (IPv6 b z) n) i = IPv6 (word_of_nat (unat b + 2 + i)) z"
| "pool_addr _ i = NoAddr"

text \<open>A range the store can work with: it has an address for use, of the family asked for.\<close>

definition usable :: "bool \<Rightarrow> prefix \<Rightarrow> bool" where
  "usable isIPv6 p \<longleftrightarrow>
     (case p of Prefix (IPv4 b) n \<Rightarrow> \<not> isIPv6 \<and> n \<le> 32
      | Prefix (IPv6 b z) n \<Rightarrow> isIPv6 \<and> n \<le> 128 \<and> z = [] | _ \<Rightarrow> False) \<and> 0 < pool_size p"

lemma unat_word_of_nat: "n < 2 ^ LENGTH('a) \<Longrightarrow> unat (word_of_nat n :: 'a::len word) = n"
  by (simp add: unsigned_of_nat take_bit_nat_eq_self)

lemma unat_bound: "unat x < 2 ^ LENGTH('a)" for x :: "'a::len word"
  by (rule unsigned_less)

lemma word_drop_bit_eq_iff:
  "drop_bit h x = drop_bit h y \<longleftrightarrow> unat x div 2 ^ h = unat y div 2 ^ h" for x y :: "'a::len word"
  unfolding word_unat_eq_iff unat_drop_bit_eq by (simp only: drop_bit_eq_div)

lemma block_fits:
  fixes b :: nat
  assumes "b < 2 ^ w" and "h \<le> w"
  shows "(b div 2 ^ h + 1) * 2 ^ h \<le> 2 ^ w"
proof -
  have p: "(2::nat) ^ w = 2 ^ (w - h) * 2 ^ h" using assms(2) by (simp add: power_add [symmetric])
  have "b div 2 ^ h < 2 ^ (w - h)" using assms(1) unfolding p by (simp add: less_mult_imp_div_less)
  then have "b div 2 ^ h + 1 \<le> 2 ^ (w - h)" by simp
  then show ?thesis unfolding p by (rule mult_le_mono1)
qed

text \<open>Within the block of its base, the pool is an interval of numbers.\<close>

lemma pool_interval:
  fixes b :: nat
  assumes "i < 2 ^ h - (b mod 2 ^ h + 2)"
  shows "(b + 2 + i) div 2 ^ h = b div 2 ^ h" and "b + 2 + i < (b div 2 ^ h + 1) * 2 ^ h"
proof -
  have r: "b mod 2 ^ h + 2 + i < 2 ^ h" using assms by linarith
  have e: "b + 2 + i = (b mod 2 ^ h + 2 + i) + b div 2 ^ h * 2 ^ h"
    using div_mult_mod_eq [of b "2 ^ h"] by linarith
  show "(b + 2 + i) div 2 ^ h = b div 2 ^ h" unfolding e div_mult_self1 [OF power_not_zero [OF zero_neq_numeral [symmetric]]] using r by simp
  show "b + 2 + i < (b div 2 ^ h + 1) * 2 ^ h" unfolding e using r by simp
qed

lemma pool_end:
  fixes b :: nat
  assumes "Suc i = 2 ^ h - (b mod 2 ^ h + 2)"
  shows "(b + 2 + Suc i) = (b div 2 ^ h + 1) * 2 ^ h"
proof -
  have r: "b mod 2 ^ h + 2 + Suc i = 2 ^ h" using assms by linarith
  have "b + 2 + Suc i = b div 2 ^ h * 2 ^ h + (b mod 2 ^ h + 2 + Suc i)"
    using div_mult_mod_eq [of b "2 ^ h"] by linarith
  then show ?thesis unfolding r by (simp add: algebra_simps)
qed

text \<open>The same for machine words of any width.\<close>

lemma word_pool:
  fixes b :: "'a::len word"
  assumes "h \<le> LENGTH('a)" and "i < 2 ^ h - (unat b mod 2 ^ h + 2)"
  defines "f \<equiv> \<lambda>i. word_of_nat (unat b + 2 + i) :: 'a word"
  shows "unat (f i) = unat b + 2 + i" and "drop_bit h (f i) = drop_bit h b"
proof -
  have "(unat b div 2 ^ h + 1) * 2 ^ h \<le> 2 ^ LENGTH('a)"
    by (rule block_fits [OF unat_bound assms(1)])
  with pool_interval(2) [OF assms(2)] have "unat b + 2 + i < 2 ^ LENGTH('a)" by (rule less_le_trans)
  then show u: "unat (f i) = unat b + 2 + i" unfolding f_def by (rule unat_word_of_nat)
  show "drop_bit h (f i) = drop_bit h b"
    unfolding word_drop_bit_eq_iff u by (rule pool_interval(1) [OF assms(2)])
qed

lemma word_pool_step:
  fixes b :: "'a::len word"
  assumes "h \<le> LENGTH('a)" and "i < 2 ^ h - (unat b mod 2 ^ h + 2)"
  defines "f \<equiv> \<lambda>i. word_of_nat (unat b + 2 + i) :: 'a word"
  shows "Suc i < 2 ^ h - (unat b mod 2 ^ h + 2) \<Longrightarrow> f i + 1 = f (Suc i) \<and> f i + 1 \<noteq> 0"
    and "Suc i = 2 ^ h - (unat b mod 2 ^ h + 2) \<Longrightarrow> f i + 1 = 0 \<or> drop_bit h (f i + 1) \<noteq> drop_bit h b"
proof -
  have s: "f i + 1 = f (Suc i)" by (simp add: f_def)
  have fit: "(unat b div 2 ^ h + 1) * 2 ^ h \<le> 2 ^ LENGTH('a)"
    by (rule block_fits [OF unat_bound assms(1)])
  show "f i + 1 = f (Suc i) \<and> f i + 1 \<noteq> 0" if "Suc i < 2 ^ h - (unat b mod 2 ^ h + 2)"
    using word_pool(1) [OF assms(1) that] s by (auto simp: f_def simp del: of_nat_add of_nat_Suc)
  show "f i + 1 = 0 \<or> drop_bit h (f i + 1) \<noteq> drop_bit h b" if e: "Suc i = 2 ^ h - (unat b mod 2 ^ h + 2)"
  proof (cases "unat b + 2 + Suc i = 2 ^ LENGTH('a)")
    case True
    have "f (Suc i) = 0" unfolding f_def True by simp
    with s show ?thesis by simp
  next
    case False
    with fit pool_end [OF e] have "unat b + 2 + Suc i < 2 ^ LENGTH('a)" by simp
    then have "unat (f (Suc i)) = unat b + 2 + Suc i" unfolding f_def by (rule unat_word_of_nat)
    then have "unat (f (Suc i)) div 2 ^ h = unat b div 2 ^ h + 1" unfolding pool_end [OF e] by simp
    then show ?thesis unfolding s word_drop_bit_eq_iff by simp
  qed
qed

lemma word_pool_first:
  fixes b :: "'a::len word"
  assumes "h \<le> LENGTH('a)" and "0 < 2 ^ h - (unat b mod 2 ^ h + 2)"
  shows "b + 1 \<noteq> 0" and "b + 1 + 1 \<noteq> 0" and "b + 1 + 1 = word_of_nat (unat b + 2)"
proof -
  have u: "unat (word_of_nat (unat b + 2) :: 'a word) = unat b + 2"
    using word_pool(1) [OF assms] by simp
  show e: "b + 1 + 1 = word_of_nat (unat b + 2)" by simp
  show "b + 1 + 1 \<noteq> 0" using u unfolding e by auto
  have "unat b + 1 < 2 ^ LENGTH('a)" using u unat_bound [of "word_of_nat (unat b + 2) :: 'a word"] by linarith
  from unat_word_of_nat [OF this] have "unat (b + 1) = unat b + 1" by (simp add: add.commute)
  then show "b + 1 \<noteq> 0" by auto
qed

lemma usable_cases:
  assumes "usable isIPv6 p"
  obtains (v4) b n where "\<not> isIPv6" "p = Prefix (IPv4 b) n" "n \<le> 32"
      "pool_size p = 2 ^ (32 - n) - (unat b mod 2 ^ (32 - n) + 2)" "0 < pool_size p"
    | (v6) b n where "isIPv6" "p = Prefix (IPv6 b []) n" "n \<le> 128"
      "pool_size p = 2 ^ (128 - n) - (unat b mod 2 ^ (128 - n) + 2)" "0 < pool_size p"
  using assms by (auto simp: usable_def pool_size_def split: prefix.splits addr.splits)

lemma pool_contains:
  assumes "usable isIPv6 p" and "i < pool_size p"
  shows "Prefix_Contains p (pool_addr p i)" and "Addr_IsValid (pool_addr p i)"
    and "Addr_Is4 (pool_addr p i) = (\<not> isIPv6)"
  using assms(1)
proof (cases rule: usable_cases)
  case (v4 b n)
  then have "i < 2 ^ (32 - n) - (unat b mod 2 ^ (32 - n) + 2)" using assms(2) by simp
  from word_pool(2) [OF _ this] v4 show "Prefix_Contains p (pool_addr p i)" by simp
next
  case (v6 b n)
  then have "i < 2 ^ (128 - n) - (unat b mod 2 ^ (128 - n) + 2)" using assms(2) by simp
  from word_pool(2) [OF _ this] v6 show "Prefix_Contains p (pool_addr p i)" by simp
qed (use assms(1) in \<open>auto simp: Addr_IsValid_def Addr_Is4_def elim!: usable_cases\<close>)

lemma addr_nat_pool:
  assumes "usable isIPv6 p" and "i < pool_size p"
  shows "addr_nat (pool_addr p i) = addr_nat (Prefix_Addr p) + 2 + i"
  using assms(1)
proof (cases rule: usable_cases)
  case (v4 b n)
  then have "i < 2 ^ (32 - n) - (unat b mod 2 ^ (32 - n) + 2)" using assms(2) by simp
  from word_pool(1) [OF _ this] v4(2) show ?thesis by (simp del: of_nat_add)
next
  case (v6 b n)
  then have "i < 2 ^ (128 - n) - (unat b mod 2 ^ (128 - n) + 2)" using assms(2) by simp
  from word_pool(1) [OF _ this] v6(2) show ?thesis by (simp del: of_nat_add)
qed

lemma pool_addr_inj:
  assumes "usable isIPv6 p" and "i < pool_size p" and "j < pool_size p" and "pool_addr p i = pool_addr p j"
  shows "i = j"
proof -
  have "addr_nat (Prefix_Addr p) + 2 + i = addr_nat (Prefix_Addr p) + 2 + j"
    unfolding addr_nat_pool [OF assms(1,2), symmetric] assms(4) by (rule addr_nat_pool [OF assms(1,3)])
  then show ?thesis by (rule add_left_imp_eq)
qed

lemma pool_first:
  assumes "usable isIPv6 p"
  shows "Addr_Next (Addr_Next (Prefix_Addr p)) = pool_addr p 0"
  using assms
proof (cases rule: usable_cases)
  case (v4 b n)
  with word_pool_first [of "32 - n" b] show ?thesis by simp
next
  case (v6 b n)
  with word_pool_first [of "128 - n" b] show ?thesis by simp
qed

lemma next_address_pool:
  assumes "usable isIPv6 p" and "i < pool_size p"
  shows "next_address p (pool_addr p i) = pool_addr p (Suc i mod pool_size p)"
proof (cases "Suc i < pool_size p")
  case True
  have "Addr_Next (pool_addr p i) = pool_addr p (Suc i)"
    using assms(1)
  proof (cases rule: usable_cases)
    case (v4 b n)
    with word_pool_step(1) [of "32 - n" i b] True assms(2) show ?thesis by simp
  next
    case (v6 b n)
    with word_pool_step(1) [of "128 - n" i b] True assms(2) show ?thesis by simp
  qed
  with True pool_contains(1) [OF assms(1) True] show ?thesis by (simp add: next_address_def)
next
  case False
  then have e: "Suc i = pool_size p" using assms(2) by simp
  have "\<not> Prefix_Contains p (Addr_Next (pool_addr p i))"
    using assms(1)
  proof (cases rule: usable_cases)
    case (v4 b n)
    with word_pool_step(2) [of "32 - n" i b] e assms(2) show ?thesis by auto
  next
    case (v6 b n)
    with word_pool_step(2) [of "128 - n" i b] e assms(2) show ?thesis by auto
  qed
  with e pool_first [OF assms(1)] show ?thesis by (simp add: next_address_def)
qed

section \<open>What the store relies on\<close>

definition fs_range :: "bool \<Rightarrow> 's fakeip_store \<Rightarrow> prefix" where
  "fs_range isIPv6 s = (if isIPv6 then fs_inet6Range s else fs_inet4Range s)"

definition fs_current :: "bool \<Rightarrow> 's fakeip_store \<Rightarrow> addr" where
  "fs_current isIPv6 s = (if isIPv6 then fs_inet6Current s else fs_inet4Current s)"

text \<open>The domain has no address of the family yet.\<close>

definition fresh :: "'s fakeip_storage_ops \<Rightarrow> bool \<Rightarrow> 's fakeip_store \<Rightarrow> string \<Rightarrow> bool" where
  "fresh O1 isIPv6 s d \<longleftrightarrow> (case fs_storage s of None \<Rightarrow> True | Some st \<Rightarrow> so_FakeIPLoadDomain O1 st d isIPv6 = None)"

text \<open>A started store that has handed out the \<open>i\<close>-th address of its pool last.\<close>

definition store_at :: "('s \<Rightarrow> bool) \<Rightarrow> bool \<Rightarrow> nat \<Rightarrow> 's fakeip_store \<Rightarrow> bool" where
  "store_at good isIPv6 i s \<longleftrightarrow> (\<exists>st. fs_storage s = Some st \<and> good st) \<and>
     usable isIPv6 (fs_range isIPv6 s) \<and> i < pool_size (fs_range isIPv6 s) \<and>
     fs_current isIPv6 s = pool_addr (fs_range isIPv6 s) i"

lemma mod_shift: "(Suc i mod N + 1 + k) mod N = (i + 2 + k) mod N" for i k N :: nat
  using mod_add_left_eq [of "Suc i" N "1 + k"] by simp

lemma mod_shift_inj:
  fixes a k l N :: nat
  assumes "(a + k) mod N = (a + l) mod N" and "k < N" and "l < N"
  shows "k = l"
proof -
  have le: "x = y" if "(a + x) mod N = (a + y) mod N" "x \<le> y" "y < N" for x y
  proof -
    have "N dvd (a + y) - (a + x)" using that(1,2) mod_eq_dvd_iff_nat [of "a + x" "a + y" N] by simp
    then show ?thesis using that(2,3) by (auto dest: dvd_imp_le)
  qed
  show ?thesis using le [of k l] le [of l k] assms by (cases "k \<le> l") auto
qed

locale fakeip_storage =
  fixes ops :: "'s fakeip_storage_ops" and good :: "'s \<Rightarrow> bool"
  assumes good_store: "good st \<Longrightarrow> so_FakeIPLoadDomain ops st d (\<not> Addr_Is4 a) = None \<Longrightarrow>
      good (so_FakeIPStoreAsync ops a d st)"
    and load_store: "good st \<Longrightarrow> so_FakeIPLoadDomain ops st d (\<not> Addr_Is4 a) = None \<Longrightarrow>
      so_FakeIPLoad ops (so_FakeIPStoreAsync ops a d st) x = (if x = a then Some d else so_FakeIPLoad ops st x)"
    and domain_store: "good st \<Longrightarrow> so_FakeIPLoadDomain ops st d (\<not> Addr_Is4 a) = None \<Longrightarrow>
      so_FakeIPLoadDomain ops (so_FakeIPStoreAsync ops a d st) e v6 =
        (if v6 = Addr_Is4 a then so_FakeIPLoadDomain ops st e v6
         else if e = d then Some a
         else if so_FakeIPLoadDomain ops st e v6 = Some a then None else so_FakeIPLoadDomain ops st e v6)"
    and domain_load: "good st \<Longrightarrow> so_FakeIPLoadDomain ops st d v6 = Some a \<Longrightarrow>
      so_FakeIPLoad ops st a = Some d \<and> Addr_Is4 a = (\<not> v6)"
    and save_metadata: "good st \<Longrightarrow> good (so_FakeIPSaveMetadataAsync ops m st) \<and>
      so_FakeIPLoad ops (so_FakeIPSaveMetadataAsync ops m st) = so_FakeIPLoad ops st \<and>
      so_FakeIPLoadDomain ops (so_FakeIPSaveMetadataAsync ops m st) = so_FakeIPLoadDomain ops st"
begin

lemma create_step:
  assumes "store_at good v6 i s" and "fresh ops v6 s d"
  defines "p \<equiv> fs_range v6 s" and "j \<equiv> Suc i mod pool_size (fs_range v6 s)"
  shows "\<exists>s'. Store_Create ops d v6 s = (Inr (pool_addr p j), s') \<and> store_at good v6 j s' \<and>
    (\<forall>w. fs_range w s' = fs_range w s) \<and> (\<forall>w. w \<noteq> v6 \<longrightarrow> fs_current w s' = fs_current w s) \<and>
    (\<forall>a. Store_Contains s' a = Store_Contains s a) \<and>
    (\<forall>x. Store_Lookup ops x s' = (if x = pool_addr p j then Inr (Some d) else Store_Lookup ops x s)) \<and>
    (\<forall>e. e \<noteq> d \<longrightarrow> fresh ops v6 s e \<longrightarrow> fresh ops v6 s' e) \<and>
    Store_Create ops d v6 s' = (Inr (pool_addr p j), s')"
proof -
  from assms(1) obtain st where st: "fs_storage s = Some st" "good st"
    and u: "usable v6 p" "i < pool_size p" and c: "fs_current v6 s = pool_addr p i"
    by (auto simp: store_at_def p_def)
  let ?a = "pool_addr p j"
  have j: "j < pool_size p" unfolding j_def p_def [symmetric] using u(2) by (intro mod_less_divisor) simp
  have n: "next_address p (fs_current v6 s) = ?a"
    unfolding c j_def p_def [symmetric] by (rule next_address_pool [OF u])
  have f: "so_FakeIPLoadDomain ops st d (\<not> Addr_Is4 ?a) = None" "so_FakeIPLoadDomain ops st d v6 = None"
    using assms(2) st(1) pool_contains(3) [OF u(1) j] by (simp_all add: fresh_def)
  have v: "Addr_IsValid (fs_current v6 s)" unfolding c by (rule pool_contains(2) [OF u])
  let ?s1 = "if v6 then s\<lparr>fs_inet6Current := ?a\<rparr> else s\<lparr>fs_inet4Current := ?a\<rparr>"
  let ?st = "so_FakeIPSaveMetadataAsync ops (store_metadata ?s1) (so_FakeIPStoreAsync ops ?a d st)"
  let ?s' = "?s1\<lparr>fs_storage := Some ?st\<rparr>"
  note g = good_store [OF st(2) f(1)]
  note m = save_metadata [OF g, of "store_metadata ?s1"]
  have r: "Store_Create ops d v6 s = (Inr ?a, ?s')"
    using st f(2) n v by (cases v6) (simp_all add: Store_Create_def Let_def fs_current_def fs_range_def p_def)
  have again: "Store_Create ops d v6 ?s' = (Inr ?a, ?s')"
    using m domain_store [OF st(2) f(1), of d v6] pool_contains(3) [OF u(1) j]
    by (simp add: Store_Create_def)
  have frame: "store_at good v6 j ?s'" "\<forall>w. fs_range w ?s' = fs_range w s"
    "\<forall>w. w \<noteq> v6 \<longrightarrow> fs_current w ?s' = fs_current w s" "\<forall>a. Store_Contains ?s' a = Store_Contains s a"
    using st m u(1) j by (cases v6; simp add: store_at_def fs_range_def fs_current_def Store_Contains_def p_def)+
  have look: "\<forall>x. Store_Lookup ops x ?s' = (if x = ?a then Inr (Some d) else Store_Lookup ops x s)"
    using st m load_store [OF st(2) f(1)] by (simp add: Store_Lookup_def)
  have "\<forall>e. e \<noteq> d \<longrightarrow> fresh ops v6 s e \<longrightarrow> fresh ops v6 ?s' e"
    using st m domain_store [OF st(2) f(1)] by (simp add: fresh_def)
  with r frame look again show ?thesis by blast
qed

lemma creates:
  assumes "store_at good v6 i s" and "distinct ds" and "list_all (fresh ops v6 s) ds"
  defines "p \<equiv> fs_range v6 s" and "N \<equiv> pool_size (fs_range v6 s)"
  defines "as \<equiv> map (\<lambda>k. pool_addr (fs_range v6 s) ((i + 1 + k) mod pool_size (fs_range v6 s))) [0..<length ds]"
  shows "\<exists>s'. Store_Creates ops v6 ds s = (map Inr as, s') \<and>
    (\<forall>x. x \<notin> set as \<longrightarrow> Store_Lookup ops x s' = Store_Lookup ops x s) \<and>
    (distinct as \<longrightarrow> (\<forall>k < length ds. Store_Lookup ops (as ! k) s' = Inr (Some (ds ! k)))) \<and>
    (\<forall>a. Store_Contains s' a = Store_Contains s a)"
  using assms(1-3) unfolding as_def
proof (induction ds arbitrary: s i)
  case Nil
  then show ?case by simp
next
  case (Cons d ds)
  let ?N = "pool_size (fs_range v6 s)"
  let ?a = "pool_addr (fs_range v6 s) (Suc i mod ?N)"
  from Cons.prems(3) have fr: "fresh ops v6 s d" "list_all (fresh ops v6 s) ds" by simp_all
  from create_step [OF Cons.prems(1) fr(1)] obtain s1 where s1:
    "Store_Create ops d v6 s = (Inr ?a, s1)" "store_at good v6 (Suc i mod ?N) s1"
    "\<forall>w. fs_range w s1 = fs_range w s" "\<forall>a. Store_Contains s1 a = Store_Contains s a"
    "\<forall>x. Store_Lookup ops x s1 = (if x = ?a then Inr (Some d) else Store_Lookup ops x s)"
    "\<forall>e. e \<noteq> d \<longrightarrow> fresh ops v6 s e \<longrightarrow> fresh ops v6 s1 e" by blast
  let ?as = "map (\<lambda>k. pool_addr (fs_range v6 s) ((i + 2 + k) mod ?N)) [0..<length ds]"
  have as: "map (\<lambda>k. pool_addr (fs_range v6 s1) ((Suc i mod ?N + 1 + k) mod pool_size (fs_range v6 s1))) [0..<length ds] = ?as"
    unfolding s1(3) [rule_format] by (intro map_cong refl arg_cong [of _ _ "pool_addr (fs_range v6 s)"] mod_shift)
  have ls: "map (\<lambda>k. pool_addr (fs_range v6 s) ((i + 1 + k) mod ?N)) [0..<length (d # ds)] = ?a # ?as"
    by (simp add: upt_conv_Cons map_Suc_upt [symmetric] del: upt_Suc)
  have "list_all (fresh ops v6 s1) ds"
    using fr(2) Cons.prems(2) s1(6) by (auto simp: list_all_iff)
  from Cons.IH [OF s1(2) _ this, unfolded as] Cons.prems(2) obtain s' where s':
    "Store_Creates ops v6 ds s1 = (map Inr ?as, s')"
    "\<forall>x. x \<notin> set ?as \<longrightarrow> Store_Lookup ops x s' = Store_Lookup ops x s1"
    "distinct ?as \<longrightarrow> (\<forall>k < length ds. Store_Lookup ops (?as ! k) s' = Inr (Some (ds ! k)))"
    "\<forall>a. Store_Contains s' a = Store_Contains s1 a" by auto
  have look: "Store_Lookup ops x s' = (if x \<in> set ?as then Store_Lookup ops x s' else
      if x = ?a then Inr (Some d) else Store_Lookup ops x s)" for x
    using s'(2) s1(5) by simp
  show ?case
    unfolding ls
  proof (intro exI [of _ s'] conjI allI impI)
    show "Store_Creates ops v6 (d # ds) s = (map Inr (?a # ?as), s')" by (simp add: s1(1) s'(1) del: map_map)
    show "Store_Lookup ops x s' = Store_Lookup ops x s" if "x \<notin> set (?a # ?as)" for x
      using that by (subst look) simp
    show "Store_Lookup ops ((?a # ?as) ! k) s' = Inr (Some ((d # ds) ! k))"
      if "distinct (?a # ?as)" "k < length (d # ds)" for k
    proof (cases k)
      case 0
      then show ?thesis using that(1) by (subst look) simp
    next
      case (Suc l)
      with that s'(3) show ?thesis by simp
    qed
    show "Store_Contains s' a = Store_Contains s a" for a by (simp add: s'(4) s1(4))
  qed
qed

end

subsection \<open>The storage in memory\<close>

text \<open>The address table and the two domain tables are inverse to each other.\<close>

definition memory_good :: "memory_storage \<Rightarrow> bool" where
  "memory_good m \<longleftrightarrow>
     (\<forall>a d. ms_addressCache m a = Some d \<longleftrightarrow>
        (if Addr_Is4 a then ms_domainCache4 m d = Some a else ms_domainCache6 m d = Some a)) \<and>
     (\<forall>d a. ms_domainCache4 m d = Some a \<longrightarrow> Addr_Is4 a) \<and> (\<forall>d a. ms_domainCache6 m d = Some a \<longrightarrow> \<not> Addr_Is4 a)"

lemma memory_good_new: "memory_good NewMemoryStorage"
  by (simp add: memory_good_def NewMemoryStorage_def)

lemma memory_good_reset: "memory_good (snd (Memory_FakeIPReset m))"
  by (simp add: memory_good_def Memory_FakeIPReset_def)

lemma memory_good_domain:
  assumes "memory_good m"
  shows "ms_domainCache4 m d = Some a \<longleftrightarrow> Addr_Is4 a \<and> ms_addressCache m a = Some d"
    and "ms_domainCache6 m d = Some a \<longleftrightarrow> \<not> Addr_Is4 a \<and> ms_addressCache m a = Some d"
proof -
  have eq: "ms_addressCache m a = Some d \<longleftrightarrow>
      (if Addr_Is4 a then ms_domainCache4 m d = Some a else ms_domainCache6 m d = Some a)"
    using assms unfolding memory_good_def by blast
  have "ms_domainCache4 m d = Some a \<Longrightarrow> Addr_Is4 a" "ms_domainCache6 m d = Some a \<Longrightarrow> \<not> Addr_Is4 a"
    using assms unfolding memory_good_def by blast+
  with eq show "ms_domainCache4 m d = Some a \<longleftrightarrow> Addr_Is4 a \<and> ms_addressCache m a = Some d"
    "ms_domainCache6 m d = Some a \<longleftrightarrow> \<not> Addr_Is4 a \<and> ms_addressCache m a = Some d" by auto
qed

lemma Memory_FakeIPStore_caches:
  assumes "memory_good m"
  shows "ms_addressCache (Memory_FakeIPStore a d m) = (ms_addressCache m)(a \<mapsto> d)"
    and "ms_domainCache4 (Memory_FakeIPStore a d m) =
      (if Addr_Is4 a then (\<lambda>e. if ms_domainCache4 m e = Some a then None else ms_domainCache4 m e)(d \<mapsto> a)
       else ms_domainCache4 m)"
    and "ms_domainCache6 (Memory_FakeIPStore a d m) =
      (if \<not> Addr_Is4 a then (\<lambda>e. if ms_domainCache6 m e = Some a then None else ms_domainCache6 m e)(d \<mapsto> a)
       else ms_domainCache6 m)"
  by (auto simp: Memory_FakeIPStore_def Let_def memory_good_domain [OF assms] fun_eq_iff split: option.splits)

lemma memory_good_store:
  assumes "memory_good m" and "Memory_FakeIPLoadDomain m d (\<not> Addr_Is4 a) = None"
  shows "memory_good (Memory_FakeIPStore a d m)"
  using assms unfolding memory_good_def Memory_FakeIPStore_caches [OF assms(1)]
  by (auto simp: Memory_FakeIPLoadDomain_def split: if_splits)

abbreviation storage_good :: "'c + memory_storage \<Rightarrow> bool" where
  "storage_good st \<equiv> (case st of Inl c \<Rightarrow> False | Inr m \<Rightarrow> memory_good m)"

interpretation memory: fakeip_storage "either_ops C memory_ops" storage_good for C
proof (unfold_locales, goal_cases)
  case (1 st d a)
  then show ?case by (auto simp: either_ops_def memory_ops_def memory_good_store split: sum.splits)
next
  case (2 st d a x)
  then show ?case
    by (auto simp: either_ops_def memory_ops_def Memory_FakeIPLoad_def Memory_FakeIPStore_caches split: sum.splits)
next
  case (3 st d a e v6)
  then show ?case
    by (auto simp: either_ops_def memory_ops_def Memory_FakeIPLoadDomain_def Memory_FakeIPStore_caches split: sum.splits)
next
  case (4 st d v6 a)
  then show ?case
    by (auto simp: either_ops_def memory_ops_def Memory_FakeIPLoadDomain_def Memory_FakeIPLoad_def memory_good_def
        split: sum.splits if_splits)
next
  case (5 st m)
  then show ?case by (auto simp: either_ops_def memory_ops_def split: sum.splits)
qed

section \<open>Reachable stores\<close>

text \<open>The store of a process that keeps FakeIP entries in memory, because it has no cache file or one that does not store
  them: started once, then used. The storage in a cache file, with its own errors and rollbacks, is not covered.\<close>

inductive fakeip_reachable ::
  "'c fakeip_storage_ops \<Rightarrow> prefix \<Rightarrow> prefix \<Rightarrow> ('c + memory_storage) fakeip_store \<Rightarrow> bool" for C r4 r6 where
  start: "cacheFile = None \<or> cacheFile = Some (c, False) \<Longrightarrow>
    fakeip_reachable C r4 r6 (Store_Start (either_ops C memory_ops) cacheFile (NewStore r4 r6))"
| create: "fakeip_reachable C r4 r6 s \<Longrightarrow> Store_Create (either_ops C memory_ops) d isIPv6 s = (r, s') \<Longrightarrow>
    fakeip_reachable C r4 r6 s'"
| reset: "fakeip_reachable C r4 r6 s \<Longrightarrow> Store_Reset (either_ops C memory_ops) s = (r, s') \<Longrightarrow>
    fakeip_reachable C r4 r6 s'"
| close: "fakeip_reachable C r4 r6 s \<Longrightarrow> Store_Close (either_ops C memory_ops) s = (r, s') \<Longrightarrow>
    fakeip_reachable C r4 r6 s'"

definition configured :: "bool \<Rightarrow> prefix \<Rightarrow> bool" where
  "configured isIPv6 p \<longleftrightarrow> p = NoPrefix \<or> usable isIPv6 p"

definition fakeip_inv :: "prefix \<Rightarrow> prefix \<Rightarrow> ('c + memory_storage) fakeip_store \<Rightarrow> bool" where
  "fakeip_inv r4 r6 s \<longleftrightarrow>
     (\<exists>m. fs_storage s = Some (Inr m) \<and> memory_good m \<and> (\<forall>x. ms_addressCache m x \<noteq> None \<longrightarrow> Store_Contains s x)) \<and>
     (\<forall>w. fs_range w s = (if w then r6 else r4) \<and>
       (fs_range w s = NoPrefix \<and> fs_current w s = NoAddr \<or> (\<exists>i. store_at storage_good w i s)))"

lemma fakeip_invD:
  assumes "fakeip_inv r4 r6 s"
  shows "\<exists>m. fs_storage s = Some (Inr m) \<and> memory_good m \<and> (\<forall>x. ms_addressCache m x \<noteq> None \<longrightarrow> Store_Contains s x)"
    and "fs_range w s = (if w then r6 else r4)"
    and "fs_range w s = NoPrefix \<and> fs_current w s = NoAddr \<or> (\<exists>i. store_at storage_good w i s)"
  using assms unfolding fakeip_inv_def by blast+

lemma fakeip_invI:
  assumes "fs_storage s = Some (Inr m)" "memory_good m" "\<And>x. ms_addressCache m x \<noteq> None \<Longrightarrow> Store_Contains s x"
    and "\<And>w. fs_range w s = (if w then r6 else r4)"
    and "\<And>w. fs_range w s = NoPrefix \<and> fs_current w s = NoAddr \<or> (\<exists>i. store_at storage_good w i s)"
  shows "fakeip_inv r4 r6 s"
  using assms unfolding fakeip_inv_def by blast

lemma Store_Lookup_memory:
  "fs_storage s = Some (Inr m) \<Longrightarrow> Store_Lookup (either_ops C memory_ops) x s = Inr (ms_addressCache m x)"
  by (simp add: Store_Lookup_def either_ops_def memory_ops_def Memory_FakeIPLoad_def)

lemma configured_valid: "configured w p \<Longrightarrow> Prefix_IsValid p \<longleftrightarrow> p \<noteq> NoPrefix"
  by (cases p rule: Prefix_IsValid.cases) (auto simp: configured_def usable_def)

lemma fakeip_inv_start:
  assumes "configured False r4" and "configured True r6" and "cacheFile = None \<or> cacheFile = Some (c, False)"
  shows "fakeip_inv r4 r6 (Store_Start (either_ops C memory_ops) cacheFile (NewStore r4 r6))"
proof -
  have st: "(case cacheFile of Some (c, True) \<Rightarrow> Inl c | _ \<Rightarrow> Inr NewMemoryStorage) = Inr NewMemoryStorage"
    using assms(3) by auto
  let ?s = "Store_Start (either_ops C memory_ops) cacheFile (NewStore r4 r6)"
  have s: "?s = \<lparr>fs_inet4Range = r4, fs_inet6Range = r6,
      fs_storage = Some (Inr (snd (Memory_FakeIPReset NewMemoryStorage))),
      fs_inet4Current = (if r4 = NoPrefix then NoAddr else Addr_Next (Addr_Next (Prefix_Addr r4))),
      fs_inet6Current = (if r6 = NoPrefix then NoAddr else Addr_Next (Addr_Next (Prefix_Addr r6)))\<rparr>"
    unfolding Store_Start_def Let_def st using configured_valid [OF assms(1)] configured_valid [OF assms(2)]
    by (simp add: either_ops_def memory_ops_def NewStore_def)
  have at: "fs_range w ?s = NoPrefix \<and> fs_current w ?s = NoAddr \<or> store_at storage_good w 0 ?s" for w
    using assms(1,2) pool_first [of w] memory_good_reset [of NewMemoryStorage]
    by (cases w) (auto simp: s configured_def store_at_def fs_range_def fs_current_def usable_def)
  show ?thesis
  proof (rule fakeip_invI)
    show "fs_storage ?s = Some (Inr (snd (Memory_FakeIPReset NewMemoryStorage)))" by (simp add: s)
    show "fs_range w ?s = (if w then r6 else r4)" for w by (simp add: s fs_range_def)
    show "fs_range w ?s = NoPrefix \<and> fs_current w ?s = NoAddr \<or> (\<exists>i. store_at storage_good w i ?s)" for w
      using at by blast
  qed (simp_all add: memory_good_reset, simp add: Memory_FakeIPReset_def)
qed

lemma range_contains: "Prefix_Contains (fs_range w s) a \<Longrightarrow> Store_Contains s a"
  by (cases w) (simp_all add: fs_range_def Store_Contains_def)

lemma fakeip_inv_create:
  assumes "fakeip_inv r4 r6 s" and "Store_Create (either_ops C memory_ops) d v6 s = (r, s')"
  shows "fakeip_inv r4 r6 s'"
proof -
  let ?O = "either_ops C memory_ops"
  from fakeip_invD(1) [OF assms(1)] obtain m where m: "fs_storage s = Some (Inr m)" "memory_good m"
    "\<forall>x. ms_addressCache m x \<noteq> None \<longrightarrow> Store_Contains s x" by blast
  note f = fakeip_invD(2,3) [OF assms(1)]
  show ?thesis
  proof (cases "fresh ?O v6 s d \<and> (\<exists>i. store_at storage_good v6 i s)")
    case False
    then have "s' = s"
      using assms(2) f(2) [of v6] m(1)
      by (cases v6) (auto simp: Store_Create_def fresh_def fs_current_def Addr_IsValid_def split: option.splits)
    with assms(1) show ?thesis by simp
  next
    case True
    then obtain i where i: "store_at storage_good v6 i s" by blast
    let ?p = "fs_range v6 s" let ?j = "Suc i mod pool_size (fs_range v6 s)"
    from memory.create_step [OF i, of C d] True assms(2) have s':
      "store_at storage_good v6 ?j s'" "\<forall>w. fs_range w s' = fs_range w s"
      "\<forall>w. w \<noteq> v6 \<longrightarrow> fs_current w s' = fs_current w s" "\<forall>a. Store_Contains s' a = Store_Contains s a"
      "\<forall>x. Store_Lookup ?O x s' = (if x = pool_addr ?p ?j then Inr (Some d) else Store_Lookup ?O x s)" by auto
    from s'(1) obtain st where st: "fs_storage s' = Some st" "storage_good st" by (auto simp: store_at_def)
    then obtain m' where m': "fs_storage s' = Some (Inr m')" "memory_good m'" by (cases st) auto
    have c: "Store_Contains s (pool_addr ?p ?j)"
      using pool_contains(1) [of v6 ?p ?j] s'(1,2) by (intro range_contains [of v6]) (simp add: store_at_def)
    show ?thesis
    proof (rule fakeip_invI [OF m'])
      show "Store_Contains s' x" if "ms_addressCache m' x \<noteq> None" for x
        using that s'(4) s'(5) [rule_format, of x] c m(1,3) m'(1)
        by (cases "x = pool_addr ?p ?j") (simp_all add: Store_Lookup_memory)
      show "fs_range w s' = (if w then r6 else r4)" for w using s'(2) f(1) by simp
      show "fs_range w s' = NoPrefix \<and> fs_current w s' = NoAddr \<or> (\<exists>i. store_at storage_good w i s')" for w
        using f(2) [of w] s' m' by (cases "w = v6") (auto simp: store_at_def)
    qed
  qed
qed

lemma fakeip_inv_reset:
  assumes "fakeip_inv r4 r6 s" and "Store_Reset (either_ops C memory_ops) s = (r, s')"
  shows "fakeip_inv r4 r6 s'"
proof -
  from fakeip_invD(1) [OF assms(1)] obtain m where m: "fs_storage s = Some (Inr m)" by blast
  let ?m = "snd (Memory_FakeIPReset m)"
  have s': "s' = s\<lparr>fs_storage := Some (Inr ?m)\<rparr>"
    using assms(2) m by (cases "Memory_FakeIPReset m") (auto simp: Store_Reset_def either_ops_def memory_ops_def)
  have k: "fs_range w s' = fs_range w s" "fs_current w s' = fs_current w s" for w
    by (simp_all add: s' fs_range_def fs_current_def)
  have st: "fs_storage s' = Some (Inr ?m)" by (simp add: s')
  show ?thesis
  proof (rule fakeip_invI)
    show "fs_storage s' = Some (Inr ?m)" by (rule st)
    show "fs_range w s' = NoPrefix \<and> fs_current w s' = NoAddr \<or> (\<exists>i. store_at storage_good w i s')" for w
      using fakeip_invD(3) [OF assms(1), of w] memory_good_reset [of m] st by (auto simp: k store_at_def)
    show "Store_Contains s' x" if "ms_addressCache ?m x \<noteq> None" for x
      using that by (simp add: Memory_FakeIPReset_def)
  qed (simp_all add: memory_good_reset k fakeip_invD(2) [OF assms(1)])
qed

lemma fakeip_reachable_inv:
  assumes "fakeip_reachable C r4 r6 s" and "configured False r4" and "configured True r6"
  shows "fakeip_inv r4 r6 s"
  using assms(1)
proof induction
  case (start cacheFile c)
  show ?case by (rule fakeip_inv_start [OF assms(2,3) start])
next
  case (create s d isIPv6 r s')
  from create(3,2) show ?case by (rule fakeip_inv_create)
next
  case (reset s r s')
  from reset(3,2) show ?case by (rule fakeip_inv_reset)
next
  case (close s r s')
  from fakeip_invD(1) [OF close(3)] obtain m where "fs_storage s = Some (Inr m)" by blast
  with close(2) have "s' = s" by (auto simp: Store_Close_def either_ops_def memory_ops_def)
  with close(3) show ?case by simp
qed

lemma fakeip_reachable_at:
  assumes "fakeip_inv r4 r6 s" and "usable v6 (if v6 then r6 else r4)"
  obtains i where "store_at storage_good v6 i s"
proof -
  have "(if v6 then r6 else r4) \<noteq> NoPrefix" using assms(2) by (auto simp: usable_def split: if_splits)
  with fakeip_invD(2,3) [OF assms(1), of v6] that show ?thesis by metis
qed

lemma contains_valid: "Store_Contains s a \<Longrightarrow> Addr_IsValid a"
  by (cases a) (auto simp: Store_Contains_def Addr_IsValid_def)

lemma fakeip_create_ok:
  assumes "fakeip_reachable C r4 r6 s" and "configured False r4" and "configured True r6"
    and "usable v6 (if v6 then r6 else r4)"
  shows "\<exists>a s'. Store_Create (either_ops C memory_ops) d v6 s = (Inr a, s') \<and> Addr_Is4 a = (\<not> v6) \<and>
    Addr_IsValid a \<and> Store_Contains s' a \<and> Store_Lookup (either_ops C memory_ops) a s' = Inr (Some d) \<and>
    Store_Create (either_ops C memory_ops) d v6 s' = (Inr a, s')"
proof -
  let ?O = "either_ops C memory_ops"
  note i = fakeip_reachable_inv [OF assms(1-3)]
  obtain i where at: "store_at storage_good v6 i s" by (rule fakeip_reachable_at [OF i assms(4)])
  from fakeip_invD(1) [OF i] obtain m where m: "fs_storage s = Some (Inr m)" "memory_good m"
    "\<forall>x. ms_addressCache m x \<noteq> None \<longrightarrow> Store_Contains s x" by blast
  show ?thesis
  proof (cases "so_FakeIPLoadDomain ?O (Inr m) d v6")
    case (Some a)
    then have c: "Store_Create ?O d v6 s = (Inr a, s)" using m(1) by (simp add: Store_Create_def)
    have "so_FakeIPLoad ?O (Inr m) a = Some d \<and> Addr_Is4 a = (\<not> v6)"
      using memory.domain_load [of "Inr m" C d v6 a] Some m(2) by simp
    then have "Store_Lookup ?O a s = Inr (Some d)" "Addr_Is4 a = (\<not> v6)" using m(1) by (simp_all add: Store_Lookup_def)
    with c m(1,3) show ?thesis by (auto simp: Store_Lookup_memory contains_valid)
  next
    case None
    then have "fresh ?O v6 s d" using m(1) by (simp add: fresh_def)
    from memory.create_step [OF at this] obtain j s' where s':
      "Store_Create ?O d v6 s = (Inr (pool_addr (fs_range v6 s) j), s')" "store_at storage_good v6 j s'"
      "\<forall>w. fs_range w s' = fs_range w s" "Store_Lookup ?O (pool_addr (fs_range v6 s) j) s' = Inr (Some d)"
      "Store_Create ?O d v6 s' = (Inr (pool_addr (fs_range v6 s) j), s')" by auto
    have "usable v6 (fs_range v6 s')" "j < pool_size (fs_range v6 s')"
      using s'(2) by (simp_all add: store_at_def)
    from pool_contains [OF this] s'(3) have "Addr_Is4 (pool_addr (fs_range v6 s) j) = (\<not> v6)"
      "Store_Contains s' (pool_addr (fs_range v6 s) j)" by (simp_all add: range_contains)
    with s' contains_valid show ?thesis by blast
  qed
qed

lemma fakeip_create_known:
  assumes "fakeip_reachable C r4 r6 s" and "configured False r4" and "configured True r6"
    and "usable v6 (if v6 then r6 else r4)"
  shows "\<exists>a s'. Store_Create (either_ops C memory_ops) d v6 s = (Inr a, s') \<and> Addr_IsValid a \<and>
    Store_Contains s' a \<and> Store_Lookup (either_ops C memory_ops) a s' = Inr (Some d)"
  using fakeip_create_ok [OF assms, of d] by blast

section \<open>Properties\<close>

text \<open>C3 (fakeip_round_trip): in every reachable state of a FakeIP store that keeps its entries in memory (no cache file, or one that does not store FakeIP)
  and whose configured ranges have room,
  asking for a domain's address of a configured family succeeds; the address belongs to the
  store's ranges and to the family, translates back to the domain, and is given again when
  the domain is asked for again.\<close>

theorem fakeip_round_trip:
  assumes "fakeip_reachable C r4 r6 s" and "configured False r4" and "configured True r6"
    and "usable v6 (if v6 then r6 else r4)"
  shows "\<exists>a s'. Store_Create (either_ops C memory_ops) d v6 s = (Inr a, s') \<and> Addr_Is4 a = (\<not> v6) \<and>
    Store_Contains s' a \<and> Store_Lookup (either_ops C memory_ops) a s' = Inr (Some d) \<and>
    Store_Create (either_ops C memory_ops) d v6 s' = (Inr a, s')"
  using fakeip_create_ok [OF assms, of d] by blast

text \<open>Witnesses: a store with the IPv4 range \<^verbatim>\<open>198.18.0.0/29\<close>, and no cache file.\<close>

definition sample_range :: prefix where
  "sample_range = Prefix (IPv4 3323068416) 29"

definition sample_store :: "(memory_storage + memory_storage) fakeip_store" where
  "sample_store = Store_Start (either_ops memory_ops memory_ops) None (NewStore sample_range NoPrefix)"

lemma sample_usable: "usable False sample_range" "configured False sample_range" "configured True NoPrefix"
  "pool_size sample_range = 6"
proof -
  have "pool_size sample_range = 6" by (simp add: pool_size_def sample_range_def)
  then show "usable False sample_range" "configured False sample_range" "configured True NoPrefix"
    "pool_size sample_range = 6"
    by (simp_all add: usable_def configured_def) (simp_all add: sample_range_def)
qed

lemma sample_store_reachable: "fakeip_reachable memory_ops sample_range NoPrefix sample_store"
  unfolding sample_store_def by (rule fakeip_reachable.start) simp

lemma sample_store_storage: "fs_storage sample_store = Some (Inr NewMemoryStorage)"
  by (simp add: sample_store_def Store_Start_def either_ops_def memory_ops_def Memory_FakeIPReset_def
      NewMemoryStorage_def Let_def)

theorem fakeip_round_trip_witness:
  "\<exists>a s'. Store_Create (either_ops memory_ops memory_ops) ''a.example'' False sample_store = (Inr a, s') \<and>
    Store_Lookup (either_ops memory_ops memory_ops) a s' = Inr (Some ''a.example'')"
  using fakeip_round_trip [OF sample_store_reachable, of False "''a.example''"] sample_usable by auto

text \<open>C11 (fakeip_pool_unique): in a FakeIP store that keeps its entries in memory, as long as no more new domains are asked for
  than the range has addresses for use, every domain gets an address of its own inside the range, and at the end every one of
  these addresses still translates back to its domain.\<close>

theorem fakeip_pool_unique:
  assumes "fakeip_reachable C r4 r6 s" and "configured False r4" and "configured True r6"
    and "usable v6 (if v6 then r6 else r4)"
    and "distinct ds" and "list_all (fresh (either_ops C memory_ops) v6 s) ds"
    and "length ds \<le> pool_size (if v6 then r6 else r4)"
  shows "\<exists>as s'. Store_Creates (either_ops C memory_ops) v6 ds s = (map Inr as, s') \<and>
    length as = length ds \<and> distinct as \<and> list_all (Store_Contains s') as \<and>
    (\<forall>k < length ds. Store_Lookup (either_ops C memory_ops) (as ! k) s' = Inr (Some (ds ! k)))"
proof -
  note iv = fakeip_reachable_inv [OF assms(1-3)]
  obtain i where at: "store_at storage_good v6 i s" by (rule fakeip_reachable_at [OF iv assms(4)])
  let ?p = "fs_range v6 s" let ?N = "pool_size (fs_range v6 s)"
  let ?as = "map (\<lambda>k. pool_addr ?p ((i + 1 + k) mod ?N)) [0..<length ds]"
  have r: "?p = (if v6 then r6 else r4)" by (rule fakeip_invD(2) [OF iv])
  have u: "usable v6 ?p" "length ds \<le> ?N" using assms(4,7) unfolding r .
  have lt: "x mod ?N < ?N" for x using u(1) by (auto simp: usable_def)
  have d: "distinct ?as"
    unfolding distinct_map
  proof (intro conjI inj_onI)
    fix k l
    assume kl: "k \<in> set [0..<length ds]" "l \<in> set [0..<length ds]"
      and e: "pool_addr ?p ((i + 1 + k) mod ?N) = pool_addr ?p ((i + 1 + l) mod ?N)"
    from pool_addr_inj [OF u(1) lt lt e] show "k = l" by (rule mod_shift_inj) (use kl u(2) in auto)
  qed simp
  from memory.creates [OF at assms(5,6)] obtain s' where s': "Store_Creates (either_ops C memory_ops) v6 ds s = (map Inr ?as, s')"
    "distinct ?as \<longrightarrow> (\<forall>k < length ds. Store_Lookup (either_ops C memory_ops) (?as ! k) s' = Inr (Some (ds ! k)))"
    "\<forall>a. Store_Contains s' a = Store_Contains s a" by blast
  have "list_all (Store_Contains s') ?as"
    using range_contains [OF pool_contains(1) [OF u(1) lt]] s'(3) by (simp add: list_all_iff)
  moreover have "length ?as = length ds" by simp
  ultimately show ?thesis using s'(1,2) d by blast
qed

theorem fakeip_pool_unique_witness:
  "\<exists>as s'. Store_Creates (either_ops memory_ops memory_ops) False [''a'', ''b'', ''c''] sample_store = (map Inr as, s') \<and>
    length as = 3 \<and> distinct as \<and> list_all (Store_Contains s') as"
proof -
  have "list_all (fresh (either_ops memory_ops memory_ops) False sample_store) [''a'', ''b'', ''c'']"
    by (simp add: fresh_def sample_store_storage either_ops_def memory_ops_def Memory_FakeIPLoadDomain_def
        NewMemoryStorage_def)
  from fakeip_pool_unique [OF sample_store_reachable _ _ _ _ this] sample_usable show ?thesis by auto
qed

text \<open>Remark (fakeip_small_range_escapes): a range of a single address is accepted, and the address it hands
  out lies outside of it: the store does not recognise its own answer.\<close>

theorem fakeip_small_range_escapes:
  assumes "b + 1 \<noteq> 0" and "b + 1 + 1 \<noteq> 0"
  shows "\<exists>s'. Store_Create (either_ops C memory_ops) d False
      (Store_Start (either_ops C memory_ops) None (NewStore (Prefix (IPv4 b) 32) NoPrefix)) =
        (Inr (IPv4 (b + 1 + 1)), s') \<and>
    \<not> Store_Contains s' (IPv4 (b + 1 + 1))"
proof -
  have "b + 1 + 1 \<noteq> b" "b + 1 + 1 + 1 \<noteq> b" by simp_all
  with assms have n: "next_address (Prefix (IPv4 b) 32) (IPv4 (b + 1 + 1)) = IPv4 (b + 1 + 1)"
    and o: "\<not> Prefix_Contains (Prefix (IPv4 b) 32) (IPv4 (b + 1 + 1))"
    unfolding next_address_def Let_def by (simp_all del: add_numeral_special one_add_one)
  let ?s = "Store_Start (either_ops C memory_ops) None (NewStore (Prefix (IPv4 b) 32) NoPrefix)"
  have s: "fs_storage ?s = Some (Inr NewMemoryStorage)" "fs_inet4Current ?s = IPv4 (b + 1 + 1)"
    "fs_inet4Range ?s = Prefix (IPv4 b) 32" "fs_inet6Range ?s = NoPrefix"
    using assms unfolding Store_Start_def Let_def
    by (simp_all add: NewStore_def either_ops_def memory_ops_def NewMemoryStorage_def
        Memory_FakeIPReset_def del: add_numeral_special one_add_one)
  have f: "so_FakeIPLoadDomain (either_ops C memory_ops) (Inr NewMemoryStorage) d False = None"
    by (simp add: either_ops_def memory_ops_def NewMemoryStorage_def Memory_FakeIPLoadDomain_def)
  show ?thesis
    unfolding Store_Create_def using s f n o by (simp add: Addr_IsValid_def Store_Contains_def Let_def)
qed

theorem fakeip_small_range_escapes_witness:
  "\<exists>s'. Store_Create (either_ops memory_ops memory_ops) ''a.example'' False
      (Store_Start (either_ops memory_ops memory_ops) None (NewStore (Prefix (IPv4 3323068416) 32) NoPrefix)) =
        (Inr (IPv4 3323068418), s') \<and> \<not> Store_Contains s' (IPv4 3323068418)"
  using fakeip_small_range_escapes [of 3323068416 memory_ops "''a.example''"] by simp

end
