(* ===== verification/Start_Order.thy ===== *)
theory Start_Order
  imports Prelude "HOL-Library.AList"
begin

text \<open>
  What the managers of outbounds and of DNS transports share: the start stages of
  \<^verbatim>\<open>adapter/lifecycle.go\<close>, the legacy start functions of \<^verbatim>\<open>adapter/lifecycle_legacy.go\<close>, and the
  start in dependency order, which \<^verbatim>\<open>adapter/outbound/manager.go\<close> and
  \<^verbatim>\<open>dns/transport_manager.go\<close> have word for word but for the messages.

  A service is an object of its own package: its identity, type, tag, dependencies and what
  its start and close functions return. What a manager calls on services is returned as a
  list of events.
\<close>

section \<open>Start stages\<close>

datatype start_stage = StartStateInitialize | StartStateStart | StartStatePostStart | StartStateStarted

fun stage_number :: "start_stage \<Rightarrow> nat" where
  "stage_number StartStateInitialize = 0"
| "stage_number StartStateStart = 1"
| "stage_number StartStatePostStart = 2"
| "stage_number StartStateStarted = 3"

definition ListStartStages :: "start_stage list" where
  "ListStartStages = [StartStateInitialize, StartStateStart, StartStatePostStart, StartStateStarted]"

fun StartStage_String :: "start_stage \<Rightarrow> string" where
  "StartStage_String StartStateInitialize = ''initialize''"
| "StartStage_String StartStateStart = ''start''"
| "StartStage_String StartStatePostStart = ''post-start''"
| "StartStage_String StartStateStarted = ''finish-start''"

section \<open>Services\<close>

text \<open>
  The start functions an object has: those of \<^verbatim>\<open>adapter.Lifecycle\<close>, by stage, or any of the
  legacy \<^verbatim>\<open>PreStart\<close>, \<^verbatim>\<open>Start\<close> and \<^verbatim>\<open>PostStart\<close> (\<open>None\<close> when it does not have one). A function
  is represented by the error it returns.
\<close>

datatype starter =
    Lifecycle "start_stage \<Rightarrow> error option"
  | Legacy "error option option" "error option option" "error option option"

record service =
  sv_id :: nat
  sv_Type :: string
  sv_Tag :: string
  sv_Dependencies :: "string list"
  sv_starter :: starter
  sv_closer :: "error option option"

datatype 's event = Started 's start_stage | Closed 's

definition called :: "error option option \<Rightarrow> error option" where
  "called f = (case f of None \<Rightarrow> None | Some r \<Rightarrow> r)"

definition LegacyStart :: "'a service_scheme \<Rightarrow> start_stage \<Rightarrow> error option" where
  "LegacyStart ob stage =
     (case sv_starter ob of
        Lifecycle f \<Rightarrow> f stage
      | Legacy preStart start postStart \<Rightarrow>
          (case stage of
             StartStateInitialize \<Rightarrow> called preStart
           | StartStateStart \<Rightarrow> called start
           | StartStateStarted \<Rightarrow> called postStart
           | StartStatePostStart \<Rightarrow> None))"

text \<open>The words a manager uses in its messages.\<close>

record start_words =
  sw_prefix :: string
  sw_name :: string

definition service_text :: "start_words \<Rightarrow> 'a service_scheme \<Rightarrow> string" where
  "service_text K ob = '' '' @ sw_prefix K @ sv_Type ob @ ''['' @ sv_Tag ob @ '']''"

section \<open>Start in dependency order\<close>

text \<open>
  One pass over the outbounds: those that are not started and whose dependencies are get
  started. The result is the error that ended the pass, the tags started so far, the
  events, and whether the pass started anything.
\<close>

fun start_pass ::
  "start_words \<Rightarrow> 'a service_scheme list \<Rightarrow> string list \<Rightarrow> 'a service_scheme event list \<Rightarrow> bool \<Rightarrow> error option \<times> string list \<times> 'a service_scheme event list \<times> bool" where
  "start_pass K [] started evs canContinue = (None, started, evs, canContinue)"
| "start_pass K (ob # obs) started evs canContinue =
     (if sv_Tag ob \<in> set started then start_pass K obs started evs canContinue
      else if \<not> list_all (\<lambda>d. d \<in> set started) (sv_Dependencies ob) then start_pass K obs started evs canContinue
      else
        (let started' = started @ [sv_Tag ob]; evs' = evs @ [Started ob StartStateStart] in
         case LegacyStart ob StartStateStart of
           Some e \<Rightarrow> (Some (ECause e (''start'' @ service_text K ob)), started', evs', True)
         | None \<Rightarrow> start_pass K obs started' evs' True))"

text \<open>Why nothing can be started: a cycle of dependencies or a missing one.\<close>

lemma length_filter_strict:
  assumes "\<And>y. y \<in> set xs \<Longrightarrow> Q y \<Longrightarrow> P y" and "x \<in> set xs" "P x" "\<not> Q x"
  shows "length (filter Q xs) < length (filter P xs)"
proof -
  have "filter Q xs = filter Q (filter P xs)" using assms(1) by (auto intro: filter_cong)
  moreover have "length (filter Q (filter P xs)) < length (filter P xs)"
    by (rule length_filter_less [of x]) (use assms(2-4) in auto)
  ultimately show ?thesis by simp
qed

definition find_unstarted :: "string list \<Rightarrow> string list \<Rightarrow> string" where
  "find_unstarted started deps = (case find (\<lambda>d. d \<notin> set started) deps of None \<Rightarrow> [] | Some d \<Rightarrow> d)"

function lint_dependency ::
  "start_words \<Rightarrow> (string \<times> 'a service_scheme) list \<Rightarrow> string list \<Rightarrow> string list \<Rightarrow> 'a service_scheme \<Rightarrow> error" where
  "lint_dependency K byTag started oTree oCurrent =
     (let problem = find_unstarted started (sv_Dependencies oCurrent) in
      if problem \<in> set oTree
      then ENew (''circular '' @ sw_name K @ '' dependency: '' @ Join oTree '' -> '' @ '' -> '' @ problem)
      else (case map_of byTag problem of
              None \<Rightarrow> ENew (''dependency['' @ problem @ ''] not found for '' @ sw_name K @ ''['' @ sv_Tag oCurrent @ '']'')
            | Some ob \<Rightarrow> lint_dependency K byTag started (oTree @ [problem]) ob))"
  by pat_completeness auto

termination lint_dependency
proof (relation "measure (\<lambda>(_, byTag, _, oTree, _). length (filter (\<lambda>p. fst p \<notin> set oTree) byTag))", goal_cases)
  case (2 K byTag started oTree oCurrent problem ob)
  then show ?case by (auto intro!: length_filter_strict [where x = "(problem, ob)"] dest: map_of_SomeD)
qed simp

lemma start_pass_started:
  "start_pass K obs started evs cc = (r, started', evs', cc') \<Longrightarrow>
   set started \<subseteq> set started' \<and> (cc' \<and> \<not> cc \<longrightarrow> (\<exists>ob \<in> set obs. sv_Tag ob \<notin> set started \<and> sv_Tag ob \<in> set started'))"
  by (induction obs arbitrary: started evs cc)
    (fastforce simp: Let_def split: if_splits option.splits)+

function start_loop ::
  "start_words \<Rightarrow> (string \<times> 'a service_scheme) list \<Rightarrow> 'a service_scheme list \<Rightarrow> string list \<Rightarrow> 'a service_scheme event list \<Rightarrow> error option \<times> 'a service_scheme event list" where
  "start_loop K byTag outbounds started evs =
     (case start_pass K outbounds started evs False of
        (Some e, started', evs', _) \<Rightarrow> (Some e, evs')
      | (None, started', evs', canContinue) \<Rightarrow>
          if length started' = length outbounds then (None, evs')
          else if canContinue then start_loop K byTag outbounds started' evs'
          else (case find (\<lambda>ob. sv_Tag ob \<notin> set started') outbounds of
                  None \<Rightarrow> (Some (EPanic ''nil pointer dereference''), evs')
                | Some currentOutbound \<Rightarrow>
                    (Some (lint_dependency K byTag started' [sv_Tag currentOutbound] currentOutbound), evs')))"
  by pat_completeness auto

termination start_loop
proof (relation "measure (\<lambda>(_, _, obs, started, _). length (filter (\<lambda>ob. sv_Tag ob \<notin> set started) obs))", goal_cases)
  case (2 K byTag outbounds started evs x y started' z evs' canContinue)
  then have p: "start_pass K outbounds started evs False = (None, started', evs', True)" by simp
  from start_pass_started [OF p] obtain ob where "ob \<in> set outbounds" "sv_Tag ob \<notin> set started" "sv_Tag ob \<in> set started'"
    and "set started \<subseteq> set started'" by blast
  then show ?case by (auto intro!: length_filter_strict [where x = ob])
qed simp

text \<open>Every stage in turn, for outbounds in turn.\<close>

fun start_stages :: "start_words \<Rightarrow> 'a service_scheme \<Rightarrow> start_stage list \<Rightarrow> 'a service_scheme event list \<Rightarrow> error option \<times> 'a service_scheme event list" where
  "start_stages K ob [] evs = (None, evs)"
| "start_stages K ob (stage # stages) evs =
     (case LegacyStart ob stage of
        Some e \<Rightarrow> (Some (ECause e (StartStage_String stage @ service_text K ob)), evs @ [Started ob stage])
      | None \<Rightarrow> start_stages K ob stages (evs @ [Started ob stage]))"

fun start_all :: "start_words \<Rightarrow> start_stage \<Rightarrow> 'a service_scheme list \<Rightarrow> 'a service_scheme event list \<Rightarrow> error option \<times> 'a service_scheme event list" where
  "start_all K stage [] evs = (None, evs)"
| "start_all K stage (ob # obs) evs =
     (case LegacyStart ob stage of
        Some e \<Rightarrow> (Some (ECause e (StartStage_String stage @ service_text K ob)), evs @ [Started ob stage])
      | None \<Rightarrow> start_all K stage obs (evs @ [Started ob stage]))"

text \<open>The list without the element that is the same object; \<open>None\<close> when there is none.\<close>

fun remove_object :: "'a service_scheme \<Rightarrow> 'a service_scheme list \<Rightarrow> 'a service_scheme list option" where
  "remove_object ob [] = None"
| "remove_object ob (x # xs) = (if sv_id x = sv_id ob then Some xs else map_option (Cons x) (remove_object ob xs))"

definition is_object :: "'a service_scheme option \<Rightarrow> 'a service_scheme \<Rightarrow> bool" where
  "is_object a ob = (case a of None \<Rightarrow> False | Some x \<Rightarrow> sv_id x = sv_id ob)"

definition drop_dependency :: "string \<Rightarrow> string \<Rightarrow> (string \<Rightarrow> string list) \<Rightarrow> string \<Rightarrow> string list" where
  "drop_dependency tag dependency dependBy =
     dependBy(dependency := (if length (dependBy dependency) = 1 then []
                             else filter (\<lambda>t. t \<noteq> tag) (dependBy dependency)))"

section \<open>Lemmas: start order\<close>

fun event_tag :: "'a service_scheme event \<Rightarrow> string" where
  "event_tag (Started ob stage) = sv_Tag ob"
| "event_tag (Closed ob) = sv_Tag ob"

text \<open>The events are starts of outbounds of the list, each once and after its dependencies.\<close>

definition in_order :: "'a service_scheme list \<Rightarrow> 'a service_scheme event list \<Rightarrow> bool" where
  "in_order obs evs \<longleftrightarrow> distinct (map event_tag evs) \<and>
     (\<forall>i < length evs. \<exists>ob \<in> set obs. evs ! i = Started ob StartStateStart \<and>
        set (sv_Dependencies ob) \<subseteq> event_tag ` set (take i evs))"

lemma in_order_snoc:
  assumes "in_order obs evs" and "ob \<in> set obs" and "sv_Tag ob \<notin> event_tag ` set evs"
    and "set (sv_Dependencies ob) \<subseteq> event_tag ` set evs"
  shows "in_order obs (evs @ [Started ob StartStateStart])"
  unfolding in_order_def
proof (intro conjI allI impI)
  show "distinct (map event_tag (evs @ [Started ob StartStateStart]))"
    using assms(1,3) by (simp add: in_order_def)
  fix i assume "i < length (evs @ [Started ob StartStateStart])"
  then consider "i < length evs" | "i = length evs" by fastforce
  then show "\<exists>x \<in> set obs. (evs @ [Started ob StartStateStart]) ! i = Started x StartStateStart \<and>
      set (sv_Dependencies x) \<subseteq> event_tag ` set (take i (evs @ [Started ob StartStateStart]))"
  proof cases
    case 1
    then obtain x where "x \<in> set obs" "evs ! i = Started x StartStateStart"
      "set (sv_Dependencies x) \<subseteq> event_tag ` set (take i evs)" using assms(1) unfolding in_order_def by blast
    with 1 show ?thesis by (intro bexI [of _ x]) (simp_all add: nth_append)
  next
    case 2
    with assms show ?thesis by (intro bexI [of _ ob]) simp_all
  qed
qed

lemma start_pass_order:
  assumes "start_pass K obs started evs cc = (r, started', evs', cc')"
    and "started = map event_tag evs" and "in_order all evs" and "set obs \<subseteq> set all"
  shows "started' = map event_tag evs' \<and> in_order all evs'"
  using assms
proof (induction obs arbitrary: started evs cc)
  case (Cons ob obs)
  show ?case
  proof (cases "sv_Tag ob \<notin> set started \<and> list_all (\<lambda>d. d \<in> set started) (sv_Dependencies ob)")
    case True
    have o: "in_order all (evs @ [Started ob StartStateStart])"
      by (rule in_order_snoc) (use True Cons.prems in \<open>auto simp: list_all_iff\<close>)
    show ?thesis
    proof (cases "LegacyStart ob StartStateStart")
      case None
      with True Cons.prems show ?thesis
        by (intro Cons.IH [OF _ _ o, of "started @ [sv_Tag ob]" True]) (auto simp: Let_def)
    next
      case (Some e)
      with True Cons.prems o show ?thesis by (auto simp: Let_def)
    qed
  next
    case False
    with Cons.prems have "start_pass K obs started evs cc = (r, started', evs', cc')" by (auto split: if_splits)
    with Cons show ?thesis by simp
  qed
qed simp

text \<open>A pass that starts nothing leaves everything as it was, and nothing can be started.\<close>

lemma start_pass_cc: "start_pass K obs started evs True = (r, started', evs', cc') \<Longrightarrow> cc'"
  by (induction obs arbitrary: started evs) (auto simp: Let_def split: if_splits option.splits)

lemma start_pass_stuck:
  assumes "start_pass K obs started evs False = (r, started', evs', False)"
  shows "r = None \<and> started' = started \<and> evs' = evs \<and>
    (\<forall>ob \<in> set obs. sv_Tag ob \<in> set started \<or> \<not> set (sv_Dependencies ob) \<subseteq> set started)"
  using assms
proof (induction obs)
  case (Cons ob obs)
  show ?case
  proof (cases "sv_Tag ob \<notin> set started \<and> list_all (\<lambda>d. d \<in> set started) (sv_Dependencies ob)")
    case True
    with Cons.prems show ?thesis by (auto simp: Let_def dest: start_pass_cc split: option.splits)
  next
    case False
    with Cons show ?thesis by (auto simp: list_all_iff subset_iff split: if_splits)
  qed
qed simp

lemma start_pass_ok:
  "(\<And>ob. ob \<in> set obs \<Longrightarrow> LegacyStart ob StartStateStart = None) \<Longrightarrow>
   start_pass K obs started evs cc = (r, started', evs', cc') \<Longrightarrow> r = None"
  by (induction obs arbitrary: started evs cc) (auto simp: Let_def split: if_splits option.splits)

declare start_loop.simps [simp del] lint_dependency.simps [simp del]

lemma start_loop_order:
  assumes "in_order obs evs" and "start_loop K byTag obs (map event_tag evs) evs = (r, evs')"
  shows "in_order obs evs' \<and> (r = None \<longrightarrow> length evs' = length obs)"
  using assms
proof (induction K byTag obs "map event_tag evs" evs arbitrary: r evs' rule: start_loop.induct)
  case (1 K byTag obs evs)
  obtain e started' evs1 cc where p: "start_pass K obs (map event_tag evs) evs False = (e, started', evs1, cc)"
    by (metis prod_cases4)
  from start_pass_order [OF p refl 1(2)] have o: "started' = map event_tag evs1" "in_order obs evs1" by simp_all
  show ?case
  proof (cases "e = None \<and> length started' \<noteq> length obs \<and> cc")
    case True
    with 1(1) [OF p [symmetric]] 1(3) o show ?thesis
      by (simp add: start_loop.simps [of K byTag obs "map event_tag evs" evs] p)
  next
    case False
    with 1(3) o show ?thesis
      by (subst (asm) start_loop.simps) (auto simp: p split: option.splits if_splits)
  qed
qed

lemma in_order_tags:
  assumes "in_order obs evs"
  shows "event_tag ` set evs \<subseteq> sv_Tag ` set obs" and "card (event_tag ` set evs) = length evs"
proof -
  show "event_tag ` set evs \<subseteq> sv_Tag ` set obs"
    using assms by (force simp: in_order_def in_set_conv_nth)
  have "card (set (map event_tag evs)) = length (map event_tag evs)"
    using assms by (intro distinct_card) (simp add: in_order_def)
  then show "card (event_tag ` set evs) = length evs" by simp
qed

lemma in_order_all:
  assumes "in_order obs evs" and "length evs = length obs"
  shows "event_tag ` set evs = sv_Tag ` set obs"
proof (rule card_seteq [OF _ in_order_tags(1) [OF assms(1)]])
  have "card (sv_Tag ` set obs) \<le> length obs" by (metis card_length length_map list.set_map)
  then show "card (sv_Tag ` set obs) \<le> card (event_tag ` set evs)"
    using in_order_tags(2) [OF assms(1)] assms(2) by simp
qed simp

text \<open>An order of the outbounds in which each comes after its dependencies.\<close>

definition dependency_order :: "'a service_scheme list \<Rightarrow> 'a service_scheme list \<Rightarrow> bool" where
  "dependency_order obs order \<longleftrightarrow> set order = set obs \<and>
     (\<forall>i < length order. set (sv_Dependencies (order ! i)) \<subseteq> sv_Tag ` set (take i order))"

lemma stuck_all_started:
  assumes "dependency_order obs order"
    and "\<forall>ob \<in> set obs. sv_Tag ob \<in> S \<or> \<not> set (sv_Dependencies ob) \<subseteq> S"
  shows "sv_Tag ` set obs \<subseteq> S"
proof -
  have "sv_Tag ` set (take i order) \<subseteq> S" if "i \<le> length order" for i
    using that
  proof (induction i)
    case (Suc i)
    then have "set (sv_Dependencies (order ! i)) \<subseteq> sv_Tag ` set (take i order)"
      using assms(1) by (simp add: dependency_order_def)
    with Suc have "set (sv_Dependencies (order ! i)) \<subseteq> S" by (meson Suc_leD subset_trans)
    moreover have "order ! i \<in> set obs" using assms(1) Suc.prems by (auto simp: dependency_order_def)
    ultimately have "sv_Tag (order ! i) \<in> S" using assms(2) by blast
    with Suc show ?case by (simp add: take_Suc_conv_app_nth)
  qed simp
  from this [of "length order"] assms(1) show ?thesis by (simp add: dependency_order_def)
qed

lemma start_loop_complete:
  assumes "in_order obs evs" and "\<forall>ob \<in> set obs. LegacyStart ob StartStateStart = None"
    and "dependency_order obs order" and "distinct (map sv_Tag obs)"
  shows "fst (start_loop K byTag obs (map event_tag evs) evs) = None"
  using assms(1,2,3,4)
proof (induction K byTag obs "map event_tag evs" evs rule: start_loop.induct)
  case (1 K byTag obs evs)
  obtain e started' evs1 cc where p: "start_pass K obs (map event_tag evs) evs False = (e, started', evs1, cc)"
    by (metis prod_cases4)
  have e: "e = None" using start_pass_ok [OF _ p] 1(3) by blast
  from start_pass_order [OF p refl 1(2)] have o: "started' = map event_tag evs1" "in_order obs evs1" by simp_all
  show ?case
  proof (cases "length started' = length obs")
    case True
    then show ?thesis by (subst start_loop.simps) (simp add: p e)
  next
    case ne: False
    have cc
    proof (rule ccontr)
      assume "\<not> cc"
      with start_pass_stuck [of K obs "map event_tag evs" evs e started' evs1] p
      have "started' = map event_tag evs" "\<forall>ob \<in> set obs. sv_Tag ob \<in> event_tag ` set evs \<or>
          \<not> set (sv_Dependencies ob) \<subseteq> event_tag ` set evs" by simp_all
      with stuck_all_started [OF 1(4)] have "sv_Tag ` set obs \<subseteq> event_tag ` set evs" "length started' = length evs"
        by simp_all
      with in_order_tags [OF 1(2)] have "card (sv_Tag ` set obs) = length evs" by (metis subset_antisym)
      with distinct_card [OF 1(5)] \<open>length started' = length evs\<close> ne show False by simp
    qed
    with 1(1) [OF p [symmetric]] e ne o 1(3-5) show ?thesis
      by (simp add: start_loop.simps [of K byTag obs "map event_tag evs" evs] p)
  qed
qed

fun event_outbound :: "'a event \<Rightarrow> 'a" where
  "event_outbound (Started ob stage) = ob"
| "event_outbound (Closed ob) = ob"

lemma event_tag_outbound: "event_tag e = sv_Tag (event_outbound e)"
  by (cases e) simp_all

lemma in_order_dependency_order:
  assumes "in_order obs evs" and "length evs = length obs" and "distinct (map sv_Tag obs)"
  shows "dependency_order obs (map event_outbound evs)"
proof -
  have nth: "event_outbound (evs ! i) \<in> set obs \<and>
      set (sv_Dependencies (event_outbound (evs ! i))) \<subseteq> event_tag ` set (take i evs)" if "i < length evs" for i
    using assms(1) that unfolding in_order_def by (metis event_outbound.simps(1))
  then have sub: "set (map event_outbound evs) \<subseteq> set obs" by (auto simp: in_set_conv_nth)
  have inj: "inj_on sv_Tag (set obs)" using assms(3) by (simp add: distinct_map)
  have "sv_Tag ` set (map event_outbound evs) = sv_Tag ` set obs"
    using in_order_all [OF assms(1,2)] by (simp add: image_image event_tag_outbound)
  then have "set (map event_outbound evs) = set obs" using inj_on_image_eq_iff [OF inj sub subset_refl] by simp
  with nth show ?thesis
    by (simp add: dependency_order_def take_map image_image event_tag_outbound)
qed

text \<open>
  What an error of the linter says: it has followed dependencies that are not started from one of the
  list, and the last one goes back to the path, which closes a cycle, or to a tag the table does not have.
\<close>

fun dependency_path :: "(string \<times> 'a service_scheme) list \<Rightarrow> 'a service_scheme list \<Rightarrow> bool" where
  "dependency_path byTag [] \<longleftrightarrow> False"
| "dependency_path byTag [ob] \<longleftrightarrow> True"
| "dependency_path byTag (a # b # obs) \<longleftrightarrow>
     sv_Tag b \<in> set (sv_Dependencies a) \<and> map_of byTag (sv_Tag b) = Some b \<and> dependency_path byTag (b # obs)"

definition explained :: "start_words \<Rightarrow> (string \<times> 'a service_scheme) list \<Rightarrow> 'a service_scheme list \<Rightarrow> error \<Rightarrow> bool" where
  "explained K byTag obs e \<longleftrightarrow>
     (\<exists>path p. dependency_path byTag path \<and> hd path \<in> set obs \<and> p \<in> set (sv_Dependencies (last path)) \<and>
        (if p \<in> sv_Tag ` set path
         then e = ENew (''circular '' @ sw_name K @ '' dependency: '' @ Join (map sv_Tag path) '' -> '' @ '' -> '' @ p)
         else map_of byTag p = None \<and>
           e = ENew (''dependency['' @ p @ ''] not found for '' @ sw_name K @ ''['' @ sv_Tag (last path) @ '']'')))"

lemma dependency_path_snoc:
  "dependency_path byTag path \<Longrightarrow> sv_Tag b \<in> set (sv_Dependencies (last path)) \<Longrightarrow> map_of byTag (sv_Tag b) = Some b \<Longrightarrow>
   dependency_path byTag (path @ [b])"
  by (induction byTag path rule: dependency_path.induct) auto

lemma find_unstarted_member:
  assumes "\<not> set deps \<subseteq> set started"
  shows "find_unstarted started deps \<in> set deps \<and> find_unstarted started deps \<notin> set started"
  using assms by (auto simp: find_unstarted_def find_Some_iff find_None_iff split: option.splits)

lemma lint_explained:
  assumes "dependency_path byTag path" and "hd path \<in> set obs" and "last path \<in> set obs" and "sv_Tag (last path) \<notin> set started"
    and "\<forall>t ob. map_of byTag t = Some ob \<longrightarrow> ob \<in> set obs \<and> sv_Tag ob = t"
    and "\<forall>ob \<in> set obs. sv_Tag ob \<in> set started \<or> \<not> set (sv_Dependencies ob) \<subseteq> set started"
  shows "explained K byTag obs (lint_dependency K byTag started (map sv_Tag path) (last path))"
  using assms
proof (induction K byTag started "map sv_Tag path" "last path" arbitrary: path rule: lint_dependency.induct)
  case (1 K byTag started path)
  define p where "p = find_unstarted started (sv_Dependencies (last path))"
  have "\<not> set (sv_Dependencies (last path)) \<subseteq> set started" using 1(4-7) by blast
  from find_unstarted_member [OF this] have p: "p \<in> set (sv_Dependencies (last path))" "p \<notin> set started" by (simp_all add: p_def)
  show ?case
  proof (cases "p \<in> set (map sv_Tag path) \<or> map_of byTag p = None")
    case True
    with p 1(2,3) show ?thesis
      unfolding explained_def lint_dependency.simps [of K byTag started "map sv_Tag path" "last path"] p_def [symmetric] Let_def
      by (intro exI [of _ path] exI [of _ p]) auto
  next
    case False
    then obtain ob where ob: "map_of byTag p = Some ob" "p \<notin> set (map sv_Tag path)" by blast
    with 1(6) have m: "ob \<in> set obs" "sv_Tag ob = p" by blast+
    have path: "dependency_path byTag (path @ [ob])" using dependency_path_snoc 1(2) p(1) m(2) ob(1) by blast
    have ne: "path \<noteq> []" using 1(2) by auto
    have "explained K byTag obs (lint_dependency K byTag started (map sv_Tag (path @ [ob])) (last (path @ [ob])))"
      by (rule 1(1) [where path = "path @ [ob]", OF p_def]) (use path ne m ob p(2) 1(3,6,7) in auto)
    then show ?thesis
      unfolding lint_dependency.simps [of K byTag started "map sv_Tag path" "last path"] p_def [symmetric] Let_def
      using ob m by simp
  qed
qed

lemma start_loop_explained:
  assumes "in_order obs evs" and "\<forall>ob \<in> set obs. LegacyStart ob StartStateStart = None"
    and "distinct (map sv_Tag obs)" and "\<forall>t ob. map_of byTag t = Some ob \<longrightarrow> ob \<in> set obs \<and> sv_Tag ob = t"
  shows "case fst (start_loop K byTag obs (map event_tag evs) evs) of None \<Rightarrow> True | Some e \<Rightarrow> explained K byTag obs e"
  using assms
proof (induction K byTag obs "map event_tag evs" evs rule: start_loop.induct)
  case (1 K byTag obs evs)
  obtain e started' evs1 cc where p: "start_pass K obs (map event_tag evs) evs False = (e, started', evs1, cc)"
    by (metis prod_cases4)
  have e: "e = None" using start_pass_ok [OF _ p] 1(3) by blast
  from start_pass_order [OF p refl 1(2)] have o: "started' = map event_tag evs1" "in_order obs evs1" by simp_all
  consider "length started' = length obs" | "length started' \<noteq> length obs" "cc" | "length started' \<noteq> length obs" "\<not> cc" by blast
  then show ?case
  proof cases
    case 1
    then show ?thesis by (subst start_loop.simps) (simp add: p e)
  next
    case 2
    with 1(1) [OF p [symmetric]] e o 1(3-5) show ?thesis
      by (simp add: start_loop.simps [of K byTag obs "map event_tag evs" evs] p)
  next
    case 3
    have "find (\<lambda>ob. sv_Tag ob \<notin> set started') obs \<noteq> None"
    proof
      assume "find (\<lambda>ob. sv_Tag ob \<notin> set started') obs = None"
      then have "sv_Tag ` set obs \<subseteq> event_tag ` set evs1" by (auto simp: find_None_iff o(1))
      with in_order_tags [OF o(2)] have "card (sv_Tag ` set obs) = length evs1" by (metis subset_antisym)
      with distinct_card [OF 1(4)] o(1) 3(1) show False by simp
    qed
    then obtain cur where cur: "find (\<lambda>ob. sv_Tag ob \<notin> set started') obs = Some cur" by blast
    then have c: "cur \<in> set obs" "sv_Tag cur \<notin> set started'" by (auto simp: find_Some_iff)
    from start_pass_stuck [of K obs "map event_tag evs" evs e started' evs1] p 3(2)
    have "\<forall>ob \<in> set obs. sv_Tag ob \<in> set started' \<or> \<not> set (sv_Dependencies ob) \<subseteq> set started'" by simp
    with lint_explained [of byTag "[cur]" obs started' K] c 1(5) have "explained K byTag obs (lint_dependency K byTag started' [sv_Tag cur] cur)"
      by simp
    with 3 cur show ?thesis by (subst start_loop.simps) (simp add: p e)
  qed
qed

section \<open>Start from the beginning\<close>

lemma start_loop_respects:
  "case start_loop K byTag obs [] [] of (r, evs) \<Rightarrow>
     distinct (map event_tag evs) \<and>
     list_all (\<lambda>i. \<exists>ob \<in> set obs. evs ! i = Started ob StartStateStart \<and>
        list_all (\<lambda>d. d \<in> event_tag ` set (take i evs)) (sv_Dependencies ob)) [0..<length evs] \<and>
     (r \<noteq> None \<or> event_tag ` set evs = sv_Tag ` set obs)"
proof -
  obtain r evs where s: "start_loop K byTag obs [] [] = (r, evs)" by force
  have "in_order obs []" by (simp add: in_order_def)
  with start_loop_order [of obs "[]" K byTag r evs] s
  have o: "in_order obs evs" "r = None \<longrightarrow> length evs = length obs" by simp_all
  with in_order_all have "r \<noteq> None \<or> event_tag ` set evs = sv_Tag ` set obs" by blast
  with o(1) s show ?thesis by (auto simp: in_order_def list_all_iff subset_iff; blast)
qed

lemma start_loop_iff_orderable:
  assumes "distinct (map sv_Tag obs)" and "\<forall>ob \<in> set obs. LegacyStart ob StartStateStart = None"
  shows "fst (start_loop K byTag obs [] []) = None \<longleftrightarrow> (\<exists>order. dependency_order obs order)"
proof (intro iffI)
  have i: "in_order obs []" by (simp add: in_order_def)
  show "fst (start_loop K byTag obs [] []) = None" if "\<exists>order. dependency_order obs order"
    using that start_loop_complete [OF i assms(2) _ assms(1)] by auto
  assume "fst (start_loop K byTag obs [] []) = None"
  then obtain evs where s: "start_loop K byTag obs [] [] = (None, evs)" by (metis prod.collapse)
  with start_loop_order [OF i, of K byTag None evs] have "in_order obs evs" "length evs = length obs" by simp_all
  then show "\<exists>order. dependency_order obs order" using in_order_dependency_order [OF _ _ assms(1)] by blast
qed

section \<open>Objects of a list\<close>

lemma same_tag: "distinct (map sv_Tag obs) \<Longrightarrow> a \<in> set obs \<Longrightarrow> b \<in> set obs \<Longrightarrow> sv_Tag a = sv_Tag b \<Longrightarrow> a = b"
  by (auto simp: distinct_map dest: inj_onD)

lemma remove_object_filter:
  assumes "ob \<in> set obs" and "distinct (map sv_id obs)" and "distinct (map sv_Tag obs)"
  shows "remove_object ob obs = Some (filter (\<lambda>x. sv_Tag x \<noteq> sv_Tag ob) obs)"
  using assms
proof (induction obs)
  case (Cons x xs)
  show ?case
  proof (cases "x = ob")
    case True
    with Cons.prems(3) have "\<forall>y \<in> set xs. sv_Tag y \<noteq> sv_Tag ob" by (auto simp: image_iff)
    then have "filter (\<lambda>y. sv_Tag y \<noteq> sv_Tag ob) xs = xs" by (simp add: filter_id_conv)
    with True show ?thesis by simp
  next
    case False
    with Cons.prems have "ob \<in> set xs" "sv_id x \<noteq> sv_id ob" "sv_Tag x \<noteq> sv_Tag ob" by force+
    with Cons show ?thesis by simp
  qed
qed simp

end
