(* ===== verification/Outbound_Manager.thy ===== *)
theory Outbound_Manager
  imports Start_Order
begin

text \<open>
  The outbound manager of \<^verbatim>\<open>adapter/outbound/manager.go\<close>: the list of outbounds, the
  table by tag, the dependencies between outbounds and the default outbound, and the start
  in dependency order.

  An outbound is an object of its own package: its identity, type, tag, dependencies and
  what its start and close functions return. What the manager calls on outbounds is
  returned as a list of events. The endpoint manager is asked for its endpoints only.
\<close>

section \<open>The manager\<close>

type_synonym outbound = service

definition outbound_words :: start_words where
  "outbound_words = \<lparr>sw_prefix = ''outbound/'', sw_name = ''outbound''\<rparr>"

record outbound_manager =
  om_defaultTag :: string
  om_started :: bool
  om_stage :: start_stage
  om_outbounds :: "outbound list"
  om_outboundByTag :: "(string \<times> outbound) list"
  om_dependByTag :: "string \<Rightarrow> string list"
  om_defaultOutbound :: "outbound option"

record endpoint_view =
  ep_Get :: "string \<Rightarrow> outbound option"
  ep_Endpoints :: "outbound list"

definition NewManager :: "string \<Rightarrow> outbound_manager" where
  "NewManager defaultTag = \<lparr>om_defaultTag = defaultTag, om_started = False, om_stage = StartStateInitialize,
     om_outbounds = [], om_outboundByTag = [], om_dependByTag = (\<lambda>_. []), om_defaultOutbound = None\<rparr>"

subsection \<open>Start\<close>

definition startOutbounds :: "(string \<times> outbound) list \<Rightarrow> outbound list \<Rightarrow> error option \<times> outbound event list" where
  "startOutbounds byTag outbounds = start_loop outbound_words byTag outbounds [] []"

text \<open>The default outbound at start: an endpoint of that tag, or the fallback.\<close>

definition resolve_default :: "endpoint_view \<Rightarrow> outbound result \<Rightarrow> outbound_manager \<Rightarrow> outbound_manager result" where
  "resolve_default E fallback m =
     (if om_defaultTag m \<noteq> [] \<and> om_defaultOutbound m = None then
        (case ep_Get E (om_defaultTag m) of
           None \<Rightarrow> Inl (ENew (''default outbound not found: '' @ om_defaultTag m))
         | Some endpoint \<Rightarrow> Inr (m\<lparr>om_defaultOutbound := Some endpoint\<rparr>))
      else if om_defaultOutbound m = None then
        (case fallback of
           Inl e \<Rightarrow> Inl (ECause e ''create direct outbound for fallback'')
         | Inr direct \<Rightarrow>
             Inr (m\<lparr>om_outbounds := om_outbounds m @ [direct],
                    om_outboundByTag := AList.update (sv_Tag direct) direct (om_outboundByTag m),
                    om_defaultOutbound := Some direct\<rparr>))
      else Inr m)"

definition Manager_Start ::
  "endpoint_view \<Rightarrow> outbound result \<Rightarrow> start_stage \<Rightarrow> outbound_manager \<Rightarrow>
   error option \<times> outbound event list \<times> outbound_manager" where
  "Manager_Start E fallback stage m =
     (if om_started m \<and> stage_number stage \<le> stage_number (om_stage m)
      then (Some (EPanic ''already started''), [], m)
      else
        (let m1 = m\<lparr>om_started := True, om_stage := stage\<rparr> in
         if stage = StartStateStart then
           (case resolve_default E fallback m1 of
              Inl e \<Rightarrow> (Some e, [], m1)
            | Inr m2 \<Rightarrow>
                (case startOutbounds (om_outboundByTag m2) (om_outbounds m2 @ ep_Endpoints E) of
                   (r, evs) \<Rightarrow> (r, evs, m2)))
         else (case start_all outbound_words stage (om_outbounds m1) [] of (r, evs) \<Rightarrow> (r, evs, m1))))"

definition Manager_Close :: "outbound_manager \<Rightarrow> outbound event list \<times> outbound_manager" where
  "Manager_Close m =
     (if \<not> om_started m then ([], m)
      else (map Closed (filter (\<lambda>ob. sv_closer ob \<noteq> None) (om_outbounds m)),
            m\<lparr>om_started := False, om_outbounds := []\<rparr>))"

definition Manager_Outbound :: "endpoint_view \<Rightarrow> outbound_manager \<Rightarrow> string \<Rightarrow> outbound option" where
  "Manager_Outbound E m tag =
     (case map_of (om_outboundByTag m) tag of Some ob \<Rightarrow> Some ob | None \<Rightarrow> ep_Get E tag)"

definition Manager_Remove :: "string \<Rightarrow> outbound_manager \<Rightarrow> unit result \<times> outbound event list \<times> outbound_manager" where
  "Manager_Remove tag m =
     (case map_of (om_outboundByTag m) tag of
        None \<Rightarrow> (Inl ErrInvalid, [], m)
      | Some ob \<Rightarrow>
          (let m1 = m\<lparr>om_outboundByTag := AList.delete tag (om_outboundByTag m)\<rparr> in
           case remove_object ob (om_outbounds m1) of
             None \<Rightarrow> (Inl (EPanic ''invalid inbound index''), [], m1)
           | Some obs \<Rightarrow>
               (let m2 = m1\<lparr>om_outbounds := obs\<rparr>;
                    m3 = (if is_object (om_defaultOutbound m2) ob
                          then m2\<lparr>om_defaultOutbound := (case obs of [] \<Rightarrow> None | x # _ \<Rightarrow> Some x)\<rparr> else m2)
                in if length (om_dependByTag m3 tag) > 0
                   then (Inl (ENew (''outbound['' @ tag @ ''] is depended by '' @ Join (om_dependByTag m3 tag) '', '')), [], m3)
                   else
                     (let m4 = m3\<lparr>om_dependByTag := fold (drop_dependency tag) (sv_Dependencies ob) (om_dependByTag m3)\<rparr>
                      in if om_started m4
                         then (case sv_closer ob of
                                 None \<Rightarrow> (Inr (), [], m4)
                               | Some r \<Rightarrow> (case r of None \<Rightarrow> Inr () | Some e \<Rightarrow> Inl e, [Closed ob], m4))
                         else (Inr (), [], m4)))))"

text \<open>\<open>created\<close> is what the registry returns for the tag, type and options.\<close>

definition insert_outbound :: "string \<Rightarrow> outbound \<Rightarrow> outbound_manager \<Rightarrow> outbound_manager" where
  "insert_outbound tag ob m =
     (let m1 = m\<lparr>om_outbounds := om_outbounds m @ [ob],
                 om_outboundByTag := AList.update tag ob (om_outboundByTag m),
                 om_dependByTag := fold (\<lambda>d f. f(d := f d @ [tag])) (sv_Dependencies ob) (om_dependByTag m)\<rparr>
      in if tag = om_defaultTag m1 \<or> (om_defaultTag m1 = [] \<and> om_defaultOutbound m1 = None)
         then m1\<lparr>om_defaultOutbound := Some ob\<rparr> else m1)"

definition Manager_Create ::
  "string \<Rightarrow> outbound result \<Rightarrow> outbound_manager \<Rightarrow> unit result \<times> outbound event list \<times> outbound_manager" where
  "Manager_Create tag created m =
     (if tag = [] then (Inl ErrInvalid, [], m)
      else (case created of
        Inl e \<Rightarrow> (Inl e, [], m)
      | Inr ob \<Rightarrow>
          (case (if om_started m then start_stages outbound_words ob ListStartStages [] else (None, [])) of
             (Some e, evs) \<Rightarrow> (Inl e, evs, m)
           | (None, evs) \<Rightarrow>
               (case map_of (om_outboundByTag m) tag of
                  None \<Rightarrow> (Inr (), evs, insert_outbound tag ob m)
                | Some old \<Rightarrow>
                    (let closing = (if om_started m then sv_closer old else None);
                         evs' = (if closing = None then evs else evs @ [Closed old])
                     in case called closing of
                          Some e \<Rightarrow> (Inl (ECause e (''close'' @ service_text outbound_words old)), evs', m)
                        | None \<Rightarrow>
                            (case remove_object old (om_outbounds m) of
                               None \<Rightarrow> (Inl (EPanic ''invalid inbound index''), evs', m)
                             | Some obs \<Rightarrow> (Inr (), evs', insert_outbound tag ob (m\<lparr>om_outbounds := obs\<rparr>))))))))"

section \<open>Properties: start order\<close>

text \<open>C20 (start_respects_dependencies): whatever the outbounds and whether the start succeeds or fails,
  every outbound that is started is one of the list, is started once, and after all of its
  dependencies; on success every tag of the list has been started.\<close>

theorem start_respects_dependencies:
  "case startOutbounds byTag obs of (r, evs) \<Rightarrow>
     distinct (map event_tag evs) \<and>
     list_all (\<lambda>i. \<exists>ob \<in> set obs. evs ! i = Started ob StartStateStart \<and>
        list_all (\<lambda>d. d \<in> event_tag ` set (take i evs)) (sv_Dependencies ob)) [0..<length evs] \<and>
     (r \<noteq> None \<or> event_tag ` set evs = sv_Tag ` set obs)"
  unfolding startOutbounds_def by (rule start_loop_respects)

lemma outbound_messages:
  "''circular '' @ sw_name outbound_words @ '' dependency: '' @ x = ''circular outbound dependency: '' @ x"
  "''] not found for '' @ sw_name outbound_words @ ''['' @ y = ''] not found for outbound['' @ y"
  by (simp_all add: outbound_words_def)

text \<open>C8 (start_succeeds_iff_orderable): for outbounds and endpoints with distinct tags, of which the table holds the
  outbounds by tag, and none of which fails to start, the
  start succeeds exactly when some order of them respects the dependencies. Otherwise its error
  names a path of dependencies in the table that runs into itself, or a dependency of the last one on such a path that is
  not in the table of outbounds.\<close>

theorem start_succeeds_iff_orderable:
  assumes "distinct (map sv_Tag obs)" and "\<forall>ob \<in> set obs. LegacyStart ob StartStateStart = None"
    and "\<forall>t ob. map_of byTag t = Some ob \<longrightarrow> ob \<in> set obs \<and> sv_Tag ob = t"
  shows "(fst (startOutbounds byTag obs) = None \<longleftrightarrow> (\<exists>order. dependency_order obs order)) \<and>
    (case fst (startOutbounds byTag obs) of
       None \<Rightarrow> True
     | Some e \<Rightarrow>
         (\<exists>path p. dependency_path byTag path \<and> hd path \<in> set obs \<and> p \<in> set (sv_Dependencies (last path)) \<and>
            (if p \<in> sv_Tag ` set path
             then e = ENew (''circular outbound dependency: '' @ Join (map sv_Tag path) '' -> '' @ '' -> '' @ p)
             else map_of byTag p = None \<and> e = ENew (''dependency['' @ p @ ''] not found for outbound['' @ sv_Tag (last path) @ '']''))))"
proof
  have i: "in_order obs []" by (simp add: in_order_def)
  show "fst (startOutbounds byTag obs) = None \<longleftrightarrow> (\<exists>order. dependency_order obs order)"
    unfolding startOutbounds_def by (rule start_loop_iff_orderable [OF assms(1,2)])
  show "case fst (startOutbounds byTag obs) of
       None \<Rightarrow> True
     | Some e \<Rightarrow>
         (\<exists>path p. dependency_path byTag path \<and> hd path \<in> set obs \<and> p \<in> set (sv_Dependencies (last path)) \<and>
            (if p \<in> sv_Tag ` set path
             then e = ENew (''circular outbound dependency: '' @ Join (map sv_Tag path) '' -> '' @ '' -> '' @ p)
             else map_of byTag p = None \<and> e = ENew (''dependency['' @ p @ ''] not found for outbound['' @ sv_Tag (last path) @ '']'')))"
    using start_loop_explained [OF i assms(2,1,3), of outbound_words]
    unfolding startOutbounds_def explained_def outbound_messages list.map by assumption
qed

definition sample_outbound :: "nat \<Rightarrow> string \<Rightarrow> string list \<Rightarrow> outbound" where
  "sample_outbound i tag deps = \<lparr>sv_id = i, sv_Type = ''direct'', sv_Tag = tag, sv_Dependencies = deps,
     sv_starter = Legacy None None None, sv_closer = Some None\<rparr>"

theorem start_respects_dependencies_witness:
  "case startOutbounds [] [sample_outbound 0 ''a'' [''b''], sample_outbound 1 ''b'' []] of (r, evs) \<Rightarrow>
     r = None \<and> distinct (map event_tag evs) \<and> event_tag ` set evs = {''a'', ''b''}"
proof -
  let ?obs = "[sample_outbound 0 ''a'' [''b''], sample_outbound 1 ''b'' []]"
  obtain evs where e: "startOutbounds [] ?obs = (None, evs)"
    by (simp add: startOutbounds_def start_loop.simps sample_outbound_def LegacyStart_def called_def)
  from start_respects_dependencies [where byTag = "[]" and obs = ?obs] have "distinct (map event_tag evs)" "event_tag ` set evs = sv_Tag ` set ?obs"
    unfolding e by simp_all
  with e show ?thesis by (simp add: sample_outbound_def)
qed

theorem start_succeeds_iff_orderable_witness:
  "fst (startOutbounds [] [sample_outbound 0 ''a'' [''b''], sample_outbound 1 ''b'' []]) = None \<and>
   \<not> (\<exists>order. dependency_order [sample_outbound 0 ''a'' [''b''], sample_outbound 1 ''b'' [''a'']] order)"
proof -
  let ?good = "[sample_outbound 0 ''a'' [''b''], sample_outbound 1 ''b'' []]"
  let ?bad = "[sample_outbound 0 ''a'' [''b''], sample_outbound 1 ''b'' [''a'']]"
  have h: "distinct (map sv_Tag ?good)" "\<forall>ob \<in> set ?good. LegacyStart ob StartStateStart = None"
      "\<forall>t ob. map_of [] t = Some ob \<longrightarrow> ob \<in> set ?good \<and> sv_Tag ob = t"
    "distinct (map sv_Tag ?bad)" "\<forall>ob \<in> set ?bad. LegacyStart ob StartStateStart = None"
      "\<forall>t ob. map_of [] t = Some ob \<longrightarrow> ob \<in> set ?bad \<and> sv_Tag ob = t"
    by (simp_all add: sample_outbound_def LegacyStart_def called_def)
  have "dependency_order ?good (rev ?good)"
    by (simp add: dependency_order_def sample_outbound_def less_Suc_eq insert_commute)
  then have "fst (startOutbounds [] ?good) = None" using start_succeeds_iff_orderable [OF h(1-3)] by blast
  moreover have ne: "fst (startOutbounds [] ?bad) \<noteq> None"
    by (simp add: startOutbounds_def start_loop.simps sample_outbound_def)
  have "\<not> (\<exists>order. dependency_order ?bad order)"
    by (rule contrapos_nn [OF ne], erule iffD2 [OF conjunct1 [OF start_succeeds_iff_orderable [OF h(4-6)]]])
  ultimately show ?thesis by (rule conjI)
qed

text \<open>Remark (endpoint_cycle_not_found): the search for the reason looks only in the table of outbounds, so a cycle through an
  endpoint, which the manager has, is reported as a dependency that is not found.\<close>

theorem endpoint_cycle_not_found:
  "fst (startOutbounds [(''a'', sample_outbound 0 ''a'' [''ep''])] [sample_outbound 0 ''a'' [''ep''], sample_outbound 1 ''ep'' [''a'']]) =
     Some (ENew ''dependency[ep] not found for outbound[a]'')"
  by (simp add: startOutbounds_def start_loop.simps lint_dependency.simps sample_outbound_def outbound_words_def find_unstarted_def)

section \<open>The list and the table by tag\<close>

inductive manager_reachable :: "string \<Rightarrow> outbound_manager \<Rightarrow> bool" for defaultTag where
  new: "manager_reachable defaultTag (NewManager defaultTag)"
| create: "manager_reachable defaultTag m \<Longrightarrow> Manager_Create tag created m = (r, evs, m') \<Longrightarrow>
    \<forall>ob. created = Inr ob \<longrightarrow> sv_Tag ob = tag \<and> sv_id ob \<notin> sv_id ` set (om_outbounds m) \<Longrightarrow>
    manager_reachable defaultTag m'"
| remove: "manager_reachable defaultTag m \<Longrightarrow> Manager_Remove tag m = (r, evs, m') \<Longrightarrow>
    manager_reachable defaultTag m'"
| start: "manager_reachable defaultTag m \<Longrightarrow> Manager_Start E fallback stage m = (e, evs, m') \<Longrightarrow>
    manager_reachable defaultTag m'"

definition manager_wf :: "outbound_manager \<Rightarrow> bool" where
  "manager_wf m \<longleftrightarrow> distinct (map sv_id (om_outbounds m)) \<and> distinct (map sv_Tag (om_outbounds m)) \<and>
     (\<forall>t ob. map_of (om_outboundByTag m) t = Some ob \<longleftrightarrow> ob \<in> set (om_outbounds m) \<and> sv_Tag ob = t) \<and>
     (om_defaultTag m = [] \<and> om_defaultOutbound m = None \<longrightarrow> om_outbounds m = [])"

lemma manager_wf_lookup:
  assumes "manager_wf m"
  shows "map_of (om_outboundByTag m) tag = find (\<lambda>ob. sv_Tag ob = tag) (om_outbounds m)"
proof (cases "find (\<lambda>ob. sv_Tag ob = tag) (om_outbounds m)")
  case None
  then have "\<forall>ob. map_of (om_outboundByTag m) tag \<noteq> Some ob"
    using assms by (auto simp: manager_wf_def find_None_iff)
  with None show ?thesis by simp
next
  case (Some ob)
  then have "ob \<in> set (om_outbounds m)" "sv_Tag ob = tag" by (auto simp: find_Some_iff)
  with Some assms show ?thesis by (simp add: manager_wf_def)
qed

text \<open>The two ways the list changes.\<close>

lemma manager_wf_without:
  assumes "manager_wf m" and "map_of byTag = (map_of (om_outboundByTag m))(tag := None)"
    and "om_outbounds m' = filter (\<lambda>ob. sv_Tag ob \<noteq> tag) (om_outbounds m)" and "om_outboundByTag m' = byTag"
    and "om_defaultTag m' = [] \<and> om_defaultOutbound m' = None \<longrightarrow> om_outbounds m' = []"
  shows "manager_wf m'"
  using assms unfolding manager_wf_def by (auto simp: distinct_map_filter)

lemma insert_outbound_wf:
  assumes "distinct (map sv_id obs)" "distinct (map sv_Tag obs)" "sv_Tag ob = tag" "sv_id ob \<notin> sv_id ` set obs"
    "\<forall>x \<in> set obs. sv_Tag x \<noteq> tag" and "om_outbounds m = obs"
    and "\<forall>t x. t \<noteq> tag \<longrightarrow> (map_of (om_outboundByTag m) t = Some x \<longleftrightarrow> x \<in> set obs \<and> sv_Tag x = t)"
  shows "manager_wf (insert_outbound tag ob m)" and "om_outbounds (insert_outbound tag ob m) = obs @ [ob]"
    and "om_defaultTag (insert_outbound tag ob m) = om_defaultTag m"
  using assms by (auto simp: manager_wf_def insert_outbound_def Let_def update_conv)

lemma Manager_Remove_wf:
  assumes "manager_wf m" and "Manager_Remove tag m = (r, evs, m')"
  shows "manager_wf m'" and "om_outbounds m' = filter (\<lambda>ob. sv_Tag ob \<noteq> tag) (om_outbounds m)"
    and "om_defaultTag m' = om_defaultTag m"
proof -
  consider "map_of (om_outboundByTag m) tag = None" | ob where "map_of (om_outboundByTag m) tag = Some ob"
    by (cases "map_of (om_outboundByTag m) tag")
  then have "manager_wf m' \<and> om_outbounds m' = filter (\<lambda>ob. sv_Tag ob \<noteq> tag) (om_outbounds m) \<and>
      om_defaultTag m' = om_defaultTag m"
  proof cases
    case 1
    then have "\<forall>ob \<in> set (om_outbounds m). sv_Tag ob \<noteq> tag"
      using assms(1) by (auto simp: manager_wf_lookup find_None_iff)
    with 1 assms show ?thesis by (simp add: Manager_Remove_def filter_id_conv)
  next
    case (2 ob)
    with assms(1) have ob: "ob \<in> set (om_outbounds m)" "sv_Tag ob = tag" by (simp_all add: manager_wf_def)
    let ?obs = "filter (\<lambda>ob. sv_Tag ob \<noteq> tag) (om_outbounds m)"
    have rm: "remove_object ob (om_outbounds m) = Some ?obs"
      using remove_object_filter [OF ob(1)] assms(1) ob(2) by (simp add: manager_wf_def)
    have fields: "om_outbounds m' = ?obs" "om_outboundByTag m' = AList.delete tag (om_outboundByTag m)"
      "om_defaultTag m' = om_defaultTag m"
      "om_defaultOutbound m' = (if is_object (om_defaultOutbound m) ob then (case ?obs of [] \<Rightarrow> None | x # _ \<Rightarrow> Some x)
         else om_defaultOutbound m)"
      using assms(2) 2 rm by (auto simp: Manager_Remove_def Let_def split: if_splits option.splits)
    have "manager_wf m'"
      by (rule manager_wf_without [OF assms(1) delete_conv' fields(1,2)])
        (use fields assms(1) ob in \<open>auto simp: manager_wf_def split: if_splits list.splits\<close>)
    with fields show ?thesis by simp
  qed
  then show "manager_wf m'" "om_outbounds m' = filter (\<lambda>ob. sv_Tag ob \<noteq> tag) (om_outbounds m)"
    "om_defaultTag m' = om_defaultTag m" by simp_all
qed

lemma manager_wf_start:
  assumes "manager_wf m" and "Manager_Start E fallback stage m = (e, evs, m')"
  shows "manager_wf m'"
proof -
  have stage: "manager_wf (m\<lparr>om_started := True, om_stage := stage\<rparr>)"
    using assms(1) by (simp add: manager_wf_def)
  have "manager_wf m2" if "resolve_default E fallback m1 = Inr m2" "manager_wf m1" for m1 m2
  proof (cases "om_defaultTag m1 = [] \<and> om_defaultOutbound m1 = None")
    case True
    with that(2) have "om_outbounds m1 = []" "\<forall>t x. map_of (om_outboundByTag m1) t \<noteq> Some x"
      by (simp_all add: manager_wf_def)
    with True that(1) show ?thesis
      by (auto simp: resolve_default_def manager_wf_def update_conv split: sum.splits if_splits)
  next
    case False
    with that show ?thesis by (auto simp: resolve_default_def manager_wf_def split: if_splits option.splits)
  qed
  with stage assms show ?thesis
    by (auto simp: Manager_Start_def Let_def split: if_splits sum.splits prod.splits)
qed

lemma Manager_Create_wf:
  assumes "manager_wf m" and "Manager_Create tag created m = (r, evs, m')"
    and "\<forall>ob. created = Inr ob \<longrightarrow> sv_Tag ob = tag \<and> sv_id ob \<notin> sv_id ` set (om_outbounds m)"
  shows "manager_wf m'"
    and "r = Inr () \<longrightarrow> om_outbounds m' = filter (\<lambda>ob. sv_Tag ob \<noteq> tag) (om_outbounds m) @ [projr created]"
proof -
  let ?obs = "filter (\<lambda>ob. sv_Tag ob \<noteq> tag) (om_outbounds m)"
  consider "m' = m" "r \<noteq> Inr ()"
    | ob where "created = Inr ob" "r = Inr ()" "m' = insert_outbound tag ob (m\<lparr>om_outbounds := ?obs\<rparr>)"
  proof (cases "map_of (om_outboundByTag m) tag")
    case None
    then have "\<forall>ob \<in> set (om_outbounds m). sv_Tag ob \<noteq> tag"
      using assms(1) by (auto simp: manager_wf_lookup find_None_iff)
    then have "?obs = om_outbounds m" by (simp add: filter_id_conv)
    with None assms(2) that show ?thesis
      by (auto simp: Manager_Create_def split: if_splits sum.splits option.splits prod.splits)
  next
    case (Some old)
    with assms(1) have "old \<in> set (om_outbounds m)" "sv_Tag old = tag" by (simp_all add: manager_wf_def)
    with remove_object_filter [of old "om_outbounds m"] assms(1)
    have "remove_object old (om_outbounds m) = Some ?obs" by (simp add: manager_wf_def)
    with Some assms(2) that show ?thesis
      by (auto simp: Manager_Create_def Let_def split: if_splits sum.splits option.splits prod.splits)
  qed
  then have "manager_wf m' \<and> (r = Inr () \<longrightarrow> om_outbounds m' = ?obs @ [projr created])"
  proof cases
    case 1
    with assms(1) show ?thesis by simp
  next
    case (2 ob)
    have d: "distinct (map sv_id ?obs)" "distinct (map sv_Tag ?obs)"
      using assms(1) by (simp_all add: manager_wf_def distinct_map_filter)
    have t: "\<forall>t x. t \<noteq> tag \<longrightarrow>
        (map_of (om_outboundByTag (m\<lparr>om_outbounds := ?obs\<rparr>)) t = Some x \<longleftrightarrow> x \<in> set ?obs \<and> sv_Tag x = t)"
      using assms(1) by (auto simp: manager_wf_def)
    have n: "sv_Tag ob = tag" "sv_id ob \<notin> sv_id ` set ?obs" using assms(3) 2(1) by auto
    have o: "\<forall>x \<in> set ?obs. sv_Tag x \<noteq> tag" "om_outbounds (m\<lparr>om_outbounds := ?obs\<rparr>) = ?obs" by simp_all
    show ?thesis
      using insert_outbound_wf(1,2) [OF d n o t] unfolding 2 by (simp only: sum.sel simp_thms)
  qed
  then show "manager_wf m'" "r = Inr () \<longrightarrow> om_outbounds m' = ?obs @ [projr created]" by simp_all
qed

lemma manager_reachable_wf: "manager_reachable defaultTag m \<Longrightarrow> manager_wf m"
proof (induction rule: manager_reachable.induct)
  case new
  show ?case by (simp add: manager_wf_def NewManager_def)
next
  case (create m tag created r evs m')
  then show ?case using Manager_Create_wf(1) by blast
next
  case (remove m tag r evs m')
  then show ?case using Manager_Remove_wf(1) by blast
next
  case (start m E fallback stage e evs m')
  then show ?case using manager_wf_start by blast
qed

section \<open>Properties: the table of outbounds\<close>

text \<open>C38 (manager_table_consistent): in every state that creating, removing and starting outbounds can reach,
  tags are unique and a lookup by tag finds the outbound of the list with that tag, or else
  the endpoint; removing a tag leaves the list without it, and a successful creation
  replaces the outbound of that tag at the end of the list.\<close>

theorem manager_table_consistent:
  assumes "manager_reachable defaultTag m" and "sv_Tag ob = tag" and "sv_id ob \<notin> sv_id ` set (om_outbounds m)"
  shows "distinct (map sv_Tag (om_outbounds m)) \<and>
    Manager_Outbound E m tag = (case find (\<lambda>x. sv_Tag x = tag) (om_outbounds m) of Some x \<Rightarrow> Some x | None \<Rightarrow> ep_Get E tag) \<and>
    om_outbounds (snd (snd (Manager_Remove tag m))) = filter (\<lambda>x. sv_Tag x \<noteq> tag) (om_outbounds m) \<and>
    (fst (Manager_Create tag (Inr ob) m) = Inr () \<longrightarrow>
       om_outbounds (snd (snd (Manager_Create tag (Inr ob) m))) = filter (\<lambda>x. sv_Tag x \<noteq> tag) (om_outbounds m) @ [ob])"
proof -
  note wf = manager_reachable_wf [OF assms(1)]
  obtain r evs m1 where rm: "Manager_Remove tag m = (r, evs, m1)" by (metis prod_cases3)
  obtain r' evs' m2 where cr: "Manager_Create tag (Inr ob) m = (r', evs', m2)" by (metis prod_cases3)
  have "\<forall>x. Inr ob = Inr x \<longrightarrow> sv_Tag x = tag \<and> sv_id x \<notin> sv_id ` set (om_outbounds m)" using assms(2,3) by simp
  from Manager_Create_wf(2) [OF wf cr this] Manager_Remove_wf(2) [OF wf rm] rm cr wf show ?thesis
    by (simp add: Manager_Outbound_def manager_wf_lookup manager_wf_def)
qed

definition sample_manager :: outbound_manager where
  "sample_manager = insert_outbound ''b'' (sample_outbound 1 ''b'' [''a'']) (insert_outbound ''a'' (sample_outbound 0 ''a'' []) (NewManager []))"

lemma sample_manager_reachable: "manager_reachable [] sample_manager"
proof -
  let ?a = "sample_outbound 0 ''a'' []" let ?b = "sample_outbound 1 ''b'' [''a'']"
  let ?m = "insert_outbound ''a'' ?a (NewManager [])"
  have "Manager_Create ''a'' (Inr ?a) (NewManager []) = (Inr (), [], ?m)"
    by (simp add: Manager_Create_def NewManager_def)
  then have m: "manager_reachable [] ?m"
    by (rule manager_reachable.create [OF manager_reachable.new]) (simp add: sample_outbound_def NewManager_def)
  have "Manager_Create ''b'' (Inr ?b) ?m = (Inr (), [], insert_outbound ''b'' ?b ?m)"
    by (simp add: Manager_Create_def insert_outbound_def NewManager_def)
  then show ?thesis
    unfolding sample_manager_def
    by (rule manager_reachable.create [OF m]) (simp add: sample_outbound_def NewManager_def insert_outbound_def)
qed

lemmas sample_manager_defs = sample_manager_def insert_outbound_def NewManager_def sample_outbound_def

theorem manager_table_consistent_witness:
  "om_outbounds (snd (snd (Manager_Remove ''b'' sample_manager))) = [sample_outbound 0 ''a'' []]"
  using manager_table_consistent [OF sample_manager_reachable, of "sample_outbound 2 ''b'' []" "''b''"]
  by (simp add: sample_manager_defs)

text \<open>Remark (remove_depended_forgets): removing an outbound that others depend on returns an error, and the
  outbound is gone from the list and the table all the same, without having been closed.\<close>

theorem remove_depended_forgets:
  assumes "manager_reachable defaultTag m" and "ob \<in> set (om_outbounds m)" and "om_dependByTag m (sv_Tag ob) \<noteq> []"
  shows "\<exists>msg m'. Manager_Remove (sv_Tag ob) m = (Inl (ENew msg), [], m') \<and> ob \<notin> set (om_outbounds m') \<and>
    map_of (om_outboundByTag m') (sv_Tag ob) = None"
proof -
  note wf = manager_reachable_wf [OF assms(1)]
  have l: "map_of (om_outboundByTag m) (sv_Tag ob) = Some ob" using wf assms(2) by (simp add: manager_wf_def)
  have "remove_object ob (om_outbounds m) = Some (filter (\<lambda>x. sv_Tag x \<noteq> sv_Tag ob) (om_outbounds m))"
    using remove_object_filter [OF assms(2)] wf by (simp add: manager_wf_def)
  with l assms(3) show ?thesis by (simp add: Manager_Remove_def Let_def delete_conv')
qed

theorem remove_depended_forgets_witness:
  "\<exists>msg m'. Manager_Remove ''a'' sample_manager = (Inl (ENew msg), [], m') \<and> sample_outbound 0 ''a'' [] \<notin> set (om_outbounds m')"
proof -
  have "sample_outbound 0 ''a'' [] \<in> set (om_outbounds sample_manager)"
    "om_dependByTag sample_manager (sv_Tag (sample_outbound 0 ''a'' [])) \<noteq> []"
    by (simp_all add: sample_manager_defs)
  from remove_depended_forgets [OF sample_manager_reachable this] show ?thesis by (auto simp: sample_outbound_def)
qed

text \<open>Remark (replaced_default_is_stale): when no default tag is configured and the default outbound is replaced
  by a new one of the same tag, the old object stays the default although it is no longer in
  the list and, on a started manager, has been closed.\<close>

theorem replaced_default_is_stale:
  assumes "manager_reachable [] m" and "om_defaultTag m = []" and "om_defaultOutbound m = Some old"
    and "old \<in> set (om_outbounds m)" and "sv_Tag ob = sv_Tag old" and "sv_id ob \<notin> sv_id ` set (om_outbounds m)"
    and "Manager_Create (sv_Tag old) (Inr ob) m = (Inr (), evs, m')"
  shows "om_defaultOutbound m' = Some old \<and> old \<notin> set (om_outbounds m') \<and>
    (om_started m \<and> sv_closer old \<noteq> None \<longrightarrow> Closed old \<in> set evs)"
proof -
  note wf = manager_reachable_wf [OF assms(1)]
  have l: "map_of (om_outboundByTag m) (sv_Tag old) = Some old" using wf assms(4) by (simp add: manager_wf_def)
  have o: "om_outbounds m' = filter (\<lambda>x. sv_Tag x \<noteq> sv_Tag old) (om_outbounds m) @ [ob]"
    using Manager_Create_wf(2) [OF wf assms(7)] assms(5,6) by simp
  have "old \<noteq> ob" using assms(4,6) by auto
  with l o assms(2,3,7) show ?thesis
    by (auto simp: Manager_Create_def Let_def insert_outbound_def split: if_splits option.splits prod.splits)
qed

theorem replaced_default_is_stale_witness:
  "\<exists>m'. Manager_Create ''a'' (Inr (sample_outbound 2 ''a'' [])) sample_manager = (Inr (), [], m') \<and>
     om_defaultOutbound m' = Some (sample_outbound 0 ''a'' []) \<and> sample_outbound 0 ''a'' [] \<notin> set (om_outbounds m')"
proof -
  obtain m' where m': "Manager_Create ''a'' (Inr (sample_outbound 2 ''a'' [])) sample_manager = (Inr (), [], m')"
    by (simp add: Manager_Create_def called_def Let_def sample_manager_defs)
  have h: "om_defaultTag sample_manager = []" "om_defaultOutbound sample_manager = Some (sample_outbound 0 ''a'' [])"
    "sample_outbound 0 ''a'' [] \<in> set (om_outbounds sample_manager)"
    "sv_Tag (sample_outbound 2 ''a'' []) = sv_Tag (sample_outbound 0 ''a'' [])"
    "sv_id (sample_outbound 2 ''a'' []) \<notin> sv_id ` set (om_outbounds sample_manager)"
    by (simp_all add: sample_manager_defs)
  have "Manager_Create (sv_Tag (sample_outbound 0 ''a'' [])) (Inr (sample_outbound 2 ''a'' [])) sample_manager = (Inr (), [], m')"
    using m' by (simp add: sample_outbound_def)
  from replaced_default_is_stale [OF sample_manager_reachable h this] m' show ?thesis by blast
qed

end
