(* ===== verification/DNS_Client.thy ===== *)
theory DNS_Client
  imports DNS_Message Start_Order
begin

text \<open>
  The DNS client of \<^verbatim>\<open>dns/client.go\<close>: one query through one transport, with the response
  cache, the store of rejected domains and the client subnet. The client is the state; a
  call returns its result and the new client.

  Outside code: the LRU cache (\<open>lru_ops\<close>, \<^verbatim>\<open>freelru\<close> of \<^verbatim>\<open>sagernet/sing\<close>), the RDRC store and
  the task group. The client keeps one of two caches, keyed by the question or by the
  question, the transport and the subnet; the keys of both are values of \<open>cache_key\<close>.
  Times and durations are in nanoseconds, and the number of seconds a duration has is taken
  exactly. The lock that makes equal questions wait for each other is modelled by its
  outcome: the error of the context when it ended while waiting (\<open>qc_waitErr\<close>).
\<close>

section \<open>State\<close>

datatype cache_key = QuestionKey dns_question | TransportKey dns_question string prefix

record 's lru_ops =
  lru_Add :: "cache_key \<Rightarrow> dns_msg \<Rightarrow> 's \<Rightarrow> 's"
  lru_AddWithLifetime :: "int \<Rightarrow> cache_key \<Rightarrow> dns_msg \<Rightarrow> duration \<Rightarrow> 's \<Rightarrow> 's"
  lru_Get :: "int \<Rightarrow> cache_key \<Rightarrow> 's \<Rightarrow> dns_msg option \<times> 's"
  lru_GetWithLifetime :: "int \<Rightarrow> cache_key \<Rightarrow> 's \<Rightarrow> (dns_msg \<times> int) option \<times> 's"
  lru_Remove :: "cache_key \<Rightarrow> 's \<Rightarrow> 's"
  lru_Purge :: "'s \<Rightarrow> 's"
  lru_New :: "u32 \<Rightarrow> 's"

record 'r rdrc_ops =
  rdrc_Load :: "string \<Rightarrow> string \<Rightarrow> u16 \<Rightarrow> 'r \<Rightarrow> bool"
  rdrc_SaveAsync :: "string \<Rightarrow> string \<Rightarrow> u16 \<Rightarrow> 'r \<Rightarrow> 'r"

record ('s, 'r) client_env =
  ce_lib :: dns_lib
  ce_lru :: "'s lru_ops"
  ce_rdrc :: "'r rdrc_ops"
  ce_group :: "error option \<Rightarrow> error option \<Rightarrow> error option"

record ('s, 'r) dns_client =
  dc_timeout :: duration
  dc_disableCache :: bool
  dc_disableExpire :: bool
  dc_independentCache :: bool
  dc_clientSubnet :: prefix
  dc_clientSubnetFromInbound :: "client_subnet_from_inbound option"
  dc_rdrc :: "'r option"
  dc_initRDRC :: "'r option"
  dc_cache :: "'s option"
  dc_transportCache :: "'s option"

record client_options =
  co_Timeout :: duration
  co_DisableCache :: bool
  co_DisableExpire :: bool
  co_IndependentCache :: bool
  co_CacheCapacity :: u32
  co_ClientSubnet :: prefix
  co_ClientSubnetFromInbound :: "client_subnet_from_inbound option"

definition DNSTimeout :: duration where "DNSTimeout = 10 * Second"

text \<open>\<open>initRDRC\<close> is what the function of the options returns when the client starts.\<close>

definition NewClient ::
  "('s, 'r) client_env \<Rightarrow> client_options \<Rightarrow> 'r option \<Rightarrow> ('s, 'r) dns_client" where
  "NewClient E options initRDRC =
     (let cacheCapacity = (if co_CacheCapacity options < 1024 then 1024 else co_CacheCapacity options);
          fresh = lru_New (ce_lru E) cacheCapacity
      in \<lparr>dc_timeout = (if co_Timeout options = 0 then DNSTimeout else co_Timeout options),
          dc_disableCache = co_DisableCache options,
          dc_disableExpire = co_DisableExpire options,
          dc_independentCache = co_IndependentCache options,
          dc_clientSubnet = co_ClientSubnet options,
          dc_clientSubnetFromInbound = co_ClientSubnetFromInbound options,
          dc_rdrc = None, dc_initRDRC = initRDRC,
          dc_cache = (if \<not> co_DisableCache options \<and> \<not> co_IndependentCache options then Some fresh else None),
          dc_transportCache = (if \<not> co_DisableCache options \<and> co_IndependentCache options then Some fresh else None)\<rparr>)"

definition Client_Start :: "('s, 'r) dns_client \<Rightarrow> ('s, 'r) dns_client" where
  "Client_Start c = c\<lparr>dc_rdrc := dc_initRDRC c\<rparr>"

section \<open>Queries\<close>

text \<open>The context of a query: the connection metadata, the tag of the transport the query
  comes from, and the error of the context should it end during the wait for the lock.\<close>

record query_ctx =
  qc_metadata :: "inbound_context option"
  qc_transportTag :: "string option"
  qc_waitErr :: "error option"

text \<open>A transport is a service that answers messages; \<open>dt_legacy\<close> are the results of the
  methods of \<^verbatim>\<open>LegacyDNSTransport\<close> when it has them.\<close>

record dns_transport = service +
  dt_legacy :: "(domain_strategy \<times> prefix) option"
  dt_Exchange :: "query_ctx \<Rightarrow> dns_msg \<Rightarrow> dns_msg result"

record dns_query_options =
  qo_Transport :: "dns_transport option"
  qo_Strategy :: domain_strategy
  qo_LookupStrategy :: domain_strategy
  qo_DisableCache :: bool
  qo_RewriteTTL :: "u32 option"
  qo_ClientSubnet :: prefix
  qo_ClientSubnetFromInbound :: "client_subnet_from_inbound option"

definition ErrResponseRejected :: error where
  "ErrResponseRejected = ENew ''response rejected''"

definition ErrResponseRejectedCached :: error where
  "ErrResponseRejectedCached = EExtend ErrResponseRejected ''cached''"

text \<open>\<^verbatim>\<open>errors.As\<close> with an \<^verbatim>\<open>RcodeError\<close>.\<close>

fun as_RcodeError :: "error \<Rightarrow> int option" where
  "as_RcodeError (ENew m) = None"
| "as_RcodeError (ECause e m) = as_RcodeError e"
| "as_RcodeError (EExtend e m) = as_RcodeError e"
| "as_RcodeError (EOf e f) = (case as_RcodeError e of Some n \<Rightarrow> Some n | None \<Rightarrow> as_RcodeError f)"
| "as_RcodeError (ERcode n) = Some n"
| "as_RcodeError (EPanic m) = None"

subsection \<open>Client subnet\<close>

definition clientSubnetFromInbound ::
  "inbound_context option \<Rightarrow> client_subnet_from_inbound option \<Rightarrow> prefix" where
  "clientSubnetFromInbound metadata options =
     (case options of None \<Rightarrow> NoPrefix
      | Some o1 \<Rightarrow> (case metadata of None \<Rightarrow> NoPrefix
      | Some m \<Rightarrow>
          (let address = sa_Addr (mc_Source m) in
           if \<not> Addr_IsValid address then NoPrefix
           else if Addr_Is4 address then
             (if csi_IPv4 o1 = 0 then NoPrefix
              else if unat (csi_IPv4 o1) > 32 then NoPrefix
              else Prefix_Masked (PrefixFrom address (unat (csi_IPv4 o1))))
           else
             (if csi_IPv6 o1 = 0 then NoPrefix
              else if unat (csi_IPv6 o1) > 128 then NoPrefix
              else Prefix_Masked (PrefixFrom address (unat (csi_IPv6 o1)))))))"

definition resolveClientSubnet ::
  "('s, 'r) dns_client \<Rightarrow> query_ctx \<Rightarrow> dns_query_options \<Rightarrow> prefix" where
  "resolveClientSubnet c ctx options =
     (let clientSubnet = (if Prefix_IsValid (qo_ClientSubnet options) then qo_ClientSubnet options
                          else dc_clientSubnet c)
      in if Prefix_IsValid clientSubnet then clientSubnet
         else clientSubnetFromInbound (qc_metadata ctx)
           (case qo_ClientSubnetFromInbound options of
              None \<Rightarrow> dc_clientSubnetFromInbound c | Some o1 \<Rightarrow> Some o1))"

subsection \<open>Cache\<close>

definition isCacheableDNSExtra :: "dns_rr \<Rightarrow> bool \<Rightarrow> prefix \<Rightarrow> bool" where
  "isCacheableDNSExtra record independentCache clientSubnet =
     (case rr_Data record of
        RD_OPT options \<Rightarrow>
          (if rr_Ttl record \<noteq> 0 then False
           else if length options = 0 then True
           else if \<not> independentCache then False
           else (case options of
                   [EDNS0_SUBNET _ _ _ _ _] \<Rightarrow> Prefix_IsValid clientSubnet
                 | _ \<Rightarrow> False))
      | _ \<Rightarrow> False)"

definition isSimpleRequest :: "bool \<Rightarrow> prefix \<Rightarrow> dns_msg \<Rightarrow> bool" where
  "isSimpleRequest independentCache clientSubnet message \<longleftrightarrow>
     length (dm_Question message) = 1 \<and> length (dm_Ns message) = 0 \<and>
     (case dm_Extra message of
        [] \<Rightarrow> True
      | [record] \<Rightarrow> rr_Rrtype record = TypeOPT \<and> isCacheableDNSExtra record independentCache clientSubnet
      | _ \<Rightarrow> False)"

definition the_cache :: "('s, 'r) dns_client \<Rightarrow> 's option" where
  "the_cache c = (if \<not> dc_independentCache c then dc_cache c else dc_transportCache c)"

definition put_cache :: "'s \<Rightarrow> ('s, 'r) dns_client \<Rightarrow> ('s, 'r) dns_client" where
  "put_cache s c = (if \<not> dc_independentCache c then c\<lparr>dc_cache := Some s\<rparr> else c\<lparr>dc_transportCache := Some s\<rparr>)"

definition the_key :: "('s, 'r) dns_client \<Rightarrow> dns_question \<Rightarrow> string \<Rightarrow> prefix \<Rightarrow> cache_key" where
  "the_key c question tag subnet =
     (if \<not> dc_independentCache c then QuestionKey question else TransportKey question tag subnet)"

definition storeCache ::
  "('s, 'r) client_env \<Rightarrow> int \<Rightarrow> string \<Rightarrow> dns_question \<Rightarrow> dns_msg \<Rightarrow> u32 \<Rightarrow> prefix \<Rightarrow>
   ('s, 'r) dns_client \<Rightarrow> unit result \<times> ('s, 'r) dns_client" where
  "storeCache E now tag question message timeToLive clientSubnet c =
     (if timeToLive = 0 then (Inr (), c)
      else (case the_cache c of
              None \<Rightarrow> (Inl (EPanic ''nil pointer dereference''), c)
            | Some s \<Rightarrow>
                (let key = the_key c question tag clientSubnet in
                 (Inr (), put_cache
                    (if dc_disableExpire c then lru_Add (ce_lru E) key message s
                     else lru_AddWithLifetime (ce_lru E) now key message (Second * uint timeToLive) s) c))))"

text \<open>The time to live left to a response: its records are aged by the time it was cached for.\<close>

definition age_response :: "int \<Rightarrow> dns_msg \<Rightarrow> dns_msg" where
  "age_response nowTTL response =
     (let originTTL = uint (records_ttl (message_records response)) in
      if originTTL > 0
      then map_records (\<lambda>rr. rr\<lparr>rr_Ttl := rr_Ttl rr - word_of_int (originTTL - nowTTL)\<rparr>) response
      else set_ttls (word_of_int nowTTL) response)"

definition loadResponse ::
  "('s, 'r) client_env \<Rightarrow> int \<Rightarrow> dns_question \<Rightarrow> string \<Rightarrow> prefix \<Rightarrow>
   ('s, 'r) dns_client \<Rightarrow> (dns_msg \<times> int) option result \<times> ('s, 'r) dns_client" where
  "loadResponse E now question tag clientSubnet c =
     (case the_cache c of
        None \<Rightarrow> (Inl (EPanic ''nil pointer dereference''), c)
      | Some s \<Rightarrow>
          (let key = the_key c question tag clientSubnet in
           if dc_disableExpire c then
             (case lru_Get (ce_lru E) now key s of
                (None, s') \<Rightarrow> (Inr None, put_cache s' c)
              | (Some response, s') \<Rightarrow> (Inr (Some (response, 0)), put_cache s' c))
           else
             (case lru_GetWithLifetime (ce_lru E) now key s of
                (None, s') \<Rightarrow> (Inr None, put_cache s' c)
              | (Some (response, expireAt), s') \<Rightarrow>
                  if now > expireAt
                  then (Inr None, put_cache (lru_Remove (ce_lru E) key s') c)
                  else (let nowTTL = max 0 ((expireAt - now) div Second) in
                        (Inr (Some (age_response nowTTL response, nowTTL)), put_cache s' c)))))"

definition Client_ClearCache :: "('s, 'r) client_env \<Rightarrow> ('s, 'r) dns_client \<Rightarrow> ('s, 'r) dns_client" where
  "Client_ClearCache E c =
     (case dc_cache c of
        Some s \<Rightarrow> c\<lparr>dc_cache := Some (lru_Purge (ce_lru E) s)\<rparr>
      | None \<Rightarrow>
          (case dc_transportCache c of
             Some s \<Rightarrow> c\<lparr>dc_transportCache := Some (lru_Purge (ce_lru E) s)\<rparr>
           | None \<Rightarrow> c))"

section \<open>Exchange\<close>

definition filter_hints :: "domain_strategy \<Rightarrow> dns_rr \<Rightarrow> dns_rr" where
  "filter_hints strategy rr =
     (case rr_Data rr of
        RD_HTTPS values \<Rightarrow>
          rr\<lparr>rr_Data := RD_HTTPS (filter (\<lambda>it. if strategy = DomainStrategyIPv4Only
                                             then fst it \<noteq> SVCB_IPV6HINT else fst it \<noteq> SVCB_IPV4HINT) values)\<rparr>
      | _ \<Rightarrow> rr)"

definition remove_hints :: "dns_question \<Rightarrow> domain_strategy \<Rightarrow> dns_msg \<Rightarrow> dns_msg" where
  "remove_hints question strategy response =
     (if q_Qtype question = TypeHTTPS \<and>
         (strategy = DomainStrategyIPv4Only \<or> strategy = DomainStrategyIPv6Only)
      then response\<lparr>dm_Answer := map (filter_hints strategy) (dm_Answer response)\<rparr>
      else response)"

definition finish_edns :: "dns_lib \<Rightarrow> dns_msg \<Rightarrow> dns_msg \<Rightarrow> dns_msg" where
  "finish_edns D message response =
     (case dl_IsEdns0 D response of
        None \<Rightarrow> response
      | Some responseOpt \<Rightarrow>
          (let stripped = response\<lparr>dm_Extra := filter (\<lambda>it. rr_Rrtype it \<noteq> TypeOPT) (dm_Extra response)\<rparr> in
           case dl_IsEdns0 D message of
             None \<Rightarrow> stripped
           | Some requestOpt \<Rightarrow>
               if dl_Version D requestOpt < dl_Version D responseOpt
               then dl_SetEdns0 D (dl_UDPSize D responseOpt) (dl_Do D responseOpt) stripped
               else response))"

text \<open>The time to live of the response, and the response as it is returned.\<close>

definition exchange_ttl :: "dns_query_options \<Rightarrow> dns_msg \<Rightarrow> u32" where
  "exchange_ttl options response =
     (case qo_RewriteTTL options of Some ttl \<Rightarrow> ttl | None \<Rightarrow> response_ttl response)"

definition finish_response :: "dns_lib \<Rightarrow> dns_msg \<Rightarrow> u32 \<Rightarrow> dns_msg \<Rightarrow> dns_msg" where
  "finish_response D message timeToLive response =
     finish_edns D message ((set_ttls timeToLive response)\<lparr>dm_Id := dm_Id message\<rparr>)"

definition response_rejected :: "dns_lib \<Rightarrow> (addr list \<Rightarrow> bool) option \<Rightarrow> dns_msg \<Rightarrow> bool" where
  "response_rejected D responseChecker response =
     (case responseChecker of
        None \<Rightarrow> False
      | Some check \<Rightarrow>
          if dm_Rcode response \<noteq> RcodeSuccess \<or> length (dm_Answer response) = 0 then True
          else \<not> check (MessageToAddresses D response))"

text \<open>
  What happens to a response. The cache is given the pointer that is returned, so what it
  holds is the response with the changes made after the store; \<open>now\<close> is the time of the
  store. A rejected response is returned beside the error; no caller looks at it.
\<close>

definition handle_response ::
  "('s, 'r) client_env \<Rightarrow> int \<Rightarrow> string \<Rightarrow> dns_question \<Rightarrow> dns_msg \<Rightarrow> dns_query_options \<Rightarrow>
   (addr list \<Rightarrow> bool) option \<Rightarrow> bool \<Rightarrow> prefix \<Rightarrow> dns_msg \<Rightarrow>
   ('s, 'r) dns_client \<Rightarrow> dns_msg result \<times> ('s, 'r) dns_client" where
  "handle_response E now tag question message options responseChecker disableCache clientSubnet response c =
     (let noCache = (disableCache \<or> dm_Rcode response \<noteq> RcodeSuccess \<and> dm_Rcode response \<noteq> RcodeNameError) in
      if response_rejected (ce_lib E) responseChecker response
      then (Inl ErrResponseRejected,
            if noCache then c
            else c\<lparr>dc_rdrc := map_option (rdrc_SaveAsync (ce_rdrc E) tag (q_Name question) (q_Qtype question)) (dc_rdrc c)\<rparr>)
      else
        (let filtered = remove_hints question (qo_Strategy options) response;
             timeToLive = exchange_ttl options filtered;
             result = finish_response (ce_lib E) message timeToLive filtered
         in if noCache then (Inr result, c)
            else (case storeCache E now tag question result timeToLive clientSubnet c of
                    (Inl e, c') \<Rightarrow> (Inl e, c')
                  | (Inr _, c') \<Rightarrow> (Inr result, c'))))"

definition exchange_upstream ::
  "('s, 'r) client_env \<Rightarrow> int \<Rightarrow> query_ctx \<Rightarrow> dns_transport \<Rightarrow> dns_question \<Rightarrow> dns_msg \<Rightarrow> dns_query_options \<Rightarrow>
   (addr list \<Rightarrow> bool) option \<Rightarrow> bool \<Rightarrow> prefix \<Rightarrow>
   ('s, 'r) dns_client \<Rightarrow> dns_msg result \<times> ('s, 'r) dns_client" where
  "exchange_upstream E now ctx transport question message options responseChecker disableCache clientSubnet c =
     (let tag = sv_Tag transport;
          handle = (\<lambda>response. handle_response E now tag question message options responseChecker
                      disableCache clientSubnet response c)
      in if qc_transportTag ctx = Some tag
         then (Inl (ENew (''DNS query loopback in transport['' @ tag @ '']'')), c)
         else if \<not> disableCache \<and> responseChecker \<noteq> None \<and>
           (case dc_rdrc c of None \<Rightarrow> False
            | Some r \<Rightarrow> rdrc_Load (ce_rdrc E) tag (q_Name question) (q_Qtype question) r)
         then (Inl ErrResponseRejectedCached, c)
         else (case dt_Exchange transport (ctx\<lparr>qc_transportTag := Some tag\<rparr>) message of
                 Inr response \<Rightarrow> handle response
               | Inl err \<Rightarrow>
                   (case as_RcodeError err of
                      Some rcode \<Rightarrow> handle (FixedResponseStatus message rcode)
                    | None \<Rightarrow> (Inl err, c))))"

text \<open>\<open>now\<close> is the time of the cache lookup and \<open>later\<close> that of the response.\<close>

definition exchange_cached ::
  "('s, 'r) client_env \<Rightarrow> int \<Rightarrow> int \<Rightarrow> query_ctx \<Rightarrow> dns_transport \<Rightarrow> dns_question \<Rightarrow> dns_msg \<Rightarrow>
   dns_query_options \<Rightarrow> (addr list \<Rightarrow> bool) option \<Rightarrow> bool \<Rightarrow> prefix \<Rightarrow>
   ('s, 'r) dns_client \<Rightarrow> dns_msg result \<times> ('s, 'r) dns_client" where
  "exchange_cached E now later ctx transport question message options responseChecker disableCache clientSubnet c =
     (if disableCache
      then exchange_upstream E later ctx transport question message options responseChecker disableCache clientSubnet c
      else (case qc_waitErr ctx of
              Some e \<Rightarrow> (Inl e, c)
            | None \<Rightarrow>
                (case loadResponse E now question (sv_Tag transport) clientSubnet c of
                   (Inl e, c') \<Rightarrow> (Inl e, c')
                 | (Inr (Some (response, ttl)), c') \<Rightarrow> (Inr (response\<lparr>dm_Id := dm_Id message\<rparr>), c')
                 | (Inr None, c') \<Rightarrow>
                     exchange_upstream E later ctx transport question message options responseChecker
                       disableCache clientSubnet c')))"

definition Client_Exchange ::
  "('s, 'r) client_env \<Rightarrow> int \<Rightarrow> int \<Rightarrow> query_ctx \<Rightarrow> dns_transport \<Rightarrow> dns_msg \<Rightarrow> dns_query_options \<Rightarrow>
   (addr list \<Rightarrow> bool) option \<Rightarrow> ('s, 'r) dns_client \<Rightarrow> dns_msg result \<times> ('s, 'r) dns_client" where
  "Client_Exchange E now later ctx transport message0 options responseChecker c =
     (case dm_Question message0 of
        [] \<Rightarrow> (Inr (FixedResponseStatus message0 RcodeFormatError), c)
      | question # _ \<Rightarrow>
          if q_Qtype question = TypeA \<and> qo_Strategy options = DomainStrategyIPv6Only \<or>
             q_Qtype question = TypeAAAA \<and> qo_Strategy options = DomainStrategyIPv4Only
          then (Inr (FixedResponseStatus message0 RcodeSuccess), c)
          else
            (let clientSubnet = resolveClientSubnet c ctx options;
                 message = (if Prefix_IsValid clientSubnet then SetClientSubnet message0 clientSubnet else message0);
                 cacheClientSubnet =
                   (if dc_independentCache c
                    then (case ExtractClientSubnet (ce_lib E) message of Some subnet \<Rightarrow> subnet | None \<Rightarrow> NoPrefix)
                    else NoPrefix);
                 disableCache = (\<not> isSimpleRequest (dc_independentCache c) cacheClientSubnet message \<or>
                                 dc_disableCache c \<or> qo_DisableCache options)
             in exchange_cached E now later ctx transport question message options responseChecker
                  disableCache cacheClientSubnet c))"

section \<open>Lookup\<close>

definition sortAddresses :: "addr list \<Rightarrow> addr list \<Rightarrow> domain_strategy \<Rightarrow> addr list" where
  "sortAddresses response4 response6 strategy =
     (if strategy = DomainStrategyPreferIPv6 then response6 @ response4 else response4 @ response6)"

text \<open>The addresses of a response, or its response code as an error.\<close>

definition response_addresses :: "dns_lib \<Rightarrow> dns_msg \<Rightarrow> addr list result" where
  "response_addresses D response =
     (if dm_Rcode response \<noteq> RcodeSuccess then Inl (ERcode (dm_Rcode response))
      else Inr (MessageToAddresses D response))"

text \<open>\<open>None\<close> is \<^verbatim>\<open>ErrNotCached\<close>.\<close>

definition questionCache ::
  "('s, 'r) client_env \<Rightarrow> int \<Rightarrow> dns_question \<Rightarrow> string \<Rightarrow> prefix \<Rightarrow>
   ('s, 'r) dns_client \<Rightarrow> addr list result option \<times> ('s, 'r) dns_client" where
  "questionCache E now question tag clientSubnet c =
     (case loadResponse E now question tag clientSubnet c of
        (Inl e, c') \<Rightarrow> (Some (Inl e), c')
      | (Inr None, c') \<Rightarrow> (None, c')
      | (Inr (Some (response, ttl)), c') \<Rightarrow> (Some (response_addresses (ce_lib E) response), c'))"

definition lookup_message :: "dns_question \<Rightarrow> dns_msg" where
  "lookup_message question = zero_dns_msg\<lparr>dm_RecursionDesired := True, dm_Question := [question]\<rparr>"

definition exchange_addresses ::
  "('s, 'r) client_env \<Rightarrow> int \<Rightarrow> int \<Rightarrow> query_ctx \<Rightarrow> dns_transport \<Rightarrow> dns_question \<Rightarrow> dns_query_options \<Rightarrow>
   (addr list \<Rightarrow> bool) option \<Rightarrow> ('s, 'r) dns_client \<Rightarrow> addr list result \<times> ('s, 'r) dns_client" where
  "exchange_addresses E now later ctx transport question options responseChecker c =
     (case Client_Exchange E now later ctx transport (lookup_message question) options responseChecker c of
        (Inl e, c') \<Rightarrow> (Inl e, c')
      | (Inr response, c') \<Rightarrow> (response_addresses (ce_lib E) response, c'))"

definition lookupToExchange ::
  "('s, 'r) client_env \<Rightarrow> int \<Rightarrow> int \<Rightarrow> query_ctx \<Rightarrow> dns_transport \<Rightarrow> string \<Rightarrow> u16 \<Rightarrow> dns_query_options \<Rightarrow>
   (addr list \<Rightarrow> bool) option \<Rightarrow> ('s, 'r) dns_client \<Rightarrow> addr list result \<times> ('s, 'r) dns_client" where
  "lookupToExchange E now later ctx transport name qType options responseChecker c =
     (let question = \<lparr>q_Name = name, q_Qtype = qType, q_Qclass = ClassINET\<rparr>;
          resolvedSubnet = resolveClientSubnet c ctx options;
          disableCache = (dc_disableCache c \<or> qo_DisableCache options \<or>
                          Prefix_IsValid resolvedSubnet \<and> \<not> dc_independentCache c);
          cacheClientSubnet = (if dc_independentCache c then Prefix_Masked resolvedSubnet else NoPrefix);
          exchange = exchange_addresses E now later ctx transport question options responseChecker
      in if disableCache then exchange c
         else (case questionCache E now question (sv_Tag transport) cacheClientSubnet c of
                 (Some r, c') \<Rightarrow> (r, c')
               | (None, c') \<Rightarrow> exchange c'))"

text \<open>The two queries of a lookup run as a task group; the model runs them one after the
  other. An error leaves the response of its query empty.\<close>

definition Client_Lookup ::
  "('s, 'r) client_env \<Rightarrow> int \<Rightarrow> int \<Rightarrow> query_ctx \<Rightarrow> dns_transport \<Rightarrow> string \<Rightarrow> dns_query_options \<Rightarrow>
   (addr list \<Rightarrow> bool) option \<Rightarrow> ('s, 'r) dns_client \<Rightarrow> addr list result \<times> ('s, 'r) dns_client" where
  "Client_Lookup E now later ctx transport domain0 options responseChecker c =
     (let domain = FqdnToDomain (dl_IsFqdn (ce_lib E)) domain0;
          dnsName = dl_Fqdn (ce_lib E) domain;
          strategy = (if qo_LookupStrategy options \<noteq> DomainStrategyAsIS then qo_LookupStrategy options
                      else qo_Strategy options);
          query = (\<lambda>qType c. lookupToExchange E now later ctx transport dnsName qType options responseChecker c)
      in if strategy = DomainStrategyIPv4Only then query TypeA c
         else if strategy = DomainStrategyIPv6Only then query TypeAAAA c
         else
           (case query TypeA c of (r4, c4) \<Rightarrow>
            case query TypeAAAA c4 of (r6, c6) \<Rightarrow>
              (let response4 = (case r4 of Inl _ \<Rightarrow> [] | Inr a \<Rightarrow> a);
                   response6 = (case r6 of Inl _ \<Rightarrow> [] | Inr a \<Rightarrow> a);
                   err = ce_group E (case r4 of Inl e \<Rightarrow> Some e | Inr _ \<Rightarrow> None)
                                    (case r6 of Inl e \<Rightarrow> Some e | Inr _ \<Rightarrow> None)
               in (if length response4 = 0 \<and> length response6 = 0
                   then (case err of Some e \<Rightarrow> Inl e | None \<Rightarrow> Inr [])
                   else Inr (sortAddresses response4 response6 strategy), c6))))"

section \<open>Query options of a configuration\<close>

definition zero_query_options :: dns_query_options where
  "zero_query_options = \<lparr>qo_Transport = None, qo_Strategy = 0, qo_LookupStrategy = 0, qo_DisableCache = False,
     qo_RewriteTTL = None, qo_ClientSubnet = NoPrefix, qo_ClientSubnetFromInbound = None\<rparr>"

definition DNSQueryOptionsFrom ::
  "(string \<Rightarrow> dns_transport option) \<Rightarrow> domain_resolve_options option \<Rightarrow> dns_query_options result" where
  "DNSQueryOptionsFrom transports options =
     (case options of
        None \<Rightarrow> Inr zero_query_options
      | Some o1 \<Rightarrow>
          (case transports (dro_Server o1) of
             None \<Rightarrow> Inl (ENew (''domain resolver not found: '' @ dro_Server o1))
           | Some transport \<Rightarrow>
               Inr (zero_query_options\<lparr>qo_Transport := Some transport, qo_Strategy := dro_Strategy o1,
                 qo_DisableCache := dro_DisableCache o1, qo_RewriteTTL := dro_RewriteTTL o1,
                 qo_ClientSubnet := (case dro_ClientSubnet o1 of None \<Rightarrow> NoPrefix | Some p \<Rightarrow> p)\<rparr>)))"

end
