(* ===== verification/DNS_Transport_Manager.thy ===== *)
theory DNS_Transport_Manager
  imports DNS_Client
begin

text \<open>
  The manager of the DNS transports (\<^verbatim>\<open>dns/transport_manager.go\<close>): the list and the table by
  tag, the dependencies, the default transport and the FakeIP transport, which is
  unique. The start in dependency order is that of \<^verbatim>\<open>Start_Order\<close>; what the registry creates
  is an argument.
\<close>

section \<open>State and operations\<close>

definition DNSTypeFakeIP :: string where "DNSTypeFakeIP = ''fakeip''"

definition dns_words :: start_words where
  "dns_words = \<lparr>sw_prefix = ''dns/'', sw_name = ''server''\<rparr>"

record transport_manager =
  tm_defaultTag :: string
  tm_started :: bool
  tm_stage :: start_stage
  tm_transports :: "dns_transport list"
  tm_transportByTag :: "(string \<times> dns_transport) list"
  tm_dependByTag :: "string \<Rightarrow> string list"
  tm_defaultTransport :: "dns_transport option"
  tm_defaultTransportFallback :: "dns_transport option"
  tm_fakeIPTransport :: "dns_transport option"

definition NewTransportManager :: "string \<Rightarrow> transport_manager" where
  "NewTransportManager defaultTag = \<lparr>tm_defaultTag = defaultTag, tm_started = False,
     tm_stage = StartStateInitialize, tm_transports = [], tm_transportByTag = [], tm_dependByTag = (\<lambda>_. []),
     tm_defaultTransport = None, tm_defaultTransportFallback = None, tm_fakeIPTransport = None\<rparr>"

definition TransportManager_Initialize :: "dns_transport \<Rightarrow> transport_manager \<Rightarrow> transport_manager" where
  "TransportManager_Initialize fallback m = m\<lparr>tm_defaultTransportFallback := Some fallback\<rparr>"

definition startTransports ::
  "(string \<times> dns_transport) list \<Rightarrow> dns_transport list \<Rightarrow> error option \<times> dns_transport event list" where
  "startTransports byTag transports = start_loop dns_words byTag transports [] []"

definition TransportManager_Start ::
  "start_stage \<Rightarrow> transport_manager \<Rightarrow> error option \<times> dns_transport event list \<times> transport_manager" where
  "TransportManager_Start stage m =
     (if tm_started m \<and> stage_number stage \<le> stage_number (tm_stage m)
      then (Some (EPanic ''already started''), [], m)
      else
        (let m1 = m\<lparr>tm_started := True, tm_stage := stage\<rparr> in
         if stage = StartStateStart then
           (if tm_defaultTag m1 \<noteq> [] \<and> tm_defaultTransport m1 = None
            then (Some (ENew (''default DNS server not found: '' @ tm_defaultTag m1)), [], m1)
            else (case startTransports (tm_transportByTag m1) (tm_transports m1) of (r, evs) \<Rightarrow> (r, evs, m1)))
         else (case start_all dns_words stage (tm_transports m1) [] of (r, evs) \<Rightarrow> (r, evs, m1))))"

text \<open>The errors of the close functions are collected and not returned.\<close>

definition TransportManager_Close :: "transport_manager \<Rightarrow> dns_transport event list \<times> transport_manager" where
  "TransportManager_Close m =
     (if \<not> tm_started m then ([], m)
      else (map Closed (filter (\<lambda>t. sv_closer t \<noteq> None) (tm_transports m)),
            m\<lparr>tm_started := False, tm_transports := []\<rparr>))"

definition TransportManager_Transport :: "transport_manager \<Rightarrow> string \<Rightarrow> dns_transport option" where
  "TransportManager_Transport m tag = map_of (tm_transportByTag m) tag"

definition TransportManager_Default :: "transport_manager \<Rightarrow> dns_transport option" where
  "TransportManager_Default m =
     (case tm_defaultTransport m of Some t \<Rightarrow> Some t | None \<Rightarrow> tm_defaultTransportFallback m)"

definition TransportManager_FakeIP :: "transport_manager \<Rightarrow> dns_transport option" where
  "TransportManager_FakeIP m = tm_fakeIPTransport m"

text \<open>The default after a transport has left the list; an error ends the removal.\<close>

definition next_default :: "dns_transport \<Rightarrow> transport_manager \<Rightarrow> transport_manager result" where
  "next_default transport m =
     (if is_object (tm_defaultTransport m) transport then
        (case tm_transports m of
           [] \<Rightarrow> Inr (m\<lparr>tm_defaultTransport := None\<rparr>)
         | nextTransport # _ \<Rightarrow>
             if sv_Type nextTransport \<noteq> DNSTypeFakeIP
             then Inl (ENew ''default server cannot be fakeip'')
             else Inr (m\<lparr>tm_defaultTransport := Some nextTransport\<rparr>))
      else Inr m)"

definition TransportManager_Remove ::
  "string \<Rightarrow> transport_manager \<Rightarrow> unit result \<times> dns_transport event list \<times> transport_manager" where
  "TransportManager_Remove tag m =
     (case map_of (tm_transportByTag m) tag of
        None \<Rightarrow> (Inl ErrInvalid, [], m)
      | Some transport \<Rightarrow>
          (let m1 = m\<lparr>tm_transportByTag := AList.delete tag (tm_transportByTag m)\<rparr> in
           case remove_object transport (tm_transports m1) of
             None \<Rightarrow> (Inl (EPanic ''invalid inbound index''), [], m1)
           | Some transports \<Rightarrow>
               (let m2 = m1\<lparr>tm_transports := transports\<rparr> in
                case next_default transport m2 of
                  Inl e \<Rightarrow> (Inl e, [], m2)
                | Inr m3 \<Rightarrow>
                    if length (tm_dependByTag m3 tag) > 0
                    then (Inl (ENew (''server['' @ tag @ ''] is depended by '' @ Join (tm_dependByTag m3 tag) '', '')), [], m3)
                    else
                      (let m4 = m3\<lparr>tm_dependByTag := fold (drop_dependency tag) (sv_Dependencies transport) (tm_dependByTag m3)\<rparr>
                       in (Inr (), if tm_started m4 then [Closed transport] else [], m4)))))"

text \<open>The second half of \<^verbatim>\<open>Create\<close>: the transport enters the list and the table before the
  last two checks.\<close>

definition insert_transport :: "string \<Rightarrow> dns_transport \<Rightarrow> transport_manager \<Rightarrow> unit result \<times> transport_manager" where
  "insert_transport tag transport m =
     (let m1 = m\<lparr>tm_transports := tm_transports m @ [transport],
                 tm_transportByTag := AList.update tag transport (tm_transportByTag m),
                 tm_dependByTag := fold (\<lambda>d f. f(d := f d @ [tag])) (sv_Dependencies transport) (tm_dependByTag m)\<rparr>;
          isDefault = (tag = tm_defaultTag m1 \<or> (tm_defaultTag m1 = [] \<and> tm_defaultTransport m1 = None))
      in if isDefault \<and> sv_Type transport = DNSTypeFakeIP
         then (Inl (ENew ''default server cannot be fakeip''), m1)
         else
           (let m2 = (if isDefault then m1\<lparr>tm_defaultTransport := Some transport\<rparr> else m1)
            in if sv_Type transport = DNSTypeFakeIP
               then (if tm_fakeIPTransport m2 \<noteq> None
                     then (Inl (ENew ''multiple fakeip server are not supported''), m2)
                     else (Inr (), m2\<lparr>tm_fakeIPTransport := Some transport\<rparr>))
               else (Inr (), m2)))"

definition TransportManager_Create ::
  "string \<Rightarrow> dns_transport result \<Rightarrow> transport_manager \<Rightarrow> unit result \<times> dns_transport event list \<times> transport_manager" where
  "TransportManager_Create tag created m =
     (if tag = [] then (Inl ErrInvalid, [], m)
      else (case created of
        Inl e \<Rightarrow> (Inl e, [], m)
      | Inr transport \<Rightarrow>
          (case (if tm_started m then start_stages dns_words transport ListStartStages [] else (None, [])) of
             (Some e, evs) \<Rightarrow> (Inl e, evs, m)
           | (None, evs) \<Rightarrow>
               (case map_of (tm_transportByTag m) tag of
                  None \<Rightarrow> (case insert_transport tag transport m of (r, m') \<Rightarrow> (r, evs, m'))
                | Some old \<Rightarrow>
                    (let closing = (if tm_started m then sv_closer old else None);
                         evs' = (if closing = None then evs else evs @ [Closed old])
                     in case called closing of
                          Some e \<Rightarrow> (Inl (ECause e (''close'' @ service_text dns_words old)), evs', m)
                        | None \<Rightarrow>
                            (case remove_object old (tm_transports m) of
                               None \<Rightarrow> (Inl (EPanic ''invalid inbound index''), evs', m)
                             | Some transports \<Rightarrow>
                                 (case insert_transport tag transport (m\<lparr>tm_transports := transports\<rparr>) of
                                    (r, m') \<Rightarrow> (r, evs', m'))))))))"

section \<open>The default transport\<close>

text \<open>The states the manager reaches by starting, closing and creating, without a removal.\<close>

inductive transports_created :: "string \<Rightarrow> transport_manager \<Rightarrow> bool" for defaultTag where
  new: "transports_created defaultTag (NewTransportManager defaultTag)"
| init: "transports_created defaultTag m \<Longrightarrow> sv_Type fallback \<noteq> DNSTypeFakeIP \<Longrightarrow>
    transports_created defaultTag (TransportManager_Initialize fallback m)"
| start: "transports_created defaultTag m \<Longrightarrow> transports_created defaultTag (snd (snd (TransportManager_Start stage m)))"
| close: "transports_created defaultTag m \<Longrightarrow> transports_created defaultTag (snd (TransportManager_Close m))"
| create: "transports_created defaultTag m \<Longrightarrow>
    transports_created defaultTag (snd (snd (TransportManager_Create tag created m)))"

definition default_ok :: "transport_manager \<Rightarrow> bool" where
  "default_ok m \<longleftrightarrow> pred_option (\<lambda>t. sv_Type t \<noteq> DNSTypeFakeIP) (tm_defaultTransport m) \<and>
     pred_option (\<lambda>t. sv_Type t \<noteq> DNSTypeFakeIP) (tm_defaultTransportFallback m)"

lemma default_ok_frame [simp]:
  "default_ok (m\<lparr>tm_transports := x\<rparr>) = default_ok m"
  "default_ok (m\<lparr>tm_started := b\<rparr>) = default_ok m"
  "default_ok (m\<lparr>tm_stage := st\<rparr>) = default_ok m"
  by (simp_all add: default_ok_def)

lemma default_ok_start: "default_ok m \<Longrightarrow> default_ok (snd (snd (TransportManager_Start stage m)))"
  by (simp add: TransportManager_Start_def Let_def split: prod.splits)

lemma default_ok_insert: "insert_transport tag t m = (r, m') \<Longrightarrow> default_ok m \<Longrightarrow> default_ok m'"
  by (auto simp: insert_transport_def Let_def default_ok_def split: if_splits)

lemma default_ok_create: "default_ok m \<Longrightarrow> default_ok (snd (snd (TransportManager_Create tag created m)))"
  by (auto simp: TransportManager_Create_def Let_def split: sum.splits prod.splits option.splits
      dest: default_ok_insert)

lemma created_default_ok: "transports_created defaultTag m \<Longrightarrow> default_ok m"
proof (induction rule: transports_created.induct)
  case new
  show ?case by (simp add: NewTransportManager_def default_ok_def)
next
  case (init m fallback)
  then show ?case by (simp add: TransportManager_Initialize_def default_ok_def)
next
  case (start m stage)
  show ?case by (rule default_ok_start) (rule start)
next
  case (close m)
  then show ?case by (simp add: TransportManager_Close_def)
next
  case (create m tag created)
  show ?case by (rule default_ok_create) (rule create)
qed

text \<open>Remark (created_default_not_fakeip): as long as no transport is removed, the transport
  that serves the queries no rule matches is not the FakeIP transport.\<close>

theorem created_default_not_fakeip:
  assumes "transports_created defaultTag m" and "TransportManager_Default m = Some t"
  shows "sv_Type t \<noteq> DNSTypeFakeIP"
  using created_default_ok [OF assms(1)] assms(2)
  by (auto simp: TransportManager_Default_def default_ok_def split: option.splits)

text \<open>Remark (remove_default_inverted): removing the default transport tests the type of its
  successor the wrong way round. A successor that could serve is refused: the call fails,
  the removed transport stays the default though it is in neither the list nor the table,
  and it is not closed. A FakeIP successor becomes the default.\<close>

theorem remove_default_inverted:
  assumes "map_of (tm_transportByTag m) tag = Some transport"
    and "remove_object transport (tm_transports m) = Some (successor # others)"
    and "is_object (tm_defaultTransport m) transport" and "tm_dependByTag m tag = []"
  shows "case TransportManager_Remove tag m of (r, evs, m') \<Rightarrow>
    (if sv_Type successor = DNSTypeFakeIP
     then r = Inr () \<and> tm_defaultTransport m' = Some successor
     else r = Inl (ENew ''default server cannot be fakeip'') \<and> evs = [] \<and>
          tm_defaultTransport m' = tm_defaultTransport m \<and> tm_transports m' = successor # others \<and>
          TransportManager_Transport m' tag = None)"
  using assms
  by (auto simp: TransportManager_Remove_def Let_def next_default_def TransportManager_Transport_def
      delete_conv')

section \<open>Examples\<close>

definition sample_server :: "nat \<Rightarrow> string \<Rightarrow> string \<Rightarrow> dns_transport" where
  "sample_server i ty tag = \<lparr>sv_id = i, sv_Type = ty, sv_Tag = tag, sv_Dependencies = [],
     sv_starter = Lifecycle (\<lambda>_. None), sv_closer = Some None, dt_legacy = None, dt_Exchange = (\<lambda>_ _. Inl (ENew ''down''))\<rparr>"

definition two_servers :: transport_manager where
  "two_servers = snd (insert_transport ''b'' (sample_server 1 ''udp'' ''b'')
     (snd (insert_transport ''a'' (sample_server 0 ''udp'' ''a'') (NewTransportManager []))))"

lemmas sample_server_defs = two_servers_def insert_transport_def NewTransportManager_def sample_server_def
  DNSTypeFakeIP_def Let_def

theorem created_default_not_fakeip_witness:
  "TransportManager_Default (snd (snd (TransportManager_Create ''a'' (Inr (sample_server 0 ''udp'' ''a'')) (NewTransportManager [])))) =
     Some (sample_server 0 ''udp'' ''a'') \<and> sv_Type (sample_server 0 ''udp'' ''a'') \<noteq> DNSTypeFakeIP"
proof -
  have "TransportManager_Default (snd (snd (TransportManager_Create ''a'' (Inr (sample_server 0 ''udp'' ''a'')) (NewTransportManager [])))) =
     Some (sample_server 0 ''udp'' ''a'')"
    by (simp add: TransportManager_Create_def sample_server_defs TransportManager_Default_def)
  moreover from this have "sv_Type (sample_server 0 ''udp'' ''a'') \<noteq> DNSTypeFakeIP"
    by (rule created_default_not_fakeip [rotated]) (rule transports_created.create, rule transports_created.new)
  ultimately show ?thesis by simp
qed

theorem remove_default_inverted_witness:
  "fst (TransportManager_Remove ''a'' two_servers) = Inl (ENew ''default server cannot be fakeip'') \<and>
   map_option sv_Tag (TransportManager_Default (snd (snd (TransportManager_Remove ''a'' two_servers)))) = Some ''a''"
proof -
  have "map_of (tm_transportByTag two_servers) ''a'' = Some (sample_server 0 ''udp'' ''a'')"
    "remove_object (sample_server 0 ''udp'' ''a'') (tm_transports two_servers) = Some [sample_server 1 ''udp'' ''b'']"
    "is_object (tm_defaultTransport two_servers) (sample_server 0 ''udp'' ''a'')" "tm_dependByTag two_servers ''a'' = []"
    "tm_defaultTransport two_servers = Some (sample_server 0 ''udp'' ''a'')"
    by (simp_all add: sample_server_defs is_object_def)
  with remove_default_inverted [of two_servers "''a''" "sample_server 0 ''udp'' ''a''" "sample_server 1 ''udp'' ''b''" "[]"]
  show ?thesis
    by (auto simp: TransportManager_Default_def split: prod.splits)
      (simp_all add: sample_server_def DNSTypeFakeIP_def)
qed

end
