(* ===== verification/DNS_Router.thy ===== *)
theory DNS_Router
  imports Rule_Set_Props DNS_Client DNS_Transport_Manager
begin

text \<open>
  The DNS router of \<^verbatim>\<open>dns/router.go\<close>: the rules select the transports of a query, the query
  races over them, and a rule with an address limit is left for the next one when its
  responses are rejected.

  The client, the transport manager and the reverse mapping are interfaces: the fields of
  \<open>dns_env\<close>. What the goroutines of a race bring is the sequence of values the receiving loop
  selects: results of queries in the order they arrive, or the end of the context. The
  argument \<open>sched\<close> turns the results of the queries into that sequence; a sequence that ends
  too early is a race that still waits, and the value \<^const>\<open>None\<close>.
\<close>

section \<open>Environment and state\<close>

record 'm dns_env =
  dv_lib :: lib
  dv_runtime :: runtime
  dv_heap :: rule_heap
  dv_hasCIDR :: "rule_set_ref \<Rightarrow> bool"
  dv_dns :: dns_lib
  dv_Transport :: "string \<Rightarrow> dns_transport option"
  dv_Default :: "dns_transport option"
  dv_sharedCache :: bool
  dv_Exchange :: "query_ctx \<Rightarrow> dns_transport \<Rightarrow> dns_msg \<Rightarrow> dns_query_options \<Rightarrow> (addr list \<Rightarrow> bool) option \<Rightarrow>
    dns_msg option result"
  dv_Lookup :: "query_ctx \<Rightarrow> dns_transport \<Rightarrow> string \<Rightarrow> dns_query_options \<Rightarrow> (addr list \<Rightarrow> bool) option \<Rightarrow>
    addr list result"
  dv_Errors :: "error list \<Rightarrow> error option"
  dv_ErrDrop :: error
  dv_AddMapping :: "addr \<Rightarrow> string \<Rightarrow> duration \<Rightarrow> 'm \<Rightarrow> 'm"
  dv_GetMapping :: "addr \<Rightarrow> 'm \<Rightarrow> string option"

record 'm dns_router =
  dx_rules :: "rule_act dns_rule list"
  dx_defaultDomainStrategy :: domain_strategy
  dx_upstreamTimeout :: duration
  dx_fallbackTimeout :: duration
  dx_fallbackGrace :: duration
  dx_dnsReverseMapping :: "'m option"
  dx_serverClientSubnetFromInbound :: "string \<Rightarrow> client_subnet_from_inbound option"

section \<open>Matching\<close>

text \<open>The transports of a list of tags: empty and repeated tags, unknown ones and, unless
  allowed, FakeIP transports are left out. The second component tells whether a FakeIP
  transport was named.\<close>

fun pick_transports ::
  "(string \<Rightarrow> dns_transport option) \<Rightarrow> bool \<Rightarrow> string list \<Rightarrow> string list \<Rightarrow> dns_transport list \<times> bool" where
  "pick_transports lookup allowFakeIP seen [] = ([], False)"
| "pick_transports lookup allowFakeIP seen (serverTag # tags) =
     (if serverTag = [] \<or> serverTag \<in> set seen then pick_transports lookup allowFakeIP seen tags
      else (case lookup serverTag of
              None \<Rightarrow> pick_transports lookup allowFakeIP (serverTag # seen) tags
            | Some transport \<Rightarrow>
                (case pick_transports lookup allowFakeIP (serverTag # seen) tags of
                   (ts, hasFakeIP) \<Rightarrow>
                     if sv_Type transport = DNSTypeFakeIP
                     then ((if allowFakeIP then transport # ts else ts), True)
                     else (transport # ts, hasFakeIP))))"

definition apply_dns_options :: "bool \<Rightarrow> dns_route_options \<Rightarrow> dns_query_options \<Rightarrow> dns_query_options" where
  "apply_dns_options hasFakeIP action options =
     options\<lparr>
       qo_Strategy := (if dr_Strategy action \<noteq> DomainStrategyAsIS then dr_Strategy action else qo_Strategy options),
       qo_DisableCache := (hasFakeIP \<or> dr_DisableCache action \<or> qo_DisableCache options),
       qo_RewriteTTL := (if dr_RewriteTTL action \<noteq> None then dr_RewriteTTL action else qo_RewriteTTL options),
       qo_ClientSubnet := (if Prefix_IsValid (dr_ClientSubnet action) then dr_ClientSubnet action
                           else qo_ClientSubnet options),
       qo_ClientSubnetFromInbound := (if dr_ClientSubnetFromInbound action \<noteq> None
                                      then dr_ClientSubnetFromInbound action
                                      else qo_ClientSubnetFromInbound options)\<rparr>"

definition apply_legacy :: "dns_transport \<Rightarrow> dns_query_options \<Rightarrow> dns_query_options" where
  "apply_legacy transport options =
     (case dt_legacy transport of
        None \<Rightarrow> options
      | Some (strategy, subnet) \<Rightarrow>
          options\<lparr>
            qo_Strategy := (if qo_Strategy options = DomainStrategyAsIS then strategy else qo_Strategy options),
            qo_ClientSubnet := (if \<not> Prefix_IsValid (qo_ClientSubnet options) then subnet
                                else qo_ClientSubnet options)\<rparr>)"

definition apply_single_legacy :: "dns_transport list \<Rightarrow> dns_query_options \<Rightarrow> dns_query_options" where
  "apply_single_legacy transports options =
     (case transports of [transport] \<Rightarrow> apply_legacy transport options | _ \<Rightarrow> options)"

record dns_match =
  dm_transports :: "dns_transport list"
  dm_fallbackTransports :: "dns_transport list"
  dm_upstreamTimeout :: duration
  dm_fallbackTimeout :: duration
  dm_fallbackGrace :: duration
  dm_rule :: "(nat \<times> rule_act dns_rule) option"

definition first_nonzero :: "duration list \<Rightarrow> duration" where
  "first_nonzero ds = (case find (\<lambda>d. d \<noteq> 0) ds of Some d \<Rightarrow> d | None \<Rightarrow> 0)"

definition no_transport_match :: "'m dns_router \<Rightarrow> (nat \<times> rule_act dns_rule) option \<Rightarrow> dns_match" where
  "no_transport_match r rule = \<lparr>dm_transports = [], dm_fallbackTransports = [],
     dm_upstreamTimeout = dx_upstreamTimeout r, dm_fallbackTimeout = dx_fallbackTimeout r,
     dm_fallbackGrace = dx_fallbackGrace r, dm_rule = rule\<rparr>"

definition route_match ::
  "'m dns_router \<Rightarrow> dns_route \<Rightarrow> nat \<times> rule_act dns_rule \<Rightarrow> dns_transport list \<Rightarrow> dns_transport list \<Rightarrow> dns_match" where
  "route_match r action rule transports fallbackTransports =
     (let upstreamTimeout = first_nonzero [dr_UpstreamTimeout action, dx_upstreamTimeout r] in
      \<lparr>dm_transports = transports, dm_fallbackTransports = fallbackTransports,
       dm_upstreamTimeout = upstreamTimeout,
       dm_fallbackTimeout = first_nonzero [dr_FallbackTimeout action, dx_fallbackTimeout r, upstreamTimeout],
       dm_fallbackGrace = first_nonzero [dr_FallbackGrace action, dx_fallbackGrace r],
       dm_rule = Some rule\<rparr>)"

text \<open>What the action of a matching rule does: it ends the search or changes the options.\<close>

definition match_action ::
  "'m dns_env \<Rightarrow> 'm dns_router \<Rightarrow> bool \<Rightarrow> nat \<times> rule_act dns_rule \<Rightarrow> dns_query_options \<Rightarrow>
   dns_match option \<times> dns_query_options" where
  "match_action E r allowFakeIP rule options =
     (case dr_action (snd rule) of
        Some (RuleActionDNSRoute action) \<Rightarrow>
          (case pick_transports (dv_Transport E) allowFakeIP [] (dr_Servers action) of
             (transports, fakeIP) \<Rightarrow>
               if transports = [] then (None, options)
               else (case pick_transports (dv_Transport E) allowFakeIP [] (dr_FallbackServers action) of
                       (fallbackTransports, fakeIP') \<Rightarrow>
                         (Some (route_match r action rule transports fallbackTransports),
                          apply_single_legacy transports
                            (apply_dns_options (fakeIP \<or> fakeIP') (dr_Options action) options))))
      | Some (RuleActionDNSRouteOptions action) \<Rightarrow> (None, apply_dns_options False action options)
      | Some (RuleActionReject _) \<Rightarrow> (Some (no_transport_match r (Some rule)), options)
      | Some (RuleActionPredefined _) \<Rightarrow> (Some (no_transport_match r (Some rule)), options)
      | _ \<Rightarrow> (None, options))"

fun match_rules ::
  "'m dns_env \<Rightarrow> 'm dns_router \<Rightarrow> bool \<Rightarrow> bool \<Rightarrow> nat \<Rightarrow> rule_act dns_rule list \<Rightarrow> inbound_context \<Rightarrow> dns_query_options \<Rightarrow>
   dns_match \<times> inbound_context \<times> dns_query_options" where
  "match_rules E r allowFakeIP isAddressQuery i [] metadata options =
     ((no_transport_match r None)\<lparr>dm_transports := (case dv_Default E of None \<Rightarrow> [] | Some t \<Rightarrow> [t])\<rparr>,
      metadata, options)"
| "match_rules E r allowFakeIP isAddressQuery i (rule # rules) metadata options =
     (if WithAddressLimit (dv_hasCIDR E) rule \<and> \<not> isAddressQuery
      then match_rules E r allowFakeIP isAddressQuery (Suc i) rules metadata options
      else (case DNSRule_Match (dv_lib E) (dv_runtime E) (dv_heap E) rule (ResetRuleCache metadata) of
              (False, metadata') \<Rightarrow> match_rules E r allowFakeIP isAddressQuery (Suc i) rules metadata' options
            | (True, metadata') \<Rightarrow>
                (case match_action E r allowFakeIP (i, rule) options of
                   (Some m, options') \<Rightarrow> (m, metadata', options')
                 | (None, options') \<Rightarrow>
                     match_rules E r allowFakeIP isAddressQuery (Suc i) rules metadata' options')))"

text \<open>\<open>ruleIndex\<close> is the rule after which the search goes on.\<close>

definition next_index :: "nat option \<Rightarrow> nat" where
  "next_index ruleIndex = (case ruleIndex of None \<Rightarrow> 0 | Some i \<Rightarrow> Suc i)"

definition matchDNS ::
  "'m dns_env \<Rightarrow> 'm dns_router \<Rightarrow> bool \<Rightarrow> nat option \<Rightarrow> bool \<Rightarrow> inbound_context \<Rightarrow> dns_query_options \<Rightarrow>
   dns_match \<times> inbound_context \<times> dns_query_options" where
  "matchDNS E r allowFakeIP ruleIndex isAddressQuery metadata options =
     match_rules E r allowFakeIP isAddressQuery (next_index ruleIndex)
       (drop (next_index ruleIndex) (dx_rules r)) metadata options"

definition applyServerQueryOptions ::
  "'m dns_router \<Rightarrow> dns_transport \<Rightarrow> dns_query_options \<Rightarrow> dns_query_options" where
  "applyServerQueryOptions r transport options =
     (if Prefix_IsValid (qo_ClientSubnet options) then options
      else if qo_ClientSubnetFromInbound options \<noteq> None then options
      else (case dx_serverClientSubnetFromInbound r (sv_Tag transport) of
              None \<Rightarrow> options
            | Some fromInbound \<Rightarrow> options\<lparr>qo_ClientSubnetFromInbound := Some fromInbound\<rparr>))"

section \<open>Races\<close>

datatype 'q select = CtxDone error | Result 'q

type_synonym exchange_result = "dns_transport \<times> dns_msg option result"

text \<open>\<^verbatim>\<open>errors.Is\<close> with a sentinel.\<close>

fun errors_Is :: "error \<Rightarrow> error \<Rightarrow> bool" where
  "errors_Is (ENew m) target \<longleftrightarrow> ENew m = target"
| "errors_Is (ECause e m) target \<longleftrightarrow> ECause e m = target \<or> errors_Is e target"
| "errors_Is (EExtend e m) target \<longleftrightarrow> EExtend e m = target \<or> errors_Is e target"
| "errors_Is (EOf e f) target \<longleftrightarrow> errors_Is e target \<or> errors_Is f target"
| "errors_Is (ERcode n) target \<longleftrightarrow> ERcode n = target"
| "errors_Is (EPanic m) target \<longleftrightarrow> False"

record race_state =
  rc_fallback :: "(dns_msg \<times> dns_transport) option"
  rc_errors :: "error list"
  rc_allRejected :: bool
  rc_allRejectedOnly :: bool

definition race_start :: race_state where
  "race_start = \<lparr>rc_fallback = None, rc_errors = [], rc_allRejected = True, rc_allRejectedOnly = True\<rparr>"

definition race_error :: "error \<Rightarrow> race_state \<Rightarrow> race_state" where
  "race_error e s =
     (let s1 = s\<lparr>rc_errors := rc_errors s @ [e]\<rparr> in
      if errors_Is e ErrResponseRejectedCached then s1
      else if errors_Is e ErrResponseRejected then s1\<lparr>rc_allRejectedOnly := False\<rparr>
      else s1\<lparr>rc_allRejected := False, rc_allRejectedOnly := False\<rparr>)"

text \<open>The end of the loop; a nil response and a nil error is \<open>Inr None\<close>.\<close>

definition race_end :: "'m dns_env \<Rightarrow> race_state \<Rightarrow> (dns_msg \<times> dns_transport) option result" where
  "race_end E s =
     (case rc_fallback s of
        Some f \<Rightarrow> Inr (Some f)
      | None \<Rightarrow>
          if rc_allRejectedOnly s then Inl ErrResponseRejectedCached
          else if rc_allRejected s then Inl ErrResponseRejected
          else (case dv_Errors E (rc_errors s) of Some e \<Rightarrow> Inl e | None \<Rightarrow> Inr None))"

fun exchange_collect ::
  "'m dns_env \<Rightarrow> nat \<Rightarrow> exchange_result select list \<Rightarrow> race_state \<Rightarrow> (dns_msg \<times> dns_transport) option result option" where
  "exchange_collect E 0 evs s = Some (race_end E s)"
| "exchange_collect E (Suc n) [] s = None"
| "exchange_collect E (Suc n) (CtxDone e # evs) s =
     Some (case rc_fallback s of Some f \<Rightarrow> Inr (Some f) | None \<Rightarrow> Inl e)"
| "exchange_collect E (Suc n) (Result (transport, result) # evs) s =
     (case result of
        Inl e \<Rightarrow> exchange_collect E n evs (race_error e s)
      | Inr None \<Rightarrow> exchange_collect E n evs s
      | Inr (Some response) \<Rightarrow>
          (if dm_Rcode response = RcodeSuccess then Some (Inr (Some (response, transport)))
           else exchange_collect E n evs
                  (if rc_fallback s = None then s\<lparr>rc_fallback := Some (response, transport)\<rparr> else s)))"

text \<open>The check of the addresses of a response, for a rule with an address limit.\<close>

definition response_check ::
  "'m dns_env \<Rightarrow> bool \<Rightarrow> rule_act dns_rule option \<Rightarrow> inbound_context \<Rightarrow> (addr list \<Rightarrow> bool) option" where
  "response_check E withAddressLimit rule metadata =
     (case rule of
        Some ru \<Rightarrow>
          if withAddressLimit
          then Some (\<lambda>addrs. fst (DNSRule_MatchAddressLimit (dv_lib E) (dv_runtime E) (dv_heap E) ru
                       ((ResetRuleCache metadata)\<lparr>mc_DestinationAddresses := addrs\<rparr>)))
          else None
      | None \<Rightarrow> None)"

definition exchange_query ::
  "'m dns_env \<Rightarrow> 'm dns_router \<Rightarrow> query_ctx \<Rightarrow> dns_msg \<Rightarrow> dns_query_options \<Rightarrow> (addr list \<Rightarrow> bool) option \<Rightarrow>
   dns_transport \<Rightarrow> exchange_result" where
  "exchange_query E r ctx message options check transport =
     (transport, dv_Exchange E ctx transport message (applyServerQueryOptions r transport options) check)"

type_synonym 'q schedule = "'q list \<Rightarrow> 'q select list"

definition exchangeRacer ::
  "'m dns_env \<Rightarrow> 'm dns_router \<Rightarrow> exchange_result schedule \<Rightarrow> query_ctx \<Rightarrow> dns_transport list \<Rightarrow> dns_msg \<Rightarrow>
   dns_query_options \<Rightarrow> (addr list \<Rightarrow> bool) option \<Rightarrow> (dns_msg \<times> dns_transport) option result option" where
  "exchangeRacer E r sched ctx transports message options check =
     exchange_collect E (length transports)
       (sched (map (exchange_query E r ctx message options check) transports)) race_start"

definition exchangeHedgedRacer ::
  "'m dns_env \<Rightarrow> 'm dns_router \<Rightarrow> exchange_result schedule \<Rightarrow> query_ctx \<Rightarrow> dns_transport list \<Rightarrow> dns_transport list \<Rightarrow>
   dns_msg \<Rightarrow> dns_query_options \<Rightarrow> dns_query_options \<Rightarrow> (addr list \<Rightarrow> bool) option \<Rightarrow> duration \<Rightarrow>
   (dns_msg \<times> dns_transport) option result option" where
  "exchangeHedgedRacer E r sched ctx primary fallback message primaryOptions fallbackOptions check upstreamTimeout =
     (if upstreamTimeout \<le> 0 \<or> length fallback = 0
      then exchangeRacer E r sched ctx primary message primaryOptions check
      else exchange_collect E (length primary + length fallback)
             (sched (map (exchange_query E r ctx message primaryOptions check) primary @
                     map (exchange_query E r ctx message fallbackOptions check) fallback)) race_start)"

text \<open>The same for lookups: the first success wins, otherwise the result that came first. An
  empty result is an error.\<close>

fun lookup_collect ::
  "'m dns_env \<Rightarrow> nat \<Rightarrow> addr list result select list \<Rightarrow> addr list result option \<Rightarrow> addr list result option" where
  "lookup_collect E 0 evs first =
     Some (case first of Some res \<Rightarrow> res
           | None \<Rightarrow> (case dv_Errors E [] of Some e \<Rightarrow> Inl e | None \<Rightarrow> Inr []))"
| "lookup_collect E (Suc n) [] first = None"
| "lookup_collect E (Suc n) (CtxDone e # evs) first = Some (case first of Some res \<Rightarrow> res | None \<Rightarrow> Inl e)"
| "lookup_collect E (Suc n) (Result (Inr addrs) # evs) first = Some (Inr addrs)"
| "lookup_collect E (Suc n) (Result (Inl e) # evs) first =
     lookup_collect E n evs (if first = None then Some (Inl e) else first)"

definition lookup_query ::
  "'m dns_env \<Rightarrow> 'm dns_router \<Rightarrow> query_ctx \<Rightarrow> string \<Rightarrow> dns_query_options \<Rightarrow> (addr list \<Rightarrow> bool) option \<Rightarrow>
   dns_transport \<Rightarrow> addr list result" where
  "lookup_query E r ctx domain options check transport =
     (case dv_Lookup E ctx transport domain (applyServerQueryOptions r transport options) check of
        Inl e \<Rightarrow> Inl e
      | Inr addrs \<Rightarrow> if length addrs = 0 then Inl (ENew ''empty result'') else Inr addrs)"

definition lookupRacer ::
  "'m dns_env \<Rightarrow> 'm dns_router \<Rightarrow> addr list result schedule \<Rightarrow> query_ctx \<Rightarrow> dns_transport list \<Rightarrow> string \<Rightarrow>
   dns_query_options \<Rightarrow> (addr list \<Rightarrow> bool) option \<Rightarrow> addr list result option" where
  "lookupRacer E r sched ctx transports domain options check =
     lookup_collect E (length transports) (sched (map (lookup_query E r ctx domain options check) transports)) None"

definition lookupHedgedRacer ::
  "'m dns_env \<Rightarrow> 'm dns_router \<Rightarrow> addr list result schedule \<Rightarrow> query_ctx \<Rightarrow> dns_transport list \<Rightarrow> dns_transport list \<Rightarrow>
   string \<Rightarrow> dns_query_options \<Rightarrow> dns_query_options \<Rightarrow> (addr list \<Rightarrow> bool) option \<Rightarrow> duration \<Rightarrow> addr list result option" where
  "lookupHedgedRacer E r sched ctx primary fallback domain primaryOptions fallbackOptions check upstreamTimeout =
     (if upstreamTimeout \<le> 0 \<or> length fallback = 0
      then lookupRacer E r sched ctx primary domain primaryOptions check
      else lookup_collect E (length primary + length fallback)
             (sched (map (lookup_query E r ctx domain primaryOptions check) primary @
                     map (lookup_query E r ctx domain fallbackOptions check) fallback)) None)"

section \<open>Exchange\<close>

definition isAddressQuery :: "dns_msg \<Rightarrow> bool" where
  "isAddressQuery message =
     list_ex (\<lambda>q. q_Qtype q = TypeA \<or> q_Qtype q = TypeAAAA \<or> q_Qtype q = TypeHTTPS) (dm_Question message)"

text \<open>The options of the two groups of queries.\<close>

definition default_strategy :: "'m dns_router \<Rightarrow> dns_query_options \<Rightarrow> dns_query_options" where
  "default_strategy r options =
     (if qo_Strategy options = DomainStrategyAsIS
      then options\<lparr>qo_Strategy := dx_defaultDomainStrategy r\<rparr> else options)"

definition disable_cache_if :: "bool \<Rightarrow> dns_query_options \<Rightarrow> dns_query_options" where
  "disable_cache_if b options = (if b then options\<lparr>qo_DisableCache := True\<rparr> else options)"

definition uses_fallback :: "dns_match \<Rightarrow> bool" where
  "uses_fallback m \<longleftrightarrow> dm_upstreamTimeout m > 0 \<and> length (dm_fallbackTransports m) > 0"

definition primary_options :: "'m dns_env \<Rightarrow> 'm dns_router \<Rightarrow> dns_match \<Rightarrow> dns_query_options \<Rightarrow> dns_query_options" where
  "primary_options E r m options =
     disable_cache_if (dv_sharedCache E \<and> length (dm_transports m) > 1)
       (default_strategy r (apply_single_legacy (dm_transports m) options))"

definition fallback_options :: "'m dns_env \<Rightarrow> 'm dns_router \<Rightarrow> dns_match \<Rightarrow> dns_query_options \<Rightarrow> dns_query_options" where
  "fallback_options E r m options =
     disable_cache_if (dv_sharedCache E \<and> uses_fallback m)
       (default_strategy r (apply_single_legacy (dm_fallbackTransports m) options))"

definition match_limit :: "'m dns_env \<Rightarrow> dns_match \<Rightarrow> bool" where
  "match_limit E m = (case dm_rule m of None \<Rightarrow> False | Some (_, rule) \<Rightarrow> WithAddressLimit (dv_hasCIDR E) rule)"

definition match_check :: "'m dns_env \<Rightarrow> dns_match \<Rightarrow> inbound_context \<Rightarrow> (addr list \<Rightarrow> bool) option" where
  "match_check E m metadata = response_check E (match_limit E m) (map_option snd (dm_rule m)) metadata"

definition run_exchange ::
  "'m dns_env \<Rightarrow> 'm dns_router \<Rightarrow> exchange_result schedule \<Rightarrow> query_ctx \<Rightarrow> dns_match \<Rightarrow> dns_msg \<Rightarrow>
   dns_query_options \<Rightarrow> (addr list \<Rightarrow> bool) option \<Rightarrow> (dns_msg \<times> dns_transport) option result option" where
  "run_exchange E r sched ctx m message options check =
     (if uses_fallback m
      then exchangeHedgedRacer E r sched ctx (dm_transports m) (dm_fallbackTransports m) message
             (primary_options E r m options) (fallback_options E r m options) check (dm_upstreamTimeout m)
      else exchangeRacer E r sched ctx (dm_transports m) message (primary_options E r m options) check)"

text \<open>Rules that answer by themselves.\<close>

definition rule_reply :: "'m dns_env \<Rightarrow> dns_match \<Rightarrow> dns_msg \<Rightarrow> dns_msg result option" where
  "rule_reply E m message =
     (case dm_rule m of
        None \<Rightarrow> None
      | Some (_, rule) \<Rightarrow>
          (case dr_action rule of
             Some (RuleActionReject action) \<Rightarrow>
               (if rj_Method action = RuleActionRejectMethodDefault
                then Some (Inr (zero_dns_msg\<lparr>dm_Id := dm_Id message, dm_Rcode := RcodeRefused,
                       dm_Response := True, dm_Question := take 1 (dm_Question message)\<rparr>))
                else if rj_Method action = RuleActionRejectMethodDrop then Some (Inl (dv_ErrDrop E))
                else None)
           | Some (RuleActionPredefined action) \<Rightarrow> Some (Predefined_Response action message)
           | _ \<Rightarrow> None))"

definition is_rejection :: "error \<Rightarrow> bool" where
  "is_rejection e \<longleftrightarrow> errors_Is e ErrResponseRejectedCached \<or> errors_Is e ErrResponseRejected"

lemma match_rules_index:
  "match_rules E r allow isAddr i rules metadata options = (m, metadata', options') \<Longrightarrow>
   dm_rule m = Some (j, rule) \<Longrightarrow> i \<le> j \<and> j < i + length rules \<and> rule = rules ! (j - i)"
proof (induction rules arbitrary: i metadata options)
  case (Cons ru rules)
  have act: "j = i \<and> rule = ru" if "match_action E r allow (i, ru) o1 = (Some m, o2)" for o1 o2
    using that Cons.prems(2)
    by (auto simp: match_action_def no_transport_match_def route_match_def Let_def
        split: option.splits rule_action.splits prod.splits if_splits)
  have rest: ?case if "match_rules E r allow isAddr (Suc i) rules md o1 = (m, metadata', options')" for md o1
    using Cons.IH [OF that Cons.prems(2)] by (auto simp: nth_Cons')
  show ?case using Cons.prems(1) act rest
    by (auto split: if_splits prod.splits bool.splits option.splits)
qed (auto simp: no_transport_match_def)

lemma matchDNS_index:
  assumes "matchDNS E r allow ruleIndex isAddr metadata options = (m, metadata', options')"
    and "dm_rule m = Some (j, rule)"
  shows "next_index ruleIndex \<le> j" "j < length (dx_rules r)" "rule = dx_rules r ! j"
  using match_rules_index [OF assms(1) [unfolded matchDNS_def] assms(2)] by auto

lemma limited_index:
  assumes "matchDNS E r allow ruleIndex isAddr metadata options = (m, metadata', options')" and "match_limit E m"
  shows "length (dx_rules r) - next_index (map_option fst (dm_rule m)) < length (dx_rules r) - next_index ruleIndex"
proof -
  from assms(2) obtain j rule where j: "dm_rule m = Some (j, rule)" by (auto simp: match_limit_def split: option.splits)
  from matchDNS_index(1,2) [OF assms(1) j] have "next_index ruleIndex \<le> j" "j < length (dx_rules r)" .
  with j show ?thesis by (simp add: next_index_def split: option.splits)
qed

datatype exchange_end =
    Reply "dns_msg result"
  | Raced "(dns_msg \<times> dns_transport) option result"

function exchange_loop ::
  "'m dns_env \<Rightarrow> 'm dns_router \<Rightarrow> (nat \<Rightarrow> exchange_result schedule) \<Rightarrow> query_ctx \<Rightarrow> dns_msg \<Rightarrow> dns_query_options \<Rightarrow>
   nat option \<Rightarrow> inbound_context \<Rightarrow> exchange_end option" where
  "exchange_loop E r sched ctx message options ruleIndex metadata =
     (case matchDNS E r True ruleIndex (isAddressQuery message) metadata options of
        (m, metadata', dnsOptions) \<Rightarrow>
          (case rule_reply E m message of
             Some reply \<Rightarrow> Some (Reply reply)
           | None \<Rightarrow>
               (case run_exchange E r (sched (next_index ruleIndex)) (ctx\<lparr>qc_metadata := Some metadata\<rparr>) m message
                       dnsOptions (match_check E m metadata) of
                  None \<Rightarrow> None
                | Some (Inr response) \<Rightarrow> Some (Raced (Inr response))
                | Some (Inl err) \<Rightarrow>
                    if match_limit E m \<and> is_rejection err
                    then exchange_loop E r sched ctx message options (map_option fst (dm_rule m)) metadata'
                    else Some (Raced (Inl err)))))"
  by pat_completeness auto

termination exchange_loop
proof (relation "measure (\<lambda>(E, r, _, _, _, _, ruleIndex, _). length (dx_rules r) - next_index ruleIndex)", goal_cases)
  case (2 E r sched ctx message options ruleIndex metadata m y metadata' dnsOptions x2 err)
  then show ?case using limited_index [of E r True ruleIndex _ metadata options m metadata' dnsOptions] by simp
qed simp

text \<open>The metadata the rules see: those of the context, with the question.\<close>

definition query_metadata :: "'m dns_env \<Rightarrow> query_ctx \<Rightarrow> inbound_context" where
  "query_metadata E ctx =
     (case qc_metadata ctx of None \<Rightarrow> new_context | Some m \<Rightarrow> m)\<lparr>mc_Destination := no_socksaddr\<rparr>"

definition question_metadata :: "'m dns_env \<Rightarrow> query_ctx \<Rightarrow> dns_question \<Rightarrow> inbound_context" where
  "question_metadata E ctx question =
     (let m = (query_metadata E ctx)\<lparr>mc_QueryType := q_Qtype question\<rparr> in
      m\<lparr>mc_IPVersion := (if q_Qtype question = TypeA then 4 else if q_Qtype question = TypeAAAA then 6
                         else mc_IPVersion m),
        mc_Domain := FqdnToDomain (dl_IsFqdn (dv_dns E)) (q_Name question)\<rparr>)"

definition map_answer :: "'m dns_env \<Rightarrow> dns_rr \<Rightarrow> 'm \<Rightarrow> 'm" where
  "map_answer E answer mapping =
     (let add = (\<lambda>ip. dv_AddMapping E (dl_AddrFromIP (dv_dns E) ip)
                   (FqdnToDomain (dl_IsFqdn (dv_dns E)) (rr_Name answer)) (uint (rr_Ttl answer) * Second) mapping)
      in case rr_Data answer of RD_A ip \<Rightarrow> add ip | RD_AAAA ip \<Rightarrow> add ip | _ \<Rightarrow> mapping)"

definition map_response ::
  "'m dns_env \<Rightarrow> dns_transport option \<Rightarrow> dns_msg option \<Rightarrow> 'm dns_router \<Rightarrow> 'm dns_router" where
  "map_response E selectedTransport response r =
     (case (dx_dnsReverseMapping r, response) of
        (Some mapping, Some message) \<Rightarrow>
          (if (case selectedTransport of None \<Rightarrow> True | Some t \<Rightarrow> sv_Type t \<noteq> DNSTypeFakeIP)
           then r\<lparr>dx_dnsReverseMapping := Some (fold (map_answer E) (dm_Answer message) mapping)\<rparr>
           else r)
      | _ \<Rightarrow> r)"

definition direct_options ::
  "'m dns_router \<Rightarrow> dns_transport \<Rightarrow> dns_query_options \<Rightarrow> dns_query_options" where
  "direct_options r transport options =
     applyServerQueryOptions r transport (default_strategy r (apply_legacy transport options))"

definition Router_Exchange ::
  "'m dns_env \<Rightarrow> (nat \<Rightarrow> exchange_result schedule) \<Rightarrow> query_ctx \<Rightarrow> dns_msg \<Rightarrow> dns_query_options \<Rightarrow>
   'm dns_router \<Rightarrow> dns_msg option result option \<times> 'm dns_router" where
  "Router_Exchange E sched ctx message options r =
     (case dm_Question message of
        [question] \<Rightarrow>
          (let metadata = question_metadata E ctx question;
               ctx' = ctx\<lparr>qc_metadata := Some metadata\<rparr>
           in case qo_Transport options of
                Some transport \<Rightarrow>
                  (case dv_Exchange E ctx' transport message (direct_options r transport options) None of
                     Inl e \<Rightarrow> (Some (Inl e), r)
                   | Inr response \<Rightarrow> (Some (Inr response), map_response E (Some transport) response r))
              | None \<Rightarrow>
                  (case exchange_loop E r sched ctx message options None metadata of
                     None \<Rightarrow> (None, r)
                   | Some (Reply (Inl e)) \<Rightarrow> (Some (Inl e), r)
                   | Some (Reply (Inr response)) \<Rightarrow> (Some (Inr (Some response)), r)
                   | Some (Raced (Inl e)) \<Rightarrow> (Some (Inl e), r)
                   | Some (Raced (Inr x)) \<Rightarrow>
                       (Some (Inr (map_option fst x)), map_response E (map_option snd x) (map_option fst x) r)))
      | questions \<Rightarrow>
          (Some (Inr (Some (zero_dns_msg\<lparr>dm_Id := dm_Id message, dm_Response := True,
             dm_Rcode := RcodeFormatError, dm_Question := questions\<rparr>))), r))"

definition LookupReverseMapping :: "'m dns_env \<Rightarrow> 'm dns_router \<Rightarrow> addr \<Rightarrow> string option" where
  "LookupReverseMapping E r ip =
     (case dx_dnsReverseMapping r of None \<Rightarrow> None | Some mapping \<Rightarrow> dv_GetMapping E ip mapping)"

section \<open>Lookup\<close>

text \<open>What \<^verbatim>\<open>Lookup\<close> returns: a rejection by a rule, or addresses and an error, which are two
  separate results of the function.\<close>

datatype lookup_end =
    LookupRejected "reject_cause result"
  | Looked "addr list" "error option"

definition printResult :: "string \<Rightarrow> addr list \<Rightarrow> error option \<Rightarrow> error option" where
  "printResult domain responseAddrs err =
     map_option (\<lambda>e. ECause e (''lookup '' @ domain))
       (if err = None \<and> length responseAddrs = 0 then Some (ENew ''empty result'') else err)"

definition predefined_addresses :: "dns_lib \<Rightarrow> predefined_action \<Rightarrow> addr list" where
  "predefined_addresses D action =
     concat (map (\<lambda>answer. case rr_Data answer of
        RD_A ip \<Rightarrow> [dl_AddrFromIP D ip] | RD_AAAA ip \<Rightarrow> [dl_AddrFromIP D ip] | _ \<Rightarrow> []) (pd_Answer action))"

definition run_lookup ::
  "'m dns_env \<Rightarrow> 'm dns_router \<Rightarrow> addr list result schedule \<Rightarrow> query_ctx \<Rightarrow> dns_match \<Rightarrow> string \<Rightarrow>
   dns_query_options \<Rightarrow> (addr list \<Rightarrow> bool) option \<Rightarrow> addr list result option" where
  "run_lookup E r sched ctx m domain options check =
     (if uses_fallback m
      then lookupHedgedRacer E r sched ctx (dm_transports m) (dm_fallbackTransports m) domain
             (primary_options E r m options) (fallback_options E r m options) check (dm_upstreamTimeout m)
      else lookupRacer E r sched ctx (dm_transports m) domain (primary_options E r m options) check)"

text \<open>A reject action counts its uses, so the rule is updated.\<close>

definition set_dns_action :: "'a \<Rightarrow> 'a dns_rule \<Rightarrow> 'a dns_rule" where
  "set_dns_action a rule =
     (case rule of DefaultDNSRule d _ \<Rightarrow> DefaultDNSRule d a | LogicalDNSRule rs mode iv _ \<Rightarrow> LogicalDNSRule rs mode iv a)"

definition reject_lookup ::
  "int \<Rightarrow> nat \<times> rule_act dns_rule \<Rightarrow> reject_action \<Rightarrow> 'm dns_router \<Rightarrow> lookup_end \<times> 'm dns_router" where
  "reject_lookup now rule action r =
     (case Reject_Error now action of
        (res, action') \<Rightarrow>
          (LookupRejected res,
           r\<lparr>dx_rules := (dx_rules r)[fst rule := set_dns_action (Some (RuleActionReject action')) (snd rule)]\<rparr>))"

text \<open>Rules that answer by themselves; the addresses and the error of the last rule that was
  tried are still there.\<close>

definition lookup_reply ::
  "'m dns_env \<Rightarrow> 'm dns_router \<Rightarrow> int \<Rightarrow> string \<Rightarrow> dns_match \<Rightarrow> addr list \<Rightarrow> error option \<Rightarrow>
   (lookup_end \<times> 'm dns_router) option" where
  "lookup_reply E r now domain m responseAddrs err =
     (case dm_rule m of
        None \<Rightarrow> None
      | Some rule \<Rightarrow>
          (case dr_action (snd rule) of
             Some (RuleActionReject action) \<Rightarrow> Some (reject_lookup now rule action r)
           | Some (RuleActionPredefined action) \<Rightarrow>
               (let addrs = (if pd_Rcode action \<noteq> RcodeSuccess then responseAddrs
                             else responseAddrs @ predefined_addresses (dv_dns E) action);
                    err' = (if pd_Rcode action \<noteq> RcodeSuccess then Some (ERcode (pd_Rcode action)) else err)
                in Some (Looked addrs (printResult domain addrs err'), r))
           | _ \<Rightarrow> None))"

function lookup_loop ::
  "'m dns_env \<Rightarrow> 'm dns_router \<Rightarrow> int \<Rightarrow> (nat \<Rightarrow> addr list result schedule) \<Rightarrow> query_ctx \<Rightarrow> string \<Rightarrow> dns_query_options \<Rightarrow>
   nat option \<Rightarrow> inbound_context \<Rightarrow> addr list \<Rightarrow> error option \<Rightarrow> (lookup_end \<times> 'm dns_router) option" where
  "lookup_loop E r now sched ctx domain options ruleIndex metadata responseAddrs err =
     (case matchDNS E r False ruleIndex True metadata options of
        (m, metadata', dnsOptions) \<Rightarrow>
          (case lookup_reply E r now domain m responseAddrs err of
             Some reply \<Rightarrow> Some reply
           | None \<Rightarrow>
               (case run_lookup E r (sched (next_index ruleIndex)) (ctx\<lparr>qc_metadata := Some metadata\<rparr>) m domain
                       dnsOptions (match_check E m metadata) of
                  None \<Rightarrow> None
                | Some (Inr addrs) \<Rightarrow> Some (Looked addrs (printResult domain addrs None), r)
                | Some (Inl e) \<Rightarrow>
                    if match_limit E m
                    then lookup_loop E r now sched ctx domain options (map_option fst (dm_rule m)) metadata' []
                           (printResult domain [] (Some e))
                    else Some (Looked [] (printResult domain [] (Some e)), r))))"
  by pat_completeness auto

termination lookup_loop
proof (relation "measure (\<lambda>(E, r, _, _, _, _, _, ruleIndex, _). length (dx_rules r) - next_index ruleIndex)", goal_cases)
  case (2 E r now sched ctx domain options ruleIndex metadata responseAddrs err m y metadata' dnsOptions x2 e)
  then show ?case using limited_index [of E r False ruleIndex True metadata options m metadata' dnsOptions] by simp
qed simp

definition Router_Lookup ::
  "'m dns_env \<Rightarrow> int \<Rightarrow> (nat \<Rightarrow> addr list result schedule) \<Rightarrow> query_ctx \<Rightarrow> string \<Rightarrow> dns_query_options \<Rightarrow>
   'm dns_router \<Rightarrow> (lookup_end \<times> 'm dns_router) option" where
  "Router_Lookup E now sched ctx domain options r =
     (let metadata = (query_metadata E ctx)\<lparr>mc_Domain := FqdnToDomain (dl_IsFqdn (dv_dns E)) domain\<rparr> in
      case qo_Transport options of
        Some transport \<Rightarrow>
          (case dv_Lookup E (ctx\<lparr>qc_metadata := Some metadata\<rparr>) transport domain (direct_options r transport options) None of
             Inl e \<Rightarrow> Some (Looked [] (printResult domain [] (Some e)), r)
           | Inr addrs \<Rightarrow> Some (Looked addrs (printResult domain addrs None), r))
      | None \<Rightarrow> lookup_loop E r now sched ctx domain options None metadata [] None)"

section \<open>Construction\<close>

text \<open>\<^verbatim>\<open>NewRouter\<close>: the subnet options of the servers, by tag; a server without a tag is
  named by its position, and the last of two equal tags counts.\<close>

fun server_subnets ::
  "nat \<Rightarrow> (string \<times> client_subnet_from_inbound option) list \<Rightarrow> (string \<Rightarrow> client_subnet_from_inbound option) \<Rightarrow>
   string \<Rightarrow> client_subnet_from_inbound option" where
  "server_subnets i [] f = f"
| "server_subnets i ((tag, subnet) # servers) f =
     server_subnets (Suc i) servers
       (case subnet of None \<Rightarrow> f | Some s \<Rightarrow> f((if tag = [] then itoa i else tag) := Some s))"

definition NewDNSRouter ::
  "domain_strategy \<Rightarrow> u32 \<Rightarrow> u32 \<Rightarrow> u32 \<Rightarrow> (string \<times> client_subnet_from_inbound option) list \<Rightarrow> 'm option \<Rightarrow> 'm dns_router" where
  "NewDNSRouter strategy upstreamMS fallbackMS graceMS servers mapping =
     \<lparr>dx_rules = [], dx_defaultDomainStrategy = strategy,
      dx_upstreamTimeout = uint upstreamMS * Millisecond, dx_fallbackTimeout = uint fallbackMS * Millisecond,
      dx_fallbackGrace = uint graceMS * Millisecond, dx_dnsReverseMapping = mapping,
      dx_serverClientSubnetFromInbound = server_subnets 0 servers (\<lambda>_. None)\<rparr>"

definition DNSRouter_Initialize :: "lib \<Rightarrow> dns_rule_options list \<Rightarrow> 'm dns_router \<Rightarrow> 'm dns_router result" where
  "DNSRouter_Initialize L rules r =
     bind_r (traverse (\<lambda>i o1. map_err (\<lambda>e. ECause e (''parse dns rule['' @ itoa i @ '']'')) (NewDNSRule L True o1)) rules)
       (\<lambda>rs. Inr (r\<lparr>dx_rules := dx_rules r @ rs\<rparr>))"

end
