(* ===== verification/DNS_Message_Props.thy ===== *)
theory DNS_Message_Props
  imports DNS_Message
begin

text \<open>
  Lemmas on DNS messages: addresses as bytes and back, the client subnet written into a
  message and read from it, and the time to live of a response.
\<close>

section \<open>Bytes of an address\<close>

lemma push_drop_byte:
  fixes w :: "'a::len word"
  shows "push_bit 8 (drop_bit (Suc k * 8) w) OR ucast (ucast (drop_bit (k * 8) w) :: 8 word) = drop_bit (k * 8) w"
  by (rule bit_word_eqI) (auto simp: bit_simps algebra_simps not_le)

lemma bytes_word_prefix:
  fixes w :: "'a::len word"
  assumes "LENGTH('a) \<le> 8 * n" and "k \<le> n"
  shows "foldl (\<lambda>w b. push_bit 8 w OR ucast b) 0 (map (\<lambda>i. ucast (drop_bit (8 * (n - 1 - i)) w) :: 8 word) [0..<k]) =
    drop_bit (8 * (n - k)) w"
  using assms(2)
proof (induction k)
  case 0
  have "drop_bit (8 * n) w = 0"
    by (rule bit_word_eqI) (use assms(1) in \<open>auto simp: bit_simps dest: bit_imp_le_length\<close>)
  then show ?case by simp
next
  case (Suc k)
  then have "n - k = Suc (n - 1 - k)" by simp
  with Suc push_drop_byte [of "n - 1 - k" w] show ?case by (simp add: mult.commute)
qed

lemma bytes_word_bytes:
  fixes w :: "'a::len word"
  assumes "LENGTH('a) \<le> 8 * n"
  shows "bytes_word (word_bytes n w) = w"
  unfolding bytes_word_def word_bytes_def using bytes_word_prefix [OF assms, of n] by simp


lemma length_word_bytes [simp]: "length (word_bytes n w) = n"
  by (simp add: word_bytes_def)

lemma copy_bytes_exact [simp]: "length bs = n \<Longrightarrow> copy_bytes n bs = bs"
  by (simp add: copy_bytes_def)

lemma AddrFrom4_AsSlice [simp]: "AddrFrom4 (word_bytes 4 x) = IPv4 x"
  by (simp add: AddrFrom4_def bytes_word_bytes)

lemma AddrFrom16_AsSlice [simp]: "AddrFrom16 (word_bytes 16 x) = IPv6 x []"
  by (simp add: AddrFrom16_def bytes_word_bytes)

section \<open>The client subnet of a message\<close>

definition is_opt :: "dns_rr \<Rightarrow> bool" where
  "is_opt rr = (case rr_Data rr of RD_OPT _ \<Rightarrow> True | _ \<Rightarrow> False)"

text \<open>What \<^verbatim>\<open>IsEdns0\<close> is relied on for: it returns an OPT record of the additional section
  exactly when there is one.\<close>

definition edns0_law :: "dns_lib \<Rightarrow> bool" where
  "edns0_law D \<longleftrightarrow> (\<forall>m. case dl_IsEdns0 D m of
       None \<Rightarrow> \<forall>rr \<in> set (dm_Extra m). \<not> is_opt rr
     | Some r \<Rightarrow> r \<in> set (dm_Extra m) \<and> is_opt r)"

lemma edns0_only:
  assumes "edns0_law D" and "r \<in> set (dm_Extra m)" "is_opt r"
    and "\<forall>x \<in> set (dm_Extra m). is_opt x \<longrightarrow> x = r"
  shows "dl_IsEdns0 D m = Some r"
proof (cases "dl_IsEdns0 D m")
  case None
  with assms(1) [unfolded edns0_law_def, rule_format, of m] assms(2,3) show ?thesis by simp
next
  case (Some y)
  with assms(1) [unfolded edns0_law_def, rule_format, of m] have "y \<in> set (dm_Extra m)" "is_opt y" by simp_all
  with Some assms(4) show ?thesis by blast
qed

lemma unat_of_nat_u8 [simp]: "n \<le> 128 \<Longrightarrow> unat (of_nat n :: u8) = n"
  by (simp add: unat_of_nat)

lemma extract_filled:
  "Prefix_IsValid p \<Longrightarrow> extract_option (fill_subnet p (EDNS0_SUBNET c f n s a) # os) = Some (Prefix_Masked p)"
  by (cases p rule: Prefix_IsValid.cases) (auto simp: Addr_Is4_def)

lemma extract_fill_options:
  "Prefix_IsValid p \<Longrightarrow> extract_option (fill_options p (subnet_index os) os) = Some (Prefix_Masked p)"
proof (induction os rule: subnet_index.induct)
  case (3 c d os)
  then show ?case by (cases "subnet_index os") (simp_all add: fill_options_def)
qed (simp_all add: fill_options_def new_subnet_option_def extract_filled del: fill_subnet.simps extract_option.simps(3))

lemma find_exists_no_opt:
  "\<forall>rr \<in> set rrs. \<not> is_opt rr \<Longrightarrow> find_exists i o0 rrs = ((if rrs = [] then o0 else None), None)"
  by (induction rrs arbitrary: i o0) (auto simp: is_opt_def split: dns_rdata.splits)

lemma find_exists_last:
  assumes "\<forall>rr \<in> set rrs. \<not> is_opt rr" and "rr_Data r = RD_OPT os"
  shows "find_exists i o0 (rrs @ [r]) = (Some (i + length rrs), subnet_index os)"
  using assms by (induction rrs arbitrary: i o0) (auto simp: is_opt_def split: dns_rdata.splits option.splits)

text \<open>A message whose OPT record, if any, is the last record of the additional section.\<close>

definition opt_last :: "dns_msg \<Rightarrow> bool" where
  "opt_last m \<longleftrightarrow> (\<forall>rr \<in> set (butlast (dm_Extra m)). \<not> is_opt rr)"

lemma SetClientSubnet_extra:
  assumes "opt_last m"
  shows "\<exists>pre r os. dm_Extra (SetClientSubnet m p) = pre @ [r] \<and> (\<forall>x \<in> set pre. \<not> is_opt x) \<and>
    rr_Data r = RD_OPT (fill_options p (subnet_index os) os)"
proof (cases "dm_Extra m = [] \<or> \<not> is_opt (last (dm_Extra m))")
  case True
  then have no: "\<forall>rr \<in> set (dm_Extra m). \<not> is_opt rr"
    using assms by (cases "dm_Extra m" rule: rev_cases) (auto simp: opt_last_def)
  then have "dm_Extra (SetClientSubnet m p) = dm_Extra m @ [fill_record p None new_opt_record]"
    by (simp add: SetClientSubnet_def find_exists_no_opt)
  moreover have "rr_Data (fill_record p None new_opt_record) = RD_OPT (fill_options p (subnet_index []) [])"
    by (simp add: fill_record_def new_opt_record_def)
  ultimately show ?thesis using no by blast
next
  case False
  then obtain pre r where e: "dm_Extra m = pre @ [r]" by (cases "dm_Extra m" rule: rev_cases) auto
  with False obtain os where r: "rr_Data r = RD_OPT os" by (auto simp: is_opt_def split: dns_rdata.splits)
  have no: "\<forall>x \<in> set pre. \<not> is_opt x" using assms e by (simp add: opt_last_def)
  have "dm_Extra (SetClientSubnet m p) = pre @ [fill_record p (subnet_index os) r]"
    using find_exists_last [OF no r, of 0 None] e by (simp add: SetClientSubnet_def)
  moreover have "rr_Data (fill_record p (subnet_index os) r) = RD_OPT (fill_options p (subnet_index os) os)"
    using r by (simp add: fill_record_def)
  ultimately show ?thesis using no by blast
qed

lemma extract_set_subnet:
  assumes "edns0_law D" and "opt_last m" and "Prefix_IsValid p"
  shows "ExtractClientSubnet D (SetClientSubnet m p) = Some (Prefix_Masked p)"
proof -
  from SetClientSubnet_extra [OF assms(2), of p] obtain pre r os where
    e: "dm_Extra (SetClientSubnet m p) = pre @ [r]" and no: "\<forall>x \<in> set pre. \<not> is_opt x"
    and r: "rr_Data r = RD_OPT (fill_options p (subnet_index os) os)" by blast
  have "dl_IsEdns0 D (SetClientSubnet m p) = Some r"
    using e no r by (intro edns0_only [OF assms(1)]) (auto simp: is_opt_def)
  then show ?thesis using r extract_fill_options [OF assms(3)] by (simp add: ExtractClientSubnet_def)
qed

lemma find_in_set: "find P xs = Some x \<Longrightarrow> x \<in> set xs \<and> P x"
  by (induction xs) (auto split: if_splits)

text \<open>The functions of \<^verbatim>\<open>miekg/dns\<close> and of \<^verbatim>\<open>sing\<close> as values, for the examples: addresses
  are read from four or sixteen bytes, and a name ends in a dot.\<close>

definition sample_dns_lib :: dns_lib where
  "sample_dns_lib = \<lparr>dl_IsFqdn = (\<lambda>n. n \<noteq> [] \<and> last n = CHR ''.''),
     dl_Fqdn = (\<lambda>n. if n \<noteq> [] \<and> last n = CHR ''.'' then n else n @ ''.''),
     dl_AddrFromIP = (\<lambda>bs. if length bs = 4 then AddrFrom4 bs else AddrFrom16 bs),
     dl_ParseAddr = (\<lambda>_. NoAddr),
     dl_IsEdns0 = (\<lambda>m. find is_opt (rev (dm_Extra m))),
     dl_UDPSize = rr_Class, dl_Version = (\<lambda>rr. ucast (drop_bit 16 (rr_Ttl rr))),
     dl_Do = (\<lambda>rr. bit (rr_Ttl rr) 15),
     dl_SetEdns0 = (\<lambda>u d m. m\<lparr>dm_Extra := dm_Extra m @ [new_opt_record\<lparr>rr_Class := u, rr_Ttl := (if d then 32768 else 0)\<rparr>]\<rparr>)\<rparr>"

lemma sample_edns0_law: "edns0_law sample_dns_lib"
  unfolding edns0_law_def
proof
  fix m
  show "case dl_IsEdns0 sample_dns_lib m of None \<Rightarrow> \<forall>rr\<in>set (dm_Extra m). \<not> is_opt rr
      | Some r \<Rightarrow> r \<in> set (dm_Extra m) \<and> is_opt r"
    by (auto simp: sample_dns_lib_def find_None_iff split: option.splits dest: find_in_set)
qed

text \<open>Remark (client_subnet_round_trip): a subnet written into a query is the one the
  cache key is made of: it is read back with its host bits cleared and without a zone,
  whether the message had no OPT record, one without a subnet or one with another subnet.\<close>

theorem client_subnet_round_trip:
  assumes "edns0_law D" and "opt_last m" and "Prefix_IsValid p"
  shows "ExtractClientSubnet D (SetClientSubnet m p) = Some (Prefix_Masked p)"
  by (rule extract_set_subnet [OF assms])

theorem client_subnet_round_trip_witness:
  "ExtractClientSubnet sample_dns_lib (SetClientSubnet zero_dns_msg (Prefix (IPv4 0xC0A80117) 24)) =
     Some (Prefix (IPv4 0xC0A80100) 24)"
proof -
  have "opt_last zero_dns_msg" by (simp add: opt_last_def zero_dns_msg_def)
  moreover have "Prefix_IsValid (Prefix (IPv4 0xC0A80117) 24)" by simp
  moreover have "Prefix_Masked (Prefix (IPv4 0xC0A80117) 24) = Prefix (IPv4 0xC0A80100) 24" by simp
  ultimately show ?thesis using client_subnet_round_trip [OF sample_edns0_law] by metis
qed

section \<open>The time to live of a response\<close>

lemma fold_lower_ttl:
  "(fold lower_ttl rrs t = 0 \<longleftrightarrow> t = 0 \<and> (\<forall>rr \<in> set rrs. rr_Ttl rr = 0)) \<and>
   fold lower_ttl rrs t \<in> insert t (rr_Ttl ` set rrs) \<and>
   (\<forall>x \<in> insert t (rr_Ttl ` set rrs). 0 < x \<longrightarrow> fold lower_ttl rrs t \<le> x)"
proof (induction rrs arbitrary: t)
  case (Cons rr rrs)
  have step: "lower_ttl rr t \<in> {t, rr_Ttl rr}" "lower_ttl rr t = 0 \<longleftrightarrow> t = 0 \<and> rr_Ttl rr = 0"
    "0 < t \<longrightarrow> lower_ttl rr t \<le> t" "0 < rr_Ttl rr \<longrightarrow> lower_ttl rr t \<le> rr_Ttl rr"
    by (auto simp: lower_ttl_def word_gt_0)
  let ?r = "fold lower_ttl rrs (lower_ttl rr t)"
  note IH = Cons [of "lower_ttl rr t"]
  have "?r = 0 \<longleftrightarrow> t = 0 \<and> (\<forall>x \<in> set (rr # rrs). rr_Ttl x = 0)" using IH step(2) by auto
  moreover have "?r \<in> insert t (rr_Ttl ` set (rr # rrs))" using IH step(1) by auto
  moreover have "?r \<le> x" if "x \<in> insert t (rr_Ttl ` set (rr # rrs))" "0 < x" for x
  proof -
    have "0 < lower_ttl rr t" if "0 < t \<or> 0 < rr_Ttl rr" using step(2) that by (auto simp: word_gt_0)
    then have le: "?r \<le> lower_ttl rr t" if "0 < t \<or> 0 < rr_Ttl rr" using IH that by blast
    from that consider "x = t" | "x = rr_Ttl rr" | "x \<in> rr_Ttl ` set rrs" by auto
    then show ?thesis
      by cases (use le step(3,4) that(2) IH in \<open>auto intro: order_trans\<close>)
  qed
  ultimately show ?case by simp
qed simp

end
