(* ===== verification/DNS_Client_Props.thy ===== *)
theory DNS_Client_Props
  imports DNS_Client DNS_Message_Props
begin

text \<open>
  Properties of the DNS client: what its cache may hold, what a cached answer looks like
  when it is read again, which answers pass the response check, and which queries stay out
  of the shared cache.
\<close>

section \<open>What the cache is relied on for\<close>

text \<open>
  \<open>peek\<close> shows the entries of a cache: a message with the time it expires, if it does. An
  operation may evict entries but not invent or change any; what was just added is there,
  and an entry that has not expired is found. The cache counts in milliseconds: an entry added at a
  time with a lifetime expires after the whole milliseconds of both.
\<close>

definition Millisecond :: duration where
  "Millisecond = 1000000"

definition lifetime_end :: "int \<Rightarrow> duration \<Rightarrow> int" where
  "lifetime_end t d = (t div Millisecond + d div Millisecond) * Millisecond"

definition lru_laws :: "'s lru_ops \<Rightarrow> ('s \<Rightarrow> cache_key \<rightharpoonup> dns_msg \<times> int option) \<Rightarrow> bool" where
  "lru_laws O1 peek \<longleftrightarrow>
     (\<forall>k m s. peek (lru_Add O1 k m s) k = Some (m, None) \<and>
        peek (lru_Add O1 k m s) \<subseteq>\<^sub>m (peek s)(k \<mapsto> (m, None))) \<and>
     (\<forall>t k m d s. peek (lru_AddWithLifetime O1 t k m d s) k = Some (m, Some (lifetime_end t d)) \<and>
        peek (lru_AddWithLifetime O1 t k m d s) \<subseteq>\<^sub>m (peek s)(k \<mapsto> (m, Some (lifetime_end t d)))) \<and>
     (\<forall>t k s. peek (snd (lru_Get O1 t k s)) \<subseteq>\<^sub>m peek s \<and>
        (\<forall>m. fst (lru_Get O1 t k s) = Some m \<longrightarrow> (\<exists>e. peek s k = Some (m, e))) \<and>
        (\<forall>m. peek s k = Some (m, None) \<longrightarrow> fst (lru_Get O1 t k s) = Some m)) \<and>
     (\<forall>t k s. peek (snd (lru_GetWithLifetime O1 t k s)) \<subseteq>\<^sub>m peek s \<and>
        (\<forall>m e. fst (lru_GetWithLifetime O1 t k s) = Some (m, e) \<longrightarrow> (\<exists>x. peek s k = Some (m, x))) \<and>
        (\<forall>m e. peek s k = Some (m, Some e) \<longrightarrow> t < e \<longrightarrow> fst (lru_GetWithLifetime O1 t k s) = Some (m, e))) \<and>
     (\<forall>k s. peek (lru_Remove O1 k s) \<subseteq>\<^sub>m peek s) \<and>
     (\<forall>s. peek (lru_Purge O1 s) \<subseteq>\<^sub>m peek s) \<and>
     (\<forall>n. peek (lru_New O1 n) = Map.empty)"

lemma lifetime_end_seconds: "lifetime_end t (Second * n) = (t div Millisecond) * Millisecond + Second * n"
proof -
  have "Second * n div Millisecond = 1000 * n" using nonzero_mult_div_cancel_left [of Millisecond "1000 * n"]
    by (simp add: Second_def Millisecond_def)
  then show ?thesis by (simp add: lifetime_end_def algebra_simps Second_def Millisecond_def)
qed

lemma lru_added:
  "lru_laws O1 peek \<Longrightarrow> peek (lru_AddWithLifetime O1 t k m d s) k = Some (m, Some (lifetime_end t d))"
  by (simp add: lru_laws_def)

lemma lru_found:
  "lru_laws O1 peek \<Longrightarrow> peek s k = Some (m, Some e) \<Longrightarrow> t < e \<Longrightarrow> fst (lru_GetWithLifetime O1 t k s) = Some (m, e)"
  by (simp add: lru_laws_def)

text \<open>Entries after an operation: an old one, or the one that was added.\<close>

lemma map_leD: "m \<subseteq>\<^sub>m m' \<Longrightarrow> m k = Some v \<Longrightarrow> m' k = Some v"
  by (force simp: map_le_def dom_def)

lemma lru_entries:
  assumes "lru_laws O1 peek"
  shows "peek (lru_Add O1 k m s) k' = Some v \<Longrightarrow> v = (m, None) \<or> peek s k' = Some v"
    and "peek (lru_AddWithLifetime O1 t k m d s) k' = Some v \<Longrightarrow> v = (m, Some (lifetime_end t d)) \<or> peek s k' = Some v"
    and "peek (snd (lru_Get O1 t k s)) k' = Some v \<Longrightarrow> peek s k' = Some v"
    and "peek (snd (lru_GetWithLifetime O1 t k s)) k' = Some v \<Longrightarrow> peek s k' = Some v"
    and "peek (lru_Remove O1 k s) k' = Some v \<Longrightarrow> peek s k' = Some v"
    and "peek (lru_Purge O1 s) k' = Some v \<Longrightarrow> peek s k' = Some v"
    and "peek (lru_New O1 n) k' = None"
proof -
  note L = assms [unfolded lru_laws_def]
  show "peek (lru_Add O1 k m s) k' = Some v \<Longrightarrow> v = (m, None) \<or> peek s k' = Some v"
    using L map_leD [of "peek (lru_Add O1 k m s)" _ k' v] by (fastforce split: if_splits)
  show "peek (lru_AddWithLifetime O1 t k m d s) k' = Some v \<Longrightarrow> v = (m, Some (lifetime_end t d)) \<or> peek s k' = Some v"
    using L map_leD [of "peek (lru_AddWithLifetime O1 t k m d s)" _ k' v] by (fastforce split: if_splits)
  have le: "peek (snd (lru_Get O1 t k s)) \<subseteq>\<^sub>m peek s" "peek (snd (lru_GetWithLifetime O1 t k s)) \<subseteq>\<^sub>m peek s"
    "peek (lru_Remove O1 k s) \<subseteq>\<^sub>m peek s" "peek (lru_Purge O1 s) \<subseteq>\<^sub>m peek s" using L by simp_all
  show "peek (snd (lru_Get O1 t k s)) k' = Some v \<Longrightarrow> peek s k' = Some v" by (rule map_leD [OF le(1)])
  show "peek (snd (lru_GetWithLifetime O1 t k s)) k' = Some v \<Longrightarrow> peek s k' = Some v" by (rule map_leD [OF le(2)])
  show "peek (lru_Remove O1 k s) k' = Some v \<Longrightarrow> peek s k' = Some v" by (rule map_leD [OF le(3)])
  show "peek (lru_Purge O1 s) k' = Some v \<Longrightarrow> peek s k' = Some v" by (rule map_leD [OF le(4)])
  show "peek (lru_New O1 n) k' = None" using L by simp
qed

section \<open>Projections\<close>

lemma put_cache_sel [simp]:
  "dc_disableCache (put_cache s c) = dc_disableCache c"
  "dc_disableExpire (put_cache s c) = dc_disableExpire c"
  "dc_independentCache (put_cache s c) = dc_independentCache c"
  "dc_clientSubnet (put_cache s c) = dc_clientSubnet c"
  "dc_clientSubnetFromInbound (put_cache s c) = dc_clientSubnetFromInbound c"
  "dc_rdrc (put_cache s c) = dc_rdrc c"
  "the_cache (put_cache s c) = Some s"
  "the_key (put_cache s c) = the_key c"
  by (auto simp: put_cache_def the_cache_def the_key_def fun_eq_iff)

lemma map_records_sel [simp]:
  "dm_Rcode (map_records f m) = dm_Rcode m"
  "dm_Id (map_records f m) = dm_Id m"
  "dm_Extra (map_records f m) = map f (dm_Extra m)"
  "message_records (map_records f m) = map f (message_records m)"
  by (simp_all add: map_records_def message_records_def)

lemma message_records_id [simp]: "message_records (m\<lparr>dm_Id := i\<rparr>) = message_records m"
  by (simp add: message_records_def)

lemma map_records_id [simp]: "map_records f (m\<lparr>dm_Id := i\<rparr>) = (map_records f m)\<lparr>dm_Id := i\<rparr>"
  by (simp add: map_records_def)

lemma map_records_cong:
  "(\<And>rr. rr \<in> set (message_records m) \<Longrightarrow> f rr = g rr) \<Longrightarrow> map_records f m = map_records g m"
  by (auto simp: map_records_def message_records_def)

lemma map_records_map_records [simp]: "map_records f (map_records g m) = map_records (\<lambda>rr. f (g rr)) m"
  by (simp add: map_records_def comp_def)

section \<open>A cached response ages\<close>

lemma records_ttl_const:
  assumes "\<forall>rr \<in> set rrs. rr_Ttl rr = t"
  shows "records_ttl rrs = (if rrs = [] then 0 else t)"
  using assms fold_lower_ttl [of rrs 0] unfolding records_ttl_def
  by (cases rrs) (auto simp: word_gt_0)

text \<open>A response whose records carry one time to live, as they are stored, gets the time
  that is left.\<close>

lemma age_set_ttls:
  assumes "t \<noteq> 0"
  shows "age_response n (set_ttls t m) = set_ttls (word_of_int n) m"
proof (cases "message_records m = []")
  case True
  then have "map_records f m = m" for f by (simp add: map_records_def message_records_def)
  with True show ?thesis by (simp add: age_response_def set_ttls_def records_ttl_def)
next
  case False
  have "records_ttl (message_records (set_ttls t m)) = t"
    using False by (subst records_ttl_const [where t = t]) (auto simp: set_ttls_def)
  moreover have "0 < uint t" using assms by (metis less_le uint_0_iff uint_ge_0)
  ultimately show ?thesis
    by (simp add: age_response_def) (simp add: set_ttls_def)
qed

text \<open>What the EDNS0 functions are relied on for: \<^verbatim>\<open>SetEdns0\<close> changes the additional section only.\<close>

definition edns_laws :: "dns_lib \<Rightarrow> bool" where
  "edns_laws D \<longleftrightarrow> edns0_law D \<and> (\<forall>u d m. dl_SetEdns0 D u d m = m\<lparr>dm_Extra := dm_Extra (dl_SetEdns0 D u d m)\<rparr>)"

lemma no_edns: "edns_laws D \<Longrightarrow> \<forall>rr \<in> set (dm_Extra m). \<not> is_opt rr \<Longrightarrow> dl_IsEdns0 D m = None"
  unfolding edns_laws_def edns0_law_def by (cases "dl_IsEdns0 D m") (auto dest!: spec [of _ m])

lemma is_opt_ttl [simp]: "is_opt (rr\<lparr>rr_Ttl := t\<rparr>) = is_opt rr"
  by (simp add: is_opt_def)

lemma finish_response_plain:
  assumes "edns_laws D" and "\<forall>rr \<in> set (dm_Extra response). \<not> is_opt rr"
  shows "finish_response D message ttl response = (set_ttls ttl response)\<lparr>dm_Id := dm_Id message\<rparr>"
proof -
  have "dl_IsEdns0 D ((set_ttls ttl response)\<lparr>dm_Id := dm_Id message\<rparr>) = None"
    using assms(2) by (intro no_edns [OF assms(1)]) (auto simp: set_ttls_def)
  then show ?thesis by (simp add: finish_response_def finish_edns_def)
qed

text \<open>A query the cache is used for: one question, nothing else, and no subnet.\<close>

definition plain_query ::
  "('s, 'r) dns_client \<Rightarrow> query_ctx \<Rightarrow> dns_msg \<Rightarrow> dns_query_options \<Rightarrow> dns_question \<Rightarrow> bool" where
  "plain_query c ctx message options question \<longleftrightarrow>
     dm_Question message = [question] \<and> dm_Ns message = [] \<and> dm_Extra message = [] \<and>
     \<not> (q_Qtype question = TypeA \<and> qo_Strategy options = DomainStrategyIPv6Only) \<and>
     \<not> (q_Qtype question = TypeAAAA \<and> qo_Strategy options = DomainStrategyIPv4Only) \<and>
     \<not> Prefix_IsValid (resolveClientSubnet c ctx options) \<and>
     \<not> dc_disableCache c \<and> \<not> qo_DisableCache options \<and> qc_waitErr ctx = None"

lemma plain_exchange:
  assumes "edns_laws (ce_lib E)" and "plain_query c ctx message options question"
  shows "Client_Exchange E now later ctx transport message options ch c =
    exchange_cached E now later ctx transport question message options ch False NoPrefix c"
proof -
  have "ExtractClientSubnet (ce_lib E) message = None"
    using assms no_edns [OF assms(1), of message] by (simp add: ExtractClientSubnet_def plain_query_def)
  moreover have q: "dm_Question message = [question]" "dm_Ns message = []" "dm_Extra message = []"
    "\<not> (q_Qtype question = TypeA \<and> qo_Strategy options = DomainStrategyIPv6Only \<or>
        q_Qtype question = TypeAAAA \<and> qo_Strategy options = DomainStrategyIPv4Only)"
    "\<not> Prefix_IsValid (resolveClientSubnet c ctx options)"
    "\<not> dc_disableCache c" "\<not> qo_DisableCache options" "qc_waitErr ctx = None"
    using assms(2) unfolding plain_query_def by simp_all
  ultimately show ?thesis
    unfolding Client_Exchange_def Let_def by (simp add: isSimpleRequest_def q)
qed

lemma load_after_store:
  assumes "lru_laws (ce_lru E) peek" and "the_cache c = Some s" and "\<not> dc_disableExpire c"
    and "ttl \<noteq> 0" and "t2 < lifetime_end t1 (Second * uint ttl)"
    and "storeCache E t1 tag question m ttl subnet c = (r, c1)"
  shows "r = Inr ()" "\<exists>c2. loadResponse E t2 question tag subnet c1 =
     (Inr (Some (age_response ((lifetime_end t1 (Second * uint ttl) - t2) div Second) m,
                 (lifetime_end t1 (Second * uint ttl) - t2) div Second)), c2)"
proof -
  let ?k = "the_key c question tag subnet"
  let ?s = "lru_AddWithLifetime (ce_lru E) t1 ?k m (Second * uint ttl) s"
  have st: "r = Inr ()" "c1 = put_cache ?s c" using assms(2-4,6) by (auto simp: storeCache_def Let_def)
  have g: "fst (lru_GetWithLifetime (ce_lru E) t2 ?k ?s) = Some (m, lifetime_end t1 (Second * uint ttl))"
    by (rule lru_found [OF assms(1) lru_added [OF assms(1)] assms(5)])
  have "0 \<le> (lifetime_end t1 (Second * uint ttl) - t2) div Second"
    using assms(5) by (simp add: Second_def)
  with st(2) g assms(3,5) show "\<exists>c2. loadResponse E t2 question tag subnet c1 =
     (Inr (Some (age_response ((lifetime_end t1 (Second * uint ttl) - t2) div Second) m,
                 (lifetime_end t1 (Second * uint ttl) - t2) div Second)), c2)"
    by (auto simp: loadResponse_def Let_def max_def split: prod.splits)
  show "r = Inr ()" by (rule st(1))
qed

section \<open>What a call leaves as it was\<close>

text \<open>The calls change the caches and the RDRC store only.\<close>

definition client_config :: "('s, 'r) dns_client \<Rightarrow> ('s, 'r) dns_client" where
  "client_config c = c\<lparr>dc_cache := None, dc_transportCache := None, dc_rdrc := None\<rparr>"

lemma client_configD:
  assumes "client_config c' = client_config c"
  shows "dc_disableCache c' = dc_disableCache c" "dc_disableExpire c' = dc_disableExpire c"
    "dc_independentCache c' = dc_independentCache c"
    "resolveClientSubnet c' = resolveClientSubnet c"
    "plain_query c' = plain_query c" "the_key c' = the_key c"
proof -
  have sel: "dc_disableCache c' = dc_disableCache c" "dc_disableExpire c' = dc_disableExpire c"
    "dc_independentCache c' = dc_independentCache c" "dc_clientSubnet c' = dc_clientSubnet c"
    "dc_clientSubnetFromInbound c' = dc_clientSubnetFromInbound c"
    using arg_cong [OF assms, of dc_disableCache] arg_cong [OF assms, of dc_disableExpire]
      arg_cong [OF assms, of dc_independentCache] arg_cong [OF assms, of dc_clientSubnet]
      arg_cong [OF assms, of dc_clientSubnetFromInbound]
    by (simp_all add: client_config_def)
  then show "dc_disableCache c' = dc_disableCache c" "dc_disableExpire c' = dc_disableExpire c"
    "dc_independentCache c' = dc_independentCache c" by simp_all
  from sel show r: "resolveClientSubnet c' = resolveClientSubnet c"
    by (simp add: fun_eq_iff resolveClientSubnet_def Let_def split: option.splits)
  from sel r show "plain_query c' = plain_query c" "the_key c' = the_key c"
    by (simp_all add: fun_eq_iff plain_query_def the_key_def)
qed

lemma config_put [simp]: "client_config (put_cache s c) = client_config c"
  by (simp add: client_config_def put_cache_def)

lemma config_rdrc [simp]: "client_config (c\<lparr>dc_rdrc := r\<rparr>) = client_config c"
  by (simp add: client_config_def)

lemma load_config: "client_config (snd (loadResponse E now q tag sub c)) = client_config c"
  unfolding loadResponse_def Let_def by (simp split: option.splits prod.splits)

lemma store_config: "client_config (snd (storeCache E now tag q m ttl sub c)) = client_config c"
  unfolding storeCache_def Let_def by (simp split: option.splits)

lemma handle_config:
  "client_config (snd (handle_response E now tag q m o1 ch dis sub resp c)) = client_config c"
  unfolding handle_response_def Let_def
  using store_config [of E now tag q _ _ sub c] by (simp split: prod.splits sum.splits) (metis snd_conv)

lemma upstream_config:
  "client_config (snd (exchange_upstream E now ctx tr q m o1 ch dis sub c)) = client_config c"
  unfolding exchange_upstream_def Let_def by (simp add: handle_config split: sum.splits option.splits)

text \<open>A miss leaves a cache behind.\<close>

lemma load_cache:
  "the_cache c = Some s \<Longrightarrow> \<exists>s'. the_cache (snd (loadResponse E now q tag sub c)) = Some s'"
  unfolding loadResponse_def Let_def by (simp split: option.splits prod.splits)

section \<open>Cached answers\<close>

lemma age_id [simp]: "age_response n (m\<lparr>dm_Id := i\<rparr>) = (age_response n m)\<lparr>dm_Id := i\<rparr>"
  by (simp add: age_response_def set_ttls_def Let_def)

lemma set_ttls_again [simp]: "set_ttls t ((set_ttls t' m)\<lparr>dm_Id := i\<rparr>) = (set_ttls t m)\<lparr>dm_Id := i\<rparr>"
  by (simp add: set_ttls_def)

lemma remove_hints_extra [simp]:
  "dm_Extra (remove_hints q strategy m) = dm_Extra m" "dm_Rcode (remove_hints q strategy m) = dm_Rcode m"
  by (simp_all add: remove_hints_def)

text \<open>A query the transport answers: the response is stored with the time to live it is
  returned with.\<close>

lemma upstream_answer:
  assumes "dt_Exchange transport (ctx\<lparr>qc_transportTag := Some (sv_Tag transport)\<rparr>) message = Inr upstream"
    and "exchange_upstream E now ctx transport question message options ch dis sub c = (Inr r, c1)"
  shows "handle_response E now (sv_Tag transport) question message options ch dis sub upstream c = (Inr r, c1)"
  using assms unfolding exchange_upstream_def Let_def by (simp split: if_splits)

lemma handled_answer:
  assumes "edns_laws (ce_lib E)" and "\<forall>rr \<in> set (dm_Extra upstream). \<not> is_opt rr"
    and "dm_Rcode upstream = RcodeSuccess \<or> dm_Rcode upstream = RcodeNameError"
    and "ttl = exchange_ttl options (remove_hints question (qo_Strategy options) upstream)"
    and "handle_response E now tag question message options ch False sub upstream c = (Inr r, c1)"
  shows "r = (set_ttls ttl (remove_hints question (qo_Strategy options) upstream))\<lparr>dm_Id := dm_Id message\<rparr>"
    and "storeCache E now tag question r ttl sub c = (Inr (), c1)"
proof -
  let ?f = "remove_hints question (qo_Strategy options) upstream"
  have fin: "finish_response (ce_lib E) message ttl ?f = (set_ttls ttl ?f)\<lparr>dm_Id := dm_Id message\<rparr>"
    using assms(2) by (intro finish_response_plain [OF assms(1)]) simp
  have "\<not> response_rejected (ce_lib E) ch upstream"
    using assms(5) by (auto simp: handle_response_def Let_def split: if_splits)
  with assms(3,5) fin show "r = (set_ttls ttl ?f)\<lparr>dm_Id := dm_Id message\<rparr>"
    "storeCache E now tag question r ttl sub c = (Inr (), c1)"
    unfolding handle_response_def Let_def assms(4) [symmetric]
    by (auto split: prod.splits sum.splits)
qed

text \<open>C10 (cached_answer_ages): in a client whose cache entries expire, let a transport have answered a plain query that the
  cache did not have, with success or name error, without an OPT record and with a time to live that is not zero. As long as nothing else
  has used the cache in between, the same
  question is then answered from the cache until the time to live, counted in whole milliseconds, has run out, whatever
  the transport does and whatever check the second query brings: the answer is the first
  one with the id of the new query and, in every record, the whole seconds that are left.\<close>

theorem cached_answer_ages:
  assumes "lru_laws (ce_lru E) peek" and "edns_laws (ce_lib E)"
    and "plain_query c ctx message options question"
    and "the_cache c = Some s" and "\<not> dc_disableExpire c"
    and "fst (loadResponse E now question (sv_Tag transport) NoPrefix c) = Inr None"
    and "dt_Exchange transport (ctx\<lparr>qc_transportTag := Some (sv_Tag transport)\<rparr>) message = Inr upstream"
    and "dm_Rcode upstream = RcodeSuccess \<or> dm_Rcode upstream = RcodeNameError"
    and "\<forall>rr \<in> set (dm_Extra upstream). \<not> is_opt rr"
    and "ttl = exchange_ttl options (remove_hints question (qo_Strategy options) upstream)" and "ttl \<noteq> 0"
    and "Client_Exchange E now later ctx transport message options ch c = (Inr r, c1)"
    and "plain_query c ctx2 message2 options2 question" and "sv_Tag transport2 = sv_Tag transport"
    and "now2 < lifetime_end later (Second * uint ttl)"
  shows "fst (Client_Exchange E now2 later2 ctx2 transport2 message2 options2 ch2 c1) =
    Inr ((set_ttls (word_of_int ((lifetime_end later (Second * uint ttl) - now2) div Second)) r)\<lparr>dm_Id := dm_Id message2\<rparr>)"
proof -
  let ?f = "remove_hints question (qo_Strategy options) upstream"
  let ?n = "(lifetime_end later (Second * uint ttl) - now2) div Second"
  obtain c0 where l: "loadResponse E now question (sv_Tag transport) NoPrefix c = (Inr None, c0)"
    using assms(6) by (metis prod.collapse)
  have cfg: "client_config c0 = client_config c" using load_config [of E now] l by (metis snd_conv)
  obtain s0 where s0: "the_cache c0 = Some s0" using load_cache [OF assms(4)] l by (metis snd_conv)
  have "qc_waitErr ctx = None" using assms(3) by (simp add: plain_query_def)
  with assms(12) l have up: "exchange_upstream E later ctx transport question message options ch False NoPrefix c0 = (Inr r, c1)"
    unfolding plain_exchange [OF assms(2,3)] by (simp add: exchange_cached_def)
  note h = handled_answer [OF assms(2,9,8,10) upstream_answer [OF assms(7) up]]
  have cfg1: "client_config c1 = client_config c"
    using cfg store_config [of E later "sv_Tag transport" question r ttl NoPrefix c0] h(2) by simp
  have pq: "plain_query c1 ctx2 message2 options2 question" using assms(13) client_configD(5) [OF cfg1] by simp
  have de: "\<not> dc_disableExpire c0" using assms(5) client_configD(2) [OF cfg] by simp
  obtain c2 where "loadResponse E now2 question (sv_Tag transport) NoPrefix c1 = (Inr (Some (age_response ?n r, ?n)), c2)"
    using load_after_store(2) [OF assms(1) s0 de assms(11,15) h(2)] by blast
  moreover have "age_response ?n r = set_ttls (word_of_int ?n) r"
    unfolding h(1) using assms(11) by (simp add: age_set_ttls)
  moreover have "qc_waitErr ctx2 = None" using assms(13) by (simp add: plain_query_def)
  ultimately show ?thesis unfolding plain_exchange [OF assms(2) pq] by (simp add: exchange_cached_def assms(14))
qed

section \<open>The response check\<close>

text \<open>What is sent for a query, and what is made of the answer that comes back.\<close>

definition sent_message :: "('s, 'r) dns_client \<Rightarrow> query_ctx \<Rightarrow> dns_query_options \<Rightarrow> dns_msg \<Rightarrow> dns_msg" where
  "sent_message c ctx options message =
     (let subnet = resolveClientSubnet c ctx options in
      if Prefix_IsValid subnet then SetClientSubnet message subnet else message)"

definition returned_message :: "dns_lib \<Rightarrow> dns_query_options \<Rightarrow> dns_question \<Rightarrow> dns_msg \<Rightarrow> dns_msg \<Rightarrow> dns_msg" where
  "returned_message D options question request upstream =
     (let filtered = remove_hints question (qo_Strategy options) upstream in
      finish_response D request (exchange_ttl options filtered) filtered)"

lemma handle_checked:
  assumes "handle_response E now tag question message options (Some check) dis sub upstream c = (Inr r, c1)"
  shows "dm_Rcode upstream = RcodeSuccess" "dm_Answer upstream \<noteq> []"
    "check (MessageToAddresses (ce_lib E) upstream)" "r = returned_message (ce_lib E) options question message upstream"
  using assms unfolding handle_response_def Let_def
  by (auto simp: response_rejected_def returned_message_def Let_def split: if_splits prod.splits sum.splits)

lemma upstream_checked:
  assumes "exchange_upstream E now ctx transport question message options (Some check) dis sub c = (Inr r, c1)"
  shows "\<exists>upstream. dt_Exchange transport (ctx\<lparr>qc_transportTag := Some (sv_Tag transport)\<rparr>) message = Inr upstream \<and>
    dm_Rcode upstream = RcodeSuccess \<and> dm_Answer upstream \<noteq> [] \<and> check (MessageToAddresses (ce_lib E) upstream) \<and>
    r = returned_message (ce_lib E) options question message upstream"
proof (cases "dt_Exchange transport (ctx\<lparr>qc_transportTag := Some (sv_Tag transport)\<rparr>) message")
  case (Inr upstream)
  then show ?thesis using handle_checked [OF upstream_answer [OF Inr assms]] by blast
next
  case (Inl err)
  with assms obtain rcode where
    "handle_response E now (sv_Tag transport) question message options (Some check) dis sub
       (FixedResponseStatus message rcode) c = (Inr r, c1)"
    unfolding exchange_upstream_def Let_def by (auto split: if_splits option.splits)
  then have "dm_Answer (FixedResponseStatus message rcode) \<noteq> []" by (rule handle_checked)
  then show ?thesis by (simp add: FixedResponseStatus_def fixed_header_def zero_dns_msg_def)
qed

text \<open>A query whose question the strategy does not rule out goes to the cache or to the transport as \<^const>\<open>sent_message\<close>.\<close>

lemma exchange_sent:
  assumes "dm_Question message = question # qs"
    and "\<not> (q_Qtype question = TypeA \<and> qo_Strategy options = DomainStrategyIPv6Only)"
    and "\<not> (q_Qtype question = TypeAAAA \<and> qo_Strategy options = DomainStrategyIPv4Only)"
  shows "\<exists>dis sub. Client_Exchange E now later ctx transport message options ch c =
    exchange_cached E now later ctx transport question (sent_message c ctx options message) options ch dis sub c \<and> (dc_disableCache c \<longrightarrow> dis)"
  using assms unfolding Client_Exchange_def Let_def sent_message_def by auto

lemma sent_message_id [simp]: "dm_Id (sent_message c ctx options message) = dm_Id message"
  by (simp add: sent_message_def SetClientSubnet_def Let_def split: prod.split option.split)

text \<open>C17 (checked_response): take a query with a response check that has a question and whose question the strategy does not rule out
  (an A question under \<open>ipv6_only\<close>, an AAAA question under \<open>ipv4_only\<close> and a message without a question get a fixed response that is not
  checked). It returns a message only in two cases: the transport answered the query, without error and with records whose addresses
  pass the check, and the message is made from this answer; or the message
  comes out of the cache, which is not checked again.\<close>

theorem checked_response:
  assumes "Client_Exchange E now later ctx transport message options (Some check) c = (Inr r, c1)"
    and "dm_Question message = question # qs"
    and "\<not> (q_Qtype question = TypeA \<and> qo_Strategy options = DomainStrategyIPv6Only)"
    and "\<not> (q_Qtype question = TypeAAAA \<and> qo_Strategy options = DomainStrategyIPv4Only)"
  shows "(\<exists>upstream. dt_Exchange transport (ctx\<lparr>qc_transportTag := Some (sv_Tag transport)\<rparr>) (sent_message c ctx options message) = Inr upstream \<and>
      dm_Rcode upstream = RcodeSuccess \<and> dm_Answer upstream \<noteq> [] \<and> check (MessageToAddresses (ce_lib E) upstream) \<and>
      r = returned_message (ce_lib E) options question (sent_message c ctx options message) upstream) \<or>
    (\<exists>subnet response ttl. fst (loadResponse E now question (sv_Tag transport) subnet c) = Inr (Some (response, ttl)) \<and>
      r = response\<lparr>dm_Id := dm_Id message\<rparr>)"
proof -
  let ?request = "sent_message c ctx options message"
  obtain dis sub where ec: "exchange_cached E now later ctx transport question ?request options (Some check)
      dis sub c = (Inr r, c1)"
    using exchange_sent [OF assms(2-4), of E now later ctx transport "Some check" c] assms(1) by auto
  show ?thesis
  proof (cases "\<exists>c0. exchange_upstream E later ctx transport question ?request options (Some check) dis sub c0 = (Inr r, c1)")
    case True
    then show ?thesis using upstream_checked by blast
  next
    case False
    with ec obtain response ttl c0 where "loadResponse E now question (sv_Tag transport) sub c = (Inr (Some (response, ttl)), c0)"
        "r = response\<lparr>dm_Id := dm_Id message\<rparr>"
      unfolding exchange_cached_def by (auto split: if_splits option.splits prod.splits sum.splits)
    then show ?thesis by (metis fst_conv)
  qed
qed

section \<open>What the cache holds\<close>

inductive client_reachable :: "('s, 'r) client_env \<Rightarrow> ('s, 'r) dns_client \<Rightarrow> bool" for E where
  new: "client_reachable E (NewClient E options initRDRC)"
| start: "client_reachable E c \<Longrightarrow> client_reachable E (Client_Start c)"
| exchange: "client_reachable E c \<Longrightarrow>
    client_reachable E (snd (Client_Exchange E now later ctx transport message options ch c))"
| lookup: "client_reachable E c \<Longrightarrow>
    client_reachable E (snd (Client_Lookup E now later ctx transport domain options ch c))"
| clear: "client_reachable E c \<Longrightarrow> client_reachable E (Client_ClearCache E c)"

abbreviation answer_rcode :: "dns_msg \<Rightarrow> bool" where
  "answer_rcode m \<equiv> dm_Rcode m = RcodeSuccess \<or> dm_Rcode m = RcodeNameError"

definition entries_ok :: "('s \<Rightarrow> cache_key \<rightharpoonup> dns_msg \<times> int option) \<Rightarrow> 's \<Rightarrow> bool" where
  "entries_ok peek s \<longleftrightarrow> (\<forall>k m e. peek s k = Some (m, e) \<longrightarrow> answer_rcode m)"

definition cache_ok :: "('s \<Rightarrow> cache_key \<rightharpoonup> dns_msg \<times> int option) \<Rightarrow> ('s, 'r) dns_client \<Rightarrow> bool" where
  "cache_ok peek c \<longleftrightarrow> pred_option (entries_ok peek) (dc_cache c) \<and> pred_option (entries_ok peek) (dc_transportCache c)"

lemma entries_ok_ops:
  assumes "lru_laws O1 peek" and "entries_ok peek s"
  shows "answer_rcode m \<Longrightarrow> entries_ok peek (lru_Add O1 k m s)"
    and "answer_rcode m \<Longrightarrow> entries_ok peek (lru_AddWithLifetime O1 t k m d s)"
    and "entries_ok peek (snd (lru_Get O1 t k s))"
    and "entries_ok peek (snd (lru_GetWithLifetime O1 t k s))"
    and "entries_ok peek (lru_Remove O1 k s)"
    and "entries_ok peek (lru_Purge O1 s)"
    and "entries_ok peek (lru_New O1 n)"
proof -
  show "answer_rcode m \<Longrightarrow> entries_ok peek (lru_Add O1 k m s)"
    using assms(2) by (fastforce simp: entries_ok_def dest: lru_entries(1) [OF assms(1)])
  show "answer_rcode m \<Longrightarrow> entries_ok peek (lru_AddWithLifetime O1 t k m d s)"
    using assms(2) by (fastforce simp: entries_ok_def dest: lru_entries(2) [OF assms(1)])
  show "entries_ok peek (snd (lru_Get O1 t k s))"
    using assms(2) by (auto simp: entries_ok_def dest!: lru_entries(3) [OF assms(1)])
  show "entries_ok peek (snd (lru_GetWithLifetime O1 t k s))"
    using assms(2) by (auto simp: entries_ok_def dest!: lru_entries(4) [OF assms(1)])
  show "entries_ok peek (lru_Remove O1 k s)"
    using assms(2) by (auto simp: entries_ok_def dest!: lru_entries(5) [OF assms(1)])
  show "entries_ok peek (lru_Purge O1 s)"
    using assms(2) by (auto simp: entries_ok_def dest!: lru_entries(6) [OF assms(1)])
  show "entries_ok peek (lru_New O1 n)" by (simp add: entries_ok_def lru_entries(7) [OF assms(1)])
qed

lemma cache_ok_the: "cache_ok peek c \<Longrightarrow> the_cache c = Some s \<Longrightarrow> entries_ok peek s"
  by (auto simp: cache_ok_def the_cache_def split: if_splits)

lemma cache_ok_put: "cache_ok peek c \<Longrightarrow> entries_ok peek s \<Longrightarrow> cache_ok peek (put_cache s c)"
  by (auto simp: cache_ok_def put_cache_def)

lemma load_ok:
  assumes "lru_laws (ce_lru E) peek" and "cache_ok peek c"
  shows "cache_ok peek (snd (loadResponse E now q tag sub c))"
proof (cases "the_cache c")
  case (Some s)
  let ?k = "the_key c q tag sub"
  note ops = entries_ok_ops [OF assms(1) cache_ok_the [OF assms(2) Some]]
  have "cache_ok peek (put_cache (snd (lru_Get (ce_lru E) now ?k s)) c)"
    "cache_ok peek (put_cache (snd (lru_GetWithLifetime (ce_lru E) now ?k s)) c)"
    "cache_ok peek (put_cache (lru_Remove (ce_lru E) ?k (snd (lru_GetWithLifetime (ce_lru E) now ?k s))) c)"
    using ops entries_ok_ops(5) [OF assms(1)] by (blast intro: cache_ok_put [OF assms(2)])+
  then show ?thesis unfolding loadResponse_def Let_def Some
    by (auto split: prod.splits option.splits)
qed (simp add: loadResponse_def assms(2))

lemma store_ok:
  assumes "lru_laws (ce_lru E) peek" and "cache_ok peek c" and "answer_rcode m"
  shows "cache_ok peek (snd (storeCache E now tag q m ttl sub c))"
  unfolding storeCache_def Let_def
  using entries_ok_ops(1,2) [OF assms(1) cache_ok_the [OF assms(2)] assms(3)] assms(2)
  by (simp add: cache_ok_put split: option.splits)

lemma finish_rcode:
  assumes "edns_laws D"
  shows "dm_Rcode (finish_response D message ttl m) = dm_Rcode m"
proof -
  have "dm_Rcode (dl_SetEdns0 D u d x) = dm_Rcode x" for u d x
  proof -
    have "dl_SetEdns0 D u d x = x\<lparr>dm_Extra := dm_Extra (dl_SetEdns0 D u d x)\<rparr>" using assms by (simp add: edns_laws_def)
    then have "dm_Rcode (dl_SetEdns0 D u d x) = dm_Rcode (x\<lparr>dm_Extra := dm_Extra (dl_SetEdns0 D u d x)\<rparr>)" by (rule arg_cong)
    then show ?thesis by simp
  qed
  then show ?thesis by (simp add: finish_response_def finish_edns_def set_ttls_def Let_def split: option.splits)
qed

lemma handle_ok:
  assumes "lru_laws (ce_lru E) peek" and "edns_laws (ce_lib E)" and "cache_ok peek c"
  shows "cache_ok peek (snd (handle_response E now tag q m o1 ch dis sub up c))"
proof -
  let ?f = "remove_hints q (qo_Strategy o1) up"
  let ?r = "finish_response (ce_lib E) m (exchange_ttl o1 ?f) ?f"
  have st: "cache_ok peek (snd (storeCache E now tag q ?r (exchange_ttl o1 ?f) sub c))" if "answer_rcode up"
    using that by (intro store_ok [OF assms(1,3)]) (simp add: finish_rcode [OF assms(2)])
  have rd: "cache_ok peek (c\<lparr>dc_rdrc := x\<rparr>)" for x using assms(3) by (simp add: cache_ok_def)
  show ?thesis
    unfolding handle_response_def Let_def using st rd assms(3)
    by (auto split: prod.splits sum.splits)
qed

lemma upstream_ok:
  assumes "lru_laws (ce_lru E) peek" and "edns_laws (ce_lib E)" and "cache_ok peek c"
  shows "cache_ok peek (snd (exchange_upstream E now ctx tr q m o1 ch dis sub c))"
  unfolding exchange_upstream_def Let_def
  using handle_ok [OF assms] assms(3) by (simp split: sum.splits option.splits)

lemma exchange_ok:
  assumes "lru_laws (ce_lru E) peek" and "edns_laws (ce_lib E)" and "cache_ok peek c"
  shows "cache_ok peek (snd (Client_Exchange E now later ctx tr m o1 ch c))"
proof -
  have "cache_ok peek (snd (exchange_cached E now later ctx tr q m o1 ch dis sub c))" for q m dis sub
    unfolding exchange_cached_def
    using upstream_ok [OF assms] upstream_ok [OF assms(1,2)] load_ok [OF assms(1,3), of now q "sv_Tag tr" sub] assms(3)
    by (auto split: prod.splits sum.splits option.splits)
  then show ?thesis unfolding Client_Exchange_def Let_def using assms(3) by (simp split: list.splits)
qed

lemma lookup_exchange_ok:
  assumes "lru_laws (ce_lru E) peek" and "edns_laws (ce_lib E)" and "cache_ok peek c"
  shows "cache_ok peek (snd (lookupToExchange E now later ctx tr name ty o1 ch c))"
proof -
  have ex: "cache_ok peek (snd (exchange_addresses E now later ctx tr q o1 ch c))" if "cache_ok peek c" for q c
    using exchange_ok [OF assms(1,2) that, of now later ctx tr "lookup_message q" o1 ch]
    by (auto simp: exchange_addresses_def split: prod.splits sum.splits)
  have qc: "cache_ok peek (snd (questionCache E now q tag sub c))" for q tag sub
    using load_ok [OF assms(1,3), of now q tag sub] by (auto simp: questionCache_def split: prod.splits sum.splits option.splits)
  have qc': "cache_ok peek c'" if "questionCache E now q tag sub c = (r, c')" for q tag sub r c'
    using qc [of q tag sub] that by simp
  show ?thesis unfolding lookupToExchange_def Let_def
    by (auto intro: ex qc' assms(3) split: prod.splits option.splits)
qed

lemma reachable_cache_ok:
  assumes "lru_laws (ce_lru E) peek" and "edns_laws (ce_lib E)" and "client_reachable E c"
  shows "cache_ok peek c"
  using assms(3)
proof (induction rule: client_reachable.induct)
  case (new options initRDRC)
  have "entries_ok peek (lru_New (ce_lru E) n)" for n
    using lru_entries(7) [OF assms(1)] by (simp add: entries_ok_def)
  then show ?case by (simp add: NewClient_def cache_ok_def Let_def)
next
  case (start c)
  then show ?case by (simp add: Client_Start_def cache_ok_def)
next
  case (exchange c now later ctx transport message options ch)
  show ?case by (rule exchange_ok [OF assms(1,2)]) (rule exchange)
next
  case (lookup c now later ctx transport domain options ch)
  note q = lookup_exchange_ok [OF assms(1,2), of _ now later ctx transport]
  have "cache_ok peek (snd (lookupToExchange E now later ctx transport n t options ch c))" for n t by (rule q) (rule lookup)
  moreover have "cache_ok peek (snd (lookupToExchange E now later ctx transport n' t' options ch
      (snd (lookupToExchange E now later ctx transport n t options ch c))))" for n t n' t' by (rule q, rule q) (rule lookup)
  ultimately show ?case unfolding Client_Lookup_def Let_def by (simp split: prod.splits) (metis snd_conv)
next
  case (clear c)
  then show ?case using entries_ok_ops(6) [OF assms(1)]
    by (auto simp: Client_ClearCache_def cache_ok_def split: option.splits)
qed

text \<open>Remark (only_answers_cached): in every state the client can reach, the cache holds
  answers only: a message that came with a server failure, a refusal or any other code but
  success and name error is never there.\<close>

theorem only_answers_cached:
  assumes "lru_laws (ce_lru E) peek" and "edns_laws (ce_lib E)" and "client_reachable E c"
    and "dc_cache c = Some s \<or> dc_transportCache c = Some s" and "peek s k = Some (m, e)"
  shows "dm_Rcode m = RcodeSuccess \<or> dm_Rcode m = RcodeNameError"
proof -
  have "entries_ok peek s" using reachable_cache_ok [OF assms(1-3)] assms(4) by (auto simp: cache_ok_def)
  then show ?thesis unfolding entries_ok_def using assms(5) by blast
qed

section \<open>Queries with a client subnet\<close>

lemma subnet_not_simple:
  "\<not> isSimpleRequest False sub (SetClientSubnet message p)"
proof -
  have new: "\<not> isCacheableDNSExtra (fill_record p (subnet_index os) rr) False sub" if "rr_Data rr = RD_OPT os" for rr os
  proof -
    have "fill_options p (subnet_index os) os \<noteq> []" by (cases os) (auto simp: fill_options_def split: option.splits nat.splits)
    then show ?thesis using that by (simp add: isCacheableDNSExtra_def fill_record_def)
  qed
  consider (none) "dm_Extra message = []" | (one) r where "dm_Extra message = [r]"
    | (more) r1 r2 rs where "dm_Extra message = r1 # r2 # rs"
    by (cases "dm_Extra message" rule: remdups_adj.cases) auto
  then show ?thesis
  proof cases
    case none
    then show ?thesis using new [of new_opt_record "[]"]
      by (simp add: SetClientSubnet_def isSimpleRequest_def new_opt_record_def)
  next
    case (one r)
    then show ?thesis
      by (auto simp: SetClientSubnet_def isSimpleRequest_def split: dns_rdata.splits option.splits dest: new)
  next
    case (more r1 r2 rs)
    moreover have "length (dm_Extra (SetClientSubnet message p)) \<ge> length (dm_Extra message)"
      by (simp add: SetClientSubnet_def split: prod.splits option.splits)
    ultimately obtain x1 x2 xs where "dm_Extra (SetClientSubnet message p) = x1 # x2 # xs"
      by (cases "dm_Extra (SetClientSubnet message p)" rule: remdups_adj.cases) auto
    then show ?thesis by (simp add: isSimpleRequest_def)
  qed
qed

lemma upstream_uncached:
  "exchange_upstream E now ctx tr q m o1 ch True sub (c\<lparr>dc_cache := g\<rparr>) =
     (case exchange_upstream E now ctx tr q m o1 ch True sub c of (r, c') \<Rightarrow> (r, c'\<lparr>dc_cache := g\<rparr>))"
  "dc_cache (snd (exchange_upstream E now ctx tr q m o1 ch True sub c)) = dc_cache c"
  by (simp_all add: exchange_upstream_def handle_response_def Let_def split: sum.splits option.splits)

text \<open>Remark (subnet_bypasses_shared_cache): when the client has one cache for all
  transports, a query that is sent with a client subnet neither reads nor writes it: the
  result is the same with any other cache, and the cache stays what it was.\<close>

theorem subnet_bypasses_shared_cache:
  assumes "\<not> dc_independentCache c" and "Prefix_IsValid (resolveClientSubnet c ctx options)"
  shows "fst (Client_Exchange E now later ctx transport message options ch (c\<lparr>dc_cache := g\<rparr>)) =
      fst (Client_Exchange E now later ctx transport message options ch c) \<and>
    dc_cache (snd (Client_Exchange E now later ctx transport message options ch c)) = dc_cache c"
proof -
  have r: "resolveClientSubnet (c\<lparr>dc_cache := g\<rparr>) ctx options = resolveClientSubnet c ctx options"
    by (simp add: resolveClientSubnet_def Let_def split: option.splits)
  show ?thesis
    using assms
    by (auto simp: Client_Exchange_def Let_def r subnet_not_simple exchange_cached_def upstream_uncached
        split: list.splits prod.splits)
qed

section \<open>Flags of the OPT record\<close>

text \<open>Remark (opt_flags_overwritten): the time to live of the response is written into every
  record, also into the OPT record, whose field holds no time but the extended response
  code, the version and the DO flag: when the OPT record of a response is kept, its flags
  are replaced by the time to live.\<close>

theorem opt_flags_overwritten:
  assumes "rr \<in> set (dm_Extra response)" and "is_opt rr"
    and "dl_IsEdns0 D ((set_ttls ttl response)\<lparr>dm_Id := dm_Id message\<rparr>) = Some responseOpt"
    and "dl_IsEdns0 D message = Some requestOpt"
    and "\<not> dl_Version D requestOpt < dl_Version D responseOpt"
  shows "rr\<lparr>rr_Ttl := ttl\<rparr> \<in> set (dm_Extra (finish_response D message ttl response))"
  using assms unfolding finish_response_def finish_edns_def by (simp add: set_ttls_def map_records_def)

theorem opt_flags_overwritten_witness:
  "new_opt_record\<lparr>rr_Ttl := 300\<rparr> \<in> set (dm_Extra (finish_response sample_dns_lib
     (zero_dns_msg\<lparr>dm_Extra := [new_opt_record]\<rparr>) 300 (zero_dns_msg\<lparr>dm_Extra := [new_opt_record\<lparr>rr_Ttl := 0x8000\<rparr>]\<rparr>)))"
proof -
  let ?o = "new_opt_record\<lparr>rr_Ttl := 0x8000\<rparr>"
  have "?o\<lparr>rr_Ttl := 300\<rparr> \<in> set (dm_Extra (finish_response sample_dns_lib
     (zero_dns_msg\<lparr>dm_Extra := [new_opt_record]\<rparr>) 300 (zero_dns_msg\<lparr>dm_Extra := [?o]\<rparr>)))"
    by (rule opt_flags_overwritten [where responseOpt = "?o\<lparr>rr_Ttl := 300\<rparr>" and requestOpt = new_opt_record])
      (simp_all add: sample_dns_lib_def is_opt_def new_opt_record_def set_ttls_def map_records_def)
  then show ?thesis by simp
qed

section \<open>An example\<close>

text \<open>A cache of at most 1024 entries, the last one used first.\<close>

type_synonym list_cache = "(cache_key \<times> dns_msg \<times> int option) list"

definition list_put :: "cache_key \<Rightarrow> dns_msg \<times> int option \<Rightarrow> list_cache \<Rightarrow> list_cache" where
  "list_put k v s = (k, v) # take 1023 (filter (\<lambda>e. fst e \<noteq> k) s)"

definition list_lru :: "list_cache lru_ops" where
  "list_lru = \<lparr>lru_Add = (\<lambda>k m. list_put k (m, None)),
     lru_AddWithLifetime = (\<lambda>t k m d. list_put k (m, Some (lifetime_end t d))),
     lru_Get = (\<lambda>t k s. (map_option fst (map_of s k), s)),
     lru_GetWithLifetime = (\<lambda>t k s. (case map_of s k of Some (m, Some e) \<Rightarrow> Some (m, e) | _ \<Rightarrow> None, s)),
     lru_Remove = (\<lambda>k. filter (\<lambda>e. fst e \<noteq> k)),
     lru_Purge = (\<lambda>s. []), lru_New = (\<lambda>n. [])\<rparr>"

lemma map_of_take_le: "map_of (take n xs) \<subseteq>\<^sub>m map_of xs"
  by (induction xs arbitrary: n) (auto simp: map_le_def take_Cons' dom_def)

lemma map_of_filter_key: "map_of (filter (\<lambda>e. fst e \<noteq> k) xs) = (map_of xs)(k := None)"
  by (induction xs) (auto simp: fun_eq_iff)

lemma map_of_filter_le: "map_of (filter (\<lambda>e. fst e \<noteq> k) xs) \<subseteq>\<^sub>m map_of xs"
  by (auto simp: map_of_filter_key map_le_def)

lemma list_put_le: "map_of (list_put k v s) \<subseteq>\<^sub>m (map_of s)(k \<mapsto> v)"
  by (simp add: list_put_def) (intro map_le_upd map_le_trans [OF map_of_take_le map_of_filter_le])

lemma list_lru_laws: "lru_laws list_lru map_of"
  unfolding lru_laws_def
  by (auto simp: list_lru_def list_put_le map_of_filter_le split: option.splits) (simp_all add: list_put_def)

definition sample_client_env :: "(list_cache, unit) client_env" where
  "sample_client_env = \<lparr>ce_lib = sample_dns_lib, ce_lru = list_lru,
     ce_rdrc = \<lparr>rdrc_Load = (\<lambda>_ _ _ _. False), rdrc_SaveAsync = (\<lambda>_ _ _ r. r)\<rparr>, ce_group = (\<lambda>a b. a)\<rparr>"

definition sample_client_options :: client_options where
  "sample_client_options = \<lparr>co_Timeout = 0, co_DisableCache = False, co_DisableExpire = False,
     co_IndependentCache = False, co_CacheCapacity = 0, co_ClientSubnet = NoPrefix, co_ClientSubnetFromInbound = None\<rparr>"

definition sample_client :: "(list_cache, unit) dns_client" where
  "sample_client = NewClient sample_client_env sample_client_options None"

definition sample_query :: "u16 \<Rightarrow> dns_msg" where
  "sample_query i = zero_dns_msg\<lparr>dm_Id := i, dm_Question := [sample_question ''a.'']\<rparr>"

definition sample_answer :: "u32 \<Rightarrow> dns_msg" where
  "sample_answer ttl = FixedResponse 7 (sample_question ''a.'') [IPv4 0x01020304] ttl"

definition sample_transport :: "string \<Rightarrow> dns_msg result \<Rightarrow> dns_transport" where
  "sample_transport tag r = \<lparr>sv_id = 0, sv_Type = ''udp'', sv_Tag = tag, sv_Dependencies = [],
     sv_starter = Lifecycle (\<lambda>_. None), sv_closer = Some None, dt_legacy = None, dt_Exchange = (\<lambda>_ _. r)\<rparr>"

definition sample_ctx :: query_ctx where
  "sample_ctx = \<lparr>qc_metadata = None, qc_transportTag = None, qc_waitErr = None\<rparr>"

lemmas sample_client_defs = sample_client_env_def sample_client_options_def sample_client_def NewClient_def Let_def
  sample_query_def sample_answer_def sample_transport_def sample_ctx_def zero_query_options_def
  sample_question_def FixedResponse_def fixed_header_def address_record_def zero_dns_msg_def

lemma sample_edns_laws: "edns_laws (ce_lib sample_client_env)"
  using sample_edns0_law by (simp add: edns_laws_def sample_client_env_def) (simp add: sample_dns_lib_def)

lemma sample_lru_laws: "lru_laws (ce_lru sample_client_env) map_of"
  using list_lru_laws by (simp add: sample_client_env_def)

lemma sample_plain: "plain_query sample_client sample_ctx (sample_query i) zero_query_options (sample_question ''a.'')"
  by (simp add: plain_query_def sample_client_defs resolveClientSubnet_def clientSubnetFromInbound_def
      strategy_defs dns_type_defs)

lemma sample_miss: "loadResponse sample_client_env 0 (sample_question ''a.'') tag sub sample_client = (Inr None, sample_client)"
  by (simp add: loadResponse_def sample_client_defs list_lru_def the_cache_def put_cache_def)

lemma sample_ttl: "exchange_ttl zero_query_options (remove_hints (sample_question ''a.'') (qo_Strategy zero_query_options) (sample_answer ttl)) = ttl"
  by (simp add: exchange_ttl_def sample_client_defs remove_hints_def response_ttl_def records_ttl_def
      message_records_def lower_ttl_def strategy_defs dns_type_defs Addr_Is4_def)

definition sample_stored :: "int \<Rightarrow> (list_cache, unit) dns_client" where
  "sample_stored later = sample_client\<lparr>dc_cache :=
     Some [(QuestionKey (sample_question ''a.''), sample_answer 60, Some (lifetime_end later (Second * 60)))]\<rparr>"

lemma sample_first:
  assumes "\<not> response_rejected (ce_lib sample_client_env) ch (sample_answer 60)"
  shows "Client_Exchange sample_client_env 0 later sample_ctx (sample_transport ''s'' (Inr (sample_answer 60))) (sample_query 7)
     zero_query_options ch sample_client = (Inr (sample_answer 60), sample_stored later)"
proof -
  have "finish_response (ce_lib sample_client_env) (sample_query 7) 60
      (remove_hints (sample_question ''a.'') (qo_Strategy zero_query_options) (sample_answer 60)) = sample_answer 60"
    by (subst finish_response_plain [OF sample_edns_laws])
      (simp_all add: sample_client_defs remove_hints_def strategy_defs dns_type_defs set_ttls_def map_records_def
        Addr_Is4_def)
  moreover have "storeCache sample_client_env later ''s'' (sample_question ''a.'') (sample_answer 60) 60 NoPrefix sample_client =
      (Inr (), sample_stored later)"
    by (simp add: storeCache_def the_cache_def sample_stored_def)
      (simp add: sample_client_def NewClient_def sample_client_options_def sample_client_env_def Let_def the_key_def put_cache_def
        list_lru_def list_put_def)
  moreover have "dm_Rcode (sample_answer 60) = RcodeSuccess" by (simp add: sample_client_defs)
  ultimately have "handle_response sample_client_env later ''s'' (sample_question ''a.'') (sample_query 7) zero_query_options ch False NoPrefix
      (sample_answer 60) sample_client = (Inr (sample_answer 60), sample_stored later)"
    using assms unfolding handle_response_def Let_def sample_ttl by simp
  moreover have "exchange_upstream sample_client_env later sample_ctx (sample_transport ''s'' (Inr (sample_answer 60))) (sample_question ''a.'')
      (sample_query 7) zero_query_options ch False NoPrefix sample_client =
    handle_response sample_client_env later ''s'' (sample_question ''a.'') (sample_query 7) zero_query_options ch False NoPrefix
      (sample_answer 60) sample_client"
    by (simp add: exchange_upstream_def sample_transport_def sample_ctx_def sample_client_def NewClient_def Let_def)
  ultimately show ?thesis
    unfolding plain_exchange [OF sample_edns_laws sample_plain] exchange_cached_def
    by (simp add: sample_miss sample_ctx_def)
qed

theorem cached_answer_ages_witness:
  "fst (Client_Exchange sample_client_env (5 * Second) 0 sample_ctx (sample_transport ''s'' (Inl (ENew ''down''))) (sample_query 8)
      zero_query_options (Some (\<lambda>_. False)) (sample_stored 0)) = Inr ((sample_answer 55)\<lparr>dm_Id := 8\<rparr>)"
proof -
  have first: "Client_Exchange sample_client_env 0 0 sample_ctx (sample_transport ''s'' (Inr (sample_answer 60))) (sample_query 7)
      zero_query_options None sample_client = (Inr (sample_answer 60), sample_stored 0)"
    by (rule sample_first) (simp add: response_rejected_def)
  have "fst (Client_Exchange sample_client_env (5 * Second) 0 sample_ctx (sample_transport ''s'' (Inl (ENew ''down''))) (sample_query 8)
      zero_query_options (Some (\<lambda>_. False)) (sample_stored 0)) =
    Inr ((set_ttls (word_of_int ((lifetime_end 0 (Second * uint (60::u32)) - 5 * Second) div Second)) (sample_answer 60))\<lparr>dm_Id := dm_Id (sample_query 8)\<rparr>)"
    by (rule cached_answer_ages [OF sample_lru_laws sample_edns_laws sample_plain _ _ _ _ _ _ sample_ttl [of 60, symmetric] _ first sample_plain])
      (simp_all add: sample_miss, simp_all add: sample_client_defs the_cache_def rcode_defs Second_def lifetime_end_def Millisecond_def)
  moreover have "(set_ttls (word_of_int ((lifetime_end 0 (Second * uint (60::u32)) - 5 * Second) div Second)) (sample_answer 60)) = sample_answer 55"
    by (simp add: lifetime_end_def Millisecond_def Second_def sample_client_defs set_ttls_def map_records_def Addr_Is4_def dns_type_defs)
  ultimately show ?thesis by (simp add: sample_query_def)
qed

theorem only_answers_cached_witness:
  "map_of (the (dc_cache (sample_stored 0))) (QuestionKey (sample_question ''a.'')) = Some (sample_answer 60, Some (60 * Second)) \<and>
   (dm_Rcode (sample_answer 60) = RcodeSuccess \<or> dm_Rcode (sample_answer 60) = RcodeNameError)"
proof -
  have "client_reachable sample_client_env (snd (Client_Exchange sample_client_env 0 0 sample_ctx
      (sample_transport ''s'' (Inr (sample_answer 60))) (sample_query 7) zero_query_options None sample_client))"
    unfolding sample_client_def by (intro client_reachable.intros)
  then have "client_reachable sample_client_env (sample_stored 0)"
    by (subst (asm) sample_first) (simp_all add: response_rejected_def)
  from only_answers_cached [OF sample_lru_laws sample_edns_laws this, of
      "[(QuestionKey (sample_question ''a.''), sample_answer 60, Some (lifetime_end 0 (Second * 60)))]" "QuestionKey (sample_question ''a.'')"]
  show ?thesis by (simp add: sample_stored_def lifetime_end_seconds)
qed

theorem checked_response_witness:
  "\<exists>upstream. dt_Exchange (sample_transport ''s'' (Inr (sample_answer 60)))
       (sample_ctx\<lparr>qc_transportTag := Some ''s''\<rparr>) (sample_query 7) = Inr upstream \<and>
     dm_Rcode upstream = RcodeSuccess \<and> MessageToAddresses (ce_lib sample_client_env) upstream = [IPv4 0x01020304] \<and>
     sample_answer 60 = returned_message (ce_lib sample_client_env) zero_query_options (sample_question ''a.'') (sample_query 7) upstream"
proof -
  let ?ch = "\<lambda>as. as = [IPv4 0x01020304]"
  have "AddrFrom4 (word_bytes 4 (0x01020304::u32)) = IPv4 0x01020304" by simp
  then have "MessageToAddresses (ce_lib sample_client_env) (sample_answer 60) = [IPv4 0x01020304]"
    by (simp add: MessageToAddresses_def sample_client_defs answer_addresses_def Addr_Is4_def dns_type_defs sample_dns_lib_def)
  then have "\<not> response_rejected (ce_lib sample_client_env) (Some ?ch) (sample_answer 60)"
    by (simp add: response_rejected_def sample_client_defs Addr_Is4_def dns_type_defs)
  note first = sample_first [OF this, of 0]
  have sent: "sent_message sample_client sample_ctx zero_query_options (sample_query 7) = sample_query 7"
    by (simp add: sent_message_def resolveClientSubnet_def clientSubnetFromInbound_def sample_client_defs)
  have q: "dm_Question (sample_query 7) = sample_question ''a.'' # []" "sv_Tag (sample_transport ''s'' x) = ''s''" for x
    by (simp_all add: sample_query_def sample_transport_def)
  have "qo_Strategy zero_query_options = DomainStrategyAsIS" by (simp add: zero_query_options_def strategy_defs)
  then have st: "\<not> (q_Qtype (sample_question ''a.'') = TypeA \<and> qo_Strategy zero_query_options = DomainStrategyIPv6Only)"
    "\<not> (q_Qtype (sample_question ''a.'') = TypeAAAA \<and> qo_Strategy zero_query_options = DomainStrategyIPv4Only)"
    by (simp_all add: strategy_defs)
  from checked_response [OF first q(1) st] show ?thesis unfolding sent q by (auto simp: sample_miss)
qed

theorem subnet_bypasses_shared_cache_witness:
  "dc_cache (snd (Client_Exchange sample_client_env 0 0 sample_ctx (sample_transport ''s'' (Inr (sample_answer 60))) (sample_query 7)
      (zero_query_options\<lparr>qo_ClientSubnet := Prefix (IPv4 0x01020300) 24\<rparr>) None sample_client)) = dc_cache sample_client"
  by (rule subnet_bypasses_shared_cache [THEN conjunct2]) (simp_all add: sample_client_defs resolveClientSubnet_def)

end
