(* ===== verification/DNS_Router_Props.thy ===== *)
theory DNS_Router_Props
  imports DNS_Router DNS_Client_Props "HOL-Library.Multiset"
begin

text \<open>
  Properties of the DNS router: the outcome of a race does not depend on more than the
  order of arrival, a query always returns, an answer of a rule with an address limit is
  within the limit, and a lookup never asks a FakeIP transport.
\<close>

section \<open>Races\<close>

fun result_message :: "exchange_result \<Rightarrow> (dns_msg \<times> dns_transport) option" where
  "result_message (t, Inr (Some m)) = Some (m, t)"
| "result_message (t, Inr None) = None"
| "result_message (t, Inl e) = None"

fun result_error :: "exchange_result \<Rightarrow> error option" where
  "result_error (t, Inl e) = Some e"
| "result_error (t, Inr m) = None"

text \<open>
  The specification of a race over results in the order they arrive: the first message
  without error, else the first message, else the errors: all rejections known from the
  cache, all rejections, or the collected errors.
\<close>

definition race_messages :: "exchange_result list \<Rightarrow> (dns_msg \<times> dns_transport) list" where
  "race_messages arrived = List.map_filter result_message arrived"

definition race_errors :: "exchange_result list \<Rightarrow> error list" where
  "race_errors arrived = List.map_filter result_error arrived"

definition race_result :: "(error list \<Rightarrow> error option) \<Rightarrow> exchange_result list \<Rightarrow> (dns_msg \<times> dns_transport) option result" where
  "race_result join arrived =
     (case find (\<lambda>x. dm_Rcode (fst x) = RcodeSuccess) (race_messages arrived) of
        Some x \<Rightarrow> Inr (Some x)
      | None \<Rightarrow>
          (case race_messages arrived of
             x # _ \<Rightarrow> Inr (Some x)
           | [] \<Rightarrow>
               if list_all (\<lambda>e. errors_Is e ErrResponseRejectedCached) (race_errors arrived)
               then Inl ErrResponseRejectedCached
               else if list_all is_rejection (race_errors arrived) then Inl ErrResponseRejected
               else (case join (race_errors arrived) of Some e \<Rightarrow> Inl e | None \<Rightarrow> Inr None)))"

text \<open>The loop from any state: what it has seen before comes first.\<close>

definition race_from :: "'m dns_env \<Rightarrow> race_state \<Rightarrow> exchange_result list \<Rightarrow> (dns_msg \<times> dns_transport) option result" where
  "race_from E s arrived =
     (case find (\<lambda>x. dm_Rcode (fst x) = RcodeSuccess) (race_messages arrived) of
        Some x \<Rightarrow> Inr (Some x)
      | None \<Rightarrow> race_end E \<lparr>
          rc_fallback = (case rc_fallback s of Some f \<Rightarrow> Some f
                         | None \<Rightarrow> (case race_messages arrived of [] \<Rightarrow> None | x # _ \<Rightarrow> Some x)),
          rc_errors = rc_errors s @ race_errors arrived,
          rc_allRejected = (rc_allRejected s \<and> list_all is_rejection (race_errors arrived)),
          rc_allRejectedOnly = (rc_allRejectedOnly s \<and>
             list_all (\<lambda>e. errors_Is e ErrResponseRejectedCached) (race_errors arrived))\<rparr>)"

lemma race_lists:
  "race_messages ((t, Inr (Some m)) # rs) = (m, t) # race_messages rs"
  "race_messages ((t, Inr None) # rs) = race_messages rs"
  "race_messages ((t, Inl e) # rs) = race_messages rs" "race_messages [] = []"
  "race_errors ((t, Inr x) # rs) = race_errors rs"
  "race_errors ((t, Inl e) # rs) = e # race_errors rs" "race_errors [] = []"
  by (simp_all add: race_messages_def race_errors_def map_filter_simps)

lemma cached_is_rejection: "errors_Is e ErrResponseRejectedCached \<Longrightarrow> is_rejection e"
  by (simp add: is_rejection_def)

lemma race_error_sel [simp]:
  "rc_fallback (race_error e s) = rc_fallback s" "rc_errors (race_error e s) = rc_errors s @ [e]"
  "rc_allRejected (race_error e s) = (rc_allRejected s \<and> is_rejection e)"
  "rc_allRejectedOnly (race_error e s) = (rc_allRejectedOnly s \<and> errors_Is e ErrResponseRejectedCached)"
  by (simp_all add: race_error_def Let_def is_rejection_def)

lemma exchange_collect_from:
  "exchange_collect E (length arrived) (map Result arrived) s = Some (race_from E s arrived)"
proof (induction arrived arbitrary: s)
  case Nil
  show ?case by (cases s) (auto simp: race_from_def race_lists race_end_def split: option.splits)
next
  case (Cons q arrived)
  obtain t res where q: "q = (t, res)" by (cases q)
  show ?case
  proof (cases res)
    case (Inl e)
    then show ?thesis using Cons.IH by (simp add: q race_from_def race_lists conj_assoc split: option.splits)
  next
    case (Inr x)
    then show ?thesis using Cons.IH
      by (cases x) (auto simp: q race_from_def race_lists split: option.splits)
  qed
qed

lemma race_from_start: "race_from E race_start arrived = race_result (dv_Errors E) arrived"
  by (auto simp: race_from_def race_start_def race_result_def race_end_def split: option.splits list.splits)

text \<open>C4 (race_outcome): when all queries of a race have come back, in whatever order, the
  result is the first message without error that arrived; without one, the first message;
  without any message, an error that tells apart rejections known from the cache,
  rejections and other failures, whatever the order was.\<close>

theorem race_outcome:
  assumes "sched (map (exchange_query E r ctx message options check) transports) = map Result arrived"
    and "mset arrived = mset (map (exchange_query E r ctx message options check) transports)"
  shows "exchangeRacer E r sched ctx transports message options check = Some (race_result (dv_Errors E) arrived)"
proof -
  have "length arrived = length transports" using arg_cong [OF assms(2), of size] by simp
  with exchange_collect_from [of E arrived race_start] assms(1) show ?thesis
    by (simp add: exchangeRacer_def race_from_start)
qed

section \<open>Every query returns\<close>

text \<open>A schedule under which every race ends: all results arrive, or the context ends first.\<close>

definition arrivals :: "'q list \<Rightarrow> 'q select list \<Rightarrow> bool" where
  "arrivals qs evs \<longleftrightarrow> (\<exists>arrived. mset arrived = mset qs \<and>
     (evs = map Result arrived \<or> (\<exists>k e rest. evs = map Result (take k arrived) @ CtxDone e # rest)))"

lemma arrivals_length:
  "arrivals qs evs \<Longrightarrow> length qs \<le> length evs \<or> (\<exists>k < length evs. \<exists>e. evs ! k = CtxDone e)"
proof (erule arrivals_def [THEN iffD1, THEN exE], elim conjE disjE exE)
  fix arrived assume "mset arrived = mset qs" "evs = map Result arrived"
  then show "length qs \<le> length evs \<or> (\<exists>k < length evs. \<exists>e. evs ! k = CtxDone e)"
    by (metis length_map mset_eq_length order_refl)
next
  fix arrived k e rest assume "evs = map Result (take k arrived) @ CtxDone e # rest"
  then show "length qs \<le> length evs \<or> (\<exists>k < length evs. \<exists>e. evs ! k = CtxDone e)"
    by (intro disjI2 exI [of _ "length (map Result (take k arrived))"]) (simp add: nth_append)
qed

lemma exchange_collect_returns:
  "n \<le> length evs \<or> (\<exists>k < length evs. \<exists>e. evs ! k = CtxDone e) \<Longrightarrow> exchange_collect E n evs s \<noteq> None"
proof (induction E n evs s rule: exchange_collect.induct)
  case (4 E n transport result evs s)
  have "n \<le> length evs \<or> (\<exists>k < length evs. \<exists>e. evs ! k = CtxDone e)"
    using 4(4) by (auto simp: less_Suc_eq_0_disj)
  with 4 show ?case by (auto split: sum.splits option.splits)
qed auto

lemma lookup_collect_returns:
  "n \<le> length evs \<or> (\<exists>k < length evs. \<exists>e. evs ! k = CtxDone e) \<Longrightarrow> lookup_collect E n evs first \<noteq> None"
proof (induction E n evs first rule: lookup_collect.induct)
  case (5 E n e evs first)
  have "n \<le> length evs \<or> (\<exists>k < length evs. \<exists>e. evs ! k = CtxDone e)"
    using 5(2) by (auto simp: less_Suc_eq_0_disj)
  with 5 show ?case by simp
qed auto

lemma exchange_collect_sched:
  "arrivals qs evs \<Longrightarrow> n = length qs \<Longrightarrow> exchange_collect E n evs s \<noteq> None"
  using exchange_collect_returns arrivals_length by blast

lemma lookup_collect_sched:
  "arrivals qs evs \<Longrightarrow> n = length qs \<Longrightarrow> lookup_collect E n evs first \<noteq> None"
  using lookup_collect_returns arrivals_length by blast

lemma run_exchange_returns:
  assumes "\<And>qs. arrivals qs (sched qs)"
  shows "run_exchange E r sched ctx m message options check \<noteq> None"
  unfolding run_exchange_def exchangeHedgedRacer_def exchangeRacer_def
  by (auto simp del: not_None_eq intro!: exchange_collect_sched [OF assms])

lemma run_lookup_returns:
  assumes "\<And>qs. arrivals qs (sched qs)"
  shows "run_lookup E r sched ctx m domain options check \<noteq> None"
  unfolding run_lookup_def lookupHedgedRacer_def lookupRacer_def
  by (auto simp del: not_None_eq intro!: lookup_collect_sched [OF assms])

declare exchange_loop.simps [simp del] lookup_loop.simps [simp del]

lemma exchange_loop_returns:
  assumes "\<And>i qs. arrivals qs (sched i qs)"
  shows "exchange_loop E r sched ctx message options ruleIndex metadata \<noteq> None"
  using assms
proof (induction E r sched ctx message options ruleIndex metadata rule: exchange_loop.induct)
  case (1 E r sched ctx message options ruleIndex metadata)
  note R = run_exchange_returns [of "sched (next_index ruleIndex)" E r, OF 1(2)]
  show ?case using 1(1) [OF _ _ _ _ _ _ 1(2)]
    by (subst exchange_loop.simps) (auto simp: R simp del: not_None_eq split: prod.splits option.splits sum.splits)
qed

lemma lookup_loop_returns:
  assumes "\<And>i qs. arrivals qs (sched i qs)"
  shows "lookup_loop E r now sched ctx domain options ruleIndex metadata addrs err \<noteq> None"
  using assms
proof (induction E r now sched ctx domain options ruleIndex metadata addrs err rule: lookup_loop.induct)
  case (1 E r now sched ctx domain options ruleIndex metadata addrs err)
  note R = run_lookup_returns [of "sched (next_index ruleIndex)" E r, OF 1(2)]
  show ?case using 1(1) [OF _ _ _ _ _ _ 1(2)]
    by (subst lookup_loop.simps) (auto simp: R simp del: not_None_eq split: prod.splits option.splits sum.splits)
qed

text \<open>C27 (dns_query_returns): whatever the rules, a DNS query and a lookup return once
  their transports have answered or their context has ended: the search for the next
  rule after a rejection goes on from a later rule each time.\<close>

theorem dns_query_returns:
  assumes "\<forall>i qs. arrivals qs (sched i qs)" and "\<forall>i qs. arrivals qs (sched' i qs)"
  shows "fst (Router_Exchange E sched ctx message options r) \<noteq> None \<and>
    Router_Lookup E now sched' ctx domain options r \<noteq> None"
proof
  have "exchange_loop E r sched ctx message options ruleIndex metadata \<noteq> None" for ruleIndex metadata
    using assms(1) exchange_loop_returns by blast
  then show "fst (Router_Exchange E sched ctx message options r) \<noteq> None"
    by (auto simp: Router_Exchange_def Let_def simp del: not_None_eq split: list.splits option.splits sum.splits exchange_end.splits)
  have "lookup_loop E r now sched' ctx domain options ruleIndex metadata addrs err \<noteq> None" for ruleIndex metadata addrs err
    using assms(2) lookup_loop_returns by blast
  then show "Router_Lookup E now sched' ctx domain options r \<noteq> None"
    by (auto simp: Router_Lookup_def Let_def simp del: not_None_eq split: option.splits sum.splits)
qed

section \<open>Lookups and FakeIP\<close>

lemma pick_no_fakeip:
  "t \<in> set (fst (pick_transports lookup False seen tags)) \<Longrightarrow> sv_Type t \<noteq> DNSTypeFakeIP"
  by (induction lookup False seen tags rule: pick_transports.induct)
    (auto split: if_splits option.splits prod.splits)

lemma pick_named:
  "t \<in> set (fst (pick_transports lookup allow seen tags)) \<Longrightarrow> \<exists>tag \<in> set tags. lookup tag = Some t"
  by (induction lookup allow seen tags rule: pick_transports.induct)
    (auto split: if_splits option.splits prod.splits)

lemma match_action_transports:
  assumes "match_action E r False rule options = (Some m, options')"
  shows "\<forall>t \<in> set (dm_transports m @ dm_fallbackTransports m). sv_Type t \<noteq> DNSTypeFakeIP"
  using assms
  by (auto simp: match_action_def no_transport_match_def route_match_def Let_def
      split: option.splits rule_action.splits prod.splits if_splits
      dest: pick_no_fakeip [of _ _ "[]", unfolded fst_def] dest: pick_no_fakeip)
    (metis fst_conv pick_no_fakeip)+

lemma match_rules_transports:
  "match_rules E r False isAddr i rules metadata options = (m, metadata', options') \<Longrightarrow>
   t \<in> set (dm_transports m @ dm_fallbackTransports m) \<Longrightarrow> sv_Type t \<noteq> DNSTypeFakeIP \<or> dv_Default E = Some t"
proof (induction rules arbitrary: i metadata options)
  case Nil
  then show ?case by (auto simp: no_transport_match_def split: option.splits)
next
  case (Cons ru rules)
  have act: ?case if "match_action E r False (i, ru) o1 = (Some m, o2)" for o1 o2
    using match_action_transports [OF that] Cons.prems(2) by blast
  show ?case using Cons.prems(1) act Cons.IH [OF _ Cons.prems(2)]
    by (auto split: if_splits prod.splits bool.splits option.splits)
qed

text \<open>Remark (lookup_never_asks_fakeip): with a transport manager from which nothing has been
  removed, none of the transports a lookup asks is the FakeIP transport: not the ones a
  rule names, not their fallbacks and not the default one.\<close>

theorem lookup_never_asks_fakeip:
  assumes "transports_created tag M" and "dv_Default E = TransportManager_Default M"
    and "matchDNS E r False ruleIndex isAddr metadata options = (m, metadata', options')"
    and "t \<in> set (dm_transports m) \<union> set (dm_fallbackTransports m)"
  shows "sv_Type t \<noteq> DNSTypeFakeIP"
proof -
  have "sv_Type t \<noteq> DNSTypeFakeIP \<or> dv_Default E = Some t"
    using match_rules_transports [OF assms(3) [unfolded matchDNS_def]] assms(4) by simp
  moreover have "default_ok M" by (rule created_default_ok [OF assms(1)])
  ultimately show ?thesis using assms(2)
    by (auto simp: TransportManager_Default_def default_ok_def split: option.splits)
qed

section \<open>Where an answer comes from\<close>

lemma match_rules_frame:
  assumes "match_rules E r allow isAddr i rules metadata options = (m, metadata', options')"
    and "\<not> mc_IgnoreDestinationIPCIDRMatch metadata"
  shows "ResetRuleCache metadata' = ResetRuleCache metadata \<and> \<not> mc_IgnoreDestinationIPCIDRMatch metadata'"
  using assms
proof (induction rules arbitrary: i metadata options)
  case (Cons ru rules)
  have ig: "\<not> mc_IgnoreDestinationIPCIDRMatch (ResetRuleCache metadata)" using Cons.prems(2) by (simp add: ResetRuleCache_def)
  obtain b md where d: "DNSRule_Match (dv_lib E) (dv_runtime E) (dv_heap E) ru (ResetRuleCache metadata) = (b, md)" by force
  from dns_match_frame [OF ig, of "dv_lib E" "dv_runtime E" "dv_heap E" ru] d
  have md: "ResetRuleCache md = ResetRuleCache metadata" "\<not> mc_IgnoreDestinationIPCIDRMatch md" by simp_all
  show ?case using Cons.prems d md Cons.IH [of "Suc i" md] Cons.IH [of "Suc i" metadata]
    by (auto split: if_splits bool.splits option.splits prod.splits)
qed auto

lemma arrivals_subset: "arrivals qs evs \<Longrightarrow> Result q \<in> set evs \<Longrightarrow> (\<forall>e. CtxDone e \<notin> set evs) \<Longrightarrow> q \<in> set qs"
  by (auto simp: arrivals_def dest: mset_eq_setD)

lemma exchange_collect_source:
  "exchange_collect E n evs s = Some (Inr (Some (msg, t))) \<Longrightarrow>
   Result (t, Inr (Some msg)) \<in> set evs \<or> rc_fallback s = Some (msg, t)"
proof (induction E n evs s rule: exchange_collect.induct)
  case (4 E n transport result evs s)
  then show ?case by (auto split: sum.splits option.splits if_splits)
qed (auto simp: race_end_def split: option.splits if_splits)

text \<open>A schedule that delivers only results of the race.\<close>

definition honest :: "('q list \<Rightarrow> 'q select list) \<Rightarrow> bool" where
  "honest sched \<longleftrightarrow> (\<forall>qs q. Result q \<in> set (sched qs) \<longrightarrow> q \<in> set qs)"

text \<open>The options of the query to a transport of one of the two groups of a match.\<close>

definition asked_with :: "'m dns_env \<Rightarrow> 'm dns_router \<Rightarrow> dns_match \<Rightarrow> dns_query_options \<Rightarrow> dns_transport \<Rightarrow> dns_query_options \<Rightarrow> bool" where
  "asked_with E r m dnsOptions t options \<longleftrightarrow>
     t \<in> set (dm_transports m) \<and> options = applyServerQueryOptions r t (primary_options E r m dnsOptions) \<or>
     t \<in> set (dm_fallbackTransports m) \<and> options = applyServerQueryOptions r t (fallback_options E r m dnsOptions)"

lemma run_exchange_source:
  assumes "run_exchange E r sched ctx m message options check = Some (Inr (Some (msg, t)))" and "honest sched"
  shows "\<exists>options'. asked_with E r m options t options' \<and> dv_Exchange E ctx t message options' check = Inr (Some msg)"
  using assms unfolding run_exchange_def exchangeHedgedRacer_def exchangeRacer_def honest_def asked_with_def
  by (auto simp: race_start_def exchange_query_def split: if_splits dest!: exchange_collect_source)
    (fastforce simp: exchange_query_def)+

text \<open>
  The rounds of a query: the first one looks at the rules from the start; when the race of a rule with an
  address limit ends with a rejection, the next round looks at the rules after it.
\<close>

inductive exchange_round ::
  "'m dns_env \<Rightarrow> 'm dns_router \<Rightarrow> (nat \<Rightarrow> exchange_result schedule) \<Rightarrow> query_ctx \<Rightarrow> dns_msg \<Rightarrow> dns_query_options \<Rightarrow>
   inbound_context \<Rightarrow> nat option \<Rightarrow> inbound_context \<Rightarrow> bool"
  for E r sched ctx message options metadata0 where
  first_round: "exchange_round E r sched ctx message options metadata0 None metadata0"
| next_round: "exchange_round E r sched ctx message options metadata0 ruleIndex metadata \<Longrightarrow>
    matchDNS E r True ruleIndex (isAddressQuery message) metadata options = (m, metadata', dnsOptions) \<Longrightarrow>
    dm_rule m = Some (j, rule) \<Longrightarrow> WithAddressLimit (dv_hasCIDR E) rule \<Longrightarrow>
    run_exchange E r (sched (next_index ruleIndex)) (ctx\<lparr>qc_metadata := Some metadata\<rparr>) m message dnsOptions (match_check E m metadata) =
      Some (Inl err) \<Longrightarrow> is_rejection err \<Longrightarrow>
    exchange_round E r sched ctx message options metadata0 (Some j) metadata'"

lemma exchange_loop_source:
  assumes "exchange_loop E r sched ctx message options ruleIndex metadata = Some (Raced (Inr (Some (msg, t))))"
    and "exchange_round E r sched ctx message options metadata0 ruleIndex metadata"
    and "\<forall>i. honest (sched i)" and "\<not> mc_IgnoreDestinationIPCIDRMatch metadata"
  shows "\<exists>ruleIndex' md m md' options' options''.
    exchange_round E r sched ctx message options metadata0 ruleIndex' md \<and>
    matchDNS E r True ruleIndex' (isAddressQuery message) md options = (m, md', options') \<and>
    ResetRuleCache md = ResetRuleCache metadata \<and> asked_with E r m options' t options'' \<and>
    dv_Exchange E (ctx\<lparr>qc_metadata := Some md\<rparr>) t message options'' (match_check E m md) = Inr (Some msg)"
  using assms
proof (induction E r sched ctx message options ruleIndex metadata rule: exchange_loop.induct)
  case (1 E r sched ctx message options ruleIndex metadata)
  obtain m md' o' where mt: "matchDNS E r True ruleIndex (isAddressQuery message) metadata options = (m, md', o')"
    by (metis prod_cases3)
  note fr = match_rules_frame [OF mt [unfolded matchDNS_def] 1(5)]
  let ?run = "run_exchange E r (sched (next_index ruleIndex)) (ctx\<lparr>qc_metadata := Some metadata\<rparr>) m message o' (match_check E m metadata)"
  have nr: "rule_reply E m message = None" using 1(2) mt by (subst (asm) exchange_loop.simps) (simp split: option.splits)
  then consider (hit) "?run = Some (Inr (Some (msg, t)))"
    | (again) err where "?run = Some (Inl err)" "match_limit E m \<and> is_rejection err"
        "exchange_loop E r sched ctx message options (map_option fst (dm_rule m)) md' = Some (Raced (Inr (Some (msg, t))))"
    using 1(2) mt by (subst (asm) exchange_loop.simps) (auto split: option.splits sum.splits if_splits)
  then show ?case
  proof cases
    case hit
    from run_exchange_source [OF hit] 1(3,4) mt show ?thesis by blast
  next
    case (again err)
    then obtain j rule where j: "dm_rule m = Some (j, rule)" "WithAddressLimit (dv_hasCIDR E) rule"
      by (auto simp: match_limit_def split: option.splits)
    have "exchange_round E r sched ctx message options metadata0 (map_option fst (dm_rule m)) md'"
      using next_round [OF 1(3) mt j again(1)] again(2) j(1) by simp
    from 1(1) [OF mt [symmetric] refl nr again(1) refl again(2,3) this 1(4)] fr show ?thesis by metis
  qed
qed

section \<open>Address limits\<close>

text \<open>
  What the router relies on when it hands the client a check: a message with records comes
  back only if the transport gave an answer to the query that is sent for it whose addresses pass the check, and the
  message is made from this answer.
\<close>

locale checked_client =
  fixes D :: dns_lib
    and exchange :: "query_ctx \<Rightarrow> dns_transport \<Rightarrow> dns_msg \<Rightarrow> dns_query_options \<Rightarrow> (addr list \<Rightarrow> bool) option \<Rightarrow> dns_msg option result"
    and sent :: "query_ctx \<Rightarrow> dns_query_options \<Rightarrow> dns_msg \<Rightarrow> dns_msg"
  assumes checked: "exchange ctx t message options (Some check) = Inr (Some response) \<Longrightarrow> dm_Answer response \<noteq> [] \<Longrightarrow>
    dm_Question message = question # qs \<Longrightarrow>
    \<exists>upstream. dt_Exchange t (ctx\<lparr>qc_transportTag := Some (sv_Tag t)\<rparr>) (sent ctx options message) = Inr upstream \<and>
      response = returned_message D options question (sent ctx options message) upstream \<and> check (MessageToAddresses D upstream)"
begin

lemma limited_answer:
  assumes "dv_Exchange E = exchange" and "dm_Question message = question # qs"
    and "exchange_loop E r sched ctx message options None metadata = Some (Raced (Inr (Some (response, t))))"
    and "\<forall>i. honest (sched i)" and "\<not> mc_IgnoreDestinationIPCIDRMatch metadata" and "dm_Answer response \<noteq> []"
  shows "\<exists>ruleIndex md m md' dnsOptions options'.
    exchange_round E r sched ctx message options metadata ruleIndex md \<and>
    matchDNS E r True ruleIndex (isAddressQuery message) md options = (m, md', dnsOptions) \<and>
    ResetRuleCache md = ResetRuleCache metadata \<and> asked_with E r m dnsOptions t options' \<and>
    (\<forall>j rule. dm_rule m = Some (j, rule) \<longrightarrow> WithAddressLimit (dv_hasCIDR E) rule \<longrightarrow>
       rule = dx_rules r ! j \<and>
       (\<exists>upstream. dt_Exchange t (ctx\<lparr>qc_metadata := Some md, qc_transportTag := Some (sv_Tag t)\<rparr>)
            (sent (ctx\<lparr>qc_metadata := Some md\<rparr>) options' message) = Inr upstream \<and>
          response = returned_message D options' question (sent (ctx\<lparr>qc_metadata := Some md\<rparr>) options' message) upstream \<and>
          fst (DNSRule_MatchAddressLimit (dv_lib E) (dv_runtime E) (dv_heap E) rule
            ((ResetRuleCache metadata)\<lparr>mc_DestinationAddresses := MessageToAddresses D upstream\<rparr>))))"
proof -
  from exchange_loop_source [OF assms(3) first_round assms(4,5)] obtain ruleIndex md m md' dnsOptions options' where
    rd: "exchange_round E r sched ctx message options metadata ruleIndex md"
    and mt: "matchDNS E r True ruleIndex (isAddressQuery message) md options = (m, md', dnsOptions)"
    and md: "ResetRuleCache md = ResetRuleCache metadata"
    and t: "asked_with E r m dnsOptions t options'"
    and ex: "dv_Exchange E (ctx\<lparr>qc_metadata := Some md\<rparr>) t message options' (match_check E m md) = Inr (Some response)"
    by blast
  have "rule = dx_rules r ! j \<and> (\<exists>upstream. dt_Exchange t (ctx\<lparr>qc_metadata := Some md, qc_transportTag := Some (sv_Tag t)\<rparr>)
            (sent (ctx\<lparr>qc_metadata := Some md\<rparr>) options' message) = Inr upstream \<and>
          response = returned_message D options' question (sent (ctx\<lparr>qc_metadata := Some md\<rparr>) options' message) upstream \<and>
          fst (DNSRule_MatchAddressLimit (dv_lib E) (dv_runtime E) (dv_heap E) rule
            ((ResetRuleCache metadata)\<lparr>mc_DestinationAddresses := MessageToAddresses D upstream\<rparr>)))"
    if j: "dm_rule m = Some (j, rule)" "WithAddressLimit (dv_hasCIDR E) rule" for j rule
  proof
    show "rule = dx_rules r ! j" by (rule matchDNS_index(3) [OF mt j(1)])
    obtain check where ch: "match_check E m md = Some check"
        "\<And>as. check as = fst (DNSRule_MatchAddressLimit (dv_lib E) (dv_runtime E) (dv_heap E) rule ((ResetRuleCache metadata)\<lparr>mc_DestinationAddresses := as\<rparr>))"
      using j by (simp add: match_check_def match_limit_def response_check_def md)
    from checked [OF ex [unfolded assms(1) ch(1)] assms(6,2)] show "\<exists>upstream. dt_Exchange t (ctx\<lparr>qc_metadata := Some md, qc_transportTag := Some (sv_Tag t)\<rparr>)
            (sent (ctx\<lparr>qc_metadata := Some md\<rparr>) options' message) = Inr upstream \<and>
          response = returned_message D options' question (sent (ctx\<lparr>qc_metadata := Some md\<rparr>) options' message) upstream \<and>
          fst (DNSRule_MatchAddressLimit (dv_lib E) (dv_runtime E) (dv_heap E) rule
            ((ResetRuleCache metadata)\<lparr>mc_DestinationAddresses := MessageToAddresses D upstream\<rparr>))"
      by (simp add: ch(2))
  qed
  with rd mt md t show ?thesis by blast
qed

end

text \<open>The client without its cache keeps the contract. (A cached answer is not checked again.)\<close>

definition uncached_exchange ::
  "('s, 'r) client_env \<Rightarrow> int \<Rightarrow> int \<Rightarrow> ('s, 'r) dns_client \<Rightarrow> query_ctx \<Rightarrow> dns_transport \<Rightarrow> dns_msg \<Rightarrow>
   dns_query_options \<Rightarrow> (addr list \<Rightarrow> bool) option \<Rightarrow> dns_msg option result" where
  "uncached_exchange CE now later c ctx transport message options check =
     (case fst (Client_Exchange CE now later ctx transport message options check (c\<lparr>dc_disableCache := True\<rparr>)) of
        Inl e \<Rightarrow> Inl e | Inr response \<Rightarrow> Inr (Some response))"

lemma sent_message_uncached [simp]: "sent_message (c\<lparr>dc_disableCache := True\<rparr>) = sent_message c"
  by (simp add: fun_eq_iff sent_message_def resolveClientSubnet_def Let_def split: option.split)

lemma uncached_checked:
  assumes "uncached_exchange CE now later c ctx t message options (Some check) = Inr (Some response)"
    and "dm_Answer response \<noteq> []" and "dm_Question message = question # qs"
  shows "\<exists>upstream. dt_Exchange t (ctx\<lparr>qc_transportTag := Some (sv_Tag t)\<rparr>) (sent_message c ctx options message) = Inr upstream \<and>
    response = returned_message (ce_lib CE) options question (sent_message c ctx options message) upstream \<and>
    check (MessageToAddresses (ce_lib CE) upstream)"
proof -
  let ?c = "c\<lparr>dc_disableCache := True\<rparr>"
  obtain c1 where e: "Client_Exchange CE now later ctx t message options (Some check) ?c = (Inr response, c1)"
    using assms(1) by (auto simp: uncached_exchange_def split: sum.splits) (metis prod.collapse)
  have "dm_Answer (FixedResponseStatus message n) = []" for n
    by (simp add: FixedResponseStatus_def fixed_header_def zero_dns_msg_def)
  with e assms(2,3) have st: "\<not> (q_Qtype question = TypeA \<and> qo_Strategy options = DomainStrategyIPv6Only)"
    "\<not> (q_Qtype question = TypeAAAA \<and> qo_Strategy options = DomainStrategyIPv4Only)"
    by (auto simp: Client_Exchange_def)
  obtain sub where "exchange_upstream CE later ctx t question (sent_message c ctx options message) options (Some check) True sub ?c = (Inr response, c1)"
    using exchange_sent [OF assms(3) st, of CE now later ctx t "Some check" ?c] e by (auto simp: exchange_cached_def)
  from upstream_checked [OF this] show ?thesis by blast
qed

interpretation uncached: checked_client "ce_lib CE" "uncached_exchange CE now later c" "sent_message c" for CE now later c
  by unfold_locales (rule uncached_checked)

text \<open>C7 (limited_answer_in_limit): with a client that does not cache, and whatever the order in
  which the queries come back, an answer with records that a race returns for a query comes
  from a transport of the rule that its round selects (or from the default one): the first round looks for a matching rule from the start, a later one
  after the rule with an address limit whose race was rejected, all with the metadata of the query. When the selected
  rule has an address limit, the transport has answered the query of this round, the returned message is made from its answer, and the
  answer is within the limit: the rule matches the metadata with the addresses of the answer as its destination.\<close>

theorem limited_answer_in_limit:
  assumes "dv_Exchange E = uncached_exchange CE now later c" and "dm_Question message = [question]"
    and "exchange_loop E r sched ctx message options None (question_metadata E ctx question) = Some (Raced (Inr (Some (response, t))))"
    and "\<forall>i. honest (sched i)" and "\<not> mc_IgnoreDestinationIPCIDRMatch (question_metadata E ctx question)"
    and "dm_Answer response \<noteq> []"
  shows "\<exists>ruleIndex md m md' dnsOptions options'.
    exchange_round E r sched ctx message options (question_metadata E ctx question) ruleIndex md \<and>
    matchDNS E r True ruleIndex (isAddressQuery message) md options = (m, md', dnsOptions) \<and>
    ResetRuleCache md = ResetRuleCache (question_metadata E ctx question) \<and> asked_with E r m dnsOptions t options' \<and>
    (\<forall>j rule. dm_rule m = Some (j, rule) \<longrightarrow> WithAddressLimit (dv_hasCIDR E) rule \<longrightarrow>
       rule = dx_rules r ! j \<and>
       (\<exists>upstream. dt_Exchange t (ctx\<lparr>qc_metadata := Some md, qc_transportTag := Some (sv_Tag t)\<rparr>)
            (sent_message c (ctx\<lparr>qc_metadata := Some md\<rparr>) options' message) = Inr upstream \<and>
          response = returned_message (ce_lib CE) options' question (sent_message c (ctx\<lparr>qc_metadata := Some md\<rparr>) options' message) upstream \<and>
          fst (DNSRule_MatchAddressLimit (dv_lib E) (dv_runtime E) (dv_heap E) rule
            ((ResetRuleCache (question_metadata E ctx question))
               \<lparr>mc_DestinationAddresses := MessageToAddresses (ce_lib CE) upstream\<rparr>))))"
  by (rule uncached.limited_answer [OF assms])

section \<open>A stale error\<close>

text \<open>Remark (lookup_predefined_after_rejection_fails): when a rule with an address limit fails and
  the next rule that matches has a predefined answer, the lookup returns the addresses of
  the predefined answer together with the error of the first rule, so the caller takes it
  for a failure. (The same query through \<^verbatim>\<open>Exchange\<close> gets the predefined answer.)\<close>

theorem lookup_predefined_after_rejection_fails:
  assumes "matchDNS E r False None True metadata options = (m1, metadata1, options1)"
    and "lookup_reply E r now domain m1 [] None = None" and "match_limit E m1"
    and "run_lookup E r (sched 0) (ctx\<lparr>qc_metadata := Some metadata\<rparr>) m1 domain options1 (match_check E m1 metadata) = Some (Inl err)"
    and "matchDNS E r False (map_option fst (dm_rule m1)) True metadata1 options = (m2, metadata2, options2)"
    and "dm_rule m2 = Some (j, rule)" and "dr_action rule = Some (RuleActionPredefined action)"
    and "pd_Rcode action = RcodeSuccess"
  shows "lookup_loop E r now sched ctx domain options None metadata [] None =
    Some (Looked (predefined_addresses (dv_dns E) action)
      (Some (ECause (ECause err (''lookup '' @ domain)) (''lookup '' @ domain))), r)"
proof -
  have "lookup_loop E r now sched ctx domain options (map_option fst (dm_rule m1)) metadata1 [] (Some (ECause err (''lookup '' @ domain))) =
      Some (Looked (predefined_addresses (dv_dns E) action)
        (Some (ECause (ECause err (''lookup '' @ domain)) (''lookup '' @ domain))), r)"
    using assms(5-8) by (subst lookup_loop.simps) (simp add: lookup_reply_def printResult_def)
  with assms(1-4) show ?thesis
    by (subst lookup_loop.simps) (simp add: next_index_def printResult_def)
qed

section \<open>An example\<close>

text \<open>Two rules: answers of the first must be private addresses, the second has a predefined
  answer.\<close>

definition private_rule :: "rule_act \<Rightarrow> rule_act dns_rule" where
  "private_rule a = DefaultDNSRule ((empty_rule False)\<lparr>
     ar_destinationIPCIDRItems := [Leaf (IPIsPrivateItem (NewIPIsPrivateItem False))],
     ar_allItems := [Leaf (IPIsPrivateItem (NewIPIsPrivateItem False))]\<rparr>) a"

definition route_to :: "string list \<Rightarrow> rule_action" where
  "route_to tags = RuleActionDNSRoute \<lparr>dr_Servers = tags, dr_FallbackServers = [], dr_UpstreamTimeout = 0,
     dr_FallbackTimeout = 0, dr_FallbackGrace = 0, dr_Options = \<lparr>dr_Strategy = 0, dr_DisableCache = False,
     dr_RewriteTTL = None, dr_ClientSubnet = NoPrefix, dr_ClientSubnetFromInbound = None\<rparr>\<rparr>"

definition sample_predefined :: predefined_action where
  "sample_predefined = \<lparr>pd_Rcode = 0, pd_Answer = [sample_record ''a.''], pd_Ns = [], pd_Extra = []\<rparr>"

definition sample_dns_router :: "unit dns_router" where
  "sample_dns_router = (NewDNSRouter 0 0 0 0 [] None)\<lparr>dx_rules := [private_rule (Some (route_to [''s''])),
     DefaultDNSRule (empty_rule False) (Some (RuleActionPredefined sample_predefined))]\<rparr>"

definition private_answer :: dns_msg where
  "private_answer = FixedResponse 7 (sample_question ''a.'') [IPv4 0] 60"

definition sample_dns_env :: "addr list result \<Rightarrow> unit dns_env" where
  "sample_dns_env lookup = \<lparr>dv_lib = sample_lib, dv_runtime = sample_runtime, dv_heap = (\<lambda>_. []), dv_hasCIDR = (\<lambda>_. False),
     dv_dns = sample_dns_lib,
     dv_Transport = (\<lambda>tag. if tag = ''s'' then Some (sample_transport ''s'' (Inr private_answer)) else None),
     dv_Default = None, dv_sharedCache = True,
     dv_Exchange = uncached_exchange sample_client_env 0 0 sample_client,
     dv_Lookup = (\<lambda>_ _ _ _ _. lookup), dv_Errors = (\<lambda>es. case es of [] \<Rightarrow> None | e # _ \<Rightarrow> Some e),
     dv_ErrDrop = ENew ''drop'', dv_AddMapping = (\<lambda>_ _ _ m. m), dv_GetMapping = (\<lambda>_ _. None)\<rparr>"

definition in_order_of_start :: "nat \<Rightarrow> 'q schedule" where
  "in_order_of_start i qs = map Result qs"

lemma sample_arrivals: "arrivals qs (in_order_of_start i qs)"
  by (auto simp: arrivals_def in_order_of_start_def)

lemmas sample_rule_defs = private_rule_def route_to_def sample_predefined_def sample_dns_router_def NewDNSRouter_def
  sample_dns_env_def empty_rule_def

definition sample_match :: dns_match where
  "sample_match = \<lparr>dm_transports = [sample_transport ''s'' (Inr private_answer)], dm_fallbackTransports = [],
     dm_upstreamTimeout = 0, dm_fallbackTimeout = 0, dm_fallbackGrace = 0,
     dm_rule = Some (0, private_rule (Some (route_to [''s''])))\<rparr>"

lemma private_rule_match:
  "fst (DNSRule_Match sample_lib sample_runtime H (private_rule a) c)" "WithAddressLimit hc (private_rule a)"
  by (simp_all add: private_rule_def empty_rule_def DefaultDNSRule_Match_def abstractDefaultRule_Match_def
      match_sourceAddress_def match_sourcePort_def match_destinationAddress_def match_destinationIPCIDR_def
      match_destinationPort_def leaf_item_match_def Let_def)

lemma sample_matchDNS:
  "\<exists>md. matchDNS (sample_dns_env l) sample_dns_router allow None True metadata zero_query_options =
     (sample_match, md, zero_query_options)"
proof -
  have p: "pick_transports (dv_Transport (sample_dns_env l)) allow [] [''s''] = ([sample_transport ''s'' (Inr private_answer)], False)"
    by (simp add: sample_dns_env_def sample_transport_def DNSTypeFakeIP_def)
  have a: "match_action (sample_dns_env l) sample_dns_router allow (0, private_rule (Some (route_to [''s'']))) zero_query_options =
      (Some sample_match, zero_query_options)"
    using p by (simp add: match_action_def private_rule_def route_to_def sample_match_def route_match_def
        sample_dns_router_def NewDNSRouter_def first_nonzero_def Let_def apply_single_legacy_def apply_legacy_def
        sample_transport_def apply_dns_options_def zero_query_options_def strategy_defs)
  obtain md where "DNSRule_Match sample_lib sample_runtime (\<lambda>_. []) (private_rule (Some (route_to [''s'']))) (ResetRuleCache metadata) = (True, md)"
    using private_rule_match(1) [of "\<lambda>_. []"] by (metis prod.collapse)
  with a show ?thesis
    by (auto simp: matchDNS_def next_index_def sample_dns_router_def sample_dns_env_def)
qed

lemma sample_matchDNS_next:
  "\<exists>m md. matchDNS (sample_dns_env l) sample_dns_router allow (Some 0) True metadata zero_query_options = (m, md, zero_query_options) \<and>
     dm_rule m = Some (1, DefaultDNSRule (empty_rule False) (Some (RuleActionPredefined sample_predefined)))"
  by (simp add: matchDNS_def next_index_def sample_dns_router_def match_action_def no_transport_match_def
      DefaultDNSRule_Match_def abstractDefaultRule_Match_def empty_rule_def)

theorem lookup_predefined_after_rejection_fails_witness:
  "\<exists>e. lookup_loop (sample_dns_env (Inl ErrResponseRejected)) sample_dns_router 0 in_order_of_start sample_ctx ''a''
     zero_query_options None new_context [] None = Some (Looked [IPv4 0x01020304] (Some e), sample_dns_router)"
proof -
  let ?E = "sample_dns_env (Inl ErrResponseRejected)"
  obtain md1 where m1: "matchDNS ?E sample_dns_router False None True new_context zero_query_options = (sample_match, md1, zero_query_options)"
    using sample_matchDNS by blast
  obtain m2 md2 where m2: "matchDNS ?E sample_dns_router False (map_option fst (dm_rule sample_match)) True md1 zero_query_options = (m2, md2, zero_query_options)"
      "dm_rule m2 = Some (1, DefaultDNSRule (empty_rule False) (Some (RuleActionPredefined sample_predefined)))"
    using sample_matchDNS_next [of "Inl ErrResponseRejected" False md1] by (auto simp: sample_match_def)
  have pa: "predefined_addresses (dv_dns ?E) sample_predefined = [IPv4 0x01020304]"
    by (simp add: predefined_addresses_def sample_predefined_def sample_record_def sample_dns_env_def sample_dns_lib_def
        AddrFrom4_def bytes_word_def)
  have "lookup_reply ?E sample_dns_router 0 ''a'' sample_match [] None = None" "match_limit ?E sample_match"
    "run_lookup ?E sample_dns_router (in_order_of_start 0) (sample_ctx\<lparr>qc_metadata := Some new_context\<rparr>) sample_match ''a''
       zero_query_options (match_check ?E sample_match new_context) = Some (Inl ErrResponseRejected)"
    by (simp_all add: lookup_reply_def sample_match_def match_limit_def private_rule_match(2) run_lookup_def uses_fallback_def
        lookupRacer_def in_order_of_start_def lookup_query_def)
      (simp_all add: private_rule_def route_to_def sample_dns_env_def)
  from lookup_predefined_after_rejection_fails [where sched = in_order_of_start, OF m1 this m2]
  show ?thesis using pa by (auto simp: sample_predefined_def rcode_defs)
qed

theorem dns_query_returns_witness:
  "fst (Router_Exchange (sample_dns_env (Inr [])) in_order_of_start sample_ctx (sample_query 7) zero_query_options sample_dns_router) \<noteq> None"
  by (rule dns_query_returns [where sched' = in_order_of_start and now = 0 and domain = "''a''", THEN conjunct1])
    (simp_all add: sample_arrivals)

text \<open>A race of a failure, a name error and an answer, in that order.\<close>

definition race_env :: "unit dns_env" where
  "race_env = (sample_dns_env (Inr []))\<lparr>dv_Exchange := (\<lambda>_ t _ _ _.
     if sv_Tag t = ''x'' then Inl (ENew ''timeout'')
     else if sv_Tag t = ''y'' then Inr (Some (FixedResponseStatus (sample_query 7) RcodeNameError))
     else Inr (Some (sample_answer 60)))\<rparr>"

theorem race_outcome_witness:
  "map_option (map_sum id (map_option fst)) (exchangeRacer race_env sample_dns_router (in_order_of_start 0) sample_ctx
     [sample_transport ''x'' (Inl ErrInvalid), sample_transport ''y'' (Inl ErrInvalid), sample_transport ''z'' (Inl ErrInvalid)]
     (sample_query 7) zero_query_options None) = Some (Inr (Some (sample_answer 60)))"
proof -
  let ?ts = "[sample_transport ''x'' (Inl ErrInvalid), sample_transport ''y'' (Inl ErrInvalid), sample_transport ''z'' (Inl ErrInvalid)]"
  let ?qs = "map (exchange_query race_env sample_dns_router sample_ctx (sample_query 7) zero_query_options None) ?ts"
  have "exchangeRacer race_env sample_dns_router (in_order_of_start 0) sample_ctx ?ts (sample_query 7) zero_query_options None =
      Some (race_result (dv_Errors race_env) ?qs)"
    by (rule race_outcome) (simp_all add: in_order_of_start_def)
  then show ?thesis
    by (simp add: race_result_def race_messages_def map_filter_simps exchange_query_def race_env_def sample_transport_def
        FixedResponseStatus_def fixed_header_def sample_answer_def FixedResponse_def rcode_defs)
qed

theorem lookup_never_asks_fakeip_witness:
  "sv_Type (sample_transport ''s'' (Inr private_answer)) \<noteq> DNSTypeFakeIP"
proof -
  let ?E = "sample_dns_env (Inr [])"
  obtain md where m: "matchDNS ?E sample_dns_router False None True new_context zero_query_options = (sample_match, md, zero_query_options)"
    using sample_matchDNS by blast
  have "dv_Default ?E = TransportManager_Default (NewTransportManager [])"
    by (simp add: sample_dns_env_def TransportManager_Default_def NewTransportManager_def)
  from lookup_never_asks_fakeip [OF transports_created.new this m] show ?thesis by (simp add: sample_match_def)
qed

lemma private_answer_addresses: "MessageToAddresses (ce_lib sample_client_env) private_answer = [IPv4 0]"
proof -
  have "AddrFrom4 (word_bytes 4 (0::u32)) = IPv4 0" by simp
  then show ?thesis
    by (simp add: MessageToAddresses_def private_answer_def sample_client_defs answer_addresses_def Addr_Is4_def
        dns_type_defs sample_dns_lib_def)
qed

lemma sample_uncached:
  assumes "check [IPv4 0]" and "qc_transportTag ctx = None"
  shows "uncached_exchange sample_client_env 0 0 sample_client ctx (sample_transport ''s'' (Inr private_answer)) (sample_query 7)
    zero_query_options (Some check) = Inr (Some private_answer)"
proof -
  let ?c = "sample_client\<lparr>dc_disableCache := True\<rparr>"
  have sub: "resolveClientSubnet ?c ctx zero_query_options = NoPrefix"
    by (simp add: resolveClientSubnet_def clientSubnetFromInbound_def sample_client_defs)
  have "\<not> response_rejected (ce_lib sample_client_env) (Some check) private_answer"
    using assms(1) by (simp add: response_rejected_def private_answer_addresses)
      (simp add: private_answer_def sample_client_defs Addr_Is4_def dns_type_defs)
  moreover have "finish_response (ce_lib sample_client_env) (sample_query 7) 60
      (remove_hints (sample_question ''a.'') (qo_Strategy zero_query_options) private_answer) = private_answer"
    by (subst finish_response_plain [OF sample_edns_laws])
      (simp_all add: private_answer_def sample_client_defs remove_hints_def strategy_defs dns_type_defs set_ttls_def map_records_def
        Addr_Is4_def)
  moreover have "exchange_ttl zero_query_options (remove_hints (sample_question ''a.'') (qo_Strategy zero_query_options) private_answer) = 60"
    by (simp add: exchange_ttl_def private_answer_def sample_client_defs remove_hints_def response_ttl_def records_ttl_def
        message_records_def lower_ttl_def strategy_defs dns_type_defs Addr_Is4_def)
  ultimately have "handle_response sample_client_env 0 ''s'' (sample_question ''a.'') (sample_query 7) zero_query_options (Some check) True sub'
      private_answer ?c = (Inr private_answer, ?c)" for sub'
    by (simp add: handle_response_def Let_def)
  then show ?thesis using sub assms(2)
    by (simp add: uncached_exchange_def Client_Exchange_def exchange_cached_def exchange_upstream_def Let_def
        sample_query_def sample_transport_def)
      (simp add: zero_query_options_def strategy_defs)
qed

lemma private_address_in_limit:
  assumes "\<not> mc_IgnoreDestinationIPCIDRMatch metadata" and "mc_Destination metadata = no_socksaddr"
  shows "fst (DNSRule_MatchAddressLimit sample_lib sample_runtime H (private_rule a)
    ((ResetRuleCache metadata)\<lparr>mc_DestinationAddresses := [IPv4 0]\<rparr>))"
  using assms by (simp add: private_rule_def empty_rule_def abstractDefaultRule_Match_def ResetRuleCache_def Let_def
      match_sourceAddress_def match_sourcePort_def match_destinationAddress_def match_destinationIPCIDR_def
      match_destinationPort_def leaf_item_match_def NewIPIsPrivateItem_def IPIsPrivateItem_Match_def no_socksaddr_def
      Addr_IsValid_def sample_lib_def)

lemma sample_limited_exchange:
  assumes "\<not> mc_IgnoreDestinationIPCIDRMatch metadata" and "mc_Destination metadata = no_socksaddr"
  shows "exchange_loop (sample_dns_env (Inr [])) sample_dns_router in_order_of_start sample_ctx (sample_query 7) zero_query_options None
     metadata = Some (Raced (Inr (Some (private_answer, sample_transport ''s'' (Inr private_answer)))))"
proof -
  let ?E = "sample_dns_env (Inr [])"
  obtain md where m: "matchDNS ?E sample_dns_router True None True metadata zero_query_options = (sample_match, md, zero_query_options)"
    using sample_matchDNS by blast
  have q: "isAddressQuery (sample_query 7)" by (simp add: isAddressQuery_def sample_client_defs dns_type_defs)
  have nr: "rule_reply ?E sample_match (sample_query 7) = None"
    by (simp add: rule_reply_def sample_match_def private_rule_def route_to_def)
  have opts: "applyServerQueryOptions sample_dns_router t (primary_options ?E sample_dns_router sample_match zero_query_options) = zero_query_options" for t
    by (simp add: applyServerQueryOptions_def primary_options_def sample_match_def disable_cache_if_def default_strategy_def
        apply_single_legacy_def apply_legacy_def sample_transport_def sample_dns_router_def NewDNSRouter_def zero_query_options_def
        strategy_defs)
  have env: "dv_lib ?E = sample_lib" "dv_runtime ?E = sample_runtime" "dv_Exchange ?E = uncached_exchange sample_client_env 0 0 sample_client"
    by (simp_all add: sample_dns_env_def)
  obtain check where ch: "match_check ?E sample_match metadata = Some check" "check [IPv4 0]"
    using private_address_in_limit [OF assms]
    by (simp add: match_check_def response_check_def match_limit_def sample_match_def private_rule_match(2) env)
  have sm: "dm_transports sample_match = [sample_transport ''s'' (Inr private_answer)]" "dm_fallbackTransports sample_match = []"
    by (simp_all add: sample_match_def)
  have rc: "dm_Rcode private_answer = RcodeSuccess" by (simp add: private_answer_def FixedResponse_def fixed_header_def rcode_defs)
  have "run_exchange ?E sample_dns_router (in_order_of_start 0) (sample_ctx\<lparr>qc_metadata := Some metadata\<rparr>) sample_match (sample_query 7)
      zero_query_options (match_check ?E sample_match metadata) =
    Some (Inr (Some (private_answer, sample_transport ''s'' (Inr private_answer))))"
    using sample_uncached [of check, OF ch(2)] rc opts sm
    by (simp add: ch(1) run_exchange_def uses_fallback_def exchangeRacer_def in_order_of_start_def
        exchange_query_def env sample_ctx_def)
  then show ?thesis using m nr q by (subst exchange_loop.simps) (simp add: next_index_def)
qed

text \<open>The answer is the one of a transport that a round of the query has selected.\<close>

theorem limited_answer_in_limit_witness:
  "\<exists>ruleIndex md m md' dnsOptions options'.
     exchange_round (sample_dns_env (Inr [])) sample_dns_router in_order_of_start sample_ctx (sample_query 7) zero_query_options
       (question_metadata (sample_dns_env (Inr [])) sample_ctx (sample_question ''a.'')) ruleIndex md \<and>
     matchDNS (sample_dns_env (Inr [])) sample_dns_router True ruleIndex (isAddressQuery (sample_query 7)) md zero_query_options =
       (m, md', dnsOptions) \<and>
     asked_with (sample_dns_env (Inr [])) sample_dns_router m dnsOptions (sample_transport ''s'' (Inr private_answer)) options'"
proof -
  let ?E = "sample_dns_env (Inr [])" and ?md = "question_metadata (sample_dns_env (Inr [])) sample_ctx (sample_question ''a.'')"
  have md: "\<not> mc_IgnoreDestinationIPCIDRMatch ?md" "mc_Destination ?md = no_socksaddr"
    by (simp_all add: question_metadata_def query_metadata_def sample_ctx_def new_context_def Let_def)
  have e: "dv_Exchange ?E = uncached_exchange sample_client_env 0 0 sample_client" by (simp add: sample_dns_env_def)
  have q: "dm_Question (sample_query 7) = [sample_question ''a.'']" by (simp add: sample_query_def)
  have h: "\<forall>i. honest (in_order_of_start i)"
    by (auto simp: honest_def in_order_of_start_def arrivals_def)
  have "dm_Answer private_answer \<noteq> []"
    by (simp add: private_answer_def FixedResponse_def address_record_def Addr_Is4_def sample_question_def dns_type_defs)
  from limited_answer_in_limit [OF e q sample_limited_exchange [OF md] h md(1) this] show ?thesis by blast
qed

end
