(* ===== verification/Outbound_Groups.thy ===== *)
theory Outbound_Groups
  imports Rule_Action Outbound_Manager
begin

text \<open>
  The outbound groups of \<^verbatim>\<open>protocol/group\<close>: the selector, and the groups that test their
  outbounds (URL test, fallback, load balance) with the health checker of
  \<^verbatim>\<open>healthcheck.go\<close>; the history of tests of \<^verbatim>\<open>common/urltest\<close> and the interrupt group of
  \<^verbatim>\<open>common/interrupt\<close>.

  Dialing is a function argument: what each outbound answers in the call at hand. A
  connection is a value of a type parameter. Goroutines that a call starts are returned as a
  list of tasks. Times are integers of nanoseconds. The other outbounds as a group sees them
  are a \<open>group_world\<close>: their networks and, when they are groups themselves, what they have
  selected. Pointers to outbounds are compared by \<^const>\<open>sv_id\<close>.
\<close>

section \<open>Outbounds as members of a group\<close>

record group_world =
  gw_Network :: "outbound \<Rightarrow> string list"
  gw_Now :: "outbound \<Rightarrow> string option"
  gw_NetworkName :: "string \<Rightarrow> string"

definition NetworkTCP :: string where "NetworkTCP = ''tcp''"
definition NetworkUDP :: string where "NetworkUDP = ''udp''"

definition RealTag :: "group_world \<Rightarrow> outbound \<Rightarrow> string" where
  "RealTag W detour =
     (case gw_Now W detour of
        None \<Rightarrow> sv_Tag detour
      | Some selectedTag \<Rightarrow> if selectedTag \<noteq> [] then selectedTag else sv_Tag detour)"

definition supports :: "group_world \<Rightarrow> string \<Rightarrow> outbound \<Rightarrow> bool" where
  "supports W network detour \<longleftrightarrow> network \<in> set (gw_Network W detour)"

definition same_outbound :: "outbound option \<Rightarrow> outbound \<Rightarrow> bool" where
  "same_outbound previous detour \<longleftrightarrow> (case previous of None \<Rightarrow> False | Some p \<Rightarrow> sv_id p = sv_id detour)"

text \<open>The loop over the tags with which every group starts.\<close>

definition group_outbounds :: "(string \<Rightarrow> outbound option) \<Rightarrow> string list \<Rightarrow> outbound list result" where
  "group_outbounds lookup tags =
     traverse (\<lambda>i tag. case lookup tag of
         None \<Rightarrow> Inl (ENew (''outbound '' @ itoa i @ '' not found: '' @ tag))
       | Some detour \<Rightarrow> Inr detour) tags"

section \<open>History and interruption\<close>

record url_history =
  uh_Time :: int
  uh_Delay :: u16

type_synonym history = "string \<Rightarrow> url_history option"

definition NewHistoryStorage :: history where
  "NewHistoryStorage = (\<lambda>_. None)"

definition LoadURLTestHistory :: "history \<Rightarrow> string \<Rightarrow> url_history option" where
  "LoadURLTestHistory h tag = h tag"

definition DeleteURLTestHistory :: "string \<Rightarrow> history \<Rightarrow> history" where
  "DeleteURLTestHistory tag h = h(tag := None)"

definition StoreURLTestHistory :: "string \<Rightarrow> url_history \<Rightarrow> history \<Rightarrow> history" where
  "StoreURLTestHistory tag u h = h(tag := Some u)"

definition available :: "group_world \<Rightarrow> history \<Rightarrow> outbound \<Rightarrow> bool" where
  "available W h detour \<longleftrightarrow> LoadURLTestHistory h (RealTag W detour) \<noteq> None"

text \<open>An interrupt group: its connections in order, each with the flag that tells whether it
  comes from an inbound.\<close>

type_synonym 'c interrupt_group = "('c \<times> bool) list"

definition Group_NewConn :: "'c \<Rightarrow> bool \<Rightarrow> 'c interrupt_group \<Rightarrow> 'c interrupt_group" where
  "Group_NewConn conn isExternal g = g @ [(conn, isExternal)]"

text \<open>The connections it closes and those it keeps.\<close>

definition Group_Interrupt :: "bool \<Rightarrow> 'c interrupt_group \<Rightarrow> 'c list \<times> 'c interrupt_group" where
  "Group_Interrupt interruptExternalConnections g =
     (map fst (filter (\<lambda>(conn, isExternal). \<not> isExternal \<or> interruptExternalConnections) g),
      filter (\<lambda>(conn, isExternal). \<not> (\<not> isExternal \<or> interruptExternalConnections)) g)"

definition Conn_Close :: "'c \<Rightarrow> 'c interrupt_group \<Rightarrow> 'c interrupt_group" where
  "Conn_Close conn g = filter (\<lambda>(x, _). x \<noteq> conn) g"

section \<open>Selector\<close>

text \<open>The bucket of selections of the cache file; a failing write is an argument.\<close>

type_synonym selected_bucket = "string \<Rightarrow> string option"

definition LoadSelected :: "selected_bucket \<Rightarrow> string \<Rightarrow> string" where
  "LoadSelected db tag = (case db tag of None \<Rightarrow> [] | Some selected \<Rightarrow> selected)"

definition StoreSelected :: "error option \<Rightarrow> string \<Rightarrow> string \<Rightarrow> selected_bucket \<Rightarrow> error option \<times> selected_bucket" where
  "StoreSelected fault tag selected db =
     (case fault of Some e \<Rightarrow> (Some e, db) | None \<Rightarrow> (None, db(tag \<mapsto> selected)))"

record 'c selector =
  sl_Tag :: string
  sl_tags :: "string list"
  sl_defaultTag :: string
  sl_outbounds :: "string \<Rightarrow> outbound option"
  sl_selected :: "outbound option"
  sl_interruptGroup :: "'c interrupt_group"
  sl_interruptExternalConnections :: bool

definition NewSelector :: "string \<Rightarrow> string list \<Rightarrow> string \<Rightarrow> bool \<Rightarrow> 'c selector result" where
  "NewSelector tag outbounds defaultTag interruptExist =
     (if length outbounds = 0 then Inl (ENew ''missing tags'')
      else Inr \<lparr>sl_Tag = tag, sl_tags = outbounds, sl_defaultTag = defaultTag, sl_outbounds = (\<lambda>_. None),
                sl_selected = None, sl_interruptGroup = [], sl_interruptExternalConnections = interruptExist\<rparr>)"

definition Selector_Network :: "group_world \<Rightarrow> 'c selector \<Rightarrow> string list" where
  "Selector_Network W s = (case sl_selected s of None \<Rightarrow> [NetworkTCP, NetworkUDP] | Some o1 \<Rightarrow> gw_Network W o1)"

text \<open>The outbound the cache file remembers, if it is still a member.\<close>

definition cached_selection :: "selected_bucket option \<Rightarrow> 'c selector \<Rightarrow> outbound option" where
  "cached_selection cacheFile s =
     (if sl_Tag s = [] then None
      else (case cacheFile of
              None \<Rightarrow> None
            | Some db \<Rightarrow> (let selected = LoadSelected db (sl_Tag s) in
                           if selected \<noteq> [] then sl_outbounds s selected else None)))"

definition Selector_Start ::
  "(string \<Rightarrow> outbound option) \<Rightarrow> selected_bucket option \<Rightarrow> 'c selector \<Rightarrow> unit result \<times> 'c selector" where
  "Selector_Start lookup cacheFile s =
     (case group_outbounds lookup (sl_tags s) of
        Inl e \<Rightarrow> (Inl e, s)
      | Inr detours \<Rightarrow>
          (let s1 = s\<lparr>sl_outbounds := map_of (zip (sl_tags s) detours)\<rparr> in
           case cached_selection cacheFile s1 of
             Some detour \<Rightarrow> (Inr (), s1\<lparr>sl_selected := Some detour\<rparr>)
           | None \<Rightarrow>
               if sl_defaultTag s1 \<noteq> [] then
                 (case sl_outbounds s1 (sl_defaultTag s1) of
                    None \<Rightarrow> (Inl (ENew (''default outbound not found: '' @ sl_defaultTag s1)), s1)
                  | Some detour \<Rightarrow> (Inr (), s1\<lparr>sl_selected := Some detour\<rparr>))
               else (Inr (), s1\<lparr>sl_selected := sl_outbounds s1 (hd (sl_tags s1))\<rparr>)))"

definition Selector_Now :: "'c selector \<Rightarrow> string" where
  "Selector_Now s = (case sl_selected s of None \<Rightarrow> hd (sl_tags s) | Some o1 \<Rightarrow> sv_Tag o1)"

definition Selector_All :: "'c selector \<Rightarrow> string list" where
  "Selector_All s = sl_tags s"

text \<open>Result: whether the tag is a member, the connections closed, the cache file, the selector.\<close>

definition SelectOutbound ::
  "error option \<Rightarrow> string \<Rightarrow> selected_bucket option \<Rightarrow> 'c selector \<Rightarrow>
   bool \<times> 'c list \<times> selected_bucket option \<times> 'c selector" where
  "SelectOutbound fault tag cacheFile s =
     (case sl_outbounds s tag of
        None \<Rightarrow> (False, [], cacheFile, s)
      | Some detour \<Rightarrow>
          (let s1 = s\<lparr>sl_selected := Some detour\<rparr> in
           if same_outbound (sl_selected s) detour then (True, [], cacheFile, s1)
           else
             (let cacheFile' = (if sl_Tag s \<noteq> []
                                then map_option (\<lambda>db. snd (StoreSelected fault (sl_Tag s) tag db)) cacheFile else cacheFile)
              in case Group_Interrupt (sl_interruptExternalConnections s1) (sl_interruptGroup s1) of
                   (closed, g) \<Rightarrow> (True, closed, cacheFile', s1\<lparr>sl_interruptGroup := g\<rparr>))))"

definition Selector_DialContext ::
  "(outbound \<Rightarrow> 'c result) \<Rightarrow> bool \<Rightarrow> 'c selector \<Rightarrow> 'c result \<times> 'c selector" where
  "Selector_DialContext dial isExternal s =
     (case sl_selected s of
        None \<Rightarrow> (Inl (EPanic ''nil pointer dereference''), s)
      | Some o1 \<Rightarrow>
          (case dial o1 of
             Inl e \<Rightarrow> (Inl e, s)
           | Inr conn \<Rightarrow> (Inr conn, s\<lparr>sl_interruptGroup := Group_NewConn conn isExternal (sl_interruptGroup s)\<rparr>)))"

text \<open>Who serves a connection of an inbound: an outbound that handles connections itself, or the
  connection manager, dialing through the dialer it is given.\<close>

datatype 'd handler = HandledBy outbound | ConnectionManager 'd

definition Selector_NewConnectionEx ::
  "(outbound \<Rightarrow> bool) \<Rightarrow> 'c selector \<Rightarrow> outbound handler result" where
  "Selector_NewConnectionEx isHandler s =
     (case sl_selected s of
        None \<Rightarrow> Inl (EPanic ''nil pointer dereference'')
      | Some selected \<Rightarrow> if isHandler selected then Inr (HandledBy selected) else Inr (ConnectionManager selected))"

section \<open>Health checker\<close>

definition DefaultURLTestInterval :: duration where "DefaultURLTestInterval = 3 * 60 * Second"
definition DefaultURLTestIdleTimeout :: duration where "DefaultURLTestIdleTimeout = 30 * 60 * Second"
definition TCPTimeout :: duration where "TCPTimeout = 15 * Second"

text \<open>\<open>hc_ticker\<close> tells whether there is a ticker, \<open>hc_closed\<close> whether the channel is closed.\<close>

record health_checker =
  hc_outbounds :: "outbound list"
  hc_interval :: duration
  hc_idleTimeout :: duration
  hc_timeout :: duration
  hc_history :: history
  hc_checking :: bool
  hc_ticker :: bool
  hc_closed :: bool
  hc_started :: bool
  hc_lastActive :: int

definition newHealthChecker ::
  "history \<Rightarrow> outbound list \<Rightarrow> duration \<Rightarrow> duration \<Rightarrow> duration \<Rightarrow> health_checker result" where
  "newHealthChecker history outbounds interval0 idleTimeout0 timeout0 =
     (let interval = (if interval0 = 0 then DefaultURLTestInterval else interval0);
          idleTimeout = (if idleTimeout0 = 0 then DefaultURLTestIdleTimeout else idleTimeout0);
          timeout = (if timeout0 = 0 then TCPTimeout else timeout0)
      in if interval > idleTimeout then Inl (ENew ''interval must be less or equal than idle_timeout'')
         else Inr \<lparr>hc_outbounds = outbounds, hc_interval = interval, hc_idleTimeout = idleTimeout, hc_timeout = timeout,
                   hc_history = history, hc_checking = False, hc_ticker = False, hc_closed = False, hc_started = False,
                   hc_lastActive = 0\<rparr>)"

datatype task = CheckOutbounds bool | LoopCheck

definition Checker_PostStart :: "int \<Rightarrow> ('a health_checker_scheme) \<Rightarrow> task list \<times> 'a health_checker_scheme" where
  "Checker_PostStart now h = ([CheckOutbounds False], h\<lparr>hc_started := True, hc_lastActive := now\<rparr>)"

definition Checker_Touch :: "int \<Rightarrow> ('a health_checker_scheme) \<Rightarrow> task list \<times> 'a health_checker_scheme" where
  "Checker_Touch now h =
     (if \<not> hc_started h then ([], h)
      else if hc_ticker h then ([], h\<lparr>hc_lastActive := now\<rparr>)
      else ([LoopCheck], h\<lparr>hc_ticker := True\<rparr>))"

definition Checker_Close :: "('a health_checker_scheme) \<Rightarrow> unit result \<times> 'a health_checker_scheme" where
  "Checker_Close h =
     (if \<not> hc_ticker h then (Inr (), h)
      else if hc_closed h then (Inl (EPanic ''close of closed channel''), h)
      else (Inr (), h\<lparr>hc_closed := True\<rparr>))"

text \<open>The start of the loop and what it does when the ticker fires: the flag tells whether the
  outbounds are checked.\<close>

definition loop_begin :: "int \<Rightarrow> ('a health_checker_scheme) \<Rightarrow> bool \<times> 'a health_checker_scheme" where
  "loop_begin now h =
     (if now - hc_lastActive h > hc_interval h then (True, h\<lparr>hc_lastActive := now\<rparr>) else (False, h))"

definition loop_tick :: "int \<Rightarrow> ('a health_checker_scheme) \<Rightarrow> bool \<times> 'a health_checker_scheme" where
  "loop_tick now h =
     (if now - hc_lastActive h > hc_idleTimeout h then (False, h\<lparr>hc_ticker := False\<rparr>) else (True, h))"

text \<open>
  The tests of a check. Every real tag is tested at most once, so the order in which tests end
  does not matter and the model runs them in the order of the list. \<open>test\<close> is the delay and
  the time of its end, or the error; \<open>skipEmpty\<close> tells the two copies of the loop apart.
\<close>

fun test_outbounds ::
  "group_world \<Rightarrow> (string \<Rightarrow> outbound option) \<Rightarrow> (outbound \<Rightarrow> (u16 \<times> int) result) \<Rightarrow> int \<Rightarrow> bool \<Rightarrow> bool \<Rightarrow> duration \<Rightarrow>
   outbound list \<Rightarrow> string list \<Rightarrow> history \<Rightarrow> (string \<Rightarrow> u16 option) \<Rightarrow> history \<times> (string \<Rightarrow> u16 option)" where
  "test_outbounds W lookup test now skipEmpty force interval [] checked h result = (h, result)"
| "test_outbounds W lookup test now skipEmpty force interval (detour # detours) checked h result =
     (let tag = sv_Tag detour; realTag = RealTag W detour;
          continue = (\<lambda>checked h result. test_outbounds W lookup test now skipEmpty force interval detours checked h result)
      in if skipEmpty \<and> realTag = [] \<or> realTag \<in> set checked then continue checked h result
         else if \<not> force \<and> (case LoadURLTestHistory h realTag of None \<Rightarrow> False | Some u \<Rightarrow> now - uh_Time u < interval)
         then continue checked h result
         else (case lookup realTag of
                 None \<Rightarrow> continue (realTag # checked) h result
               | Some p \<Rightarrow>
                   (case test p of
                      Inl _ \<Rightarrow> continue (realTag # checked) (DeleteURLTestHistory realTag h) result
                    | Inr (t, ended) \<Rightarrow>
                        continue (realTag # checked)
                          (StoreURLTestHistory realTag \<lparr>uh_Time = ended, uh_Delay = t\<rparr> h) (result(tag \<mapsto> t)))))"

definition Checker_urlTest ::
  "group_world \<Rightarrow> (string \<Rightarrow> outbound option) \<Rightarrow> (outbound \<Rightarrow> (u16 \<times> int) result) \<Rightarrow> int \<Rightarrow> bool \<Rightarrow> bool \<Rightarrow>
   ('a health_checker_scheme) \<Rightarrow> (string \<Rightarrow> u16 option) \<times> bool \<times> 'a health_checker_scheme" where
  "Checker_urlTest W lookup test now skipEmpty force h =
     (if hc_checking h then ((\<lambda>_. None), False, h)
      else (case test_outbounds W lookup test now skipEmpty force (hc_interval h) (hc_outbounds h) [] (hc_history h) (\<lambda>_. None) of
              (history, result) \<Rightarrow> (result, True, h\<lparr>hc_history := history\<rparr>)))"

section \<open>URL test\<close>

text \<open>\<^verbatim>\<open>URLTestGroup\<close> has the fields of the health checker inlined.\<close>

record 'c urltest_group = health_checker +
  ug_tolerance :: u16
  ug_selectedTCP :: "outbound option"
  ug_selectedUDP :: "outbound option"
  ug_interruptGroup :: "'c interrupt_group"
  ug_interruptExternalConnections :: bool

definition NewURLTestGroup ::
  "history \<Rightarrow> outbound list \<Rightarrow> duration \<Rightarrow> u16 \<Rightarrow> duration \<Rightarrow> bool \<Rightarrow> 'c urltest_group result" where
  "NewURLTestGroup history outbounds interval0 tolerance0 idleTimeout0 interruptExist =
     (let interval = (if interval0 = 0 then DefaultURLTestInterval else interval0);
          tolerance = (if tolerance0 = 0 then 50 else tolerance0);
          idleTimeout = (if idleTimeout0 = 0 then DefaultURLTestIdleTimeout else idleTimeout0)
      in if interval > idleTimeout then Inl (ENew ''interval must be less or equal than idle_timeout'')
         else Inr \<lparr>hc_outbounds = outbounds, hc_interval = interval, hc_idleTimeout = idleTimeout, hc_timeout = TCPTimeout,
                   hc_history = history, hc_checking = False, hc_ticker = False, hc_closed = False, hc_started = False,
                   hc_lastActive = 0, ug_tolerance = tolerance, ug_selectedTCP = None, ug_selectedUDP = None,
                   ug_interruptGroup = [], ug_interruptExternalConnections = interruptExist\<rparr>)"

definition URLTest_Now :: "'c urltest_group \<Rightarrow> string" where
  "URLTest_Now g =
     (case ug_selectedTCP g of
        Some o1 \<Rightarrow> sv_Tag o1
      | None \<Rightarrow> (case ug_selectedUDP g of Some o1 \<Rightarrow> sv_Tag o1 | None \<Rightarrow> []))"

text \<open>The selected outbound of a network, if there is a test of it.\<close>

definition selected_for :: "string \<Rightarrow> 'c urltest_group \<Rightarrow> outbound option" where
  "selected_for network g = (if network = NetworkTCP then ug_selectedTCP g
     else if network = NetworkUDP then ug_selectedUDP g else None)"

definition tested_selection :: "group_world \<Rightarrow> string \<Rightarrow> 'c urltest_group \<Rightarrow> u16 \<times> outbound option" where
  "tested_selection W network g =
     (case selected_for network g of
        None \<Rightarrow> (0, None)
      | Some o1 \<Rightarrow>
          (case LoadURLTestHistory (hc_history g) (RealTag W o1) of
             None \<Rightarrow> (0, None) | Some u \<Rightarrow> (uh_Delay u, Some o1)))"

definition consider_detour ::
  "group_world \<Rightarrow> string \<Rightarrow> history \<Rightarrow> u16 \<Rightarrow> outbound \<Rightarrow> u16 \<times> outbound option \<Rightarrow> u16 \<times> outbound option" where
  "consider_detour W network h tolerance detour = (\<lambda>(minDelay, minOutbound).
     if \<not> supports W network detour then (minDelay, minOutbound)
     else (case LoadURLTestHistory h (RealTag W detour) of
             None \<Rightarrow> (minDelay, minOutbound)
           | Some u \<Rightarrow>
               if minDelay = 0 \<or> minDelay > uh_Delay u + tolerance then (uh_Delay u, Some detour)
               else (minDelay, minOutbound)))"

definition URLTest_Select :: "group_world \<Rightarrow> string \<Rightarrow> 'c urltest_group \<Rightarrow> outbound option \<times> bool" where
  "URLTest_Select W network g =
     (case fold (consider_detour W network (hc_history g) (ug_tolerance g)) (hc_outbounds g) (tested_selection W network g) of
        (_, None) \<Rightarrow> (find (supports W network) (hc_outbounds g), False)
      | (_, Some o1) \<Rightarrow> (Some o1, True))"

text \<open>The new selection of a network, and whether an older one was replaced.\<close>

definition update_selected :: "outbound option \<times> bool \<Rightarrow> outbound option \<Rightarrow> outbound option \<times> bool" where
  "update_selected found selected =
     (case found of
        (None, _) \<Rightarrow> (selected, False)
      | (Some o1, exists) \<Rightarrow>
          if selected = None \<or> exists \<and> \<not> same_outbound selected o1 then (Some o1, selected \<noteq> None)
          else (selected, False))"

definition URLTest_performUpdateCheck :: "group_world \<Rightarrow> 'c urltest_group \<Rightarrow> 'c list \<times> 'c urltest_group" where
  "URLTest_performUpdateCheck W g =
     (case update_selected (URLTest_Select W NetworkTCP g) (ug_selectedTCP g) of (tcp, updated1) \<Rightarrow>
        let g1 = g\<lparr>ug_selectedTCP := tcp\<rparr> in
      case update_selected (URLTest_Select W NetworkUDP g1) (ug_selectedUDP g1) of (udp, updated2) \<Rightarrow>
        let g2 = g1\<lparr>ug_selectedUDP := udp\<rparr> in
      if updated1 \<or> updated2
      then (case Group_Interrupt (ug_interruptExternalConnections g2) (ug_interruptGroup g2) of
              (closed, rest) \<Rightarrow> (closed, g2\<lparr>ug_interruptGroup := rest\<rparr>))
      else ([], g2))"

definition URLTest_urlTest ::
  "group_world \<Rightarrow> (string \<Rightarrow> outbound option) \<Rightarrow> (outbound \<Rightarrow> (u16 \<times> int) result) \<Rightarrow> int \<Rightarrow> bool \<Rightarrow>
   'c urltest_group \<Rightarrow> (string \<Rightarrow> u16 option) \<times> 'c list \<times> 'c urltest_group" where
  "URLTest_urlTest W lookup test now force g =
     (case Checker_urlTest W lookup test now False force g of
        (result, tested, g1) \<Rightarrow>
          if tested then (case URLTest_performUpdateCheck W g1 of (closed, g2) \<Rightarrow> (result, closed, g2))
          else (result, [], g1))"

definition ErrUnknownNetwork :: error where "ErrUnknownNetwork = ENew ''unknown network''"

text \<open>The outbound a connection is dialed through: the selected one, or a choice made now.\<close>

definition urltest_dial ::
  "(outbound \<Rightarrow> 'c result) \<Rightarrow> bool \<Rightarrow> outbound option \<Rightarrow> 'c urltest_group \<Rightarrow> 'c result \<times> 'c urltest_group" where
  "urltest_dial dial isExternal outbound g =
     (case outbound of
        None \<Rightarrow> (Inl (ENew ''missing supported outbound''), g)
      | Some o1 \<Rightarrow>
          (case dial o1 of
             Inr conn \<Rightarrow> (Inr conn, g\<lparr>ug_interruptGroup := Group_NewConn conn isExternal (ug_interruptGroup g)\<rparr>)
           | Inl e \<Rightarrow> (Inl e, g\<lparr>hc_history := DeleteURLTestHistory (sv_Tag o1) (hc_history g)\<rparr>)))"

definition or_select :: "group_world \<Rightarrow> string \<Rightarrow> 'c urltest_group \<Rightarrow> outbound option \<Rightarrow> outbound option" where
  "or_select W network g selected = (case selected of None \<Rightarrow> fst (URLTest_Select W network g) | Some o1 \<Rightarrow> Some o1)"

definition URLTest_DialContext ::
  "group_world \<Rightarrow> (outbound \<Rightarrow> 'c result) \<Rightarrow> int \<Rightarrow> bool \<Rightarrow> string \<Rightarrow> 'c urltest_group \<Rightarrow> 'c result \<times> task list \<times> 'c urltest_group" where
  "URLTest_DialContext W dial now isExternal network g =
     (case Checker_Touch now g of (tasks, g1) \<Rightarrow>
        let name = gw_NetworkName W network;
            (r, g2) = (if name = NetworkTCP then urltest_dial dial isExternal (or_select W network g1 (ug_selectedTCP g1)) g1
                       else if name = NetworkUDP then urltest_dial dial isExternal (or_select W network g1 (ug_selectedUDP g1)) g1
                       else (Inl (EExtend ErrUnknownNetwork network), g1))
        in (r, tasks, g2))"

definition URLTest_ListenPacket ::
  "group_world \<Rightarrow> (outbound \<Rightarrow> 'c result) \<Rightarrow> int \<Rightarrow> bool \<Rightarrow> 'c urltest_group \<Rightarrow> 'c result \<times> task list \<times> 'c urltest_group" where
  "URLTest_ListenPacket W listen now isExternal g =
     (case Checker_Touch now g of (tasks, g1) \<Rightarrow>
      case urltest_dial listen isExternal (or_select W NetworkUDP g1 (ug_selectedUDP g1)) g1 of
        (r, g2) \<Rightarrow> (r, tasks, g2))"

section \<open>Fallback\<close>

record 'c fallback_group =
  fg_checker :: health_checker
  fg_outbounds :: "outbound list"
  fg_selectedTCP :: "outbound option"
  fg_selectedUDP :: "outbound option"
  fg_interruptGroup :: "'c interrupt_group"
  fg_interruptExternalConnections :: bool

definition NewFallbackGroup ::
  "history \<Rightarrow> outbound list \<Rightarrow> duration \<Rightarrow> duration \<Rightarrow> duration \<Rightarrow> bool \<Rightarrow> 'c fallback_group result" where
  "NewFallbackGroup history outbounds interval idleTimeout timeout interruptExist =
     bind_r (newHealthChecker history outbounds interval idleTimeout timeout)
       (\<lambda>checker. Inr \<lparr>fg_checker = checker, fg_outbounds = outbounds, fg_selectedTCP = None, fg_selectedUDP = None,
          fg_interruptGroup = [], fg_interruptExternalConnections = interruptExist\<rparr>)"

definition Fallback_Now :: "'c fallback_group \<Rightarrow> string" where
  "Fallback_Now g =
     (case fg_selectedTCP g of
        Some o1 \<Rightarrow> sv_Tag o1
      | None \<Rightarrow> (case fg_selectedUDP g of
          Some o1 \<Rightarrow> sv_Tag o1
        | None \<Rightarrow> (case fg_outbounds g of o1 # _ \<Rightarrow> sv_Tag o1 | [] \<Rightarrow> [])))"

definition Fallback_Select :: "group_world \<Rightarrow> string \<Rightarrow> 'c fallback_group \<Rightarrow> outbound option \<times> bool" where
  "Fallback_Select W network g =
     (case find (\<lambda>detour. supports W network detour \<and> available W (hc_history (fg_checker g)) detour) (fg_outbounds g) of
        Some detour \<Rightarrow> (Some detour, True)
      | None \<Rightarrow> (find (supports W network) (fg_outbounds g), False))"

definition interrupt_if :: "bool \<Rightarrow> 'c fallback_group \<Rightarrow> 'c list \<times> 'c fallback_group" where
  "interrupt_if updated g =
     (if updated
      then (case Group_Interrupt (fg_interruptExternalConnections g) (fg_interruptGroup g) of
              (closed, rest) \<Rightarrow> (closed, g\<lparr>fg_interruptGroup := rest\<rparr>))
      else ([], g))"

definition Fallback_performUpdateCheck :: "group_world \<Rightarrow> 'c fallback_group \<Rightarrow> 'c list \<times> 'c fallback_group" where
  "Fallback_performUpdateCheck W g =
     (case update_selected (Fallback_Select W NetworkTCP g) (fg_selectedTCP g) of (tcp, updated1) \<Rightarrow>
        let g1 = g\<lparr>fg_selectedTCP := tcp\<rparr> in
      case update_selected (Fallback_Select W NetworkUDP g1) (fg_selectedUDP g1) of (udp, updated2) \<Rightarrow>
        interrupt_if (updated1 \<or> updated2) (g1\<lparr>fg_selectedUDP := udp\<rparr>))"

definition Fallback_urlTest ::
  "group_world \<Rightarrow> (string \<Rightarrow> outbound option) \<Rightarrow> (outbound \<Rightarrow> (u16 \<times> int) result) \<Rightarrow> int \<Rightarrow> bool \<Rightarrow>
   'c fallback_group \<Rightarrow> (string \<Rightarrow> u16 option) \<times> 'c list \<times> 'c fallback_group" where
  "Fallback_urlTest W lookup test now force g =
     (case Checker_urlTest W lookup test now True force (fg_checker g) of
        (result, tested, checker) \<Rightarrow>
          let g1 = g\<lparr>fg_checker := checker\<rparr> in
          if tested then (case Fallback_performUpdateCheck W g1 of (closed, g2) \<Rightarrow> (result, closed, g2))
          else (result, [], g1))"

definition storeSelected :: "group_world \<Rightarrow> string \<Rightarrow> outbound \<Rightarrow> 'c fallback_group \<Rightarrow> 'c list \<times> 'c fallback_group" where
  "storeSelected W network detour g =
     (let name = gw_NetworkName W network;
          replaced = (\<lambda>previous. previous \<noteq> None \<and> \<not> same_outbound previous detour)
      in if name = NetworkTCP then interrupt_if (replaced (fg_selectedTCP g)) (g\<lparr>fg_selectedTCP := Some detour\<rparr>)
         else if name = NetworkUDP then interrupt_if (replaced (fg_selectedUDP g)) (g\<lparr>fg_selectedUDP := Some detour\<rparr>)
         else ([], g))"

definition try_list :: "group_world \<Rightarrow> string \<Rightarrow> 'c fallback_group \<Rightarrow> outbound list" where
  "try_list W network g =
     (let candidates = filter (supports W network) (fg_outbounds g);
          good = available W (hc_history (fg_checker g))
      in filter good candidates @ filter (\<lambda>d. \<not> good d) candidates)"

definition forget_test :: "group_world \<Rightarrow> outbound \<Rightarrow> ('a health_checker_scheme) \<Rightarrow> 'a health_checker_scheme" where
  "forget_test W detour h = h\<lparr>hc_history := DeleteURLTestHistory (RealTag W detour) (hc_history h)\<rparr>"

text \<open>One attempt after the other; the result, the outbounds tried, the connections closed and the
  checks started. A list of attempts that is empty has been refused before.\<close>

fun try_dial ::
  "group_world \<Rightarrow> (outbound \<Rightarrow> 'c result) \<Rightarrow> bool \<Rightarrow> string \<Rightarrow> outbound list \<Rightarrow> error \<Rightarrow> 'c fallback_group \<Rightarrow>
   'c result \<times> outbound list \<times> 'c list \<times> task list \<times> 'c fallback_group" where
  "try_dial W dial isExternal network [] lastErr g = (Inl lastErr, [], [], [], g)"
| "try_dial W dial isExternal network (detour # detours) lastErr g =
     (case dial detour of
        Inr conn \<Rightarrow>
          (case storeSelected W network detour g of
             (closed, g1) \<Rightarrow>
               (Inr conn, [detour], closed, [],
                g1\<lparr>fg_interruptGroup := Group_NewConn conn isExternal (fg_interruptGroup g1)\<rparr>))
      | Inl e \<Rightarrow>
          (case try_dial W dial isExternal network detours e (g\<lparr>fg_checker := forget_test W detour (fg_checker g)\<rparr>) of
             (r, tried, closed, tasks, g1) \<Rightarrow> (r, detour # tried, closed, CheckOutbounds True # tasks, g1)))"

definition FallbackGroup_DialContext ::
  "group_world \<Rightarrow> (outbound \<Rightarrow> 'c result) \<Rightarrow> bool \<Rightarrow> string \<Rightarrow> 'c fallback_group \<Rightarrow>
   'c result \<times> outbound list \<times> 'c list \<times> task list \<times> 'c fallback_group" where
  "FallbackGroup_DialContext W dial isExternal network g =
     (if length (filter (supports W network) (fg_outbounds g)) = 0
      then (Inl (ENew ''missing supported outbound''), [], [], [], g)
      else try_dial W dial isExternal network (try_list W network g) (ENew '''') g)"

definition FallbackGroup_ListenPacket ::
  "group_world \<Rightarrow> (outbound \<Rightarrow> 'c result) \<Rightarrow> bool \<Rightarrow> 'c fallback_group \<Rightarrow>
   'c result \<times> outbound list \<times> 'c list \<times> task list \<times> 'c fallback_group" where
  "FallbackGroup_ListenPacket W listen isExternal g =
     (if length (filter (supports W NetworkUDP) (fg_outbounds g)) = 0
      then (Inl (ENew ''missing supported outbound''), [], [], [], g)
      else try_dial W listen isExternal NetworkUDP (try_list W NetworkUDP g) (ENew '''') g)"

definition Fallback_DialContext ::
  "group_world \<Rightarrow> (outbound \<Rightarrow> 'c result) \<Rightarrow> int \<Rightarrow> bool \<Rightarrow> string \<Rightarrow> 'c fallback_group \<Rightarrow>
   'c result \<times> outbound list \<times> 'c list \<times> task list \<times> 'c fallback_group" where
  "Fallback_DialContext W dial now isExternal network g =
     (case Checker_Touch now (fg_checker g) of (tasks1, checker) \<Rightarrow>
      case FallbackGroup_DialContext W dial isExternal network (g\<lparr>fg_checker := checker\<rparr>) of
        (r, tried, closed, tasks2, g1) \<Rightarrow> (r, tried, closed, tasks1 @ tasks2, g1))"

section \<open>Load balance\<close>

definition LoadBalanceStrategyRoundRobin :: string where "LoadBalanceStrategyRoundRobin = ''round-robin''"
definition LoadBalanceStrategyConsistentHashing :: string where
  "LoadBalanceStrategyConsistentHashing = ''consistent-hashing''"
definition LoadBalanceStrategyStickySessions :: string where "LoadBalanceStrategyStickySessions = ''sticky-sessions''"

lemmas strategy_names = LoadBalanceStrategyRoundRobin_def LoadBalanceStrategyConsistentHashing_def
  LoadBalanceStrategyStickySessions_def

record sticky_entry =
  se_tag :: string
  se_expire :: int

record load_balance_group =
  lb_checker :: health_checker
  lb_outbounds :: "outbound list"
  lb_outboundMap :: "string \<Rightarrow> outbound option"
  lb_strategy :: string
  lb_rrCounter :: u64
  lb_stickyCache :: "string \<Rightarrow> sticky_entry option"
  lb_lastSelected :: "outbound option"

definition NewLoadBalanceGroup ::
  "history \<Rightarrow> outbound list \<Rightarrow> duration \<Rightarrow> duration \<Rightarrow> duration \<Rightarrow> string \<Rightarrow> load_balance_group result" where
  "NewLoadBalanceGroup history outbounds interval idleTimeout timeout strategy =
     bind_r (newHealthChecker history outbounds interval idleTimeout timeout)
       (\<lambda>checker. Inr \<lparr>lb_checker = checker, lb_outbounds = outbounds,
          lb_outboundMap = map_of (rev (map (\<lambda>detour. (sv_Tag detour, detour)) outbounds)),
          lb_strategy = strategy, lb_rrCounter = 0, lb_stickyCache = (\<lambda>_. None), lb_lastSelected = None\<rparr>)"

definition LoadBalance_Now :: "load_balance_group \<Rightarrow> string" where
  "LoadBalance_Now g =
     (case lb_lastSelected g of
        Some o1 \<Rightarrow> sv_Tag o1
      | None \<Rightarrow> (case lb_outbounds g of o1 # _ \<Rightarrow> sv_Tag o1 | [] \<Rightarrow> []))"

definition lb_candidates :: "group_world \<Rightarrow> string \<Rightarrow> load_balance_group \<Rightarrow> outbound list" where
  "lb_candidates W network g =
     (let networkCandidates = filter (supports W network) (lb_outbounds g);
          good = filter (available W (hc_history (lb_checker g))) networkCandidates
      in if length good > 0 then good else networkCandidates)"

text \<open>Hashing and keys. The list of public suffixes is a third-party package.\<close>

definition fnv1a64 :: "string \<Rightarrow> u64" where
  "fnv1a64 s = foldl (\<lambda>hash c. (hash XOR of_char c) * 1099511628211) 14695981039346656037 s"

definition rendezvous_step ::
  "string \<Rightarrow> outbound \<Rightarrow> outbound option \<times> u64 \<Rightarrow> outbound option \<times> u64" where
  "rendezvous_step key detour = (\<lambda>(selected, bestScore).
     let score = fnv1a64 (key @ ''|'' @ sv_Tag detour) in
     if selected = None \<or> score > bestScore then (Some detour, score) else (selected, bestScore))"

definition rendezvousPick :: "string \<Rightarrow> outbound list \<Rightarrow> outbound option" where
  "rendezvousPick key candidates = fst (fold (rendezvous_step key) candidates (None, 0))"

definition destinationKey :: "lib \<Rightarrow> (string \<Rightarrow> string result) \<Rightarrow> socksaddr \<Rightarrow> string" where
  "destinationKey L effectiveTLDPlusOne destination =
     (let host = (if lib_IsFqdn L destination
                  then (case effectiveTLDPlusOne (sa_Fqdn destination) of Inr base \<Rightarrow> base | Inl _ \<Rightarrow> sa_Fqdn destination)
                  else lib_AddrString L destination)
      in host @ '':'' @ itoa (unat (sa_Port destination)))"

definition stickyKey :: "lib \<Rightarrow> (string \<Rightarrow> string result) \<Rightarrow> inbound_context option \<Rightarrow> string \<Rightarrow> socksaddr \<Rightarrow> string" where
  "stickyKey L effectiveTLDPlusOne metadata network destination =
     (let sourceKey = (case metadata of
                         Some m \<Rightarrow> if lib_IsValid L (mc_Source m) then lib_AddrString L (mc_Source m) else []
                       | None \<Rightarrow> [])
      in network @ ''|'' @ sourceKey @ ''|'' @ destinationKey L effectiveTLDPlusOne destination)"

text \<open>The keys of a call: of the session and of the destination.\<close>

record balance_keys =
  bk_sticky :: string
  bk_destination :: string

definition call_keys ::
  "lib \<Rightarrow> (string \<Rightarrow> string result) \<Rightarrow> inbound_context option \<Rightarrow> string \<Rightarrow> socksaddr \<Rightarrow> balance_keys" where
  "call_keys L effectiveTLDPlusOne metadata network destination =
     \<lparr>bk_sticky = stickyKey L effectiveTLDPlusOne metadata network destination,
      bk_destination = destinationKey L effectiveTLDPlusOne destination\<rparr>"

definition selectRoundRobin :: "outbound list \<Rightarrow> load_balance_group \<Rightarrow> outbound \<times> load_balance_group" where
  "selectRoundRobin candidates g =
     (let counter = lb_rrCounter g + 1;
          index = (counter - 1) mod word_of_nat (length candidates)
      in (candidates ! unat index, g\<lparr>lb_rrCounter := counter\<rparr>))"

definition loadSticky :: "int \<Rightarrow> string \<Rightarrow> outbound list \<Rightarrow> load_balance_group \<Rightarrow> outbound option \<times> load_balance_group" where
  "loadSticky now key candidates g =
     (let forget = g\<lparr>lb_stickyCache := (lb_stickyCache g)(key := None)\<rparr> in
      case lb_stickyCache g key of
        None \<Rightarrow> (None, g)
      | Some entry \<Rightarrow>
          if now > se_expire entry then (None, forget)
          else (case lb_outboundMap g (se_tag entry) of
                  None \<Rightarrow> (None, forget)
                | Some detour \<Rightarrow>
                    (if \<exists>candidate \<in> set candidates. sv_id candidate = sv_id detour then Some detour else None, g)))"

definition storeSticky :: "int \<Rightarrow> string \<Rightarrow> outbound \<Rightarrow> load_balance_group \<Rightarrow> load_balance_group" where
  "storeSticky now key detour g =
     g\<lparr>lb_stickyCache := (lb_stickyCache g)(key \<mapsto> \<lparr>se_tag = sv_Tag detour, se_expire = now + 10 * 60 * Second\<rparr>)\<rparr>"

definition deleteSticky :: "string \<Rightarrow> load_balance_group \<Rightarrow> load_balance_group" where
  "deleteSticky key g = g\<lparr>lb_stickyCache := (lb_stickyCache g)(key := None)\<rparr>"

definition selectOutbound ::
  "balance_keys \<Rightarrow> int \<Rightarrow> outbound list \<Rightarrow> load_balance_group \<Rightarrow> outbound option result \<times> load_balance_group" where
  "selectOutbound keys now candidates g =
     (if lb_strategy g = LoadBalanceStrategyRoundRobin
      then (case selectRoundRobin candidates g of (detour, g1) \<Rightarrow> (Inr (Some detour), g1))
      else if lb_strategy g = LoadBalanceStrategyConsistentHashing
      then (Inr (rendezvousPick (bk_destination keys) candidates), g)
      else if lb_strategy g = LoadBalanceStrategyStickySessions
      then (case loadSticky now (bk_sticky keys) candidates g of
              (Some cached, g1) \<Rightarrow> (Inr (Some cached), g1)
            | (None, g1) \<Rightarrow> (Inr (rendezvousPick (bk_sticky keys) candidates), g1))
      else (Inl (ENew (''unknown load-balance strategy: '' @ lb_strategy g)), g))"

lemma fold_rendezvous:
  "fold (rendezvous_step key) ds (Some d, s) = (r, s') \<Longrightarrow> \<exists>x. r = Some x \<and> (x = d \<or> x \<in> set ds)"
  by (induction ds arbitrary: d s) (fastforce simp: rendezvous_step_def Let_def split: if_splits)+

lemma rendezvousPick_member:
  assumes "ds \<noteq> []"
  shows "\<exists>d \<in> set ds. rendezvousPick key ds = Some d"
proof -
  obtain d ds' where ds: "ds = d # ds'" using assms by (cases ds) auto
  let ?s = "fnv1a64 (key @ ''|'' @ sv_Tag d)"
  obtain r s' where f: "fold (rendezvous_step key) ds' (Some d, ?s) = (r, s')" by fastforce
  with fold_rendezvous [OF f] show ?thesis
    by (auto simp: ds rendezvousPick_def rendezvous_step_def Let_def)
qed

lemma selectRoundRobin_member:
  assumes "selectRoundRobin ds g = (d, g')" and "ds \<noteq> []" and "length ds < 2 ^ 64"
  shows "d \<in> set ds"
proof -
  have "unat (word_of_nat (length ds) :: u64) = length ds" using assms(3) by (simp add: unsigned_of_nat take_bit_nat_eq_self)
  moreover have "unat (w mod word_of_nat (length ds) :: u64) = unat w mod unat (word_of_nat (length ds) :: u64)" for w
    by (rule unat_mod_distrib)
  ultimately have "unat ((lb_rrCounter g) mod word_of_nat (length ds)) < length ds"
    using assms(2) by simp
  then show ?thesis using assms(1) by (auto simp: selectRoundRobin_def Let_def)
qed

lemma selectOutbound_frame:
  assumes "selectOutbound keys now ds g = (r, g')"
  shows "lb_outbounds g' = lb_outbounds g" "lb_checker g' = lb_checker g" "lb_strategy g' = lb_strategy g"
    "lb_outboundMap g' = lb_outboundMap g"
  using assms by (auto simp: selectOutbound_def selectRoundRobin_def loadSticky_def Let_def split: if_splits prod.splits option.splits)

lemma selectOutbound_member:
  assumes "selectOutbound keys now ds g = (Inr r, g')" and "ds \<noteq> []" and "length ds < 2 ^ 64"
  shows "\<exists>d. r = Some d \<and> sv_id d \<in> sv_id ` set ds"
proof -
  consider (rr) "lb_strategy g = LoadBalanceStrategyRoundRobin"
    | (hash) "lb_strategy g = LoadBalanceStrategyConsistentHashing"
    | (sticky) "lb_strategy g = LoadBalanceStrategyStickySessions"
    using assms(1) by (auto simp: selectOutbound_def split: if_splits)
  then show ?thesis
  proof cases
    case rr
    then show ?thesis using assms selectRoundRobin_member
      by (auto simp: selectOutbound_def split: prod.splits)
  next
    case hash
    then show ?thesis using assms(1) rendezvousPick_member [OF assms(2), of "bk_destination keys"]
      by (auto simp: selectOutbound_def strategy_names)
  next
    case sticky
    then show ?thesis using assms(1) rendezvousPick_member [OF assms(2), of "bk_sticky keys"]
      by (auto simp: selectOutbound_def strategy_names loadSticky_def Let_def image_iff
          split: prod.splits option.splits if_splits) metis+
  qed
qed

text \<open>
  The loop of \<^verbatim>\<open>DialContext\<close>: an outbound that fails is excluded, its test forgotten and
  another one selected. \<open>concurrent\<close> is what the checks that run meanwhile do to the history
  after the attempt of that number. (A list of outbounds longer than \<^verbatim>\<open>uint64\<close> counts has no
  meaning for the source.)
\<close>

definition not_excluded :: "nat list \<Rightarrow> outbound list \<Rightarrow> outbound list" where
  "not_excluded excluded ds = filter (\<lambda>it. sv_id it \<notin> set excluded) ds"

definition dial_failed :: "group_world \<Rightarrow> balance_keys \<Rightarrow> (history \<Rightarrow> history) \<Rightarrow> outbound \<Rightarrow> load_balance_group \<Rightarrow> load_balance_group" where
  "dial_failed W keys concurrent detour g =
     (let checker = forget_test W detour (lb_checker g);
          g1 = g\<lparr>lb_checker := checker\<lparr>hc_history := concurrent (hc_history checker)\<rparr>\<rparr>
      in if lb_strategy g = LoadBalanceStrategyStickySessions then deleteSticky (bk_sticky keys) g1 else g1)"

definition dial_succeeded :: "balance_keys \<Rightarrow> int \<Rightarrow> outbound \<Rightarrow> load_balance_group \<Rightarrow> load_balance_group" where
  "dial_succeeded keys now detour g =
     (let g1 = g\<lparr>lb_lastSelected := Some detour\<rparr>
      in if lb_strategy g = LoadBalanceStrategyStickySessions then storeSticky now (bk_sticky keys) detour g1 else g1)"

lemma dial_failed_frame:
  "lb_outbounds (dial_failed W keys f d g) = lb_outbounds g" "lb_strategy (dial_failed W keys f d g) = lb_strategy g"
  "lb_outboundMap (dial_failed W keys f d g) = lb_outboundMap g"
  "hc_history (lb_checker (dial_failed W keys f d g)) = f ((hc_history (lb_checker g))(RealTag W d := None))"
  by (simp_all add: dial_failed_def Let_def deleteSticky_def forget_test_def DeleteURLTestHistory_def)

lemma lb_candidates_sub: "set (lb_candidates W network g) \<subseteq> {d \<in> set (lb_outbounds g). supports W network d}"
  by (auto simp: lb_candidates_def Let_def)

function lb_dial ::
  "group_world \<Rightarrow> balance_keys \<Rightarrow> int \<Rightarrow> (outbound \<Rightarrow> 'c result) \<Rightarrow> (nat \<Rightarrow> history \<Rightarrow> history) \<Rightarrow> string \<Rightarrow> nat list \<Rightarrow>
   error option \<Rightarrow> load_balance_group \<Rightarrow> 'c result \<times> outbound list \<times> task list \<times> load_balance_group" where
  "lb_dial W keys now dial concurrent network excluded lastErr g =
     (let candidates = not_excluded excluded (lb_candidates W network g) in
      if length candidates = 0
      then (Inl (case lastErr of None \<Rightarrow> ENew ''missing supported outbound'' | Some e \<Rightarrow> e), [], [], g)
      else if length candidates \<ge> 2 ^ 64 then (Inl (EPanic ''out of memory''), [], [], g)
      else (case selectOutbound keys now candidates g of
              (Inl e, g1) \<Rightarrow> (Inl e, [], [], g1)
            | (Inr None, g1) \<Rightarrow> (Inl (EPanic ''nil pointer dereference''), [], [], g1)
            | (Inr (Some detour), g1) \<Rightarrow>
                (case dial detour of
                   Inr conn \<Rightarrow> (Inr conn, [detour], [], dial_succeeded keys now detour g1)
                 | Inl e \<Rightarrow>
                     (case lb_dial W keys now dial concurrent network (sv_id detour # excluded) (Some e)
                             (dial_failed W keys (concurrent (length excluded)) detour g1) of
                        (r, tried, tasks, g2) \<Rightarrow>
                          (r, detour # tried, if excluded = [] then CheckOutbounds True # tasks else tasks, g2)))))"
  by pat_completeness auto

lemma lb_dial_decreases:
  assumes "selectOutbound keys now (not_excluded excluded (lb_candidates W network g)) g = (Inr (Some d), g1)"
    and "not_excluded excluded (lb_candidates W network g) \<noteq> []" and "length (not_excluded excluded (lb_candidates W network g)) < 2 ^ 64"
  shows "length (not_excluded (sv_id d # excluded) (lb_outbounds g1)) < length (not_excluded excluded (lb_outbounds g))"
proof -
  from selectOutbound_member [OF assms] obtain d' where d': "sv_id d = sv_id d'" "d' \<in> set (not_excluded excluded (lb_candidates W network g))"
    by auto
  then have "d' \<in> set (lb_outbounds g)" "sv_id d' \<notin> set excluded"
    using lb_candidates_sub [of W network g] by (auto simp: not_excluded_def)
  then show ?thesis unfolding selectOutbound_frame(1) [OF assms(1)] not_excluded_def
    by (intro length_filter_strict [of _ _ _ d']) (auto simp: d'(1))
qed

termination lb_dial
proof (relation "measure (\<lambda>(_, _, _, _, _, _, excluded, _, g). length (not_excluded excluded (lb_outbounds g)))", goal_cases)
  case (2 W keys now dial concurrent network excluded lastErr g candidates)
  then show ?case by (auto simp: dial_failed_frame intro!: lb_dial_decreases)
qed simp

definition LoadBalanceGroup_DialContext ::
  "group_world \<Rightarrow> balance_keys \<Rightarrow> int \<Rightarrow> (outbound \<Rightarrow> 'c result) \<Rightarrow> (nat \<Rightarrow> history \<Rightarrow> history) \<Rightarrow> string \<Rightarrow>
   load_balance_group \<Rightarrow> 'c result \<times> outbound list \<times> task list \<times> load_balance_group" where
  "LoadBalanceGroup_DialContext W keys now dial concurrent network g = lb_dial W keys now dial concurrent network [] None g"

definition LoadBalanceGroup_ListenPacket ::
  "group_world \<Rightarrow> balance_keys \<Rightarrow> int \<Rightarrow> (outbound \<Rightarrow> 'c result) \<Rightarrow> (nat \<Rightarrow> history \<Rightarrow> history) \<Rightarrow>
   load_balance_group \<Rightarrow> 'c result \<times> outbound list \<times> task list \<times> load_balance_group" where
  "LoadBalanceGroup_ListenPacket W keys now listen concurrent g = lb_dial W keys now listen concurrent NetworkUDP [] None g"

definition LoadBalance_DialContext ::
  "group_world \<Rightarrow> balance_keys \<Rightarrow> int \<Rightarrow> (outbound \<Rightarrow> 'c result) \<Rightarrow> (nat \<Rightarrow> history \<Rightarrow> history) \<Rightarrow> string \<Rightarrow>
   load_balance_group \<Rightarrow> 'c result \<times> outbound list \<times> task list \<times> load_balance_group" where
  "LoadBalance_DialContext W keys now dial concurrent network g =
     (case Checker_Touch now (lb_checker g) of (tasks1, checker) \<Rightarrow>
      case LoadBalanceGroup_DialContext W keys now dial concurrent network (g\<lparr>lb_checker := checker\<rparr>) of
        (r, tried, tasks2, g1) \<Rightarrow> (r, tried, tasks1 @ tasks2, g1))"

section \<open>Groups as outbounds\<close>

text \<open>The groups as the outbound manager has them: what their options say until \<^verbatim>\<open>Start\<close> makes the
  group of the outbounds that the tags name.\<close>

record urltest_outbound =
  ut_tags :: "string list"
  ut_interval :: duration
  ut_tolerance :: u16
  ut_idleTimeout :: duration
  ut_interruptExternalConnections :: bool

definition NewURLTest :: "string list \<Rightarrow> duration \<Rightarrow> u16 \<Rightarrow> duration \<Rightarrow> bool \<Rightarrow> urltest_outbound result" where
  "NewURLTest outbounds interval tolerance idleTimeout interruptExist =
     (if length outbounds = 0 then Inl (ENew ''missing tags'')
      else Inr \<lparr>ut_tags = outbounds, ut_interval = interval, ut_tolerance = tolerance, ut_idleTimeout = idleTimeout,
                ut_interruptExternalConnections = interruptExist\<rparr>)"

definition URLTest_Start :: "(string \<Rightarrow> outbound option) \<Rightarrow> history \<Rightarrow> urltest_outbound \<Rightarrow> 'c urltest_group result" where
  "URLTest_Start lookup history s =
     bind_r (group_outbounds lookup (ut_tags s))
       (\<lambda>outbounds. NewURLTestGroup history outbounds (ut_interval s) (ut_tolerance s) (ut_idleTimeout s)
                      (ut_interruptExternalConnections s))"

record fallback_outbound =
  fb_tags :: "string list"
  fb_interval :: duration
  fb_idleTimeout :: duration
  fb_timeout :: duration
  fb_interruptExternalConnections :: bool

definition NewFallback :: "string list \<Rightarrow> duration \<Rightarrow> duration \<Rightarrow> duration \<Rightarrow> bool \<Rightarrow> fallback_outbound result" where
  "NewFallback outbounds interval idleTimeout timeout interruptExist =
     (if length outbounds = 0 then Inl (ENew ''missing tags'')
      else Inr \<lparr>fb_tags = outbounds, fb_interval = interval, fb_idleTimeout = idleTimeout, fb_timeout = timeout,
                fb_interruptExternalConnections = interruptExist\<rparr>)"

definition Fallback_Start :: "(string \<Rightarrow> outbound option) \<Rightarrow> history \<Rightarrow> fallback_outbound \<Rightarrow> 'c fallback_group result" where
  "Fallback_Start lookup history s =
     bind_r (group_outbounds lookup (fb_tags s))
       (\<lambda>outbounds. NewFallbackGroup history outbounds (fb_interval s) (fb_idleTimeout s) (fb_timeout s)
                      (fb_interruptExternalConnections s))"

record load_balance_outbound =
  lo_tags :: "string list"
  lo_interval :: duration
  lo_idleTimeout :: duration
  lo_timeout :: duration
  lo_strategy :: string

definition NewLoadBalance :: "string list \<Rightarrow> duration \<Rightarrow> duration \<Rightarrow> duration \<Rightarrow> string \<Rightarrow> load_balance_outbound result" where
  "NewLoadBalance outbounds interval idleTimeout timeout strategy0 =
     (let strategy = (if strategy0 = [] then LoadBalanceStrategyRoundRobin else strategy0) in
      if length outbounds = 0 then Inl (ENew ''missing tags'')
      else if strategy \<in> {LoadBalanceStrategyRoundRobin, LoadBalanceStrategyConsistentHashing, LoadBalanceStrategyStickySessions}
      then Inr \<lparr>lo_tags = outbounds, lo_interval = interval, lo_idleTimeout = idleTimeout, lo_timeout = timeout,
                lo_strategy = strategy\<rparr>
      else Inl (ENew (''unknown load-balance strategy: '' @ strategy)))"

definition LoadBalance_Start :: "(string \<Rightarrow> outbound option) \<Rightarrow> history \<Rightarrow> load_balance_outbound \<Rightarrow> load_balance_group result" where
  "LoadBalance_Start lookup history s =
     bind_r (group_outbounds lookup (lo_tags s))
       (\<lambda>outbounds. NewLoadBalanceGroup history outbounds (lo_interval s) (lo_idleTimeout s) (lo_timeout s) (lo_strategy s))"

end
