(* ===== verification/Outbound_Groups_Props.thy ===== *)
theory Outbound_Groups_Props
  imports Outbound_Groups "HOL-Library.Multiset"
begin

text \<open>
  Properties of the outbound groups: what the selector remembers, how near to the fastest
  outbound the URL test stays, in which order the fallback dials, and that load balancing
  finds an outbound that works, spreads connections evenly, keeps sessions where they are and
  moves no more destinations than it must.
\<close>

section \<open>Failover\<close>

text \<open>
  What dialing through a group promises, whatever the order it tries its members in: it tries
  members only, none of them twice, stops at the first that answers and gives up only when
  all have failed.
\<close>

definition answers :: "(outbound \<Rightarrow> 'c result) \<Rightarrow> outbound \<Rightarrow> bool" where
  "answers dial d \<longleftrightarrow> (\<exists>c. dial d = Inr c)"

lemma answers_simps [simp]: "dial d = Inr c \<Longrightarrow> answers dial d" "dial d = Inl e \<Longrightarrow> \<not> answers dial d"
  by (auto simp: answers_def)

lemma not_answers: "\<not> answers dial d \<longleftrightarrow> (\<exists>e. dial d = Inl e)"
  by (cases "dial d") auto

locale failover =
  fixes wf :: "'g \<Rightarrow> bool" and members :: "'g \<Rightarrow> outbound list"
    and attempts :: "'g \<Rightarrow> (outbound \<Rightarrow> 'c result) \<Rightarrow> 'c result \<times> outbound list"
  assumes tried_members: "wf g \<Longrightarrow> attempts g dial = (r, tried) \<Longrightarrow> set tried \<subseteq> set (members g) \<and> distinct tried"
    and found: "wf g \<Longrightarrow> attempts g dial = (Inr c, tried) \<Longrightarrow>
      \<exists>ds d. tried = ds @ [d] \<and> dial d = Inr c \<and> (\<forall>x \<in> set ds. \<not> answers dial x)"
    and exhausted: "wf g \<Longrightarrow> attempts g dial = (Inl e, tried) \<Longrightarrow>
      set (members g) \<subseteq> set tried \<and> (\<forall>x \<in> set tried. \<not> answers dial x)"
begin

lemma serves_iff:
  assumes "wf g"
  shows "(\<exists>c. fst (attempts g dial) = Inr c) \<longleftrightarrow> (\<exists>d \<in> set (members g). answers dial d)"
proof (cases "attempts g dial")
  case (Pair r tried)
  show ?thesis
  proof (cases r)
    case (Inl e)
    with exhausted [OF assms, of dial e tried] Pair show ?thesis by force
  next
    case (Inr c)
    with Pair have "attempts g dial = (Inr c, tried)" by simp
    with found [OF assms this] tried_members [OF assms this] show ?thesis
      by (auto simp: Pair Inr intro: answers_simps)
  qed
qed

lemma attempts_bounded:
  assumes "wf g"
  shows "length (snd (attempts g dial)) \<le> length (members g)"
proof -
  obtain r tried where "attempts g dial = (r, tried)" by fastforce
  with tried_members [OF assms this] have "set tried \<subseteq> set (members g)" "distinct tried" "snd (attempts g dial) = tried" by auto
  then show ?thesis by (metis card_length card_mono distinct_card finite_set le_trans)
qed

end

section \<open>Fallback\<close>

text \<open>The attempts as a search through the list.\<close>

lemma try_dial_result:
  "try_dial W dial ext network ds e g = (r, tried, closed, tasks, g') \<Longrightarrow>
   case find (answers dial) ds of
     None \<Rightarrow> (\<exists>e'. r = Inl e') \<and> tried = ds
   | Some d \<Rightarrow> r = dial d \<and> tried = takeWhile (\<lambda>d. \<not> answers dial d) ds @ [d]"
proof (induction ds arbitrary: e g r tried closed tasks g')
  case (Cons d ds)
  show ?case
  proof (cases "dial d")
    case (Inl e')
    then obtain tried1 tasks1 where
      "try_dial W dial ext network ds e' (g\<lparr>fg_checker := forget_test W d (fg_checker g)\<rparr>) = (r, tried1, closed, tasks1, g')"
      "tried = d # tried1"
      using Cons.prems by (auto split: prod.splits)
    with Cons.IH [OF this(1)] Inl show ?thesis by (auto split: option.splits)
  qed (use Cons.prems in \<open>auto split: prod.splits\<close>)
qed simp

lemma find_takeWhile:
  "find P xs = Some x \<Longrightarrow> takeWhile (\<lambda>y. \<not> P y) xs @ [x] = take (Suc (length (takeWhile (\<lambda>y. \<not> P y) xs))) xs"
  by (induction xs) (auto split: if_splits)

lemma set_try_list: "set (try_list W network g) = set (filter (supports W network) (fg_outbounds g))"
  by (auto simp: try_list_def Let_def)

lemma distinct_try_list: "distinct (fg_outbounds g) \<Longrightarrow> distinct (try_list W network g)"
  by (auto simp: try_list_def Let_def)

lemma fallback_tried:
  assumes "FallbackGroup_DialContext W dial ext network g = (r, tried, closed, tasks, g')"
  shows "case find (answers dial) (try_list W network g) of
     None \<Rightarrow> (\<exists>e'. r = Inl e') \<and> tried = try_list W network g
   | Some d \<Rightarrow> r = dial d \<and> tried = takeWhile (\<lambda>d. \<not> answers dial d) (try_list W network g) @ [d]"
proof (cases "filter (supports W network) (fg_outbounds g) = []")
  case True
  then show ?thesis using assms by (auto simp: FallbackGroup_DialContext_def try_list_def Let_def)
next
  case False
  then show ?thesis using assms by (intro try_dial_result) (simp add: FallbackGroup_DialContext_def)
qed

definition fallback_attempts ::
  "group_world \<Rightarrow> bool \<Rightarrow> string \<Rightarrow> 'c fallback_group \<Rightarrow> (outbound \<Rightarrow> 'c result) \<Rightarrow> 'c result \<times> outbound list" where
  "fallback_attempts W ext network g dial =
     (case FallbackGroup_DialContext W dial ext network g of (r, tried, _) \<Rightarrow> (r, tried))"

lemma fallback_laws:
  assumes d: "distinct (fg_outbounds g)" and a: "fallback_attempts W ext network g dial = (r, tried)"
  shows "set tried \<subseteq> set (filter (supports W network) (fg_outbounds g)) \<and> distinct tried"
    and "r = Inr c \<Longrightarrow> \<exists>ds d. tried = ds @ [d] \<and> dial d = Inr c \<and> (\<forall>x \<in> set ds. \<not> answers dial x)"
    and "r = Inl e \<Longrightarrow> set (filter (supports W network) (fg_outbounds g)) \<subseteq> set tried \<and> (\<forall>x \<in> set tried. \<not> answers dial x)"
proof -
  from a obtain closed tasks g' where "FallbackGroup_DialContext W dial ext network g = (r, tried, closed, tasks, g')"
    by (auto simp: fallback_attempts_def split: prod.splits)
  note t = fallback_tried [OF this] and dt = distinct_try_list [OF d, of W network] and st = set_try_list [of W network g]
  show "set tried \<subseteq> set (filter (supports W network) (fg_outbounds g)) \<and> distinct tried"
  proof (cases "find (answers dial) (try_list W network g)")
    case None
    then show ?thesis using t dt st by simp
  next
    case (Some x)
    with t have "tried = take (Suc (length (takeWhile (\<lambda>d. \<not> answers dial d) (try_list W network g)))) (try_list W network g)"
      using find_takeWhile [OF Some] by simp
    then show ?thesis using dt st by (metis distinct_take set_take_subset)
  qed
  show "\<exists>ds d. tried = ds @ [d] \<and> dial d = Inr c \<and> (\<forall>x \<in> set ds. \<not> answers dial x)" if "r = Inr c"
  proof (cases "find (answers dial) (try_list W network g)")
    case (Some x)
    with t that have "tried = takeWhile (\<lambda>d. \<not> answers dial d) (try_list W network g) @ [x]" "dial x = Inr c" by auto
    then show ?thesis by (intro exI [of _ "takeWhile (\<lambda>d. \<not> answers dial d) (try_list W network g)"] exI [of _ x])
        (auto dest: set_takeWhileD)
  qed (use t that in simp)
  show "set (filter (supports W network) (fg_outbounds g)) \<subseteq> set tried \<and> (\<forall>x \<in> set tried. \<not> answers dial x)" if "r = Inl e"
  proof (cases "find (answers dial) (try_list W network g)")
    case None
    then have "tried = try_list W network g" "\<forall>x \<in> set (try_list W network g). \<not> answers dial x"
      using t None find_None_iff [of "answers dial" "try_list W network g"] by simp_all
    then show ?thesis using st by simp
  next
    case (Some x)
    then have "answers dial x" by (auto simp: find_Some_iff)
    with Some t that show ?thesis by (auto simp: answers_def)
  qed
qed

interpretation fallback: failover "\<lambda>g. distinct (fg_outbounds g)" "\<lambda>g. filter (supports W network) (fg_outbounds g)"
    "fallback_attempts W ext network" for W ext network
proof unfold_locales
  fix g :: "'b fallback_group" and dial r tried
  assume "distinct (fg_outbounds g)" "fallback_attempts W ext network g dial = (r, tried)"
  then show "set tried \<subseteq> set (filter (supports W network) (fg_outbounds g)) \<and> distinct tried" by (rule fallback_laws)
next
  fix g :: "'b fallback_group" and dial c tried
  assume "distinct (fg_outbounds g)" "fallback_attempts W ext network g dial = (Inr c, tried)"
  then show "\<exists>ds d. tried = ds @ [d] \<and> dial d = Inr c \<and> (\<forall>x \<in> set ds. \<not> answers dial x)"
    by (rule fallback_laws(2)) (rule refl)
next
  fix g :: "'b fallback_group" and dial :: "outbound \<Rightarrow> 'b result" and e tried
  assume "distinct (fg_outbounds g)" "fallback_attempts W ext network g dial = (Inl e, tried)"
  then show "set (filter (supports W network) (fg_outbounds g)) \<subseteq> set tried \<and> (\<forall>x \<in> set tried. \<not> answers dial x)"
    by (rule fallback_laws(3)) (rule refl)
qed

section \<open>Load balance\<close>

definition balance_wf :: "load_balance_group \<Rightarrow> bool" where
  "balance_wf g \<longleftrightarrow> inj_on sv_id (set (lb_outbounds g)) \<and> length (lb_outbounds g) < 2 ^ 64 \<and>
     (\<forall>d \<in> set (lb_outbounds g). lb_outboundMap g (sv_Tag d) = Some d) \<and>
     (\<forall>t d. lb_outboundMap g t = Some d \<longrightarrow> d \<in> set (lb_outbounds g) \<and> sv_Tag d = t) \<and>
     lb_strategy g \<in> {LoadBalanceStrategyRoundRobin, LoadBalanceStrategyConsistentHashing, LoadBalanceStrategyStickySessions}"

lemma new_balance_wf:
  assumes "NewLoadBalanceGroup history outs interval idle timeout strategy = Inr g"
    and "inj_on sv_id (set outs)" and "inj_on sv_Tag (set outs)" and "length outs < 2 ^ 64"
    and "strategy \<in> {LoadBalanceStrategyRoundRobin, LoadBalanceStrategyConsistentHashing, LoadBalanceStrategyStickySessions}"
  shows "balance_wf g"
proof -
  let ?m = "map_of (rev (map (\<lambda>d. (sv_Tag d, d)) outs))"
  have m: "d \<in> set outs \<and> sv_Tag d = t" if "?m t = Some d" for t d using map_of_SomeD [OF that] by auto
  have n: "?m (sv_Tag d) = Some d" if "d \<in> set outs" for d
  proof -
    have "?m (sv_Tag d) \<noteq> None" using that by (simp add: map_of_eq_None_iff image_image)
    then obtain d' where d': "?m (sv_Tag d) = Some d'" by auto
    with m [OF d'] assms(3) that show ?thesis by (auto dest: inj_onD)
  qed
  have g: "lb_outbounds g = outs" "lb_outboundMap g = ?m" "lb_strategy g = strategy"
    using assms(1) by (auto simp: NewLoadBalanceGroup_def bind_r_def split: sum.splits)
  show ?thesis unfolding balance_wf_def g using assms(2,4,5) m n by blast
qed

lemma balance_wf_frame:
  "lb_outbounds g' = lb_outbounds g \<Longrightarrow> lb_outboundMap g' = lb_outboundMap g \<Longrightarrow> lb_strategy g' = lb_strategy g \<Longrightarrow>
   balance_wf g' = balance_wf g"
  by (simp add: balance_wf_def)

lemma selectOutbound_chooses:
  assumes "balance_wf g" and "selectOutbound keys now ds g = (r, g')" and "ds \<noteq> []" and "set ds \<subseteq> set (lb_outbounds g)"
    and "length ds \<le> length (lb_outbounds g)"
  shows "\<exists>d \<in> set ds. r = Inr (Some d)"
proof -
  have small: "length ds < 2 ^ 64" using assms(1,5) by (simp add: balance_wf_def)
  obtain x where x: "r = Inr x" using assms(1,2)
    by (auto simp: balance_wf_def selectOutbound_def split: prod.splits option.splits if_splits)
  with assms(2) have sel: "selectOutbound keys now ds g = (Inr x, g')" by simp
  obtain d d' where d: "x = Some d" "sv_id d = sv_id d'" "d' \<in> set ds"
    using selectOutbound_member [OF sel assms(3) small] by auto
  have "d \<in> set (lb_outbounds g)"
  proof (cases "lb_strategy g = LoadBalanceStrategyStickySessions")
    case True
    then show ?thesis using sel d(1) assms(1,4) rendezvousPick_member [OF assms(3), of "bk_sticky keys"]
      by (auto simp: selectOutbound_def strategy_names loadSticky_def Let_def balance_wf_def split: prod.splits option.splits if_splits)
  next
    case False
    then show ?thesis using sel d(1) assms(4) rendezvousPick_member [OF assms(3), of "bk_destination keys"]
        selectRoundRobin_member [OF _ assms(3) small]
      by (auto simp: selectOutbound_def split: prod.splits if_splits)
  qed
  then have "d = d'" using d(2,3) assms(1,4) by (auto simp: balance_wf_def dest: inj_onD)
  then show ?thesis using x d by auto
qed

text \<open>One turn of the loop, for a group in order.\<close>

definition remaining :: "group_world \<Rightarrow> string \<Rightarrow> nat list \<Rightarrow> load_balance_group \<Rightarrow> outbound list" where
  "remaining W network excluded g = not_excluded excluded (lb_candidates W network g)"

lemma remaining_sub:
  "set (remaining W network excluded g) \<subseteq> {d \<in> set (lb_outbounds g). supports W network d \<and> sv_id d \<notin> set excluded}"
  using lb_candidates_sub [of W network g] by (auto simp: remaining_def not_excluded_def)

lemma remaining_length: "length (remaining W network excluded g) \<le> length (lb_outbounds g)"
proof -
  have "length (lb_candidates W network g) \<le> length (lb_outbounds g)"
    by (auto simp: lb_candidates_def Let_def intro: order_trans [OF length_filter_le])
  then show ?thesis unfolding remaining_def not_excluded_def by (rule order_trans [OF length_filter_le])
qed

lemma lb_dial_turn:
  assumes "balance_wf g"
  shows "remaining W network excluded g = [] \<and>
      lb_dial W keys now dial concurrent network excluded lastErr g =
        (Inl (case lastErr of None \<Rightarrow> ENew ''missing supported outbound'' | Some e \<Rightarrow> e), [], [], g) \<or>
    (\<exists>d g1. d \<in> set (remaining W network excluded g) \<and>
       selectOutbound keys now (remaining W network excluded g) g = (Inr (Some d), g1) \<and> balance_wf g1 \<and>
       lb_outbounds g1 = lb_outbounds g \<and> lb_checker g1 = lb_checker g \<and> lb_strategy g1 = lb_strategy g \<and>
       lb_dial W keys now dial concurrent network excluded lastErr g =
         (case dial d of
            Inr c \<Rightarrow> (Inr c, [d], [], dial_succeeded keys now d g1)
          | Inl e \<Rightarrow>
              (case lb_dial W keys now dial concurrent network (sv_id d # excluded) (Some e)
                      (dial_failed W keys (concurrent (length excluded)) d g1) of
                 (r, tried, tasks, g2) \<Rightarrow>
                   (r, d # tried, if excluded = [] then CheckOutbounds True # tasks else tasks, g2))))"
proof (cases "remaining W network excluded g = []")
  case True
  then show ?thesis by (subst lb_dial.simps) (simp add: remaining_def Let_def)
next
  case False
  obtain r g1 where sel: "selectOutbound keys now (remaining W network excluded g) g = (r, g1)" by fastforce
  have "set (remaining W network excluded g) \<subseteq> set (lb_outbounds g)" using remaining_sub by blast
  from selectOutbound_chooses [OF assms sel False this remaining_length] obtain d where
    d: "d \<in> set (remaining W network excluded g)" "r = Inr (Some d)" by auto
  have fr: "lb_outbounds g1 = lb_outbounds g" "lb_checker g1 = lb_checker g" "lb_strategy g1 = lb_strategy g" "balance_wf g1"
    using selectOutbound_frame [OF sel] assms balance_wf_frame [of g1 g] by auto
  have "\<not> 2 ^ 64 \<le> length (remaining W network excluded g)"
    using remaining_length [of W network excluded g] assms by (simp add: balance_wf_def)
  then have "lb_dial W keys now dial concurrent network excluded lastErr g =
         (case dial d of
            Inr c \<Rightarrow> (Inr c, [d], [], dial_succeeded keys now d g1)
          | Inl e \<Rightarrow>
              (case lb_dial W keys now dial concurrent network (sv_id d # excluded) (Some e)
                      (dial_failed W keys (concurrent (length excluded)) d g1) of
                 (r, tried, tasks, g2) \<Rightarrow>
                   (r, d # tried, if excluded = [] then CheckOutbounds True # tasks else tasks, g2)))"
    using sel d(2) False by (subst lb_dial.simps) (simp add: remaining_def Let_def)
  then show ?thesis using sel d fr by blast
qed

lemma dial_failed_wf: "balance_wf (dial_failed W keys f d g) = balance_wf g"
  by (rule balance_wf_frame) (simp_all add: dial_failed_frame)

text \<open>The three ways a turn ends.\<close>

lemma lb_dial_cases:
  assumes "balance_wf g" and "lb_dial W keys now dial concurrent network excluded lastErr g = (r, tried, tasks, g')"
  obtains (exhausted) e where "remaining W network excluded g = []" "r = Inl e" "tried = []"
  | (connected) d c g1 where "d \<in> set (remaining W network excluded g)" "dial d = Inr c" "r = Inr c" "tried = [d]"
      "g' = dial_succeeded keys now d g1" "selectOutbound keys now (remaining W network excluded g) g = (Inr (Some d), g1)"
  | (failed) d e g1 tried1 tasks1 where "d \<in> set (remaining W network excluded g)" "dial d = Inl e" "balance_wf g1"
      "lb_outbounds g1 = lb_outbounds g" "lb_checker g1 = lb_checker g" "lb_strategy g1 = lb_strategy g" "tried = d # tried1"
      "lb_dial W keys now dial concurrent network (sv_id d # excluded) (Some e)
        (dial_failed W keys (concurrent (length excluded)) d g1) = (r, tried1, tasks1, g')"
      "length (not_excluded (sv_id d # excluded) (lb_outbounds g)) < length (not_excluded excluded (lb_outbounds g))"
proof -
  have shorter: "length (not_excluded (sv_id d # excluded) (lb_outbounds g)) < length (not_excluded excluded (lb_outbounds g))"
    if "d \<in> set (remaining W network excluded g)" for d
  proof -
    have "d \<in> set (lb_outbounds g)" "sv_id d \<notin> set excluded" using that remaining_sub by blast+
    then show ?thesis unfolding not_excluded_def by (intro length_filter_strict [of _ _ _ d]) auto
  qed
  from lb_dial_turn [OF assms(1), of W network excluded keys now dial concurrent lastErr] show thesis
  proof (elim disjE exE conjE)
    fix d g1
    assume d: "d \<in> set (remaining W network excluded g)" "balance_wf g1" "lb_outbounds g1 = lb_outbounds g"
      "lb_checker g1 = lb_checker g" "lb_strategy g1 = lb_strategy g"
      and sel: "selectOutbound keys now (remaining W network excluded g) g = (Inr (Some d), g1)"
      and run: "lb_dial W keys now dial concurrent network excluded lastErr g =
         (case dial d of
            Inr c \<Rightarrow> (Inr c, [d], [], dial_succeeded keys now d g1)
          | Inl e \<Rightarrow>
              (case lb_dial W keys now dial concurrent network (sv_id d # excluded) (Some e)
                      (dial_failed W keys (concurrent (length excluded)) d g1) of
                 (r, tried, tasks, g2) \<Rightarrow>
                   (r, d # tried, if excluded = [] then CheckOutbounds True # tasks else tasks, g2)))"
    show thesis
    proof (cases "dial d")
      case (Inl e)
      then show ?thesis using run assms(2) failed [OF d(1) Inl d(2-5) _ _ shorter [OF d(1)]] by (auto split: prod.splits)
    next
      case (Inr c)
      then show ?thesis using run assms(2) connected [OF d(1) Inr _ _ _ sel] by auto
    qed
  qed (use assms(2) exhausted in auto)
qed

text \<open>What the loop has tried, for whatever the concurrent checks do.\<close>

lemma lb_dial_tried:
  assumes "balance_wf g" and "lb_dial W keys now dial concurrent network excluded lastErr g = (r, tried, tasks, g')"
  shows "set tried \<subseteq> {d \<in> set (lb_outbounds g). supports W network d \<and> sv_id d \<notin> set excluded} \<and> distinct tried \<and>
    (\<forall>c. r = Inr c \<longrightarrow> (\<exists>ds d. tried = ds @ [d] \<and> dial d = Inr c \<and> (\<forall>x \<in> set ds. \<not> answers dial x))) \<and>
    (\<forall>e. r = Inl e \<longrightarrow> (\<forall>x \<in> set tried. \<not> answers dial x))"
  using assms
proof (induction "length (not_excluded excluded (lb_outbounds g))" arbitrary: excluded lastErr g tried tasks rule: less_induct)
  case less
  have sub: "set (remaining W network excluded g) \<subseteq> {d \<in> set (lb_outbounds g). supports W network d \<and> sv_id d \<notin> set excluded}"
    by (rule remaining_sub)
  from less.prems show ?case
  proof (cases rule: lb_dial_cases)
    case (failed d e g1 tried1 tasks1)
    have "set tried1 \<subseteq> {x \<in> set (lb_outbounds g). supports W network x \<and> sv_id x \<notin> set (sv_id d # excluded)} \<and> distinct tried1 \<and>
      (\<forall>c. r = Inr c \<longrightarrow> (\<exists>ds x. tried1 = ds @ [x] \<and> dial x = Inr c \<and> (\<forall>x \<in> set ds. \<not> answers dial x))) \<and>
      (\<forall>e. r = Inl e \<longrightarrow> (\<forall>x \<in> set tried1. \<not> answers dial x))"
      using less.hyps [OF _ _ failed(8)] failed(3,4,9) by (simp add: dial_failed_wf dial_failed_frame)
    moreover have "\<not> answers dial d" using failed(2) by simp
    ultimately show ?thesis using sub failed(1,7)
      by (auto intro: exI [of _ "d # ds" for ds])
  qed (use sub in auto)
qed

text \<open>The test of an outbound that has failed stays forgotten when no check runs meanwhile.\<close>

definition excluded_forgotten :: "group_world \<Rightarrow> nat list \<Rightarrow> load_balance_group \<Rightarrow> bool" where
  "excluded_forgotten W excluded g \<longleftrightarrow>
     (\<forall>d \<in> set (lb_outbounds g). sv_id d \<in> set excluded \<longrightarrow> \<not> available W (hc_history (lb_checker g)) d)"

lemma remaining_complete:
  assumes "excluded_forgotten W excluded g" and "remaining W network excluded g = []"
    and "d \<in> set (lb_outbounds g)" and "supports W network d"
  shows "sv_id d \<in> set excluded"
proof (cases "\<exists>x \<in> set (lb_outbounds g). supports W network x \<and> available W (hc_history (lb_checker g)) x")
  case True
  then obtain x where x: "x \<in> set (lb_outbounds g)" "supports W network x" "available W (hc_history (lb_checker g)) x" by blast
  then have "x \<in> set (lb_candidates W network g)" by (auto simp: lb_candidates_def Let_def)
  with assms(2) have "sv_id x \<in> set excluded" by (auto simp: remaining_def not_excluded_def filter_empty_conv)
  with assms(1) x show ?thesis by (auto simp: excluded_forgotten_def)
next
  case False
  then have "d \<in> set (lb_candidates W network g)"
    using assms(3,4) by (auto simp: lb_candidates_def Let_def filter_empty_conv)
  with assms(2) show ?thesis by (auto simp: remaining_def not_excluded_def filter_empty_conv)
qed

lemma excluded_forgotten_step:
  assumes "excluded_forgotten W excluded g" and "balance_wf g" and "d \<in> set (lb_outbounds g)"
    and "lb_outbounds g1 = lb_outbounds g" and "lb_checker g1 = lb_checker g"
  shows "excluded_forgotten W (sv_id d # excluded) (dial_failed W keys (\<lambda>h. h) d g1)"
  unfolding excluded_forgotten_def dial_failed_frame assms(4)
proof (intro ballI impI)
  fix x assume x: "x \<in> set (lb_outbounds g)" "sv_id x \<in> set (sv_id d # excluded)"
  show "\<not> available W ((hc_history (lb_checker g1))(RealTag W d := None)) x"
  proof (cases "sv_id x = sv_id d")
    case True
    then have "x = d" using x(1) assms(2,3) by (auto simp: balance_wf_def dest: inj_onD)
    then show ?thesis by (simp add: available_def LoadURLTestHistory_def)
  next
    case False
    then show ?thesis using x assms(1,5) by (auto simp: excluded_forgotten_def available_def LoadURLTestHistory_def)
  qed
qed

lemma lb_dial_exhausts:
  assumes "balance_wf g" and "excluded_forgotten W excluded g"
    and "lb_dial W keys now dial (\<lambda>_ h. h) network excluded lastErr g = (Inl e, tried, tasks, g')"
  shows "\<forall>d \<in> set (lb_outbounds g). supports W network d \<longrightarrow> sv_id d \<in> set excluded \<or> d \<in> set tried"
  using assms
proof (induction "length (not_excluded excluded (lb_outbounds g))" arbitrary: excluded lastErr g tried tasks rule: less_induct)
  case less
  from less.prems(1,3) show ?case
  proof (cases rule: lb_dial_cases)
    case (failed d e1 g1 tried1 tasks1)
    have d: "d \<in> set (lb_outbounds g)" using failed(1) remaining_sub by blast
    have "\<forall>x \<in> set (lb_outbounds g). supports W network x \<longrightarrow> sv_id x \<in> set (sv_id d # excluded) \<or> x \<in> set tried1"
      using less.hyps [OF _ _ excluded_forgotten_step [OF less.prems(2,1) d failed(4,5)] failed(8)] failed(3,4,9)
      by (simp add: dial_failed_frame dial_failed_wf)
    then show ?thesis using failed(7) d less.prems(1) by (auto simp: balance_wf_def dest: inj_onD)
  qed (use remaining_complete [OF less.prems(2)] in auto)
qed

definition balance_attempts ::
  "group_world \<Rightarrow> balance_keys \<Rightarrow> int \<Rightarrow> string \<Rightarrow> load_balance_group \<Rightarrow> (outbound \<Rightarrow> 'c result) \<Rightarrow> 'c result \<times> outbound list" where
  "balance_attempts W keys now network g dial =
     (case LoadBalanceGroup_DialContext W keys now dial (\<lambda>_ h. h) network g of (r, tried, _) \<Rightarrow> (r, tried))"

lemma balance_attempts_run:
  assumes "balance_attempts W keys now network g dial = (r, tried)"
  obtains tasks g' where "lb_dial W keys now dial (\<lambda>_ h. h) network [] None g = (r, tried, tasks, g')"
  using assms by (auto simp: balance_attempts_def LoadBalanceGroup_DialContext_def split: prod.splits)

interpretation balance: failover balance_wf "\<lambda>g. filter (supports W network) (lb_outbounds g)"
    "balance_attempts W keys now network" for W keys now network
proof unfold_locales
  fix g and dial :: "outbound \<Rightarrow> 'b result" and r tried
  assume w: "balance_wf g" and a: "balance_attempts W keys now network g dial = (r, tried)"
  from balance_attempts_run [OF a] obtain tasks g' where
    "lb_dial W keys now dial (\<lambda>_ h. h) network [] None g = (r, tried, tasks, g')" .
  from lb_dial_tried [OF w this] show "set tried \<subseteq> set (filter (supports W network) (lb_outbounds g)) \<and> distinct tried" by auto
next
  fix g and dial :: "outbound \<Rightarrow> 'b result" and c tried
  assume w: "balance_wf g" and a: "balance_attempts W keys now network g dial = (Inr c, tried)"
  from balance_attempts_run [OF a] obtain tasks g' where
    "lb_dial W keys now dial (\<lambda>_ h. h) network [] None g = (Inr c, tried, tasks, g')" .
  from lb_dial_tried [OF w this] show "\<exists>ds d. tried = ds @ [d] \<and> dial d = Inr c \<and> (\<forall>x \<in> set ds. \<not> answers dial x)" by blast
next
  fix g and dial :: "outbound \<Rightarrow> 'b result" and e tried
  assume w: "balance_wf g" and a: "balance_attempts W keys now network g dial = (Inl e, tried)"
  from balance_attempts_run [OF a] obtain tasks g' where
    run: "lb_dial W keys now dial (\<lambda>_ h. h) network [] None g = (Inl e, tried, tasks, g')" .
  have "excluded_forgotten W [] g" by (simp add: excluded_forgotten_def)
  from lb_dial_exhausts [OF w this run] lb_dial_tried [OF w run]
  show "set (filter (supports W network) (lb_outbounds g)) \<subseteq> set tried \<and> (\<forall>x \<in> set tried. \<not> answers dial x)" by auto
qed

section \<open>Claims about dialing\<close>

text \<open>C18 (fallback_order): a fallback group dials the outbounds of the network that passed
  their last test, in the order of its configuration, and then the others. The connection is
  that of the first one that answers; all before it have been tried and failed, and an error
  is returned only when all have failed.\<close>

theorem fallback_order:
  "case FallbackGroup_DialContext W dial ext network g of (r, tried, closed, tasks, g') \<Rightarrow>
     let candidates = filter (supports W network) (fg_outbounds g);
         good = available W (hc_history (fg_checker g));
         order = filter good candidates @ filter (\<lambda>d. \<not> good d) candidates
     in (case find (answers dial) order of
           None \<Rightarrow> (\<exists>e. r = Inl e) \<and> tried = order
         | Some d \<Rightarrow> r = dial d \<and> tried = takeWhile (\<lambda>d. \<not> answers dial d) order @ [d])"
proof -
  obtain r tried closed tasks g' where f: "FallbackGroup_DialContext W dial ext network g = (r, tried, closed, tasks, g')"
    by (rule prod_cases5)
  from fallback_tried [OF f, unfolded try_list_def Let_def] show ?thesis by (simp only: f prod.case Let_def)
qed

text \<open>C19 (load_balance_serves): whatever the strategy, as long as no check runs meanwhile,
  dialing through a load balance group succeeds exactly when one of its outbounds for the
  network answers, and no outbound is tried twice.\<close>

theorem load_balance_serves:
  assumes "balance_wf g"
  shows "((\<exists>c. fst (LoadBalanceGroup_DialContext W keys now dial (\<lambda>_ h. h) network g) = Inr c) \<longleftrightarrow>
      (\<exists>d \<in> set (lb_outbounds g). supports W network d \<and> (\<exists>c. dial d = Inr c))) \<and>
    distinct (fst (snd (LoadBalanceGroup_DialContext W keys now dial (\<lambda>_ h. h) network g)))"
proof -
  have a: "balance_attempts W keys now network g dial =
      (fst (LoadBalanceGroup_DialContext W keys now dial (\<lambda>_ h. h) network g),
       fst (snd (LoadBalanceGroup_DialContext W keys now dial (\<lambda>_ h. h) network g)))"
    by (simp add: balance_attempts_def split: prod.splits)
  then show ?thesis
    using balance.serves_iff [OF assms, of W keys now network dial] balance.tried_members [OF assms a]
    by (auto simp: answers_def)
qed

section \<open>Round robin\<close>

text \<open>Selections one after the other.\<close>

fun round_robin :: "nat \<Rightarrow> outbound list \<Rightarrow> load_balance_group \<Rightarrow> outbound list" where
  "round_robin 0 candidates g = []"
| "round_robin (Suc n) candidates g =
     (case selectRoundRobin candidates g of (detour, g1) \<Rightarrow> detour # round_robin n candidates g1)"

lemma round_robin_nth:
  assumes "0 < length ds" and "length ds < 2 ^ 64" and "unat (lb_rrCounter g) + n < 2 ^ 64"
  shows "round_robin n ds g = map (\<lambda>i. ds ! ((unat (lb_rrCounter g) + i) mod length ds)) [0..<n]"
  using assms(3)
proof (induction n arbitrary: g)
  case (Suc n)
  obtain d g1 where s: "selectRoundRobin ds g = (d, g1)" by fastforce
  have len: "unat (word_of_nat (length ds) :: u64) = length ds"
    using assms(2) by (simp add: unsigned_of_nat take_bit_nat_eq_self)
  have d: "d = ds ! (unat (lb_rrCounter g) mod length ds)"
    using s by (auto simp: selectRoundRobin_def Let_def unat_mod_distrib len)
  have "lb_rrCounter g1 = lb_rrCounter g + 1" using s by (auto simp: selectRoundRobin_def Let_def)
  moreover have "unat (lb_rrCounter g + 1) = Suc (unat (lb_rrCounter g))"
  proof -
    have "unat (lb_rrCounter g) + unat (1 :: u64) < 2 ^ 64" using Suc.prems by simp
    then show ?thesis using unat_add_lem [of "lb_rrCounter g" 1] by simp
  qed
  ultimately have "round_robin n ds g1 = map (\<lambda>i. ds ! ((Suc (unat (lb_rrCounter g)) + i) mod length ds)) [0..<n]"
    using Suc.IH [of g1] Suc.prems by simp
  then show ?case using s d by (simp add: upt_conv_Cons map_Suc_upt [symmetric] comp_def del: upt_Suc)
qed simp

lemma mset_rotation: "mset (rotate n xs) = mset xs"
proof -
  have "mset (drop m xs @ take m xs) = mset (take m xs @ drop m xs)" for m by (simp del: append_take_drop_id)
  then show ?thesis by (simp add: rotate_drop_take)
qed

text \<open>Remark (round_robin_rotates): over as many connections as there are candidates, round
  robin goes once around: the selections are a rotation of the list of candidates, so every
  candidate serves exactly one of them.\<close>

theorem round_robin_rotates:
  assumes "0 < length ds" and "unat (lb_rrCounter g) + length ds < 2 ^ 64"
  shows "round_robin (length ds) ds g = rotate (unat (lb_rrCounter g)) ds \<and> mset (round_robin (length ds) ds g) = mset ds"
proof -
  have "round_robin (length ds) ds g = rotate (unat (lb_rrCounter g)) ds"
    using assms by (subst round_robin_nth) (auto intro!: nth_equalityI simp: nth_rotate)
  then show ?thesis by (simp add: mset_rotation)
qed

section \<open>Rendezvous hashing\<close>

definition rendezvous_score :: "string \<Rightarrow> outbound \<Rightarrow> u64" where
  "rendezvous_score key d = fnv1a64 (key @ ''|'' @ sv_Tag d)"

definition first_best :: "string \<Rightarrow> outbound list \<Rightarrow> outbound \<Rightarrow> bool" where
  "first_best key ds d \<longleftrightarrow> (\<exists>before after. ds = before @ d # after \<and>
     (\<forall>x \<in> set before. rendezvous_score key x < rendezvous_score key d) \<and>
     (\<forall>x \<in> set after. rendezvous_score key x \<le> rendezvous_score key d))"

lemma first_best_unique: "first_best key ds d \<Longrightarrow> first_best key ds d' \<Longrightarrow> d = d'"
  unfolding first_best_def
proof (elim exE conjE)
  fix b a b' a'
  assume s: "ds = b @ d # a" "ds = b' @ d' # a'"
    and "\<forall>x \<in> set b. rendezvous_score key x < rendezvous_score key d" "\<forall>x \<in> set a. rendezvous_score key x \<le> rendezvous_score key d"
    and "\<forall>x \<in> set b'. rendezvous_score key x < rendezvous_score key d'" "\<forall>x \<in> set a'. rendezvous_score key x \<le> rendezvous_score key d'"
  then show "d = d'" using s by (fastforce simp: append_eq_append_conv2 Cons_eq_append_conv append_eq_Cons_conv)
qed

lemma fold_first_best:
  "first_best key ds d \<Longrightarrow> fst (fold (rendezvous_step key) ds' (Some d, rendezvous_score key d)) = Some x \<Longrightarrow>
   first_best key (ds @ ds') x"
proof (induction ds' arbitrary: ds d)
  case (Cons y ds')
  have best: "first_best key (ds @ [y]) (if rendezvous_score key y > rendezvous_score key d then y else d)"
  proof (cases "rendezvous_score key y > rendezvous_score key d")
    case True
    then have "\<forall>z \<in> set ds. rendezvous_score key z < rendezvous_score key y"
      using Cons.prems(1) by (fastforce simp: first_best_def)
    then show ?thesis using True unfolding first_best_def by (intro exI [of _ ds] exI [of _ "[]"]) simp
  next
    case False
    then show ?thesis using Cons.prems(1) unfolding first_best_def by (auto simp: not_less) (metis Un_iff empty_iff insert_iff list.set(1,2) set_append)
  qed
  show ?case using Cons.IH [OF best] Cons.prems(2)
    by (auto simp: rendezvous_step_def rendezvous_score_def Let_def split: if_splits)
qed simp

lemma rendezvousPick_first_best: "rendezvousPick key ds = Some d \<longleftrightarrow> first_best key ds d"
proof
  assume p: "rendezvousPick key ds = Some d"
  then obtain x ds' where ds: "ds = x # ds'" by (cases ds) (auto simp: rendezvousPick_def)
  have "first_best key [x] x" unfolding first_best_def by (intro exI [of _ "[]"]) simp
  from fold_first_best [OF this, of ds' d] p show "first_best key ds d"
    by (simp add: ds rendezvousPick_def rendezvous_step_def rendezvous_score_def Let_def)
next
  assume f: "first_best key ds d"
  then have "ds \<noteq> []" by (auto simp: first_best_def)
  then obtain x where x: "rendezvousPick key ds = Some x" using rendezvousPick_member by blast
  then obtain y ds' where ds: "ds = y # ds'" by (cases ds) (auto simp: rendezvousPick_def)
  have "first_best key [y] y" unfolding first_best_def by (intro exI [of _ "[]"]) simp
  from fold_first_best [OF this, of ds' x] x have "first_best key ds x"
    by (simp add: ds rendezvousPick_def rendezvous_step_def rendezvous_score_def Let_def)
  with first_best_unique [OF f] x show "rendezvousPick key ds = Some d" by simp
qed

text \<open>C35 (rendezvous_moves_few): consistent hashing moves no more destinations than it must:
  when outbounds drop out of the candidates, a destination stays with its outbound as long as
  that one is still there.\<close>

theorem rendezvous_moves_few:
  assumes "rendezvousPick key candidates = Some d" and "P d"
  shows "rendezvousPick key (filter P candidates) = Some d"
proof -
  from assms(1) obtain b a where "candidates = b @ d # a" "\<forall>x \<in> set b. rendezvous_score key x < rendezvous_score key d"
    "\<forall>x \<in> set a. rendezvous_score key x \<le> rendezvous_score key d"
    by (auto simp: rendezvousPick_first_best first_best_def)
  then show ?thesis using assms(2) unfolding rendezvousPick_first_best first_best_def
    by (intro exI [of _ "filter P b"] exI [of _ "filter P a"]) simp
qed

section \<open>Sticky sessions\<close>

lemma dial_succeeded_frame:
  "lb_outbounds (dial_succeeded keys now d g) = lb_outbounds g" "lb_strategy (dial_succeeded keys now d g) = lb_strategy g"
  "lb_outboundMap (dial_succeeded keys now d g) = lb_outboundMap g"
  by (simp_all add: dial_succeeded_def storeSticky_def Let_def)

lemma lb_dial_remembers:
  assumes "balance_wf g" and "lb_strategy g = LoadBalanceStrategyStickySessions"
    and "lb_dial W keys now dial concurrent network excluded lastErr g = (Inr c, tried @ [d], tasks, g')"
  shows "balance_wf g' \<and> lb_strategy g' = LoadBalanceStrategyStickySessions \<and> d \<in> set (lb_outbounds g') \<and>
    lb_stickyCache g' (bk_sticky keys) = Some \<lparr>se_tag = sv_Tag d, se_expire = now + 10 * 60 * Second\<rparr>"
  using assms
proof (induction "length (not_excluded excluded (lb_outbounds g))" arbitrary: excluded lastErr g tried tasks rule: less_induct)
  case less
  from less.prems(1,3) show ?case
  proof (cases rule: lb_dial_cases)
    case (connected x c' g1)
    have x: "x = d" using connected(4) by simp
    note fr = selectOutbound_frame [OF connected(6)]
    have "balance_wf g'" using less.prems(1) fr connected(5)
      by (subst balance_wf_frame [of g' g]) (simp_all add: dial_succeeded_frame)
    moreover have "d \<in> set (lb_outbounds g')" using connected(1,5) fr x remaining_sub [of W network excluded g]
      by (auto simp: dial_succeeded_frame)
    ultimately show ?thesis using connected(5) x less.prems(2) fr
      by (simp add: dial_succeeded_def storeSticky_def Let_def)
  next
    case (failed x e g1 tried1 tasks1)
    obtain tried2 where t2: "tried1 = tried2 @ [d]"
    proof -
      have "tried1 \<noteq> []" using lb_dial_tried [OF _ failed(8)] failed(3) by (auto simp: dial_failed_wf)
      with failed(7) show thesis using that [of "butlast tried1"] by (cases tried1 rule: rev_cases) (auto simp: append_eq_Cons_conv)
    qed
    show ?thesis using less.hyps [OF _ _ _ failed(8) [unfolded t2]] failed(3,4,6,9) less.prems(2)
      by (simp add: dial_failed_wf dial_failed_frame)
  qed simp
qed

text \<open>Remark (sticky_session_kept): with sticky sessions, once a connection has been made for a
  source and a destination, the next one within ten minutes goes to the same outbound, and to
  no other first, as long as that outbound is among the candidates and answers, whatever the
  tests have found meanwhile.\<close>

theorem sticky_session_kept:
  assumes "balance_wf g" and "lb_strategy g = LoadBalanceStrategyStickySessions"
    and "LoadBalanceGroup_DialContext W keys now dial concurrent network g = (Inr c, tried @ [d], tasks, g1)"
    and "now2 \<le> now + 10 * 60 * Second" and "bk_sticky keys2 = bk_sticky keys"
    and "d \<in> set (lb_candidates W2 network2 (g1\<lparr>lb_checker := checker\<rparr>))" and "dial2 d = Inr c2"
  shows "\<exists>g2. LoadBalanceGroup_DialContext W2 keys2 now2 dial2 concurrent2 network2 (g1\<lparr>lb_checker := checker\<rparr>) =
    (Inr c2, [d], [], g2)"
proof -
  let ?g = "g1\<lparr>lb_checker := checker\<rparr>"
  from lb_dial_remembers [OF assms(1,2) assms(3) [unfolded LoadBalanceGroup_DialContext_def]]
  have g1: "balance_wf g1" "lb_strategy g1 = LoadBalanceStrategyStickySessions" "d \<in> set (lb_outbounds g1)"
    "lb_stickyCache g1 (bk_sticky keys) = Some \<lparr>se_tag = sv_Tag d, se_expire = now + 10 * 60 * Second\<rparr>" by auto
  then have wf: "balance_wf ?g" by (simp add: balance_wf_frame [of ?g g1])
  have rem: "remaining W2 network2 [] ?g = lb_candidates W2 network2 ?g" by (simp add: remaining_def not_excluded_def)
  have "loadSticky now2 (bk_sticky keys2) (lb_candidates W2 network2 ?g) ?g = (Some d, ?g)"
    using g1 assms(4-6) by (auto simp: loadSticky_def balance_wf_def Let_def)
  then have sel: "selectOutbound keys2 now2 (remaining W2 network2 [] ?g) ?g = (Inr (Some d), ?g)"
    using g1(2) by (simp add: selectOutbound_def strategy_names rem)
  from lb_dial_turn [OF wf, of W2 network2 "[]" keys2 now2 dial2 concurrent2 None] sel assms(6,7) rem
  show ?thesis by (auto simp: LoadBalanceGroup_DialContext_def)
qed

section \<open>URL test\<close>

definition delay_of :: "group_world \<Rightarrow> history \<Rightarrow> outbound \<Rightarrow> nat option" where
  "delay_of W h d = map_option (\<lambda>u. unat (uh_Delay u)) (LoadURLTestHistory h (RealTag W d))"

text \<open>Tests with a delay of at least a millisecond that stay in range with the tolerance added.\<close>

definition tests_in_range :: "group_world \<Rightarrow> history \<Rightarrow> nat \<Rightarrow> outbound list \<Rightarrow> bool" where
  "tests_in_range W h tolerance ds \<longleftrightarrow>
     (\<forall>d \<in> set ds. \<forall>t. delay_of W h d = Some t \<longrightarrow> 0 < t \<and> t + tolerance < 2 ^ 16)"

lemma unat_u16: "t < 2 ^ 16 \<Longrightarrow> unat (word_of_nat t :: u16) = t"
  by (simp add: unsigned_of_nat take_bit_nat_eq_self)

lemma consider_detour_cases:
  assumes "tests_in_range W h (unat tol) [d]"
  shows "consider_detour W network h tol d (m, mo) =
    (case delay_of W h d of
       None \<Rightarrow> (m, mo)
     | Some t \<Rightarrow> if supports W network d \<and> (m = 0 \<or> unat m > t + unat tol) then (word_of_nat t, Some d) else (m, mo))"
proof (cases "LoadURLTestHistory h (RealTag W d)")
  case (Some u)
  then have "unat (uh_Delay u) + unat tol < 2 ^ 16" using assms by (simp add: tests_in_range_def delay_of_def)
  then have "unat (uh_Delay u + tol) = unat (uh_Delay u) + unat tol" using unat_add_lem [of "uh_Delay u" tol] by simp
  then show ?thesis using Some by (simp add: consider_detour_def delay_of_def word_less_nat_alt)
qed (simp add: consider_detour_def delay_of_def)

lemma fold_consider:
  assumes "tests_in_range W h (unat tol) ds"
    and "fold (consider_detour W network h tol) ds (m0, mo0) = (m, mo)"
  shows "(m0 \<noteq> 0 \<longrightarrow> m \<noteq> 0 \<and> unat m \<le> unat m0) \<and>
    (\<forall>d \<in> set ds. \<forall>t. supports W network d \<longrightarrow> delay_of W h d = Some t \<longrightarrow> m \<noteq> 0 \<and> unat m \<le> t + unat tol) \<and>
    ((m, mo) = (m0, mo0) \<or>
     (\<exists>d \<in> set ds. mo = Some d \<and> supports W network d \<and> delay_of W h d = Some (unat m)) \<and>
     (m0 \<noteq> 0 \<longrightarrow> unat m + unat tol < unat m0))"
  using assms
proof (induction ds arbitrary: m0 mo0)
  case (Cons d ds)
  obtain m1 mo1 where s: "consider_detour W network h tol d (m0, mo0) = (m1, mo1)" by fastforce
  have one: "tests_in_range W h (unat tol) [d]" and rest: "tests_in_range W h (unat tol) ds"
    using Cons.prems(1) by (auto simp: tests_in_range_def)
  note IH = Cons.IH [OF rest, of m1 mo1] and c = consider_detour_cases [OF one, of network m0 mo0]
  show ?case
  proof (cases "(m1, mo1) = (m0, mo0)")
    case True
    have "m0 \<noteq> 0 \<and> unat m0 \<le> t + unat tol" if t: "supports W network d" "delay_of W h d = Some t" for t
    proof -
      have "0 < t" "t < 2 ^ 16" using one t by (auto simp: tests_in_range_def)
      with unat_u16 [of t] have "unat (word_of_nat t :: u16) = t" "(word_of_nat t :: u16) \<noteq> 0" by auto
      then show ?thesis using c s True t by (auto split: if_splits)
    qed
    then show ?thesis using IH Cons.prems(2) s True by fastforce
  next
    case False
    then obtain t where t: "delay_of W h d = Some t" "supports W network d" "m1 = word_of_nat t" "mo1 = Some d"
      "m0 = 0 \<or> unat m0 > t + unat tol"
      using c s by (auto split: option.splits if_splits)
    have "0 < t" "t < 2 ^ 16" using one t(1) by (auto simp: tests_in_range_def)
    then have m1: "unat m1 = t" using t(3) unat_u16 by simp
    then have "m1 \<noteq> 0" using \<open>0 < t\<close> by auto
    then show ?thesis using IH Cons.prems(2) s t m1 by fastforce
  qed
qed simp

text \<open>C26 (urltest_near_fastest): let all tests of the members show delays of at least one
  millisecond whose sum with the tolerance fits into 16 bits. The outbound a URL test group selects by its tests is then at most the tolerance
  slower than any tested outbound of the network; and if the outbound selected before is a member that still has a
  test, it is given up only for an outbound that is faster by more than the tolerance.\<close>

theorem urltest_near_fastest:
  assumes "URLTest_Select W network g = (Some d, True)"
    and "tests_in_range W (hc_history g) (unat (ug_tolerance g)) (hc_outbounds g)"
    and "\<forall>s. selected_for network g = Some s \<longrightarrow> s \<in> set (hc_outbounds g)"
  shows "\<exists>t. delay_of W (hc_history g) d = Some t \<and>
    (\<forall>x \<in> set (hc_outbounds g). \<forall>t'. supports W network x \<longrightarrow> delay_of W (hc_history g) x = Some t' \<longrightarrow>
       t \<le> t' + unat (ug_tolerance g)) \<and>
    (\<forall>s t'. selected_for network g = Some s \<longrightarrow> delay_of W (hc_history g) s = Some t' \<longrightarrow> d \<noteq> s \<longrightarrow>
       t + unat (ug_tolerance g) < t')"
proof -
  let ?h = "hc_history g" and ?tol = "ug_tolerance g"
  obtain m0 mo0 where start: "tested_selection W network g = (m0, mo0)" by fastforce
  obtain m where f: "fold (consider_detour W network ?h ?tol) (hc_outbounds g) (m0, mo0) = (m, Some d)"
    using assms(1) by (auto simp: URLTest_Select_def start split: prod.splits option.splits)
  note r = fold_consider [OF assms(2) f]
  have s: "m0 \<noteq> 0 \<and> unat m0 = t' \<and> mo0 = Some s" if "selected_for network g = Some s" "delay_of W ?h s = Some t'" for s t'
  proof -
    have "0 < t'" using assms(2,3) that by (auto simp: tests_in_range_def)
    then show ?thesis using that start
      by (auto simp: tested_selection_def delay_of_def split: option.splits)
  qed
  have none: "mo0 = Some x \<Longrightarrow> selected_for network g = Some x \<and> delay_of W ?h x = Some (unat m0)" for x
    using start by (auto simp: tested_selection_def delay_of_def split: option.splits)
  have near: "\<forall>x \<in> set (hc_outbounds g). \<forall>t'. supports W network x \<longrightarrow> delay_of W ?h x = Some t' \<longrightarrow> unat m \<le> t' + unat ?tol"
    using r by blast
  consider (kept) "m = m0" "mo0 = Some d"
    | (changed) "delay_of W ?h d = Some (unat m)" "m0 \<noteq> 0 \<longrightarrow> unat m + unat ?tol < unat m0"
    using r by auto
  then show ?thesis
  proof cases
    case kept
    with none have "selected_for network g = Some d" "delay_of W ?h d = Some (unat m)" by auto
    then show ?thesis using near by auto
  next
    case changed
    have "unat m + unat ?tol < t'" if "selected_for network g = Some s" "delay_of W ?h s = Some t'" for s t'
      using s [OF that] changed(2) by auto
    then show ?thesis using near changed(1) by blast
  qed
qed

text \<open>
  The selection of a network is a member that served the network in one of the worlds \<open>Ws\<close>. The world changes:
  the networks of a member that is a selector are those of what it has selected.
\<close>

definition served :: "group_world list \<Rightarrow> string \<Rightarrow> outbound \<Rightarrow> bool" where
  "served Ws network s \<longleftrightarrow> list_ex (\<lambda>W. supports W network s) Ws"

definition selection_ok :: "group_world list \<Rightarrow> 'c urltest_group \<Rightarrow> bool" where
  "selection_ok Ws g \<longleftrightarrow>
     (\<forall>s. ug_selectedTCP g = Some s \<longrightarrow> s \<in> set (hc_outbounds g) \<and> served Ws NetworkTCP s) \<and>
     (\<forall>s. ug_selectedUDP g = Some s \<longrightarrow> s \<in> set (hc_outbounds g) \<and> served Ws NetworkUDP s)"

lemma selection_okD:
  "selection_ok Ws g \<Longrightarrow> selected_for network g = Some s \<Longrightarrow> s \<in> set (hc_outbounds g) \<and> served Ws network s"
  by (auto simp: selection_ok_def selected_for_def split: if_splits)

lemma selection_ok_mono: "selection_ok Ws g \<Longrightarrow> selection_ok (Ws @ Ws') g"
  by (auto simp: selection_ok_def served_def)

lemma fold_consider_member:
  "fold (consider_detour W network h tol) ds (m0, mo0) = (m, Some d) \<Longrightarrow> mo0 = Some d \<or> d \<in> set ds \<and> supports W network d"
  by (induction ds arbitrary: m0 mo0) (fastforce simp: consider_detour_def split: option.splits if_splits)+

lemma URLTest_Select_member:
  assumes "selection_ok Ws g" and "W \<in> set Ws" and "fst (URLTest_Select W network g) = Some d"
  shows "d \<in> set (hc_outbounds g) \<and> served Ws network d"
proof -
  have now: "supports W network d \<Longrightarrow> served Ws network d" using assms(2) by (auto simp: served_def list_ex_iff)
  obtain m0 mo0 where start: "tested_selection W network g = (m0, mo0)" by fastforce
  then have "mo0 = Some d \<Longrightarrow> selected_for network g = Some d" by (auto simp: tested_selection_def split: option.splits)
  then have sel: "mo0 = Some d \<Longrightarrow> d \<in> set (hc_outbounds g) \<and> served Ws network d" using selection_okD [OF assms(1)] by blast
  obtain m mo where f: "fold (consider_detour W network (hc_history g) (ug_tolerance g)) (hc_outbounds g) (m0, mo0) = (m, mo)" by fastforce
  show ?thesis
  proof (cases mo)
    case None
    then show ?thesis using assms(3) f start now by (auto simp: URLTest_Select_def find_Some_iff)
  next
    case (Some x)
    then have "mo = Some d" using assms(3) f start by (simp add: URLTest_Select_def)
    then show ?thesis using fold_consider_member f sel now by blast
  qed
qed

lemma update_selected_ok:
  assumes "update_selected found selected = (o1, u)" and "\<And>s. selected = Some s \<Longrightarrow> P s" and "\<And>s. fst found = Some s \<Longrightarrow> P s"
    and "o1 = Some s"
  shows "P s"
  using assms by (auto simp: update_selected_def split: prod.splits option.splits if_splits)

lemma update_keeps_selection:
  assumes "selection_ok Ws g" and W: "W \<in> set Ws"
  shows "selection_ok Ws (snd (URLTest_performUpdateCheck W g))"
proof -
  obtain tcp u1 where t: "update_selected (URLTest_Select W NetworkTCP g) (ug_selectedTCP g) = (tcp, u1)" by fastforce
  let ?g1 = "g\<lparr>ug_selectedTCP := tcp\<rparr>"
  obtain udp u2 where u: "update_selected (URLTest_Select W NetworkUDP ?g1) (ug_selectedUDP g) = (udp, u2)" by fastforce
  have "s \<in> set (hc_outbounds g) \<and> served Ws NetworkTCP s" if "tcp = Some s" for s
    by (rule update_selected_ok [OF t _ _ that, where P = "\<lambda>s. s \<in> set (hc_outbounds g) \<and> served Ws NetworkTCP s"])
      (use assms(1) URLTest_Select_member [OF assms, of NetworkTCP] in \<open>auto simp: selection_ok_def\<close>)
  then have g1: "selection_ok Ws ?g1" using assms(1) by (simp add: selection_ok_def)
  have "s \<in> set (hc_outbounds g) \<and> served Ws NetworkUDP s" if "udp = Some s" for s
    by (rule update_selected_ok [OF u _ _ that, where P = "\<lambda>s. s \<in> set (hc_outbounds g) \<and> served Ws NetworkUDP s"])
      (use assms(1) URLTest_Select_member [OF g1 W, of NetworkUDP] in \<open>auto simp: selection_ok_def\<close>)
  then have "selection_ok Ws (?g1\<lparr>ug_selectedUDP := udp\<rparr>)" using g1 by (simp add: selection_ok_def)
  then show ?thesis using t u
    by (simp add: URLTest_performUpdateCheck_def Let_def Group_Interrupt_def selection_ok_def)
qed

text \<open>
  What happens to a URL test group of the outbounds \<open>outs\<close> over time: its start, checks, connections and packets, each in the world of its
  moment, and tests that others write to the shared history. The list holds the worlds of the checks.
\<close>

inductive urltest_reachable :: "outbound list \<Rightarrow> group_world list \<Rightarrow> 'c urltest_group \<Rightarrow> bool" for outs where
  created: "NewURLTestGroup history outs interval tolerance idle ext = Inr g \<Longrightarrow> urltest_reachable outs [] g"
| started: "urltest_reachable outs Ws g \<Longrightarrow> Checker_PostStart now g = (tasks, g') \<Longrightarrow> urltest_reachable outs Ws g'"
| shared: "urltest_reachable outs Ws g \<Longrightarrow> urltest_reachable outs Ws (g\<lparr>hc_history := history\<rparr>)"
| checked: "urltest_reachable outs Ws g \<Longrightarrow> URLTest_urlTest W lookup test now force g = (result, closed, g') \<Longrightarrow>
    urltest_reachable outs (Ws @ [W]) g'"
| dialed: "urltest_reachable outs Ws g \<Longrightarrow> URLTest_DialContext W dial now ext network g = (r, tasks, g') \<Longrightarrow> urltest_reachable outs Ws g'"
| listened: "urltest_reachable outs Ws g \<Longrightarrow> URLTest_ListenPacket W dial now ext g = (r, tasks, g') \<Longrightarrow> urltest_reachable outs Ws g'"

lemma selection_ok_frame:
  "hc_outbounds g' = hc_outbounds g \<Longrightarrow> ug_selectedTCP g' = ug_selectedTCP g \<Longrightarrow> ug_selectedUDP g' = ug_selectedUDP g \<Longrightarrow>
   selection_ok Ws g' = selection_ok Ws g"
  by (simp add: selection_ok_def)

lemma update_frame: "hc_outbounds (snd (URLTest_performUpdateCheck W g)) = hc_outbounds g"
  by (simp add: URLTest_performUpdateCheck_def Let_def Group_Interrupt_def split: prod.split)

lemma Checker_Touch_frame:
  "Checker_Touch now g = (tasks, g') \<Longrightarrow> hc_outbounds g' = hc_outbounds g \<and> ug_selectedTCP g' = ug_selectedTCP g \<and>
     ug_selectedUDP g' = ug_selectedUDP g"
  for g :: "'c urltest_group"
  by (auto simp: Checker_Touch_def split: if_splits)

lemma urltest_dial_frame:
  "urltest_dial dial ext o1 g = (r, g') \<Longrightarrow> hc_outbounds g' = hc_outbounds g \<and> ug_selectedTCP g' = ug_selectedTCP g \<and>
     ug_selectedUDP g' = ug_selectedUDP g"
  by (auto simp: urltest_dial_def split: option.splits sum.splits)

text \<open>C36 (urltest_selection_valid): in every state a URL test group can reach, while the networks of its members change, the outbounds it
  has selected for TCP and for UDP are outbounds of the group, and each served its network at the time of one of the
  checks so far.\<close>

theorem urltest_selection_valid:
  assumes "urltest_reachable outs Ws g"
  shows "hc_outbounds g = outs \<and>
    (\<forall>s. ug_selectedTCP g = Some s \<longrightarrow> s \<in> set outs \<and> list_ex (\<lambda>W. supports W NetworkTCP s) Ws) \<and>
    (\<forall>s. ug_selectedUDP g = Some s \<longrightarrow> s \<in> set outs \<and> list_ex (\<lambda>W. supports W NetworkUDP s) Ws)"
proof -
  from assms have "hc_outbounds g = outs \<and> selection_ok Ws g"
  proof (induction rule: urltest_reachable.induct)
    case (created history interval tolerance idle ext g)
    then show ?case by (auto simp: NewURLTestGroup_def Let_def selection_ok_def split: if_splits)
  next
    case (started Ws g now tasks g')
    then show ?case by (auto simp: Checker_PostStart_def selection_ok_def)
  next
    case (shared Ws g history)
    then show ?case by (auto simp: selection_ok_def)
  next
    case (checked Ws g W lookup test now force result closed g')
    obtain res tested g1 where c: "Checker_urlTest W lookup test now False force g = (res, tested, g1)" by (rule prod_cases3)
    have f: "hc_outbounds g1 = hc_outbounds g \<and> ug_selectedTCP g1 = ug_selectedTCP g \<and> ug_selectedUDP g1 = ug_selectedUDP g"
      using c by (auto simp: Checker_urlTest_def split: if_splits prod.splits)
    with checked.IH selection_ok_mono [of Ws g "[W]"] have "selection_ok (Ws @ [W]) g1"
      by (subst selection_ok_frame [of g1 g]) simp_all
    then show ?case using update_keeps_selection [of "Ws @ [W]" g1 W] update_frame [of W g1] checked.hyps(2) checked.IH f c
      by (auto simp: URLTest_urlTest_def split: if_splits prod.splits)
  next
    case (dialed Ws g W dial now ext network r tasks g')
    then have "hc_outbounds g' = hc_outbounds g \<and> ug_selectedTCP g' = ug_selectedTCP g \<and> ug_selectedUDP g' = ug_selectedUDP g"
      by (auto simp: URLTest_DialContext_def Let_def split: prod.splits if_splits dest!: Checker_Touch_frame urltest_dial_frame)
    with dialed.IH show ?case by (subst selection_ok_frame [of g' g]) simp_all
  next
    case (listened Ws g W dial now ext r tasks g')
    then have "hc_outbounds g' = hc_outbounds g \<and> ug_selectedTCP g' = ug_selectedTCP g \<and> ug_selectedUDP g' = ug_selectedUDP g"
      by (auto simp: URLTest_ListenPacket_def Let_def split: prod.splits if_splits dest!: Checker_Touch_frame urltest_dial_frame)
    with listened.IH show ?case by (subst selection_ok_frame [of g' g]) simp_all
  qed
  then show ?thesis by (auto simp: selection_ok_def served_def)
qed

text \<open>Remark (urltest_keeps_lost_network): the selection is not checked against the network again: a member that serves it no
  longer, as a selector that has been switched, stays selected as long as it has a test and no other member has one.\<close>

theorem urltest_keeps_lost_network:
  assumes "hc_outbounds g = [a]" and "\<not> supports W network a" and "selected_for network g = Some a"
    and "LoadURLTestHistory (hc_history g) (RealTag W a) \<noteq> None"
  shows "URLTest_Select W network g = (Some a, True)"
  using assms by (auto simp: URLTest_Select_def tested_selection_def consider_detour_def)

section \<open>Checks\<close>

text \<open>The history after a forced check: every real tag is tested once.\<close>

definition test_result ::
  "(string \<Rightarrow> outbound option) \<Rightarrow> (outbound \<Rightarrow> (u16 \<times> int) result) \<Rightarrow> history \<Rightarrow> string \<Rightarrow> url_history option" where
  "test_result lookup test h tag =
     (case lookup tag of
        None \<Rightarrow> h tag
      | Some p \<Rightarrow> (case test p of Inl _ \<Rightarrow> None | Inr (t, ended) \<Rightarrow> Some \<lparr>uh_Time = ended, uh_Delay = t\<rparr>))"

lemma test_outbounds_forced:
  "test_outbounds W lookup test now skipEmpty True interval ds checked h result = (h', result') \<Longrightarrow>
   h' tag = (if tag \<notin> set checked \<and> tag \<in> RealTag W ` set ds \<and> \<not> (skipEmpty \<and> tag = []) then test_result lookup test h tag else h tag)"
proof (induction ds arbitrary: checked h result)
  case (Cons d ds)
  consider (skip) "skipEmpty \<and> RealTag W d = [] \<or> RealTag W d \<in> set checked"
    | (missing) "\<not> (skipEmpty \<and> RealTag W d = [] \<or> RealTag W d \<in> set checked)" "lookup (RealTag W d) = None"
    | (tested) p where "\<not> (skipEmpty \<and> RealTag W d = [] \<or> RealTag W d \<in> set checked)" "lookup (RealTag W d) = Some p"
    by (cases "lookup (RealTag W d)") auto
  then show ?case
  proof cases
    case skip
    then have "test_outbounds W lookup test now skipEmpty True interval ds checked h result = (h', result')"
      using Cons.prems by (simp add: Let_def)
    from Cons.IH [OF this] skip show ?thesis by auto
  next
    case missing
    then have "test_outbounds W lookup test now skipEmpty True interval ds (RealTag W d # checked) h result = (h', result')"
      using Cons.prems by (auto simp: Let_def split: if_splits)
    from Cons.IH [OF this] missing show ?thesis by (auto simp: test_result_def)
  next
    case tested
    show ?thesis
    proof (cases "test p")
      case (Inl e)
      then have "test_outbounds W lookup test now skipEmpty True interval ds (RealTag W d # checked) (h(RealTag W d := None)) result = (h', result')"
        using Cons.prems tested by (simp add: Let_def DeleteURLTestHistory_def)
      from Cons.IH [OF this] tested Inl show ?thesis by (auto simp: test_result_def)
    next
      case (Inr te)
      obtain t e where te: "te = (t, e)" by fastforce
      then have "test_outbounds W lookup test now skipEmpty True interval ds (RealTag W d # checked)
          (h(RealTag W d := Some \<lparr>uh_Time = e, uh_Delay = t\<rparr>)) (result(sv_Tag d \<mapsto> t)) = (h', result')"
        using Cons.prems tested Inr by (simp add: Let_def StoreURLTestHistory_def)
      from Cons.IH [OF this] tested Inr te show ?thesis by (auto simp: test_result_def)
    qed
  qed
qed simp

lemma update_selected_found:
  "update_selected (Some d, True) selected = (o1, u) \<Longrightarrow> map_option sv_id o1 = Some (sv_id d)"
  by (auto simp: update_selected_def same_outbound_def split: if_splits option.splits)

text \<open>C39 (fallback_recovers): after a forced check, a fallback group has selected the first
  outbound of its configuration that serves TCP and has passed the test, whatever was
  selected before.\<close>

theorem fallback_recovers:
  assumes "Fallback_urlTest W lookup test now True g = (result, closed, g')"
    and "\<not> hc_checking (fg_checker g)" and "hc_outbounds (fg_checker g) = fg_outbounds g"
    and "\<forall>d \<in> set (fg_outbounds g). RealTag W d \<noteq> [] \<and> lookup (RealTag W d) \<noteq> None"
    and "find (\<lambda>d. supports W NetworkTCP d \<and> (\<exists>p t. lookup (RealTag W d) = Some p \<and> test p = Inr t)) (fg_outbounds g) = Some d"
  shows "map_option sv_id (fg_selectedTCP g') = Some (sv_id d)"
proof -
  obtain h res where t: "test_outbounds W lookup test now True True (hc_interval (fg_checker g)) (fg_outbounds g) []
      (hc_history (fg_checker g)) (\<lambda>_. None) = (h, res)" by fastforce
  let ?g1 = "g\<lparr>fg_checker := (fg_checker g)\<lparr>hc_history := h\<rparr>\<rparr>"
  have av: "available W h x = (\<exists>p t. lookup (RealTag W x) = Some p \<and> test p = Inr t)" if "x \<in> set (fg_outbounds g)" for x
    using test_outbounds_forced [OF t, of "RealTag W x"] assms(4) that
    by (auto simp: available_def LoadURLTestHistory_def test_result_def split: option.splits sum.splits)
  have "find (\<lambda>d. supports W NetworkTCP d \<and> available W h d) (fg_outbounds g) = Some d"
    unfolding assms(5) [symmetric] by (rule find_cong) (auto simp: av)
  then have s: "Fallback_Select W NetworkTCP ?g1 = (Some d, True)" by (simp add: Fallback_Select_def)
  obtain tcp u1 where u: "update_selected (Some d, True) (fg_selectedTCP g) = (tcp, u1)" by fastforce
  have "fg_selectedTCP g' = tcp"
    using assms(1-3) t s u by (auto simp: Fallback_urlTest_def Checker_urlTest_def Fallback_performUpdateCheck_def interrupt_if_def
        Let_def split: prod.splits if_splits)
  with update_selected_found [OF u] show ?thesis by simp
qed

section \<open>Selector\<close>

text \<open>The life of a selector with a cache file: start, selections, connections.\<close>

inductive selector_run :: "(string \<Rightarrow> outbound option) \<Rightarrow> 'c selector \<Rightarrow> selected_bucket \<Rightarrow> 'c selector \<Rightarrow> bool"
  for lookup s0 where
  started: "Selector_Start lookup (Some db) s0 = (Inr (), s) \<Longrightarrow> selector_run lookup s0 db s"
| selected: "selector_run lookup s0 db s \<Longrightarrow> SelectOutbound None tag (Some db) s = (ok, closed, Some db', s') \<Longrightarrow>
    selector_run lookup s0 db' s'"
| dialed: "selector_run lookup s0 db s \<Longrightarrow> Selector_DialContext dial ext s = (r, s') \<Longrightarrow> selector_run lookup s0 db s'"

lemma Selector_Start_outbounds:
  assumes "Selector_Start lookup cache s0 = (Inr (), s)"
  obtains detours where "group_outbounds lookup (sl_tags s0) = Inr detours" "sl_outbounds s = map_of (zip (sl_tags s0) detours)"
    "sl_Tag s = sl_Tag s0"
  using assms by (auto simp: Selector_Start_def Let_def split: sum.splits option.splits if_splits)

lemma Selector_Start_cached:
  assumes "group_outbounds lookup (sl_tags s0) = Inr detours" and "sl_Tag s0 \<noteq> []" and "tag \<noteq> []"
    and "map_of (zip (sl_tags s0) detours) tag = Some d"
  shows "\<exists>s. Selector_Start lookup (Some (db(sl_Tag s0 \<mapsto> tag))) s0 = (Inr (), s) \<and> sl_selected s = Some d \<and>
    sl_outbounds s = map_of (zip (sl_tags s0) detours)"
  using assms by (simp add: Selector_Start_def cached_selection_def LoadSelected_def Let_def)

text \<open>Remark (selector_survives_restart): at any time in the life of a selector, starting it again
  with the cache file as it is then selects the outbound that is selected now.\<close>

theorem selector_survives_restart:
  assumes "selector_run lookup s0 db s" and "sl_Tag s0 \<noteq> []" and "[] \<notin> set (sl_tags s0)"
  shows "\<exists>s'. Selector_Start lookup (Some db) s0 = (Inr (), s') \<and>
    map_option sv_id (sl_selected s') = map_option sv_id (sl_selected s)"
proof -
  from assms(1) have "\<exists>s'. Selector_Start lookup (Some db) s0 = (Inr (), s') \<and>
    map_option sv_id (sl_selected s') = map_option sv_id (sl_selected s) \<and> sl_outbounds s' = sl_outbounds s \<and> sl_Tag s = sl_Tag s0"
  proof (induction rule: selector_run.induct)
    case (started db s)
    then show ?case by (auto elim: Selector_Start_outbounds)
  next
    case (selected db s tag ok closed db' s')
    then obtain s1 where s1: "Selector_Start lookup (Some db) s0 = (Inr (), s1)"
      "map_option sv_id (sl_selected s1) = map_option sv_id (sl_selected s)" "sl_outbounds s1 = sl_outbounds s" "sl_Tag s = sl_Tag s0" by auto
    obtain detours where d: "group_outbounds lookup (sl_tags s0) = Inr detours" "sl_outbounds s1 = map_of (zip (sl_tags s0) detours)"
      using Selector_Start_outbounds [OF s1(1)] by blast
    show ?case
    proof (cases "sl_outbounds s tag")
      case None
      then show ?thesis using selected.hyps(2) s1 by (auto simp: SelectOutbound_def)
    next
      case (Some x)
      have "tag \<noteq> []" using Some d(2) s1(3) assms(3) by (metis map_of_SomeD set_zip_leftD)
      note restart = Selector_Start_cached [OF d(1) assms(2) this]
      show ?thesis
      proof (cases "same_outbound (sl_selected s) x")
        case True
        then show ?thesis using selected.hyps(2) s1 Some
          by (auto simp: SelectOutbound_def same_outbound_def split: option.splits)
      next
        case False
        then show ?thesis using selected.hyps(2) s1 Some d(2) restart [of x db] assms(2)
          by (auto simp: SelectOutbound_def StoreSelected_def Let_def split: prod.splits)
      qed
    qed
  next
    case (dialed db s dial ext r s')
    then show ?case by (auto simp: Selector_DialContext_def split: option.splits sum.splits)
  qed
  then show ?thesis by blast
qed

section \<open>Departures\<close>

text \<open>Remark (load_balance_gives_up): a check that runs while a connection is dialed can hide the
  outbounds that are left. When the only candidate that passed its last test refuses the
  connection and the check, which the failure starts, finds it passing again, the call fails
  with the error of that outbound, although others of the group have not been tried.\<close>

theorem load_balance_gives_up:
  assumes "balance_wf g" and "lb_candidates W network g = [a]" and "dial a = Inl e"
  shows "\<exists>tasks g'. LoadBalanceGroup_DialContext W keys now dial (\<lambda>_ _. hc_history (lb_checker g)) network g = (Inl e, [a], tasks, g')"
proof -
  let ?c = "\<lambda>_ _. hc_history (lb_checker g)"
  have "remaining W network [] g = [a]" using assms(2) by (simp add: remaining_def not_excluded_def)
  with lb_dial_turn [OF assms(1), of W network "[]" keys now dial ?c None] obtain g1 where
    g1: "lb_outbounds g1 = lb_outbounds g" "balance_wf g1"
    and run: "lb_dial W keys now dial ?c network [] None g =
      (case lb_dial W keys now dial ?c network [sv_id a] (Some e) (dial_failed W keys (?c 0) a g1) of
         (r, tried, tasks, g2) \<Rightarrow> (r, a # tried, CheckOutbounds True # tasks, g2))"
    using assms(3) by auto
  let ?g2 = "dial_failed W keys (?c 0) a g1"
  have "lb_candidates W network ?g2 = lb_candidates W network g"
    by (simp add: lb_candidates_def dial_failed_frame g1(1) Let_def)
  then have rem: "remaining W network [sv_id a] ?g2 = []" using assms(2) by (simp add: remaining_def not_excluded_def)
  have "balance_wf ?g2" using g1(2) by (simp add: dial_failed_wf)
  from lb_dial_turn [OF this, of W network "[sv_id a]" keys now dial ?c "Some e"] rem
  have "lb_dial W keys now dial ?c network [sv_id a] (Some e) ?g2 = (Inl e, [], [], ?g2)" by simp
  then show ?thesis using run by (simp add: LoadBalanceGroup_DialContext_def)
qed

text \<open>A test that took less than a millisecond counts as no test: the next outbound that has one
  is selected instead, however slow it is.\<close>

theorem urltest_zero_delay_replaced:
  assumes "hc_outbounds g = [a, b]" and "supports W network a" and "supports W network b" and "selected_for network g = Some a"
    and "LoadURLTestHistory (hc_history g) (RealTag W a) = Some u" and "uh_Delay u = 0"
    and "LoadURLTestHistory (hc_history g) (RealTag W b) = Some v"
  shows "URLTest_Select W network g = (Some b, True)"
  using assms by (simp add: URLTest_Select_def tested_selection_def consider_detour_def)

section \<open>Examples\<close>

definition sample_world :: group_world where
  "sample_world = \<lparr>gw_Network = (\<lambda>_. [NetworkTCP, NetworkUDP]), gw_Now = (\<lambda>_. None), gw_NetworkName = (\<lambda>n. n)\<rparr>"

definition out_a :: outbound where "out_a = sample_outbound 0 ''a'' []"
definition out_b :: outbound where "out_b = sample_outbound 1 ''b'' []"

lemma sample_members [simp]:
  "sv_id out_a = 0" "sv_id out_b = 1" "sv_Tag out_a = ''a''" "sv_Tag out_b = ''b''" "out_a \<noteq> out_b"
  "RealTag sample_world d = sv_Tag d"
  by (simp_all add: out_a_def out_b_def sample_outbound_def RealTag_def sample_world_def)

lemma sample_supports [simp]: "supports sample_world NetworkTCP d" "supports sample_world NetworkUDP d"
  by (simp_all add: supports_def sample_world_def)

text \<open>Outbound \<open>a\<close> was tested with 100 ms and \<open>b\<close>, if \<open>both\<close>, with 300 ms; only \<open>b\<close> answers.\<close>

definition sample_history :: "bool \<Rightarrow> history" where
  "sample_history both = [''a'' \<mapsto> \<lparr>uh_Time = 0, uh_Delay = 100\<rparr>]((''b'') := if both then Some \<lparr>uh_Time = 0, uh_Delay = 300\<rparr> else None)"

definition only_b :: "outbound \<Rightarrow> nat result" where
  "only_b d = (if sv_Tag d = ''b'' then Inr 7 else Inl (ENew ''refused''))"

definition sample_balance :: "string \<Rightarrow> load_balance_group" where
  "sample_balance strategy = (case NewLoadBalanceGroup (sample_history False) [out_a, out_b] 0 0 0 strategy of Inr g \<Rightarrow> g)"

lemma sample_balance_new:
  "NewLoadBalanceGroup (sample_history False) [out_a, out_b] 0 0 0 strategy = Inr (sample_balance strategy)"
  by (simp add: sample_balance_def NewLoadBalanceGroup_def newHealthChecker_def bind_r_def Let_def
      DefaultURLTestInterval_def DefaultURLTestIdleTimeout_def Second_def)

lemma sample_balance_wf:
  "strategy \<in> {LoadBalanceStrategyRoundRobin, LoadBalanceStrategyConsistentHashing, LoadBalanceStrategyStickySessions} \<Longrightarrow>
   balance_wf (sample_balance strategy)"
  by (rule new_balance_wf [OF sample_balance_new]) auto

lemma sample_balance_fields [simp]:
  "lb_outbounds (sample_balance s) = [out_a, out_b]" "lb_strategy (sample_balance s) = s" "lb_rrCounter (sample_balance s) = 0"
  "hc_history (lb_checker (sample_balance s)) = sample_history False"
  by (simp_all add: sample_balance_def NewLoadBalanceGroup_def newHealthChecker_def bind_r_def Let_def
      DefaultURLTestInterval_def DefaultURLTestIdleTimeout_def Second_def)

theorem load_balance_serves_witness:
  "\<exists>c. fst (LoadBalanceGroup_DialContext sample_world \<lparr>bk_sticky = ''s'', bk_destination = ''d''\<rparr> 0 only_b (\<lambda>_ h. h) NetworkTCP
     (sample_balance LoadBalanceStrategyRoundRobin)) = Inr c"
  using load_balance_serves [OF sample_balance_wf [of LoadBalanceStrategyRoundRobin], where dial = only_b and W = sample_world
      and network = NetworkTCP and now = 0 and keys = "\<lparr>bk_sticky = ''s'', bk_destination = ''d''\<rparr>"]
  by (simp add: only_b_def)

theorem load_balance_gives_up_witness:
  "only_b out_b = Inr 7 \<and> (\<exists>tasks g'. LoadBalanceGroup_DialContext sample_world \<lparr>bk_sticky = ''s'', bk_destination = ''d''\<rparr> 0 only_b
     (\<lambda>_ _. sample_history False) NetworkTCP (sample_balance LoadBalanceStrategyRoundRobin) = (Inl (ENew ''refused''), [out_a], tasks, g'))"
proof -
  have "lb_candidates sample_world NetworkTCP (sample_balance LoadBalanceStrategyRoundRobin) = [out_a]"
    by (simp add: lb_candidates_def available_def LoadURLTestHistory_def sample_history_def)
  moreover have "only_b out_a = Inl (ENew ''refused'')" by (simp add: only_b_def)
  ultimately show ?thesis
    using load_balance_gives_up [OF sample_balance_wf [of LoadBalanceStrategyRoundRobin], where W = sample_world and network = NetworkTCP
        and dial = only_b and a = out_a] by (simp add: only_b_def)
qed

theorem round_robin_rotates_witness:
  "round_robin (length [out_a, out_b]) [out_a, out_b] (sample_balance LoadBalanceStrategyRoundRobin) = [out_a, out_b]"
  using round_robin_rotates [of "[out_a, out_b]" "sample_balance LoadBalanceStrategyRoundRobin"] by (simp del: round_robin.simps)

lemma fnv1a64_a: "fnv1a64 ''a'' = 0xaf63dc4c8601ec8c"
  by code_simp

theorem rendezvous_moves_few_witness:
  "\<exists>d \<in> {out_a, out_b}. rendezvousPick ''k'' [out_a, out_b] = Some d \<and> rendezvousPick ''k'' (filter (\<lambda>x. x = d) [out_a, out_b]) = Some d"
proof -
  obtain d where "d \<in> {out_a, out_b}" "rendezvousPick ''k'' [out_a, out_b] = Some d"
    using rendezvousPick_member [of "[out_a, out_b]" "''k''"] by auto
  with rendezvous_moves_few [OF this(2), of "\<lambda>x. x = d"] show ?thesis by blast
qed

theorem sticky_session_kept_witness:
  "\<exists>ds tasks g1. LoadBalanceGroup_DialContext sample_world \<lparr>bk_sticky = ''s'', bk_destination = ''d''\<rparr> 0 only_b (\<lambda>_ h. h) NetworkTCP
       (sample_balance LoadBalanceStrategyStickySessions) = (Inr 7, ds @ [out_b], tasks, g1) \<and>
     (\<exists>g2. LoadBalanceGroup_DialContext sample_world \<lparr>bk_sticky = ''s'', bk_destination = ''d''\<rparr> 1 only_b (\<lambda>_ h. h) NetworkTCP
       (g1\<lparr>lb_checker := (lb_checker g1)\<lparr>hc_history := NewHistoryStorage\<rparr>\<rparr>) = (Inr 7, [out_b], [], g2))"
proof -
  let ?k = "\<lparr>bk_sticky = ''s'', bk_destination = ''d''\<rparr>" and ?g = "sample_balance LoadBalanceStrategyStickySessions"
  have wf: "balance_wf ?g" by (rule sample_balance_wf) simp
  have b: "only_b out_b = Inr 7" by (simp add: only_b_def)
  obtain r tried tasks g1 where run: "LoadBalanceGroup_DialContext sample_world ?k 0 only_b (\<lambda>_ h. h) NetworkTCP ?g = (r, tried, tasks, g1)"
    by (rule prod_cases4)
  then have a: "balance_attempts sample_world ?k 0 NetworkTCP ?g only_b = (r, tried)" by (simp add: balance_attempts_def)
  have "\<exists>c. r = Inr c" using balance.serves_iff [OF wf, of sample_world ?k 0 NetworkTCP only_b] b by (auto simp: a)
  then obtain c where c: "r = Inr c" ..
  from balance.found [OF wf a [unfolded c]] balance.tried_members [OF wf a] obtain ds d where
    d: "tried = ds @ [d]" "only_b d = Inr c" "d \<in> {out_a, out_b}" by auto
  then have db: "d = out_b" "c = 7" by (auto simp: only_b_def split: if_splits)
  have run': "LoadBalanceGroup_DialContext sample_world ?k 0 only_b (\<lambda>_ h. h) NetworkTCP ?g = (Inr 7, ds @ [out_b], tasks, g1)"
    using run c d(1) db by simp
  have "out_b \<in> set (lb_outbounds g1)"
    using lb_dial_remembers [OF wf _ run' [unfolded LoadBalanceGroup_DialContext_def]] by simp
  then have "out_b \<in> set (lb_candidates sample_world NetworkTCP (g1\<lparr>lb_checker := (lb_checker g1)\<lparr>hc_history := NewHistoryStorage\<rparr>\<rparr>))"
    by (auto simp: lb_candidates_def available_def LoadURLTestHistory_def NewHistoryStorage_def)
  from sticky_session_kept [where ?dial2.0 = only_b and ?now2.0 = 1 and ?keys2.0 = ?k and ?concurrent2.0 = "\<lambda>_ h. h",
      OF wf _ run' _ _ this b] run'
  show ?thesis by (auto simp: Second_def)
qed

definition sample_urltest :: "nat urltest_group" where
  "sample_urltest = (case NewURLTestGroup (sample_history True) [out_a, out_b] 0 0 0 False of Inr g \<Rightarrow> g)"

lemma sample_urltest_new: "NewURLTestGroup (sample_history True) [out_a, out_b] 0 0 0 False = Inr sample_urltest"
  by (simp add: sample_urltest_def NewURLTestGroup_def Let_def DefaultURLTestInterval_def DefaultURLTestIdleTimeout_def Second_def)

lemma sample_urltest_fields [simp]:
  "hc_outbounds sample_urltest = [out_a, out_b]" "hc_history sample_urltest = sample_history True" "ug_tolerance sample_urltest = 50"
  "ug_selectedTCP sample_urltest = None" "ug_selectedUDP sample_urltest = None" "\<not> hc_checking sample_urltest"
  "ug_interruptGroup sample_urltest = []"
  by (simp_all add: sample_urltest_def NewURLTestGroup_def Let_def DefaultURLTestInterval_def DefaultURLTestIdleTimeout_def Second_def)

theorem urltest_near_fastest_witness:
  "\<exists>t. delay_of sample_world (sample_history True) out_a = Some t \<and> t \<le> 300 + 50"
proof -
  have "URLTest_Select sample_world NetworkTCP sample_urltest = (Some out_a, True)"
    by (simp add: URLTest_Select_def tested_selection_def selected_for_def consider_detour_def LoadURLTestHistory_def sample_history_def
        word_less_nat_alt)
  moreover have "tests_in_range sample_world (hc_history sample_urltest) (unat (ug_tolerance sample_urltest)) (hc_outbounds sample_urltest)"
    by (simp add: tests_in_range_def delay_of_def LoadURLTestHistory_def sample_history_def)
  moreover have "\<forall>s. selected_for NetworkTCP sample_urltest = Some s \<longrightarrow> s \<in> set (hc_outbounds sample_urltest)"
    by (simp add: selected_for_def)
  ultimately obtain t where "delay_of sample_world (sample_history True) out_a = Some t"
    "\<forall>x \<in> set (hc_outbounds sample_urltest). \<forall>t'. supports sample_world NetworkTCP x \<longrightarrow>
       delay_of sample_world (sample_history True) x = Some t' \<longrightarrow> t \<le> t' + unat (ug_tolerance sample_urltest)"
    using urltest_near_fastest [of sample_world NetworkTCP sample_urltest out_a] by auto
  moreover have "delay_of sample_world (sample_history True) out_b = Some 300"
    by (simp add: delay_of_def LoadURLTestHistory_def sample_history_def)
  ultimately show ?thesis by auto
qed

theorem urltest_selection_valid_witness:
  "\<exists>s. ug_selectedTCP (snd (URLTest_performUpdateCheck sample_world sample_urltest)) = Some s \<and> s \<in> {out_a, out_b} \<and>
     supports sample_world NetworkTCP s"
proof -
  let ?t = "\<lambda>_. Inl (ENew ''closed'') :: (u16 \<times> int) result"
  obtain res closed g where c: "URLTest_urlTest sample_world (\<lambda>_. None) ?t 0 True sample_urltest = (res, closed, g)" by (rule prod_cases3)
  have "Checker_urlTest sample_world (\<lambda>_. None) ?t 0 False True sample_urltest = (\<lambda>_. None, True, sample_urltest)"
    by (simp add: Checker_urlTest_def Let_def)
  then have g: "g = snd (URLTest_performUpdateCheck sample_world sample_urltest)" using c
    by (auto simp: URLTest_urlTest_def split: prod.splits)
  have sel: "URLTest_Select sample_world NetworkTCP sample_urltest = (Some out_a, True)"
    by (simp add: URLTest_Select_def tested_selection_def selected_for_def consider_detour_def LoadURLTestHistory_def sample_history_def
        word_less_nat_alt)
  have "ug_selectedTCP g = Some out_a" "hc_outbounds g = [out_a, out_b]"
    by (simp_all add: g URLTest_performUpdateCheck_def sel update_selected_def Group_Interrupt_def Let_def split: prod.split)
  moreover have "urltest_reachable [out_a, out_b] ([] @ [sample_world]) g"
    by (rule urltest_reachable.checked [OF urltest_reachable.created [OF sample_urltest_new] c])
  ultimately show ?thesis using urltest_selection_valid [of "[out_a, out_b]" "[] @ [sample_world]" g] by (auto simp: g)
qed

definition sample_fallback :: "nat fallback_group" where
  "sample_fallback = (case NewFallbackGroup (sample_history False) [out_a, out_b] 0 0 0 False of Inr g \<Rightarrow> g)"

theorem fallback_recovers_witness:
  "map_option sv_id (fg_selectedTCP (snd (snd (Fallback_urlTest sample_world (map_of [(''a'', out_a), (''b'', out_b)])
     (\<lambda>p. if p = out_b then Inr (20, 5) else Inl (ENew ''timeout'')) 0 True sample_fallback)))) = Some 1"
proof -
  let ?l = "map_of [(''a'', out_a), (''b'', out_b)]" and ?t = "\<lambda>p. if p = out_b then Inr (20 :: u16, 5 :: int) else Inl (ENew ''timeout'')"
  obtain res closed g where c: "Fallback_urlTest sample_world ?l ?t 0 True sample_fallback = (res, closed, g)" by (rule prod_cases3)
  have f: "fg_outbounds sample_fallback = [out_a, out_b]" "hc_outbounds (fg_checker sample_fallback) = [out_a, out_b]"
    "\<not> hc_checking (fg_checker sample_fallback)"
    by (simp_all add: sample_fallback_def NewFallbackGroup_def newHealthChecker_def bind_r_def Let_def
        DefaultURLTestInterval_def DefaultURLTestIdleTimeout_def Second_def)
  have "map_option sv_id (fg_selectedTCP g) = Some (sv_id out_b)"
    by (rule fallback_recovers [OF c]) (simp_all add: f)
  then show ?thesis unfolding c by simp
qed

theorem selector_survives_restart_witness:
  "\<exists>s. Selector_Start (map_of [(''a'', out_a), (''b'', out_b)]) (Some [''g'' \<mapsto> ''b'']) (\<lparr>sl_Tag = ''g'', sl_tags = [''a'', ''b''],
     sl_defaultTag = [], sl_outbounds = (\<lambda>_. None), sl_selected = None, sl_interruptGroup = [],
     sl_interruptExternalConnections = False\<rparr> :: nat selector) = (Inr (), s) \<and> map_option sv_id (sl_selected s) = Some 1"
proof -
  let ?l = "map_of [(''a'', out_a), (''b'', out_b)]"
  let ?s0 = "\<lparr>sl_Tag = ''g'', sl_tags = [''a'', ''b''], sl_defaultTag = [], sl_outbounds = (\<lambda>_. None), sl_selected = None,
     sl_interruptGroup = [], sl_interruptExternalConnections = False\<rparr> :: nat selector"
  let ?s1 = "?s0\<lparr>sl_outbounds := ?l, sl_selected := Some out_a\<rparr>"
  have "Selector_Start ?l (Some (\<lambda>_. None)) ?s0 = (Inr (), ?s1)"
    by (simp add: Selector_Start_def group_outbounds_def bind_r_def cached_selection_def LoadSelected_def Let_def)
  then have "selector_run ?l ?s0 (\<lambda>_. None) ?s1" by (rule selector_run.started)
  moreover have "SelectOutbound None ''b'' (Some (\<lambda>_. None)) ?s1 = (True, [], Some [''g'' \<mapsto> ''b''], ?s1\<lparr>sl_selected := Some out_b\<rparr>)"
    by (simp add: SelectOutbound_def same_outbound_def StoreSelected_def Group_Interrupt_def Let_def)
  ultimately have "selector_run ?l ?s0 [''g'' \<mapsto> ''b''] (?s1\<lparr>sl_selected := Some out_b\<rparr>)" by (rule selector_run.selected)
  from selector_survives_restart [OF this] show ?thesis by simp
qed

end
