(* ===== verification/Router_Lifecycle.thy ===== *)
theory Router_Lifecycle
  imports Rule_Set_Props DNS_Router Route Outbound_Manager
begin

text \<open>
  The life of the two routers: construction and initialisation from options, the start stages
  and closing of \<^verbatim>\<open>route/router.go\<close>, with \<^verbatim>\<open>route/rule_conds.go\<close>, \<^verbatim>\<open>NewRuleSet\<close> of
  \<^verbatim>\<open>route/rule/rule_set.go\<close>, and the start of \<^verbatim>\<open>dns/router.go\<close>; then what
  the start of tun inbounds does to rule-sets, and the order in which \<^verbatim>\<open>box.go\<close> calls all these.

  A pointer to a rule-set is its index in the router's list. The tasks that start rule-sets run
  concurrently; the order in which they take effect is an argument. Rule items have no
  \<^verbatim>\<open>Close\<close>, so closing a rule does nothing.
\<close>

section \<open>What a list of rules contains\<close>

fun hasRule :: "(default_rule_options \<Rightarrow> bool) \<Rightarrow> rule_options list \<Rightarrow> bool" where
  "hasRule cond [] = False"
| "hasRule cond (RuleOptions ty d mode rules iv act # rest) =
     (if ty = RuleTypeDefault \<and> cond d then True
      else if ty = RuleTypeLogical \<and> hasRule cond rules then True
      else hasRule cond rest)"

fun hasDNSRule :: "(default_dns_rule_options \<Rightarrow> bool) \<Rightarrow> dns_rule_options list \<Rightarrow> bool" where
  "hasDNSRule cond [] = False"
| "hasDNSRule cond (DNSRuleOptions ty d mode rules iv act # rest) =
     (if ty = RuleTypeDefault \<and> cond d then True
      else if ty = RuleTypeLogical \<and> hasDNSRule cond rules then True
      else hasDNSRule cond rest)"

definition isProcessRule :: "default_rule_options \<Rightarrow> bool" where
  "isProcessRule rule \<longleftrightarrow> (let r = dro_Raw rule in
     length (or_ProcessName r) > 0 \<or> length (or_ProcessPath r) > 0 \<or> length (or_ProcessPathRegex r) > 0 \<or>
     length (or_PackageName r) > 0 \<or> length (or_User r) > 0 \<or> length (or_UserID r) > 0)"

definition isProcessDNSRule :: "default_dns_rule_options \<Rightarrow> bool" where
  "isProcessDNSRule rule \<longleftrightarrow> (let r = ddo_Raw rule in
     length (od_ProcessName r) > 0 \<or> length (od_ProcessPath r) > 0 \<or> length (od_ProcessPathRegex r) > 0 \<or>
     length (od_PackageName r) > 0 \<or> length (od_User r) > 0 \<or> length (od_UserID r) > 0)"

definition isWIFIRule :: "default_rule_options \<Rightarrow> bool" where
  "isWIFIRule rule \<longleftrightarrow> length (or_WIFISSID (dro_Raw rule)) > 0 \<or> length (or_WIFIBSSID (dro_Raw rule)) > 0"

definition isWIFIDNSRule :: "default_dns_rule_options \<Rightarrow> bool" where
  "isWIFIDNSRule rule \<longleftrightarrow> length (od_WIFISSID (ddo_Raw rule)) > 0 \<or> length (od_WIFIBSSID (ddo_Raw rule)) > 0"

section \<open>Rule-sets of either kind\<close>

datatype any_rule_set = LocalSet local_rule_set | RemoteSet remote_rule_set

text \<open>The methods of the interface that both kinds have.\<close>

fun set_tag :: "any_rule_set \<Rightarrow> string" where
  "set_tag (LocalSet s) = rst_tag s"
| "set_tag (RemoteSet s) = rst_tag s"

fun set_rules :: "any_rule_set \<Rightarrow> headless_rule list" where
  "set_rules (LocalSet s) = rst_rules s"
| "set_rules (RemoteSet s) = rst_rules s"

fun set_metadata :: "any_rule_set \<Rightarrow> rule_set_metadata" where
  "set_metadata (LocalSet s) = rst_metadata s"
| "set_metadata (RemoteSet s) = rst_metadata s"

fun set_refs :: "any_rule_set \<Rightarrow> int" where
  "set_refs (LocalSet s) = rst_refs s"
| "set_refs (RemoteSet s) = rst_refs s"

fun with_refs :: "int \<Rightarrow> any_rule_set \<Rightarrow> any_rule_set" where
  "with_refs n (LocalSet s) = LocalSet (s\<lparr>rst_refs := n\<rparr>)"
| "with_refs n (RemoteSet s) = RemoteSet (s\<lparr>rst_refs := n\<rparr>)"

fun set_Cleanup :: "any_rule_set \<Rightarrow> any_rule_set" where
  "set_Cleanup (LocalSet s) = LocalSet (Cleanup s)"
| "set_Cleanup (RemoteSet s) = RemoteSet (Cleanup s)"

fun set_Close :: "any_rule_set \<Rightarrow> any_rule_set" where
  "set_Close (LocalSet s) = LocalSet (RuleSet_Close s)"
| "set_Close (RemoteSet s) = RemoteSet (RuleSet_Close s)"

text \<open>What starting a rule-set reads from outside: the decoders, whether there is a network manager
  and an outbound of a tag, the answers of the HTTP client and the clock, by tag, and files.\<close>

record set_env =
  se_lib :: lib
  se_decoders :: decoders
  se_hasNM :: bool
  se_readFile :: "string \<Rightarrow> bytes result"
  se_hasOutbound :: "string \<Rightarrow> bool"
  se_request :: "string \<Rightarrow> string \<Rightarrow> http_response result"
  se_now :: "string \<Rightarrow> int"

definition NewRuleSet :: "set_env \<Rightarrow> rule_set_options \<Rightarrow> any_rule_set result" where
  "NewRuleSet V options =
     (if rso_Type options = RuleSetTypeInline \<or> rso_Type options = RuleSetTypeLocal \<or> rso_Type options = ''''
      then bind_r (NewLocalRuleSet (se_lib V) (se_decoders V) (se_hasNM V) (se_readFile V) options) (\<lambda>s. Inr (LocalSet s))
      else if rso_Type options = RuleSetTypeRemote then Inr (RemoteSet (NewRemoteRuleSet options))
      else Inl (ENew (''unknown rule-set type: '' @ rso_Type options)))"

text \<open>Starting the watcher of a local rule-set only logs.\<close>

fun set_StartContext ::
  "set_env \<Rightarrow> cache_file option \<Rightarrow> any_rule_set \<Rightarrow> unit result \<times> cache_file option \<times> any_rule_set" where
  "set_StartContext V cache (LocalSet s) = (Inr (), cache, LocalSet s)"
| "set_StartContext V cache (RemoteSet s) =
     (case StartContext (se_lib V) (se_decoders V) (se_hasNM V) (se_hasOutbound V) (se_request V (rst_tag s))
             (se_now V (rst_tag s)) cache s of
        (r, cache', s') \<Rightarrow> (r, cache', RemoteSet s'))"

section \<open>Router\<close>

datatype process_searcher = PlatformSearcher | SystemSearcher

record route_router =
  rt_rules :: "rule_act route_rule list"
  rt_needFindProcess :: bool
  rt_ruleSets :: "any_rule_set list"
  rt_ruleSetMap :: tag_map
  rt_processSearcher :: "process_searcher option"
  rt_needWIFIState :: bool
  rt_started :: bool

definition NewRouter :: "rule_options list \<Rightarrow> bool \<Rightarrow> dns_rule_options list \<Rightarrow> route_router" where
  "NewRouter rules findProcess dnsRules =
     \<lparr>rt_rules = [],
      rt_needFindProcess = hasRule isProcessRule rules \<or> hasDNSRule isProcessDNSRule dnsRules \<or> findProcess,
      rt_ruleSets = [], rt_ruleSetMap = (\<lambda>_. None), rt_processSearcher = None,
      rt_needWIFIState = hasRule isWIFIRule rules \<or> hasDNSRule isWIFIDNSRule dnsRules,
      rt_started = False\<rparr>"

fun initialize_sets :: "set_env \<Rightarrow> nat \<Rightarrow> rule_set_options list \<Rightarrow> route_router \<Rightarrow> route_router result" where
  "initialize_sets V i [] r = Inr r"
| "initialize_sets V i (options # rest) r =
     (if rt_ruleSetMap r (rso_Tag options) \<noteq> None then Inl (ENew (''duplicate rule-set tag: '' @ rso_Tag options))
      else bind_r (cause (''parse rule-set['' @ itoa i @ '']'') (NewRuleSet V options)) (\<lambda>ruleSet.
             initialize_sets V (Suc i) rest
               (r\<lparr>rt_ruleSets := rt_ruleSets r @ [ruleSet],
                  rt_ruleSetMap := (rt_ruleSetMap r)(rso_Tag options \<mapsto> length (rt_ruleSets r))\<rparr>)))"

definition Router_Initialize ::
  "set_env \<Rightarrow> text_lib \<Rightarrow> (dialer_options \<Rightarrow> dialer_options result) \<Rightarrow> rule_options list \<Rightarrow> rule_set_options list \<Rightarrow>
   route_router \<Rightarrow> route_router result" where
  "Router_Initialize V T D rules ruleSets r =
     bind_r (traverse (\<lambda>i options. cause (''parse rule['' @ itoa i @ '']'') (NewRule (se_lib V) T D False options)) rules)
       (\<lambda>rs. initialize_sets V 0 ruleSets (r\<lparr>rt_rules := rt_rules r @ rs\<rparr>))"

definition Router_RuleSet :: "route_router \<Rightarrow> string \<Rightarrow> any_rule_set option" where
  "Router_RuleSet r tag = map_option (\<lambda>i. rt_ruleSets r ! i) (rt_ruleSetMap r tag)"

subsection \<open>Start\<close>

text \<open>The group of tasks that start the rule-sets: \<open>order\<close> are the indices in the order in which the
  tasks take effect; the first failure ends the group.\<close>

fun start_sets ::
  "set_env \<Rightarrow> nat list \<Rightarrow> cache_file option \<Rightarrow> any_rule_set list \<Rightarrow>
   unit result \<times> cache_file option \<times> any_rule_set list" where
  "start_sets V [] cache sets = (Inr (), cache, sets)"
| "start_sets V (i # order) cache sets =
     (case set_StartContext V cache (sets ! i) of
        (Inl e, cache', s) \<Rightarrow> (Inl (ECause e (''initialize rule-set['' @ itoa i @ '']'')), cache', sets[i := s])
      | (Inr _, cache', s) \<Rightarrow> start_sets V order cache' (sets[i := s]))"

definition Router_StartStart ::
  "set_env \<Rightarrow> nat list \<Rightarrow> bool \<Rightarrow> unit result \<Rightarrow> cache_file option \<Rightarrow> route_router \<Rightarrow>
   unit result \<times> cache_file option \<times> route_router" where
  "Router_StartStart V order hasPlatform newSearcher cache r =
     (case start_sets V order cache (rt_ruleSets r) of
        (Inl e, cache', sets) \<Rightarrow> (Inl e, cache', r\<lparr>rt_ruleSets := sets\<rparr>)
      | (Inr _, cache', sets) \<Rightarrow>
          (let needFindProcess = (rt_needFindProcess r \<or> list_ex (\<lambda>s. rm_ContainsProcessRule (set_metadata s)) sets);
               needWIFIState = (rt_needWIFIState r \<or> list_ex (\<lambda>s. rm_ContainsWIFIRule (set_metadata s)) sets);
               searcher = (if \<not> needFindProcess then rt_processSearcher r
                           else if hasPlatform then Some PlatformSearcher
                           else (case newSearcher of Inl _ \<Rightarrow> rt_processSearcher r | Inr _ \<Rightarrow> Some SystemSearcher))
           in (Inr (), cache', r\<lparr>rt_ruleSets := sets, rt_needWIFIState := needWIFIState, rt_processSearcher := searcher\<rparr>)))"

text \<open>The counters of the rule-sets as the start of rules sees them.\<close>

definition ref_counts_of :: "any_rule_set list \<Rightarrow> ref_counts" where
  "ref_counts_of sets i = (if i < length sets then set_refs (sets ! i) else 0)"

definition put_refs :: "ref_counts \<Rightarrow> any_rule_set list \<Rightarrow> any_rule_set list" where
  "put_refs refs sets = map (\<lambda>i. with_refs (refs i) (sets ! i)) [0..<length sets]"

text \<open>The loop over the rules of a router; a rule that fails keeps its place.\<close>

fun start_rules ::
  "string \<Rightarrow> ('r \<Rightarrow> ref_counts \<Rightarrow> 'r result \<times> ref_counts) \<Rightarrow> nat \<Rightarrow> 'r list \<Rightarrow> ref_counts \<Rightarrow>
   unit result \<times> 'r list \<times> ref_counts" where
  "start_rules what st i [] refs = (Inr (), [], refs)"
| "start_rules what st i (rule # rules) refs =
     (case st rule refs of
        (Inl e, refs') \<Rightarrow> (Inl (ECause e (what @ ''['' @ itoa i @ '']'')), rule # rules, refs')
      | (Inr rule', refs') \<Rightarrow>
          (case start_rules what st (Suc i) rules refs' of (x, rules', refs'') \<Rightarrow> (x, rule' # rules', refs'')))"

text \<open>\<^verbatim>\<open>PostStart\<close> of a rule-set only starts its update loop; the events of the loop are
  \<^const>\<open>loopUpdate_first\<close> and \<^const>\<open>updateOnce\<close>.\<close>

definition Router_PostStart :: "runtime \<Rightarrow> route_router \<Rightarrow> unit result \<times> route_router" where
  "Router_PostStart R r =
     (case start_rules ''initialize rule'' (Rule_Start (rt_ruleSetMap r) R) 0 (rt_rules r) (ref_counts_of (rt_ruleSets r)) of
        (Inl e, rules, refs) \<Rightarrow> (Inl e, r\<lparr>rt_rules := rules, rt_ruleSets := put_refs refs (rt_ruleSets r)\<rparr>)
      | (Inr _, rules, refs) \<Rightarrow>
          (Inr (), r\<lparr>rt_rules := rules, rt_ruleSets := put_refs refs (rt_ruleSets r), rt_started := True\<rparr>))"

definition Router_Started :: "route_router \<Rightarrow> route_router" where
  "Router_Started r = r\<lparr>rt_ruleSets := map set_Cleanup (rt_ruleSets r)\<rparr>"

text \<open>\<^verbatim>\<open>Start\<close>: the switch over the stage.\<close>

definition Router_Start ::
  "set_env \<Rightarrow> runtime \<Rightarrow> nat list \<Rightarrow> bool \<Rightarrow> unit result \<Rightarrow> start_stage \<Rightarrow> cache_file option \<times> route_router \<Rightarrow>
   unit result \<times> cache_file option \<times> route_router" where
  "Router_Start V R order hasPlatform newSearcher stage st =
     (case st of (cache, r) \<Rightarrow>
        case stage of
          StartStateStart \<Rightarrow> Router_StartStart V order hasPlatform newSearcher cache r
        | StartStatePostStart \<Rightarrow> (case Router_PostStart R r of (x, r') \<Rightarrow> (x, cache, r'))
        | StartStateStarted \<Rightarrow> (Inr (), cache, Router_Started r)
        | _ \<Rightarrow> (Inr (), cache, r))"

definition Router_Close :: "route_router \<Rightarrow> route_router" where
  "Router_Close r = r\<lparr>rt_ruleSets := map set_Close (rt_ruleSets r)\<rparr>"

section \<open>DNS router\<close>

fun DNSRule_Start :: "tag_map \<Rightarrow> runtime \<Rightarrow> 'a dns_rule \<Rightarrow> ref_counts \<Rightarrow> 'a dns_rule result \<times> ref_counts" where
  "DNSRule_Start tm R (DefaultDNSRule r a) refs =
     (case abstractDefaultRule_Start tm R r refs of (x, refs') \<Rightarrow> (bind_r x (\<lambda>r'. Inr (DefaultDNSRule r' a)), refs'))"
| "DNSRule_Start tm R (LogicalDNSRule rules mode iv a) refs =
     (case rules_Start (DNSRule_Start tm R) rules refs of
        (x, refs') \<Rightarrow> (bind_r x (\<lambda>rs. Inr (LogicalDNSRule rs mode iv a)), refs'))"

text \<open>The DNS rules resolve their rule-sets through the router, whose counters they change.\<close>

definition DNSRouter_Start ::
  "runtime \<Rightarrow> start_stage \<Rightarrow> ('s, 'c) dns_client \<Rightarrow> 'm dns_router \<Rightarrow> route_router \<Rightarrow>
   unit result \<times> ('s, 'c) dns_client \<times> 'm dns_router \<times> route_router" where
  "DNSRouter_Start R stage client d r =
     (if stage = StartStateStart then
        (case start_rules ''initialize DNS rule'' (DNSRule_Start (rt_ruleSetMap r) R) 0 (dx_rules d)
                (ref_counts_of (rt_ruleSets r)) of
           (x, rules, refs) \<Rightarrow>
             (x, Client_Start client, d\<lparr>dx_rules := rules\<rparr>, r\<lparr>rt_ruleSets := put_refs refs (rt_ruleSets r)\<rparr>))
      else (Inr (), client, d, r))"

text \<open>\<^verbatim>\<open>ResetNetwork\<close>: the caches are cleared and every transport is closed; the result lists them.\<close>

definition DNSRouter_ClearCache :: "('s, 'c) client_env \<Rightarrow> ('s, 'c) dns_client \<Rightarrow> ('s, 'c) dns_client" where
  "DNSRouter_ClearCache E client = Client_ClearCache E client"

definition DNSRouter_ResetNetwork ::
  "('s, 'c) client_env \<Rightarrow> transport_manager \<Rightarrow> ('s, 'c) dns_client \<Rightarrow> dns_transport list \<times> ('s, 'c) dns_client" where
  "DNSRouter_ResetNetwork E m client = (tm_transports m, DNSRouter_ClearCache E client)"

section \<open>Rule-sets of tun inbounds\<close>

fun set_ExtractIPSet :: "any_rule_set \<Rightarrow> ipset list" where
  "set_ExtractIPSet (LocalSet s) = ExtractIPSet s"
| "set_ExtractIPSet (RemoteSet s) = ExtractIPSet s"

fun set_IncRef :: "any_rule_set \<Rightarrow> any_rule_set" where
  "set_IncRef (LocalSet s) = LocalSet (IncRef s)"
| "set_IncRef (RemoteSet s) = RemoteSet (IncRef s)"

fun set_RegisterCallback :: "nat \<Rightarrow> any_rule_set \<Rightarrow> any_rule_set" where
  "set_RegisterCallback cb (LocalSet s) = LocalSet (RegisterCallback cb s)"
| "set_RegisterCallback cb (RemoteSet s) = RemoteSet (RegisterCallback cb s)"

text \<open>What a tun inbound keeps of rule-sets; \<open>ti_autoRedirect\<close> names its callback when it redirects.\<close>

record tun_inbound =
  ti_platform :: bool
  ti_autoRedirect :: "nat option"
  ti_routeRuleSet :: "rule_set_ref list"
  ti_routeExcludeRuleSet :: "rule_set_ref list"
  ti_routeAddressSet :: "ipset list"
  ti_routeExcludeAddressSet :: "ipset list"

fun find_sets :: "string \<Rightarrow> route_router \<Rightarrow> string list \<Rightarrow> rule_set_ref list result" where
  "find_sets what r [] = Inr []"
| "find_sets what r (tag # tags) =
     (case rt_ruleSetMap r tag of
        None \<Rightarrow> Inl (ENew (''parse '' @ what @ '': rule-set not found: '' @ tag))
      | Some i \<Rightarrow> bind_r (find_sets what r tags) (\<lambda>l. Inr (i # l)))"

text \<open>The rule-sets of \<^verbatim>\<open>NewInbound\<close>, for the tags of the two options.\<close>

definition NewTunInbound :: "route_router \<Rightarrow> bool \<times> nat option \<times> string list \<times> string list \<Rightarrow> tun_inbound result" where
  "NewTunInbound r options =
     (case options of (platform, autoRedirect, routeAddressSet, routeExcludeAddressSet) \<Rightarrow>
        bind_r (find_sets ''route_address_set'' r routeAddressSet) (\<lambda>included.
        bind_r (find_sets ''route_exclude_address_set'' r routeExcludeAddressSet) (\<lambda>excluded.
          Inr \<lparr>ti_platform = platform, ti_autoRedirect = autoRedirect, ti_routeRuleSet = included, ti_routeExcludeRuleSet = excluded,
               ti_routeAddressSet = [], ti_routeExcludeAddressSet = []\<rparr>)))"

fun tun_take_sets :: "nat option \<Rightarrow> rule_set_ref list \<Rightarrow> any_rule_set list \<Rightarrow> ipset list \<times> any_rule_set list" where
  "tun_take_sets autoRedirect [] sets = ([], sets)"
| "tun_take_sets autoRedirect (i # refs) sets =
     (let ipSets = set_ExtractIPSet (sets ! i);
          s = set_IncRef (sets ! i);
          s' = (case autoRedirect of None \<Rightarrow> s | Some cb \<Rightarrow> set_RegisterCallback cb s)
      in case tun_take_sets autoRedirect refs (sets[i := s']) of (l, sets') \<Rightarrow> (ipSets @ l, sets'))"

text \<open>\<^verbatim>\<open>Start\<close> of a tun inbound at \<^const>\<open>StartStateStart\<close>, up to its network interface.\<close>

definition tun_Start :: "tun_inbound \<Rightarrow> any_rule_set list \<Rightarrow> tun_inbound \<times> any_rule_set list" where
  "tun_Start t sets =
     (if ti_platform t then (t, sets)
      else
        (case tun_take_sets (ti_autoRedirect t) (ti_routeRuleSet t) sets of (included, sets1) \<Rightarrow>
         case tun_take_sets (ti_autoRedirect t) (ti_routeExcludeRuleSet t) sets1 of (excluded, sets2) \<Rightarrow>
           (t\<lparr>ti_routeAddressSet := ti_routeAddressSet t @ included,
              ti_routeExcludeAddressSet := ti_routeExcludeAddressSet t @ excluded\<rparr>, sets2)))"

fun start_tuns :: "tun_inbound list \<Rightarrow> any_rule_set list \<Rightarrow> tun_inbound list \<times> any_rule_set list" where
  "start_tuns [] sets = ([], sets)"
| "start_tuns (t # ts) sets =
     (case tun_Start t sets of (t', sets1) \<Rightarrow> case start_tuns ts sets1 of (ts', sets2) \<Rightarrow> (t' # ts', sets2))"

section \<open>Start of both\<close>

text \<open>The stages in the order of \<^verbatim>\<open>preStart\<close> and \<^verbatim>\<open>start\<close> of \<^verbatim>\<open>box.go\<close>, as far as the routers and their
  rule-sets are concerned: the DNS router comes before the router, and the inbounds start between
  the first and the second stage of the router. The other parts are taken to start; they do
  not touch the rule-sets, and one that fails ends the start.\<close>

definition start_routers ::
  "set_env \<Rightarrow> runtime \<Rightarrow> nat list \<Rightarrow> bool \<Rightarrow> unit result \<Rightarrow> cache_file option \<Rightarrow> ('s, 'c) dns_client \<Rightarrow> tun_inbound list \<Rightarrow>
   'm dns_router \<Rightarrow> route_router \<Rightarrow> ('m dns_router \<times> route_router) result" where
  "start_routers V R order hasPlatform newSearcher cache client tuns d0 r0 =
     (case DNSRouter_Start R StartStateStart client d0 r0 of
        (Inl e, _) \<Rightarrow> Inl e
      | (Inr _, client', d, r1) \<Rightarrow>
     (case Router_Start V R order hasPlatform newSearcher StartStateStart (cache, r1) of
        (Inl e, _) \<Rightarrow> Inl e
      | (Inr _, cache1, r2) \<Rightarrow>
     (case start_tuns tuns (rt_ruleSets r2) of
        (_, sets) \<Rightarrow>
     (case Router_Start V R order hasPlatform newSearcher StartStatePostStart (cache1, r2\<lparr>rt_ruleSets := sets\<rparr>) of
        (Inl e, _) \<Rightarrow> Inl e
      | (Inr _, cache2, r3) \<Rightarrow>
     (case Router_Start V R order hasPlatform newSearcher StartStateStarted (cache2, r3) of
        (Inl e, _) \<Rightarrow> Inl e
      | (Inr _, _, r4) \<Rightarrow> Inr (d, r4))))))"

end
