(* ===== verification/Router_Lifecycle_Props.thy ===== *)
theory Router_Lifecycle_Props
  imports Router_Lifecycle "HOL-Library.Multiset"
begin

text \<open>
  Properties of the start of the routers: which rule-sets keep their rules, the reference
  counts, that the order in which the tasks of the rule-sets run does not matter, and when the
  search for processes is switched on.
\<close>

section \<open>References that starting counts\<close>

text \<open>What a router promises of the rules it starts: the counters grow by exactly the pointers the
  started rule holds.\<close>

locale counted_start =
  fixes st :: "'r \<Rightarrow> ref_counts \<Rightarrow> 'r result \<times> ref_counts"
    and refs_of :: "'r \<Rightarrow> rule_set_ref list"
  assumes counts: "st r refs = (Inr r', refs') \<Longrightarrow> refs_of r = [] \<Longrightarrow> refs' s = refs s + int (count_list (refs_of r') s)"
begin

lemma start_rules_counts:
  assumes "start_rules what st i rs refs = (Inr (), rs', refs')" and "list_all (\<lambda>r. refs_of r = []) rs"
  shows "refs' s = refs s + int (count_list (concat (map refs_of rs')) s)"
  using assms
proof (induction rs arbitrary: i refs rs')
  case (Cons r rs)
  then obtain r1 refs1 rs1 where r: "st r refs = (Inr r1, refs1)"
      "start_rules what st (Suc i) rs refs1 = (Inr (), rs1, refs')" "rs' = r1 # rs1"
    by (auto split: prod.splits sum.splits)
  with Cons.IH [OF r(2)] counts [OF r(1), of s] Cons.prems(2) show ?case by simp
qed simp

end

lemma RuleSetItem_Start_counts:
  assumes "RuleSetItem_Start tm tags l refs = (Inr l', refs')"
  shows "l' = l @ map (the \<circ> tm) tags \<and> refs' s = refs s + int (count_list (map (the \<circ> tm) tags) s)"
  using assms
proof (induction tags arbitrary: l refs)
  case (Cons tag tags)
  then obtain x where x: "tm tag = Some x" "RuleSetItem_Start tm tags (l @ [x]) (refs(x := refs x + 1)) = (Inr l', refs')"
    by (auto split: option.splits)
  from Cons.IH [OF x(2)] x(1) show ?case by auto
qed simp

lemma RuleSetItem_Start_ok:
  "isl (fst (RuleSetItem_Start tm tags l refs)) = isl (fst (RuleSetItem_Start tm tags l1 refs1))"
  by (induction tags arbitrary: l refs l1 refs1) (auto split: option.splits)

lemma item_Start_counts:
  assumes "item_Start tm R i refs = (Inr j, refs')" and "item_refs i = []"
  shows "refs' s = refs s + int (count_list (item_refs (started_item tm R i)) s)"
proof (cases i)
  case (Leaf x)
  with assms show ?thesis by (cases x) auto
next
  case (RuleSetItem r)
  obtain l where l: "RuleSetItem_Start tm (rsi_tagList r) (rsi_setList r) refs = (Inr l, refs')"
    using assms(1) RuleSetItem by (auto split: prod.splits sum.splits)
  obtain l2 rf where l2: "RuleSetItem_Start tm (rsi_tagList r) (rsi_setList r) (\<lambda>_. 0) = (Inr l2, rf)"
    using RuleSetItem_Start_ok [of tm "rsi_tagList r" "rsi_setList r" refs "rsi_setList r" "\<lambda>_. 0"] l
    by (cases "RuleSetItem_Start tm (rsi_tagList r) (rsi_setList r) (\<lambda>_. 0)"; cases "fst (RuleSetItem_Start tm (rsi_tagList r) (rsi_setList r) (\<lambda>_. 0))") auto
  show ?thesis
    using RuleSetItem_Start_counts [OF l, of s] RuleSetItem_Start_counts [OF l2, of s] l2 RuleSetItem assms(2)
    by (simp add: started_item_def)
qed

lemma items_Start_counts:
  assumes "items_Start tm R is refs = (Inr u, refs')" and "list_all (\<lambda>i. item_refs i = []) is"
  shows "refs' s = refs s + int (count_list (concat (map item_refs (map (started_item tm R) is))) s)"
  using assms
proof (induction "is" arbitrary: refs)
  case (Cons i "is")
  then obtain j r1 where i: "item_Start tm R i refs = (Inr j, r1)" "items_Start tm R is r1 = (Inr u, refs')"
    by (auto split: prod.splits sum.splits)
  with Cons.IH [OF i(2)] item_Start_counts [OF i(1), of s] Cons.prems(2) show ?case by simp
qed simp

lemma default_Start_counts:
  assumes "abstractDefaultRule_Start tm R r refs = (Inr r', refs')" and "concat (map item_refs (ar_allItems r)) = []"
  shows "refs' s = refs s + int (count_list (concat (map item_refs (ar_allItems r'))) s)"
proof -
  obtain u where u: "items_Start tm R (ar_allItems r) refs = (Inr u, refs')" "r' = map_items (started_item tm R) r"
    using assms(1) by (auto simp: abstractDefaultRule_Start_def split: prod.splits sum.splits)
  with items_Start_counts [OF u(1), of s] assms(2) show ?thesis by (simp add: map_items_def list_all_iff)
qed

fun dns_rule_refs :: "'a dns_rule \<Rightarrow> rule_set_ref list" where
  "dns_rule_refs (DefaultDNSRule r a) = concat (map item_refs (ar_allItems r))"
| "dns_rule_refs (LogicalDNSRule rules mode iv a) = concat (map dns_rule_refs rules)"

text \<open>The rules inside a logical rule, when each of them is counted.\<close>

definition counted :: "('r \<Rightarrow> ref_counts \<Rightarrow> 'r result \<times> ref_counts) \<Rightarrow> ('r \<Rightarrow> rule_set_ref list) \<Rightarrow> 'r \<Rightarrow> bool" where
  "counted st refs_of r \<longleftrightarrow> (\<forall>refs r' refs' s. st r refs = (Inr r', refs') \<longrightarrow> refs_of r = [] \<longrightarrow>
     refs' s = refs s + int (count_list (refs_of r') s))"

lemma logical_counts:
  assumes "rules_Start st rs refs = (Inr rs', refs')" and "list_all (\<lambda>r. refs_of r = []) rs" and "list_all (counted st refs_of) rs"
  shows "refs' s = refs s + int (count_list (concat (map refs_of rs')) s)"
  using assms
proof (induction rs arbitrary: refs rs')
  case (Cons r rs)
  then obtain r1 refs1 rs1 where r: "st r refs = (Inr r1, refs1)" "rules_Start st rs refs1 = (Inr rs1, refs')" "rs' = r1 # rs1"
    by (auto split: prod.splits sum.splits)
  have "refs1 s = refs s + int (count_list (refs_of r1) s)" using Cons.prems(2,3) r(1) by (simp add: counted_def)
  with Cons.IH [OF r(2)] Cons.prems(2,3) r(3) show ?case by simp
qed simp

lemma Rule_Start_counts:
  assumes "Rule_Start tm R rule refs = (Inr started, refs')" and "rule_refs rule = []"
  shows "refs' s = refs s + int (count_list (rule_refs started) s)"
  using assms
proof (induction rule arbitrary: refs started refs' s)
  case (DefaultRule r a)
  then show ?case by (auto split: prod.splits dest: default_Start_counts)
next
  case (LogicalRule rules mode iv a)
  then obtain rs where rs: "rules_Start (Rule_Start tm R) rules refs = (Inr rs, refs')" "started = LogicalRule rs mode iv a"
    by (auto split: prod.splits simp: bind_r_def split: sum.splits)
  have "list_all (\<lambda>r. rule_refs r = []) rules" using LogicalRule.prems(2) by (simp add: list_all_iff)
  moreover have "list_all (counted (Rule_Start tm R) rule_refs) rules"
    unfolding list_all_iff counted_def using LogicalRule.IH by blast
  ultimately show ?case using logical_counts [OF rs(1), where s = s] rs(2) by simp
qed

lemma DNSRule_Start_counts:
  assumes "DNSRule_Start tm R rule refs = (Inr started, refs')" and "dns_rule_refs rule = []"
  shows "refs' s = refs s + int (count_list (dns_rule_refs started) s)"
  using assms
proof (induction rule arbitrary: refs started refs' s)
  case (DefaultDNSRule r a)
  then show ?case by (auto split: prod.splits dest: default_Start_counts)
next
  case (LogicalDNSRule rules mode iv a)
  then obtain rs where rs: "rules_Start (DNSRule_Start tm R) rules refs = (Inr rs, refs')" "started = LogicalDNSRule rs mode iv a"
    by (auto split: prod.splits simp: bind_r_def split: sum.splits)
  have "list_all (\<lambda>r. dns_rule_refs r = []) rules" using LogicalDNSRule.prems(2) by (simp add: list_all_iff)
  moreover have "list_all (counted (DNSRule_Start tm R) dns_rule_refs) rules"
    unfolding list_all_iff counted_def using LogicalDNSRule.IH by blast
  ultimately show ?case using logical_counts [OF rs(1), where s = s] rs(2) by simp
qed

interpretation route_start: counted_start "Rule_Start tm R" rule_refs for tm R
  by unfold_locales (rule Rule_Start_counts)

interpretation dns_start: counted_start "DNSRule_Start tm R" dns_rule_refs for tm R
  by unfold_locales (rule DNSRule_Start_counts)

section \<open>Rules as the constructors leave them\<close>

definition keeps_unstarted :: "rule_item rule_step \<Rightarrow> bool" where
  "keeps_unstarted f \<longleftrightarrow> (\<forall>r r'. f r = Inr r' \<longrightarrow> list_all (\<lambda>i. item_refs i = []) (ar_allItems r) \<longrightarrow>
     list_all (\<lambda>i. item_refs i = []) (ar_allItems r'))"

lemma keeps_unstarted_steps [simp]:
  "keeps_unstarted (item_if b g (Leaf x))"
  "keeps_unstarted (item_if b g (RuleSetItem (NewRuleSetItem tags src emp)))"
  "keeps_unstarted (item_try b g (\<lambda>i. Leaf (mk i)) res)"
  "keeps_unstarted (fail_if b e)"
  "keeps_unstarted (ip_version_step v)"
  by (cases g; auto simp: keeps_unstarted_def item_if_def item_try_def fail_if_def ip_version_step_def NewRuleSetItem_def
      split: if_splits)+

lemma run_steps_unstarted:
  assumes "run_steps fs (empty_rule iv) = Inr r" and "list_all keeps_unstarted fs"
  shows "concat (map item_refs (ar_allItems r)) = []"
proof -
  have "list_all (\<lambda>i. item_refs i = []) (ar_allItems r)"
    by (rule run_steps_invariant [OF assms(1)])
       (use assms(2) in \<open>auto simp: list_all_iff keeps_unstarted_def empty_rule_def\<close>)
  then show ?thesis by (simp add: list_all_iff)
qed

lemma traverse_from_member:
  "traverse_from i f xs = Inr ys \<Longrightarrow> y \<in> set ys \<Longrightarrow> \<exists>k x. x \<in> set xs \<and> f k x = Inr y"
  by (induction xs arbitrary: i ys) (auto, blast+)

lemma sub_rules_member: "sub_rules f xs = Inr ys \<Longrightarrow> y \<in> set ys \<Longrightarrow> \<exists>x. x \<in> set xs \<and> f x = Inr y"
  by (auto simp: sub_rules_def dest!: traverse_from_member)

lemma NewRule_unstarted: "NewRule L T D checkOutbound o1 = Inr rule \<Longrightarrow> rule_refs rule = []"
proof (induction o1 arbitrary: rule checkOutbound)
  case (RuleOptions ty d mode rules iv act)
  show ?case
  proof (cases "ty = [] \<or> ty = RuleTypeDefault")
    case True
    with RuleOptions.prems obtain r0 action where
      "run_steps (NewDefaultRule_steps L (dro_Raw d)) (empty_rule (or_Invert (dro_Raw d))) = Inr r0" "rule = DefaultRule r0 action"
      by (auto simp: NewDefaultRule_def split: if_splits)
    moreover have "list_all keeps_unstarted (NewDefaultRule_steps L (dro_Raw d))" by (simp add: NewDefaultRule_steps_def)
    ultimately show ?thesis using run_steps_unstarted by fastforce
  next
    case False
    with RuleOptions.prems obtain rs m action where rs: "sub_rules (NewRule L T D False) rules = Inr rs" "rule = LogicalRule rs m iv action"
      by (auto simp: NewLogicalRule_def split: if_splits)
    have "rule_refs x = []" if "x \<in> set rs" for x
      using RuleOptions.IH sub_rules_member [OF rs(1) that] by blast
    with rs(2) show ?thesis by simp
  qed
qed

lemma NewDNSRule_unstarted: "NewDNSRule L checkServer o1 = Inr rule \<Longrightarrow> dns_rule_refs rule = []"
proof (induction o1 arbitrary: rule checkServer)
  case (DNSRuleOptions ty d mode rules iv act)
  show ?case
  proof (cases "ty = [] \<or> ty = RuleTypeDefault")
    case True
    with DNSRuleOptions.prems obtain r0 action where
      "run_steps (NewDefaultDNSRule_steps L (ddo_Raw d)) (empty_rule (od_Invert (ddo_Raw d))) = Inr r0" "rule = DefaultDNSRule r0 action"
      by (auto simp: NewDefaultDNSRule_def split: if_splits)
    moreover have "list_all keeps_unstarted (NewDefaultDNSRule_steps L (ddo_Raw d))" by (simp add: NewDefaultDNSRule_steps_def)
    ultimately show ?thesis using run_steps_unstarted by fastforce
  next
    case False
    with DNSRuleOptions.prems obtain rs m action where rs: "sub_rules (NewDNSRule L False) rules = Inr rs" "rule = LogicalDNSRule rs m iv action"
      by (auto simp: NewLogicalDNSRule_def split: if_splits)
    have "dns_rule_refs x = []" if "x \<in> set rs" for x
      using DNSRuleOptions.IH sub_rules_member [OF rs(1) that] by blast
    with rs(2) show ?thesis by simp
  qed
qed

section \<open>Starting the rule-sets\<close>

text \<open>What a task sees of the cache file: the entry of its tag and whether writes fail.\<close>

fun same_view :: "string \<Rightarrow> cache_file option \<Rightarrow> cache_file option \<Rightarrow> bool" where
  "same_view tag None None = True"
| "same_view tag (Some a) (Some b) = (cf_RuleSets a tag = cf_RuleSets b tag \<and> cf_writeError a = cf_writeError b)"
| "same_view tag _ _ = False"

lemma same_view_cases:
  "same_view tag c d \<longleftrightarrow> (c = None \<and> d = None) \<or>
     (\<exists>a b. c = Some a \<and> d = Some b \<and> cf_RuleSets a tag = cf_RuleSets b tag \<and> cf_writeError a = cf_writeError b)"
  by (cases c; cases d) auto

lemma same_view_refl [simp]: "same_view tag c c"
  by (cases c) auto

lemma same_view_trans: "same_view tag a b \<Longrightarrow> same_view tag b c \<Longrightarrow> same_view tag a c"
  by (auto simp: same_view_cases)

lemma same_view_sym: "same_view tag a b \<Longrightarrow> same_view tag b a"
  by (auto simp: same_view_cases)

lemma same_view_all: "(\<And>tag. same_view tag c d) \<Longrightarrow> c = d"
  by (cases c; cases d) (auto simp: fun_eq_iff intro: cache_file.equality)

text \<open>A fetch decides from outside what it writes at its tag; only the answer 304 reads the entry.\<close>

definition write_at :: "string \<Rightarrow> (saved_binary option \<Rightarrow> saved_binary option) \<Rightarrow> cache_file \<Rightarrow> cache_file" where
  "write_at tag g cf = (case g (cf_RuleSets cf tag) of None \<Rightarrow> cf | Some b \<Rightarrow> snd (SaveRuleSet tag b cf))"

lemma write_at_none [simp]: "map_option (write_at tag (\<lambda>_. None)) c = c"
  by (cases c) (auto simp: write_at_def)

lemma write_at_view:
  "same_view tag c d \<Longrightarrow> same_view tag (map_option (write_at tag g) c) (map_option (write_at tag g) d)"
  by (cases c; cases d; cases "cf_writeError (the c)"; cases "g (cf_RuleSets (the c) tag)") (auto simp: write_at_def SaveRuleSet_def)

lemma write_at_other: "t \<noteq> tag \<Longrightarrow> same_view t c (map_option (write_at tag g) c)"
  by (cases c; cases "cf_writeError (the c)"; cases "g (cf_RuleSets (the c) tag)") (auto simp: write_at_def SaveRuleSet_def)

lemma fetch_shape:
  "\<exists>r s' g. \<forall>c. fetch L X hasNM request now c s = (r, map_option (write_at (rst_tag s) g) c, s')"
proof (cases "request (rrs_lastEtag s)")
  case (Inl e)
  then show ?thesis by (intro exI [of _ "Inl e"] exI [of _ s] exI [of _ "\<lambda>_. None"]) (simp add: fetch_def)
next
  case (Inr resp)
  note r = this
  consider "hr_StatusCode resp = 304" | "hr_StatusCode resp \<noteq> 304" "hr_StatusCode resp \<noteq> 200" | "hr_StatusCode resp = 200" by blast
  then show ?thesis
  proof cases
    case 1
    with r show ?thesis
      by (intro exI [of _ "Inr ()"] exI [of _ "s\<lparr>rrs_lastUpdated := Some now\<rparr>"]
            exI [of _ "map_option (\<lambda>saved. saved\<lparr>sb_LastUpdated := Some now\<rparr>)"])
         (auto simp: fetch_def write_at_def Let_def split: option.splits)
  next
    case 2
    with r show ?thesis
      by (intro exI [of _ "Inl (ENew (''unexpected status: '' @ hr_Status resp))"] exI [of _ s] exI [of _ "\<lambda>_. None"])
         (simp add: fetch_def)
  next
    case 3
    show ?thesis
    proof (cases "bind_r (hr_Body resp) (\<lambda>content. bind_r (loadBytes L X hasNM content s) (\<lambda>(_, s1). Inr (content, s1)))")
      case (Inl e)
      with r 3 show ?thesis
        by (intro exI [of _ "Inl e"] exI [of _ s] exI [of _ "\<lambda>_. None"]) (simp add: fetch_def)
    next
      case (Inr p)
      obtain content s1 where "p = (content, s1)" by (cases p)
      with Inr r 3 show ?thesis
        by (auto simp: fetch_def write_at_def [abs_def] Let_def
            intro!: exI [of _ "\<lambda>_. Some \<lparr>sb_Content = content, sb_LastUpdated = Some now,
              sb_LastEtag = if hr_Etag resp \<noteq> [] then hr_Etag resp else rrs_lastEtag s1\<rparr>"])
    qed
  qed
qed

lemma fetch_local:
  assumes "same_view (rst_tag s) c d" and "fetch L X hasNM request now c s = (r, c', s')"
  shows "\<exists>d'. fetch L X hasNM request now d s = (r, d', s') \<and> same_view (rst_tag s) c' d' \<and>
    (\<forall>t. t \<noteq> rst_tag s \<longrightarrow> same_view t c c')"
proof -
  obtain r1 s1 g where g: "\<And>c. fetch L X hasNM request now c s = (r1, map_option (write_at (rst_tag s) g) c, s1)"
    using fetch_shape by metis
  with assms show ?thesis using write_at_view write_at_other by auto
qed

lemma fetch_frame:
  assumes "fetch L X hasNM request now c s = (r, c', s')"
  shows "rst_tag s' = rst_tag s \<and> rst_refs s' = rst_refs s"
  using assms
  by (auto simp: fetch_def Let_def bind_r_def split: sum.splits if_splits option.splits prod.splits dest!: loadBytes_frame)

lemma restore_frame:
  assumes "restore_cached L X hasNM c s = Inr s'"
  shows "rst_tag s' = rst_tag s \<and> rst_refs s' = rst_refs s"
  using assms
  by (auto simp: restore_cached_def bind_r_def split: sum.splits option.splits prod.splits dest: loadBytes_frame)

lemma restore_local:
  "same_view (rst_tag s) c d \<Longrightarrow> restore_cached L X hasNM c s = restore_cached L X hasNM d s"
  by (auto simp: restore_cached_def same_view_cases)

lemma StartContext_local:
  assumes "same_view (rst_tag s) c d" and "StartContext L X hasNM has request now c s = (r, c', s')"
  shows "\<exists>d'. StartContext L X hasNM has request now d s = (r, d', s') \<and> same_view (rst_tag s) c' d' \<and>
    (\<forall>t. t \<noteq> rst_tag s \<longrightarrow> same_view t c c')"
proof (cases "rrs_DownloadDetour s \<noteq> [] \<and> \<not> has (rrs_DownloadDetour s)")
  case True
  with assms show ?thesis by (auto simp: StartContext_def)
next
  case False
  note f = this
  show ?thesis
  proof (cases "restore_cached L X hasNM c s")
    case (Inl e)
    with restore_local [OF assms(1), of L X hasNM] have "restore_cached L X hasNM d s = Inl e" by simp
    with Inl assms f show ?thesis by (auto simp: StartContext_def)
  next
    case (Inr s1)
    note restored = this restore_local [OF assms(1), of L X hasNM, symmetric] restore_frame [OF this]
    show ?thesis
    proof (cases "rrs_lastUpdated s1 = None")
      case False
      with assms f restored show ?thesis by (auto simp: StartContext_def)
    next
      case True
      obtain x c1 s2 where x: "fetch L X hasNM request now c s1 = (x, c1, s2)" by (rule prod_cases3)
      obtain d1 where "fetch L X hasNM request now d s1 = (x, d1, s2)" "same_view (rst_tag s1) c1 d1"
          "\<forall>t. t \<noteq> rst_tag s1 \<longrightarrow> same_view t c c1"
        using fetch_local [OF _ x, of d] assms(1) restored by auto
      with x assms f restored True show ?thesis by (auto simp: StartContext_def)
    qed
  qed
qed

lemma StartContext_frame:
  assumes "StartContext L X hasNM has request now c s = (r, c', s')"
  shows "rst_tag s' = rst_tag s \<and> rst_refs s' = rst_refs s"
  using assms
  by (auto simp: StartContext_def split: if_splits sum.splits prod.splits dest!: fetch_frame restore_frame)

lemma set_StartContext_local:
  assumes "same_view (set_tag s) c d" and "set_StartContext V c s = (r, c', s')"
  shows "\<exists>d'. set_StartContext V d s = (r, d', s') \<and> same_view (set_tag s) c' d' \<and> (\<forall>t. t \<noteq> set_tag s \<longrightarrow> same_view t c c')"
proof (cases s)
  case (RemoteSet x)
  obtain y where y: "StartContext (se_lib V) (se_decoders V) (se_hasNM V) (se_hasOutbound V) (se_request V (rst_tag x))
      (se_now V (rst_tag x)) c x = (r, c', y)" "s' = RemoteSet y"
    using assms(2) RemoteSet by (auto split: prod.splits)
  from StartContext_local [OF _ y(1), of d] assms(1) RemoteSet y(2) show ?thesis by auto
qed (use assms in auto)

lemma set_StartContext_frame:
  assumes "set_StartContext V c s = (r, c', s')"
  shows "set_tag s' = set_tag s \<and> set_refs s' = set_refs s"
  using assms by (cases s) (auto split: prod.splits dest!: StartContext_frame)

text \<open>Tasks of different tags do not see each other: each gives what it gives alone.\<close>

definition alone :: "set_env \<Rightarrow> cache_file option \<Rightarrow> any_rule_set list \<Rightarrow> nat \<Rightarrow> unit result \<times> cache_file option \<times> any_rule_set" where
  "alone V c sets i = set_StartContext V c (sets ! i)"

lemma alone_other:
  assumes "set_StartContext V c (sets ! i) = (r, c', s)" and "j \<noteq> i" and "set_tag (sets ! j) \<noteq> set_tag (sets ! i)"
  shows "fst (alone V c' (sets[i := s]) j) = fst (alone V c sets j) \<and> snd (snd (alone V c' (sets[i := s]) j)) = snd (snd (alone V c sets j)) \<and>
    same_view (set_tag (sets ! j)) (fst (snd (alone V c' (sets[i := s]) j))) (fst (snd (alone V c sets j)))"
proof -
  have v: "same_view (set_tag (sets ! j)) c c'" using set_StartContext_local [OF same_view_refl assms(1)] assms(3) by blast
  obtain x d t where x: "set_StartContext V c (sets ! j) = (x, d, t)" by (rule prod_cases3)
  obtain d' where "set_StartContext V c' (sets ! j) = (x, d', t)" "same_view (set_tag (sets ! j)) d d'"
    using set_StartContext_local [OF v x] by blast
  with x assms(2) show ?thesis by (simp add: alone_def same_view_sym)
qed

text \<open>A schedule: tasks of different tags, all in the list. The tail of a schedule is one for the list
  after its first task.\<close>

definition schedule :: "any_rule_set list \<Rightarrow> nat list \<Rightarrow> bool" where
  "schedule sets order \<longleftrightarrow> distinct (map (\<lambda>i. set_tag (sets ! i)) order) \<and> (\<forall>i\<in>set order. i < length sets)"

lemma schedule_tail:
  assumes "schedule sets (i # order)"
  shows "schedule (sets[i := s]) order"
    and "j \<in> set order \<Longrightarrow> j \<noteq> i \<and> set_tag (sets ! j) \<noteq> set_tag (sets ! i) \<and> j < length sets \<and> i < length sets"
proof -
  have ne: "j \<noteq> i \<and> set_tag (sets ! j) \<noteq> set_tag (sets ! i)" if "j \<in> set order" for j
  proof -
    have "set_tag (sets ! i) \<notin> (\<lambda>j. set_tag (sets ! j)) ` set order" using assms by (simp add: schedule_def)
    then have "set_tag (sets ! j) \<noteq> set_tag (sets ! i)" using that by (metis imageI)
    then show ?thesis by blast
  qed
  then show "j \<in> set order \<Longrightarrow> j \<noteq> i \<and> set_tag (sets ! j) \<noteq> set_tag (sets ! i) \<and> j < length sets \<and> i < length sets"
    using assms by (auto simp: schedule_def)
  have eq: "map (\<lambda>j. set_tag (sets[i := s] ! j)) order = map (\<lambda>j. set_tag (sets ! j)) order"
    by (intro map_cong refl) (metis ne nth_list_update_neq)
  show "schedule (sets[i := s]) order" unfolding schedule_def eq using assms by (simp add: schedule_def)
qed

lemma start_sets_runs:
  assumes "schedule sets order" and "\<forall>j\<in>set order. fst (alone V c sets j) = Inr ()"
  shows "\<exists>c' sets'. start_sets V order c sets = (Inr (), c', sets')"
  using assms
proof (induction order arbitrary: c sets)
  case (Cons i order)
  obtain c1 s where s: "set_StartContext V c (sets ! i) = (Inr (), c1, s)"
    using Cons.prems(2) by (cases "set_StartContext V c (sets ! i)") (auto simp: alone_def)
  have "\<forall>j\<in>set order. fst (alone V c1 (sets[i := s]) j) = Inr ()"
    using alone_other [OF s] schedule_tail(2) [OF Cons.prems(1)] Cons.prems(2) by simp
  from Cons.IH [OF schedule_tail(1) [OF Cons.prems(1)] this] s show ?case by simp
qed simp

lemma start_sets_alone:
  assumes "schedule sets order" and "start_sets V order c sets = (Inr (), c', sets')"
  shows "(\<forall>j\<in>set order. fst (alone V c sets j) = Inr ()) \<and> length sets' = length sets \<and>
    (\<forall>j < length sets. sets' ! j = (if j \<in> set order then snd (snd (alone V c sets j)) else sets ! j)) \<and>
    (\<forall>j\<in>set order. same_view (set_tag (sets ! j)) c' (fst (snd (alone V c sets j)))) \<and>
    (\<forall>tag. tag \<notin> (\<lambda>j. set_tag (sets ! j)) ` set order \<longrightarrow> same_view tag c' c)"
  using assms
proof (induction order arbitrary: c sets)
  case (Cons i order)
  obtain c1 s where s: "set_StartContext V c (sets ! i) = (Inr (), c1, s)" and rest: "start_sets V order c1 (sets[i := s]) = (Inr (), c', sets')"
    using Cons.prems(2) by (auto split: sum.splits prod.splits)
  note tail = schedule_tail [OF Cons.prems(1)] and IH = Cons.IH [OF schedule_tail(1) [OF Cons.prems(1)] rest]
  have i: "i < length sets" using Cons.prems(1) by (simp add: schedule_def)
  note other = alone_other [OF s, of _]
  have all: "\<forall>j\<in>set (i # order). fst (alone V c sets j) = Inr ()"
    using IH other tail(2) s by (simp add: alone_def [of V c sets i])
  have same: "\<forall>j < length sets. sets' ! j = (if j \<in> set (i # order) then snd (snd (alone V c sets j)) else sets ! j)"
    using IH other tail(2) s i by (auto simp: alone_def [of V c sets i])
  have "same_view (set_tag (sets ! j)) c' (fst (snd (alone V c sets j)))" if "j \<in> set order" for j
  proof -
    have "same_view (set_tag (sets ! j)) c' (fst (snd (alone V c1 (sets[i := s]) j)))" using IH tail(2) [OF that] that by auto
    with other [of j] tail(2) [OF that] show ?thesis by (blast intro: same_view_trans)
  qed
  moreover have "same_view tag c' c1" if "tag \<notin> (\<lambda>j. set_tag (sets ! j)) ` set order" for tag
  proof -
    have "tag \<notin> (\<lambda>j. set_tag (sets[i := s] ! j)) ` set order" using that tail(2) by force
    with IH show ?thesis by blast
  qed
  moreover have "set_tag (sets ! i) \<notin> (\<lambda>j. set_tag (sets ! j)) ` set order" using tail(2) by force
  moreover have "same_view tag c1 c" if "tag \<noteq> set_tag (sets ! i)" for tag
    using set_StartContext_local [OF same_view_refl s] that by (blast intro: same_view_sym)
  ultimately have "\<forall>j\<in>set (i # order). same_view (set_tag (sets ! j)) c' (fst (snd (alone V c sets j)))"
      "\<forall>tag. tag \<notin> (\<lambda>j. set_tag (sets ! j)) ` set (i # order) \<longrightarrow> same_view tag c' c"
    using s by (auto simp: alone_def [of V c sets i]) (metis same_view_trans)
  with all same IH show ?case by auto
qed simp

text \<open>Hence the order of the tasks does not matter.\<close>

lemma start_sets_any_order:
  assumes "schedule sets order" and "schedule sets order'" and "set order' = set order"
    and "start_sets V order c sets = (Inr (), c', sets')"
  shows "start_sets V order' c sets = (Inr (), c', sets')"
proof -
  note a = start_sets_alone [OF assms(1,4)]
  have "\<forall>j\<in>set order'. fst (alone V c sets j) = Inr ()" using a assms(3) by simp
  from start_sets_runs [OF assms(2) this] obtain d' sets2 where d: "start_sets V order' c sets = (Inr (), d', sets2)" by blast
  note b = start_sets_alone [OF assms(2) d]
  have "sets2 = sets'" by (rule nth_equalityI) (use a b assms(3) in auto)
  moreover have "same_view tag d' c'" for tag
  proof (cases "tag \<in> (\<lambda>j. set_tag (sets ! j)) ` set order")
    case True
    then obtain j where j: "j \<in> set order" "tag = set_tag (sets ! j)" by blast
    have "same_view tag c' (fst (snd (alone V c sets j)))" "same_view tag d' (fst (snd (alone V c sets j)))"
      using a b j assms(3) by auto
    then show ?thesis by (blast intro: same_view_sym same_view_trans)
  next
    case False
    then have "same_view tag c' c" "same_view tag d' c" using a b assms(3) by auto
    then show ?thesis by (blast intro: same_view_sym same_view_trans)
  qed
  ultimately show ?thesis using d same_view_all by blast
qed

section \<open>An initialised router\<close>

text \<open>The table of the rule-sets: an entry for every rule-set under its own tag, none beside.\<close>

definition sets_table_wf :: "route_router \<Rightarrow> bool" where
  "sets_table_wf r \<longleftrightarrow> (\<forall>tag i. rt_ruleSetMap r tag = Some i \<longleftrightarrow> i < length (rt_ruleSets r) \<and> set_tag (rt_ruleSets r ! i) = tag)"

lemma NewRuleSet_fields:
  assumes "NewRuleSet V o1 = Inr s"
  shows "set_tag s = rso_Tag o1 \<and> set_refs s = 0"
  using assms
  by (auto simp: NewRuleSet_def NewLocalRuleSet_def NewRemoteRuleSet_def reloadFile_def reloadRules_def Let_def split: if_splits)

lemma initialize_sets_wf:
  assumes "initialize_sets V i os r = Inr r'" and "sets_table_wf r" and "list_all (\<lambda>s. set_refs s = 0) (rt_ruleSets r)"
  shows "sets_table_wf r' \<and> list_all (\<lambda>s. set_refs s = 0) (rt_ruleSets r') \<and> rt_rules r' = rt_rules r \<and>
    rt_needFindProcess r' = rt_needFindProcess r \<and> rt_processSearcher r' = rt_processSearcher r \<and>
    map set_tag (rt_ruleSets r') = map set_tag (rt_ruleSets r) @ map rso_Tag os"
  using assms
proof (induction os arbitrary: i r)
  case (Cons o1 os)
  then obtain s where s: "rt_ruleSetMap r (rso_Tag o1) = None" "NewRuleSet V o1 = Inr s"
      "initialize_sets V (Suc i) os (r\<lparr>rt_ruleSets := rt_ruleSets r @ [s],
         rt_ruleSetMap := (rt_ruleSetMap r)(rso_Tag o1 \<mapsto> length (rt_ruleSets r))\<rparr>) = Inr r'"
    by (auto split: if_splits)
  note n = NewRuleSet_fields [OF s(2)]
  have "sets_table_wf (r\<lparr>rt_ruleSets := rt_ruleSets r @ [s], rt_ruleSetMap := (rt_ruleSetMap r)(rso_Tag o1 \<mapsto> length (rt_ruleSets r))\<rparr>)"
    using Cons.prems(2) s(1) n by (auto simp: sets_table_wf_def nth_append less_Suc_eq) (metis option.distinct(1))
  from Cons.IH [OF s(3) this] Cons.prems(3) n show ?case by simp
qed simp

lemma Router_Initialize_wf:
  assumes "Router_Initialize V T D rules sets (NewRouter o1 fp o2) = Inr r"
  shows "sets_table_wf r \<and> list_all (\<lambda>s. set_refs s = 0) (rt_ruleSets r) \<and> list_all (\<lambda>x. rule_refs x = []) (rt_rules r) \<and>
    map set_tag (rt_ruleSets r) = map rso_Tag sets \<and> rt_needFindProcess r = rt_needFindProcess (NewRouter o1 fp o2) \<and>
    rt_processSearcher r = None"
proof -
  obtain rs where rs: "traverse (\<lambda>i options. cause (''parse rule['' @ itoa i @ '']'') (NewRule (se_lib V) T D False options)) rules = Inr rs"
      "initialize_sets V 0 sets ((NewRouter o1 fp o2)\<lparr>rt_rules := rs\<rparr>) = Inr r"
    using assms by (auto simp: Router_Initialize_def NewRouter_def)
  have "sets_table_wf ((NewRouter o1 fp o2)\<lparr>rt_rules := rs\<rparr>)" by (simp add: sets_table_wf_def NewRouter_def)
  note i = initialize_sets_wf [OF rs(2) this]
  have "rule_refs x = []" if "x \<in> set rs" for x
    using traverse_from_member [OF rs(1) that] NewRule_unstarted by fastforce
  with i show ?thesis by (simp add: NewRouter_def list_all_iff)
qed

lemma table_schedule:
  assumes "sets_table_wf r" and "mset order = mset [0..<length (rt_ruleSets r)]"
  shows "schedule (rt_ruleSets r) order \<and> set order = {..<length (rt_ruleSets r)}"
proof -
  have set: "set order = {..<length (rt_ruleSets r)}" using assms(2) by (metis mset_eq_setD set_upt atLeast_upt lessThan_atLeast0)
  have "distinct order" using assms(2) by (metis distinct_upt mset_eq_imp_distinct_iff)
  moreover have "inj_on (\<lambda>i. set_tag (rt_ruleSets r ! i)) (set order)"
    by (rule inj_onI) (metis assms(1) lessThan_iff option.inject set sets_table_wf_def)
  ultimately show ?thesis using set by (auto simp: schedule_def distinct_map)
qed

lemma with_refs_fields [simp]:
  "set_tag (with_refs n s) = set_tag s" "set_rules (with_refs n s) = set_rules s" "set_refs (with_refs n s) = n"
  "set_metadata (with_refs n s) = set_metadata s"
  by (cases s; simp)+

lemma put_refs_nth [simp]: "length (put_refs refs sets) = length sets"
  "i < length sets \<Longrightarrow> put_refs refs sets ! i = with_refs (refs i) (sets ! i)"
  by (simp_all add: put_refs_def)

lemma put_refs_wf: "sets_table_wf r \<Longrightarrow> sets_table_wf (r\<lparr>rt_ruleSets := put_refs refs (rt_ruleSets r)\<rparr>)"
  by (auto simp: sets_table_wf_def)

text \<open>The pointers of the tun inbounds, and what their start leaves of the rule-sets.\<close>

definition tun_refs :: "tun_inbound \<Rightarrow> rule_set_ref list" where
  "tun_refs t = (if ti_platform t then [] else ti_routeRuleSet t @ ti_routeExcludeRuleSet t)"

definition recounted :: "rule_set_ref list \<Rightarrow> any_rule_set list \<Rightarrow> any_rule_set list \<Rightarrow> bool" where
  "recounted refs sets sets' \<longleftrightarrow> length sets' = length sets \<and>
     (\<forall>i < length sets. set_rules (sets' ! i) = set_rules (sets ! i) \<and>
        set_refs (sets' ! i) = set_refs (sets ! i) + int (count_list refs i))"

lemma recounted_Nil [simp]: "recounted [] sets sets"
  by (simp add: recounted_def)

lemma recounted_append: "recounted xs sets sets1 \<Longrightarrow> recounted ys sets1 sets2 \<Longrightarrow> recounted (xs @ ys) sets sets2"
  by (simp add: recounted_def)

lemma set_IncRef_fields [simp]: "set_rules (set_IncRef s) = set_rules s" "set_refs (set_IncRef s) = set_refs s + 1"
  "set_rules (set_RegisterCallback cb s) = set_rules s" "set_refs (set_RegisterCallback cb s) = set_refs s"
  by (cases s; simp add: IncRef_def RegisterCallback_def)+

lemma tun_take_sets_recounted: "tun_take_sets autoRedirect refs sets = (l, sets') \<Longrightarrow> recounted refs sets sets'"
proof (induction refs arbitrary: sets l)
  case (Cons i refs)
  define s' where "s' = (case autoRedirect of None \<Rightarrow> set_IncRef (sets ! i) | Some cb \<Rightarrow> set_RegisterCallback cb (set_IncRef (sets ! i)))"
  obtain l1 where t: "tun_take_sets autoRedirect refs (sets[i := s']) = (l1, sets')"
    using Cons.prems by (auto simp: Let_def s'_def split: prod.splits)
  have "recounted [i] sets (sets[i := s'])"
    by (auto simp: recounted_def s'_def nth_list_update split: option.splits)
  from recounted_append [OF this Cons.IH [OF t]] show ?case by simp
qed simp

lemma tun_Start_recounted: "tun_Start t sets = (t', sets') \<Longrightarrow> recounted (tun_refs t) sets sets'"
  by (auto simp: tun_Start_def tun_refs_def split: if_splits prod.splits dest!: tun_take_sets_recounted intro: recounted_append)

lemma start_tuns_recounted: "start_tuns ts sets = (ts', sets') \<Longrightarrow> recounted (concat (map tun_refs ts)) sets sets'"
  by (induction ts arbitrary: sets ts') (auto split: prod.splits dest!: tun_Start_recounted intro: recounted_append)

text \<open>The stages, when all succeed.\<close>

lemma start_routers_stages:
  assumes "start_routers V R order hasPlatform newSearcher cache client tuns d0 r0 = Inr (d, r)"
  obtains refs1 cache1 r2 rules refs2 ts sets where
    "start_rules ''initialize DNS rule'' (DNSRule_Start (rt_ruleSetMap r0) R) 0 (dx_rules d0) (ref_counts_of (rt_ruleSets r0)) =
       (Inr (), dx_rules d, refs1)"
    "Router_StartStart V order hasPlatform newSearcher cache (r0\<lparr>rt_ruleSets := put_refs refs1 (rt_ruleSets r0)\<rparr>) = (Inr (), cache1, r2)"
    "start_tuns tuns (rt_ruleSets r2) = (ts, sets)"
    "start_rules ''initialize rule'' (Rule_Start (rt_ruleSetMap r2) R) 0 (rt_rules r2) (ref_counts_of sets) = (Inr (), rules, refs2)"
    "r = Router_Started (r2\<lparr>rt_rules := rules, rt_ruleSets := put_refs refs2 sets, rt_started := True\<rparr>)"
proof -
  obtain x1 rs1 refs1 where a: "start_rules ''initialize DNS rule'' (DNSRule_Start (rt_ruleSetMap r0) R) 0 (dx_rules d0)
      (ref_counts_of (rt_ruleSets r0)) = (x1, rs1, refs1)" by (rule prod_cases3)
  obtain x2 cache1 r2 where b: "Router_StartStart V order hasPlatform newSearcher cache (r0\<lparr>rt_ruleSets := put_refs refs1 (rt_ruleSets r0)\<rparr>) =
      (x2, cache1, r2)" by (rule prod_cases3)
  obtain ts sets where t: "start_tuns tuns (rt_ruleSets r2) = (ts, sets)" by (rule prod.exhaust)
  obtain x3 rules refs2 where c: "start_rules ''initialize rule'' (Rule_Start (rt_ruleSetMap r2) R) 0 (rt_rules r2)
      (ref_counts_of sets) = (x3, rules, refs2)" by (rule prod_cases3)
  note defs = start_routers_def DNSRouter_Start_def Router_Start_def Router_PostStart_def
  have x1: "x1 = Inr ()" using assms a by (cases x1) (simp_all add: defs)
  have x2: "x2 = Inr ()" using assms a b x1 by (cases x2) (simp_all add: defs)
  have x3: "x3 = Inr ()" using assms a b c t x1 x2 by (cases x3) (simp_all add: defs)
  have "dx_rules d = rs1" "r = Router_Started (r2\<lparr>rt_rules := rules, rt_ruleSets := put_refs refs2 sets, rt_started := True\<rparr>)"
    using assms a b c t x1 x2 x3 by (auto simp: defs)
  with a b c t x1 x2 x3 show ?thesis using that by simp
qed

lemma Router_StartStart_sets:
  assumes "Router_StartStart V order hasPlatform newSearcher cache r = (Inr (), cache', r')"
  shows "start_sets V order cache (rt_ruleSets r) = (Inr (), cache', rt_ruleSets r') \<and> rt_rules r' = rt_rules r \<and>
    rt_ruleSetMap r' = rt_ruleSetMap r"
  using assms by (auto simp: Router_StartStart_def Let_def split: prod.splits sum.splits)

lemma start_sets_refs:
  assumes "start_sets V order c sets = (Inr (), c', sets')"
  shows "map set_refs sets' = map set_refs sets"
  using assms
proof (induction order arbitrary: c sets)
  case (Cons i order)
  obtain c1 s where s: "set_StartContext V c (sets ! i) = (Inr (), c1, s)" "start_sets V order c1 (sets[i := s]) = (Inr (), c', sets')"
    using Cons.prems by (auto split: sum.splits prod.splits)
  have "map set_refs (sets[i := s]) = map set_refs sets"
    using set_StartContext_frame [OF s(1)] by (metis list_update_id map_update)
  with Cons.IH [OF s(2)] show ?case by simp
qed simp

lemma count_zero: "count_list xs x = 0 \<longleftrightarrow> x \<notin> set xs"
  by (induction xs) auto

lemma set_Cleanup_fields: "set_rules (set_Cleanup s) = (if set_refs s = 0 then [] else set_rules s)" "set_refs (set_Cleanup s) = set_refs s"
  by (cases s; simp add: Cleanup_def)+

definition pointed :: "'m dns_router \<Rightarrow> route_router \<Rightarrow> tun_inbound list \<Rightarrow> rule_set_ref list" where
  "pointed d r tuns = concat (map dns_rule_refs (dx_rules d)) @ concat (map tun_refs tuns) @ concat (map rule_refs (rt_rules r))"

lemma started_counts:
  assumes "start_routers V R order hasPlatform newSearcher cache client tuns d0 r0 = Inr (d, r)"
    and "list_all (\<lambda>s. set_refs s = 0) (rt_ruleSets r0)" and "list_all (\<lambda>x. rule_refs x = []) (rt_rules r0)"
    and "list_all (\<lambda>x. dns_rule_refs x = []) (dx_rules d0)"
  obtains cache1 loaded sets where
    "start_sets V order cache (put_refs (\<lambda>i. int (count_list (concat (map dns_rule_refs (dx_rules d))) i)) (rt_ruleSets r0)) =
       (Inr (), cache1, loaded)"
    "length sets = length loaded" "\<And>i. i < length loaded \<Longrightarrow> set_rules (sets ! i) = set_rules (loaded ! i)"
    "rt_ruleSets r = map set_Cleanup (put_refs (\<lambda>i. int (count_list (pointed d r tuns) i)) sets)"
proof -
  obtain refs1 cache1 r2 rules refs2 ts sets where st:
    "start_rules ''initialize DNS rule'' (DNSRule_Start (rt_ruleSetMap r0) R) 0 (dx_rules d0) (ref_counts_of (rt_ruleSets r0)) =
       (Inr (), dx_rules d, refs1)"
    "Router_StartStart V order hasPlatform newSearcher cache (r0\<lparr>rt_ruleSets := put_refs refs1 (rt_ruleSets r0)\<rparr>) = (Inr (), cache1, r2)"
    "start_tuns tuns (rt_ruleSets r2) = (ts, sets)"
    "start_rules ''initialize rule'' (Rule_Start (rt_ruleSetMap r2) R) 0 (rt_rules r2) (ref_counts_of sets) = (Inr (), rules, refs2)"
    "r = Router_Started (r2\<lparr>rt_rules := rules, rt_ruleSets := put_refs refs2 sets, rt_started := True\<rparr>)"
    by (rule start_routers_stages [OF assms(1)])
  have z: "ref_counts_of (rt_ruleSets r0) i = 0" for i using assms(2) by (simp add: ref_counts_of_def list_all_length)
  have r1: "refs1 = (\<lambda>i. int (count_list (concat (map dns_rule_refs (dx_rules d))) i))"
    by (rule ext) (use dns_start.start_rules_counts [OF st(1) assms(4)] z in simp)
  note ss = Router_StartStart_sets [OF st(2)]
  have "map set_refs (rt_ruleSets r2) = map set_refs (put_refs refs1 (rt_ruleSets r0))" using start_sets_refs ss by auto
  then have same: "length (rt_ruleSets r2) = length (rt_ruleSets r0)"
      "i < length (rt_ruleSets r2) \<Longrightarrow> set_refs (rt_ruleSets r2 ! i) = set_refs (put_refs refs1 (rt_ruleSets r0) ! i)" for i
    by (simp_all add: list_eq_iff_nth_eq)
  note tu = start_tuns_recounted [OF st(3), unfolded recounted_def]
  have nth: "i < length sets \<Longrightarrow> set_refs (sets ! i) = refs1 i + int (count_list (concat (map tun_refs tuns)) i)" for i
    using same tu by simp
  have "refs2 i = int (count_list (pointed d r tuns) i)" if "i < length sets" for i
  proof -
    have "list_all (\<lambda>x. rule_refs x = []) (rt_rules r2)" using assms(3) ss by simp
    from route_start.start_rules_counts [OF st(4) this, of i] nth [OF that] that show ?thesis
      by (simp add: pointed_def st(5) Router_Started_def r1 ref_counts_of_def)
  qed
  then have put: "put_refs refs2 sets = put_refs (\<lambda>i. int (count_list (pointed d r tuns) i)) sets"
    by (simp add: put_refs_def)
  have "rt_ruleSets r = map set_Cleanup (put_refs refs2 sets)" by (simp add: st(5) Router_Started_def)
  then show ?thesis using that [of cache1 "rt_ruleSets r2" sets] ss r1 put tu by simp
qed

text \<open>What a rule-set loads does not depend on its counter.\<close>

lemma loadBytes_refs:
  "loadBytes L X hasNM content (s\<lparr>rst_refs := n\<rparr>) =
   bind_r (loadBytes L X hasNM content s) (\<lambda>(cbs, s'). Inr (cbs, s'\<lparr>rst_refs := n\<rparr>))"
  by (auto simp: loadBytes_def reloadRules_def bind_r_def split: sum.splits)

lemma fetch_refs:
  "fetch L X hasNM request now c (s\<lparr>rst_refs := n\<rparr>) =
   (case fetch L X hasNM request now c s of (r, c', s') \<Rightarrow> (r, c', s'\<lparr>rst_refs := n\<rparr>))"
proof (cases "request (rrs_lastEtag s)")
  case (Inr resp)
  note r = this
  show ?thesis
  proof (cases "hr_StatusCode resp = 200")
    case False
    with r show ?thesis by (simp add: fetch_def Let_def split: option.split)
  next
    case True
    show ?thesis
    proof (cases "hr_Body resp")
      case (Inr content)
      with r True show ?thesis
        by (cases "loadBytes L X hasNM content s") (auto simp: fetch_def loadBytes_refs Let_def)
    qed (use r True in \<open>simp add: fetch_def Let_def\<close>)
  qed
qed (simp add: fetch_def)

lemma restore_refs:
  "restore_cached L X hasNM c (s\<lparr>rst_refs := n\<rparr>) = bind_r (restore_cached L X hasNM c s) (\<lambda>s'. Inr (s'\<lparr>rst_refs := n\<rparr>))"
proof -
  have *: "cause m (loadBytes L X hasNM content (s\<lparr>rst_refs := n\<rparr>)) =
      bind_r (cause m (loadBytes L X hasNM content s)) (\<lambda>(cbs, s'). Inr (cbs, s'\<lparr>rst_refs := n\<rparr>))" for m content
    by (cases "loadBytes L X hasNM content s") (auto simp: loadBytes_refs)
  show ?thesis
  proof (cases c)
    case (Some cf)
    then show ?thesis
    proof (cases "cf_RuleSets cf (rst_tag s)")
      case (Some saved)
      with \<open>c = Some cf\<close> show ?thesis
        by (cases "loadBytes L X hasNM (sb_Content saved) s") (simp_all add: restore_cached_def * split: prod.splits)
    qed (simp add: restore_cached_def)
  qed (simp add: restore_cached_def)
qed

lemma StartContext_refs:
  "StartContext L X hasNM has request now c (s\<lparr>rst_refs := n\<rparr>) =
   (case StartContext L X hasNM has request now c s of (r, c', s') \<Rightarrow> (r, c', s'\<lparr>rst_refs := n\<rparr>))"
  by (cases "restore_cached L X hasNM c s") (auto simp: StartContext_def restore_refs fetch_refs split: prod.splits)

lemma set_StartContext_refs:
  "set_StartContext V c (with_refs n s) = (case set_StartContext V c s of (r, c', s') \<Rightarrow> (r, c', with_refs n s'))"
  by (cases s) (auto simp: StartContext_refs split: prod.splits)

section \<open>Properties of the start\<close>

lemma DNSRouter_Initialize_unstarted:
  assumes "DNSRouter_Initialize L dnsRules (NewDNSRouter strategy a b c servers mapping) = Inr d"
  shows "list_all (\<lambda>x. dns_rule_refs x = []) (dx_rules d)"
proof -
  obtain rs where rs: "traverse (\<lambda>i o1. map_err (\<lambda>e. ECause e (''parse dns rule['' @ itoa i @ '']'')) (NewDNSRule L True o1)) dnsRules = Inr rs"
      "dx_rules d = rs"
    using assms by (auto simp: DNSRouter_Initialize_def NewDNSRouter_def)
  have "dns_rule_refs x = []" if "x \<in> set rs" for x
    using traverse_from_member [OF rs(1) that] NewDNSRule_unstarted by fastforce
  with rs(2) show ?thesis by (simp add: list_all_iff)
qed

text \<open>C16 (started_sets_exact): when the routers have been built from options and started together with the tun inbounds, with the
  tasks of the rule-sets in any order, the counter of every rule-set is the number of pointers to it in the
  started route and DNS rules and in the tun inbounds that the platform does not run; a rule-set that one of them points to holds
  the rules it loads when it is started alone, and every other rule-set has been emptied.\<close>

theorem started_sets_exact:
  assumes "Router_Initialize V T D rules sets (NewRouter rules findProcess dnsRules) = Inr r0"
    and "DNSRouter_Initialize (se_lib V) dnsRules (NewDNSRouter strategy ms1 ms2 ms3 servers mapping) = Inr d0"
    and "map (NewTunInbound r0) inbounds = map Inr tuns" and "mset order = mset [0..<length sets]"
    and "start_routers V R order hasPlatform newSearcher cache client tuns d0 r0 = Inr (d, r)" and "i < length sets"
  shows "set_refs (rt_ruleSets r ! i) = int (count_list (pointed d r tuns) i) \<and>
    set_rules (rt_ruleSets r ! i) =
      (if i \<in> set (pointed d r tuns) then set_rules (snd (snd (set_StartContext V cache (rt_ruleSets r0 ! i)))) else [])"
proof -
  note init = Router_Initialize_wf [OF assms(1)]
  then have len: "length (rt_ruleSets r0) = length sets" by (metis length_map)
  let ?n = "\<lambda>i. int (count_list (concat (map dns_rule_refs (dx_rules d))) i)"
  obtain cache1 loaded final where l: "start_sets V order cache (put_refs ?n (rt_ruleSets r0)) = (Inr (), cache1, loaded)"
      "length final = length loaded" "\<And>i. i < length loaded \<Longrightarrow> set_rules (final ! i) = set_rules (loaded ! i)"
      "rt_ruleSets r = map set_Cleanup (put_refs (\<lambda>i. int (count_list (pointed d r tuns) i)) final)"
    using started_counts [OF assms(5)] init DNSRouter_Initialize_unstarted [OF assms(2)] by blast
  let ?r = "r0\<lparr>rt_ruleSets := put_refs ?n (rt_ruleSets r0)\<rparr>"
  have "schedule (rt_ruleSets ?r) order \<and> set order = {..<length (rt_ruleSets ?r)}"
    by (rule table_schedule) (use init put_refs_wf assms(4) len in simp_all)
  then have "length loaded = length sets" "loaded ! i = snd (snd (set_StartContext V cache (put_refs ?n (rt_ruleSets r0) ! i)))"
    using start_sets_alone [OF _ l(1)] len assms(6) by (auto simp: alone_def)
  then show ?thesis using l(2-4) assms(6) len
    by (auto simp: set_Cleanup_fields count_zero set_StartContext_refs split: prod.splits)
qed

text \<open>C25 (start_any_schedule): if the start of the two routers succeeds with one order in which the concurrent tasks that start the
  rule-sets take effect, it succeeds with every other order and leaves the same routers.\<close>

theorem start_any_schedule:
  assumes "Router_Initialize V T D rules sets (NewRouter rules findProcess dnsRules) = Inr r0"
    and "mset order = mset [0..<length sets]" and "mset order' = mset [0..<length sets]"
    and "start_routers V R order hasPlatform newSearcher cache client tuns d0 r0 = Inr (d, r)"
  shows "start_routers V R order' hasPlatform newSearcher cache client tuns d0 r0 = Inr (d, r)"
proof -
  note init = Router_Initialize_wf [OF assms(1)]
  then have len: "length (rt_ruleSets r0) = length sets" by (metis length_map)
  obtain refs1 cache1 r2 ts final where st:
    "start_rules ''initialize DNS rule'' (DNSRule_Start (rt_ruleSetMap r0) R) 0 (dx_rules d0) (ref_counts_of (rt_ruleSets r0)) =
       (Inr (), dx_rules d, refs1)"
    "Router_StartStart V order hasPlatform newSearcher cache (r0\<lparr>rt_ruleSets := put_refs refs1 (rt_ruleSets r0)\<rparr>) = (Inr (), cache1, r2)"
    "start_tuns tuns (rt_ruleSets r2) = (ts, final)"
    by (rule start_routers_stages [OF assms(4)])
  let ?r = "r0\<lparr>rt_ruleSets := put_refs refs1 (rt_ruleSets r0)\<rparr>" and ?r2 = "r2\<lparr>rt_ruleSets := final\<rparr>"
  have "schedule (rt_ruleSets ?r) o1 \<and> set o1 = {..<length (rt_ruleSets ?r)}" if "mset o1 = mset [0..<length sets]" for o1
    by (rule table_schedule) (use init put_refs_wf that len in simp_all)
  then have "start_sets V order' cache (rt_ruleSets ?r) = start_sets V order cache (rt_ruleSets ?r)"
    using start_sets_any_order [of "rt_ruleSets ?r" order order' V cache] Router_StartStart_sets [OF st(2)] assms(2,3) by simp
  then have "Router_StartStart V order' hasPlatform newSearcher cache ?r = Router_StartStart V order hasPlatform newSearcher cache ?r"
    by (simp add: Router_StartStart_def)
  with assms(4) st show ?thesis
    by (cases "Router_PostStart R ?r2"; cases "fst (Router_PostStart R ?r2)")
       (simp_all add: start_routers_def DNSRouter_Start_def Router_Start_def)
qed

section \<open>Sample\<close>

definition sample_set_env :: set_env where
  "sample_set_env = \<lparr>se_lib = sample_lib, se_decoders = sample_decoders, se_hasNM = True, se_readFile = (\<lambda>_. Inl (ENew ''no file'')),
     se_hasOutbound = (\<lambda>_. False), se_request = (\<lambda>_. sample_http), se_now = (\<lambda>_. 5)\<rparr>"

definition sample_set_options :: default_rule_options where
  "sample_set_options = \<lparr>dro_Raw = zero_raw_default_rule\<lparr>or_RuleSet := [''s'']\<rparr>, dro_Action = sample_route_action ''block''\<rparr>"

abbreviation sample_rules :: "rule_options list" where
  "sample_rules \<equiv> [RuleOptions '''' sample_set_options '''' [] False zero_rule_action_options]"

abbreviation sample_sets :: "rule_set_options list" where
  "sample_sets \<equiv> [sample_remote, sample_remote\<lparr>rso_Tag := ''u''\<rparr>, sample_remote\<lparr>rso_Tag := ''v''\<rparr>]"

text \<open>The rule points to the first rule-set, a tun inbound to the second, nothing to the third.\<close>

definition sample_tun :: tun_inbound where
  "sample_tun = \<lparr>ti_platform = False, ti_autoRedirect = Some 0, ti_routeRuleSet = [], ti_routeExcludeRuleSet = [1],
     ti_routeAddressSet = [], ti_routeExcludeAddressSet = []\<rparr>"

lemma sample_initialized:
  "\<exists>r. Router_Initialize sample_set_env sample_text Inr sample_rules sample_sets (NewRouter sample_rules False []) = Inr r \<and>
     rt_ruleSets r = [RemoteSet (NewRemoteRuleSet sample_remote), RemoteSet (NewRemoteRuleSet (sample_remote\<lparr>rso_Tag := ''u''\<rparr>)),
       RemoteSet (NewRemoteRuleSet (sample_remote\<lparr>rso_Tag := ''v''\<rparr>))] \<and>
     rt_ruleSetMap r = [''s'' \<mapsto> 0, ''u'' \<mapsto> 1, ''v'' \<mapsto> 2] \<and>
     (\<exists>a. rt_rules r = [DefaultRule ((empty_rule False)\<lparr>ar_items := [RuleSetItem (NewRuleSetItem [''s''] False False)],
        ar_allItems := [RuleSetItem (NewRuleSetItem [''s''] False False)]\<rparr>) a])"
  by (simp add: Router_Initialize_def sample_set_env_def NewRouter_def sample_set_options_def sample_route_action_def DefaultRule_IsValid_def NewDefaultRule_def
      NewDefaultRule_steps_def item_if_def item_try_def fail_if_def ip_version_step_def empty_rule_def
      zero_raw_default_rule_def zero_rule_action_options_def NewRuleAction_def action_type_defs NewRuleSet_def sample_remote_def RuleSetTypeInline_def RuleSetTypeLocal_def RuleSetTypeRemote_def numeral_2_eq_2)

definition sample_dns_client :: "(unit, unit) dns_client" where
  "sample_dns_client = \<lparr>dc_timeout = 0, dc_disableCache = True, dc_disableExpire = False, dc_independentCache = False,
     dc_clientSubnet = NoPrefix, dc_clientSubnetFromInbound = None, dc_rdrc = None, dc_initRDRC = None, dc_cache = None,
     dc_transportCache = None\<rparr>"

definition sample_new_dns_router :: "unit dns_router" where
  "sample_new_dns_router = NewDNSRouter DomainStrategyAsIS 0 0 0 [] None"

lemma sample_remote_starts:
  "\<exists>s'. StartContext sample_lib sample_decoders True (\<lambda>_. False) sample_http 5 None (NewRemoteRuleSet (sample_remote\<lparr>rso_Tag := tag\<rparr>)) =
     (Inr (), None, s') \<and> rst_refs s' = 0"
  by (simp add: StartContext_def restore_cached_def fetch_def sample_http_def sample_decoders_def sample_remote_def NewRemoteRuleSet_def
      loadBytes_def RuleSetFormatSource_def PlainRuleSetCompat_Upgrade_def reloadRules_def
      sample_headless_options_def DefaultHeadlessRule_IsValid_def NewDefaultHeadlessRule_def
      NewDefaultHeadlessRule_steps_def item_if_def item_try_def item_opt_def
      zero_default_headless_rule_def Let_def)

lemma sample_starts:
  assumes "Router_Initialize sample_set_env sample_text Inr sample_rules sample_sets (NewRouter sample_rules False []) = Inr r0"
  shows "map (NewTunInbound r0) [(False, Some 0, [], [''u''])] = map Inr [sample_tun] \<and>
    (\<exists>d r. start_routers sample_set_env sample_runtime [1, 0, 2] False (Inl (ENew ''none'')) None sample_dns_client
      [sample_tun] sample_new_dns_router r0 = Inr (d, r) \<and> pointed d r [sample_tun] = [1, 0])"
proof -
  let ?s = "NewRemoteRuleSet sample_remote" and ?u = "NewRemoteRuleSet (sample_remote\<lparr>rso_Tag := ''u''\<rparr>)"
    and ?v = "NewRemoteRuleSet (sample_remote\<lparr>rso_Tag := ''v''\<rparr>)"
  obtain a where r0: "rt_ruleSets r0 = [RemoteSet ?s, RemoteSet ?u, RemoteSet ?v]"
     "rt_ruleSetMap r0 = [''s'' \<mapsto> 0, ''u'' \<mapsto> 1, ''v'' \<mapsto> 2]"
     "rt_rules r0 = [DefaultRule ((empty_rule False)\<lparr>ar_items := [RuleSetItem (NewRuleSetItem [''s''] False False)],
        ar_allItems := [RuleSetItem (NewRuleSetItem [''s''] False False)]\<rparr>) a]"
    using sample_initialized assms by auto
  have "sample_remote\<lparr>rso_Tag := ''s''\<rparr> = sample_remote" by (simp add: sample_remote_def)
  then obtain s u v where s: "StartContext sample_lib sample_decoders True (\<lambda>_. False) sample_http 5 None ?s = (Inr (), None, s)" "rst_refs s = 0"
    and u: "StartContext sample_lib sample_decoders True (\<lambda>_. False) sample_http 5 None ?u = (Inr (), None, u)" "rst_refs u = 0"
    and v: "StartContext sample_lib sample_decoders True (\<lambda>_. False) sample_http 5 None ?v = (Inr (), None, v)" "rst_refs v = 0"
    using sample_remote_starts [where tag = "''s''"] sample_remote_starts [where tag = "''u''"] sample_remote_starts [where tag = "''v''"] by metis
  have refs: "rst_refs ?s = 0" "rst_refs ?u = 0" "rst_refs ?v = 0" "?s\<lparr>rst_refs := 0\<rparr> = ?s" "?u\<lparr>rst_refs := 0\<rparr> = ?u" "?v\<lparr>rst_refs := 0\<rparr> = ?v"
    by (simp_all add: NewRemoteRuleSet_def)
  have "NewTunInbound r0 (False, Some 0, [], [''u'']) = Inr sample_tun" by (simp add: NewTunInbound_def sample_tun_def r0)
  moreover have "\<exists>d r. start_routers sample_set_env sample_runtime [1, 0, 2] False (Inl (ENew ''none'')) None sample_dns_client
      [sample_tun] sample_new_dns_router r0 = Inr (d, r) \<and> pointed d r [sample_tun] = [1, 0]"
    by (simp add: start_routers_def DNSRouter_Start_def Router_Start_def Router_StartStart_def Router_PostStart_def sample_new_dns_router_def
        NewDNSRouter_def r0 put_refs_def ref_counts_of_def upt_rec refs s u v sample_set_env_def Let_def Router_Started_def tun_Start_def
        abstractDefaultRule_Start_def NewRuleSetItem_def empty_rule_def map_items_def started_item_def pointed_def tun_refs_def sample_tun_def
        split: prod.split)
  ultimately show ?thesis by simp
qed

theorem started_sets_exact_witness:
  "\<exists>r0 d r. Router_Initialize sample_set_env sample_text Inr sample_rules sample_sets (NewRouter sample_rules False []) = Inr r0 \<and>
     start_routers sample_set_env sample_runtime [1, 0, 2] False (Inl (ENew ''none'')) None sample_dns_client [sample_tun] sample_new_dns_router r0 =
       Inr (d, r) \<and>
     set_refs (rt_ruleSets r ! 0) = 1 \<and> set_refs (rt_ruleSets r ! 1) = 1 \<and> set_rules (rt_ruleSets r ! 2) = []"
proof -
  obtain r0 where r0: "Router_Initialize sample_set_env sample_text Inr sample_rules sample_sets (NewRouter sample_rules False []) = Inr r0"
    using sample_initialized by blast
  obtain d r where t: "map (NewTunInbound r0) [(False, Some 0, [], [''u''])] = map Inr [sample_tun]"
      and r: "start_routers sample_set_env sample_runtime [1, 0, 2] False (Inl (ENew ''none'')) None sample_dns_client
        [sample_tun] sample_new_dns_router r0 = Inr (d, r)" "pointed d r [sample_tun] = [1, 0]"
    using sample_starts [OF r0] by blast
  have d0: "DNSRouter_Initialize (se_lib sample_set_env) [] (NewDNSRouter DomainStrategyAsIS 0 0 0 [] None) = Inr sample_new_dns_router"
    by (simp add: DNSRouter_Initialize_def sample_new_dns_router_def)
  have "mset [1, 0, 2 :: nat] = mset [0..<length sample_sets]" by (simp add: upt_rec)
  note e = started_sets_exact [OF r0 d0 t this r(1)]
  have "set_refs (rt_ruleSets r ! 0) = 1" "set_refs (rt_ruleSets r ! 1) = 1" "set_rules (rt_ruleSets r ! 2) = []"
    using e [of 0] e [of 1] e [of 2] r(2) by simp_all
  with r0 r show ?thesis by blast
qed

theorem start_any_schedule_witness:
  "\<exists>r0 d r. Router_Initialize sample_set_env sample_text Inr sample_rules sample_sets (NewRouter sample_rules False []) = Inr r0 \<and>
     start_routers sample_set_env sample_runtime [0, 1, 2] False (Inl (ENew ''none'')) None sample_dns_client [sample_tun] sample_new_dns_router r0 =
       Inr (d, r)"
proof -
  obtain r0 where r0: "Router_Initialize sample_set_env sample_text Inr sample_rules sample_sets (NewRouter sample_rules False []) = Inr r0"
    using sample_initialized by blast
  obtain d r where r: "start_routers sample_set_env sample_runtime [1, 0, 2] False (Inl (ENew ''none'')) None sample_dns_client
      [sample_tun] sample_new_dns_router r0 = Inr (d, r)"
    using sample_starts [OF r0] by blast
  have "mset [1, 0, 2 :: nat] = mset [0..<length sample_sets]" "mset [0, 1, 2 :: nat] = mset [0..<length sample_sets]" by (simp_all add: upt_rec)
  from start_any_schedule [OF r0 this r] r0 show ?thesis by blast
qed

end
