(* ===== verification/Byte_Reader.thy ===== *)
theory Byte_Reader
  imports Prelude
begin

text \<open>
  Reading from and writing to byte strings: what the sources use of \<^verbatim>\<open>io\<close> and \<^verbatim>\<open>encoding/binary\<close>.
  A reader takes the bytes that are left and returns a value with the bytes left after it.
\<close>

type_synonym 'a reader = "bytes \<Rightarrow> ('a \<times> bytes) result"

definition EOF :: error where "EOF = ENew ''EOF''"
definition ErrUnexpectedEOF :: error where "ErrUnexpectedEOF = ENew ''unexpected EOF''"

definition ReadFull :: "nat \<Rightarrow> bytes reader" where
  "ReadFull n bs =
     (if n \<le> length bs then Inr (take n bs, drop n bs)
      else if bs = [] then Inl EOF else Inl ErrUnexpectedEOF)"

fun ReadByte :: "u8 reader" where
  "ReadByte [] = Inl EOF"
| "ReadByte (b # bs) = Inr (b, bs)"

definition Read_bool :: "bool reader" where
  "Read_bool bs = bind_r (ReadByte bs) (\<lambda>(b, rest). Inr (b \<noteq> 0, rest))"

definition Write_bool :: "bool \<Rightarrow> bytes" where
  "Write_bool b = [if b then 1 else 0]"

text \<open>Numbers in big endian order.\<close>

definition be_value :: "bytes \<Rightarrow> nat" where
  "be_value bs = foldl (\<lambda>n b. 256 * n + unat b) 0 bs"

definition be_bytes :: "nat \<Rightarrow> nat \<Rightarrow> bytes" where
  "be_bytes k n = map (\<lambda>i. word_of_nat (n div 256 ^ i)) (rev [0..<k])"

definition Read_uint64 :: "u64 reader" where
  "Read_uint64 bs = bind_r (ReadFull 8 bs) (\<lambda>(x, rest). Inr (word_of_nat (be_value x), rest))"

definition Write_uint64 :: "u64 \<Rightarrow> bytes" where
  "Write_uint64 n = be_bytes 8 (unat n)"

lemma ReadByte_shorter: "ReadByte bs = Inr (b, rest) \<Longrightarrow> length rest < length bs"
  by (cases bs) auto

section \<open>Round trips\<close>

lemma be_value_append: "be_value (xs @ [b]) = 256 * be_value xs + unat b"
  by (simp add: be_value_def)

lemma be_bytes_Suc: "be_bytes (Suc k) n = be_bytes k (n div 256) @ [word_of_nat n]"
proof -
  have "rev [0..<Suc k] = map Suc (rev [0..<k]) @ [0]" by (metis map_Suc_upt rev.simps(2) rev_map upt_conv_Cons zero_less_Suc)
  then show ?thesis by (simp add: be_bytes_def div_mult2_eq)
qed

lemma be_round_trip: "n < 256 ^ k \<Longrightarrow> be_value (be_bytes k n) = n"
proof (induction k arbitrary: n)
  case (Suc k)
  have "n div 256 < 256 ^ k" using Suc.prems by (simp add: less_mult_imp_div_less mult.commute)
  moreover have "unat (word_of_nat n :: u8) = n mod 256" by (simp add: unat_of_nat)
  ultimately show ?case using Suc.IH by (simp add: be_bytes_Suc be_value_append)
qed (simp add: be_bytes_def be_value_def)

lemma be_bytes_length [simp]: "length (be_bytes k n) = k"
  by (simp add: be_bytes_def)

lemma uint64_round_trip: "Read_uint64 (Write_uint64 n @ rest) = Inr (n, rest)"
proof -
  have "unat n < 256 ^ 8" using unsigned_less [of n] by simp
  then show ?thesis by (simp add: Read_uint64_def Write_uint64_def ReadFull_def be_round_trip)
qed

lemma bool_round_trip: "Read_bool (Write_bool b @ rest) = Inr (b, rest)"
  by (simp add: Read_bool_def Write_bool_def)

end
