(* ===== verification/Binary_Rule_Set.thy ===== *)
theory Binary_Rule_Set
  imports Rule_Set Byte_Reader
begin

text \<open>
  The binary format of rule-sets: \<^verbatim>\<open>common/srs/binary.go\<close> and \<^verbatim>\<open>common/srs/ip_set.go\<close>.

  A reader takes the bytes that are left and returns a value with the bytes left after it; a
  writer returns the bytes it writes. Errors of the underlying file are not modelled: reading
  ends with the input, writing does not fail. Of the packages outside the repository,
  \<open>srs_lib\<close> holds what the sources call: \<^verbatim>\<open>varbin\<close>, the domain matchers, \<^verbatim>\<open>M.AddrFromIP\<close>, the
  compression, and what \<^verbatim>\<open>netipx\<close> makes of the ranges that \<^verbatim>\<open>myIPSet\<close> puts into a set. Their
  readers return a value and the number of bytes they took; decompressing returns the error of
  \<^verbatim>\<open>zlib.NewReader\<close> or the bytes the reader delivers. \<open>sr_maxSlice\<close> is the length from
  which \<^verbatim>\<open>make\<close> panics.

  Logical rules nest, so \<open>readRule\<close> has the nesting that is left as an argument; every level
  takes a byte, so the number of bytes is enough, which is proved.
\<close>

type_synonym 'a outside_reader = "bytes \<Rightarrow> ('a \<times> nat) result"

record srs_lib =
  sr_WriteUvarint :: "u64 \<Rightarrow> bytes"
  sr_WriteStrings :: "string list \<Rightarrow> bytes"
  sr_ReadStrings :: "string list outside_reader"
  sr_WriteUint8s :: "u8 list \<Rightarrow> bytes"
  sr_ReadUint8s :: "u8 list outside_reader"
  sr_WriteUint16s :: "u16 list \<Rightarrow> bytes"
  sr_ReadUint16s :: "u16 list outside_reader"
  sr_WriteRange :: "bytes \<times> bytes \<Rightarrow> bytes"
  sr_ReadRanges :: "nat \<Rightarrow> (bytes \<times> bytes) list outside_reader"
  sr_WriteMatcher :: "domain_matcher \<Rightarrow> bytes"
  sr_ReadMatcher :: "domain_matcher outside_reader"
  sr_WriteAdGuardMatcher :: "adguard_matcher \<Rightarrow> bytes"
  sr_ReadAdGuardMatcher :: "adguard_matcher outside_reader"
  sr_AddrFromIP :: "bytes \<Rightarrow> addr"
  sr_IPSetOf :: "(addr \<times> addr) list \<Rightarrow> ipset"
  sr_Compress :: "bytes \<Rightarrow> bytes"
  sr_Decompress :: "bytes \<Rightarrow> bytes result"
  sr_maxSlice :: nat

definition outside :: "'a outside_reader \<Rightarrow> 'a reader" where
  "outside p bs = bind_r (p bs) (\<lambda>(x, n). Inr (x, drop n bs))"

section \<open>encoding/binary\<close>

definition errOverflow :: error where
  "errOverflow = ENew ''binary: varint overflows a 64-bit integer''"

text \<open>\<^verbatim>\<open>binary.ReadUvarint\<close>: \<open>i\<close> bytes have been read into \<open>x\<close>.\<close>

fun ReadUvarint_loop :: "nat \<Rightarrow> u64 \<Rightarrow> u64 reader" where
  "ReadUvarint_loop i x bs =
     (if i < 10 then
        (case bs of
           [] \<Rightarrow> Inl (if i > 0 then ErrUnexpectedEOF else EOF)
         | b # rest \<Rightarrow>
             if b < 0x80 then
               (if i = 9 \<and> b > 1 then Inl errOverflow
                else Inr (or x (push_bit (7 * i) (ucast b)), rest))
             else ReadUvarint_loop (Suc i) (or x (push_bit (7 * i) (ucast (and b 0x7f)))) rest)
      else Inl errOverflow)"

declare ReadUvarint_loop.simps [simp del]

definition ReadUvarint :: "u64 reader" where
  "ReadUvarint bs = ReadUvarint_loop 0 0 bs"

section \<open>Address sets\<close>

text \<open>\<^verbatim>\<open>Addr.AsSlice\<close>: the bytes of the address, without zone; \<^verbatim>\<open>nil\<close> for the zero value.\<close>

fun AsSlice :: "addr \<Rightarrow> bytes" where
  "AsSlice NoAddr = []"
| "AsSlice (IPv4 w) = be_bytes 4 (unat w)"
| "AsSlice (IPv6 w zone) = be_bytes 16 (unat w)"

definition make_slice :: "srs_lib \<Rightarrow> u64 \<Rightarrow> nat result" where
  "make_slice S n = (if unat n \<ge> sr_maxSlice S then Inl (EPanic ''makeslice: len out of range'') else Inr (unat n))"

definition readIPSet :: "srs_lib \<Rightarrow> ipset reader" where
  "readIPSet S bs =
     bind_r (ReadByte bs) (\<lambda>(version, bs1).
       if version \<noteq> 1 then Inl ErrInvalid
       else bind_r (Read_uint64 bs1) (\<lambda>(len, bs2).
            bind_r (make_slice S len) (\<lambda>n.
            bind_r (outside (sr_ReadRanges S n) bs2) (\<lambda>(ranges, bs3).
              Inr (sr_IPSetOf S (map (\<lambda>(from, to). (sr_AddrFromIP S from, sr_AddrFromIP S to)) ranges), bs3)))))"

definition writeIPSet :: "srs_lib \<Rightarrow> ipset \<Rightarrow> bytes" where
  "writeIPSet S s =
     (let dataList = map (\<lambda>(from, to). (AsSlice from, AsSlice to)) (ips_ranges s) in
      1 # Write_uint64 (word_of_nat (length dataList)) @ concat (map (sr_WriteRange S) dataList))"

section \<open>Items\<close>

definition ruleItemQueryType :: u8 where "ruleItemQueryType = 0"
definition ruleItemNetwork :: u8 where "ruleItemNetwork = 1"
definition ruleItemDomain :: u8 where "ruleItemDomain = 2"
definition ruleItemDomainKeyword :: u8 where "ruleItemDomainKeyword = 3"
definition ruleItemDomainRegex :: u8 where "ruleItemDomainRegex = 4"
definition ruleItemSourceIPCIDR :: u8 where "ruleItemSourceIPCIDR = 5"
definition ruleItemIPCIDR :: u8 where "ruleItemIPCIDR = 6"
definition ruleItemSourcePort :: u8 where "ruleItemSourcePort = 7"
definition ruleItemSourcePortRange :: u8 where "ruleItemSourcePortRange = 8"
definition ruleItemPort :: u8 where "ruleItemPort = 9"
definition ruleItemPortRange :: u8 where "ruleItemPortRange = 10"
definition ruleItemProcessName :: u8 where "ruleItemProcessName = 11"
definition ruleItemProcessPath :: u8 where "ruleItemProcessPath = 12"
definition ruleItemPackageName :: u8 where "ruleItemPackageName = 13"
definition ruleItemWIFISSID :: u8 where "ruleItemWIFISSID = 14"
definition ruleItemWIFIBSSID :: u8 where "ruleItemWIFIBSSID = 15"
definition ruleItemAdGuardDomain :: u8 where "ruleItemAdGuardDomain = 16"
definition ruleItemProcessPathRegex :: u8 where "ruleItemProcessPathRegex = 17"
definition ruleItemNetworkType :: u8 where "ruleItemNetworkType = 18"
definition ruleItemNetworkIsExpensive :: u8 where "ruleItemNetworkIsExpensive = 19"
definition ruleItemNetworkIsConstrained :: u8 where "ruleItemNetworkIsConstrained = 20"
definition ruleItemFinal :: u8 where "ruleItemFinal = 0xFF"

lemmas rule_item_defs = ruleItemQueryType_def ruleItemNetwork_def ruleItemDomain_def ruleItemDomainKeyword_def
  ruleItemDomainRegex_def ruleItemSourceIPCIDR_def ruleItemIPCIDR_def ruleItemSourcePort_def
  ruleItemSourcePortRange_def ruleItemPort_def ruleItemPortRange_def ruleItemProcessName_def
  ruleItemProcessPath_def ruleItemPackageName_def ruleItemWIFISSID_def ruleItemWIFIBSSID_def
  ruleItemAdGuardDomain_def ruleItemProcessPathRegex_def ruleItemNetworkType_def
  ruleItemNetworkIsExpensive_def ruleItemNetworkIsConstrained_def ruleItemFinal_def

definition RuleSetVersion1 :: u8 where "RuleSetVersion1 = 1"
definition RuleSetVersion2 :: u8 where "RuleSetVersion2 = 2"
definition RuleSetVersion3 :: u8 where "RuleSetVersion3 = 3"
definition RuleSetVersionCurrent :: u8 where "RuleSetVersionCurrent = RuleSetVersion3"

lemmas version_defs = RuleSetVersion1_def RuleSetVersion2_def RuleSetVersion3_def RuleSetVersionCurrent_def

definition readRuleItemString :: "srs_lib \<Rightarrow> string list reader" where
  "readRuleItemString S = outside (sr_ReadStrings S)"

definition writeRuleItemString :: "srs_lib \<Rightarrow> u8 \<Rightarrow> string list \<Rightarrow> bytes" where
  "writeRuleItemString S itemType v = itemType # sr_WriteStrings S v"

definition readRuleItemUint8 :: "srs_lib \<Rightarrow> u8 list reader" where
  "readRuleItemUint8 S = outside (sr_ReadUint8s S)"

definition writeRuleItemUint8 :: "srs_lib \<Rightarrow> u8 \<Rightarrow> u8 list \<Rightarrow> bytes" where
  "writeRuleItemUint8 S itemType v = itemType # sr_WriteUint8s S v"

definition readRuleItemUint16 :: "srs_lib \<Rightarrow> u16 list reader" where
  "readRuleItemUint16 S = outside (sr_ReadUint16s S)"

definition writeRuleItemUint16 :: "srs_lib \<Rightarrow> u8 \<Rightarrow> u16 list \<Rightarrow> bytes" where
  "writeRuleItemUint16 S itemType v = itemType # sr_WriteUint16s S v"

definition writeRuleItemCIDR :: "lib \<Rightarrow> srs_lib \<Rightarrow> u8 \<Rightarrow> string list \<Rightarrow> bytes result" where
  "writeRuleItemCIDR L S itemType v =
     bind_r (traverse (parse_cidr_entry L) v) (\<lambda>entries.
     bind_r (lib_IPSet L entries) (\<lambda>ipSet. Inr (itemType # writeIPSet S ipSet)))"

section \<open>Rules\<close>

subsection \<open>Reading\<close>

text \<open>One turn of the loop of \<^verbatim>\<open>readDefaultRule\<close>: the item, put into the rule; \<open>None\<close> for the final item.\<close>

definition read_into :: "'a reader \<Rightarrow> ('a \<Rightarrow> default_headless_rule \<Rightarrow> default_headless_rule) \<Rightarrow> default_headless_rule \<Rightarrow>
    default_headless_rule option reader" where
  "read_into p put rule bs = bind_r (p bs) (\<lambda>(x, rest). Inr (Some (put x rule), rest))"

definition readItem :: "srs_lib \<Rightarrow> bool \<Rightarrow> u8 \<Rightarrow> u8 \<Rightarrow> default_headless_rule \<Rightarrow> default_headless_rule option reader" where
  "readItem S recover itemType lastItemType rule bs =
     (let strings = readRuleItemString S in
      if itemType = ruleItemQueryType then read_into (readRuleItemUint16 S) (\<lambda>x r. r\<lparr>oh_QueryType := x\<rparr>) rule bs
      else if itemType = ruleItemNetwork then read_into strings (\<lambda>x r. r\<lparr>oh_Network := x\<rparr>) rule bs
      else if itemType = ruleItemDomain then
        read_into (outside (sr_ReadMatcher S))
          (\<lambda>matcher r. let r1 = r\<lparr>oh_DomainMatcher := Some matcher\<rparr> in
             if recover then r1\<lparr>oh_Domain := fst (dm_Dump matcher), oh_DomainSuffix := snd (dm_Dump matcher)\<rparr> else r1) rule bs
      else if itemType = ruleItemDomainKeyword then read_into strings (\<lambda>x r. r\<lparr>oh_DomainKeyword := x\<rparr>) rule bs
      else if itemType = ruleItemDomainRegex then read_into strings (\<lambda>x r. r\<lparr>oh_DomainRegex := x\<rparr>) rule bs
      else if itemType = ruleItemSourceIPCIDR then
        read_into (readIPSet S)
          (\<lambda>s r. let r1 = r\<lparr>oh_SourceIPSet := Some s\<rparr> in if recover then r1\<lparr>oh_SourceIPCIDR := ips_Prefixes s\<rparr> else r1) rule bs
      else if itemType = ruleItemIPCIDR then
        read_into (readIPSet S)
          (\<lambda>s r. let r1 = r\<lparr>oh_IPSet := Some s\<rparr> in if recover then r1\<lparr>oh_IPCIDR := ips_Prefixes s\<rparr> else r1) rule bs
      else if itemType = ruleItemSourcePort then read_into (readRuleItemUint16 S) (\<lambda>x r. r\<lparr>oh_SourcePort := x\<rparr>) rule bs
      else if itemType = ruleItemSourcePortRange then read_into strings (\<lambda>x r. r\<lparr>oh_SourcePortRange := x\<rparr>) rule bs
      else if itemType = ruleItemPort then read_into (readRuleItemUint16 S) (\<lambda>x r. r\<lparr>oh_Port := x\<rparr>) rule bs
      else if itemType = ruleItemPortRange then read_into strings (\<lambda>x r. r\<lparr>oh_PortRange := x\<rparr>) rule bs
      else if itemType = ruleItemProcessName then read_into strings (\<lambda>x r. r\<lparr>oh_ProcessName := x\<rparr>) rule bs
      else if itemType = ruleItemProcessPath then read_into strings (\<lambda>x r. r\<lparr>oh_ProcessPath := x\<rparr>) rule bs
      else if itemType = ruleItemProcessPathRegex then read_into strings (\<lambda>x r. r\<lparr>oh_ProcessPathRegex := x\<rparr>) rule bs
      else if itemType = ruleItemPackageName then read_into strings (\<lambda>x r. r\<lparr>oh_PackageName := x\<rparr>) rule bs
      else if itemType = ruleItemWIFISSID then read_into strings (\<lambda>x r. r\<lparr>oh_WIFISSID := x\<rparr>) rule bs
      else if itemType = ruleItemWIFIBSSID then read_into strings (\<lambda>x r. r\<lparr>oh_WIFIBSSID := x\<rparr>) rule bs
      else if itemType = ruleItemAdGuardDomain then
        read_into (outside (sr_ReadAdGuardMatcher S))
          (\<lambda>matcher r. let r1 = r\<lparr>oh_AdGuardDomainMatcher := Some matcher\<rparr> in
             if recover then r1\<lparr>oh_AdGuardDomain := am_Dump matcher\<rparr> else r1) rule bs
      else if itemType = ruleItemNetworkType then read_into (readRuleItemUint8 S) (\<lambda>x r. r\<lparr>oh_NetworkType := x\<rparr>) rule bs
      else if itemType = ruleItemNetworkIsExpensive then Inr (Some (rule\<lparr>oh_NetworkIsExpensive := True\<rparr>), bs)
      else if itemType = ruleItemNetworkIsConstrained then Inr (Some (rule\<lparr>oh_NetworkIsConstrained := True\<rparr>), bs)
      else if itemType = ruleItemFinal then Inr (None, bs)
      else Inl (ENew (''unknown rule item type: '' @ itoa (unat itemType) @ '', last type: '' @ itoa (unat lastItemType))))"

lemma outside_shorter: "outside p bs = Inr (x, rest) \<Longrightarrow> length rest \<le> length bs"
  by (auto simp: outside_def)

lemma readIPSet_shorter: "readIPSet S bs = Inr (x, rest) \<Longrightarrow> length rest \<le> length bs"
  by (cases bs) (auto simp: readIPSet_def Read_uint64_def ReadFull_def make_slice_def outside_def split: if_splits)

lemma read_into_shorter:
  "read_into p put rule bs = Inr (x, rest) \<Longrightarrow> (\<And>y. p bs = Inr (y, rest) \<Longrightarrow> length rest \<le> length bs) \<Longrightarrow> length rest \<le> length bs"
  by (auto simp: read_into_def)

lemma readItem_shorter: "readItem S recover ty lastTy rule bs = Inr (x, rest) \<Longrightarrow> length rest \<le> length bs"
  by (auto simp: readItem_def Let_def readRuleItemString_def readRuleItemUint8_def readRuleItemUint16_def
      split: if_splits elim!: read_into_shorter dest: outside_shorter readIPSet_shorter)

function readDefaultRule_loop :: "srs_lib \<Rightarrow> bool \<Rightarrow> u8 \<Rightarrow> default_headless_rule \<Rightarrow> default_headless_rule reader" where
  "readDefaultRule_loop S recover lastItemType rule bs =
     (case ReadByte bs of
        Inl e \<Rightarrow> Inl e
      | Inr (itemType, bs1) \<Rightarrow>
          (case readItem S recover itemType lastItemType rule bs1 of
             Inl e \<Rightarrow> Inl e
           | Inr (None, bs2) \<Rightarrow> bind_r (Read_bool bs2) (\<lambda>(b, rest). Inr (rule\<lparr>oh_Invert := b\<rparr>, rest))
           | Inr (Some rule', bs2) \<Rightarrow> readDefaultRule_loop S recover itemType rule' bs2))"
  by pat_completeness auto
termination
  by (relation "measure (\<lambda>(S, recover, lastTy, rule, bs). length bs)")
     (auto dest!: ReadByte_shorter readItem_shorter)

declare readDefaultRule_loop.simps [simp del]

definition readDefaultRule :: "srs_lib \<Rightarrow> bool \<Rightarrow> default_headless_rule reader" where
  "readDefaultRule S recover = readDefaultRule_loop S recover 0 zero_default_headless_rule"

text \<open>The loop over \<open>n\<close> rules.\<close>

fun readRules :: "string \<Rightarrow> headless_rule_options reader \<Rightarrow> nat \<Rightarrow> nat \<Rightarrow> headless_rule_options list reader" where
  "readRules what p i 0 bs = Inr ([], bs)"
| "readRules what p i (Suc n) bs =
     bind_r (cause (what @ ''['' @ itoa i @ '']'') (p bs)) (\<lambda>(rule, bs1).
     bind_r (readRules what p (Suc i) n bs1) (\<lambda>(rules, bs2). Inr (rule # rules, bs2)))"

definition readLogicalRule :: "srs_lib \<Rightarrow> headless_rule_options reader \<Rightarrow> (string \<times> headless_rule_options list \<times> bool) reader" where
  "readLogicalRule S p bs =
     bind_r (ReadByte bs) (\<lambda>(mode, bs1).
     bind_r (if mode = 0 then Inr LogicalTypeAnd else if mode = 1 then Inr LogicalTypeOr
             else Inl (ENew (''unknown logical mode: '' @ itoa (unat mode)))) (\<lambda>m.
     bind_r (ReadUvarint bs1) (\<lambda>(len, bs2).
     bind_r (make_slice S len) (\<lambda>n.
     bind_r (readRules ''read logical rule '' p 0 n bs2) (\<lambda>(rules, bs3).
     bind_r (Read_bool bs3) (\<lambda>(b, rest). Inr ((m, rules, b), rest)))))))"

fun readRule :: "srs_lib \<Rightarrow> bool \<Rightarrow> nat \<Rightarrow> headless_rule_options reader" where
  "readRule S recover 0 bs = Inl (EPanic ''nesting'')"
| "readRule S recover (Suc depth) bs =
     bind_r (ReadByte bs) (\<lambda>(ruleType, bs1).
       if ruleType = 0 then
         bind_r (readDefaultRule S recover bs1) (\<lambda>(d, rest). Inr (HeadlessRuleOptions RuleTypeDefault d '''' [] False, rest))
       else if ruleType = 1 then
         bind_r (readLogicalRule S (readRule S recover depth) bs1) (\<lambda>((m, rules, b), rest).
           Inr (HeadlessRuleOptions RuleTypeLogical zero_default_headless_rule m rules b, rest))
       else Inl (ENew (''unknown rule type: '' @ itoa (unat ruleType))))"

definition MagicBytes :: bytes where "MagicBytes = [0x53, 0x52, 0x53]"

definition srs_Read :: "srs_lib \<Rightarrow> bool \<Rightarrow> bytes \<Rightarrow> plain_rule_set_compat result" where
  "srs_Read S recover bs =
     bind_r (ReadFull 3 bs) (\<lambda>(magicBytes, bs1).
       if magicBytes \<noteq> MagicBytes then Inl (ENew ''invalid sing-box rule-set file'')
       else bind_r (ReadByte bs1) (\<lambda>(version, bs2).
         if version > RuleSetVersionCurrent then Inl (ENew (''unsupported version: '' @ itoa (unat version)))
         else bind_r (sr_Decompress S bs2) (\<lambda>content.
              bind_r (ReadUvarint content) (\<lambda>(len, bs3).
              bind_r (make_slice S len) (\<lambda>n.
              bind_r (readRules ''read rule'' (readRule S recover (length content)) 0 n bs3) (\<lambda>(rules, _).
                Inr \<lparr>psc_Version = version, psc_Rules = rules\<rparr>))))))"

subsection \<open>Writing\<close>

definition write_if :: "bool \<Rightarrow> bytes result \<Rightarrow> bytes result" where
  "write_if b w = (if b then w else Inr [])"

fun write_all :: "bytes result list \<Rightarrow> bytes result" where
  "write_all [] = Inr []"
| "write_all (w # ws) = bind_r w (\<lambda>x. bind_r (write_all ws) (\<lambda>y. Inr (x @ y)))"

definition writeDefaultRule_items :: "lib \<Rightarrow> srs_lib \<Rightarrow> u8 \<Rightarrow> default_headless_rule \<Rightarrow> bytes result list" where
  "writeDefaultRule_items L S version rule =
     [write_if (length (oh_QueryType rule) > 0) (Inr (writeRuleItemUint16 S ruleItemQueryType (oh_QueryType rule))),
      write_if (length (oh_Network rule) > 0) (Inr (writeRuleItemString S ruleItemNetwork (oh_Network rule))),
      write_if (length (oh_Domain rule) > 0 \<or> length (oh_DomainSuffix rule) > 0)
        (Inr (ruleItemDomain # sr_WriteMatcher S (lib_NewMatcher L (oh_Domain rule) (oh_DomainSuffix rule) (version = RuleSetVersion1)))),
      write_if (length (oh_DomainKeyword rule) > 0) (Inr (writeRuleItemString S ruleItemDomainKeyword (oh_DomainKeyword rule))),
      write_if (length (oh_DomainRegex rule) > 0) (Inr (writeRuleItemString S ruleItemDomainRegex (oh_DomainRegex rule))),
      write_if (length (oh_SourceIPCIDR rule) > 0)
        (cause ''source_ip_cidr'' (writeRuleItemCIDR L S ruleItemSourceIPCIDR (oh_SourceIPCIDR rule))),
      write_if (length (oh_IPCIDR rule) > 0) (cause ''ipcidr'' (writeRuleItemCIDR L S ruleItemIPCIDR (oh_IPCIDR rule))),
      write_if (length (oh_SourcePort rule) > 0) (Inr (writeRuleItemUint16 S ruleItemSourcePort (oh_SourcePort rule))),
      write_if (length (oh_SourcePortRange rule) > 0) (Inr (writeRuleItemString S ruleItemSourcePortRange (oh_SourcePortRange rule))),
      write_if (length (oh_Port rule) > 0) (Inr (writeRuleItemUint16 S ruleItemPort (oh_Port rule))),
      write_if (length (oh_PortRange rule) > 0) (Inr (writeRuleItemString S ruleItemPortRange (oh_PortRange rule))),
      write_if (length (oh_ProcessName rule) > 0) (Inr (writeRuleItemString S ruleItemProcessName (oh_ProcessName rule))),
      write_if (length (oh_ProcessPath rule) > 0) (Inr (writeRuleItemString S ruleItemProcessPath (oh_ProcessPath rule))),
      write_if (length (oh_ProcessPathRegex rule) > 0) (Inr (writeRuleItemString S ruleItemProcessPathRegex (oh_ProcessPathRegex rule))),
      write_if (length (oh_PackageName rule) > 0) (Inr (writeRuleItemString S ruleItemPackageName (oh_PackageName rule))),
      write_if (length (oh_NetworkType rule) > 0)
        (if version < RuleSetVersion3 then Inl (ENew ''network_type rule item is only supported in version 3 or later'')
         else Inr (writeRuleItemUint8 S ruleItemNetworkType (oh_NetworkType rule))),
      write_if (oh_NetworkIsExpensive rule) (Inr [ruleItemNetworkIsExpensive]),
      write_if (oh_NetworkIsConstrained rule) (Inr [ruleItemNetworkIsConstrained]),
      write_if (length (oh_WIFISSID rule) > 0) (Inr (writeRuleItemString S ruleItemWIFISSID (oh_WIFISSID rule))),
      write_if (length (oh_WIFIBSSID rule) > 0) (Inr (writeRuleItemString S ruleItemWIFIBSSID (oh_WIFIBSSID rule))),
      write_if (length (oh_AdGuardDomain rule) > 0)
        (if version < RuleSetVersion2 then Inl (ENew ''AdGuard rule items is only supported in version 2 or later'')
         else Inr (ruleItemAdGuardDomain # sr_WriteAdGuardMatcher S (lib_NewAdGuardMatcher L (oh_AdGuardDomain rule))))]"

definition writeDefaultRule :: "lib \<Rightarrow> srs_lib \<Rightarrow> u8 \<Rightarrow> default_headless_rule \<Rightarrow> bytes result" where
  "writeDefaultRule L S version rule =
     bind_r (write_all (writeDefaultRule_items L S version rule))
       (\<lambda>items. Inr (0 # items @ ruleItemFinal # Write_bool (oh_Invert rule)))"

definition writeLogicalRule :: "srs_lib \<Rightarrow> (headless_rule_options \<Rightarrow> bytes result) \<Rightarrow> string \<Rightarrow> headless_rule_options list \<Rightarrow> bool \<Rightarrow>
    bytes result" where
  "writeLogicalRule S write mode rules invert =
     bind_r (if mode = LogicalTypeAnd then Inr 0 else if mode = LogicalTypeOr then Inr 1
             else Inl (EPanic (''unknown logical mode: '' @ mode))) (\<lambda>m.
     bind_r (write_all (map write rules)) (\<lambda>body.
       Inr (1 # m # sr_WriteUvarint S (word_of_nat (length rules)) @ body @ Write_bool invert)))"

lemma writeLogicalRule_cong [fundef_cong]:
  "(\<And>x. x \<in> set rs \<Longrightarrow> f x = g x) \<Longrightarrow> rs = rs' \<Longrightarrow> m = m' \<Longrightarrow> v = v' \<Longrightarrow>
   writeLogicalRule S f m rs v = writeLogicalRule S g m' rs' v'"
  by (simp add: writeLogicalRule_def cong: map_cong)

fun writeRule :: "lib \<Rightarrow> srs_lib \<Rightarrow> u8 \<Rightarrow> headless_rule_options \<Rightarrow> bytes result" where
  "writeRule L S version (HeadlessRuleOptions ty d mode rules iv) =
     (if ty = RuleTypeDefault then writeDefaultRule L S version d
      else if ty = RuleTypeLogical then writeLogicalRule S (writeRule L S version) mode rules iv
      else Inl (EPanic (''unknown rule type: '' @ ty)))"

definition srs_Write :: "lib \<Rightarrow> srs_lib \<Rightarrow> headless_rule_options list \<Rightarrow> u8 \<Rightarrow> bytes result" where
  "srs_Write L S rules version =
     bind_r (write_all (map (writeRule L S version) rules)) (\<lambda>body.
       Inr (MagicBytes @ version # sr_Compress S (sr_WriteUvarint S (word_of_nat (length rules)) @ body)))"

end
