(* ===== verification/Binary_Rule_Set_Props.thy ===== *)
theory Binary_Rule_Set_Props
  imports Binary_Rule_Set Rule_Set_Props
begin

text \<open>
  Properties of the binary format of rule-sets: what is read back from a written file, that a
  compiled rule-set decides like its source, that reading does not depend on the nesting
  allowed, and where it panics.
\<close>

section \<open>What the other packages promise\<close>

text \<open>Each reader of another package reads back what its writer wrote and leaves the rest.\<close>

definition reads_back :: "'a outside_reader \<Rightarrow> ('a \<Rightarrow> bytes) \<Rightarrow> 'a \<Rightarrow> bool" where
  "reads_back p w x \<longleftrightarrow> (\<forall>rest. p (w x @ rest) = Inr (x, length (w x)))"

fun plain_addr :: "addr \<Rightarrow> bool" where
  "plain_addr NoAddr = False"
| "plain_addr (IPv4 w) = True"
| "plain_addr (IPv6 w zone) = (zone = [])"

definition srs_laws :: "lib \<Rightarrow> srs_lib \<Rightarrow> bool" where
  "srs_laws L S \<longleftrightarrow>
     (\<forall>n rest. ReadUvarint (sr_WriteUvarint S n @ rest) = Inr (n, rest)) \<and>
     (\<forall>xs. xs \<noteq> [] \<longrightarrow> reads_back (sr_ReadStrings S) (sr_WriteStrings S) xs) \<and>
     (\<forall>xs. xs \<noteq> [] \<longrightarrow> reads_back (sr_ReadUint8s S) (sr_WriteUint8s S) xs) \<and>
     (\<forall>xs. xs \<noteq> [] \<longrightarrow> reads_back (sr_ReadUint16s S) (sr_WriteUint16s S) xs) \<and>
     (\<forall>rs. rs \<noteq> [] \<longrightarrow> reads_back (sr_ReadRanges S (length rs)) (\<lambda>rs. concat (map (sr_WriteRange S) rs)) rs) \<and>
     (\<forall>ds ss v. reads_back (sr_ReadMatcher S) (sr_WriteMatcher S) (lib_NewMatcher L ds ss v)) \<and>
     (\<forall>ls. reads_back (sr_ReadAdGuardMatcher S) (sr_WriteAdGuardMatcher S) (lib_NewAdGuardMatcher L ls)) \<and>
     (\<forall>a. plain_addr a \<longrightarrow> sr_AddrFromIP S (AsSlice a) = a) \<and>
     (\<forall>es s. es \<noteq> [] \<longrightarrow> lib_IPSet L es = Inr s \<longrightarrow>
        ips_ranges s \<noteq> [] \<and> length (ips_ranges s) < sr_maxSlice S \<and> sr_IPSetOf S (ips_ranges s) = s \<and>
        (\<forall>(from, to) \<in> set (ips_ranges s). plain_addr from \<and> plain_addr to)) \<and>
     (\<forall>bs. sr_Decompress S (sr_Compress S bs) = Inr bs) \<and> sr_maxSlice S \<le> 2 ^ 64"

lemma srs_lawsD:
  assumes "srs_laws L S"
  shows "ReadUvarint (sr_WriteUvarint S n @ rest) = Inr (n, rest)"
    and "xs \<noteq> [] \<Longrightarrow> reads_back (sr_ReadStrings S) (sr_WriteStrings S) xs"
    and "ys \<noteq> [] \<Longrightarrow> reads_back (sr_ReadUint8s S) (sr_WriteUint8s S) ys"
    and "zs \<noteq> [] \<Longrightarrow> reads_back (sr_ReadUint16s S) (sr_WriteUint16s S) zs"
    and "rs \<noteq> [] \<Longrightarrow> reads_back (sr_ReadRanges S (length rs)) (\<lambda>rs. concat (map (sr_WriteRange S) rs)) rs"
    and "reads_back (sr_ReadMatcher S) (sr_WriteMatcher S) (lib_NewMatcher L ds ss v)"
    and "reads_back (sr_ReadAdGuardMatcher S) (sr_WriteAdGuardMatcher S) (lib_NewAdGuardMatcher L ls)"
    and "plain_addr a \<Longrightarrow> sr_AddrFromIP S (AsSlice a) = a"
    and "es \<noteq> [] \<Longrightarrow> lib_IPSet L es = Inr s \<Longrightarrow>
        ips_ranges s \<noteq> [] \<and> length (ips_ranges s) < sr_maxSlice S \<and> sr_IPSetOf S (ips_ranges s) = s \<and>
        (\<forall>(from, to) \<in> set (ips_ranges s). plain_addr from \<and> plain_addr to)"
    and "sr_Decompress S (sr_Compress S bs) = Inr bs"
    and "sr_maxSlice S \<le> 2 ^ 64"
  using assms by (simp_all add: srs_laws_def)

lemma outside_back: "reads_back p w x \<Longrightarrow> outside p (w x @ rest) = Inr (x, rest)"
  by (simp add: reads_back_def outside_def)

lemma make_slice_length:
  "n < sr_maxSlice S \<Longrightarrow> sr_maxSlice S \<le> 2 ^ 64 \<Longrightarrow> make_slice S (word_of_nat n) = Inr n"
  by (simp add: make_slice_def unat_of_nat)

section \<open>Items\<close>

lemma ipset_round_trip:
  assumes "srs_laws L S" and "es \<noteq> []" and "lib_IPSet L es = Inr s"
  shows "readIPSet S (writeIPSet S s @ rest) = Inr (s, rest)"
proof -
  let ?data = "map (\<lambda>(from, to). (AsSlice from, AsSlice to)) (ips_ranges s)"
  note s = srs_lawsD(9) [OF assms]
  then have "?data \<noteq> []" by simp
  from outside_back [OF srs_lawsD(5) [OF assms(1) this]]
  have ranges: "outside (sr_ReadRanges S (length (ips_ranges s))) (concat (map (sr_WriteRange S) ?data) @ rest) = Inr (?data, rest)"
    by simp
  have "map (\<lambda>(from, to). (sr_AddrFromIP S from, sr_AddrFromIP S to)) ?data = ips_ranges s"
    using s srs_lawsD(8) [OF assms(1)] by (auto intro!: map_idI)
  with s ranges make_slice_length [OF _ srs_lawsD(11) [OF assms(1)]] show ?thesis
    by (simp add: readIPSet_def writeIPSet_def Let_def uint64_round_trip)
qed

text \<open>What reading the bytes of an item does to the rule.\<close>

definition steps_to :: "srs_lib \<Rightarrow> bytes result \<Rightarrow> (default_headless_rule \<Rightarrow> default_headless_rule) \<Rightarrow> bool" where
  "steps_to S w f \<longleftrightarrow> (\<forall>x. w = Inr x \<longrightarrow> (\<forall>ty r rest. \<exists>ty'.
     readDefaultRule_loop S False ty r (x @ rest) = readDefaultRule_loop S False ty' (f r) rest))"

lemma steps_write_if: "(b \<Longrightarrow> steps_to S w f) \<Longrightarrow> steps_to S (write_if b w) (\<lambda>r. if b then f r else r)"
  by (cases b) (auto simp: steps_to_def write_if_def)

lemma steps_cause: "steps_to S w f \<Longrightarrow> steps_to S (cause m w) f"
  by (cases w) (auto simp: steps_to_def)

lemma steps_guard: "steps_to S w f \<Longrightarrow> steps_to S (if c then Inl e else w) f"
  by (auto simp: steps_to_def)

lemma steps_all:
  "list_all2 (steps_to S) ws fs \<Longrightarrow> steps_to S (write_all ws) (\<lambda>r. fold (\<lambda>f r. f r) fs r)"
proof (induction rule: list_all2_induct)
  case (Cons w ws f fs)
  show ?case unfolding steps_to_def
  proof (intro allI impI)
    fix z ty r rest assume "write_all (w # ws) = Inr z"
    then obtain x y where "w = Inr x" "write_all ws = Inr y" "z = x @ y" by auto
    with Cons show "\<exists>ty'. readDefaultRule_loop S False ty r (z @ rest) =
        readDefaultRule_loop S False ty' (fold (\<lambda>f r. f r) (f # fs) r) rest"
      by (simp add: steps_to_def) metis
  qed
qed (auto simp: steps_to_def)

lemma steps_item:
  assumes "\<And>rest. p (x @ rest) = Inr (v, rest)" and "\<And>ty r bs. readItem S False t ty r bs = read_into p put r bs"
  shows "steps_to S (Inr (t # x)) (put v)"
  using assms by (auto simp: steps_to_def read_into_def readDefaultRule_loop.simps [of S False _ _ "t # _"])

lemma steps_flag:
  assumes "\<And>ty r bs. readItem S False t ty r bs = Inr (Some (f r), bs)"
  shows "steps_to S (Inr [t]) f"
  using assms by (auto simp: steps_to_def readDefaultRule_loop.simps [of S False _ _ "t # _"])

text \<open>The address set that a list of texts stands for.\<close>

definition cidr_set :: "lib \<Rightarrow> string list \<Rightarrow> ipset result" where
  "cidr_set L v = bind_r (traverse (parse_cidr_entry L) v) (lib_IPSet L)"

lemma cidr_round_trip:
  assumes "srs_laws L S" and "v \<noteq> []" and "writeRuleItemCIDR L S t v = Inr x"
  shows "\<exists>s w. cidr_set L v = Inr s \<and> x = t # w \<and> (\<forall>rest. readIPSet S (w @ rest) = Inr (s, rest))"
proof -
  obtain es s where es: "traverse (parse_cidr_entry L) v = Inr es" "lib_IPSet L es = Inr s" "x = t # writeIPSet S s"
    using assms(3) by (auto simp: writeRuleItemCIDR_def)
  then have "es \<noteq> []" using traverse_from_length [OF es(1)] assms(2) by auto
  with es ipset_round_trip [OF assms(1) _ es(2)] show ?thesis by (simp add: cidr_set_def)
qed

lemma steps_cidr:
  assumes "srs_laws L S" and "v \<noteq> []" and "\<And>ty r bs. readItem S False t ty r bs = read_into (readIPSet S) put r bs"
  shows "steps_to S (writeRuleItemCIDR L S t v) (put (projr (cidr_set L v)))"
proof -
  have "steps_to S (Inr x) (put (projr (cidr_set L v)))" if x: "writeRuleItemCIDR L S t v = Inr x" for x
  proof -
    obtain s w where s: "cidr_set L v = Inr s" "x = t # w" "\<And>rest. readIPSet S (w @ rest) = Inr (s, rest)"
      using cidr_round_trip [OF assms(1,2) x] by blast
    from steps_item [where x = w, OF s(3) assms(3)] s(1,2) show ?thesis by simp
  qed
  then show ?thesis by (auto simp: steps_to_def)
qed

lemma readItem_simps:
  "readItem S rec ruleItemQueryType ty r bs = read_into (readRuleItemUint16 S) (\<lambda>x r. r\<lparr>oh_QueryType := x\<rparr>) r bs"
  "readItem S rec ruleItemNetwork ty r bs = read_into (readRuleItemString S) (\<lambda>x r. r\<lparr>oh_Network := x\<rparr>) r bs"
  "readItem S False ruleItemDomain ty r bs = read_into (outside (sr_ReadMatcher S)) (\<lambda>x r. r\<lparr>oh_DomainMatcher := Some x\<rparr>) r bs"
  "readItem S rec ruleItemDomainKeyword ty r bs = read_into (readRuleItemString S) (\<lambda>x r. r\<lparr>oh_DomainKeyword := x\<rparr>) r bs"
  "readItem S rec ruleItemDomainRegex ty r bs = read_into (readRuleItemString S) (\<lambda>x r. r\<lparr>oh_DomainRegex := x\<rparr>) r bs"
  "readItem S False ruleItemSourceIPCIDR ty r bs = read_into (readIPSet S) (\<lambda>x r. r\<lparr>oh_SourceIPSet := Some x\<rparr>) r bs"
  "readItem S False ruleItemIPCIDR ty r bs = read_into (readIPSet S) (\<lambda>x r. r\<lparr>oh_IPSet := Some x\<rparr>) r bs"
  "readItem S rec ruleItemSourcePort ty r bs = read_into (readRuleItemUint16 S) (\<lambda>x r. r\<lparr>oh_SourcePort := x\<rparr>) r bs"
  "readItem S rec ruleItemSourcePortRange ty r bs = read_into (readRuleItemString S) (\<lambda>x r. r\<lparr>oh_SourcePortRange := x\<rparr>) r bs"
  "readItem S rec ruleItemPort ty r bs = read_into (readRuleItemUint16 S) (\<lambda>x r. r\<lparr>oh_Port := x\<rparr>) r bs"
  "readItem S rec ruleItemPortRange ty r bs = read_into (readRuleItemString S) (\<lambda>x r. r\<lparr>oh_PortRange := x\<rparr>) r bs"
  "readItem S rec ruleItemProcessName ty r bs = read_into (readRuleItemString S) (\<lambda>x r. r\<lparr>oh_ProcessName := x\<rparr>) r bs"
  "readItem S rec ruleItemProcessPath ty r bs = read_into (readRuleItemString S) (\<lambda>x r. r\<lparr>oh_ProcessPath := x\<rparr>) r bs"
  "readItem S rec ruleItemProcessPathRegex ty r bs = read_into (readRuleItemString S) (\<lambda>x r. r\<lparr>oh_ProcessPathRegex := x\<rparr>) r bs"
  "readItem S rec ruleItemPackageName ty r bs = read_into (readRuleItemString S) (\<lambda>x r. r\<lparr>oh_PackageName := x\<rparr>) r bs"
  "readItem S rec ruleItemWIFISSID ty r bs = read_into (readRuleItemString S) (\<lambda>x r. r\<lparr>oh_WIFISSID := x\<rparr>) r bs"
  "readItem S rec ruleItemWIFIBSSID ty r bs = read_into (readRuleItemString S) (\<lambda>x r. r\<lparr>oh_WIFIBSSID := x\<rparr>) r bs"
  "readItem S False ruleItemAdGuardDomain ty r bs =
     read_into (outside (sr_ReadAdGuardMatcher S)) (\<lambda>x r. r\<lparr>oh_AdGuardDomainMatcher := Some x\<rparr>) r bs"
  "readItem S rec ruleItemNetworkType ty r bs = read_into (readRuleItemUint8 S) (\<lambda>x r. r\<lparr>oh_NetworkType := x\<rparr>) r bs"
  "readItem S rec ruleItemNetworkIsExpensive ty r bs = Inr (Some (r\<lparr>oh_NetworkIsExpensive := True\<rparr>), bs)"
  "readItem S rec ruleItemNetworkIsConstrained ty r bs = Inr (Some (r\<lparr>oh_NetworkIsConstrained := True\<rparr>), bs)"
  "readItem S rec ruleItemFinal ty r bs = Inr (None, bs)"
  by (simp_all add: readItem_def rule_item_defs Let_def)

text \<open>The items that the writer puts down, as the reader takes them in.\<close>

definition read_items :: "lib \<Rightarrow> u8 \<Rightarrow> default_headless_rule \<Rightarrow> (default_headless_rule \<Rightarrow> default_headless_rule) list" where
  "read_items L version d =
    [\<lambda>r. if length (oh_QueryType d) > 0 then r\<lparr>oh_QueryType := oh_QueryType d\<rparr> else r,
     \<lambda>r. if length (oh_Network d) > 0 then r\<lparr>oh_Network := oh_Network d\<rparr> else r,
     \<lambda>r. if length (oh_Domain d) > 0 \<or> length (oh_DomainSuffix d) > 0
         then r\<lparr>oh_DomainMatcher := Some (lib_NewMatcher L (oh_Domain d) (oh_DomainSuffix d) (version = RuleSetVersion1))\<rparr> else r,
     \<lambda>r. if length (oh_DomainKeyword d) > 0 then r\<lparr>oh_DomainKeyword := oh_DomainKeyword d\<rparr> else r,
     \<lambda>r. if length (oh_DomainRegex d) > 0 then r\<lparr>oh_DomainRegex := oh_DomainRegex d\<rparr> else r,
     \<lambda>r. if length (oh_SourceIPCIDR d) > 0 then r\<lparr>oh_SourceIPSet := Some (projr (cidr_set L (oh_SourceIPCIDR d)))\<rparr> else r,
     \<lambda>r. if length (oh_IPCIDR d) > 0 then r\<lparr>oh_IPSet := Some (projr (cidr_set L (oh_IPCIDR d)))\<rparr> else r,
     \<lambda>r. if length (oh_SourcePort d) > 0 then r\<lparr>oh_SourcePort := oh_SourcePort d\<rparr> else r,
     \<lambda>r. if length (oh_SourcePortRange d) > 0 then r\<lparr>oh_SourcePortRange := oh_SourcePortRange d\<rparr> else r,
     \<lambda>r. if length (oh_Port d) > 0 then r\<lparr>oh_Port := oh_Port d\<rparr> else r,
     \<lambda>r. if length (oh_PortRange d) > 0 then r\<lparr>oh_PortRange := oh_PortRange d\<rparr> else r,
     \<lambda>r. if length (oh_ProcessName d) > 0 then r\<lparr>oh_ProcessName := oh_ProcessName d\<rparr> else r,
     \<lambda>r. if length (oh_ProcessPath d) > 0 then r\<lparr>oh_ProcessPath := oh_ProcessPath d\<rparr> else r,
     \<lambda>r. if length (oh_ProcessPathRegex d) > 0 then r\<lparr>oh_ProcessPathRegex := oh_ProcessPathRegex d\<rparr> else r,
     \<lambda>r. if length (oh_PackageName d) > 0 then r\<lparr>oh_PackageName := oh_PackageName d\<rparr> else r,
     \<lambda>r. if length (oh_NetworkType d) > 0 then r\<lparr>oh_NetworkType := oh_NetworkType d\<rparr> else r,
     \<lambda>r. if oh_NetworkIsExpensive d then r\<lparr>oh_NetworkIsExpensive := True\<rparr> else r,
     \<lambda>r. if oh_NetworkIsConstrained d then r\<lparr>oh_NetworkIsConstrained := True\<rparr> else r,
     \<lambda>r. if length (oh_WIFISSID d) > 0 then r\<lparr>oh_WIFISSID := oh_WIFISSID d\<rparr> else r,
     \<lambda>r. if length (oh_WIFIBSSID d) > 0 then r\<lparr>oh_WIFIBSSID := oh_WIFIBSSID d\<rparr> else r,
     \<lambda>r. if length (oh_AdGuardDomain d) > 0
         then r\<lparr>oh_AdGuardDomainMatcher := Some (lib_NewAdGuardMatcher L (oh_AdGuardDomain d))\<rparr> else r]"

lemma steps_strings:
  assumes "srs_laws L S" and "v \<noteq> []" and "\<And>ty r bs. readItem S False t ty r bs = read_into (readRuleItemString S) put r bs"
  shows "steps_to S (Inr (writeRuleItemString S t v)) (put v)"
  unfolding writeRuleItemString_def
  by (rule steps_item [OF _ assms(3)]) (simp add: readRuleItemString_def outside_back srs_lawsD [OF assms(1)] assms(2))

lemma steps_uint8:
  assumes "srs_laws L S" and "v \<noteq> []" and "\<And>ty r bs. readItem S False t ty r bs = read_into (readRuleItemUint8 S) put r bs"
  shows "steps_to S (Inr (writeRuleItemUint8 S t v)) (put v)"
  unfolding writeRuleItemUint8_def
  by (rule steps_item [OF _ assms(3)]) (simp add: readRuleItemUint8_def outside_back srs_lawsD [OF assms(1)] assms(2))

lemma steps_uint16:
  assumes "srs_laws L S" and "v \<noteq> []" and "\<And>ty r bs. readItem S False t ty r bs = read_into (readRuleItemUint16 S) put r bs"
  shows "steps_to S (Inr (writeRuleItemUint16 S t v)) (put v)"
  unfolding writeRuleItemUint16_def
  by (rule steps_item [OF _ assms(3)]) (simp add: readRuleItemUint16_def outside_back srs_lawsD [OF assms(1)] assms(2))

lemma steps_matcher:
  assumes "srs_laws L S"
  shows "steps_to S (Inr (ruleItemDomain # sr_WriteMatcher S (lib_NewMatcher L ds ss v)))
      (\<lambda>r. r\<lparr>oh_DomainMatcher := Some (lib_NewMatcher L ds ss v)\<rparr>)"
    and "steps_to S (Inr (ruleItemAdGuardDomain # sr_WriteAdGuardMatcher S (lib_NewAdGuardMatcher L ls)))
      (\<lambda>r. r\<lparr>oh_AdGuardDomainMatcher := Some (lib_NewAdGuardMatcher L ls)\<rparr>)"
  by (rule steps_item [where put = "\<lambda>x r. r\<lparr>oh_DomainMatcher := Some x\<rparr>", OF outside_back readItem_simps(3)];
      rule srs_lawsD [OF assms])
     (rule steps_item [where put = "\<lambda>x r. r\<lparr>oh_AdGuardDomainMatcher := Some x\<rparr>", OF outside_back readItem_simps(18)];
      rule srs_lawsD [OF assms])

lemmas item_steps =
  steps_uint16 [where put = "\<lambda>x r. r\<lparr>oh_QueryType := x\<rparr>", OF _ _ readItem_simps(1)]
  steps_strings [where put = "\<lambda>x r. r\<lparr>oh_Network := x\<rparr>", OF _ _ readItem_simps(2)]
  steps_strings [where put = "\<lambda>x r. r\<lparr>oh_DomainKeyword := x\<rparr>", OF _ _ readItem_simps(4)]
  steps_strings [where put = "\<lambda>x r. r\<lparr>oh_DomainRegex := x\<rparr>", OF _ _ readItem_simps(5)]
  steps_cidr [where put = "\<lambda>x r. r\<lparr>oh_SourceIPSet := Some x\<rparr>", OF _ _ readItem_simps(6)]
  steps_cidr [where put = "\<lambda>x r. r\<lparr>oh_IPSet := Some x\<rparr>", OF _ _ readItem_simps(7)]
  steps_uint16 [where put = "\<lambda>x r. r\<lparr>oh_SourcePort := x\<rparr>", OF _ _ readItem_simps(8)]
  steps_strings [where put = "\<lambda>x r. r\<lparr>oh_SourcePortRange := x\<rparr>", OF _ _ readItem_simps(9)]
  steps_uint16 [where put = "\<lambda>x r. r\<lparr>oh_Port := x\<rparr>", OF _ _ readItem_simps(10)]
  steps_strings [where put = "\<lambda>x r. r\<lparr>oh_PortRange := x\<rparr>", OF _ _ readItem_simps(11)]
  steps_strings [where put = "\<lambda>x r. r\<lparr>oh_ProcessName := x\<rparr>", OF _ _ readItem_simps(12)]
  steps_strings [where put = "\<lambda>x r. r\<lparr>oh_ProcessPath := x\<rparr>", OF _ _ readItem_simps(13)]
  steps_strings [where put = "\<lambda>x r. r\<lparr>oh_ProcessPathRegex := x\<rparr>", OF _ _ readItem_simps(14)]
  steps_strings [where put = "\<lambda>x r. r\<lparr>oh_PackageName := x\<rparr>", OF _ _ readItem_simps(15)]
  steps_strings [where put = "\<lambda>x r. r\<lparr>oh_WIFISSID := x\<rparr>", OF _ _ readItem_simps(16)]
  steps_strings [where put = "\<lambda>x r. r\<lparr>oh_WIFIBSSID := x\<rparr>", OF _ _ readItem_simps(17)]
  steps_uint8 [where put = "\<lambda>x r. r\<lparr>oh_NetworkType := x\<rparr>", OF _ _ readItem_simps(19)]

lemma items_step:
  assumes "srs_laws L S"
  shows "list_all2 (steps_to S) (writeDefaultRule_items L S version d) (read_items L version d)"
  unfolding writeDefaultRule_items_def read_items_def list_all2_Cons list_all2_Nil
  by (intro conjI TrueI steps_write_if steps_guard steps_cause steps_matcher [OF assms] steps_flag readItem_simps item_steps [OF assms])
     simp_all

section \<open>Reading back\<close>

text \<open>A default rule after compilation: the same conditions, with domains and addresses as the sets made of
  them.\<close>

definition compiled :: "lib \<Rightarrow> u8 \<Rightarrow> default_headless_rule \<Rightarrow> default_headless_rule" where
  "compiled L version d = d\<lparr>
     oh_Domain := [], oh_DomainSuffix := [],
     oh_DomainMatcher := (if oh_Domain d \<noteq> [] \<or> oh_DomainSuffix d \<noteq> []
       then Some (lib_NewMatcher L (oh_Domain d) (oh_DomainSuffix d) (version = RuleSetVersion1)) else None),
     oh_SourceIPCIDR := [], oh_SourceIPSet := (if oh_SourceIPCIDR d \<noteq> [] then Some (projr (cidr_set L (oh_SourceIPCIDR d))) else None),
     oh_IPCIDR := [], oh_IPSet := (if oh_IPCIDR d \<noteq> [] then Some (projr (cidr_set L (oh_IPCIDR d))) else None),
     oh_AdGuardDomain := [],
     oh_AdGuardDomainMatcher := (if oh_AdGuardDomain d \<noteq> [] then Some (lib_NewAdGuardMatcher L (oh_AdGuardDomain d)) else None)\<rparr>"

lemma if_update:
  "(if c then r\<lparr>oh_QueryType := q\<rparr> else r) = oh_QueryType_update (\<lambda>old. if c then q else old) r"
  "(if c then r\<lparr>oh_Network := x\<rparr> else r) = oh_Network_update (\<lambda>old. if c then x else old) r"
  "(if c then r\<lparr>oh_DomainMatcher := dm\<rparr> else r) = oh_DomainMatcher_update (\<lambda>old. if c then dm else old) r"
  "(if c then r\<lparr>oh_DomainKeyword := x\<rparr> else r) = oh_DomainKeyword_update (\<lambda>old. if c then x else old) r"
  "(if c then r\<lparr>oh_DomainRegex := x\<rparr> else r) = oh_DomainRegex_update (\<lambda>old. if c then x else old) r"
  "(if c then r\<lparr>oh_SourceIPSet := st\<rparr> else r) = oh_SourceIPSet_update (\<lambda>old. if c then st else old) r"
  "(if c then r\<lparr>oh_IPSet := st\<rparr> else r) = oh_IPSet_update (\<lambda>old. if c then st else old) r"
  "(if c then r\<lparr>oh_SourcePort := q\<rparr> else r) = oh_SourcePort_update (\<lambda>old. if c then q else old) r"
  "(if c then r\<lparr>oh_SourcePortRange := x\<rparr> else r) = oh_SourcePortRange_update (\<lambda>old. if c then x else old) r"
  "(if c then r\<lparr>oh_Port := q\<rparr> else r) = oh_Port_update (\<lambda>old. if c then q else old) r"
  "(if c then r\<lparr>oh_PortRange := x\<rparr> else r) = oh_PortRange_update (\<lambda>old. if c then x else old) r"
  "(if c then r\<lparr>oh_ProcessName := x\<rparr> else r) = oh_ProcessName_update (\<lambda>old. if c then x else old) r"
  "(if c then r\<lparr>oh_ProcessPath := x\<rparr> else r) = oh_ProcessPath_update (\<lambda>old. if c then x else old) r"
  "(if c then r\<lparr>oh_ProcessPathRegex := x\<rparr> else r) = oh_ProcessPathRegex_update (\<lambda>old. if c then x else old) r"
  "(if c then r\<lparr>oh_PackageName := x\<rparr> else r) = oh_PackageName_update (\<lambda>old. if c then x else old) r"
  "(if c then r\<lparr>oh_NetworkType := nt\<rparr> else r) = oh_NetworkType_update (\<lambda>old. if c then nt else old) r"
  "(if c then r\<lparr>oh_NetworkIsExpensive := b\<rparr> else r) = oh_NetworkIsExpensive_update (\<lambda>old. if c then b else old) r"
  "(if c then r\<lparr>oh_NetworkIsConstrained := b\<rparr> else r) = oh_NetworkIsConstrained_update (\<lambda>old. if c then b else old) r"
  "(if c then r\<lparr>oh_WIFISSID := x\<rparr> else r) = oh_WIFISSID_update (\<lambda>old. if c then x else old) r"
  "(if c then r\<lparr>oh_WIFIBSSID := x\<rparr> else r) = oh_WIFIBSSID_update (\<lambda>old. if c then x else old) r"
  "(if c then r\<lparr>oh_AdGuardDomainMatcher := am\<rparr> else r) = oh_AdGuardDomainMatcher_update (\<lambda>old. if c then am else old) r"
  by simp_all

lemma read_items_compiled:
  "(fold (\<lambda>f r. f r) (read_items L version d) zero_default_headless_rule)\<lparr>oh_Invert := oh_Invert d\<rparr> = compiled L version d"
proof -
  have keep: "(if c then True else False) = c" "(if l \<noteq> [] then l else []) = l"
    for c :: bool and l :: "'a list" by auto
  show ?thesis
    unfolding read_items_def if_update fold_Cons fold_Nil comp_def id_def length_greater_0_conv zero_default_headless_rule_def
    by (cases d) (simp add: compiled_def keep cong: if_cong split del: if_split)
qed

lemma default_round_trip:
  assumes "srs_laws L S" and "writeDefaultRule L S version d = Inr x"
  shows "\<exists>w. x = 0 # w \<and> readDefaultRule S False (w @ rest) = Inr (compiled L version d, rest)"
proof -
  obtain items where i: "write_all (writeDefaultRule_items L S version d) = Inr items"
      "x = 0 # items @ ruleItemFinal # Write_bool (oh_Invert d)"
    using assms(2) by (auto simp: writeDefaultRule_def)
  let ?r = "fold (\<lambda>f r. f r) (read_items L version d) zero_default_headless_rule"
  obtain ty where "readDefaultRule_loop S False 0 zero_default_headless_rule (items @ (ruleItemFinal # Write_bool (oh_Invert d) @ rest)) =
      readDefaultRule_loop S False ty ?r (ruleItemFinal # Write_bool (oh_Invert d) @ rest)"
    using steps_all [OF items_step [OF assms(1)], of version d] i(1) unfolding steps_to_def by blast
  also have "\<dots> = Inr (?r\<lparr>oh_Invert := oh_Invert d\<rparr>, rest)"
    by (simp add: readDefaultRule_loop.simps [of S False _ _ "ruleItemFinal # _"] readItem_simps bool_round_trip)
  finally show ?thesis using i(2) by (simp add: readDefaultRule_def read_items_compiled)
qed

fun compiled_rule :: "lib \<Rightarrow> u8 \<Rightarrow> headless_rule_options \<Rightarrow> headless_rule_options" where
  "compiled_rule L version (HeadlessRuleOptions ty d mode rules iv) =
     (if ty = RuleTypeDefault then HeadlessRuleOptions RuleTypeDefault (compiled L version d) [] [] False
      else HeadlessRuleOptions RuleTypeLogical zero_default_headless_rule mode (map (compiled_rule L version) rules) iv)"

text \<open>The numbers of rules that \<^verbatim>\<open>make\<close> can still allocate.\<close>

fun rule_fits :: "nat \<Rightarrow> headless_rule_options \<Rightarrow> bool" where
  "rule_fits m (HeadlessRuleOptions ty d mode rules iv) \<longleftrightarrow> length rules < m \<and> list_all (rule_fits m) rules"

lemma rules_round_trip:
  assumes "\<And>o1 w rest. o1 \<in> set os \<Longrightarrow> write o1 = Inr w \<Longrightarrow> length w \<le> length body \<Longrightarrow> p (w @ rest) = Inr (f o1, rest)"
    and "write_all (map write os) = Inr body"
  shows "readRules what p i (length os) (body @ rest) = Inr (map f os, rest)"
  using assms
proof (induction os arbitrary: i body)
  case (Cons o1 os)
  obtain w body' where w: "write o1 = Inr w" "write_all (map write os) = Inr body'" "body = w @ body'" using Cons.prems(2) by auto
  have "p (w @ body' @ rest) = Inr (f o1, body' @ rest)" using Cons.prems(1) [of o1 w] w by simp
  moreover have "readRules what p (Suc i) (length os) (body' @ rest) = Inr (map f os, rest)"
    by (rule Cons.IH [OF Cons.prems(1) w(2)]) (use w in simp_all)
  ultimately show ?case using w by simp
qed simp

lemma rule_round_trip:
  assumes "srs_laws L S" and "writeRule L S version o1 = Inr w" and "rule_fits (sr_maxSlice S) o1" and "length w \<le> depth"
  shows "readRule S False depth (w @ rest) = Inr (compiled_rule L version o1, rest)"
  using assms(2-4)
proof (induction o1 arbitrary: w depth rest)
  case (HeadlessRuleOptions ty d mode rules iv)
  show ?case
  proof (cases "ty = RuleTypeDefault")
    case True
    then obtain x where x: "w = 0 # x" "readDefaultRule S False (x @ rest) = Inr (compiled L version d, rest)"
      using HeadlessRuleOptions.prems(1) default_round_trip [OF assms(1)] by fastforce
    with True HeadlessRuleOptions.prems(3) show ?thesis by (cases depth) auto
  next
    case False
    then have ty: "ty = RuleTypeLogical" using HeadlessRuleOptions.prems(1) by (auto split: if_splits)
    obtain m body where b: "m = 0 \<and> mode = LogicalTypeAnd \<or> m = 1 \<and> mode = LogicalTypeOr" "write_all (map (writeRule L S version) rules) = Inr body"
        "w = 1 # m # sr_WriteUvarint S (word_of_nat (length rules)) @ body @ Write_bool iv"
      using HeadlessRuleOptions.prems(1) False ty by (auto simp: writeLogicalRule_def split: if_splits)
    obtain k where k: "depth = Suc k" "length body \<le> k" using HeadlessRuleOptions.prems(3) b(3) by (cases depth) auto
    have "readRules ''read logical rule '' (readRule S False k) 0 (length rules) (body @ (Write_bool iv @ rest)) =
        Inr (map (compiled_rule L version) rules, Write_bool iv @ rest)"
    proof (rule rules_round_trip [OF _ b(2)])
      fix o1 x rest' assume x: "o1 \<in> set rules" "writeRule L S version o1 = Inr x" "length x \<le> length body"
      show "readRule S False k (x @ rest') = Inr (compiled_rule L version o1, rest')"
        by (rule HeadlessRuleOptions.IH [OF x(1,2)]) (use HeadlessRuleOptions.prems(2) k x in \<open>auto simp: list_all_iff\<close>)
    qed
    moreover have "make_slice S (word_of_nat (length rules)) = Inr (length rules)"
      by (rule make_slice_length [OF _ srs_lawsD(11) [OF assms(1)]]) (use HeadlessRuleOptions.prems(2) in simp)
    ultimately show ?thesis using b(1,3) k ty False
      by (auto simp: readLogicalRule_def srs_lawsD(1) [OF assms(1)] bool_round_trip LogicalTypeAnd_def LogicalTypeOr_def)
  qed
qed

lemma srs_read_back:
  assumes "srs_laws L S" and "srs_Write L S rules version = Inr bs" and "version \<le> RuleSetVersionCurrent"
    and "length rules < sr_maxSlice S" and "list_all (rule_fits (sr_maxSlice S)) rules"
  shows "srs_Read S False bs = Inr \<lparr>psc_Version = version, psc_Rules = map (compiled_rule L version) rules\<rparr>"
proof -
  obtain body where b: "write_all (map (writeRule L S version) rules) = Inr body"
      "bs = MagicBytes @ version # sr_Compress S (sr_WriteUvarint S (word_of_nat (length rules)) @ body)"
    using assms(2) by (auto simp: srs_Write_def)
  let ?content = "sr_WriteUvarint S (word_of_nat (length rules)) @ body"
  have "readRules ''read rule'' (readRule S False (length ?content)) 0 (length rules) (body @ []) =
      Inr (map (compiled_rule L version) rules, [])"
  proof (rule rules_round_trip [OF _ b(1)])
    fix o1 w rest assume w: "o1 \<in> set rules" "writeRule L S version o1 = Inr w" "length w \<le> length body"
    show "readRule S False (length ?content) (w @ rest) = Inr (compiled_rule L version o1, rest)"
      by (rule rule_round_trip [OF assms(1) w(2)]) (use assms(5) w in \<open>auto simp: list_all_iff\<close>)
  qed
  moreover have "make_slice S (word_of_nat (length rules)) = Inr (length rules)"
    by (rule make_slice_length [OF assms(4) srs_lawsD(11) [OF assms(1)]])
  ultimately show ?thesis using b(2) assms(3)
    by (simp add: srs_Read_def ReadFull_def MagicBytes_def srs_lawsD(1,10) [OF assms(1)] not_less [symmetric])
qed

text \<open>C34 (srs_round_trip): A rule-set that \<^verbatim>\<open>srs.Write\<close> compiles is read back by \<^verbatim>\<open>srs.Read\<close>, at any nesting
  of logical rules, in the same version and with the same rules in their order; of every default
  rule, each condition is the same, and domains, address ranges and AdGuard lines are the matcher
  or set made of them.\<close>
theorem srs_round_trip:
  assumes "srs_laws L S" and "srs_Write L S rules version = Inr bs" and "version \<le> RuleSetVersionCurrent"
    and "length rules < sr_maxSlice S" and "list_all (rule_fits (sr_maxSlice S)) rules"
  shows "srs_Read S False bs = Inr \<lparr>psc_Version = version, psc_Rules = map (compiled_rule L version) rules\<rparr>"
  by (rule srs_read_back [OF assms])

section \<open>Nesting\<close>

text \<open>Readers take bytes from the front, and reading with two readers that agree on the bytes that are left
  gives the same.\<close>

lemma ReadUvarint_loop_shorter: "ReadUvarint_loop i x bs = Inr (y, rest) \<Longrightarrow> length rest < length bs"
proof (induction bs arbitrary: i x)
  case (Cons b bs)
  from Cons.prems Cons.IH show ?case
    by (subst (asm) (1) ReadUvarint_loop.simps) (auto split: if_splits intro: less_SucI)
qed (simp add: ReadUvarint_loop.simps [of _ _ "[]"] split: if_splits)

lemma ReadUvarint_shorter: "ReadUvarint bs = Inr (y, rest) \<Longrightarrow> length rest < length bs"
  by (simp add: ReadUvarint_def ReadUvarint_loop_shorter)

lemma readDefaultRule_loop_shorter:
  "readDefaultRule_loop S recover ty rule bs = Inr (x, rest) \<Longrightarrow> length rest \<le> length bs"
proof (induction S recover ty rule bs rule: readDefaultRule_loop.induct)
  case (1 S recover ty rule bs)
  obtain ty' bs1 o1 bs2 where bs: "ReadByte bs = Inr (ty', bs1)" "readItem S recover ty' ty rule bs1 = Inr (o1, bs2)"
    using "1.prems" by (subst (asm) readDefaultRule_loop.simps) (auto split: sum.splits)
  then have "length bs2 < length bs" using ReadByte_shorter readItem_shorter by fastforce
  moreover have "length rest \<le> length bs2"
  proof (cases o1)
    case None
    then show ?thesis using "1.prems" bs
      by (subst (asm) readDefaultRule_loop.simps) (auto simp: Read_bool_def dest!: ReadByte_shorter)
  next
    case (Some rule')
    then have "readDefaultRule_loop S recover ty' rule' bs2 = Inr (x, rest)"
      using "1.prems" bs by (subst (asm) readDefaultRule_loop.simps) simp
    then show ?thesis using "1.IH" [OF bs(1) refl bs(2) refl Some] by blast
  qed
  ultimately show ?case by simp
qed

lemma readRules_shorter:
  "readRules what p i n bs = Inr (xs, rest) \<Longrightarrow>
   (\<And>cs x rest. p cs = Inr (x, rest) \<Longrightarrow> length rest \<le> length cs) \<Longrightarrow> length rest \<le> length bs"
proof (induction n arbitrary: i bs xs)
  case (Suc n)
  then obtain x bs1 ys where "p bs = Inr (x, bs1)" "readRules what p (Suc i) n bs1 = Inr (ys, rest)" by auto
  with Suc.IH Suc.prems(2) show ?case by (meson le_trans)
qed simp

lemma readLogicalRule_shorter:
  assumes "readLogicalRule S p bs = Inr (x, rest)" and "\<And>cs x rest. p cs = Inr (x, rest) \<Longrightarrow> length rest \<le> length cs"
  shows "length rest \<le> length bs"
proof -
  obtain mode bs1 len bs2 n rules bs3 b where "ReadByte bs = Inr (mode, bs1)" "ReadUvarint bs1 = Inr (len, bs2)"
      "readRules ''read logical rule '' p 0 n bs2 = Inr (rules, bs3)" "Read_bool bs3 = Inr (b, rest)"
    using assms(1) by (auto simp: readLogicalRule_def split: if_splits)
  then show ?thesis using readRules_shorter [OF _ assms(2)]
    by (fastforce simp: Read_bool_def dest!: ReadByte_shorter ReadUvarint_shorter)
qed

lemma readRule_shorter: "readRule S recover depth bs = Inr (x, rest) \<Longrightarrow> length rest \<le> length bs"
proof (induction depth arbitrary: bs x rest)
  case (Suc depth)
  from Suc.prems show ?case
    by (auto simp: readDefaultRule_def split: if_splits
        dest!: ReadByte_shorter readDefaultRule_loop_shorter readLogicalRule_shorter [OF _ Suc.IH])
qed simp

lemma bind_r_cong: "m = m' \<Longrightarrow> (\<And>x. m' = Inr x \<Longrightarrow> f x = g x) \<Longrightarrow> bind_r m f = bind_r m' g"
  by (cases m') auto

lemma readRules_cong:
  assumes "\<And>cs. length cs \<le> length bs \<Longrightarrow> p cs = q cs" and "\<And>cs x rest. q cs = Inr (x, rest) \<Longrightarrow> length rest \<le> length cs"
  shows "readRules what p i n bs = readRules what q i n bs"
  using assms(1)
proof (induction n arbitrary: i bs)
  case (Suc n)
  have "readRules what p (Suc i) n bs1 = readRules what q (Suc i) n bs1" if "q bs = Inr (x, bs1)" for x bs1
    by (rule Suc.IH) (use Suc.prems assms(2) [OF that] in simp)
  then show ?case using Suc.prems [of bs] by (cases "q bs") auto
qed simp

text \<open>Every level of nesting takes a byte, so the nesting that is allowed does not matter once there is
  more of it than bytes: the reader of the model is the recursion of the source.\<close>

lemma readRule_enough:
  "length bs < d \<Longrightarrow> length bs < d' \<Longrightarrow> readRule S recover d bs = readRule S recover d' bs"
proof (induction d arbitrary: d' bs)
  case (Suc d)
  then obtain k where k: "d' = Suc k" by (cases d') auto
  have "readRules what (readRule S recover d) i n cs = readRules what (readRule S recover k) i n cs"
    if "length cs < length bs" for what i n cs
    by (rule readRules_cong [OF Suc.IH readRule_shorter]) (use Suc.prems k that in auto)
  then have "readLogicalRule S (readRule S recover d) cs = readLogicalRule S (readRule S recover k) cs"
    if "length cs < length bs" for cs
    unfolding readLogicalRule_def
    using that by (auto intro!: bind_r_cong dest!: ReadByte_shorter ReadUvarint_shorter)
  then show ?case using k by (cases bs) auto
qed simp

section \<open>A concrete instance of the other packages\<close>

text \<open>Encodings that are easy to read back: a list is its elements, each after a one, and a zero.\<close>

definition enc_list :: "('a \<Rightarrow> bytes) \<Rightarrow> 'a list \<Rightarrow> bytes" where
  "enc_list e xs = concat (map (\<lambda>x. 1 # e x) xs) @ [0]"

fun dec_upto :: "nat \<Rightarrow> (bytes \<Rightarrow> 'a \<times> bytes) \<Rightarrow> bytes \<Rightarrow> 'a list \<times> bytes" where
  "dec_upto 0 d bs = ([], bs)"
| "dec_upto (Suc n) d [] = ([], [])"
| "dec_upto (Suc n) d (b # bs) =
     (if b = 0 then ([], bs) else case d bs of (x, bs1) \<Rightarrow> map_prod (Cons x) id (dec_upto n d bs1))"

definition dec_list :: "(bytes \<Rightarrow> 'a \<times> bytes) \<Rightarrow> bytes \<Rightarrow> 'a list \<times> bytes" where
  "dec_list d bs = dec_upto (length bs) d bs"

definition decodes :: "(bytes \<Rightarrow> 'a \<times> bytes) \<Rightarrow> ('a \<Rightarrow> bytes) \<Rightarrow> bool" where
  "decodes d e \<longleftrightarrow> (\<forall>x rest. d (e x @ rest) = (x, rest))"

definition as_reader :: "(bytes \<Rightarrow> 'a \<times> bytes) \<Rightarrow> 'a outside_reader" where
  "as_reader d bs = (case d bs of (x, rest) \<Rightarrow> Inr (x, length bs - length rest))"

lemma decodes_list:
  assumes "decodes d e"
  shows "decodes (dec_list d) (enc_list e)"
proof -
  have "dec_upto n d (enc_list e xs @ rest) = (xs, rest)" if "length xs < n" for n xs rest
    using that
  proof (induction n arbitrary: xs)
    case (Suc n)
    then show ?case using assms by (cases xs) (auto simp: enc_list_def decodes_def)
  qed simp
  moreover have "length xs \<le> length (concat (map (\<lambda>x. 1 # e x) xs))" for xs by (induction xs) simp_all
  ultimately show ?thesis by (simp add: decodes_def dec_list_def enc_list_def less_Suc_eq_le trans_le_add1)
qed

lemma decodes_reads_back: "decodes d e \<Longrightarrow> reads_back (as_reader d) e x"
  by (simp add: decodes_def reads_back_def as_reader_def)

definition dec_u8 :: "bytes \<Rightarrow> u8 \<times> bytes" where "dec_u8 bs = (hd bs, tl bs)"
definition dec_u16 :: "bytes \<Rightarrow> u16 \<times> bytes" where "dec_u16 bs = (word_of_nat (be_value (take 2 bs)), drop 2 bs)"
definition dec_char :: "bytes \<Rightarrow> char \<times> bytes" where "dec_char bs = (char_of (unat (hd bs)), tl bs)"
definition enc_char :: "char \<Rightarrow> bytes" where "enc_char c = [word_of_nat (of_char c)]"

lemma decodes_basic:
  "decodes dec_u8 (\<lambda>b. [b])" "decodes dec_u16 (\<lambda>w. be_bytes 2 (unat w))" "decodes dec_char enc_char"
proof -
  show "decodes dec_u8 (\<lambda>b. [b])" by (simp add: decodes_def dec_u8_def)
  have "unat w < 256 ^ 2" for w :: u16 using unsigned_less [of w] by simp
  then show "decodes dec_u16 (\<lambda>w. be_bytes 2 (unat w))" by (simp add: decodes_def dec_u16_def be_round_trip)
  show "decodes dec_char enc_char" by (simp add: decodes_def dec_char_def enc_char_def unat_of_nat)
qed

text \<open>Two byte lists, and a given number of them.\<close>

definition enc_pair :: "bytes \<times> bytes \<Rightarrow> bytes" where
  "enc_pair p = enc_list (\<lambda>b. [b]) (fst p) @ enc_list (\<lambda>b. [b]) (snd p)"

fun dec_pairs :: "nat \<Rightarrow> bytes \<Rightarrow> (bytes \<times> bytes) list \<times> bytes" where
  "dec_pairs 0 bs = ([], bs)"
| "dec_pairs (Suc n) bs =
     (case dec_list dec_u8 bs of (x, bs1) \<Rightarrow> case dec_list dec_u8 bs1 of (y, bs2) \<Rightarrow> map_prod (Cons (x, y)) id (dec_pairs n bs2))"

lemma dec_pairs_back: "dec_pairs (length ps) (concat (map enc_pair ps) @ rest) = (ps, rest)"
  using decodes_list [OF decodes_basic(1)] by (induction ps) (simp_all add: enc_pair_def decodes_def)

text \<open>\<^verbatim>\<open>binary.PutUvarint\<close>.\<close>

function put_uvarint :: "nat \<Rightarrow> bytes" where
  "put_uvarint n = (if n < 128 then [word_of_nat n] else word_of_nat (n mod 128 + 128) # put_uvarint (n div 128))"
  by pat_completeness auto
termination by (relation "measure id") auto

declare put_uvarint.simps [simp del]

lemma seven_bits: "or (word_of_nat (m mod 128)) (push_bit 7 (word_of_nat (m div 128))) = (word_of_nat m :: u64)"
proof -
  have m: "m mod 128 = take_bit 7 m" "m div 128 = drop_bit 7 m" by (simp_all add: take_bit_eq_mod drop_bit_eq_div)
  show ?thesis unfolding m by (rule bit_word_eqI) (auto simp: bit_simps)
qed

lemma uvarint_byte:
  fixes b :: u8
  assumes "b = word_of_nat (m mod 128 + 128)"
  shows "\<not> b < 0x80" and "ucast (and b 0x7f) = (word_of_nat (m mod 128) :: u64)"
proof -
  have "m mod 128 + 128 < 256" using mod_less_divisor [of 128 m] by linarith
  then have u: "unat b = m mod 128 + 128" unfolding assms unat_of_nat by simp
  then show "\<not> b < 0x80" by (simp add: word_less_nat_alt)
  have "and b 0x7f = take_bit 7 b" by (simp add: take_bit_eq_mask mask_eq_exp_minus_1)
  moreover have "unat (take_bit 7 b) = m mod 128" unfolding unsigned_take_bit_eq u by (simp add: take_bit_eq_mod)
  ultimately have "unat (and b 0x7f) = m mod 128" by (simp only:)
  then show "ucast (and b 0x7f) = (word_of_nat (m mod 128) :: u64)" by (metis of_nat_unat)
qed

lemma put_back:
  "i < 10 \<Longrightarrow> m < 2 ^ (64 - 7 * i) \<Longrightarrow>
   ReadUvarint_loop i x (put_uvarint m @ rest) = Inr (or x (push_bit (7 * i) (word_of_nat m)), rest)"
proof (induction m arbitrary: i x rule: put_uvarint.induct)
  case (1 m)
  show ?case
  proof (cases "m < 128")
    case True
    then have "(word_of_nat m :: u8) < 0x80" "ucast (word_of_nat m :: u8) = (word_of_nat m :: u64)"
      by (simp_all add: word_less_nat_alt unat_of_nat unsigned_of_nat take_bit_nat_eq_self)
    moreover have "\<not> (i = 9 \<and> (word_of_nat m :: u8) > 1)"
      using "1.prems" by (auto simp: word_less_nat_alt unat_of_nat)
    ultimately show ?thesis using True "1.prems"
      by (subst ReadUvarint_loop.simps) (auto simp: put_uvarint.simps [of m])
  next
    case False
    have i: "i < 9"
    proof (rule ccontr)
      assume "\<not> i < 9"
      with "1.prems" have "i = 9" by simp
      with "1.prems" False show False by simp
    qed
    let ?b = "word_of_nat (m mod 128 + 128) :: u8"
    have b: "\<not> ?b < 0x80" "ucast (and ?b 0x7f) = (word_of_nat (m mod 128) :: u64)"
      by (rule uvarint_byte [OF refl])+
    have e: "64 - 7 * i = 7 + (64 - 7 * Suc i)" using i by simp
    have "m < 2 ^ 7 * 2 ^ (64 - 7 * Suc i)" using "1.prems"(2) unfolding power_add [symmetric] e [symmetric] .
    then have "m div 128 < 2 ^ (64 - 7 * Suc i)" by (simp add: less_mult_imp_div_less mult.commute)
    from "1.IH" [OF False _ this, of "or x (push_bit (7 * i) (word_of_nat (m mod 128)))"] i
    have "ReadUvarint_loop (Suc i) (or x (push_bit (7 * i) (word_of_nat (m mod 128)))) (put_uvarint (m div 128) @ rest) =
        Inr (or (or x (push_bit (7 * i) (word_of_nat (m mod 128)))) (push_bit (7 * Suc i) (word_of_nat (m div 128))), rest)"
      by simp
    also have "or (or x (push_bit (7 * i) (word_of_nat (m mod 128)))) (push_bit (7 * Suc i) (word_of_nat (m div 128))) =
        or x (push_bit (7 * i) (word_of_nat m))"
      unfolding or.assoc by (subst (3) seven_bits [symmetric]) (simp only: push_bit_or push_bit_push_bit mult_Suc_right add.commute)
    finally show ?thesis using False i b by (subst ReadUvarint_loop.simps) (simp add: put_uvarint.simps [of m])
  qed
qed

text \<open>Addresses from their bytes.\<close>

definition addr_from_slice :: "bytes \<Rightarrow> addr" where
  "addr_from_slice bs =
     (if length bs = 4 then IPv4 (word_of_nat (be_value bs))
      else if length bs = 16 then IPv6 (word_of_nat (be_value bs)) [] else NoAddr)"

lemma addr_back: "plain_addr a \<Longrightarrow> addr_from_slice (AsSlice a) = a"
proof (cases a)
  case (IPv4 w)
  have "unat w < 256 ^ 4" using unsigned_less [of w] by simp
  with IPv4 show ?thesis by (simp add: addr_from_slice_def be_round_trip)
next
  case (IPv6 w z)
  moreover assume "plain_addr a"
  moreover have "unat w < 256 ^ 16" using unsigned_less [of w] by simp
  ultimately show ?thesis by (simp add: addr_from_slice_def be_round_trip)
qed simp

abbreviation "enc_strings \<equiv> enc_list (enc_list enc_char)"
abbreviation "dec_strings \<equiv> dec_list (dec_list dec_char)"

definition sample_matcher :: "string list \<times> string list \<Rightarrow> domain_matcher" where
  "sample_matcher dump = lib_NewMatcher sample_lib (fst dump) (snd dump) False"

definition sample_srs :: srs_lib where
  "sample_srs = \<lparr>
     sr_WriteUvarint = (\<lambda>n. put_uvarint (unat n)),
     sr_WriteStrings = enc_strings, sr_ReadStrings = as_reader dec_strings,
     sr_WriteUint8s = enc_list (\<lambda>b. [b]), sr_ReadUint8s = as_reader (dec_list dec_u8),
     sr_WriteUint16s = enc_list (\<lambda>w. be_bytes 2 (unat w)), sr_ReadUint16s = as_reader (dec_list dec_u16),
     sr_WriteRange = enc_pair, sr_ReadRanges = (\<lambda>n. as_reader (dec_pairs n)),
     sr_WriteMatcher = (\<lambda>m. enc_strings (fst (dm_Dump m)) @ enc_strings (snd (dm_Dump m))),
     sr_ReadMatcher = as_reader (\<lambda>bs. case dec_strings bs of (ds, bs1) \<Rightarrow>
        case dec_strings bs1 of (ss, bs2) \<Rightarrow> (sample_matcher (ds, ss), bs2)),
     sr_WriteAdGuardMatcher = (\<lambda>m. enc_strings (am_Dump m)),
     sr_ReadAdGuardMatcher = as_reader (\<lambda>bs. map_prod (lib_NewAdGuardMatcher sample_lib) id (dec_strings bs)),
     sr_AddrFromIP = addr_from_slice,
     sr_IPSetOf = (\<lambda>rs. IPSet (ips_Contains (projr (lib_IPSet sample_lib []))) [] rs),
     sr_Compress = rev, sr_Decompress = (\<lambda>bs. Inr (rev bs)),
     sr_maxSlice = 2 ^ 40\<rparr>"

lemma sample_srs_laws: "srs_laws sample_lib sample_srs"
proof -
  note strings = decodes_list [OF decodes_list [OF decodes_basic(3)]]
  have strings': "dec_strings (enc_strings xs @ rest) = (xs, rest)" for xs rest
    using strings by (simp add: decodes_def)
  have "ReadUvarint (put_uvarint (unat n) @ rest) = Inr (n, rest)" for n :: u64 and rest
    using put_back [of 0 "unat n" 0 rest] unsigned_less [of n] by (simp add: ReadUvarint_def)
  moreover have "reads_back (as_reader (dec_pairs (length rs))) (\<lambda>rs. concat (map enc_pair rs)) rs" for rs
    using dec_pairs_back by (simp add: reads_back_def as_reader_def)
  ultimately show ?thesis unfolding srs_laws_def
    using strings decodes_list [OF decodes_basic(1)] decodes_list [OF decodes_basic(2)]
    by (simp add: sample_srs_def decodes_reads_back addr_back)
       (simp add: sample_lib_def sample_matcher_def reads_back_def as_reader_def strings')
qed

definition sample_source :: "headless_rule_options list" where
  "sample_source =
     [HeadlessRuleOptions RuleTypeLogical zero_default_headless_rule LogicalTypeOr
        [HeadlessRuleOptions RuleTypeDefault
           (zero_default_headless_rule\<lparr>oh_DomainSuffix := [''ads''], oh_IPCIDR := [''10.0.0.0/8''], oh_Port := [443]\<rparr>) [] [] False,
         HeadlessRuleOptions RuleTypeDefault (zero_default_headless_rule\<lparr>oh_AdGuardDomain := [''x'']\<rparr>) [] [] False] False]"

definition sample_bytes :: bytes where
  "sample_bytes = projr (srs_Write sample_lib sample_srs sample_source 2)"

lemma sample_written: "srs_Write sample_lib sample_srs sample_source 2 = Inr sample_bytes"
  by (simp add: sample_bytes_def sample_source_def srs_Write_def sample_lib_def sample_srs_def writeLogicalRule_def writeDefaultRule_def
      writeDefaultRule_items_def write_if_def writeRuleItemCIDR_def parse_cidr_entry_def zero_default_headless_rule_def
      RuleTypeDefault_def RuleTypeLogical_def LogicalTypeAnd_def LogicalTypeOr_def version_defs)

lemma sample_fits: "length sample_source < sr_maxSlice sample_srs" "list_all (rule_fits (sr_maxSlice sample_srs)) sample_source"
  by (simp_all add: sample_source_def sample_srs_def)

theorem srs_round_trip_witness:
  "srs_Read sample_srs False sample_bytes =
     Inr \<lparr>psc_Version = 2, psc_Rules = map (compiled_rule sample_lib 2) sample_source\<rparr>"
  by (rule srs_round_trip [OF sample_srs_laws sample_written _ sample_fits]) (simp add: version_defs)

section \<open>Lengths that cannot be allocated\<close>

text \<open>Remark (srs_length_panics): The number of rules in a file is not checked before memory for them is allocated: a file whose
  number is too large for a slice makes \<^verbatim>\<open>srs.Read\<close> panic instead of returning an error, whatever follows
  the number, so ten bytes of content are enough.\<close>
theorem srs_length_panics:
  assumes "version \<le> RuleSetVersionCurrent" and "sr_Decompress S body = Inr content" and "ReadUvarint content = Inr (len, rest)"
    and "sr_maxSlice S \<le> unat len"
  shows "srs_Read S recover (MagicBytes @ version # body) = Inl (EPanic ''makeslice: len out of range'')"
  using assms by (simp add: srs_Read_def ReadFull_def MagicBytes_def make_slice_def not_less [symmetric])

theorem srs_length_panics_witness:
  "\<exists>body. length body = 10 \<and>
     srs_Read sample_srs False (MagicBytes @ 3 # body) = Inl (EPanic ''makeslice: len out of range'')"
proof -
  let ?content = "sr_WriteUvarint sample_srs 9223372036854775808"
  have "srs_Read sample_srs False (MagicBytes @ 3 # rev ?content) = Inl (EPanic ''makeslice: len out of range'')"
  proof (rule srs_length_panics)
    show "ReadUvarint ?content = Inr (9223372036854775808, [])" using srs_lawsD(1) [OF sample_srs_laws, of _ "[]"] by simp
  qed (simp_all add: version_defs sample_srs_def)
  moreover have "length (rev ?content) = 10" by (simp add: sample_srs_def put_uvarint.simps)
  ultimately show ?thesis by blast
qed

end
