(* ===== verification/Binary_Rule_Set_Match.thy ===== *)
theory Binary_Rule_Set_Match
  imports Binary_Rule_Set_Props
begin

text \<open>
  A rule-set that is compiled and read back decides every connection like its source: the
  rules built from the two differ only in the descriptions of domain and address items, which
  matching does not read.
\<close>

section \<open>Rules up to their descriptions\<close>

fun erase :: "leaf_item \<Rightarrow> leaf_item" where
  "erase (DomainItem i) = DomainItem (i\<lparr>di_description := []\<rparr>)"
| "erase (IPCIDRItem i) = IPCIDRItem (i\<lparr>ci_description := []\<rparr>)"
| "erase i = i"

lemma erase_match [simp]: "leaf_match L R (erase i) c = leaf_match L R i c"
  by (cases i) (simp_all add: DomainItem_Match_def IPCIDRItem_Match_def)

definition same_rule :: "leaf_item abstract_rule \<Rightarrow> leaf_item abstract_rule \<Rightarrow> bool" where
  "same_rule r s \<longleftrightarrow> map_items erase r = map_items erase s"

lemma any_item_erase: "any_item (leaf_item_match L R) (map erase is) c = any_item (leaf_item_match L R) is c"
  by (induction "is" arbitrary: c) (auto simp: leaf_item_match_def split: bool.split)

lemma all_items_erase:
  "all_items (\<lambda>_. False) (leaf_item_match L R) (map erase is) c = all_items (\<lambda>_. False) (leaf_item_match L R) is c"
  by (induction "is" arbitrary: c) (auto simp: leaf_item_match_def Let_def split: bool.split)

lemma map_items_fields [simp]:
  "ar_items (map_items f r) = map f (ar_items r)"
  "ar_sourceAddressItems (map_items f r) = map f (ar_sourceAddressItems r)"
  "ar_sourcePortItems (map_items f r) = map f (ar_sourcePortItems r)"
  "ar_destinationAddressItems (map_items f r) = map f (ar_destinationAddressItems r)"
  "ar_destinationIPCIDRItems (map_items f r) = map f (ar_destinationIPCIDRItems r)"
  "ar_destinationPortItems (map_items f r) = map f (ar_destinationPortItems r)"
  "ar_allItems (map_items f r) = map f (ar_allItems r)"
  "ar_invert (map_items f r) = ar_invert r"
  by (simp_all add: map_items_def)

lemma match_groups_erase:
  "match_sourceAddress (leaf_item_match L R) (map_items erase r) = match_sourceAddress (leaf_item_match L R) r"
  "match_sourcePort (leaf_item_match L R) (map_items erase r) = match_sourcePort (leaf_item_match L R) r"
  "match_destinationAddress (leaf_item_match L R) (map_items erase r) = match_destinationAddress (leaf_item_match L R) r"
  "match_destinationIPCIDR (leaf_item_match L R) (map_items erase r) = match_destinationIPCIDR (leaf_item_match L R) r"
  "match_destinationPort (leaf_item_match L R) (map_items erase r) = match_destinationPort (leaf_item_match L R) r"
  by (simp_all add: fun_eq_iff match_sourceAddress_def match_sourcePort_def match_destinationAddress_def
      match_destinationIPCIDR_def match_destinationPort_def any_item_erase)

lemma match_erase:
  "abstractDefaultRule_Match (\<lambda>_. False) (leaf_item_match L R) (map_items erase r) c =
   abstractDefaultRule_Match (\<lambda>_. False) (leaf_item_match L R) r c"
  unfolding abstractDefaultRule_Match_def match_groups_erase map_items_fields all_items_erase length_map ..

text \<open>Two rules that decide alike and hold the same address sets.\<close>

definition same_verdicts :: "lib \<Rightarrow> headless_rule \<Rightarrow> headless_rule \<Rightarrow> bool" where
  "same_verdicts L rule rule' \<longleftrightarrow>
     (\<forall>R. HeadlessRule_Match L R rule' = HeadlessRule_Match L R rule) \<and> extractIPSetFromRule rule' = extractIPSetFromRule rule"

lemma item_ipsets_erase [simp]: "item_ipsets (erase i) = item_ipsets i"
  by (cases i) simp_all

lemma same_rule_verdicts:
  assumes "same_rule r s"
  shows "same_verdicts L (DefaultHeadlessRule r) (DefaultHeadlessRule s)"
proof -
  have "HeadlessRule_Match L R (DefaultHeadlessRule s) c = HeadlessRule_Match L R (DefaultHeadlessRule r) c" for R c
    using assms by (metis HeadlessRule_Match.simps(1) match_erase same_rule_def)
  moreover have "concat (map item_ipsets (map erase is)) = concat (map item_ipsets is)" for "is"
    by (induction "is") simp_all
  then have "extractIPSetFromRule (DefaultHeadlessRule s) = extractIPSetFromRule (DefaultHeadlessRule r)"
    using assms unfolding same_rule_def by (metis extractIPSetFromRule.simps(1) map_items_fields(5))
  ultimately show ?thesis unfolding same_verdicts_def by auto
qed

lemma same_append: "same_rule r s \<Longrightarrow> erase i = erase j \<Longrightarrow> same_rule (append_item r (g, i)) (append_item s (g, j))"
  by (cases g) (auto simp: same_rule_def map_items_def)

section \<open>Constructors that add the same items\<close>

definition sim :: "leaf_item rule_step list \<Rightarrow> leaf_item rule_step list \<Rightarrow> bool" where
  "sim fs gs \<longleftrightarrow> (\<forall>r s r'. same_rule r s \<longrightarrow> run_steps fs r = Inr r' \<longrightarrow> (\<exists>s'. run_steps gs s = Inr s' \<and> same_rule r' s'))"

lemma sim_Nil: "sim [] []"
  by (simp add: sim_def)

lemma sim_append: "sim fs gs \<Longrightarrow> sim fs' gs' \<Longrightarrow> sim (fs @ fs') (gs @ gs')"
  by (fastforce simp: sim_def run_steps_append)

lemma sim_Cons: "sim [f] [g] \<Longrightarrow> sim fs gs \<Longrightarrow> sim (f # fs) (g # gs)"
  using sim_append [of "[f]" "[g]" fs gs] by simp

lemma sim_Cons2: "sim [f, f'] [g, g'] \<Longrightarrow> sim fs gs \<Longrightarrow> sim (f # f' # fs) (g # g' # gs)"
  using sim_append [of "[f, f']" "[g, g']" fs gs] by simp

lemma sim_if: "sim [item_if b g i] [item_if b g i]"
  by (auto simp: sim_def item_if_def intro: same_append)

lemma sim_try: "sim [item_try b g mk x] [item_try b g mk x]"
  by (auto simp: sim_def item_try_def intro: same_append)

text \<open>A list of texts that is replaced by what it stands for.\<close>

lemma sim_compiled:
  assumes "\<not> b'" and "c'" and "x0 = None" and "x1 = (if b then Some y else None)"
    and "\<And>i. b \<Longrightarrow> x = Inr i \<Longrightarrow> erase (mk i) = erase (mk' y)"
  shows "sim [item_try b g mk x, item_opt c g mk' x0] [item_try b' g mk x', item_opt c' g mk' x1]"
  using assms by (auto simp: sim_def item_try_def item_opt_def intro!: same_append)

lemma sim_compiled_item:
  assumes "\<not> b'" and "c'" and "x0 = None" and "x1 = (if b then Some y else None)" and "erase i = erase (mk y)"
  shows "sim [item_if b g i, item_opt c g mk x0] [item_if b' g i', item_opt c' g mk x1]"
  using assms by (auto simp: sim_def item_if_def item_opt_def intro!: same_append)

text \<open>Rules as they come from JSON, where the compiled forms cannot be given.\<close>

definition no_compiled :: "default_headless_rule \<Rightarrow> bool" where
  "no_compiled d \<longleftrightarrow> oh_DomainMatcher d = None \<and> oh_SourceIPSet d = None \<and> oh_IPSet d = None \<and> oh_AdGuardDomainMatcher d = None"

lemma NewIPCIDRItem_set:
  "cause m (NewIPCIDRItem L isSource v) = Inr i \<Longrightarrow>
   erase (IPCIDRItem i) = erase (IPCIDRItem (NewRawIPCIDRItem isSource (projr (cidr_set L v))))"
  by (auto simp: NewIPCIDRItem_def Let_def NewRawIPCIDRItem_def cidr_set_def)

lemma NewDomainItem_matcher:
  "NewDomainItem L ds ss = Inr i \<Longrightarrow> erase (DomainItem i) = erase (DomainItem (NewRawDomainItem (lib_NewMatcher L ds ss False)))"
  by (auto simp: NewDomainItem_def NewRawDomainItem_def Let_def split: if_splits)

lemma compiled_fields:
  "oh_QueryType (compiled L v d) = oh_QueryType d" "oh_Network (compiled L v d) = oh_Network d"
  "oh_Domain (compiled L v d) = []" "oh_DomainSuffix (compiled L v d) = []"
  "oh_DomainKeyword (compiled L v d) = oh_DomainKeyword d" "oh_DomainRegex (compiled L v d) = oh_DomainRegex d"
  "oh_SourceIPCIDR (compiled L v d) = []" "oh_IPCIDR (compiled L v d) = []"
  "oh_SourcePort (compiled L v d) = oh_SourcePort d" "oh_SourcePortRange (compiled L v d) = oh_SourcePortRange d"
  "oh_Port (compiled L v d) = oh_Port d" "oh_PortRange (compiled L v d) = oh_PortRange d"
  "oh_ProcessName (compiled L v d) = oh_ProcessName d" "oh_ProcessPath (compiled L v d) = oh_ProcessPath d"
  "oh_ProcessPathRegex (compiled L v d) = oh_ProcessPathRegex d" "oh_PackageName (compiled L v d) = oh_PackageName d"
  "oh_NetworkType (compiled L v d) = oh_NetworkType d" "oh_NetworkIsExpensive (compiled L v d) = oh_NetworkIsExpensive d"
  "oh_NetworkIsConstrained (compiled L v d) = oh_NetworkIsConstrained d" "oh_WIFISSID (compiled L v d) = oh_WIFISSID d"
  "oh_WIFIBSSID (compiled L v d) = oh_WIFIBSSID d" "oh_Invert (compiled L v d) = oh_Invert d"
  "oh_AdGuardDomain (compiled L v d) = []"
  by (simp_all add: compiled_def)

lemma compiled_sets:
  "oh_DomainMatcher (compiled L v d) = (if length (oh_Domain d) > 0 \<or> length (oh_DomainSuffix d) > 0
     then Some (lib_NewMatcher L (oh_Domain d) (oh_DomainSuffix d) (v = RuleSetVersion1)) else None)"
  "oh_SourceIPSet (compiled L v d) = (if length (oh_SourceIPCIDR d) > 0 then Some (projr (cidr_set L (oh_SourceIPCIDR d))) else None)"
  "oh_IPSet (compiled L v d) = (if length (oh_IPCIDR d) > 0 then Some (projr (cidr_set L (oh_IPCIDR d))) else None)"
  "oh_AdGuardDomainMatcher (compiled L v d) =
     (if length (oh_AdGuardDomain d) > 0 then Some (lib_NewAdGuardMatcher L (oh_AdGuardDomain d)) else None)"
  by (simp_all add: compiled_def)

lemma sim_steps:
  assumes "no_compiled d" and "version \<noteq> RuleSetVersion1"
  shows "sim (NewDefaultHeadlessRule_steps L hasNM d) (NewDefaultHeadlessRule_steps L hasNM (compiled L version d))"
  unfolding NewDefaultHeadlessRule_steps_def compiled_fields
  by (intro sim_Cons [OF sim_if] sim_Cons [OF sim_try] sim_Nil
      sim_Cons2 [OF sim_compiled [OF _ _ _ compiled_sets(1)]] sim_Cons2 [OF sim_compiled [OF _ _ _ compiled_sets(2)]]
      sim_Cons2 [OF sim_compiled [OF _ _ _ compiled_sets(3)]] sim_Cons2 [OF sim_compiled_item [OF _ _ _ compiled_sets(4)]])
    (use assms in \<open>simp_all add: no_compiled_def NewDomainItem_matcher NewIPCIDRItem_set NewAdGuardDomainItem_def
        NewRawAdGuardDomainItem_def del: erase.simps\<close>)

section \<open>Rules\<close>

text \<open>A source rule-set as the parser of its JSON leaves it: every type is written out.\<close>

fun source_rule :: "headless_rule_options \<Rightarrow> bool" where
  "source_rule (HeadlessRuleOptions ty d mode rules iv) \<longleftrightarrow>
     (ty = RuleTypeDefault \<and> no_compiled d) \<or> (ty = RuleTypeLogical \<and> list_all source_rule rules)"

lemma compiled_valid: "no_compiled d \<Longrightarrow> DefaultHeadlessRule_IsValid (compiled L v d) = DefaultHeadlessRule_IsValid d"
  unfolding DefaultHeadlessRule_IsValid_def compiled_fields compiled_sets no_compiled_def by (auto split: if_splits)

lemma compiled_rule_valid:
  "source_rule o1 \<Longrightarrow> HeadlessRuleOptions_IsValid (compiled_rule L v o1) = HeadlessRuleOptions_IsValid o1"
proof (induction o1)
  case (HeadlessRuleOptions ty d mode rules iv)
  have "all_r HeadlessRuleOptions_IsValid (map (compiled_rule L v) os) = all_r HeadlessRuleOptions_IsValid os"
    if "\<And>o1. o1 \<in> set os \<Longrightarrow> HeadlessRuleOptions_IsValid (compiled_rule L v o1) = HeadlessRuleOptions_IsValid o1" for os
    using that by (induction os) (simp_all cong: if_cong)
  with HeadlessRuleOptions show ?case by (auto simp: compiled_valid list_all_iff RuleTypeDefault_def RuleTypeLogical_def)
qed

lemma compiled_rules_valid:
  "list_all source_rule rules \<Longrightarrow> LogicalHeadlessRule_IsValid (map (compiled_rule L v) rules) = LogicalHeadlessRule_IsValid rules"
  using compiled_rule_valid [of "HeadlessRuleOptions RuleTypeLogical d m rules iv" L v for d m iv]
  by (simp add: LogicalHeadlessRule_IsValid_def RuleTypeDefault_def RuleTypeLogical_def)

lemma default_rule_compiled:
  assumes "no_compiled d" and "version \<noteq> RuleSetVersion1" and "NewDefaultHeadlessRule L hasNM d = Inr rule"
  shows "\<exists>rule'. NewDefaultHeadlessRule L hasNM (compiled L version d) = Inr rule' \<and> same_verdicts L rule rule'"
proof -
  obtain r where r: "run_steps (NewDefaultHeadlessRule_steps L hasNM d) (empty_rule (oh_Invert d)) = Inr r"
      "rule = DefaultHeadlessRule r"
    using assms(3) by (auto simp: NewDefaultHeadlessRule_def)
  have "same_rule (empty_rule (oh_Invert d)) (empty_rule (oh_Invert d))" by (simp add: same_rule_def)
  with sim_steps [OF assms(1,2), of L hasNM] r(1) obtain s where
    "run_steps (NewDefaultHeadlessRule_steps L hasNM (compiled L version d)) (empty_rule (oh_Invert d)) = Inr s" "same_rule r s"
    unfolding sim_def by blast
  with same_rule_verdicts r(2) show ?thesis by (auto simp: NewDefaultHeadlessRule_def compiled_fields)
qed

lemma traverse_related:
  assumes "traverse_from i (\<lambda>i x. cause (m i) (f x)) xs = Inr ys"
    and "\<And>x y. x \<in> set xs \<Longrightarrow> f x = Inr y \<Longrightarrow> \<exists>y'. f (g x) = Inr y' \<and> Q y y'"
  shows "\<exists>ys'. traverse_from i (\<lambda>i x. cause (m i) (f x)) (map g xs) = Inr ys' \<and> list_all2 Q ys ys'"
  using assms
proof (induction xs arbitrary: i ys)
  case (Cons x xs)
  then obtain y zs where y: "f x = Inr y" "traverse_from (Suc i) (\<lambda>i x. cause (m i) (f x)) xs = Inr zs" "ys = y # zs" by auto
  obtain y' where "f (g x) = Inr y'" "Q y y'" using Cons.prems(2) y(1) by force
  moreover obtain zs' where "traverse_from (Suc i) (\<lambda>i x. cause (m i) (f x)) (map g xs) = Inr zs'" "list_all2 Q zs zs'"
    using Cons.IH [OF y(2)] Cons.prems(2) by force
  ultimately show ?case using y(3) by auto
qed simp

lemma same_verdicts_logical:
  assumes "list_all2 (same_verdicts L) rs rs'"
  shows "same_verdicts L (LogicalHeadlessRule rs m iv) (LogicalHeadlessRule rs' m iv)"
proof -
  have "rules_all (HeadlessRule_Match L R) rs' c = rules_all (HeadlessRule_Match L R) rs c"
    and "rules_any (HeadlessRule_Match L R) rs' c = rules_any (HeadlessRule_Match L R) rs c" for R c
    using assms by (induction arbitrary: c rule: list_all2_induct) (auto simp: same_verdicts_def split: prod.split bool.split)
  moreover have "map extractIPSetFromRule rs' = map extractIPSetFromRule rs"
    using assms by (induction rule: list_all2_induct) (auto simp: same_verdicts_def)
  ultimately show ?thesis by (simp add: same_verdicts_def fun_eq_iff abstractLogicalRule_Match_def)
qed

lemma rule_compiled:
  assumes "source_rule o1" and "version \<noteq> RuleSetVersion1" and "NewHeadlessRule L hasNM o1 = Inr rule"
  shows "\<exists>rule'. NewHeadlessRule L hasNM (compiled_rule L version o1) = Inr rule' \<and> same_verdicts L rule rule'"
  using assms(1,3)
proof (induction o1 arbitrary: rule)
  case (HeadlessRuleOptions ty d mode rules iv)
  show ?case
  proof (cases "ty = RuleTypeDefault")
    case True
    with HeadlessRuleOptions.prems default_rule_compiled [OF _ assms(2), of d L hasNM rule] show ?thesis
      by (auto simp: compiled_valid RuleTypeDefault_def RuleTypeLogical_def split: if_splits)
  next
    case False
    with HeadlessRuleOptions.prems(1) have ty: "ty = RuleTypeLogical" "list_all source_rule rules" by auto
    with HeadlessRuleOptions.prems(2) obtain m rs where rs: "LogicalHeadlessRule_IsValid rules = Inr True" "logical_mode mode = Inr m"
        "sub_rules (NewHeadlessRule L hasNM) rules = Inr rs" "rule = LogicalHeadlessRule rs m iv"
      by (auto simp: NewLogicalHeadlessRule_def RuleTypeDefault_def RuleTypeLogical_def split: if_splits)
    obtain rs' where "sub_rules (NewHeadlessRule L hasNM) (map (compiled_rule L version) rules) = Inr rs'"
        "list_all2 (same_verdicts L) rs rs'"
      using traverse_related [OF rs(3) [unfolded sub_rules_def], of "compiled_rule L version" "same_verdicts L"]
        HeadlessRuleOptions.IH ty(2) by (auto simp: sub_rules_def list_all_iff)
    with rs ty same_verdicts_logical show ?thesis
      by (auto simp: compiled_rules_valid NewLogicalHeadlessRule_def RuleTypeDefault_def RuleTypeLogical_def)
  qed
qed

section \<open>Rule-sets\<close>

lemma has_rule_compiled:
  assumes "\<And>d. no_compiled d \<Longrightarrow> cond (compiled L v d) = cond d"
  shows "list_all source_rule rules \<Longrightarrow> hasHeadlessRule cond (map (compiled_rule L v) rules) = hasHeadlessRule cond rules"
  using assms by (induction cond rules rule: hasHeadlessRule.induct) (auto simp: RuleTypeDefault_def RuleTypeLogical_def)

lemma metadata_compiled: "list_all source_rule rules \<Longrightarrow> rules_metadata (map (compiled_rule L v) rules) = rules_metadata rules"
proof -
  have "isIPCIDRHeadlessRule (compiled L v d) = isIPCIDRHeadlessRule d" if "no_compiled d" for d
    using that by (auto simp: isIPCIDRHeadlessRule_def compiled_fields compiled_sets no_compiled_def)
  then show "list_all source_rule rules \<Longrightarrow> ?thesis"
    by (simp add: rules_metadata_def has_rule_compiled isProcessHeadlessRule_def isWIFIHeadlessRule_def compiled_fields)
qed

lemma RuleSet_Match_same:
  "list_all2 (same_verdicts L) rs rs' \<Longrightarrow> RuleSet_Match L R rs' c = RuleSet_Match L R rs c"
  by (induction arbitrary: c rule: list_all2_induct) (auto simp: same_verdicts_def split: prod.split bool.split)

lemma reload_compiled:
  assumes "list_all source_rule rules" and "version \<noteq> RuleSetVersion1" and "reloadRules L hasNM rules s = Inr (cbs, s1)"
  shows "\<exists>s2. reloadRules L hasNM (map (compiled_rule L version) rules) s = Inr (cbs, s2) \<and>
    list_all2 (same_verdicts L) (rst_rules s1) (rst_rules s2) \<and> rst_metadata s2 = rst_metadata s1"
proof -
  let ?parse = "\<lambda>i o1. cause (''parse rule_set.rules.['' @ itoa i @ '']'') (NewHeadlessRule L hasNM o1)"
  obtain rs where rs: "traverse ?parse rules = Inr rs" "cbs = rst_callbacks s"
      "s1 = s\<lparr>rst_rules := rs, rst_metadata := rules_metadata rules\<rparr>"
    using assms(3) by (auto simp: reloadRules_def)
  obtain rs' where "traverse ?parse (map (compiled_rule L version) rules) = Inr rs'" "list_all2 (same_verdicts L) rs rs'"
    using traverse_related [OF rs(1), of "compiled_rule L version" "same_verdicts L"] rule_compiled [OF _ assms(2)] assms(1)
    by (auto simp: list_all_iff)
  with rs(2,3) show ?thesis by (auto simp: reloadRules_def metadata_compiled [OF assms(1)])
qed

text \<open>C6 (compiled_decides): A rule-set that compiles to version 2 or 3 and that loads from its source also loads from the
  compiled file, and the two loaded sets are the same to every client: they decide every
  connection alike and leave its metadata alike, contain the same kinds of rules and give the
  same address sets to a TUN inbound.\<close>
theorem compiled_decides:
  assumes "srs_laws L S" and "srs_Write L S rules version = Inr bs" and "version = 2 \<or> version = 3"
    and "length rules < sr_maxSlice S" and "list_all (rule_fits (sr_maxSlice S)) rules" and "list_all source_rule rules"
    and "reloadRules L hasNM rules s = Inr (cbs, s1)"
  shows "\<exists>compat hs s2. srs_Read S False bs = Inr compat \<and> PlainRuleSetCompat_Upgrade compat = Inr hs \<and>
    reloadRules L hasNM hs s = Inr (cbs, s2) \<and>
    (\<forall>R c. RuleSet_Match L R (rst_rules s2) c = RuleSet_Match L R (rst_rules s1) c) \<and>
    rst_metadata s2 = rst_metadata s1 \<and> ExtractIPSet s2 = ExtractIPSet s1"
proof -
  have v: "version \<noteq> RuleSetVersion1" "version \<le> RuleSetVersionCurrent" using assms(3) by (auto simp: version_defs)
  obtain s2 where s2: "reloadRules L hasNM (map (compiled_rule L version) rules) s = Inr (cbs, s2)"
      "list_all2 (same_verdicts L) (rst_rules s1) (rst_rules s2)" "rst_metadata s2 = rst_metadata s1"
    using reload_compiled [OF assms(6) v(1) assms(7)] by blast
  have "map extractIPSetFromRule (rst_rules s2) = map extractIPSetFromRule (rst_rules s1)"
    using s2(2) by (induction rule: list_all2_induct) (auto simp: same_verdicts_def)
  moreover have "PlainRuleSetCompat_Upgrade \<lparr>psc_Version = version, psc_Rules = hs\<rparr> = Inr hs" for hs
    using assms(3) by (auto simp: PlainRuleSetCompat_Upgrade_def)
  ultimately show ?thesis
    using srs_read_back [OF assms(1,2) v(2) assms(4,5)] s2 RuleSet_Match_same [OF s2(2)] by (auto simp: ExtractIPSet_def)
qed

definition sample_rules :: "headless_rule list" where
  "sample_rules = rst_rules (snd (projr (reloadRules sample_lib True sample_source sample_set)))"

lemma sample_source_loads:
  "reloadRules sample_lib True sample_source sample_set =
     Inr (rst_callbacks sample_set, sample_set\<lparr>rst_rules := sample_rules, rst_metadata := rules_metadata sample_source\<rparr>)"
  by (simp add: sample_rules_def reloadRules_def sample_source_def sample_lib_def LogicalHeadlessRule_IsValid_def
      DefaultHeadlessRule_IsValid_def NewLogicalHeadlessRule_def NewDefaultHeadlessRule_def NewDefaultHeadlessRule_steps_def
      sub_rules_def logical_mode_def item_if_def item_try_def item_opt_def NewDomainItem_def NewIPCIDRItem_def parse_cidr_entry_def
      zero_default_headless_rule_def RuleTypeDefault_def RuleTypeLogical_def LogicalTypeAnd_def LogicalTypeOr_def Let_def)

theorem compiled_decides_witness:
  "\<exists>compat hs s2. srs_Read sample_srs False sample_bytes = Inr compat \<and> PlainRuleSetCompat_Upgrade compat = Inr hs \<and>
    reloadRules sample_lib True hs sample_set = Inr (rst_callbacks sample_set, s2) \<and>
    (\<forall>R c. RuleSet_Match sample_lib R (rst_rules s2) c = RuleSet_Match sample_lib R sample_rules c)"
proof -
  have "list_all source_rule sample_source"
    by (simp add: sample_source_def no_compiled_def zero_default_headless_rule_def RuleTypeDefault_def RuleTypeLogical_def)
  from compiled_decides [OF sample_srs_laws sample_written _ sample_fits this sample_source_loads] show ?thesis by auto
qed

end
