(* ===== verification/JA3.thy ===== *)
theory JA3
  imports Byte_Reader
begin

text \<open>
  The parser of TLS client hellos in \<^verbatim>\<open>common/ja3\<close>, which the QUIC sniffer uses. Every access to a
  byte that is not there is the panic it is in the source. The parser fills an object as it
  goes; since its callers drop the object when there is an error, an error carries no object here.
\<close>

section \<open>Slices\<close>

definition out_of_range :: error where
  "out_of_range = EPanic ''runtime error: index out of range''"

definition byte_at :: "bytes \<Rightarrow> nat \<Rightarrow> u8 result" where
  "byte_at bs i = (if i < length bs then Inr (bs ! i) else Inl out_of_range)"

definition slice_from :: "bytes \<Rightarrow> nat \<Rightarrow> bytes result" where
  "slice_from bs i = (if i \<le> length bs then Inr (drop i bs) else Inl out_of_range)"

definition slice_of :: "bytes \<Rightarrow> nat \<Rightarrow> nat \<Rightarrow> bytes result" where
  "slice_of bs i j = (if i \<le> j \<and> j \<le> length bs then Inr (take (j - i) (drop i bs)) else Inl out_of_range)"

text \<open>\<^verbatim>\<open>uint16(b[i])<<8 | uint16(b[i+1])\<close>, which is \<^verbatim>\<open>binary.BigEndian.Uint16(b[i:])\<close> too.\<close>

definition uint16_at :: "bytes \<Rightarrow> nat \<Rightarrow> u16 result" where
  "uint16_at bs i =
     bind_r (byte_at bs i) (\<lambda>a. bind_r (byte_at bs (i + 1)) (\<lambda>b. Inr (or (push_bit 8 (ucast a)) (ucast b))))"

definition uint24_at :: "bytes \<Rightarrow> nat \<Rightarrow> u32 result" where
  "uint24_at bs i =
     bind_r (byte_at bs i) (\<lambda>a. bind_r (byte_at bs (i + 1)) (\<lambda>b. bind_r (byte_at bs (i + 2)) (\<lambda>c.
       Inr (or (or (push_bit 16 (ucast a)) (push_bit 8 (ucast b))) (ucast c)))))"

text \<open>\<^verbatim>\<open>for i := 0; i < limit; i += 2\<close> over numbers of two bytes.\<close>

function uint16s :: "bytes \<Rightarrow> nat \<Rightarrow> nat \<Rightarrow> u16 list result" where
  "uint16s bs i limit =
     (if i < limit
      then bind_r (uint16_at bs i) (\<lambda>w. bind_r (uint16s bs (i + 2) limit) (\<lambda>ws. Inr (w # ws)))
      else Inr [])"
  by pat_completeness auto
termination by (relation "measure (\<lambda>(bs, i, limit). limit - i)") auto

declare uint16s.simps [simp del]

section \<open>The object and its errors\<close>

record client_hello =
  ch_Version :: u16
  ch_CipherSuites :: "u16 list"
  ch_Extensions :: "u16 list"
  ch_EllipticCurves :: "u16 list"
  ch_EllipticCurvePF :: bytes
  ch_Versions :: "u16 list"
  ch_SignatureAlgorithms :: "u16 list"
  ch_ServerName :: string

definition zero_client_hello :: client_hello where
  "zero_client_hello = \<lparr>ch_Version = 0, ch_CipherSuites = [], ch_Extensions = [], ch_EllipticCurves = [],
     ch_EllipticCurvePF = [], ch_Versions = [], ch_SignatureAlgorithms = [], ch_ServerName = []\<rparr>"

definition LengthErr :: "nat \<Rightarrow> error" where "LengthErr n = ENew (''length check '' @ itoa n @ '' failed'')"
definition ContentTypeErr :: error where "ContentTypeErr = ENew ''content type not matching''"
definition VersionErr :: "nat \<Rightarrow> error" where "VersionErr n = ENew (''version check '' @ itoa n @ '' failed'')"
definition HandshakeTypeErr :: error where "HandshakeTypeErr = ENew ''handshake type not matching''"
definition SNITypeErr :: error where "SNITypeErr = ENew ''SNI type not supported''"

definition contentType :: u8 where "contentType = 22"
definition handshakeType :: u8 where "handshakeType = 1"
definition sniExtensionType :: u16 where "sniExtensionType = 0"
definition sniNameDNSHostnameType :: u8 where "sniNameDNSHostnameType = 0"
definition ecExtensionType :: u16 where "ecExtensionType = 10"
definition ecpfExtensionType :: u16 where "ecpfExtensionType = 11"
definition versionExtensionType :: u16 where "versionExtensionType = 43"
definition signatureAlgorithmsExtensionType :: u16 where "signatureAlgorithmsExtensionType = 13"
definition tlsVersionBitmask :: u16 where "tlsVersionBitmask = 0xFFFC"
definition tls13 :: u16 where "tls13 = 0x0304"
definition GreaseBitmask :: u16 where "GreaseBitmask = 0x0F0F"

lemmas extension_types = sniExtensionType_def ecExtensionType_def ecpfExtensionType_def versionExtensionType_def
  signatureAlgorithmsExtensionType_def

definition tls_version_ok :: "u16 \<Rightarrow> bool" where
  "tls_version_ok v \<longleftrightarrow> and v tlsVersionBitmask = 0x0300 \<or> v = tls13"

definition string_of_bytes :: "bytes \<Rightarrow> string" where
  "string_of_bytes bs = map (\<lambda>b. char_of (unat b)) bs"

definition fail_when :: "bool \<Rightarrow> error \<Rightarrow> 'a result \<Rightarrow> 'a result" where
  "fail_when b e r = (if b then Inl e else r)"

section \<open>Extensions\<close>

text \<open>The cases of the switch over the type of an extension, on its body.\<close>

definition parse_sni :: "bytes \<Rightarrow> client_hello \<Rightarrow> client_hello result" where
  "parse_sni sex j =
     fail_when (length sex < 5) (LengthErr 13)
       (bind_r (byte_at sex 2) (\<lambda>sniType. bind_r (uint16_at sex 3) (\<lambda>sniLen. bind_r (slice_from sex 5) (\<lambda>sex'.
          fail_when (length sex' \<noteq> unat sniLen) (LengthErr 14)
            (if sniType = sniNameDNSHostnameType then Inr (j\<lparr>ch_ServerName := string_of_bytes sex'\<rparr>) else Inl SNITypeErr)))))"

definition parse_curves :: "bytes \<Rightarrow> client_hello \<Rightarrow> client_hello result" where
  "parse_curves sex j =
     fail_when (length sex < 2) (LengthErr 15)
       (bind_r (uint16_at sex 0) (\<lambda>ecsLen. bind_r (slice_from sex 2) (\<lambda>sex'.
          fail_when (length sex' \<noteq> unat ecsLen) (LengthErr 16)
            (bind_r (uint16s sex' 0 (2 * (unat ecsLen div 2))) (\<lambda>cs. Inr (j\<lparr>ch_EllipticCurves := cs\<rparr>))))))"

definition parse_point_formats :: "bytes \<Rightarrow> client_hello \<Rightarrow> client_hello result" where
  "parse_point_formats sex j =
     fail_when (length sex < 1) (LengthErr 17)
       (bind_r (byte_at sex 0) (\<lambda>n. bind_r (slice_from sex 1) (\<lambda>sex'.
          fail_when (length sex' \<noteq> unat n) (LengthErr 18) (Inr (j\<lparr>ch_EllipticCurvePF := sex'\<rparr>)))))"

definition parse_versions :: "bytes \<Rightarrow> client_hello \<Rightarrow> client_hello result" where
  "parse_versions sex j =
     fail_when (length sex < 1) (LengthErr 19)
       (bind_r (byte_at sex 0) (\<lambda>n. bind_r (slice_from sex 1) (\<lambda>sex'.
          bind_r (uint16s sex' 0 (unat n)) (\<lambda>vs. Inr (j\<lparr>ch_Versions := ch_Versions j @ vs\<rparr>)))))"

definition parse_signature_algorithms :: "bytes \<Rightarrow> client_hello \<Rightarrow> client_hello result" where
  "parse_signature_algorithms sex j =
     fail_when (length sex < 2) (LengthErr 20)
       (bind_r (uint16_at sex 0) (\<lambda>n. bind_r (slice_from sex 2) (\<lambda>sex'.
          bind_r (uint16s sex' 0 (unat n)) (\<lambda>as. Inr (j\<lparr>ch_SignatureAlgorithms := ch_SignatureAlgorithms j @ as\<rparr>)))))"

definition parse_body :: "u16 \<Rightarrow> bytes \<Rightarrow> client_hello \<Rightarrow> client_hello result" where
  "parse_body exType sex j =
     (if exType = sniExtensionType then parse_sni sex j
      else if exType = ecExtensionType then parse_curves sex j
      else if exType = ecpfExtensionType then parse_point_formats sex j
      else if exType = versionExtensionType then parse_versions sex j
      else if exType = signatureAlgorithmsExtensionType then parse_signature_algorithms sex j
      else Inr j)"

text \<open>One turn of the loop. The offset of the next extension is a sum of 16-bit numbers.\<close>

definition parse_extension :: "bytes \<Rightarrow> client_hello \<Rightarrow> (bytes \<times> client_hello) result" where
  "parse_extension exs j =
     fail_when (length exs < 4) (LengthErr 11)
       (bind_r (uint16_at exs 0) (\<lambda>exType. bind_r (uint16_at exs 2) (\<lambda>exLen.
          let j1 = j\<lparr>ch_Extensions := ch_Extensions j @ [exType]\<rparr> in
          fail_when (length exs < 4 + unat exLen) (LengthErr 12)
            (bind_r (slice_of exs 4 (4 + unat exLen)) (\<lambda>sex.
             bind_r (parse_body exType sex j1) (\<lambda>j2.
             bind_r (slice_from exs (unat (4 + exLen))) (\<lambda>exs'. Inr (exs', j2))))))))"

text \<open>The loop may not end when the offset is zero; \<open>None\<close> is a loop that does not end.\<close>

partial_function (option) extensions_loop :: "bytes \<Rightarrow> client_hello \<Rightarrow> client_hello result option" where
  "extensions_loop exs j =
     (if exs = [] then Some (Inr j)
      else (case parse_extension exs j of Inl e \<Rightarrow> Some (Inl e) | Inr (exs', j') \<Rightarrow> extensions_loop exs' j'))"

definition parseExtensions :: "bytes \<Rightarrow> client_hello \<Rightarrow> client_hello result option" where
  "parseExtensions exs j =
     (if length exs = 0 then Some (Inr j)
      else if length exs < 2 then Some (Inl (LengthErr 9))
      else (case bind_r (uint16_at exs 0) (\<lambda>exsLen. bind_r (slice_from exs 2) (\<lambda>exs'.
                   fail_when (length exs' < unat exsLen) (LengthErr 10) (Inr exs'))) of
              Inl e \<Rightarrow> Some (Inl e) | Inr exs' \<Rightarrow> extensions_loop exs' j))"

section \<open>Handshake and record\<close>

text \<open>Up to the extensions: what is left of the handshake, and the object.\<close>

definition parse_hello_start :: "bytes \<Rightarrow> (bytes \<times> client_hello) result" where
  "parse_hello_start hs =
     fail_when (length hs < 6 + 32 + 1) (LengthErr 3)
       (bind_r (byte_at hs 0) (\<lambda>handshType. fail_when (handshType \<noteq> handshakeType) HandshakeTypeErr
       (bind_r (uint24_at hs 1) (\<lambda>handshakeLen. fail_when (length hs - 4 \<noteq> unat handshakeLen) (LengthErr 4)
       (bind_r (uint16_at hs 4) (\<lambda>tlsVersion. fail_when (\<not> tls_version_ok tlsVersion) (VersionErr 2)
       (bind_r (byte_at hs 38) (\<lambda>sessionIDLen. fail_when (length hs < 6 + 32 + 1 + unat sessionIDLen) (LengthErr 5)
       (bind_r (slice_from hs (6 + 32 + 1 + unat sessionIDLen)) (\<lambda>cs. fail_when (length cs < 2) (LengthErr 6)
       (bind_r (uint16_at cs 0) (\<lambda>csLen. fail_when (length cs < 2 + unat csLen + 1) (LengthErr 7)
       (bind_r (slice_from cs 2) (\<lambda>cs2. bind_r (uint16s cs2 0 (2 * (unat csLen div 2))) (\<lambda>suites.
        bind_r (byte_at cs (2 + unat csLen)) (\<lambda>compressMethodLen.
          fail_when (length cs < 2 + unat csLen + 1 + unat compressMethodLen) (LengthErr 8)
       (bind_r (slice_from cs (2 + unat csLen + 1 + unat compressMethodLen)) (\<lambda>exs.
          Inr (exs, zero_client_hello\<lparr>ch_Version := tlsVersion, ch_CipherSuites := suites\<rparr>)))))))))))))))))))"

definition parseHandshake :: "bytes \<Rightarrow> client_hello result option" where
  "parseHandshake hs =
     (case parse_hello_start hs of Inl e \<Rightarrow> Some (Inl e) | Inr (exs, j) \<Rightarrow> parseExtensions exs j)"

definition parse_record :: "bytes \<Rightarrow> bytes result" where
  "parse_record segment =
     fail_when (length segment < 5) (LengthErr 1)
       (bind_r (byte_at segment 0) (\<lambda>contType. fail_when (contType \<noteq> contentType) ContentTypeErr
       (bind_r (uint16_at segment 1) (\<lambda>tlsRecordVersion. fail_when (\<not> tls_version_ok tlsRecordVersion) (VersionErr 1)
       (bind_r (uint16_at segment 3) (\<lambda>segmentLen. fail_when (length segment - 5 < unat segmentLen) (LengthErr 2)
       (slice_of segment 5 (5 + unat segmentLen))))))))"

definition ja3_Compute :: "bytes \<Rightarrow> client_hello result option" where
  "ja3_Compute payload =
     (case parse_record payload of Inl e \<Rightarrow> Some (Inl e) | Inr hs \<Rightarrow> parseHandshake hs)"

end
