(* ===== verification/Sniffers.thy ===== *)
theory Sniffers
  imports Sniff JA3
begin

text \<open>
  The sniffers of single protocols, \<^verbatim>\<open>common/sniff/*.go\<close> and \<^verbatim>\<open>common/sniff/internal/qtls\<close>. A packet is
  a byte list; a stream is the list of the buffers behind the reader, since a single read of a
  \<^verbatim>\<open>MultiReader\<close> does not go beyond one buffer. \<open>sniff_lib\<close> holds what other packages do: the
  handshake of \<^verbatim>\<open>crypto/tls\<close> (the server name of the client hello if it got that far, and its
  error), HTTP requests, the text of a host, DNS messages (response flag and section sizes), and
  the cryptography.
\<close>

record sniff_lib =
  sl_ClientHello :: "bytes \<Rightarrow> string option \<times> error"
  sl_ReadRequest :: "bytes \<Rightarrow> string result"
  sl_HostString :: "string \<Rightarrow> string"
  sl_Unpack :: "bytes \<Rightarrow> (bool \<times> nat \<times> nat \<times> nat) result"
  sl_hkdf_Extract :: "bytes \<Rightarrow> bytes \<Rightarrow> bytes"
  sl_hkdf_Expand :: "bytes \<Rightarrow> bytes \<Rightarrow> nat \<Rightarrow> bytes"
  sl_AES_Encrypt :: "bytes \<Rightarrow> bytes \<Rightarrow> bytes"
  sl_GCM_Open :: "bytes \<Rightarrow> bytes \<Rightarrow> bytes \<Rightarrow> bytes \<Rightarrow> bytes result"

definition ProtocolTLS :: string where "ProtocolTLS = ''tls''"
definition ProtocolHTTP :: string where "ProtocolHTTP = ''http''"
definition ProtocolQUIC :: string where "ProtocolQUIC = ''quic''"
definition ProtocolDNS :: string where "ProtocolDNS = ''dns''"
definition ProtocolSTUN :: string where "ProtocolSTUN = ''stun''"
definition ProtocolBitTorrent :: string where "ProtocolBitTorrent = ''bittorrent''"
definition ProtocolDTLS :: string where "ProtocolDTLS = ''dtls''"
definition ProtocolSSH :: string where "ProtocolSSH = ''ssh''"
definition ProtocolRDP :: string where "ProtocolRDP = ''rdp''"
definition ProtocolNTP :: string where "ProtocolNTP = ''ntp''"

lemmas protocol_names = ProtocolTLS_def ProtocolHTTP_def ProtocolQUIC_def ProtocolDNS_def ProtocolSTUN_def
  ProtocolBitTorrent_def ProtocolDTLS_def ProtocolSSH_def ProtocolRDP_def ProtocolNTP_def

definition ClientChromium :: string where "ClientChromium = ''chromium''"
definition ClientSafari :: string where "ClientSafari = ''safari''"
definition ClientFirefox :: string where "ClientFirefox = ''firefox''"
definition ClientQUICGo :: string where "ClientQUICGo = ''quic-go''"
definition ClientUnknown :: string where "ClientUnknown = ''unknown''"

type_synonym sniffed = "inbound_context \<times> error option"

text \<open>\<^verbatim>\<open>E.Cause1(ErrNeedMoreData, err)\<close>\<close>

definition need_more :: "error \<Rightarrow> error" where
  "need_more e = EOf ErrNeedMoreData e"

text \<open>\<^verbatim>\<open>errors.Is(err, io.ErrUnexpectedEOF)\<close>\<close>

fun is_UnexpectedEOF :: "error \<Rightarrow> bool" where
  "is_UnexpectedEOF (ENew m) = (ENew m = ErrUnexpectedEOF)"
| "is_UnexpectedEOF (ECause e m) = is_UnexpectedEOF e"
| "is_UnexpectedEOF (EExtend e m) = is_UnexpectedEOF e"
| "is_UnexpectedEOF (EOf e f) = (is_UnexpectedEOF e \<or> is_UnexpectedEOF f)"
| "is_UnexpectedEOF _ = False"

text \<open>The checks of a sniffer, then the metadata it writes.\<close>

definition verdict_of :: "'a result \<Rightarrow> ('a \<Rightarrow> inbound_context \<Rightarrow> inbound_context) \<Rightarrow> inbound_context \<Rightarrow> sniffed" where
  "verdict_of r put c = (case r of Inl e \<Rightarrow> (c, Some e) | Inr x \<Rightarrow> (put x c, None))"

definition Read_uint16 :: "u16 reader" where
  "Read_uint16 bs = bind_r (ReadFull 2 bs) (\<lambda>(x, rest). Inr (word_of_nat (be_value x), rest))"

definition Read_uint32 :: "u32 reader" where
  "Read_uint32 bs = bind_r (ReadFull 4 bs) (\<lambda>(x, rest). Inr (word_of_nat (be_value x), rest))"

section \<open>Streams\<close>

subsection \<open>TLS and HTTP\<close>

definition sniff_TLSClientHello :: "sniff_lib \<Rightarrow> inbound_context \<Rightarrow> bytes list \<Rightarrow> sniffed" where
  "sniff_TLSClientHello S c reader =
     (case sl_ClientHello S (concat reader) of
        (Some serverName, err) \<Rightarrow> (c\<lparr>mc_Protocol := ProtocolTLS, mc_Domain := serverName\<rparr>, None)
      | (None, err) \<Rightarrow> (c, Some (if is_UnexpectedEOF err then need_more err else err)))"

definition sniff_HTTPHost :: "sniff_lib \<Rightarrow> inbound_context \<Rightarrow> bytes list \<Rightarrow> sniffed" where
  "sniff_HTTPHost S c reader =
     (case sl_ReadRequest S (concat reader) of
        Inl err \<Rightarrow> (c, Some (if is_UnexpectedEOF err then need_more err else err))
      | Inr host \<Rightarrow> (c\<lparr>mc_Protocol := ProtocolHTTP, mc_Domain := sl_HostString S host\<rparr>, None))"

subsection \<open>DNS\<close>

definition sniff_DomainNameQuery :: "sniff_lib \<Rightarrow> inbound_context \<Rightarrow> bytes \<Rightarrow> sniffed" where
  "sniff_DomainNameQuery S c packet =
     (case sl_Unpack S packet of
        Inl err \<Rightarrow> (c, Some err)
      | Inr (response, question, answer, ns) \<Rightarrow>
          if response \<or> question = 0 \<or> answer > 0 \<or> ns > 0 then (c, None)
          else (c\<lparr>mc_Protocol := ProtocolDNS\<rparr>, None))"

text \<open>The checks on the bytes that have arrived, before it matters whether all have.\<close>

definition dns_header_bad :: "bytes \<Rightarrow> bool" where
  "dns_header_bad packet \<longleftrightarrow>
     (length packet > 2 \<and> and (packet ! 2) 0x80 \<noteq> 0) \<or>
     (length packet > 5 \<and> packet ! 4 = 0 \<and> packet ! 5 = 0) \<or>
     list_ex (\<lambda>i. length packet > i \<and> packet ! i \<noteq> 0) [6..<10]"

definition sniff_StreamDomainNameQuery :: "sniff_lib \<Rightarrow> inbound_context \<Rightarrow> bytes list \<Rightarrow> sniffed" where
  "sniff_StreamDomainNameQuery S c reader =
     (case Read_uint16 (concat reader) of
        Inl err \<Rightarrow> (c, Some (need_more err))
      | Inr (len, rest) \<Rightarrow>
          if len < 12 then (c, Some ErrInvalid)
          else if dns_header_bad (take (unat len) rest) then (c, Some ErrInvalid)
          else (case ReadFull (unat len) rest of
                  Inl err \<Rightarrow> (c, Some (need_more err))
                | Inr (packet, _) \<Rightarrow> sniff_DomainNameQuery S c packet))"

subsection \<open>BitTorrent\<close>

text \<open>\<^verbatim>\<open>Read\<close> of a \<^verbatim>\<open>MultiReader\<close>: what the first buffer that is not used up gives.\<close>

fun read_once :: "nat \<Rightarrow> bytes list \<Rightarrow> bytes result" where
  "read_once n [] = Inl EOF"
| "read_once n (b # bs) = (if b = [] then read_once n bs else Inr (take n b))"

fun drop_bytes :: "nat \<Rightarrow> bytes list \<Rightarrow> bytes list" where
  "drop_bytes n [] = []"
| "drop_bytes n (b # bs) = (if n < length b then drop n b # bs else drop_bytes (n - length b) bs)"

definition bytes_of :: "string \<Rightarrow> bytes" where
  "bytes_of s = map (\<lambda>c. word_of_nat (of_char c)) s"

definition sniff_BitTorrent :: "inbound_context \<Rightarrow> bytes list \<Rightarrow> sniffed" where
  "sniff_BitTorrent c reader =
     (case ReadByte (concat reader) of
        Inl err \<Rightarrow> (c, Some (need_more err))
      | Inr (first, _) \<Rightarrow>
          if first \<noteq> 19 then (c, Some ErrInvalid)
          else
            (let header = bytes_of ''BitTorrent protocol'' in
             case read_once 19 (drop_bytes 1 reader) of
               Inl err \<Rightarrow> (c, Some (need_more err))
             | Inr protocol \<Rightarrow>
                 if protocol \<noteq> take (length protocol) header then (c, Some ErrInvalid)
                 else if length protocol < 19 then (c, Some ErrNeedMoreData)
                 else (c\<lparr>mc_Protocol := ProtocolBitTorrent\<rparr>, None)))"

subsection \<open>SSH\<close>

text \<open>\<^verbatim>\<open>bufio.Reader.ReadLine\<close> on a reader with a buffer of 4096 bytes.\<close>

definition strip_cr :: "bytes \<Rightarrow> bytes" where
  "strip_cr l = (if l \<noteq> [] \<and> List.last l = 13 then butlast l else l)"

definition ReadLine :: "bytes \<Rightarrow> bytes result" where
  "ReadLine bs =
     (let window = take 4096 bs; line = takeWhile (\<lambda>b. b \<noteq> 10) window
      in if length line < length window then Inr (strip_cr line)
         else if length bs \<ge> 4096 then Inr (strip_cr window)
         else if bs = [] then Inl EOF else Inr bs)"

definition sniff_SSH :: "inbound_context \<Rightarrow> bytes list \<Rightarrow> sniffed" where
  "sniff_SSH c reader =
     (let sshPrefix = bytes_of ''SSH-2.0-''; bs = concat reader; prefix = take 8 bs in
      if prefix \<noteq> take (length prefix) sshPrefix then (c, Some ErrInvalid)
      else if length prefix < 8 then (c, Some (need_more EOF))
      else verdict_of (bind_r (ReadLine bs) (\<lambda>line. slice_from line 8))
             (\<lambda>client c. c\<lparr>mc_Protocol := ProtocolSSH, mc_Client := string_of_bytes client\<rparr>) c)"

subsection \<open>RDP\<close>

definition rdp_expect :: "'a::len word reader \<Rightarrow> 'a word \<Rightarrow> bytes reader" where
  "rdp_expect p v bs =
     (case p bs of
        Inl err \<Rightarrow> Inl (need_more err)
      | Inr (x, rest) \<Rightarrow> if x = v then Inr ([], rest) else Inl ErrInvalid)"

definition rdp_skip :: "nat \<Rightarrow> bytes reader" where
  "rdp_skip n bs = (case ReadFull n bs of Inl err \<Rightarrow> Inl (need_more err) | Inr x \<Rightarrow> Inr x)"

text \<open>Version, reserved byte and length of the packet, length and type of the connection request, five
  bytes, then type, flags and length of the negotiation request.\<close>

definition rdp_steps :: "bytes reader list" where
  "rdp_steps = [rdp_expect ReadByte 0x03, rdp_expect ReadByte 0x00, rdp_expect Read_uint16 19, rdp_expect ReadByte 14,
     rdp_expect ReadByte 0xE0, rdp_skip 5, rdp_expect ReadByte 0x01, rdp_skip 1, rdp_expect ReadByte 8]"

definition sniff_RDP :: "inbound_context \<Rightarrow> bytes list \<Rightarrow> sniffed" where
  "sniff_RDP c reader =
     verdict_of (run_steps (map (\<lambda>p bs. bind_r (p bs) (\<lambda>(_, rest). Inr rest)) rdp_steps) (concat reader))
       (\<lambda>_ c. c\<lparr>mc_Protocol := ProtocolRDP\<rparr>) c"

section \<open>Packets\<close>

definition sniff_UDPTracker :: "inbound_context \<Rightarrow> bytes \<Rightarrow> sniffed" where
  "sniff_UDPTracker c packet =
     (if length packet < 16 then (c, Some ErrInvalid)
      else if be_value (take 8 packet) \<noteq> 0x41727101980 then (c, Some ErrInvalid)
      else if be_value (take 4 (drop 8 packet)) \<noteq> 0 then (c, Some ErrInvalid)
      else (c\<lparr>mc_Protocol := ProtocolBitTorrent\<rparr>, None))"

text \<open>The extensions of a uTP packet: type of the next one, length, and as many bytes, which may be missing.\<close>

fun utp_extensions :: "u8 \<Rightarrow> bytes \<Rightarrow> unit result" where
  "utp_extensions extension bs =
     (if extension = 0 then Inr ()
      else (case bs of
              [] \<Rightarrow> Inl EOF
            | ext # bs1 \<Rightarrow>
                if ext > 0x04 then Inl ErrInvalid
                else (case bs1 of [] \<Rightarrow> Inl EOF | len # bs2 \<Rightarrow> utp_extensions ext (drop (unat len) bs2))))"

declare utp_extensions.simps [simp del]

definition sniff_UTP :: "inbound_context \<Rightarrow> bytes \<Rightarrow> sniffed" where
  "sniff_UTP c packet =
     verdict_of
       (fail_when (length packet < 20) ErrInvalid
          (bind_r (byte_at packet 0) (\<lambda>b0. bind_r (byte_at packet 1) (\<lambda>extension.
             fail_when (and b0 0x0F \<noteq> 1 \<or> drop_bit 4 b0 > 4) ErrInvalid
               (bind_r (slice_from packet 20) (utp_extensions extension))))))
       (\<lambda>_ c. c\<lparr>mc_Protocol := ProtocolBitTorrent\<rparr>) c"

definition sniff_DTLSRecord :: "inbound_context \<Rightarrow> bytes \<Rightarrow> sniffed" where
  "sniff_DTLSRecord c packet =
     verdict_of
       (fail_when (length packet < 13) ErrInvalid
          (bind_r (byte_at packet 0) (\<lambda>contentType. fail_when (contentType \<notin> {20, 21, 22, 23, 25}) ErrInvalid
          (bind_r (byte_at packet 1) (\<lambda>versionMajor. fail_when (versionMajor \<noteq> 0xfe) ErrInvalid
          (bind_r (byte_at packet 2) (\<lambda>versionMinor. fail_when (versionMinor \<noteq> 0xff \<and> versionMinor \<noteq> 0xfd) ErrInvalid (Inr ()))))))))
       (\<lambda>_ c. c\<lparr>mc_Protocol := ProtocolDTLS\<rparr>) c"

definition uint32_of :: "bytes \<Rightarrow> nat \<Rightarrow> nat result" where
  "uint32_of bs i = bind_r (slice_of bs i (i + 4)) (\<lambda>x. Inr (be_value x))"

text \<open>Seconds are compared as the source does, up to the common factor of 65536: the division of a
  \<^verbatim>\<open>float64\<close> by a power of two is exact.\<close>

definition sniff_NTP :: "inbound_context \<Rightarrow> bytes \<Rightarrow> sniffed" where
  "sniff_NTP c packet =
     verdict_of
       (fail_when (length packet < 48) ErrInvalid
          (bind_r (byte_at packet 0) (\<lambda>firstByte.
             let li = and (drop_bit 6 firstByte) 0x03; vn = and (drop_bit 3 firstByte) 0x07; mode = and firstByte 0x07 in
             fail_when (li > 3) ErrInvalid (fail_when (vn \<noteq> 3 \<and> vn \<noteq> 4) ErrInvalid (fail_when (mode \<noteq> 3) ErrInvalid
               (bind_r (uint32_of packet 4) (\<lambda>rootDelay. bind_r (uint32_of packet 8) (\<lambda>rootDispersion.
                  fail_when (rootDelay > 16 * 65536) ErrInvalid (fail_when (rootDispersion > 16 * 65536) ErrInvalid (Inr ()))))))))))
       (\<lambda>_ c. c\<lparr>mc_Protocol := ProtocolNTP\<rparr>) c"

definition sniff_STUNMessage :: "inbound_context \<Rightarrow> bytes \<Rightarrow> sniffed" where
  "sniff_STUNMessage c packet =
     verdict_of
       (fail_when (length packet < 20) ErrInvalid
          (bind_r (uint32_of packet 4) (\<lambda>cookie. fail_when (cookie \<noteq> 0x2112A442) ErrInvalid
          (bind_r (uint16_at packet 2) (\<lambda>len. fail_when (length packet < 20 + unat len) ErrInvalid (Inr ()))))))
       (\<lambda>_ c. c\<lparr>mc_Protocol := ProtocolSTUN\<rparr>) c"

section \<open>QUIC\<close>

subsection \<open>qtls\<close>

definition VersionDraft29 :: u32 where "VersionDraft29 = 0xff00001d"
definition Version1 :: u32 where "Version1 = 0x1"
definition Version2 :: u32 where "Version2 = 0x6b3343cf"

definition SaltOld :: bytes where
  "SaltOld = [0xaf, 0xbf, 0xec, 0x28, 0x99, 0x93, 0xd2, 0x4c, 0x9e, 0x97, 0x86, 0xf1, 0x9c, 0x61, 0x11, 0xe0, 0x43, 0x90, 0xa8, 0x99]"
definition SaltV1 :: bytes where
  "SaltV1 = [0x38, 0x76, 0x2c, 0xf7, 0xf5, 0x59, 0x34, 0xb3, 0x4d, 0x17, 0x9a, 0xe6, 0xa4, 0xc8, 0x0c, 0xad, 0xcc, 0xbb, 0x7f, 0x0a]"
definition SaltV2 :: bytes where
  "SaltV2 = [0x0d, 0xed, 0xe3, 0xde, 0xf7, 0x00, 0xa6, 0xdb, 0x81, 0x93, 0x81, 0xbe, 0x6e, 0x26, 0x9d, 0xcb, 0xf9, 0xbd, 0x2e, 0xd9]"

definition HKDFExpandLabel :: "sniff_lib \<Rightarrow> bytes \<Rightarrow> bytes \<Rightarrow> string \<Rightarrow> nat \<Rightarrow> bytes result" where
  "HKDFExpandLabel S secret context label len =
     (let info = be_bytes 2 len @ word_of_nat (6 + length label) # bytes_of ''tls13 '' @ bytes_of label @
                 word_of_nat (length context) # context;
          out = sl_hkdf_Expand S secret info len
      in if length out \<noteq> len then Inl (EPanic ''quic: HKDF-Expand-Label invocation failed unexpectedly'') else Inr out)"

text \<open>\<^verbatim>\<open>AEADAESGCMTLS13(key, nonceMask)\<close> and its \<^verbatim>\<open>Open\<close>, which xors the number into the mask.\<close>

definition xorNonceAEAD_Open :: "sniff_lib \<Rightarrow> bytes \<Rightarrow> bytes \<Rightarrow> bytes \<Rightarrow> bytes \<Rightarrow> bytes \<Rightarrow> bytes result" where
  "xorNonceAEAD_Open S key nonceMask nonce ciphertext additionalData =
     (if length nonceMask \<noteq> 12 then Inl (EPanic ''tls: internal error: wrong nonce length'')
      else sl_GCM_Open S key (take 4 nonceMask @ map2 xor (drop 4 nonceMask) nonce) ciphertext additionalData)"

definition qtls_ReadUvarint :: "u64 reader" where
  "qtls_ReadUvarint bs =
     bind_r (ReadByte bs) (\<lambda>(firstByte, rest).
       let len = 2 ^ unat (drop_bit 6 firstByte); b1 = and firstByte 0x3f in
       if length rest < len - 1 then Inl EOF
       else Inr (word_of_nat (be_value (b1 # take (len - 1) rest)), drop (len - 1) rest))"

subsection \<open>Header\<close>

record quic_header =
  qh_version :: u32
  qh_destConnID :: bytes
  qh_hdrLen :: nat
  qh_packetLen :: u64
  qh_pnBytes :: bytes

text \<open>\<^verbatim>\<open>io.CopyN(io.Discard, reader, n)\<close>\<close>

definition Discard :: "nat \<Rightarrow> bytes \<Rightarrow> bytes result" where
  "Discard n bs = (if n \<le> length bs then Inr (drop n bs) else Inl EOF)"

definition read_quic_header :: "bytes \<Rightarrow> quic_header result" where
  "read_quic_header packet =
     bind_r (ReadByte packet) (\<lambda>(typeByte, r1). fail_when (and typeByte 0x40 = 0) (ENew ''bad type byte'')
     (bind_r (Read_uint32 r1) (\<lambda>(version, r2).
        fail_when (version \<noteq> VersionDraft29 \<and> version \<noteq> Version1 \<and> version \<noteq> Version2) (ENew ''bad version'')
     (let packetType = drop_bit 4 (and typeByte 0x30) in
        fail_when (packetType = 0 \<and> version = Version2 \<or> packetType = 2 \<and> version \<noteq> Version2 \<or> packetType > 2)
          (ENew ''bad packet type'')
     (bind_r (ReadByte r2) (\<lambda>(destConnIDLen, r3).
        fail_when (destConnIDLen = 0 \<or> destConnIDLen > 20) (ENew ''bad destination connection id length'')
     (bind_r (ReadFull (unat destConnIDLen) r3) (\<lambda>(destConnID, r4).
      bind_r (ReadByte r4) (\<lambda>(srcConnIDLen, r5).
      bind_r (Discard (unat srcConnIDLen) r5) (\<lambda>r6.
      bind_r (qtls_ReadUvarint r6) (\<lambda>(tokenLen, r7).
      bind_r (Discard (unat tokenLen) r7) (\<lambda>r8.
      bind_r (qtls_ReadUvarint r8) (\<lambda>(packetLen, r9).
        let hdrLen = length packet - length r9 in
        fail_when (hdrLen + unat packetLen > length packet) ErrInvalid
     (bind_r (Discard 4 r9) (\<lambda>r10.
      bind_r (ReadFull 16 r10) (\<lambda>(pnBytes, _).
        Inr \<lparr>qh_version = version, qh_destConnID = destConnID, qh_hdrLen = hdrLen, qh_packetLen = packetLen,
             qh_pnBytes = pnBytes\<rparr>))))))))))))))))"

subsection \<open>Decryption\<close>

definition quic_salt :: "u32 \<Rightarrow> bytes" where
  "quic_salt version = (if version = Version1 then SaltV1 else if version = Version2 then SaltV2 else SaltOld)"

definition quic_label :: "u32 \<Rightarrow> string \<Rightarrow> string" where
  "quic_label version name = (if version = Version2 then ''quicv2 '' else ''quic '') @ name"

text \<open>The header protection removed: the first byte and the four bytes after the header.\<close>

definition unmask :: "bytes \<Rightarrow> bytes \<Rightarrow> nat \<Rightarrow> bytes" where
  "unmask hpMask packet hdrLen =
     map (\<lambda>i. if i = 0 then xor (packet ! 0) (and (hpMask ! 0) 0xf)
              else if hdrLen \<le> i \<and> i < hdrLen + 4 then xor (packet ! i) (hpMask ! (i - hdrLen + 1))
              else packet ! i) [0..<length packet]"

text \<open>The decrypted bytes, and the bytes behind them in the buffer they share.\<close>

definition quic_decrypt :: "sniff_lib \<Rightarrow> bytes \<Rightarrow> quic_header \<Rightarrow> (bytes \<times> bytes) result" where
  "quic_decrypt S packet h =
     (let version = qh_version h; hdrLen = qh_hdrLen h; packetLen = unat (qh_packetLen h);
          initialSecret = sl_hkdf_Extract S (qh_destConnID h) (quic_salt version) in
      bind_r (HKDFExpandLabel S initialSecret [] ''client in'' 32) (\<lambda>secret.
      bind_r (HKDFExpandLabel S secret [] (quic_label version ''hp'') 16) (\<lambda>hpKey.
      let hpMask = take 16 (sl_AES_Encrypt S hpKey (qh_pnBytes h) @ replicate 16 0);
          unmasked = unmask hpMask packet hdrLen in
      bind_r (byte_at unmasked 0) (\<lambda>b0.
      bind_r (slice_of unmasked hdrLen (hdrLen + 4)) (\<lambda>_.
      let packetNumberLength = unat (and b0 0x3) + 1 in
      fail_when (hdrLen + packetNumberLength > packetLen + hdrLen) ErrInvalid
     (let extHdrLen = hdrLen + packetNumberLength in
      bind_r (slice_of unmasked hdrLen extHdrLen) (\<lambda>number.
      bind_r (slice_of unmasked extHdrLen (hdrLen + 4)) (\<lambda>behindNumber.
      let packetNumber = be_value number;
          newPacket = take extHdrLen unmasked @ take (length behindNumber) (drop extHdrLen packet) @ drop (hdrLen + 4) unmasked in
      bind_r (slice_of newPacket extHdrLen (packetLen + hdrLen)) (\<lambda>ciphertext.
      bind_r (HKDFExpandLabel S secret [] (quic_label version ''key'') 16) (\<lambda>key.
      bind_r (HKDFExpandLabel S secret [] (quic_label version ''iv'') 12) (\<lambda>iv.
      bind_r (xorNonceAEAD_Open S key iv (be_bytes 8 packetNumber) ciphertext (take extHdrLen newPacket)) (\<lambda>decrypted.
        Inr (decrypted, drop (extHdrLen + length decrypted) newPacket)))))))))))))"

subsection \<open>Frames\<close>

fun skip_uvarints :: "nat \<Rightarrow> bytes \<Rightarrow> bytes result" where
  "skip_uvarints 0 bs = Inr bs"
| "skip_uvarints (Suc n) bs = bind_r (qtls_ReadUvarint bs) (\<lambda>(_, rest). skip_uvarints n rest)"

text \<open>
  One frame after its type. \<open>buffer\<close> is the memory from the start of the decrypted bytes to the end of
  the packet, \<open>len\<close> the number of decrypted bytes: a slice may go beyond them, but not beyond the memory.
\<close>

definition quic_frame :: "bytes \<Rightarrow> nat \<Rightarrow> u8 \<Rightarrow> bytes \<Rightarrow> (qCryptoFragment option \<times> bytes) result" where
  "quic_frame buffer len frameType bs =
     (if frameType = 0x00 \<or> frameType = 0x01 then Inr (None, bs)
      else if frameType = 0x02 \<or> frameType = 0x03 then
        bind_r (skip_uvarints 2 bs) (\<lambda>r1.
        bind_r (qtls_ReadUvarint r1) (\<lambda>(ackRangeCount, r2).
        bind_r (skip_uvarints 1 r2) (\<lambda>r3.
        bind_r (skip_uvarints (2 * unat ackRangeCount) r3) (\<lambda>r4.
        bind_r (if frameType = 0x03 then skip_uvarints 3 r4 else Inr r4) (\<lambda>r5. Inr (None, r5))))))
      else if frameType = 0x06 then
        bind_r (qtls_ReadUvarint bs) (\<lambda>(offset, r1).
        bind_r (qtls_ReadUvarint r1) (\<lambda>(length1, r2).
          let index = len - length r2 in
          bind_r (slice_of buffer index (index + unat length1)) (\<lambda>payload.
            Inr (Some \<lparr>qf_offset = offset, qf_length = length1, qf_payload = payload\<rparr>, drop (unat length1) r2))))
      else if frameType = 0x1c then
        bind_r (skip_uvarints 2 bs) (\<lambda>r1.
        bind_r (qtls_ReadUvarint r1) (\<lambda>(length1, r2). Inr (None, drop (unat length1) r2)))
      else Inl ErrInvalid)"

lemma qtls_ReadUvarint_shorter: "qtls_ReadUvarint bs = Inr (x, rest) \<Longrightarrow> length rest < length bs"
  by (cases bs) (auto simp: qtls_ReadUvarint_def Let_def split: if_splits)

lemma skip_uvarints_shorter: "skip_uvarints n bs = Inr rest \<Longrightarrow> length rest \<le> length bs"
  by (induction n arbitrary: bs) (fastforce dest: qtls_ReadUvarint_shorter)+

lemma quic_frame_shorter: "quic_frame buffer len ty bs = Inr (f, rest) \<Longrightarrow> length rest \<le> length bs"
  by (fastforce simp: quic_frame_def Let_def split: if_splits dest: qtls_ReadUvarint_shorter skip_uvarints_shorter)

function quic_frames :: "bytes \<Rightarrow> nat \<Rightarrow> bytes \<Rightarrow> (bytes \<times> qCryptoFragment list) result" where
  "quic_frames buffer len bs =
     (case bs of
        [] \<Rightarrow> Inr ([], [])
      | frameType # r1 \<Rightarrow>
          (case quic_frame buffer len frameType r1 of
             Inl e \<Rightarrow> Inl e
           | Inr (f, r2) \<Rightarrow>
               bind_r (quic_frames buffer len r2) (\<lambda>(types, fragments).
                 Inr (frameType # types, (case f of None \<Rightarrow> fragments | Some x \<Rightarrow> x # fragments)))))"
  by pat_completeness auto
termination
  by (relation "measure (\<lambda>(buffer, len, bs). length bs)") (auto dest!: quic_frame_shorter)

declare quic_frames.simps [simp del]

subsection \<open>Reassembly\<close>

text \<open>
  The loop \<^verbatim>\<open>find\<close>: the first fragment at the index is written, the index moves behind it. It may not
  end, which is \<open>None\<close>. The buffer takes \<open>room\<close> bytes; what does not fit is lost.
\<close>

partial_function (option) assemble :: "qCryptoFragment list \<Rightarrow> nat \<Rightarrow> u64 \<Rightarrow> bytes \<Rightarrow> bytes option" where
  "assemble fragments room index buffer =
     (case find (\<lambda>f. qf_offset f = index) fragments of
        None \<Rightarrow> Some buffer
      | Some f \<Rightarrow> assemble fragments room (qf_offset f + qf_length f) (take room (buffer @ qf_payload f)))"

definition handshake_record :: "qCryptoFragment list \<Rightarrow> bytes option" where
  "handshake_record fragments =
     (let frameLen = sum_list (map qf_length fragments);
          header = 0x16 # be_bytes 2 0x0303 @ be_bytes 2 (unat (ucast frameLen :: u16))
      in assemble fragments (5 + unat frameLen) 0 header)"

subsection \<open>The client\<close>

definition isZero :: "bytes \<Rightarrow> bool" where
  "isZero slices \<longleftrightarrow> list_all (\<lambda>b. b = 0) slices"

definition count_byte :: "bytes \<Rightarrow> u8 \<Rightarrow> nat" where
  "count_byte slices value = length (filter (\<lambda>b. b = value) slices)"

definition x25519Kyber768Draft00 :: u16 where "x25519Kyber768Draft00 = 0x11EC"
definition extensionRenegotiationInfo :: u16 where "extensionRenegotiationInfo = 0xFF01"

definition isQUICGo :: "client_hello \<Rightarrow> bool" where
  "isQUICGo fingerprint \<longleftrightarrow>
     x25519Kyber768Draft00 \<in> set (ch_EllipticCurves fingerprint) \<or> extensionRenegotiationInfo \<in> set (ch_Extensions fingerprint)"

definition is_grease :: "u16 \<Rightarrow> bool" where
  "is_grease v \<longleftrightarrow> and v GreaseBitmask = 0x0A0A"

definition looks_safari :: "client_hello \<Rightarrow> bool" where
  "looks_safari fp \<longleftrightarrow>
     (length (ch_Versions fp) = 2 \<and> is_grease (ch_Versions fp ! 0) \<and>
      length (ch_EllipticCurves fp) = 5 \<and> is_grease (ch_EllipticCurves fp ! 0)) \<or>
     (ch_CipherSuites fp = [0x1302] \<and> ch_EllipticCurves fp = [29] \<and> ch_SignatureAlgorithms fp = [0x0403])"

definition quic_client :: "bytes \<Rightarrow> client_hello \<Rightarrow> string result" where
  "quic_client types fp =
     (if length types = 1 then Inr ClientFirefox
      else if types = [] then Inl out_of_range
      else if hd types = 0x06 \<and> isZero (tl types) \<and> looks_safari fp then Inr ClientSafari
      else if List.last types = 0x06 \<and> isZero (butlast types) then Inr ClientQUICGo
      else if count_byte types 0x06 > 1 \<or> count_byte types 0x01 > 0
        then Inr (if isQUICGo fp then ClientQUICGo else ClientChromium)
      else Inr ClientUnknown)"

subsection \<open>The sniffer\<close>

text \<open>What is left once the frames are there: \<open>None\<close> when the reassembly does not end.\<close>

definition quic_finish :: "bytes \<Rightarrow> qCryptoFragment list \<Rightarrow> inbound_context \<Rightarrow> sniffed option" where
  "quic_finish types new c =
     (let fragments = new @ (case mc_SniffContext c of None \<Rightarrow> [] | Some fs \<Rightarrow> fs);
          c1 = c\<lparr>mc_SniffContext := None\<rparr> in
      case handshake_record fragments of
        None \<Rightarrow> None
      | Some payload \<Rightarrow>
          (let c2 = c1\<lparr>mc_Protocol := ProtocolQUIC\<rparr> in
           case ja3_Compute payload of
             None \<Rightarrow> None
           | Some (Inl err) \<Rightarrow>
               if is_panic err then Some (c2, Some err)
               else Some (c2\<lparr>mc_SniffContext := Some fragments\<rparr>, Some (need_more err))
           | Some (Inr fp) \<Rightarrow>
               (let c3 = c2\<lparr>mc_Domain := ch_ServerName fp\<rparr> in
                if mc_Client c3 \<noteq> [] then Some (c3, None)
                else Some (verdict_of (quic_client types fp) (\<lambda>client c. c\<lparr>mc_Client := client\<rparr>) c3))))"

definition sniff_QUICClientHello :: "sniff_lib \<Rightarrow> inbound_context \<Rightarrow> bytes \<Rightarrow> sniffed option" where
  "sniff_QUICClientHello S c packet =
     (case bind_r (read_quic_header packet) (\<lambda>h. bind_r (quic_decrypt S packet h) (\<lambda>(decrypted, behind).
             quic_frames (decrypted @ behind) (length decrypted) decrypted)) of
        Inl e \<Rightarrow> Some (c, Some e)
      | Inr (types, fragments) \<Rightarrow> quic_finish types fragments c)"

section \<open>All sniffers\<close>

fun run_stream_sniffer :: "sniff_lib \<Rightarrow> stream_sniffer \<Rightarrow> inbound_context \<Rightarrow> bytes list \<Rightarrow> sniffed" where
  "run_stream_sniffer S TLSClientHello c reader = sniff_TLSClientHello S c reader"
| "run_stream_sniffer S HTTPHost c reader = sniff_HTTPHost S c reader"
| "run_stream_sniffer S StreamDomainNameQuery c reader = sniff_StreamDomainNameQuery S c reader"
| "run_stream_sniffer S BitTorrent c reader = sniff_BitTorrent c reader"
| "run_stream_sniffer S SSH c reader = sniff_SSH c reader"
| "run_stream_sniffer S RDP c reader = sniff_RDP c reader"

fun run_packet_sniffer :: "sniff_lib \<Rightarrow> packet_sniffer \<Rightarrow> inbound_context \<Rightarrow> bytes \<Rightarrow> sniffed option" where
  "run_packet_sniffer S QUICClientHello c packet = sniff_QUICClientHello S c packet"
| "run_packet_sniffer S DomainNameQuery c packet = Some (sniff_DomainNameQuery S c packet)"
| "run_packet_sniffer S STUNMessage c packet = Some (sniff_STUNMessage c packet)"
| "run_packet_sniffer S UTP c packet = Some (sniff_UTP c packet)"
| "run_packet_sniffer S UDPTracker c packet = Some (sniff_UDPTracker c packet)"
| "run_packet_sniffer S DTLSRecord c packet = Some (sniff_DTLSRecord c packet)"
| "run_packet_sniffer S NTP c packet = Some (sniff_NTP c packet)"

end
