(* ===== verification/JA3_Props.thy ===== *)
theory JA3_Props
  imports JA3
begin

text \<open>
  The parser of client hellos reads back what the TLS format says a client hello is, it ends on
  every input, and where it panics.
\<close>

section \<open>Numbers of several bytes\<close>

lemma be_bytes_2: "be_bytes 2 n = [word_of_nat (n div 256), word_of_nat n]"
  by (simp add: be_bytes_def numeral_2_eq_2)

lemma be_bytes_3: "be_bytes 3 n = [word_of_nat (n div 65536), word_of_nat (n div 256), word_of_nat n]"
  by (simp add: be_bytes_def numeral_3_eq_3 numeral_2_eq_2)

lemma two_bytes: "or (push_bit 8 (ucast (word_of_nat (n div 256) :: u8))) (ucast (word_of_nat n :: u8)) = (word_of_nat n :: u16)"
proof -
  have n: "n div 256 = drop_bit 8 n" by (simp add: drop_bit_eq_div)
  show ?thesis unfolding n by (rule bit_word_eqI) (auto simp: bit_simps)
qed

lemma three_bytes:
  "or (or (push_bit 16 (ucast (word_of_nat (n div 65536) :: u8))) (push_bit 8 (ucast (word_of_nat (n div 256) :: u8))))
     (ucast (word_of_nat n :: u8)) = (word_of_nat (n mod 2 ^ 24) :: u32)"
proof -
  have n: "n div 256 = drop_bit 8 n" "n div 65536 = drop_bit 16 n" "n mod 2 ^ 24 = take_bit 24 n"
    by (simp_all add: drop_bit_eq_div take_bit_eq_mod)
  show ?thesis unfolding n
  proof (rule bit_word_eqI)
    fix k assume "k < LENGTH(32)"
    then show "bit (or (or (push_bit 16 (ucast (word_of_nat (drop_bit 16 n) :: u8))) (push_bit 8 (ucast (word_of_nat (drop_bit 8 n) :: u8))))
        (ucast (word_of_nat n :: u8)) :: u32) k = bit (word_of_nat (take_bit 24 n) :: u32) k"
      by (cases "k < 8"; cases "k < 16"; cases "k < 24") (auto simp: bit_simps)
  qed
qed

lemma unat_double: "2 * n < 2 ^ LENGTH('a) \<Longrightarrow> unat (2 * word_of_nat n :: 'a::len word) = 2 * n"
  by (metis mod_less of_nat_mult of_nat_numeral unat_of_nat)

lemma byte_at_simps [simp]:
  "byte_at (b # bs) 0 = Inr b" "byte_at (b # bs) (Suc i) = byte_at bs i" "byte_at (b # bs) 1 = byte_at bs 0"
  "byte_at (b # bs) (numeral k) = byte_at bs (pred_numeral k)"
  by (simp_all add: byte_at_def numeral_eq_Suc)

lemma slice_from_simps [simp]:
  "slice_from bs 0 = Inr bs" "slice_from (b # bs) (Suc i) = slice_from bs i" "slice_from (b # bs) (numeral k) = slice_from bs (pred_numeral k)"
  "slice_from (b # bs) 1 = Inr bs"
  by (simp_all add: slice_from_def numeral_eq_Suc)

lemma uint16_at_front [simp]: "uint16_at (be_bytes 2 n @ rest) 0 = Inr (word_of_nat n)"
  by (simp add: uint16_at_def be_bytes_2 two_bytes)

lemma skip_number [simp]:
  "2 \<le> i \<Longrightarrow> uint16_at (be_bytes 2 n @ bs) i = uint16_at bs (i - 2)"
  "2 \<le> i \<Longrightarrow> byte_at (be_bytes 2 n @ bs) i = byte_at bs (i - 2)"
  "2 \<le> i \<Longrightarrow> slice_from (be_bytes 2 n @ bs) i = slice_from bs (i - 2)"
  by (auto simp: uint16_at_def byte_at_def slice_from_def nth_append dest!: le_Suc_ex)

lemma uint16_at_skip [simp]:
  "uint16_at (b # bs) (Suc i) = uint16_at bs i" "uint16_at (b # bs) (numeral k) = uint16_at bs (pred_numeral k)" "uint16_at (b # bs) 1 = uint16_at bs 0"
  by (simp_all add: uint16_at_def numeral_eq_Suc)

definition enc16s :: "u16 list \<Rightarrow> bytes" where
  "enc16s ws = concat (map (\<lambda>w. be_bytes 2 (unat w)) ws)"

lemma enc16s_length [simp]: "length (enc16s ws) = 2 * length ws"
  by (induction ws) (simp_all add: enc16s_def)

lemma uint16s_enc: "uint16s (pre @ enc16s ws @ rest) (length pre) (length pre + 2 * length ws) = Inr ws"
proof (induction ws arbitrary: pre)
  case (Cons w ws)
  have "uint16_at (pre @ be_bytes 2 (unat w) @ xs) (length pre) = Inr w" for xs
    using uint16_at_front [of "unat w" xs] by (induction pre) simp_all
  moreover have "uint16s ((pre @ be_bytes 2 (unat w)) @ enc16s ws @ rest) (length (pre @ be_bytes 2 (unat w)))
      (length (pre @ be_bytes 2 (unat w)) + 2 * length ws) = Inr ws"
    by (rule Cons.IH)
  ultimately show ?case by (subst uint16s.simps) (simp add: enc16s_def)
qed (simp add: uint16s.simps)

section \<open>Client hellos\<close>

text \<open>The extensions the parser knows, and any other.\<close>

datatype hello_extension =
    ServerName string
  | SupportedGroups "u16 list"
  | PointFormats bytes
  | SupportedVersions "u16 list"
  | SignatureAlgorithms "u16 list"
  | OtherExtension u16 bytes

fun extension_type :: "hello_extension \<Rightarrow> u16" where
  "extension_type (ServerName _) = 0"
| "extension_type (SupportedGroups _) = 10"
| "extension_type (PointFormats _) = 11"
| "extension_type (SupportedVersions _) = 43"
| "extension_type (SignatureAlgorithms _) = 13"
| "extension_type (OtherExtension t _) = t"

definition bytes_of_string :: "string \<Rightarrow> bytes" where
  "bytes_of_string s = map (\<lambda>c. word_of_nat (of_char c)) s"

lemma string_round_trip [simp]: "string_of_bytes (bytes_of_string s) = s"
  by (simp add: string_of_bytes_def bytes_of_string_def comp_def unat_of_nat)

fun extension_body :: "hello_extension \<Rightarrow> bytes" where
  "extension_body (ServerName s) = be_bytes 2 (length s + 3) @ 0 # be_bytes 2 (length s) @ bytes_of_string s"
| "extension_body (SupportedGroups ws) = be_bytes 2 (2 * length ws) @ enc16s ws"
| "extension_body (PointFormats bs) = word_of_nat (length bs) # bs"
| "extension_body (SupportedVersions ws) = word_of_nat (2 * length ws) # enc16s ws"
| "extension_body (SignatureAlgorithms ws) = be_bytes 2 (2 * length ws) @ enc16s ws"
| "extension_body (OtherExtension _ body) = body"

text \<open>Extensions that fit into the lengths of the format.\<close>

fun extension_ok :: "hello_extension \<Rightarrow> bool" where
  "extension_ok (PointFormats bs) \<longleftrightarrow> length bs < 256"
| "extension_ok (SupportedVersions ws) \<longleftrightarrow> 2 * length ws < 256"
| "extension_ok (OtherExtension t body) \<longleftrightarrow> t \<notin> {0, 10, 11, 43, 13} \<and> length body < 65532"
| "extension_ok e \<longleftrightarrow> length (extension_body e) < 65532"

definition encode_extension :: "hello_extension \<Rightarrow> bytes" where
  "encode_extension e = be_bytes 2 (unat (extension_type e)) @ be_bytes 2 (length (extension_body e)) @ extension_body e"

text \<open>What an extension adds to the parsed object.\<close>

fun absorb_body :: "hello_extension \<Rightarrow> client_hello \<Rightarrow> client_hello" where
  "absorb_body (ServerName s) j = j\<lparr>ch_ServerName := s\<rparr>"
| "absorb_body (SupportedGroups ws) j = j\<lparr>ch_EllipticCurves := ws\<rparr>"
| "absorb_body (PointFormats bs) j = j\<lparr>ch_EllipticCurvePF := bs\<rparr>"
| "absorb_body (SupportedVersions ws) j = j\<lparr>ch_Versions := ch_Versions j @ ws\<rparr>"
| "absorb_body (SignatureAlgorithms ws) j = j\<lparr>ch_SignatureAlgorithms := ch_SignatureAlgorithms j @ ws\<rparr>"
| "absorb_body (OtherExtension _ _) j = j"

definition absorb :: "hello_extension \<Rightarrow> client_hello \<Rightarrow> client_hello" where
  "absorb e j = absorb_body e (j\<lparr>ch_Extensions := ch_Extensions j @ [extension_type e]\<rparr>)"

lemma parse_body_back:
  assumes "extension_ok e"
  shows "parse_body (extension_type e) (extension_body e) j = Inr (absorb_body e j)"
proof (cases e)
  case (ServerName s)
  then show ?thesis using assms
    by (simp add: parse_body_def extension_types parse_sni_def fail_when_def sniNameDNSHostnameType_def
        unat_of_nat bytes_of_string_def [of s, symmetric]) (simp add: bytes_of_string_def)
next
  case (SupportedGroups ws)
  then show ?thesis using assms uint16s_enc [of "[]" ws "[]"]
    by (simp add: parse_body_def extension_types parse_curves_def fail_when_def unat_double)
next
  case (PointFormats bs)
  then show ?thesis using assms
    by (simp add: parse_body_def extension_types parse_point_formats_def fail_when_def unat_of_nat)
next
  case (SupportedVersions ws)
  then show ?thesis using assms uint16s_enc [of "[]" ws "[]"]
    by (simp add: parse_body_def extension_types parse_versions_def fail_when_def unat_double)
next
  case (SignatureAlgorithms ws)
  then show ?thesis using assms uint16s_enc [of "[]" ws "[]"]
    by (simp add: parse_body_def extension_types parse_signature_algorithms_def fail_when_def unat_double)
next
  case (OtherExtension t body)
  then show ?thesis using assms by (auto simp: parse_body_def extension_types)
qed

lemma extension_body_length: "extension_ok e \<Longrightarrow> length (extension_body e) < 65532"
  by (cases e) simp_all

lemma parse_extension_back:
  assumes "extension_ok e"
  shows "parse_extension (encode_extension e @ rest) j = Inr (rest, absorb e j)"
proof -
  let ?n = "length (extension_body e)"
  have n: "?n < 65532" by (rule extension_body_length [OF assms])
  then have "unat (4 + word_of_nat ?n :: u16) = 4 + ?n" "unat (word_of_nat ?n :: u16) = ?n"
    by (simp_all add: unat_word_ariths unat_of_nat)
  moreover have "slice_of (be_bytes 2 x @ be_bytes 2 ?n @ extension_body e @ rest) 4 (4 + ?n) = Inr (extension_body e)"
    and "slice_from (be_bytes 2 x @ be_bytes 2 ?n @ extension_body e @ rest) (4 + ?n) = Inr rest" for x
    by (simp_all add: slice_of_def slice_from_def)
  ultimately show ?thesis using parse_body_back [OF assms]
    by (simp add: parse_extension_def encode_extension_def fail_when_def absorb_def Let_def)
qed

lemma extensions_loop_prefix:
  "list_all extension_ok es \<Longrightarrow> extensions_loop (concat (map encode_extension es) @ rest) j = extensions_loop rest (fold absorb es j)"
proof (induction es arbitrary: j)
  case (Cons e es)
  have "encode_extension e \<noteq> []" by (simp add: encode_extension_def be_bytes_2)
  with Cons show ?case by (subst extensions_loop.simps) (simp add: parse_extension_back)
qed simp

text \<open>A client hello and its encoding in one TLS record; \<open>hello_ok\<close> is about its lengths.\<close>

record hello_message =
  hm_version :: u16
  hm_random :: bytes
  hm_session :: bytes
  hm_suites :: "u16 list"
  hm_compression :: bytes
  hm_extensions :: "hello_extension list"

definition encode_extensions :: "hello_extension list \<Rightarrow> bytes" where
  "encode_extensions es = concat (map encode_extension es)"

definition encode_hello_body :: "hello_message \<Rightarrow> bytes" where
  "encode_hello_body h =
     be_bytes 2 (unat (hm_version h)) @ hm_random h @ word_of_nat (length (hm_session h)) # hm_session h @
     be_bytes 2 (2 * length (hm_suites h)) @ enc16s (hm_suites h) @
     word_of_nat (length (hm_compression h)) # hm_compression h @
     be_bytes 2 (length (encode_extensions (hm_extensions h))) @ encode_extensions (hm_extensions h)"

definition encode_handshake :: "hello_message \<Rightarrow> bytes" where
  "encode_handshake h = 1 # be_bytes 3 (length (encode_hello_body h)) @ encode_hello_body h"

definition encode_record :: "bytes \<Rightarrow> bytes" where
  "encode_record hs = 0x16 # be_bytes 2 0x0303 @ be_bytes 2 (length hs) @ hs"

definition hello_ok :: "hello_message \<Rightarrow> bool" where
  "hello_ok h \<longleftrightarrow> tls_version_ok (hm_version h) \<and> length (hm_random h) = 32 \<and> length (hm_session h) < 256 \<and>
     2 * length (hm_suites h) < 65536 \<and> length (hm_compression h) < 256 \<and> length (encode_handshake h) < 65536"

definition parsed_hello :: "hello_message \<Rightarrow> client_hello" where
  "parsed_hello h = fold absorb (hm_extensions h)
     (zero_client_hello\<lparr>ch_Version := hm_version h, ch_CipherSuites := hm_suites h\<rparr>)"

lemma append_at:
  "length xs \<le> i \<Longrightarrow> byte_at (xs @ ys) i = byte_at ys (i - length xs)"
  "length xs \<le> i \<Longrightarrow> uint16_at (xs @ ys) i = uint16_at ys (i - length xs)"
  "length xs \<le> i \<Longrightarrow> slice_from (xs @ ys) i = slice_from ys (i - length xs)"
  by (auto simp: uint16_at_def byte_at_def slice_from_def nth_append dest!: le_Suc_ex)

lemma hello_start_back:
  assumes "hello_ok h"
  shows "parse_hello_start (encode_handshake h) =
    Inr (be_bytes 2 (length (encode_extensions (hm_extensions h))) @ encode_extensions (hm_extensions h),
      zero_client_hello\<lparr>ch_Version := hm_version h, ch_CipherSuites := hm_suites h\<rparr>)"
proof -
  let ?exs = "be_bytes 2 (length (encode_extensions (hm_extensions h))) @ encode_extensions (hm_extensions h)"
  define k where "k = length (hm_suites h)"
  define cs where "cs = be_bytes 2 (2 * k) @ enc16s (hm_suites h) @ word_of_nat (length (hm_compression h)) # hm_compression h @ ?exs"
  define n where "n = length (encode_hello_body h)"
  define pre where "pre = 1 # be_bytes 3 n @ be_bytes 2 (unat (hm_version h)) @ hm_random h"
  define hs where "hs = encode_handshake h"
  have h: "tls_version_ok (hm_version h)" "length (hm_random h) = 32" "length (hm_session h) < 256" "2 * k < 65536"
      "length (hm_compression h) < 256" "length hs < 65536"
    using assms by (simp_all add: hello_ok_def hs_def k_def)
  have hs: "hs = pre @ word_of_nat (length (hm_session h)) # hm_session h @ cs"
    by (simp add: hs_def encode_handshake_def encode_hello_body_def pre_def cs_def k_def n_def)
  have pre: "length pre = 38" using h(2) by (simp add: pre_def)
  have len: "length hs = 4 + n" by (simp add: hs_def encode_handshake_def n_def)
  have hs_at: "byte_at hs 0 = Inr 1" "uint24_at hs 1 = Inr (word_of_nat n)" "uint16_at hs 4 = Inr (hm_version h)"
      "byte_at hs 38 = Inr (word_of_nat (length (hm_session h)))" "slice_from hs (39 + length (hm_session h)) = Inr cs"
  proof -
    show "byte_at hs 0 = Inr 1" by (simp add: hs pre_def)
    have "n mod 2 ^ 24 = n" using h(6) len by simp
    then show "uint24_at hs 1 = Inr (word_of_nat n)" by (simp add: hs pre_def uint24_at_def be_bytes_3 three_bytes)
    show "uint16_at hs 4 = Inr (hm_version h)" by (simp add: hs pre_def be_bytes_3)
    show "byte_at hs 38 = Inr (word_of_nat (length (hm_session h)))" by (simp add: hs append_at pre)
    show "slice_from hs (39 + length (hm_session h)) = Inr cs" by (simp add: hs slice_from_def pre)
  qed
  have cs_at: "uint16_at cs 0 = Inr (word_of_nat (2 * k))" "byte_at cs (2 + 2 * k) = Inr (word_of_nat (length (hm_compression h)))"
      "slice_from cs (3 + 2 * k + length (hm_compression h)) = Inr ?exs"
      "slice_from cs 2 = Inr (enc16s (hm_suites h) @ word_of_nat (length (hm_compression h)) # hm_compression h @ ?exs)"
    by (simp_all add: cs_def append_at k_def)
  have suites: "uint16s (enc16s (hm_suites h) @ xs) 0 (2 * k) = Inr (hm_suites h)" for xs
    using uint16s_enc [of "[]" "hm_suites h" xs] by (simp add: k_def)
  have "39 + length (hm_session h) \<le> length hs" "3 + 2 * k + length (hm_compression h) \<le> length cs"
    by (simp_all add: hs pre cs_def k_def)
  moreover have "unat (word_of_nat n :: u32) = n" "unat (word_of_nat (length (hm_session h)) :: u8) = length (hm_session h)"
      "unat (word_of_nat (length (hm_compression h)) :: u8) = length (hm_compression h)" "unat (word_of_nat (2 * k) :: u16) = 2 * k"
    using h len by (simp_all add: unat_of_nat unat_double)
  ultimately show ?thesis unfolding hs_def [symmetric] parse_hello_start_def fail_when_def handshakeType_def
    using hs_at cs_at suites h(1) len by (simp add: numeral_3_eq_3 del: of_nat_mult)
qed

lemma handshake_back:
  assumes "hello_ok h"
  shows "parseHandshake (encode_handshake h) = extensions_loop (encode_extensions (hm_extensions h))
    (zero_client_hello\<lparr>ch_Version := hm_version h, ch_CipherSuites := hm_suites h\<rparr>)"
proof -
  let ?exs = "encode_extensions (hm_extensions h)"
  have "length ?exs < 65536" using assms by (simp add: hello_ok_def encode_handshake_def encode_hello_body_def)
  then show ?thesis using assms
    by (simp add: parseHandshake_def hello_start_back parseExtensions_def fail_when_def unat_of_nat)
qed

lemma record_back:
  assumes "length hs < 65536"
  shows "parse_record (encode_record hs @ rest) = Inr hs"
  using assms by (simp add: parse_record_def encode_record_def fail_when_def contentType_def tls_version_ok_def tlsVersionBitmask_def
      slice_of_def unat_of_nat)

lemma hello_back:
  "hello_ok h \<Longrightarrow> ja3_Compute (encode_record (encode_handshake h) @ rest) = extensions_loop (encode_extensions (hm_extensions h))
    (zero_client_hello\<lparr>ch_Version := hm_version h, ch_CipherSuites := hm_suites h\<rparr>)"
  by (simp add: ja3_Compute_def record_back handshake_back hello_ok_def)

lemma hello_parsed:
  "hello_ok h \<Longrightarrow> list_all extension_ok (hm_extensions h) \<Longrightarrow>
   ja3_Compute (encode_record (encode_handshake h) @ rest) = Some (Inr (parsed_hello h))"
  using extensions_loop_prefix [of "hm_extensions h" "[]"]
  by (simp add: hello_back encode_extensions_def parsed_hello_def extensions_loop.simps [of "[]"])

section \<open>The parser ends\<close>

lemma parse_extension_shorter:
  assumes "parse_extension exs j = Inr (exs', j')" and "length exs < 65536"
  shows "length exs' < length exs"
proof -
  obtain exLen :: u16 where l: "4 + unat exLen \<le> length exs" "slice_from exs (unat (4 + exLen)) = Inr exs'"
    using assms(1) by (auto simp: parse_extension_def fail_when_def Let_def not_less split: if_splits)
  have "unat (4 + exLen) = 4 + unat exLen" using l(1) assms(2) by (simp add: unat_word_ariths)
  with l show ?thesis by (auto simp: slice_from_def split: if_splits)
qed

lemma extensions_loop_returns: "length exs < 65536 \<Longrightarrow> \<exists>r. extensions_loop exs j = Some r"
proof (induction "length exs" arbitrary: exs j rule: less_induct)
  case less
  show ?case
  proof (cases "parse_extension exs j")
    case (Inr p)
    with less parse_extension_shorter [of exs j "fst p" "snd p"] show ?thesis
      by (subst extensions_loop.simps) (cases p; auto)
  qed (simp add: extensions_loop.simps)
qed

lemma parse_record_length: "parse_record payload = Inr hs \<Longrightarrow> length hs < 65536"
proof -
  have "unat w < 65536" for w :: u16 using unsigned_less [of w] by simp
  then show "parse_record payload = Inr hs \<Longrightarrow> ?thesis"
    by (auto simp: parse_record_def fail_when_def slice_of_def split: if_splits)
qed

lemma parse_hello_start_length: "parse_hello_start hs = Inr (exs, j) \<Longrightarrow> length exs \<le> length hs"
  by (auto simp: parse_hello_start_def fail_when_def slice_from_def split: if_splits)

lemma ja3_returns: "\<exists>r. ja3_Compute payload = Some r"
proof -
  have "\<exists>r. parseExtensions exs j = Some r" if "length exs < 65536" for exs j
  proof -
    have "\<exists>r. extensions_loop (drop 2 exs) j = Some r" by (rule extensions_loop_returns) (use that in simp)
    then show ?thesis by (auto simp: parseExtensions_def fail_when_def slice_from_def split: sum.split if_splits)
  qed
  then have "\<exists>r. parseHandshake hs = Some r" if "length hs < 65536" for hs
    using that parse_hello_start_length [of hs] by (fastforce simp: parseHandshake_def split: sum.split)
  then show ?thesis using parse_record_length by (auto simp: ja3_Compute_def split: sum.split)
qed

section \<open>Lists that are not there\<close>

lemma versions_panic:
  assumes "n > 0"
  shows "parse_body 43 [n] j = Inl out_of_range"
proof -
  have "uint16s [] 0 (unat n) = Inl out_of_range"
    using assms by (subst uint16s.simps) (simp add: uint16_at_def byte_at_def word_less_nat_alt)
  then show ?thesis by (simp add: parse_body_def extension_types parse_versions_def fail_when_def)
qed

lemma hello_panics:
  assumes "hello_ok h" and "hm_extensions h = es @ [OtherExtension 43 [n]]" and "list_all extension_ok es" and "n > 0"
  shows "ja3_Compute (encode_record (encode_handshake h) @ rest) = Some (Inl out_of_range)"
proof -
  have "parse_extension (encode_extension (OtherExtension 43 [n])) j = Inl out_of_range" for j
    using versions_panic [OF assms(4)]
    by (simp add: parse_extension_def encode_extension_def be_bytes_2 fail_when_def Let_def uint16_at_def slice_of_def)
  moreover have "encode_extension (OtherExtension 43 [n]) \<noteq> []" by (simp add: encode_extension_def)
  ultimately have "extensions_loop (encode_extension (OtherExtension 43 [n])) j = Some (Inl out_of_range)" for j
    by (simp add: extensions_loop.simps)
  then show ?thesis
    using assms(2,3) by (simp add: hello_back [OF assms(1)] encode_extensions_def extensions_loop_prefix)
qed

end
