(* ===== verification/Sniffers_Props.thy ===== *)
theory Sniffers_Props
  imports Sniffers JA3_Props Route "HOL-Library.Multiset"
begin

text \<open>
  Properties of the sniffers: the QUIC handshake is put together from fragments in any order and
  its server name found, verdicts on a stream do not change when more arrives, which inputs make
  the sniffers panic or loop, and that others do not.
\<close>

section \<open>Numbers of QUIC\<close>

text \<open>A number in the form of \<open>2 ^ k\<close> bytes, whose first two bits are \<open>k\<close>.\<close>

definition encode_uvarint :: "nat \<Rightarrow> nat \<Rightarrow> bytes" where
  "encode_uvarint k n = be_bytes (2 ^ k) (n + k * 2 ^ (8 * 2 ^ k - 2))"

lemma be_value_Cons: "be_value (b # bs) = unat b * 256 ^ length bs + be_value bs"
proof -
  have "foldl (\<lambda>n b. 256 * n + unat b) m bs = m * 256 ^ length bs + foldl (\<lambda>n b. 256 * n + unat b) 0 bs" for m
  proof (induction bs arbitrary: m)
    case (Cons x xs)
    show ?case using Cons [of "256 * m + unat x"] Cons [of "unat x"] by (simp add: algebra_simps)
  qed simp
  from this [of "unat b"] show ?thesis by (simp add: be_value_def)
qed

lemma be_bytes_Cons: "be_bytes (Suc k) n = word_of_nat (n div 256 ^ k) # be_bytes k n"
  by (simp add: be_bytes_def)

lemma be_value_mod: "be_value (be_bytes k n) = n mod 256 ^ k"
proof (induction k arbitrary: n)
  case (Suc k)
  have "unat (word_of_nat n :: u8) = n mod 256" by (simp add: unat_of_nat)
  then show ?case using Suc by (simp add: be_bytes_Suc be_value_append mod_mult2_eq [of n 256 "256 ^ k"])
qed (simp add: be_bytes_def be_value_def)

lemma uvarint_round_trip:
  assumes "k < 4" and "n < 2 ^ (8 * 2 ^ k - 2)"
  shows "qtls_ReadUvarint (encode_uvarint k n @ rest) = Inr (word_of_nat n, rest)"
proof -
  define l where "l = (2 ^ k :: nat) - 1"
  have l: "2 ^ k = Suc l" by (simp add: l_def)
  let ?m = "n + k * 2 ^ (8 * 2 ^ k - 2)"
  have e: "8 * 2 ^ k - 2 = 6 + 8 * l" by (simp add: l)
  have p: "(2::nat) ^ (8 * 2 ^ k - 2) = 64 * 256 ^ l" by (simp add: e power_add power_mult)
  define b :: u8 where "b = word_of_nat (?m div 256 ^ l)"
  have hi: "n div 256 ^ l < 64" using assms(2) p by (simp add: less_mult_imp_div_less)
  have m: "?m div 256 ^ l = n div 256 ^ l + 64 * k" unfolding p by (simp add: mult.assoc [symmetric] mult.commute)
  have u: "unat b = n div 256 ^ l + 64 * k" unfolding b_def m unat_of_nat using hi assms(1) by simp
  have top: "2 ^ unat (drop_bit 6 b) - 1 = l"
    unfolding unsigned_drop_bit_eq u using hi assms(1) by (simp add: drop_bit_eq_div take_bit_nat_eq_self l_def)
  have low: "and b 0x3f = take_bit 6 b" by (simp add: take_bit_eq_mask mask_eq_exp_minus_1)
  have "unat (take_bit 6 b) = n div 256 ^ l" unfolding unsigned_take_bit_eq u using hi by (simp add: take_bit_eq_mod)
  moreover have "?m mod 256 ^ l = n mod 256 ^ l" unfolding p by (simp add: mult.assoc [symmetric] mult.commute)
  ultimately have v: "be_value (take_bit 6 b # be_bytes l ?m) = n" unfolding be_value_Cons be_value_mod be_bytes_length by (simp only: div_mult_mod_eq)
  have "encode_uvarint k n = b # be_bytes l ?m" unfolding encode_uvarint_def l be_bytes_Cons b_def by (simp only: l)
  then show ?thesis using top low v by (simp add: qtls_ReadUvarint_def Let_def)
qed

section \<open>Putting a handshake together\<close>

text \<open>The fragments of a byte string that is cut into pieces.\<close>

fun fragments_of :: "nat \<Rightarrow> bytes list \<Rightarrow> qCryptoFragment list" where
  "fragments_of off [] = []"
| "fragments_of off (p # ps) =
     \<lparr>qf_offset = word_of_nat off, qf_length = word_of_nat (length p), qf_payload = p\<rparr> # fragments_of (off + length p) ps"

lemma fragment_offsets:
  "f \<in> set (fragments_of off ps) \<Longrightarrow> list_all (\<lambda>p. p \<noteq> []) ps \<Longrightarrow>
   \<exists>i. off \<le> i \<and> i < off + length (concat ps) \<and> qf_offset f = word_of_nat i"
proof (induction off ps rule: fragments_of.induct)
  case (2 off p ps)
  show ?case
  proof (cases "f \<in> set (fragments_of (off + length p) ps)")
    case True
    then obtain i where "off + length p \<le> i" "i < off + length p + length (concat ps)" "qf_offset f = word_of_nat i"
      using "2.IH" "2.prems"(2) by auto
    then show ?thesis by (intro exI [of _ i]) simp
  next
    case False
    with 2 show ?thesis by (intro exI [of _ off]) auto
  qed
qed simp

lemma fragment_distinct:
  "list_all (\<lambda>p. p \<noteq> []) ps \<Longrightarrow> off + length (concat ps) \<le> 2 ^ 64 \<Longrightarrow> inj_on qf_offset (set (fragments_of off ps))"
proof (induction off ps rule: fragments_of.induct)
  case (2 off p ps)
  have "word_of_nat off \<notin> qf_offset ` set (fragments_of (off + length p) ps)"
  proof
    assume "word_of_nat off \<in> qf_offset ` set (fragments_of (off + length p) ps)"
    then obtain f where f: "f \<in> set (fragments_of (off + length p) ps)" "qf_offset f = word_of_nat off" by auto
    then obtain i where "off + length p \<le> i" "i < off + length p + length (concat ps)" "qf_offset f = word_of_nat i"
      using fragment_offsets [OF f(1)] 2 by auto
    with 2 f(2) show False by (auto simp: word_of_nat_eq_iff take_bit_nat_eq_self)
  qed
  with 2 show ?case by (auto simp: inj_on_insert)
qed simp

lemma find_fragment:
  "f \<in> set fs \<Longrightarrow> inj_on qf_offset (set fs) \<Longrightarrow> find (\<lambda>g. qf_offset g = qf_offset f) fs = Some f"
proof -
  assume f: "f \<in> set fs" "inj_on qf_offset (set fs)"
  then have "find (\<lambda>g. qf_offset g = qf_offset f) fs \<noteq> None" by (auto simp: find_None_iff)
  then obtain g where "find (\<lambda>g. qf_offset g = qf_offset f) fs = Some g" by blast
  moreover from this have "g \<in> set fs" "qf_offset g = qf_offset f" by (auto simp: find_Some_iff)
  ultimately show ?thesis using f by (auto dest: inj_onD)
qed

lemma assemble_chain:
  assumes "inj_on qf_offset (set fs)"
  shows "set (fragments_of off ps) \<subseteq> set fs \<Longrightarrow> word_of_nat (off + length (concat ps)) \<notin> qf_offset ` set fs \<Longrightarrow>
    length buffer + length (concat ps) \<le> room \<Longrightarrow>
    assemble fs room (word_of_nat off) buffer = Some (buffer @ concat ps)"
proof (induction off ps arbitrary: buffer rule: fragments_of.induct)
  case (1 off)
  then have "find (\<lambda>f. qf_offset f = word_of_nat off) fs = None" by (force simp: find_None_iff)
  then show ?case by (simp add: assemble.simps)
next
  case (2 off p ps)
  let ?f = "\<lparr>qf_offset = word_of_nat off, qf_length = word_of_nat (length p), qf_payload = p\<rparr>"
  have "find (\<lambda>f. qf_offset f = word_of_nat off) fs = Some ?f" using find_fragment [of ?f fs] 2 assms by simp
  moreover have "assemble fs room (word_of_nat (off + length p)) (buffer @ p) = Some ((buffer @ p) @ concat ps)"
    using 2 by (simp add: add.assoc)
  ultimately show ?case using 2 by (subst assemble.simps) simp
qed

lemma sum_lengths: "sum_list (map qf_length (fragments_of off ps)) = word_of_nat (length (concat ps))"
  by (induction off ps rule: fragments_of.induct) simp_all

lemma small_length:
  assumes "n < 65536"
  shows "unat (ucast (word_of_nat n :: u64) :: u16) = n" and "unat (word_of_nat n :: u64) = n"
  using assms by (simp_all add: unsigned_ucast_eq unat_of_nat take_bit_nat_eq_self)

lemma handshake_assembled:
  assumes "mset fs = mset (fragments_of 0 ps)" and "list_all (\<lambda>p. p \<noteq> []) ps" and "length (concat ps) < 65536"
  shows "handshake_record fs = Some (encode_record (concat ps))"
proof -
  let ?n = "length (concat ps)"
  have s: "set fs = set (fragments_of 0 ps)" using assms(1) by (rule mset_eq_setD)
  have "sum_list (map qf_length fs) = sum_list (map qf_length (fragments_of 0 ps))"
    by (metis assms(1) mset_map sum_mset_sum_list)
  then have total: "sum_list (map qf_length fs) = word_of_nat ?n" by (simp only: sum_lengths)
  have "word_of_nat (0 + ?n) \<notin> qf_offset ` set fs"
  proof
    assume "word_of_nat (0 + ?n) \<in> qf_offset ` set fs"
    then obtain f where f: "f \<in> set (fragments_of 0 ps)" "qf_offset f = word_of_nat ?n" by (auto simp: s)
    then obtain i where "i < ?n" "qf_offset f = word_of_nat i" using fragment_offsets [OF f(1) assms(2)] by auto
    with f(2) assms(3) show False by (simp add: word_of_nat_eq_iff take_bit_nat_eq_self)
  qed
  moreover have "inj_on qf_offset (set fs)" unfolding s by (rule fragment_distinct [OF assms(2)]) (use assms(3) in simp)
  ultimately have "assemble fs (5 + ?n) (word_of_nat 0) buffer = Some (buffer @ concat ps)" if "length buffer = 5" for buffer
    by (intro assemble_chain) (use s that in auto)
  moreover have "unat (ucast (word_of_nat ?n :: u64) :: u16) = ?n"
    by (rule small_length(1) [OF assms(3)])
  ultimately show ?thesis
    using assms(3) by (simp add: handshake_record_def total encode_record_def Let_def unat_of_nat)
qed

section \<open>Frames\<close>

text \<open>Padding, ping, and a crypto frame with the forms of its two numbers.\<close>

datatype frame = PaddingFrame | PingFrame | CryptoFrame nat nat nat bytes

fun encode_frame :: "frame \<Rightarrow> bytes" where
  "encode_frame PaddingFrame = [0]"
| "encode_frame PingFrame = [1]"
| "encode_frame (CryptoFrame ko kl off payload) = 6 # encode_uvarint ko off @ encode_uvarint kl (length payload) @ payload"

fun frame_ok :: "frame \<Rightarrow> bool" where
  "frame_ok (CryptoFrame ko kl off payload) \<longleftrightarrow>
     ko < 4 \<and> kl < 4 \<and> off < 2 ^ (8 * 2 ^ ko - 2) \<and> length payload < 2 ^ (8 * 2 ^ kl - 2)"
| "frame_ok _ \<longleftrightarrow> True"

fun frame_type :: "frame \<Rightarrow> u8" where
  "frame_type PaddingFrame = 0"
| "frame_type PingFrame = 1"
| "frame_type (CryptoFrame _ _ _ _) = 6"

fun frame_fragment :: "frame \<Rightarrow> qCryptoFragment option" where
  "frame_fragment (CryptoFrame ko kl off payload) =
     Some \<lparr>qf_offset = word_of_nat off, qf_length = word_of_nat (length payload), qf_payload = payload\<rparr>"
| "frame_fragment _ = None"

lemma frame_back:
  assumes "frame_ok f"
  shows "\<exists>b. encode_frame f = frame_type f # b \<and>
    (\<forall>pre rest behind. quic_frame (pre @ encode_frame f @ rest @ behind) (length (pre @ encode_frame f @ rest)) (frame_type f) (b @ rest) =
      Inr (frame_fragment f, rest))"
proof (cases f)
  case (CryptoFrame ko kl off payload)
  have k: "ko < 4" "kl < 4" "off < 2 ^ (8 * 2 ^ ko - 2)" "length payload < 2 ^ (8 * 2 ^ kl - 2)" using assms CryptoFrame by simp_all
  have "2 ^ kl \<le> (2::nat) ^ 3" using k(2) by (intro power_increasing) auto
  then have "(2::nat) ^ (8 * 2 ^ kl - 2) \<le> 2 ^ 62" by (intro power_increasing) auto
  with k(4) have u: "unat (word_of_nat (length payload) :: u64) = length payload" by (simp add: unat_of_nat)
  have "slice_of (pre @ 6 # encode_uvarint ko off @ encode_uvarint kl (length payload) @ payload @ rest)
      (Suc (length pre + length (encode_uvarint ko off) + length (encode_uvarint kl (length payload))))
      (Suc (length pre + length (encode_uvarint ko off) + length (encode_uvarint kl (length payload))) + length payload) = Inr payload"
    for pre rest by (simp add: slice_of_def)
  with u CryptoFrame show ?thesis
    by (simp add: quic_frame_def uvarint_round_trip [OF k(1,3)] uvarint_round_trip [OF k(2,4)] Let_def add.assoc)
qed (auto simp: quic_frame_def)

lemma frames_back:
  "list_all frame_ok fs \<Longrightarrow>
   quic_frames (pre @ concat (map encode_frame fs) @ behind) (length (pre @ concat (map encode_frame fs))) (concat (map encode_frame fs)) =
     Inr (map frame_type fs, List.map_filter frame_fragment fs)"
proof (induction fs arbitrary: pre)
  case (Cons f fs)
  obtain b where b: "encode_frame f = frame_type f # b"
      "\<And>pre rest behind. quic_frame (pre @ encode_frame f @ rest @ behind) (length (pre @ encode_frame f @ rest)) (frame_type f) (b @ rest) =
        Inr (frame_fragment f, rest)"
    using frame_back [of f] Cons.prems by auto
  from Cons.IH [of "pre @ encode_frame f"] Cons.prems b(2) [of pre "concat (map encode_frame fs)" behind]
  show ?case by (subst quic_frames.simps) (auto simp: b(1) map_filter_simps split: option.split)
qed (simp add: quic_frames.simps map_filter_simps)

section \<open>Sample packets\<close>

text \<open>A library whose cipher leaves the bytes as they are, with a tag of 16 bytes behind them.\<close>

definition sample_sniff_lib :: sniff_lib where
  "sample_sniff_lib = \<lparr>sl_ClientHello = (\<lambda>_. (None, ErrUnexpectedEOF)), sl_ReadRequest = (\<lambda>_. Inl ErrUnexpectedEOF),
     sl_HostString = (\<lambda>h. h), sl_Unpack = (\<lambda>_. Inr (False, 1, 0, 0)), sl_hkdf_Extract = (\<lambda>_ _. []),
     sl_hkdf_Expand = (\<lambda>_ _ n. replicate n 0), sl_AES_Encrypt = (\<lambda>_ _. replicate 16 0),
     sl_GCM_Open = (\<lambda>_ _ ct _. Inr (take (length ct - 16) ct))\<rparr>"

definition sample_packet :: "bytes \<Rightarrow> bytes" where
  "sample_packet plain =
     [0xc0, 0, 0, 0, 1, 1, 9, 0, 0] @ encode_uvarint 1 (length plain + 17) @ 0 # plain @ replicate 16 0"

definition sample_header :: "bytes \<Rightarrow> quic_header" where
  "sample_header plain = \<lparr>qh_version = 1, qh_destConnID = [9], qh_hdrLen = 11, qh_packetLen = word_of_nat (length plain + 17),
     qh_pnBytes = take 16 (drop 4 (0 # plain @ replicate 16 0))\<rparr>"

definition sample_hello :: hello_message where
  "sample_hello = \<lparr>hm_version = 0x0303, hm_random = replicate 32 7, hm_session = [], hm_suites = [0x1301], hm_compression = [0],
     hm_extensions = [ServerName ''a.b'']\<rparr>"

definition sample_pieces :: "bytes list" where
  "sample_pieces = [take 20 (encode_handshake sample_hello), drop 20 (encode_handshake sample_hello)]"

definition sample_frames :: "frame list" where
  "sample_frames = [PingFrame, CryptoFrame 1 0 0 (take 20 (encode_handshake sample_hello)), PaddingFrame]"

definition sample_waiting :: inbound_context where
  "sample_waiting = new_context\<lparr>mc_SniffContext := Some (tl (fragments_of 0 sample_pieces))\<rparr>"

lemma hello_length: "length (encode_handshake h) = 4 + length (encode_hello_body h)"
  by (simp add: encode_handshake_def)

lemma sample_body_length: "length (encode_hello_body sample_hello) = 55"
  by (simp add: encode_hello_body_def sample_hello_def encode_extensions_def encode_extension_def bytes_of_string_def)

lemma sample_hello_ok:
  "hello_ok sample_hello" "list_all extension_ok (hm_extensions sample_hello)" "list_all (\<lambda>p. p \<noteq> []) sample_pieces"
  "concat sample_pieces = encode_handshake sample_hello" "ch_ServerName (parsed_hello sample_hello) = ''a.b''"
  "list_all frame_ok sample_frames"
proof -
  show "hello_ok sample_hello" unfolding hello_ok_def hello_length sample_body_length
    by (simp add: sample_hello_def tls_version_ok_def tlsVersionBitmask_def)
  show "list_all extension_ok (hm_extensions sample_hello)" by (simp add: sample_hello_def bytes_of_string_def)
  have "length (encode_handshake sample_hello) = 59" by (simp add: hello_length sample_body_length)
  then show "list_all (\<lambda>p. p \<noteq> []) sample_pieces" "list_all frame_ok sample_frames" by (auto simp: sample_pieces_def sample_frames_def)
  show "concat sample_pieces = encode_handshake sample_hello" by (simp add: sample_pieces_def)
  show "ch_ServerName (parsed_hello sample_hello) = ''a.b''" by (simp add: parsed_hello_def sample_hello_def absorb_def zero_client_hello_def)
qed

lemma sample_packet_header:
  assumes "3 \<le> length plain" and "length plain < 1000"
  shows "read_quic_header (sample_packet plain) = Inr (sample_header plain)"
proof -
  define m where "m = length plain + 17"
  define e where "e = encode_uvarint 1 m"
  have n: "qtls_ReadUvarint (e @ rest) = Inr (word_of_nat m, rest)" for rest
    unfolding e_def m_def using assms(2) by (intro uvarint_round_trip) simp_all
  have l: "length e = 2" by (simp add: e_def encode_uvarint_def)
  have z: "qtls_ReadUvarint (0 # rest) = Inr (0, rest)" for rest by (simp add: qtls_ReadUvarint_def be_value_def)
  have u: "unat (word_of_nat m :: u64) = m" unfolding m_def using assms(2) by (intro small_length(2)) simp
  have lp: "length plain = m - 17" "20 \<le> m" using assms(1) by (simp_all add: m_def)
  show ?thesis unfolding sample_packet_def sample_header_def m_def [symmetric] e_def [symmetric] using lp(2)
    by (simp add: read_quic_header_def Read_uint32_def ReadFull_def be_value_def fail_when_def Discard_def n l z u
      VersionDraft29_def Version1_def Version2_def Let_def lp(1))
qed

lemma sample_packet_decrypt:
  assumes "3 \<le> length plain" and "length plain < 1000"
  shows "quic_decrypt sample_sniff_lib (sample_packet plain) (sample_header plain) = Inr (plain, replicate 16 0)"
proof -
  define p where "p = sample_packet plain"
  have u: "unat (qh_packetLen (sample_header plain)) = length plain + 17" "qh_hdrLen (sample_header plain) = 11"
    unfolding sample_header_def quic_header.select_convs using assms(2) by (intro small_length(2), simp, simp)
  have l: "length (encode_uvarint 1 k) = 2" for k by (simp add: encode_uvarint_def)
  have d: "drop 12 p = plain @ replicate 16 0" "length p = length plain + 28" "byte_at p 0 = Inr 0xc0"
    by (simp_all add: p_def sample_packet_def l [simplified])
  have id: "unmask (replicate 16 0) q k = q" if "0 < k" for q k
    using that unfolding unmask_def by (intro nth_equalityI) auto
  have label: "HKDFExpandLabel sample_sniff_lib x [] l n = Inr (replicate n 0)" for x l n
    by (simp add: HKDFExpandLabel_def sample_sniff_lib_def)
  have m: "take 16 (sl_AES_Encrypt sample_sniff_lib k x @ replicate 16 0) = replicate 16 0" for k x
    by (simp add: sample_sniff_lib_def)
  have rest: "take 12 p @ take 3 (drop 12 p) @ drop 15 p = p"
    using append_take_drop_id [of 12 p] append_take_drop_id [of 3 "drop 12 p"] by simp
  have "slice_of p 12 (28 + length plain) = Inr (plain @ replicate 16 0)" by (simp add: slice_of_def d)
  moreover have number: "slice_of p 11 15 = Inr (take 4 (drop 11 p))" "slice_of p 11 12 = Inr (take 1 (drop 11 p))"
      "slice_of p 12 15 = Inr (take 3 (drop 12 p))" "length (take 3 (drop 12 p)) = 3"
    by (simp_all add: slice_of_def d(2))
  moreover have "drop (12 + length plain) p = replicate 16 0" using d(1) by (metis append_eq_conv_conj add.commute drop_drop)
  ultimately show ?thesis
    unfolding quic_decrypt_def Let_def label m u p_def [symmetric]
    by (simp add: id d(3) rest number [simplified] fail_when_def xorNonceAEAD_Open_def del: drop_append) (simp add: sample_sniff_lib_def add.commute)
qed

lemma sample_frames_length:
  "3 \<le> length (concat (map encode_frame sample_frames))" "length (concat (map encode_frame sample_frames)) < 1000"
  using hello_length [of sample_hello]
  by (simp_all add: sample_frames_def encode_uvarint_def sample_body_length)

lemmas sample_packet_read = sample_packet_header [OF sample_frames_length] sample_packet_decrypt [OF sample_frames_length]

section \<open>The server name\<close>

lemma quic_client_found: "types \<noteq> [] \<Longrightarrow> \<exists>client. quic_client types fp = Inr client"
  by (auto simp: quic_client_def)

lemma quic_finish_hello:
  assumes "mset (new @ (case mc_SniffContext c of None \<Rightarrow> [] | Some fs \<Rightarrow> fs)) = mset (fragments_of 0 ps)"
    and "list_all (\<lambda>p. p \<noteq> []) ps" and "concat ps = encode_handshake h" and "hello_ok h" and "list_all extension_ok (hm_extensions h)"
    and "types \<noteq> []"
  shows "\<exists>c'. quic_finish types new c = Some (c', None) \<and> mc_Protocol c' = ProtocolQUIC \<and>
    mc_Domain c' = ch_ServerName (parsed_hello h) \<and> mc_SniffContext c' = None"
proof -
  have "handshake_record (new @ (case mc_SniffContext c of None \<Rightarrow> [] | Some fs \<Rightarrow> fs)) = Some (encode_record (encode_handshake h) @ [])"
    using handshake_assembled [OF assms(1,2)] assms(3,4) by (simp add: hello_ok_def)
  moreover obtain client where "quic_client types (parsed_hello h) = Inr client" using quic_client_found [OF assms(6)] by blast
  ultimately show ?thesis
    using hello_parsed [OF assms(4,5), of "[]"] by (simp add: quic_finish_def verdict_of_def Let_def)
qed

text \<open>C13 (quic_server_name): When the crypto frames of a QUIC packet, together with the fragments kept from earlier packets, are
  the pieces of a client hello in any order, and whatever padding and pings are between them and
  however their numbers are encoded, the sniffer accepts and the domain of the connection is the
  server name of the hello.\<close>
theorem quic_server_name:
  assumes "read_quic_header packet = Inr header" and "quic_decrypt S packet header = Inr (concat (map encode_frame fs), behind)"
    and "list_all frame_ok fs" and "fs \<noteq> []"
    and "mset (List.map_filter frame_fragment fs @ (case mc_SniffContext c of None \<Rightarrow> [] | Some old \<Rightarrow> old)) = mset (fragments_of 0 ps)"
    and "list_all (\<lambda>p. p \<noteq> []) ps" and "concat ps = encode_handshake h" and "hello_ok h" and "list_all extension_ok (hm_extensions h)"
  shows "\<exists>c'. sniff_QUICClientHello S c packet = Some (c', None) \<and> mc_Protocol c' = ProtocolQUIC \<and>
    mc_Domain c' = ch_ServerName (parsed_hello h) \<and> mc_SniffContext c' = None"
proof -
  have "quic_frames (concat (map encode_frame fs) @ behind) (length (concat (map encode_frame fs))) (concat (map encode_frame fs)) =
      Inr (map frame_type fs, List.map_filter frame_fragment fs)"
    using frames_back [OF assms(3), of "[]" behind] by simp
  with quic_finish_hello [OF assms(5-9), of "map frame_type fs"] assms(1,2,4) show ?thesis
    by (simp add: sniff_QUICClientHello_def)
qed

theorem quic_server_name_witness:
  "\<exists>c'. sniff_QUICClientHello sample_sniff_lib sample_waiting (sample_packet (concat (map encode_frame sample_frames))) = Some (c', None) \<and>
     mc_Protocol c' = ProtocolQUIC \<and> mc_Domain c' = ''a.b'' \<and> mc_SniffContext c' = None"
proof -
  have "mset (List.map_filter frame_fragment sample_frames @ (case mc_SniffContext sample_waiting of None \<Rightarrow> [] | Some old \<Rightarrow> old)) =
      mset (fragments_of 0 sample_pieces)"
    by (simp add: sample_frames_def sample_waiting_def sample_pieces_def map_filter_simps)
  moreover have "sample_frames \<noteq> []" by (simp add: sample_frames_def)
  ultimately show ?thesis
    using quic_server_name [OF sample_packet_read sample_hello_ok(6) _ _ sample_hello_ok(3,4,1,2)] sample_hello_ok(5) by simp
qed

section \<open>Missing pieces\<close>

lemma distinct_fragments:
  "list_all (\<lambda>p. p \<noteq> []) ps \<Longrightarrow> off + length (concat ps) \<le> 2 ^ 64 \<Longrightarrow> distinct (fragments_of off ps)"
proof (induction off ps rule: fragments_of.induct)
  case (2 off p ps)
  from fragment_distinct [OF 2(2,3)] have "inj_on qf_offset (set (fragments_of off (p # ps)))" .
  moreover have "\<lparr>qf_offset = word_of_nat off, qf_length = word_of_nat (length p), qf_payload = p\<rparr> \<notin> set (fragments_of (off + length p) ps)"
  proof
    assume f: "\<lparr>qf_offset = word_of_nat off, qf_length = word_of_nat (length p), qf_payload = p\<rparr> \<in> set (fragments_of (off + length p) ps)"
    obtain i where "off + length p \<le> i" "i < off + length p + length (concat ps)" "word_of_nat off = (word_of_nat i :: u64)"
      using fragment_offsets [OF f] 2 by auto
    with 2 show False by (auto simp: word_of_nat_eq_iff take_bit_nat_eq_self)
  qed
  ultimately show ?case using 2 by auto
qed simp

text \<open>The pieces in front of the first one that is missing.\<close>

lemma first_missing:
  assumes "\<not> set (fragments_of off ps) \<subseteq> A"
  shows "\<exists>qs r rs. ps = qs @ r # rs \<and> set (fragments_of off qs) \<subseteq> A \<and>
    \<lparr>qf_offset = word_of_nat (off + length (concat qs)), qf_length = word_of_nat (length r), qf_payload = r\<rparr> \<notin> A"
  using assms
proof (induction off ps rule: fragments_of.induct)
  case (2 off p ps)
  let ?f = "\<lparr>qf_offset = word_of_nat off, qf_length = word_of_nat (length p), qf_payload = p\<rparr>"
  show ?case
  proof (cases "?f \<in> A")
    case True
    with 2 obtain qs r rs where "ps = qs @ r # rs" "set (fragments_of (off + length p) qs) \<subseteq> A"
        "\<lparr>qf_offset = word_of_nat (off + length p + length (concat qs)), qf_length = word_of_nat (length r), qf_payload = r\<rparr> \<notin> A"
      by auto
    with True show ?thesis by (intro exI [of _ "p # qs"] exI [of _ r] exI [of _ rs]) (simp add: add.assoc)
  next
    case False
    then show ?thesis by (intro exI [of _ "[]"] exI [of _ p] exI [of _ ps]) simp
  qed
qed simp

lemma fragments_append: "fragments_of off (ps @ qs) = fragments_of off ps @ fragments_of (off + length (concat ps)) qs"
  by (induction off ps rule: fragments_of.induct) (simp_all add: add.assoc)

lemma sum_as_nat: "sum_list (map qf_length fs) = word_of_nat (sum_list (map (\<lambda>f. unat (qf_length f)) fs))"
  by (induction fs) simp_all

lemma sum_mono:
  fixes L :: "'a \<Rightarrow> nat"
  assumes "mset xs \<subseteq># mset ys"
  shows "sum_list (map L xs) \<le> sum_list (map L ys)"
proof -
  obtain zs where "mset ys = mset xs + zs" using assms by (auto simp: subset_mset.le_iff_add)
  then have "sum_mset (image_mset L (mset ys)) = sum_mset (image_mset L (mset xs)) + sum_mset (image_mset L zs)" by simp
  then show ?thesis by (metis le_add1 mset_map sum_mset_sum_list)
qed

lemma sum_pieces:
  "length (concat ps) < 2 ^ 64 \<Longrightarrow> sum_list (map (\<lambda>f. unat (qf_length f)) (fragments_of off ps)) = length (concat ps)"
  by (induction off ps rule: fragments_of.induct) (simp_all add: unat_of_nat)

lemma distinct_mset_subset:
  assumes "distinct xs" and "set xs \<subseteq> set ys"
  shows "mset xs \<subseteq># mset ys"
proof -
  have "mset xs = mset_set (set xs)" using assms(1) by (simp add: mset_set_set)
  also have "\<dots> \<subseteq># mset_set (set_mset (mset ys))" using assms(2) by (intro subset_imp_msubset_mset_set) simp_all
  also have "\<dots> \<subseteq># mset ys" by (rule mset_set_set_mset_msubset)
  finally show ?thesis .
qed

text \<open>Reassembly with pieces missing: the pieces in front, and a length that counts all that is there.\<close>

lemma assemble_missing:
  assumes "mset fs \<subset># mset (fragments_of 0 ps)" and "list_all (\<lambda>p. p \<noteq> []) ps" and "length (concat ps) < 65536"
  shows "\<exists>qs r rs n. ps = qs @ r # rs \<and> length (concat qs) \<le> n \<and> n < 65536 \<and>
    handshake_record fs = Some (0x16 # be_bytes 2 0x0303 @ be_bytes 2 n @ concat qs)"
proof -
  let ?F = "fragments_of 0 ps" and ?n = "sum_list (map (\<lambda>f. unat (qf_length f)) fs)"
  have F: "distinct ?F" "inj_on qf_offset (set ?F)"
    using distinct_fragments [OF assms(2), of 0] fragment_distinct [OF assms(2), of 0] assms(3) by simp_all
  have sub: "mset fs \<subseteq># mset ?F" using assms(1) by (simp add: subset_mset.less_imp_le)
  then have subset: "set fs \<subseteq> set ?F" by (metis set_mset_mono set_mset_mset)
  have "length fs < length ?F" using mset_subset_size [OF assms(1)] by simp
  then have "\<not> set ?F \<subseteq> set fs"
    using F(1) card_length [of fs] card_mono [of "set fs" "set ?F"] by (auto simp: distinct_card)
  then obtain qs r rs where q: "ps = qs @ r # rs" "set (fragments_of 0 qs) \<subseteq> set fs"
      "\<lparr>qf_offset = word_of_nat (length (concat qs)), qf_length = word_of_nat (length r), qf_payload = r\<rparr> \<notin> set fs"
    using first_missing [of 0 ps "set fs"] by auto
  have len: "length (concat qs) < 65536" using assms(3) q(1) by simp
  have "?n \<le> length (concat ps)" using sum_mono [OF sub, of "\<lambda>f. unat (qf_length f)"] sum_pieces [of ps 0] assms(3) by simp
  moreover have "distinct (fragments_of 0 qs)" by (rule distinct_fragments) (use assms(2) q(1) len in auto)
  then have "length (concat qs) \<le> ?n"
    using sum_mono [OF distinct_mset_subset [OF _ q(2)], of "\<lambda>f. unat (qf_length f)"] sum_pieces [of qs 0] len by simp
  moreover have "word_of_nat (0 + length (concat qs)) \<notin> qf_offset ` set fs"
  proof
    assume "word_of_nat (0 + length (concat qs)) \<in> qf_offset ` set fs"
    then obtain f where "f \<in> set fs" "qf_offset f = word_of_nat (length (concat qs))" by auto
    then show False using F(2) subset q(1,3) by (auto simp: fragments_append inj_on_def)
  qed
  moreover have "inj_on qf_offset (set fs)" using F(2) subset by (rule inj_on_subset)
  ultimately have n: "length (concat qs) \<le> ?n" "?n < 65536" and free: "word_of_nat (0 + length (concat qs)) \<notin> qf_offset ` set fs"
      "inj_on qf_offset (set fs)"
    using assms(3) by simp_all
  have a: "assemble fs (5 + ?n) (word_of_nat 0) b = Some (b @ concat qs)" if "length b = 5" for b
    by (rule assemble_chain [OF free(2) q(2) free(1)]) (use n(1) that in simp)
  have "unat (ucast (sum_list (map qf_length fs)) :: u16) = ?n" "unat (sum_list (map qf_length fs)) = ?n"
    unfolding sum_as_nat by (rule small_length [OF n(2)])+
  with a [of "0x16 # be_bytes 2 0x0303 @ be_bytes 2 ?n"] have "handshake_record fs = Some (0x16 # be_bytes 2 0x0303 @ be_bytes 2 ?n @ concat qs)"
    by (simp add: handshake_record_def Let_def)
  with q(1) n show ?thesis by auto
qed

lemma hello_cut:
  assumes "encode_handshake h = xs @ ys" and "ys \<noteq> []" and "length (encode_handshake h) < 65536"
  shows "\<exists>n. parse_hello_start xs = Inl (LengthErr n)"
proof (cases "length xs < 39")
  case False
  let ?n = "length (encode_hello_body h)"
  have n: "4 + ?n = length (xs @ ys)" unfolding assms(1) [symmetric] by (simp add: encode_handshake_def)
  have "xs = take (length xs) (encode_handshake h)" by (simp add: assms(1))
  also have "\<dots> = 1 # be_bytes 3 ?n @ take (length xs - 4) (encode_hello_body h)"
  proof -
    have e: "length xs = Suc (Suc (Suc (Suc (length xs - 4))))" using False by simp
    show ?thesis by (subst e) (simp add: encode_handshake_def be_bytes_3)
  qed
  finally have xs: "xs = 1 # be_bytes 3 ?n @ take (length xs - 4) (encode_hello_body h)" .
  have "byte_at xs 0 = Inr 1" "uint24_at xs 1 = Inr (word_of_nat (?n mod 2 ^ 24))"
    by (subst xs, simp) (subst xs, simp add: uint24_at_def be_bytes_3 three_bytes)
  moreover obtain k where "length ys = Suc k" using assms(2) by (cases ys) auto
  then have "?n < 65536" "length xs - 4 \<noteq> ?n" using n assms(3) False assms(1) by auto
  ultimately show ?thesis using False
    by (auto simp: parse_hello_start_def fail_when_def handshakeType_def unat_of_nat)
qed (auto simp: parse_hello_start_def fail_when_def)

lemma record_cut:
  assumes "encode_handshake h = xs @ ys" and "ys \<noteq> []" and "length (encode_handshake h) < 65536"
    and "length xs \<le> n" and "n < 65536"
  shows "\<exists>k. ja3_Compute (0x16 # be_bytes 2 0x0303 @ be_bytes 2 n @ xs) = Some (Inl (LengthErr k))"
proof (cases "n = length xs")
  case True
  then show ?thesis using hello_cut [OF assms(1-3)] record_back [of xs "[]"] assms(5)
    by (auto simp: ja3_Compute_def encode_record_def parseHandshake_def)
next
  case False
  with assms(4,5) show ?thesis
    by (auto simp: ja3_Compute_def parse_record_def fail_when_def contentType_def tls_version_ok_def tlsVersionBitmask_def unat_of_nat)
qed

text \<open>Remark (quic_waits_for_pieces): As long as a piece of the client hello is missing, whichever it is, the sniffer asks for more data
  and keeps all fragments it has for the next packet.\<close>
theorem quic_waits_for_pieces:
  assumes "mset (new @ (case mc_SniffContext c of None \<Rightarrow> [] | Some old \<Rightarrow> old)) \<subset># mset (fragments_of 0 ps)"
    and "list_all (\<lambda>p. p \<noteq> []) ps" and "concat ps = encode_handshake h" and "length (encode_handshake h) < 65536"
  shows "\<exists>c' e. quic_finish types new c = Some (c', Some e) \<and> is_NeedMoreData e \<and>
    mc_SniffContext c' = Some (new @ (case mc_SniffContext c of None \<Rightarrow> [] | Some old \<Rightarrow> old)) \<and> mc_Domain c' = mc_Domain c"
proof -
  obtain qs r rs n where q: "ps = qs @ r # rs" "length (concat qs) \<le> n" "n < 65536"
      "handshake_record (new @ (case mc_SniffContext c of None \<Rightarrow> [] | Some old \<Rightarrow> old)) =
        Some (0x16 # be_bytes 2 0x0303 @ be_bytes 2 n @ concat qs)"
    using assemble_missing [OF assms(1,2)] assms(3,4) by auto
  have "encode_handshake h = concat qs @ r @ concat rs" "r @ concat rs \<noteq> []" using assms(2,3) q(1) by auto
  from record_cut [OF this assms(4) q(2,3)] q(4) show ?thesis
    by (auto simp: quic_finish_def Let_def LengthErr_def need_more_def ErrNeedMoreData_def)
qed

theorem quic_waits_for_pieces_witness:
  "\<exists>c' e. quic_finish [6] (tl (fragments_of 0 sample_pieces)) new_context = Some (c', Some e) \<and> is_NeedMoreData e \<and>
     mc_SniffContext c' = Some (tl (fragments_of 0 sample_pieces)) \<and> mc_Domain c' = []"
proof -
  have "mset (tl (fragments_of 0 sample_pieces)) \<subset># mset (fragments_of 0 sample_pieces)" by (simp add: sample_pieces_def)
  moreover have "length (encode_handshake sample_hello) < 65536" by (simp add: hello_length sample_body_length)
  ultimately show ?thesis
    using quic_waits_for_pieces [of "tl (fragments_of 0 sample_pieces)" new_context sample_pieces sample_hello "[6]"] sample_hello_ok(3,4)
    by (simp add: new_context_def)
qed

section \<open>Fragments that come twice\<close>

text \<open>The length counts a fragment as often as it came, the record holds it once.\<close>

lemma fragment_lengths:
  "f \<in> set (fragments_of off ps) \<Longrightarrow> list_all (\<lambda>p. p \<noteq> []) ps \<Longrightarrow> length (concat ps) < 2 ^ 64 \<Longrightarrow> qf_length f \<noteq> 0"
proof (induction off ps rule: fragments_of.induct)
  case (2 off p ps)
  then show ?case by (auto simp: word_of_nat_eq_0_iff nat_dvd_not_less)
qed simp

lemma duplicate_total:
  assumes "list_all (\<lambda>p. p \<noteq> []) ps" and "f \<in> set (fragments_of 0 ps)" and "length (concat ps) + unat (qf_length f) < 65536"
  shows "\<exists>n. length (concat ps) < n \<and> n < 65536 \<and>
    handshake_record (f # fragments_of 0 ps) = Some (0x16 # be_bytes 2 0x0303 @ be_bytes 2 n @ concat ps)"
proof -
  let ?fs = "f # fragments_of 0 ps" and ?n = "length (concat ps) + unat (qf_length f)"
  have s: "set ?fs = set (fragments_of 0 ps)" using assms(2) by auto
  have total: "sum_list (map qf_length ?fs) = word_of_nat ?n"
    using sum_pieces [of ps 0] assms(3) by (simp add: sum_as_nat add.commute)
  have "word_of_nat (0 + length (concat ps)) \<notin> qf_offset ` set ?fs"
  proof
    assume "word_of_nat (0 + length (concat ps)) \<in> qf_offset ` set ?fs"
    then obtain g where g: "g \<in> set (fragments_of 0 ps)" "qf_offset g = word_of_nat (length (concat ps))" unfolding s by auto
    then obtain i where "i < length (concat ps)" "qf_offset g = word_of_nat i" using fragment_offsets [OF g(1) assms(1)] by auto
    with g(2) assms(3) show False by (simp add: word_of_nat_eq_iff take_bit_nat_eq_self)
  qed
  moreover have "inj_on qf_offset (set ?fs)" unfolding s by (rule fragment_distinct [OF assms(1)]) (use assms(3) in simp)
  ultimately have a: "assemble ?fs (5 + ?n) (word_of_nat 0) b = Some (b @ concat ps)" if "length b = 5" for b
    by (intro assemble_chain) (use s that in auto)
  have "qf_length f \<noteq> 0"
    by (rule fragment_lengths [OF assms(2,1)]) (use assms(3) in simp)
  then have "unat (qf_length f) > 0" by (simp add: unat_gt_0)
  moreover have "unat (ucast (word_of_nat ?n :: u64) :: u16) = ?n" "unat (word_of_nat ?n :: u64) = ?n"
    by (rule small_length [OF assms(3)])+
  moreover from this have "handshake_record ?fs = Some (0x16 # be_bytes 2 0x0303 @ be_bytes 2 ?n @ concat ps)"
    using a unfolding handshake_record_def total by (simp add: Let_def)
  ultimately show ?thesis using assms(3) by (intro exI [of _ ?n]) simp
qed

text \<open>Remark (quic_duplicate_blocks): When all pieces of the client hello are there but one of them has come twice, as after a
  retransmission, the sniffer still asks for more data: the length in the record counts the piece
  twice.\<close>
theorem quic_duplicate_blocks:
  assumes "list_all (\<lambda>p. p \<noteq> []) ps" and "f \<in> set (fragments_of 0 ps)" and "length (concat ps) + unat (qf_length f) < 65536"
    and "mc_SniffContext c = Some (fragments_of 0 ps)"
  shows "\<exists>c' e. quic_finish types [f] c = Some (c', Some e) \<and> is_NeedMoreData e \<and> mc_Domain c' = mc_Domain c"
proof -
  obtain n where n: "length (concat ps) < n" "n < 65536"
      "handshake_record (f # fragments_of 0 ps) = Some (0x16 # be_bytes 2 0x0303 @ be_bytes 2 n @ concat ps)"
    using duplicate_total [OF assms(1-3)] by blast
  then have "ja3_Compute (0x16 # be_bytes 2 0x0303 @ be_bytes 2 n @ concat ps) = Some (Inl (LengthErr 2))"
    by (simp add: ja3_Compute_def parse_record_def fail_when_def contentType_def tls_version_ok_def tlsVersionBitmask_def unat_of_nat)
  with n(3) assms(4) show ?thesis
    by (auto simp: quic_finish_def Let_def LengthErr_def need_more_def ErrNeedMoreData_def)
qed

theorem quic_duplicate_blocks_witness:
  "\<exists>c' e. quic_finish [6] [hd (fragments_of 0 sample_pieces)] (new_context\<lparr>mc_SniffContext := Some (fragments_of 0 sample_pieces)\<rparr>) =
     Some (c', Some e) \<and> is_NeedMoreData e \<and> mc_Domain c' = []"
proof -
  have "hd (fragments_of 0 sample_pieces) \<in> set (fragments_of 0 sample_pieces)" by (simp add: sample_pieces_def)
  moreover have "length (concat sample_pieces) + unat (qf_length (hd (fragments_of 0 sample_pieces))) < 65536"
    by (simp add: sample_hello_ok(4) hello_length sample_body_length) (simp add: sample_pieces_def hello_length sample_body_length)
  ultimately show ?thesis
    using quic_duplicate_blocks [OF sample_hello_ok(3), of "hd (fragments_of 0 sample_pieces)"
        "new_context\<lparr>mc_SniffContext := Some (fragments_of 0 sample_pieces)\<rparr>" "[6]"]
    by (simp add: new_context_def)
qed

section \<open>Reassembly that does not end\<close>

lemma assemble_stuck:
  assumes "find (\<lambda>g. qf_offset g = index) fs = Some f" and "qf_length f = 0"
  shows "assemble fs room index buffer = None"
proof -
  have f: "qf_offset f = index" using assms(1) by (auto simp: find_Some_iff)
  have "\<not> (gs = fs \<and> index' = index)" if a: "assemble gs room' index' buffer' = Some y" for gs room' index' buffer' y
    by (rule assemble.raw_induct [where P = "\<lambda>gs r i b y. \<not> (gs = fs \<and> i = index)", OF _ a])
       (use assms f in \<open>fastforce split: option.splits\<close>)
  then show ?thesis by (cases "assemble fs room index buffer") blast+
qed

text \<open>Remark (quic_empty_fragment_loops): A crypto frame without data at the start of the handshake makes the sniffer loop forever: the
  index never moves. Anyone can send such a packet, since the keys of initial packets are public.\<close>
theorem quic_empty_fragment_loops:
  assumes "read_quic_header packet = Inr header"
    and "quic_decrypt S packet header = Inr (concat (map encode_frame (CryptoFrame ko kl 0 [] # fs)), behind)"
    and "list_all frame_ok (CryptoFrame ko kl 0 [] # fs)"
  shows "sniff_QUICClientHello S c packet = None"
proof -
  let ?f = "\<lparr>qf_offset = 0, qf_length = 0, qf_payload = []\<rparr>"
  have "handshake_record (?f # gs) = None" for gs
    by (simp add: handshake_record_def Let_def assemble_stuck [where f = ?f])
  then have "quic_finish types (?f # gs) c = None" for types gs by (simp add: quic_finish_def Let_def)
  with frames_back [OF assms(3), of "[]" behind] assms(1,2) show ?thesis
    by (simp add: sniff_QUICClientHello_def map_filter_simps)
qed

definition empty_frames :: "frame list" where
  "empty_frames = CryptoFrame 0 0 0 [] # replicate 16 PaddingFrame"

lemma empty_frames_length:
  "3 \<le> length (concat (map encode_frame empty_frames))" "length (concat (map encode_frame empty_frames)) < 1000"
  by (simp_all add: empty_frames_def encode_uvarint_def length_concat sum_list_replicate)

lemmas empty_packet_read = sample_packet_header [OF empty_frames_length] sample_packet_decrypt [OF empty_frames_length]

theorem quic_empty_fragment_loops_witness:
  "sniff_QUICClientHello sample_sniff_lib new_context (sample_packet (concat (map encode_frame empty_frames))) = None"
proof -
  have "list_all frame_ok (CryptoFrame 0 0 0 [] # replicate 16 PaddingFrame)" by (simp add: list_all_iff)
  then show ?thesis
    using quic_empty_fragment_loops [OF empty_packet_read [unfolded empty_frames_def]] by (simp only: empty_frames_def)
qed

lemma assemble_ends:
  assumes "\<forall>f \<in> set fs. qf_length f \<noteq> 0 \<and> unat (qf_offset f) + unat (qf_length f) < 2 ^ 64"
  shows "\<exists>y. assemble fs room index buffer = Some y"
proof (induction "2 ^ 64 - unat index" arbitrary: index buffer rule: less_induct)
  case less
  show ?case
  proof (cases "find (\<lambda>g. qf_offset g = index) fs")
    case (Some f)
    then have f: "f \<in> set fs" "qf_offset f = index" by (auto simp: find_Some_iff)
    with assms have "unat (index + qf_length f) = unat index + unat (qf_length f)" "unat (qf_length f) > 0"
      by (auto simp: unat_word_ariths unat_gt_0)
    moreover have "unat index < 2 ^ 64" using unsigned_less [of index] by simp
    ultimately have "2 ^ 64 - unat (index + qf_length f) < 2 ^ 64 - unat index" by simp
    from less [OF this] Some f(2) show ?thesis by (subst assemble.simps) simp
  qed (simp add: assemble.simps)
qed

section \<open>Panics\<close>

text \<open>Remark (quic_length_panics): A crypto frame whose length goes beyond the packet makes the sniffer panic: the slice is taken
  before the length is checked.\<close>
theorem quic_length_panics:
  assumes "read_quic_header packet = Inr header"
    and "quic_decrypt S packet header = Inr (6 # encode_uvarint ko off @ encode_uvarint kl n @ rest, behind)"
    and "ko < 4" and "off < 2 ^ (8 * 2 ^ ko - 2)" and "kl < 4" and "n < 2 ^ (8 * 2 ^ kl - 2)"
    and "length rest + length behind < n"
  shows "sniff_QUICClientHello S c packet = Some (c, Some out_of_range)"
proof -
  have "2 ^ kl \<le> (2::nat) ^ 3" using assms(5) by (intro power_increasing) auto
  then have "(2::nat) ^ (8 * 2 ^ kl - 2) \<le> 2 ^ 62" by (intro power_increasing) auto
  with assms(6) have u: "unat (word_of_nat n :: u64) = n" by (simp add: unat_of_nat)
  let ?frame = "encode_uvarint ko off @ encode_uvarint kl n @ rest"
  have "quic_frame ((6 # ?frame) @ behind) (length (6 # ?frame)) 6 ?frame = Inl out_of_range"
    using assms(7) u
    by (simp add: quic_frame_def uvarint_round_trip [OF assms(3,4)] uvarint_round_trip [OF assms(5,6)] Let_def slice_of_def)
  then have "quic_frames ((6 # ?frame) @ behind) (length (6 # ?frame)) (6 # ?frame) = Inl out_of_range"
    by (subst quic_frames.simps) simp
  with assms(1,2) show ?thesis by (simp add: sniff_QUICClientHello_def)
qed

definition long_frame :: bytes where
  "long_frame = 6 # encode_uvarint 0 0 @ encode_uvarint 0 40 @ [1, 2, 3, 4]"

lemma long_frame_length: "3 \<le> length long_frame" "length long_frame < 1000"
  by (simp_all add: long_frame_def encode_uvarint_def)

lemmas long_packet_read = sample_packet_header [OF long_frame_length] sample_packet_decrypt [OF long_frame_length]

theorem quic_length_panics_witness:
  "sniff_QUICClientHello sample_sniff_lib new_context (sample_packet long_frame) = Some (new_context, Some out_of_range)"
  using quic_length_panics [OF long_packet_read [unfolded long_frame_def]] by (simp add: long_frame_def)

text \<open>Remark (quic_versions_panic): A client hello whose list of supported versions is shorter than its length byte says makes the
  sniffer panic: the parser reads the versions without comparing the length with the extension.\<close>
theorem quic_versions_panic:
  assumes "mset (new @ (case mc_SniffContext c of None \<Rightarrow> [] | Some fs \<Rightarrow> fs)) = mset (fragments_of 0 ps)"
    and "list_all (\<lambda>p. p \<noteq> []) ps" and "concat ps = encode_handshake h" and "hello_ok h"
    and "hm_extensions h = es @ [OtherExtension 43 [n]]" and "list_all extension_ok es" and "n > 0"
  shows "\<exists>c'. quic_finish types new c = Some (c', Some out_of_range)"
proof -
  have "handshake_record (new @ (case mc_SniffContext c of None \<Rightarrow> [] | Some fs \<Rightarrow> fs)) = Some (encode_record (encode_handshake h) @ [])"
    using handshake_assembled [OF assms(1,2)] assms(3,4) by (simp add: hello_ok_def)
  then show ?thesis using hello_panics [OF assms(4-7), of "[]"]
    by (simp add: quic_finish_def Let_def out_of_range_def)
qed

text \<open>Every other access to a byte of a packet is inside it.\<close>

definition short_versions :: hello_message where
  "short_versions = sample_hello\<lparr>hm_extensions := [OtherExtension 43 [4]]\<rparr>"

theorem quic_versions_panic_witness:
  "\<exists>c'. quic_finish [6] (fragments_of 0 [encode_handshake short_versions]) new_context = Some (c', Some out_of_range)"
proof -
  have "length (encode_hello_body short_versions) = 48"
    by (simp add: encode_hello_body_def short_versions_def sample_hello_def encode_extensions_def encode_extension_def)
  then have "hello_ok short_versions" unfolding hello_ok_def hello_length
    by (simp add: short_versions_def sample_hello_def tls_version_ok_def tlsVersionBitmask_def)
  moreover have "encode_handshake short_versions \<noteq> []" by (simp add: encode_handshake_def)
  ultimately show ?thesis
    using quic_versions_panic [of "fragments_of 0 [encode_handshake short_versions]" new_context "[encode_handshake short_versions]"
        short_versions "[]" 4 "[6]"]
    by (simp add: new_context_def) (simp add: short_versions_def)
qed

definition no_panic :: "'a result \<Rightarrow> bool" where
  "no_panic r \<longleftrightarrow> (\<forall>e. r = Inl e \<longrightarrow> \<not> is_panic e)"

lemma no_panic_simps [simp]:
  "no_panic (Inr x)" "no_panic (Inl e) \<longleftrightarrow> \<not> is_panic e"
  "no_panic (fail_when b e r) \<longleftrightarrow> (if b then \<not> is_panic e else no_panic r)"
  by (auto simp: no_panic_def fail_when_def)

lemma no_panic_bind [intro]: "no_panic m \<Longrightarrow> (\<And>x. m = Inr x \<Longrightarrow> no_panic (f x)) \<Longrightarrow> no_panic (bind_r m f)"
  by (cases m) auto

lemma not_panics [simp]:
  "\<not> is_panic ErrInvalid" "\<not> is_panic EOF" "\<not> is_panic ErrUnexpectedEOF" "\<not> is_panic ErrNeedMoreData" "\<not> is_panic (need_more e)"
  by (simp_all add: ErrInvalid_def EOF_def ErrUnexpectedEOF_def ErrNeedMoreData_def need_more_def)

lemma in_range [simp]:
  "i < length bs \<Longrightarrow> no_panic (byte_at bs i)" "i \<le> length bs \<Longrightarrow> no_panic (slice_from bs i)"
  "i \<le> j \<Longrightarrow> j \<le> length bs \<Longrightarrow> no_panic (slice_of bs i j)" "Suc i < length bs \<Longrightarrow> no_panic (uint16_at bs i)"
  "i + 4 \<le> length bs \<Longrightarrow> no_panic (uint32_of bs i)"
  by (auto simp: byte_at_def slice_from_def slice_of_def uint16_at_def uint32_of_def)

lemma in_long: "\<not> length bs < n \<Longrightarrow> i < n \<Longrightarrow> no_panic (byte_at bs i)"
  by simp

lemma verdict_no_panic: "no_panic r \<Longrightarrow> case verdict_of r put c of (c', None) \<Rightarrow> True | (c', Some e) \<Rightarrow> \<not> is_panic e"
  by (auto simp: verdict_of_def no_panic_def split: sum.split)

definition lib_no_panic :: "sniff_lib \<Rightarrow> bool" where
  "lib_no_panic S \<longleftrightarrow>
     (\<forall>bs. no_panic (sl_Unpack S bs) \<and> no_panic (sl_ReadRequest S bs) \<and> \<not> is_panic (snd (sl_ClientHello S bs))) \<and>
     (\<forall>s i n. length (sl_hkdf_Expand S s i n) = n) \<and> (\<forall>k n c a. no_panic (sl_GCM_Open S k n c a))"

lemma utp_no_panic: "no_panic (utp_extensions extension bs)"
  by (induction extension bs rule: utp_extensions.induct) (subst utp_extensions.simps, auto split: list.splits)

lemma ReadFull_no_panic [simp]: "no_panic (ReadFull n bs)" "no_panic (ReadByte bs)" "no_panic (Read_uint16 bs)" "no_panic (Read_uint32 bs)"
proof -
  show r: "no_panic (ReadFull n bs)" for n by (simp add: ReadFull_def)
  show "no_panic (ReadByte bs)" by (cases bs) simp_all
  show "no_panic (Read_uint16 bs)" "no_panic (Read_uint32 bs)" by (auto simp: Read_uint16_def Read_uint32_def intro!: r)
qed

lemma packet_no_panic:
  assumes "lib_no_panic S" and "s \<noteq> QUICClientHello"
  shows "\<exists>v. run_packet_sniffer S s c packet = Some v \<and> (case v of (c', None) \<Rightarrow> True | (c', Some e) \<Rightarrow> \<not> is_panic e)"
proof (cases s)
  case DomainNameQuery
  have "no_panic (sl_Unpack S packet)" using assms(1) by (simp add: lib_no_panic_def)
  then show ?thesis using DomainNameQuery by (auto simp: sniff_DomainNameQuery_def no_panic_def split: sum.split)
next
  case STUNMessage
  then show ?thesis by (auto simp: sniff_STUNMessage_def intro!: verdict_no_panic no_panic_bind)
next
  case UTP
  then show ?thesis by (auto simp: sniff_UTP_def utp_no_panic intro!: verdict_no_panic no_panic_bind in_long [where n = 20])
next
  case UDPTracker
  then show ?thesis by (auto simp: sniff_UDPTracker_def)
next
  case DTLSRecord
  then show ?thesis by (auto simp: sniff_DTLSRecord_def intro!: verdict_no_panic no_panic_bind in_long [where n = 13])
next
  case NTP
  then show ?thesis by (auto simp: sniff_NTP_def Let_def intro!: verdict_no_panic no_panic_bind in_long [where n = 48])
qed (use assms in simp)

lemma run_steps_no_panic: "list_all (\<lambda>f. \<forall>x. no_panic (f x)) fs \<Longrightarrow> no_panic (run_steps fs x)"
  by (induction fs arbitrary: x) auto

lemma rdp_no_panic: "list_all (\<lambda>p. \<forall>bs. no_panic (p bs)) rdp_steps"
  by (auto simp: rdp_steps_def rdp_expect_def rdp_skip_def split: sum.split)

lemma ReadLine_long:
  assumes "length p = 8" and "10 \<notin> set p" and "List.last p \<noteq> 13" and "ReadLine (p @ bs) = Inr line"
  shows "length line \<ge> 8"
proof -
  have window: "take 4096 (p @ bs) = p @ take 4088 bs" using assms(1) by simp
  have "takeWhile (\<lambda>b. b \<noteq> 10) (p @ take 4088 bs) = p @ takeWhile (\<lambda>b. b \<noteq> 10) (take 4088 bs)"
    by (rule takeWhile_append2) (use assms(2) in auto)
  moreover have "length (strip_cr (p @ t)) \<ge> 8" for t
    using assms(1,3) by (cases t rule: rev_cases) (auto simp: strip_cr_def)
  ultimately show ?thesis using assms(1,4) unfolding ReadLine_def window Let_def
    by (auto split: if_splits)
qed

lemma stream_no_panic:
  assumes "lib_no_panic S"
  shows "case run_stream_sniffer S s c reader of (c', None) \<Rightarrow> True | (c', Some e) \<Rightarrow> \<not> is_panic e"
proof (cases s)
  case TLSClientHello
  have "\<not> is_panic (snd (sl_ClientHello S (concat reader)))" using assms by (simp add: lib_no_panic_def)
  with TLSClientHello show ?thesis by (auto simp: sniff_TLSClientHello_def split: prod.split option.split)
next
  case HTTPHost
  have "no_panic (sl_ReadRequest S (concat reader))" using assms by (simp add: lib_no_panic_def)
  with HTTPHost show ?thesis by (auto simp: sniff_HTTPHost_def no_panic_def split: sum.split)
next
  case StreamDomainNameQuery
  have "no_panic (sl_Unpack S bs)" for bs using assms by (simp add: lib_no_panic_def)
  with StreamDomainNameQuery show ?thesis
    by (auto simp: sniff_StreamDomainNameQuery_def sniff_DomainNameQuery_def no_panic_def split: sum.split)
next
  case BitTorrent
  then show ?thesis by (auto simp: sniff_BitTorrent_def Let_def split: sum.split)
next
  case SSH
  have "no_panic (bind_r (ReadLine bs) (\<lambda>line. slice_from line 8))"
    if "take 8 bs = bytes_of ''SSH-2.0-''" for bs
  proof (rule no_panic_bind)
    show "no_panic (ReadLine bs)" by (auto simp: ReadLine_def Let_def)
  next
    fix line assume l: "ReadLine bs = Inr line"
    have p: "length (take 8 bs) = 8" "10 \<notin> set (take 8 bs)" "List.last (take 8 bs) \<noteq> 13"
      unfolding that by (simp_all add: bytes_of_def)
    have "ReadLine (take 8 bs @ drop 8 bs) = Inr line" using l by simp
    from ReadLine_long [OF p this] show "no_panic (slice_from line 8)" by simp
  qed
  with SSH show ?thesis by (auto simp: sniff_SSH_def Let_def not_less bytes_of_def intro!: verdict_no_panic)
next
  case RDP
  have "no_panic (run_steps (map (\<lambda>p bs. bind_r (p bs) (\<lambda>(_, rest). Inr rest)) rdp_steps) bs)" for bs
    using rdp_no_panic by (intro run_steps_no_panic) (auto simp: list_all_iff)
  with RDP show ?thesis by (auto simp: sniff_RDP_def intro!: verdict_no_panic)
qed

text \<open>The header of a QUIC packet and its decryption.\<close>

lemma uvarint_no_panic [simp]: "no_panic (qtls_ReadUvarint bs)" "no_panic (Discard n bs)"
  by (cases bs; simp add: qtls_ReadUvarint_def Let_def) (simp add: Discard_def)

lemma header_no_panic: "no_panic (read_quic_header packet)"
  unfolding read_quic_header_def Let_def by (intro no_panic_bind) (auto intro!: no_panic_bind split: prod.split)

lemma fail_when_passed: "fail_when b e r = Inr x \<Longrightarrow> r = Inr x"
  by (simp add: fail_when_def split: if_splits)

lemma fail_when_bound: "fail_when (m < n) e r = Inr x \<longleftrightarrow> n \<le> m \<and> r = Inr x" for m n :: nat
  by (auto simp: fail_when_def)

lemma header_in_packet:
  assumes "read_quic_header packet = Inr h"
  shows "qh_hdrLen h + unat (qh_packetLen h) \<le> length packet" and "qh_hdrLen h + 4 \<le> length packet" and "packet \<noteq> []"
proof -
  obtain t r1 v r2 dl r3 di r4 sl r5 r6 tl r7 r8 pl r9 r10 pn r11 where
      r: "ReadByte packet = Inr (t, r1)" "Read_uint32 r1 = Inr (v, r2)" "ReadByte r2 = Inr (dl, r3)"
        "ReadFull (unat dl) r3 = Inr (di, r4)" "ReadByte r4 = Inr (sl, r5)" "Discard (unat sl) r5 = Inr r6"
        "qtls_ReadUvarint r6 = Inr (tl, r7)" "Discard (unat tl) r7 = Inr r8" "qtls_ReadUvarint r8 = Inr (pl, r9)"
        "Discard 4 r9 = Inr r10" "ReadFull 16 r10 = Inr (pn, r11)"
      and h: "length packet - length r9 + unat pl \<le> length packet"
        "h = \<lparr>qh_version = v, qh_destConnID = di, qh_hdrLen = length packet - length r9, qh_packetLen = pl, qh_pnBytes = pn\<rparr>"
    using assms unfolding read_quic_header_def Let_def 
    by (auto simp only: bind_r_eq_Inr fail_when_bound split_paired_Ex prod.case sum.inject dest!: fail_when_passed)
  have "length r1 < length packet" "length r2 \<le> length r1" "length r3 < length r2" "length r4 \<le> length r3" "length r5 < length r4"
      "length r6 \<le> length r5" "length r7 < length r6" "length r8 \<le> length r7" "length r9 < length r8" "4 \<le> length r9"
    using r ReadByte_shorter qtls_ReadUvarint_shorter
    by (auto simp: Read_uint32_def ReadFull_def Discard_def split: if_splits)
  then show "qh_hdrLen h + unat (qh_packetLen h) \<le> length packet" "qh_hdrLen h + 4 \<le> length packet" "packet \<noteq> []"
    using h by auto
qed

lemma slice_of_length: "slice_of bs i j = Inr x \<Longrightarrow> length x = j - i \<and> i \<le> j \<and> j \<le> length bs"
  by (auto simp: slice_of_def split: if_splits)

lemma decrypt_no_panic:
  assumes "read_quic_header packet = Inr h" and "lib_no_panic S"
  shows "no_panic (quic_decrypt S packet h)"
proof -
  note p = header_in_packet [OF assms(1)]
  have label: "no_panic (HKDFExpandLabel S x [] l n)" "HKDFExpandLabel S x [] l n = Inr y \<Longrightarrow> length y = n" for x l n y
    using assms(2) by (auto simp: HKDFExpandLabel_def Let_def lib_no_panic_def)
  have len: "length (unmask m packet k) = length packet" for m k by (simp add: unmask_def)
  have pn: "unat (and b 3) \<le> 3" for b :: u8
  proof -
    have "and b 3 \<le> 3" by (rule word_and_le1)
    then show ?thesis by (simp add: word_le_nat_alt)
  qed
  have "no_panic (xorNonceAEAD_Open S k iv n c a)" if "length iv = 12" for k iv n c a
    using assms(2) that by (simp add: xorNonceAEAD_Open_def lib_no_panic_def)
  with label p pn show ?thesis unfolding quic_decrypt_def Let_def
    by (auto intro!: no_panic_bind simp: len dest!: slice_of_length)
qed

text \<open>C30 (sniffers_no_panic): No sniffer but the one of QUIC panics, on any stream or packet, if the packages it calls do not; nor does
  reading the header of a QUIC packet and decrypting it.\<close>
theorem sniffers_no_panic:
  assumes "lib_no_panic S"
  shows "(case run_stream_sniffer S s c reader of (c', None) \<Rightarrow> True | (c', Some e) \<Rightarrow> \<not> is_panic e) \<and>
    (t \<noteq> QUICClientHello \<longrightarrow> (\<exists>c' r. run_packet_sniffer S t c packet = Some (c', r) \<and> (r = None \<or> (\<exists>e. r = Some e \<and> \<not> is_panic e)))) \<and>
    no_panic (bind_r (read_quic_header packet) (quic_decrypt S packet))"
proof (intro conjI)
  show "no_panic (bind_r (read_quic_header packet) (quic_decrypt S packet))"
    by (rule no_panic_bind [OF header_no_panic]) (rule decrypt_no_panic [OF _ assms])
qed (use stream_no_panic [OF assms] packet_no_panic [OF assms, of t c packet] in \<open>fastforce split: prod.splits option.splits\<close>)+

theorem sniffers_no_panic_witness:
  "(case run_stream_sniffer sample_sniff_lib SSH new_context [bytes_of ''SSH-2.0-x''] of (c', None) \<Rightarrow> True | (c', Some e) \<Rightarrow> \<not> is_panic e) \<and>
   (\<exists>c' r. run_packet_sniffer sample_sniff_lib UTP new_context (replicate 20 1) = Some (c', r) \<and> (r = None \<or> (\<exists>e. r = Some e \<and> \<not> is_panic e))) \<and>
   no_panic (bind_r (read_quic_header (replicate 20 1)) (quic_decrypt sample_sniff_lib (replicate 20 1)))"
proof -
  have "lib_no_panic sample_sniff_lib" by (simp add: lib_no_panic_def sample_sniff_lib_def)
  from sniffers_no_panic [OF this, of SSH new_context "[bytes_of ''SSH-2.0-x'']" UTP "replicate 20 1"] show ?thesis by simp
qed

section \<open>Verdicts on a stream are final\<close>

text \<open>A reader that has decided on the bytes that are there decides the same when more arrive.\<close>

definition prefix_stable :: "(bytes \<Rightarrow> bytes result) \<Rightarrow> bool" where
  "prefix_stable p \<longleftrightarrow> (\<forall>bs cont.
     (\<forall>rest. p bs = Inr rest \<longrightarrow> p (bs @ cont) = Inr (rest @ cont)) \<and>
     (\<forall>e. p bs = Inl e \<longrightarrow> \<not> is_NeedMoreData e \<longrightarrow> p (bs @ cont) = Inl e))"

lemma prefix_stable_run: "list_all prefix_stable ps \<Longrightarrow> prefix_stable (run_steps ps)"
proof (induction ps)
  case (Cons p ps)
  then have p: "prefix_stable p" "prefix_stable (run_steps ps)" by simp_all
  show ?case unfolding prefix_stable_def
  proof (intro allI)
    fix bs cont
    show "(\<forall>rest. run_steps (p # ps) bs = Inr rest \<longrightarrow> run_steps (p # ps) (bs @ cont) = Inr (rest @ cont)) \<and>
      (\<forall>e. run_steps (p # ps) bs = Inl e \<longrightarrow> \<not> is_NeedMoreData e \<longrightarrow> run_steps (p # ps) (bs @ cont) = Inl e)"
    proof (cases "p bs")
      case (Inl e)
      with p(1) show ?thesis by (auto simp: prefix_stable_def)
    next
      case (Inr rest)
      moreover from this p(1) have "p (bs @ cont) = Inr (rest @ cont)" by (auto simp: prefix_stable_def)
      ultimately show ?thesis using p(2) by (simp add: prefix_stable_def)
    qed
  qed
qed (simp add: prefix_stable_def)

lemma need_more_simps [simp]: "is_NeedMoreData (need_more e)" "is_NeedMoreData ErrNeedMoreData"
  by (simp_all add: need_more_def ErrNeedMoreData_def)

lemma reads_more:
  "ReadByte bs = Inr (x, rest) \<Longrightarrow> ReadByte (bs @ cont) = Inr (x, rest @ cont)"
  "ReadFull n bs = Inr (y, rest) \<Longrightarrow> ReadFull n (bs @ cont) = Inr (y, rest @ cont)"
  "Read_uint16 bs = Inr (z, rest) \<Longrightarrow> Read_uint16 (bs @ cont) = Inr (z, rest @ cont)"
  by (cases bs; auto) (auto simp: Read_uint16_def ReadFull_def split: if_splits)

lemma rdp_stable: "list_all prefix_stable (map (\<lambda>p bs. bind_r (p bs) (\<lambda>(_, rest). Inr rest)) rdp_steps)"
proof -
  have e: "prefix_stable (\<lambda>bs. bind_r (rdp_expect p v bs) (\<lambda>(_, rest). Inr rest))"
    if "\<And>bs x rest cont. p bs = Inr (x, rest) \<Longrightarrow> p (bs @ cont) = Inr (x, rest @ cont)" for p :: "'a::len word reader" and v
    unfolding prefix_stable_def rdp_expect_def
    using that by (auto simp: bind_r_eq_Inl split: sum.splits if_splits)
  have "prefix_stable (\<lambda>bs. bind_r (rdp_skip n bs) (\<lambda>(_, rest). Inr rest))" for n
    unfolding prefix_stable_def rdp_skip_def
    using reads_more(2) by (auto simp: bind_r_eq_Inl split: sum.splits)
  with e [of ReadByte, OF reads_more(1)] e [of Read_uint16, OF reads_more(3)] show ?thesis by (simp add: rdp_steps_def)
qed

lemma dns_header_bad_more: "dns_header_bad bs \<Longrightarrow> dns_header_bad (bs @ cont)"
  unfolding dns_header_bad_def list_ex_iff by (elim disjE) (auto simp: nth_append)

lemma dns_final:
  assumes "sniff_StreamDomainNameQuery S c [data] = (c', r)" and "\<forall>e. r = Some e \<longrightarrow> \<not> is_NeedMoreData e"
  shows "sniff_StreamDomainNameQuery S c [data @ cont] = (c', r)"
proof (cases "Read_uint16 data")
  case (Inr p)
  then obtain len rest where p: "Read_uint16 data = Inr (len, rest)" "Read_uint16 (data @ cont) = Inr (len, rest @ cont)"
    using reads_more(3) by (cases p) blast
  show ?thesis
  proof (cases "len < 12 \<or> dns_header_bad (take (unat len) rest)")
    case True
    with p assms(1) dns_header_bad_more [of "take (unat len) rest" "take (unat len - length rest) cont"] show ?thesis
      by (auto simp: sniff_StreamDomainNameQuery_def split: if_splits)
  next
    case False
    with p assms have "unat len \<le> length rest"
      by (auto simp: sniff_StreamDomainNameQuery_def ReadFull_def split: if_splits)
    with False p assms(1) show ?thesis by (simp add: sniff_StreamDomainNameQuery_def ReadFull_def)
  qed
qed (use assms in \<open>auto simp: sniff_StreamDomainNameQuery_def\<close>)

lemma torrent_verdict:
  "sniff_BitTorrent c [b # bs] =
     (if b \<noteq> 19 then (c, Some ErrInvalid)
      else if bs = [] then (c, Some (need_more EOF))
      else if take 19 bs \<noteq> take (length (take 19 bs)) (bytes_of ''BitTorrent protocol'') then (c, Some ErrInvalid)
      else if length (take 19 bs) < 19 then (c, Some ErrNeedMoreData)
      else (c\<lparr>mc_Protocol := ProtocolBitTorrent\<rparr>, None))"
  by (simp add: sniff_BitTorrent_def Let_def)

lemma torrent_final:
  assumes "sniff_BitTorrent c [data] = (c', r)" and "\<forall>e. r = Some e \<longrightarrow> \<not> is_NeedMoreData e"
  shows "sniff_BitTorrent c [data @ cont] = (c', r)"
proof (cases data)
  case (Cons b bs)
  define h where "h = bytes_of ''BitTorrent protocol''"
  have longer: "take (length (take 19 bs)) (take 19 (bs @ cont)) = take 19 bs" by (simp add: min_def)
  have "take 19 (bs @ cont) \<noteq> take (length (take 19 (bs @ cont))) h" if "take 19 bs \<noteq> take (length (take 19 bs)) h"
  proof
    assume "take 19 (bs @ cont) = take (length (take 19 (bs @ cont))) h"
    then have "take 19 bs = take (length (take 19 bs)) (take (length (take 19 (bs @ cont))) h)" using longer by metis
    with that show False by (simp add: take_take min_def split: if_splits)
  qed
  moreover have "take 19 (bs @ cont) = take 19 bs" if "\<not> length (take 19 bs) < 19" using that by simp
  ultimately show ?thesis using assms unfolding Cons append_Cons torrent_verdict h_def [symmetric]
    by (auto split: if_splits simp del: take_append length_take)
qed (use assms in \<open>auto simp: sniff_BitTorrent_def\<close>)

lemma rdp_final:
  assumes "sniff_RDP c [data] = (c', r)" and "\<forall>e. r = Some e \<longrightarrow> \<not> is_NeedMoreData e"
  shows "sniff_RDP c [data @ cont] = (c', r)"
  using assms prefix_stable_run [OF rdp_stable]
  by (auto simp: sniff_RDP_def verdict_of_def prefix_stable_def split: sum.splits)

text \<open>Remark (stream_verdict_final): What the sniffers of DNS, BitTorrent and RDP decide on the bytes that have arrived does not change when
  more bytes arrive: they accept or reject early only if every continuation is accepted or rejected.\<close>
theorem stream_verdict_final:
  assumes "s \<in> {StreamDomainNameQuery, BitTorrent, RDP}"
    and "run_stream_sniffer S s c [data] = (c', r)" and "\<forall>e. r = Some e \<longrightarrow> \<not> is_NeedMoreData e"
  shows "run_stream_sniffer S s c [data @ cont] = (c', r)"
  using assms dns_final torrent_final rdp_final by auto

theorem stream_verdict_final_witness:
  "run_stream_sniffer sample_sniff_lib BitTorrent new_context [[19, 66, 105, 117] @ [1, 2, 3]] = (new_context, Some ErrInvalid)"
proof -
  have "run_stream_sniffer sample_sniff_lib BitTorrent new_context [[19, 66, 105, 117]] = (new_context, Some ErrInvalid)"
    by (simp add: torrent_verdict bytes_of_def)
  from stream_verdict_final [OF _ this] show ?thesis by (simp add: ErrInvalid_def ErrNeedMoreData_def)
qed

section \<open>Streams that arrive in parts\<close>

text \<open>Remark (torrent_split_unseen): A BitTorrent handshake whose first buffer ends inside the header is never recognised, whatever is in
  the buffers behind it: the header is taken from a single read.\<close>
lemma torrent_split_unseen:
  assumes "length b < 20" and "2 \<le> length b"
  shows "\<exists>e. sniff_BitTorrent c (b # bs) = (c, Some e)"
proof -
  obtain x y ys where b: "b = x # y # ys" using assms(2) by (cases b; cases "tl b") auto
  then show ?thesis using assms(1) unfolding sniff_BitTorrent_def Let_def b by (auto simp: bytes_of_def)
qed

text \<open>Remark (ssh_client_truncated): An SSH banner is accepted as soon as its first eight bytes are there, so the client is what has
  arrived of the line and not the line.\<close>
lemma ssh_client_truncated:
  "mc_Client (fst (sniff_SSH c [bytes_of ''SSH-2.0-Open''])) = ''Open''"
  "mc_Client (fst (sniff_SSH c [bytes_of ''SSH-2.0-OpenSSH_9'' @ [13, 10]])) = ''OpenSSH_9''"
  by (simp_all add: sniff_SSH_def ReadLine_def bytes_of_def verdict_of_def string_of_bytes_def strip_cr_def char_of_def bit_0)

section \<open>Answers among the first packets\<close>

text \<open>Remark (dns_answer_ends_sniffing): A DNS message that is no query, an answer for instance, ends sniffing with the verdict of the
  first sniffer of the default list and without a protocol: the sniffers after it never see the packet.\<close>
lemma dns_answer_ends_sniffing:
  assumes "sl_Unpack S packet = Inr (True, questions, answers, authorities)"
  shows "PeekPacket (\<lambda>s c p. the (run_packet_sniffer S s c p)) c packet default_packet_sniffers = (c, None)"
  using assms by (simp add: PeekPacket_def default_packet_sniffers_def sniff_DomainNameQuery_def)

end
