(* ===== verification/Dial_Race.thy ===== *)
theory Dial_Race
  imports Prelude
begin

text \<open>
  The race that the parallel dialers of \<^verbatim>\<open>common/dialer\<close> share. A receiving loop waits on an
  unbuffered channel of results and on a timer; the primary racers run from the start, the
  others when the timer fires, which a failure of a primary racer brings forward. A racer that
  comes with its result after the loop has returned closes its connection.

  What the goroutines bring is a sequence of events. An event that cannot happen in a state
  has no successor. When the race gives up is a parameter, in which its users differ.
\<close>

section \<open>The loop\<close>

datatype ('r, 'c) race_event = TimerFires | Arrives 'r "'c result"

record ('r, 'c) race =
  rc_running :: "'r list"
  rc_waiting :: "'r list"
  rc_timer :: "int option"
  rc_failed :: "('r \<times> error) list"
  rc_returned :: "('r \<times> 'c) result option"
  rc_closed :: "('r \<times> 'c) list"

definition race_start_with :: "'r list \<Rightarrow> 'r list \<Rightarrow> int option \<Rightarrow> ('r, 'c) race" where
  "race_start_with primaries fallbacks timer =
     \<lparr>rc_running = primaries, rc_waiting = fallbacks, rc_timer = timer, rc_failed = [], rc_returned = None, rc_closed = []\<rparr>"

fun race_step ::
  "(('r \<times> error) list \<Rightarrow> error option) \<Rightarrow> ('r \<Rightarrow> bool) \<Rightarrow> ('r, 'c) race_event \<Rightarrow> ('r, 'c) race \<Rightarrow> ('r, 'c) race option" where
  "race_step give_up primary TimerFires s =
     (if rc_timer s \<noteq> None \<and> rc_returned s = None
      then Some (s\<lparr>rc_running := rc_running s @ rc_waiting s, rc_waiting := [], rc_timer := None\<rparr>)
      else None)"
| "race_step give_up primary (Arrives r res) s =
     (if r \<notin> set (rc_running s) then None
      else
        (let s1 = s\<lparr>rc_running := remove1 r (rc_running s)\<rparr> in
         case rc_returned s of
           Some _ \<Rightarrow> (case res of Inl e \<Rightarrow> Some s1 | Inr c \<Rightarrow> Some (s1\<lparr>rc_closed := rc_closed s @ [(r, c)]\<rparr>))
         | None \<Rightarrow>
             (case res of
                Inr c \<Rightarrow> Some (s1\<lparr>rc_returned := Some (Inr (r, c))\<rparr>)
              | Inl e \<Rightarrow>
                  (let s2 = s1\<lparr>rc_failed := rc_failed s @ [(r, e)]\<rparr> in
                   case give_up (rc_failed s2) of
                     Some e' \<Rightarrow> Some (s2\<lparr>rc_returned := Some (Inl e')\<rparr>)
                   | None \<Rightarrow> Some (if primary r then s2\<lparr>rc_timer := map_option (\<lambda>_. 0) (rc_timer s)\<rparr> else s2)))))"

text \<open>A schedule: when the timer fires and in which order the racers come back with their results.\<close>

datatype 'r race_tick = Timer | Comes 'r

fun tick_event :: "('r \<Rightarrow> 'c result) \<Rightarrow> 'r race_tick \<Rightarrow> ('r, 'c) race_event" where
  "tick_event result Timer = TimerFires"
| "tick_event result (Comes r) = Arrives r (result r)"

fun race_run ::
  "(('r \<times> error) list \<Rightarrow> error option) \<Rightarrow> ('r \<Rightarrow> bool) \<Rightarrow> ('r, 'c) race_event list \<Rightarrow> ('r, 'c) race \<Rightarrow> ('r, 'c) race option" where
  "race_run give_up primary [] s = Some s"
| "race_run give_up primary (ev # evs) s = Option.bind (race_step give_up primary ev s) (race_run give_up primary evs)"

lemma race_run_append:
  "race_run g p (xs @ ys) s = Option.bind (race_run g p xs s) (race_run g p ys)"
  by (induction xs arbitrary: s) (auto split: bind_split)

section \<open>What a race promises\<close>

text \<open>The connections that racers have brought so far, in the order they arrived.\<close>

fun arrived :: "('r, 'c) race_event list \<Rightarrow> ('r \<times> 'c) list" where
  "arrived [] = []"
| "arrived (Arrives r (Inr c) # evs) = (r, c) # arrived evs"
| "arrived (_ # evs) = arrived evs"

fun failures :: "('r, 'c) race_event list \<Rightarrow> ('r \<times> error) list" where
  "failures [] = []"
| "failures (Arrives r (Inl e) # evs) = (r, e) # failures evs"
| "failures (_ # evs) = failures evs"

lemma arrived_append [simp]: "arrived (xs @ ys) = arrived xs @ arrived ys"
  by (induction xs rule: arrived.induct) simp_all

lemma failures_append [simp]: "failures (xs @ ys) = failures xs @ failures ys"
  by (induction xs rule: failures.induct) simp_all

text \<open>Only racers of the race bring anything.\<close>

lemma race_step_racers:
  assumes "race_step g p ev s = Some s'"
  shows "set (rc_running s') \<union> set (rc_waiting s') \<subseteq> set (rc_running s) \<union> set (rc_waiting s)"
    and "Arrives r res = ev \<Longrightarrow> r \<in> set (rc_running s)"
  using assms set_remove1_subset
  by (cases ev; fastforce simp: Let_def split: if_splits option.splits sum.splits)+

lemma arrived_racers:
  "race_run g p evs s = Some s' \<Longrightarrow> (r, c) \<in> set (arrived evs) \<Longrightarrow> r \<in> set (rc_running s) \<union> set (rc_waiting s)"
proof (induction evs arbitrary: s)
  case (Cons ev evs)
  then obtain s1 where step: "race_step g p ev s = Some s1" and rest: "race_run g p evs s1 = Some s'"
    by (auto simp: bind_eq_Some_conv)
  have "(r, c) \<in> set (arrived evs) \<or> ev = Arrives r (Inr c)"
    using Cons.prems(2) by (cases "ev # evs" rule: arrived.cases) auto
  with Cons.IH [OF rest] race_step_racers [OF step] show ?case by blast
qed simp

text \<open>A race among racers that gives up exactly when all of them have failed.\<close>

locale dial_race =
  fixes primaries fallbacks :: "'r list" and timer :: "int option"
    and give_up :: "('r \<times> error) list \<Rightarrow> error option" and primary :: "'r \<Rightarrow> bool"
  assumes racers: "distinct (primaries @ fallbacks)" "primaries @ fallbacks \<noteq> []"
    and timed: "fallbacks \<noteq> [] \<Longrightarrow> timer \<noteq> None"
    and gives_up: "set (map fst es) \<subseteq> set (primaries @ fallbacks) \<Longrightarrow> distinct (map fst es) \<Longrightarrow>
      (give_up es \<noteq> None) = (set (map fst es) = set (primaries @ fallbacks))"
begin

definition race_ok :: "('r, 'c) race_event list \<Rightarrow> ('r, 'c) race \<Rightarrow> bool" where
  "race_ok evs s \<longleftrightarrow>
     (rc_returned s = None \<longrightarrow>
        distinct (rc_running s @ rc_waiting s @ map fst (rc_failed s)) \<and>
        set (rc_running s @ rc_waiting s @ map fst (rc_failed s)) = set (primaries @ fallbacks) \<and>
        arrived evs = [] \<and> rc_failed s = failures evs \<and> rc_closed s = [] \<and>
        (rc_waiting s \<noteq> [] \<longrightarrow> rc_timer s \<noteq> None) \<and> (rc_running s \<noteq> [] \<or> rc_waiting s \<noteq> [])) \<and>
     (\<forall>r c. rc_returned s = Some (Inr (r, c)) \<longrightarrow> arrived evs = (r, c) # tl (arrived evs) \<and> rc_closed s = tl (arrived evs)) \<and>
     (\<forall>e. rc_returned s = Some (Inl e) \<longrightarrow>
        arrived evs = [] \<and> rc_running s = [] \<and> set (map fst (failures evs)) = set (primaries @ fallbacks) \<and> give_up (failures evs) = Some e \<and>
        rc_closed s = [])"

lemma race_ok_start: "race_ok [] (race_start_with primaries fallbacks timer)"
  using racers timed by (auto simp: race_ok_def race_start_with_def)

lemma race_ok_timer:
  assumes "race_ok evs s" and "race_step give_up primary TimerFires s = Some s'"
  shows "race_ok (evs @ [TimerFires]) s'"
proof -
  have "s' = s\<lparr>rc_running := rc_running s @ rc_waiting s, rc_waiting := [], rc_timer := None\<rparr>" "rc_returned s = None"
    using assms(2) by (auto split: if_splits)
  with assms(1) show ?thesis by (clarsimp simp: race_ok_def simp del: distinct_append set_append)
qed

lemma race_ok_late:
  assumes "race_ok evs s" and "race_step give_up primary (Arrives r res) s = Some s'" and "rc_returned s \<noteq> None"
  shows "race_ok (evs @ [Arrives r res]) s'"
proof (cases "rc_returned s")
  case (Some x)
  show ?thesis
  proof (cases x)
    case (Inl e)
    with assms Some show ?thesis by (auto simp: race_ok_def)
  next
    case (Inr y)
    obtain r1 c1 where y: "y = (r1, c1)" by fastforce
    from assms(1) Some Inr y have a: "arrived evs = (r1, c1) # tl (arrived evs)" "rc_closed s = tl (arrived evs)"
      by (auto simp: race_ok_def)
    then obtain as where as: "arrived evs = (r1, c1) # as" "rc_closed s = as" by simp
    with assms Some Inr y show ?thesis by (cases res) (auto simp: race_ok_def Let_def split: if_splits)
  qed
qed (use assms in simp)

lemma race_ok_first:
  assumes "race_ok evs s" and "race_step give_up primary (Arrives r res) s = Some s'" and "rc_returned s = None"
  shows "race_ok (evs @ [Arrives r res]) s'"
proof -
  have r: "r \<in> set (rc_running s)" using assms(2) by (auto split: if_splits)
  have f: "rc_failed s = failures evs" using assms(1,3) by (simp add: race_ok_def)
  from assms(1,3) have ok: "distinct (rc_running s @ rc_waiting s @ map fst (failures evs))"
      "set (rc_running s @ rc_waiting s @ map fst (failures evs)) = set (primaries @ fallbacks)"
      "arrived evs = []" "rc_failed s = failures evs" "rc_closed s = []" "rc_waiting s \<noteq> [] \<longrightarrow> rc_timer s \<noteq> None"
    unfolding race_ok_def f by blast+
  show ?thesis
  proof (cases res)
    case (Inr c)
    with assms(2,3) r ok show ?thesis by (auto simp: race_ok_def Let_def)
  next
    case (Inl e)
    let ?es = "failures evs @ [(r, e)]"
    have d: "distinct (remove1 r (rc_running s) @ rc_waiting s @ map fst ?es)"
      and all: "set (remove1 r (rc_running s) @ rc_waiting s @ map fst ?es) = set (primaries @ fallbacks)"
      using ok(1,2) r by (auto simp: set_remove1_eq)
    have g: "(give_up ?es \<noteq> None) = (set (map fst ?es) = set (primaries @ fallbacks))"
      by (rule gives_up) (use d all in auto)
    show ?thesis
    proof (cases "give_up ?es")
      case None
      have "remove1 r (rc_running s) \<noteq> [] \<or> rc_waiting s \<noteq> []"
      proof (rule ccontr)
        assume "\<not> ?thesis"
        then have "set (map fst ?es) = set (primaries @ fallbacks)" using all by simp
        with g None show False by simp
      qed
      moreover have "s' = (if primary r then s\<lparr>rc_running := remove1 r (rc_running s), rc_failed := ?es, rc_timer := map_option (\<lambda>_. 0) (rc_timer s)\<rparr>
          else s\<lparr>rc_running := remove1 r (rc_running s), rc_failed := ?es\<rparr>)"
        using None assms(2,3) r Inl ok(4) by (simp add: Let_def)
      ultimately show ?thesis using assms(3) d all Inl ok(3-6)
        by (simp add: race_ok_def del: set_append set_map distinct_append)
    next
      case (Some e')
      with g have full: "set (map fst ?es) = set (primaries @ fallbacks)" by simp
      have "remove1 r (rc_running s) = []"
      proof (rule ccontr)
        assume "\<not> ?thesis"
        then obtain x where x: "x \<in> set (remove1 r (rc_running s))" by (cases "remove1 r (rc_running s)") auto
        then have "x \<in> set (map fst ?es)" unfolding full all [symmetric] by simp
        with x d show False by (simp only: distinct_append set_append) blast
      qed
      moreover have "s' = s\<lparr>rc_running := remove1 r (rc_running s), rc_failed := ?es, rc_returned := Some (Inl e')\<rparr>"
        using Some assms(2,3) r Inl ok(4) by (simp add: Let_def)
      ultimately show ?thesis using Some full Inl ok(3,5)
        by (simp add: race_ok_def del: set_append set_map)
    qed
  qed
qed

lemma race_ok_step:
  "race_ok evs s \<Longrightarrow> race_step give_up primary ev s = Some s' \<Longrightarrow> race_ok (evs @ [ev]) s'"
  by (cases ev; cases "rc_returned s") (use race_ok_timer race_ok_late race_ok_first in blast)+

lemma race_ok_run:
  "race_run give_up primary evs (race_start_with primaries fallbacks timer) = Some s \<Longrightarrow> race_ok evs s"
proof (induction evs arbitrary: s rule: rev_induct)
  case Nil
  then show ?case by (auto simp: race_ok_start)
next
  case (snoc ev evs)
  then obtain s1 where "race_run give_up primary evs (race_start_with primaries fallbacks timer) = Some s1"
      "race_step give_up primary ev s1 = Some s"
    by (auto simp: race_run_append bind_eq_Some_conv)
  with snoc.IH race_ok_step show ?case by blast
qed

text \<open>The race never gets stuck: as long as it has not returned, a racer is running or the timer is set.\<close>

lemma race_waits_for_something:
  assumes "race_run give_up primary evs (race_start_with primaries fallbacks timer) = Some s" and "rc_returned s = None"
  shows "rc_running s \<noteq> [] \<or> rc_timer s \<noteq> None"
  using race_ok_run [OF assms(1)] assms(2) by (auto simp: race_ok_def)

text \<open>It returns the connection that arrived first and closes all others, or an error once every racer has failed.\<close>

lemma race_outcome_first:
  assumes "race_run give_up primary evs (race_start_with primaries fallbacks timer) = Some s"
  shows "case arrived evs of
      [] \<Rightarrow> rc_closed s = [] \<and> (rc_returned s = None \<or> (\<exists>e. rc_returned s = Some (Inl e) \<and> give_up (failures evs) = Some e \<and>
        set (map fst (failures evs)) = set (primaries @ fallbacks)))
    | (r, c) # as \<Rightarrow> rc_returned s = Some (Inr (r, c)) \<and> rc_closed s = as"
proof -
  note ok = race_ok_run [OF assms]
  show ?thesis
  proof (cases "rc_returned s")
    case None
    with ok show ?thesis by (auto simp: race_ok_def)
  next
    case (Some x)
    with ok show ?thesis by (cases x) (auto simp: race_ok_def split: list.splits)
  qed
qed

text \<open>Each event uses up a racer or the timer.\<close>

lemma race_events_bounded:
  assumes "race_run give_up primary evs s = Some s'"
  shows "length evs + (length (rc_running s') + length (rc_waiting s') + (if rc_timer s' = None then 0 else 1)) \<le>
    length (rc_running s) + length (rc_waiting s) + (if rc_timer s = None then 0 else 1)"
  using assms
proof (induction evs arbitrary: s)
  case (Cons ev evs)
  then obtain s1 where s1: "race_step give_up primary ev s = Some s1" "race_run give_up primary evs s1 = Some s'"
    by (auto simp: bind_eq_Some_conv)
  have "Suc (length (rc_running s1) + length (rc_waiting s1) + (if rc_timer s1 = None then 0 else 1)) \<le>
      length (rc_running s) + length (rc_waiting s) + (if rc_timer s = None then 0 else 1)"
  proof (cases ev)
    case (Arrives r res)
    with s1(1) have r: "r \<in> set (rc_running s)" by (auto split: if_splits)
    then have "length (rc_running s) > 0" by (cases "rc_running s") auto
    with s1(1) Arrives r show ?thesis
      by (auto simp: Let_def length_remove1 split: if_splits option.splits sum.splits)
  qed (use s1(1) in \<open>auto split: if_splits\<close>)
  with Cons.IH [OF s1(2)] show ?case by simp
qed simp

end

end
