(* ===== verification/Dialers.thy ===== *)
theory Dialers
  imports Dial_Race DNS_Client Outbound_Groups
begin

text \<open>
  The dialers of \<^verbatim>\<open>common/dialer\<close>. A dialer is seen through the calls it gets: \<open>dial_call\<close> is a call
  with its arguments, and a dialer answers a call with a connection or an error; the calls it got
  before are an argument of the answer, so that repeated calls may be answered differently. Whether
  a dialer implements \<^verbatim>\<open>ParallelInterfaceDialer\<close> and \<^verbatim>\<open>ParallelNetworkDialer\<close> are two flags of it. The
  operations return their result together with the calls they have made, in order.

  Connections and packet connections are type parameters. \<open>dial_lib\<close> holds what \<^verbatim>\<open>sagernet/sing\<close>
  provides: addresses, joined errors, the name of a network and the default fallback delay.
\<close>

section \<open>Calls\<close>

record dial_lib =
  dz_lib :: lib
  dz_SocksaddrFrom :: "addr \<Rightarrow> u16 \<Rightarrow> socksaddr"
  dz_Errors :: "error list \<Rightarrow> error"
  dz_NetworkName :: "string \<Rightarrow> string"
  dz_DefaultFallbackDelay :: duration

record net_options =
  no_Strategy :: "network_strategy option"
  no_Type :: "interface_type list"
  no_FallbackType :: "interface_type list"
  no_FallbackDelay :: duration

datatype dial_call =
    CallDialContext string socksaddr
  | CallDialParallelInterface string socksaddr net_options
  | CallDialParallelNetwork string socksaddr "addr list" net_options
  | CallListenPacket socksaddr
  | CallListenSerialInterfacePacket socksaddr net_options
  | CallListenSerialNetworkPacket socksaddr "addr list" net_options

record ('c, 'p) dialer =
  dl_outbound :: "(string \<times> string) option"
  dl_parallel_interface :: bool
  dl_parallel_network :: bool
  dl_dial :: "dial_call list \<Rightarrow> dial_call \<Rightarrow> 'c result"
  dl_listen :: "dial_call list \<Rightarrow> dial_call \<Rightarrow> ('p \<times> addr) result"

type_synonym 'a tried = "'a result \<times> dial_call list"

definition call_once :: "(dial_call list \<Rightarrow> dial_call \<Rightarrow> 'a result) \<Rightarrow> dial_call \<Rightarrow> 'a tried" where
  "call_once ask c = (ask [] c, [c])"

text \<open>The loop over the calls: the first that succeeds ends it, the errors are joined.\<close>

fun try_calls ::
  "(error list \<Rightarrow> error) \<Rightarrow> (dial_call list \<Rightarrow> dial_call \<Rightarrow> 'a result) \<Rightarrow> dial_call list \<Rightarrow> error list \<Rightarrow> dial_call list \<Rightarrow> 'a tried" where
  "try_calls join ask made errors [] = (Inl (join errors), made)"
| "try_calls join ask made errors (c # cs) =
     (case ask made c of
        Inr x \<Rightarrow> (Inr x, made @ [c])
      | Inl e \<Rightarrow> try_calls join ask (made @ [c]) (errors @ [e]) cs)"

definition invalid_usage :: error where
  "invalid_usage = EPanic ''invalid usage''"

definition dial_addresses :: "dial_lib \<Rightarrow> socksaddr \<Rightarrow> addr list \<Rightarrow> addr list result" where
  "dial_addresses Z destination addresses =
     (if addresses = [] then (if lib_IsIP (dz_lib Z) destination then Inr [sa_Addr destination] else Inl invalid_usage)
      else Inr addresses)"

section \<open>One address after the other\<close>

definition DialSerialNetwork ::
  "dial_lib \<Rightarrow> ('c, 'p) dialer \<Rightarrow> string \<Rightarrow> socksaddr \<Rightarrow> addr list \<Rightarrow> net_options \<Rightarrow> 'c tried" where
  "DialSerialNetwork Z D network destination addresses opts =
     (case dial_addresses Z destination addresses of
        Inl e \<Rightarrow> (Inl e, [])
      | Inr destinationAddresses \<Rightarrow>
          if dl_parallel_network D then call_once (dl_dial D) (CallDialParallelNetwork network destination destinationAddresses opts)
          else if dl_parallel_interface D then
            try_calls (dz_Errors Z) (dl_dial D) [] []
              (map (\<lambda>a. CallDialParallelInterface network (dz_SocksaddrFrom Z a (sa_Port destination)) opts) destinationAddresses)
          else
            try_calls (dz_Errors Z) (dl_dial D) [] []
              (map (\<lambda>a. CallDialContext network (dz_SocksaddrFrom Z a (sa_Port destination))) destinationAddresses))"

text \<open>The address that the loop of \<^verbatim>\<open>ListenSerialNetworkPacket\<close> returns is the one of the call that succeeded.\<close>

definition listen_at :: "('c, 'p) dialer \<Rightarrow> (dial_call \<times> addr) list \<Rightarrow> dial_call list \<Rightarrow> dial_call \<Rightarrow> ('p \<times> addr) result" where
  "listen_at D calls made c =
     (case dl_listen D made c of
        Inl e \<Rightarrow> Inl e
      | Inr (conn, _) \<Rightarrow> Inr (conn, snd (calls ! length made)))"

definition ListenSerialNetworkPacket ::
  "dial_lib \<Rightarrow> ('c, 'p) dialer \<Rightarrow> socksaddr \<Rightarrow> addr list \<Rightarrow> net_options \<Rightarrow> ('p \<times> addr) tried" where
  "ListenSerialNetworkPacket Z D destination addresses opts =
     (case dial_addresses Z destination addresses of
        Inl e \<Rightarrow> (Inl e, [])
      | Inr destinationAddresses \<Rightarrow>
          if dl_parallel_network D then call_once (dl_listen D) (CallListenSerialNetworkPacket destination destinationAddresses opts)
          else
            (let at = (\<lambda>a. dz_SocksaddrFrom Z a (sa_Port destination));
                 calls = map (\<lambda>a. (if dl_parallel_interface D then CallListenSerialInterfacePacket (at a) opts else CallListenPacket (at a), a))
                             destinationAddresses
             in try_calls (dz_Errors Z) (listen_at D calls) [] [] (map fst calls)))"

section \<open>Both address families at once\<close>

text \<open>\<^verbatim>\<open>netip.Addr\<close>: IPv4, and IPv4 mapped into IPv6.\<close>

fun Addr_Is4 :: "addr \<Rightarrow> bool" where
  "Addr_Is4 (IPv4 _) = True"
| "Addr_Is4 _ = False"

fun Addr_Is6 :: "addr \<Rightarrow> bool" where
  "Addr_Is6 (IPv6 _ _) = True"
| "Addr_Is6 _ = False"

fun Addr_Is4In6 :: "addr \<Rightarrow> bool" where
  "Addr_Is4In6 (IPv6 w _) = (drop_bit 32 w = 0xffff)"
| "Addr_Is4In6 _ = False"

definition addresses4 :: "addr list \<Rightarrow> addr list" where
  "addresses4 as = filter (\<lambda>a. Addr_Is4 a \<or> Addr_Is4In6 a) as"

definition addresses6 :: "addr list \<Rightarrow> addr list" where
  "addresses6 as = filter (\<lambda>a. Addr_Is6 a \<and> \<not> Addr_Is4In6 a) as"

text \<open>The race is over when both racers have failed, with the error of the primary one.\<close>

definition both_failed :: "(bool \<times> error) list \<Rightarrow> error option" where
  "both_failed es = (case (map_of es True, map_of es False) of (Some e, Some _) \<Rightarrow> Some e | _ \<Rightarrow> None)"

definition drop_racer :: "('r \<times> 'c) result \<Rightarrow> 'c result" where
  "drop_racer r = (case r of Inl e \<Rightarrow> Inl e | Inr (_, c) \<Rightarrow> Inr c)"

text \<open>The result is \<^const>\<open>None\<close> for a schedule that ends before the race or that is impossible.\<close>

definition DialParallelNetwork ::
  "dial_lib \<Rightarrow> ('c, 'p) dialer \<Rightarrow> string \<Rightarrow> socksaddr \<Rightarrow> addr list \<Rightarrow> bool \<Rightarrow> net_options \<Rightarrow> bool race_tick list \<Rightarrow> 'c result option" where
  "DialParallelNetwork Z D network destination addresses preferIPv6 opts ticks =
     (case dial_addresses Z destination addresses of
        Inl e \<Rightarrow> Some (Inl e)
      | Inr destinationAddresses \<Rightarrow>
          (let opts1 = (if no_FallbackDelay opts = 0 then opts\<lparr>no_FallbackDelay := dz_DefaultFallbackDelay Z\<rparr> else opts);
               as4 = addresses4 destinationAddresses; as6 = addresses6 destinationAddresses in
           if as4 = [] \<or> as6 = [] then Some (fst (DialSerialNetwork Z D network destination destinationAddresses opts1))
           else
             (let primaries = (if preferIPv6 then as6 else as4); fallbacks = (if preferIPv6 then as4 else as6);
                  result = (\<lambda>primary. fst (DialSerialNetwork Z D network destination (if primary then primaries else fallbacks) opts1)) in
              case race_run both_failed (\<lambda>primary. primary) (map (tick_event result) ticks)
                     (race_start_with [True] [False] (Some (no_FallbackDelay opts1))) of
                None \<Rightarrow> None
              | Some s \<Rightarrow> map_option drop_racer (rc_returned s))))"

end
