(* ===== verification/Dialers_Props.thy ===== *)
theory Dialers_Props
  imports Dialers
begin

text \<open>
  Properties of the dialers: addresses are tried in order until one answers; the race between
  the address families returns the first connection, closes the other one and reports an error
  only when both families have failed.
\<close>

section \<open>One after the other\<close>

lemma try_calls_spec:
  "case try_calls join ask made errors cs of
     (Inr x, all) \<Rightarrow> \<exists>ds c ds'. cs = ds @ c # ds' \<and> all = made @ ds @ [c] \<and> ask (made @ ds) c = Inr x \<and>
       (\<forall>i < length ds. \<exists>e. ask (made @ take i ds) (ds ! i) = Inl e)
   | (Inl e, all) \<Rightarrow> all = made @ cs \<and> (\<exists>es. length es = length cs \<and> e = join (errors @ es) \<and>
       (\<forall>i < length cs. ask (made @ take i cs) (cs ! i) = Inl (es ! i)))"
proof (induction cs arbitrary: made errors)
  case (Cons c cs)
  show ?case
  proof (cases "ask made c")
    case (Inl e)
    obtain r all where r: "try_calls join ask (made @ [c]) (errors @ [e]) cs = (r, all)" by fastforce
    show ?thesis
    proof (cases r)
      case (Inl e1)
      with r Cons.IH [of "made @ [c]" "errors @ [e]"] obtain es where es: "all = made @ c # cs" "length es = length cs" "e1 = join (errors @ e # es)"
          "\<forall>i < length cs. ask (made @ c # take i cs) (cs ! i) = Inl (es ! i)" by auto
      have "\<forall>i < length (c # cs). ask (made @ take i (c # cs)) ((c # cs) ! i) = Inl ((e # es) ! i)"
        using es(4) \<open>ask made c = Inl e\<close> by (auto simp: nth_Cons take_Cons split: nat.split)
      with r Inl \<open>ask made c = Inl e\<close> es show ?thesis by (auto intro!: exI [of _ "e # es"])
    next
      case (Inr x)
      with r Cons.IH [of "made @ [c]" "errors @ [e]"] obtain ds d ds' where ds: "cs = ds @ d # ds'" "all = made @ c # ds @ [d]"
          "ask (made @ c # ds) d = Inr x" "\<forall>i < length ds. \<exists>e. ask (made @ c # take i ds) (ds ! i) = Inl e" by auto
      have "\<forall>i < length (c # ds). \<exists>e. ask (made @ take i (c # ds)) ((c # ds) ! i) = Inl e"
        using ds(4) \<open>ask made c = Inl e\<close> by (auto simp: nth_Cons take_Cons split: nat.split)
      with r Inr \<open>ask made c = Inl e\<close> ds show ?thesis by (auto intro!: exI [of _ "c # ds"])
    qed
  next
    case (Inr x)
    then show ?thesis by (auto intro!: exI [of _ "[]"])
  qed
qed simp

text \<open>The calls that dialling the addresses one after the other would make.\<close>

definition serial_calls :: "dial_lib \<Rightarrow> ('c, 'p) dialer \<Rightarrow> string \<Rightarrow> socksaddr \<Rightarrow> addr list \<Rightarrow> net_options \<Rightarrow> dial_call list" where
  "serial_calls Z D network destination as opts =
     map (\<lambda>a. if dl_parallel_interface D then CallDialParallelInterface network (dz_SocksaddrFrom Z a (sa_Port destination)) opts
              else CallDialContext network (dz_SocksaddrFrom Z a (sa_Port destination))) as"

text \<open>Remark (serial_dial_in_order): Dialling a list of addresses with a dialer that cannot take them all at once tries them in order, each
  at most once and with the port of the destination, and stops at the first that answers; it
  fails only after every address has failed, with all their errors.\<close>
theorem serial_dial_in_order:
  assumes "as \<noteq> []" and "\<not> dl_parallel_network D"
  shows "case DialSerialNetwork Z D network destination as opts of
      (Inr x, made) \<Rightarrow> \<exists>ds c ds'. serial_calls Z D network destination as opts = ds @ c # ds' \<and> made = ds @ [c] \<and> dl_dial D ds c = Inr x \<and>
        (\<forall>i < length ds. \<exists>e. dl_dial D (take i ds) (ds ! i) = Inl e)
    | (Inl e, made) \<Rightarrow> made = serial_calls Z D network destination as opts \<and> (\<exists>es. length es = length made \<and> e = dz_Errors Z es \<and>
        (\<forall>i < length made. dl_dial D (take i made) (made ! i) = Inl (es ! i)))"
proof -
  have "DialSerialNetwork Z D network destination as opts =
      try_calls (dz_Errors Z) (dl_dial D) [] [] (serial_calls Z D network destination as opts)"
    using assms by (simp add: DialSerialNetwork_def dial_addresses_def serial_calls_def)
  with try_calls_spec [where join = "dz_Errors Z" and ask = "dl_dial D" and made = "[]" and errors = "[]"
      and cs = "serial_calls Z D network destination as opts"] show ?thesis
    by (auto split: prod.splits sum.splits)
qed

section \<open>The race between the address families\<close>

lemma both_failed_iff:
  "distinct (map fst es) \<Longrightarrow> (both_failed es \<noteq> None) = (set (map fst es) = {True, False})"
proof -
  have "map_of es True \<noteq> None \<longleftrightarrow> True \<in> fst ` set es" "map_of es False \<noteq> None \<longleftrightarrow> False \<in> fst ` set es"
    unfolding map_of_eq_None_iff by blast+
  moreover have "fst ` set es = {True, False} \<longleftrightarrow> True \<in> fst ` set es \<and> False \<in> fst ` set es" by auto
  moreover have "(both_failed es \<noteq> None) = (map_of es True \<noteq> None \<and> map_of es False \<noteq> None)"
    by (simp add: both_failed_def split: option.split)
  ultimately show ?thesis by (simp only: set_map)
qed

interpretation network_race: dial_race "[True]" "[False]" "Some delay" both_failed "\<lambda>primary. primary" for delay
proof unfold_locales
  fix es :: "(bool \<times> error) list"
  assume "distinct (map fst es)"
  from both_failed_iff [OF this] show "(both_failed es \<noteq> None) = (set (map fst es) = set ([True] @ [False]))" by simp
qed simp_all

lemma arrived_ticks: "(r, c) \<in> set (arrived (map (tick_event result) ticks)) \<Longrightarrow> result r = Inr c \<and> Comes r \<in> set ticks"
proof (induction ticks)
  case (Cons t ticks)
  then show ?case by (cases t; cases "result (case t of Comes r \<Rightarrow> r)") auto
qed simp

lemma failures_ticks: "(r, e) \<in> set (failures (map (tick_event result) ticks)) \<Longrightarrow> result r = Inl e \<and> Comes r \<in> set ticks"
proof (induction ticks)
  case (Cons t ticks)
  then show ?case by (cases t; cases "result (case t of Comes r \<Rightarrow> r)") auto
qed simp

text \<open>What a racer of \<open>DialParallelNetwork\<close> comes back with.\<close>

definition family_result ::
  "dial_lib \<Rightarrow> ('c, 'p) dialer \<Rightarrow> string \<Rightarrow> socksaddr \<Rightarrow> addr list \<Rightarrow> bool \<Rightarrow> net_options \<Rightarrow> bool \<Rightarrow> 'c result" where
  "family_result Z D network destination as preferIPv6 opts primary =
     fst (DialSerialNetwork Z D network destination (if primary = preferIPv6 then addresses6 as else addresses4 as)
       (if no_FallbackDelay opts = 0 then opts\<lparr>no_FallbackDelay := dz_DefaultFallbackDelay Z\<rparr> else opts))"

lemma parallel_as_race:
  assumes "addresses4 as \<noteq> []" and "addresses6 as \<noteq> []"
  shows "\<exists>delay. DialParallelNetwork Z D network destination as preferIPv6 opts ticks =
    (case race_run both_failed (\<lambda>primary. primary) (map (tick_event (family_result Z D network destination as preferIPv6 opts)) ticks)
       (race_start_with [True] [False] (Some delay)) of
       None \<Rightarrow> None | Some s \<Rightarrow> map_option drop_racer (rc_returned s))"
proof -
  have "as \<noteq> []" using assms(1) by (auto simp: addresses4_def)
  moreover have "family_result Z D network destination as preferIPv6 opts = (\<lambda>primary. fst (DialSerialNetwork Z D network destination
      (if primary then if preferIPv6 then addresses6 as else addresses4 as else if preferIPv6 then addresses4 as else addresses6 as)
      (if no_FallbackDelay opts = 0 then opts\<lparr>no_FallbackDelay := dz_DefaultFallbackDelay Z\<rparr> else opts)))"
    by (auto simp: family_result_def fun_eq_iff)
  ultimately show ?thesis using assms by (auto simp: DialParallelNetwork_def dial_addresses_def Let_def)
qed

text \<open>C29 (parallel_dial_outcome): When a destination has addresses of both families and the race between them returns, in whatever order
  the timer and the two racers come, it returns the connection of a family that connected, or, only
  if both families have failed, the error of the preferred one.\<close>
theorem parallel_dial_outcome:
  assumes "addresses4 as \<noteq> []" and "addresses6 as \<noteq> []"
    and "DialParallelNetwork Z D network destination as preferIPv6 opts ticks = Some r"
  shows "(\<exists>primary. Comes primary \<in> set ticks \<and> r = family_result Z D network destination as preferIPv6 opts primary \<and> (\<exists>c. r = Inr c)) \<or>
    (\<exists>e e'. r = Inl e \<and> family_result Z D network destination as preferIPv6 opts True = Inl e \<and>
       family_result Z D network destination as preferIPv6 opts False = Inl e')"
proof -
  let ?res = "family_result Z D network destination as preferIPv6 opts"
  let ?evs = "map (tick_event ?res) ticks"
  obtain delay s x where s: "race_run both_failed (\<lambda>primary. primary) ?evs (race_start_with [True] [False] (Some delay)) = Some s"
      and x: "rc_returned s = Some x" "r = drop_racer x"
    using assms(3) parallel_as_race [OF assms(1,2), of Z D network destination preferIPv6 opts ticks]
    by (auto simp: map_option_case split: option.splits)
  note o = network_race.race_outcome_first [OF s]
  show ?thesis
  proof (cases "arrived ?evs")
    case Nil
    with o x obtain e where e: "x = Inl e" "both_failed (failures ?evs) = Some e" "set (map fst (failures ?evs)) = {True, False}" by auto
    then obtain e' where "map_of (failures ?evs) True = Some e" "map_of (failures ?evs) False = Some e'"
      by (auto simp: both_failed_def split: option.splits)
    then have "(True, e) \<in> set (failures ?evs)" "(False, e') \<in> set (failures ?evs)" by (auto dest: map_of_SomeD)
    with failures_ticks e(1) x(2) show ?thesis by (fastforce simp: drop_racer_def)
  next
    case (Cons p ps)
    obtain w c where p: "p = (w, c)" by fastforce
    with o Cons x(1) have "x = Inr (w, c)" by simp
    moreover have "?res w = Inr c \<and> Comes w \<in> set ticks" by (rule arrived_ticks) (use Cons p in simp)
    ultimately show ?thesis using x(2) by (auto simp: drop_racer_def)
  qed
qed

text \<open>Remark (race_never_stuck): The race between the two address families cannot hang: as long as it has not returned, the racer of a family
  is still dialling or the timer that starts the other one is set; after at most three events it
  has returned, and a connection that comes too late is closed.\<close>
theorem race_never_stuck:
  assumes "race_run both_failed (\<lambda>primary. primary) evs (race_start_with [True] [False] (Some delay)) = Some s"
  shows "(rc_returned s = None \<longrightarrow> rc_running s \<noteq> [] \<or> rc_timer s \<noteq> None) \<and> length evs \<le> 3 \<and>
    (rc_running s = [] \<longrightarrow> rc_timer s = None \<longrightarrow> rc_returned s \<noteq> None) \<and>
    (\<forall>w c. (w, c) \<in> set (arrived evs) \<longrightarrow> rc_returned s = Some (Inr (w, c)) \<or> (w, c) \<in> set (rc_closed s))"
proof -
  have "length evs \<le> 3"
    using network_race.race_events_bounded [OF assms] by (simp add: race_start_with_def split: if_splits)
  moreover have "\<forall>w c. (w, c) \<in> set (arrived evs) \<longrightarrow> rc_returned s = Some (Inr (w, c)) \<or> (w, c) \<in> set (rc_closed s)"
    using network_race.race_outcome_first [OF assms] by (auto split: list.splits)
  moreover have "rc_returned s = None \<longrightarrow> rc_running s \<noteq> [] \<or> rc_timer s \<noteq> None"
    using network_race.race_waits_for_something [OF assms] by blast
  ultimately show ?thesis by blast
qed

section \<open>Samples\<close>

definition sample_dial_lib :: dial_lib where
  "sample_dial_lib = \<lparr>dz_lib = sample_lib, dz_SocksaddrFrom = (\<lambda>a p. \<lparr>sa_Addr = a, sa_Port = p, sa_Fqdn = []\<rparr>), dz_Errors = hd,
     dz_NetworkName = (\<lambda>n. n), dz_DefaultFallbackDelay = 300\<rparr>"

text \<open>A dialer that reaches IPv4 only.\<close>

definition sample_dialer :: "(nat, nat) dialer" where
  "sample_dialer = \<lparr>dl_outbound = None, dl_parallel_interface = False, dl_parallel_network = False,
     dl_dial = (\<lambda>_ c. case c of CallDialContext _ s \<Rightarrow> (case sa_Addr s of IPv4 _ \<Rightarrow> Inr 4 | _ \<Rightarrow> Inl (ENew ''unreachable'')) | _ \<Rightarrow> Inl (ENew ''no'')),
     dl_listen = (\<lambda>_ _. Inl (ENew ''no''))\<rparr>"

definition no_net_options :: net_options where
  "no_net_options = \<lparr>no_Strategy = None, no_Type = [], no_FallbackType = [], no_FallbackDelay = 0\<rparr>"

lemmas sample_dial_defs = sample_dial_lib_def sample_dialer_def no_net_options_def

theorem serial_dial_in_order_witness:
  "DialSerialNetwork sample_dial_lib sample_dialer NetworkTCP no_socksaddr [IPv6 1 [], IPv4 1] no_net_options =
     (Inr 4, serial_calls sample_dial_lib sample_dialer NetworkTCP no_socksaddr [IPv6 1 [], IPv4 1] no_net_options)"
proof -
  have r: "fst (DialSerialNetwork sample_dial_lib sample_dialer NetworkTCP no_socksaddr [IPv6 1 [], IPv4 1] no_net_options) = Inr 4"
    by (simp add: DialSerialNetwork_def dial_addresses_def sample_dial_defs no_socksaddr_def)
  obtain made where m: "DialSerialNetwork sample_dial_lib sample_dialer NetworkTCP no_socksaddr [IPv6 1 [], IPv4 1] no_net_options = (Inr 4, made)"
    using r by (cases "DialSerialNetwork sample_dial_lib sample_dialer NetworkTCP no_socksaddr [IPv6 1 [], IPv4 1] no_net_options") auto
  have "\<not> dl_parallel_network sample_dialer" by (simp add: sample_dialer_def)
  from serial_dial_in_order [OF _ this, of "[IPv6 1 [], IPv4 1]" sample_dial_lib NetworkTCP no_socksaddr no_net_options] m
  obtain ds c ds' where d: "serial_calls sample_dial_lib sample_dialer NetworkTCP no_socksaddr [IPv6 1 [], IPv4 1] no_net_options = ds @ c # ds'"
      "made = ds @ [c]" "dl_dial sample_dialer ds c = Inr 4" by auto
  then have "ds' = []"
    by (cases ds) (auto simp: serial_calls_def sample_dial_defs no_socksaddr_def Cons_eq_append_conv)
  with d m show ?thesis by simp
qed

theorem parallel_dial_outcome_witness:
  "DialParallelNetwork sample_dial_lib sample_dialer NetworkTCP no_socksaddr [IPv6 1 [], IPv4 1] True no_net_options [Comes True, Timer, Comes False] =
     Some (Inr 4) \<and>
   family_result sample_dial_lib sample_dialer NetworkTCP no_socksaddr [IPv6 1 [], IPv4 1] True no_net_options False = Inr 4"
proof -
  have f: "addresses4 [IPv6 1 [], IPv4 1] = [IPv4 1]" "addresses6 [IPv6 1 [], IPv4 1] = [IPv6 1 []]"
    by (simp_all add: addresses4_def addresses6_def)
  have "DialParallelNetwork sample_dial_lib sample_dialer NetworkTCP no_socksaddr [IPv6 1 [], IPv4 1] True no_net_options
      [Comes True, Timer, Comes False] = Some (Inr 4)"
    by (simp add: DialParallelNetwork_def f DialSerialNetwork_def dial_addresses_def sample_dial_defs no_socksaddr_def race_start_with_def
      both_failed_def drop_racer_def Let_def)
  moreover from parallel_dial_outcome [OF _ _ this] f
  have "\<exists>primary. family_result sample_dial_lib sample_dialer NetworkTCP no_socksaddr [IPv6 1 [], IPv4 1] True no_net_options primary = Inr 4" by auto
  moreover have "family_result sample_dial_lib sample_dialer NetworkTCP no_socksaddr [IPv6 1 [], IPv4 1] True no_net_options True \<noteq> Inr 4"
    by (simp add: family_result_def f DialSerialNetwork_def dial_addresses_def sample_dial_defs no_socksaddr_def)
  ultimately show ?thesis by (metis (full_types))
qed

theorem race_never_stuck_witness:
  "\<exists>s. race_run both_failed (\<lambda>primary. primary) [Arrives True (Inl ErrInvalid)] (race_start_with [True] [False] (Some 300)) = Some s \<and>
     rc_timer (s :: (bool, nat) race) \<noteq> None"
proof -
  define s :: "(bool, nat) race" where "s = \<lparr>rc_running = [], rc_waiting = [False], rc_timer = Some 0, rc_failed = [(True, ErrInvalid)],
    rc_returned = None, rc_closed = []\<rparr>"
  have r: "race_run both_failed (\<lambda>primary. primary) [Arrives True (Inl ErrInvalid)] (race_start_with [True] [False] (Some 300)) = Some s"
    by (simp add: race_start_with_def both_failed_def s_def)
  with race_never_stuck [OF r] show ?thesis by (auto simp: s_def)
qed

end
