(* ===== verification/Connection_Manager.thy ===== *)
theory Connection_Manager
  imports Dialers Sniffers
begin

text \<open>
  The connection manager of \<^verbatim>\<open>route/conn.go\<close>: how a routed connection is dialled, and the two
  goroutines that copy between the connection and its remote end.

  The goroutines are interleaved step by step. A step is chosen by a label that says which
  goroutine moves and what its I/O call answers; other labels are data that arrives, the end
  of the data, and ends that are closed from outside. \<open>conn_lib\<close> holds the operations of
  \<^verbatim>\<open>sagernet/sing\<close> on connections; copying (\<^verbatim>\<open>bufio.CopyWithCounters\<close>) is moving one chunk after
  the other.
\<close>

section \<open>Dialling\<close>

record ('c, 'p) conn_lib =
  cl_DialSerial :: "('c, 'p) dialer \<Rightarrow> string \<Rightarrow> socksaddr \<Rightarrow> addr list \<Rightarrow> 'c tried"
  cl_NewUnbindPacketConn :: "'c \<Rightarrow> 'p"
  cl_RemoteAddr :: "'c \<Rightarrow> addr"
  cl_netip_String :: "addr \<Rightarrow> string"
  cl_String :: "socksaddr \<Rightarrow> string"

definition metadata_net_options :: "inbound_context \<Rightarrow> net_options" where
  "metadata_net_options c = \<lparr>no_Strategy = mc_NetworkStrategy c, no_Type = mc_NetworkType c,
     no_FallbackType = mc_FallbackNetworkType c, no_FallbackDelay = mc_FallbackDelay c\<rparr>"

definition dial_connection :: "dial_lib \<Rightarrow> ('c, 'p) dialer \<Rightarrow> inbound_context \<Rightarrow> 'c tried" where
  "dial_connection Z this c =
     (let serial = (\<lambda>as. DialSerialNetwork Z this NetworkTCP (mc_Destination c) as (metadata_net_options c));
          direct = call_once (dl_dial this) (CallDialContext NetworkTCP (mc_Destination c)) in
      if mc_DestinationAddresses c \<noteq> [] then
        (if mc_ResolveRouteOnly c then
           (if dl_parallel_network this then serial (mc_DestinationAddresses c) else direct)
         else serial (mc_DestinationAddresses c))
      else if lib_IsIP (dz_lib Z) (mc_Destination c) then serial []
      else direct)"

definition dial_packet_connection ::
  "('c, 'p) conn_lib \<Rightarrow> dial_lib \<Rightarrow> ('c, 'p) dialer \<Rightarrow> inbound_context \<Rightarrow> 'c tried" where
  "dial_packet_connection C Z this c =
     (let serial = DialSerialNetwork Z this NetworkUDP (mc_Destination c) (mc_DestinationAddresses c) (metadata_net_options c);
          direct = call_once (dl_dial this) (CallDialContext NetworkUDP (mc_Destination c)) in
      if mc_DestinationAddresses c \<noteq> [] then
        (if mc_ResolveRouteOnly c then (if dl_parallel_network this then serial else direct)
         else if dl_parallel_interface this then serial
         else cl_DialSerial C this NetworkUDP (mc_Destination c) (mc_DestinationAddresses c))
      else if lib_IsIP (dz_lib Z) (mc_Destination c) then (if dl_parallel_interface this then serial else direct)
      else direct)"

definition listen_packet_connection :: "dial_lib \<Rightarrow> ('c, 'p) dialer \<Rightarrow> inbound_context \<Rightarrow> ('p \<times> addr) tried" where
  "listen_packet_connection Z this c =
     (let serial = ListenSerialNetworkPacket Z this (mc_Destination c) (mc_DestinationAddresses c) (metadata_net_options c);
          direct = (case call_once (dl_listen this) (CallListenPacket (mc_Destination c)) of
                      (Inl e, calls) \<Rightarrow> (Inl e, calls)
                    | (Inr (conn, _), calls) \<Rightarrow> (Inr (conn, NoAddr), calls)) in
      if mc_DestinationAddresses c \<noteq> [] then
        (if mc_ResolveRouteOnly c then (if dl_parallel_network this then serial else direct) else serial)
      else direct)"

section \<open>New connections\<close>

text \<open>What a call does besides starting the copy: \<^verbatim>\<open>N.CloseOnHandshakeFailure(conn, onClose, err)\<close>, and closing an end.\<close>

datatype conn_event = CloseOnHandshakeFailure error | CloseConn | CloseRemote

definition comma_join :: "string list \<Rightarrow> string" where
  "comma_join ss = (case ss of [] \<Rightarrow> [] | s # rest \<Rightarrow> s @ concat (map (\<lambda>t. '','' @ t) rest))"

definition remote_string :: "('c, 'p) conn_lib \<Rightarrow> inbound_context \<Rightarrow> string" where
  "remote_string C c =
     (if mc_DestinationAddresses c \<noteq> [] then ''['' @ comma_join (map (cl_netip_String C) (mc_DestinationAddresses c)) @ '']''
      else cl_String C (mc_Destination c))"

definition dialer_string :: "('c, 'p) dialer \<Rightarrow> string" where
  "dialer_string this =
     (case dl_outbound this of None \<Rightarrow> [] | Some (ty, tag) \<Rightarrow> '' using outbound/'' @ ty @ ''['' @ tag @ '']'')"

text \<open>
  The remote connection to copy to, with the fragmentation of TLS handshakes if it is wrapped
  (\<^verbatim>\<open>tf.NewConn\<close>); \<open>report\<close> is the answer of \<^verbatim>\<open>N.ReportConnHandshakeSuccess\<close>.
\<close>

record 'c stream_start =
  ss_remote :: 'c
  ss_fragment :: "(bool \<times> bool \<times> duration) option"

definition NewConnection ::
  "('c, 'p) conn_lib \<Rightarrow> dial_lib \<Rightarrow> ('c, 'p) dialer \<Rightarrow> ('c \<Rightarrow> error option) \<Rightarrow> inbound_context \<Rightarrow> conn_event list \<times> 'c stream_start option" where
  "NewConnection C Z this report c =
     (case fst (dial_connection Z this c) of
        Inl err \<Rightarrow> ([CloseOnHandshakeFailure (ECause err (''open connection to '' @ remote_string C c @ dialer_string this))], None)
      | Inr remoteConn \<Rightarrow>
          (case report remoteConn of
             Some err \<Rightarrow> ([CloseRemote, CloseOnHandshakeFailure (ECause err ''report handshake success'')], None)
           | None \<Rightarrow> ([], Some \<lparr>ss_remote = remoteConn,
               ss_fragment = (if mc_TLSFragment c \<or> mc_TLSRecordFragment c
                 then Some (mc_TLSFragment c, mc_TLSRecordFragment c, mc_TLSFragmentFallbackDelay c) else None)\<rparr>)))"

text \<open>How the addresses of packets are translated between the two ends.\<close>

datatype nat_wrap =
    NoNAT
  | UnidirectionalNAT socksaddr socksaddr
  | FullNAT socksaddr socksaddr
  | DestinationNAT socksaddr socksaddr

record 'p packet_start =
  ps_remote :: 'p
  ps_nat :: nat_wrap
  ps_UpdateDestination :: "addr option"
  ps_timeout :: "duration option"

definition second :: duration where
  "second = 1000000000"

definition PortProtocols :: "u16 \<Rightarrow> string" where
  "PortProtocols port = (case map_of [(53, ProtocolDNS), (123, ProtocolNTP), (3478, ProtocolSTUN), (443, ProtocolQUIC)] port of
     None \<Rightarrow> [] | Some p \<Rightarrow> p)"

definition ProtocolTimeouts :: "string \<Rightarrow> duration" where
  "ProtocolTimeouts protocol =
     (case map_of [(ProtocolDNS, 10 * second), (ProtocolNTP, 10 * second), (ProtocolSTUN, 10 * second), (ProtocolQUIC, 30 * second),
        (ProtocolDTLS, 30 * second)] protocol of None \<Rightarrow> 0 | Some t \<Rightarrow> t)"

definition udp_timeout :: "inbound_context \<Rightarrow> duration" where
  "udp_timeout c =
     (if mc_UDPTimeout c > 0 then mc_UDPTimeout c
      else
        (let protocol = (if mc_Protocol c = [] then PortProtocols (sa_Port (mc_Destination c)) else mc_Protocol c)
         in if protocol \<noteq> [] then ProtocolTimeouts protocol else 0))"

text \<open>\<open>nat_conn\<close>: the connection itself is a \<^verbatim>\<open>bufio.NATPacketConn\<close>.\<close>

definition packet_nat :: "dial_lib \<Rightarrow> bool \<Rightarrow> inbound_context \<Rightarrow> addr \<Rightarrow> nat_wrap \<times> addr option" where
  "packet_nat Z nat_conn c destinationAddress =
     (if Addr_IsValid destinationAddress then
        (let originDestination = (if lib_IsValid (dz_lib Z) (mc_RouteOriginalDestination c) then mc_RouteOriginalDestination c
                                  else mc_Destination c);
             target = dz_SocksaddrFrom Z destinationAddress (sa_Port (mc_Destination c)) in
         if nat_conn then (NoNAT, Some destinationAddress)
         else if mc_Destination c \<noteq> target then
           ((if mc_UDPDisableDomainUnmapping c then UnidirectionalNAT else FullNAT) target originDestination, None)
         else (NoNAT, None))
      else if lib_IsValid (dz_lib Z) (mc_RouteOriginalDestination c) \<and> mc_RouteOriginalDestination c \<noteq> mc_Destination c
        then (DestinationNAT (mc_Destination c) (mc_RouteOriginalDestination c), None)
      else (NoNAT, None))"

definition NewPacketConnection ::
  "('c, 'p) conn_lib \<Rightarrow> dial_lib \<Rightarrow> ('c, 'p) dialer \<Rightarrow> ('p \<Rightarrow> error option) \<Rightarrow> bool \<Rightarrow> inbound_context \<Rightarrow>
   conn_event list \<times> 'p packet_start option" where
  "NewPacketConnection C Z this report nat_conn c =
     (let opened =
        (if mc_UDPConnect c then
           (case fst (dial_packet_connection C Z this c) of
              Inl err \<Rightarrow> Inl (ECause err (''open packet connection to '' @ remote_string C c @ dialer_string this))
            | Inr remoteConn \<Rightarrow>
                Inr (cl_NewUnbindPacketConn C remoteConn,
                     if cl_RemoteAddr C remoteConn \<noteq> sa_Addr (mc_Destination c) then cl_RemoteAddr C remoteConn else NoAddr))
         else
           (case fst (listen_packet_connection Z this c) of
              Inl err \<Rightarrow> Inl (ECause err (''listen packet connection using '' @ dialer_string this))
            | Inr x \<Rightarrow> Inr x)) in
      case opened of
        Inl err \<Rightarrow> ([CloseOnHandshakeFailure err], None)
      | Inr (remotePacketConn, destinationAddress) \<Rightarrow>
          (case report remotePacketConn of
             Some err \<Rightarrow> ([CloseConn, CloseRemote], None)
           | None \<Rightarrow>
               (case packet_nat Z nat_conn c destinationAddress of
                  (wrap, update) \<Rightarrow>
                    ([], Some \<lparr>ps_remote = remotePacketConn, ps_nat = wrap, ps_UpdateDestination = update,
                      ps_timeout = (if udp_timeout c > 0 then Some (udp_timeout c) else None)\<rparr>))))"

section \<open>The two ends of a connection\<close>

text \<open>
  Chunks that have arrived and are not read yet, chunks that were written, whether the peer has
  finished sending, and what has been closed.
\<close>

record conn_end =
  en_in :: "bytes list"
  en_out :: "bytes list"
  en_eof :: bool
  en_wclosed :: bool
  en_closed :: bool

text \<open>Where a copying goroutine is; \<open>PcSwap\<close> and later ones hold the error it ends with.\<close>

datatype copy_pc =
    PcCached "bytes list"
  | PcEarly
  | PcEarlyWrite bool bytes
  | PcCopy
  | PcClose "error option"
  | PcSwap bool "error option"
  | PcOnClose "error option"
  | PcCloseBoth
  | PcEnd

record flow =
  fl_conn :: conn_end
  fl_remote :: conn_end
  fl_up :: copy_pc
  fl_down :: copy_pc
  fl_done :: bool
  fl_onClose :: "error option list"

text \<open>What the two ends are: packets or a stream, whether writing starts a handshake
  (\<^verbatim>\<open>N.EarlyConn\<close>), whether one direction can be closed (\<^verbatim>\<open>N.WriteCloser\<close>). The direction of the
  upload is \<^const>\<open>False\<close>, as in the code.\<close>

record flow_conf =
  fc_packet :: bool
  fc_early :: "bool \<Rightarrow> bool"
  fc_duplex :: "bool \<Rightarrow> bool"

definition source_of :: "bool \<Rightarrow> flow \<Rightarrow> conn_end" where
  "source_of direction f = (if direction then fl_remote f else fl_conn f)"

definition destination_of :: "bool \<Rightarrow> flow \<Rightarrow> conn_end" where
  "destination_of direction f = source_of (\<not> direction) f"

definition set_source :: "bool \<Rightarrow> conn_end \<Rightarrow> flow \<Rightarrow> flow" where
  "set_source direction e f = (if direction then f\<lparr>fl_remote := e\<rparr> else f\<lparr>fl_conn := e\<rparr>)"

definition set_destination :: "bool \<Rightarrow> conn_end \<Rightarrow> flow \<Rightarrow> flow" where
  "set_destination direction e f = set_source (\<not> direction) e f"

definition pc_of :: "bool \<Rightarrow> flow \<Rightarrow> copy_pc" where
  "pc_of direction f = (if direction then fl_down f else fl_up f)"

definition set_pc :: "bool \<Rightarrow> copy_pc \<Rightarrow> flow \<Rightarrow> flow" where
  "set_pc direction pc f = (if direction then f\<lparr>fl_down := pc\<rparr> else f\<lparr>fl_up := pc\<rparr>)"

definition write_chunk :: "bytes \<Rightarrow> conn_end \<Rightarrow> conn_end" where
  "write_chunk b e = e\<lparr>en_out := en_out e @ [b]\<rparr>"

text \<open>\<^verbatim>\<open>common.Close(source, destination)\<close>\<close>

definition close_both :: "flow \<Rightarrow> flow" where
  "close_both f = f\<lparr>fl_conn := (fl_conn f)\<lparr>en_closed := True\<rparr>, fl_remote := (fl_remote f)\<lparr>en_closed := True\<rparr>\<rparr>"

section \<open>Copying\<close>

text \<open>
  The answer of an I/O call: it succeeds, it fails, one more chunk is moved, or a write breaks off
  after some bytes; for \<^verbatim>\<open>connectionCopyEarly\<close>, how setting the deadline and reading came out.
\<close>

datatype io =
    IoOk
  | IoFail error
  | IoMove
  | IoBreak nat error
  | DeadlineInvalid
  | DeadlineFails error
  | PayloadRead
  | PayloadTimeout
  | PayloadFails error

definition copy_fails :: "bool \<Rightarrow> error \<Rightarrow> flow \<Rightarrow> flow" where
  "copy_fails direction e f = set_pc direction (PcSwap True (Some e)) f"

text \<open>A write of \<open>b\<close> to the destination, then \<open>next_pc\<close>.\<close>

definition write_step :: "bool \<Rightarrow> bytes \<Rightarrow> copy_pc \<Rightarrow> (error \<Rightarrow> error) \<Rightarrow> io \<Rightarrow> flow \<Rightarrow> flow option" where
  "write_step direction b next_pc wrap io f =
     (let dst = destination_of direction f in
      case io of
        IoOk \<Rightarrow> if en_closed dst then None else Some (set_pc direction next_pc (set_destination direction (write_chunk b dst) f))
      | IoFail e \<Rightarrow> Some (copy_fails direction (wrap e) f)
      | IoBreak n e \<Rightarrow>
          if en_closed dst then None
          else Some (copy_fails direction (wrap e) (set_destination direction (write_chunk (take n b) dst) f))
      | _ \<Rightarrow> None)"

text \<open>\<^verbatim>\<open>connectionCopyEarly\<close> up to the write.\<close>

definition early_step :: "bool \<Rightarrow> io \<Rightarrow> flow \<Rightarrow> flow option" where
  "early_step direction io f =
     (let src = source_of direction f in
      case io of
        DeadlineInvalid \<Rightarrow> Some (set_pc direction (PcEarlyWrite False []) f)
      | DeadlineFails e \<Rightarrow> if e = ErrInvalid then None else Some (copy_fails direction e f)
      | PayloadRead \<Rightarrow>
          (case en_in src of
             [] \<Rightarrow> None
           | b # bs \<Rightarrow>
               if en_closed src then None
               else Some (set_pc direction (PcEarlyWrite True b) (set_source direction (src\<lparr>en_in := bs\<rparr>) f)))
      | PayloadTimeout \<Rightarrow> Some (set_pc direction (PcEarlyWrite True []) f)
      | PayloadFails e \<Rightarrow> Some (copy_fails direction (ECause e ''read payload'') f)
      | _ \<Rightarrow> None)"

text \<open>\<^verbatim>\<open>bufio.CopyWithCounters\<close> and \<^verbatim>\<open>bufio.CopyPacket\<close>; \<open>finish\<close> is what comes after it.\<close>

definition move_step :: "bool \<Rightarrow> (error option \<Rightarrow> copy_pc) \<Rightarrow> io \<Rightarrow> flow \<Rightarrow> flow option" where
  "move_step direction finish io f =
     (let src = source_of direction f; dst = destination_of direction f in
      case io of
        IoMove \<Rightarrow>
          (case en_in src of
             [] \<Rightarrow> None
           | b # bs \<Rightarrow>
               if en_closed src \<or> en_closed dst then None
               else Some (set_destination direction (write_chunk b dst) (set_source direction (src\<lparr>en_in := bs\<rparr>) f)))
      | IoBreak n e \<Rightarrow>
          (case en_in src of
             [] \<Rightarrow> None
           | b # bs \<Rightarrow>
               if en_closed src \<or> en_closed dst then None
               else Some (set_pc direction (finish (Some e))
                 (set_destination direction (write_chunk (take n b) dst) (set_source direction (src\<lparr>en_in := bs\<rparr>) f))))
      | IoFail e \<Rightarrow> Some (set_pc direction (finish (Some e)) f)
      | IoOk \<Rightarrow> if en_eof src \<and> en_in src = [] \<and> \<not> en_closed src then Some (set_pc direction (finish None) f) else None
      | _ \<Rightarrow> None)"

text \<open>The closing after a copy that has ended: both ends after an error, else one direction if the destination can.\<close>

definition close_step :: "flow_conf \<Rightarrow> bool \<Rightarrow> error option \<Rightarrow> io \<Rightarrow> flow \<Rightarrow> flow option" where
  "close_step conf direction err io f =
     (let dst = destination_of direction f in
      case err of
        Some e \<Rightarrow> if io = IoOk then Some (set_pc direction (PcSwap False err) (close_both f)) else None
      | None \<Rightarrow>
          if fc_duplex conf (\<not> direction) then
            (case io of
               IoOk \<Rightarrow> Some (set_pc direction (PcSwap False None) (set_destination direction (dst\<lparr>en_wclosed := True\<rparr>) f))
             | IoFail e \<Rightarrow> Some (set_pc direction (PcSwap False (Some e)) (close_both f))
             | _ \<Rightarrow> None)
          else if io = IoOk then Some (set_pc direction (PcSwap False None) (set_destination direction (dst\<lparr>en_closed := True\<rparr>) f))
          else None)"

definition onClose_step :: "bool \<Rightarrow> error option \<Rightarrow> flow \<Rightarrow> flow" where
  "onClose_step direction err f = set_pc direction PcCloseBoth (f\<lparr>fl_onClose := fl_onClose f @ [err]\<rparr>)"

text \<open>One step of \<^verbatim>\<open>connectionCopy\<close>.\<close>

definition connectionCopy_step :: "flow_conf \<Rightarrow> bool \<Rightarrow> io \<Rightarrow> flow \<Rightarrow> flow option" where
  "connectionCopy_step conf direction io f =
     (case pc_of direction f of
        PcCached [] \<Rightarrow>
          if io = IoOk then Some (set_pc direction (if fc_early conf (\<not> direction) then PcEarly else PcCopy) f) else None
      | PcCached (b # bs) \<Rightarrow> write_step direction b (PcCached bs) (\<lambda>e. e) io f
      | PcEarly \<Rightarrow> early_step direction io f
      | PcEarlyWrite wrapped payload \<Rightarrow>
          write_step direction payload PcCopy (\<lambda>e. if wrapped then ECause e ''write payload'' else e) io f
      | PcCopy \<Rightarrow> move_step direction PcClose io f
      | PcClose err \<Rightarrow> close_step conf direction err io f
      | PcSwap failed err \<Rightarrow>
          if io = IoOk then
            Some (set_pc direction (if fl_done f then PcOnClose err else if failed then PcCloseBoth else PcEnd) (f\<lparr>fl_done := True\<rparr>))
          else None
      | PcOnClose err \<Rightarrow> if io = IoOk then Some (onClose_step direction err f) else None
      | PcCloseBoth \<Rightarrow> if io = IoOk then Some (set_pc direction PcEnd (close_both f)) else None
      | PcEnd \<Rightarrow> None)"

text \<open>One step of \<^verbatim>\<open>packetConnectionCopy\<close>.\<close>

definition packetConnectionCopy_step :: "bool \<Rightarrow> io \<Rightarrow> flow \<Rightarrow> flow option" where
  "packetConnectionCopy_step direction io f =
     (case pc_of direction f of
        PcCopy \<Rightarrow> move_step direction (PcSwap False) io f
      | PcSwap failed err \<Rightarrow>
          if io = IoOk then Some (set_pc direction (if fl_done f then PcCloseBoth else PcOnClose err) (f\<lparr>fl_done := True\<rparr>))
          else None
      | PcOnClose err \<Rightarrow> if io = IoOk then Some (onClose_step direction err f) else None
      | PcCloseBoth \<Rightarrow> if io = IoOk then Some (set_pc direction PcEnd (close_both f)) else None
      | _ \<Rightarrow> None)"

section \<open>Interleavings\<close>

datatype flow_label =
    Go bool io
  | Arrive bool bytes
  | PeerEOF bool
  | OutsideClose bool

text \<open>The client is the source of the upload (\<^const>\<open>False\<close>), the remote end the source of the download.\<close>

fun flow_step :: "flow_conf \<Rightarrow> flow_label \<Rightarrow> flow \<Rightarrow> flow option" where
  "flow_step conf (Go direction io) f =
     (if fc_packet conf then packetConnectionCopy_step direction io f else connectionCopy_step conf direction io f)"
| "flow_step conf (Arrive direction b) f =
     (let src = source_of direction f in
      if en_closed src \<or> en_eof src then None else Some (set_source direction (src\<lparr>en_in := en_in src @ [b]\<rparr>) f))"
| "flow_step conf (PeerEOF direction) f = Some (set_source direction ((source_of direction f)\<lparr>en_eof := True\<rparr>) f)"
| "flow_step conf (OutsideClose direction) f = Some (set_source direction ((source_of direction f)\<lparr>en_closed := True\<rparr>) f)"

fun flow_run :: "flow_conf \<Rightarrow> flow_label list \<Rightarrow> flow \<Rightarrow> flow option" where
  "flow_run conf [] f = Some f"
| "flow_run conf (l # ls) f = Option.bind (flow_step conf l f) (flow_run conf ls)"

definition new_end :: conn_end where
  "new_end = \<lparr>en_in = [], en_out = [], en_eof = False, en_wclosed = False, en_closed = False\<rparr>"

text \<open>A connection whose copying starts, with the buffers that are cached in its two ends.\<close>

definition stream_flow :: "bytes list \<Rightarrow> bytes list \<Rightarrow> flow" where
  "stream_flow cached_up cached_down =
     \<lparr>fl_conn = new_end, fl_remote = new_end, fl_up = PcCached cached_up, fl_down = PcCached cached_down, fl_done = False, fl_onClose = []\<rparr>"

definition packet_flow :: flow where
  "packet_flow = \<lparr>fl_conn = new_end, fl_remote = new_end, fl_up = PcCopy, fl_down = PcCopy, fl_done = False, fl_onClose = []\<rparr>"

section \<open>The manager\<close>

text \<open>All connections it has ever started, and the list of those it would close: \<^verbatim>\<open>connections\<close>, by index.\<close>

record conn_manager =
  cm_flows :: "(flow_conf \<times> flow) list"
  cm_connections :: "nat list"

definition NewConnectionManager :: conn_manager where
  "NewConnectionManager = \<lparr>cm_flows = [], cm_connections = []\<rparr>"

text \<open>The end of \<^verbatim>\<open>NewConnection\<close> and \<^verbatim>\<open>NewPacketConnection\<close>: the element is pushed and the goroutines start.\<close>

definition start_copy :: "flow_conf \<Rightarrow> flow \<Rightarrow> conn_manager \<Rightarrow> conn_manager" where
  "start_copy conf f m = m\<lparr>cm_flows := cm_flows m @ [(conf, f)], cm_connections := cm_connections m @ [length (cm_flows m)]\<rparr>"

text \<open>A step of one connection; its close handler ends with removing its element.\<close>

definition run_copy :: "nat \<Rightarrow> flow_label \<Rightarrow> conn_manager \<Rightarrow> conn_manager option" where
  "run_copy i l m =
     (if i < length (cm_flows m) then
        (case cm_flows m ! i of
           (conf, f) \<Rightarrow>
             (case flow_step conf l f of
                None \<Rightarrow> None
              | Some f' \<Rightarrow> Some (m\<lparr>cm_flows := (cm_flows m)[i := (conf, f')],
                  cm_connections := (if length (fl_onClose f') > length (fl_onClose f) then remove1 i (cm_connections m)
                                     else cm_connections m)\<rparr>)))
      else None)"

definition ConnectionManager_Close :: "conn_manager \<Rightarrow> conn_manager" where
  "ConnectionManager_Close m =
     m\<lparr>cm_flows := map (\<lambda>(i, conf, f). if i \<in> set (cm_connections m)
          then (conf, f\<lparr>fl_conn := (fl_conn f)\<lparr>en_closed := True\<rparr>\<rparr>) else (conf, f)) (enumerate 0 (cm_flows m)),
       cm_connections := []\<rparr>"

datatype manager_label = StartStream flow_conf "bytes list" "bytes list" | StartPacket flow_conf | Run nat flow_label | CloseManager

fun manager_step :: "manager_label \<Rightarrow> conn_manager \<Rightarrow> conn_manager option" where
  "manager_step (StartStream conf up down) m = Some (start_copy (conf\<lparr>fc_packet := False\<rparr>) (stream_flow up down) m)"
| "manager_step (StartPacket conf) m = Some (start_copy (conf\<lparr>fc_packet := True\<rparr>) packet_flow m)"
| "manager_step (Run i l) m = run_copy i l m"
| "manager_step CloseManager m = Some (ConnectionManager_Close m)"

inductive manager_reachable :: "manager_label list \<Rightarrow> conn_manager \<Rightarrow> bool" where
  reach_new: "manager_reachable [] NewConnectionManager"
| reach_step: "manager_reachable ls m \<Longrightarrow> manager_step l m = Some m' \<Longrightarrow> manager_reachable (ls @ [l]) m'"

end
