(* ===== verification/Connection_Manager_Props.thy ===== *)
theory Connection_Manager_Props
  imports Connection_Manager "HOL-Library.Sublist"
begin

text \<open>
  Properties of the connection manager: in every interleaving of the two goroutines the close
  handler of a connection runs exactly once, both ends are closed in the end, bytes arrive in
  order, a half-closed stream keeps the other direction; the manager's list holds exactly the
  connections that are open.
\<close>

section \<open>Reading and writing the parts of a flow\<close>

lemma pc_of_simps [simp]:
  "pc_of d (set_pc d' pc f) = (if d = d' then pc else pc_of d f)"
  "pc_of d (set_source d' e f) = pc_of d f"
  "pc_of d (set_destination d' e f) = pc_of d f"
  "pc_of d (close_both f) = pc_of d f"
  "pc_of d (f\<lparr>fl_done := b\<rparr>) = pc_of d f"
  "pc_of d (f\<lparr>fl_onClose := es\<rparr>) = pc_of d f"
  by (auto simp: pc_of_def set_pc_def set_source_def set_destination_def close_both_def)

lemma source_of_simps [simp]:
  "source_of d (set_pc d' pc f) = source_of d f"
  "source_of d (set_source d' e f) = (if d = d' then e else source_of d f)"
  "source_of d (close_both f) = (source_of d f)\<lparr>en_closed := True\<rparr>"
  "source_of d (f\<lparr>fl_done := b\<rparr>) = source_of d f"
  "source_of d (f\<lparr>fl_onClose := es\<rparr>) = source_of d f"
  by (auto simp: source_of_def set_pc_def set_source_def close_both_def)

lemma fl_done_simps [simp]:
  "fl_done (set_pc d pc f) = fl_done f" "fl_done (set_source d e f) = fl_done f" "fl_done (set_destination d e f) = fl_done f"
  "fl_done (close_both f) = fl_done f"
  "fl_onClose (set_pc d pc f) = fl_onClose f" "fl_onClose (set_source d e f) = fl_onClose f"
  "fl_onClose (set_destination d e f) = fl_onClose f" "fl_onClose (close_both f) = fl_onClose f"
  by (auto simp: set_pc_def set_source_def set_destination_def close_both_def)

lemmas ends = destination_of_def set_destination_def

lemma all_directions: "(\<forall>d. P d) \<longleftrightarrow> P False \<and> P True"
  by (metis (full_types))

lemmas copy_steps = connectionCopy_step_def packetConnectionCopy_step_def write_step_def early_step_def move_step_def close_step_def
  onClose_step_def copy_fails_def

section \<open>The close handler\<close>

definition past_swap :: "copy_pc \<Rightarrow> bool" where
  "past_swap pc \<longleftrightarrow> (case pc of PcOnClose _ \<Rightarrow> True | PcCloseBoth \<Rightarrow> True | PcEnd \<Rightarrow> True | _ \<Rightarrow> False)"

definition calling :: "copy_pc \<Rightarrow> nat" where
  "calling pc = (case pc of PcOnClose _ \<Rightarrow> 1 | _ \<Rightarrow> 0)"

lemma past_swap_simps [simp]:
  "past_swap (PcOnClose e)" "past_swap PcCloseBoth" "past_swap PcEnd" "\<not> past_swap (PcCached bs)" "\<not> past_swap PcEarly"
  "\<not> past_swap (PcEarlyWrite w p)" "\<not> past_swap PcCopy" "\<not> past_swap (PcClose e)" "\<not> past_swap (PcSwap b e)"
  by (simp_all add: past_swap_def)

lemma calling_simps [simp]:
  "calling (PcOnClose e) = 1" "calling PcCloseBoth = 0" "calling PcEnd = 0" "calling (PcCached bs) = 0" "calling PcEarly = 0"
  "calling (PcEarlyWrite w p) = 0" "calling PcCopy = 0" "calling (PcClose e) = 0" "calling (PcSwap b e) = 0"
  by (simp_all add: calling_def)

definition both_closed :: "flow \<Rightarrow> bool" where
  "both_closed f \<longleftrightarrow> en_closed (source_of False f) \<and> en_closed (source_of True f)"

definition both_ended :: "flow \<Rightarrow> bool" where
  "both_ended f \<longleftrightarrow> pc_of False f = PcEnd \<and> pc_of True f = PcEnd"

text \<open>
  In a stream the second goroutine to finish runs the handler, among packets the first one.
\<close>

definition stream_ok :: "flow \<Rightarrow> bool" where
  "stream_ok f \<longleftrightarrow>
     (fl_done f \<longleftrightarrow> past_swap (pc_of False f) \<or> past_swap (pc_of True f)) \<and>
     calling (pc_of False f) + calling (pc_of True f) + length (fl_onClose f) =
       (if past_swap (pc_of False f) \<and> past_swap (pc_of True f) then 1 else 0) \<and>
     (fl_onClose f \<noteq> [] \<longrightarrow> both_closed f \<or> pc_of False f = PcCloseBoth \<or> pc_of True f = PcCloseBoth)"

definition packet_ok :: "flow \<Rightarrow> bool" where
  "packet_ok f \<longleftrightarrow>
     (fl_done f \<longleftrightarrow> past_swap (pc_of False f) \<or> past_swap (pc_of True f)) \<and>
     calling (pc_of False f) + calling (pc_of True f) + length (fl_onClose f) =
       (if past_swap (pc_of False f) \<or> past_swap (pc_of True f) then 1 else 0) \<and>
     (pc_of False f = PcEnd \<or> pc_of True f = PcEnd \<longrightarrow> both_closed f)"

lemma not_past_not_calling: "\<not> past_swap pc \<Longrightarrow> calling pc = 0 \<and> pc \<noteq> PcCloseBoth \<and> pc \<noteq> PcEnd"
  by (cases pc) simp_all

text \<open>A step before the swap: it neither touches the flag nor the handler, and opens nothing that is closed.\<close>

definition quiet :: "bool \<Rightarrow> flow \<Rightarrow> flow \<Rightarrow> bool" where
  "quiet d f f' \<longleftrightarrow> fl_done f' = fl_done f \<and> fl_onClose f' = fl_onClose f \<and> pc_of (\<not> d) f' = pc_of (\<not> d) f \<and> \<not> past_swap (pc_of d f') \<and>
     (\<forall>x. en_closed (source_of x f) \<longrightarrow> en_closed (source_of x f'))"

lemma write_quiet:
  "write_step d b pc wrap io f = Some f' \<Longrightarrow> \<not> past_swap pc \<Longrightarrow> quiet d f f'"
  by (cases d) (auto simp: write_step_def quiet_def all_directions copy_fails_def write_chunk_def ends Let_def split: io.splits if_splits)

lemma early_quiet: "early_step d io f = Some f' \<Longrightarrow> quiet d f f'"
  by (cases d) (auto simp: early_step_def quiet_def all_directions copy_fails_def Let_def split: io.splits if_splits list.splits)

lemma move_quiet:
  "move_step d finish io f = Some f' \<Longrightarrow> (\<And>e. \<not> past_swap (finish e)) \<Longrightarrow> \<not> past_swap (pc_of d f) \<Longrightarrow> quiet d f f'"
  by (cases d) (auto simp: move_step_def quiet_def all_directions write_chunk_def ends Let_def split: io.splits if_splits list.splits)

lemma close_quiet: "close_step conf d err io f = Some f' \<Longrightarrow> quiet d f f'"
  by (cases d) (auto simp: close_step_def quiet_def all_directions ends Let_def split: io.splits if_splits option.splits)

lemmas quiet_steps = write_quiet early_quiet move_quiet close_quiet

lemma copy_quiet:
  assumes "connectionCopy_step conf d io f = Some f'" and "\<not> past_swap (pc_of d f)" and "\<forall>b e. pc_of d f \<noteq> PcSwap b e"
  shows "quiet d f f'"
proof (cases "pc_of d f")
  case (PcCached bs)
  show ?thesis
  proof (cases bs)
    case Nil
    with PcCached assms(1) show ?thesis by (auto simp: connectionCopy_step_def quiet_def split: if_splits)
  next
    case (Cons b rest)
    with PcCached assms(1) have "write_step d b (PcCached rest) (\<lambda>e. e) io f = Some f'" by (simp add: connectionCopy_step_def)
    then show ?thesis by (rule write_quiet) simp
  qed
qed (use assms quiet_steps in \<open>auto simp: connectionCopy_step_def\<close>)

lemma stream_ok_quiet: "stream_ok f \<Longrightarrow> \<not> past_swap (pc_of d f) \<Longrightarrow> quiet d f f' \<Longrightarrow> stream_ok f'"
  using not_past_not_calling [of "pc_of d f"] not_past_not_calling [of "pc_of d f'"]
  by (cases d) (auto simp: stream_ok_def quiet_def both_closed_def)

lemma packet_ok_quiet: "packet_ok f \<Longrightarrow> \<not> past_swap (pc_of d f) \<Longrightarrow> quiet d f f' \<Longrightarrow> packet_ok f'"
  using not_past_not_calling [of "pc_of d f"] not_past_not_calling [of "pc_of d f'"]
  by (cases d) (auto simp: packet_ok_def quiet_def both_closed_def all_directions)

lemma stream_ok_copy:
  assumes "stream_ok f" and "connectionCopy_step conf d io f = Some f'"
  shows "stream_ok f'"
proof (cases "\<not> past_swap (pc_of d f) \<and> (\<forall>b e. pc_of d f \<noteq> PcSwap b e)")
  case True
  with assms copy_quiet stream_ok_quiet show ?thesis by blast
next
  case False
  then show ?thesis using assms
    by (cases "pc_of d f"; cases d)
       (auto simp: connectionCopy_step_def stream_ok_def onClose_step_def both_closed_def split: if_splits)
qed

lemma packet_ok_copy:
  assumes "packet_ok f" and "packetConnectionCopy_step d io f = Some f'"
  shows "packet_ok f'"
proof (cases "pc_of d f = PcCopy")
  case True
  with assms(2) have q: "quiet d f f'" by (auto simp: packetConnectionCopy_step_def intro: move_quiet)
  show ?thesis by (rule packet_ok_quiet [OF assms(1) _ q]) (simp add: True)
next
  case False
  note ok = assms(1) [unfolded packet_ok_def both_closed_def]
  have "(\<exists>b e. pc_of d f = PcSwap b e) \<or> (\<exists>e. pc_of d f = PcOnClose e) \<or> pc_of d f = PcCloseBoth"
    using False assms(2) by (cases "pc_of d f") (auto simp: packetConnectionCopy_step_def)
  then consider (swap) b e where "pc_of d f = PcSwap b e" | (call) e where "pc_of d f = PcOnClose e" | (close) "pc_of d f = PcCloseBoth"
    by blast
  then show ?thesis
  proof cases
    case swap
    with assms(2) have f': "f' = set_pc d (if fl_done f then PcCloseBoth else PcOnClose e) (f\<lparr>fl_done := True\<rparr>)"
      by (simp add: packetConnectionCopy_step_def split: if_splits)
    show ?thesis using ok swap unfolding f' packet_ok_def both_closed_def
      by (cases d; cases "past_swap (pc_of (\<not> d) f)") auto
  next
    case call
    with assms(2) have f': "f' = onClose_step d e f" by (simp add: packetConnectionCopy_step_def split: if_splits)
    show ?thesis using ok call unfolding f' packet_ok_def both_closed_def onClose_step_def by (cases d) auto
  next
    case close
    with assms(2) have f': "f' = set_pc d PcEnd (close_both f)" by (simp add: packetConnectionCopy_step_def split: if_splits)
    show ?thesis using ok close unfolding f' packet_ok_def both_closed_def by (cases d) auto
  qed
qed

lemma outside_ok:
  assumes "flow_step conf l f = Some f'" and "\<forall>d io. l \<noteq> Go d io"
  shows "fl_done f' = fl_done f \<and> fl_onClose f' = fl_onClose f \<and> pc_of d f' = pc_of d f \<and> (en_closed (source_of d f) \<longrightarrow> en_closed (source_of d f'))"
  using assms by (cases l; cases d) (auto simp: Let_def split: if_splits)

section \<open>What closing promises\<close>

locale close_protocol =
  fixes kind :: "flow_conf \<Rightarrow> bool" and ok :: "flow \<Rightarrow> bool" and start :: "flow \<Rightarrow> bool"
  assumes start_ok: "start f \<Longrightarrow> ok f"
    and copy_ok: "kind conf \<Longrightarrow> ok f \<Longrightarrow> flow_step conf (Go d io) f = Some f' \<Longrightarrow> ok f'"
    and outside: "ok f \<Longrightarrow> fl_done f' = fl_done f \<Longrightarrow> fl_onClose f' = fl_onClose f \<Longrightarrow> (\<And>d. pc_of d f' = pc_of d f) \<Longrightarrow>
      (\<And>d. en_closed (source_of d f) \<Longrightarrow> en_closed (source_of d f')) \<Longrightarrow> ok f'"
    and at_most_once: "ok f \<Longrightarrow> length (fl_onClose f) \<le> 1"
    and at_end: "ok f \<Longrightarrow> both_ended f \<Longrightarrow> length (fl_onClose f) = 1 \<and> both_closed f"
begin

lemma step_ok:
  assumes "kind conf" and "ok f" and "flow_step conf l f = Some f'"
  shows "ok f'"
proof (cases "\<exists>d io. l = Go d io")
  case True
  with assms copy_ok show ?thesis by blast
next
  case False
  then show ?thesis using outside [OF assms(2), of f'] outside_ok [OF assms(3)] by simp
qed

lemma run_ok: "kind conf \<Longrightarrow> ok f \<Longrightarrow> flow_run conf ls f = Some f' \<Longrightarrow> ok f'"
  by (induction ls arbitrary: f) (auto simp: bind_eq_Some_conv dest: step_ok)

lemma handler_once:
  assumes "kind conf" and "start f" and "flow_run conf ls f = Some f'"
  shows "length (fl_onClose f') \<le> 1 \<and> (both_ended f' \<longrightarrow> length (fl_onClose f') = 1 \<and> both_closed f')"
  using run_ok [OF assms(1) start_ok [OF assms(2)] assms(3)] at_most_once at_end by blast

end

interpretation streams: close_protocol "\<lambda>conf. \<not> fc_packet conf" stream_ok "\<lambda>f. \<exists>up down. f = stream_flow up down"
proof unfold_locales
  fix f assume "\<exists>up down. f = stream_flow up down"
  then show "stream_ok f" by (auto simp: stream_ok_def stream_flow_def pc_of_def)
next
  fix f f' :: flow
  assume "stream_ok f" "fl_done f' = fl_done f" "fl_onClose f' = fl_onClose f" "\<And>d. pc_of d f' = pc_of d f"
    "\<And>d. en_closed (source_of d f) \<Longrightarrow> en_closed (source_of d f')"
  then show "stream_ok f'" by (auto simp: stream_ok_def both_closed_def)
qed (auto simp: stream_ok_copy, auto simp: stream_ok_def both_ended_def split: if_splits)

interpretation packets: close_protocol fc_packet packet_ok "\<lambda>f. f = packet_flow"
proof unfold_locales
  fix f assume "f = packet_flow"
  then show "packet_ok f" by (auto simp: packet_ok_def packet_flow_def pc_of_def)
next
  fix f f' :: flow
  assume "packet_ok f" "fl_done f' = fl_done f" "fl_onClose f' = fl_onClose f" "\<And>d. pc_of d f' = pc_of d f"
    "\<And>d. en_closed (source_of d f) \<Longrightarrow> en_closed (source_of d f')"
  then show "packet_ok f'" by (auto simp: packet_ok_def both_closed_def)
qed (auto simp: packet_ok_copy, auto simp: packet_ok_def both_ended_def split: if_splits)

text \<open>C5 (close_handler_once): In every interleaving of the two copying goroutines, of a stream or of packets, with any I/O errors and
  ends closed from outside at any time, the close handler of a connection runs at most once; when
  both goroutines have ended it has run exactly once and both ends are closed.\<close>
theorem close_handler_once:
  assumes "flow_run conf ls (if fc_packet conf then packet_flow else stream_flow up down) = Some f"
  shows "length (fl_onClose f) \<le> 1 \<and>
    (fl_up f = PcEnd \<and> fl_down f = PcEnd \<longrightarrow> length (fl_onClose f) = 1 \<and> en_closed (fl_conn f) \<and> en_closed (fl_remote f))"
proof (cases "fc_packet conf")
  case True
  with packets.handler_once [of conf packet_flow ls f] assms show ?thesis
    by (simp add: both_ended_def both_closed_def pc_of_def source_of_def)
next
  case False
  with streams.handler_once [of conf "stream_flow up down" ls f] assms show ?thesis
    by (auto simp: both_ended_def both_closed_def pc_of_def source_of_def)
qed

section \<open>Bytes arrive in order\<close>

text \<open>What the peer of a direction has sent in a run.\<close>

fun sent :: "bool \<Rightarrow> flow_label list \<Rightarrow> bytes" where
  "sent d [] = []"
| "sent d (Arrive d' b # ls) = (if d = d' then b else []) @ sent d ls"
| "sent d (_ # ls) = sent d ls"

lemma sent_append [simp]: "sent d (xs @ ys) = sent d xs @ sent d ys"
  by (induction d xs rule: sent.induct) simp_all

lemma flow_run_append: "flow_run conf (xs @ ys) f = Option.bind (flow_run conf xs f) (flow_run conf ys)"
  by (induction xs arbitrary: f) (auto split: bind_split)

fun pending :: "copy_pc \<Rightarrow> bytes" where
  "pending (PcCached bs) = concat bs"
| "pending (PcEarlyWrite _ b) = b"
| "pending _ = []"

fun live :: "copy_pc \<Rightarrow> bool" where
  "live (PcCached _) = True"
| "live PcEarly = True"
| "live (PcEarlyWrite _ _) = True"
| "live PcCopy = True"
| "live _ = False"

definition exact :: "bool \<Rightarrow> bytes \<Rightarrow> flow \<Rightarrow> bool" where
  "exact d whole f \<longleftrightarrow> whole = concat (en_out (destination_of d f)) @ pending (pc_of d f) @ concat (en_in (source_of d f))"

definition data_ok :: "bool \<Rightarrow> bytes \<Rightarrow> flow \<Rightarrow> bool" where
  "data_ok d whole f \<longleftrightarrow> prefix (concat (en_out (destination_of d f))) whole \<and> (live (pc_of d f) \<longrightarrow> exact d whole f)"

lemma prefix_take: "prefix (take n ys) (ys @ zs)"
  by (meson prefix_prefix take_is_prefix)

lemma write_data:
  assumes "write_step d b pc wrap io f = Some f'" and "exact d whole f" and "pending (pc_of d f) = b @ pending pc"
  shows "data_ok d whole f'"
  using assms
  by (cases d)
     (auto simp: write_step_def data_ok_def exact_def copy_fails_def write_chunk_def ends Let_def prefix_take split: io.splits if_splits)

lemma early_data:
  assumes "early_step d io f = Some f'" and "exact d whole f" and "pc_of d f = PcEarly"
  shows "data_ok d whole f'"
  using assms
  by (cases d) (auto simp: early_step_def data_ok_def exact_def copy_fails_def ends Let_def split: io.splits if_splits list.splits)

lemma move_data:
  assumes "move_step d finish io f = Some f'" and "exact d whole f" and "pc_of d f = PcCopy" and "\<And>e. \<not> live (finish e)"
  shows "data_ok d whole f'"
  using assms
  by (cases d) (auto simp: move_step_def data_ok_def exact_def write_chunk_def ends Let_def prefix_take split: io.splits if_splits list.splits)

lemma close_data:
  assumes "close_step conf d err io f = Some f'" and "data_ok d whole f" and "pc_of d f = PcClose err"
  shows "data_ok d whole f'"
  using assms
  by (cases d) (auto simp: close_step_def data_ok_def ends Let_def split: io.splits if_splits option.splits)

lemma copy_data:
  assumes "connectionCopy_step conf d io f = Some f'" and "data_ok d whole f"
  shows "data_ok d whole f'"
proof (cases "pc_of d f")
  case (PcCached bs)
  with assms(2) have e: "exact d whole f" by (simp add: data_ok_def)
  show ?thesis
  proof (cases bs)
    case Nil
    with PcCached assms e show ?thesis
      by (auto simp: connectionCopy_step_def data_ok_def exact_def ends split: if_splits)
  next
    case (Cons b rest)
    with PcCached assms(1) have "write_step d b (PcCached rest) (\<lambda>e. e) io f = Some f'" by (simp add: connectionCopy_step_def)
    then show ?thesis by (rule write_data [OF _ e]) (simp add: PcCached Cons)
  qed
next
  case PcEarly
  with assms(1) have m: "early_step d io f = Some f'" by (simp add: connectionCopy_step_def)
  from PcEarly assms(2) have e: "exact d whole f" by (simp add: data_ok_def)
  show ?thesis by (rule early_data [OF m e PcEarly])
next
  case (PcEarlyWrite w b)
  with assms(2) have e: "exact d whole f" by (simp add: data_ok_def)
  from PcEarlyWrite assms(1) have "write_step d b PcCopy (\<lambda>e. if w then ECause e ''write payload'' else e) io f = Some f'"
    by (simp add: connectionCopy_step_def)
  then show ?thesis by (rule write_data [OF _ e]) (simp add: PcEarlyWrite)
next
  case PcCopy
  with assms(1) have m: "move_step d PcClose io f = Some f'" by (simp add: connectionCopy_step_def)
  from PcCopy assms(2) have e: "exact d whole f" by (simp add: data_ok_def)
  show ?thesis by (rule move_data [OF m e PcCopy]) simp
next
  case (PcClose err)
  with assms(1) have m: "close_step conf d err io f = Some f'" by (simp add: connectionCopy_step_def)
  show ?thesis by (rule close_data [OF m assms(2) PcClose])
next
  case (PcSwap b e)
  with assms show ?thesis by (auto simp: connectionCopy_step_def data_ok_def ends split: if_splits)
next
  case (PcOnClose e)
  with assms show ?thesis by (auto simp: connectionCopy_step_def data_ok_def ends onClose_step_def split: if_splits)
next
  case PcCloseBoth
  with assms show ?thesis by (auto simp: connectionCopy_step_def data_ok_def ends split: if_splits)
qed (use assms in \<open>simp add: connectionCopy_step_def\<close>)

text \<open>What a step of one goroutine leaves alone for the other.\<close>

definition same_data :: "bool \<Rightarrow> flow \<Rightarrow> flow \<Rightarrow> bool" where
  "same_data d f f' \<longleftrightarrow> pc_of d f' = pc_of d f \<and> en_in (source_of d f') = en_in (source_of d f) \<and> en_eof (source_of d f') = en_eof (source_of d f) \<and>
     en_out (destination_of d f') = en_out (destination_of d f)"

lemma same_data_ok: "same_data d f f' \<Longrightarrow> data_ok d whole f' = data_ok d whole f"
  by (simp add: same_data_def data_ok_def exact_def)

lemma same_data_steps:
  "write_step d b pc wrap io f = Some f' \<Longrightarrow> same_data (\<not> d) f f'"
  "early_step d io f = Some f' \<Longrightarrow> same_data (\<not> d) f f'"
  "move_step d finish io f = Some f' \<Longrightarrow> same_data (\<not> d) f f'"
  "close_step conf d err io f = Some f' \<Longrightarrow> same_data (\<not> d) f f'"
proof -
  show "write_step d b pc wrap io f = Some f' \<Longrightarrow> same_data (\<not> d) f f'"
    by (cases d) (auto simp: write_step_def same_data_def copy_fails_def write_chunk_def ends Let_def split: io.splits if_splits)
  show "early_step d io f = Some f' \<Longrightarrow> same_data (\<not> d) f f'"
    by (cases d) (auto simp: early_step_def same_data_def copy_fails_def ends Let_def split: io.splits if_splits list.splits)
  show "move_step d finish io f = Some f' \<Longrightarrow> same_data (\<not> d) f f'"
    by (cases d) (auto simp: move_step_def same_data_def write_chunk_def ends Let_def split: io.splits if_splits list.splits)
  show "close_step conf d err io f = Some f' \<Longrightarrow> same_data (\<not> d) f f'"
    by (cases d) (auto simp: close_step_def same_data_def ends Let_def split: io.splits if_splits option.splits)
qed

lemma copy_same_data: "connectionCopy_step conf d io f = Some f' \<Longrightarrow> same_data (\<not> d) f f'"
  unfolding connectionCopy_step_def
  by (auto split: copy_pc.splits list.splits if_splits intro: same_data_steps)
     (auto simp: same_data_def onClose_step_def ends)

lemma packet_same_data: "packetConnectionCopy_step d io f = Some f' \<Longrightarrow> same_data (\<not> d) f f'"
  unfolding packetConnectionCopy_step_def
  by (auto split: copy_pc.splits if_splits intro: same_data_steps)
     (auto simp: same_data_def onClose_step_def ends)

lemma packet_data:
  assumes "packetConnectionCopy_step d io f = Some f'" and "data_ok d whole f"
  shows "data_ok d whole f'"
proof (cases "pc_of d f = PcCopy")
  case True
  with assms(1) have m: "move_step d (PcSwap False) io f = Some f'" by (simp add: packetConnectionCopy_step_def)
  from True assms(2) have e: "exact d whole f" by (simp add: data_ok_def)
  show ?thesis by (rule move_data [OF m e True]) simp
next
  case False
  with assms show ?thesis
    by (cases "pc_of d f") (auto simp: packetConnectionCopy_step_def data_ok_def ends onClose_step_def split: if_splits)
qed

lemma step_data:
  assumes "flow_step conf l f = Some f'" and "data_ok d whole f"
  shows "data_ok d (whole @ sent d [l]) f'"
proof (cases l)
  case (Go d' io)
  show ?thesis
  proof (cases "d' = d")
    case True
    with Go assms copy_data packet_data show ?thesis by (auto split: if_splits)
  next
    case False
    then have "d = (\<not> d')" by simp
    with Go assms(1) have "same_data d f f'" using copy_same_data packet_same_data by (auto split: if_splits)
    with assms(2) show ?thesis by (simp add: Go same_data_ok)
  qed
next
  case (Arrive d' b)
  with assms show ?thesis
    by (cases d'; cases d) (auto simp: Let_def data_ok_def exact_def ends split: if_splits)
qed (use assms in \<open>auto simp: data_ok_def exact_def ends\<close>)

lemma run_data: "flow_run conf ls f = Some f' \<Longrightarrow> data_ok d whole f \<Longrightarrow> data_ok d (whole @ sent d ls) f'"
proof (induction ls arbitrary: f whole)
  case (Cons l ls)
  then obtain f1 where f1: "flow_step conf l f = Some f1" "flow_run conf ls f1 = Some f'" by (auto simp: bind_eq_Some_conv)
  have "sent d [l] @ sent d ls = sent d (l # ls)" by (simp flip: sent_append)
  with Cons.IH [OF f1(2) step_data [OF f1(1) Cons.prems(2)]] show ?case by simp
qed simp

lemma start_data:
  "data_ok False (concat up) (stream_flow up down)" "data_ok True (concat down) (stream_flow up down)" "data_ok d [] packet_flow"
  by (auto simp: data_ok_def exact_def stream_flow_def packet_flow_def pc_of_def ends source_of_def new_end_def)

text \<open>C14 (bytes_in_order): At every moment of every interleaving, what has been written to the remote end is an initial part of the
  bytes cached by sniffing followed by the bytes the client sent, and what has been written to the
  client an initial part of what the remote end sent: nothing is reordered, repeated or left out.\<close>
theorem bytes_in_order:
  assumes "flow_run conf ls (if fc_packet conf then packet_flow else stream_flow up down) = Some f"
  shows "prefix (concat (en_out (fl_remote f))) ((if fc_packet conf then [] else concat up) @ sent False ls) \<and>
    prefix (concat (en_out (fl_conn f))) ((if fc_packet conf then [] else concat down) @ sent True ls)"
proof -
  have "data_ok False ((if fc_packet conf then [] else concat up) @ sent False ls) f"
    "data_ok True ((if fc_packet conf then [] else concat down) @ sent True ls) f"
    by (rule run_data [OF assms]; simp add: start_data)+
  then show ?thesis by (simp add: data_ok_def ends source_of_def)
qed

section \<open>Half-closed streams\<close>

text \<open>A run in which no I/O call fails and nothing is closed from outside.\<close>

fun benign :: "flow_label \<Rightarrow> bool" where
  "benign (Go _ io) \<longleftrightarrow> (case io of IoFail _ \<Rightarrow> False | IoBreak _ _ \<Rightarrow> False | DeadlineFails _ \<Rightarrow> False | PayloadFails _ \<Rightarrow> False | _ \<Rightarrow> True)"
| "benign (OutsideClose _) \<longleftrightarrow> False"
| "benign _ \<longleftrightarrow> True"

text \<open>A goroutine past copying has delivered everything; nothing is closed before both have swapped.\<close>

fun no_error :: "copy_pc \<Rightarrow> bool" where
  "no_error (PcClose e) \<longleftrightarrow> e = None"
| "no_error (PcSwap failed e) \<longleftrightarrow> \<not> failed \<and> e = None"
| "no_error _ \<longleftrightarrow> True"

definition side_ok :: "bool \<Rightarrow> flow \<Rightarrow> bool" where
  "side_ok d f \<longleftrightarrow>
     no_error (pc_of d f) \<and> (\<not> live (pc_of d f) \<longrightarrow> en_in (source_of d f) = [] \<and> en_eof (source_of d f)) \<and>
     (calling (pc_of d f) = 1 \<or> pc_of d f = PcCloseBoth \<longrightarrow> past_swap (pc_of (\<not> d) f))"

definition benign_ok :: "flow \<Rightarrow> bool" where
  "benign_ok f \<longleftrightarrow>
     side_ok False f \<and> side_ok True f \<and>
     (fl_done f \<longleftrightarrow> past_swap (pc_of False f) \<or> past_swap (pc_of True f)) \<and>
     (en_closed (fl_conn f) \<or> en_closed (fl_remote f) \<longrightarrow> past_swap (pc_of False f) \<and> past_swap (pc_of True f))"

lemma benign_write:
  "write_step d b pc wrap io f = Some f' \<Longrightarrow> benign (Go d io) \<Longrightarrow>
   f' = set_pc d pc (set_source (\<not> d) (write_chunk b (source_of (\<not> d) f)) f)"
  by (auto simp: write_step_def ends Let_def split: io.splits if_splits)

lemma benign_early:
  "early_step d io f = Some f' \<Longrightarrow> benign (Go d io) \<Longrightarrow>
   (\<exists>w. f' = set_pc d (PcEarlyWrite w []) f) \<or>
   (\<exists>b bs. en_in (source_of d f) = b # bs \<and> f' = set_pc d (PcEarlyWrite True b) (set_source d ((source_of d f)\<lparr>en_in := bs\<rparr>) f))"
  by (auto simp: early_step_def Let_def split: io.splits if_splits list.splits)

lemma benign_move:
  "move_step d finish io f = Some f' \<Longrightarrow> benign (Go d io) \<Longrightarrow>
   (en_eof (source_of d f) \<and> en_in (source_of d f) = [] \<and> f' = set_pc d (finish None) f) \<or>
   (\<exists>b bs. en_in (source_of d f) = b # bs \<and>
     f' = set_source (\<not> d) (write_chunk b (source_of (\<not> d) f)) (set_source d ((source_of d f)\<lparr>en_in := bs\<rparr>) f))"
  by (auto simp: move_step_def ends Let_def split: io.splits if_splits list.splits)

lemma benign_close:
  "close_step conf d None io f = Some f' \<Longrightarrow> benign (Go d io) \<Longrightarrow> fc_duplex conf (\<not> d) \<Longrightarrow>
   f' = set_pc d (PcSwap False None) (set_source (\<not> d) ((source_of (\<not> d) f)\<lparr>en_wclosed := True\<rparr>) f)"
  by (auto simp: close_step_def ends Let_def split: io.splits if_splits)

lemma ends_as_sources: "fl_conn f = source_of False f" "fl_remote f = source_of True f"
  by (simp_all add: source_of_def)

lemmas benign_defs = benign_ok_def side_ok_def exact_def ends_as_sources destination_of_def write_chunk_def

lemma benign_copy:
  assumes "connectionCopy_step conf d io f = Some f'" and "benign (Go d io)" and "benign_ok f" and "\<forall>x. fc_duplex conf x" and "exact d whole f"
  shows "benign_ok f' \<and> exact d whole f'"
proof (cases "pc_of d f")
  case (PcCached bs)
  show ?thesis
  proof (cases bs)
    case Nil
    with PcCached assms(1) have "f' = set_pc d (if fc_early conf (\<not> d) then PcEarly else PcCopy) f"
      by (simp add: connectionCopy_step_def split: if_splits)
    with PcCached Nil assms(3,5) show ?thesis by (cases d) (auto simp: benign_defs)
  next
    case (Cons b rest)
    with PcCached assms(1) have "write_step d b (PcCached rest) (\<lambda>e. e) io f = Some f'" by (simp add: connectionCopy_step_def)
    from benign_write [OF this assms(2)] PcCached Cons assms(3,5) show ?thesis by (cases d) (auto simp: benign_defs)
  qed
next
  case PcEarly
  with assms(1) have "early_step d io f = Some f'" by (simp add: connectionCopy_step_def)
  from benign_early [OF this assms(2)] PcEarly assms(3,5) show ?thesis by (cases d) (auto simp: benign_defs)
next
  case (PcEarlyWrite w b)
  with assms(1) have "write_step d b PcCopy (\<lambda>e. if w then ECause e ''write payload'' else e) io f = Some f'"
    by (simp add: connectionCopy_step_def)
  from benign_write [OF this assms(2)] PcEarlyWrite assms(3,5) show ?thesis by (cases d) (auto simp: benign_defs)
next
  case PcCopy
  with assms(1) have "move_step d PcClose io f = Some f'" by (simp add: connectionCopy_step_def)
  from benign_move [OF this assms(2)] PcCopy assms(3,5) show ?thesis by (cases d) (auto simp: benign_defs)
next
  case (PcClose err)
  with assms(3) have "err = None" by (cases d) (auto simp: benign_defs)
  with PcClose assms(1) have "close_step conf d None io f = Some f'" by (simp add: connectionCopy_step_def)
  from benign_close [OF this assms(2)] PcClose \<open>err = None\<close> assms(3-5) show ?thesis by (cases d) (auto simp: benign_defs)
next
  case (PcSwap failed err)
  with assms(3) have "\<not> failed" by (cases d) (auto simp: benign_defs)
  with PcSwap assms(1) have "f' = set_pc d (if fl_done f then PcOnClose err else PcEnd) (f\<lparr>fl_done := True\<rparr>)"
    by (simp add: connectionCopy_step_def split: if_splits)
  with PcSwap assms(3,5) show ?thesis by (cases d; cases "fl_done f") (auto simp: benign_defs)
next
  case (PcOnClose err)
  with assms(1) have "f' = set_pc d PcCloseBoth (f\<lparr>fl_onClose := fl_onClose f @ [err]\<rparr>)"
    by (simp add: connectionCopy_step_def onClose_step_def split: if_splits)
  with PcOnClose assms(3,5) show ?thesis by (cases d) (auto simp: benign_defs)
next
  case PcCloseBoth
  with assms(1) have "f' = set_pc d PcEnd (close_both f)" by (simp add: connectionCopy_step_def split: if_splits)
  with PcCloseBoth assms(3,5) show ?thesis by (cases d) (auto simp: benign_defs)
qed (use assms in \<open>simp add: connectionCopy_step_def\<close>)

definition stream_whole :: "flow_conf \<Rightarrow> bytes \<Rightarrow> bytes \<Rightarrow> flow \<Rightarrow> bool" where
  "stream_whole conf up down f \<longleftrightarrow> benign_ok f \<and> exact False up f \<and> exact True down f"

lemma same_data_exact: "same_data d f f' \<Longrightarrow> exact d whole f' = exact d whole f"
  by (simp add: same_data_def exact_def)

lemma benign_step:
  assumes "flow_step conf l f = Some f'" and "\<not> fc_packet conf" and "benign l" and "\<forall>x. fc_duplex conf x" and "stream_whole conf up down f"
  shows "stream_whole conf (up @ sent False [l]) (down @ sent True [l]) f'"
proof (cases l)
  case (Go d io)
  have ok: "benign_ok f" "exact False up f" "exact True down f" using assms(5) by (simp_all add: stream_whole_def)
  from Go assms(1,2) have s: "connectionCopy_step conf d io f = Some f'" by simp
  have b: "benign (Go d io)" using assms(3) Go by simp
  note same = copy_same_data [OF s]
  show ?thesis
  proof (cases d)
    case True
    from benign_copy [OF s b ok(1) assms(4)] same True ok show ?thesis
      by (auto simp: stream_whole_def Go same_data_exact)
  next
    case False
    from benign_copy [OF s b ok(1) assms(4)] same False ok show ?thesis
      by (auto simp: stream_whole_def Go same_data_exact)
  qed
next
  case (Arrive d b)
  with assms(1) have f': "f' = set_source d ((source_of d f)\<lparr>en_in := en_in (source_of d f) @ [b]\<rparr>) f" "\<not> en_eof (source_of d f)"
    by (auto simp: Let_def split: if_splits)
  from assms(5) have ok: "benign_ok f" "exact False up f" "exact True down f" by (simp_all add: stream_whole_def)
  have "benign_ok f'" using ok(1) f' unfolding benign_ok_def side_ok_def ends_as_sources by (cases d) simp_all
  moreover have "exact False (up @ sent False [l]) f'" "exact True (down @ sent True [l]) f'"
    using ok(2,3) f' Arrive by (cases d; simp add: exact_def ends)+
  ultimately show ?thesis by (simp add: stream_whole_def)
next
  case (PeerEOF d)
  with assms(1) have f': "f' = set_source d ((source_of d f)\<lparr>en_eof := True\<rparr>) f" by simp
  from assms(5) have ok: "benign_ok f" "exact False up f" "exact True down f" by (simp_all add: stream_whole_def)
  have "benign_ok f'" using ok(1) f' unfolding benign_ok_def side_ok_def ends_as_sources by (cases d) simp_all
  moreover have "exact False (up @ sent False [l]) f'" "exact True (down @ sent True [l]) f'"
    using ok(2,3) f' PeerEOF by (cases d; simp add: exact_def ends)+
  ultimately show ?thesis by (simp add: stream_whole_def)
qed (use assms(3) in simp)

lemma benign_run:
  "flow_run conf ls f = Some f' \<Longrightarrow> \<not> fc_packet conf \<Longrightarrow> list_all benign ls \<Longrightarrow> \<forall>x. fc_duplex conf x \<Longrightarrow> stream_whole conf up down f \<Longrightarrow>
   stream_whole conf (up @ sent False ls) (down @ sent True ls) f'"
proof (induction ls arbitrary: f up down)
  case (Cons l ls)
  then obtain f1 where f1: "flow_step conf l f = Some f1" "flow_run conf ls f1 = Some f'" by (auto simp: bind_eq_Some_conv)
  have s: "sent d [l] @ sent d ls = sent d (l # ls)" for d by (simp flip: sent_append)
  have "stream_whole conf (up @ sent False [l]) (down @ sent True [l]) f1"
    by (rule benign_step [OF f1(1)]) (use Cons.prems in simp_all)
  from Cons.IH [OF f1(2) _ _ _ this] Cons.prems s show ?case by simp
qed simp

lemma past_nothing_pending: "past_swap pc \<Longrightarrow> pending pc = [] \<and> \<not> live pc"
  by (cases pc) simp_all

text \<open>C12 (half_close_completes): As long as no I/O call fails and nobody closes an end from outside, a stream whose ends can close one
  direction is never closed before both directions are finished: a client that has sent its last
  byte still receives the whole answer, and conversely.\<close>
theorem half_close_completes:
  assumes "flow_run conf ls (stream_flow up down) = Some f" and "\<not> fc_packet conf" and "\<forall>x. fc_duplex conf x" and "list_all benign ls"
    and "en_closed (fl_conn f) \<or> en_closed (fl_remote f)"
  shows "concat (en_out (fl_remote f)) = concat up @ sent False ls \<and> concat (en_out (fl_conn f)) = concat down @ sent True ls \<and>
    en_eof (fl_conn f) \<and> en_eof (fl_remote f)"
proof -
  have "stream_whole conf (concat up) (concat down) (stream_flow up down)"
    by (simp add: stream_whole_def benign_ok_def side_ok_def exact_def stream_flow_def pc_of_def ends source_of_def new_end_def)
  from benign_run [OF assms(1,2,4,3) this] have w: "benign_ok f" "exact False (concat up @ sent False ls) f" "exact True (concat down @ sent True ls) f"
    by (simp_all add: stream_whole_def)
  have "past_swap (pc_of d f)" for d using w(1) assms(5) by (cases d) (auto simp: benign_ok_def)
  from past_nothing_pending [OF this] have "pending (pc_of d f) = []" "\<not> live (pc_of d f)" for d by blast+
  with w show ?thesis by (auto simp: benign_ok_def side_ok_def exact_def ends ends_as_sources)
qed

section \<open>Copying ends\<close>

text \<open>How many steps other than moving a chunk a goroutine has left.\<close>

fun work :: "copy_pc \<Rightarrow> nat" where
  "work (PcCached bs) = 8 + length bs"
| "work PcEarly = 7"
| "work (PcEarlyWrite _ _) = 6"
| "work PcCopy = 5"
| "work (PcClose _) = 4"
| "work (PcSwap _ _) = 3"
| "work (PcOnClose _) = 2"
| "work PcCloseBoth = 1"
| "work PcEnd = 0"

definition work_left :: "flow \<Rightarrow> nat" where
  "work_left f = work (pc_of False f) + work (pc_of True f)"

fun moves :: "flow_label \<Rightarrow> bool" where
  "moves (Go _ io) \<longleftrightarrow> io = IoMove"
| "moves _ \<longleftrightarrow> True"

lemma work_steps:
  "write_step d b pc wrap io f = Some f' \<Longrightarrow> 3 < work (pc_of d f) \<Longrightarrow> work pc < work (pc_of d f) \<Longrightarrow> work (pc_of d f') < work (pc_of d f)"
  "early_step d io f = Some f' \<Longrightarrow> work (pc_of d f) = 7 \<Longrightarrow> work (pc_of d f') < work (pc_of d f)"
  "move_step d finish io f = Some f' \<Longrightarrow> io \<noteq> IoMove \<Longrightarrow> (\<And>e. work (finish e) < work (pc_of d f)) \<Longrightarrow> work (pc_of d f') < work (pc_of d f)"
  "move_step d finish IoMove f = Some f' \<Longrightarrow> pc_of d f' = pc_of d f"
  "close_step conf d err io f = Some f' \<Longrightarrow> work (pc_of d f) = 4 \<Longrightarrow> work (pc_of d f') < work (pc_of d f)"
proof -
  show "write_step d b pc wrap io f = Some f' \<Longrightarrow> 3 < work (pc_of d f) \<Longrightarrow> work pc < work (pc_of d f) \<Longrightarrow> work (pc_of d f') < work (pc_of d f)"
    by (auto simp: write_step_def copy_fails_def ends Let_def split: io.splits if_splits)
  show "early_step d io f = Some f' \<Longrightarrow> work (pc_of d f) = 7 \<Longrightarrow> work (pc_of d f') < work (pc_of d f)"
    by (auto simp: early_step_def copy_fails_def Let_def split: io.splits if_splits list.splits)
  show "move_step d finish io f = Some f' \<Longrightarrow> io \<noteq> IoMove \<Longrightarrow> (\<And>e. work (finish e) < work (pc_of d f)) \<Longrightarrow> work (pc_of d f') < work (pc_of d f)"
    by (auto simp: move_step_def ends Let_def split: io.splits if_splits list.splits)
  show "move_step d finish IoMove f = Some f' \<Longrightarrow> pc_of d f' = pc_of d f"
    by (auto simp: move_step_def ends Let_def split: if_splits list.splits)
  show "close_step conf d err io f = Some f' \<Longrightarrow> work (pc_of d f) = 4 \<Longrightarrow> work (pc_of d f') < work (pc_of d f)"
    by (auto simp: close_step_def ends Let_def split: io.splits if_splits option.splits)
qed

lemma copy_work:
  assumes "connectionCopy_step conf d io f = Some f'"
  shows "if io = IoMove then pc_of d f' = pc_of d f else work (pc_of d f') < work (pc_of d f)"
proof (cases "pc_of d f")
  case (PcCached bs)
  with assms show ?thesis
    by (cases bs) (auto simp: connectionCopy_step_def write_step_def copy_fails_def ends Let_def split: io.splits if_splits)
next
  case (PcEarlyWrite w b)
  with assms show ?thesis by (auto simp: connectionCopy_step_def write_step_def copy_fails_def ends Let_def split: io.splits if_splits)
next
  case PcEarly
  with assms show ?thesis by (auto simp: connectionCopy_step_def early_step_def copy_fails_def Let_def split: io.splits if_splits list.splits)
next
  case PcCopy
  with assms have m: "move_step d PcClose io f = Some f'" by (simp add: connectionCopy_step_def)
  show ?thesis using work_steps(3) [of d PcClose io f f'] work_steps(4) [of d PcClose f f'] m PcCopy by auto
next
  case (PcClose err)
  with assms show ?thesis by (auto simp: connectionCopy_step_def close_step_def ends Let_def split: io.splits if_splits option.splits)
qed (use assms in \<open>auto simp: connectionCopy_step_def onClose_step_def split: if_splits\<close>)

lemma packet_work:
  assumes "packetConnectionCopy_step d io f = Some f'"
  shows "if io = IoMove then pc_of d f' = pc_of d f else work (pc_of d f') < work (pc_of d f)"
proof (cases "pc_of d f = PcCopy")
  case True
  with assms have "move_step d (PcSwap False) io f = Some f'" by (simp add: packetConnectionCopy_step_def)
  with work_steps(3) [of d "PcSwap False" io f f'] work_steps(4) [of d "PcSwap False" f f'] True show ?thesis by auto
next
  case False
  with assms show ?thesis
    by (cases "pc_of d f") (auto simp: packetConnectionCopy_step_def onClose_step_def split: if_splits)
qed

lemma step_work:
  assumes "flow_step conf l f = Some f'"
  shows "work_left f' + (if moves l then 0 else 1) \<le> work_left f"
proof (cases l)
  case (Go d io)
  have "if io = IoMove then pc_of d f' = pc_of d f else work (pc_of d f') < work (pc_of d f)"
    using assms Go copy_work packet_work by (auto split: if_splits)
  moreover have "pc_of (\<not> d) f' = pc_of (\<not> d) f"
    using assms Go copy_same_data [of conf d io f f'] packet_same_data [of d io f f'] by (auto simp: same_data_def split: if_splits)
  ultimately show ?thesis using Go by (cases d) (auto simp: work_left_def split: if_splits)
qed (use assms in \<open>auto simp: work_left_def Let_def split: if_splits\<close>)

lemma run_work: "flow_run conf ls f = Some f' \<Longrightarrow> work_left f' + length (filter (\<lambda>l. \<not> moves l) ls) \<le> work_left f"
proof (induction ls arbitrary: f)
  case (Cons l ls)
  then obtain f1 where "flow_step conf l f = Some f1" "flow_run conf ls f1 = Some f'" by (auto simp: bind_eq_Some_conv)
  with Cons.IH step_work [of conf l f f1] show ?case by fastforce
qed simp

fun packet_pc :: "copy_pc \<Rightarrow> bool" where
  "packet_pc PcCopy = True"
| "packet_pc (PcSwap _ _) = True"
| "packet_pc (PcOnClose _) = True"
| "packet_pc PcCloseBoth = True"
| "packet_pc PcEnd = True"
| "packet_pc _ = False"

lemma packet_pc_step:
  assumes "flow_step conf l f = Some f'" and "fc_packet conf" and "\<forall>d. packet_pc (pc_of d f)"
  shows "packet_pc (pc_of d f')"
proof (cases l)
  case (Go d' io)
  with assms(1,2) have s: "packetConnectionCopy_step d' io f = Some f'" by simp
  show ?thesis
  proof (cases "d = d'")
    case True
    have "packet_pc (pc_of d f)" using assms(3) by simp
    with s True show ?thesis
      by (cases "pc_of d f")
         (auto simp: packetConnectionCopy_step_def onClose_step_def move_step_def ends Let_def split: if_splits io.splits list.splits)
  next
    case False
    with packet_same_data [OF s] have "pc_of d f' = pc_of d f" by (cases d; cases d') (auto simp: same_data_def)
    with assms(3) show ?thesis by simp
  qed
qed (use assms in \<open>auto simp: Let_def split: if_splits\<close>)

text \<open>What holds of every connection, and what a closed one can no longer do.\<close>

definition flow_wf :: "flow_conf \<Rightarrow> flow \<Rightarrow> bool" where
  "flow_wf conf f \<longleftrightarrow> (if fc_packet conf then packet_ok f \<and> (\<forall>d. packet_pc (pc_of d f)) else stream_ok f)"

lemma flow_wf_start: "flow_wf (conf\<lparr>fc_packet := False\<rparr>) (stream_flow up down)" "flow_wf (conf\<lparr>fc_packet := True\<rparr>) packet_flow"
  "flow_wf conf (if fc_packet conf then packet_flow else stream_flow up down)"
  using streams.start_ok packets.start_ok by (auto simp: flow_wf_def packet_flow_def pc_of_def)

lemma flow_wf_step: "flow_wf conf f \<Longrightarrow> flow_step conf l f = Some f' \<Longrightarrow> flow_wf conf f'"
  using streams.step_ok packets.step_ok packet_pc_step by (auto simp: flow_wf_def split: if_splits)

lemma flow_wf_run: "flow_wf conf f \<Longrightarrow> flow_run conf ls f = Some f' \<Longrightarrow> flow_wf conf f'"
  by (induction ls arbitrary: f) (auto simp: bind_eq_Some_conv dest: flow_wf_step)

lemma flow_wf_once: "flow_wf conf f \<Longrightarrow> length (fl_onClose f) \<le> 1"
  "flow_wf conf f \<Longrightarrow> both_ended f \<Longrightarrow> length (fl_onClose f) = 1"
  using streams.at_most_once streams.at_end packets.at_most_once packets.at_end by (auto simp: flow_wf_def split: if_splits)

lemma closed_stays: "flow_step conf l f = Some f' \<Longrightarrow> en_closed (source_of d f) \<Longrightarrow> en_closed (source_of d f')"
proof (cases "\<exists>d io. l = Go d io")
  case True
  assume a: "flow_step conf l f = Some f'" "en_closed (source_of d f)"
  from True obtain d' io where l: "l = Go d' io" by blast
  have late: "en_closed (source_of d f')" if "past_swap (pc_of d' f) \<or> (\<exists>b e. pc_of d' f = PcSwap b e)"
    using a l that by (cases "pc_of d' f") (auto simp: connectionCopy_step_def packetConnectionCopy_step_def onClose_step_def split: if_splits)
  show ?thesis
  proof (cases "past_swap (pc_of d' f) \<or> (\<exists>b e. pc_of d' f = PcSwap b e)")
    case False
    then have q: "connectionCopy_step conf d' io f = Some f' \<Longrightarrow> quiet d' f f'" by (intro copy_quiet) auto
    have "packetConnectionCopy_step d' io f = Some f' \<Longrightarrow> quiet d' f f'"
      using False by (cases "pc_of d' f") (auto simp: packetConnectionCopy_step_def intro: move_quiet)
    with q a l show ?thesis by (auto simp: quiet_def split: if_splits)
  qed (rule late)
qed (use outside_ok in blast)

lemma work_start: "work_left (if fc_packet conf then packet_flow else stream_flow up down) \<le> 16 + length up + length down"
  by (simp add: work_left_def packet_flow_def stream_flow_def pc_of_def)

text \<open>
  A step that no peer has to help with. A read from, or a write to, an end that is closed on this side
  fails at once; on an open end it may wait for ever, and that it fails there is for the network to
  decide. The first read of \<^verbatim>\<open>connectionCopyEarly\<close> has a deadline; closing, the swap and the handler do not wait.
\<close>

fun unaided :: "flow_label \<Rightarrow> flow \<Rightarrow> bool" where
  "unaided (Go d io) f =
     (case pc_of d f of
        PcCopy \<Rightarrow> en_closed (source_of d f)
      | PcCached bs \<Rightarrow> bs = [] \<or> en_closed (destination_of d f)
      | PcEarlyWrite _ _ \<Rightarrow> en_closed (destination_of d f)
      | _ \<Rightarrow> True)"
| "unaided _ f = False"

fun unaided_run :: "flow_conf \<Rightarrow> flow_label list \<Rightarrow> flow \<Rightarrow> flow option" where
  "unaided_run conf [] f = Some f"
| "unaided_run conf (l # ls) f = (if unaided l f then Option.bind (flow_step conf l f) (unaided_run conf ls) else None)"

text \<open>
  What has to end a connection: an I/O call of a goroutine that failed, for packets also a copy
  that ended well, and closing an end from outside while it is being read.
\<close>

fun io_error :: "io \<Rightarrow> bool" where
  "io_error (IoFail _) = True"
| "io_error (IoBreak _ _) = True"
| "io_error (DeadlineFails _) = True"
| "io_error (PayloadFails _) = True"
| "io_error _ = False"

fun fatal :: "flow_conf \<Rightarrow> flow_label \<Rightarrow> flow \<Rightarrow> bool" where
  "fatal conf (Go d io) f \<longleftrightarrow> io_error io \<or> fc_packet conf \<and> io = IoOk"
| "fatal conf (OutsideClose d) f \<longleftrightarrow> pc_of d f = PcCopy"
| "fatal conf _ f \<longleftrightarrow> False"

text \<open>A goroutine that is on its way to closing both ends.\<close>

fun closing_pc :: "flow_conf \<Rightarrow> copy_pc \<Rightarrow> bool" where
  "closing_pc conf (PcClose err) \<longleftrightarrow> err \<noteq> None"
| "closing_pc conf (PcSwap failed _) \<longleftrightarrow> failed \<or> fc_packet conf"
| "closing_pc conf (PcOnClose _) \<longleftrightarrow> True"
| "closing_pc conf PcCloseBoth \<longleftrightarrow> True"
| "closing_pc conf _ \<longleftrightarrow> False"

definition doomed :: "flow_conf \<Rightarrow> flow \<Rightarrow> bool" where
  "doomed conf f \<longleftrightarrow> both_closed f \<or> (\<exists>d. closing_pc conf (pc_of d f) \<or> pc_of d f = PcCopy \<and> en_closed (source_of d f))"

lemma both_closed_stays: "flow_step conf l f = Some f' \<Longrightarrow> both_closed f \<Longrightarrow> both_closed f'"
  using closed_stays [of conf l f f' False] closed_stays [of conf l f f' True] by (auto simp: both_closed_def ends_as_sources)

lemma both_closed_close [simp]: "both_closed (set_pc d pc (close_both f))"
  by (simp add: both_closed_def close_both_def set_pc_def source_of_def)

lemma fatal_doomed:
  assumes "flow_step conf l f = Some f'" and "fatal conf l f'"
  shows "doomed conf f'"
proof (cases l)
  case (Go d io)
  have "both_closed f' \<or> closing_pc conf (pc_of d f')"
  proof (cases "fc_packet conf")
    case True
    with assms Go show ?thesis
      by (cases "pc_of d f")
         (auto simp: packetConnectionCopy_step_def move_step_def onClose_step_def ends Let_def split: if_splits io.splits list.splits)
  next
    case False
    with assms Go have s: "connectionCopy_step conf d io f = Some f'" "io_error io" by auto
    show ?thesis
    proof (cases "pc_of d f")
      case (PcCached bs)
      with s show ?thesis
        by (cases bs) (auto simp: connectionCopy_step_def write_step_def copy_fails_def ends Let_def split: io.splits if_splits)
    qed (use s in \<open>auto simp: connectionCopy_step_def write_step_def early_step_def move_step_def close_step_def copy_fails_def
      ends Let_def split: io.splits if_splits list.splits option.splits\<close>)
  qed
  then show ?thesis by (auto simp: doomed_def)
next
  case (OutsideClose d)
  with assms show ?thesis by (auto simp: doomed_def intro!: exI [of _ d])
qed (use assms in auto)

lemma closing_goes_on:
  assumes "flow_step conf (Go d io) f = Some f'"
    and "closing_pc conf (pc_of d f) \<or> pc_of d f = PcCopy \<and> en_closed (source_of d f)"
  shows "both_closed f' \<or> closing_pc conf (pc_of d f')"
  using assms by (cases "pc_of d f") (auto simp: copy_steps onClose_step_def ends Let_def split: if_splits io.splits list.splits option.splits)

lemma other_goroutine: "flow_step conf (Go d io) f = Some f' \<Longrightarrow> pc_of (\<not> d) f' = pc_of (\<not> d) f"
  using copy_same_data [of conf d io f f'] packet_same_data [of d io f f'] by (auto simp: same_data_def split: if_splits)

lemma doomed_step:
  assumes "doomed conf f" and "flow_step conf (Go d io) f = Some f'"
  shows "doomed conf f'"
proof (cases "both_closed f")
  case False
  with assms(1) obtain d' where d': "closing_pc conf (pc_of d' f) \<or> pc_of d' f = PcCopy \<and> en_closed (source_of d' f)"
    by (auto simp: doomed_def)
  show ?thesis
  proof (cases "d' = d")
    case True
    with closing_goes_on [OF assms(2)] d' show ?thesis by (auto simp: doomed_def)
  next
    case False
    then have "d' = (\<not> d)" by auto
    with other_goroutine [OF assms(2)] have "pc_of d' f' = pc_of d' f" by simp
    with d' closed_stays [OF assms(2), of d'] have "closing_pc conf (pc_of d' f') \<or> pc_of d' f' = PcCopy \<and> en_closed (source_of d' f')"
      by metis
    then show ?thesis by (auto simp: doomed_def)
  qed
qed (use both_closed_stays [OF assms(2)] in \<open>simp add: doomed_def\<close>)

lemma unaided_no_move: "unaided l f \<Longrightarrow> flow_step conf l f = Some f' \<Longrightarrow> \<not> moves l"
proof (cases l)
  case (Go d io)
  assume u: "unaided l f" "flow_step conf l f = Some f'"
  show ?thesis
  proof (cases "pc_of d f")
    case (PcCached bs)
    with u Go show ?thesis by (cases bs) (auto simp: connectionCopy_step_def packetConnectionCopy_step_def write_step_def Let_def split: if_splits)
  qed (use u Go in \<open>auto simp: copy_steps Let_def split: if_splits list.splits option.splits\<close>)
qed auto

lemma unaided_run_flow: "unaided_run conf ls f = Some f' \<Longrightarrow> flow_run conf ls f = Some f'"
  by (induction ls arbitrary: f) (auto simp: bind_eq_Some_conv split: if_splits)

lemma unaided_run_append: "unaided_run conf (xs @ ys) f = Option.bind (unaided_run conf xs f) (unaided_run conf ys)"
proof (induction xs arbitrary: f)
  case (Cons l xs)
  then show ?case by (cases "flow_step conf l f") simp_all
qed simp

lemma unaided_bounded: "unaided_run conf ls f = Some f' \<Longrightarrow> work_left f' + length ls \<le> work_left f"
proof (induction ls arbitrary: f)
  case (Cons l ls)
  then obtain f1 where f1: "unaided l f" "flow_step conf l f = Some f1" "unaided_run conf ls f1 = Some f'"
    by (auto simp: bind_eq_Some_conv split: if_splits)
  with step_work [OF f1(2)] unaided_no_move [OF f1(1,2)] Cons.IH [OF f1(3)] show ?case by simp
qed simp

lemma unaided_doomed: "unaided_run conf ls f = Some f' \<Longrightarrow> doomed conf f \<Longrightarrow> doomed conf f'"
proof (induction ls arbitrary: f)
  case (Cons l ls)
  then obtain f1 where f1: "unaided l f" "flow_step conf l f = Some f1" "unaided_run conf ls f1 = Some f'"
    by (auto simp: bind_eq_Some_conv split: if_splits)
  then obtain d io where "l = Go d io" by (cases l) auto
  with doomed_step [OF Cons.prems(2)] Cons.IH [OF f1(3)] f1(2) show ?case by blast
qed simp

text \<open>A goroutine that closes has a step to take; with both ends closed every goroutine that has not ended has one.\<close>

lemma closing_progress:
  assumes "flow_wf conf f" and "closing_pc conf (pc_of d f) \<or> pc_of d f = PcCopy \<and> en_closed (source_of d f)"
  shows "\<exists>io f'. unaided (Go d io) f \<and> flow_step conf (Go d io) f = Some f'"
proof (cases "pc_of d f")
  case PcCopy
  with assms(2) show ?thesis
    by (auto simp: connectionCopy_step_def packetConnectionCopy_step_def move_step_def intro!: exI [of _ "IoFail ErrInvalid"])
next
  case (PcClose err)
  with assms have "\<not> fc_packet conf" by (auto simp: flow_wf_def split: if_splits) (metis packet_pc.simps)
  with PcClose assms(2) show ?thesis by (auto simp: connectionCopy_step_def close_step_def intro!: exI [of _ IoOk])
qed (use assms(2) in \<open>auto simp: connectionCopy_step_def packetConnectionCopy_step_def intro!: exI [of _ IoOk]\<close>)

lemma closed_progress:
  assumes "flow_wf conf f" and "both_closed f" and "pc_of d f \<noteq> PcEnd"
  shows "\<exists>io f'. unaided (Go d io) f \<and> flow_step conf (Go d io) f = Some f'"
proof (cases "fc_packet conf")
  case True
  with assms(1) have "packet_pc (pc_of d f)" by (simp add: flow_wf_def)
  with True assms closing_progress [OF assms(1), of d] show ?thesis
    by (cases "pc_of d f") (auto simp: both_closed_def source_of_def split: if_splits)
next
  case False
  have c: "en_closed (source_of x f)" "en_closed (destination_of x f)" for x
    using assms(2) by (auto simp: both_closed_def source_of_def destination_of_def)
  show ?thesis
  proof (cases "pc_of d f")
    case (PcCached bs)
    with False c show ?thesis
      by (cases bs) (auto simp: connectionCopy_step_def write_step_def Let_def intro: exI [of _ IoOk] exI [of _ "IoFail ErrInvalid"])
  next
    case PcEarly
    with False show ?thesis by (auto simp: connectionCopy_step_def early_step_def intro!: exI [of _ PayloadTimeout])
  next
    case (PcEarlyWrite w b)
    with False c show ?thesis by (auto simp: connectionCopy_step_def write_step_def intro!: exI [of _ "IoFail ErrInvalid"])
  next
    case PcCopy
    with False c show ?thesis by (auto simp: connectionCopy_step_def move_step_def intro!: exI [of _ "IoFail ErrInvalid"])
  qed (use False assms(3) in \<open>auto simp: connectionCopy_step_def close_step_def Let_def split: option.splits intro!: exI [of _ IoOk]\<close>)
qed

lemma doomed_stuck_ended:
  assumes "flow_wf conf f" and "doomed conf f" and "\<And>l f'. unaided l f \<Longrightarrow> flow_step conf l f \<noteq> Some f'"
  shows "both_ended f \<and> both_closed f"
proof -
  have "\<not> (closing_pc conf (pc_of d f) \<or> pc_of d f = PcCopy \<and> en_closed (source_of d f))" for d
    using closing_progress [OF assms(1), of d] assms(3) by meson
  with assms(2) have c: "both_closed f" unfolding doomed_def by meson
  then have "pc_of d f = PcEnd" for d using closed_progress [OF assms(1), of d] assms(3) by meson
  with c show ?thesis by (simp add: both_ended_def)
qed

text \<open>C15 (failed_copy_ends): When an I/O call of one of the two goroutines has failed, when a packet copy has ended in any way,
  or when an end that is being read is closed from outside, the connection ends without help of its peers: every run of steps that wait
  for no peer is bounded, and one that cannot be continued has both goroutines ended, both
  ends closed and the close handler called once.\<close>
theorem failed_copy_ends:
  assumes "flow_run conf ls (if fc_packet conf then packet_flow else stream_flow up down) = Some f"
    and "flow_step conf l f = Some f1" and "fatal conf l f1" and "unaided_run conf ls' f1 = Some f2"
  shows "length ls' \<le> 16 + length up + length down \<and>
    ((\<forall>l'. unaided_run conf (ls' @ [l']) f1 = None) \<longrightarrow>
       fl_up f2 = PcEnd \<and> fl_down f2 = PcEnd \<and> en_closed (fl_conn f2) \<and> en_closed (fl_remote f2) \<and> length (fl_onClose f2) = 1)"
proof
  have "work_left f1 \<le> 16 + length up + length down"
    using run_work [OF assms(1)] work_start [of conf up down] step_work [OF assms(2)] by linarith
  with unaided_bounded [OF assms(4)] show "length ls' \<le> 16 + length up + length down" by linarith
  have wf: "flow_wf conf f2"
    by (rule flow_wf_run [OF flow_wf_step [OF flow_wf_run [OF flow_wf_start(3) assms(1)] assms(2)] unaided_run_flow [OF assms(4)]])
  note d = unaided_doomed [OF assms(4) fatal_doomed [OF assms(2,3)]]
  show "(\<forall>l'. unaided_run conf (ls' @ [l']) f1 = None) \<longrightarrow>
       fl_up f2 = PcEnd \<and> fl_down f2 = PcEnd \<and> en_closed (fl_conn f2) \<and> en_closed (fl_remote f2) \<and> length (fl_onClose f2) = 1"
  proof
    assume stuck: "\<forall>l'. unaided_run conf (ls' @ [l']) f1 = None"
    have "flow_step conf l' f2 \<noteq> Some f'" if "unaided l' f2" for l' f'
      using spec [OF stuck, of l'] assms(4) that by (auto simp: unaided_run_append)
    from doomed_stuck_ended [OF wf d this] have e: "both_ended f2" "both_closed f2" by auto
    with flow_wf_once(2) [OF wf] show "fl_up f2 = PcEnd \<and> fl_down f2 = PcEnd \<and> en_closed (fl_conn f2) \<and> en_closed (fl_remote f2) \<and> length (fl_onClose f2) = 1"
      by (simp add: both_ended_def both_closed_def pc_of_def source_of_def)
  qed
qed

section \<open>The list of the manager\<close>

definition manager_ok :: "conn_manager \<Rightarrow> bool" where
  "manager_ok m \<longleftrightarrow> (\<forall>(conf, f) \<in> set (cm_flows m). flow_wf conf f) \<and> distinct (cm_connections m) \<and>
     (\<forall>i \<in> set (cm_connections m). i < length (cm_flows m) \<and> fl_onClose (snd (cm_flows m ! i)) = [])"

definition all_listed :: "conn_manager \<Rightarrow> bool" where
  "all_listed m \<longleftrightarrow> (\<forall>i < length (cm_flows m). fl_onClose (snd (cm_flows m ! i)) = [] \<longrightarrow> i \<in> set (cm_connections m))"

lemma start_copy_ok:
  assumes "manager_ok m" and "flow_wf conf f" and "fl_onClose f = []"
  shows "manager_ok (start_copy conf f m) \<and> (all_listed m \<longrightarrow> all_listed (start_copy conf f m))"
proof
  have old: "i < length (cm_flows m)" "fl_onClose (snd (cm_flows m ! i)) = []" if "i \<in> set (cm_connections m)" for i
    using assms(1) that by (auto simp: manager_ok_def)
  have "\<forall>i \<in> set (cm_connections m). i < Suc (length (cm_flows m)) \<and> fl_onClose (snd ((cm_flows m @ [(conf, f)]) ! i)) = []"
    using old by (auto simp: nth_append less_SucI)
  moreover have "length (cm_flows m) \<notin> set (cm_connections m)" using old(1) by blast
  ultimately show "manager_ok (start_copy conf f m)"
    using assms by (simp add: manager_ok_def start_copy_def)
next
  show "all_listed m \<longrightarrow> all_listed (start_copy conf f m)"
    by (simp add: all_listed_def start_copy_def nth_append less_Suc_eq)
qed

lemma onClose_grows: "flow_step conf l f = Some f' \<Longrightarrow> flow_wf conf f \<Longrightarrow>
   fl_onClose f' = fl_onClose f \<or> (fl_onClose f = [] \<and> length (fl_onClose f') = 1)"
proof -
  assume s: "flow_step conf l f = Some f'" and wf: "flow_wf conf f"
  have "fl_onClose f' = fl_onClose f \<or> (\<exists>e. fl_onClose f' = fl_onClose f @ [e])"
  proof (cases l)
    case (Go d io)
    show ?thesis
    proof (cases "past_swap (pc_of d f) \<or> (\<exists>b e. pc_of d f = PcSwap b e)")
      case True
      with s Go show ?thesis
        by (cases "pc_of d f") (auto simp: connectionCopy_step_def packetConnectionCopy_step_def onClose_step_def split: if_splits)
    next
      case False
      then have "connectionCopy_step conf d io f = Some f' \<Longrightarrow> quiet d f f'" by (intro copy_quiet) auto
      moreover have "packetConnectionCopy_step d io f = Some f' \<Longrightarrow> quiet d f f'"
        using False by (cases "pc_of d f") (auto simp: packetConnectionCopy_step_def intro: move_quiet)
      ultimately show ?thesis using s Go by (auto simp: quiet_def split: if_splits)
    qed
  qed (use s in \<open>auto simp: Let_def split: if_splits\<close>)
  with flow_wf_once(1) [OF flow_wf_step [OF wf s]] show ?thesis by (cases "fl_onClose f") auto
qed

lemma run_copy_ok:
  assumes "manager_ok m" and "run_copy i l m = Some m'"
  shows "manager_ok m' \<and> (all_listed m \<longrightarrow> all_listed m')"
proof -
  obtain conf f f' where i: "i < length (cm_flows m)" "cm_flows m ! i = (conf, f)" and s: "flow_step conf l f = Some f'"
      and m': "m' = m\<lparr>cm_flows := (cm_flows m)[i := (conf, f')],
        cm_connections := (if length (fl_onClose f') > length (fl_onClose f) then remove1 i (cm_connections m) else cm_connections m)\<rparr>"
    using assms(2) by (auto simp: run_copy_def split: if_splits prod.splits option.splits)
  have wf: "flow_wf conf f" using assms(1) i nth_mem [of i "cm_flows m"] by (auto simp: manager_ok_def)
  have wf': "flow_wf conf f'" by (rule flow_wf_step [OF wf s])
  have d: "distinct (cm_connections m)" using assms(1) by (simp add: manager_ok_def)
  have g: "fl_onClose f' = fl_onClose f \<or> (fl_onClose f = [] \<and> length (fl_onClose f') = 1)" by (rule onClose_grows [OF s wf])
  have "\<forall>(conf, f) \<in> set (cm_flows m'). flow_wf conf f"
    using assms(1) wf' set_update_subset_insert [of "cm_flows m" i "(conf, f')"] unfolding m' manager_ok_def by auto
  moreover have "\<forall>j \<in> set (cm_connections m'). j < length (cm_flows m') \<and> fl_onClose (snd (cm_flows m' ! j)) = []"
    using assms(1) g d i unfolding m' manager_ok_def by (auto simp: nth_list_update set_remove1_eq split: if_splits)
  moreover have "distinct (cm_connections m')" using d unfolding m' by auto
  moreover have "all_listed m'" if "all_listed m"
    using that g d i unfolding m' all_listed_def by (auto simp: nth_list_update set_remove1_eq split: if_splits)
  ultimately show ?thesis unfolding manager_ok_def by blast
qed

lemma close_manager_ok:
  assumes "manager_ok m"
  shows "manager_ok (ConnectionManager_Close m)"
proof -
  have c: "flow_wf conf (f\<lparr>fl_conn := (fl_conn f)\<lparr>en_closed := True\<rparr>\<rparr>)" if "flow_wf conf f" for conf f
    using flow_wf_step [OF that, of "OutsideClose False"] by (simp add: set_source_def source_of_def)
  have "flow_wf conf' f'" if "(conf', f') \<in> set (cm_flows (ConnectionManager_Close m))" for conf' f'
  proof -
    from that obtain i conf f where i: "(i, conf, f) \<in> set (enumerate 0 (cm_flows m))"
        and f': "(conf', f') = (if i \<in> set (cm_connections m) then (conf, f\<lparr>fl_conn := (fl_conn f)\<lparr>en_closed := True\<rparr>\<rparr>) else (conf, f))"
      unfolding ConnectionManager_Close_def by (auto split: prod.splits)
    from i have "(conf, f) \<in> set (cm_flows m)" using nth_mem [of i "cm_flows m"] by (auto simp: in_set_enumerate_eq)
    then have "flow_wf conf f" using assms by (auto simp: manager_ok_def)
    with c f' show ?thesis by (auto split: if_splits)
  qed
  then have "\<forall>(conf, f) \<in> set (cm_flows (ConnectionManager_Close m)). flow_wf conf f" by blast
  then show ?thesis by (simp add: manager_ok_def ConnectionManager_Close_def)
qed

lemma manager_reachable_ok:
  "manager_reachable ls m \<Longrightarrow> manager_ok m \<and> (CloseManager \<notin> set ls \<longrightarrow> all_listed m)"
proof (induction rule: manager_reachable.induct)
  case reach_new
  then show ?case by (simp add: manager_ok_def all_listed_def NewConnectionManager_def)
next
  case (reach_step ls m l m')
  then show ?case
  proof (cases l)
    case (StartStream conf up down)
    with reach_step start_copy_ok [of m "conf\<lparr>fc_packet := False\<rparr>" "stream_flow up down"] flow_wf_start(1) show ?thesis
      by (auto simp: stream_flow_def)
  next
    case (StartPacket conf)
    with reach_step start_copy_ok [of m "conf\<lparr>fc_packet := True\<rparr>" packet_flow] flow_wf_start(2) show ?thesis
      by (auto simp: packet_flow_def)
  next
    case (Run i fl)
    with reach_step run_copy_ok [of m i fl m'] show ?thesis by auto
  next
    case CloseManager
    with reach_step close_manager_ok show ?thesis by auto
  qed
qed

text \<open>C28 (manager_list_exact): In every state of the connection manager its list holds each connection at most once and only
  connections whose close handler has not run; as long as the manager has not been closed, it
  holds all of them, so that a connection both of whose goroutines have ended is in the list no more.\<close>
theorem manager_list_exact:
  assumes "manager_reachable ls m"
  shows "distinct (cm_connections m) \<and>
    set (cm_connections m) \<subseteq> {i. i < length (cm_flows m) \<and> fl_onClose (snd (cm_flows m ! i)) = []} \<and>
    (CloseManager \<notin> set ls \<longrightarrow> {i. i < length (cm_flows m) \<and> fl_onClose (snd (cm_flows m ! i)) = []} \<subseteq> set (cm_connections m)) \<and>
    (\<forall>i \<in> set (cm_connections m). \<not> (fl_up (snd (cm_flows m ! i)) = PcEnd \<and> fl_down (snd (cm_flows m ! i)) = PcEnd))"
proof -
  note ok = manager_reachable_ok [OF assms]
  have "\<not> both_ended (snd (cm_flows m ! i))" if i: "i \<in> set (cm_connections m)" for i
  proof
    assume b: "both_ended (snd (cm_flows m ! i))"
    from ok i have l: "i < length (cm_flows m)" "fl_onClose (snd (cm_flows m ! i)) = []" by (auto simp: manager_ok_def)
    obtain conf f where cf: "cm_flows m ! i = (conf, f)" by fastforce
    with ok l(1) have "flow_wf conf f" using nth_mem [of i "cm_flows m"] by (auto simp: manager_ok_def)
    from flow_wf_once(2) [OF this] b l(2) cf show False by simp
  qed
  with ok show ?thesis by (auto simp: manager_ok_def all_listed_def both_ended_def pc_of_def)
qed

section \<open>A sample run\<close>

text \<open>The client sends, closes its direction, and then gets the answer.\<close>

definition sample_conf :: flow_conf where
  "sample_conf = \<lparr>fc_packet = False, fc_early = (\<lambda>_. False), fc_duplex = (\<lambda>_. True)\<rparr>"

definition sample_upload :: "flow_label list" where
  "sample_upload = [Go False IoOk, Go False IoOk, Go True IoOk, Arrive False [1], Go False IoMove, PeerEOF False, Go False IoOk, Go False IoOk,
     Go False IoOk]"

definition sample_download :: "flow_label list" where
  "sample_download = [Arrive True [2], Go True IoMove, PeerEOF True, Go True IoOk, Go True IoOk, Go True IoOk, Go True IoOk, Go True IoOk]"

definition sample_final :: flow where
  "sample_final =
     \<lparr>fl_conn = \<lparr>en_in = [], en_out = [[2]], en_eof = True, en_wclosed = True, en_closed = True\<rparr>,
      fl_remote = \<lparr>en_in = [], en_out = [[7], [1]], en_eof = True, en_wclosed = True, en_closed = True\<rparr>,
      fl_up = PcEnd, fl_down = PcEnd, fl_done = True, fl_onClose = [None]\<rparr>"

lemmas sample_eval = sample_conf_def sample_upload_def sample_download_def sample_final_def stream_flow_def new_end_def copy_steps
  pc_of_def set_pc_def source_of_def set_source_def destination_of_def set_destination_def write_chunk_def close_both_def

lemma sample_flow:
  "flow_run sample_conf (sample_upload @ sample_download) (if fc_packet sample_conf then packet_flow else stream_flow [[7]] []) = Some sample_final"
  by (simp add: sample_eval)

theorem close_handler_once_witness:
  "length (fl_onClose sample_final) = 1 \<and> en_closed (fl_conn sample_final) \<and> en_closed (fl_remote sample_final)"
  using close_handler_once [OF sample_flow] by (simp add: sample_final_def)

theorem bytes_in_order_witness:
  "prefix (concat (en_out (fl_remote sample_final))) ([7] @ [1]) \<and> prefix (concat (en_out (fl_conn sample_final))) ([] @ [2])"
  using bytes_in_order [OF sample_flow] by (simp add: sample_conf_def sample_upload_def sample_download_def)

theorem half_close_completes_witness:
  "concat (en_out (fl_remote sample_final)) = [7, 1] \<and> concat (en_out (fl_conn sample_final)) = [2]"
proof -
  have "list_all benign (sample_upload @ sample_download)" by (simp add: sample_upload_def sample_download_def)
  moreover have "flow_run sample_conf (sample_upload @ sample_download) (stream_flow [[7]] []) = Some sample_final"
    using sample_flow by (simp add: sample_conf_def)
  ultimately show ?thesis
    using half_close_completes [of sample_conf "sample_upload @ sample_download" "[[7]]" "[]" sample_final]
    by (simp add: sample_conf_def sample_upload_def sample_download_def sample_final_def)
qed

text \<open>A stream whose upload fails while the download waits for the remote end.\<close>

definition sample_ending :: "flow_label list" where
  "sample_ending = [Go False IoOk, Go False IoOk, Go True (IoFail ErrInvalid), Go True IoOk, Go True IoOk, Go True IoOk, Go True IoOk]"

definition sample_failed :: flow where
  "sample_failed = (stream_flow [] [])\<lparr>fl_up := PcClose (Some ErrInvalid), fl_down := PcCopy\<rparr>"

definition sample_ended :: flow where
  "sample_ended = close_both ((stream_flow [] [])\<lparr>fl_up := PcEnd, fl_down := PcEnd, fl_done := True, fl_onClose := [Some ErrInvalid]\<rparr>)"

lemmas failed_eval = sample_conf_def sample_failed_def sample_ended_def sample_ending_def stream_flow_def new_end_def copy_steps
  close_both_def set_pc_def pc_of_def source_of_def set_source_def ends onClose_step_def

lemma sample_failed_runs:
  "flow_run sample_conf [Go False IoOk, Go True IoOk] (stream_flow [] []) = Some ((stream_flow [] [])\<lparr>fl_up := PcCopy, fl_down := PcCopy\<rparr>)"
  "flow_step sample_conf (Go False (IoFail ErrInvalid)) ((stream_flow [] [])\<lparr>fl_up := PcCopy, fl_down := PcCopy\<rparr>) = Some sample_failed"
  "unaided_run sample_conf sample_ending sample_failed = Some sample_ended"
  by (simp_all add: failed_eval)

lemma sample_ended_stuck: "unaided_run sample_conf (sample_ending @ [l]) sample_failed = None"
  unfolding unaided_run_append sample_failed_runs(3) by (cases l) (simp_all add: failed_eval)

theorem failed_copy_ends_witness:
  "length sample_ending \<le> 16 \<and> fl_up sample_ended = PcEnd \<and> fl_down sample_ended = PcEnd \<and> en_closed (fl_conn sample_ended) \<and>
   en_closed (fl_remote sample_ended) \<and> length (fl_onClose sample_ended) = 1"
proof -
  have c: "\<not> fc_packet sample_conf" by (simp add: sample_conf_def)
  have "flow_run sample_conf [Go False IoOk, Go True IoOk]
      (if fc_packet sample_conf then packet_flow else stream_flow [] []) = Some ((stream_flow [] [])\<lparr>fl_up := PcCopy, fl_down := PcCopy\<rparr>)"
    using c sample_failed_runs(1) by simp
  from failed_copy_ends [OF this sample_failed_runs(2) _ sample_failed_runs(3)] sample_ended_stuck show ?thesis by simp
qed

theorem manager_list_exact_witness:
  "set (cm_connections (start_copy (sample_conf\<lparr>fc_packet := False\<rparr>) (stream_flow [] []) NewConnectionManager)) = {0}"
proof -
  let ?m = "start_copy (sample_conf\<lparr>fc_packet := False\<rparr>) (stream_flow [] []) NewConnectionManager"
  have "manager_reachable ([] @ [StartStream sample_conf [] []]) ?m"
    by (rule reach_step [OF reach_new]) simp
  from manager_list_exact [OF this] show ?thesis by (auto simp: start_copy_def NewConnectionManager_def stream_flow_def)
qed

section \<open>Opening connections\<close>

text \<open>Remark (packet_report_forgets_handler): When the success of a packet connection cannot be reported, both ends are closed but the close
  handler is not called, unlike for a stream: whoever waits for it waits forever.\<close>
lemma packet_report_forgets_handler:
  assumes "mc_UDPConnect c = False" and "fst (listen_packet_connection Z this c) = Inr (remote, a)" and "report remote = Some err"
  shows "NewPacketConnection C Z this report nat_conn c = ([CloseConn, CloseRemote], None)"
  using assms by (simp add: NewPacketConnection_def Let_def)

lemma stream_report_calls_handler:
  assumes "fst (dial_connection Z this c) = Inr remote" and "report remote = Some err"
  shows "\<exists>e. CloseOnHandshakeFailure e \<in> set (fst (NewConnection C Z this report c))"
  using assms by (simp add: NewConnection_def)

text \<open>Remark (route_only_keeps_domain): Addresses that were resolved for routing only are handed to dialers that take them beside the
  domain, and to no other: those get the domain itself and nothing else.\<close>
lemma route_only_keeps_domain:
  assumes "mc_ResolveRouteOnly c" and "mc_DestinationAddresses c \<noteq> []" and "\<not> dl_parallel_network this"
  shows "snd (dial_connection Z this c) = [CallDialContext NetworkTCP (mc_Destination c)]"
    and "snd (dial_packet_connection C Z this c) = [CallDialContext NetworkUDP (mc_Destination c)]"
    and "snd (listen_packet_connection Z this c) = [CallListenPacket (mc_Destination c)]"
  using assms by (simp_all add: dial_connection_def dial_packet_connection_def listen_packet_connection_def call_once_def split: sum.split)

end
