(* ===== verification/Managers.thy ===== *)
theory Managers
  imports Outbound_Manager
begin

text \<open>
  The managers of inbounds, endpoints and services (\<^verbatim>\<open>adapter/inbound\<close>, \<^verbatim>\<open>adapter/endpoint\<close> and
  \<^verbatim>\<open>adapter/service\<close>), each with its registry of constructors. The three packages differ in
  their messages, in the stage that endpoints are started with, and in the lookup of inbounds,
  which goes on with the endpoints; what they share is defined once.

  An object is a service as in \<^verbatim>\<open>Start_Order\<close>; its interface demands \<^verbatim>\<open>Start\<close> and \<^verbatim>\<open>Close\<close>, so
  a manager closes every object. Every object is allocated by its constructor, and the
  number of the allocation is its identity.
\<close>

section \<open>Registries\<close>

text \<open>
  A registry holds for a type name the function that makes empty options and the constructor. Options
  are a Go value of any type: \<open>'o\<close>. A constructor gets the number of the allocation, the tag
  and the raw options.
\<close>

type_synonym ('o, 'a) constructor_func = "nat \<Rightarrow> string \<Rightarrow> 'o option \<Rightarrow> 'a result"

record ('o, 'a) registry =
  rg_optionsType :: "string \<rightharpoonup> 'o"
  rg_constructor :: "string \<rightharpoonup> ('o, 'a) constructor_func"

definition NewRegistry :: "('o, 'a) registry" where
  "NewRegistry = \<lparr>rg_optionsType = Map.empty, rg_constructor = Map.empty\<rparr>"

definition registry_register ::
  "string \<Rightarrow> 'o \<Rightarrow> ('o, 'a) constructor_func \<Rightarrow> ('o, 'a) registry \<Rightarrow> ('o, 'a) registry" where
  "registry_register type optionsConstructor constructor r =
     r\<lparr>rg_optionsType := (rg_optionsType r)(type \<mapsto> optionsConstructor),
       rg_constructor := (rg_constructor r)(type \<mapsto> constructor)\<rparr>"

text \<open>\<^verbatim>\<open>Register\<close> for an options type \<open>'t\<close>: \<open>inject\<close> puts a value of it into an interface, \<open>cast\<close> is the
  type assertion, which panics on another type; no options at all stand for the zero value.\<close>

definition Register ::
  "('t \<Rightarrow> 'o) \<Rightarrow> ('o \<Rightarrow> 't option) \<Rightarrow> 't \<Rightarrow> string \<Rightarrow> (nat \<Rightarrow> string \<Rightarrow> 't \<Rightarrow> 'a result) \<Rightarrow>
   ('o, 'a) registry \<Rightarrow> ('o, 'a) registry" where
  "Register inject cast zero type constructor =
     registry_register type (inject zero)
       (\<lambda>n tag rawOptions.
          case rawOptions of
            None \<Rightarrow> constructor n tag zero
          | Some raw \<Rightarrow> (case cast raw of
                           None \<Rightarrow> Inl (EPanic ''interface conversion'')
                         | Some options \<Rightarrow> constructor n tag options))"

definition registry_CreateOptions :: "('o, 'a) registry \<Rightarrow> string \<Rightarrow> 'o option" where
  "registry_CreateOptions r type = rg_optionsType r type"

text \<open>The registries of inbounds, endpoints, services and outbounds have the same message; that of
  the DNS transports says what it looks for.\<close>

definition registry_Create :: "string \<Rightarrow> ('o, 'a) registry \<Rightarrow> nat \<Rightarrow> string \<Rightarrow> string \<Rightarrow> 'o option \<Rightarrow> 'a result" where
  "registry_Create what r n tag type options =
     (case rg_constructor r type of
        None \<Rightarrow> Inl (ENew (what @ '' type not found: '' @ type))
      | Some constructor \<Rightarrow> constructor n tag options)"

definition Registry_Create :: "('o, 'a) registry \<Rightarrow> nat \<Rightarrow> string \<Rightarrow> string \<Rightarrow> 'o option \<Rightarrow> 'a result" where
  "Registry_Create = registry_Create ''outbound''"

definition CreateDNSTransport :: "('o, 'a) registry \<Rightarrow> nat \<Rightarrow> string \<Rightarrow> string \<Rightarrow> 'o option \<Rightarrow> 'a result" where
  "CreateDNSTransport = registry_Create ''transport''"

section \<open>The managers\<close>

record tag_manager =
  mg_started :: bool
  mg_stage :: start_stage
  mg_items :: "service list"
  mg_itemByTag :: "(string \<times> service) list"

definition inbound_words :: start_words where
  "inbound_words = \<lparr>sw_prefix = ''inbound/'', sw_name = ''inbound''\<rparr>"

definition endpoint_words :: start_words where
  "endpoint_words = \<lparr>sw_prefix = ''endpoint/'', sw_name = ''endpoint''\<rparr>"

definition service_words :: start_words where
  "service_words = \<lparr>sw_prefix = ''service/'', sw_name = ''service''\<rparr>"

definition NewTagManager :: tag_manager where
  "NewTagManager = \<lparr>mg_started = False, mg_stage = StartStateInitialize, mg_items = [], mg_itemByTag = []\<rparr>"

subsection \<open>Start and close\<close>

definition already_started :: "start_stage \<Rightarrow> tag_manager \<Rightarrow> bool" where
  "already_started stage m \<longleftrightarrow> mg_started m \<and> stage_number stage \<le> stage_number (mg_stage m)"

definition tagged_Start ::
  "start_words \<Rightarrow> start_stage \<Rightarrow> tag_manager \<Rightarrow> error option \<times> service event list \<times> tag_manager" where
  "tagged_Start K stage m =
     (if already_started stage m then (Some (EPanic ''already started''), [], m)
      else
        (let m1 = m\<lparr>mg_started := True, mg_stage := stage\<rparr> in
         case start_all K stage (mg_items m1) [] of (r, evs) \<Rightarrow> (r, evs, m1)))"

definition InboundManager_Start ::
  "start_stage \<Rightarrow> tag_manager \<Rightarrow> error option \<times> service event list \<times> tag_manager" where
  "InboundManager_Start = tagged_Start inbound_words"

definition ServiceManager_Start ::
  "start_stage \<Rightarrow> tag_manager \<Rightarrow> error option \<times> service event list \<times> tag_manager" where
  "ServiceManager_Start = tagged_Start service_words"

text \<open>The outbound manager starts the endpoints in the stage \<^verbatim>\<open>start\<close>.\<close>

definition EndpointManager_Start ::
  "start_stage \<Rightarrow> tag_manager \<Rightarrow> error option \<times> service event list \<times> tag_manager" where
  "EndpointManager_Start stage m =
     (if already_started stage m then (Some (EPanic ''already started''), [], m)
      else
        (let m1 = m\<lparr>mg_started := True, mg_stage := stage\<rparr> in
         if stage = StartStateStart then (None, [], m1)
         else (case start_all endpoint_words stage (mg_items m1) [] of (r, evs) \<Rightarrow> (r, evs, m1))))"

text \<open>The errors of the objects are collected and not returned, and the table by tag stays.\<close>

definition tagged_Close :: "tag_manager \<Rightarrow> service event list \<times> tag_manager" where
  "tagged_Close m =
     (if \<not> mg_started m then ([], m)
      else (map Closed (mg_items m), m\<lparr>mg_started := False, mg_items := []\<rparr>))"

definition InboundManager_Close :: "tag_manager \<Rightarrow> service event list \<times> tag_manager" where
  "InboundManager_Close = tagged_Close"

definition EndpointManager_Close :: "tag_manager \<Rightarrow> service event list \<times> tag_manager" where
  "EndpointManager_Close = tagged_Close"

definition ServiceManager_Close :: "tag_manager \<Rightarrow> service event list \<times> tag_manager" where
  "ServiceManager_Close = tagged_Close"

subsection \<open>Lookup\<close>

definition EndpointManager_Get :: "tag_manager \<Rightarrow> string \<Rightarrow> service option" where
  "EndpointManager_Get m tag = map_of (mg_itemByTag m) tag"

definition ServiceManager_Get :: "tag_manager \<Rightarrow> string \<Rightarrow> service option" where
  "ServiceManager_Get m tag = map_of (mg_itemByTag m) tag"

definition InboundManager_Get :: "tag_manager \<Rightarrow> tag_manager \<Rightarrow> string \<Rightarrow> service option" where
  "InboundManager_Get endpoint m tag =
     (case map_of (mg_itemByTag m) tag of
        Some inbound \<Rightarrow> Some inbound
      | None \<Rightarrow> EndpointManager_Get endpoint tag)"

text \<open>What the outbound manager sees of the endpoint manager.\<close>

definition endpoint_view_of :: "tag_manager \<Rightarrow> endpoint_view" where
  "endpoint_view_of m = \<lparr>ep_Get = EndpointManager_Get m, ep_Endpoints = mg_items m\<rparr>"

subsection \<open>Remove and create\<close>

definition index_panic :: "start_words \<Rightarrow> error" where
  "index_panic K = EPanic (''invalid '' @ sw_name K @ '' index'')"

definition tagged_Remove ::
  "start_words \<Rightarrow> string \<Rightarrow> tag_manager \<Rightarrow> unit result \<times> service event list \<times> tag_manager" where
  "tagged_Remove K tag m =
     (case map_of (mg_itemByTag m) tag of
        None \<Rightarrow> (Inl ErrInvalid, [], m)
      | Some ob \<Rightarrow>
          (let m1 = m\<lparr>mg_itemByTag := AList.delete tag (mg_itemByTag m)\<rparr> in
           case remove_object ob (mg_items m1) of
             None \<Rightarrow> (Inl (index_panic K), [], m1)
           | Some obs \<Rightarrow>
               (let m2 = m1\<lparr>mg_items := obs\<rparr> in
                if mg_started m2
                then (case called (sv_closer ob) of None \<Rightarrow> Inr () | Some e \<Rightarrow> Inl e, [Closed ob], m2)
                else (Inr (), [], m2))))"

definition InboundManager_Remove :: "string \<Rightarrow> tag_manager \<Rightarrow> unit result \<times> service event list \<times> tag_manager" where
  "InboundManager_Remove = tagged_Remove inbound_words"

definition EndpointManager_Remove :: "string \<Rightarrow> tag_manager \<Rightarrow> unit result \<times> service event list \<times> tag_manager" where
  "EndpointManager_Remove = tagged_Remove endpoint_words"

definition ServiceManager_Remove :: "string \<Rightarrow> tag_manager \<Rightarrow> unit result \<times> service event list \<times> tag_manager" where
  "ServiceManager_Remove = tagged_Remove service_words"

text \<open>\<open>created\<close> is what the registry returns.\<close>

definition insert_item :: "string \<Rightarrow> service \<Rightarrow> tag_manager \<Rightarrow> tag_manager" where
  "insert_item tag ob m =
     m\<lparr>mg_items := mg_items m @ [ob], mg_itemByTag := AList.update tag ob (mg_itemByTag m)\<rparr>"

definition tagged_Create ::
  "start_words \<Rightarrow> string \<Rightarrow> service result \<Rightarrow> tag_manager \<Rightarrow> unit result \<times> service event list \<times> tag_manager" where
  "tagged_Create K tag created m =
     (case created of
        Inl e \<Rightarrow> (Inl e, [], m)
      | Inr ob \<Rightarrow>
          (case (if mg_started m then start_stages K ob ListStartStages [] else (None, [])) of
             (Some e, evs) \<Rightarrow> (Inl e, evs, m)
           | (None, evs) \<Rightarrow>
               (case map_of (mg_itemByTag m) tag of
                  None \<Rightarrow> (Inr (), evs, insert_item tag ob m)
                | Some old \<Rightarrow>
                    (let evs' = (if mg_started m then evs @ [Closed old] else evs)
                     in case (if mg_started m then called (sv_closer old) else None) of
                          Some e \<Rightarrow> (Inl (ECause e (''close'' @ service_text K old)), evs', m)
                        | None \<Rightarrow>
                            (case remove_object old (mg_items m) of
                               None \<Rightarrow> (Inl (index_panic K), evs', m)
                             | Some obs \<Rightarrow> (Inr (), evs', insert_item tag ob (m\<lparr>mg_items := obs\<rparr>)))))))"

definition InboundManager_Create ::
  "string \<Rightarrow> service result \<Rightarrow> tag_manager \<Rightarrow> unit result \<times> service event list \<times> tag_manager" where
  "InboundManager_Create = tagged_Create inbound_words"

definition EndpointManager_Create ::
  "string \<Rightarrow> service result \<Rightarrow> tag_manager \<Rightarrow> unit result \<times> service event list \<times> tag_manager" where
  "EndpointManager_Create = tagged_Create endpoint_words"

definition ServiceManager_Create ::
  "string \<Rightarrow> service result \<Rightarrow> tag_manager \<Rightarrow> unit result \<times> service event list \<times> tag_manager" where
  "ServiceManager_Create = tagged_Create service_words"

section \<open>Objects from options\<close>

record 'o object_options =
  oo_Type :: string
  oo_Tag :: string
  oo_Options :: "'o option"

text \<open>The tag of the object at an index: the tag of the options, or the index.\<close>

definition tag_or_index :: "nat \<Rightarrow> 'o object_options \<Rightarrow> string" where
  "tag_or_index i ob = (if oo_Tag ob \<noteq> [] then oo_Tag ob else itoa i)"

text \<open>
  The loops of \<^verbatim>\<open>box.go\<close> that have a manager create the configured objects: \<open>registry\<close> is the creation by
  the manager's registry, \<open>create\<close> that of the manager, \<open>i\<close> the index and \<open>n\<close> the number of the
  next allocation. A panic is not turned into an error.
\<close>

fun create_objects ::
  "string \<Rightarrow> (nat \<Rightarrow> string \<Rightarrow> string \<Rightarrow> 'o option \<Rightarrow> 'a result) \<Rightarrow>
   (string \<Rightarrow> 'a result \<Rightarrow> 'm \<Rightarrow> unit result \<times> 'e \<times> 'm) \<Rightarrow> nat \<Rightarrow> nat \<Rightarrow> 'o object_options list \<Rightarrow> 'm \<Rightarrow>
   (nat \<times> 'm) result" where
  "create_objects what registry create i n [] m = Inr (n, m)"
| "create_objects what registry create i n (ob # obs) m =
     (let tag = tag_or_index i ob in
      case create tag (registry n tag (oo_Type ob) (oo_Options ob)) m of
        (Inl e, _) \<Rightarrow> Inl (if is_panic e then e else ECause e (''initialize '' @ what @ ''['' @ itoa i @ '']''))
      | (Inr _, _, m') \<Rightarrow> create_objects what registry create (Suc i) (Suc n) obs m')"

end
