(* ===== verification/Box.thy ===== *)
theory Box
  imports Managers DNS_Transport_Manager
begin

text \<open>
  The box (\<^verbatim>\<open>box.go\<close>): it checks the tags of the options (\<^verbatim>\<open>option/options.go\<close>), makes the managers and
  has them create every configured object, starts the parts stage by stage, closes what was
  started when a start fails, and closes everything in the end.

  The managers are those of the theories on managers. Of the other parts (network manager, DNS
  router, router, internal services, log) the box sees the error that each start and each close
  returns; these are arguments, as are the constructors of external objects. What happens to
  objects and parts is returned as a list of events, in which an object is named by its identity.
\<close>

section \<open>Options\<close>

fun check_tags :: "string \<Rightarrow> string list \<Rightarrow> nat \<Rightarrow> 'o object_options list \<Rightarrow> string list result" where
  "check_tags what seen i [] = Inr seen"
| "check_tags what seen i (ob # obs) =
     (let tag = tag_or_index i ob in
      if tag \<in> set seen then Inl (ENew (''duplicate '' @ what @ '' tag: '' @ tag))
      else check_tags what (tag # seen) (Suc i) obs)"

definition checkInbounds :: "'o object_options list \<Rightarrow> unit result" where
  "checkInbounds inbounds = bind_r (check_tags ''inbound'' [] 0 inbounds) (\<lambda>_. Inr ())"

definition checkOutbounds :: "'o object_options list \<Rightarrow> 'o object_options list \<Rightarrow> unit result" where
  "checkOutbounds outbounds endpoints =
     bind_r (check_tags ''outbound/endpoint'' [] 0 outbounds) (\<lambda>seen.
     bind_r (check_tags ''outbound/endpoint'' seen 0 endpoints) (\<lambda>_. Inr ()))"

text \<open>Of the options of the experimental services, the log and the certificate store only what
  \<^verbatim>\<open>New\<close> decides by.\<close>

record 'o box_options =
  op_Endpoints :: "'o object_options list"
  op_Inbounds :: "'o object_options list"
  op_Outbounds :: "'o object_options list"
  op_Services :: "'o object_options list"
  op_Servers :: "'o object_options list"
  op_routeFinal :: string
  op_dnsFinal :: string
  op_PlatformLogWriter :: bool
  op_CacheFile :: "bool option"
  op_ClashAPI :: bool
  op_V2RayListen :: "string option"
  op_NTPEnabled :: bool
  op_CertificateStore :: string
  op_Certificates :: "string list"
  op_CertificatePath :: "string list"
  op_CertificateDirectoryPath :: "string list"

definition checkOptions :: "'o box_options \<Rightarrow> unit result" where
  "checkOptions ops =
     bind_r (checkInbounds (op_Inbounds ops)) (\<lambda>_. checkOutbounds (op_Outbounds ops) (op_Endpoints ops))"

section \<open>The box\<close>

text \<open>An internal service: cache file, Clash API, V2Ray API, NTP, certificate store.\<close>

record lifecycle_service =
  ls_Name :: string
  ls_Start :: "start_stage \<Rightarrow> error option"
  ls_Close :: "error option"

text \<open>
  For the network manager, the DNS router and the router: the errors their \<^verbatim>\<open>Start\<close> and \<^verbatim>\<open>Close\<close> return;
  \<open>bx_logFactory\<close> has the errors of starting and of closing the log, \<open>bx_defaultOutboundFallback\<close> is what
  the function of that name returns, and \<open>bx_done\<close> says whether the channel is closed.
\<close>

datatype box_part =
    NetworkPart | DNSTransportPart | DNSRouterPart | ConnectionPart | RouterPart | OutboundPart | InboundPart
  | EndpointPart | ServicePart

datatype box_event =
    ObjectStarted nat start_stage
  | ObjectClosed nat
  | PartStarted box_part start_stage
  | PartClosed box_part
  | InternalStarted string start_stage
  | InternalClosed string
  | LoggerStarted
  | LoggerClosed

fun object_event :: "'a service_scheme event \<Rightarrow> box_event" where
  "object_event (Started ob stage) = ObjectStarted (sv_id ob) stage"
| "object_event (Closed ob) = ObjectClosed (sv_id ob)"

record box =
  bx_logFactory :: "error option \<times> error option"
  bx_partStart :: "box_part \<Rightarrow> start_stage \<Rightarrow> error option"
  bx_partClose :: "box_part \<Rightarrow> error option"
  bx_endpoint :: tag_manager
  bx_inbound :: tag_manager
  bx_outbound :: outbound_manager
  bx_defaultOutboundFallback :: "outbound result"
  bx_service :: tag_manager
  bx_dnsTransport :: transport_manager
  bx_internalService :: "lifecycle_service list"
  bx_done :: bool

type_synonym start_result = "error option \<times> box_event list \<times> box"

section \<open>Start\<close>

fun run_starts :: "(box \<Rightarrow> start_result) list \<Rightarrow> box \<Rightarrow> start_result" where
  "run_starts [] b = (None, [], b)"
| "run_starts (f # fs) b =
     (case f b of
        (Some e, evs, b') \<Rightarrow> (Some e, evs, b')
      | (None, evs, b') \<Rightarrow> (case run_starts fs b' of (r, evs', b'') \<Rightarrow> (r, evs @ evs', b'')))"

fun part_Start :: "start_stage \<Rightarrow> box_part \<Rightarrow> box \<Rightarrow> start_result" where
  "part_Start stage OutboundPart b =
     (case Manager_Start (endpoint_view_of (bx_endpoint b)) (bx_defaultOutboundFallback b) stage (bx_outbound b) of
        (r, evs, m) \<Rightarrow> (r, PartStarted OutboundPart stage # map object_event evs, b\<lparr>bx_outbound := m\<rparr>))"
| "part_Start stage InboundPart b =
     (case InboundManager_Start stage (bx_inbound b) of
        (r, evs, m) \<Rightarrow> (r, PartStarted InboundPart stage # map object_event evs, b\<lparr>bx_inbound := m\<rparr>))"
| "part_Start stage EndpointPart b =
     (case EndpointManager_Start stage (bx_endpoint b) of
        (r, evs, m) \<Rightarrow> (r, PartStarted EndpointPart stage # map object_event evs, b\<lparr>bx_endpoint := m\<rparr>))"
| "part_Start stage ServicePart b =
     (case ServiceManager_Start stage (bx_service b) of
        (r, evs, m) \<Rightarrow> (r, PartStarted ServicePart stage # map object_event evs, b\<lparr>bx_service := m\<rparr>))"
| "part_Start stage DNSTransportPart b =
     (case TransportManager_Start stage (bx_dnsTransport b) of
        (r, evs, m) \<Rightarrow> (r, PartStarted DNSTransportPart stage # map object_event evs, b\<lparr>bx_dnsTransport := m\<rparr>))"
| "part_Start stage ConnectionPart b = (None, [PartStarted ConnectionPart stage], b)"
| "part_Start stage part b = (bx_partStart b part stage, [PartStarted part stage], b)"

definition adapter_Start :: "start_stage \<Rightarrow> box_part list \<Rightarrow> box \<Rightarrow> start_result" where
  "adapter_Start stage parts = run_starts (map (part_Start stage) parts)"

definition internal_Start :: "start_stage \<Rightarrow> lifecycle_service \<Rightarrow> box \<Rightarrow> start_result" where
  "internal_Start stage ls b =
     (map_option (\<lambda>e. ECause e (StartStage_String stage @ '' '' @ ls_Name ls)) (ls_Start ls stage),
      [InternalStarted (ls_Name ls) stage], b)"

definition StartNamed :: "start_stage \<Rightarrow> box \<Rightarrow> start_result" where
  "StartNamed stage b = run_starts (map (internal_Start stage) (bx_internalService b)) b"

definition start_logger :: "box \<Rightarrow> start_result" where
  "start_logger b = (map_option (\<lambda>e. ECause e ''start logger'') (fst (bx_logFactory b)), [LoggerStarted], b)"

definition box_preStart :: "box \<Rightarrow> start_result" where
  "box_preStart = run_starts
     [start_logger,
      StartNamed StartStateInitialize,
      adapter_Start StartStateInitialize
        [NetworkPart, DNSTransportPart, DNSRouterPart, ConnectionPart, RouterPart, OutboundPart, InboundPart, EndpointPart, ServicePart],
      adapter_Start StartStateStart
        [OutboundPart, DNSTransportPart, DNSRouterPart, NetworkPart, ConnectionPart, RouterPart]]"

definition box_start :: "box \<Rightarrow> start_result" where
  "box_start = run_starts
     [box_preStart,
      StartNamed StartStateStart,
      adapter_Start StartStateStart [InboundPart, EndpointPart, ServicePart],
      adapter_Start StartStatePostStart
        [OutboundPart, NetworkPart, DNSTransportPart, DNSRouterPart, ConnectionPart, RouterPart, InboundPart, EndpointPart, ServicePart],
      StartNamed StartStatePostStart,
      adapter_Start StartStateStarted
        [NetworkPart, DNSTransportPart, DNSRouterPart, ConnectionPart, RouterPart, OutboundPart, InboundPart, EndpointPart, ServicePart],
      StartNamed StartStateStarted]"

section \<open>Close\<close>

text \<open>\<^verbatim>\<open>os.ErrClosed\<close>, and \<^verbatim>\<open>E.Append\<close>; \<open>commonClose\<close> is the joining of errors of \<^verbatim>\<open>common.Close\<close>.\<close>

definition ErrClosed :: error where "ErrClosed = ENew ''file already closed''"

definition E_Append :: "error option \<Rightarrow> error option \<Rightarrow> (error \<Rightarrow> error) \<Rightarrow> error option" where
  "E_Append err other block =
     (case other of
        None \<Rightarrow> err
      | Some e \<Rightarrow> (case err of None \<Rightarrow> Some (block e) | Some e0 \<Rightarrow> Some (EOf e0 (block e))))"

fun part_Close :: "box_part \<Rightarrow> box \<Rightarrow> error option \<times> box_event list \<times> box" where
  "part_Close ServicePart b =
     (case ServiceManager_Close (bx_service b) of
        (evs, m) \<Rightarrow> (None, PartClosed ServicePart # map object_event evs, b\<lparr>bx_service := m\<rparr>))"
| "part_Close EndpointPart b =
     (case EndpointManager_Close (bx_endpoint b) of
        (evs, m) \<Rightarrow> (None, PartClosed EndpointPart # map object_event evs, b\<lparr>bx_endpoint := m\<rparr>))"
| "part_Close InboundPart b =
     (case InboundManager_Close (bx_inbound b) of
        (evs, m) \<Rightarrow> (None, PartClosed InboundPart # map object_event evs, b\<lparr>bx_inbound := m\<rparr>))"
| "part_Close OutboundPart b =
     (case Manager_Close (bx_outbound b) of
        (evs, m) \<Rightarrow> (None, PartClosed OutboundPart # map object_event evs, b\<lparr>bx_outbound := m\<rparr>))"
| "part_Close DNSTransportPart b =
     (case TransportManager_Close (bx_dnsTransport b) of
        (evs, m) \<Rightarrow> (None, PartClosed DNSTransportPart # map object_event evs, b\<lparr>bx_dnsTransport := m\<rparr>))"
| "part_Close ConnectionPart b = (None, [PartClosed ConnectionPart], b)"
| "part_Close part b = (bx_partClose b part, [PartClosed part], b)"

fun close_parts :: "box_part list \<Rightarrow> box \<Rightarrow> error option list \<times> box_event list \<times> box" where
  "close_parts [] b = ([], [], b)"
| "close_parts (part # parts) b =
     (case part_Close part b of (err, evs, b') \<Rightarrow>
      case close_parts parts b' of (errs, evs', b'') \<Rightarrow> (err # errs, evs @ evs', b''))"

definition closing_order :: "box_part list" where
  "closing_order = [ServicePart, EndpointPart, InboundPart, OutboundPart, RouterPart, ConnectionPart, DNSRouterPart,
     DNSTransportPart, NetworkPart]"

definition close_internal :: "lifecycle_service list \<Rightarrow> error option \<Rightarrow> error option" where
  "close_internal services err =
     fold (\<lambda>ls err. E_Append err (ls_Close ls) (\<lambda>e. ECause e (''close '' @ ls_Name ls))) services err"

definition Box_Close :: "(error option list \<Rightarrow> error option) \<Rightarrow> box \<Rightarrow> start_result" where
  "Box_Close commonClose b =
     (if bx_done b then (Some ErrClosed, [], b)
      else
        (case close_parts closing_order (b\<lparr>bx_done := True\<rparr>) of (errs, evs, b') \<Rightarrow>
          (E_Append (close_internal (bx_internalService b') (commonClose errs)) (snd (bx_logFactory b'))
             (\<lambda>e. ECause e ''close logger''),
           evs @ map (\<lambda>ls. InternalClosed (ls_Name ls)) (bx_internalService b') @ [LoggerClosed], b')))"

text \<open>A start that returns an error is followed by closing the box; a panic of the start goes on to the
  caller. Close functions are taken to return: what \<^verbatim>\<open>Start\<close> and \<^verbatim>\<open>PreStart\<close> do about a panic of one of
  them is left out.\<close>

definition close_on_error :: "(error option list \<Rightarrow> error option) \<Rightarrow> start_result \<Rightarrow> start_result" where
  "close_on_error commonClose r =
     (case r of
        (None, evs, b) \<Rightarrow> (None, evs, b)
      | (Some e, evs, b) \<Rightarrow>
          if is_panic e then (Some e, evs, b)
          else (case Box_Close commonClose b of (_, evs', b') \<Rightarrow> (Some e, evs @ evs', b')))"

definition Box_PreStart :: "(error option list \<Rightarrow> error option) \<Rightarrow> box \<Rightarrow> start_result" where
  "Box_PreStart commonClose b = close_on_error commonClose (box_preStart b)"

definition Box_Start :: "(error option list \<Rightarrow> error option) \<Rightarrow> box \<Rightarrow> start_result" where
  "Box_Start commonClose b = close_on_error commonClose (box_start b)"

section \<open>Construction\<close>

text \<open>
  What \<^verbatim>\<open>New\<close> gets from elsewhere: the registries of the context (\<open>None\<close> when one is missing), and what
  the constructors and initialisers of the other parts return. The V2Ray server comes with whether it
  has a statistics service; \<open>ne_platform\<close> is the platform interface of the context.
\<close>

record 'o new_env =
  ne_endpointRegistry :: "('o, service) registry option"
  ne_inboundRegistry :: "('o, service) registry option"
  ne_outboundRegistry :: "('o, service) registry option"
  ne_dnsTransportRegistry :: "('o, dns_transport) registry option"
  ne_serviceRegistry :: "('o, service) registry option"
  ne_isAndroid :: bool
  ne_logFactory :: "(error option \<times> error option) result"
  ne_certificateStore :: "lifecycle_service result"
  ne_network :: "unit result"
  ne_router :: "unit result"
  ne_dnsRouter :: "unit result"
  ne_partStart :: "box_part \<Rightarrow> start_stage \<Rightarrow> error option"
  ne_partClose :: "box_part \<Rightarrow> error option"
  ne_direct :: "nat \<Rightarrow> outbound result"
  ne_localTransport :: "nat \<Rightarrow> dns_transport result"
  ne_platform :: "unit result option"
  ne_cacheFile :: lifecycle_service
  ne_clashServer :: "lifecycle_service result"
  ne_v2rayServer :: "(bool \<times> lifecycle_service) result"
  ne_ntpDialer :: "unit result"
  ne_ntpService :: lifecycle_service

definition CertificateStoreSystem :: string where "CertificateStoreSystem = ''system''"

definition needCertificateStore :: "'o new_env \<Rightarrow> 'o box_options \<Rightarrow> bool" where
  "needCertificateStore env ops \<longleftrightarrow> ne_isAndroid env \<or>
     (op_CertificateStore ops \<noteq> [] \<and> op_CertificateStore ops \<noteq> CertificateStoreSystem) \<or>
     length (op_Certificates ops) > 0 \<or> length (op_CertificatePath ops) > 0 \<or>
     length (op_CertificateDirectoryPath ops) > 0"

definition needCacheFile :: "'o box_options \<Rightarrow> bool" where
  "needCacheFile ops \<longleftrightarrow> op_CacheFile ops = Some True \<or> op_PlatformLogWriter ops"

definition needClashAPI :: "'o box_options \<Rightarrow> bool" where
  "needClashAPI ops \<longleftrightarrow> op_ClashAPI ops \<or> op_PlatformLogWriter ops"

definition needV2RayAPI :: "'o box_options \<Rightarrow> bool" where
  "needV2RayAPI ops = (case op_V2RayListen ops of None \<Rightarrow> False | Some listen \<Rightarrow> listen \<noteq> [])"

definition require_registry :: "string \<Rightarrow> 'r option \<Rightarrow> 'r result" where
  "require_registry what r =
     (case r of None \<Rightarrow> Inl (ENew (''missing '' @ what @ '' registry in context'')) | Some x \<Rightarrow> Inr x)"

text \<open>The internal services in the order they are appended, each with its condition.\<close>

definition internal_services :: "'o new_env \<Rightarrow> 'o box_options \<Rightarrow> lifecycle_service list \<Rightarrow> lifecycle_service list result" where
  "internal_services env ops certificates =
     (let s1 = certificates @ (if needCacheFile ops then [ne_cacheFile env] else []) in
      bind_r (if needClashAPI ops
              then bind_r (map_err (\<lambda>e. ECause e ''create clash-server'') (ne_clashServer env)) (\<lambda>clash. Inr (s1 @ [clash]))
              else Inr s1) (\<lambda>s2.
      bind_r (if needV2RayAPI ops
              then bind_r (map_err (\<lambda>e. ECause e ''create v2ray-server'') (ne_v2rayServer env))
                     (\<lambda>(stats, v2ray). Inr (if stats then s2 @ [v2ray] else s2))
              else Inr s2) (\<lambda>s3.
      if op_NTPEnabled ops
      then bind_r (map_err (\<lambda>e. ECause e ''create NTP service'') (ne_ntpDialer env))
             (\<lambda>_. Inr (s3 @ [ne_ntpService env]))
      else Inr s3)))"

text \<open>The identities of the objects are the numbers of their allocations, in the order of the loops;
  the fallback outbound is allocated when the outbound manager asks for it. \<^verbatim>\<open>common.Must1\<close> panics
  when the local DNS transport cannot be made.\<close>

definition New :: "'o new_env \<Rightarrow> 'o box_options \<Rightarrow> box result" where
  "New env ops =
     bind_r (require_registry ''endpoint'' (ne_endpointRegistry env)) (\<lambda>endpointRegistry.
     bind_r (require_registry ''inbound'' (ne_inboundRegistry env)) (\<lambda>inboundRegistry.
     bind_r (require_registry ''outbound'' (ne_outboundRegistry env)) (\<lambda>outboundRegistry.
     bind_r (require_registry ''DNS transport'' (ne_dnsTransportRegistry env)) (\<lambda>dnsTransportRegistry.
     bind_r (require_registry ''service'' (ne_serviceRegistry env)) (\<lambda>serviceRegistry.
     bind_r (map_err (\<lambda>e. ECause e ''create log factory'') (ne_logFactory env)) (\<lambda>logFactory.
     bind_r (if needCertificateStore env ops then bind_r (ne_certificateStore env) (\<lambda>c. Inr [c]) else Inr []) (\<lambda>certificates.
     bind_r (map_err (\<lambda>e. ECause e ''initialize network manager'') (ne_network env)) (\<lambda>_.
     bind_r (map_err (\<lambda>e. ECause e ''initialize router'') (ne_router env)) (\<lambda>_.
     bind_r (create_objects ''DNS server'' (CreateDNSTransport dnsTransportRegistry) TransportManager_Create 0 0
               (op_Servers ops) (NewTransportManager (op_dnsFinal ops))) (\<lambda>(n1, dnsTransportManager).
     bind_r (map_err (\<lambda>e. ECause e ''initialize dns router'') (ne_dnsRouter env)) (\<lambda>_.
     bind_r (create_objects ''endpoint'' (Registry_Create endpointRegistry) EndpointManager_Create 0 n1
               (op_Endpoints ops) NewTagManager) (\<lambda>(n2, endpointManager).
     bind_r (create_objects ''inbound'' (Registry_Create inboundRegistry) InboundManager_Create 0 n2
               (op_Inbounds ops) NewTagManager) (\<lambda>(n3, inboundManager).
     bind_r (create_objects ''outbound'' (Registry_Create outboundRegistry) Manager_Create 0 n3
               (op_Outbounds ops) (NewManager (op_routeFinal ops))) (\<lambda>(n4, outboundManager).
     bind_r (create_objects ''service'' (Registry_Create serviceRegistry) ServiceManager_Create 0 n4
               (op_Services ops) NewTagManager) (\<lambda>(n5, serviceManager).
     bind_r (map_err (\<lambda>e. EPanic ''local transport'') (ne_localTransport env n5)) (\<lambda>localTransport.
     bind_r (case ne_platform env of None \<Rightarrow> Inr () | Some r \<Rightarrow> map_err (\<lambda>e. ECause e ''initialize platform interface'') r) (\<lambda>_.
     bind_r (internal_services env ops certificates) (\<lambda>internalServices.
     Inr \<lparr>bx_logFactory = logFactory, bx_partStart = ne_partStart env, bx_partClose = ne_partClose env,
          bx_endpoint = endpointManager, bx_inbound = inboundManager, bx_outbound = outboundManager,
          bx_defaultOutboundFallback = ne_direct env (Suc n5), bx_service = serviceManager,
          bx_dnsTransport = TransportManager_Initialize localTransport dnsTransportManager,
          bx_internalService = internalServices, bx_done = False\<rparr>))))))))))))))))))"

end
