(* ===== verification/Managers_Props.thy ===== *)
theory Managers_Props
  imports Managers DNS_Transport_Manager "HOL-Library.Multiset"
begin

text \<open>
  What the managers of objects by tag promise, as an interface: the objects in a list, each tag
  once, changed by creation as by a table with replacement, told the stages of the start, and
  closed together. The managers of inbounds, endpoints, services, outbounds and DNS transports
  all keep the contract; the box is a client of it.
\<close>

section \<open>Lists and tables\<close>

definition table_wf :: "'a service_scheme list \<Rightarrow> (string \<times> 'a service_scheme) list \<Rightarrow> bool" where
  "table_wf obs byTag \<longleftrightarrow> distinct (map sv_id obs) \<and> distinct (map sv_Tag obs) \<and>
     (\<forall>t ob. map_of byTag t = Some ob \<longleftrightarrow> ob \<in> set obs \<and> sv_Tag ob = t)"

lemma table_wf_none:
  "table_wf obs byTag \<Longrightarrow> map_of byTag tag = None \<Longrightarrow> filter (\<lambda>x. sv_Tag x \<noteq> tag) obs = obs"
  unfolding table_wf_def filter_id_conv by (metis option.distinct(1))

lemma table_wf_some:
  assumes "table_wf obs byTag" and "map_of byTag tag = Some ob"
  shows "remove_object ob obs = Some (filter (\<lambda>x. sv_Tag x \<noteq> tag) obs)"
proof -
  from assms have "ob \<in> set obs" "sv_Tag ob = tag" by (simp_all add: table_wf_def)
  with remove_object_filter [of ob obs] assms(1) show ?thesis by (simp add: table_wf_def)
qed

lemma table_wf_delete:
  "table_wf obs byTag \<Longrightarrow> table_wf (filter (\<lambda>x. sv_Tag x \<noteq> tag) obs) (AList.delete tag byTag)"
  by (auto simp: table_wf_def delete_conv' distinct_map_filter)

lemma table_wf_replace:
  assumes "table_wf obs byTag" and "sv_Tag ob = tag" and "sv_id ob \<notin> sv_id ` set obs"
  shows "table_wf (filter (\<lambda>x. sv_Tag x \<noteq> tag) obs @ [ob]) (AList.update tag ob byTag)"
  using assms by (auto simp: table_wf_def update_conv distinct_map_filter split: if_splits)

section \<open>Starting\<close>

text \<open>The events of a start: every object once, in the order of the list or of the dependencies.\<close>

lemma start_all_events:
  "start_all K stage obs evs = (r, evs') \<Longrightarrow>
   \<exists>n. evs' = evs @ map (\<lambda>ob. Started ob stage) (take n obs) \<and> (r = None \<longrightarrow> n = length obs)"
proof (induction obs arbitrary: evs)
  case (Cons ob obs)
  show ?case
  proof (cases "LegacyStart ob stage")
    case None
    with Cons.prems have "start_all K stage obs (evs @ [Started ob stage]) = (r, evs')" by simp
    from Cons.IH [OF this] obtain n where "evs' = evs @ Started ob stage # map (\<lambda>ob. Started ob stage) (take n obs)"
      "r = None \<longrightarrow> n = length obs" by auto
    then show ?thesis by (intro exI [of _ "Suc n"]) simp
  next
    case (Some e)
    with Cons.prems show ?thesis by (intro exI [of _ 1]) auto
  qed
qed simp

lemma start_all_told:
  assumes "start_all K stage obs [] = (r, evs)"
  shows "\<forall>ev \<in> set evs. \<exists>ob \<in> set obs. ev = Started ob stage"
    and "r = None \<Longrightarrow> mset evs = mset (map (\<lambda>ob. Started ob stage) obs)"
  using start_all_events [OF assms] set_take_subset [of _ obs] by force+

lemma in_order_started:
  assumes "in_order obs evs"
  shows "\<forall>ev \<in> set evs. \<exists>ob \<in> set obs. ev = Started ob StartStateStart"
  using assms by (force simp: in_order_def in_set_conv_nth)

lemma in_order_mset:
  assumes "in_order obs evs" and "length evs = length obs"
  shows "mset evs = mset (map (\<lambda>ob. Started ob StartStateStart) obs)"
proof -
  have "card (sv_Tag ` set obs) = length (map sv_Tag obs)"
    using in_order_all [OF assms] in_order_tags(2) [OF assms(1)] assms(2) by simp
  then have d: "distinct (map sv_Tag obs)" by (metis card_distinct list.set_map)
  have "set evs = (\<lambda>ob. Started ob StartStateStart) ` set obs"
  proof (rule subset_antisym)
    show "set evs \<subseteq> (\<lambda>ob. Started ob StartStateStart) ` set obs" using in_order_started [OF assms(1)] by blast
    show "(\<lambda>ob. Started ob StartStateStart) ` set obs \<subseteq> set evs"
    proof clarify
      fix ob assume ob: "ob \<in> set obs"
      with in_order_all [OF assms] obtain ev where ev: "ev \<in> set evs" "event_tag ev = sv_Tag ob" by (metis imageE imageI)
      with in_order_started [OF assms(1)] obtain x where "x \<in> set obs" "ev = Started x StartStateStart" by blast
      with ev ob d show "Started ob StartStateStart \<in> set evs" using same_tag [OF d, of x ob] by auto
    qed
  qed
  moreover have "distinct evs" using assms(1) by (auto simp: in_order_def distinct_map)
  moreover have "distinct (map (\<lambda>ob. Started ob StartStateStart) obs)"
    using d by (simp add: distinct_map inj_on_def)
  ultimately show ?thesis using set_eq_iff_mset_eq_distinct by (metis list.set_map)
qed

lemma start_loop_told:
  assumes "start_loop K byTag obs [] [] = (r, evs)"
  shows "\<forall>ev \<in> set evs. \<exists>ob \<in> set obs. ev = Started ob StartStateStart"
    and "r = None \<Longrightarrow> mset evs = mset (map (\<lambda>ob. Started ob StartStateStart) obs)"
proof -
  have "in_order obs []" by (simp add: in_order_def)
  from start_loop_order [OF this] assms have "in_order obs evs" "r = None \<longrightarrow> length evs = length obs" by simp_all
  then show "\<forall>ev \<in> set evs. \<exists>ob \<in> set obs. ev = Started ob StartStateStart"
    "r = None \<Longrightarrow> mset evs = mset (map (\<lambda>ob. Started ob StartStateStart) obs)"
    using in_order_started in_order_mset by blast+
qed

section \<open>The contract\<close>

text \<open>A constructor makes a new object, numbered by its allocation, and gives it the tag it is asked for.\<close>

definition fresh_registry :: "(nat \<Rightarrow> string \<Rightarrow> string \<Rightarrow> 'o option \<Rightarrow> 'a service_scheme result) \<Rightarrow> bool" where
  "fresh_registry registry \<longleftrightarrow> (\<forall>k tag type opt ob. registry k tag type opt = Inr ob \<longrightarrow> sv_Tag ob = tag \<and> sv_id ob = k)"


text \<open>\<open>told\<close> are the objects a manager starts in a stage: its own, none, or those of another manager too.\<close>

locale lifecycle_manager =
  fixes items :: "'m \<Rightarrow> 'a service_scheme list"
    and running :: "'m \<Rightarrow> bool"
    and stage_of :: "'m \<Rightarrow> start_stage"
    and invar :: "'m \<Rightarrow> bool"
    and told :: "start_stage \<Rightarrow> 'm \<Rightarrow> 'a service_scheme list"
    and create :: "string \<Rightarrow> 'a service_scheme result \<Rightarrow> 'm \<Rightarrow> unit result \<times> 'a service_scheme event list \<times> 'm"
    and start :: "start_stage \<Rightarrow> 'm \<Rightarrow> error option \<times> 'a service_scheme event list \<times> 'm"
    and close :: "'m \<Rightarrow> 'a service_scheme event list \<times> 'm"
  assumes create_replaces: "invar m \<Longrightarrow> \<not> running m \<Longrightarrow> create tag created m = (Inr u, evs, m') \<Longrightarrow>
      \<forall>ob. created = Inr ob \<longrightarrow> sv_Tag ob = tag \<and> sv_id ob \<notin> sv_id ` set (items m) \<Longrightarrow>
      \<exists>ob. created = Inr ob \<and> invar m' \<and> \<not> running m' \<and> items m' = filter (\<lambda>x. sv_Tag x \<noteq> tag) (items m) @ [ob]"
    and start_again: "running m \<Longrightarrow> stage_number stage \<le> stage_number (stage_of m) \<Longrightarrow>
      \<exists>msg. start stage m = (Some (EPanic msg), [], m)"
    and start_runs: "\<not> (running m \<and> stage_number stage \<le> stage_number (stage_of m)) \<Longrightarrow>
      start stage m = (r, evs, m') \<Longrightarrow> running m' \<and> stage_of m' = stage"
    and start_keeps: "start stage m = (r, evs, m') \<Longrightarrow> set (items m) \<subseteq> set (items m')"
    and start_tells: "start stage m = (r, evs, m') \<Longrightarrow> \<forall>ev \<in> set evs. \<exists>ob \<in> set (told stage m'). ev = Started ob stage"
    and start_complete: "start stage m = (None, evs, m') \<Longrightarrow> mset evs = mset (map (\<lambda>ob. Started ob stage) (told stage m'))"
    and close_all: "running m \<Longrightarrow> close m = (evs, m') \<Longrightarrow> ob \<in> set (items m) \<Longrightarrow> sv_closer ob \<noteq> None \<Longrightarrow>
      Closed ob \<in> set evs"
begin

text \<open>A start that returns has marked the manager.\<close>

lemma start_marks:
  assumes "start stage m = (r, evs, m')" and "\<And>msg. r \<noteq> Some (EPanic msg)"
  shows "running m'" and "stage_of m' = stage"
proof -
  have "\<not> (running m \<and> stage_number stage \<le> stage_number (stage_of m))"
    using start_again [of m stage] assms by auto
  from start_runs [OF this assms(1)] show "running m'" "stage_of m' = stage" by simp_all
qed

lemma start_stays_running:
  assumes "start stage m = (r, evs, m')" and "running m"
  shows "running m'"
proof (cases "stage_number stage \<le> stage_number (stage_of m)")
  case True
  with start_again [of m stage] assms show ?thesis by auto
next
  case False
  with start_runs [OF _ assms(1)] show ?thesis by simp
qed

lemma start_events_running:
  assumes "start stage m = (r, evs, m')" and "ev \<in> set evs"
  shows "running m'"
  using start_again [of m stage] start_runs [OF _ assms(1)] assms by fastforce

text \<open>The objects that closing reaches.\<close>

definition managed :: "'m \<Rightarrow> nat set" where
  "managed m = (if running m then sv_id ` set (items m) else {})"

lemma start_managed: "start stage m = (r, evs, m') \<Longrightarrow> managed m \<subseteq> managed m'"
  using start_stays_running start_keeps unfolding managed_def by (metis empty_subsetI image_mono)

lemma start_covered:
  assumes "start stage m = (r, evs, m')" and "ev \<in> set evs"
  shows "\<exists>ob \<in> set (told stage m'). ev = Started ob stage" and "sv_id ` set (items m') = managed m'"
  using start_tells [OF assms(1)] start_events_running [OF assms] assms(2) by (auto simp: managed_def)

lemma start_own:
  assumes "start stage m = (r, evs, m')" and "set (told stage m') \<subseteq> set (items m')" and "Started ob s \<in> set evs"
  shows "sv_id ob \<in> managed m'"
  using start_covered [OF assms(1,3)] assms(2) by auto

lemma close_managed:
  assumes "close m = (evs, m')" and "k \<in> managed m"
  shows "\<exists>ob \<in> set (items m). sv_id ob = k \<and> (sv_closer ob = None \<or> Closed ob \<in> set evs)"
proof -
  from assms(2) obtain ob where "running m" "ob \<in> set (items m)" "sv_id ob = k"
    by (auto simp: managed_def split: if_splits)
  with close_all [OF _ assms(1)] show ?thesis by blast
qed

text \<open>One turn of the loop over a configuration.\<close>

lemma create_objects_step:
  assumes "create_objects what registry create i n (op # opts) m = Inr (n', m')" and "invar m" and "\<not> running m"
    and "fresh_registry registry"
    and "\<forall>x \<in> set (items m). sv_id x < n"
  obtains ob m1 where "create_objects what registry create (Suc i) (Suc n) opts m1 = Inr (n', m')" and "invar m1"
    and "\<not> running m1" and "\<forall>x \<in> set (items m1). sv_id x < Suc n"
    and "items m1 = filter (\<lambda>x. sv_Tag x \<noteq> tag_or_index i op) (items m) @ [ob]"
    and "sv_Tag ob = tag_or_index i op" and "sv_id ob = n"
proof -
  let ?tag = "tag_or_index i op"
  obtain r evs m1 where c: "create ?tag (registry n ?tag (oo_Type op) (oo_Options op)) m = (r, evs, m1)"
    by (metis prod_cases3)
  with assms(1) obtain u where r: "r = Inr u" and
    rest: "create_objects what registry create (Suc i) (Suc n) opts m1 = Inr (n', m')"
    by (auto simp: Let_def split: sum.splits)
  have fresh: "\<forall>ob. registry n ?tag (oo_Type op) (oo_Options op) = Inr ob \<longrightarrow>
      sv_Tag ob = ?tag \<and> sv_id ob \<notin> sv_id ` set (items m)"
    using assms(4,5) by (fastforce simp: fresh_registry_def)
  from create_replaces [OF assms(2,3) c [unfolded r] fresh] obtain ob where
    ob: "registry n ?tag (oo_Type op) (oo_Options op) = Inr ob" and m1: "invar m1" "\<not> running m1" and
    items: "items m1 = filter (\<lambda>x. sv_Tag x \<noteq> ?tag) (items m) @ [ob]" by blast
  have obs: "sv_Tag ob = ?tag" "sv_id ob = n" using assms(4) ob by (simp_all add: fresh_registry_def)
  have "\<forall>x \<in> set (items m1). sv_id x < Suc n" using items obs assms(5) by auto
  with rest m1 items obs that show ?thesis by blast
qed

text \<open>Whatever the tags, the objects are numbered by their allocations and have tags of the
  configuration.\<close>

lemma create_objects_range:
  assumes "create_objects what registry create i n opts m = Inr (n', m')" and "invar m" and "\<not> running m"
    and "fresh_registry registry"
    and "\<forall>x \<in> set (items m). sv_id x < n"
  shows "invar m' \<and> \<not> running m' \<and> n' = n + length opts \<and> (\<forall>x \<in> set (items m'). x \<in> set (items m) \<or>
    sv_id x \<in> {n..<n'} \<and> sv_Tag x \<in> set (map (\<lambda>(j, ob). tag_or_index j ob) (enumerate i opts)))"
  using assms(1,2,3,5)
proof (induction opts arbitrary: i n m)
  case (Cons op opts)
  obtain ob m1 where
    rest: "create_objects what registry create (Suc i) (Suc n) opts m1 = Inr (n', m')" and m1: "invar m1" "\<not> running m1"
    and ids: "\<forall>x \<in> set (items m1). sv_id x < Suc n"
    and items: "items m1 = filter (\<lambda>x. sv_Tag x \<noteq> tag_or_index i op) (items m) @ [ob]"
    and obs: "sv_Tag ob = tag_or_index i op" "sv_id ob = n"
    by (rule create_objects_step [OF Cons.prems(1-3) assms(4) Cons.prems(4)])
  from Cons.IH [OF rest m1 ids] items obs show ?case by auto
qed simp

text \<open>With tags that are all different there is one object for each, in order.\<close>

lemma create_objects_exact:
  assumes "create_objects what registry create i n opts m = Inr (n', m')" and "invar m" and "\<not> running m"
    and "fresh_registry registry"
    and "\<forall>x \<in> set (items m). sv_id x < n"
    and "distinct (map (\<lambda>(j, ob). tag_or_index j ob) (enumerate i opts))"
    and "\<forall>x \<in> set (items m). sv_Tag x \<notin> set (map (\<lambda>(j, ob). tag_or_index j ob) (enumerate i opts))"
  shows "\<exists>objs. items m' = items m @ objs \<and> map sv_Tag objs = map (\<lambda>(j, ob). tag_or_index j ob) (enumerate i opts)"
  using assms(1,2,3,5,6,7)
proof (induction opts arbitrary: i n m)
  case (Cons op opts)
  obtain ob m1 where
    rest: "create_objects what registry create (Suc i) (Suc n) opts m1 = Inr (n', m')" and m1: "invar m1" "\<not> running m1"
    and ids: "\<forall>x \<in> set (items m1). sv_id x < Suc n"
    and items: "items m1 = filter (\<lambda>x. sv_Tag x \<noteq> tag_or_index i op) (items m) @ [ob]"
    and obs: "sv_Tag ob = tag_or_index i op" "sv_id ob = n"
    by (rule create_objects_step [OF Cons.prems(1-3) assms(4) Cons.prems(4)])
  have "filter (\<lambda>x. sv_Tag x \<noteq> tag_or_index i op) (items m) = items m"
    using Cons.prems(6) by (auto simp: filter_id_conv)
  with items have items: "items m1 = items m @ [ob]" by simp
  have d: "distinct (map (\<lambda>(j, ob). tag_or_index j ob) (enumerate (Suc i) opts))" using Cons.prems(5) by simp
  have t: "\<forall>x \<in> set (items m1). sv_Tag x \<notin> set (map (\<lambda>(j, ob). tag_or_index j ob) (enumerate (Suc i) opts))"
    using items obs Cons.prems(5,6) by auto
  from Cons.IH [OF rest m1 ids d t] items obs show ?case by (auto intro: exI [of _ "ob # _"])
qed simp

end

section \<open>The managers keep the contract\<close>

subsection \<open>Inbounds, endpoints and services\<close>

definition tagged_wf :: "tag_manager \<Rightarrow> bool" where
  "tagged_wf m \<longleftrightarrow> table_wf (mg_items m) (mg_itemByTag m)"

lemma tagged_Create_replaces:
  assumes "tagged_wf m" and "tagged_Create K tag created m = (Inr u, evs, m')"
    and "\<forall>ob. created = Inr ob \<longrightarrow> sv_Tag ob = tag \<and> sv_id ob \<notin> sv_id ` set (mg_items m)"
  shows "\<exists>ob. created = Inr ob \<and> tagged_wf m' \<and> mg_started m' = mg_started m \<and>
    mg_items m' = filter (\<lambda>x. sv_Tag x \<noteq> tag) (mg_items m) @ [ob]"
proof -
  let ?obs = "filter (\<lambda>x. sv_Tag x \<noteq> tag) (mg_items m)"
  note wf = assms(1) [unfolded tagged_wf_def]
  from assms(2) obtain ob where ob: "created = Inr ob" by (cases created) (simp_all add: tagged_Create_def)
  have "m' = insert_item tag ob (m\<lparr>mg_items := ?obs\<rparr>)"
  proof (cases "map_of (mg_itemByTag m) tag")
    case None
    with table_wf_none [OF wf] assms(2) ob show ?thesis
      by (auto simp: tagged_Create_def split: prod.splits option.splits)
  next
    case (Some old)
    with table_wf_some [OF wf] assms(2) ob show ?thesis
      by (auto simp: tagged_Create_def Let_def split: prod.splits option.splits)
  qed
  with ob table_wf_replace [OF wf] assms(3) show ?thesis by (auto simp: insert_item_def tagged_wf_def)
qed

lemma tagged_Remove_filters:
  assumes "tagged_wf m" and "tagged_Remove K tag m = (r, evs, m')"
  shows "tagged_wf m'" and "mg_items m' = filter (\<lambda>x. sv_Tag x \<noteq> tag) (mg_items m)"
proof -
  note wf = assms(1) [unfolded tagged_wf_def]
  have "tagged_wf m' \<and> mg_items m' = filter (\<lambda>x. sv_Tag x \<noteq> tag) (mg_items m)"
  proof (cases "map_of (mg_itemByTag m) tag")
    case None
    with table_wf_none [OF wf] assms show ?thesis by (simp add: tagged_Remove_def)
  next
    case (Some ob)
    with table_wf_some [OF wf Some] table_wf_delete [OF wf, of tag] assms(2) show ?thesis
      by (auto simp: tagged_Remove_def Let_def tagged_wf_def split: if_splits)
  qed
  then show "tagged_wf m'" "mg_items m' = filter (\<lambda>x. sv_Tag x \<noteq> tag) (mg_items m)" by simp_all
qed

lemma tagged_Start_contract:
  assumes "tagged_Start K stage m = (r, evs, m')"
  shows "mg_items m' = mg_items m"
    and "\<not> (mg_started m \<and> stage_number stage \<le> stage_number (mg_stage m)) \<longrightarrow> mg_started m' \<and> mg_stage m' = stage"
    and "\<forall>ev \<in> set evs. \<exists>ob \<in> set (mg_items m'). ev = Started ob stage"
    and "r = None \<Longrightarrow> mset evs = mset (map (\<lambda>ob. Started ob stage) (mg_items m'))"
  using assms start_all_told [of K stage "mg_items m"]
  by (auto simp: tagged_Start_def already_started_def Let_def split: if_splits prod.splits)

lemma tagged_Close_all:
  "mg_started m \<Longrightarrow> tagged_Close m = (evs, m') \<Longrightarrow> ob \<in> set (mg_items m) \<Longrightarrow> Closed ob \<in> set evs"
  by (auto simp: tagged_Close_def)

definition endpoints_told :: "start_stage \<Rightarrow> tag_manager \<Rightarrow> service list" where
  "endpoints_told stage m = (if stage = StartStateStart then [] else mg_items m)"

interpretation inbounds: lifecycle_manager mg_items mg_started mg_stage tagged_wf "\<lambda>_. mg_items"
  InboundManager_Create InboundManager_Start InboundManager_Close
proof (unfold_locales, goal_cases)
  case (1 m tag created u evs m')
  then show ?case using tagged_Create_replaces [of m inbound_words tag created u evs m']
    by (auto simp: InboundManager_Create_def)
next
  case (2 m stage)
  then show ?case by (simp add: InboundManager_Start_def tagged_Start_def already_started_def)
qed (use tagged_Start_contract tagged_Close_all in
  \<open>auto simp: InboundManager_Start_def InboundManager_Close_def\<close>)

interpretation services: lifecycle_manager mg_items mg_started mg_stage tagged_wf "\<lambda>_. mg_items"
  ServiceManager_Create ServiceManager_Start ServiceManager_Close
proof (unfold_locales, goal_cases)
  case (1 m tag created u evs m')
  then show ?case using tagged_Create_replaces [of m service_words tag created u evs m']
    by (auto simp: ServiceManager_Create_def)
next
  case (2 m stage)
  then show ?case by (simp add: ServiceManager_Start_def tagged_Start_def already_started_def)
qed (use tagged_Start_contract tagged_Close_all in
  \<open>auto simp: ServiceManager_Start_def ServiceManager_Close_def\<close>)

text \<open>But for the stage \<^verbatim>\<open>start\<close>, endpoints are started as the others are.\<close>

lemma EndpointManager_Start_other:
  "stage \<noteq> StartStateStart \<Longrightarrow> EndpointManager_Start stage = tagged_Start endpoint_words stage"
  by (simp add: fun_eq_iff EndpointManager_Start_def tagged_Start_def)

lemma EndpointManager_Start_contract:
  assumes "EndpointManager_Start stage m = (r, evs, m')"
  shows "mg_items m' = mg_items m"
    and "\<not> (mg_started m \<and> stage_number stage \<le> stage_number (mg_stage m)) \<longrightarrow> mg_started m' \<and> mg_stage m' = stage"
    and "\<forall>ev \<in> set evs. \<exists>ob \<in> set (endpoints_told stage m'). ev = Started ob stage"
    and "r = None \<Longrightarrow> mset evs = mset (map (\<lambda>ob. Started ob stage) (endpoints_told stage m'))"
  using assms start_all_told [of endpoint_words stage "mg_items m"]
  by (auto simp: EndpointManager_Start_def already_started_def endpoints_told_def Let_def split: if_splits prod.splits)

interpretation endpoints: lifecycle_manager mg_items mg_started mg_stage tagged_wf endpoints_told
  EndpointManager_Create EndpointManager_Start EndpointManager_Close
proof (unfold_locales, goal_cases)
  case (1 m tag created u evs m')
  then show ?case using tagged_Create_replaces [of m endpoint_words tag created u evs m']
    by (auto simp: EndpointManager_Create_def)
next
  case (2 m stage)
  then show ?case by (simp add: EndpointManager_Start_def already_started_def)
next
  case (4 stage m r evs m')
  then show ?case using EndpointManager_Start_contract(1) by auto
next
  case (7 m evs m' ob)
  then show ?case using tagged_Close_all by (auto simp: EndpointManager_Close_def)
qed (use EndpointManager_Start_contract in auto)

subsection \<open>Outbounds\<close>

definition outbounds_told :: "endpoint_view \<Rightarrow> start_stage \<Rightarrow> outbound_manager \<Rightarrow> outbound list" where
  "outbounds_told E stage m = om_outbounds m @ (if stage = StartStateStart then ep_Endpoints E else [])"

lemma resolve_default_outbounds:
  "resolve_default E fallback m = Inr m' \<Longrightarrow>
   om_started m' = om_started m \<and> om_stage m' = om_stage m \<and>
   (om_outbounds m' = om_outbounds m \<or> (\<exists>direct. fallback = Inr direct \<and> om_outbounds m' = om_outbounds m @ [direct]))"
  by (auto simp: resolve_default_def split: if_splits option.splits sum.splits)

lemma Manager_Start_cases:
  assumes "Manager_Start E fallback stage m = (r, evs, m')"
  obtains (panic) "om_started m" "stage_number stage \<le> stage_number (om_stage m)" "r = Some (EPanic ''already started'')" "evs = []" "m' = m"
  | (default) e where "\<not> (om_started m \<and> stage_number stage \<le> stage_number (om_stage m))" "r = Some e" "evs = []"
      "m' = m\<lparr>om_started := True, om_stage := stage\<rparr>"
  | (first) "\<not> (om_started m \<and> stage_number stage \<le> stage_number (om_stage m))" "stage = StartStateStart"
      "resolve_default E fallback (m\<lparr>om_started := True, om_stage := stage\<rparr>) = Inr m'"
      "startOutbounds (om_outboundByTag m') (om_outbounds m' @ ep_Endpoints E) = (r, evs)"
  | (stage) "\<not> (om_started m \<and> stage_number stage \<le> stage_number (om_stage m))" "stage \<noteq> StartStateStart"
      "m' = m\<lparr>om_started := True, om_stage := stage\<rparr>" "start_all outbound_words stage (om_outbounds m) [] = (r, evs)"
  using assms by (auto simp: Manager_Start_def Let_def split: if_splits sum.splits prod.splits)

lemma Manager_Start_contract:
  assumes "Manager_Start E fallback stage m = (r, evs, m')"
  shows "om_outbounds m' = om_outbounds m \<or> (\<exists>direct. fallback = Inr direct \<and> om_outbounds m' = om_outbounds m @ [direct])"
    and "\<not> (om_started m \<and> stage_number stage \<le> stage_number (om_stage m)) \<longrightarrow> om_started m' \<and> om_stage m' = stage"
    and "\<forall>ev \<in> set evs. \<exists>ob \<in> set (outbounds_told E stage m'). ev = Started ob stage"
    and "r = None \<Longrightarrow> mset evs = mset (map (\<lambda>ob. Started ob stage) (outbounds_told E stage m'))"
  using assms
  by (cases rule: Manager_Start_cases;
      auto simp: outbounds_told_def startOutbounds_def dest: resolve_default_outbounds start_all_told start_loop_told)+

interpretation outbounds: lifecycle_manager om_outbounds om_started om_stage manager_wf "outbounds_told E"
  Manager_Create "Manager_Start E fallback" Manager_Close for E fallback
proof (unfold_locales, goal_cases)
  case (1 m tag created u evs m')
  then have "created \<noteq> Inl e" for e by (auto simp: Manager_Create_def split: if_splits)
  then obtain ob where ob: "created = Inr ob" by (cases created) auto
  have "om_started m' = om_started m"
    using 1(3) ob by (auto simp: Manager_Create_def insert_outbound_def Let_def split: if_splits option.splits prod.splits)
  with Manager_Create_wf [OF 1(1,3,4)] 1(2) ob show ?case by simp
next
  case (2 m stage)
  then show ?case by (simp add: Manager_Start_def)
next
  case (4 stage m r evs m')
  then show ?case using Manager_Start_contract(1) by fastforce
next
  case (7 m evs m' ob)
  then show ?case by (auto simp: Manager_Close_def)
qed (use Manager_Start_contract in auto)

subsection \<open>DNS transports\<close>

definition transports_wf :: "transport_manager \<Rightarrow> bool" where
  "transports_wf m \<longleftrightarrow> table_wf (tm_transports m) (tm_transportByTag m)"

lemma insert_transport_fields:
  assumes "insert_transport tag t m = (r, m')"
  shows "tm_transports m' = tm_transports m @ [t]" and "tm_transportByTag m' = AList.update tag t (tm_transportByTag m)"
    and "tm_started m' = tm_started m"
  using assms by (auto simp: insert_transport_def Let_def split: if_splits)

lemma TransportManager_Create_replaces:
  assumes "transports_wf m" and "TransportManager_Create tag created m = (Inr u, evs, m')"
    and "\<forall>ob. created = Inr ob \<longrightarrow> sv_Tag ob = tag \<and> sv_id ob \<notin> sv_id ` set (tm_transports m)"
  shows "\<exists>ob. created = Inr ob \<and> transports_wf m' \<and> tm_started m' = tm_started m \<and>
    tm_transports m' = filter (\<lambda>x. sv_Tag x \<noteq> tag) (tm_transports m) @ [ob]"
proof -
  let ?obs = "filter (\<lambda>x. sv_Tag x \<noteq> tag) (tm_transports m)"
  note wf = assms(1) [unfolded transports_wf_def]
  from assms(2) obtain ob where ob: "created = Inr ob" by (cases created) (auto simp: TransportManager_Create_def split: if_splits)
  have "\<exists>r. insert_transport tag ob (m\<lparr>tm_transports := ?obs\<rparr>) = (r, m')"
  proof (cases "map_of (tm_transportByTag m) tag")
    case None
    with table_wf_none [OF wf None] assms(2) ob show ?thesis
      by (auto simp: TransportManager_Create_def split: prod.splits option.splits if_splits)
  next
    case (Some old)
    with table_wf_some [OF wf Some] assms(2) ob show ?thesis
      by (auto simp: TransportManager_Create_def Let_def split: prod.splits option.splits if_splits)
  qed
  then obtain r where "insert_transport tag ob (m\<lparr>tm_transports := ?obs\<rparr>) = (r, m')" ..
  from insert_transport_fields [OF this] ob table_wf_replace [OF wf] assms(3) show ?thesis
    by (auto simp: transports_wf_def)
qed

lemma TransportManager_Start_contract:
  assumes "TransportManager_Start stage m = (r, evs, m')"
  shows "tm_transports m' = tm_transports m"
    and "\<not> (tm_started m \<and> stage_number stage \<le> stage_number (tm_stage m)) \<longrightarrow> tm_started m' \<and> tm_stage m' = stage"
    and "\<forall>ev \<in> set evs. \<exists>ob \<in> set (tm_transports m'). ev = Started ob stage"
    and "r = None \<Longrightarrow> mset evs = mset (map (\<lambda>ob. Started ob stage) (tm_transports m'))"
  using assms start_all_told [of dns_words stage "tm_transports m"]
    start_loop_told [of dns_words "tm_transportByTag m" "tm_transports m"]
  by (auto simp: TransportManager_Start_def startTransports_def Let_def split: if_splits prod.splits)

interpretation transports: lifecycle_manager tm_transports tm_started tm_stage transports_wf "\<lambda>_. tm_transports"
  TransportManager_Create TransportManager_Start TransportManager_Close
proof (unfold_locales, goal_cases)
  case (1 m tag created u evs m')
  then show ?case using TransportManager_Create_replaces [of m tag created u evs m'] by auto
next
  case (2 m stage)
  then show ?case by (simp add: TransportManager_Start_def)
next
  case (4 stage m r evs m')
  then show ?case using TransportManager_Start_contract(1) by auto
next
  case (7 m evs m' ob)
  then show ?case by (auto simp: TransportManager_Close_def)
qed (use TransportManager_Start_contract in auto)

section \<open>Properties\<close>

text \<open>Remark (registry_round_trip): creating an object of a registered type calls the constructor it was
  registered with, on the options that were given or on the empty ones that the registry itself
  offers for the type; registering another type changes nothing about it.\<close>

theorem registry_round_trip:
  assumes "\<And>x. cast (inject x) = Some x" and "other \<noteq> type"
  shows "Registry_Create (Register inject' cast' zero' other f' (Register inject cast zero type f r)) n tag type
      (case opt of None \<Rightarrow> registry_CreateOptions (Register inject cast zero type f r) type | Some x \<Rightarrow> Some (inject x)) =
    f n tag (case opt of None \<Rightarrow> zero | Some x \<Rightarrow> x)"
  using assms
  by (simp add: Registry_Create_def registry_Create_def Register_def registry_register_def registry_CreateOptions_def
      split: option.splits)

theorem registry_round_trip_witness:
  "Registry_Create (Register id Some 7 ''b'' (\<lambda>n tag x. Inr (x + 1)) (Register id Some (5::nat) ''a'' (\<lambda>n tag x. Inr (n + x)) NewRegistry))
     1 ''t'' ''a'' (Some 40) = (Inr 41 :: nat result)"
  using registry_round_trip [of Some id "''b''" "''a''" id Some 7 "\<lambda>n tag x. Inr (x + 1)" 5 "\<lambda>n tag x. Inr (n + x)" NewRegistry 1 "''t''" "Some 40"]
  by simp

text \<open>Remark (remove_after_close_panics): closing a manager empties its list and leaves the table by tag, so that
  removing any of its objects afterwards panics, and so does creating an object of the same tag.\<close>

theorem remove_after_close_panics:
  assumes "mg_started m" and "map_of (mg_itemByTag m) tag = Some old" and "tagged_Close m = (evs, m')"
  shows "fst (tagged_Remove K tag m') = Inl (index_panic K) \<and> fst (tagged_Create K tag (Inr ob) m') = Inl (index_panic K)"
  using assms by (auto simp: tagged_Close_def tagged_Remove_def tagged_Create_def Let_def)

definition one_inbound :: tag_manager where
  "one_inbound = \<lparr>mg_started = True, mg_stage = StartStateStarted, mg_items = [sample_outbound 0 ''in'' []],
     mg_itemByTag = [(''in'', sample_outbound 0 ''in'' [])]\<rparr>"

theorem remove_after_close_panics_witness:
  "fst (InboundManager_Remove ''in'' (snd (InboundManager_Close one_inbound))) = Inl (index_panic inbound_words)"
  using remove_after_close_panics [of one_inbound "''in''" "sample_outbound 0 ''in'' []" "[Closed (sample_outbound 0 ''in'' [])]"
      "one_inbound\<lparr>mg_started := False, mg_items := []\<rparr>" inbound_words]
  by (simp add: one_inbound_def tagged_Close_def InboundManager_Close_def InboundManager_Remove_def)

text \<open>Remark (create_leaks_started_object): when a running manager replaces an object and closing the old one
  fails, the new object has been through all stages of its start and is forgotten without being
  closed, and the closed one stays in the list and in the table.\<close>

theorem create_leaks_started_object:
  assumes "mg_started m" and "map_of (mg_itemByTag m) tag = Some old" and "called (sv_closer old) = Some e"
    and "\<forall>stage. LegacyStart ob stage = None"
  shows "\<exists>err. tagged_Create K tag (Inr ob) m =
    (Inl err, map (Started ob) ListStartStages @ [Closed old], m)"
  using assms by (simp add: tagged_Create_def ListStartStages_def)

theorem create_leaks_started_object_witness:
  "\<exists>err. tagged_Create inbound_words ''in'' (Inr (sample_outbound 1 ''in'' []))
     (one_inbound\<lparr>mg_itemByTag := [(''in'', (sample_outbound 0 ''in'' [])\<lparr>sv_closer := Some (Some ErrInvalid)\<rparr>)]\<rparr>) =
     (Inl err, map (Started (sample_outbound 1 ''in'' [])) ListStartStages @ [Closed ((sample_outbound 0 ''in'' [])\<lparr>sv_closer := Some (Some ErrInvalid)\<rparr>)],
      one_inbound\<lparr>mg_itemByTag := [(''in'', (sample_outbound 0 ''in'' [])\<lparr>sv_closer := Some (Some ErrInvalid)\<rparr>)]\<rparr>)"
  by (rule create_leaks_started_object [where e = ErrInvalid])
    (simp_all add: one_inbound_def called_def sample_outbound_def LegacyStart_def split: start_stage.splits)

end
