(* ===== verification/Box_Props.thy ===== *)
theory Box_Props
  imports Box Managers_Props
begin

text \<open>
  Properties of the box, over the contract that its five managers keep: what a configuration
  creates is there, a successful start takes every object through all stages in order, and what was
  started is closed, also when the start fails half way.
\<close>

section \<open>Runs of starts\<close>

text \<open>A step is safe under a condition: it keeps the condition and the box but for the managers' marks and
  the fallback outbound, and what it starts is under a manager that is running.\<close>

definition managed_ids :: "box \<Rightarrow> nat set" where
  "managed_ids b = outbounds.managed (bx_outbound b) \<union> endpoints.managed (bx_endpoint b) \<union>
     inbounds.managed (bx_inbound b) \<union> services.managed (bx_service b) \<union> transports.managed (bx_dnsTransport b)"

definition same_objects :: "box \<Rightarrow> box \<Rightarrow> bool" where
  "same_objects b b' \<longleftrightarrow> mg_items (bx_endpoint b') = mg_items (bx_endpoint b) \<and>
     mg_items (bx_inbound b') = mg_items (bx_inbound b) \<and> mg_items (bx_service b') = mg_items (bx_service b) \<and>
     tm_transports (bx_dnsTransport b') = tm_transports (bx_dnsTransport b) \<and> bx_done b' = bx_done b \<and>
     bx_defaultOutboundFallback b' = bx_defaultOutboundFallback b \<and>
     (\<forall>ob \<in> set (om_outbounds (bx_outbound b')). ob \<in> set (om_outbounds (bx_outbound b)) \<or>
        bx_defaultOutboundFallback b = Inr ob)"

lemma same_objects_refl [simp]: "same_objects b b"
  by (simp add: same_objects_def)

lemma same_objects_trans: "same_objects a b \<Longrightarrow> same_objects b c \<Longrightarrow> same_objects a c"
  by (auto simp: same_objects_def)

definition safe_start :: "(box \<Rightarrow> bool) \<Rightarrow> (box \<Rightarrow> start_result) \<Rightarrow> bool" where
  "safe_start P f \<longleftrightarrow> (\<forall>b r evs b'. P b \<longrightarrow> f b = (r, evs, b') \<longrightarrow>
     P b' \<and> same_objects b b' \<and> managed_ids b \<subseteq> managed_ids b' \<and>
     (\<forall>k s. ObjectStarted k s \<in> set evs \<longrightarrow> k \<in> managed_ids b'))"

lemma safe_startD:
  assumes "safe_start P f" and "P b" and "f b = (r, evs, b')"
  shows "P b'" and "same_objects b b'" and "managed_ids b \<subseteq> managed_ids b'"
    and "ObjectStarted k s \<in> set evs \<Longrightarrow> k \<in> managed_ids b'"
  using assms unfolding safe_start_def by blast+

lemma safe_run_starts: "(\<And>f. f \<in> set fs \<Longrightarrow> safe_start P f) \<Longrightarrow> safe_start P (run_starts fs)"
proof (induction fs)
  case (Cons f fs)
  then have f: "safe_start P f" and fs: "safe_start P (run_starts fs)" by simp_all
  show ?case
    unfolding safe_start_def
  proof (intro allI impI)
    fix b r evs b' assume P: "P b" and run: "run_starts (f # fs) b = (r, evs, b')"
    obtain r1 evs1 b1 where s: "f b = (r1, evs1, b1)" by (metis prod_cases3)
    note one = safe_startD [OF f P s]
    show "P b' \<and> same_objects b b' \<and> managed_ids b \<subseteq> managed_ids b' \<and>
      (\<forall>k s. ObjectStarted k s \<in> set evs \<longrightarrow> k \<in> managed_ids b')"
    proof (cases r1)
      case (Some e)
      with run s one show ?thesis by auto
    next
      case None
      obtain r2 evs2 b2 where s2: "run_starts fs b1 = (r2, evs2, b2)" by (metis prod_cases3)
      note two = safe_startD [OF fs one(1) s2]
      have "b' = b2" "evs = evs1 @ evs2" using run s s2 None by simp_all
      with one two same_objects_trans show ?thesis by auto
    qed
  qed
qed (simp add: safe_start_def)

text \<open>Events of a manager, as events of the box.\<close>

lemma object_event_started [simp]: "object_event ev = ObjectStarted k s \<longleftrightarrow> (\<exists>ob. ev = Started ob s \<and> sv_id ob = k)"
  by (cases ev) auto

lemma object_event_closed [simp]: "object_event ev = ObjectClosed k \<longleftrightarrow> (\<exists>ob. ev = Closed ob \<and> sv_id ob = k)"
  by (cases ev) auto

lemma started_in_map:
  "ObjectStarted k s \<in> object_event ` set evs \<longleftrightarrow> (\<exists>ob. Started ob s \<in> set evs \<and> sv_id ob = k)"
  by (force simp: image_iff eq_commute [of "ObjectStarted k s"])

lemma closed_in_map:
  "ObjectClosed k \<in> object_event ` set evs \<longleftrightarrow> (\<exists>ob. Closed ob \<in> set evs \<and> sv_id ob = k)"
  by (force simp: image_iff eq_commute [of "ObjectClosed k"])

definition endpoints_running :: "box \<Rightarrow> bool" where
  "endpoints_running b \<longleftrightarrow> mg_started (bx_endpoint b)"

lemma part_Start_endpoints: "endpoints_running b \<Longrightarrow> part_Start stage part b = (r, evs, b') \<Longrightarrow> endpoints_running b'"
  by (cases part) (auto simp: endpoints_running_def dest: endpoints.start_stays_running split: prod.splits)

lemma outbound_Start_safe:
  assumes "part_Start stage OutboundPart b = (r, evs, b')" and "stage = StartStateStart \<Longrightarrow> endpoints_running b"
  shows "same_objects b b' \<and> managed_ids b \<subseteq> managed_ids b' \<and>
    (\<forall>k s. ObjectStarted k s \<in> set evs \<longrightarrow> k \<in> managed_ids b')"
proof -
  let ?E = "endpoint_view_of (bx_endpoint b)"
  obtain evs1 m where st: "Manager_Start ?E (bx_defaultOutboundFallback b) stage (bx_outbound b) = (r, evs1, m)"
    and ev: "evs = PartStarted OutboundPart stage # map object_event evs1" and b': "b' = b\<lparr>bx_outbound := m\<rparr>"
    using assms(1) by (auto split: prod.splits)
  have "k \<in> managed_ids b'" if "Started ob s \<in> set evs1" "sv_id ob = k" for ob s k
  proof -
    from outbounds.start_covered [OF st that(1)] that(2)
    have "k \<in> sv_id ` set (outbounds_told ?E stage m)" "sv_id ` set (om_outbounds m) = outbounds.managed m" by auto
    then show ?thesis
      using assms(2)
      by (auto simp: outbounds_told_def endpoint_view_of_def endpoints_running_def endpoints.managed_def managed_ids_def b'
          split: if_splits)
  qed
  moreover have "same_objects b b'"
    using Manager_Start_contract(1) [OF st] by (auto simp: same_objects_def b')
  ultimately show ?thesis
    using outbounds.start_managed [OF st] ev b' by (auto simp: started_in_map managed_ids_def)
qed

lemma part_Start_safe:
  assumes "part_Start stage part b = (r, evs, b')"
    and "stage = StartStateStart \<and> part = OutboundPart \<Longrightarrow> endpoints_running b"
  shows "same_objects b b' \<and> managed_ids b \<subseteq> managed_ids b' \<and>
    (\<forall>k s. ObjectStarted k s \<in> set evs \<longrightarrow> k \<in> managed_ids b')"
proof (cases part)
  case OutboundPart
  with outbound_Start_safe assms show ?thesis by blast
next
  case InboundPart
  obtain evs1 m where st: "InboundManager_Start stage (bx_inbound b) = (r, evs1, m)"
    and ev: "evs = PartStarted InboundPart stage # map object_event evs1" and b': "b' = b\<lparr>bx_inbound := m\<rparr>"
    using assms(1) InboundPart by (auto split: prod.splits)
  have "mg_items m = mg_items (bx_inbound b)" using st tagged_Start_contract(1) by (simp add: InboundManager_Start_def)
  with inbounds.start_own [OF st subset_refl] inbounds.start_managed [OF st] ev b' show ?thesis
    by (auto simp: same_objects_def managed_ids_def started_in_map)
next
  case ServicePart
  obtain evs1 m where st: "ServiceManager_Start stage (bx_service b) = (r, evs1, m)"
    and ev: "evs = PartStarted ServicePart stage # map object_event evs1" and b': "b' = b\<lparr>bx_service := m\<rparr>"
    using assms(1) ServicePart by (auto split: prod.splits)
  have "mg_items m = mg_items (bx_service b)" using st tagged_Start_contract(1) by (simp add: ServiceManager_Start_def)
  with services.start_own [OF st subset_refl] services.start_managed [OF st] ev b' show ?thesis
    by (auto simp: same_objects_def managed_ids_def started_in_map)
next
  case EndpointPart
  obtain evs1 m where st: "EndpointManager_Start stage (bx_endpoint b) = (r, evs1, m)"
    and ev: "evs = PartStarted EndpointPart stage # map object_event evs1" and b': "b' = b\<lparr>bx_endpoint := m\<rparr>"
    using assms(1) EndpointPart by (auto split: prod.splits)
  have "mg_items m = mg_items (bx_endpoint b)" using st EndpointManager_Start_contract(1) by blast
  moreover have "set (endpoints_told stage m) \<subseteq> set (mg_items m)" by (simp add: endpoints_told_def)
  note endpoints.start_own [OF st this]
  ultimately show ?thesis using endpoints.start_managed [OF st] ev b'
    by (auto simp: same_objects_def managed_ids_def started_in_map)
next
  case DNSTransportPart
  obtain evs1 m where st: "TransportManager_Start stage (bx_dnsTransport b) = (r, evs1, m)"
    and ev: "evs = PartStarted DNSTransportPart stage # map object_event evs1" and b': "b' = b\<lparr>bx_dnsTransport := m\<rparr>"
    using assms(1) DNSTransportPart by (auto split: prod.splits)
  have "tm_transports m = tm_transports (bx_dnsTransport b)" using st TransportManager_Start_contract(1) by blast
  with transports.start_own [OF st subset_refl] transports.start_managed [OF st] ev b' show ?thesis
    by (auto simp: same_objects_def managed_ids_def started_in_map)
qed (use assms in auto)

lemma safe_part:
  assumes "P = (\<lambda>_. True) \<and> (stage \<noteq> StartStateStart \<or> part \<noteq> OutboundPart) \<or> P = endpoints_running"
  shows "safe_start P (part_Start stage part)"
  unfolding safe_start_def using assms part_Start_safe part_Start_endpoints by blast

lemma safe_adapter_Start:
  assumes "P = (\<lambda>_. True) \<and> (stage \<noteq> StartStateStart \<or> OutboundPart \<notin> set parts) \<or> P = endpoints_running"
  shows "safe_start P (adapter_Start stage parts)"
  unfolding adapter_Start_def
proof (rule safe_run_starts)
  fix f assume "f \<in> set (map (part_Start stage) parts)"
  then obtain part where "part \<in> set parts" "f = part_Start stage part" by auto
  with assms show "safe_start P f" by (auto intro: safe_part)
qed

lemma safe_unchanged:
  assumes "\<And>b r evs b'. f b = (r, evs, b') \<Longrightarrow> b' = b \<and> (\<forall>k s. ObjectStarted k s \<notin> set evs)"
  shows "safe_start P f"
  unfolding safe_start_def using assms by fastforce

lemma safe_StartNamed: "safe_start P (StartNamed stage)"
proof (rule safe_unchanged)
  fix b r evs b' assume "StartNamed stage b = (r, evs, b')"
  moreover have "run_starts (map (internal_Start stage) ls) b = (r, evs, b') \<Longrightarrow>
      b' = b \<and> (\<forall>k s. ObjectStarted k s \<notin> set evs)" for ls evs
    by (induction ls arbitrary: evs) (auto simp: internal_Start_def split: option.splits prod.splits)
  ultimately show "b' = b \<and> (\<forall>k s. ObjectStarted k s \<notin> set evs)" by (simp add: StartNamed_def)
qed

lemma safe_start_logger: "safe_start P start_logger"
  by (rule safe_unchanged) (auto simp: start_logger_def)

lemma run_starts_append:
  "run_starts (fs @ gs) b =
    (case run_starts fs b of
       (None, evs, b') \<Rightarrow> (case run_starts gs b' of (r, evs', b'') \<Rightarrow> (r, evs @ evs', b''))
     | (Some e, evs, b') \<Rightarrow> (Some e, evs, b'))"
  by (induction fs arbitrary: b) (auto split: option.splits prod.splits)

lemma run_starts_nested: "run_starts (run_starts fs # gs) b = run_starts (fs @ gs) b"
  by (simp add: run_starts_append split: option.splits prod.splits)

lemma run_starts_None:
  "run_starts (f # fs) b = (None, evs, b') \<longleftrightarrow>
    (\<exists>evs1 b1 evs2. f b = (None, evs1, b1) \<and> run_starts fs b1 = (None, evs2, b') \<and> evs = evs1 @ evs2)"
  by (auto split: option.splits prod.splits)

text \<open>The stage \<^verbatim>\<open>initialize\<close> marks the endpoint manager, before the outbound manager starts endpoints.\<close>

definition initialize_phase :: "(box \<Rightarrow> start_result) list" where
  "initialize_phase = [start_logger, StartNamed StartStateInitialize,
     adapter_Start StartStateInitialize
       [NetworkPart, DNSTransportPart, DNSRouterPart, ConnectionPart, RouterPart, OutboundPart, InboundPart, EndpointPart, ServicePart]]"

definition later_phases :: "(box \<Rightarrow> start_result) list" where
  "later_phases =
     [adapter_Start StartStateStart
        [OutboundPart, DNSTransportPart, DNSRouterPart, NetworkPart, ConnectionPart, RouterPart],
      StartNamed StartStateStart,
      adapter_Start StartStateStart [InboundPart, EndpointPart, ServicePart],
      adapter_Start StartStatePostStart
        [OutboundPart, NetworkPart, DNSTransportPart, DNSRouterPart, ConnectionPart, RouterPart, InboundPart, EndpointPart, ServicePart],
      StartNamed StartStatePostStart,
      adapter_Start StartStateStarted
        [NetworkPart, DNSTransportPart, DNSRouterPart, ConnectionPart, RouterPart, OutboundPart, InboundPart, EndpointPart, ServicePart],
      StartNamed StartStateStarted]"

lemma box_start_phases: "box_start b = run_starts (initialize_phase @ later_phases) b"
  unfolding box_start_def box_preStart_def run_starts_nested initialize_phase_def later_phases_def by (simp only: append.simps)

lemma adapter_Start_endpoints:
  assumes "EndpointPart \<in> set parts" and "adapter_Start stage parts b = (None, evs, b')"
  shows "endpoints_running b'"
  using assms unfolding adapter_Start_def
proof (induction parts arbitrary: b evs)
  case (Cons part parts)
  from Cons.prems(2) obtain evs1 b1 evs2 where one: "part_Start stage part b = (None, evs1, b1)"
    and rest: "adapter_Start stage parts b1 = (None, evs2, b')"
    unfolding list.map run_starts_None adapter_Start_def by blast
  show ?case
  proof (cases "EndpointPart \<in> set parts")
    case True
    with Cons.IH rest show ?thesis by (simp add: adapter_Start_def)
  next
    case False
    with Cons.prems(1) one have "endpoints_running b1"
      by (auto simp: endpoints_running_def dest: endpoints.start_marks split: prod.splits)
    with safe_startD(1) [OF safe_adapter_Start [of endpoints_running] _ rest] show ?thesis by simp
  qed
qed simp

lemma initialize_marks_endpoints:
  assumes "run_starts initialize_phase b = (None, evs, b')"
  shows "endpoints_running b'"
proof -
  from assms obtain b1 b2 evs1 evs2 where "adapter_Start StartStateInitialize
       [NetworkPart, DNSTransportPart, DNSRouterPart, ConnectionPart, RouterPart, OutboundPart, InboundPart, EndpointPart, ServicePart] b1 =
       (None, evs1, b2)" "run_starts [] b2 = (None, evs2, b')"
    unfolding initialize_phase_def run_starts_None by blast
  then show ?thesis using adapter_Start_endpoints by force
qed

lemma safe_initialize: "safe_start (\<lambda>_. True) (run_starts initialize_phase)"
  unfolding initialize_phase_def
  by (rule safe_run_starts) (auto intro: safe_start_logger safe_StartNamed safe_adapter_Start)

lemma safe_later: "safe_start endpoints_running (run_starts later_phases)"
  unfolding later_phases_def by (rule safe_run_starts) (auto intro: safe_StartNamed safe_adapter_Start)

text \<open>What a start has started, however it ended, is under a running manager.\<close>

lemma box_start_managed:
  assumes "box_start b = (r, evs, b')"
  shows "same_objects b b'" and "ObjectStarted k s \<in> set evs \<Longrightarrow> k \<in> managed_ids b'"
proof -
  obtain r1 evs1 b1 where one: "run_starts initialize_phase b = (r1, evs1, b1)" by (metis prod_cases3)
  note s1 = safe_startD [OF safe_initialize TrueI one]
  have "same_objects b b' \<and> (ObjectStarted k s \<in> set evs \<longrightarrow> k \<in> managed_ids b')"
  proof (cases r1)
    case (Some e)
    with one assms s1 show ?thesis by (simp add: box_start_phases run_starts_append)
  next
    case None
    with one have "endpoints_running b1" using initialize_marks_endpoints by blast
    obtain r2 evs2 b2 where two: "run_starts later_phases b1 = (r2, evs2, b2)" by (metis prod_cases3)
    note s2 = safe_startD [OF safe_later \<open>endpoints_running b1\<close> two]
    have "b' = b2" "evs = evs1 @ evs2"
      using assms one two None by (simp_all add: box_start_phases run_starts_append)
    with s1 s2 same_objects_trans show ?thesis by auto
  qed
  then show "same_objects b b'" "ObjectStarted k s \<in> set evs \<Longrightarrow> k \<in> managed_ids b'" by simp_all
qed

section \<open>Closing\<close>

text \<open>The objects that have no close function, the fallback outbound included.\<close>

definition closeless_ids :: "box \<Rightarrow> nat set" where
  "closeless_ids b =
     sv_id ` {ob \<in> set (om_outbounds (bx_outbound b)) \<union> set (mg_items (bx_endpoint b)) \<union> set (mg_items (bx_inbound b)) \<union>
        set (mg_items (bx_service b)). sv_closer ob = None} \<union>
     sv_id ` {ob \<in> set (tm_transports (bx_dnsTransport b)). sv_closer ob = None} \<union>
     (case bx_defaultOutboundFallback b of Inl _ \<Rightarrow> {} | Inr ob \<Rightarrow> if sv_closer ob = None then {sv_id ob} else {})"

lemma closeless_same: "same_objects b b' \<Longrightarrow> closeless_ids b' \<subseteq> closeless_ids b"
  by (auto simp: same_objects_def closeless_ids_def split: sum.splits)

lemma Box_Close_managed:
  assumes "\<not> bx_done b" and "k \<in> managed_ids b" and "k \<notin> closeless_ids b"
  shows "ObjectClosed k \<in> set (fst (snd (Box_Close cc b)))"
proof -
  obtain es ms where s: "ServiceManager_Close (bx_service b) = (es, ms)" by (metis prod.exhaust)
  obtain ee me where e: "EndpointManager_Close (bx_endpoint b) = (ee, me)" by (metis prod.exhaust)
  obtain ei mi where i: "InboundManager_Close (bx_inbound b) = (ei, mi)" by (metis prod.exhaust)
  obtain eo mo where o: "Manager_Close (bx_outbound b) = (eo, mo)" by (metis prod.exhaust)
  obtain et mt where t: "TransportManager_Close (bx_dnsTransport b) = (et, mt)" by (metis prod.exhaust)
  have evs: "set (map object_event es) \<union> set (map object_event ee) \<union> set (map object_event ei) \<union>
      set (map object_event eo) \<union> set (map object_event et) \<subseteq> set (fst (snd (Box_Close cc b)))"
    using assms(1) by (auto simp: Box_Close_def closing_order_def s e i o t split: prod.splits)
  consider "k \<in> services.managed (bx_service b)" | "k \<in> endpoints.managed (bx_endpoint b)"
    | "k \<in> inbounds.managed (bx_inbound b)" | "k \<in> outbounds.managed (bx_outbound b)"
    | "k \<in> transports.managed (bx_dnsTransport b)"
    using assms(2) unfolding managed_ids_def by blast
  then have "ObjectClosed k \<in> set (map object_event es) \<union> set (map object_event ee) \<union> set (map object_event ei) \<union>
      set (map object_event eo) \<union> set (map object_event et)"
  proof cases
    case 1
    from services.close_managed [OF s 1] assms(3) show ?thesis by (auto simp: closeless_ids_def closed_in_map)
  next
    case 2
    from endpoints.close_managed [OF e 2] assms(3) show ?thesis by (auto simp: closeless_ids_def closed_in_map)
  next
    case 3
    from inbounds.close_managed [OF i 3] assms(3) show ?thesis by (auto simp: closeless_ids_def closed_in_map)
  next
    case 4
    from outbounds.close_managed [OF o 4] assms(3) show ?thesis by (auto simp: closeless_ids_def closed_in_map)
  next
    case 5
    from transports.close_managed [OF t 5] assms(3) show ?thesis by (auto simp: closeless_ids_def closed_in_map)
  qed
  with evs show ?thesis by blast
qed

text \<open>Closing starts nothing.\<close>

lemma part_Close_events: "ObjectStarted k s \<notin> set (fst (snd (part_Close part b)))"
  by (cases part) (auto simp: ServiceManager_Close_def EndpointManager_Close_def InboundManager_Close_def tagged_Close_def
      Manager_Close_def TransportManager_Close_def)

lemma close_parts_events: "ObjectStarted k s \<notin> set (fst (snd (close_parts parts b)))"
proof (induction parts arbitrary: b)
  case (Cons part parts)
  from part_Close_events [of k s part b] Cons.IH show ?case by (auto split: prod.splits) (metis fst_conv snd_conv)
qed simp

lemma Box_Close_events: "ObjectStarted k s \<notin> set (fst (snd (Box_Close cc b)))"
  using close_parts_events [of k s closing_order "b\<lparr>bx_done := True\<rparr>"]
  by (auto simp: Box_Close_def split: prod.splits)

text \<open>C22 (started_is_closed): whatever fails, every object that a start of the box has started and that
  has a close function is closed: by the start itself when it returns an error, and otherwise
  by closing the box.\<close>

theorem started_is_closed:
  assumes "\<not> bx_done b" and "Box_Start cc b = (r, evs, b')"
    and "ObjectStarted k stage \<in> set evs" and "k \<notin> closeless_ids b"
  shows "if \<exists>e. r = Some e \<and> \<not> is_panic e then ObjectClosed k \<in> set evs
    else ObjectClosed k \<in> set (fst (snd (Box_Close cc b')))"
proof -
  obtain r0 evs0 b0 where st: "box_start b = (r0, evs0, b0)" by (metis prod_cases3)
  note m = box_start_managed [OF st]
  have closed: "ObjectClosed k \<in> set (fst (snd (Box_Close cc b0)))" if "ObjectStarted k stage \<in> set evs0"
    using m(2) [OF that] m(1) assms(1,4) closeless_same [OF m(1)]
    by (intro Box_Close_managed) (auto simp: same_objects_def)
  then show ?thesis
    using assms(2,3) st Box_Close_events [of k stage cc b0]
    by (auto simp: Box_Start_def close_on_error_def split: option.splits prod.splits if_splits)
qed

section \<open>The stages of an object\<close>

fun stages_of :: "nat \<Rightarrow> box_event list \<Rightarrow> start_stage list" where
  "stages_of k [] = []"
| "stages_of k (ObjectStarted i stage # evs) = (if i = k then stage # stages_of k evs else stages_of k evs)"
| "stages_of k (_ # evs) = stages_of k evs"

lemma stages_of_append [simp]: "stages_of k (evs @ evs') = stages_of k evs @ stages_of k evs'"
  by (induction k evs rule: stages_of.induct) simp_all

lemma stages_of_none: "\<forall>s. ObjectStarted k s \<notin> set evs \<Longrightarrow> stages_of k evs = []"
  by (induction k evs rule: stages_of.induct) auto

text \<open>A manager that has told each of a list of distinct objects a stage has told it to each once.\<close>

lemma stages_of_told:
  assumes "mset evs = mset (map (\<lambda>ob. Started ob stage) obs)" and "distinct (map sv_id obs)"
  shows "stages_of k (map object_event evs) = (if k \<in> sv_id ` set obs then [stage] else [])"
proof -
  have all: "\<forall>ev \<in> set evs. \<exists>ob. ev = Started ob stage"
    using mset_eq_setD [OF assms(1)] by auto
  have "stages_of k (map object_event evs) = replicate (length (filter (\<lambda>ev. sv_id (event_outbound ev) = k) evs)) stage"
    using all by (induction evs) auto
  also have "length (filter (\<lambda>ev. sv_id (event_outbound ev) = k) evs) = length (filter (\<lambda>ob. sv_id ob = k) obs)"
  proof -
    have "mset (filter (\<lambda>ev. sv_id (event_outbound ev) = k) evs) =
        mset (filter (\<lambda>ev. sv_id (event_outbound ev) = k) (map (\<lambda>ob. Started ob stage) obs))"
      by (simp only: mset_filter assms(1))
    from mset_eq_length [OF this] show ?thesis by (simp add: filter_map o_def)
  qed
  also have "replicate (length (filter (\<lambda>ob. sv_id ob = k) obs)) stage = (if k \<in> sv_id ` set obs then [stage] else [])"
    using assms(2) by (induction obs) (auto simp: filter_False image_iff)
  finally show ?thesis .
qed

text \<open>The identities of the objects, all and by manager.\<close>

definition box_objects :: "box \<Rightarrow> nat list" where
  "box_objects b = map sv_id (om_outbounds (bx_outbound b)) @ map sv_id (mg_items (bx_endpoint b)) @
     map sv_id (mg_items (bx_inbound b)) @ map sv_id (mg_items (bx_service b)) @ map sv_id (tm_transports (bx_dnsTransport b))"

record object_ids =
  id_outbounds :: "nat set"
  id_endpoints :: "nat set"
  id_inbounds :: "nat set"
  id_services :: "nat set"
  id_transports :: "nat set"

definition ids_of :: "box \<Rightarrow> object_ids" where
  "ids_of b = \<lparr>id_outbounds = sv_id ` set (om_outbounds (bx_outbound b)), id_endpoints = sv_id ` set (mg_items (bx_endpoint b)),
     id_inbounds = sv_id ` set (mg_items (bx_inbound b)), id_services = sv_id ` set (mg_items (bx_service b)),
     id_transports = sv_id ` set (tm_transports (bx_dnsTransport b))\<rparr>"

text \<open>The part that starts an object in a stage.\<close>

fun told_ids :: "object_ids \<Rightarrow> start_stage \<Rightarrow> box_part \<Rightarrow> nat set" where
  "told_ids I stage OutboundPart = id_outbounds I \<union> (if stage = StartStateStart then id_endpoints I else {})"
| "told_ids I stage EndpointPart = (if stage = StartStateStart then {} else id_endpoints I)"
| "told_ids I stage InboundPart = id_inbounds I"
| "told_ids I stage ServicePart = id_services I"
| "told_ids I stage DNSTransportPart = id_transports I"
| "told_ids I stage _ = {}"

text \<open>A box during its start: the objects \<open>I\<close> and perhaps the fallback outbound, all different.\<close>

definition fallback_ids :: "box \<Rightarrow> nat set" where
  "fallback_ids b = (case bx_defaultOutboundFallback b of Inl _ \<Rightarrow> {} | Inr ob \<Rightarrow> {sv_id ob})"

definition during_start :: "object_ids \<Rightarrow> box \<Rightarrow> bool" where
  "during_start I b \<longleftrightarrow> distinct (box_objects b) \<and>
     (ids_of b = I \<and> fallback_ids b \<inter> set (box_objects b) = {} \<or>
      om_defaultOutbound (bx_outbound b) \<noteq> None \<and> ids_of b = I\<lparr>id_outbounds := id_outbounds I \<union> fallback_ids b\<rparr>)"

lemma during_start_ids:
  assumes "during_start I b" and "k \<notin> fallback_ids b"
  shows "k \<in> sv_id ` set (om_outbounds (bx_outbound b)) \<longleftrightarrow> k \<in> id_outbounds I"
    and "sv_id ` set (mg_items (bx_endpoint b)) = id_endpoints I"
    and "sv_id ` set (mg_items (bx_inbound b)) = id_inbounds I"
    and "sv_id ` set (mg_items (bx_service b)) = id_services I"
    and "sv_id ` set (tm_transports (bx_dnsTransport b)) = id_transports I"
proof -
  have "ids_of b = I \<or> ids_of b = I\<lparr>id_outbounds := id_outbounds I \<union> fallback_ids b\<rparr>"
    using assms(1) by (auto simp: during_start_def)
  then have f: "id_outbounds (ids_of b) = id_outbounds I \<or> id_outbounds (ids_of b) = id_outbounds I \<union> fallback_ids b"
    "id_endpoints (ids_of b) = id_endpoints I" "id_inbounds (ids_of b) = id_inbounds I"
    "id_services (ids_of b) = id_services I" "id_transports (ids_of b) = id_transports I" by auto
  then show "k \<in> sv_id ` set (om_outbounds (bx_outbound b)) \<longleftrightarrow> k \<in> id_outbounds I" using assms(2)
    by (auto simp: ids_of_def)
  from f show "sv_id ` set (mg_items (bx_endpoint b)) = id_endpoints I"
    "sv_id ` set (mg_items (bx_inbound b)) = id_inbounds I" "sv_id ` set (mg_items (bx_service b)) = id_services I"
    "sv_id ` set (tm_transports (bx_dnsTransport b)) = id_transports I" by (simp_all add: ids_of_def)
qed

lemma Manager_Start_default:
  assumes "Manager_Start E fallback stage m = (r, evs, m')"
  shows "om_outbounds m' = om_outbounds m \<and> (om_defaultOutbound m \<noteq> None \<longrightarrow> om_defaultOutbound m' \<noteq> None) \<or>
    (\<exists>direct. om_defaultOutbound m = None \<and> fallback = Inr direct \<and> om_outbounds m' = om_outbounds m @ [direct] \<and>
       om_defaultOutbound m' \<noteq> None)"
  using assms
  by (cases rule: Manager_Start_cases) (auto simp: resolve_default_def split: if_splits option.splits sum.splits)

lemma outbound_during_start:
  assumes "during_start I b" and "part_Start stage OutboundPart b = (None, evs, b')" and "k \<notin> fallback_ids b"
  shows "during_start I b' \<and> fallback_ids b' = fallback_ids b \<and>
    stages_of k evs = (if k \<in> told_ids I stage OutboundPart then [stage] else [])"
proof -
  let ?E = "endpoint_view_of (bx_endpoint b)"
  obtain evs1 m where st: "Manager_Start ?E (bx_defaultOutboundFallback b) stage (bx_outbound b) = (None, evs1, m)"
    and ev: "evs = PartStarted OutboundPart stage # map object_event evs1" and b': "b' = b\<lparr>bx_outbound := m\<rparr>"
    using assms(2) by (auto split: prod.splits)
  have d: "during_start I b'"
    using Manager_Start_default [OF st]
  proof (elim disjE exE conjE)
    assume same: "om_outbounds m = om_outbounds (bx_outbound b)"
      "om_defaultOutbound (bx_outbound b) \<noteq> None \<longrightarrow> om_defaultOutbound m \<noteq> None"
    then have "box_objects b' = box_objects b" "ids_of b' = ids_of b" "fallback_ids b' = fallback_ids b"
      by (simp_all add: box_objects_def ids_of_def fallback_ids_def b')
    with same(2) assms(1) show ?thesis unfolding during_start_def b' by auto
  next
    fix direct
    assume new: "om_defaultOutbound (bx_outbound b) = None" "bx_defaultOutboundFallback b = Inr direct"
      "om_outbounds m = om_outbounds (bx_outbound b) @ [direct]" "om_defaultOutbound m \<noteq> None"
    then have "ids_of b = I" "sv_id direct \<notin> set (box_objects b)" "distinct (box_objects b)"
      using assms(1) by (auto simp: during_start_def fallback_ids_def)
    moreover from this(1) new have "ids_of b' = I\<lparr>id_outbounds := id_outbounds I \<union> fallback_ids b'\<rparr>"
      by (auto simp: ids_of_def fallback_ids_def b')
    ultimately show ?thesis using new by (auto simp: during_start_def box_objects_def b')
  qed
  have "distinct (map sv_id (outbounds_told ?E stage m))"
    using d by (auto simp: during_start_def box_objects_def outbounds_told_def endpoint_view_of_def b')
  from stages_of_told [OF outbounds.start_complete [OF st] this, of k]
  have "stages_of k evs = (if k \<in> sv_id ` set (outbounds_told ?E stage m) then [stage] else [])" using ev by simp
  moreover have "k \<in> sv_id ` set (outbounds_told ?E stage m) \<longleftrightarrow> k \<in> told_ids I stage OutboundPart"
    using during_start_ids(1,2) [OF d, of k] assms(3)
    by (simp add: outbounds_told_def endpoint_view_of_def b' fallback_ids_def image_Un)
  ultimately show ?thesis using d by (simp add: fallback_ids_def b')
qed

text \<open>The other managers keep their objects.\<close>

lemma own_during_start:
  assumes "during_start I b" and "ids_of b' = ids_of b" and "box_objects b' = box_objects b" and "bx_outbound b' = bx_outbound b"
    and "bx_defaultOutboundFallback b' = bx_defaultOutboundFallback b"
  shows "during_start I b'" and "fallback_ids b' = fallback_ids b"
  using assms by (simp_all add: during_start_def fallback_ids_def)

lemma part_during_start:
  assumes "during_start I b" and "part_Start stage part b = (None, evs, b')" and "k \<notin> fallback_ids b"
  shows "during_start I b' \<and> fallback_ids b' = fallback_ids b \<and>
    stages_of k evs = (if k \<in> told_ids I stage part then [stage] else [])"
proof -
  have ids: "distinct (map sv_id (mg_items (bx_inbound b)))" "distinct (map sv_id (mg_items (bx_endpoint b)))"
    "distinct (map sv_id (mg_items (bx_service b)))" "distinct (map sv_id (tm_transports (bx_dnsTransport b)))"
    using assms(1) by (simp_all add: during_start_def box_objects_def)
  note I = during_start_ids [OF assms(1,3)]
  show ?thesis
  proof (cases part)
    case OutboundPart
    with outbound_during_start assms show ?thesis by blast
  next
    case InboundPart
    obtain evs1 m where st: "InboundManager_Start stage (bx_inbound b) = (None, evs1, m)"
      and ev: "evs = PartStarted InboundPart stage # map object_event evs1" and b': "b' = b\<lparr>bx_inbound := m\<rparr>"
      using assms(2) InboundPart by (auto split: prod.splits)
    have m: "mg_items m = mg_items (bx_inbound b)" using st tagged_Start_contract(1) by (simp add: InboundManager_Start_def)
    from stages_of_told [OF inbounds.start_complete [OF st], of k] m ids(1) I(3) ev InboundPart
      own_during_start [OF assms(1), of b']
    show ?thesis by (simp add: b' ids_of_def box_objects_def)
  next
    case ServicePart
    obtain evs1 m where st: "ServiceManager_Start stage (bx_service b) = (None, evs1, m)"
      and ev: "evs = PartStarted ServicePart stage # map object_event evs1" and b': "b' = b\<lparr>bx_service := m\<rparr>"
      using assms(2) ServicePart by (auto split: prod.splits)
    have m: "mg_items m = mg_items (bx_service b)" using st tagged_Start_contract(1) by (simp add: ServiceManager_Start_def)
    from stages_of_told [OF services.start_complete [OF st], of k] m ids(3) I(4) ev ServicePart
      own_during_start [OF assms(1), of b']
    show ?thesis by (simp add: b' ids_of_def box_objects_def)
  next
    case EndpointPart
    obtain evs1 m where st: "EndpointManager_Start stage (bx_endpoint b) = (None, evs1, m)"
      and ev: "evs = PartStarted EndpointPart stage # map object_event evs1" and b': "b' = b\<lparr>bx_endpoint := m\<rparr>"
      using assms(2) EndpointPart by (auto split: prod.splits)
    have m: "mg_items m = mg_items (bx_endpoint b)" using st EndpointManager_Start_contract(1) by blast
    from stages_of_told [OF endpoints.start_complete [OF st], of k] m ids(2) I(2) ev EndpointPart
      own_during_start [OF assms(1), of b']
    show ?thesis by (simp add: b' ids_of_def box_objects_def endpoints_told_def split: if_splits)
  next
    case DNSTransportPart
    obtain evs1 m where st: "TransportManager_Start stage (bx_dnsTransport b) = (None, evs1, m)"
      and ev: "evs = PartStarted DNSTransportPart stage # map object_event evs1" and b': "b' = b\<lparr>bx_dnsTransport := m\<rparr>"
      using assms(2) DNSTransportPart by (auto split: prod.splits)
    have m: "tm_transports m = tm_transports (bx_dnsTransport b)" using st TransportManager_Start_contract(1) by blast
    from stages_of_told [OF transports.start_complete [OF st], of k] m ids(4) I(5) ev DNSTransportPart
      own_during_start [OF assms(1), of b']
    show ?thesis by (simp add: b' ids_of_def box_objects_def)
  qed (use assms in \<open>simp_all, auto\<close>)
qed

definition stages_told :: "object_ids \<Rightarrow> nat \<Rightarrow> start_stage \<Rightarrow> box_part list \<Rightarrow> start_stage list" where
  "stages_told I k stage parts = concat (map (\<lambda>part. if k \<in> told_ids I stage part then [stage] else []) parts)"

lemma adapter_during_start:
  assumes "during_start I b" and "adapter_Start stage parts b = (None, evs, b')" and "k \<notin> fallback_ids b"
  shows "during_start I b' \<and> fallback_ids b' = fallback_ids b \<and> stages_of k evs = stages_told I k stage parts"
  using assms unfolding adapter_Start_def
proof (induction parts arbitrary: b evs)
  case (Cons part parts)
  from Cons.prems(2) obtain evs1 b1 evs2 where one: "part_Start stage part b = (None, evs1, b1)"
    and rest: "run_starts (map (part_Start stage) parts) b1 = (None, evs2, b')" and ev: "evs = evs1 @ evs2"
    unfolding list.map run_starts_None by blast
  from part_during_start [OF Cons.prems(1) one Cons.prems(3)] Cons.prems(3) Cons.IH [OF _ rest] show ?case
    by (simp add: ev stages_told_def)
qed (simp add: stages_told_def)

text \<open>Steps that start no object.\<close>

lemma StartNamed_during_start:
  assumes "StartNamed stage b = (r, evs, b')"
  shows "b' = b \<and> stages_of k evs = []"
proof -
  have "run_starts (map (internal_Start stage) ls) b = (r, evs, b') \<Longrightarrow> b' = b \<and> stages_of k evs = []" for ls evs
    by (induction ls arbitrary: evs) (auto simp: internal_Start_def split: option.splits prod.splits)
  with assms show ?thesis by (simp add: StartNamed_def)
qed

lemma start_logger_during_start: "start_logger b = (r, evs, b') \<Longrightarrow> b' = b \<and> stages_of k evs = []"
  by (auto simp: start_logger_def)

definition all_parts :: "box_part list" where
  "all_parts = [NetworkPart, DNSTransportPart, DNSRouterPart, ConnectionPart, RouterPart, OutboundPart, InboundPart, EndpointPart, ServicePart]"

lemma box_start_stages:
  assumes "box_start b = (None, evs, b')" and "during_start I b" and "k \<notin> fallback_ids b"
  shows "stages_of k evs =
    stages_told I k StartStateInitialize all_parts @
    stages_told I k StartStateStart [OutboundPart, DNSTransportPart, DNSRouterPart, NetworkPart, ConnectionPart, RouterPart] @
    stages_told I k StartStateStart [InboundPart, EndpointPart, ServicePart] @
    stages_told I k StartStatePostStart
      [OutboundPart, NetworkPart, DNSTransportPart, DNSRouterPart, ConnectionPart, RouterPart, InboundPart, EndpointPart, ServicePart] @
    stages_told I k StartStateStarted all_parts"
proof -
  from assms(1) obtain e0 b0 e1 b1 e2 b2 e3 b3 e4 b4 e5 b5 e6 b6 e7 b7 e8 b8 e9 where
    steps: "start_logger b = (None, e0, b0)" "StartNamed StartStateInitialize b0 = (None, e1, b1)"
    "adapter_Start StartStateInitialize all_parts b1 = (None, e2, b2)"
    "adapter_Start StartStateStart [OutboundPart, DNSTransportPart, DNSRouterPart, NetworkPart, ConnectionPart, RouterPart] b2 = (None, e3, b3)"
    "StartNamed StartStateStart b3 = (None, e4, b4)"
    "adapter_Start StartStateStart [InboundPart, EndpointPart, ServicePart] b4 = (None, e5, b5)"
    "adapter_Start StartStatePostStart
      [OutboundPart, NetworkPart, DNSTransportPart, DNSRouterPart, ConnectionPart, RouterPart, InboundPart, EndpointPart, ServicePart] b5 = (None, e6, b6)"
    "StartNamed StartStatePostStart b6 = (None, e7, b7)"
    "adapter_Start StartStateStarted all_parts b7 = (None, e8, b8)" "StartNamed StartStateStarted b8 = (None, e9, b')"
    and evs: "evs = e0 @ e1 @ e2 @ e3 @ e4 @ e5 @ e6 @ e7 @ e8 @ e9"
    unfolding box_start_phases initialize_phase_def later_phases_def append.simps run_starts_None all_parts_def
    by auto
  have idle: "b0 = b" "b1 = b" "b4 = b3" "b7 = b6" "stages_of k e0 = []" "stages_of k e1 = []" "stages_of k e4 = []"
    "stages_of k e7 = []" "stages_of k e9 = []"
    using start_logger_during_start [OF steps(1)] StartNamed_during_start [OF steps(2)] StartNamed_during_start [OF steps(5)]
      StartNamed_during_start [OF steps(8)] StartNamed_during_start [OF steps(10)] by auto
  note a = adapter_during_start [OF assms(2) steps(3) [unfolded idle(2)] assms(3)]
  note a = a adapter_during_start [OF conjunct1 [OF a] steps(4)]
  note a = a adapter_during_start [OF conjunct1 [OF a(2)] steps(6) [unfolded idle(3)]]
  note a = a adapter_during_start [OF conjunct1 [OF a(3)] steps(7)]
  note a = a adapter_during_start [OF conjunct1 [OF a(4)] steps(9) [unfolded idle(4)]]
  show ?thesis using a idle assms(3) evs by simp
qed

text \<open>Every object is told each stage by one part.\<close>

lemma stages_told_complete:
  assumes "ids_of b = I" and "distinct (box_objects b)" and "k \<in> set (box_objects b)"
  shows "stages_told I k StartStateInitialize all_parts @
    stages_told I k StartStateStart [OutboundPart, DNSTransportPart, DNSRouterPart, NetworkPart, ConnectionPart, RouterPart] @
    stages_told I k StartStateStart [InboundPart, EndpointPart, ServicePart] @
    stages_told I k StartStatePostStart
      [OutboundPart, NetworkPart, DNSTransportPart, DNSRouterPart, ConnectionPart, RouterPart, InboundPart, EndpointPart, ServicePart] @
    stages_told I k StartStateStarted all_parts = ListStartStages"
proof -
  have d: "id_outbounds I \<inter> (id_endpoints I \<union> id_inbounds I \<union> id_services I \<union> id_transports I) = {}"
    "id_endpoints I \<inter> (id_inbounds I \<union> id_services I \<union> id_transports I) = {}"
    "id_inbounds I \<inter> (id_services I \<union> id_transports I) = {}" "id_services I \<inter> id_transports I = {}"
    using assms(2) by (auto simp: box_objects_def ids_of_def assms(1) [symmetric])
  have "k \<in> id_outbounds I \<or> k \<in> id_endpoints I \<or> k \<in> id_inbounds I \<or> k \<in> id_services I \<or> k \<in> id_transports I"
    using assms(3) by (simp add: box_objects_def ids_of_def assms(1) [symmetric])
  with d show ?thesis
    by (elim disjE) (auto simp: stages_told_def all_parts_def ListStartStages_def)
qed

section \<open>Construction\<close>

text \<open>What \<^verbatim>\<open>New\<close> relies on: constructors make new objects with the tag they are asked for.\<close>

definition constructors_ok :: "'o new_env \<Rightarrow> bool" where
  "constructors_ok env \<longleftrightarrow>
     (\<forall>r. ne_endpointRegistry env = Some r \<longrightarrow> fresh_registry (Registry_Create r)) \<and>
     (\<forall>r. ne_inboundRegistry env = Some r \<longrightarrow> fresh_registry (Registry_Create r)) \<and>
     (\<forall>r. ne_outboundRegistry env = Some r \<longrightarrow> fresh_registry (Registry_Create r)) \<and>
     (\<forall>r. ne_serviceRegistry env = Some r \<longrightarrow> fresh_registry (Registry_Create r)) \<and>
     (\<forall>r. ne_dnsTransportRegistry env = Some r \<longrightarrow> fresh_registry (CreateDNSTransport r)) \<and>
     (\<forall>n ob. ne_direct env n = Inr ob \<longrightarrow> sv_id ob = n \<and> sv_Tag ob = ''direct'')"

definition configured_tags :: "'o object_options list \<Rightarrow> string list" where
  "configured_tags opts = map (\<lambda>(j, ob). tag_or_index j ob) (enumerate 0 opts)"

text \<open>The five loops of \<^verbatim>\<open>New\<close>.\<close>

lemma New_loops:
  assumes "New env ops = Inr b" and "constructors_ok env"
  obtains n1 n2 n3 n4 n5 rd re ri ro rs tm where
    "create_objects ''DNS server'' (CreateDNSTransport rd) TransportManager_Create 0 0 (op_Servers ops)
       (NewTransportManager (op_dnsFinal ops)) = Inr (n1, tm)" "fresh_registry (CreateDNSTransport rd)"
    "create_objects ''endpoint'' (Registry_Create re) EndpointManager_Create 0 n1 (op_Endpoints ops) NewTagManager = Inr (n2, bx_endpoint b)"
    "fresh_registry (Registry_Create re)"
    "create_objects ''inbound'' (Registry_Create ri) InboundManager_Create 0 n2 (op_Inbounds ops) NewTagManager = Inr (n3, bx_inbound b)"
    "fresh_registry (Registry_Create ri)"
    "create_objects ''outbound'' (Registry_Create ro) Manager_Create 0 n3 (op_Outbounds ops) (NewManager (op_routeFinal ops)) = Inr (n4, bx_outbound b)"
    "fresh_registry (Registry_Create ro)"
    "create_objects ''service'' (Registry_Create rs) ServiceManager_Create 0 n4 (op_Services ops) NewTagManager = Inr (n5, bx_service b)"
    "fresh_registry (Registry_Create rs)" "tm_transports (bx_dnsTransport b) = tm_transports tm"
    "bx_defaultOutboundFallback b = ne_direct env (Suc n5)" "\<not> bx_done b"
  using assms
  unfolding New_def constructors_ok_def require_registry_def
  by (auto simp: bind_r_def TransportManager_Initialize_def split: sum.splits option.splits prod.splits if_splits)

lemma new_managers_wf:
  "tagged_wf NewTagManager" "\<not> mg_started NewTagManager" "mg_items NewTagManager = []"
  "manager_wf (NewManager t)" "\<not> om_started (NewManager t)" "om_outbounds (NewManager t) = []"
  "transports_wf (NewTransportManager t)" "\<not> tm_started (NewTransportManager t)" "tm_transports (NewTransportManager t) = []"
  by (simp_all add: tagged_wf_def table_wf_def NewTagManager_def manager_wf_def NewManager_def transports_wf_def NewTransportManager_def)

lemma disjoint_ranges:
  fixes a b c d :: nat
  assumes "A \<subseteq> {a..<b}" and "B \<subseteq> {c..<d}" and "b \<le> c \<or> d \<le> a"
  shows "A \<inter> B = {}"
proof -
  have "{a..<b} \<inter> {c..<d} = {}" using assms(3) by auto
  with assms(1,2) show ?thesis by blast
qed

text \<open>The objects of a new box are different, and different from the fallback outbound.\<close>

lemma New_distinct:
  assumes "New env ops = Inr b" and "constructors_ok env"
  shows "distinct (box_objects b) \<and> fallback_ids b \<inter> set (box_objects b) = {}"
proof (rule New_loops [OF assms], goal_cases)
  case (1 n1 n2 n3 n4 n5 rd re ri ro rs tm)
  have t: "transports_wf tm" "n1 = length (op_Servers ops)" "sv_id ` set (tm_transports tm) \<subseteq> {0..<n1}"
    using transports.create_objects_range [OF 1(1) new_managers_wf(7,8) 1(2)]
    by (auto simp: new_managers_wf)
  have e: "tagged_wf (bx_endpoint b)" "n1 \<le> n2" "sv_id ` set (mg_items (bx_endpoint b)) \<subseteq> {n1..<n2}"
    using endpoints.create_objects_range [OF 1(3) new_managers_wf(1,2) 1(4)]
    by (auto simp: new_managers_wf)
  have i: "tagged_wf (bx_inbound b)" "n2 \<le> n3" "sv_id ` set (mg_items (bx_inbound b)) \<subseteq> {n2..<n3}"
    using inbounds.create_objects_range [OF 1(5) new_managers_wf(1,2) 1(6)]
    by (auto simp: new_managers_wf)
  have o: "manager_wf (bx_outbound b)" "n3 \<le> n4" "sv_id ` set (om_outbounds (bx_outbound b)) \<subseteq> {n3..<n4}"
    using outbounds.create_objects_range [OF 1(7) new_managers_wf(4,5) 1(8)]
    by (auto simp: new_managers_wf)
  have s: "tagged_wf (bx_service b)" "n4 \<le> n5" "sv_id ` set (mg_items (bx_service b)) \<subseteq> {n4..<n5}"
    using services.create_objects_range [OF 1(9) new_managers_wf(1,2) 1(10)]
    by (auto simp: new_managers_wf)
  have "distinct (map sv_id (om_outbounds (bx_outbound b)))" "distinct (map sv_id (mg_items (bx_endpoint b)))"
    "distinct (map sv_id (mg_items (bx_inbound b)))" "distinct (map sv_id (mg_items (bx_service b)))" "distinct (map sv_id (tm_transports tm))"
    using t(1) e(1) i(1) o(1) s(1) by (simp_all add: tagged_wf_def manager_wf_def transports_wf_def table_wf_def)
  then have "distinct (box_objects b)"
    using disjoint_ranges [OF o(3) e(3)] disjoint_ranges [OF o(3) i(3)] disjoint_ranges [OF o(3) s(3)] disjoint_ranges [OF o(3) t(3)]
      disjoint_ranges [OF e(3) i(3)] disjoint_ranges [OF e(3) s(3)] disjoint_ranges [OF e(3) t(3)] disjoint_ranges [OF i(3) s(3)]
      disjoint_ranges [OF i(3) t(3)] disjoint_ranges [OF s(3) t(3)] e(2) i(2) o(2) s(2)
    by (simp add: box_objects_def 1(11) Int_Un_distrib)
  moreover have "set (box_objects b) \<subseteq> {0..<n5}"
    using t(3) e(2,3) i(2,3) o(2,3) s(2,3) by (simp add: box_objects_def 1(11)) (intro conjI; rule subset_trans, assumption, simp)
  moreover have "fallback_ids b \<subseteq> {Suc n5}"
    using assms(2) 1(12) by (auto simp: fallback_ids_def constructors_ok_def split: sum.splits)
  ultimately show ?case by fastforce
qed

text \<open>What the checks of the options give.\<close>

lemma check_tags_distinct:
  assumes "check_tags what seen i opts = Inr seen'"
  shows "distinct (map (\<lambda>(j, ob). tag_or_index j ob) (enumerate i opts)) \<and>
    set seen \<inter> set (map (\<lambda>(j, ob). tag_or_index j ob) (enumerate i opts)) = {} \<and>
    set seen' = set seen \<union> set (map (\<lambda>(j, ob). tag_or_index j ob) (enumerate i opts))"
  using assms
proof (induction opts arbitrary: seen i)
  case (Cons op opts)
  from Cons.prems have new: "tag_or_index i op \<notin> set seen"
    and rest: "check_tags what (tag_or_index i op # seen) (Suc i) opts = Inr seen'" by (auto simp: Let_def split: if_splits)
  from Cons.IH [OF rest] new show ?case by auto
qed simp

lemma checkOptions_distinct:
  assumes "checkOptions ops = Inr ()"
  shows "distinct (configured_tags (op_Inbounds ops))"
    and "distinct (configured_tags (op_Outbounds ops) @ configured_tags (op_Endpoints ops))"
proof -
  from assms obtain si so se where i: "check_tags ''inbound'' [] 0 (op_Inbounds ops) = Inr si"
    and o: "check_tags ''outbound/endpoint'' [] 0 (op_Outbounds ops) = Inr so"
    and e: "check_tags ''outbound/endpoint'' so 0 (op_Endpoints ops) = Inr se"
    by (auto simp: checkOptions_def checkInbounds_def checkOutbounds_def)
  from check_tags_distinct [OF i] show "distinct (configured_tags (op_Inbounds ops))" by (simp add: configured_tags_def)
  from check_tags_distinct [OF o] check_tags_distinct [OF e]
  show "distinct (configured_tags (op_Outbounds ops) @ configured_tags (op_Endpoints ops))"
    by (auto simp: configured_tags_def)
qed

section \<open>Properties\<close>

text \<open>C21 (box_start_complete): when the start of a new box succeeds, every object that its managers hold after the
  construction has been started in the four stages, each once and in their
  order: endpoints too, which two managers start.\<close>

theorem box_start_complete:
  assumes "New env ops = Inr b" and "constructors_ok env" and "Box_Start cc b = (None, evs, b')"
    and "k \<in> set (box_objects b)"
  shows "stages_of k evs = ListStartStages"
proof -
  note n = New_distinct [OF assms(1,2)]
  then have d: "during_start (ids_of b) b" by (simp add: during_start_def)
  from assms(3) have st: "box_start b = (None, evs, b')"
    by (auto simp: Box_Start_def close_on_error_def split: prod.splits option.splits if_splits)
  have "k \<notin> fallback_ids b" "distinct (box_objects b)" using n assms(4) by auto
  with box_start_stages [OF st d] stages_told_complete [OF refl _ assms(4)] show ?thesis by simp
qed

text \<open>C23 (options_checked_keep_all): for options that pass the checks, a new box has exactly the configured
  inbounds, outbounds and endpoints, in their order, under the tag given or the index; no outbound
  shares a tag with another or with an endpoint.\<close>

theorem options_checked_keep_all:
  assumes "checkOptions ops = Inr ()" and "New env ops = Inr b" and "constructors_ok env"
  shows "map sv_Tag (mg_items (bx_inbound b)) = configured_tags (op_Inbounds ops) \<and>
    map sv_Tag (om_outbounds (bx_outbound b)) = configured_tags (op_Outbounds ops) \<and>
    map sv_Tag (mg_items (bx_endpoint b)) = configured_tags (op_Endpoints ops) \<and>
    distinct (map sv_Tag (om_outbounds (bx_outbound b)) @ map sv_Tag (mg_items (bx_endpoint b)))"
proof (rule New_loops [OF assms(2,3)], goal_cases)
  case (1 n1 n2 n3 n4 n5 rd re ri ro rs tm)
  note d = checkOptions_distinct [OF assms(1)]
  have "map sv_Tag (mg_items (bx_inbound b)) = configured_tags (op_Inbounds ops)"
    using inbounds.create_objects_exact [OF 1(5) new_managers_wf(1,2) 1(6)] d by (auto simp: new_managers_wf configured_tags_def)
  moreover have "map sv_Tag (om_outbounds (bx_outbound b)) = configured_tags (op_Outbounds ops)"
    using outbounds.create_objects_exact [OF 1(7) new_managers_wf(4,5) 1(8)] d by (auto simp: new_managers_wf configured_tags_def)
  moreover have "map sv_Tag (mg_items (bx_endpoint b)) = configured_tags (op_Endpoints ops)"
    using endpoints.create_objects_exact [OF 1(3) new_managers_wf(1,2) 1(4)] d by (auto simp: new_managers_wf configured_tags_def)
  ultimately show ?case using d by simp
qed

lemma fewer_objects:
  assumes "distinct (map sv_Tag obs)" "sv_Tag ` set obs \<subseteq> set (configured_tags opts)" "\<not> distinct (configured_tags opts)"
  shows "length obs < length opts"
proof -
  have "length obs = card (sv_Tag ` set obs)" using distinct_card [OF assms(1)] by simp
  also have "\<dots> \<le> card (set (configured_tags opts))" by (rule card_mono) (use assms(2) in auto)
  also have "\<dots> < length (configured_tags opts)" using assms(3) card_length card_distinct le_neq_implies_less by metis
  finally show ?thesis by (simp add: configured_tags_def)
qed

text \<open>Remark (duplicate_service_dropped): the tags of services and of DNS servers are not checked, and a second
  one of a tag takes the place of the first: with two services of the same tag a box has
  fewer services than were configured.\<close>

theorem duplicate_service_dropped:
  assumes "New env ops = Inr b" and "constructors_ok env"
  shows "(\<not> distinct (configured_tags (op_Services ops)) \<longrightarrow> length (mg_items (bx_service b)) < length (op_Services ops)) \<and>
    (\<not> distinct (configured_tags (op_Servers ops)) \<longrightarrow> length (tm_transports (bx_dnsTransport b)) < length (op_Servers ops))"
proof (rule New_loops [OF assms], goal_cases)
  case (1 n1 n2 n3 n4 n5 rd re ri ro rs tm)
  have "tagged_wf (bx_service b) \<and> sv_Tag ` set (mg_items (bx_service b)) \<subseteq> set (configured_tags (op_Services ops))"
    using services.create_objects_range [OF 1(9) new_managers_wf(1,2) 1(10)] by (auto simp: new_managers_wf configured_tags_def)
  moreover have "transports_wf tm \<and> sv_Tag ` set (tm_transports tm) \<subseteq> set (configured_tags (op_Servers ops))"
    using transports.create_objects_range [OF 1(1) new_managers_wf(7,8) 1(2)] by (auto simp: new_managers_wf configured_tags_def)
  ultimately show ?case
    using 1(11) by (auto simp: tagged_wf_def transports_wf_def table_wf_def intro: fewer_objects)
qed


lemma startOutbounds_duplicate:
  assumes "\<not> distinct (map sv_Tag obs)"
  shows "fst (startOutbounds byTag obs) \<noteq> None"
proof
  assume "fst (startOutbounds byTag obs) = None"
  then obtain evs where s: "start_loop outbound_words byTag obs [] [] = (None, evs)"
    by (metis prod.collapse startOutbounds_def)
  have "in_order obs []" by (simp add: in_order_def)
  from start_loop_order [OF this] s have o: "in_order obs evs" "length evs = length obs" by simp_all
  have "card (sv_Tag ` set obs) = length (map sv_Tag obs)"
    using in_order_all [OF o] in_order_tags(2) [OF o(1)] o(2) by simp
  with assms show False by (metis card_distinct list.set_map)
qed

text \<open>Before the stage \<^verbatim>\<open>start\<close> the outbound manager keeps its default.\<close>

definition same_default :: "box \<Rightarrow> box \<Rightarrow> bool" where
  "same_default b b' \<longleftrightarrow> om_outbounds (bx_outbound b') = om_outbounds (bx_outbound b) \<and>
     om_defaultTag (bx_outbound b') = om_defaultTag (bx_outbound b) \<and>
     om_defaultOutbound (bx_outbound b') = om_defaultOutbound (bx_outbound b)"

lemma part_Start_default:
  assumes "stage \<noteq> StartStateStart" and "part_Start stage part b = (r, evs, b')"
  shows "same_default b b'"
proof (cases "part = OutboundPart")
  case True
  with assms show ?thesis
    by (auto simp: Manager_Start_def same_default_def Let_def split: prod.splits if_splits)
next
  case False
  with assms show ?thesis by (cases part) (auto simp: same_default_def split: prod.splits)
qed

lemma adapter_Start_default:
  assumes "stage \<noteq> StartStateStart" and "adapter_Start stage parts b = (None, evs, b')"
  shows "same_default b b'"
  using assms(2) unfolding adapter_Start_def
proof (induction parts arbitrary: b evs)
  case (Cons part parts)
  from Cons.prems obtain evs1 b1 evs2 where one: "part_Start stage part b = (None, evs1, b1)"
    and rest: "run_starts (map (part_Start stage) parts) b1 = (None, evs2, b')"
    unfolding list.map run_starts_None by blast
  from part_Start_default [OF assms(1) one] Cons.IH [OF rest] show ?case by (simp add: same_default_def)
qed (simp add: same_default_def)

lemma initialize_default:
  assumes "run_starts initialize_phase b = (None, evs, b')"
  shows "same_default b b'" and "same_objects b b'"
proof -
  from assms obtain b0 b1 b2 e0 e1 e2 e3 where "start_logger b = (None, e0, b0)" "StartNamed StartStateInitialize b0 = (None, e1, b1)"
    and ad: "adapter_Start StartStateInitialize all_parts b1 = (None, e2, b2)" and "run_starts [] b2 = (None, e3, b')"
    unfolding initialize_phase_def run_starts_None all_parts_def by blast
  then have "b1 = b" "b' = b2" using start_logger_during_start StartNamed_during_start by force+
  with adapter_Start_default [OF _ ad] show "same_default b b'" by simp
  show "same_objects b b'" by (rule safe_startD(2) [OF safe_initialize TrueI assms])
qed

lemma fallback_clash:
  assumes "om_defaultTag m = []" and "om_defaultOutbound m = None" and "fallback = Inr direct"
    and "ob \<in> set (ep_Endpoints E)" and "sv_Tag ob = sv_Tag direct"
  shows "fst (Manager_Start E fallback StartStateStart m) \<noteq> None"
proof -
  let ?obs = "om_outbounds m @ [direct] @ ep_Endpoints E"
  have "sv_Tag direct \<in> sv_Tag ` set (ep_Endpoints E)" using assms(4,5) by (metis imageI)
  then have "\<not> distinct (map sv_Tag ?obs)" by simp
  from startOutbounds_duplicate [OF this, of "AList.update (sv_Tag direct) direct (om_outboundByTag m)"] assms(1-3) show ?thesis
    by (auto simp: Manager_Start_def resolve_default_def Let_def split: prod.splits)
qed

text \<open>Remark (endpoint_named_direct): without configured outbounds and without a final outbound the fallback
  outbound is made under the tag \<^verbatim>\<open>direct\<close>, which the checks of the options do not know of: a box
  with an endpoint of that tag does not start.\<close>

theorem endpoint_named_direct:
  assumes "om_defaultTag (bx_outbound b) = []" and "om_defaultOutbound (bx_outbound b) = None"
    and "bx_defaultOutboundFallback b = Inr direct" and "sv_Tag direct = ''direct''"
    and "ob \<in> set (mg_items (bx_endpoint b))" and "sv_Tag ob = ''direct''"
  shows "fst (Box_Start cc b) \<noteq> None"
proof
  assume "fst (Box_Start cc b) = None"
  then obtain evs b' where "box_start b = (None, evs, b')"
    by (auto simp: Box_Start_def close_on_error_def split: prod.splits option.splits if_splits)
  then obtain e1 b1 e2 where init: "run_starts initialize_phase b = (None, e1, b1)"
    and later: "run_starts later_phases b1 = (None, e2, b')"
    by (auto simp: box_start_phases run_starts_append split: prod.splits option.splits)
  from later obtain e3 b3 where "part_Start StartStateStart OutboundPart b1 = (None, e3, b3)"
    unfolding later_phases_def run_starts_None adapter_Start_def list.map by blast
  then have "fst (Manager_Start (endpoint_view_of (bx_endpoint b1)) (bx_defaultOutboundFallback b1) StartStateStart (bx_outbound b1)) = None"
    by (auto split: prod.splits)
  moreover have "fst (Manager_Start (endpoint_view_of (bx_endpoint b1)) (bx_defaultOutboundFallback b1) StartStateStart (bx_outbound b1)) \<noteq> None"
    by (rule fallback_clash [where direct = direct and ob = ob])
      (use assms initialize_default [OF init] in \<open>simp_all add: same_default_def same_objects_def endpoint_view_of_def\<close>)
  ultimately show False by simp
qed

section \<open>A sample configuration\<close>

definition object_registry :: "(unit, service) registry" where
  "object_registry = Register id Some () ''direct'' (\<lambda>n tag options. Inr (sample_outbound n tag [])) NewRegistry"

definition server_registry :: "(unit, dns_transport) registry" where
  "server_registry = Register id Some () ''udp'' (\<lambda>n tag options. Inr (sample_server n ''udp'' tag)) NewRegistry"

definition quiet_service :: "string \<Rightarrow> lifecycle_service" where
  "quiet_service name = \<lparr>ls_Name = name, ls_Start = (\<lambda>_. None), ls_Close = None\<rparr>"

definition sample_new_env :: "unit new_env" where
  "sample_new_env = \<lparr>ne_endpointRegistry = Some object_registry, ne_inboundRegistry = Some object_registry,
     ne_outboundRegistry = Some object_registry, ne_dnsTransportRegistry = Some server_registry,
     ne_serviceRegistry = Some object_registry, ne_isAndroid = False, ne_logFactory = Inr (None, None),
     ne_certificateStore = Inr (quiet_service ''certificate''), ne_network = Inr (), ne_router = Inr (), ne_dnsRouter = Inr (),
     ne_partStart = (\<lambda>_ _. None), ne_partClose = (\<lambda>_. None), ne_direct = (\<lambda>n. Inr (sample_outbound n ''direct'' [])),
     ne_localTransport = (\<lambda>n. Inr (sample_server n ''local'' ''local'')), ne_platform = None,
     ne_cacheFile = quiet_service ''cache-file'', ne_clashServer = Inr (quiet_service ''clash server''),
     ne_v2rayServer = Inr (True, quiet_service ''v2ray server''), ne_ntpDialer = Inr (), ne_ntpService = quiet_service ''ntp service''\<rparr>"

definition one_object :: "string \<Rightarrow> string \<Rightarrow> unit object_options" where
  "one_object type tag = \<lparr>oo_Type = type, oo_Tag = tag, oo_Options = None\<rparr>"

definition sample_box_options :: "unit box_options" where
  "sample_box_options = \<lparr>op_Endpoints = [one_object ''direct'' ''ep''], op_Inbounds = [one_object ''direct'' []],
     op_Outbounds = [one_object ''direct'' ''out''], op_Services = [one_object ''direct'' ''s''],
     op_Servers = [one_object ''udp'' ''dns''], op_routeFinal = [], op_dnsFinal = [], op_PlatformLogWriter = False,
     op_CacheFile = Some True, op_ClashAPI = False, op_V2RayListen = None, op_NTPEnabled = False, op_CertificateStore = [],
     op_Certificates = [], op_CertificatePath = [], op_CertificateDirectoryPath = []\<rparr>"

lemmas sample_box_defs = object_registry_def server_registry_def sample_new_env_def one_object_def sample_box_options_def
  sample_outbound_def sample_server_def quiet_service_def

lemmas New_defs = New_def require_registry_def needCertificateStore_def needCacheFile_def needClashAPI_def needV2RayAPI_def
  internal_services_def tag_or_index_def Register_def registry_register_def NewRegistry_def Registry_Create_def CreateDNSTransport_def registry_Create_def
  TransportManager_Create_def NewTransportManager_def insert_transport_def DNSTypeFakeIP_def TransportManager_Initialize_def
  EndpointManager_Create_def InboundManager_Create_def ServiceManager_Create_def tagged_Create_def insert_item_def NewTagManager_def
  Manager_Create_def NewManager_def insert_outbound_def map_err_def Let_def

definition sample_box :: box where "sample_box = projr (New sample_new_env sample_box_options)"

lemma sample_new: "New sample_new_env sample_box_options = Inr sample_box"
  unfolding sample_box_def
  by (simp add: New_defs sample_box_defs)

lemma sample_constructors: "constructors_ok sample_new_env"
  by (auto simp: constructors_ok_def fresh_registry_def sample_box_defs New_defs split: if_splits option.splits)

lemmas start_defs = Box_Start_def close_on_error_def box_start_def box_preStart_def adapter_Start_def StartNamed_def
  internal_Start_def start_logger_def Manager_Start_def InboundManager_Start_def ServiceManager_Start_def tagged_Start_def
  EndpointManager_Start_def TransportManager_Start_def already_started_def endpoint_view_of_def EndpointManager_Get_def
  resolve_default_def startOutbounds_def startTransports_def start_loop.simps LegacyStart_def called_def

lemma sample_started: "fst (Box_Start cc sample_box) = None"
  by (simp add: sample_box_def New_defs sample_box_defs start_defs)

theorem box_start_complete_witness:
  "stages_of 1 (fst (snd (Box_Start (\<lambda>_. None) sample_box))) = ListStartStages"
proof -
  obtain evs b' where st: "Box_Start (\<lambda>_. None) sample_box = (None, evs, b')"
    using sample_started [of "\<lambda>_. None"] by (metis prod_cases3 fst_conv)
  have "1 \<in> set (box_objects sample_box)"
    by (simp add: sample_box_def New_defs sample_box_defs box_objects_def)
  from box_start_complete [OF sample_new sample_constructors st this] st show ?thesis by simp
qed

theorem options_checked_keep_all_witness:
  "map sv_Tag (mg_items (bx_inbound sample_box)) = [''0''] \<and> map sv_Tag (om_outbounds (bx_outbound sample_box)) = [''out'']"
proof -
  have "checkOptions sample_box_options = Inr ()"
    by (simp add: checkOptions_def checkInbounds_def checkOutbounds_def sample_box_defs tag_or_index_def Let_def)
  moreover have "itoa 0 = ''0''" by code_simp
  ultimately show ?thesis using options_checked_keep_all [OF _ sample_new sample_constructors]
    by (simp add: configured_tags_def sample_box_defs tag_or_index_def)
qed

definition failing_box :: box where
  "failing_box = sample_box\<lparr>bx_partStart := \<lambda>part stage.
     if part = RouterPart \<and> stage = StartStatePostStart then Some ErrInvalid else None\<rparr>"

theorem started_is_closed_witness:
  "\<exists>evs b'. Box_Start (\<lambda>_. None) failing_box = (Some ErrInvalid, evs, b') \<and>
     ObjectStarted 1 StartStateStart \<in> set evs \<and> ObjectClosed 1 \<in> set evs"
proof -
  have "fst (box_start failing_box) = Some ErrInvalid" "ObjectStarted 1 StartStateStart \<in> set (fst (snd (box_start failing_box)))"
    by (simp_all add: failing_box_def sample_box_def New_defs sample_box_defs start_defs)
  then obtain evs0 b0 where "box_start failing_box = (Some ErrInvalid, evs0, b0)" "ObjectStarted 1 StartStateStart \<in> set evs0"
    by (metis prod.collapse)
  moreover obtain r1 evs1 b1 where "Box_Close (\<lambda>_. None) b0 = (r1, evs1, b1)" by (metis prod_cases3)
  ultimately obtain evs b' where st: "Box_Start (\<lambda>_. None) failing_box = (Some ErrInvalid, evs, b')"
    and ev: "ObjectStarted 1 StartStateStart \<in> set evs"
    by (simp add: Box_Start_def close_on_error_def ErrInvalid_def)
  have "\<not> bx_done failing_box" "1 \<notin> closeless_ids failing_box"
    by (auto simp: failing_box_def sample_box_def New_defs sample_box_defs closeless_ids_def)
  from started_is_closed [OF this(1) st ev this(2)] st ev show ?thesis by (simp add: ErrInvalid_def)
qed

theorem duplicate_service_dropped_witness:
  "\<exists>b. New sample_new_env (sample_box_options\<lparr>op_Services := [one_object ''direct'' ''s'', one_object ''direct'' ''s'']\<rparr>) = Inr b \<and>
     length (mg_items (bx_service b)) < 2"
proof -
  let ?ops = "sample_box_options\<lparr>op_Services := [one_object ''direct'' ''s'', one_object ''direct'' ''s'']\<rparr>"
  obtain b where b: "New sample_new_env ?ops = Inr b" by (simp add: New_defs sample_box_defs)
  from duplicate_service_dropped [OF b sample_constructors] b show ?thesis
    by (simp add: configured_tags_def sample_box_defs tag_or_index_def)
qed

theorem endpoint_named_direct_witness:
  "\<exists>b. New sample_new_env (sample_box_options\<lparr>op_Outbounds := [], op_Endpoints := [one_object ''direct'' ''direct'']\<rparr>) = Inr b \<and>
     fst (Box_Start (\<lambda>_. None) b) \<noteq> None"
proof -
  let ?ops = "sample_box_options\<lparr>op_Outbounds := [], op_Endpoints := [one_object ''direct'' ''direct'']\<rparr>"
  define b where "b = projr (New sample_new_env ?ops)"
  have new: "New sample_new_env ?ops = Inr b" by (simp add: b_def New_defs sample_box_defs)
  have "fst (Box_Start (\<lambda>_. None) b) \<noteq> None"
    by (rule endpoint_named_direct [where direct = "sample_outbound 5 ''direct'' []" and ob = "sample_outbound 1 ''direct'' []"])
      (simp_all add: b_def New_defs sample_box_defs)
  with new show ?thesis by blast
qed

end
