(* ===== verification/Spec2Isabelle.thy ===== *)
theory Spec2Isabelle
  imports Route_Props FakeIP Outbound_Manager DNS_Router_Props Outbound_Groups_Props Router_Lifecycle_Props
    Binary_Rule_Set_Match Sniffers_Props Dialers_Props Connection_Manager_Props Box_Props
begin

text \<open>
  \<^bold>\<open>radio-box: the routing core\<close>

  radio-box (a fork of sing-box, in Go) is a proxy platform. Connections arrive through
  inbounds; the router matches their metadata against a list of rules, runs the actions of
  the rules that match (sniffing, resolving, overriding, rejecting, hijacking DNS) and hands
  the connection to an outbound. Rules may refer to rule-sets, files or downloads of
  headless rules that are reloaded at run time. DNS queries go through rules of their own,
  matched twice, before and after the lookup; the transports a rule names race, behind a
  client with a cache. FakeIP answers DNS queries with made-up addresses and translates them
  back when a connection uses one. The outbound manager owns
  the outbounds and starts them in the order of their dependencies. This development models
  that core from the sources and proves what makes it correct, and where it is not, what it
  does instead.

  \<^bold>\<open>Theories\<close>

  \<^item> \<open>Prelude\<close>: machine words, errors and results, the loops that build rules, and the parts of
    the Go library (strings, number parsing, sets) that the sources use, with their lemmas.
  \<^item> \<open>Rule_Context\<close>: \<^verbatim>\<open>adapter.InboundContext\<close> (record \<open>inbound_context\<close>), addresses, and the
    parameters: \<open>lib\<close> for \<^verbatim>\<open>sagernet/sing\<close>, \<^verbatim>\<open>netipx\<close>, regular expressions and the text forms of
    addresses, \<open>runtime\<close> for the services a condition asks.
  \<^item> \<open>Rule_Items\<close>: one constructor, \<open>Match\<close> and \<open>String\<close> per file \<^verbatim>\<open>route/rule/rule_item_*.go\<close>.
  \<^item> \<open>Rule_Engine\<close>: \<^verbatim>\<open>rule_abstract.go\<close> (the matching of a default rule with its cached
    flags, and of a logical rule), headless, route and DNS rules, rule-set items, and the two
    phases of \<^verbatim>\<open>rule_dns.go\<close>.
  \<^item> \<open>Rule_Semantics\<close>: the declarative meaning of rules (\<open>default_verdict\<close>, \<open>logical_verdict\<close>) and
    the refinement: locale \<open>item_semantics\<close> is what the engine needs of a condition,
    \<open>rule_semantics\<close> what a logical rule needs of its sub-rules; both are interpreted on
    the model's items and on headless, route and DNS rules.
  \<^item> \<open>Rule_Action\<close>: \<^verbatim>\<open>option/rule_action.go\<close> and \<^verbatim>\<open>route/rule/rule_action.go\<close>: options and
    their checks, the actions built from them, their descriptions, the flood control of reject,
    the answer of a predefined action.
  \<^item> \<open>Rule_Options\<close>: the option records of \<^verbatim>\<open>option/rule.go\<close>, \<^verbatim>\<open>rule_dns.go\<close>, \<^verbatim>\<open>rule_set.go\<close> and the
    constructors \<^verbatim>\<open>NewRule\<close>, \<^verbatim>\<open>NewDNSRule\<close>, \<^verbatim>\<open>NewHeadlessRule\<close>, field by field.
  \<^item> \<open>Rule_Set\<close>: local and remote rule-sets (load, reload, fetch, cache, reference counts), and
    the start of rules that binds their rule-set items.
  \<^item> \<open>Rule_Build\<close>: what a built and started rule decides, in terms of its options.
  \<^item> \<open>Rule_Set_Props\<close>: properties of rule-sets and of DNS rules with rule-sets.
  \<^item> \<open>Byte_Reader\<close>: readers over a byte list and numbers in network order.
  \<^item> \<open>Binary_Rule_Set\<close>, \<open>Binary_Rule_Set_Props\<close>, \<open>Binary_Rule_Set_Match\<close>: the compiled format,
    \<^verbatim>\<open>common/srs\<close>; \<open>srs_lib\<close> holds the packages it calls, \<open>srs_laws\<close> what they promise, shown to hold
    of a concrete instance.
  \<^item> \<open>Sniff\<close>: the drivers of \<^verbatim>\<open>common/sniff/sniff.go\<close>; the sniffers are a parameter.
  \<^item> \<open>JA3\<close>, \<open>JA3_Props\<close>: the parser of client hellos, \<^verbatim>\<open>common/ja3\<close>.
  \<^item> \<open>Sniffers\<close>, \<open>Sniffers_Props\<close>: the sniffers of \<^verbatim>\<open>common/sniff\<close>, QUIC with its header protection,
    frames and reassembly among them. \<open>sniff_lib\<close> holds the packages they call; \<open>lib_no_panic\<close>, that these
    do not panic, is shown to hold of a concrete instance.
  \<^item> \<open>Route\<close>, \<open>Route_Props\<close>: \<^verbatim>\<open>route/route.go\<close>: \<open>matchRule\<close> with its actions, pre-match, and the
    handlers of TCP and UDP connections.
  \<^item> \<open>FakeIP\<close>: \<^verbatim>\<open>dns/transport/fakeip\<close>: store, storage in memory, transport. Locale
    \<open>fakeip_storage\<close> is the storage interface with its laws, interpreted on the memory storage. The storage
    in a cache file is a parameter; the properties are about stores that keep their entries in memory.
  \<^item> \<open>Start_Order\<close>: \<^verbatim>\<open>adapter/lifecycle*.go\<close> and the start in dependency order that the managers
    of outbounds and of DNS transports share; \<open>Outbound_Manager\<close>: \<^verbatim>\<open>adapter/outbound/manager.go\<close>.
  \<^item> \<open>Managers\<close>, \<open>Managers_Props\<close>: \<^verbatim>\<open>manager.go\<close> and \<^verbatim>\<open>registry.go\<close> of \<^verbatim>\<open>adapter/inbound\<close>, \<^verbatim>\<open>endpoint\<close> and
    \<^verbatim>\<open>service\<close>. Locale \<open>lifecycle_manager\<close> is what the box relies on in a manager of objects by tag;
    it is interpreted on these three and on the managers of outbounds and of DNS transports.
  \<^item> \<open>Box\<close>, \<open>Box_Props\<close>: \<^verbatim>\<open>box.go\<close> and the checks of \<^verbatim>\<open>option/options.go\<close>. A box holds the five managers;
    of the other parts it sees the errors that they return. What is started and closed is a
    list of events.
  \<^item> \<open>DNS_Message\<close>, \<open>DNS_Message_Props\<close>: fixed responses, addresses and times to live of messages
    (\<^verbatim>\<open>dns/client.go\<close>) and the client subnet (\<^verbatim>\<open>dns/extension_edns0_subnet.go\<close>). The package
    \<^verbatim>\<open>miekg/dns\<close> is the parameter \<open>dns_lib\<close>.
  \<^item> \<open>DNS_Client\<close>, \<open>DNS_Client_Props\<close>: \<^verbatim>\<open>Exchange\<close> and \<^verbatim>\<open>Lookup\<close> of \<^verbatim>\<open>dns/client.go\<close>, with cache,
    rejected responses and response check. The cache container and the store of rejected
    responses are parameters (\<open>lru_ops\<close>, \<open>rdrc_ops\<close>); \<open>lru_laws\<close> states what a cache that counts
    in milliseconds promises and is shown to hold of a list.
  \<^item> \<open>DNS_Transport_Manager\<close>: \<^verbatim>\<open>dns/transport_manager.go\<close>.
  \<^item> \<open>DNS_Router\<close>, \<open>DNS_Router_Props\<close>: \<^verbatim>\<open>dns/router.go\<close>. What the goroutines of a race bring is a
    sequence of arrivals, an argument of the model; \<open>exchange_round\<close> are the rounds of a query, one for each rule
    that is rejected; locale \<open>checked_client\<close> is what the router
    relies on when it gives the client a check, interpreted on the client without its cache.
  \<^item> \<open>Router_Lifecycle\<close>, \<open>Router_Lifecycle_Props\<close>: \<^verbatim>\<open>route/router.go\<close>, \<^verbatim>\<open>route/rule_conds.go\<close>, the
    start of \<^verbatim>\<open>dns/router.go\<close>, what \<^verbatim>\<open>protocol/tun/inbound.go\<close> does to rule-sets, and the order of all these
    in \<^verbatim>\<open>box.go\<close>. Locale \<open>counted_start\<close> is what a
    router relies on when it starts its rules; it is interpreted on route and DNS rules.
  \<^item> \<open>Outbound_Groups\<close>, \<open>Outbound_Groups_Props\<close>: \<^verbatim>\<open>protocol/group\<close> with \<^verbatim>\<open>common/interrupt\<close> and the
    history of \<^verbatim>\<open>common/urltest\<close>. Locale \<open>failover\<close> is what groups that try one member after the
    other promise; it is interpreted on the fallback and the load-balance group. What the members say of themselves,
    their networks and what they have selected, is a \<open>group_world\<close>, and another one at every step.
  \<^item> \<open>Dial_Race\<close>, \<open>Dialers\<close>, \<open>Dialers_Props\<close>: \<^verbatim>\<open>common/dialer\<close>: addresses one after the other, and the race
    between address families. Locale \<open>dial_race\<close> is what a race of dialers promises if it gives up
    exactly when all racers have failed; it is interpreted on the race of address families.
  \<^item> \<open>Connection_Manager\<close>, \<open>Connection_Manager_Props\<close>: \<^verbatim>\<open>route/conn.go\<close>. The two copying goroutines are
    program counters that a list of labels interleaves. Any I/O call may fail at any time; what ends without help of
    the peers is stated over \<open>unaided\<close> steps, where a call fails only on an end that is closed. Locale \<open>close_protocol\<close> is what closing a
    connection promises; it is interpreted on streams, where the second goroutine to finish runs
    the close handler, and on packets, where the first one does.

  \<^bold>\<open>How the model corresponds to the code\<close>

  A Go struct is a record, an interface with several implementations a datatype (rule items,
  rules, actions) or a record of functions (FakeIP storage). A method that writes to its
  receiver or to the metadata returns the new value; a method that can fail returns a sum with
  \<open>Inl\<close> the error; a panic is the error \<open>EPanic\<close>. The metadata is threaded through matching as
  the code threads its pointer, so the writes to the rule cache that one condition leaves for
  the next are in the model. Ports, IP versions and record types are words of their width;
  durations and times are integers of nanoseconds. Reads from a connection are lists, whose
  end is a deadline or a cancelled context.

  Every loop over a list is structural recursion. The two loops of the outbound manager that
  run until nothing changes have termination proofs: a pass that starts something lowers the
  number of outbounds that are not started, and the walk along missing dependencies never
  visits a tag twice. The loops of \<^verbatim>\<open>Exchange\<close> and \<^verbatim>\<open>Lookup\<close> over the DNS rules have one too: a
  rejected rule is followed by a later one. The loop over the items of a compiled rule takes a
  byte in every turn. The reader of nested compiled rules has the nesting that is left as an
  argument, at first the number of bytes; \<open>readRule_enough\<close> shows that any larger number gives
  the same. No other fuel is used. Two loops of the sniffers are partial functions with \<open>None\<close> for
  a run that does not end: the one over the extensions of a client hello, which ends on every
  input (\<open>ja3_returns\<close>), and the reassembly of a QUIC handshake, which ends when no fragment is
  empty (\<open>assemble_ends\<close>) and does not when the first one is.

  \<^bold>\<open>What the lemmas show\<close>

  \<^item> Rules: the engine with its caches decides what the documentation says
    (\<open>route_rule_documented\<close>, \<open>route_default_verdict\<close>, \<open>route_logical_verdict\<close>), matching has no
    lasting effect (\<open>route_match_frame\<close>), and when the two phases of DNS matching agree.
  \<^item> Rule-sets: reload and fetch are atomic, the cache file restores what was fetched (the time in whole seconds), started
    rules hold references, the flags used by the DNS router are sound; a compiled rule-set is
    read back and decides like its source.
  \<^item> Routing: the first matching rule with a final action is selected, a pre-match decision
    stands, outbounds serve the network they are given, no byte is lost by sniffing.
  \<^item> Sniffers: a QUIC handshake in pieces gives its server name, in any order of the pieces, and not
    before all are there; verdicts on a stream are final; all sniffers but QUIC are free of panics.
  \<^item> Connections: the close handler runs exactly once in every interleaving, bytes stay in order, a
    half-closed stream is completed, a failure ends both goroutines without help of the peers, the manager's list is exact; dialling
    tries every address and fails only when all have failed.
  \<^item> FakeIP in memory: round trip in every reachable state, and no reuse before the pool is exhausted.
  \<^item> Outbounds: start order, success exactly when an order exists and otherwise an error that names a real cycle or a tag
    that is not in the table, table and list agree.
  \<^item> The box: checked options give exactly the configured objects, a successful start takes every
    object through the four stages, and what was started is closed, also after a failed start.
  \<^item> DNS: the outcome of a race in every order of arrival, answers within the address limit of
    the rule, ageing of cached answers, what the cache can hold, termination of the search
    for a rule, the subnet in query and cache key, FakeIP never asked by a lookup.
  \<^item> Start of the routers: reference counts are exact, rule-sets nobody points to are emptied,
    and a start that succeeds does not depend on the schedule of the concurrent tasks.
  \<^item> Groups: order and completeness of failover, choice near the fastest member, stable
    selections (sticky, consistent hashing, restart of a selector), recovery after a check.
  \<^item> Where the code departs from this: shared cache between the rules of a rule-set, settings
    lost in logical headless rules, direct actions that are never selected, replay order of
    sniff buffers, duplicated packets, dropped options, removal and replacement of outbounds
    and DNS servers, a stale error of a lookup, overwritten OPT flags, lengths in compiled
    rule-sets and in client hellos that are not checked, QUIC packets that make the sniffer loop.

  \<^bold>\<open>What is not modelled\<close>

  Protocol implementations, transports, the platform bindings and the command line.
  JSON decoding is represented by the option records it fills and by the checks of the
  decoders. Except for the copying goroutines, the races and the start of rule-sets, locks and
  goroutines are left out: an operation is one step; logging has no effect.

  This theory holds the properties that span components.
\<close>

section \<open>FakeIP addresses in the router\<close>

text \<open>The store as the router asks it.\<close>

definition fakeip_service ::
  "'s fakeip_storage_ops \<Rightarrow> 's fakeip_store \<Rightarrow> (addr \<Rightarrow> bool) \<times> (addr \<Rightarrow> string option)" where
  "fakeip_service O1 s = (Store_Contains s, \<lambda>a. case Store_Lookup O1 a s of Inl _ \<Rightarrow> None | Inr d \<Rightarrow> d)"

text \<open>C31 (fakeip_connection_gets_domain): let a FakeIP store that keeps its entries in memory, with usable ranges, have
  just given an address to a domain that is not empty, in whatever state it was. A connection to this address that is
  mapped before the store changes again is matched with that domain and the connection's own port as its destination, and
  keeps the address as its origin. (Later the address can be given to another domain.)\<close>

theorem fakeip_connection_gets_domain:
  assumes "fakeip_reachable C r4 r6 s" and "configured False r4" and "configured True r6"
    and "usable v6 (if v6 then r6 else r4)"
    and "Store_Create (either_ops C memory_ops) d v6 s = (Inr a, s')" and "d \<noteq> []"
    and "re_fakeip E = Some (fakeip_service (either_ops C memory_ops) s')"
    and "sa_Addr (mc_Destination c) = a"
  shows "map_fakeip E c = (None, c\<lparr>mc_OriginDestination := mc_Destination c,
    mc_Destination := \<lparr>sa_Addr = NoAddr, sa_Port = sa_Port (mc_Destination c), sa_Fqdn = d\<rparr>, mc_FakeIP := True\<rparr>)"
proof -
  have "\<exists>a s'. Store_Create (either_ops C memory_ops) d v6 s = (Inr a, s') \<and> Addr_IsValid a \<and>
    Store_Contains s' a \<and> Store_Lookup (either_ops C memory_ops) a s' = Inr (Some d)"
    by (rule fakeip_create_known [OF assms(1-4)])
  with assms(5) have "Addr_IsValid a" "Store_Contains s' a" "Store_Lookup (either_ops C memory_ops) a s' = Inr (Some d)"
    by auto
  with assms(6-8) show ?thesis by (simp add: map_fakeip_def fakeip_service_def)
qed

theorem fakeip_connection_gets_domain_witness:
  "\<exists>a s'. Store_Create (either_ops memory_ops memory_ops) ''a.example'' False sample_store = (Inr a, s') \<and>
    sa_Fqdn (mc_Destination (snd (map_fakeip
      (sample_env\<lparr>re_fakeip := Some (fakeip_service (either_ops memory_ops memory_ops) s')\<rparr>)
      (new_context\<lparr>mc_Destination := \<lparr>sa_Addr = a, sa_Port = 443, sa_Fqdn = []\<rparr>\<rparr>)))) = ''a.example''"
proof -
  have u: "usable False (if False then NoPrefix else sample_range)" using sample_usable by simp
  obtain a s' where c: "Store_Create (either_ops memory_ops memory_ops) ''a.example'' False sample_store = (Inr a, s')"
    using fakeip_create_known [OF sample_store_reachable sample_usable(2,3) u] by blast
  from fakeip_connection_gets_domain [OF sample_store_reachable sample_usable(2,3) u c, of
      "sample_env\<lparr>re_fakeip := Some (fakeip_service (either_ops memory_ops memory_ops) s')\<rparr>"
      "new_context\<lparr>mc_Destination := \<lparr>sa_Addr = a, sa_Port = 443, sa_Fqdn = []\<rparr>\<rparr>"] c
  show ?thesis by simp
qed

end
